(* ===== verification/Glimpse_Prelude.thy ===== *)
theory Glimpse_Prelude
  imports Complex_Main "HOL-Library.Word" "HOL-Library.Multiset" "HOL-Library.List_Lexorder" "HOL-Library.Char_ord"
begin

text \<open>
  Shared vocabulary of the development: the collections of simplification rules that the
  component theories extend, the names of the Go integer types, the representation of a
  computation that may panic, and generic lemmas on lists and words.

  A Go computation that changes the state of the process is modelled by explicit state passing.
  A run-time panic (an index out of range, an explicit \<^verbatim>\<open>panic\<close>) is a value of its own
  (\<open>Panic\<close>), so that every statement that a handler does not panic is a statement about the
  result of the model and not a side condition.  A loop that does not end is the value \<open>Diverges\<close>.
\<close>

named_theorems go_simps \<open>rewrite rules for Go library functions\<close>
named_theorems dns_simps \<open>rewrite rules for DNS messages and handlers\<close>
named_theorems metric_simps \<open>rewrite rules for metric vectors and their stores\<close>

type_synonym uint16 = "16 word"
type_synonym uint32 = "32 word"
type_synonym uint64 = "64 word"
type_synonym byte = "8 word"

section \<open>Computations that may panic\<close>

datatype panic = IndexOutOfRange | SliceBounds | NilDereference | PanicError string | Diverges

datatype 'a run = Panic panic | Done 'a

definition run_bind :: "'a run \<Rightarrow> ('a \<Rightarrow> 'b run) \<Rightarrow> 'b run" where
  "run_bind r f = (case r of Panic p \<Rightarrow> Panic p | Done x \<Rightarrow> f x)"

definition panics :: "'a run \<Rightarrow> bool" where
  "panics r = (case r of Panic _ \<Rightarrow> True | Done _ \<Rightarrow> False)"

lemma run_bind_simps [simp]:
  "run_bind (Panic p) f = Panic p"
  "run_bind (Done x) f = f x"
  by (simp_all add: run_bind_def)

lemma run_bind_assoc: "run_bind (run_bind r f) g = run_bind r (\<lambda>x. run_bind (f x) g)"
  by (cases r) simp_all

lemma run_bind_Done_iff:
  "run_bind r f = Done y \<longleftrightarrow> (\<exists>x. r = Done x \<and> f x = Done y)"
  by (cases r) simp_all

lemma panics_simps [simp]: "panics (Panic p)" "\<not> panics (Done x)"
  by (simp_all add: panics_def)

lemma not_panics_iff: "\<not> panics r \<longleftrightarrow> (\<exists>x. r = Done x)"
  by (cases r) simp_all

section \<open>Lists\<close>

lemma takeWhile_neq_append [simp]:
  "d \<notin> set xs \<Longrightarrow> takeWhile (\<lambda>c. c \<noteq> d) (xs @ d # ys) = xs"
  by (induction xs) auto

lemma dropWhile_neq_append [simp]:
  "d \<notin> set xs \<Longrightarrow> dropWhile (\<lambda>c. c \<noteq> d) (xs @ d # ys) = d # ys"
  by (induction xs) auto

lemma takeWhile_dropWhile_neq:
  "d \<in> set xs \<Longrightarrow>
    xs = takeWhile (\<lambda>c. c \<noteq> d) xs @ d # tl (dropWhile (\<lambda>c. c \<noteq> d) xs)"
  by (induction xs) auto

lemma takeWhile_neq_notin: "d \<notin> set (takeWhile (\<lambda>c. c \<noteq> d) xs)"
  using set_takeWhileD by fastforce

end
