(* ===== verification/Go_Strings.thy ===== *)
theory Go_Strings
  imports Glimpse_Prelude
begin

text \<open>
  The part of Go's \<^verbatim>\<open>strings\<close>, \<^verbatim>\<open>unicode\<close>, \<^verbatim>\<open>fmt\<close> and \<^verbatim>\<open>bufio\<close> packages that the
  agent calls.  Go strings are byte strings, so they are modelled by \<^typ>\<open>string\<close> (lists of
  8-bit characters).  Functions that return -1 for ``not found'' do so here as well, at type
  \<^typ>\<open>int\<close>.
\<close>

section \<open>Prefixes, suffixes and substring search\<close>

definition HasPrefix :: "string \<Rightarrow> string \<Rightarrow> bool" where
  "HasPrefix s p \<longleftrightarrow> length p \<le> length s \<and> take (length p) s = p"

definition HasSuffix :: "string \<Rightarrow> string \<Rightarrow> bool" where
  "HasSuffix s q \<longleftrightarrow> length q \<le> length s \<and> drop (length s - length q) s = q"

fun Index :: "string \<Rightarrow> string \<Rightarrow> int" where
  "Index [] sep = (if sep = [] then 0 else - 1)"
| "Index (c # s) sep =
     (if HasPrefix (c # s) sep then 0
      else let i = Index s sep in if i < 0 then - 1 else i + 1)"

fun LastIndex :: "string \<Rightarrow> string \<Rightarrow> int" where
  "LastIndex [] sep = (if sep = [] then 0 else - 1)"
| "LastIndex (c # s) sep =
     (let i = LastIndex s sep
      in if 0 \<le> i then i + 1 else if HasPrefix (c # s) sep then 0 else - 1)"

definition Contains :: "string \<Rightarrow> string \<Rightarrow> bool" where
  "Contains s sub \<longleftrightarrow> 0 \<le> Index s sub"

definition TrimSuffix :: "string \<Rightarrow> string \<Rightarrow> string" where
  "TrimSuffix s q = (if HasSuffix s q then take (length s - length q) s else s)"

lemma HasPrefix_iff [go_simps]: "HasPrefix s p \<longleftrightarrow> (\<exists>t. s = p @ t)"
proof
  assume "HasPrefix s p"
  then have "s = p @ drop (length p) s"
    unfolding HasPrefix_def by (metis append_take_drop_id)
  then show "\<exists>t. s = p @ t" ..
qed (auto simp: HasPrefix_def)

lemma HasSuffix_iff [go_simps]: "HasSuffix s q \<longleftrightarrow> (\<exists>t. s = t @ q)"
proof
  assume "HasSuffix s q"
  then have "s = take (length s - length q) s @ q"
    unfolding HasSuffix_def by (metis append_take_drop_id)
  then show "\<exists>t. s = t @ q" ..
qed (auto simp: HasSuffix_def)

lemma HasSuffix_append [simp]: "HasSuffix (s @ q) q"
  by (simp add: HasSuffix_def)

lemma LastIndex_bounds: "- 1 \<le> LastIndex s sep \<and> LastIndex s sep \<le> int (length s)"
  by (induction s) (auto simp: Let_def)

lemma Index_bounds: "- 1 \<le> Index s sep \<and> Index s sep \<le> int (length s)"
  by (induction s) (auto simp: Let_def)

text \<open>A hit of \<^const>\<open>LastIndex\<close> is an occurrence, and it is the last one.\<close>

lemma LastIndex_hit:
  "0 \<le> LastIndex s sep \<Longrightarrow> HasPrefix (drop (nat (LastIndex s sep)) s) sep"
proof (induction s)
  case Nil
  then show ?case by (auto simp: HasPrefix_def split: if_splits)
next
  case (Cons c s)
  then show ?case by (auto simp: Let_def nat_add_distrib split: if_splits)
qed

lemma LastIndex_last:
  "HasPrefix (drop i s) sep \<Longrightarrow> i \<le> length s \<Longrightarrow> int i \<le> LastIndex s sep"
proof (induction s arbitrary: i)
  case Nil
  then show ?case by (auto simp: HasPrefix_def)
next
  case (Cons c s)
  show ?case
  proof (cases i)
    case 0
    then show ?thesis using Cons.prems by (auto simp: Let_def)
  next
    case (Suc j)
    then have "int j \<le> LastIndex s sep" using Cons by simp
    then show ?thesis using Suc by (simp add: Let_def)
  qed
qed

lemma LastIndex_append_suffix:
  assumes "sep \<noteq> []"
  shows "LastIndex (s @ sep) sep = int (length s)"
proof -
  have "HasPrefix (drop (length s) (s @ sep)) sep" by (simp add: HasPrefix_def)
  then have le: "int (length s) \<le> LastIndex (s @ sep) sep"
    by (rule LastIndex_last) simp
  then have "HasPrefix (drop (nat (LastIndex (s @ sep) sep)) (s @ sep)) sep"
    by (intro LastIndex_hit) simp
  then have "length sep \<le> length (drop (nat (LastIndex (s @ sep) sep)) (s @ sep))"
    unfolding HasPrefix_def ..
  with le assms show ?thesis by (cases sep) auto
qed

lemma LastIndex_neg_iff: "LastIndex s sep < 0 \<longleftrightarrow> \<not> (\<exists>a b. s = a @ sep @ b)"
proof -
  have "LastIndex s sep < 0 \<Longrightarrow> s \<noteq> a @ sep @ b" for a b
    using LastIndex_last [of "length a" s sep] by (auto simp: HasPrefix_def)
  moreover have "\<exists>a b. s = a @ sep @ b" if "\<not> LastIndex s sep < 0"
  proof -
    from that obtain t where "drop (nat (LastIndex s sep)) s = sep @ t"
      using LastIndex_hit [of s sep] by (auto simp: HasPrefix_iff)
    then have "s = take (nat (LastIndex s sep)) s @ sep @ t"
      by (metis append_take_drop_id)
    then show ?thesis by blast
  qed
  ultimately show ?thesis by blast
qed

lemma Contains_iff: "Contains s sub \<longleftrightarrow> (\<exists>a b. s = a @ sub @ b)"
proof (induction s)
  case Nil
  then show ?case by (auto simp: Contains_def)
next
  case (Cons c s)
  have "Contains (c # s) sub \<longleftrightarrow> HasPrefix (c # s) sub \<or> Contains s sub"
    by (auto simp: Contains_def Let_def)
  also have "\<dots> \<longleftrightarrow> (\<exists>b. c # s = sub @ b) \<or> (\<exists>a b. s = a @ sub @ b)"
    by (simp add: Cons.IH HasPrefix_iff)
  also have "\<dots> \<longleftrightarrow> (\<exists>a b. c # s = a @ sub @ b)"
    by (metis append_Cons append_Nil neq_Nil_conv list.inject)
  finally show ?case .
qed


section \<open>Split, SplitN and Join\<close>

text \<open>
  Every separator the agent splits at is a single byte.  \<open>SplitN s d n\<close> returns at most
  \<open>n\<close> pieces, the last one unsplit; \<open>Split s d\<close> splits at every occurrence.
\<close>

fun Split :: "string \<Rightarrow> char \<Rightarrow> string list" where
  "Split [] d = [[]]"
| "Split (c # s) d =
     (if c = d then [] # Split s d
      else (case Split s d of [] \<Rightarrow> [[c]] | f # fs \<Rightarrow> (c # f) # fs))"

fun SplitN :: "string \<Rightarrow> char \<Rightarrow> nat \<Rightarrow> string list" where
  "SplitN s d 0 = []"
| "SplitN s d (Suc 0) = [s]"
| "SplitN s d (Suc (Suc n)) =
     (if d \<in> set s
      then takeWhile (\<lambda>c. c \<noteq> d) s # SplitN (tl (dropWhile (\<lambda>c. c \<noteq> d) s)) d (Suc n)
      else [s])"

fun Join :: "string list \<Rightarrow> string \<Rightarrow> string" where
  "Join [] sep = []"
| "Join [f] sep = f"
| "Join (f # g # fs) sep = f @ sep @ Join (g # fs) sep"

lemma Split_not_Nil [simp]: "Split s d \<noteq> []"
  by (induction s) (auto split: list.splits)

lemma Split_no_sep: "d \<notin> set s \<Longrightarrow> Split s d = [s]"
  by (induction s) auto

lemma Split_append: "d \<notin> set f \<Longrightarrow> Split (f @ d # s) d = f # Split s d"
  by (induction f) auto

lemma Join_Cons_Cons: "Join ((c # f) # fs) sep = c # Join (f # fs) sep"
  by (cases fs) simp_all

lemma Join_Nil_Cons: "fs \<noteq> [] \<Longrightarrow> Join ([] # fs) sep = sep @ Join fs sep"
  by (cases fs) simp_all

lemma Join_Split: "Join (Split s d) [d] = s"
  by (induction s) (auto simp: Join_Cons_Cons Join_Nil_Cons split: list.splits)

lemma Split_pieces: "f \<in> set (Split s d) \<Longrightarrow> d \<notin> set f"
  by (induction s arbitrary: f) (auto split: if_splits list.splits)

lemma Split_Join:
  "fs \<noteq> [] \<Longrightarrow> (\<forall>f \<in> set fs. d \<notin> set f) \<Longrightarrow> Split (Join fs [d]) d = fs"
  by (induction fs "[d]" rule: Join.induct) (auto simp: Split_no_sep Split_append)

lemma SplitN_no_sep: "d \<notin> set s \<Longrightarrow> SplitN s d (Suc n) = [s]"
  by (cases n) auto

lemma SplitN_append:
  "d \<notin> set f \<Longrightarrow> SplitN (f @ d # s) d (Suc (Suc n)) = f # SplitN s d (Suc n)"
  by simp

lemma SplitN_Suc_not_Nil [simp]: "SplitN s d (Suc n) \<noteq> []"
  by (cases n) auto

lemma Join_SplitN: "0 < n \<Longrightarrow> Join (SplitN s d n) [d] = s"
proof (induction s d n rule: SplitN.induct)
  case (3 s d n)
  show ?case
  proof (cases "d \<in> set s")
    case True
    let ?t = "tl (dropWhile (\<lambda>c. c \<noteq> d) s)"
    have IH: "Join (SplitN ?t d (Suc n)) [d] = ?t" using 3 True by simp
    obtain g gs where g: "SplitN ?t d (Suc n) = g # gs"
      by (cases "SplitN ?t d (Suc n)") auto
    show ?thesis
      using True IH g takeWhile_dropWhile_neq [of d s] by simp
  qed simp
qed auto

lemma length_SplitN: "length (SplitN s d n) \<le> n"
  by (induction s d n rule: SplitN.induct) auto

section \<open>White space\<close>

text \<open>
  \<^verbatim>\<open>strings.TrimSpace\<close> and \<^verbatim>\<open>strings.Fields\<close> cut at the runes for which
  \<^verbatim>\<open>unicode.IsSpace\<close> holds.  On byte strings these are the UTF-8 encodings of the code points
  of the White\_Space property; no encoding is a proper prefix or suffix of another and a lead
  byte never occurs as a continuation byte, so cutting at runes is cutting at these byte
  sequences.
\<close>

definition go_spaces :: "string list" where
  "go_spaces =
     [[CHR 0x09], [CHR 0x0A], [CHR 0x0B], [CHR 0x0C], [CHR 0x0D], [CHR 0x20],
      [CHR 0xC2, CHR 0x85], [CHR 0xC2, CHR 0xA0], [CHR 0xE1, CHR 0x9A, CHR 0x80],
      [CHR 0xE2, CHR 0x80, CHR 0x80], [CHR 0xE2, CHR 0x80, CHR 0x81],
      [CHR 0xE2, CHR 0x80, CHR 0x82], [CHR 0xE2, CHR 0x80, CHR 0x83],
      [CHR 0xE2, CHR 0x80, CHR 0x84], [CHR 0xE2, CHR 0x80, CHR 0x85],
      [CHR 0xE2, CHR 0x80, CHR 0x86], [CHR 0xE2, CHR 0x80, CHR 0x87],
      [CHR 0xE2, CHR 0x80, CHR 0x88], [CHR 0xE2, CHR 0x80, CHR 0x89],
      [CHR 0xE2, CHR 0x80, CHR 0x8A], [CHR 0xE2, CHR 0x80, CHR 0xA8],
      [CHR 0xE2, CHR 0x80, CHR 0xA9], [CHR 0xE2, CHR 0x80, CHR 0xAF],
      [CHR 0xE2, CHR 0x81, CHR 0x9F], [CHR 0xE3, CHR 0x80, CHR 0x80]]"

fun strip_one :: "string list \<Rightarrow> string \<Rightarrow> string option" where
  "strip_one [] s = None"
| "strip_one (sp # sps) s =
     (if sp \<noteq> [] \<and> HasPrefix s sp then Some (drop (length sp) s) else strip_one sps s)"

lemma strip_one_shorter: "strip_one sps s = Some t \<Longrightarrow> length t < length s"
  by (induction sps) (auto simp: HasPrefix_def neq_Nil_conv split: if_splits)

function trim_left :: "string list \<Rightarrow> string \<Rightarrow> string" where
  "trim_left sps s = (case strip_one sps s of None \<Rightarrow> s | Some t \<Rightarrow> trim_left sps t)"
  by pat_completeness auto
termination
  by (relation "measure (\<lambda>(sps, s). length s)") (auto dest: strip_one_shorter)

declare trim_left.simps [simp del]

definition TrimSpace :: "string \<Rightarrow> string" where
  "TrimSpace s = rev (trim_left (map rev go_spaces) (rev (trim_left go_spaces s)))"

function fields_from :: "string \<Rightarrow> string \<Rightarrow> string list" where
  "fields_from cur s =
     (case s of
        [] \<Rightarrow> (if cur = [] then [] else [rev cur])
      | c # s' \<Rightarrow>
          (case strip_one go_spaces s of
             None \<Rightarrow> fields_from (c # cur) s'
           | Some t \<Rightarrow> (if cur = [] then [] else [rev cur]) @ fields_from [] t))"
  by pat_completeness auto
termination
  by (relation "measure (\<lambda>(cur, s). length s)") (auto dest: strip_one_shorter)

declare fields_from.simps [simp del]

definition Fields :: "string \<Rightarrow> string list" where
  "Fields s = fields_from [] s"

lemma trim_left_fixed: "strip_one sps (trim_left sps s) = None"
  by (induction sps s rule: trim_left.induct)
     (subst trim_left.simps, auto split: option.splits)

lemma trim_left_suffix: "\<exists>p. s = p @ trim_left sps s"
proof (induction sps s rule: trim_left.induct)
  case (1 sps s)
  show ?case
  proof (cases "strip_one sps s")
    case None
    then show ?thesis by (simp add: trim_left.simps)
  next
    case (Some t)
    then obtain p where "t = p @ trim_left sps t" using 1 by blast
    moreover have "\<exists>q. s = q @ t"
      using Some by (induction sps) (auto simp: HasPrefix_iff split: if_splits)
    ultimately show ?thesis using Some by (metis append_assoc option.simps(5) trim_left.simps)
  qed
qed

text \<open>The result of \<^const>\<open>TrimSpace\<close> is a contiguous part of its argument.\<close>

lemma TrimSpace_infix: "\<exists>p q. s = p @ TrimSpace s @ q"
proof -
  obtain p where p: "s = p @ trim_left go_spaces s" using trim_left_suffix by blast
  obtain q where q: "rev (trim_left go_spaces s) =
      q @ trim_left (map rev go_spaces) (rev (trim_left go_spaces s))"
    using trim_left_suffix by blast
  from q have "trim_left go_spaces s = TrimSpace s @ rev q"
    unfolding TrimSpace_def by (metis rev_append rev_rev_ident)
  with p show ?thesis by metis
qed

section \<open>Line scanner\<close>

text \<open>
  \<^verbatim>\<open>bufio.NewScanner\<close> with its default split function: the lines without their line feed and
  without one trailing carriage return; a last line is produced without a line feed unless it is
  empty.  The scanner stops with an error at a line that does not fit in its 64 kB buffer.
  The result is the list of scanned lines and whether the scan ended with that error.
\<close>

definition maxTokenSize :: nat where
  "maxTokenSize = 65536"

definition dropCR :: "string \<Rightarrow> string" where
  "dropCR l = (if l \<noteq> [] \<and> last l = CHR 0x0D then butlast l else l)"

fun scan_pieces :: "string list \<Rightarrow> string list \<times> bool" where
  "scan_pieces [] = ([], False)"
| "scan_pieces (l # ls) =
     (if maxTokenSize \<le> length l then ([], True)
      else if ls = [] \<and> l = [] then ([], False)
      else let (rest, err) = scan_pieces ls in (dropCR l # rest, err))"

definition ScanLines :: "string \<Rightarrow> string list \<times> bool" where
  "ScanLines b = scan_pieces (Split b (CHR 0x0A))"

section \<open>Replacement\<close>

text \<open>
  The number of bytes of the first UTF-8 encoded character; a byte that does not start a valid
  encoding counts as a character of its own.
\<close>

definition cont_byte :: "char \<Rightarrow> bool" where
  "cont_byte c \<longleftrightarrow> 0x80 \<le> (of_char c :: nat) \<and> (of_char c :: nat) \<le> 0xBF"

definition rune_len :: "string \<Rightarrow> nat" where
  "rune_len s =
     (case s of
        c0 # c1 # rest \<Rightarrow>
          let b0 = (of_char c0 :: nat); b1 = (of_char c1 :: nat) in
          if 0xC2 \<le> b0 \<and> b0 \<le> 0xDF \<and> cont_byte c1 then 2
          else if 0xE0 \<le> b0 \<and> b0 \<le> 0xEF \<and> cont_byte c1 \<and>
            (b0 = 0xE0 \<longrightarrow> 0xA0 \<le> b1) \<and> (b0 = 0xED \<longrightarrow> b1 \<le> 0x9F) then
            (case rest of c2 # _ \<Rightarrow> if cont_byte c2 then 3 else 1 | [] \<Rightarrow> 1)
          else if 0xF0 \<le> b0 \<and> b0 \<le> 0xF4 \<and> cont_byte c1 \<and>
            (b0 = 0xF0 \<longrightarrow> 0x90 \<le> b1) \<and> (b0 = 0xF4 \<longrightarrow> b1 \<le> 0x8F) then
            (case rest of
               c2 # c3 # _ \<Rightarrow> if cont_byte c2 \<and> cont_byte c3 then 4 else 1
             | _ \<Rightarrow> 1)
          else 1
      | _ \<Rightarrow> 1)"

lemma rune_len_pos [simp]: "0 < rune_len s"
  by (auto simp: rune_len_def Let_def split: list.splits)

text \<open>
  \<^verbatim>\<open>strings.Replace\<close> with a negative count: all non-overlapping occurrences from the left; an
  empty pattern matches at the beginning and after every character.
\<close>

function replace_from :: "string \<Rightarrow> string \<Rightarrow> string \<Rightarrow> string" where
  "replace_from old new [] = []"
| "replace_from old new (c # s) =
     (if old \<noteq> [] \<and> HasPrefix (c # s) old
      then new @ replace_from old new (drop (length old) (c # s))
      else c # replace_from old new s)"
  by pat_completeness auto
termination
  by (relation "measure (\<lambda>(old, new, s). length s)") (auto simp: neq_Nil_conv)

function intersperse_runes :: "string \<Rightarrow> string \<Rightarrow> string" where
  "intersperse_runes new s =
     (if s = [] then new
      else new @ take (rune_len s) s @ intersperse_runes new (drop (rune_len s) s))"
  by pat_completeness auto
termination
  by (relation "measure (\<lambda>(new, s). length s)") auto

declare intersperse_runes.simps [simp del]

definition ReplaceAll :: "string \<Rightarrow> string \<Rightarrow> string \<Rightarrow> string" where
  "ReplaceAll s old new =
     (if old = new then s else if old = [] then intersperse_runes new s else replace_from old new s)"

lemma replace_from_none:
  "old \<noteq> [] \<Longrightarrow> \<not> Contains s old \<Longrightarrow> replace_from old new s = s"
proof (induction s)
  case (Cons c s)
  then have "\<not> HasPrefix (c # s) old" "\<not> Contains s old"
    by (auto simp: Contains_def Let_def split: if_splits)
  then show ?case using Cons by simp
qed simp

text \<open>
  Replacing a suffix that occurs nowhere else exchanges the suffix.
\<close>

lemma replace_from_suffix:
  assumes "old \<noteq> []" "\<forall>a b. p @ old = a @ old @ b \<longrightarrow> b = []"
  shows "replace_from old new (p @ old) = p @ new"
  using assms(2)
proof (induction p)
  case Nil
  obtain c s where old: "old = c # s" using assms(1) by (cases old) auto
  have "HasPrefix old old" by (simp add: HasPrefix_def)
  then show ?case using old by simp
next
  case (Cons c p)
  have "\<not> HasPrefix (c # p @ old) old"
  proof
    assume "HasPrefix (c # p @ old) old"
    then obtain t where t: "(c # p) @ old = old @ t" by (auto simp: HasPrefix_iff)
    then have "t = []" using Cons.prems [rule_format, of "[]" t] by simp
    then show False using arg_cong [OF t, of length] by simp
  qed
  moreover have "\<forall>a b. p @ old = a @ old @ b \<longrightarrow> b = []"
    using Cons.prems by (metis append_Cons)
  ultimately show ?case using Cons.IH by simp
qed

end
