(* ===== verification/Go_Strconv.thy ===== *)
theory Go_Strconv
  imports Go_Strings
begin

text \<open>
  The part of Go's \<^verbatim>\<open>strconv\<close> and \<^verbatim>\<open>fmt\<close> packages that the agent calls: decimal printing,
  \<^verbatim>\<open>strconv.ParseInt(s, 10, 64)\<close> (which is \<^verbatim>\<open>strconv.Atoi\<close> on a 64-bit platform) with its two
  errors, and \<^verbatim>\<open>fmt.Sprintf\<close> for the verbs \<^verbatim>\<open>%s\<close> and \<^verbatim>\<open>%d\<close>, the only ones in the formats
  that the modelled code renders.
\<close>

section \<open>Decimal digits\<close>

definition digit_char :: "nat \<Rightarrow> char" where
  "digit_char d = char_of (48 + d)"

definition is_digit :: "char \<Rightarrow> bool" where
  "is_digit c \<longleftrightarrow> 48 \<le> (of_char c :: nat) \<and> (of_char c :: nat) \<le> 57"

definition digit_val :: "char \<Rightarrow> nat" where
  "digit_val c = of_char c - 48"

fun utoa :: "nat \<Rightarrow> string" where
  "utoa n = (if n < 10 then [digit_char n] else utoa (n div 10) @ [digit_char (n mod 10)])"

declare utoa.simps [simp del]

definition Itoa :: "int \<Rightarrow> string" where
  "Itoa i = (if i < 0 then CHR ''-'' # utoa (nat (- i)) else utoa (nat i))"

definition digits_val :: "string \<Rightarrow> nat" where
  "digits_val s = foldl (\<lambda>n c. 10 * n + digit_val c) 0 s"

lemma digit_char_digit [simp]: "d < 10 \<Longrightarrow> is_digit (digit_char d)"
  by (simp add: is_digit_def digit_char_def)

lemma digit_val_digit_char [simp]: "d < 10 \<Longrightarrow> digit_val (digit_char d) = d"
  by (simp add: digit_val_def digit_char_def)

lemma utoa_not_Nil [simp]: "utoa n \<noteq> []"
  by (subst utoa.simps) simp

lemma utoa_digits: "c \<in> set (utoa n) \<Longrightarrow> is_digit c"
proof (induction n arbitrary: c rule: utoa.induct)
  case (1 n)
  then show ?case by (subst (asm) utoa.simps) (auto split: if_splits)
qed

lemma digits_val_append: "digits_val (s @ [c]) = 10 * digits_val s + digit_val c"
  by (simp add: digits_val_def)

lemma digits_val_utoa [simp]: "digits_val (utoa n) = n"
proof (induction n rule: utoa.induct)
  case (1 n)
  show ?case
  proof (cases "n < 10")
    case True
    then show ?thesis by (simp add: utoa.simps digits_val_def)
  next
    case False
    then have "digits_val (utoa n) = 10 * (n div 10) + n mod 10"
      using 1 by (subst utoa.simps) (simp add: digits_val_append)
    then show ?thesis by simp
  qed
qed

lemma utoa_inj: "utoa m = utoa n \<Longrightarrow> m = n"
  by (metis digits_val_utoa)

section \<open>ParseInt\<close>

datatype num_error = ErrSyntax | ErrRange

definition ParseUint :: "string \<Rightarrow> num_error + nat" where
  "ParseUint s =
     (if s = [] then Inl ErrSyntax
      else if \<exists>c \<in> set s. \<not> is_digit c then Inl ErrSyntax
      else if 2 ^ 64 \<le> digits_val s then Inl ErrRange
      else Inr (digits_val s))"

definition ParseInt :: "string \<Rightarrow> num_error + int" where
  "ParseInt s =
     (case s of
        [] \<Rightarrow> Inl ErrSyntax
      | c # s' \<Rightarrow>
          let neg = (c = CHR ''-'');
              body = (if c = CHR ''+'' \<or> c = CHR ''-'' then s' else s)
          in (case ParseUint body of
                Inl e \<Rightarrow> Inl e
              | Inr un \<Rightarrow>
                  if \<not> neg \<and> 2 ^ 63 \<le> un then Inl ErrRange
                  else if neg \<and> 2 ^ 63 < un then Inl ErrRange
                  else Inr (if neg then - int un else int un)))"

abbreviation Atoi :: "string \<Rightarrow> num_error + int" where
  "Atoi \<equiv> ParseInt"

lemma is_digit_not_sign: "is_digit c \<Longrightarrow> c \<noteq> CHR ''+'' \<and> c \<noteq> CHR ''-''"
  by (auto simp: is_digit_def)

lemma ParseInt_digits:
  assumes "s \<noteq> []" "\<forall>c \<in> set s. is_digit c"
  shows "ParseInt s = (if digits_val s < 2 ^ 63 then Inr (int (digits_val s)) else Inl ErrRange)"
proof -
  obtain c s' where s: "s = c # s'" using assms(1) by (cases s) auto
  then have "c \<noteq> CHR ''+'' \<and> c \<noteq> CHR ''-''"
    using assms(2) is_digit_not_sign by simp
  then show ?thesis using assms s by (auto simp: ParseInt_def ParseUint_def Let_def)
qed

lemma ParseInt_utoa: "n < 2 ^ 63 \<Longrightarrow> ParseInt (utoa n) = Inr (int n)"
  using ParseInt_digits [of "utoa n"] utoa_digits by auto

lemma ParseInt_Itoa:
  assumes "- (2 ^ 63) \<le> i" "i < 2 ^ 63"
  shows "ParseInt (Itoa i) = Inr i"
proof (cases "i < 0")
  case True
  have "\<not> (\<exists>c \<in> set (utoa (nat (- i))). \<not> is_digit c)" using utoa_digits by blast
  then show ?thesis
    using True assms by (auto simp: Itoa_def ParseInt_def ParseUint_def Let_def)
next
  case False
  then show ?thesis using assms ParseInt_utoa [of "nat i"] by (simp add: Itoa_def)
qed

lemma ParseInt_range: "ParseInt s = Inr i \<Longrightarrow> - (2 ^ 63) \<le> i \<and> i < 2 ^ 63"
  by (auto simp: ParseInt_def Let_def split: list.splits sum.splits if_splits)

section \<open>Sprintf\<close>

datatype fmt_arg = SArg string | DArg int

definition show_extra :: "fmt_arg \<Rightarrow> string" where
  "show_extra a = (case a of SArg s \<Rightarrow> ''string='' @ s | DArg i \<Rightarrow> ''int='' @ Itoa i)"

definition fmt_verb :: "char \<Rightarrow> fmt_arg \<Rightarrow> string" where
  "fmt_verb v a =
     (case a of
        SArg s \<Rightarrow> if v = CHR ''s'' then s else ''%!'' @ [v] @ ''('' @ show_extra a @ '')''
      | DArg i \<Rightarrow> if v = CHR ''d'' then Itoa i else ''%!'' @ [v] @ ''('' @ show_extra a @ '')'')"

fun Sprintf :: "string \<Rightarrow> fmt_arg list \<Rightarrow> string" where
  "Sprintf [] [] = []"
| "Sprintf [] (a # as) = ''%!(EXTRA '' @ Join (map show_extra (a # as)) '', '' @ '')''"
| "Sprintf [c] as = (if c = CHR ''%'' then ''%!(NOVERB)'' else [c]) @ Sprintf [] as"
| "Sprintf (c # v # f) as =
     (if c \<noteq> CHR ''%'' then c # Sprintf (v # f) as
      else if v = CHR ''%'' then CHR ''%'' # Sprintf f as
      else (case as of
              [] \<Rightarrow> ''%!'' @ [v] @ ''(MISSING)'' @ Sprintf f []
            | a # as' \<Rightarrow> fmt_verb v a @ Sprintf f as'))"

lemma fmt_verb_simps [simp]: "fmt_verb CHR ''s'' (SArg s) = s" "fmt_verb CHR ''d'' (DArg i) = Itoa i"
  by (simp_all add: fmt_verb_def)

end
