(* ===== verification/Go_Regexp.thy ===== *)
theory Go_Regexp
  imports Go_Strconv
begin

text \<open>
  Go's \<^verbatim>\<open>regexp\<close> package as far as the agent uses it.  Every pattern of the agent is anchored at
  both ends and built from ASCII character classes, groups, alternatives and repetitions, so
  \<^verbatim>\<open>MatchString\<close> decides membership of the whole string in a regular language.  The language of an
  expression is the inductive predicate \<open>in_lang\<close>; \<open>MatchString\<close> decides it by
  derivatives, and \<open>MatchString_in_lang\<close> is the equivalence of the two.  The last section
  characterises the forms of expression that the agent's patterns are made of.
\<close>

section \<open>Expressions and their language\<close>

datatype rexp =
    NoMatch
  | Empty
  | Class "(nat \<times> nat) list"
  | Seq rexp rexp
  | Alt rexp rexp
  | Star rexp

definition in_class :: "(nat \<times> nat) list \<Rightarrow> char \<Rightarrow> bool" where
  "in_class rs c \<longleftrightarrow> list_ex (\<lambda>(lo, hi). lo \<le> of_char c \<and> of_char c \<le> hi) rs"

inductive in_lang :: "rexp \<Rightarrow> string \<Rightarrow> bool" where
  in_Empty: "in_lang Empty []"
| in_Class: "in_class rs c \<Longrightarrow> in_lang (Class rs) [c]"
| in_Seq: "in_lang r s \<Longrightarrow> in_lang q t \<Longrightarrow> in_lang (Seq r q) (s @ t)"
| in_Alt1: "in_lang r s \<Longrightarrow> in_lang (Alt r q) s"
| in_Alt2: "in_lang q s \<Longrightarrow> in_lang (Alt r q) s"
| in_Star0: "in_lang (Star r) []"
| in_Star: "in_lang r s \<Longrightarrow> in_lang (Star r) t \<Longrightarrow> in_lang (Star r) (s @ t)"

inductive_simps in_lang_simps [simp]:
  "in_lang NoMatch s"
  "in_lang Empty s"
  "in_lang (Class rs) s"
  "in_lang (Alt r q) s"

inductive_simps in_lang_Seq_iff: "in_lang (Seq r q) s"

inductive_cases in_lang_StarE: "in_lang (Star r) s"

section \<open>Matching by derivatives\<close>

fun nullable :: "rexp \<Rightarrow> bool" where
  "nullable NoMatch = False"
| "nullable Empty = True"
| "nullable (Class rs) = False"
| "nullable (Seq r q) = (nullable r \<and> nullable q)"
| "nullable (Alt r q) = (nullable r \<or> nullable q)"
| "nullable (Star r) = True"

fun deriv :: "char \<Rightarrow> rexp \<Rightarrow> rexp" where
  "deriv c NoMatch = NoMatch"
| "deriv c Empty = NoMatch"
| "deriv c (Class rs) = (if in_class rs c then Empty else NoMatch)"
| "deriv c (Seq r q) =
     (if nullable r then Alt (Seq (deriv c r) q) (deriv c q) else Seq (deriv c r) q)"
| "deriv c (Alt r q) = Alt (deriv c r) (deriv c q)"
| "deriv c (Star r) = Seq (deriv c r) (Star r)"

fun MatchString :: "rexp \<Rightarrow> string \<Rightarrow> bool" where
  "MatchString r [] = nullable r"
| "MatchString r (c # s) = MatchString (deriv c r) s"

lemma nullable_in_lang: "nullable r \<longleftrightarrow> in_lang r []"
  by (induction r) (auto simp: in_lang_Seq_iff intro: in_lang.intros)

lemma in_lang_Star_Cons:
  "in_lang (Star r) (c # s) \<longleftrightarrow>
    (\<exists>a b. s = a @ b \<and> in_lang r (c # a) \<and> in_lang (Star r) b)" (is "?L \<longleftrightarrow> ?R")
proof
  have "in_lang q u \<Longrightarrow> q = Star r \<Longrightarrow> u = c # s \<Longrightarrow> ?R" for q u
  proof (induction arbitrary: s rule: in_lang.induct)
    case (in_Star r' a b)
    then show ?case by (cases a) auto
  qed auto
  then show "?L \<Longrightarrow> ?R" by blast
next
  assume ?R
  then obtain a b where "s = a @ b" "in_lang r (c # a)" "in_lang (Star r) b" by blast
  then show ?L using in_lang.in_Star [of r "c # a" b] by simp
qed

lemma in_lang_Seq_Cons:
  "in_lang (Seq r q) (c # s) \<longleftrightarrow>
    (\<exists>a b. s = a @ b \<and> in_lang r (c # a) \<and> in_lang q b) \<or> (in_lang r [] \<and> in_lang q (c # s))"
 (is "?L \<longleftrightarrow> ?A \<or> ?B")
proof
  assume ?L
  then obtain a b where ab: "c # s = a @ b" "in_lang r a" "in_lang q b"
    by (auto simp: in_lang_Seq_iff)
  show "?A \<or> ?B"
  proof (cases a)
    case Nil
    then show ?thesis using ab by simp
  next
    case (Cons d a')
    then show ?thesis using ab by auto
  qed
next
  assume "?A \<or> ?B"
  then show ?L using in_lang.in_Seq [of r "c # _"] in_lang.in_Seq [of r "[]"] by fastforce
qed

lemma deriv_in_lang: "in_lang (deriv c r) s \<longleftrightarrow> in_lang r (c # s)"
proof (induction r arbitrary: s)
  case (Seq r q)
  then show ?case
    by (auto simp: in_lang_Seq_Cons in_lang_Seq_iff [of "deriv c r"] nullable_in_lang)
next
  case (Star r)
  then show ?case by (auto simp: in_lang_Star_Cons in_lang_Seq_iff)
qed (auto simp: Cons_eq_append_conv)

theorem MatchString_in_lang: "MatchString r s \<longleftrightarrow> in_lang r s"
  by (induction r s rule: MatchString.induct) (simp_all add: nullable_in_lang deriv_in_lang)

section \<open>Derived expressions\<close>

definition Lit :: "char \<Rightarrow> rexp" where
  "Lit c = Class [(of_char c, of_char c)]"

definition Plus :: "rexp \<Rightarrow> rexp" where
  "Plus r = Seq r (Star r)"

definition Opt :: "rexp \<Rightarrow> rexp" where
  "Opt r = Alt r Empty"

fun Rep :: "nat \<Rightarrow> rexp \<Rightarrow> rexp" where
  "Rep 0 r = Empty"
| "Rep (Suc n) r = Seq r (Rep n r)"

fun Between :: "nat \<Rightarrow> nat \<Rightarrow> rexp \<Rightarrow> rexp" where
  "Between m 0 r = Rep m r"
| "Between m (Suc k) r = Alt (Rep m r) (Between (Suc m) k r)"

lemma in_lang_Lit [simp]: "in_lang (Lit c) s \<longleftrightarrow> s = [c]"
  by (auto simp: Lit_def in_class_def)

lemma in_lang_Opt [simp]: "in_lang (Opt r) s \<longleftrightarrow> s = [] \<or> in_lang r s"
  by (auto simp: Opt_def)

lemma in_lang_Star_Class: "in_lang (Star (Class rs)) s \<longleftrightarrow> (\<forall>c \<in> set s. in_class rs c)"
  by (induction s) (auto simp: in_lang_Star_Cons intro: in_lang.intros)

lemma in_lang_Seq_Class:
  "in_lang (Seq (Class rs) r) s \<longleftrightarrow> (\<exists>c t. s = c # t \<and> in_class rs c \<and> in_lang r t)"
proof
  assume "\<exists>c t. s = c # t \<and> in_class rs c \<and> in_lang r t"
  then show "in_lang (Seq (Class rs) r) s"
    using in_lang.in_Seq [OF in_lang.in_Class] by fastforce
qed (auto simp: in_lang_Seq_iff)

lemma in_lang_Plus_Class:
  "in_lang (Plus (Class rs)) s \<longleftrightarrow> s \<noteq> [] \<and> (\<forall>c \<in> set s. in_class rs c)"
  by (cases s) (auto simp: Plus_def in_lang_Seq_Class in_lang_Star_Class)

lemma in_lang_Rep_Class:
  "in_lang (Rep n (Class rs)) s \<longleftrightarrow> length s = n \<and> (\<forall>c \<in> set s. in_class rs c)"
proof (induction n arbitrary: s)
  case (Suc n)
  then show ?case by (cases s) (auto simp: in_lang_Seq_Class)
qed auto

lemma in_lang_Between_Class:
  "in_lang (Between m k (Class rs)) s \<longleftrightarrow>
    m \<le> length s \<and> length s \<le> m + k \<and> (\<forall>c \<in> set s. in_class rs c)"
  by (induction k arbitrary: m) (auto simp: in_lang_Rep_Class)

lemma in_lang_Seq_Lit: "in_lang (Seq (Lit d) r) s \<longleftrightarrow> (\<exists>t. s = d # t \<and> in_lang r t)"
  by (auto simp: in_lang_Seq_iff)

lemmas in_lang_forms =
  in_lang_Plus_Class in_lang_Rep_Class in_lang_Star_Class in_lang_Between_Class in_lang_Seq_Lit

end
