(* ===== verification/Go_Net.thy ===== *)
theory Go_Net
  imports Go_Strconv
begin

text \<open>
  Go's \<^verbatim>\<open>net.IP\<close> and \<^verbatim>\<open>net.ParseIP\<close>.  An IP address is its slice of bytes, the empty list being
  \<^verbatim>\<open>nil\<close>.  \<^verbatim>\<open>ParseIP\<close> returns 16 bytes for both address families, an IPv4 address in its
  IPv4-in-IPv6 form, and \<^verbatim>\<open>nil\<close> for a string that is no address.  Addresses of the two transport
  protocols are the dynamic types of \<^verbatim>\<open>net.Addr\<close> that the agent distinguishes.
\<close>

type_synonym ip = "byte list"

datatype net_addr = UDPAddr string | TCPAddr string | OtherAddr string

definition addr_string :: "net_addr \<Rightarrow> string" where
  "addr_string a = (case a of UDPAddr s \<Rightarrow> s | TCPAddr s \<Rightarrow> s | OtherAddr s \<Rightarrow> s)"

section \<open>IPv4 in dotted decimal form\<close>

definition v4InV6Prefix :: "byte list" where
  "v4InV6Prefix = [0, 0, 0, 0, 0, 0, 0, 0, 0, 0, 0xFF, 0xFF]"

definition octet :: "string \<Rightarrow> byte option" where
  "octet s =
     (if s = [] \<or> (\<exists>c \<in> set s. \<not> is_digit c) \<or> 255 < digits_val s then None
      else Some (of_nat (digits_val s)))"

definition parseIPv4 :: "string \<Rightarrow> ip" where
  "parseIPv4 s =
     (case map octet (Split s CHR ''.'') of
        [Some a, Some b, Some c, Some d] \<Rightarrow> v4InV6Prefix @ [a, b, c, d]
      | _ \<Rightarrow> [])"

section \<open>IPv6\<close>

definition is_hex :: "char \<Rightarrow> bool" where
  "is_hex c \<longleftrightarrow> is_digit c \<or> (97 \<le> (of_char c :: nat) \<and> (of_char c :: nat) \<le> 102) \<or>
     (65 \<le> (of_char c :: nat) \<and> (of_char c :: nat) \<le> 70)"

definition hex_val :: "char \<Rightarrow> nat" where
  "hex_val c =
     (if is_digit c then digit_val c
      else if 97 \<le> (of_char c :: nat) then of_char c - 87 else of_char c - 55)"

definition hexes_val :: "string \<Rightarrow> nat" where
  "hexes_val s = foldl (\<lambda>n c. 16 * n + hex_val c) 0 s"

lemma dropWhile_Cons_shorter: "dropWhile P s = c # r \<Longrightarrow> length r < length s"
  by (metis Suc_le_eq length_Cons length_dropWhile_le)

text \<open>
  The loop over the hexadecimal groups: \<open>acc\<close> holds the bytes parsed so far and
  \<open>ell\<close> the position of the ellipsis.  It stops when 16 bytes are parsed or the string ends.
\<close>

function ipv6_groups ::
  "string \<Rightarrow> byte list \<Rightarrow> nat option \<Rightarrow> (byte list \<times> nat option \<times> string) option" where
  "ipv6_groups s acc ell =
     (if 16 \<le> length acc then Some (acc, ell, s)
      else
        let h = takeWhile is_hex s; rest = dropWhile is_hex s;
            acc' = acc @ [of_nat (hexes_val h div 256), of_nat (hexes_val h)]
        in if h = [] \<or> 0xFFFF < hexes_val h then None
           else
             (case rest of
                [] \<Rightarrow> Some (acc', ell, [])
              | c # r \<Rightarrow>
                  if c = CHR ''.'' then
                    if (ell = None \<and> length acc \<noteq> 12) \<or> 16 < length acc + 4 \<or> parseIPv4 s = []
                    then None
                    else Some (acc @ drop 12 (parseIPv4 s), ell, [])
                  else if c \<noteq> CHR '':'' \<or> r = [] then None
                  else if hd r = CHR '':'' then
                    if ell \<noteq> None then None
                    else if tl r = [] then Some (acc', Some (length acc'), [])
                    else ipv6_groups (tl r) acc' (Some (length acc'))
                  else ipv6_groups r acc' ell))"
  by pat_completeness auto

termination
  by (relation "measure (\<lambda>(s, acc, ell). length s)")
     (auto dest!: sym [of "_ # _"] dest: dropWhile_Cons_shorter less_imp_diff_less)

declare ipv6_groups.simps [simp del]

definition ipv6_finish :: "byte list \<times> nat option \<times> string \<Rightarrow> ip" where
  "ipv6_finish r =
     (case r of (acc, ell, s) \<Rightarrow>
        if s \<noteq> [] then []
        else if length acc < 16 then
          (case ell of
             None \<Rightarrow> []
           | Some e \<Rightarrow> take e acc @ replicate (16 - length acc) 0 @ drop e acc)
        else if ell \<noteq> None then [] else acc)"

definition parseIPv6 :: "string \<Rightarrow> ip" where
  "parseIPv6 s =
     (if s = ''::'' then replicate 16 0
      else
        (case (if HasPrefix s ''::'' then ipv6_groups (drop 2 s) [] (Some 0)
               else ipv6_groups s [] None) of
           None \<Rightarrow> []
         | Some r \<Rightarrow> ipv6_finish r))"

definition ParseIP :: "string \<Rightarrow> ip" where
  "ParseIP s =
     (case find (\<lambda>c. c = CHR ''.'' \<or> c = CHR '':'') s of
        None \<Rightarrow> []
      | Some c \<Rightarrow> if c = CHR ''.'' then parseIPv4 s else parseIPv6 s)"

section \<open>Properties\<close>

lemma parseIPv4_length: "parseIPv4 s = [] \<or> length (parseIPv4 s) = 16"
  by (auto simp: parseIPv4_def v4InV6Prefix_def split: list.splits option.splits)

lemma ipv6_groups_length:
  "ipv6_groups s acc ell = Some (acc', ell', t) \<Longrightarrow> length acc \<le> 16 \<Longrightarrow> even (length acc) \<Longrightarrow>
    length acc' \<le> 16"
proof (induction s acc ell rule: ipv6_groups.induct)
  case (1 s acc ell)
  have ev: "length acc < 16 \<Longrightarrow> length acc + 2 \<le> 16" using "1.prems"(3) by presburger
  have v4: "length (parseIPv4 s) \<le> 16" using parseIPv4_length [of s] by auto
  note run = "1.prems"(1) [unfolded ipv6_groups.simps [of s acc ell]]
  show ?case
    using run "1.prems"(2,3) "1.IH" ev v4
    by (auto simp: Let_def split: if_splits list.splits)
qed

lemma ParseIP_length: "ParseIP s = [] \<or> length (ParseIP s) = 16"
proof -
  have "parseIPv6 s = [] \<or> length (parseIPv6 s) = 16"
  proof (cases "s = ''::''")
    case False
    have "length (ipv6_finish r) \<in> {0, 16}" if "length (fst r) \<le> 16" for r
      using that by (auto simp: ipv6_finish_def split: prod.splits option.splits)
    then show ?thesis
      using False ipv6_groups_length [of "drop 2 s" "[]" "Some 0"] ipv6_groups_length [of s "[]" None]
      by (fastforce simp: parseIPv6_def split: option.splits if_splits)
  qed (simp add: parseIPv6_def)
  then show ?thesis
    using parseIPv4_length by (auto simp: ParseIP_def split: option.splits)
qed

lemma octet_utoa: "octet (utoa (unat (b :: byte))) = Some b"
proof -
  have "unat b < 256" using unsigned_less [of b, where 'a = nat] by simp
  moreover have "\<not> (\<exists>c \<in> set (utoa (unat b)). \<not> is_digit c)" using utoa_digits by blast
  ultimately show ?thesis by (simp add: octet_def)
qed

text \<open>The dotted decimal form of an IPv4 address parses to that address.\<close>

definition ipv4_text :: "byte \<Rightarrow> byte \<Rightarrow> byte \<Rightarrow> byte \<Rightarrow> string" where
  "ipv4_text a b c d = Join (map (\<lambda>x. utoa (unat x)) [a, b, c, d]) ''.''"

lemma utoa_no_dot: "CHR ''.'' \<notin> set (utoa n)" "CHR '':'' \<notin> set (utoa n)"
  using utoa_digits by (fastforce simp: is_digit_def)+

lemma find_append_notin: "(\<forall>c \<in> set xs. \<not> P c) \<Longrightarrow> P d \<Longrightarrow> find P (xs @ d # ys) = Some d"
  by (induction xs) auto

lemma ParseIP_ipv4_text: "ParseIP (ipv4_text a b c d) = v4InV6Prefix @ [a, b, c, d]"
proof -
  have "find (\<lambda>c. c = CHR ''.'' \<or> c = CHR '':'') (ipv4_text a b c d) = Some CHR ''.''"
    unfolding ipv4_text_def by (simp, rule find_append_notin) (use utoa_no_dot in auto)
  moreover have "Split (ipv4_text a b c d) CHR ''.'' = map (\<lambda>x. utoa (unat x)) [a, b, c, d]"
    unfolding ipv4_text_def by (rule Split_Join) (use utoa_no_dot in auto)
  ultimately show ?thesis by (simp add: ParseIP_def parseIPv4_def octet_utoa)
qed

end
