(* ===== verification/Types.thy ===== *)
theory Types
  imports Go_Regexp Go_Net
begin

text \<open>
  \<^verbatim>\<open>agent/types.go\<close>: the errors of the agent and their metric labels, service instances and
  their order, the service address (\<^verbatim>\<open>info\<close>) with its parser and printer, and the store interface.
  A Go function with two results \<^verbatim>\<open>(value, error)\<close> whose callers look at the value only without
  an error returns a sum here; the two operations of the store interface return the pair, because
  the DNS handler goes on with the value after a ``no instances'' error.
\<close>

section \<open>Errors\<close>

datatype go_error =
    errConsulAPI
  | errInvalidIP
  | errNoInstances
  | errUntracked
  | glimpseError go_error string
  | otherError string

definition newError :: "go_error \<Rightarrow> string \<Rightarrow> fmt_arg list \<Rightarrow> go_error" where
  "newError err format args = glimpseError err (Sprintf format args)"

fun Error :: "go_error \<Rightarrow> string" where
  "Error errConsulAPI = ''Consul API failed''"
| "Error errInvalidIP = ''invalid IP address''"
| "Error errNoInstances = ''no instances''"
| "Error errUntracked = ''untracked error''"
| "Error (glimpseError err msg) = Sprintf ''%s: %s'' [SArg (Error err), SArg msg]"
| "Error (otherError s) = s"

definition errLabels :: "go_error \<rightharpoonup> string" where
  "errLabels =
     [errConsulAPI \<mapsto> ''consulapi'',
      errInvalidIP \<mapsto> ''invalidip'',
      errNoInstances \<mapsto> ''noinstances'',
      errUntracked \<mapsto> ''untracked'']"

definition unwrapError :: "go_error \<Rightarrow> go_error" where
  "unwrapError err = (case err of glimpseError e _ \<Rightarrow> e | _ \<Rightarrow> err)"

definition isConsulAPI :: "go_error \<Rightarrow> bool" where
  "isConsulAPI err \<longleftrightarrow> unwrapError err = errConsulAPI"

definition isInvalidIP :: "go_error \<Rightarrow> bool" where
  "isInvalidIP err \<longleftrightarrow> unwrapError err = errInvalidIP"

definition isNoInstances :: "go_error \<Rightarrow> bool" where
  "isNoInstances err \<longleftrightarrow> unwrapError err = errNoInstances"

text \<open>A missing key of a Go map reads as the zero value, here the empty string.\<close>

definition errToLabel :: "go_error \<Rightarrow> string" where
  "errToLabel err =
     (let key = (case err of glimpseError e _ \<Rightarrow> e | _ \<Rightarrow> errUntracked)
      in case errLabels key of None \<Rightarrow> [] | Some l \<Rightarrow> l)"

section \<open>Instances\<close>

record inst =
  host :: string
  ip :: ip
  port :: uint16

type_synonym instances = "inst list"

definition Len :: "instances \<Rightarrow> nat" where
  "Len is = length is"

definition Swap :: "instances \<Rightarrow> nat \<Rightarrow> nat \<Rightarrow> instances" where
  "Swap is i j = is[i := is ! j, j := is ! i]"

definition Less :: "instances \<Rightarrow> nat \<Rightarrow> nat \<Rightarrow> bool" where
  "Less is i j \<longleftrightarrow> host (is ! i) < host (is ! j)"

section \<open>Service addresses\<close>

record info =
  env :: string
  job :: string
  product :: string
  provider :: string
  service :: string
  zone :: string

definition alnum_class :: "(nat \<times> nat) list" where
  "alnum_class = [(48, 57), (65, 90), (97, 122)]"

definition field_class :: "(nat \<times> nat) list" where
  "field_class = [(48, 57), (65, 90), (97, 122), (45, 45)]"

definition rField :: rexp where
  "rField = Plus (Class field_class)"

definition rZone :: rexp where
  "rZone = Rep 2 (Class alnum_class)"

text \<open>
  The errors of \<^verbatim>\<open>infoFromAddr\<close>: the address does not have five parts, or the named part has
  the given, invalid value.
\<close>

datatype addr_error = InvalidAddress string | InvalidPart string string

definition infoFromAddr :: "string \<Rightarrow> addr_error + info" where
  "infoFromAddr a =
     (let fields = SplitN a CHR ''.'' 5 in
      if length fields \<noteq> 5 then Inl (InvalidAddress a)
      else
        let z = fields ! 4; p = fields ! 3; e = fields ! 2; j = fields ! 1; s = fields ! 0 in
        if \<not> MatchString rZone z then Inl (InvalidPart ''zone'' z)
        else if \<not> MatchString rField p then Inl (InvalidPart ''product'' p)
        else if \<not> MatchString rField e then Inl (InvalidPart ''env'' e)
        else if \<not> MatchString rField j then Inl (InvalidPart ''job'' j)
        else if \<not> MatchString rField s then Inl (InvalidPart ''service'' s)
        else Inr \<lparr>env = e, job = j, product = p, provider = [], service = s, zone = z\<rparr>)"

definition addr :: "info \<Rightarrow> string" where
  "addr i =
     (let s = Join [service i, job i, env i, product i] ''.'' in
      if zone i \<noteq> [] then Join [s, zone i] ''.'' else s)"

section \<open>The store interface\<close>

text \<open>
  An implementation of the interface \<^verbatim>\<open>store\<close>: its two operations act on the state of the
  process and may panic.
\<close>

record 's store =
  getInstances :: "info \<Rightarrow> 's \<Rightarrow> ((instances \<times> go_error option) \<times> 's) run"
  getServers :: "string \<Rightarrow> 's \<Rightarrow> ((instances \<times> go_error option) \<times> 's) run"

section \<open>Properties of errors\<close>

lemma newError_unwrap [simp]: "unwrapError (newError e f args) = e"
  by (simp add: newError_def unwrapError_def)

lemma newError_kinds [simp]:
  "isConsulAPI (newError e f args) \<longleftrightarrow> e = errConsulAPI"
  "isInvalidIP (newError e f args) \<longleftrightarrow> e = errInvalidIP"
  "isNoInstances (newError e f args) \<longleftrightarrow> e = errNoInstances"
  by (simp_all add: isConsulAPI_def isInvalidIP_def isNoInstances_def)

definition sentinel :: "go_error \<Rightarrow> bool" where
  "sentinel e \<longleftrightarrow> e \<in> {errConsulAPI, errInvalidIP, errNoInstances, errUntracked}"

section \<open>Properties of addresses\<close>

definition valid_field :: "string \<Rightarrow> bool" where
  "valid_field s \<longleftrightarrow> s \<noteq> [] \<and> (\<forall>c \<in> set s. in_class field_class c)"

definition valid_zone :: "string \<Rightarrow> bool" where
  "valid_zone s \<longleftrightarrow> length s = 2 \<and> (\<forall>c \<in> set s. in_class alnum_class c)"

definition valid_info :: "info \<Rightarrow> bool" where
  "valid_info i \<longleftrightarrow> valid_field (service i) \<and> valid_field (job i) \<and> valid_field (env i) \<and>
     valid_field (product i) \<and> valid_zone (zone i) \<and> provider i = []"

lemma MatchString_rField [go_simps]: "MatchString rField s \<longleftrightarrow> valid_field s"
  by (simp add: MatchString_in_lang rField_def in_lang_forms valid_field_def)

lemma MatchString_rZone [go_simps]: "MatchString rZone s \<longleftrightarrow> valid_zone s"
  by (simp add: MatchString_in_lang rZone_def in_lang_forms valid_zone_def)

lemma field_no_dot: "valid_field s \<Longrightarrow> CHR ''.'' \<notin> set s"
  by (auto simp: valid_field_def in_class_def field_class_def)

lemma zone_no_dot: "valid_zone s \<Longrightarrow> CHR ''.'' \<notin> set s"
  by (auto simp: valid_zone_def in_class_def alnum_class_def)

lemma zone_not_Nil: "valid_zone s \<Longrightarrow> s \<noteq> []"
  by (auto simp: valid_zone_def)

lemma alnum_in_field: "in_class alnum_class c \<Longrightarrow> in_class field_class c"
  by (auto simp: in_class_def alnum_class_def field_class_def)

lemma zone_is_field: "valid_zone s \<Longrightarrow> valid_field s"
  by (auto simp: valid_zone_def valid_field_def alnum_in_field)

text \<open>The parts of an accepted address, and the address made of its parts.\<close>

lemma addr_parts:
  "zone i \<noteq> [] \<Longrightarrow>
    addr i = service i @ ''.'' @ job i @ ''.'' @ env i @ ''.'' @ product i @ ''.'' @ zone i"
  by (simp add: addr_def Let_def)

lemma SplitN5_parts:
  assumes "CHR ''.'' \<notin> set a" "CHR ''.'' \<notin> set b" "CHR ''.'' \<notin> set c" "CHR ''.'' \<notin> set d"
  shows "SplitN (a @ ''.'' @ b @ ''.'' @ c @ ''.'' @ d @ ''.'' @ e) CHR ''.'' 5 = [a, b, c, d, e]"
  using assms by (simp add: numeral_eq_Suc SplitN_append)

lemma infoFromAddr_addr: "valid_info i \<Longrightarrow> infoFromAddr (addr i) = Inr i"
proof -
  assume v: "valid_info i"
  then have a: "addr i = service i @ ''.'' @ job i @ ''.'' @ env i @ ''.'' @ product i @ ''.'' @ zone i"
    using addr_parts zone_not_Nil by (simp add: valid_info_def)
  have "SplitN (addr i) CHR ''.'' 5 = [service i, job i, env i, product i, zone i]"
    unfolding a using v by (intro SplitN5_parts) (simp_all add: valid_info_def field_no_dot)
  then show ?thesis
    using v by (simp add: infoFromAddr_def Let_def go_simps valid_info_def numeral_eq_Suc)
qed

lemma infoFromAddr_Inr:
  assumes "infoFromAddr a = Inr i"
  shows "valid_info i \<and> addr i = a"
proof -
  obtain s j e p z where f: "SplitN a CHR ''.'' 5 = [s, j, e, p, z]"
    using assms by (auto simp: infoFromAddr_def Let_def length_Suc_conv numeral_eq_Suc
        split: if_splits)
  have i: "i = \<lparr>env = e, job = j, product = p, provider = [], service = s, zone = z\<rparr>"
    and v: "valid_info i"
    using assms f
    by (auto simp: infoFromAddr_def Let_def go_simps valid_info_def numeral_eq_Suc split: if_splits)
  have "a = Join [s, j, e, p, z] ''.''" using f Join_SplitN [of 5 a "CHR ''.''"] by simp
  then show ?thesis
    using i v zone_not_Nil by (simp add: addr_parts valid_info_def)
qed

lemma infoFromAddr_iff: "infoFromAddr a = Inr i \<longleftrightarrow> valid_info i \<and> addr i = a"
  using infoFromAddr_Inr infoFromAddr_addr by blast

section \<open>Theorems\<close>

text \<open>
  C33. The address parser and printer are inverse to each other: a string is accepted with a result
  exactly if the result is a well-formed address without provider whose printed form is the string.
\<close>

theorem address_roundtrip: "infoFromAddr a = Inr i \<longleftrightarrow> valid_info i \<and> addr i = a"
  by (rule infoFromAddr_iff)

lemma count_Split: "length (Split s d) = Suc (count_list s d)"
  by (induction s) (auto split: list.splits)

lemma length_SplitN_count: "length (SplitN s d (Suc n)) = min (Suc n) (Suc (count_list s d))"
proof (induction n arbitrary: s)
  case (Suc n)
  show ?case
  proof (cases "d \<in> set s")
    case True
    obtain a b where s: "s = a @ d # b" "d \<notin> set a" using split_list_first [OF True] by blast
    then have "count_list s d = Suc (count_list b d)" by (simp add: count_list_0_iff)
    moreover have "SplitN s d (Suc (Suc n)) = a # SplitN b d (Suc n)"
      using s SplitN_append by simp
    ultimately show ?thesis using Suc by simp
  next
    case False
    then show ?thesis by (simp add: count_list_0_iff)
  qed
qed simp

text \<open>
  The errors of the address parser: fewer than four dots make the address invalid as a whole;
  otherwise the rejected part is reported, and the parts are checked in the order zone, product, env,
  job, service.
\<close>

theorem address_errors:
  "(infoFromAddr a = Inl (InvalidAddress a) \<longleftrightarrow> count_list a CHR ''.'' < 4) \<and>
   (\<forall>s j e p z. a = Join [s, j, e, p, z] ''.'' \<and> (\<forall>f \<in> {s, j, e, p}. CHR ''.'' \<notin> set f) \<longrightarrow>
     infoFromAddr a =
       (if \<not> valid_zone z then Inl (InvalidPart ''zone'' z)
        else if \<not> valid_field p then Inl (InvalidPart ''product'' p)
        else if \<not> valid_field e then Inl (InvalidPart ''env'' e)
        else if \<not> valid_field j then Inl (InvalidPart ''job'' j)
        else if \<not> valid_field s then Inl (InvalidPart ''service'' s)
        else Inr \<lparr>env = e, job = j, product = p, provider = [], service = s, zone = z\<rparr>))"
proof -
  have "length (SplitN a CHR ''.'' 5) = min 5 (Suc (count_list a CHR ''.''))"
    using length_SplitN_count [of a "CHR ''.''" 4] by (simp add: numeral_eq_Suc)
  then have "length (SplitN a CHR ''.'' 5) \<noteq> 5 \<longleftrightarrow> count_list a CHR ''.'' < 4" by linarith
  moreover have "infoFromAddr a = Inl (InvalidAddress a) \<longleftrightarrow> length (SplitN a CHR ''.'' 5) \<noteq> 5"
    by (simp add: infoFromAddr_def Let_def)
  moreover have "infoFromAddr (Join [s, j, e, p, z] ''.'') =
       (if \<not> valid_zone z then Inl (InvalidPart ''zone'' z)
        else if \<not> valid_field p then Inl (InvalidPart ''product'' p)
        else if \<not> valid_field e then Inl (InvalidPart ''env'' e)
        else if \<not> valid_field j then Inl (InvalidPart ''job'' j)
        else if \<not> valid_field s then Inl (InvalidPart ''service'' s)
        else Inr \<lparr>env = e, job = j, product = p, provider = [], service = s, zone = z\<rparr>)"
    if "\<forall>f \<in> {s, j, e, p}. CHR ''.'' \<notin> set f" for s j e p z
    using SplitN5_parts [of s j e p z] that
    by (simp add: infoFromAddr_def Let_def go_simps numeral_eq_Suc)
  ultimately show ?thesis by blast
qed

theorem address_errors_witness:
  "infoFromAddr ''a.b.c.d.1'' = Inl (InvalidPart ''zone'' ''1'')"
proof -
  have "\<not> valid_zone ''1''" by (simp add: valid_zone_def)
  then show ?thesis
    using address_errors [of "''a.b.c.d.1''"]
    by (elim conjE allE [of _ "''a''"] allE [of _ "''b''"] allE [of _ "''c''"] allE [of _ "''d''"]
        allE [of _ "''1''"]) simp
qed

text \<open>
  Metric labels of errors: an error made of one of the four known errors has a non-empty label,
  and two such errors have the same label only if they are made of the same known error; every other
  error counts as untracked.
\<close>

theorem error_labels:
  assumes "sentinel e" "sentinel e'"
  shows "(errToLabel (newError e f args) = errToLabel (newError e' f' args') \<longleftrightarrow> e = e') \<and>
    errToLabel (newError e f args) \<noteq> [] \<and>
    errToLabel (otherError msg) = errToLabel (newError errUntracked f args)"
  using assms by (auto simp: sentinel_def newError_def errToLabel_def errLabels_def Let_def)

theorem error_labels_witness:
  "errToLabel (newError errConsulAPI ''a'' []) \<noteq> errToLabel (newError errNoInstances ''b'' [])"
  using error_labels [of errConsulAPI errNoInstances "''a''" "[]" "''b''" "[]" "[]"]
  by (simp add: sentinel_def)

end
