(* ===== verification/Dns_Types.thy ===== *)
theory Dns_Types
  imports Types
begin

text \<open>
  The data of the DNS library the agent is built on (\<^verbatim>\<open>miekg/dns\<close>: \<^verbatim>\<open>types.go\<close>,
  \<^verbatim>\<open>msg.go\<close>, \<^verbatim>\<open>defaults.go\<close>): the wire constants, and the tables of their names.
\<close>

section \<open>Wire constants\<close>

definition TypeNone :: uint16 where
  [simp]: "TypeNone = 0"

definition TypeA :: uint16 where
  [simp]: "TypeA = 1"

definition TypeNS :: uint16 where
  [simp]: "TypeNS = 2"

definition TypeMD :: uint16 where
  [simp]: "TypeMD = 3"

definition TypeMF :: uint16 where
  [simp]: "TypeMF = 4"

definition TypeCNAME :: uint16 where
  [simp]: "TypeCNAME = 5"

definition TypeSOA :: uint16 where
  [simp]: "TypeSOA = 6"

definition TypeMB :: uint16 where
  [simp]: "TypeMB = 7"

definition TypeMG :: uint16 where
  [simp]: "TypeMG = 8"

definition TypeMR :: uint16 where
  [simp]: "TypeMR = 9"

definition TypeNULL :: uint16 where
  [simp]: "TypeNULL = 10"

definition TypeWKS :: uint16 where
  [simp]: "TypeWKS = 11"

definition TypePTR :: uint16 where
  [simp]: "TypePTR = 12"

definition TypeHINFO :: uint16 where
  [simp]: "TypeHINFO = 13"

definition TypeMINFO :: uint16 where
  [simp]: "TypeMINFO = 14"

definition TypeMX :: uint16 where
  [simp]: "TypeMX = 15"

definition TypeTXT :: uint16 where
  [simp]: "TypeTXT = 16"

definition TypeRP :: uint16 where
  [simp]: "TypeRP = 17"

definition TypeAFSDB :: uint16 where
  [simp]: "TypeAFSDB = 18"

definition TypeX25 :: uint16 where
  [simp]: "TypeX25 = 19"

definition TypeISDN :: uint16 where
  [simp]: "TypeISDN = 20"

definition TypeRT :: uint16 where
  [simp]: "TypeRT = 21"

definition TypeNSAP :: uint16 where
  [simp]: "TypeNSAP = 22"

definition TypeNSAPPTR :: uint16 where
  [simp]: "TypeNSAPPTR = 23"

definition TypeSIG :: uint16 where
  [simp]: "TypeSIG = 24"

definition TypeKEY :: uint16 where
  [simp]: "TypeKEY = 25"

definition TypePX :: uint16 where
  [simp]: "TypePX = 26"

definition TypeGPOS :: uint16 where
  [simp]: "TypeGPOS = 27"

definition TypeAAAA :: uint16 where
  [simp]: "TypeAAAA = 28"

definition TypeLOC :: uint16 where
  [simp]: "TypeLOC = 29"

definition TypeNXT :: uint16 where
  [simp]: "TypeNXT = 30"

definition TypeEID :: uint16 where
  [simp]: "TypeEID = 31"

definition TypeNIMLOC :: uint16 where
  [simp]: "TypeNIMLOC = 32"

definition TypeSRV :: uint16 where
  [simp]: "TypeSRV = 33"

definition TypeATMA :: uint16 where
  [simp]: "TypeATMA = 34"

definition TypeNAPTR :: uint16 where
  [simp]: "TypeNAPTR = 35"

definition TypeKX :: uint16 where
  [simp]: "TypeKX = 36"

definition TypeCERT :: uint16 where
  [simp]: "TypeCERT = 37"

definition TypeDNAME :: uint16 where
  [simp]: "TypeDNAME = 39"

definition TypeOPT :: uint16 where
  [simp]: "TypeOPT = 41"

definition TypeDS :: uint16 where
  [simp]: "TypeDS = 43"

definition TypeSSHFP :: uint16 where
  [simp]: "TypeSSHFP = 44"

definition TypeIPSECKEY :: uint16 where
  [simp]: "TypeIPSECKEY = 45"

definition TypeRRSIG :: uint16 where
  [simp]: "TypeRRSIG = 46"

definition TypeNSEC :: uint16 where
  [simp]: "TypeNSEC = 47"

definition TypeDNSKEY :: uint16 where
  [simp]: "TypeDNSKEY = 48"

definition TypeDHCID :: uint16 where
  [simp]: "TypeDHCID = 49"

definition TypeNSEC3 :: uint16 where
  [simp]: "TypeNSEC3 = 50"

definition TypeNSEC3PARAM :: uint16 where
  [simp]: "TypeNSEC3PARAM = 51"

definition TypeTLSA :: uint16 where
  [simp]: "TypeTLSA = 52"

definition TypeHIP :: uint16 where
  [simp]: "TypeHIP = 55"

definition TypeNINFO :: uint16 where
  [simp]: "TypeNINFO = 56"

definition TypeRKEY :: uint16 where
  [simp]: "TypeRKEY = 57"

definition TypeTALINK :: uint16 where
  [simp]: "TypeTALINK = 58"

definition TypeCDS :: uint16 where
  [simp]: "TypeCDS = 59"

definition TypeCDNSKEY :: uint16 where
  [simp]: "TypeCDNSKEY = 60"

definition TypeOPENPGPKEY :: uint16 where
  [simp]: "TypeOPENPGPKEY = 61"

definition TypeSPF :: uint16 where
  [simp]: "TypeSPF = 99"

definition TypeUINFO :: uint16 where
  [simp]: "TypeUINFO = 100"

definition TypeUID :: uint16 where
  [simp]: "TypeUID = 101"

definition TypeGID :: uint16 where
  [simp]: "TypeGID = 102"

definition TypeUNSPEC :: uint16 where
  [simp]: "TypeUNSPEC = 103"

definition TypeNID :: uint16 where
  [simp]: "TypeNID = 104"

definition TypeL32 :: uint16 where
  [simp]: "TypeL32 = 105"

definition TypeL64 :: uint16 where
  [simp]: "TypeL64 = 106"

definition TypeLP :: uint16 where
  [simp]: "TypeLP = 107"

definition TypeEUI48 :: uint16 where
  [simp]: "TypeEUI48 = 108"

definition TypeEUI64 :: uint16 where
  [simp]: "TypeEUI64 = 109"

definition TypeTKEY :: uint16 where
  [simp]: "TypeTKEY = 249"

definition TypeTSIG :: uint16 where
  [simp]: "TypeTSIG = 250"

definition TypeIXFR :: uint16 where
  [simp]: "TypeIXFR = 251"

definition TypeAXFR :: uint16 where
  [simp]: "TypeAXFR = 252"

definition TypeMAILB :: uint16 where
  [simp]: "TypeMAILB = 253"

definition TypeMAILA :: uint16 where
  [simp]: "TypeMAILA = 254"

definition TypeANY :: uint16 where
  [simp]: "TypeANY = 255"

definition TypeURI :: uint16 where
  [simp]: "TypeURI = 256"

definition TypeCAA :: uint16 where
  [simp]: "TypeCAA = 257"

definition TypeTA :: uint16 where
  [simp]: "TypeTA = 32768"

definition TypeDLV :: uint16 where
  [simp]: "TypeDLV = 32769"

definition TypeReserved :: uint16 where
  [simp]: "TypeReserved = 65535"

definition ClassINET :: uint16 where
  [simp]: "ClassINET = 1"

definition ClassCSNET :: uint16 where
  [simp]: "ClassCSNET = 2"

definition ClassCHAOS :: uint16 where
  [simp]: "ClassCHAOS = 3"

definition ClassHESIOD :: uint16 where
  [simp]: "ClassHESIOD = 4"

definition ClassNONE :: uint16 where
  [simp]: "ClassNONE = 254"

definition ClassANY :: uint16 where
  [simp]: "ClassANY = 255"

definition RcodeSuccess :: int where
  [simp]: "RcodeSuccess = 0"

definition RcodeFormatError :: int where
  [simp]: "RcodeFormatError = 1"

definition RcodeServerFailure :: int where
  [simp]: "RcodeServerFailure = 2"

definition RcodeNameError :: int where
  [simp]: "RcodeNameError = 3"

definition RcodeNotImplemented :: int where
  [simp]: "RcodeNotImplemented = 4"

definition RcodeRefused :: int where
  [simp]: "RcodeRefused = 5"

definition RcodeYXDomain :: int where
  [simp]: "RcodeYXDomain = 6"

definition RcodeYXRrset :: int where
  [simp]: "RcodeYXRrset = 7"

definition RcodeNXRrset :: int where
  [simp]: "RcodeNXRrset = 8"

definition RcodeNotAuth :: int where
  [simp]: "RcodeNotAuth = 9"

definition RcodeNotZone :: int where
  [simp]: "RcodeNotZone = 10"

definition RcodeBadSig :: int where
  [simp]: "RcodeBadSig = 16"

definition RcodeBadVers :: int where
  [simp]: "RcodeBadVers = 16"

definition RcodeBadKey :: int where
  [simp]: "RcodeBadKey = 17"

definition RcodeBadTime :: int where
  [simp]: "RcodeBadTime = 18"

definition RcodeBadMode :: int where
  [simp]: "RcodeBadMode = 19"

definition RcodeBadName :: int where
  [simp]: "RcodeBadName = 20"

definition RcodeBadAlg :: int where
  [simp]: "RcodeBadAlg = 21"

definition RcodeBadTrunc :: int where
  [simp]: "RcodeBadTrunc = 22"

definition OpcodeQuery :: int where
  [simp]: "OpcodeQuery = 0"

definition OpcodeIQuery :: int where
  [simp]: "OpcodeIQuery = 1"

definition OpcodeStatus :: int where
  [simp]: "OpcodeStatus = 2"

definition OpcodeNotify :: int where
  [simp]: "OpcodeNotify = 4"

definition OpcodeUpdate :: int where
  [simp]: "OpcodeUpdate = 5"

section \<open>Tables of names\<close>

text \<open>
  The Go maps from codes to names, as association lists.  Reading a key that is missing gives the
  empty string.
\<close>

definition TypeToString_table :: "(uint16 \<times> string) list" where
  "TypeToString_table =
     [(TypeA, ''A''),
      (TypeAAAA, ''AAAA''),
      (TypeAFSDB, ''AFSDB''),
      (TypeANY, ''ANY''),
      (TypeATMA, ''ATMA''),
      (TypeAXFR, ''AXFR''),
      (TypeCAA, ''CAA''),
      (TypeCDNSKEY, ''CDNSKEY''),
      (TypeCDS, ''CDS''),
      (TypeCERT, ''CERT''),
      (TypeCNAME, ''CNAME''),
      (TypeDHCID, ''DHCID''),
      (TypeDLV, ''DLV''),
      (TypeDNAME, ''DNAME''),
      (TypeDNSKEY, ''DNSKEY''),
      (TypeDS, ''DS''),
      (TypeEID, ''EID''),
      (TypeEUI48, ''EUI48''),
      (TypeEUI64, ''EUI64''),
      (TypeGID, ''GID''),
      (TypeGPOS, ''GPOS''),
      (TypeHINFO, ''HINFO''),
      (TypeHIP, ''HIP''),
      (TypeIPSECKEY, ''IPSECKEY''),
      (TypeISDN, ''ISDN''),
      (TypeIXFR, ''IXFR''),
      (TypeKEY, ''KEY''),
      (TypeKX, ''KX''),
      (TypeL32, ''L32''),
      (TypeL64, ''L64''),
      (TypeLOC, ''LOC''),
      (TypeLP, ''LP''),
      (TypeMB, ''MB''),
      (TypeMD, ''MD''),
      (TypeMF, ''MF''),
      (TypeMG, ''MG''),
      (TypeMINFO, ''MINFO''),
      (TypeMR, ''MR''),
      (TypeMX, ''MX''),
      (TypeNAPTR, ''NAPTR''),
      (TypeNID, ''NID''),
      (TypeNINFO, ''NINFO''),
      (TypeNIMLOC, ''NIMLOC''),
      (TypeNS, ''NS''),
      (TypeNSAP, ''NSAP''),
      (TypeNSAPPTR, ''NSAP-PTR''),
      (TypeNSEC3, ''NSEC3''),
      (TypeNSEC3PARAM, ''NSEC3PARAM''),
      (TypeNSEC, ''NSEC''),
      (TypeNULL, ''NULL''),
      (TypeOPT, ''OPT''),
      (TypeOPENPGPKEY, ''OPENPGPKEY''),
      (TypePTR, ''PTR''),
      (TypeRKEY, ''RKEY''),
      (TypeRP, ''RP''),
      (TypeRRSIG, ''RRSIG''),
      (TypeRT, ''RT''),
      (TypeSIG, ''SIG''),
      (TypeSOA, ''SOA''),
      (TypeSPF, ''SPF''),
      (TypeSRV, ''SRV''),
      (TypeSSHFP, ''SSHFP''),
      (TypeTA, ''TA''),
      (TypeTALINK, ''TALINK''),
      (TypeTKEY, ''TKEY''),
      (TypeTLSA, ''TLSA''),
      (TypeTSIG, ''TSIG''),
      (TypeTXT, ''TXT''),
      (TypePX, ''PX''),
      (TypeUID, ''UID''),
      (TypeUINFO, ''UINFO''),
      (TypeUNSPEC, ''UNSPEC''),
      (TypeURI, ''URI''),
      (TypeWKS, ''WKS''),
      (TypeX25, ''X25'')]"

definition ClassToString_table :: "(uint16 \<times> string) list" where
  "ClassToString_table =
     [(ClassINET, ''IN''),
      (ClassCSNET, ''CS''),
      (ClassCHAOS, ''CH''),
      (ClassHESIOD, ''HS''),
      (ClassNONE, ''NONE''),
      (ClassANY, ''ANY'')]"

definition OpcodeToString_table :: "(int \<times> string) list" where
  "OpcodeToString_table =
     [(OpcodeQuery, ''QUERY''),
      (OpcodeIQuery, ''IQUERY''),
      (OpcodeStatus, ''STATUS''),
      (OpcodeNotify, ''NOTIFY''),
      (OpcodeUpdate, ''UPDATE'')]"

definition RcodeToString_table :: "(int \<times> string) list" where
  "RcodeToString_table =
     [(RcodeSuccess, ''NOERROR''),
      (RcodeFormatError, ''FORMERR''),
      (RcodeServerFailure, ''SERVFAIL''),
      (RcodeNameError, ''NXDOMAIN''),
      (RcodeNotImplemented, ''NOTIMPL''),
      (RcodeRefused, ''REFUSED''),
      (RcodeYXDomain, ''YXDOMAIN''),
      (RcodeYXRrset, ''YXRRSET''),
      (RcodeNXRrset, ''NXRRSET''),
      (RcodeNotAuth, ''NOTAUTH''),
      (RcodeNotZone, ''NOTZONE''),
      (RcodeBadSig, ''BADSIG''),
      (RcodeBadKey, ''BADKEY''),
      (RcodeBadTime, ''BADTIME''),
      (RcodeBadMode, ''BADMODE''),
      (RcodeBadName, ''BADNAME''),
      (RcodeBadAlg, ''BADALG''),
      (RcodeBadTrunc, ''BADTRUNC'')]"

definition lookup_str :: "('k \<times> string) list \<Rightarrow> 'k \<Rightarrow> string" where
  "lookup_str t k = (case map_of t k of None \<Rightarrow> [] | Some s \<Rightarrow> s)"

definition TypeToString :: "uint16 \<Rightarrow> string" where
  "TypeToString t = lookup_str TypeToString_table t"

definition RcodeToString :: "int \<Rightarrow> string" where
  "RcodeToString r = lookup_str RcodeToString_table r"

text \<open>
  \<^verbatim>\<open>reverseInt16\<close> and \<^verbatim>\<open>reverseInt\<close> swap keys and values.  Go iterates over a map in an
  unspecified order, which matters for the result only if two keys have the same value; the
  reversed table is read with the zero value for a missing name.
\<close>

definition reverse_table :: "('k \<times> string) list \<Rightarrow> (string \<times> 'k) list" where
  "reverse_table t = map (\<lambda>(k, s). (s, k)) t"

definition StringToType :: "string \<Rightarrow> uint16" where
  "StringToType s = (case map_of (reverse_table TypeToString_table) s of None \<Rightarrow> 0 | Some t \<Rightarrow> t)"

text \<open>Certificate types (RFC 4398) and DNSSEC algorithms.\<close>

definition CertTypeToString_table :: "(uint16 \<times> string) list" where
  "CertTypeToString_table =
     [(1, ''PKIX''),
      (2, ''SPKI''),
      (3, ''PGP''),
      (4, ''IPIX''),
      (5, ''ISPKI''),
      (6, ''IPGP''),
      (7, ''ACPKIX''),
      (8, ''IACPKIX''),
      (253, ''URI''),
      (254, ''OID'')]"

definition AlgorithmToString_table :: "(byte \<times> string) list" where
  "AlgorithmToString_table =
     [(1, ''RSAMD5''),
      (2, ''DH''),
      (3, ''DSA''),
      (5, ''RSASHA1''),
      (6, ''DSA-NSEC3-SHA1''),
      (7, ''RSASHA1-NSEC3-SHA1''),
      (8, ''RSASHA256''),
      (10, ''RSASHA512''),
      (12, ''ECC-GOST''),
      (13, ''ECDSAP256SHA256''),
      (14, ''ECDSAP384SHA384''),
      (252, ''INDIRECT''),
      (253, ''PRIVATEDNS''),
      (254, ''PRIVATEOID'')]"

text \<open>No two record types share a name, so reading a name back gives the type.\<close>

lemma TypeToString_distinct: "distinct (map snd TypeToString_table)"
  by code_simp

lemma StringToType_inverse:
  assumes "map_of TypeToString_table t = Some s"
  shows "StringToType s = t"
proof -
  have "(t, s) \<in> set TypeToString_table" using assms by (rule map_of_SomeD)
  then have "(s, t) \<in> set (reverse_table TypeToString_table)"
    by (force simp: reverse_table_def)
  moreover have "distinct (map fst (reverse_table TypeToString_table))"
    using TypeToString_distinct by (simp add: reverse_table_def comp_def case_prod_beta)
  ultimately have "map_of (reverse_table TypeToString_table) s = Some t" by simp
  then show ?thesis by (simp add: StringToType_def)
qed

end
