(* ===== verification/Dns_Text.thy ===== *)
theory Dns_Text
  imports Dns_Types
begin

text \<open>
  Presentation format: how the DNS library prints names, character strings, numbers and the headers
  of resource records (\<^verbatim>\<open>types.go\<close>, \<^verbatim>\<open>defaults.go\<close>, \<^verbatim>\<open>dns.go\<close>), and the functions of Go's library
  that its printing relies on.
\<close>

section \<open>Numbers and strings\<close>

definition Uitoa :: "'a :: len word \<Rightarrow> string" where
  "Uitoa w = utoa (unat w)"

text \<open>\<^verbatim>\<open>strings.ToUpper\<close>, for the hexadecimal strings it is applied to here.\<close>

definition ToUpper :: "string \<Rightarrow> string" where
  "ToUpper s =
     map (\<lambda>c. if 97 \<le> (of_char c :: nat) \<and> (of_char c :: nat) \<le> 122
              then char_of (of_char c - 32 :: nat) else c) s"

definition base64_DecodedLen :: "nat \<Rightarrow> nat" where
  "base64_DecodedLen n = n div 4 * 3"

definition IPv4len :: nat where
  [simp]: "IPv4len = 4"

definition IPv6len :: nat where
  [simp]: "IPv6len = 16"

definition copyIP :: "ip \<Rightarrow> ip" where
  "copyIP a = take (length a) (a @ replicate (length a) 0)"

lemma copyIP_id [simp]: "copyIP a = a"
  by (simp add: copyIP_def)

section \<open>Escapes\<close>

definition dddToByte :: "string \<Rightarrow> char" where
  "dddToByte s =
     char_of ((digit_val (s ! 0) * 100 + digit_val (s ! 1) * 10 + digit_val (s ! 2)) mod 256)"

text \<open>
  The next byte of a string with escapes and the number of characters it takes; \<open>next_byte\<close> looks
  at the rest of the string from the offset on.
\<close>

definition next_byte :: "string \<Rightarrow> char \<times> nat" where
  "next_byte b =
     (case b of
        [] \<Rightarrow> (CHR 0x00, 0)
      | c # r \<Rightarrow>
          if c \<noteq> CHR 0x5C then (c, 1)
          else
            (case r of
               [] \<Rightarrow> (CHR 0x00, 0)
             | d # r' \<Rightarrow>
                 if 2 \<le> length r' \<and> is_digit d \<and> is_digit (r' ! 0) \<and> is_digit (r' ! 1)
                 then (dddToByte r, 4)
                 else if d = CHR ''t'' then (CHR 0x09, 2)
                 else if d = CHR ''r'' then (CHR 0x0D, 2)
                 else if d = CHR ''n'' then (CHR 0x0A, 2)
                 else (d, 2)))"

definition nextByte :: "string \<Rightarrow> nat \<Rightarrow> char \<times> nat" where
  "nextByte b offset = next_byte (drop offset b)"

definition ddd :: "char \<Rightarrow> string" where
  "ddd b = (let bufs = utoa (of_char b) in CHR 0x5C # replicate (3 - length bufs) (CHR ''0'') @ bufs)"

definition appendTXTStringByte :: "string \<Rightarrow> char \<Rightarrow> string" where
  "appendTXTStringByte s b =
     (if b = CHR 0x09 then s @ [CHR 0x5C, CHR ''t'']
      else if b = CHR 0x0D then s @ [CHR 0x5C, CHR ''r'']
      else if b = CHR 0x0A then s @ [CHR 0x5C, CHR ''n'']
      else if b = CHR 0x22 \<or> b = CHR 0x5C then s @ [CHR 0x5C, b]
      else if (of_char b :: nat) < 32 \<or> 126 < (of_char b :: nat) then s @ ddd b
      else s @ [b])"

definition appendDomainNameByte :: "string \<Rightarrow> char \<Rightarrow> string" where
  "appendDomainNameByte s b =
     (if b \<in> {CHR ''.'', CHR '' '', CHR 0x27, CHR ''@'', CHR '';'', CHR ''('', CHR '')''}
      then s @ [CHR 0x5C, b]
      else appendTXTStringByte s b)"

text \<open>The loops of \<^verbatim>\<open>sprintName\<close> and \<^verbatim>\<open>sprintTxt\<close>, on the rest of the string.\<close>

function sprint_name :: "string \<Rightarrow> string \<Rightarrow> string" where
  "sprint_name dst src =
     (if src = [] then dst
      else if 1 < length src \<and> src ! 0 = CHR 0x5C \<and> src ! 1 = CHR ''.''
      then sprint_name (dst @ take 2 src) (drop 2 src)
      else
        (case next_byte src of (b, n) \<Rightarrow>
           if n = 0 then sprint_name dst (drop 1 src)
           else if b = CHR ''.'' then sprint_name (dst @ [b]) (drop n src)
           else sprint_name (appendDomainNameByte dst b) (drop n src)))"
  by pat_completeness auto
termination
  by (relation "measure (\<lambda>(dst, src). length src)") auto

declare sprint_name.simps [simp del]

definition sprintName :: "string \<Rightarrow> string" where
  "sprintName s = sprint_name [] s"

function txt_bytes :: "string \<Rightarrow> string \<Rightarrow> string" where
  "txt_bytes out bs =
     (if bs = [] then out
      else (case next_byte bs of (b, n) \<Rightarrow>
              if n = 0 then out else txt_bytes (appendTXTStringByte out b) (drop n bs)))"
  by pat_completeness auto
termination
  by (relation "measure (\<lambda>(out, bs). length bs)") auto

declare txt_bytes.simps [simp del]

fun sprint_txts :: "bool \<Rightarrow> string \<Rightarrow> string list \<Rightarrow> string" where
  "sprint_txts first out [] = out"
| "sprint_txts first out (s # txt) =
     sprint_txts False
       (txt_bytes (if first then out @ [CHR 0x22] else out @ [CHR '' '', CHR 0x22]) s @ [CHR 0x22]) txt"

definition sprintTxt :: "string list \<Rightarrow> string" where
  "sprintTxt txt = sprint_txts True [] txt"

section \<open>Types, classes and other values\<close>

definition Type_String :: "uint16 \<Rightarrow> string" where
  "Type_String t =
     (case map_of TypeToString_table t of Some t1 \<Rightarrow> t1 | None \<Rightarrow> ''TYPE'' @ Uitoa t)"

definition Class_String :: "uint16 \<Rightarrow> string" where
  "Class_String c =
     (case map_of ClassToString_table c of Some c1 \<Rightarrow> c1 | None \<Rightarrow> ''CLASS'' @ Uitoa c)"

definition Name_String :: "string \<Rightarrow> string" where
  "Name_String n = sprintName n"

definition types_String :: "uint16 list \<Rightarrow> string" where
  "types_String ts = concat (map (\<lambda>t. '' '' @ Type_String t) ts)"

definition saltToString :: "string \<Rightarrow> string" where
  "saltToString s = (if length s = 0 then ''-'' else ToUpper s)"

definition hex_digit :: "bool \<Rightarrow> nat \<Rightarrow> char" where
  "hex_digit upper d =
     (if d < 10 then char_of (48 + d) else if upper then char_of (55 + d) else char_of (87 + d))"

fun hex_of :: "bool \<Rightarrow> nat \<Rightarrow> string" where
  "hex_of upper n =
     (if n < 16 then [hex_digit upper n] else hex_of upper (n div 16) @ [hex_digit upper (n mod 16)])"

declare hex_of.simps [simp del]

definition hex_pad :: "nat \<Rightarrow> bool \<Rightarrow> nat \<Rightarrow> string" where
  "hex_pad k upper n = (let s = hex_of upper n in replicate (k - length s) (CHR ''0'') @ s)"

definition colon_groups :: "string \<Rightarrow> string" where
  "colon_groups node =
     take 4 node @ '':'' @ take 4 (drop 4 node) @ '':'' @ take 4 (drop 8 node) @ '':'' @
     take 4 (drop 12 node)"

definition euiToString :: "uint64 \<Rightarrow> int \<Rightarrow> string" where
  "euiToString eui bits =
     (if bits = 64 then
        let hex = hex_pad 16 False (unat eui)
        in Join (map (\<lambda>i. take 2 (drop (2 * i) hex)) [0..<8]) ''-''
      else if bits = 48 then
        let hex = hex_pad 12 False (unat eui)
        in Join (map (\<lambda>i. take 2 (drop (2 * i) hex)) [0..<6]) ''-''
      else [])"

definition cmToString :: "byte \<Rightarrow> byte \<Rightarrow> string" where
  "cmToString mantissa exponent =
     (if exponent = 0 then Uitoa mantissa @ ''.00''
      else if exponent = 1 then Uitoa (mantissa * 10) @ ''.00''
      else Uitoa mantissa @ replicate (unat (exponent - 2)) (CHR ''0''))"

text \<open>
  The text form of an address: dotted decimal for an IPv4 address in either of its forms, and for
  IPv6 the hexadecimal groups with the first longest run of at least two zero groups shortened.
\<close>

definition To4 :: "ip \<Rightarrow> ip option" where
  "To4 a =
     (if length a = 4 then Some a
      else if length a = 16 \<and> take 12 a = v4InV6Prefix then Some (drop 12 a)
      else None)"

fun ip_groups :: "ip \<Rightarrow> nat list" where
  "ip_groups (a # b # r) = (256 * unat a + unat b) # ip_groups r"
| "ip_groups _ = []"

definition zero_run :: "nat list \<Rightarrow> nat \<Rightarrow> nat" where
  "zero_run gs i = length (takeWhile (\<lambda>g. g = 0) (drop i gs))"

definition longest_run :: "nat list \<Rightarrow> (nat \<times> nat) option" where
  "longest_run gs =
     (let best = foldl (\<lambda>b i. if snd b < zero_run gs i then (i, zero_run gs i) else b) (0, 0)
                   [0..<length gs]
      in if snd best \<le> 1 then None else Some best)"

definition groups_text :: "nat list \<Rightarrow> string" where
  "groups_text gs = Join (map (hex_of False) gs) '':''"

definition IP_String :: "ip \<Rightarrow> string" where
  "IP_String a =
     (if a = [] then ''<nil>''
      else
        (case To4 a of
           Some p4 \<Rightarrow> Join (map Uitoa p4) ''.''
         | None \<Rightarrow>
             if length a \<noteq> 16 then ''?''
             else
               let gs = ip_groups a in
               (case longest_run gs of
                  None \<Rightarrow> groups_text gs
                | Some (i, n) \<Rightarrow>
                    groups_text (take i gs) @ ''::'' @ groups_text (drop (i + n) gs))))"

section \<open>Lengths\<close>

fun txt_len :: "nat \<Rightarrow> string list \<Rightarrow> nat" where
  "txt_len l [] = l"
| "txt_len l (t # ts) = txt_len (l + length t + 1) ts"

text \<open>
  The octets counted for a type bit map.  The start value of \<^verbatim>\<open>lastwindow\<close> is written
  \<^verbatim>\<open>2 ^ 32 + 1\<close> in Go, where \<^verbatim>\<open>^\<close> is exclusive or: 35, the number of a window.
\<close>

fun windows_from :: "nat \<Rightarrow> uint16 list \<Rightarrow> nat" where
  "windows_from lastwindow [] = 0"
| "windows_from lastwindow (t # ts) =
     (let window = unat (t div 256)
      in (if window \<noteq> lastwindow then 1 + 32 else 0) + windows_from window ts)"

definition windows_len :: "uint16 list \<Rightarrow> nat" where
  "windows_len ts = windows_from 35 ts"

section \<open>Questions and headers\<close>

record Question =
  qName :: string
  Qtype :: uint16
  Qclass :: uint16

record RR_Header =
  hdrName :: string
  Rrtype :: uint16
  hdrClass :: uint16
  Ttl :: uint32
  Rdlength :: uint16

definition Question_String :: "Question \<Rightarrow> string" where
  "Question_String q =
     '';'' @ sprintName (qName q) @ [CHR 0x09] @ Class_String (Qclass q) @ [CHR 0x09] @
     '' '' @ Type_String (Qtype q)"

definition Question_len :: "Question \<Rightarrow> nat" where
  "Question_len q = (let l = length (qName q) + 1 in l + 4)"

definition copyHeader :: "RR_Header \<Rightarrow> RR_Header" where
  "copyHeader h =
     \<lparr>hdrName = hdrName h, Rrtype = Rrtype h, hdrClass = hdrClass h, Ttl = Ttl h,
      Rdlength = Rdlength h\<rparr>"

definition hdr_String :: "RR_Header \<Rightarrow> string" where
  "hdr_String h =
     (if Rrtype h = TypeOPT then '';'' else []) @ sprintName (hdrName h) @ [CHR 0x09] @
     Uitoa (Ttl h) @ [CHR 0x09] @ Class_String (hdrClass h) @ [CHR 0x09] @
     Type_String (Rrtype h) @ [CHR 0x09]"

definition hdr_len :: "RR_Header \<Rightarrow> nat" where
  "hdr_len h = (let l = length (hdrName h) + 1 in l + 10)"

definition rfc3597Header :: "RR_Header \<Rightarrow> string" where
  "rfc3597Header h =
     sprintName (hdrName h) @ [CHR 0x09] @ Uitoa (Ttl h) @ [CHR 0x09] @
     ''CLASS'' @ Uitoa (hdrClass h) @ [CHR 0x09] @ ''TYPE'' @ Uitoa (Rrtype h) @ [CHR 0x09]"

lemma copyHeader_id [simp]: "copyHeader h = h"
  by (simp add: copyHeader_def)

end
