(* ===== verification/Dns_RR_A.thy ===== *)
theory Dns_RR_A
  imports Dns_Text
begin

text \<open>
  Resource records of \<^verbatim>\<open>types.go\<close>, part 1 of 3: the record types of RFC 1035 and its early extensions.  Each type is a record with its
  header first (the method \<^verbatim>\<open>Header\<close> is the selector of that field) and has the methods
  \<^verbatim>\<open>copy\<close>,
      \<^verbatim>\<open>len\<close> (the octets of the uncompressed record) and \<^verbatim>\<open>String\<close>.
\<close>

record ANY_RR =
  any_Hdr :: RR_Header

definition ANY_copy :: "ANY_RR \<Rightarrow> ANY_RR" where
  "ANY_copy r =
     \<lparr>any_Hdr = copyHeader (any_Hdr r)\<rparr>"

definition ANY_len :: "ANY_RR \<Rightarrow> nat" where
  "ANY_len r = hdr_len (any_Hdr r)"

definition ANY_String :: "ANY_RR \<Rightarrow> string" where
  "ANY_String r =
     hdr_String (any_Hdr r)"

record CNAME_RR =
  cname_Hdr :: RR_Header
  cname_Target :: "string"

definition CNAME_copy :: "CNAME_RR \<Rightarrow> CNAME_RR" where
  "CNAME_copy r =
     \<lparr>cname_Hdr = copyHeader (cname_Hdr r),
      cname_Target = sprintName (cname_Target r)\<rparr>"

definition CNAME_len :: "CNAME_RR \<Rightarrow> nat" where
  "CNAME_len r = hdr_len (cname_Hdr r) + length (cname_Target r) + 1"

definition CNAME_String :: "CNAME_RR \<Rightarrow> string" where
  "CNAME_String r =
     hdr_String (cname_Hdr r) @ cname_Target r"

record HINFO_RR =
  hinfo_Hdr :: RR_Header
  hinfo_Cpu :: "string"
  hinfo_Os :: "string"

definition HINFO_copy :: "HINFO_RR \<Rightarrow> HINFO_RR" where
  "HINFO_copy r =
     \<lparr>hinfo_Hdr = copyHeader (hinfo_Hdr r), hinfo_Cpu = hinfo_Cpu r,
      hinfo_Os = hinfo_Os r\<rparr>"

definition HINFO_len :: "HINFO_RR \<Rightarrow> nat" where
  "HINFO_len r = hdr_len (hinfo_Hdr r) + length (hinfo_Cpu r) + length (hinfo_Os r)"

definition HINFO_String :: "HINFO_RR \<Rightarrow> string" where
  "HINFO_String r =
     hdr_String (hinfo_Hdr r) @ hinfo_Cpu r @ '' '' @ hinfo_Os r"

record MB_RR =
  mb_Hdr :: RR_Header
  mb_Mb :: "string"

definition MB_copy :: "MB_RR \<Rightarrow> MB_RR" where
  "MB_copy r =
     \<lparr>mb_Hdr = copyHeader (mb_Hdr r), mb_Mb = sprintName (mb_Mb r)\<rparr>"

definition MB_len :: "MB_RR \<Rightarrow> nat" where
  "MB_len r = hdr_len (mb_Hdr r) + length (mb_Mb r) + 1"

definition MB_String :: "MB_RR \<Rightarrow> string" where
  "MB_String r =
     hdr_String (mb_Hdr r) @ mb_Mb r"

record MG_RR =
  mg_Hdr :: RR_Header
  mg_Mg :: "string"

definition MG_copy :: "MG_RR \<Rightarrow> MG_RR" where
  "MG_copy r =
     \<lparr>mg_Hdr = copyHeader (mg_Hdr r), mg_Mg = mg_Mg r\<rparr>"

definition MG_len :: "MG_RR \<Rightarrow> nat" where
  "MG_len r = (let l = length (mg_Mg r) + 1 in hdr_len (mg_Hdr r) + l)"

definition MG_String :: "MG_RR \<Rightarrow> string" where
  "MG_String r =
     hdr_String (mg_Hdr r) @ sprintName (mg_Mg r)"

record MINFO_RR =
  minfo_Hdr :: RR_Header
  minfo_Rmail :: "string"
  minfo_Email :: "string"

definition MINFO_copy :: "MINFO_RR \<Rightarrow> MINFO_RR" where
  "MINFO_copy r =
     \<lparr>minfo_Hdr = copyHeader (minfo_Hdr r), minfo_Rmail = minfo_Rmail r,
      minfo_Email = minfo_Email r\<rparr>"

definition MINFO_len :: "MINFO_RR \<Rightarrow> nat" where
  "MINFO_len r = (let l = length (minfo_Rmail r) + 1; n = length (minfo_Email r) +
      1 in hdr_len (minfo_Hdr r) + l + n)"

definition MINFO_String :: "MINFO_RR \<Rightarrow> string" where
  "MINFO_String r =
     hdr_String (minfo_Hdr r) @ sprintName (minfo_Rmail r) @ '' '' @ sprintName (minfo_Email r)"

record MR_RR =
  mr_Hdr :: RR_Header
  mr_Mr :: "string"

definition MR_copy :: "MR_RR \<Rightarrow> MR_RR" where
  "MR_copy r =
     \<lparr>mr_Hdr = copyHeader (mr_Hdr r), mr_Mr = mr_Mr r\<rparr>"

definition MR_len :: "MR_RR \<Rightarrow> nat" where
  "MR_len r = (let l = length (mr_Mr r) + 1 in hdr_len (mr_Hdr r) + l)"

definition MR_String :: "MR_RR \<Rightarrow> string" where
  "MR_String r =
     hdr_String (mr_Hdr r) @ sprintName (mr_Mr r)"

record MF_RR =
  mf_Hdr :: RR_Header
  mf_Mf :: "string"

definition MF_copy :: "MF_RR \<Rightarrow> MF_RR" where
  "MF_copy r =
     \<lparr>mf_Hdr = copyHeader (mf_Hdr r), mf_Mf = mf_Mf r\<rparr>"

definition MF_len :: "MF_RR \<Rightarrow> nat" where
  "MF_len r = hdr_len (mf_Hdr r) + length (mf_Mf r) + 1"

definition MF_String :: "MF_RR \<Rightarrow> string" where
  "MF_String r =
     hdr_String (mf_Hdr r) @ '' '' @ sprintName (mf_Mf r)"

record MD_RR =
  md_Hdr :: RR_Header
  md_Md :: "string"

definition MD_copy :: "MD_RR \<Rightarrow> MD_RR" where
  "MD_copy r =
     \<lparr>md_Hdr = copyHeader (md_Hdr r), md_Md = md_Md r\<rparr>"

definition MD_len :: "MD_RR \<Rightarrow> nat" where
  "MD_len r = hdr_len (md_Hdr r) + length (md_Md r) + 1"

definition MD_String :: "MD_RR \<Rightarrow> string" where
  "MD_String r =
     hdr_String (md_Hdr r) @ '' '' @ sprintName (md_Md r)"

record MX_RR =
  mx_Hdr :: RR_Header
  mx_Preference :: "uint16"
  mx_Mx :: "string"

definition MX_copy :: "MX_RR \<Rightarrow> MX_RR" where
  "MX_copy r =
     \<lparr>mx_Hdr = copyHeader (mx_Hdr r), mx_Preference = mx_Preference r,
      mx_Mx = mx_Mx r\<rparr>"

definition MX_len :: "MX_RR \<Rightarrow> nat" where
  "MX_len r = (let l = length (mx_Mx r) + 1 in hdr_len (mx_Hdr r) + l + 2)"

definition MX_String :: "MX_RR \<Rightarrow> string" where
  "MX_String r =
     hdr_String (mx_Hdr r) @ Uitoa (mx_Preference r) @ '' '' @ sprintName (mx_Mx r)"

record AFSDB_RR =
  afsdb_Hdr :: RR_Header
  afsdb_Subtype :: "uint16"
  afsdb_Hostname :: "string"

definition AFSDB_copy :: "AFSDB_RR \<Rightarrow> AFSDB_RR" where
  "AFSDB_copy r =
     \<lparr>afsdb_Hdr = copyHeader (afsdb_Hdr r), afsdb_Subtype = afsdb_Subtype r,
      afsdb_Hostname = afsdb_Hostname r\<rparr>"

definition AFSDB_len :: "AFSDB_RR \<Rightarrow> nat" where
  "AFSDB_len r = (let l = length (afsdb_Hostname r) + 1 in hdr_len (afsdb_Hdr r) + l + 2)"

definition AFSDB_String :: "AFSDB_RR \<Rightarrow> string" where
  "AFSDB_String r =
     hdr_String (afsdb_Hdr r) @ Uitoa (afsdb_Subtype r) @ '' '' @ sprintName (afsdb_Hostname r)"

record X25_RR =
  x25_Hdr :: RR_Header
  x25_PSDNAddress :: "string"

definition X25_copy :: "X25_RR \<Rightarrow> X25_RR" where
  "X25_copy r =
     \<lparr>x25_Hdr = copyHeader (x25_Hdr r), x25_PSDNAddress = x25_PSDNAddress r\<rparr>"

definition X25_len :: "X25_RR \<Rightarrow> nat" where
  "X25_len r = hdr_len (x25_Hdr r) + length (x25_PSDNAddress r) + 1"

definition X25_String :: "X25_RR \<Rightarrow> string" where
  "X25_String r =
     hdr_String (x25_Hdr r) @ x25_PSDNAddress r"

record RT_RR =
  rt_Hdr :: RR_Header
  rt_Preference :: "uint16"
  rt_Host :: "string"

definition RT_copy :: "RT_RR \<Rightarrow> RT_RR" where
  "RT_copy r =
     \<lparr>rt_Hdr = copyHeader (rt_Hdr r), rt_Preference = rt_Preference r,
      rt_Host = rt_Host r\<rparr>"

definition RT_len :: "RT_RR \<Rightarrow> nat" where
  "RT_len r = (let l = length (rt_Host r) + 1 in hdr_len (rt_Hdr r) + l + 2)"

definition RT_String :: "RT_RR \<Rightarrow> string" where
  "RT_String r =
     hdr_String (rt_Hdr r) @ Uitoa (rt_Preference r) @ '' '' @ sprintName (rt_Host r)"

record NS_RR =
  ns_Hdr :: RR_Header
  ns_Ns :: "string"

definition NS_copy :: "NS_RR \<Rightarrow> NS_RR" where
  "NS_copy r =
     \<lparr>ns_Hdr = copyHeader (ns_Hdr r), ns_Ns = ns_Ns r\<rparr>"

definition NS_len :: "NS_RR \<Rightarrow> nat" where
  "NS_len r = (let l = length (ns_Ns r) + 1 in hdr_len (ns_Hdr r) + l)"

definition NS_String :: "NS_RR \<Rightarrow> string" where
  "NS_String r =
     hdr_String (ns_Hdr r) @ sprintName (ns_Ns r)"

record PTR_RR =
  ptr_Hdr :: RR_Header
  ptr_Ptr :: "string"

definition PTR_copy :: "PTR_RR \<Rightarrow> PTR_RR" where
  "PTR_copy r =
     \<lparr>ptr_Hdr = copyHeader (ptr_Hdr r), ptr_Ptr = ptr_Ptr r\<rparr>"

definition PTR_len :: "PTR_RR \<Rightarrow> nat" where
  "PTR_len r = (let l = length (ptr_Ptr r) + 1 in hdr_len (ptr_Hdr r) + l)"

definition PTR_String :: "PTR_RR \<Rightarrow> string" where
  "PTR_String r =
     hdr_String (ptr_Hdr r) @ sprintName (ptr_Ptr r)"

record RP_RR =
  rp_Hdr :: RR_Header
  rp_Mbox :: "string"
  rp_Txt :: "string"

definition RP_copy :: "RP_RR \<Rightarrow> RP_RR" where
  "RP_copy r =
     \<lparr>rp_Hdr = copyHeader (rp_Hdr r), rp_Mbox = rp_Mbox r, rp_Txt = rp_Txt r\<rparr>"

definition RP_len :: "RP_RR \<Rightarrow> nat" where
  "RP_len r = hdr_len (rp_Hdr r) + length (rp_Mbox r) + 1 + length (rp_Txt r) + 1"

definition RP_String :: "RP_RR \<Rightarrow> string" where
  "RP_String r =
     hdr_String (rp_Hdr r) @ rp_Mbox r @ '' '' @ sprintTxt [(rp_Txt r)]"

record SOA_RR =
  soa_Hdr :: RR_Header
  soa_Ns :: "string"
  soa_Mbox :: "string"
  soa_Serial :: "uint32"
  soa_Refresh :: "uint32"
  soa_Retry :: "uint32"
  soa_Expire :: "uint32"
  soa_Minttl :: "uint32"

definition SOA_copy :: "SOA_RR \<Rightarrow> SOA_RR" where
  "SOA_copy r =
     \<lparr>soa_Hdr = copyHeader (soa_Hdr r), soa_Ns = soa_Ns r, soa_Mbox = soa_Mbox r,
      soa_Serial = soa_Serial r, soa_Refresh = soa_Refresh r, soa_Retry = soa_Retry r,
      soa_Expire = soa_Expire r, soa_Minttl = soa_Minttl r\<rparr>"

definition SOA_len :: "SOA_RR \<Rightarrow> nat" where
  "SOA_len r = (let l = length (soa_Ns r) + 1; n = length (soa_Mbox r) +
      1 in hdr_len (soa_Hdr r) + l + n + 20)"

definition SOA_String :: "SOA_RR \<Rightarrow> string" where
  "SOA_String r =
     hdr_String (soa_Hdr r) @ sprintName (soa_Ns r) @ '' '' @ sprintName (soa_Mbox r) @ '' '' @
      Uitoa (soa_Serial r) @ '' '' @ Uitoa (soa_Refresh r) @ '' '' @ Uitoa (soa_Retry r) @
      '' '' @ Uitoa (soa_Expire r) @ '' '' @ Uitoa (soa_Minttl r)"

record TXT_RR =
  txt_Hdr :: RR_Header
  txt_Txt :: "string list"

definition TXT_copy :: "TXT_RR \<Rightarrow> TXT_RR" where
  "TXT_copy r =
     \<lparr>txt_Hdr = copyHeader (txt_Hdr r), txt_Txt = txt_Txt r\<rparr>"

definition TXT_len :: "TXT_RR \<Rightarrow> nat" where
  "TXT_len r = txt_len (hdr_len (txt_Hdr r)) (txt_Txt r)"

definition TXT_String :: "TXT_RR \<Rightarrow> string" where
  "TXT_String r =
     hdr_String (txt_Hdr r) @ sprintTxt (txt_Txt r)"

record SPF_RR =
  spf_Hdr :: RR_Header
  spf_Txt :: "string list"

definition SPF_copy :: "SPF_RR \<Rightarrow> SPF_RR" where
  "SPF_copy r =
     \<lparr>spf_Hdr = copyHeader (spf_Hdr r), spf_Txt = spf_Txt r\<rparr>"

definition SPF_len :: "SPF_RR \<Rightarrow> nat" where
  "SPF_len r = txt_len (hdr_len (spf_Hdr r)) (spf_Txt r)"

definition SPF_String :: "SPF_RR \<Rightarrow> string" where
  "SPF_String r =
     hdr_String (spf_Hdr r) @ sprintTxt (spf_Txt r)"

record SRV_RR =
  srv_Hdr :: RR_Header
  srv_Priority :: "uint16"
  srv_Weight :: "uint16"
  srv_Port :: "uint16"
  srv_Target :: "string"

definition SRV_copy :: "SRV_RR \<Rightarrow> SRV_RR" where
  "SRV_copy r =
     \<lparr>srv_Hdr = copyHeader (srv_Hdr r), srv_Priority = srv_Priority r,
      srv_Weight = srv_Weight r, srv_Port = srv_Port r, srv_Target = srv_Target r\<rparr>"

definition SRV_len :: "SRV_RR \<Rightarrow> nat" where
  "SRV_len r = (let l = length (srv_Target r) + 1 in hdr_len (srv_Hdr r) + l + 6)"

definition SRV_String :: "SRV_RR \<Rightarrow> string" where
  "SRV_String r =
     hdr_String (srv_Hdr r) @ Uitoa (srv_Priority r) @ '' '' @ Uitoa (srv_Weight r) @ '' '' @
      Uitoa (srv_Port r) @ '' '' @ sprintName (srv_Target r)"

end
