(* ===== verification/Dns_RR_B.thy ===== *)
theory Dns_RR_B
  imports Dns_Text
begin

text \<open>
  Resource records of \<^verbatim>\<open>types.go\<close>, part 2 of 3: the types for addresses, locations, security and keys.  Each type is a record with its
  header first (the method \<^verbatim>\<open>Header\<close> is the selector of that field) and has the methods
  \<^verbatim>\<open>copy\<close>,
      \<^verbatim>\<open>len\<close> (the octets of the uncompressed record) and \<^verbatim>\<open>String\<close>.
\<close>

record NAPTR_RR =
  naptr_Hdr :: RR_Header
  naptr_Order :: "uint16"
  naptr_Preference :: "uint16"
  naptr_Flags :: "string"
  naptr_Service :: "string"
  naptr_Regexp :: "string"
  naptr_Replacement :: "string"

definition NAPTR_copy :: "NAPTR_RR \<Rightarrow> NAPTR_RR" where
  "NAPTR_copy r =
     \<lparr>naptr_Hdr = copyHeader (naptr_Hdr r), naptr_Order = naptr_Order r,
      naptr_Preference = naptr_Preference r, naptr_Flags = naptr_Flags r,
      naptr_Service = naptr_Service r, naptr_Regexp = naptr_Regexp r,
      naptr_Replacement = naptr_Replacement r\<rparr>"

definition NAPTR_len :: "NAPTR_RR \<Rightarrow> nat" where
  "NAPTR_len r = hdr_len (naptr_Hdr r) + 4 + length (naptr_Flags r) + 1 +
      length (naptr_Service r) + 1 + length (naptr_Regexp r) + 1 + length (naptr_Replacement r) + 1"

definition NAPTR_String :: "NAPTR_RR \<Rightarrow> string" where
  "NAPTR_String r =
     hdr_String (naptr_Hdr r) @ Uitoa (naptr_Order r) @ '' '' @ Uitoa (naptr_Preference r) @
      '' '' @ [CHR 0x22] @ naptr_Flags r @ [CHR 0x22, CHR '' ''] @ [CHR 0x22] @ naptr_Service r @
      [CHR 0x22, CHR '' ''] @ [CHR 0x22] @ naptr_Regexp r @ [CHR 0x22, CHR '' ''] @
      naptr_Replacement r"

record CERT_RR =
  cert_Hdr :: RR_Header
  cert_Type :: "uint16"
  cert_KeyTag :: "uint16"
  cert_Algorithm :: "byte"
  cert_Certificate :: "string"

definition CERT_copy :: "CERT_RR \<Rightarrow> CERT_RR" where
  "CERT_copy r =
     \<lparr>cert_Hdr = copyHeader (cert_Hdr r), cert_Type = cert_Type r,
      cert_KeyTag = cert_KeyTag r, cert_Algorithm = cert_Algorithm r,
      cert_Certificate = cert_Certificate r\<rparr>"

definition CERT_len :: "CERT_RR \<Rightarrow> nat" where
  "CERT_len r = hdr_len (cert_Hdr r) + 5 + base64_DecodedLen (length (cert_Certificate r))"

definition CERT_String :: "CERT_RR \<Rightarrow> string" where
  "CERT_String r =
     hdr_String (cert_Hdr r) @
      (case map_of CertTypeToString_table (cert_Type r) of Some t \<Rightarrow> t | None \<Rightarrow> Uitoa (cert_Type r)) @ '' '' @ Uitoa (cert_KeyTag r) @ '' '' @ (case map_of AlgorithmToString_table (cert_Algorithm r) of Some t \<Rightarrow> t | None \<Rightarrow> Uitoa (cert_Algorithm r)) @ '' '' @ cert_Certificate r"

record DNAME_RR =
  dname_Hdr :: RR_Header
  dname_Target :: "string"

definition DNAME_copy :: "DNAME_RR \<Rightarrow> DNAME_RR" where
  "DNAME_copy r =
     \<lparr>dname_Hdr = copyHeader (dname_Hdr r), dname_Target = dname_Target r\<rparr>"

definition DNAME_len :: "DNAME_RR \<Rightarrow> nat" where
  "DNAME_len r = (let l = length (dname_Target r) + 1 in hdr_len (dname_Hdr r) + l)"

definition DNAME_String :: "DNAME_RR \<Rightarrow> string" where
  "DNAME_String r =
     hdr_String (dname_Hdr r) @ sprintName (dname_Target r)"

record A_RR =
  a_Hdr :: RR_Header
  a_A :: "ip"

definition A_copy :: "A_RR \<Rightarrow> A_RR" where
  "A_copy r =
     \<lparr>a_Hdr = copyHeader (a_Hdr r), a_A = copyIP (a_A r)\<rparr>"

definition A_len :: "A_RR \<Rightarrow> nat" where
  "A_len r = hdr_len (a_Hdr r) + IPv4len"

definition A_String :: "A_RR \<Rightarrow> string" where
  "A_String r =
     (if (a_A r) = [] then hdr_String (a_Hdr r) else hdr_String (a_Hdr r) @ IP_String (a_A r))"

record AAAA_RR =
  aaaa_Hdr :: RR_Header
  aaaa_AAAA :: "ip"

definition AAAA_copy :: "AAAA_RR \<Rightarrow> AAAA_RR" where
  "AAAA_copy r =
     \<lparr>aaaa_Hdr = copyHeader (aaaa_Hdr r), aaaa_AAAA = copyIP (aaaa_AAAA r)\<rparr>"

definition AAAA_len :: "AAAA_RR \<Rightarrow> nat" where
  "AAAA_len r = hdr_len (aaaa_Hdr r) + IPv6len"

definition AAAA_String :: "AAAA_RR \<Rightarrow> string" where
  "AAAA_String r =
     (if (aaaa_AAAA r) = [] then hdr_String (aaaa_Hdr r) else hdr_String (aaaa_Hdr r) @
      IP_String (aaaa_AAAA r))"

record PX_RR =
  px_Hdr :: RR_Header
  px_Preference :: "uint16"
  px_Map822 :: "string"
  px_Mapx400 :: "string"

definition PX_copy :: "PX_RR \<Rightarrow> PX_RR" where
  "PX_copy r =
     \<lparr>px_Hdr = copyHeader (px_Hdr r), px_Preference = px_Preference r,
      px_Map822 = px_Map822 r, px_Mapx400 = px_Mapx400 r\<rparr>"

definition PX_len :: "PX_RR \<Rightarrow> nat" where
  "PX_len r = hdr_len (px_Hdr r) + 2 + length (px_Map822 r) + 1 + length (px_Mapx400 r) + 1"

definition PX_String :: "PX_RR \<Rightarrow> string" where
  "PX_String r =
     hdr_String (px_Hdr r) @ Uitoa (px_Preference r) @ '' '' @ sprintName (px_Map822 r) @ '' '' @
      sprintName (px_Mapx400 r)"

record GPOS_RR =
  gpos_Hdr :: RR_Header
  gpos_Longitude :: "string"
  gpos_Latitude :: "string"
  gpos_Altitude :: "string"

definition GPOS_copy :: "GPOS_RR \<Rightarrow> GPOS_RR" where
  "GPOS_copy r =
     \<lparr>gpos_Hdr = copyHeader (gpos_Hdr r), gpos_Longitude = gpos_Longitude r,
      gpos_Latitude = gpos_Latitude r, gpos_Altitude = gpos_Altitude r\<rparr>"

definition GPOS_len :: "GPOS_RR \<Rightarrow> nat" where
  "GPOS_len r = hdr_len (gpos_Hdr r) + length (gpos_Longitude r) + length (gpos_Latitude r) +
      length (gpos_Altitude r) + 3"

definition GPOS_String :: "GPOS_RR \<Rightarrow> string" where
  "GPOS_String r =
     hdr_String (gpos_Hdr r) @ gpos_Longitude r @ '' '' @ gpos_Latitude r @ '' '' @ gpos_Altitude r"

record LOC_RR =
  loc_Hdr :: RR_Header
  loc_Version :: "byte"
  loc_Size :: "byte"
  loc_HorizPre :: "byte"
  loc_VertPre :: "byte"
  loc_Latitude :: "uint32"
  loc_Longitude :: "uint32"
  loc_Altitude :: "uint32"

definition LOC_copy :: "LOC_RR \<Rightarrow> LOC_RR" where
  "LOC_copy r =
     \<lparr>loc_Hdr = copyHeader (loc_Hdr r), loc_Version = loc_Version r,
      loc_Size = loc_Size r, loc_HorizPre = loc_HorizPre r, loc_VertPre = loc_VertPre r,
      loc_Latitude = loc_Latitude r, loc_Longitude = loc_Longitude r,
      loc_Altitude = loc_Altitude r\<rparr>"

definition LOC_len :: "LOC_RR \<Rightarrow> nat" where
  "LOC_len r = hdr_len (loc_Hdr r) + 4 + 12"

record RRSIG_RR =
  rrsig_Hdr :: RR_Header
  rrsig_TypeCovered :: "uint16"
  rrsig_Algorithm :: "byte"
  rrsig_Labels :: "byte"
  rrsig_OrigTtl :: "uint32"
  rrsig_Expiration :: "uint32"
  rrsig_Inception :: "uint32"
  rrsig_KeyTag :: "uint16"
  rrsig_SignerName :: "string"
  rrsig_Signature :: "string"

definition RRSIG_copy :: "RRSIG_RR \<Rightarrow> RRSIG_RR" where
  "RRSIG_copy r =
     \<lparr>rrsig_Hdr = copyHeader (rrsig_Hdr r), rrsig_TypeCovered = rrsig_TypeCovered r,
      rrsig_Algorithm = rrsig_Algorithm r, rrsig_Labels = rrsig_Labels r,
      rrsig_OrigTtl = rrsig_OrigTtl r, rrsig_Expiration = rrsig_Expiration r,
      rrsig_Inception = rrsig_Inception r, rrsig_KeyTag = rrsig_KeyTag r,
      rrsig_SignerName = rrsig_SignerName r, rrsig_Signature = rrsig_Signature r\<rparr>"

definition RRSIG_len :: "RRSIG_RR \<Rightarrow> nat" where
  "RRSIG_len r = hdr_len (rrsig_Hdr r) + length (rrsig_SignerName r) + 1 +
      base64_DecodedLen (length (rrsig_Signature r)) + 18"

definition RRSIG_String :: "(uint32 \<Rightarrow> string) \<Rightarrow> RRSIG_RR \<Rightarrow> string" where
  "RRSIG_String timeToString r =
     hdr_String (rrsig_Hdr r) @ Type_String (rrsig_TypeCovered r) @ '' '' @
      Uitoa (rrsig_Algorithm r) @ '' '' @ Uitoa (rrsig_Labels r) @ '' '' @
      Uitoa (rrsig_OrigTtl r) @ '' '' @ timeToString (rrsig_Expiration r) @ '' '' @
      timeToString (rrsig_Inception r) @ '' '' @ Uitoa (rrsig_KeyTag r) @ '' '' @
      sprintName (rrsig_SignerName r) @ '' '' @ rrsig_Signature r"

record NSEC_RR =
  nsec_Hdr :: RR_Header
  nsec_NextDomain :: "string"
  nsec_TypeBitMap :: "uint16 list"

definition NSEC_copy :: "NSEC_RR \<Rightarrow> NSEC_RR" where
  "NSEC_copy r =
     \<lparr>nsec_Hdr = copyHeader (nsec_Hdr r), nsec_NextDomain = nsec_NextDomain r,
      nsec_TypeBitMap = nsec_TypeBitMap r\<rparr>"

definition NSEC_len :: "NSEC_RR \<Rightarrow> nat" where
  "NSEC_len r = hdr_len (nsec_Hdr r) + length (nsec_NextDomain r) + 1 +
      windows_len (nsec_TypeBitMap r)"

definition NSEC_String :: "NSEC_RR \<Rightarrow> string" where
  "NSEC_String r =
     hdr_String (nsec_Hdr r) @ sprintName (nsec_NextDomain r) @ types_String (nsec_TypeBitMap r)"

record DS_RR =
  ds_Hdr :: RR_Header
  ds_KeyTag :: "uint16"
  ds_Algorithm :: "byte"
  ds_DigestType :: "byte"
  ds_Digest :: "string"

definition DS_copy :: "DS_RR \<Rightarrow> DS_RR" where
  "DS_copy r =
     \<lparr>ds_Hdr = copyHeader (ds_Hdr r), ds_KeyTag = ds_KeyTag r,
      ds_Algorithm = ds_Algorithm r, ds_DigestType = ds_DigestType r,
      ds_Digest = ds_Digest r\<rparr>"

definition DS_len :: "DS_RR \<Rightarrow> nat" where
  "DS_len r = hdr_len (ds_Hdr r) + 4 + length (ds_Digest r) div 2"

definition DS_String :: "DS_RR \<Rightarrow> string" where
  "DS_String r =
     hdr_String (ds_Hdr r) @ Uitoa (ds_KeyTag r) @ '' '' @ Uitoa (ds_Algorithm r) @ '' '' @
      Uitoa (ds_DigestType r) @ '' '' @ ToUpper (ds_Digest r)"

record KX_RR =
  kx_Hdr :: RR_Header
  kx_Preference :: "uint16"
  kx_Exchanger :: "string"

definition KX_copy :: "KX_RR \<Rightarrow> KX_RR" where
  "KX_copy r =
     \<lparr>kx_Hdr = copyHeader (kx_Hdr r), kx_Preference = kx_Preference r,
      kx_Exchanger = kx_Exchanger r\<rparr>"

definition KX_len :: "KX_RR \<Rightarrow> nat" where
  "KX_len r = hdr_len (kx_Hdr r) + 2 + length (kx_Exchanger r) + 1"

definition KX_String :: "KX_RR \<Rightarrow> string" where
  "KX_String r =
     hdr_String (kx_Hdr r) @ Uitoa (kx_Preference r) @ '' '' @ sprintName (kx_Exchanger r)"

record TA_RR =
  ta_Hdr :: RR_Header
  ta_KeyTag :: "uint16"
  ta_Algorithm :: "byte"
  ta_DigestType :: "byte"
  ta_Digest :: "string"

definition TA_copy :: "TA_RR \<Rightarrow> TA_RR" where
  "TA_copy r =
     \<lparr>ta_Hdr = copyHeader (ta_Hdr r), ta_KeyTag = ta_KeyTag r,
      ta_Algorithm = ta_Algorithm r, ta_DigestType = ta_DigestType r,
      ta_Digest = ta_Digest r\<rparr>"

definition TA_len :: "TA_RR \<Rightarrow> nat" where
  "TA_len r = hdr_len (ta_Hdr r) + 4 + length (ta_Digest r) div 2"

definition TA_String :: "TA_RR \<Rightarrow> string" where
  "TA_String r =
     hdr_String (ta_Hdr r) @ Uitoa (ta_KeyTag r) @ '' '' @ Uitoa (ta_Algorithm r) @ '' '' @
      Uitoa (ta_DigestType r) @ '' '' @ ToUpper (ta_Digest r)"

record TALINK_RR =
  talink_Hdr :: RR_Header
  talink_PreviousName :: "string"
  talink_NextName :: "string"

definition TALINK_copy :: "TALINK_RR \<Rightarrow> TALINK_RR" where
  "TALINK_copy r =
     \<lparr>talink_Hdr = copyHeader (talink_Hdr r), talink_PreviousName = talink_PreviousName r,
      talink_NextName = talink_NextName r\<rparr>"

definition TALINK_len :: "TALINK_RR \<Rightarrow> nat" where
  "TALINK_len r = hdr_len (talink_Hdr r) + length (talink_PreviousName r) +
      length (talink_NextName r) + 2"

definition TALINK_String :: "TALINK_RR \<Rightarrow> string" where
  "TALINK_String r =
     hdr_String (talink_Hdr r) @ '' '' @ sprintName (talink_PreviousName r) @ '' '' @
      sprintName (talink_NextName r)"

record SSHFP_RR =
  sshfp_Hdr :: RR_Header
  sshfp_Algorithm :: "byte"
  sshfp_Type :: "byte"
  sshfp_FingerPrint :: "string"

definition SSHFP_copy :: "SSHFP_RR \<Rightarrow> SSHFP_RR" where
  "SSHFP_copy r =
     \<lparr>sshfp_Hdr = copyHeader (sshfp_Hdr r), sshfp_Algorithm = sshfp_Algorithm r,
      sshfp_Type = sshfp_Type r, sshfp_FingerPrint = sshfp_FingerPrint r\<rparr>"

definition SSHFP_len :: "SSHFP_RR \<Rightarrow> nat" where
  "SSHFP_len r = hdr_len (sshfp_Hdr r) + 2 + length (sshfp_FingerPrint r) div 2"

definition SSHFP_String :: "SSHFP_RR \<Rightarrow> string" where
  "SSHFP_String r =
     hdr_String (sshfp_Hdr r) @ Uitoa (sshfp_Algorithm r) @ '' '' @ Uitoa (sshfp_Type r) @
      '' '' @ ToUpper (sshfp_FingerPrint r)"

record IPSECKEY_RR =
  ipseckey_Hdr :: RR_Header
  ipseckey_Precedence :: "byte"
  ipseckey_GatewayType :: "byte"
  ipseckey_Algorithm :: "byte"
  ipseckey_Gateway :: "string"
  ipseckey_PublicKey :: "string"

definition IPSECKEY_copy :: "IPSECKEY_RR \<Rightarrow> IPSECKEY_RR" where
  "IPSECKEY_copy r =
     \<lparr>ipseckey_Hdr = copyHeader (ipseckey_Hdr r),
      ipseckey_Precedence = ipseckey_Precedence r, ipseckey_GatewayType = ipseckey_GatewayType r,
      ipseckey_Algorithm = ipseckey_Algorithm r, ipseckey_Gateway = ipseckey_Gateway r,
      ipseckey_PublicKey = ipseckey_PublicKey r\<rparr>"

definition IPSECKEY_len :: "IPSECKEY_RR \<Rightarrow> nat" where
  "IPSECKEY_len r = hdr_len (ipseckey_Hdr r) + 3 + length (ipseckey_Gateway r) + 1 +
      base64_DecodedLen (length (ipseckey_PublicKey r))"

definition IPSECKEY_String :: "IPSECKEY_RR \<Rightarrow> string" where
  "IPSECKEY_String r =
     hdr_String (ipseckey_Hdr r) @ Uitoa (ipseckey_Precedence r) @ '' '' @
      Uitoa (ipseckey_GatewayType r) @ '' '' @ Uitoa (ipseckey_Algorithm r) @ '' '' @
      ipseckey_Gateway r @ '' '' @ ipseckey_PublicKey r"

record DNSKEY_RR =
  dnskey_Hdr :: RR_Header
  dnskey_Flags :: "uint16"
  dnskey_Protocol :: "byte"
  dnskey_Algorithm :: "byte"
  dnskey_PublicKey :: "string"

definition DNSKEY_copy :: "DNSKEY_RR \<Rightarrow> DNSKEY_RR" where
  "DNSKEY_copy r =
     \<lparr>dnskey_Hdr = copyHeader (dnskey_Hdr r), dnskey_Flags = dnskey_Flags r,
      dnskey_Protocol = dnskey_Protocol r, dnskey_Algorithm = dnskey_Algorithm r,
      dnskey_PublicKey = dnskey_PublicKey r\<rparr>"

definition DNSKEY_len :: "DNSKEY_RR \<Rightarrow> nat" where
  "DNSKEY_len r = hdr_len (dnskey_Hdr r) + 4 + base64_DecodedLen (length (dnskey_PublicKey r))"

definition DNSKEY_String :: "DNSKEY_RR \<Rightarrow> string" where
  "DNSKEY_String r =
     hdr_String (dnskey_Hdr r) @ Uitoa (dnskey_Flags r) @ '' '' @ Uitoa (dnskey_Protocol r) @
      '' '' @ Uitoa (dnskey_Algorithm r) @ '' '' @ dnskey_PublicKey r"

record RKEY_RR =
  rkey_Hdr :: RR_Header
  rkey_Flags :: "uint16"
  rkey_Protocol :: "byte"
  rkey_Algorithm :: "byte"
  rkey_PublicKey :: "string"

definition RKEY_copy :: "RKEY_RR \<Rightarrow> RKEY_RR" where
  "RKEY_copy r =
     \<lparr>rkey_Hdr = copyHeader (rkey_Hdr r), rkey_Flags = rkey_Flags r,
      rkey_Protocol = rkey_Protocol r, rkey_Algorithm = rkey_Algorithm r,
      rkey_PublicKey = rkey_PublicKey r\<rparr>"

definition RKEY_len :: "RKEY_RR \<Rightarrow> nat" where
  "RKEY_len r = hdr_len (rkey_Hdr r) + 4 + base64_DecodedLen (length (rkey_PublicKey r))"

definition RKEY_String :: "RKEY_RR \<Rightarrow> string" where
  "RKEY_String r =
     hdr_String (rkey_Hdr r) @ Uitoa (rkey_Flags r) @ '' '' @ Uitoa (rkey_Protocol r) @ '' '' @
      Uitoa (rkey_Algorithm r) @ '' '' @ rkey_PublicKey r"

record NSAP_RR =
  nsap_Hdr :: RR_Header
  nsap_Length :: "byte"
  nsap_Nsap :: "string"

definition NSAP_copy :: "NSAP_RR \<Rightarrow> NSAP_RR" where
  "NSAP_copy r =
     \<lparr>nsap_Hdr = copyHeader (nsap_Hdr r), nsap_Length = nsap_Length r,
      nsap_Nsap = nsap_Nsap r\<rparr>"

definition NSAP_len :: "NSAP_RR \<Rightarrow> nat" where
  "NSAP_len r = hdr_len (nsap_Hdr r) + 1 + length (nsap_Nsap r) + 1"

definition NSAP_String :: "NSAP_RR \<Rightarrow> string" where
  "NSAP_String r =
     hdr_String (nsap_Hdr r) @ Uitoa (nsap_Length r) @ '' '' @ nsap_Nsap r"

record NSAPPTR_RR =
  nsapptr_Hdr :: RR_Header
  nsapptr_Ptr :: "string"

definition NSAPPTR_copy :: "NSAPPTR_RR \<Rightarrow> NSAPPTR_RR" where
  "NSAPPTR_copy r =
     \<lparr>nsapptr_Hdr = copyHeader (nsapptr_Hdr r), nsapptr_Ptr = nsapptr_Ptr r\<rparr>"

definition NSAPPTR_len :: "NSAPPTR_RR \<Rightarrow> nat" where
  "NSAPPTR_len r = hdr_len (nsapptr_Hdr r) + length (nsapptr_Ptr r)"

definition NSAPPTR_String :: "NSAPPTR_RR \<Rightarrow> string" where
  "NSAPPTR_String r =
     hdr_String (nsapptr_Hdr r) @ sprintName (nsapptr_Ptr r)"

record NSEC3_RR =
  nsec3_Hdr :: RR_Header
  nsec3_Hash :: "byte"
  nsec3_Flags :: "byte"
  nsec3_Iterations :: "uint16"
  nsec3_SaltLength :: "byte"
  nsec3_Salt :: "string"
  nsec3_HashLength :: "byte"
  nsec3_NextDomain :: "string"
  nsec3_TypeBitMap :: "uint16 list"

definition NSEC3_copy :: "NSEC3_RR \<Rightarrow> NSEC3_RR" where
  "NSEC3_copy r =
     \<lparr>nsec3_Hdr = copyHeader (nsec3_Hdr r), nsec3_Hash = nsec3_Hash r,
      nsec3_Flags = nsec3_Flags r, nsec3_Iterations = nsec3_Iterations r,
      nsec3_SaltLength = nsec3_SaltLength r, nsec3_Salt = nsec3_Salt r,
      nsec3_HashLength = nsec3_HashLength r, nsec3_NextDomain = nsec3_NextDomain r,
      nsec3_TypeBitMap = nsec3_TypeBitMap r\<rparr>"

definition NSEC3_len :: "NSEC3_RR \<Rightarrow> nat" where
  "NSEC3_len r = hdr_len (nsec3_Hdr r) + 6 + length (nsec3_Salt r) div 2 + 1 +
      length (nsec3_NextDomain r) + 1 + windows_len (nsec3_TypeBitMap r)"

definition NSEC3_String :: "NSEC3_RR \<Rightarrow> string" where
  "NSEC3_String r =
     hdr_String (nsec3_Hdr r) @ Uitoa (nsec3_Hash r) @ '' '' @ Uitoa (nsec3_Flags r) @ '' '' @
      Uitoa (nsec3_Iterations r) @ '' '' @ saltToString (nsec3_Salt r) @ '' '' @
      nsec3_NextDomain r @ types_String (nsec3_TypeBitMap r)"

record NSEC3PARAM_RR =
  nsec3param_Hdr :: RR_Header
  nsec3param_Hash :: "byte"
  nsec3param_Flags :: "byte"
  nsec3param_Iterations :: "uint16"
  nsec3param_SaltLength :: "byte"
  nsec3param_Salt :: "string"

definition NSEC3PARAM_copy :: "NSEC3PARAM_RR \<Rightarrow> NSEC3PARAM_RR" where
  "NSEC3PARAM_copy r =
     \<lparr>nsec3param_Hdr = copyHeader (nsec3param_Hdr r), nsec3param_Hash = nsec3param_Hash r,
      nsec3param_Flags = nsec3param_Flags r, nsec3param_Iterations = nsec3param_Iterations r,
      nsec3param_SaltLength = nsec3param_SaltLength r, nsec3param_Salt = nsec3param_Salt r\<rparr>"

definition NSEC3PARAM_len :: "NSEC3PARAM_RR \<Rightarrow> nat" where
  "NSEC3PARAM_len r = hdr_len (nsec3param_Hdr r) + 2 + 4 + 1 + length (nsec3param_Salt r) div 2"

definition NSEC3PARAM_String :: "NSEC3PARAM_RR \<Rightarrow> string" where
  "NSEC3PARAM_String r =
     hdr_String (nsec3param_Hdr r) @ Uitoa (nsec3param_Hash r) @ '' '' @
      Uitoa (nsec3param_Flags r) @ '' '' @ Uitoa (nsec3param_Iterations r) @ '' '' @
      saltToString (nsec3param_Salt r)"

end
