(* ===== verification/Dns_RR_C.thy ===== *)
theory Dns_RR_C
  imports Dns_Text
begin

text \<open>
  Resource records of \<^verbatim>\<open>types.go\<close>, part 3 of 3: the remaining types.  Each type is a record with its
  header first (the method \<^verbatim>\<open>Header\<close> is the selector of that field) and has the methods
  \<^verbatim>\<open>copy\<close>,
      \<^verbatim>\<open>len\<close> (the octets of the uncompressed record) and \<^verbatim>\<open>String\<close>.
\<close>

record TKEY_RR =
  tkey_Hdr :: RR_Header
  tkey_Algorithm :: "string"
  tkey_Inception :: "uint32"
  tkey_Expiration :: "uint32"
  tkey_Mode :: "uint16"
  tkey_Error :: "uint16"
  tkey_KeySize :: "uint16"
  tkey_Key :: "string"
  tkey_OtherLen :: "uint16"
  tkey_OtherData :: "string"

definition TKEY_copy :: "TKEY_RR \<Rightarrow> TKEY_RR" where
  "TKEY_copy r =
     \<lparr>tkey_Hdr = copyHeader (tkey_Hdr r), tkey_Algorithm = tkey_Algorithm r,
      tkey_Inception = tkey_Inception r, tkey_Expiration = tkey_Expiration r,
      tkey_Mode = tkey_Mode r, tkey_Error = tkey_Error r, tkey_KeySize = tkey_KeySize r,
      tkey_Key = tkey_Key r, tkey_OtherLen = tkey_OtherLen r,
      tkey_OtherData = tkey_OtherData r\<rparr>"

definition TKEY_len :: "TKEY_RR \<Rightarrow> nat" where
  "TKEY_len r = hdr_len (tkey_Hdr r) + length (tkey_Algorithm r) + 1 + 4 + 4 + 6 +
      length (tkey_Key r) + 2 + length (tkey_OtherData r)"

definition TKEY_String :: "TKEY_RR \<Rightarrow> string" where
  "TKEY_String r =
     []"

record RFC3597_RR =
  rfc3597_Hdr :: RR_Header
  rfc3597_Rdata :: "string"

definition RFC3597_copy :: "RFC3597_RR \<Rightarrow> RFC3597_RR" where
  "RFC3597_copy r =
     \<lparr>rfc3597_Hdr = copyHeader (rfc3597_Hdr r), rfc3597_Rdata = rfc3597_Rdata r\<rparr>"

definition RFC3597_len :: "RFC3597_RR \<Rightarrow> nat" where
  "RFC3597_len r = hdr_len (rfc3597_Hdr r) + length (rfc3597_Rdata r) div 2 + 2"

definition RFC3597_String :: "RFC3597_RR \<Rightarrow> string" where
  "RFC3597_String r =
     rfc3597Header (rfc3597_Hdr r) @ [CHR 0x5C, CHR ''#'', CHR '' ''] @
      utoa (length (rfc3597_Rdata r) div 2) @ '' '' @ rfc3597_Rdata r"

record URI_RR =
  uri_Hdr :: RR_Header
  uri_Priority :: "uint16"
  uri_Weight :: "uint16"
  uri_Target :: "string list"

definition URI_copy :: "URI_RR \<Rightarrow> URI_RR" where
  "URI_copy r =
     \<lparr>uri_Hdr = copyHeader (uri_Hdr r), uri_Priority = (uri_Weight r),
      uri_Weight = (uri_Priority r), uri_Target = uri_Target r\<rparr>"

definition URI_len :: "URI_RR \<Rightarrow> nat" where
  "URI_len r = txt_len (hdr_len (uri_Hdr r) + 4) (uri_Target r)"

definition URI_String :: "URI_RR \<Rightarrow> string" where
  "URI_String r =
     hdr_String (uri_Hdr r) @ Uitoa (uri_Priority r) @ '' '' @ Uitoa (uri_Weight r) @
      sprintTxt (uri_Target r)"

record DHCID_RR =
  dhcid_Hdr :: RR_Header
  dhcid_Digest :: "string"

definition DHCID_copy :: "DHCID_RR \<Rightarrow> DHCID_RR" where
  "DHCID_copy r =
     \<lparr>dhcid_Hdr = copyHeader (dhcid_Hdr r), dhcid_Digest = dhcid_Digest r\<rparr>"

definition DHCID_len :: "DHCID_RR \<Rightarrow> nat" where
  "DHCID_len r = hdr_len (dhcid_Hdr r) + base64_DecodedLen (length (dhcid_Digest r))"

definition DHCID_String :: "DHCID_RR \<Rightarrow> string" where
  "DHCID_String r =
     hdr_String (dhcid_Hdr r) @ dhcid_Digest r"

record TLSA_RR =
  tlsa_Hdr :: RR_Header
  tlsa_Usage :: "byte"
  tlsa_Selector :: "byte"
  tlsa_MatchingType :: "byte"
  tlsa_Certificate :: "string"

definition TLSA_copy :: "TLSA_RR \<Rightarrow> TLSA_RR" where
  "TLSA_copy r =
     \<lparr>tlsa_Hdr = copyHeader (tlsa_Hdr r), tlsa_Usage = tlsa_Usage r,
      tlsa_Selector = tlsa_Selector r, tlsa_MatchingType = tlsa_MatchingType r,
      tlsa_Certificate = tlsa_Certificate r\<rparr>"

definition TLSA_len :: "TLSA_RR \<Rightarrow> nat" where
  "TLSA_len r = hdr_len (tlsa_Hdr r) + 3 + length (tlsa_Certificate r) div 2"

definition TLSA_String :: "TLSA_RR \<Rightarrow> string" where
  "TLSA_String r =
     hdr_String (tlsa_Hdr r) @ '' '' @ Uitoa (tlsa_Usage r) @ '' '' @ Uitoa (tlsa_Selector r) @
      '' '' @ Uitoa (tlsa_MatchingType r) @ '' '' @ tlsa_Certificate r"

record HIP_RR =
  hip_Hdr :: RR_Header
  hip_HitLength :: "byte"
  hip_PublicKeyAlgorithm :: "byte"
  hip_PublicKeyLength :: "uint16"
  hip_Hit :: "string"
  hip_PublicKey :: "string"
  hip_RendezvousServers :: "string list"

definition HIP_copy :: "HIP_RR \<Rightarrow> HIP_RR" where
  "HIP_copy r =
     \<lparr>hip_Hdr = copyHeader (hip_Hdr r), hip_HitLength = hip_HitLength r,
      hip_PublicKeyAlgorithm = hip_PublicKeyAlgorithm r,
      hip_PublicKeyLength = hip_PublicKeyLength r, hip_Hit = hip_Hit r,
      hip_PublicKey = hip_PublicKey r, hip_RendezvousServers = hip_RendezvousServers r\<rparr>"

definition HIP_len :: "HIP_RR \<Rightarrow> nat" where
  "HIP_len r = txt_len (hdr_len (hip_Hdr r) + 4 + length (hip_Hit r) div 2 +
      base64_DecodedLen (length (hip_PublicKey r))) (hip_RendezvousServers r)"

definition HIP_String :: "HIP_RR \<Rightarrow> string" where
  "HIP_String r =
     hdr_String (hip_Hdr r) @ '' '' @ Uitoa (hip_PublicKeyAlgorithm r) @ '' '' @ hip_Hit r @
      '' '' @ hip_PublicKey r @ concat (map (\<lambda>d. '' '' @
      sprintName d) (hip_RendezvousServers r))"

record NINFO_RR =
  ninfo_Hdr :: RR_Header
  ninfo_ZSData :: "string list"

definition NINFO_copy :: "NINFO_RR \<Rightarrow> NINFO_RR" where
  "NINFO_copy r =
     \<lparr>ninfo_Hdr = copyHeader (ninfo_Hdr r), ninfo_ZSData = ninfo_ZSData r\<rparr>"

definition NINFO_len :: "NINFO_RR \<Rightarrow> nat" where
  "NINFO_len r = txt_len (hdr_len (ninfo_Hdr r)) (ninfo_ZSData r)"

definition NINFO_String :: "NINFO_RR \<Rightarrow> string" where
  "NINFO_String r =
     hdr_String (ninfo_Hdr r) @ sprintTxt (ninfo_ZSData r)"

record WKS_RR =
  wks_Hdr :: RR_Header
  wks_Address :: "ip"
  wks_Protocol :: "byte"
  wks_BitMap :: "uint16 list"

definition WKS_copy :: "WKS_RR \<Rightarrow> WKS_RR" where
  "WKS_copy r =
     \<lparr>wks_Hdr = copyHeader (wks_Hdr r), wks_Address = copyIP (wks_Address r),
      wks_Protocol = wks_Protocol r, wks_BitMap = wks_BitMap r\<rparr>"

definition WKS_len :: "WKS_RR \<Rightarrow> nat" where
  "WKS_len r = hdr_len (wks_Hdr r) + IPv4len + 1"

definition WKS_String :: "WKS_RR \<Rightarrow> string" where
  "WKS_String r =
     hdr_String (wks_Hdr r) @ (if (wks_Address r) \<noteq> [] then IP_String (wks_Address r) else
      []) @ concat (map (\<lambda>b. '' '' @ Uitoa b) (wks_BitMap r))"

record NID_RR =
  nid_Hdr :: RR_Header
  nid_Preference :: "uint16"
  nid_NodeID :: "uint64"

definition NID_copy :: "NID_RR \<Rightarrow> NID_RR" where
  "NID_copy r =
     \<lparr>nid_Hdr = copyHeader (nid_Hdr r), nid_Preference = nid_Preference r,
      nid_NodeID = nid_NodeID r\<rparr>"

definition NID_len :: "NID_RR \<Rightarrow> nat" where
  "NID_len r = hdr_len (nid_Hdr r) + 2 + 8"

definition NID_String :: "NID_RR \<Rightarrow> string" where
  "NID_String r =
     hdr_String (nid_Hdr r) @ Uitoa (nid_Preference r) @
      (let node = hex_pad 16 False (unat (nid_NodeID r)) in '' '' @ colon_groups node)"

record L32_RR =
  l32_Hdr :: RR_Header
  l32_Preference :: "uint16"
  l32_Locator32 :: "ip"

definition L32_copy :: "L32_RR \<Rightarrow> L32_RR" where
  "L32_copy r =
     \<lparr>l32_Hdr = copyHeader (l32_Hdr r), l32_Preference = l32_Preference r,
      l32_Locator32 = copyIP (l32_Locator32 r)\<rparr>"

definition L32_len :: "L32_RR \<Rightarrow> nat" where
  "L32_len r = hdr_len (l32_Hdr r) + IPv4len"

definition L32_String :: "L32_RR \<Rightarrow> string" where
  "L32_String r =
     (if (l32_Locator32 r) = [] then hdr_String (l32_Hdr r) @ Uitoa (l32_Preference r) else
      hdr_String (l32_Hdr r) @ Uitoa (l32_Preference r) @ '' '' @ IP_String (l32_Locator32 r))"

record L64_RR =
  l64_Hdr :: RR_Header
  l64_Preference :: "uint16"
  l64_Locator64 :: "uint64"

definition L64_copy :: "L64_RR \<Rightarrow> L64_RR" where
  "L64_copy r =
     \<lparr>l64_Hdr = copyHeader (l64_Hdr r), l64_Preference = l64_Preference r,
      l64_Locator64 = l64_Locator64 r\<rparr>"

definition L64_len :: "L64_RR \<Rightarrow> nat" where
  "L64_len r = hdr_len (l64_Hdr r) + 2 + 8"

definition L64_String :: "L64_RR \<Rightarrow> string" where
  "L64_String r =
     hdr_String (l64_Hdr r) @ Uitoa (l64_Preference r) @
      (let node = hex_pad 16 True (unat (l64_Locator64 r)) in '' '' @ colon_groups node)"

record LP_RR =
  lp_Hdr :: RR_Header
  lp_Preference :: "uint16"
  lp_Fqdn :: "string"

definition LP_copy :: "LP_RR \<Rightarrow> LP_RR" where
  "LP_copy r =
     \<lparr>lp_Hdr = copyHeader (lp_Hdr r), lp_Preference = lp_Preference r,
      lp_Fqdn = lp_Fqdn r\<rparr>"

definition LP_len :: "LP_RR \<Rightarrow> nat" where
  "LP_len r = hdr_len (lp_Hdr r) + 2 + length (lp_Fqdn r) + 1"

definition LP_String :: "LP_RR \<Rightarrow> string" where
  "LP_String r =
     hdr_String (lp_Hdr r) @ Uitoa (lp_Preference r) @ '' '' @ sprintName (lp_Fqdn r)"

record EUI48_RR =
  eui48_Hdr :: RR_Header
  eui48_Address :: "uint64"

definition EUI48_copy :: "EUI48_RR \<Rightarrow> EUI48_RR" where
  "EUI48_copy r =
     \<lparr>eui48_Hdr = copyHeader (eui48_Hdr r), eui48_Address = eui48_Address r\<rparr>"

definition EUI48_len :: "EUI48_RR \<Rightarrow> nat" where
  "EUI48_len r = hdr_len (eui48_Hdr r) + 6"

definition EUI48_String :: "EUI48_RR \<Rightarrow> string" where
  "EUI48_String r =
     hdr_String (eui48_Hdr r) @ euiToString (eui48_Address r) 48"

record EUI64_RR =
  eui64_Hdr :: RR_Header
  eui64_Address :: "uint64"

definition EUI64_copy :: "EUI64_RR \<Rightarrow> EUI64_RR" where
  "EUI64_copy r =
     \<lparr>eui64_Hdr = copyHeader (eui64_Hdr r), eui64_Address = eui64_Address r\<rparr>"

definition EUI64_len :: "EUI64_RR \<Rightarrow> nat" where
  "EUI64_len r = hdr_len (eui64_Hdr r) + 8"

definition EUI64_String :: "EUI64_RR \<Rightarrow> string" where
  "EUI64_String r =
     hdr_String (eui64_Hdr r) @ euiToString (eui64_Address r) 64"

record UID_RR =
  uid_Hdr :: RR_Header
  uid_Uid :: "uint32"

definition UID_copy :: "UID_RR \<Rightarrow> UID_RR" where
  "UID_copy r =
     \<lparr>uid_Hdr = copyHeader (uid_Hdr r), uid_Uid = uid_Uid r\<rparr>"

definition UID_len :: "UID_RR \<Rightarrow> nat" where
  "UID_len r = hdr_len (uid_Hdr r) + 4"

definition UID_String :: "UID_RR \<Rightarrow> string" where
  "UID_String r =
     hdr_String (uid_Hdr r) @ Uitoa (uid_Uid r)"

record GID_RR =
  gid_Hdr :: RR_Header
  gid_Gid :: "uint32"

definition GID_copy :: "GID_RR \<Rightarrow> GID_RR" where
  "GID_copy r =
     \<lparr>gid_Hdr = copyHeader (gid_Hdr r), gid_Gid = gid_Gid r\<rparr>"

definition GID_len :: "GID_RR \<Rightarrow> nat" where
  "GID_len r = hdr_len (gid_Hdr r) + 4"

definition GID_String :: "GID_RR \<Rightarrow> string" where
  "GID_String r =
     hdr_String (gid_Hdr r) @ Uitoa (gid_Gid r)"

record UINFO_RR =
  uinfo_Hdr :: RR_Header
  uinfo_Uinfo :: "string"

definition UINFO_copy :: "UINFO_RR \<Rightarrow> UINFO_RR" where
  "UINFO_copy r =
     \<lparr>uinfo_Hdr = copyHeader (uinfo_Hdr r), uinfo_Uinfo = uinfo_Uinfo r\<rparr>"

definition UINFO_len :: "UINFO_RR \<Rightarrow> nat" where
  "UINFO_len r = hdr_len (uinfo_Hdr r) + length (uinfo_Uinfo r) + 1"

definition UINFO_String :: "UINFO_RR \<Rightarrow> string" where
  "UINFO_String r =
     hdr_String (uinfo_Hdr r) @ sprintTxt [(uinfo_Uinfo r)]"

record EID_RR =
  eid_Hdr :: RR_Header
  eid_Endpoint :: "string"

definition EID_copy :: "EID_RR \<Rightarrow> EID_RR" where
  "EID_copy r =
     \<lparr>eid_Hdr = copyHeader (eid_Hdr r), eid_Endpoint = eid_Endpoint r\<rparr>"

definition EID_len :: "EID_RR \<Rightarrow> nat" where
  "EID_len r = hdr_len (eid_Hdr r) + length (eid_Endpoint r) div 2"

definition EID_String :: "EID_RR \<Rightarrow> string" where
  "EID_String r =
     hdr_String (eid_Hdr r) @ ToUpper (eid_Endpoint r)"

record NIMLOC_RR =
  nimloc_Hdr :: RR_Header
  nimloc_Locator :: "string"

definition NIMLOC_copy :: "NIMLOC_RR \<Rightarrow> NIMLOC_RR" where
  "NIMLOC_copy r =
     \<lparr>nimloc_Hdr = copyHeader (nimloc_Hdr r), nimloc_Locator = nimloc_Locator r\<rparr>"

definition NIMLOC_len :: "NIMLOC_RR \<Rightarrow> nat" where
  "NIMLOC_len r = hdr_len (nimloc_Hdr r) + length (nimloc_Locator r) div 2"

definition NIMLOC_String :: "NIMLOC_RR \<Rightarrow> string" where
  "NIMLOC_String r =
     hdr_String (nimloc_Hdr r) @ ToUpper (nimloc_Locator r)"

record OPENPGPKEY_RR =
  openpgpkey_Hdr :: RR_Header
  openpgpkey_PublicKey :: "string"

definition OPENPGPKEY_copy :: "OPENPGPKEY_RR \<Rightarrow> OPENPGPKEY_RR" where
  "OPENPGPKEY_copy r =
     \<lparr>openpgpkey_Hdr = copyHeader (openpgpkey_Hdr r),
      openpgpkey_PublicKey = openpgpkey_PublicKey r\<rparr>"

definition OPENPGPKEY_len :: "OPENPGPKEY_RR \<Rightarrow> nat" where
  "OPENPGPKEY_len r = hdr_len (openpgpkey_Hdr r) +
      base64_DecodedLen (length (openpgpkey_PublicKey r))"

definition OPENPGPKEY_String :: "OPENPGPKEY_RR \<Rightarrow> string" where
  "OPENPGPKEY_String r =
     hdr_String (openpgpkey_Hdr r) @ openpgpkey_PublicKey r"

record TSIG_RR =
  tsig_Hdr :: RR_Header
  tsig_Algorithm :: "string"
  tsig_TimeSigned :: "uint64"
  tsig_Fudge :: "uint16"
  tsig_MACSize :: "uint16"
  tsig_MAC :: "string"
  tsig_OrigId :: "uint16"
  tsig_Error :: "uint16"
  tsig_OtherLen :: "uint16"
  tsig_OtherData :: "string"

definition TSIG_copy :: "TSIG_RR \<Rightarrow> TSIG_RR" where
  "TSIG_copy r =
     \<lparr>tsig_Hdr = copyHeader (tsig_Hdr r), tsig_Algorithm = tsig_Algorithm r,
      tsig_TimeSigned = tsig_TimeSigned r, tsig_Fudge = tsig_Fudge r,
      tsig_MACSize = tsig_MACSize r, tsig_MAC = tsig_MAC r, tsig_OrigId = tsig_OrigId r,
      tsig_Error = tsig_Error r, tsig_OtherLen = tsig_OtherLen r,
      tsig_OtherData = tsig_OtherData r\<rparr>"

definition TSIG_len :: "TSIG_RR \<Rightarrow> nat" where
  "TSIG_len r = hdr_len (tsig_Hdr r) + length (tsig_Algorithm r) + 1 + 6 + 4 +
      length (tsig_MAC r) div 2 + 1 + 6 + length (tsig_OtherData r) div 2 + 1"

end
