(* ===== verification/Go_Encoding.thy ===== *)
theory Go_Encoding
  imports Go_Net
begin

text \<open>
  Go's packages \<^verbatim>\<open>encoding/hex\<close>, \<^verbatim>\<open>encoding/base64\<close> (standard alphabet) and
  \<^verbatim>\<open>encoding/base32\<close> (extended hexadecimal alphabet), as far as the DNS library uses them, and
  big-endian integers.  Byte slices are strings.  A decoder that reports an error yields \<^const>\<open>None\<close>;
  which of its errors it reports is not told apart.
\<close>

section \<open>Bytes\<close>

lemma of_char_256 [simp]: "of_char c < (256 :: nat)"
  by (metis mod_less_divisor of_char_mod_256 zero_less_numeral)

definition chars_of :: "byte list \<Rightarrow> string" where
  "chars_of bs = map (\<lambda>b. char_of (unat b)) bs"

definition bytes_of :: "string \<Rightarrow> byte list" where
  "bytes_of s = map (\<lambda>c. of_nat (of_char c)) s"

text \<open>The last \<open>k\<close> bytes of a number, most significant first, and the number a byte string stands for.\<close>

definition be_bytes :: "nat \<Rightarrow> int \<Rightarrow> string" where
  "be_bytes k n = map (\<lambda>i. char_of (n div 256 ^ (k - 1 - i))) [0..<k]"

definition be_value :: "string \<Rightarrow> int" where
  "be_value s = foldl (\<lambda>n c. 256 * n + of_char c) 0 s"

lemma chars_of_length [simp]: "length (chars_of bs) = length bs"
  by (simp add: chars_of_def)

lemma bytes_of_length [simp]: "length (bytes_of s) = length s"
  by (simp add: bytes_of_def)

lemma bytes_of_chars_of [simp]: "bytes_of (chars_of bs) = bs"
proof -
  have "unat (b :: byte) < 256" for b using unsigned_less [of b, where 'a = nat] by simp
  then show ?thesis by (induction bs) (simp_all add: bytes_of_def chars_of_def)
qed

lemma chars_of_bytes_of [simp]: "chars_of (bytes_of s) = s"
proof -
  have "unat (of_nat (of_char c) :: byte) = of_char c" for c :: char
    using of_char_of [of "of_char c :: nat"] by (simp add: unat_of_nat)
  then show ?thesis by (induction s) (simp_all add: bytes_of_def chars_of_def)
qed

lemma be_bytes_length [simp]: "length (be_bytes k n) = k"
  by (simp add: be_bytes_def)

lemma be_bytes_Suc: "be_bytes (Suc k) n = be_bytes k (n div 256) @ [char_of n]"
proof -
  have "n div 256 ^ (k - i) = n div 256 div 256 ^ (k - 1 - i)" if "i < k" for i
  proof -
    have "k - i = Suc (k - 1 - i)" using that by simp
    then show ?thesis by (simp add: zdiv_zmult2_eq)
  qed
  then show ?thesis by (simp add: be_bytes_def)
qed

lemma be_value_snoc: "be_value (s @ [c]) = 256 * be_value s + of_char c"
  by (simp add: be_value_def)

lemma be_value_bytes: "be_value (be_bytes k n) = n mod 256 ^ k"
proof (induction k arbitrary: n)
  case 0
  then show ?case by (simp add: be_bytes_def be_value_def)
next
  case (Suc k)
  have "256 * (n div 256 mod 256 ^ k) + n mod 256 = n mod (256 * 256 ^ k)"
    by (simp add: zmod_zmult2_eq)
  then show ?case by (simp add: be_bytes_Suc be_value_snoc Suc)
qed

text \<open>Words of one, two, four and eight bytes survive.\<close>

lemma word_be_roundtrip:
  assumes "LENGTH('a :: len) = 8 * k"
  shows "word_of_int (be_value (be_bytes k (uint (w :: 'a word)))) = w"
proof -
  have "(256 :: int) ^ k = 2 ^ LENGTH('a)" using assms by (simp add: power_mult)
  then have "uint w mod 256 ^ k = uint w" using uint_lt2p [of w] by simp
  then show ?thesis by (simp add: be_value_bytes)
qed

section \<open>Hexadecimal\<close>

definition hexDigit :: "nat \<Rightarrow> char" where
  "hexDigit d = (if d < 10 then char_of (48 + d) else char_of (87 + d))"

definition hex_EncodeToString :: "string \<Rightarrow> string" where
  "hex_EncodeToString s = concat (map (\<lambda>c. [hexDigit (of_char c div 16), hexDigit (of_char c mod 16)]) s)"

fun hex_DecodeString :: "string \<Rightarrow> string option" where
  "hex_DecodeString [] = Some []"
| "hex_DecodeString [a] = None"
| "hex_DecodeString (a # b # s) =
     (if is_hex a \<and> is_hex b then
        map_option (\<lambda>r. char_of (16 * hex_val a + hex_val b) # r) (hex_DecodeString s)
      else None)"

definition hex_DecodedLen :: "nat \<Rightarrow> nat" where
  "hex_DecodedLen n = n div 2"

lemma hexDigit_val: "d < 16 \<Longrightarrow> is_hex (hexDigit d) \<and> hex_val (hexDigit d) = d"
  by (auto simp: hexDigit_def is_hex_def hex_val_def is_digit_def digit_val_def)

lemma hex_EncodeToString_length [simp]: "length (hex_EncodeToString s) = 2 * length s"
  by (induction s) (simp_all add: hex_EncodeToString_def)

lemma hex_roundtrip: "hex_DecodeString (hex_EncodeToString s) = Some s"
proof (induction s)
  case Nil
  then show ?case by (simp add: hex_EncodeToString_def)
next
  case (Cons c s)
  have "of_char c div 16 < (16 :: nat)"
    using of_char_256 [of c] by linarith
  then show ?case
    using Cons hexDigit_val [of "of_char c div 16"] hexDigit_val [of "of_char c mod 16"]
    by (simp add: hex_EncodeToString_def)
qed

section \<open>Base 64\<close>

definition base64_alphabet :: string where
  "base64_alphabet = ''ABCDEFGHIJKLMNOPQRSTUVWXYZabcdefghijklmnopqrstuvwxyz0123456789+/''"

text \<open>The index of a character in an alphabet, as the decoding table has it.\<close>

fun index_in :: "string \<Rightarrow> char \<Rightarrow> nat option" where
  "index_in [] c = None"
| "index_in (a # as) c = (if a = c then Some 0 else map_option Suc (index_in as c))"

definition strip_newlines :: "string \<Rightarrow> string" where
  "strip_newlines s = filter (\<lambda>c. c \<noteq> CHR 0x0A \<and> c \<noteq> CHR 0x0D) s"

text \<open>Bits, most significant first; the digits of \<open>k\<close> bits of a group of bytes, and back.\<close>

definition bits_of :: "nat \<Rightarrow> nat \<Rightarrow> bool list" where
  "bits_of k n = map (\<lambda>i. odd (n div 2 ^ (k - 1 - i))) [0..<k]"

definition of_bits :: "bool list \<Rightarrow> nat" where
  "of_bits bs = foldl (\<lambda>v b. 2 * v + of_bool b) 0 bs"

definition chunk :: "nat \<Rightarrow> nat \<Rightarrow> bool list \<Rightarrow> nat" where
  "chunk k i bs = of_bits (take k (drop (k * i) bs))"

definition digits_of :: "nat \<Rightarrow> nat \<Rightarrow> string \<Rightarrow> nat list" where
  "digits_of k m s =
     (let bs = concat (map (\<lambda>c. bits_of 8 (of_char c)) s) @ replicate k False
      in map (\<lambda>i. chunk k i bs) [0..<m])"

definition group_of :: "nat \<Rightarrow> nat \<Rightarrow> nat list \<Rightarrow> string" where
  "group_of k n ds =
     (let bs = concat (map (bits_of k) ds) in map (\<lambda>i. char_of (chunk 8 i bs)) [0..<n])"

fun base64_Encode :: "string \<Rightarrow> string" where
  "base64_Encode [] = []"
| "base64_Encode [a] = map ((!) base64_alphabet) (digits_of 6 2 [a]) @ ''==''"
| "base64_Encode [a, b] = map ((!) base64_alphabet) (digits_of 6 3 [a, b]) @ ''=''"
| "base64_Encode (a # b # c # s) = map ((!) base64_alphabet) (digits_of 6 4 [a, b, c]) @ base64_Encode s"

definition base64_group :: "string \<Rightarrow> nat \<Rightarrow> string option" where
  "base64_group s n =
     (let ds = map (index_in base64_alphabet) s
      in if None \<in> set ds then None else Some (group_of 6 n (map the ds)))"

fun base64_quanta :: "string \<Rightarrow> string option" where
  "base64_quanta [] = Some []"
| "base64_quanta (a # b # c # d # s) =
     (if c = CHR ''='' then if d = CHR ''='' \<and> s = [] then base64_group [a, b] 1 else None
      else if d = CHR ''='' then if s = [] then base64_group [a, b, c] 2 else None
      else
        (case base64_group [a, b, c, d] 3 of
           None \<Rightarrow> None
         | Some g \<Rightarrow> map_option (\<lambda>r. g @ r) (base64_quanta s)))"
| "base64_quanta _ = None"

definition base64_Decode :: "string \<Rightarrow> string option" where
  "base64_Decode s = base64_quanta (strip_newlines s)"

section \<open>Base 32\<close>

definition base32_alphabet :: string where
  "base32_alphabet = ''0123456789ABCDEFGHIJKLMNOPQRSTUV''"

text \<open>\<open>base32_block\<close> encodes up to five bytes with as many digits as they need and padding.\<close>

definition base32_block :: "string \<Rightarrow> string" where
  "base32_block s =
     (let m = (8 * length s + 4) div 5
      in map ((!) base32_alphabet) (digits_of 5 m s) @ replicate (8 - m) (CHR ''=''))"

fun base32_Encode :: "string \<Rightarrow> string" where
  "base32_Encode (a # b # c # d # e # s) = base32_block [a, b, c, d, e] @ base32_Encode s"
| "base32_Encode s = (if s = [] then [] else base32_block s)"

text \<open>
  One quantum of the decoder: the digits read, the rest of the input, and whether padding ended it.
  Padding is accepted behind at least two digits, close to the end of the input.
\<close>

fun base32_quantum :: "string \<Rightarrow> nat list \<Rightarrow> (nat list \<times> string \<times> bool) option" where
  "base32_quantum src dbuf =
     (if 8 \<le> length dbuf then Some (dbuf, src, False)
      else
        (case src of
           [] \<Rightarrow> None
         | c # r \<Rightarrow>
             let j = length dbuf in
             if c = CHR ''='' \<and> 2 \<le> j \<and> length r < 8 then
               if length r + j < 7 \<or> (\<exists>x \<in> set (take (7 - j) r). x \<noteq> CHR ''='') \<or> j \<in> {1, 3, 6}
               then None else Some (dbuf, r, True)
             else
               (case index_in base32_alphabet c of
                  None \<Rightarrow> None
                | Some d \<Rightarrow> base32_quantum r (dbuf @ [d]))))"

declare base32_quantum.simps [simp del]

lemma base32_quantum_shorter:
  "base32_quantum src dbuf = Some (ds, r, e) \<Longrightarrow> length dbuf < 8 \<Longrightarrow> length r < length src"
proof (induction src dbuf rule: base32_quantum.induct)
  case (1 src dbuf)
  show ?case
  proof (cases src)
    case (Cons c r')
    show ?thesis
      using "1.prems" "1.IH" [OF _ Cons refl] Cons
      by (subst (asm) base32_quantum.simps)
         (fastforce simp: Let_def base32_quantum.simps [of _ "dbuf @ [_]"] not_le split: if_splits option.splits)
  qed (use "1.prems" in \<open>simp add: base32_quantum.simps\<close>)
qed

function base32_quanta :: "string \<Rightarrow> string option" where
  "base32_quanta src =
     (if src = [] then Some []
      else
        (case base32_quantum src [] of
           None \<Rightarrow> None
         | Some (ds, r, ended) \<Rightarrow>
             let g = group_of 5 (5 * length ds div 8) ds in
             if ended then Some g else map_option (\<lambda>t. g @ t) (base32_quanta r)))"
  by pat_completeness auto
termination
  by (relation "measure length") (auto dest: base32_quantum_shorter)

declare base32_quanta.simps [simp del]

definition base32_Decode :: "string \<Rightarrow> string option" where
  "base32_Decode s = base32_quanta (strip_newlines s)"

end
