(* ===== verification/Dns_Bytes.thy ===== *)
theory Dns_Bytes
  imports Dns_Text Go_Encoding
begin

text \<open>
  What the parts of the DNS library that read and write wire format share (\<^verbatim>\<open>msg.go\<close>): its errors,
  16-bit integers, and the composition of steps that may fail or panic.  Buffers are strings of bytes
  of a fixed length.
\<close>

text \<open>
  The errors that these parts return.  \<open>ErrEncoding\<close> stands for the errors of the packages
  \<^verbatim>\<open>encoding/hex\<close>, \<^verbatim>\<open>encoding/base64\<close> and \<^verbatim>\<open>encoding/base32\<close>, \<open>ErrOther\<close> for errors that are made
  on the spot.
\<close>

datatype dns_error =
    ErrFqdn
  | ErrBuf
  | ErrRdata
  | ErrRcode
  | ErrExtendedRcode
  | ErrShortRead
  | ErrEncoding
  | ErrOther string

section \<open>Steps that may fail\<close>

definition try_bind :: "('e + 'a) run \<Rightarrow> ('a \<Rightarrow> ('e + 'b) run) \<Rightarrow> ('e + 'b) run" where
  "try_bind r f = (case r of Panic p \<Rightarrow> Panic p | Done (Inl e) \<Rightarrow> Done (Inl e) | Done (Inr x) \<Rightarrow> f x)"

lemma try_bind_simps [simp]:
  "try_bind (Panic p) f = Panic p"
  "try_bind (Done (Inl e)) f = Done (Inl e)"
  "try_bind (Done (Inr x)) f = f x"
  by (simp_all add: try_bind_def)

lemma try_bind_Inr_iff:
  "try_bind r f = Done (Inr y) \<longleftrightarrow> (\<exists>x. r = Done (Inr x) \<and> f x = Done (Inr y))"
  by (auto simp: try_bind_def split: run.splits sum.splits)

lemma try_bind_cong [fundef_cong]:
  "r = r' \<Longrightarrow> (\<And>x. r' = Done (Inr x) \<Longrightarrow> f x = f' x) \<Longrightarrow> try_bind r f = try_bind r' f'"
  by (auto simp: try_bind_def split: run.splits sum.splits)

section \<open>Integers of 16 bits\<close>

definition packUint16 :: "uint16 \<Rightarrow> char \<times> char" where
  "packUint16 i = (char_of (unat i div 256), char_of (unat i mod 256))"

definition unpackUint16 :: "string \<Rightarrow> nat \<Rightarrow> (uint16 \<times> nat) run" where
  "unpackUint16 msg off =
     (if length msg \<le> off + 1 then Panic IndexOutOfRange
      else Done (of_nat (of_char (msg ! off) * 256 + of_char (msg ! (off + 1))), off + 2))"

section \<open>Writing to a buffer\<close>

text \<open>A buffer with the bytes \<open>bs\<close> written at an offset.\<close>

definition overwrite :: "string \<Rightarrow> nat \<Rightarrow> string \<Rightarrow> string" where
  "overwrite msg off bs = take off msg @ bs @ drop (off + length bs) msg"

lemma overwrite_Nil: "overwrite msg off [] = msg"
  by (simp add: overwrite_def)

lemma overwrite_length: "off + length bs \<le> length msg \<Longrightarrow> length (overwrite msg off bs) = length msg"
  by (simp add: overwrite_def)

lemma overwrite_Cons:
  "off < length msg \<Longrightarrow> overwrite (msg[off := b]) (off + 1) bs = overwrite msg off (b # bs)"
  by (simp add: overwrite_def upd_conv_take_nth_drop take_Suc_conv_app_nth add.commute)

lemma overwrite_update_before:
  assumes "off < off'" "off' + length bs \<le> length msg"
  shows "(overwrite msg off' bs)[off := b] = overwrite (msg[off := b]) off' bs"
  using assms by (simp add: overwrite_def list_update_append take_update_swap)

lemma overwrite_first:
  "off + 1 + length bs \<le> length msg \<Longrightarrow> (overwrite msg (off + 1) bs)[off := b] = overwrite msg off (b # bs)"
  by (simp add: overwrite_update_before overwrite_Cons [simplified])

lemma overwrite_take: "off + length bs \<le> length msg \<Longrightarrow> take (length bs) (drop off (overwrite msg off bs)) = bs"
  by (simp add: overwrite_def)

lemma overwrite_append:
  "off + length a + length b \<le> length m \<Longrightarrow>
    overwrite (overwrite m off a) (off + length a) b = overwrite m off (a @ b)"
  by (simp add: overwrite_def ac_simps)

lemma overwrite_snoc:
  "off + length bs < length m \<Longrightarrow> (overwrite m off bs)[off + length bs := b] = overwrite m off (bs @ [b])"
  using overwrite_append [of off bs "[b]" m] overwrite_length [of off bs m]
  by (simp add: overwrite_def [of _ "off + length bs"] upd_conv_take_nth_drop)

end
