(* ===== verification/Dns_Edns.thy ===== *)
theory Dns_Edns
  imports Dns_Bytes
begin

unbundle bit_operations_syntax

text \<open>
  EDNS0 (\<^verbatim>\<open>edns.go\<close>): the options, each with its wire format and its text, and the record
  \<^verbatim>\<open>OPT\<close> that carries them.  The methods of the interface \<^verbatim>\<open>EDNS0\<close> are dispatched on a
  datatype.
\<close>

definition EDNS0LLQ :: uint16 where
  "EDNS0LLQ = 0x1"

definition EDNS0UL :: uint16 where
  "EDNS0UL = 0x2"

definition EDNS0NSID :: uint16 where
  "EDNS0NSID = 0x3"

definition EDNS0DAU :: uint16 where
  "EDNS0DAU = 0x5"

definition EDNS0DHU :: uint16 where
  "EDNS0DHU = 0x6"

definition EDNS0N3U :: uint16 where
  "EDNS0N3U = 0x7"

definition EDNS0SUBNET :: uint16 where
  "EDNS0SUBNET = 0x8"

definition EDNS0EXPIRE :: uint16 where
  "EDNS0EXPIRE = 0x9"

definition EDNS0SUBNETDRAFT :: uint16 where
  "EDNS0SUBNETDRAFT = 0x50fa"

definition DO_bit :: uint32 where
  "DO_bit = 0x8000"

section \<open>The options\<close>

record EDNS0_NSID =
  nsid_Code :: uint16
  nsid_Nsid :: string

record EDNS0_SUBNET =
  subnet_Code :: uint16
  subnet_Family :: uint16
  subnet_SourceNetmask :: byte
  subnet_SourceScope :: byte
  subnet_Address :: ip
  subnet_DraftOption :: bool

record EDNS0_UL =
  ul_Code :: uint16
  ul_Lease :: uint32

record EDNS0_LLQ =
  llq_Code :: uint16
  llq_Version :: uint16
  llq_Opcode :: uint16
  llq_Error :: uint16
  llq_Id :: uint64
  llq_LeaseLife :: uint32

record EDNS0_DAU =
  dau_Code :: uint16
  dau_AlgCode :: "byte list"

record EDNS0_DHU =
  dhu_Code :: uint16
  dhu_AlgCode :: "byte list"

record EDNS0_N3U =
  n3u_Code :: uint16
  n3u_AlgCode :: "byte list"

record EDNS0_EXPIRE =
  expire_Code :: uint16
  expire_Expire :: uint32

datatype EDNS0 =
    Opt_NSID EDNS0_NSID
  | Opt_SUBNET EDNS0_SUBNET
  | Opt_UL EDNS0_UL
  | Opt_LLQ EDNS0_LLQ
  | Opt_DAU EDNS0_DAU
  | Opt_DHU EDNS0_DHU
  | Opt_N3U EDNS0_N3U
  | Opt_EXPIRE EDNS0_EXPIRE

primrec EDNS0_Option :: "EDNS0 \<Rightarrow> uint16" where
  "EDNS0_Option (Opt_NSID e) = EDNS0NSID"
| "EDNS0_Option (Opt_SUBNET e) = (if subnet_DraftOption e then EDNS0SUBNETDRAFT else EDNS0SUBNET)"
| "EDNS0_Option (Opt_UL e) = EDNS0UL"
| "EDNS0_Option (Opt_LLQ e) = EDNS0LLQ"
| "EDNS0_Option (Opt_DAU e) = EDNS0DAU"
| "EDNS0_Option (Opt_DHU e) = EDNS0DHU"
| "EDNS0_Option (Opt_N3U e) = EDNS0N3U"
| "EDNS0_Option (Opt_EXPIRE e) = EDNS0EXPIRE"

section \<open>Masks of Go's \<^verbatim>\<open>net\<close>\<close>

definition CIDRMask :: "nat \<Rightarrow> nat \<Rightarrow> byte list" where
  "CIDRMask ones bits = map (\<lambda>i. NOT (drop_bit (min 8 (ones - 8 * i)) 0xFF)) [0..<bits div 8]"

definition IP_Mask :: "ip \<Rightarrow> byte list \<Rightarrow> ip" where
  "IP_Mask a m =
     (let m = (if length m = 16 \<and> length a = 4 \<and> take 12 m = replicate 12 0xFF
                  then drop 12 m else m);
          a = (if length m = 4 \<and> length a = 16 \<and> take 12 a = v4InV6Prefix then drop 12 a else a)
      in if length a \<noteq> length m then [] else map2 (AND) a m)"

section \<open>Packing\<close>

definition NSID_pack :: "EDNS0_NSID \<Rightarrow> dns_error + string" where
  "NSID_pack e = (case hex_DecodeString (nsid_Nsid e) of None \<Rightarrow> Inl ErrEncoding | Some h \<Rightarrow> Inr h)"

text \<open>The octets of the prefix, which both address families share; \<open>a\<close> is the masked address.\<close>

definition subnet_prefix :: "EDNS0_SUBNET \<Rightarrow> nat \<Rightarrow> ip \<Rightarrow> (dns_error + string) run" where
  "subnet_prefix e len a =
     (let n = min len (length (subnet_Address e));
          needLength = unat (subnet_SourceNetmask e) div 8 + (if 0 < unat (subnet_SourceNetmask e) mod 8 then 1 else 0)
      in if length a < n then Panic IndexOutOfRange
         else
           Done (Inr (be_bytes 2 (uint (subnet_Family e)) @ chars_of [subnet_SourceNetmask e, subnet_SourceScope e] @
             chars_of (take needLength (take n a @ replicate (len - n) 0)))))"

definition SUBNET_pack :: "EDNS0_SUBNET \<Rightarrow> (dns_error + string) run" where
  "SUBNET_pack e =
     (if subnet_Family e = 1 then
        if IPv4len * 8 < unat (subnet_SourceNetmask e) then Done (Inl (ErrOther ''dns: bad netmask''))
        else subnet_prefix e IPv4len
          (IP_Mask (case To4 (subnet_Address e) of None \<Rightarrow> [] | Some a \<Rightarrow> a)
             (CIDRMask (unat (subnet_SourceNetmask e)) (IPv4len * 8)))
      else if subnet_Family e = 2 then
        if IPv6len * 8 < unat (subnet_SourceNetmask e) then Done (Inl (ErrOther ''dns: bad netmask''))
        else subnet_prefix e IPv6len
          (IP_Mask (subnet_Address e) (CIDRMask (unat (subnet_SourceNetmask e)) (IPv6len * 8)))
      else Done (Inl (ErrOther ''dns: bad address family'')))"

definition UL_pack :: "EDNS0_UL \<Rightarrow> string" where
  "UL_pack e = be_bytes 4 (uint (ul_Lease e))"

definition LLQ_pack :: "EDNS0_LLQ \<Rightarrow> string" where
  "LLQ_pack e =
     be_bytes 2 (uint (llq_Version e)) @ be_bytes 2 (uint (llq_Opcode e)) @ be_bytes 2 (uint (llq_Error e)) @
     be_bytes 8 (uint (llq_Id e)) @ be_bytes 4 (uint (llq_LeaseLife e))"

definition EXPIRE_pack :: "EDNS0_EXPIRE \<Rightarrow> string" where
  "EXPIRE_pack e = be_bytes 4 (uint (expire_Expire e))"

primrec EDNS0_pack :: "EDNS0 \<Rightarrow> (dns_error + string) run" where
  "EDNS0_pack (Opt_NSID e) = Done (NSID_pack e)"
| "EDNS0_pack (Opt_SUBNET e) = SUBNET_pack e"
| "EDNS0_pack (Opt_UL e) = Done (Inr (UL_pack e))"
| "EDNS0_pack (Opt_LLQ e) = Done (Inr (LLQ_pack e))"
| "EDNS0_pack (Opt_DAU e) = Done (Inr (chars_of (dau_AlgCode e)))"
| "EDNS0_pack (Opt_DHU e) = Done (Inr (chars_of (dhu_AlgCode e)))"
| "EDNS0_pack (Opt_N3U e) = Done (Inr (chars_of (n3u_AlgCode e)))"
| "EDNS0_pack (Opt_EXPIRE e) = Done (Inr (EXPIRE_pack e))"

section \<open>Unpacking\<close>

definition NSID_unpack :: "EDNS0_NSID \<Rightarrow> string \<Rightarrow> EDNS0_NSID" where
  "NSID_unpack e b = e\<lparr>nsid_Nsid := hex_EncodeToString b\<rparr>"

text \<open>The loop over the whole octets of the prefix; it fails behind the address or the data.\<close>

definition subnet_addr :: "nat \<Rightarrow> nat \<Rightarrow> string \<Rightarrow> ip option" where
  "subnet_addr k len b =
     (if \<exists>i \<in> {0..<k}. len \<le> i \<or> length b \<le> 4 + i then None
      else Some (bytes_of (take k (drop 4 b)) @ replicate (len - k) 0))"

definition SUBNET_unpack :: "EDNS0_SUBNET \<Rightarrow> string \<Rightarrow> dns_error + EDNS0_SUBNET" where
  "SUBNET_unpack e b =
     (if length b < 4 then Inl ErrBuf
      else
        let e = e\<lparr>subnet_Family := word_of_int (be_value (take 2 b)), subnet_SourceNetmask := of_nat (of_char (b ! 2)),
                  subnet_SourceScope := of_nat (of_char (b ! 3))\<rparr>;
            k = unat (subnet_SourceNetmask e) div 8
        in if subnet_Family e = 1 then
             (case subnet_addr k 4 b of
                None \<Rightarrow> Inl ErrBuf | Some a \<Rightarrow> Inr (e\<lparr>subnet_Address := v4InV6Prefix @ a\<rparr>))
           else if subnet_Family e = 2 then
             (case subnet_addr k 16 b of
                None \<Rightarrow> Inl ErrBuf | Some a \<Rightarrow> Inr (e\<lparr>subnet_Address := a\<rparr>))
           else Inr e)"

definition UL_unpack :: "EDNS0_UL \<Rightarrow> string \<Rightarrow> dns_error + EDNS0_UL" where
  "UL_unpack e b = (if length b < 4 then Inl ErrBuf else Inr (e\<lparr>ul_Lease := word_of_int (be_value (take 4 b))\<rparr>))"

definition LLQ_unpack :: "EDNS0_LLQ \<Rightarrow> string \<Rightarrow> dns_error + EDNS0_LLQ" where
  "LLQ_unpack e b =
     (if length b < 18 then Inl ErrBuf
      else Inr (e\<lparr>llq_Version := word_of_int (be_value (take 2 b)),
                  llq_Opcode := word_of_int (be_value (take 2 (drop 2 b))),
                  llq_Error := word_of_int (be_value (take 2 (drop 4 b))),
                  llq_Id := word_of_int (be_value (take 8 (drop 6 b))),
                  llq_LeaseLife := word_of_int (be_value (take 4 (drop 14 b)))\<rparr>))"

definition EXPIRE_unpack :: "EDNS0_EXPIRE \<Rightarrow> string \<Rightarrow> dns_error + EDNS0_EXPIRE" where
  "EXPIRE_unpack e b =
     (if length b < 4 then Inl ErrBuf else Inr (e\<lparr>expire_Expire := word_of_int (be_value (take 4 b))\<rparr>))"

primrec EDNS0_unpack :: "EDNS0 \<Rightarrow> string \<Rightarrow> dns_error + EDNS0" where
  "EDNS0_unpack (Opt_NSID e) b = Inr (Opt_NSID (NSID_unpack e b))"
| "EDNS0_unpack (Opt_SUBNET e) b = map_sum id Opt_SUBNET (SUBNET_unpack e b)"
| "EDNS0_unpack (Opt_UL e) b = map_sum id Opt_UL (UL_unpack e b)"
| "EDNS0_unpack (Opt_LLQ e) b = map_sum id Opt_LLQ (LLQ_unpack e b)"
| "EDNS0_unpack (Opt_DAU e) b = Inr (Opt_DAU (e\<lparr>dau_AlgCode := bytes_of b\<rparr>))"
| "EDNS0_unpack (Opt_DHU e) b = Inr (Opt_DHU (e\<lparr>dhu_AlgCode := bytes_of b\<rparr>))"
| "EDNS0_unpack (Opt_N3U e) b = Inr (Opt_N3U (e\<lparr>n3u_AlgCode := bytes_of b\<rparr>))"
| "EDNS0_unpack (Opt_EXPIRE e) b = map_sum id Opt_EXPIRE (EXPIRE_unpack e b)"

section \<open>Text\<close>

definition HashToString_table :: "(byte \<times> string) list" where
  "HashToString_table = [(1, ''SHA1''), (2, ''SHA256''), (3, ''GOST94''), (4, ''SHA384''), (5, ''SHA512'')]"

definition SUBNET_String :: "EDNS0_SUBNET \<Rightarrow> string" where
  "SUBNET_String e =
     (if subnet_Address e = [] then ''<nil>''
      else if To4 (subnet_Address e) \<noteq> None then IP_String (subnet_Address e)
      else ''['' @ IP_String (subnet_Address e) @ '']'') @
     ''/'' @ Uitoa (subnet_SourceNetmask e) @ ''/'' @ Uitoa (subnet_SourceScope e)"

definition LLQ_String :: "EDNS0_LLQ \<Rightarrow> string" where
  "LLQ_String e =
     Uitoa (llq_Version e) @ '' '' @ Uitoa (llq_Opcode e) @ '' '' @ Uitoa (llq_Error e) @ '' '' @
     Uitoa (llq_Id e) @ '' '' @ Uitoa (llq_LeaseLife e)"

definition codes_String :: "(byte \<times> string) list \<Rightarrow> byte list \<Rightarrow> string" where
  "codes_String table cs =
     concat (map (\<lambda>c. case map_of table c of Some a \<Rightarrow> '' '' @ a | None \<Rightarrow> '' '' @ Uitoa c) cs)"

primrec EDNS0_String :: "EDNS0 \<Rightarrow> string" where
  "EDNS0_String (Opt_NSID e) = nsid_Nsid e"
| "EDNS0_String (Opt_SUBNET e) = SUBNET_String e"
| "EDNS0_String (Opt_UL e) = Uitoa (ul_Lease e)"
| "EDNS0_String (Opt_LLQ e) = LLQ_String e"
| "EDNS0_String (Opt_DAU e) = codes_String AlgorithmToString_table (dau_AlgCode e)"
| "EDNS0_String (Opt_DHU e) = codes_String HashToString_table (dhu_AlgCode e)"
| "EDNS0_String (Opt_N3U e) = codes_String HashToString_table (n3u_AlgCode e)"
| "EDNS0_String (Opt_EXPIRE e) = Uitoa (expire_Expire e)"

section \<open>The record \<^verbatim>\<open>OPT\<close>\<close>

record OPT_RR =
  opt_Hdr :: RR_Header
  opt_Option :: "EDNS0 list"

definition OPT_copy :: "OPT_RR \<Rightarrow> OPT_RR" where
  "OPT_copy r = \<lparr>opt_Hdr = copyHeader (opt_Hdr r), opt_Option = opt_Option r\<rparr>"

text \<open>The errors of \<^verbatim>\<open>pack\<close> are dropped; a failed call has returned no bytes.\<close>

fun options_len :: "nat \<Rightarrow> EDNS0 list \<Rightarrow> nat run" where
  "options_len l [] = Done l"
| "options_len l (e # es) =
     run_bind (EDNS0_pack e) (\<lambda>r. options_len (l + 2 + (case r of Inl _ \<Rightarrow> 0 | Inr lo \<Rightarrow> length lo)) es)"

definition OPT_len :: "OPT_RR \<Rightarrow> nat run" where
  "OPT_len r = options_len (hdr_len (opt_Hdr r)) (opt_Option r)"

definition OPT_Version :: "OPT_RR \<Rightarrow> byte" where
  "OPT_Version r = ucast (drop_bit 16 (Ttl (opt_Hdr r) AND 0x00FF0000))"

definition OPT_SetVersion :: "OPT_RR \<Rightarrow> byte \<Rightarrow> OPT_RR" where
  "OPT_SetVersion r v =
     r\<lparr>opt_Hdr := (opt_Hdr r)\<lparr>Ttl := (Ttl (opt_Hdr r) AND 0xFF00FFFF) OR push_bit 16 (ucast v)\<rparr>\<rparr>"

definition OPT_ExtendedRcode :: "OPT_RR \<Rightarrow> byte" where
  "OPT_ExtendedRcode r = ucast (drop_bit 24 (Ttl (opt_Hdr r) AND 0xFF000000))"

definition OPT_SetExtendedRcode :: "OPT_RR \<Rightarrow> byte \<Rightarrow> OPT_RR" where
  "OPT_SetExtendedRcode r v =
     r\<lparr>opt_Hdr := (opt_Hdr r)\<lparr>Ttl := (Ttl (opt_Hdr r) AND 0x00FFFFFF) OR push_bit 24 (ucast v)\<rparr>\<rparr>"

definition OPT_UDPSize :: "OPT_RR \<Rightarrow> uint16" where
  "OPT_UDPSize r = hdrClass (opt_Hdr r)"

definition OPT_SetUDPSize :: "OPT_RR \<Rightarrow> uint16 \<Rightarrow> OPT_RR" where
  "OPT_SetUDPSize r sz = r\<lparr>opt_Hdr := (opt_Hdr r)\<lparr>hdrClass := sz\<rparr>\<rparr>"

definition OPT_Do :: "OPT_RR \<Rightarrow> bool" where
  "OPT_Do r \<longleftrightarrow> Ttl (opt_Hdr r) AND DO_bit = DO_bit"

definition OPT_SetDo :: "OPT_RR \<Rightarrow> OPT_RR" where
  "OPT_SetDo r = r\<lparr>opt_Hdr := (opt_Hdr r)\<lparr>Ttl := Ttl (opt_Hdr r) OR DO_bit\<rparr>\<rparr>"

text \<open>\<^verbatim>\<open>string(c)\<close> of a byte is the UTF-8 form of the character with that number.\<close>

definition rune_String :: "char \<Rightarrow> string" where
  "rune_String c =
     (let n = of_char c in if n < 128 then [c] else [char_of (192 + n div 64), char_of (128 + n mod 64 :: nat)])"

definition option_line :: "EDNS0 \<Rightarrow> string run" where
  "option_line e =
     (case e of
        Opt_NSID _ \<Rightarrow>
          run_bind (EDNS0_pack e) (\<lambda>r. Done ([CHR 0x0A] @ ''; NSID: '' @ EDNS0_String e @
            (case r of Inl _ \<Rightarrow> []
             | Inr h \<Rightarrow> ''  '' @ concat (map (\<lambda>c. ''('' @ rune_String c @ '')'') h))))
      | Opt_SUBNET s \<Rightarrow> Done ([CHR 0x0A] @ ''; SUBNET: '' @ EDNS0_String e @ (if subnet_DraftOption s then '' (draft)'' else []))
      | Opt_UL _ \<Rightarrow> Done ([CHR 0x0A] @ ''; UPDATE LEASE: '' @ EDNS0_String e)
      | Opt_LLQ _ \<Rightarrow> Done ([CHR 0x0A] @ ''; LONG LIVED QUERIES: '' @ EDNS0_String e)
      | Opt_DAU _ \<Rightarrow> Done ([CHR 0x0A] @ ''; DNSSEC ALGORITHM UNDERSTOOD: '' @ EDNS0_String e)
      | Opt_DHU _ \<Rightarrow> Done ([CHR 0x0A] @ ''; DS HASH UNDERSTOOD: '' @ EDNS0_String e)
      | Opt_N3U _ \<Rightarrow> Done ([CHR 0x0A] @ ''; NSEC3 HASH UNDERSTOOD: '' @ EDNS0_String e)
      | Opt_EXPIRE _ \<Rightarrow> Done [])"

fun option_lines :: "string \<Rightarrow> EDNS0 list \<Rightarrow> string run" where
  "option_lines s [] = Done s"
| "option_lines s (e # es) = run_bind (option_line e) (\<lambda>l. option_lines (s @ l) es)"

definition OPT_String :: "OPT_RR \<Rightarrow> string run" where
  "OPT_String r =
     option_lines
       ([CHR 0x0A] @ '';; OPT PSEUDOSECTION:'' @ [CHR 0x0A] @ ''; EDNS: version '' @ Uitoa (OPT_Version r) @ ''; '' @
        (if OPT_Do r then ''flags: do; '' else ''flags: ; '') @ ''udp: '' @ Uitoa (OPT_UDPSize r))
       (opt_Option r)"

end
