(* ===== verification/Dns_RR.thy ===== *)
theory Dns_RR
  imports Dns_RR_A Dns_RR_B Dns_RR_C Dns_Edns
begin

text \<open>
  The interface \<^verbatim>\<open>RR\<close>: a resource record is one of the types of \<^verbatim>\<open>types.go\<close>, \<^verbatim>\<open>tsig.go\<close>
  and \<^verbatim>\<open>edns.go\<close>, and a call of a method is dispatched on it.  Five types embed another one and take its methods over; their
  \<^verbatim>\<open>copy\<close> is that of the embedded type.  The private types, which
  depend on code of the user of the library, are left out.  Only the length of an \<^verbatim>\<open>OPT\<close> record may
  panic, since its options are packed for it.
\<close>

datatype (plugins only: code) RR =
    RR_ANY ANY_RR
  | RR_CNAME CNAME_RR
  | RR_HINFO HINFO_RR
  | RR_MB MB_RR
  | RR_MG MG_RR
  | RR_MINFO MINFO_RR
  | RR_MR MR_RR
  | RR_MF MF_RR
  | RR_MD MD_RR
  | RR_MX MX_RR
  | RR_AFSDB AFSDB_RR
  | RR_X25 X25_RR
  | RR_RT RT_RR
  | RR_NS NS_RR
  | RR_PTR PTR_RR
  | RR_RP RP_RR
  | RR_SOA SOA_RR
  | RR_TXT TXT_RR
  | RR_SPF SPF_RR
  | RR_SRV SRV_RR
  | RR_NAPTR NAPTR_RR
  | RR_CERT CERT_RR
  | RR_DNAME DNAME_RR
  | RR_A A_RR
  | RR_AAAA AAAA_RR
  | RR_PX PX_RR
  | RR_GPOS GPOS_RR
  | RR_LOC LOC_RR
  | RR_RRSIG RRSIG_RR
  | RR_NSEC NSEC_RR
  | RR_DS DS_RR
  | RR_KX KX_RR
  | RR_TA TA_RR
  | RR_TALINK TALINK_RR
  | RR_SSHFP SSHFP_RR
  | RR_IPSECKEY IPSECKEY_RR
  | RR_DNSKEY DNSKEY_RR
  | RR_RKEY RKEY_RR
  | RR_NSAP NSAP_RR
  | RR_NSAPPTR NSAPPTR_RR
  | RR_NSEC3 NSEC3_RR
  | RR_NSEC3PARAM NSEC3PARAM_RR
  | RR_TKEY TKEY_RR
  | RR_RFC3597 RFC3597_RR
  | RR_URI URI_RR
  | RR_DHCID DHCID_RR
  | RR_TLSA TLSA_RR
  | RR_HIP HIP_RR
  | RR_NINFO NINFO_RR
  | RR_WKS WKS_RR
  | RR_NID NID_RR
  | RR_L32 L32_RR
  | RR_L64 L64_RR
  | RR_LP LP_RR
  | RR_EUI48 EUI48_RR
  | RR_EUI64 EUI64_RR
  | RR_UID UID_RR
  | RR_GID GID_RR
  | RR_UINFO UINFO_RR
  | RR_EID EID_RR
  | RR_NIMLOC NIMLOC_RR
  | RR_OPENPGPKEY OPENPGPKEY_RR
  | RR_TSIG TSIG_RR
  | RR_SIG RRSIG_RR
  | RR_DLV DS_RR
  | RR_CDS DS_RR
  | RR_KEY DNSKEY_RR
  | RR_CDNSKEY DNSKEY_RR
  | RR_OPT OPT_RR

primrec Header :: "RR \<Rightarrow> RR_Header" where
  "Header (RR_ANY r) = any_Hdr r"
| "Header (RR_CNAME r) = cname_Hdr r"
| "Header (RR_HINFO r) = hinfo_Hdr r"
| "Header (RR_MB r) = mb_Hdr r"
| "Header (RR_MG r) = mg_Hdr r"
| "Header (RR_MINFO r) = minfo_Hdr r"
| "Header (RR_MR r) = mr_Hdr r"
| "Header (RR_MF r) = mf_Hdr r"
| "Header (RR_MD r) = md_Hdr r"
| "Header (RR_MX r) = mx_Hdr r"
| "Header (RR_AFSDB r) = afsdb_Hdr r"
| "Header (RR_X25 r) = x25_Hdr r"
| "Header (RR_RT r) = rt_Hdr r"
| "Header (RR_NS r) = ns_Hdr r"
| "Header (RR_PTR r) = ptr_Hdr r"
| "Header (RR_RP r) = rp_Hdr r"
| "Header (RR_SOA r) = soa_Hdr r"
| "Header (RR_TXT r) = txt_Hdr r"
| "Header (RR_SPF r) = spf_Hdr r"
| "Header (RR_SRV r) = srv_Hdr r"
| "Header (RR_NAPTR r) = naptr_Hdr r"
| "Header (RR_CERT r) = cert_Hdr r"
| "Header (RR_DNAME r) = dname_Hdr r"
| "Header (RR_A r) = a_Hdr r"
| "Header (RR_AAAA r) = aaaa_Hdr r"
| "Header (RR_PX r) = px_Hdr r"
| "Header (RR_GPOS r) = gpos_Hdr r"
| "Header (RR_LOC r) = loc_Hdr r"
| "Header (RR_RRSIG r) = rrsig_Hdr r"
| "Header (RR_NSEC r) = nsec_Hdr r"
| "Header (RR_DS r) = ds_Hdr r"
| "Header (RR_KX r) = kx_Hdr r"
| "Header (RR_TA r) = ta_Hdr r"
| "Header (RR_TALINK r) = talink_Hdr r"
| "Header (RR_SSHFP r) = sshfp_Hdr r"
| "Header (RR_IPSECKEY r) = ipseckey_Hdr r"
| "Header (RR_DNSKEY r) = dnskey_Hdr r"
| "Header (RR_RKEY r) = rkey_Hdr r"
| "Header (RR_NSAP r) = nsap_Hdr r"
| "Header (RR_NSAPPTR r) = nsapptr_Hdr r"
| "Header (RR_NSEC3 r) = nsec3_Hdr r"
| "Header (RR_NSEC3PARAM r) = nsec3param_Hdr r"
| "Header (RR_TKEY r) = tkey_Hdr r"
| "Header (RR_RFC3597 r) = rfc3597_Hdr r"
| "Header (RR_URI r) = uri_Hdr r"
| "Header (RR_DHCID r) = dhcid_Hdr r"
| "Header (RR_TLSA r) = tlsa_Hdr r"
| "Header (RR_HIP r) = hip_Hdr r"
| "Header (RR_NINFO r) = ninfo_Hdr r"
| "Header (RR_WKS r) = wks_Hdr r"
| "Header (RR_NID r) = nid_Hdr r"
| "Header (RR_L32 r) = l32_Hdr r"
| "Header (RR_L64 r) = l64_Hdr r"
| "Header (RR_LP r) = lp_Hdr r"
| "Header (RR_EUI48 r) = eui48_Hdr r"
| "Header (RR_EUI64 r) = eui64_Hdr r"
| "Header (RR_UID r) = uid_Hdr r"
| "Header (RR_GID r) = gid_Hdr r"
| "Header (RR_UINFO r) = uinfo_Hdr r"
| "Header (RR_EID r) = eid_Hdr r"
| "Header (RR_NIMLOC r) = nimloc_Hdr r"
| "Header (RR_OPENPGPKEY r) = openpgpkey_Hdr r"
| "Header (RR_TSIG r) = tsig_Hdr r"
| "Header (RR_SIG r) = rrsig_Hdr r"
| "Header (RR_DLV r) = ds_Hdr r"
| "Header (RR_CDS r) = ds_Hdr r"
| "Header (RR_KEY r) = dnskey_Hdr r"
| "Header (RR_CDNSKEY r) = dnskey_Hdr r"
| "Header (RR_OPT r) = opt_Hdr r"

primrec RR_copy :: "RR \<Rightarrow> RR" where
  "RR_copy (RR_ANY r) = RR_ANY (ANY_copy r)"
| "RR_copy (RR_CNAME r) = RR_CNAME (CNAME_copy r)"
| "RR_copy (RR_HINFO r) = RR_HINFO (HINFO_copy r)"
| "RR_copy (RR_MB r) = RR_MB (MB_copy r)"
| "RR_copy (RR_MG r) = RR_MG (MG_copy r)"
| "RR_copy (RR_MINFO r) = RR_MINFO (MINFO_copy r)"
| "RR_copy (RR_MR r) = RR_MR (MR_copy r)"
| "RR_copy (RR_MF r) = RR_MF (MF_copy r)"
| "RR_copy (RR_MD r) = RR_MD (MD_copy r)"
| "RR_copy (RR_MX r) = RR_MX (MX_copy r)"
| "RR_copy (RR_AFSDB r) = RR_AFSDB (AFSDB_copy r)"
| "RR_copy (RR_X25 r) = RR_X25 (X25_copy r)"
| "RR_copy (RR_RT r) = RR_RT (RT_copy r)"
| "RR_copy (RR_NS r) = RR_NS (NS_copy r)"
| "RR_copy (RR_PTR r) = RR_PTR (PTR_copy r)"
| "RR_copy (RR_RP r) = RR_RP (RP_copy r)"
| "RR_copy (RR_SOA r) = RR_SOA (SOA_copy r)"
| "RR_copy (RR_TXT r) = RR_TXT (TXT_copy r)"
| "RR_copy (RR_SPF r) = RR_SPF (SPF_copy r)"
| "RR_copy (RR_SRV r) = RR_SRV (SRV_copy r)"
| "RR_copy (RR_NAPTR r) = RR_NAPTR (NAPTR_copy r)"
| "RR_copy (RR_CERT r) = RR_CERT (CERT_copy r)"
| "RR_copy (RR_DNAME r) = RR_DNAME (DNAME_copy r)"
| "RR_copy (RR_A r) = RR_A (A_copy r)"
| "RR_copy (RR_AAAA r) = RR_AAAA (AAAA_copy r)"
| "RR_copy (RR_PX r) = RR_PX (PX_copy r)"
| "RR_copy (RR_GPOS r) = RR_GPOS (GPOS_copy r)"
| "RR_copy (RR_LOC r) = RR_LOC (LOC_copy r)"
| "RR_copy (RR_RRSIG r) = RR_RRSIG (RRSIG_copy r)"
| "RR_copy (RR_NSEC r) = RR_NSEC (NSEC_copy r)"
| "RR_copy (RR_DS r) = RR_DS (DS_copy r)"
| "RR_copy (RR_KX r) = RR_KX (KX_copy r)"
| "RR_copy (RR_TA r) = RR_TA (TA_copy r)"
| "RR_copy (RR_TALINK r) = RR_TALINK (TALINK_copy r)"
| "RR_copy (RR_SSHFP r) = RR_SSHFP (SSHFP_copy r)"
| "RR_copy (RR_IPSECKEY r) = RR_IPSECKEY (IPSECKEY_copy r)"
| "RR_copy (RR_DNSKEY r) = RR_DNSKEY (DNSKEY_copy r)"
| "RR_copy (RR_RKEY r) = RR_RKEY (RKEY_copy r)"
| "RR_copy (RR_NSAP r) = RR_NSAP (NSAP_copy r)"
| "RR_copy (RR_NSAPPTR r) = RR_NSAPPTR (NSAPPTR_copy r)"
| "RR_copy (RR_NSEC3 r) = RR_NSEC3 (NSEC3_copy r)"
| "RR_copy (RR_NSEC3PARAM r) = RR_NSEC3PARAM (NSEC3PARAM_copy r)"
| "RR_copy (RR_TKEY r) = RR_TKEY (TKEY_copy r)"
| "RR_copy (RR_RFC3597 r) = RR_RFC3597 (RFC3597_copy r)"
| "RR_copy (RR_URI r) = RR_URI (URI_copy r)"
| "RR_copy (RR_DHCID r) = RR_DHCID (DHCID_copy r)"
| "RR_copy (RR_TLSA r) = RR_TLSA (TLSA_copy r)"
| "RR_copy (RR_HIP r) = RR_HIP (HIP_copy r)"
| "RR_copy (RR_NINFO r) = RR_NINFO (NINFO_copy r)"
| "RR_copy (RR_WKS r) = RR_WKS (WKS_copy r)"
| "RR_copy (RR_NID r) = RR_NID (NID_copy r)"
| "RR_copy (RR_L32 r) = RR_L32 (L32_copy r)"
| "RR_copy (RR_L64 r) = RR_L64 (L64_copy r)"
| "RR_copy (RR_LP r) = RR_LP (LP_copy r)"
| "RR_copy (RR_EUI48 r) = RR_EUI48 (EUI48_copy r)"
| "RR_copy (RR_EUI64 r) = RR_EUI64 (EUI64_copy r)"
| "RR_copy (RR_UID r) = RR_UID (UID_copy r)"
| "RR_copy (RR_GID r) = RR_GID (GID_copy r)"
| "RR_copy (RR_UINFO r) = RR_UINFO (UINFO_copy r)"
| "RR_copy (RR_EID r) = RR_EID (EID_copy r)"
| "RR_copy (RR_NIMLOC r) = RR_NIMLOC (NIMLOC_copy r)"
| "RR_copy (RR_OPENPGPKEY r) = RR_OPENPGPKEY (OPENPGPKEY_copy r)"
| "RR_copy (RR_TSIG r) = RR_TSIG (TSIG_copy r)"
| "RR_copy (RR_SIG r) = RR_RRSIG (RRSIG_copy r)"
| "RR_copy (RR_DLV r) = RR_DS (DS_copy r)"
| "RR_copy (RR_CDS r) = RR_DS (DS_copy r)"
| "RR_copy (RR_KEY r) = RR_DNSKEY (DNSKEY_copy r)"
| "RR_copy (RR_CDNSKEY r) = RR_DNSKEY (DNSKEY_copy r)"
| "RR_copy (RR_OPT r) = RR_OPT (OPT_copy r)"

primrec RR_len :: "RR \<Rightarrow> nat run" where
  "RR_len (RR_ANY r) = Done (ANY_len r)"
| "RR_len (RR_CNAME r) = Done (CNAME_len r)"
| "RR_len (RR_HINFO r) = Done (HINFO_len r)"
| "RR_len (RR_MB r) = Done (MB_len r)"
| "RR_len (RR_MG r) = Done (MG_len r)"
| "RR_len (RR_MINFO r) = Done (MINFO_len r)"
| "RR_len (RR_MR r) = Done (MR_len r)"
| "RR_len (RR_MF r) = Done (MF_len r)"
| "RR_len (RR_MD r) = Done (MD_len r)"
| "RR_len (RR_MX r) = Done (MX_len r)"
| "RR_len (RR_AFSDB r) = Done (AFSDB_len r)"
| "RR_len (RR_X25 r) = Done (X25_len r)"
| "RR_len (RR_RT r) = Done (RT_len r)"
| "RR_len (RR_NS r) = Done (NS_len r)"
| "RR_len (RR_PTR r) = Done (PTR_len r)"
| "RR_len (RR_RP r) = Done (RP_len r)"
| "RR_len (RR_SOA r) = Done (SOA_len r)"
| "RR_len (RR_TXT r) = Done (TXT_len r)"
| "RR_len (RR_SPF r) = Done (SPF_len r)"
| "RR_len (RR_SRV r) = Done (SRV_len r)"
| "RR_len (RR_NAPTR r) = Done (NAPTR_len r)"
| "RR_len (RR_CERT r) = Done (CERT_len r)"
| "RR_len (RR_DNAME r) = Done (DNAME_len r)"
| "RR_len (RR_A r) = Done (A_len r)"
| "RR_len (RR_AAAA r) = Done (AAAA_len r)"
| "RR_len (RR_PX r) = Done (PX_len r)"
| "RR_len (RR_GPOS r) = Done (GPOS_len r)"
| "RR_len (RR_LOC r) = Done (LOC_len r)"
| "RR_len (RR_RRSIG r) = Done (RRSIG_len r)"
| "RR_len (RR_NSEC r) = Done (NSEC_len r)"
| "RR_len (RR_DS r) = Done (DS_len r)"
| "RR_len (RR_KX r) = Done (KX_len r)"
| "RR_len (RR_TA r) = Done (TA_len r)"
| "RR_len (RR_TALINK r) = Done (TALINK_len r)"
| "RR_len (RR_SSHFP r) = Done (SSHFP_len r)"
| "RR_len (RR_IPSECKEY r) = Done (IPSECKEY_len r)"
| "RR_len (RR_DNSKEY r) = Done (DNSKEY_len r)"
| "RR_len (RR_RKEY r) = Done (RKEY_len r)"
| "RR_len (RR_NSAP r) = Done (NSAP_len r)"
| "RR_len (RR_NSAPPTR r) = Done (NSAPPTR_len r)"
| "RR_len (RR_NSEC3 r) = Done (NSEC3_len r)"
| "RR_len (RR_NSEC3PARAM r) = Done (NSEC3PARAM_len r)"
| "RR_len (RR_TKEY r) = Done (TKEY_len r)"
| "RR_len (RR_RFC3597 r) = Done (RFC3597_len r)"
| "RR_len (RR_URI r) = Done (URI_len r)"
| "RR_len (RR_DHCID r) = Done (DHCID_len r)"
| "RR_len (RR_TLSA r) = Done (TLSA_len r)"
| "RR_len (RR_HIP r) = Done (HIP_len r)"
| "RR_len (RR_NINFO r) = Done (NINFO_len r)"
| "RR_len (RR_WKS r) = Done (WKS_len r)"
| "RR_len (RR_NID r) = Done (NID_len r)"
| "RR_len (RR_L32 r) = Done (L32_len r)"
| "RR_len (RR_L64 r) = Done (L64_len r)"
| "RR_len (RR_LP r) = Done (LP_len r)"
| "RR_len (RR_EUI48 r) = Done (EUI48_len r)"
| "RR_len (RR_EUI64 r) = Done (EUI64_len r)"
| "RR_len (RR_UID r) = Done (UID_len r)"
| "RR_len (RR_GID r) = Done (GID_len r)"
| "RR_len (RR_UINFO r) = Done (UINFO_len r)"
| "RR_len (RR_EID r) = Done (EID_len r)"
| "RR_len (RR_NIMLOC r) = Done (NIMLOC_len r)"
| "RR_len (RR_OPENPGPKEY r) = Done (OPENPGPKEY_len r)"
| "RR_len (RR_TSIG r) = Done (TSIG_len r)"
| "RR_len (RR_SIG r) = Done (RRSIG_len r)"
| "RR_len (RR_DLV r) = Done (DS_len r)"
| "RR_len (RR_CDS r) = Done (DS_len r)"
| "RR_len (RR_KEY r) = Done (DNSKEY_len r)"
| "RR_len (RR_CDNSKEY r) = Done (DNSKEY_len r)"
| "RR_len (RR_OPT r) = OPT_len r"

end
