(* ===== verification/Dns_Msg.thy ===== *)
theory Dns_Msg
  imports Dns_RR
begin

text \<open>
  Messages of the DNS library (\<^verbatim>\<open>msg.go\<close>, \<^verbatim>\<open>defaults.go\<close>) and the functions that set up queries
  and replies.
\<close>

record MsgHdr =
  msgId :: uint16
  Response :: bool
  Opcode :: int
  Authoritative :: bool
  Truncated :: bool
  RecursionDesired :: bool
  RecursionAvailable :: bool
  ZeroBit :: bool
  AuthenticatedData :: bool
  CheckingDisabled :: bool
  Rcode :: int

record Msg = MsgHdr +
  Compress :: bool
  Questions :: "Question list"
  Answer :: "RR list"
  Ns :: "RR list"
  Extra :: "RR list"

text \<open>The zero value \<^verbatim>\<open>dns.Msg{}\<close>.\<close>

definition empty_Msg :: Msg where
  "empty_Msg = \<lparr>msgId = 0, Response = False, Opcode = 0, Authoritative = False,
     Truncated = False, RecursionDesired = False, RecursionAvailable = False, ZeroBit = False,
     AuthenticatedData = False, CheckingDisabled = False, Rcode = 0, Compress = False,
     Questions = [], Answer = [], Ns = [], Extra = []\<rparr>"

definition SetReply :: "Msg \<Rightarrow> Msg \<Rightarrow> Msg" where
  "SetReply dns request =
     (let dns = dns\<lparr>msgId := msgId request, RecursionDesired := RecursionDesired request,
                    Response := True, Opcode := OpcodeQuery, Rcode := RcodeSuccess\<rparr>
      in if 0 < length (Questions request) then dns\<lparr>Questions := [Questions request ! 0]\<rparr>
         else dns)"

definition SetRcode :: "Msg \<Rightarrow> Msg \<Rightarrow> int \<Rightarrow> Msg" where
  "SetRcode dns request rcode = (SetReply dns request)\<lparr>Rcode := rcode\<rparr>"

definition SetRcodeFormatError :: "Msg \<Rightarrow> Msg \<Rightarrow> Msg" where
  "SetRcodeFormatError dns request =
     dns\<lparr>Rcode := RcodeFormatError, Opcode := OpcodeQuery, Response := True,
         Authoritative := False, msgId := msgId request\<rparr>"

text \<open>The message id comes from the random source \<^verbatim>\<open>dns.Id\<close>, a parameter here.\<close>

definition SetQuestion :: "uint16 \<Rightarrow> Msg \<Rightarrow> string \<Rightarrow> uint16 \<Rightarrow> Msg" where
  "SetQuestion newId dns z t =
     dns\<lparr>msgId := newId, RecursionDesired := True,
         Questions := [\<lparr>qName = z, Qtype = t, Qclass = ClassINET\<rparr>]\<rparr>"

definition IsFqdn :: "string \<Rightarrow> bool" where
  "IsFqdn s = (if length s = 0 then False else s ! (length s - 1) = CHR ''.'')"

definition Fqdn :: "string \<Rightarrow> string" where
  "Fqdn s = (if IsFqdn s then s else s @ ''.'')"

lemma IsFqdn_iff: "IsFqdn s \<longleftrightarrow> s \<noteq> [] \<and> last s = CHR ''.''"
  by (auto simp: IsFqdn_def last_conv_nth)

lemma IsFqdn_Fqdn [simp]: "IsFqdn (Fqdn s)"
  by (simp add: Fqdn_def IsFqdn_iff)

lemma Fqdn_idem [simp]: "Fqdn (Fqdn s) = Fqdn s"
  by (simp add: Fqdn_def [of "Fqdn s"])

lemma Fqdn_not_Nil [simp]: "Fqdn s \<noteq> []"
  by (auto simp: Fqdn_def IsFqdn_iff)

lemma SetReply_simps [dns_simps]:
  "msgId (SetReply m r) = msgId r"
  "Response (SetReply m r)"
  "Opcode (SetReply m r) = 0"
  "Rcode (SetReply m r) = 0"
  "RecursionDesired (SetReply m r) = RecursionDesired r"
  "Authoritative (SetReply m r) = Authoritative m"
  "Truncated (SetReply m r) = Truncated m"
  "Answer (SetReply m r) = Answer m"
  "Extra (SetReply m r) = Extra m"
  "Ns (SetReply m r) = Ns m"
  "Questions (SetReply m r) = (if Questions r = [] then Questions m else [hd (Questions r)])"
  by (simp_all add: SetReply_def Let_def hd_conv_nth)

lemma empty_Msg_simps [dns_simps]:
  "msgId empty_Msg = 0" "Rcode empty_Msg = 0" "Answer empty_Msg = []" "Ns empty_Msg = []"
  "Extra empty_Msg = []" "Questions empty_Msg = []" "\<not> Authoritative empty_Msg"
  "\<not> Truncated empty_Msg"
  by (simp_all add: empty_Msg_def)

end
