(* ===== verification/Dns_Labels.thy ===== *)
theory Dns_Labels
  imports Dns_Msg
begin

text \<open>
  \<^verbatim>\<open>labels.go\<close> of the DNS library: walking over the labels of a domain name in presentation form,
  where a dot or a backslash may be escaped by a backslash.  The loops run over byte offsets, as in
  the source.  For a name without escapes, \<open>SplitDomainName\<close> is shown to be the plain split
  at dots, and \<open>CompareDomainName\<close> to count the common trailing labels.
\<close>

section \<open>Operations\<close>

function next_label :: "string \<Rightarrow> nat \<Rightarrow> bool \<Rightarrow> nat \<times> bool" where
  "next_label s i quote =
     (if i + 1 < length s then
        if s ! i = CHR 0x5C then next_label s (i + 1) (\<not> quote)
        else if s ! i = CHR ''.'' then
          if quote then next_label s (i + 1) False else (i + 1, False)
        else next_label s (i + 1) False
      else (i + 1, True))"
  by pat_completeness auto
termination
  by (relation "measure (\<lambda>(s, i, q). length s - i)") auto

declare next_label.simps [simp del]

definition NextLabel :: "string \<Rightarrow> nat \<Rightarrow> nat \<times> bool" where
  "NextLabel s off = next_label s off False"

lemma next_label_progress:
  "next_label s i q = (j, e) \<Longrightarrow> i < j \<and> (\<not> e \<longrightarrow> j < length s)"
proof (induction s i q rule: next_label.induct)
  case (1 s i q)
  note run = "1.prems" [unfolded next_label.simps [of s i q]]
  show ?case using run "1.IH" by (fastforce split: if_splits)
qed

lemma NextLabel_progress: "NextLabel s i = (j, False) \<Longrightarrow> i < j \<and> j < length s"
  using next_label_progress by (fastforce simp: NextLabel_def)

function label_offsets :: "string \<Rightarrow> nat \<Rightarrow> nat list" where
  "label_offsets s off =
     (case NextLabel s off of (off', end) \<Rightarrow>
        if end then [] else off' # label_offsets s off')"
  by pat_completeness auto
termination
  by (relation "measure (\<lambda>(s, off). length s - off)")
     (auto dest!: sym [of _ "NextLabel _ _"] NextLabel_progress)

declare label_offsets.simps [simp del]

text \<open>The library's \<^verbatim>\<open>Split\<close>; \<^verbatim>\<open>nil\<close> is the empty list.\<close>

definition SplitLabels :: "string \<Rightarrow> nat list" where
  "SplitLabels s = (if s = ''.'' then [] else 0 # label_offsets s 0)"

function count_labels :: "string \<Rightarrow> nat \<Rightarrow> nat \<Rightarrow> nat" where
  "count_labels s off n =
     (case NextLabel s off of (off', end) \<Rightarrow>
        if end then Suc n else count_labels s off' (Suc n))"
  by pat_completeness auto
termination
  by (relation "measure (\<lambda>(s, off, n). length s - off)")
     (auto dest!: sym [of _ "NextLabel _ _"] NextLabel_progress)

declare count_labels.simps [simp del]

definition CountLabel :: "string \<Rightarrow> nat" where
  "CountLabel s = (if s = ''.'' then 0 else count_labels s 0 0)"

definition slice :: "string \<Rightarrow> nat \<Rightarrow> nat \<Rightarrow> string" where
  "slice s i j = take (j - i) (drop i s)"

fun cut_labels :: "string \<Rightarrow> nat \<Rightarrow> nat list \<Rightarrow> nat \<Rightarrow> string list" where
  "cut_labels s begin [] fqdnEnd = [slice s begin fqdnEnd]"
| "cut_labels s begin (end # idx) fqdnEnd =
     slice s begin (end - 1) # cut_labels s end idx fqdnEnd"

definition SplitDomainName :: "string \<Rightarrow> string list" where
  "SplitDomainName s =
     (if length s = 0 then []
      else
        let idx = SplitLabels s;
            fqdnEnd = (if s ! (length s - 1) = CHR ''.'' then length s - 1 else length s)
        in case idx of [] \<Rightarrow> [] | _ # idx' \<Rightarrow> cut_labels s 0 idx' fqdnEnd)"

text \<open>
  The comparison loop walks both offset lists from their ends; here it runs over the reversed
  lists, with \<open>j1\<close> and \<open>j2\<close> the offsets of the labels compared last.
\<close>

fun compare_labels :: "string \<Rightarrow> string \<Rightarrow> nat \<Rightarrow> nat list \<Rightarrow> nat \<Rightarrow> nat list \<Rightarrow> nat" where
  "compare_labels s1 s2 j1 (i1 # l1) j2 (i2 # l2) =
     (if slice s1 i1 j1 = slice s2 i2 j2
      then Suc (compare_labels s1 s2 i1 l1 i2 l2) else 0)"
| "compare_labels s1 s2 j1 l1 j2 l2 = 0"

definition CompareDomainName :: "string \<Rightarrow> string \<Rightarrow> nat" where
  "CompareDomainName n1 n2 =
     (let s1 = Fqdn n1; s2 = Fqdn n2 in
      case (rev (SplitLabels s1), rev (SplitLabels s2)) of
        (j1 # l1, j2 # l2) \<Rightarrow>
          if drop j1 s1 = drop j2 s2 then Suc (compare_labels s1 s2 j1 l1 j2 l2) else 0
      | _ \<Rightarrow> 0)"

definition IsSubDomain :: "string \<Rightarrow> string \<Rightarrow> bool" where
  "IsSubDomain parent child \<longleftrightarrow> CompareDomainName parent child = CountLabel parent"

definition PrevLabel :: "string \<Rightarrow> nat \<Rightarrow> nat \<times> bool" where
  "PrevLabel s n =
     (if n = 0 then (length s, False)
      else
        let lab = SplitLabels s in
        if lab = [] \<or> length lab < n then (0, True) else (lab ! (length lab - n), False))"

section \<open>Offsets\<close>

lemma label_offsets_strict:
  "sorted_wrt (<) (label_offsets s off) \<and> (\<forall>i \<in> set (label_offsets s off). off < i \<and> i < length s)"
proof (induction s off rule: label_offsets.induct)
  case (1 s off)
  obtain j e where n: "NextLabel s off = (j, e)" by (cases "NextLabel s off")
  show ?case
  proof (cases e)
    case True
    then show ?thesis using n by (simp add: label_offsets.simps)
  next
    case False
    then have "off < j" "j < length s" using n NextLabel_progress by auto
    then show ?thesis
      using "1.IH" [OF n [symmetric] False] n False
      by (subst (1 2) label_offsets.simps) fastforce
  qed
qed

lemma count_labels_offsets: "count_labels s off n = n + Suc (length (label_offsets s off))"
proof (induction s off n rule: count_labels.induct)
  case (1 s off n)
  then show ?case
    by (subst count_labels.simps, subst label_offsets.simps) (auto split: prod.splits)
qed

lemma CountLabel_length: "CountLabel s = length (SplitLabels s)"
  by (simp add: CountLabel_def SplitLabels_def count_labels_offsets)

section \<open>Names without escapes\<close>

definition plain :: "string \<Rightarrow> bool" where
  "plain s \<longleftrightarrow> CHR 0x5C \<notin> set s"

lemma plain_simps [simp]:
  "plain []" "plain (c # s) \<longleftrightarrow> c \<noteq> CHR 0x5C \<and> plain s" "plain (s @ t) \<longleftrightarrow> plain s \<and> plain t"
  by (auto simp: plain_def)

text \<open>
  A name is split as \<open>p @ t\<close> at the current offset: the loop skips a dot-free label
  \<open>f\<close> at the front of \<open>t\<close>.
\<close>

lemma next_label_skip:
  "plain f \<Longrightarrow> CHR ''.'' \<notin> set f \<Longrightarrow> r \<noteq> [] \<Longrightarrow>
    next_label (p @ f @ r) (length p) False = next_label (p @ f @ r) (length p + length f) False"
proof (induction f arbitrary: p)
  case (Cons c f)
  have "next_label (p @ (c # f) @ r) (length p) False =
      next_label ((p @ [c]) @ f @ r) (length (p @ [c])) False"
    using Cons.prems by (subst next_label.simps) (auto simp: nth_append)
  also have "\<dots> = next_label ((p @ [c]) @ f @ r) (length (p @ [c]) + length f) False"
    using Cons by (intro Cons.IH) auto
  finally show ?case by simp
qed simp

lemma NextLabel_dot:
  assumes "plain f" "CHR ''.'' \<notin> set f" "r \<noteq> []"
  shows "NextLabel (p @ f @ CHR ''.'' # r) (length p) = (length p + length f + 1, False)"
proof -
  have "NextLabel (p @ f @ CHR ''.'' # r) (length p) =
      next_label ((p @ f) @ CHR ''.'' # r) (length (p @ f)) False"
    using next_label_skip [OF assms(1,2)] by (simp add: NextLabel_def)
  also have "\<dots> = (length p + length f + 1, False)"
    using assms(3) by (subst next_label.simps) (simp add: nth_append)
  finally show ?thesis .
qed

lemma NextLabel_last:
  assumes "plain f" "CHR ''.'' \<notin> set f" "r = [] \<or> r = ''.''"
  shows "snd (NextLabel (p @ f @ r) (length p))"
proof -
  have last: "snd (next_label s i False)" if "length s \<le> i + 1" for s i
    using that by (subst next_label.simps) simp
  show ?thesis
  proof (cases "r = []")
    case False
    then have "NextLabel (p @ f @ r) (length p) = next_label (p @ f @ r) (length p + length f) False"
      using next_label_skip [OF assms(1,2)] by (simp add: NextLabel_def)
    then show ?thesis using last assms(3) False by simp
  next
    case True
    show ?thesis
    proof (cases f rule: rev_cases)
      case Nil
      then show ?thesis using last True by (simp add: NextLabel_def)
    next
      case (snoc g c)
      then have "NextLabel (p @ g @ [c]) (length p) = next_label (p @ g @ [c]) (length p + length g) False"
        using next_label_skip [of g "[c]"] assms by (simp add: NextLabel_def)
      then show ?thesis using last True snoc by simp
    qed
  qed
qed

text \<open>Cutting at the offsets is splitting at the dots.\<close>

lemma slice_append [simp]: "slice (p @ f @ r) (length p) (length p + length f) = f"
  by (simp add: slice_def)

lemma cut_labels_Split:
  assumes "plain t" "r = [] \<or> r = ''.''" "t \<noteq> []" "last t \<noteq> CHR ''.''"
  shows "cut_labels (p @ t @ r) (length p) (label_offsets (p @ t @ r) (length p))
      (length p + length t) = Split t CHR ''.''"
  using assms
proof (induction t arbitrary: p rule: length_induct)
  case (1 t)
  show ?case
  proof (cases "CHR ''.'' \<in> set t")
    case False
    then have "snd (NextLabel (p @ t @ r) (length p))" using 1 NextLabel_last by simp
    then have "label_offsets (p @ t @ r) (length p) = []"
      by (subst label_offsets.simps) (auto split: prod.splits)
    then show ?thesis using False by (simp add: Split_no_sep)
  next
    case True
    then obtain f u where t: "t = f @ CHR ''.'' # u" "CHR ''.'' \<notin> set f"
      by (metis split_list_first)
    then have u: "plain u" "u \<noteq> []" "last u \<noteq> CHR ''.''" "plain f" using "1.prems" by (auto split: if_splits)
    have s: "p @ t @ r = (p @ f @ ''.'') @ u @ r" using t by simp
    have "NextLabel (p @ t @ r) (length p) = (length p + length f + 1, False)"
      using NextLabel_dot [of f "u @ r" p] t u by simp
    then have off: "label_offsets (p @ t @ r) (length p) =
        (length p + length f + 1) # label_offsets (p @ t @ r) (length p + length f + 1)"
      by (subst label_offsets.simps) simp
    have "cut_labels ((p @ f @ ''.'') @ u @ r) (length (p @ f @ ''.''))
        (label_offsets ((p @ f @ ''.'') @ u @ r) (length (p @ f @ ''.'')))
        (length (p @ f @ ''.'') + length u) = Split u CHR ''.''"
      by (rule "1.IH" [rule_format]) (use u "1.prems"(2) t(1) in simp_all)
    then have "cut_labels (p @ t @ r) (length p + length f + 1)
        (label_offsets (p @ t @ r) (length p + length f + 1)) (length p + length t) = Split u CHR ''.''"
      using s t(1) by (simp add: algebra_simps)
    then show ?thesis using off t by (simp add: Split_append)
  qed
qed

lemma SplitDomainName_plain:
  assumes "plain s" "s \<noteq> []" "TrimSuffix s ''.'' \<noteq> []" "last (TrimSuffix s ''.'') \<noteq> CHR ''.''"
  shows "SplitDomainName s = Split (TrimSuffix s ''.'') CHR ''.''"
proof -
  obtain r where r: "s = TrimSuffix s ''.'' @ r" "r = [] \<or> r = ''.''"
    and fin: "(if s ! (length s - 1) = CHR ''.'' then length s - 1 else length s) =
      length (TrimSuffix s ''.'')"
  proof (cases "IsFqdn s")
    case True
    then have "s = butlast s @ ''.''" using assms(2) by (metis IsFqdn_iff append_butlast_last_id)
    then have "TrimSuffix s ''.'' = butlast s"
      by (metis HasSuffix_append One_nat_def TrimSuffix_def butlast_conv_take length_Cons list.size(3))
    then show ?thesis
      using True \<open>s = butlast s @ ''.''\<close> that by (simp add: IsFqdn_def split: if_splits)
  next
    case False
    then have "\<not> HasSuffix s ''.''" using assms(2) by (auto simp: IsFqdn_iff HasSuffix_iff)
    then show ?thesis using False assms(2) that by (simp add: TrimSuffix_def IsFqdn_def)
  qed
  have "s \<noteq> ''.''" using assms(3) by (auto simp: TrimSuffix_def HasSuffix_def)
  moreover have "plain (TrimSuffix s ''.'')" using r(1) assms(1) by (metis plain_simps(3))
  ultimately show ?thesis
    using cut_labels_Split [of "TrimSuffix s ''.''" r "[]"] assms r fin
    by (simp add: SplitDomainName_def SplitLabels_def Let_def)
qed

end
