(* ===== verification/Dns_Server.thy ===== *)
theory Dns_Server
  imports Dns_Labels
begin

text \<open>
  \<^verbatim>\<open>server.go\<close> of the DNS library: response writers, handlers and the request multiplexer
  \<^verbatim>\<open>ServeMux\<close>.  A response writer is what the agent's handlers use of the interface
  \<^verbatim>\<open>ResponseWriter\<close>: the client's address and the operation \<^verbatim>\<open>WriteMsg\<close>, which acts on the
  state of the process.  A handler is the function \<^verbatim>\<open>ServeDNS\<close> of the interface \<^verbatim>\<open>Handler\<close>.
\<close>

section \<open>Writers and handlers\<close>

record 's ResponseWriter =
  RemoteAddr :: net_addr
  WriteMsg :: "Msg \<Rightarrow> 's \<Rightarrow> (go_error option \<times> 's) run"

type_synonym 's Handler = "'s ResponseWriter \<Rightarrow> Msg \<Rightarrow> 's \<Rightarrow> 's run"

text \<open>Writing a message and dropping the error.\<close>

definition write_drop :: "'s ResponseWriter \<Rightarrow> Msg \<Rightarrow> 's \<Rightarrow> 's run" where
  "write_drop w m s = run_bind (WriteMsg w m s) (\<lambda>(err, s'). Done s')"

definition HandleFailed :: "'s Handler" where
  "HandleFailed w r s = write_drop w (SetRcode empty_Msg r RcodeServerFailure) s"

section \<open>The multiplexer\<close>

type_synonym 's ServeMux = "string \<rightharpoonup> 's Handler"

definition NewServeMux :: "'s ServeMux" where
  "NewServeMux = Map.empty"

definition Handle :: "'s ServeMux \<Rightarrow> string \<Rightarrow> 's Handler \<Rightarrow> 's ServeMux run" where
  "Handle mux pattern handler =
     (if pattern = [] then Panic (PanicError (''dns: invalid pattern '' @ pattern))
      else Done (mux(Fqdn pattern \<mapsto> handler)))"

definition HandleRemove :: "'s ServeMux \<Rightarrow> string \<Rightarrow> 's ServeMux run" where
  "HandleRemove mux pattern =
     (if pattern = [] then Panic (PanicError (''dns: invalid pattern '' @ pattern))
      else Done (mux(Fqdn pattern := None)))"

definition lower :: "char \<Rightarrow> char" where
  "lower c = (if 65 \<le> (of_char c :: nat) \<and> (of_char c :: nat) \<le> 90 then char_of (of_char c + 32 :: nat) else c)"

function match_from ::
  "'s ServeMux \<Rightarrow> string \<Rightarrow> uint16 \<Rightarrow> nat \<Rightarrow> 's Handler option \<Rightarrow> 's Handler option + 's Handler" where
  "match_from mux q t off handler =
     (case mux (map lower (drop off q)) of
        Some h \<Rightarrow>
          if t \<noteq> TypeDS then Inr h
          else
            (case NextLabel q off of (off', end) \<Rightarrow>
               if end then Inl (Some h) else match_from mux q t off' (Some h))
      | None \<Rightarrow>
          (case NextLabel q off of (off', end) \<Rightarrow>
             if end then Inl handler else match_from mux q t off' handler))"
  by pat_completeness auto
termination
  by (relation "measure (\<lambda>(mux, q, t, off, h). length q - off)")
     (auto dest!: sym [of _ "NextLabel _ _"] NextLabel_progress)

declare match_from.simps [simp del]

definition match :: "'s ServeMux \<Rightarrow> string \<Rightarrow> uint16 \<Rightarrow> 's Handler option" where
  "match mux q t =
     (case match_from mux q t 0 None of
        Inr h \<Rightarrow> Some h
      | Inl handler \<Rightarrow> (case mux ''.'' of Some h \<Rightarrow> Some h | None \<Rightarrow> handler))"

definition ServeMux_ServeDNS :: "'s ServeMux \<Rightarrow> 's Handler" where
  "ServeMux_ServeDNS mux w request s =
     (case Questions request of
        [] \<Rightarrow> HandleFailed w request s
      | q # _ \<Rightarrow>
          (case match mux (qName q) (Qtype q) of
             None \<Rightarrow> HandleFailed w request s
           | Some h \<Rightarrow> h w request s))"

section \<open>Properties of matching\<close>

text \<open>
  The suffixes of a name that start at a label, longest first, in lower case: the patterns that
  can match the name.
\<close>

definition label_suffixes :: "string \<Rightarrow> string list" where
  "label_suffixes q = map (\<lambda>off. map lower (drop off q)) (0 # label_offsets q 0)"

fun first_registered :: "'s ServeMux \<Rightarrow> string list \<Rightarrow> 's Handler option" where
  "first_registered mux [] = None"
| "first_registered mux (k # ks) =
     (case mux k of Some h \<Rightarrow> Some h | None \<Rightarrow> first_registered mux ks)"

lemma match_from_first:
  assumes "t \<noteq> TypeDS"
  shows "match_from mux q t off hd0 =
    (case first_registered mux (map (\<lambda>off. map lower (drop off q)) (off # label_offsets q off)) of
       Some h \<Rightarrow> Inr h | None \<Rightarrow> Inl hd0)"
  using assms
proof (induction mux q t off hd0 rule: match_from.induct)
  case (1 mux q t off hd0)
  obtain off' e where n: "NextLabel q off = (off', e)" by (cases "NextLabel q off")
  show ?case
  proof (cases "mux (map lower (drop off q))")
    case (Some h)
    then show ?thesis
      using "1.prems" by (subst match_from.simps) simp
  next
    case None
    show ?thesis
    proof (cases e)
      case True
      then show ?thesis
        using None n by (subst match_from.simps, subst label_offsets.simps) simp
    next
      case False
      then show ?thesis
        using None n "1.prems" "1.IH"(1) [OF None n [symmetric]]
        by (subst match_from.simps, subst label_offsets.simps) simp
    qed
  qed
qed

text \<open>
  For any type but DS the handler of the most specific registered suffix is chosen, and the one
  of the root zone if there is none.
\<close>

lemma match_most_specific:
  assumes "t \<noteq> TypeDS"
  shows "match mux q t =
    (case first_registered mux (label_suffixes q) of Some h \<Rightarrow> Some h | None \<Rightarrow> mux ''.'')"
  using match_from_first [OF assms, of mux q 0 None]
  by (auto simp: match_def label_suffixes_def split: option.splits)

text \<open>With a handler at the root only, every question reaches it.\<close>

lemma match_from_registered: "match_from mux q t off hd0 = Inr h \<Longrightarrow> \<exists>k. mux k = Some h"
proof (induction mux q t off hd0 rule: match_from.induct)
  case (1 mux q t off hd0)
  note run = "1.prems" [unfolded match_from.simps [of mux q t off hd0]]
  show ?case
    using run "1.IH" by (auto split: option.splits prod.splits if_splits)
qed

lemma match_root_only: "match [''.'' \<mapsto> h] q t = Some h"
proof (cases "match_from [''.'' \<mapsto> h] q t 0 None")
  case (Inr h')
  then have "h' = h" using match_from_registered [OF Inr] by (auto split: if_splits)
  then show ?thesis using Inr by (simp add: match_def)
qed (simp add: match_def)

end
