(* ===== verification/Prometheus.thy ===== *)
theory Prometheus
  imports Go_Strings
begin

unbundle bit_operations_syntax

text \<open>
  The metric vectors of the Prometheus client library (\<^verbatim>\<open>vec.go\<close>, \<^verbatim>\<open>value.go\<close>,
  \<^verbatim>\<open>gauge.go\<close>, \<^verbatim>\<open>counter.go\<close>) that the agent's instrumentation writes to.  A vector keeps its
  children in a map from a 64-bit FNV-1a hash of the label values; the hash stands for the pointer
  to the child that Go code holds, and setting or incrementing a metric changes the child under
  that key.

  Gauge and counter values are 64-bit floating point numbers.  All values the agent stores in
  gauges and counters are integers, so a value is the integer it represents, and \<open>f64\<close> rounds an integer to the
  nearest one a \<^verbatim>\<open>float64\<close> can represent.
\<close>

section \<open>Rounding to float64\<close>

fun bit_len :: "nat \<Rightarrow> nat" where
  "bit_len n = (if n = 0 then 0 else Suc (bit_len (n div 2)))"

declare bit_len.simps [simp del]

definition round_even :: "nat \<Rightarrow> nat \<Rightarrow> nat" where
  "round_even n e =
     (let q = n div 2 ^ e; r = n mod 2 ^ e in
      (if 2 ^ e < 2 * r \<or> (2 ^ e = 2 * r \<and> odd q) then q + 1 else q) * 2 ^ e)"

definition f64 :: "int \<Rightarrow> int" where
  "f64 i = (if \<bar>i\<bar> \<le> 2 ^ 53 then i
            else sgn i * int (round_even (nat \<bar>i\<bar>) (bit_len (nat \<bar>i\<bar>) - 53)))"

lemma f64_exact [simp]: "\<bar>i\<bar> \<le> 2 ^ 53 \<Longrightarrow> f64 i = i"
  by (simp add: f64_def)

section \<open>Hashing\<close>

definition fnv_offset64 :: uint64 where
  "fnv_offset64 = 14695981039346656037"

definition fnv_prime64 :: uint64 where
  "fnv_prime64 = 1099511628211"

definition fnv_write :: "uint64 \<Rightarrow> string \<Rightarrow> uint64" where
  "fnv_write h s = foldl (\<lambda>h c. (h XOR of_nat (of_char c)) * fnv_prime64) h s"

lemma fnv_write_append: "fnv_write h (s @ t) = fnv_write (fnv_write h s) t"
  by (simp add: fnv_write_def)

text \<open>The hash over natural numbers, reduced after every character, for evaluation.\<close>

fun fnv_nat :: "nat \<Rightarrow> string \<Rightarrow> nat" where
  "fnv_nat h [] = h"
| "fnv_nat h (c # s) = fnv_nat ((h XOR of_char c) * 1099511628211 mod 18446744073709551616) s"

lemma fnv_write_nat: "fnv_write (of_nat h) s = of_nat (fnv_nat h s)"
proof (induction s arbitrary: h)
  case (Cons c s)
  have "(of_nat h XOR of_nat (of_char c)) * fnv_prime64 =
     (of_nat ((h XOR of_char c) * 1099511628211 mod 18446744073709551616) :: uint64)"
    (is "_ = of_nat (?x mod _)")
  proof -
    have "(of_nat (x mod 18446744073709551616) :: uint64) = of_nat x" for x
      by (simp add: word_of_nat_eq_iff take_bit_eq_mod)
    then show ?thesis by (simp only: fnv_prime64_def of_nat_mult of_nat_numeral of_nat_xor_eq)
  qed
  then show ?case using Cons by (simp add: fnv_write_def)
qed (simp add: fnv_write_def)

lemma fnv_offset64_write: "fnv_write fnv_offset64 s = of_nat (fnv_nat 14695981039346656037 s)"
  using fnv_write_nat [of 14695981039346656037 s] by (simp add: fnv_offset64_def)

section \<open>Metric vectors\<close>

type_synonym Labels = "(string \<times> string) list"

datatype vec_error = errInconsistentCardinality | errLabelMissing string

record 'v metric =
  labelValues :: "string list"
  val :: 'v

record 'v MetricVec =
  children :: "uint64 \<rightharpoonup> 'v metric"
  variableLabels :: "string list"
  newVal :: 'v

definition newMetric :: "'v MetricVec \<Rightarrow> string list \<Rightarrow> 'v metric" where
  "newMetric m lvs = \<lparr>labelValues = lvs, val = newVal m\<rparr>"

definition hashLabelValues :: "'v MetricVec \<Rightarrow> string list \<Rightarrow> vec_error + uint64" where
  "hashLabelValues m vals =
     (if length vals \<noteq> length (variableLabels m) then Inl errInconsistentCardinality
      else Inr (foldl fnv_write fnv_offset64 vals))"

fun hash_labels :: "uint64 \<Rightarrow> Labels \<Rightarrow> string list \<Rightarrow> vec_error + uint64" where
  "hash_labels h labels [] = Inr h"
| "hash_labels h labels (l # ls) =
     (case map_of labels l of
        None \<Rightarrow> Inl (errLabelMissing l)
      | Some v \<Rightarrow> hash_labels (fnv_write h v) labels ls)"

definition hashLabels :: "'v MetricVec \<Rightarrow> Labels \<Rightarrow> vec_error + uint64" where
  "hashLabels m labels =
     (if length labels \<noteq> length (variableLabels m) then Inl errInconsistentCardinality
      else hash_labels fnv_offset64 labels (variableLabels m))"

definition getOrCreateMetric :: "'v MetricVec \<Rightarrow> uint64 \<Rightarrow> string list \<Rightarrow> 'v MetricVec" where
  "getOrCreateMetric m h lvs =
     (case children m h of
        Some _ \<Rightarrow> m
      | None \<Rightarrow> m\<lparr>children := (children m)(h \<mapsto> newMetric m lvs)\<rparr>)"

definition GetMetricWithLabelValues ::
  "'v MetricVec \<Rightarrow> string list \<Rightarrow> vec_error + (uint64 \<times> 'v MetricVec)" where
  "GetMetricWithLabelValues m lvs =
     (case hashLabelValues m lvs of
        Inl e \<Rightarrow> Inl e
      | Inr h \<Rightarrow> Inr (h, getOrCreateMetric m h lvs))"

text \<open>A label that is missing from the map reads as the empty string.\<close>

definition label_value :: "Labels \<Rightarrow> string \<Rightarrow> string" where
  "label_value labels l = (case map_of labels l of None \<Rightarrow> [] | Some v \<Rightarrow> v)"

definition GetMetricWith :: "'v MetricVec \<Rightarrow> Labels \<Rightarrow> vec_error + (uint64 \<times> 'v MetricVec)" where
  "GetMetricWith m labels =
     (case hashLabels m labels of
        Inl e \<Rightarrow> Inl e
      | Inr h \<Rightarrow>
          Inr (h, getOrCreateMetric m h (map (label_value labels) (variableLabels m))))"

definition vec_panic :: "vec_error \<Rightarrow> panic" where
  "vec_panic e =
     (case e of
        errInconsistentCardinality \<Rightarrow> PanicError ''inconsistent label cardinality''
      | errLabelMissing l \<Rightarrow> PanicError (''label name missing in label map: '' @ l))"

definition WithLabelValues :: "'v MetricVec \<Rightarrow> string list \<Rightarrow> (uint64 \<times> 'v MetricVec) run" where
  "WithLabelValues m lvs =
     (case GetMetricWithLabelValues m lvs of Inl e \<Rightarrow> Panic (vec_panic e) | Inr r \<Rightarrow> Done r)"

definition With :: "'v MetricVec \<Rightarrow> Labels \<Rightarrow> (uint64 \<times> 'v MetricVec) run" where
  "With m labels =
     (case GetMetricWith m labels of Inl e \<Rightarrow> Panic (vec_panic e) | Inr r \<Rightarrow> Done r)"

definition DeleteLabelValues :: "'v MetricVec \<Rightarrow> string list \<Rightarrow> bool \<times> 'v MetricVec" where
  "DeleteLabelValues m lvs =
     (case hashLabelValues m lvs of
        Inl e \<Rightarrow> (False, m)
      | Inr h \<Rightarrow>
          if children m h = None then (False, m)
          else (True, m\<lparr>children := (children m)(h := None)\<rparr>))"

definition Delete :: "'v MetricVec \<Rightarrow> Labels \<Rightarrow> bool \<times> 'v MetricVec" where
  "Delete m labels =
     (case hashLabels m labels of
        Inl e \<Rightarrow> (False, m)
      | Inr h \<Rightarrow>
          if children m h = None then (False, m)
          else (True, m\<lparr>children := (children m)(h := None)\<rparr>))"

definition Reset :: "'v MetricVec \<Rightarrow> 'v MetricVec" where
  "Reset m = m\<lparr>children := Map.empty\<rparr>"

section \<open>Gauges, counters and summaries\<close>

text \<open>
  The metric with handle \<open>h\<close> is changed in place.  A summary is the list of the durations it
  has observed (its quantile estimation is not modelled).
\<close>

definition modify :: "uint64 \<Rightarrow> ('v \<Rightarrow> 'v) \<Rightarrow> 'v MetricVec \<Rightarrow> 'v MetricVec" where
  "modify h f m =
     m\<lparr>children := (children m)(h := map_option (\<lambda>c. c\<lparr>val := f (val c)\<rparr>) (children m h))\<rparr>"

definition gauge_Set :: "uint64 \<Rightarrow> int \<Rightarrow> int MetricVec \<Rightarrow> int MetricVec" where
  "gauge_Set h v m = modify h (\<lambda>_. v) m"

definition counter_Inc :: "uint64 \<Rightarrow> int MetricVec \<Rightarrow> int MetricVec" where
  "counter_Inc h m = modify h (\<lambda>v. f64 (v + 1)) m"

definition summary_Observe :: "uint64 \<Rightarrow> rat \<Rightarrow> rat list MetricVec \<Rightarrow> rat list MetricVec" where
  "summary_Observe h d m = modify h (\<lambda>obs. obs @ [d]) m"

definition NewVec :: "string list \<Rightarrow> 'v \<Rightarrow> 'v MetricVec" where
  "NewVec labelNames v = \<lparr>children = Map.empty, variableLabels = labelNames, newVal = v\<rparr>"

section \<open>Properties\<close>

lemma hashLabelValues_concat [metric_simps]:
  "hashLabelValues m vals = Inr h \<longleftrightarrow>
    length vals = length (variableLabels m) \<and> h = fnv_write fnv_offset64 (concat vals)"
proof -
  have "foldl fnv_write g vals = fnv_write g (concat vals)" for g
    by (induction vals arbitrary: g) (simp_all add: fnv_write_append, simp add: fnv_write_def)
  then show ?thesis by (auto simp: hashLabelValues_def)
qed

lemma hash_labels_Inr:
  "hash_labels h labels ls = Inr h' \<longleftrightarrow>
    set ls \<subseteq> fst ` set labels \<and> h' = fnv_write h (concat (map (label_value labels) ls))"
proof (induction ls arbitrary: h)
  case Nil
  then show ?case by (auto simp: fnv_write_def)
next
  case (Cons l ls)
  show ?case
  proof (cases "map_of labels l")
    case None
    then have "l \<notin> fst ` set labels" by (simp add: map_of_eq_None_iff)
    with None show ?thesis by simp
  next
    case (Some v)
    then have "l \<in> fst ` set labels" by (force dest: map_of_SomeD)
    then show ?thesis using Some Cons by (simp add: label_value_def fnv_write_append)
  qed
qed

text \<open>
  Invariant of a vector: every child sits under the hash of its own label values, which are as
  many as the vector has labels.
\<close>

definition vec_inv :: "'v MetricVec \<Rightarrow> bool" where
  "vec_inv m \<longleftrightarrow> (\<forall>h c. children m h = Some c \<longrightarrow>
     length (labelValues c) = length (variableLabels m) \<and>
     h = fnv_write fnv_offset64 (concat (labelValues c)))"

lemma vec_inv_New: "vec_inv (NewVec ls v)"
  by (simp add: vec_inv_def NewVec_def)

lemma vec_inv_Reset: "vec_inv (Reset m)"
  by (simp add: vec_inv_def Reset_def)

lemma vec_inv_modify: "vec_inv m \<Longrightarrow> vec_inv (modify h f m)"
  by (auto simp: vec_inv_def modify_def)

lemma vec_inv_getOrCreate:
  "vec_inv m \<Longrightarrow> length lvs = length (variableLabels m) \<Longrightarrow>
    h = fnv_write fnv_offset64 (concat lvs) \<Longrightarrow> vec_inv (getOrCreateMetric m h lvs)"
  by (auto simp: vec_inv_def getOrCreateMetric_def newMetric_def split: option.splits)

lemma vec_inv_remove: "vec_inv m \<Longrightarrow> vec_inv (m\<lparr>children := (children m)(h := None)\<rparr>)"
  by (simp add: vec_inv_def)

lemma vec_inv_WithLabelValues:
  "vec_inv m \<Longrightarrow> WithLabelValues m lvs = Done (h, m') \<Longrightarrow> vec_inv m'"
  by (auto simp: WithLabelValues_def GetMetricWithLabelValues_def hashLabelValues_concat
      intro: vec_inv_getOrCreate split: sum.splits)

lemma vec_inv_With: "vec_inv m \<Longrightarrow> With m labels = Done (h, m') \<Longrightarrow> vec_inv m'"
  by (auto simp: With_def GetMetricWith_def hashLabels_def hash_labels_Inr
      intro: vec_inv_getOrCreate split: sum.splits if_splits)

lemma getOrCreate_children:
  "children (getOrCreateMetric m h lvs) h \<noteq> None"
  "h' \<noteq> h \<Longrightarrow> children (getOrCreateMetric m h lvs) h' = children m h'"
  by (auto simp: getOrCreateMetric_def split: option.splits)

lemma vec_frame [simp]:
  "variableLabels (getOrCreateMetric m h lvs) = variableLabels m"
  "newVal (getOrCreateMetric m h lvs) = newVal m"
  "variableLabels (modify h f m) = variableLabels m"
  "newVal (modify h f m) = newVal m"
  by (auto simp: getOrCreateMetric_def modify_def split: option.splits)

lemma WithLabelValues_cases:
  "WithLabelValues m lvs =
    (if length lvs = length (variableLabels m)
     then let h = fnv_write fnv_offset64 (concat lvs) in Done (h, getOrCreateMetric m h lvs)
     else Panic (vec_panic errInconsistentCardinality))"
proof (cases "length lvs = length (variableLabels m)")
  case True
  then have "hashLabelValues m lvs = Inr (fnv_write fnv_offset64 (concat lvs))"
    by (simp add: hashLabelValues_concat)
  then show ?thesis using True
    by (simp add: WithLabelValues_def GetMetricWithLabelValues_def Let_def)
qed (simp add: WithLabelValues_def GetMetricWithLabelValues_def hashLabelValues_def)

text \<open>The value of the child for given label values, if there is one.\<close>

definition value_of :: "'v MetricVec \<Rightarrow> string list \<Rightarrow> 'v option" where
  "value_of m lvs = map_option val (children m (fnv_write fnv_offset64 (concat lvs)))"

lemma With_total:
  assumes "length labels = length (variableLabels m)" "set (variableLabels m) \<subseteq> fst ` set labels"
  shows "With m labels =
    (let lvs = map (label_value labels) (variableLabels m);
         h = fnv_write fnv_offset64 (concat lvs)
     in Done (h, getOrCreateMetric m h lvs))"
proof -
  have "hashLabels m labels =
      Inr (fnv_write fnv_offset64 (concat (map (label_value labels) (variableLabels m))))"
    using assms by (simp add: hashLabels_def hash_labels_Inr)
  then show ?thesis by (simp add: With_def GetMetricWith_def Let_def)
qed

end
