(* ===== verification/Agent_World.thy ===== *)
theory Agent_World
  imports Dns_Server Prometheus
begin

text \<open>
  The state of the agent process that its handlers and stores share: the clock, the logger's
  output, the objects that are reached through pointers (the \<^verbatim>\<open>last\<close> fields of
  \<^verbatim>\<open>cachingWriter\<close>), the messages and the bytes put on the wire, and the metric vectors of
  \<^verbatim>\<open>agent/instrumentation.go\<close>.

  Time is read from an arbitrary clock: \<open>clock k\<close> is the result, in nanoseconds, of the
  \<open>k\<close>-th reading.  The logger keeps the rendered messages, without the prefix and time stamp
  that Go's \<^verbatim>\<open>log\<close> package adds.
\<close>

record world =
  clock :: "nat \<Rightarrow> int"
  tick :: nat
  logged :: "string list"
  lasts :: "Msg option list"
  sent :: "(net_addr \<times> Msg) list"
  packets :: "(net_addr \<times> string) list"
  dnsDurations :: "rat list MetricVec"
  storeCounts :: "int MetricVec"
  storeDurations :: "rat list MetricVec"
  storeErrors :: "int MetricVec"

section \<open>Time\<close>

definition time_Now :: "world \<Rightarrow> int \<times> world" where
  "time_Now s = (clock s (tick s), s\<lparr>tick := Suc (tick s)\<rparr>)"

definition time_Since :: "int \<Rightarrow> world \<Rightarrow> int \<times> world" where
  "time_Since start s = (clock s (tick s) - start, s\<lparr>tick := Suc (tick s)\<rparr>)"

text \<open>Go's integer division truncates towards zero.\<close>

definition go_div :: "int \<Rightarrow> int \<Rightarrow> int" where
  "go_div a b = sgn a * sgn b * (\<bar>a\<bar> div \<bar>b\<bar>)"

definition milliseconds :: "int \<Rightarrow> int" where
  "milliseconds d = go_div d 1000000"

text \<open>
  A duration in microseconds, as the summaries observe it: the number of nanoseconds converted to
  \<^verbatim>\<open>float64\<close> and divided by 1000.  The quotient is kept exact here; Go rounds it to the nearest
  \<^verbatim>\<open>float64\<close>.
\<close>

definition microseconds :: "int \<Rightarrow> rat" where
  "microseconds d = of_int (f64 d) / 1000"

section \<open>Logging and sending\<close>

definition Printf :: "string \<Rightarrow> fmt_arg list \<Rightarrow> world \<Rightarrow> world" where
  "Printf f args s = s\<lparr>logged := logged s @ [Sprintf f args]\<rparr>"

text \<open>
  The writer of a connection: a message is sent to the client, or the write fails with the given
  error and nothing is sent.
\<close>

definition connWriter :: "net_addr \<Rightarrow> (Msg \<Rightarrow> go_error option) \<Rightarrow> world ResponseWriter" where
  "connWriter a fails =
     \<lparr>RemoteAddr = a,
      WriteMsg = (\<lambda>m s.
        case fails m of
          Some e \<Rightarrow> Done (Some e, s)
        | None \<Rightarrow> Done (None, s\<lparr>sent := sent s @ [(a, m)]\<rparr>))\<rparr>"

text \<open>Sending bytes to a client, or failing with an error of the network.\<close>

definition send_to :: "net_addr \<Rightarrow> (string \<Rightarrow> go_error option) \<Rightarrow> string \<Rightarrow> world \<Rightarrow> go_error option \<times> world" where
  "send_to a net_fails b s =
     (case net_fails b of
        Some e \<Rightarrow> (Some e, s)
      | None \<Rightarrow> (None, s\<lparr>packets := packets s @ [(a, b)]\<rparr>))"

section \<open>The metric vectors of the agent\<close>

definition storeLabels :: "string list" where
  "storeLabels = [''error'', ''operation'']"

definition countLabels :: "string list" where
  "countLabels = [''service'', ''job'', ''env'', ''product'', ''zone'', ''operation'']"

definition dnsLabels :: "string list" where
  "dnsLabels = [''protocol'', ''qtype'', ''rcode'']"

definition new_world :: "(nat \<Rightarrow> int) \<Rightarrow> world" where
  "new_world c =
     \<lparr>clock = c, tick = 0, logged = [], lasts = [], sent = [], packets = [],
      dnsDurations = NewVec dnsLabels [],
      storeCounts = NewVec countLabels 0,
      storeDurations = NewVec storeLabels [],
      storeErrors = NewVec storeLabels 0\<rparr>"

text \<open>The metric vectors have the labels they were created with and are well formed.\<close>

definition world_ok :: "world \<Rightarrow> bool" where
  "world_ok s \<longleftrightarrow>
     variableLabels (dnsDurations s) = dnsLabels \<and> vec_inv (dnsDurations s) \<and>
     variableLabels (storeCounts s) = countLabels \<and> vec_inv (storeCounts s) \<and>
     variableLabels (storeDurations s) = storeLabels \<and> vec_inv (storeDurations s) \<and>
     variableLabels (storeErrors s) = storeLabels \<and> vec_inv (storeErrors s)"

lemma world_ok_new: "world_ok (new_world c)"
  by (simp add: world_ok_def new_world_def vec_inv_New) (simp add: NewVec_def)

lemma world_ok_tick [simp]: "world_ok (s\<lparr>tick := t\<rparr>) = world_ok s"
  by (simp add: world_ok_def)

lemma world_ok_logged [simp]: "world_ok (s\<lparr>logged := l\<rparr>) = world_ok s"
  by (simp add: world_ok_def)

lemma world_ok_lasts [simp]: "world_ok (s\<lparr>lasts := l\<rparr>) = world_ok s"
  by (simp add: world_ok_def)

lemma world_ok_sent [simp]:
  "world_ok (s\<lparr>sent := l\<rparr>) = world_ok s"
  "world_ok (s\<lparr>packets := p\<rparr>) = world_ok s"
  by (simp_all add: world_ok_def)

section \<open>Contracts\<close>

text \<open>
  A store is sound if in a well-formed world its operations return without a panic, keep the world
  well formed and leave what belongs to the DNS side alone: the message cells, the messages and bytes
  sent, and the DNS durations.
\<close>

definition dns_part ::
  "world \<Rightarrow> Msg option list \<times> (net_addr \<times> Msg) list \<times> (net_addr \<times> string) list \<times> rat list MetricVec" where
  "dns_part s = (lasts s, sent s, packets s, dnsDurations s)"

lemma dns_part_frame [simp]:
  "dns_part (s\<lparr>tick := t\<rparr>) = dns_part s"
  "dns_part (s\<lparr>logged := l\<rparr>) = dns_part s"
  by (simp_all add: dns_part_def)

definition sound_result ::
  "world \<Rightarrow> ((instances \<times> go_error option) \<times> world) run \<Rightarrow> bool" where
  "sound_result s r \<longleftrightarrow>
     (\<exists>x s'. r = Done (x, s') \<and> world_ok s' \<and> dns_part s' = dns_part s \<and> clock s' = clock s)"

locale sound_store =
  fixes st :: "world store"
  assumes getInstances_sound: "world_ok s \<Longrightarrow> sound_result s (getInstances st i s)"
    and getServers_sound: "world_ok s \<Longrightarrow> sound_result s (getServers st z s)"
begin

lemma getInstances_returns:
  assumes "world_ok s"
  obtains ins err s' where "getInstances st i s = Done ((ins, err), s')" "world_ok s'"
    "dns_part s' = dns_part s" "clock s' = clock s"
  using getInstances_sound [OF assms, of i] unfolding sound_result_def by auto

lemma getServers_returns:
  assumes "world_ok s"
  obtains ins err s' where "getServers st z s = Done ((ins, err), s')" "world_ok s'"
    "dns_part s' = dns_part s" "clock s' = clock s"
  using getServers_sound [OF assms, of z] unfolding sound_result_def by auto

end

text \<open>
  Store middleware: the wrapped operation runs the next store after a change \<open>pre\<close> of the
  world and then an epilogue that may look at the result but not change it.
\<close>

locale store_middleware =
  fixes wrap :: "world store \<Rightarrow> world store"
    and pre :: "world \<Rightarrow> world"
    and post_i :: "info \<Rightarrow> world \<Rightarrow> instances \<times> go_error option \<Rightarrow> world \<Rightarrow> world run"
    and post_s :: "string \<Rightarrow> world \<Rightarrow> instances \<times> go_error option \<Rightarrow> world \<Rightarrow> world run"
  assumes wrap_getInstances:
      "getInstances (wrap st) i s =
        run_bind (getInstances st i (pre s)) (\<lambda>(r, s'). run_bind (post_i i s r s') (\<lambda>s''. Done (r, s'')))"
    and wrap_getServers:
      "getServers (wrap st) z s =
        run_bind (getServers st z (pre s)) (\<lambda>(r, s'). run_bind (post_s z s r s') (\<lambda>s''. Done (r, s'')))"
    and pre_ok: "world_ok s \<Longrightarrow> world_ok (pre s)"
    and pre_part: "dns_part (pre s) = dns_part s" "clock (pre s) = clock s"
    and post_i_ok: "world_ok s' \<Longrightarrow>
        \<exists>s''. post_i i s r s' = Done s'' \<and> world_ok s'' \<and> dns_part s'' = dns_part s' \<and> clock s'' = clock s'"
    and post_s_ok: "world_ok s' \<Longrightarrow>
        \<exists>s''. post_s z s r s' = Done s'' \<and> world_ok s'' \<and> dns_part s'' = dns_part s' \<and> clock s'' = clock s'"
begin

text \<open>The result of a wrapped operation is a result of the store below it.\<close>

lemma getInstances_transparent:
  "getInstances (wrap st) i s = Done (r, s'') \<Longrightarrow> \<exists>s'. getInstances st i (pre s) = Done (r, s')"
  by (auto simp: wrap_getInstances run_bind_Done_iff)

lemma getServers_transparent:
  "getServers (wrap st) z s = Done (r, s'') \<Longrightarrow> \<exists>s'. getServers st z (pre s) = Done (r, s')"
  by (auto simp: wrap_getServers run_bind_Done_iff)

lemma wrap_sound:
  assumes "sound_store st"
  shows "sound_store (wrap st)"
proof
  fix s :: world and i :: info
  assume ok: "world_ok s"
  obtain r s' where "getInstances st i (pre s) = Done (r, s')" "world_ok s'"
    "dns_part s' = dns_part s" "clock s' = clock s"
    using sound_store.getInstances_sound [OF assms pre_ok [OF ok], of i] pre_part [of s]
    by (auto simp: sound_result_def)
  then show "sound_result s (getInstances (wrap st) i s)"
    using post_i_ok [of s' i s r] by (auto simp: wrap_getInstances sound_result_def)
next
  fix s :: world and z :: string
  assume ok: "world_ok s"
  obtain r s' where "getServers st z (pre s) = Done (r, s')" "world_ok s'"
    "dns_part s' = dns_part s" "clock s' = clock s"
    using sound_store.getServers_sound [OF assms pre_ok [OF ok], of z] pre_part [of s]
    by (auto simp: sound_result_def)
  then show "sound_result s (getServers (wrap st) z s)"
    using post_s_ok [of s' z s r] by (auto simp: wrap_getServers sound_result_def)
qed

end

end
