(* ===== verification/Logging.thy ===== *)
theory Logging
  imports Agent_World
begin

text \<open>
  \<^verbatim>\<open>agent/logging.go\<close>: the logging response writer with its handler, and the logging store.
  Both are middleware: they pass the message, the error and the result of what they wrap through
  and add lines to the log.
\<close>

section \<open>The logging writer\<close>

definition question_fields :: "Msg \<Rightarrow> string \<times> string" where
  "question_fields res =
     (if 0 < length (Questions res) \<and> Qtype (Questions res ! 0) \<noteq> TypeNone
      then (TypeToString (Qtype (Questions res ! 0)), qName (Questions res ! 0))
      else (''empty'', ''empty''))"

definition loggingWriter :: "world ResponseWriter \<Rightarrow> int \<Rightarrow> world ResponseWriter" where
  "loggingWriter w start =
     \<lparr>RemoteAddr = RemoteAddr w,
      WriteMsg = (\<lambda>res s.
        run_bind (WriteMsg w res s) (\<lambda>(err, s1).
          let errField = (case err of None \<Rightarrow> [] | Some e \<Rightarrow> '' error: '' @ Error e);
              (qType, qName) = question_fields res;
              (took, s2) = time_Since start s1
          in Done (err,
               Printf ''DNS %dms %s %s %s %s %d%s''
                 [DArg (milliseconds took), SArg (addr_string (RemoteAddr w)), SArg qType,
                  SArg qName, SArg (RcodeToString (Rcode res)), DArg (int (length (Answer res))),
                  SArg errField] s2)))\<rparr>"

definition dnsLoggingHandler :: "world Handler \<Rightarrow> world Handler" where
  "dnsLoggingHandler next w r s =
     (let (now, s1) = time_Now s in next (loggingWriter w now) r s1)"

section \<open>The logging store\<close>

definition store_log ::
  "int \<Rightarrow> string \<Rightarrow> string \<Rightarrow> go_error option \<Rightarrow> world \<Rightarrow> world" where
  "store_log took op input err s =
     (case err of
        None \<Rightarrow> s
      | Some e \<Rightarrow>
          Printf ''STORE %dms %s %s error: %s''
            [DArg (milliseconds took), SArg op, SArg input, SArg (Error e)] s)"

definition newLoggingStore :: "world store \<Rightarrow> world store" where
  "newLoggingStore next =
     \<lparr>getInstances = (\<lambda>i s.
        let (start, s1) = time_Now s in
        run_bind (getInstances next i s1) (\<lambda>((ins, err), s2).
          let (took, s3) = time_Since start s2
          in Done ((ins, err), store_log took ''getInstances'' (addr i) err s3))),
      getServers = (\<lambda>z s.
        let (start, s1) = time_Now s in
        run_bind (getServers next z s1) (\<lambda>((ins, err), s2).
          let (took, s3) = time_Since start s2
          in Done ((ins, err), store_log took ''getServers'' z err s3)))\<rparr>"

section \<open>Properties\<close>

definition log_epilogue ::
  "string \<Rightarrow> string \<Rightarrow> world \<Rightarrow> instances \<times> go_error option \<Rightarrow> world \<Rightarrow> world run" where
  "log_epilogue op input s r s' =
     (let (took, s3) = time_Since (clock s (tick s)) s' in Done (store_log took op input (snd r) s3))"

lemma store_log_frame [simp]:
  "world_ok (store_log t op input err s) = world_ok s"
  "dns_part (store_log t op input err s) = dns_part s"
  "clock (store_log t op input err s) = clock s"
  by (auto simp: store_log_def Printf_def dns_part_def split: option.splits)

interpretation logging_mw: store_middleware newLoggingStore "\<lambda>s. s\<lparr>tick := Suc (tick s)\<rparr>"
  "\<lambda>i. log_epilogue ''getInstances'' (addr i)" "log_epilogue ''getServers''"
  by unfold_locales
     (auto simp: newLoggingStore_def time_Now_def time_Since_def log_epilogue_def
        Let_def run_bind_def split: run.splits)

text \<open>The lines of a logging store: one for an error, none for a success.\<close>

lemma store_log_logged:
  "logged (store_log t op input err s) = logged s @
    (case err of None \<Rightarrow> []
     | Some e \<Rightarrow> [Sprintf ''STORE %dms %s %s error: %s''
         [DArg (milliseconds t), SArg op, SArg input, SArg (Error e)]])"
  by (simp add: store_log_def Printf_def split: option.splits)

end
