(* ===== verification/Instrumentation.thy ===== *)
theory Instrumentation
  imports Agent_World
begin

text \<open>
  \<^verbatim>\<open>agent/instrumentation.go\<close>: the metrics handler with its caching writer, the metrics store,
  and the collector that exports the output of \<^verbatim>\<open>consul info\<close>.  Running a command is a
  parameter of the model; parsing its output is modelled in full.
\<close>

section \<open>The metrics handler\<close>

text \<open>\<open>cell\<close> is the address of the writer's field \<^verbatim>\<open>last\<close>.\<close>

definition cachingWriter :: "world ResponseWriter \<Rightarrow> nat \<Rightarrow> world ResponseWriter" where
  "cachingWriter w cell =
     \<lparr>RemoteAddr = RemoteAddr w,
      WriteMsg = (\<lambda>m s. WriteMsg w m (s\<lparr>lasts := (lasts s)[cell := Some m]\<rparr>))\<rparr>"

definition protocol_label :: "net_addr \<Rightarrow> string" where
  "protocol_label a =
     (case a of UDPAddr _ \<Rightarrow> ''udp'' | TCPAddr _ \<Rightarrow> ''tcp'' | OtherAddr _ \<Rightarrow> ''unknown'')"

definition dnsMetricsHandler :: "world Handler \<Rightarrow> world Handler" where
  "dnsMetricsHandler next w req s =
     (let cell = length (lasts s);
          s1 = s\<lparr>lasts := lasts s @ [None]\<rparr>;
          (start, s2) = time_Now s1;
          prot = protocol_label (RemoteAddr w);
          qtype = (if length (Questions req) = 1 then TypeToString (Qtype (Questions req ! 0))
                   else ''unknown'')
      in run_bind (next (cachingWriter w cell) req s2) (\<lambda>s3.
           let rcode = (case lasts s3 ! cell of
                          None \<Rightarrow> ''unknown''
                        | Some m \<Rightarrow> RcodeToString (Rcode m));
               (duration, s4) = time_Since start s3
           in run_bind (WithLabelValues (dnsDurations s4) [prot, qtype, rcode]) (\<lambda>(h, v).
                Done (s4\<lparr>dnsDurations := summary_Observe h (microseconds duration) v\<rparr>))))"

section \<open>The metrics store\<close>

definition trackStore :: "int \<Rightarrow> string \<Rightarrow> go_error option \<Rightarrow> world \<Rightarrow> world run" where
  "trackStore start op err s =
     (let (duration, s1) = time_Since start s;
          labels = [(''error'', case err of None \<Rightarrow> ''none'' | Some e \<Rightarrow> errToLabel e),
                    (''operation'', op)]
      in run_bind
           (case err of
              None \<Rightarrow> Done s1
            | Some e \<Rightarrow>
                run_bind (With (storeErrors s1) labels) (\<lambda>(h, v).
                  Done (s1\<lparr>storeErrors := counter_Inc h v\<rparr>)))
           (\<lambda>s2.
              run_bind (With (storeDurations s2) labels) (\<lambda>(h, v).
                Done (s2\<lparr>storeDurations := summary_Observe h (microseconds duration) v\<rparr>))))"

definition count_labels_of :: "info \<Rightarrow> Labels" where
  "count_labels_of i =
     [(''service'', service i), (''job'', job i), (''env'', env i), (''product'', product i),
      (''zone'', zone i), (''operation'', ''getInstances'')]"

definition newMetricsStore :: "world store \<Rightarrow> world store" where
  "newMetricsStore next =
     \<lparr>getInstances = (\<lambda>i s.
        let labels = count_labels_of i; (start, s1) = time_Now s in
        run_bind (getInstances next i s1) (\<lambda>((ins, err), s2).
          run_bind
            (if err \<noteq> None then
               run_bind (With (storeCounts s2) labels) (\<lambda>(h, v).
                 Done (s2\<lparr>storeCounts := gauge_Set h (f64 (int (length ins))) v\<rparr>))
             else Done s2)
            (\<lambda>s3.
               run_bind (trackStore start (label_value labels ''operation'') err s3) (\<lambda>s4.
                 Done ((ins, err), s4))))),
      getServers = (\<lambda>z s.
        let op = ''getServers''; (start, s1) = time_Now s in
        run_bind (getServers next z s1) (\<lambda>((ins, err), s2).
          run_bind (trackStore start op err s2) (\<lambda>s3. Done ((ins, err), s3))))\<rparr>"

section \<open>The collector for consul info\<close>

type_synonym consulStats = "string \<rightharpoonup> int"

datatype stats_error = StatsNum num_error | StatsTooLong | StatsCommand string

definition ignoredFields :: "string list" where
  "ignoredFields = [''arch'', ''os'', ''state'', ''version'', ''last_contact'']"

definition ignoredKeys :: "string list" where
  "ignoredKeys = [''build'']"

definition parse_value :: "string \<Rightarrow> num_error + int" where
  "parse_value v =
     (if v = ''true'' then Inr 1
      else if v = ''false'' then Inr 0
      else if v = ''never'' then Inr 0
      else ParseInt v)"

fun parse_lines :: "string \<Rightarrow> consulStats \<Rightarrow> string list \<Rightarrow> num_error + consulStats" where
  "parse_lines key stats [] = Inr stats"
| "parse_lines key stats (t # ts) =
     (let line = TrimSpace t;
          key = (if Contains line '':'' then TrimSuffix line '':'' else key)
      in if key \<in> set ignoredKeys then parse_lines key stats ts
         else if Contains line ''='' then
           let parts = SplitN line CHR ''='' 2;
               field = TrimSpace (parts ! 0);
               v = TrimSpace (parts ! 1);
               name = Join [key, field] ''_''
           in if field \<in> set ignoredFields then parse_lines key stats ts
              else (case parse_value v of
                      Inl e \<Rightarrow> Inl e
                    | Inr i \<Rightarrow> parse_lines key (stats(name \<mapsto> i)) ts)
         else parse_lines key stats ts)"

definition parseConsulStats :: "string \<Rightarrow> stats_error + consulStats" where
  "parseConsulStats b =
     (case ScanLines b of (ls, tooLong) \<Rightarrow>
        (case parse_lines [] Map.empty ls of
           Inl e \<Rightarrow> Inl (StatsNum e)
         | Inr stats \<Rightarrow> if tooLong then Inl StatsTooLong else Inr stats))"

text \<open>
  \<open>exec\<close> runs a command, given as its name and arguments, and returns its output or an error.
\<close>

type_synonym exec = "string \<Rightarrow> string list \<Rightarrow> string + string"

definition getConsulStats :: "exec \<Rightarrow> string \<Rightarrow> stats_error + consulStats" where
  "getConsulStats exec infoCmd =
     (let cmd = Split infoCmd CHR '' '' in
      case exec (cmd ! 0) (drop 1 cmd) of
        Inl e \<Rightarrow> Inl (StatsCommand e)
      | Inr output \<Rightarrow> parseConsulStats output)"

record consulCollector =
  c_info :: string
  c_metrics :: "string \<rightharpoonup> int"

definition newConsulCollector :: "string \<Rightarrow> consulCollector" where
  "newConsulCollector infoCmd = \<lparr>c_info = infoCmd, c_metrics = Map.empty\<rparr>"

text \<open>
  The loop of \<^verbatim>\<open>updateMetrics\<close> over the statistics sets every gauge that has a value, creating
  the missing ones; the order in which Go visits the map does not matter.
\<close>

definition updateMetrics :: "exec \<Rightarrow> consulCollector \<Rightarrow> stats_error option \<times> consulCollector" where
  "updateMetrics exec c =
     (case getConsulStats exec (c_info c) of
        Inl e \<Rightarrow> (Some e, c)
      | Inr stats \<Rightarrow>
          (None, c\<lparr>c_metrics := (\<lambda>n. case stats n of
                                    Some v \<Rightarrow> Some (f64 v)
                                  | None \<Rightarrow> c_metrics c n)\<rparr>))"

text \<open>The gauges sent to the metrics channel, by name, and the new state of the collector.\<close>

definition Collect :: "exec \<Rightarrow> consulCollector \<Rightarrow> (string \<rightharpoonup> int) \<times> consulCollector" where
  "Collect exec c =
     (case updateMetrics exec c of
        (Some e, c') \<Rightarrow> (Map.empty, c')
      | (None, c') \<Rightarrow> (c_metrics c', c'))"

text \<open>The names of the gauges whose descriptions are sent, as a predicate.\<close>

definition Describe :: "exec \<Rightarrow> consulCollector \<Rightarrow> (string \<Rightarrow> bool) \<times> consulCollector" where
  "Describe exec c =
     (case updateMetrics exec c of
        (Some e, c') \<Rightarrow> (\<lambda>n. False, c')
      | (None, c') \<Rightarrow> (\<lambda>n. c_metrics c' n \<noteq> None, c'))"

datatype pid_error = PidCommand string | PidParse num_error

definition consulAgentPid :: "exec \<Rightarrow> pid_error + int" where
  "consulAgentPid exec =
     (case exec ''pgrep'' [''-f'', ''consul agent''] of
        Inl e \<Rightarrow> Inl (PidCommand e)
      | Inr out \<Rightarrow>
          (case Atoi (TrimSpace out) of
             Inl e \<Rightarrow> Inl (PidParse e)
           | Inr pid \<Rightarrow> Inr pid))"

section \<open>Properties of the metrics store\<close>

lemma With_storeErrors:
  "variableLabels v = storeLabels \<Longrightarrow>
    With v [(''error'', e), (''operation'', op)] =
      (let h = fnv_write fnv_offset64 (e @ op) in Done (h, getOrCreateMetric v h [e, op]))"
  by (simp add: With_total storeLabels_def label_value_def Let_def)

lemma With_storeCounts:
  "variableLabels v = countLabels \<Longrightarrow>
    With v (count_labels_of i) =
      (let lvs = [service i, job i, env i, product i, zone i, ''getInstances''];
           h = fnv_write fnv_offset64 (concat lvs)
       in Done (h, getOrCreateMetric v h lvs))"
  by (simp add: With_total countLabels_def count_labels_of_def label_value_def Let_def)

lemma vec_inv_updates [intro]:
  "vec_inv v \<Longrightarrow> vec_inv (gauge_Set h x v)"
  "vec_inv w \<Longrightarrow> vec_inv (counter_Inc h w)"
  "vec_inv u \<Longrightarrow> vec_inv (summary_Observe h d u)"
  by (simp_all add: gauge_Set_def counter_Inc_def summary_Observe_def vec_inv_modify)

lemma updates_frame [simp]:
  "variableLabels (gauge_Set h x v) = variableLabels v"
  "variableLabels (counter_Inc h w) = variableLabels w"
  "variableLabels (summary_Observe h d u) = variableLabels u"
  by (simp_all add: gauge_Set_def counter_Inc_def summary_Observe_def)

text \<open>\<^const>\<open>trackStore\<close> does not panic in a well-formed world.\<close>

lemma trackStore_ok:
  assumes "world_ok s"
  shows "\<exists>s'. trackStore start op err s = Done s' \<and> world_ok s' \<and> dns_part s' = dns_part s \<and>
    clock s' = clock s \<and> storeCounts s' = storeCounts s \<and> logged s' = logged s"
  using assms
  by (auto simp: trackStore_def time_Since_def With_storeErrors Let_def world_ok_def dns_part_def
      storeLabels_def intro!: vec_inv_updates vec_inv_getOrCreate split: option.splits)

definition metrics_epilogue ::
  "info \<Rightarrow> world \<Rightarrow> instances \<times> go_error option \<Rightarrow> world \<Rightarrow> world run" where
  "metrics_epilogue i s r s2 =
     run_bind
       (if snd r \<noteq> None then
          run_bind (With (storeCounts s2) (count_labels_of i)) (\<lambda>(h, v).
            Done (s2\<lparr>storeCounts := gauge_Set h (f64 (int (length (fst r)))) v\<rparr>))
        else Done s2)
       (\<lambda>s3. trackStore (clock s (tick s)) ''getInstances'' (snd r) s3)"

lemma metrics_epilogue_ok:
  assumes "world_ok s2"
  shows "\<exists>s''. metrics_epilogue i s r s2 = Done s'' \<and> world_ok s'' \<and>
    dns_part s'' = dns_part s2 \<and> clock s'' = clock s2"
proof -
  define s3 where "s3 = (if snd r \<noteq> None then
      let lvs = [service i, job i, env i, product i, zone i, ''getInstances''];
          h = fnv_write fnv_offset64 (concat lvs)
      in s2\<lparr>storeCounts := gauge_Set h (f64 (int (length (fst r))))
           (getOrCreateMetric (storeCounts s2) h lvs)\<rparr> else s2)"
  have "metrics_epilogue i s r s2 = trackStore (clock s (tick s)) ''getInstances'' (snd r) s3"
    using assms by (auto simp: metrics_epilogue_def s3_def With_storeCounts world_ok_def Let_def)
  moreover have "world_ok s3" "dns_part s3 = dns_part s2" "clock s3 = clock s2"
    using assms
    by (auto simp: s3_def world_ok_def dns_part_def Let_def countLabels_def
        intro!: vec_inv_updates vec_inv_getOrCreate)
  ultimately show ?thesis using trackStore_ok [of s3] by metis
qed

interpretation metrics_mw: store_middleware newMetricsStore "\<lambda>s. s\<lparr>tick := Suc (tick s)\<rparr>"
  metrics_epilogue "\<lambda>z s r. trackStore (clock s (tick s)) ''getServers'' (snd r)"
proof
  show "getInstances (newMetricsStore st) i s =
      run_bind (getInstances st i (s\<lparr>tick := Suc (tick s)\<rparr>))
        (\<lambda>(r, s'). run_bind (metrics_epilogue i s r s') (\<lambda>s''. Done (r, s'')))" for st i s
    by (auto simp: newMetricsStore_def metrics_epilogue_def time_Now_def run_bind_assoc
        count_labels_of_def label_value_def Let_def intro!: arg_cong [where f = "run_bind _"])
  show "getServers (newMetricsStore st) z s =
      run_bind (getServers st z (s\<lparr>tick := Suc (tick s)\<rparr>))
        (\<lambda>(r, s'). run_bind (trackStore (clock s (tick s)) ''getServers'' (snd r) s')
           (\<lambda>s''. Done (r, s'')))" for st z s
    by (auto simp: newMetricsStore_def time_Now_def Let_def
        intro!: arg_cong [where f = "run_bind _"])
  show "\<exists>s''. trackStore (clock s (tick s)) ''getServers'' (snd r) s' = Done s'' \<and>
      world_ok s'' \<and> dns_part s'' = dns_part s' \<and> clock s'' = clock s'"
    if "world_ok s'" for s' s r
    using trackStore_ok [OF that] by blast
qed (simp_all add: metrics_epilogue_ok)

end
