(* ===== verification/Consul_Api.thy ===== *)
theory Consul_Api
  imports Agent_World
begin

text \<open>
  The part of Consul's API client (\<^verbatim>\<open>consul/api\<close>: \<^verbatim>\<open>api.go\<close>, \<^verbatim>\<open>health.go\<close>,
  \<^verbatim>\<open>agent.go\<close>) that the agent uses: how requests are built from the client's configuration and
  the query options, and how responses are turned into results or errors.  The HTTP exchange with
  the Consul agent and the JSON decoder are parameters (\<open>consul_env\<close>); the exchange may answer
  differently each time, which is why it also gets the number of the current clock reading.
  Elements of a decoded list are pointers and may be \<^verbatim>\<open>nil\<close>.
\<close>

section \<open>Data\<close>

record QueryOptions =
  qo_Datacenter :: string
  AllowStale :: bool
  RequireConsistent :: bool
  WaitIndex :: nat
  qo_WaitTime :: int
  qo_Token :: string

record Config =
  cfg_Address :: string
  cfg_Scheme :: string
  cfg_Datacenter :: string
  cfg_UnixSocket :: "string option"
  cfg_WaitTime :: int
  cfg_Token :: string

record request =
  req_method :: string
  req_scheme :: string
  req_host :: string
  req_path :: string
  req_params :: "string \<rightharpoonup> string"

record http_response =
  StatusCode :: int
  Body :: string

record Node =
  node_Node :: string
  node_Address :: string

record AgentService =
  svc_ID :: string
  svc_Service :: string
  svc_Tags :: "string list"
  svc_Port :: int
  svc_Address :: string

record ServiceEntry =
  se_Node :: "Node option"
  se_Service :: "AgentService option"

record AgentMember =
  mem_Name :: string
  mem_Addr :: string

record consul_env =
  http_exchange :: "nat \<Rightarrow> request \<Rightarrow> string + http_response"
  decodeEntries :: "string \<Rightarrow> string + ServiceEntry option list"
  decodeMembers :: "string \<Rightarrow> string + AgentMember option list"

section \<open>Clients\<close>

definition DefaultConfig :: "string \<Rightarrow> Config" where
  "DefaultConfig env_addr =
     \<lparr>cfg_Address = (if env_addr \<noteq> [] then env_addr else ''127.0.0.1:8500''),
      cfg_Scheme = ''http'', cfg_Datacenter = [], cfg_UnixSocket = None,
      cfg_WaitTime = 0, cfg_Token = []\<rparr>"

text \<open>
  \<open>env_addr\<close> is the environment variable \<^verbatim>\<open>CONSUL_HTTP_ADDR\<close>.  A Unix socket address is
  the part after the first \<^verbatim>\<open>unix://\<close>, and requests then go through that socket.
\<close>

definition NewClient :: "string \<Rightarrow> Config \<Rightarrow> Config" where
  "NewClient env_addr config =
     (let def = DefaultConfig env_addr;
          config = (if cfg_Address config = [] then config\<lparr>cfg_Address := cfg_Address def\<rparr> else config);
          config = (if cfg_Scheme config = [] then config\<lparr>cfg_Scheme := cfg_Scheme def\<rparr> else config);
          i = Index (cfg_Address config) ''unix://''
      in if 0 \<le> i then
           let sock = drop (nat i + 7) (cfg_Address config)
           in config\<lparr>cfg_UnixSocket := Some sock, cfg_Address := sock\<rparr>
         else config)"

section \<open>Requests\<close>

definition set_param :: "string \<Rightarrow> string \<Rightarrow> request \<Rightarrow> request" where
  "set_param k v r = r\<lparr>req_params := (req_params r)(k \<mapsto> v)\<rparr>"

definition durToMsec :: "int \<Rightarrow> string" where
  "durToMsec dur = Sprintf ''%dms'' [DArg (milliseconds dur)]"

definition newRequest :: "Config \<Rightarrow> string \<Rightarrow> string \<Rightarrow> request" where
  "newRequest c m path =
     (let r = \<lparr>req_method = m, req_scheme = cfg_Scheme c, req_host = cfg_Address c,
               req_path = path, req_params = Map.empty\<rparr>;
          r = (if cfg_Datacenter c \<noteq> [] then set_param ''dc'' (cfg_Datacenter c) r else r);
          r = (if cfg_WaitTime c \<noteq> 0 then set_param ''wait'' (durToMsec (cfg_WaitTime c)) r else r)
      in if cfg_Token c \<noteq> [] then set_param ''token'' (cfg_Token c) r else r)"

definition setQueryOptions :: "QueryOptions \<Rightarrow> request \<Rightarrow> request" where
  "setQueryOptions q r =
     (let r = (if qo_Datacenter q \<noteq> [] then set_param ''dc'' (qo_Datacenter q) r else r);
          r = (if AllowStale q then set_param ''stale'' [] r else r);
          r = (if RequireConsistent q then set_param ''consistent'' [] r else r);
          r = (if WaitIndex q \<noteq> 0 then set_param ''index'' (utoa (WaitIndex q)) r else r);
          r = (if qo_WaitTime q \<noteq> 0 then set_param ''wait'' (durToMsec (qo_WaitTime q)) r else r)
      in if qo_Token q \<noteq> [] then set_param ''token'' (qo_Token q) r else r)"

section \<open>Responses\<close>

text \<open>The exchange is timed by two readings of the clock.\<close>

definition doRequest ::
  "consul_env \<Rightarrow> request \<Rightarrow> world \<Rightarrow> (string + http_response) \<times> world" where
  "doRequest cenv r s =
     (let (start, s1) = time_Now s;
          resp = http_exchange cenv (tick s1) r;
          (now, s2) = time_Now s1
      in (resp, s2))"

definition requireOK :: "string + http_response \<Rightarrow> string + http_response" where
  "requireOK resp =
     (case resp of
        Inl e \<Rightarrow> Inl e
      | Inr h \<Rightarrow>
          if StatusCode h \<noteq> 200
          then Inl (Sprintf ''Unexpected response code: %d (%s)''
                 [DArg (StatusCode h), SArg (Body h)])
          else Inr h)"

definition health_request :: "Config \<Rightarrow> string \<Rightarrow> string \<Rightarrow> bool \<Rightarrow> QueryOptions \<Rightarrow> request" where
  "health_request c svc tag passingOnly q =
     (let r = newRequest c ''GET'' (''/v1/health/service/'' @ svc);
          r = setQueryOptions q r;
          r = (if tag \<noteq> [] then set_param ''tag'' tag r else r)
      in if passingOnly then set_param ''passing'' ''1'' r else r)"

definition health_Service ::
  "consul_env \<Rightarrow> Config \<Rightarrow> string \<Rightarrow> string \<Rightarrow> bool \<Rightarrow> QueryOptions \<Rightarrow> world \<Rightarrow>
    (string + ServiceEntry option list) \<times> world" where
  "health_Service cenv c svc tag passingOnly q s =
     (let (resp, s1) = doRequest cenv (health_request c svc tag passingOnly q) s in
      case requireOK resp of
        Inl e \<Rightarrow> (Inl e, s1)
      | Inr h \<Rightarrow> (decodeEntries cenv (Body h), s1))"

definition members_request :: "Config \<Rightarrow> bool \<Rightarrow> request" where
  "members_request c wan =
     (let r = newRequest c ''GET'' ''/v1/agent/members''
      in if wan then set_param ''wan'' ''1'' r else r)"

definition agent_Members ::
  "consul_env \<Rightarrow> Config \<Rightarrow> bool \<Rightarrow> world \<Rightarrow> (string + AgentMember option list) \<times> world" where
  "agent_Members cenv c wan s =
     (let (resp, s1) = doRequest cenv (members_request c wan) s in
      case requireOK resp of
        Inl e \<Rightarrow> (Inl e, s1)
      | Inr h \<Rightarrow> (decodeMembers cenv (Body h), s1))"

section \<open>Properties\<close>

lemma doRequest_state: "snd (doRequest cenv r s) = s\<lparr>tick := tick s + 2\<rparr>"
  by (simp add: doRequest_def time_Now_def Let_def)

lemma health_Service_state: "snd (health_Service cenv c svc t p q s) = s\<lparr>tick := tick s + 2\<rparr>"
  using doRequest_state [of cenv "health_request c svc t p q" s]
  by (auto simp: health_Service_def Let_def split: prod.splits sum.splits)

lemma agent_Members_state: "snd (agent_Members cenv c wan s) = s\<lparr>tick := tick s + 2\<rparr>"
  using doRequest_state [of cenv "members_request c wan" s]
  by (auto simp: agent_Members_def Let_def split: prod.splits sum.splits)

lemma set_param_simps [simp]:
  "req_params (set_param k v r) = (req_params r)(k \<mapsto> v)"
  "req_path (set_param k v r) = req_path r"
  "req_method (set_param k v r) = req_method r"
  "req_host (set_param k v r) = req_host r"
  by (simp_all add: set_param_def)

end
