(* ===== verification/Consul_Store.thy ===== *)
theory Consul_Store
  imports Consul_Api
begin

text \<open>
  \<^verbatim>\<open>agent/consul.go\<close>: the store that answers from Consul.
\<close>

section \<open>Operations\<close>

definition env_tag :: "info \<Rightarrow> string" where
  "env_tag i = Sprintf ''glimpse:env=%s'' [SArg (env i)]"

definition job_tag :: "info \<Rightarrow> string" where
  "job_tag i = Sprintf ''glimpse:job=%s'' [SArg (job i)]"

definition service_tag :: "info \<Rightarrow> string" where
  "service_tag i = Sprintf ''glimpse:service=%s'' [SArg (service i)]"

definition query_options :: "info \<Rightarrow> QueryOptions" where
  "query_options i =
     \<lparr>qo_Datacenter = zone i, AllowStale = True, RequireConsistent = False, WaitIndex = 0,
      qo_WaitTime = 0, qo_Token = []\<rparr>"

text \<open>The loop over the tags of a service, with its two flags.\<close>

fun tag_flags :: "string \<Rightarrow> string \<Rightarrow> string list \<Rightarrow> bool \<times> bool \<Rightarrow> bool \<times> bool" where
  "tag_flags envTag serviceTag [] flags = flags"
| "tag_flags envTag serviceTag (tag # tags) (isEnv, isService) =
     tag_flags envTag serviceTag tags (isEnv \<or> tag = envTag, isService \<or> tag = serviceTag)"

fun collect_instances ::
  "string \<Rightarrow> string \<Rightarrow> ServiceEntry option list \<Rightarrow> instances \<Rightarrow>
    (instances \<times> go_error option) run" where
  "collect_instances envTag serviceTag [] ins = Done (ins, None)"
| "collect_instances envTag serviceTag (None # es) ins = Panic NilDereference"
| "collect_instances envTag serviceTag (Some e # es) ins =
     (case se_Service e of
        None \<Rightarrow> Panic NilDereference
      | Some svc \<Rightarrow>
          let (isEnv, isService) = tag_flags envTag serviceTag (svc_Tags svc) (False, False) in
          (case se_Node e of
             None \<Rightarrow> Panic NilDereference
           | Some n \<Rightarrow>
               let a = ParseIP (node_Address n) in
               if a = [] then
                 Done ([], Some (newError errInvalidIP ''parse failed for %s'' [SArg (node_Address n)]))
               else
                 collect_instances envTag serviceTag es
                   (if isEnv \<and> isService
                    then ins @ [\<lparr>host = node_Node n, ip = a, port = of_int (svc_Port svc)\<rparr>]
                    else ins)))"

definition consul_getInstances ::
  "consul_env \<Rightarrow> Config \<Rightarrow> info \<Rightarrow> world \<Rightarrow> ((instances \<times> go_error option) \<times> world) run" where
  "consul_getInstances cenv c i s =
     (let (res, s1) = health_Service cenv c (product i) (job_tag i) True (query_options i) s in
      case res of
        Inl e \<Rightarrow>
          if Contains e ''No path to datacenter''
          then Done (([], Some (newError errNoInstances ''unknown zone %s'' [SArg (zone i)])), s1)
          else Done (([], Some (newError errConsulAPI ''%s'' [SArg e])), s1)
      | Inr entries \<Rightarrow>
          if length entries = 0
          then Done (([], Some (newError errNoInstances ''found for %s'' [SArg (addr i)])), s1)
          else run_bind (collect_instances (env_tag i) (service_tag i) entries [])
                 (\<lambda>r. Done (r, s1)))"

fun collect_servers ::
  "string \<Rightarrow> AgentMember option list \<Rightarrow> instances \<Rightarrow> (instances \<times> go_error option) run" where
  "collect_servers z [] ins = Done (ins, None)"
| "collect_servers z (None # ms) ins =
     Panic NilDereference"
| "collect_servers z (Some m # ms) ins =
     collect_servers z ms
       (if z = [] \<or> HasSuffix (mem_Name m) (''.'' @ z) then
          let i = LastIndex (mem_Name m) ''.'';
              n = (if 0 < i then take (nat i) (mem_Name m) else mem_Name m)
          in ins @ [\<lparr>host = n, ip = ParseIP (mem_Addr m), port = 0\<rparr>]
        else ins)"

definition consul_getServers ::
  "consul_env \<Rightarrow> Config \<Rightarrow> string \<Rightarrow> world \<Rightarrow> ((instances \<times> go_error option) \<times> world) run" where
  "consul_getServers cenv c z s =
     (let (res, s1) = agent_Members cenv c True s in
      case res of
        Inl e \<Rightarrow> Done (([], Some (newError errConsulAPI ''%s'' [SArg e])), s1)
      | Inr members \<Rightarrow> run_bind (collect_servers z members []) (\<lambda>r. Done (r, s1)))"

definition newConsulStore :: "consul_env \<Rightarrow> Config \<Rightarrow> world store" where
  "newConsulStore cenv c =
     \<lparr>getInstances = consul_getInstances cenv c, getServers = consul_getServers cenv c\<rparr>"

definition infoToTags :: "info \<Rightarrow> string list" where
  "infoToTags i =
     [Sprintf ''glimpse:env=%s'' [SArg (env i)],
      Sprintf ''glimpse:job=%s'' [SArg (job i)],
      Sprintf ''glimpse:product=%s'' [SArg (product i)],
      Sprintf ''glimpse:provider=%s'' [SArg (provider i)],
      Sprintf ''glimpse:service=%s'' [SArg (service i)]]"

section \<open>Specification of the two loops\<close>

text \<open>
  A complete entry is one without \<^verbatim>\<open>nil\<close> pointers.  The instance an entry describes, and when
  it belongs to an address.
\<close>

fun complete_entry :: "ServiceEntry option \<Rightarrow> bool" where
  "complete_entry None = False"
| "complete_entry (Some e) = (se_Node e \<noteq> None \<and> se_Service e \<noteq> None)"

definition entry_node :: "ServiceEntry option \<Rightarrow> Node" where
  "entry_node e = the (se_Node (the e))"

definition entry_service :: "ServiceEntry option \<Rightarrow> AgentService" where
  "entry_service e = the (se_Service (the e))"

definition entry_instance :: "ServiceEntry option \<Rightarrow> inst" where
  "entry_instance e =
     \<lparr>host = node_Node (entry_node e), ip = ParseIP (node_Address (entry_node e)),
      port = of_int (svc_Port (entry_service e))\<rparr>"

definition entry_matches :: "info \<Rightarrow> ServiceEntry option \<Rightarrow> bool" where
  "entry_matches i e \<longleftrightarrow>
     env_tag i \<in> set (svc_Tags (entry_service e)) \<and> service_tag i \<in> set (svc_Tags (entry_service e))"

definition entry_valid_ip :: "ServiceEntry option \<Rightarrow> bool" where
  "entry_valid_ip e \<longleftrightarrow> ParseIP (node_Address (entry_node e)) \<noteq> []"

lemma tag_flags_iff:
  "tag_flags et st tags (a, b) = (a \<or> et \<in> set tags, b \<or> st \<in> set tags)"
  by (induction tags arbitrary: a b) auto

lemma collect_instances_spec:
  assumes "\<forall>e \<in> set es. complete_entry e"
  shows "collect_instances (env_tag i) (service_tag i) es ins =
    Done (case find (\<lambda>e. \<not> entry_valid_ip e) es of
            None \<Rightarrow> (ins @ map entry_instance (filter (entry_matches i) es), None)
          | Some e \<Rightarrow> ([], Some (newError errInvalidIP ''parse failed for %s''
                       [SArg (node_Address (entry_node e))])))"
  using assms
proof (induction es arbitrary: ins)
  case (Cons e es)
  then obtain e' n svc where "e = Some e'" "se_Node e' = Some n" "se_Service e' = Some svc"
    by (cases e) auto
  note e = this
  have facts: "entry_valid_ip e \<longleftrightarrow> ParseIP (node_Address n) \<noteq> []" "entry_node e = n"
    "entry_matches i e \<longleftrightarrow> env_tag i \<in> set (svc_Tags svc) \<and> service_tag i \<in> set (svc_Tags svc)"
    "entry_instance e = \<lparr>host = node_Node n, ip = ParseIP (node_Address n), port = of_int (svc_Port svc)\<rparr>"
    by (simp_all add: e entry_valid_ip_def entry_matches_def entry_instance_def entry_node_def
        entry_service_def)
  have step: "collect_instances (env_tag i) (service_tag i) (e # es) ins =
    (if \<not> entry_valid_ip e
     then Done ([], Some (newError errInvalidIP ''parse failed for %s'' [SArg (node_Address (entry_node e))]))
     else collect_instances (env_tag i) (service_tag i) es
            (if entry_matches i e then ins @ [entry_instance e] else ins))"
    unfolding facts by (simp add: e tag_flags_iff Let_def)
  show ?case
    using Cons.IH Cons.prems by (simp add: step split: option.splits)
qed simp

definition server_in_zone :: "string \<Rightarrow> AgentMember \<Rightarrow> bool" where
  "server_in_zone z m \<longleftrightarrow> z = [] \<or> HasSuffix (mem_Name m) (''.'' @ z)"

definition server_name :: "string \<Rightarrow> string" where
  "server_name n = (if 0 < LastIndex n ''.'' then take (nat (LastIndex n ''.'')) n else n)"

definition member_instance :: "AgentMember \<Rightarrow> inst" where
  "member_instance m = \<lparr>host = server_name (mem_Name m), ip = ParseIP (mem_Addr m), port = 0\<rparr>"

lemma collect_servers_spec:
  "collect_servers z (map Some ms) ins =
    Done (ins @ map member_instance (filter (server_in_zone z) ms), None)"
  by (induction ms arbitrary: ins)
     (auto simp: server_in_zone_def member_instance_def server_name_def Let_def)

lemma server_name_zone:
  assumes "CHR ''.'' \<notin> set z" "n \<noteq> []"
  shows "server_name (n @ ''.'' @ z) = n"
proof -
  have eq: "LastIndex z ''.'' = - 1" if "CHR ''.'' \<notin> set z" for z
    using that by (induction z) (auto simp: Let_def HasPrefix_def)
  have "LastIndex (n @ ''.'' @ z) ''.'' = int (length n)"
    using assms(1) by (induction n) (auto simp: Let_def HasPrefix_def eq)
  then show ?thesis using assms(2) by (simp add: server_name_def)
qed

section \<open>Tags\<close>

lemma tags_unfold:
  "env_tag i = ''glimpse:env='' @ env i"
  "job_tag i = ''glimpse:job='' @ job i"
  "service_tag i = ''glimpse:service='' @ service i"
  by (simp_all add: env_tag_def job_tag_def service_tag_def)

lemma infoToTags_unfold:
  "infoToTags i = [''glimpse:env='' @ env i, ''glimpse:job='' @ job i,
     ''glimpse:product='' @ product i, ''glimpse:provider='' @ provider i,
     ''glimpse:service='' @ service i]"
  by (simp add: infoToTags_def)

lemma infoToTags_mem:
  "env_tag i \<in> set (infoToTags j) \<longleftrightarrow> env i = env j"
  "job_tag i \<in> set (infoToTags j) \<longleftrightarrow> job i = job j"
  "service_tag i \<in> set (infoToTags j) \<longleftrightarrow> service i = service j"
  by (simp_all add: infoToTags_unfold tags_unfold)

section \<open>Soundness of the store\<close>

text \<open>
  The store is sound when the decoder never produces \<^verbatim>\<open>nil\<close> pointers, as documented for the
  Consul API, whose lists hold objects with all these fields.
\<close>

definition complete_decoder :: "consul_env \<Rightarrow> bool" where
  "complete_decoder cenv \<longleftrightarrow>
     (\<forall>b es. decodeEntries cenv b = Inr es \<longrightarrow> (\<forall>e \<in> set es. complete_entry e)) \<and>
     (\<forall>b ms. decodeMembers cenv b = Inr ms \<longrightarrow> None \<notin> set ms)"

lemma members_complete:
  "complete_decoder cenv \<Longrightarrow> decodeMembers cenv b = Inr ms \<Longrightarrow> \<exists>ms'. ms = map Some ms'"
proof -
  assume "complete_decoder cenv" "decodeMembers cenv b = Inr ms"
  then have "None \<notin> set ms" by (auto simp: complete_decoder_def)
  then have "ms = map Some (map the ms)" by (induction ms) auto
  then show ?thesis by blast
qed

lemma agent_Members_complete:
  "complete_decoder cenv \<Longrightarrow> fst (agent_Members cenv c w s) = Inr ms \<Longrightarrow> \<exists>ms'. ms = map Some ms'"
  using members_complete
  by (auto simp: agent_Members_def Let_def split: prod.splits sum.splits)

lemma health_Service_complete:
  "complete_decoder cenv \<Longrightarrow> fst (health_Service cenv c svc t p q s) = Inr es \<Longrightarrow>
    \<forall>e \<in> set es. complete_entry e"
  by (auto simp: health_Service_def complete_decoder_def Let_def split: prod.splits sum.splits)

lemma consul_getInstances_state:
  "consul_getInstances cenv c i s = Done (r, s') \<Longrightarrow> s' = s\<lparr>tick := tick s + 2\<rparr>"
  using health_Service_state [of cenv c "product i" "job_tag i" True "query_options i" s]
  by (auto simp: consul_getInstances_def Let_def run_bind_Done_iff
      split: prod.splits sum.splits if_splits)

lemma consul_getServers_state:
  "consul_getServers cenv c z s = Done (r, s') \<Longrightarrow> s' = s\<lparr>tick := tick s + 2\<rparr>"
  using agent_Members_state [of cenv c True s]
  by (auto simp: consul_getServers_def Let_def run_bind_Done_iff split: prod.splits sum.splits)

lemma consul_getInstances_returns:
  assumes "complete_decoder cenv"
  shows "\<not> panics (consul_getInstances cenv c i s)"
proof (cases "fst (health_Service cenv c (product i) (job_tag i) True (query_options i) s)")
  case (Inr es)
  then show ?thesis
    using collect_instances_spec [OF health_Service_complete [OF assms Inr]]
    by (auto simp: consul_getInstances_def Let_def case_prod_beta)
qed (auto simp: consul_getInstances_def Let_def case_prod_beta)

lemma consul_getServers_returns:
  assumes "complete_decoder cenv"
  shows "\<not> panics (consul_getServers cenv c z s)"
proof (cases "fst (agent_Members cenv c True s)")
  case (Inr ms)
  then obtain ms' where "ms = map Some ms'" using agent_Members_complete [OF assms] by blast
  then show ?thesis
    using Inr by (auto simp: consul_getServers_def Let_def case_prod_beta collect_servers_spec)
qed (auto simp: consul_getServers_def Let_def case_prod_beta)

lemma consul_store_sound:
  assumes "complete_decoder cenv"
  shows "sound_store (newConsulStore cenv c)"
proof
  fix s :: world assume ok: "world_ok s"
  show "sound_result s (getInstances (newConsulStore cenv c) i s)" for i
    using consul_getInstances_returns [OF assms, of c i s] consul_getInstances_state ok
    by (fastforce simp: newConsulStore_def sound_result_def not_panics_iff)
  show "sound_result s (getServers (newConsulStore cenv c) z s)" for z
    using consul_getServers_returns [OF assms, of c z s] consul_getServers_state ok
    by (fastforce simp: newConsulStore_def sound_result_def not_panics_iff)
qed

text \<open>
  The environments with a complete decoder as a type, over which the contract of stores is
  interpreted for the store of the agent.
\<close>

typedef complete_env = "{cenv. complete_decoder cenv}"
  morphisms env_of make_env
proof
  show "\<lparr>http_exchange = (\<lambda>_ _. Inl []), decodeEntries = (\<lambda>_. Inl []), decodeMembers = (\<lambda>_. Inl [])\<rparr> \<in>
      {cenv. complete_decoder cenv}"
    by (simp add: complete_decoder_def)
qed

lemma env_of_complete: "complete_decoder (env_of e)"
  using env_of by simp

interpretation consul_store: sound_store "newConsulStore (env_of e) c" for e c
  by (rule consul_store_sound) (rule env_of_complete)

end
