(* ===== verification/Instance_Sort.thy ===== *)
theory Instance_Sort
  imports Types
begin

text \<open>
  Sorting of instances with \<^verbatim>\<open>sort.Sort\<close>.  What the DNS handler relies on is the documented
  contract of \<^verbatim>\<open>sort.Sort\<close> for the agent's \<^verbatim>\<open>Less\<close>: the result is a rearrangement in which no
  element is less than its predecessor.  The contract is the locale \<open>host_sort\<close>; the order of
  instances with equal host names is left open by it.  It is interpreted on the insertion sort that
  \<^verbatim>\<open>sort.Sort\<close> runs on short slices, over the agent's own \<open>Len\<close>, \<open>Less\<close> and
  \<open>Swap\<close>.
\<close>

definition sorted_instances :: "instances \<Rightarrow> bool" where
  "sorted_instances xs \<longleftrightarrow> (\<forall>i. Suc i < Len xs \<longrightarrow> \<not> Less xs (Suc i) i)"

lemma sorted_instances_iff: "sorted_instances xs \<longleftrightarrow> sorted (map host xs)"
  by (auto simp: sorted_instances_def Len_def Less_def sorted_iff_nth_Suc not_less)

locale host_sort =
  fixes srt :: "instances \<Rightarrow> instances"
  assumes mset_srt: "mset (srt xs) = mset xs"
    and sorted_srt: "sorted_instances (srt xs)"
begin

lemma length_srt [simp]: "length (srt xs) = length xs"
  using mset_srt by (metis size_mset)

lemma set_srt [simp]: "set (srt xs) = set xs"
  using mset_srt by (metis set_mset_mset)

lemma hosts_srt: "map host (srt xs) = sort (map host xs)"
proof (rule properties_for_sort [symmetric])
  show "mset (map host (srt xs)) = mset (map host xs)" by (simp add: mset_srt)
  show "sorted (map host (srt xs))" using sorted_srt by (simp add: sorted_instances_iff)
qed

text \<open>With distinct host names the contract determines the result.\<close>

lemma srt_distinct:
  assumes "distinct (map host xs)"
  shows "srt xs = sort_key host xs"
proof (rule map_sorted_distinct_set_unique [where f = host])
  show "inj_on host (set (srt xs) \<union> set (sort_key host xs))"
    using assms by (simp add: distinct_map)
  show "sorted (map host (srt xs))" "distinct (map host (srt xs))"
    using assms by (simp_all add: hosts_srt)
  show "sorted (map host (sort_key host xs))" by simp
  show "distinct (map host (sort_key host xs))"
    using assms by (simp add: distinct_map)
  show "set (srt xs) = set (sort_key host xs)" by simp
qed

end

section \<open>Insertion sort over Len, Less and Swap\<close>

fun sift :: "nat \<Rightarrow> instances \<Rightarrow> instances" where
  "sift 0 xs = xs"
| "sift (Suc j) xs = (if Less xs (Suc j) j then sift j (Swap xs (Suc j) j) else xs)"

definition insertionSort :: "instances \<Rightarrow> instances" where
  "insertionSort xs = foldl (\<lambda>ys i. sift i ys) xs [1..<Len xs]"

lemma Less_at: "Less (ys @ y # x # zs) (Suc (length ys)) (length ys) \<longleftrightarrow> host x < host y"
  by (simp add: Less_def nth_append)

lemma Swap_at: "Swap (ys @ y # x # zs) (Suc (length ys)) (length ys) = ys @ x # y # zs"
  by (simp add: Swap_def nth_append list_update_append)

lemma sift_inserts:
  "sorted (map host ys) \<Longrightarrow>
    \<exists>us. sift (length ys) (ys @ x # zs) = us @ zs \<and> mset us = add_mset x (mset ys) \<and>
      sorted (map host us)"
proof (induction ys arbitrary: zs rule: rev_induct)
  case Nil
  then show ?case by (intro exI [of _ "[x]"]) simp
next
  case (snoc y ys)
  then have ys: "sorted (map host ys)" and le: "\<forall>v \<in> set ys. host v \<le> host y"
    by (auto simp: sorted_append)
  show ?case
  proof (cases "host x < host y")
    case True
    obtain us where us: "sift (length ys) (ys @ x # y # zs) = us @ y # zs"
      "mset us = add_mset x (mset ys)" "sorted (map host us)"
      using snoc.IH [OF ys, of "y # zs"] by blast
    have "set us = insert x (set ys)" using us(2) by (metis set_mset_add_mset_insert set_mset_mset)
    then have "sorted (map host (us @ [y]))"
      using us(3) le True by (auto simp: sorted_append)
    moreover have "sift (length (ys @ [y])) ((ys @ [y]) @ x # zs) = (us @ [y]) @ zs"
      using True us(1) by (simp add: Less_at Swap_at)
    ultimately show ?thesis using us(2) by (intro exI [of _ "us @ [y]"]) simp
  next
    case False
    then have "sorted (map host (ys @ [y, x]))" using snoc.prems by (auto simp: sorted_append)
    then show ?thesis using False by (intro exI [of _ "ys @ [y, x]"]) (simp add: Less_at)
  qed
qed

lemma insertionSort_prefix:
  "i < length xs \<Longrightarrow>
    \<exists>us. foldl (\<lambda>ys i. sift i ys) xs [1..<Suc i] = us @ drop (Suc i) xs \<and>
      mset us = mset (take (Suc i) xs) \<and> sorted (map host us)"
proof (induction i)
  case 0
  then show ?case by (cases xs) (auto intro: exI [of _ "[hd xs]"])
next
  case (Suc i)
  then obtain us where us: "foldl (\<lambda>ys i. sift i ys) xs [1..<Suc i] = us @ drop (Suc i) xs"
    "mset us = mset (take (Suc i) xs)" "sorted (map host us)"
    by auto
  have len: "length us = Suc i" using us(2) Suc.prems by (metis length_take min.absorb2 less_imp_le size_mset)
  have d: "drop (Suc i) xs = xs ! Suc i # drop (Suc (Suc i)) xs"
    using Suc.prems by (simp add: Cons_nth_drop_Suc)
  obtain vs where "sift (Suc i) (us @ drop (Suc i) xs) = vs @ drop (Suc (Suc i)) xs"
    "mset vs = add_mset (xs ! Suc i) (mset us)" "sorted (map host vs)"
    using sift_inserts [OF us(3), of "xs ! Suc i"] len d by metis
  then show ?case
    using us(1,2) Suc.prems by (intro exI [of _ vs]) (simp add: take_Suc_conv_app_nth)
qed

lemma insertionSort_sorts: "mset (insertionSort xs) = mset xs \<and> sorted (map host (insertionSort xs))"
proof (cases xs)
  case (Cons a as)
  then show ?thesis
    using insertionSort_prefix [of "length xs - 1" xs] by (auto simp: insertionSort_def Len_def)
qed (simp add: insertionSort_def Len_def)

interpretation go_sort: host_sort insertionSort
  by unfold_locales (simp_all add: insertionSort_sorts sorted_instances_iff)

end
