(* ===== verification/Dns_Handler.thy ===== *)
theory Dns_Handler
  imports Agent_World Instance_Sort
begin

text \<open>
  \<^verbatim>\<open>agent/dns.go\<close>: the handler that answers questions from a store, and the writer that limits
  the number of answers sent over UDP.  The function \<^verbatim>\<open>sort.Sort\<close> that orders the name servers is
  an argument \<open>srt\<close> of the model; what is used of it is the contract \<open>host_sort\<close>.
\<close>

section \<open>Constants and questions\<close>

definition defaultTTL :: uint32 where
  "defaultTTL = 5"

definition defaultInvalidTTL :: uint32 where
  "defaultInvalidTTL = 86400"

definition digit_class :: "(nat \<times> nat) list" where
  "digit_class = [(48, 57)]"

definition ns_digits :: rexp where
  "ns_digits = Seq (Lit CHR ''n'') (Seq (Lit CHR ''s'') (Plus (Class digit_class)))"

definition serviceQuestionRE :: rexp where
  "serviceQuestionRE =
     Seq (Rep 4 (Seq (Plus (Class field_class)) (Lit CHR ''.''))) (Rep 2 (Class alnum_class))"

definition serverQuestionRE :: rexp where
  "serverQuestionRE =
     Opt (Alt ns_digits (Seq (Opt (Seq ns_digits (Lit CHR ''.''))) (Rep 2 (Class alnum_class))))"

definition nameserverRE :: rexp where
  "nameserverRE = ns_digits"

record dnsHandler =
  h_store :: "world store"
  h_domain :: string

definition newDNSHandler :: "world store \<Rightarrow> string \<Rightarrow> dnsHandler" where
  "newDNSHandler st d = \<lparr>h_store = st, h_domain = d\<rparr>"

section \<open>Records\<close>

definition newResponse :: "Msg \<Rightarrow> Msg" where
  "newResponse req = (SetReply empty_Msg req)\<lparr>Compress := True, RecursionAvailable := False\<rparr>"

definition newRR :: "Question \<Rightarrow> inst \<Rightarrow> RR run" where
  "newRR q i =
     (let hdr = \<lparr>hdrName = qName q, Rrtype = Qtype q, hdrClass = ClassINET, Ttl = defaultTTL,
                 Rdlength = 0\<rparr>
      in if Qtype q = TypeA then Done (RR_A \<lparr>a_Hdr = hdr, a_A = ip i\<rparr>)
         else if Qtype q = TypeSRV then Done (RR_SRV
        \<lparr>srv_Hdr = hdr, srv_Priority = 0, srv_Weight = 0, srv_Port = port i,
         srv_Target = Fqdn (host i)\<rparr>)
         else if Qtype q = TypeNS then Done (RR_NS \<lparr>ns_Hdr = hdr, ns_Ns = Fqdn (host i)\<rparr>)
         else Panic (PanicError ''unreachable''))"

text \<open>\<open>now\<close> is in nanoseconds; \<^verbatim>\<open>Unix()\<close> is in seconds and its conversion wraps around.\<close>

definition newSOA :: "Question \<Rightarrow> string \<Rightarrow> uint32 \<Rightarrow> world \<Rightarrow> RR \<times> world" where
  "newSOA q d ttl s =
     (let (now, s1) = time_Now s in
      (RR_SOA
         \<lparr>soa_Hdr = \<lparr>hdrName = qName q, Rrtype = TypeSOA, hdrClass = ClassINET, Ttl = ttl,
                     Rdlength = 0\<rparr>,
          soa_Ns = ''ns0.'' @ d, soa_Mbox = ''hostmaster.'' @ d,
          soa_Serial = of_int (now div 1000000000), soa_Refresh = 3600, soa_Retry = 600,
          soa_Expire = 86400, soa_Minttl = defaultTTL\<rparr>,
       s1))"

section \<open>Responses\<close>

fun append_rrs :: "Question \<Rightarrow> instances \<Rightarrow> RR list \<Rightarrow> RR list run" where
  "append_rrs q [] rrs = Done rrs"
| "append_rrs q (i # ins) rrs =
     run_bind (newRR q i) (\<lambda>rr. append_rrs q ins (rrs @ [rr]))"

definition serviceResponse ::
  "dnsHandler \<Rightarrow> string \<Rightarrow> Question \<Rightarrow> Msg \<Rightarrow> world \<Rightarrow> (Msg \<times> world) run" where
  "serviceResponse h name q res s =
     (if Qtype q \<noteq> TypeA \<and> Qtype q \<noteq> TypeSRV then Done (res, s)
      else
        (case infoFromAddr name of
           Inl _ \<Rightarrow> Done (res\<lparr>Rcode := RcodeNameError\<rparr>, s)
         | Inr srv \<Rightarrow>
             run_bind (getInstances (h_store h) srv s) (\<lambda>((ins, err), s1).
               case err of
                 Some e \<Rightarrow>
                   if isNoInstances e then Done (res\<lparr>Rcode := RcodeNameError\<rparr>, s1)
                   else Done (res\<lparr>Rcode := RcodeServerFailure\<rparr>, s1)
               | None \<Rightarrow>
                   run_bind (append_rrs q ins (Answer res)) (\<lambda>rrs.
                     Done (res\<lparr>Answer := rrs\<rparr>, s1)))))"

definition parseServerQuestion :: "string \<Rightarrow> string \<times> string" where
  "parseServerQuestion name =
     (case Split name CHR ''.'' of
        [f] \<Rightarrow> if MatchString nameserverRE f then (f, []) else ([], f)
      | [f, g] \<Rightarrow> (f, g)
      | _ \<Rightarrow> ([], []))"

fun append_ns :: "Question \<Rightarrow> nat \<Rightarrow> instances \<Rightarrow> RR list \<Rightarrow> RR list run" where
  "append_ns q i [] rrs = Done rrs"
| "append_ns q i (server # servers) rrs =
     run_bind (newRR q (server\<lparr>host := Sprintf ''ns%d.%s'' [DArg (int i), SArg (qName q)]\<rparr>))
       (\<lambda>rr. append_ns q (Suc i) servers (rrs @ [rr]))"

definition serverResponse ::
  "(instances \<Rightarrow> instances) \<Rightarrow> dnsHandler \<Rightarrow> string \<Rightarrow> Question \<Rightarrow> Msg \<Rightarrow> world \<Rightarrow> (Msg \<times> world) run" where
  "serverResponse srt h name q res s =
     (if Qtype q \<noteq> TypeA \<and> Qtype q \<noteq> TypeNS then Done (res, s)
      else
        let (ns, z) = parseServerQuestion name in
        if ns \<noteq> [] \<and> Qtype q = TypeNS then Done (res, s)
        else
          run_bind (getServers (h_store h) z s) (\<lambda>((servers, err), s1).
            if (case err of None \<Rightarrow> False | Some e \<Rightarrow> \<not> isNoInstances e)
            then Done (res\<lparr>Rcode := RcodeServerFailure\<rparr>, s1)
            else
              let servers = srt servers in
              if ns = [] then
                run_bind (append_ns q 0 servers (Answer res)) (\<lambda>rrs. Done (res\<lparr>Answer := rrs\<rparr>, s1))
              else if length ns < 2 then Panic SliceBounds
              else
                (case Atoi (drop 2 ns) of
                   Inl _ \<Rightarrow> Done (res\<lparr>Rcode := RcodeNameError\<rparr>, s1)
                 | Inr index \<Rightarrow>
                     if int (length servers) \<le> index then Done (res, s1)
                     else if index < 0 then Panic IndexOutOfRange
                     else run_bind (newRR q (servers ! nat index)) (\<lambda>rr.
                            Done (res\<lparr>Answer := Answer res @ [rr]\<rparr>, s1)))))"

section \<open>The handler\<close>

text \<open>The name of a question without the domain of the agent.\<close>

definition trim_domain :: "string \<Rightarrow> string \<Rightarrow> string" where
  "trim_domain n d =
     (let i = LastIndex n (''.'' @ d) in if 0 < i then take (nat i) n else [])"

definition ServeDNS :: "(instances \<Rightarrow> instances) \<Rightarrow> dnsHandler \<Rightarrow> world Handler" where
  "ServeDNS srt h w req s =
     (let res = newResponse req in
      if 1 < length (Questions req) then write_drop w (res\<lparr>Rcode := RcodeNotImplemented\<rparr>) s
      else
        (case Questions req of
           [] \<Rightarrow> Panic IndexOutOfRange
         | q # _ \<Rightarrow>
             if \<not> HasSuffix (qName q) (h_domain h)
             then write_drop w (res\<lparr>Rcode := RcodeNameError\<rparr>) s
             else
               let res = res\<lparr>Authoritative := True\<rparr>;
                   name = trim_domain (qName q) (h_domain h)
               in run_bind
                    (if MatchString serviceQuestionRE name then serviceResponse h name q res s
                     else if MatchString serverQuestionRE name then serverResponse srt h name q res s
                     else
                       let (soa, s1) = newSOA q (h_domain h) defaultInvalidTTL s
                       in Done (res\<lparr>Rcode := RcodeNameError, Extra := Extra res @ [soa]\<rparr>, s1))
                    (\<lambda>(m, s1). write_drop w m s1)))"

section \<open>Truncation\<close>

definition truncate_msg :: "net_addr \<Rightarrow> int \<Rightarrow> Msg \<Rightarrow> Msg run" where
  "truncate_msg a maxAnswers m =
     (case a of
        UDPAddr _ \<Rightarrow>
          if maxAnswers < int (length (Answer m)) then
            if maxAnswers < 0 then Panic SliceBounds
            else Done (m\<lparr>Answer := take (nat maxAnswers) (Answer m), Truncated := True\<rparr>)
          else Done m
      | _ \<Rightarrow> Done m)"

definition truncatingWriter :: "world ResponseWriter \<Rightarrow> int \<Rightarrow> world ResponseWriter" where
  "truncatingWriter w maxAnswers =
     \<lparr>RemoteAddr = RemoteAddr w,
      WriteMsg = (\<lambda>m s. run_bind (truncate_msg (RemoteAddr w) maxAnswers m) (\<lambda>m'. WriteMsg w m' s))\<rparr>"

definition protocolHandler :: "int \<Rightarrow> world Handler \<Rightarrow> world Handler" where
  "protocolHandler maxAnswers next w r s = next (truncatingWriter w maxAnswers) r s"

section \<open>The languages of the expressions\<close>

definition is_ns :: "string \<Rightarrow> bool" where
  "is_ns s \<longleftrightarrow> (\<exists>ds. s = ''ns'' @ ds \<and> ds \<noteq> [] \<and> (\<forall>c \<in> set ds. is_digit c))"

lemma in_digit_class [simp]: "in_class digit_class c \<longleftrightarrow> is_digit c"
  by (simp add: in_class_def digit_class_def is_digit_def)

lemma digit_no_dot [simp]: "\<not> is_digit CHR ''.''"
  by (simp add: is_digit_def)

lemma in_lang_ns_digits: "in_lang ns_digits s \<longleftrightarrow> is_ns s"
  by (auto simp: ns_digits_def is_ns_def in_lang_forms)

lemma MatchString_nameserverRE [go_simps]: "MatchString nameserverRE s \<longleftrightarrow> is_ns s"
  by (simp add: MatchString_in_lang nameserverRE_def in_lang_ns_digits)

lemma ns_no_dot: "is_ns s \<Longrightarrow> CHR ''.'' \<notin> set s"
  using digit_no_dot by (fastforce simp: is_ns_def)

lemma ns_length: "is_ns s \<Longrightarrow> 2 < length s"
  by (auto simp: is_ns_def)

lemma ns_not_zone: "is_ns s \<Longrightarrow> \<not> valid_zone s"
  using ns_length by (fastforce simp: valid_zone_def)

lemma in_lang_field_dot:
  "in_lang (Seq (Seq (Plus (Class field_class)) (Lit CHR ''.'')) r) s \<longleftrightarrow>
    (\<exists>f t. valid_field f \<and> in_lang r t \<and> s = f @ CHR ''.'' # t)" (is "?L \<longleftrightarrow> ?R")
proof
  assume ?R
  then obtain f t where f: "valid_field f" "in_lang r t" "s = (f @ ''.'') @ t" by auto
  have "in_lang (Plus (Class field_class)) f" "in_lang (Lit CHR ''.'') ''.''"
    using f(1) by (simp_all add: in_lang_forms valid_field_def)
  then show ?L using f(2,3) in_lang.in_Seq by metis
qed (fastforce simp: in_lang_Seq_iff in_lang_forms valid_field_def)

lemma in_lang_Seq_assoc: "in_lang (Seq (Seq p q) r) s \<longleftrightarrow> in_lang (Seq p (Seq q r)) s"
proof
  assume "in_lang (Seq (Seq p q) r) s"
  then obtain a b c where "in_lang p a" "in_lang q b" "in_lang r c" "s = a @ b @ c"
    by (auto simp: in_lang_Seq_iff)
  then show "in_lang (Seq p (Seq q r)) s" by (simp add: in_lang.in_Seq)
next
  assume "in_lang (Seq p (Seq q r)) s"
  then obtain a b c where "in_lang p a" "in_lang q b" "in_lang r c" "s = (a @ b) @ c"
    by (auto simp: in_lang_Seq_iff)
  then show "in_lang (Seq (Seq p q) r) s" by (blast intro: in_lang.in_Seq)
qed

lemma in_lang_Seq_Empty: "in_lang (Seq Empty r) s \<longleftrightarrow> in_lang r s"
  using in_lang.in_Seq [OF in_lang.in_Empty] by (fastforce simp: in_lang_Seq_iff)

lemma in_lang_zone: "in_lang (Rep 2 (Class alnum_class)) z \<longleftrightarrow> valid_zone z"
  by (simp add: in_lang_forms valid_zone_def)

lemma in_lang_service:
  "in_lang serviceQuestionRE s \<longleftrightarrow>
    (\<exists>a t1. valid_field a \<and> (\<exists>b t2. valid_field b \<and> (\<exists>c t3. valid_field c \<and>
      (\<exists>d z. valid_field d \<and> valid_zone z \<and> t3 = d @ CHR ''.'' # z) \<and>
      t2 = c @ CHR ''.'' # t3) \<and> t1 = b @ CHR ''.'' # t2) \<and> s = a @ CHR ''.'' # t1)"
proof -
  have four: "Rep 4 r = Seq r (Seq r (Seq r (Seq r Empty)))" for r by (simp add: numeral_eq_Suc)
  show ?thesis
    unfolding serviceQuestionRE_def four
    by (simp only: in_lang_Seq_assoc [of "Seq (Plus (Class field_class)) (Lit CHR ''.'')"]
        in_lang_field_dot in_lang_Seq_Empty in_lang_zone)
qed

text \<open>A name has the form of a service exactly if the address parser accepts it.\<close>

lemma MatchString_service [go_simps]:
  "MatchString serviceQuestionRE s \<longleftrightarrow> (\<exists>i. infoFromAddr s = Inr i)"
proof
  assume "MatchString serviceQuestionRE s"
  then obtain a b c d z where s: "s = a @ ''.'' @ b @ ''.'' @ c @ ''.'' @ d @ ''.'' @ z"
    and v: "valid_field a" "valid_field b" "valid_field c" "valid_field d" "valid_zone z"
    by (auto simp: MatchString_in_lang in_lang_service)
  let ?i = "\<lparr>env = c, job = b, product = d, provider = [], service = a, zone = z\<rparr>"
  have "valid_info ?i" using v by (simp add: valid_info_def)
  moreover have "addr ?i = s" using s v zone_not_Nil by (simp add: addr_parts)
  ultimately show "\<exists>i. infoFromAddr s = Inr i" using infoFromAddr_iff by blast
next
  assume "\<exists>i. infoFromAddr s = Inr i"
  then obtain i where v: "valid_info i" and s: "addr i = s" using infoFromAddr_iff by blast
  have eq: "s = service i @ CHR ''.'' # job i @ CHR ''.'' # env i @ CHR ''.'' # product i @
      CHR ''.'' # zone i"
    using s v addr_parts zone_not_Nil by (auto simp: valid_info_def)
  show "MatchString serviceQuestionRE s"
    unfolding MatchString_in_lang in_lang_service
    using v eq by (intro exI conjI) (auto simp: valid_info_def)
qed

lemma MatchString_server [go_simps]:
  "MatchString serverQuestionRE s \<longleftrightarrow>
    s = [] \<or> is_ns s \<or> valid_zone s \<or> (\<exists>n z. s = n @ ''.'' @ z \<and> is_ns n \<and> valid_zone z)"
proof -
  have opt: "in_lang (Seq (Opt (Seq ns_digits (Lit CHR ''.''))) (Rep 2 (Class alnum_class))) s \<longleftrightarrow>
      valid_zone s \<or> (\<exists>n z. s = n @ ''.'' @ z \<and> is_ns n \<and> valid_zone z)"
    by (simp only: in_lang_Seq_iff in_lang_Opt in_lang_zone in_lang_ns_digits in_lang_Lit)
       (metis append.assoc append_Nil)
  show ?thesis
    by (simp only: MatchString_in_lang serverQuestionRE_def in_lang_Opt in_lang_simps
        in_lang_ns_digits opt disj_assoc)
qed

text \<open>The number of dots tells service names from server names.\<close>

lemma service_four_dots:
  "MatchString serviceQuestionRE s \<Longrightarrow> count_list s CHR ''.'' = 4"
  by (auto simp: MatchString_in_lang in_lang_service dest!: field_no_dot zone_no_dot)

lemma server_one_dot:
  "MatchString serverQuestionRE s \<Longrightarrow> count_list s CHR ''.'' \<le> 1"
  by (auto simp: MatchString_server dest!: ns_no_dot zone_no_dot)

section \<open>Server questions\<close>

lemma parseServerQuestion_forms:
  "parseServerQuestion [] = ([], [])"
  "is_ns n \<Longrightarrow> parseServerQuestion n = (n, [])"
  "valid_zone z \<Longrightarrow> parseServerQuestion z = ([], z)"
  "is_ns n \<Longrightarrow> valid_zone z \<Longrightarrow> parseServerQuestion (n @ ''.'' @ z) = (n, z)"
proof -
  show "parseServerQuestion [] = ([], [])"
    by (simp add: parseServerQuestion_def go_simps is_ns_def)
  show "is_ns n \<Longrightarrow> parseServerQuestion n = (n, [])"
    by (simp add: parseServerQuestion_def go_simps Split_no_sep ns_no_dot)
  show "valid_zone z \<Longrightarrow> parseServerQuestion z = ([], z)"
    using ns_not_zone by (auto simp: parseServerQuestion_def go_simps Split_no_sep zone_no_dot)
  show "is_ns n \<Longrightarrow> valid_zone z \<Longrightarrow> parseServerQuestion (n @ ''.'' @ z) = (n, z)"
    by (simp add: parseServerQuestion_def Split_append Split_no_sep ns_no_dot zone_no_dot)
qed

lemma parseServerQuestion_cases:
  assumes "MatchString serverQuestionRE name"
  obtains ns z where "parseServerQuestion name = (ns, z)" "ns = [] \<or> is_ns ns" "z = [] \<or> valid_zone z"
  using assms parseServerQuestion_forms by (auto simp: MatchString_server)

section \<open>The records of an answer\<close>

text \<open>The record for an instance, for the three types of records the agent serves.\<close>

definition answer_hdr :: "Question \<Rightarrow> RR_Header" where
  "answer_hdr q =
     \<lparr>hdrName = qName q, Rrtype = Qtype q, hdrClass = ClassINET, Ttl = defaultTTL, Rdlength = 0\<rparr>"

definition rr_of :: "Question \<Rightarrow> inst \<Rightarrow> RR" where
  "rr_of q i =
     (if Qtype q = TypeA then RR_A \<lparr>a_Hdr = answer_hdr q, a_A = ip i\<rparr>
      else if Qtype q = TypeSRV then RR_SRV
        \<lparr>srv_Hdr = answer_hdr q, srv_Priority = 0, srv_Weight = 0, srv_Port = port i,
         srv_Target = Fqdn (host i)\<rparr>
      else RR_NS \<lparr>ns_Hdr = answer_hdr q, ns_Ns = Fqdn (host i)\<rparr>)"

definition supported :: "Question \<Rightarrow> bool" where
  "supported q \<longleftrightarrow> Qtype q \<in> {TypeA, TypeSRV, TypeNS}"

lemma newRR_supported: "newRR q i = (if supported q then Done (rr_of q i) else Panic (PanicError ''unreachable''))"
  by (simp add: newRR_def rr_of_def answer_hdr_def supported_def Let_def)

lemma Header_rr_of [simp]: "Header (rr_of q i) = answer_hdr q"
  by (simp add: rr_of_def)

lemma append_rrs_spec:
  "supported q \<Longrightarrow> append_rrs q ins rrs = Done (rrs @ map (rr_of q) ins)"
  by (induction ins arbitrary: rrs) (simp_all add: newRR_supported)

definition ns_name :: "nat \<Rightarrow> string \<Rightarrow> string" where
  "ns_name k n = ''ns'' @ utoa k @ ''.'' @ n"

definition ns_rr :: "Question \<Rightarrow> nat \<times> inst \<Rightarrow> RR" where
  "ns_rr q p = rr_of q ((snd p)\<lparr>host := ns_name (fst p) (qName q)\<rparr>)"

lemma Sprintf_ns: "Sprintf ''ns%d.%s'' [DArg (int k), SArg n] = ns_name k n"
  by (simp add: ns_name_def Itoa_def)

lemma append_ns_spec:
  "supported q \<Longrightarrow> append_ns q k servers rrs = Done (rrs @ map (ns_rr q) (enumerate k servers))"
proof (induction servers arbitrary: k rrs)
  case (Cons a servers)
  then show ?case
    by (simp only: append_ns.simps Sprintf_ns newRR_supported enumerate_simps)
       (simp add: ns_rr_def)
qed simp

section \<open>One reply per request\<close>

text \<open>
  The contract of a handler that computes one reply and writes it, and nothing after a panic.
\<close>

locale single_reply =
  fixes hdl :: "world Handler"
    and rep :: "Msg \<Rightarrow> world \<Rightarrow> (Msg \<times> world) run"
  assumes serves: "hdl w r s = run_bind (rep r s) (\<lambda>(m, s'). write_drop w m s')"
begin

lemma protocol_serves:
  "protocolHandler k hdl w r s =
    run_bind (rep r s) (\<lambda>(m, s').
      run_bind (truncate_msg (RemoteAddr w) k m) (\<lambda>m'. write_drop w m' s'))"
  by (simp add: protocolHandler_def serves write_drop_def truncatingWriter_def run_bind_assoc
      case_prod_beta)

text \<open>Two writers on which every write has the same outcome see the same handler.\<close>

lemma serves_cong:
  "(\<And>m s. write_drop w m s = write_drop w' m s) \<Longrightarrow> hdl w r s = hdl w' r s"
  by (simp add: serves)

end

text \<open>The reply of the agent's handler.\<close>

definition authoritative_reply :: "(instances \<Rightarrow> instances) \<Rightarrow> dnsHandler \<Rightarrow> Question \<Rightarrow> Msg \<Rightarrow> world \<Rightarrow> (Msg \<times> world) run" where
  "authoritative_reply srt h q res s =
     (let name = trim_domain (qName q) (h_domain h) in
      if MatchString serviceQuestionRE name then serviceResponse h name q res s
      else if MatchString serverQuestionRE name then serverResponse srt h name q res s
      else Done (res\<lparr>Rcode := RcodeNameError,
                     Extra := Extra res @ [fst (newSOA q (h_domain h) defaultInvalidTTL s)]\<rparr>,
                 snd (newSOA q (h_domain h) defaultInvalidTTL s)))"

definition reply :: "(instances \<Rightarrow> instances) \<Rightarrow> dnsHandler \<Rightarrow> Msg \<Rightarrow> world \<Rightarrow> (Msg \<times> world) run" where
  "reply srt h req s =
     (case Questions req of
        [] \<Rightarrow> Panic IndexOutOfRange
      | [q] \<Rightarrow>
          if HasSuffix (qName q) (h_domain h)
          then authoritative_reply srt h q ((newResponse req)\<lparr>Authoritative := True\<rparr>) s
          else Done ((newResponse req)\<lparr>Rcode := RcodeNameError\<rparr>, s)
      | _ \<Rightarrow> Done ((newResponse req)\<lparr>Rcode := RcodeNotImplemented\<rparr>, s))"

interpretation dns_reply: single_reply "ServeDNS srt h" "reply srt h" for srt h
proof
  fix w r s
  show "ServeDNS srt h w r s = run_bind (reply srt h r s) (\<lambda>(m, s'). write_drop w m s')"
  proof (cases "Questions r")
    case (Cons q qs)
    then show ?thesis
      by (cases qs) (auto simp: ServeDNS_def reply_def authoritative_reply_def Let_def case_prod_beta)
  qed (simp add: ServeDNS_def reply_def Let_def)
qed

section \<open>The domain of a question\<close>

lemma trim_domain_append: "n \<noteq> [] \<Longrightarrow> trim_domain (n @ ''.'' @ d) d = n"
  using LastIndex_append_suffix [of "''.'' @ d" n] by (simp add: trim_domain_def)

text \<open>
  A question for the domain is one of three: a name below the domain at a label boundary, the
  domain itself, or a name that merely ends in the same characters.  The handler takes the last
  two for the domain itself.
\<close>

lemma trim_domain_no_boundary:
  assumes "n = p @ d" "CHR ''.'' \<notin> set p"
  shows "trim_domain n d = []"
proof -
  have "\<not> 0 < LastIndex n (''.'' @ d)"
  proof
    assume pos: "0 < LastIndex n (''.'' @ d)"
    let ?i = "nat (LastIndex n (''.'' @ d))"
    obtain t where t: "drop ?i n = (''.'' @ d) @ t"
      using LastIndex_hit [of n "''.'' @ d"] pos by (auto simp: HasPrefix_iff)
    have "length n - ?i = 1 + length d + length t"
      using arg_cong [OF t, of length] by simp
    then have len: "?i + 1 + length d + length t = length n" by arith
    have "?i < length p" using assms(1) len by simp
    moreover have "n ! ?i = CHR ''.''" using arg_cong [OF t, of hd] len by (simp add: hd_drop_conv_nth)
    ultimately have "p ! ?i = CHR ''.''" using assms(1) by (simp add: nth_append)
    then show False using assms(2) \<open>?i < length p\<close> nth_mem by metis
  qed
  then show ?thesis by (simp add: trim_domain_def Let_def)
qed

section \<open>Replies of service and server questions\<close>

lemma newResponse_simps [dns_simps]:
  "msgId (newResponse r) = msgId r"
  "Response (newResponse r)"
  "Rcode (newResponse r) = 0"
  "\<not> Authoritative (newResponse r)"
  "\<not> Truncated (newResponse r)"
  "RecursionDesired (newResponse r) = RecursionDesired r"
  "\<not> RecursionAvailable (newResponse r)"
  "Compress (newResponse r)"
  "Answer (newResponse r) = []"
  "Ns (newResponse r) = []"
  "Extra (newResponse r) = []"
  "Questions (newResponse r) = (if Questions r = [] then [] else [hd (Questions r)])"
  by (simp_all add: newResponse_def dns_simps)

definition error_rcode :: "go_error \<Rightarrow> int" where
  "error_rcode e = (if isNoInstances e then RcodeNameError else RcodeServerFailure)"

text \<open>A question below the domain is dispatched on the name without the domain.\<close>

lemma reply_below:
  assumes "Questions req = [q]" "qName q = n @ ''.'' @ h_domain h" "n \<noteq> []"
  defines "res \<equiv> (newResponse req)\<lparr>Authoritative := True\<rparr>"
  shows "reply srt h req s =
    (if MatchString serviceQuestionRE n then serviceResponse h n q res s
     else if MatchString serverQuestionRE n then serverResponse srt h n q res s
     else Done (res\<lparr>Rcode := RcodeNameError,
                    Extra := [fst (newSOA q (h_domain h) defaultInvalidTTL s)]\<rparr>,
                snd (newSOA q (h_domain h) defaultInvalidTTL s)))"
proof -
  have "HasSuffix (qName q) (h_domain h)"
    unfolding assms(2) using HasSuffix_append [of "n @ ''.''"] by simp
  moreover have "trim_domain (qName q) (h_domain h) = n" using assms(2,3) trim_domain_append by simp
  ultimately show ?thesis
    using assms(1) by (simp add: reply_def authoritative_reply_def Let_def res_def dns_simps)
qed

lemma infoFromAddr_not_Nil: "infoFromAddr n = Inr i \<Longrightarrow> n \<noteq> []"
  by (auto simp: infoFromAddr_iff addr_parts zone_not_Nil valid_info_def)

lemma reply_service:
  assumes "Questions req = [q]" "qName q = n @ ''.'' @ h_domain h" "infoFromAddr n = Inr i"
    and "Qtype q = TypeA \<or> Qtype q = TypeSRV"
  shows "reply srt h req s =
    run_bind (getInstances (h_store h) i s) (\<lambda>((ins, err), s').
      Done ((newResponse req)
        \<lparr>Authoritative := True,
         Rcode := (case err of None \<Rightarrow> RcodeSuccess | Some e \<Rightarrow> error_rcode e),
         Answer := (case err of None \<Rightarrow> map (rr_of q) ins | Some e \<Rightarrow> [])\<rparr>, s'))"
proof -
  have m: "MatchString serviceQuestionRE n" using assms(3) by (auto simp: MatchString_service)
  have sup: "supported q" using assms(4) by (auto simp: supported_def)
  let ?res = "(newResponse req)\<lparr>Authoritative := True\<rparr>"
  have fields: "?res\<lparr>Rcode := 0\<rparr> = ?res" "?res\<lparr>Answer := []\<rparr> = ?res"
    "Answer ?res = []"
    by (simp_all add: newResponse_def SetReply_def empty_Msg_def Let_def)
  have "reply srt h req s = serviceResponse h n q ?res s"
    using reply_below [OF assms(1,2)] infoFromAddr_not_Nil [OF assms(3)] m by simp
  also have "\<dots> = run_bind (getInstances (h_store h) i s) (\<lambda>((ins, err), s').
      Done (?res
        \<lparr>Rcode := (case err of None \<Rightarrow> RcodeSuccess | Some e \<Rightarrow> error_rcode e),
         Answer := (case err of None \<Rightarrow> map (rr_of q) ins | Some e \<Rightarrow> [])\<rparr>, s'))"
    using assms(3,4) sup fields
    by (cases "getInstances (h_store h) i s")
       (auto simp: serviceResponse_def append_rrs_spec dns_simps error_rcode_def split: option.splits)
  finally show ?thesis by simp
qed

lemma reply_service_other:
  assumes "Questions req = [q]" "qName q = n @ ''.'' @ h_domain h" "infoFromAddr n = Inr i"
    and "Qtype q \<noteq> TypeA" "Qtype q \<noteq> TypeSRV"
  shows "reply srt h req s = Done ((newResponse req)\<lparr>Authoritative := True\<rparr>, s)"
  using assms infoFromAddr_not_Nil [OF assms(3)]
  by (simp add: reply_below MatchString_service serviceResponse_def)

text \<open>Errors of \<^verbatim>\<open>getServers\<close> other than ``no instances'' fail the request.\<close>

definition fatal :: "go_error option \<Rightarrow> bool" where
  "fatal err = (case err of None \<Rightarrow> False | Some e \<Rightarrow> \<not> isNoInstances e)"

lemma serverResponse_list:
  assumes "Qtype q = TypeA \<or> Qtype q = TypeNS" "parseServerQuestion name = ([], z)"
  shows "serverResponse srt h name q res s =
    run_bind (getServers (h_store h) z s) (\<lambda>((servers, err), s').
      Done (if fatal err then res\<lparr>Rcode := RcodeServerFailure\<rparr>
            else res\<lparr>Answer := Answer res @ map (ns_rr q) (enumerate 0 (srt servers))\<rparr>, s'))"
proof -
  have "supported q" using assms(1) by (auto simp: supported_def)
  then show ?thesis
    using assms
    by (cases "getServers (h_store h) z s")
       (auto simp: serverResponse_def append_ns_spec fatal_def Let_def)
qed

lemma serverResponse_single:
  assumes "Qtype q = TypeA" "parseServerQuestion name = (''ns'' @ ds, z)"
    and "ds \<noteq> []" "\<forall>c \<in> set ds. is_digit c"
  shows "serverResponse srt h name q res s =
    run_bind (getServers (h_store h) z s) (\<lambda>((servers, err), s').
      Done (if fatal err then res\<lparr>Rcode := RcodeServerFailure\<rparr>
            else if 2 ^ 63 \<le> digits_val ds then res\<lparr>Rcode := RcodeNameError\<rparr>
            else if length (srt servers) \<le> digits_val ds then res
            else res\<lparr>Answer := Answer res @ [rr_of q (srt servers ! digits_val ds)]\<rparr>, s'))"
proof -
  have "supported q" using assms(1) by (auto simp: supported_def)
  then show ?thesis
    using assms
    by (cases "getServers (h_store h) z s")
       (auto simp: serverResponse_def newRR_supported fatal_def Let_def ParseInt_digits)
qed

lemma serverResponse_other:
  "Qtype q \<noteq> TypeA \<Longrightarrow> Qtype q \<noteq> TypeNS \<Longrightarrow> serverResponse srt h name q res s = Done (res, s)"
  "Qtype q = TypeNS \<Longrightarrow> is_ns (fst (parseServerQuestion name)) \<Longrightarrow>
    serverResponse srt h name q res s = Done (res, s)"
  by (auto simp: serverResponse_def is_ns_def split: prod.splits)

section \<open>Soundness of the handler\<close>

text \<open>
  What every reply of the agent has in common: it answers the one question with its id, and each
  of its answers carries the name and type of the question.
\<close>

definition reply_ok :: "Msg \<Rightarrow> Msg \<Rightarrow> bool" where
  "reply_ok req m \<longleftrightarrow>
     msgId m = msgId req \<and> Response m \<and> Questions m = [hd (Questions req)] \<and> Ns m = [] \<and>
     \<not> Truncated m \<and> \<not> RecursionAvailable m \<and> RecursionDesired m = RecursionDesired req \<and>
     Rcode m \<in> {RcodeSuccess, RcodeNameError, RcodeServerFailure, RcodeNotImplemented} \<and>
     (Rcode m \<noteq> RcodeSuccess \<longrightarrow> Answer m = []) \<and>
     (\<forall>rr \<in> set (Answer m). Header rr = answer_hdr (hd (Questions req)))"

lemma reply_ok_new:
  "Questions req \<noteq> [] \<Longrightarrow> reply_ok req (newResponse req)"
  by (simp add: reply_ok_def dns_simps)

lemma reply_ok_updates:
  assumes "reply_ok req m" "Rcode m = RcodeSuccess"
  shows "reply_ok req (m\<lparr>Authoritative := a\<rparr>)"
    "Answer m = [] \<Longrightarrow> rc \<in> {RcodeNameError, RcodeServerFailure, RcodeNotImplemented} \<Longrightarrow>
       reply_ok req (m\<lparr>Rcode := rc\<rparr>)"
    "(\<forall>rr \<in> set rrs. Header rr = answer_hdr (hd (Questions req))) \<Longrightarrow> reply_ok req (m\<lparr>Answer := rrs\<rparr>)"
    "reply_ok req (m\<lparr>Extra := ex\<rparr>)"
  using assms by (auto simp: reply_ok_def)

lemma Header_ns_rr [simp]: "Header (ns_rr q p) = answer_hdr q"
  by (simp add: ns_rr_def)

definition sound_reply :: "Msg \<Rightarrow> world \<Rightarrow> (Msg \<times> world) run \<Rightarrow> bool" where
  "sound_reply req s r \<longleftrightarrow>
     (\<exists>m s'. r = Done (m, s') \<and> reply_ok req m \<and> world_ok s' \<and> dns_part s' = dns_part s \<and>
        clock s' = clock s)"

context sound_store
begin

lemma serviceResponse_sound:
  assumes "world_ok s" "h_store h = st" "hd (Questions req) = q" "Answer res = []"
    and res: "reply_ok req res" "Rcode res = RcodeSuccess"
  shows "sound_reply req s (serviceResponse h name q res s)"
proof (cases "Qtype q \<noteq> TypeA \<and> Qtype q \<noteq> TypeSRV \<or> infoFromAddr name \<notin> range Inr")
  case True
  then show ?thesis
    using assms reply_ok_updates [OF res]
    by (auto simp: serviceResponse_def sound_reply_def split: sum.splits)
next
  case False
  then obtain i where i: "infoFromAddr name = Inr i" and sup: "supported q"
    by (auto simp: supported_def)
  obtain ins err s' where "getInstances st i s = Done ((ins, err), s')" "world_ok s'"
    "dns_part s' = dns_part s" "clock s' = clock s"
    using getInstances_returns [OF assms(1)] by blast
  then show ?thesis
    using False i assms reply_ok_updates [OF res] append_rrs_spec [OF sup]
    by (auto simp: serviceResponse_def sound_reply_def split: option.splits)
qed

lemma serverResponse_sound:
  assumes "world_ok s" "h_store h = st" "hd (Questions req) = q" "Answer res = []"
    and res: "reply_ok req res" "Rcode res = RcodeSuccess"
    and m: "MatchString serverQuestionRE name"
  shows "sound_reply req s (serverResponse srt h name q res s)"
proof -
  obtain ns z where p: "parseServerQuestion name = (ns, z)" "ns = [] \<or> is_ns ns"
    using parseServerQuestion_cases [OF m] by metis
  obtain servers err s' where g: "getServers st z s = Done ((servers, err), s')" "world_ok s'"
    "dns_part s' = dns_part s" "clock s' = clock s"
    using getServers_returns [OF assms(1)] by blast
  consider "Qtype q \<noteq> TypeA \<and> Qtype q \<noteq> TypeNS \<or> Qtype q = TypeNS \<and> is_ns ns"
    | "Qtype q = TypeA \<or> Qtype q = TypeNS" "ns = []"
    | "Qtype q = TypeA" "is_ns ns"
    using p(2) by auto
  then show ?thesis
  proof cases
    case 1
    then show ?thesis using p assms serverResponse_other by (auto simp: sound_reply_def)
  next
    case 2
    then show ?thesis
      using p g assms reply_ok_updates [OF res]
      by (auto simp: serverResponse_list sound_reply_def)
  next
    case 3
    then obtain ds where "ns = ''ns'' @ ds" "ds \<noteq> []" "\<forall>c \<in> set ds. is_digit c"
      by (auto simp: is_ns_def)
    then show ?thesis
      using 3 p g assms reply_ok_updates [OF res] serverResponse_single [of q name ds z]
      by (auto simp: sound_reply_def)
  qed
qed

lemma reply_sound:
  assumes "world_ok s" "h_store h = st" "Questions req \<noteq> []"
  shows "sound_reply req s (reply srt h req s)"
proof (cases "\<exists>q. Questions req = [q] \<and> HasSuffix (qName q) (h_domain h)")
  case False
  then show ?thesis
    using assms reply_ok_updates(2) [OF reply_ok_new [OF assms(3)]]
    by (auto simp: reply_def sound_reply_def dns_simps split: list.splits)
next
  case True
  then obtain q where q: "Questions req = [q]" "HasSuffix (qName q) (h_domain h)" by blast
  let ?res = "(newResponse req)\<lparr>Authoritative := True\<rparr>"
  have res: "reply_ok req ?res" "Rcode ?res = RcodeSuccess" "Answer ?res = []"
    using reply_ok_updates(1) [OF reply_ok_new [OF assms(3)]] by (auto simp: dns_simps)
  have hd: "hd (Questions req) = q" using q by simp
  have soa: "reply_ok req (?res\<lparr>Rcode := RcodeNameError, Extra := ex\<rparr>)" for ex
    using res by (auto simp: reply_ok_def)
  show ?thesis
    using q(1,2) assms(1) soa
      serviceResponse_sound [OF assms(1,2) hd res(3,1,2)]
      serverResponse_sound [OF assms(1,2) hd res(3,1,2)]
    by (auto simp: reply_def authoritative_reply_def Let_def sound_reply_def [of _ _ "Done _"]
        newSOA_def time_Now_def)
qed

end

section \<open>Server questions below and at the domain\<close>

lemma trim_domain_self: "trim_domain d d = []"
  by (rule trim_domain_no_boundary [of _ "[]"]) simp_all

text \<open>The name of the servers of a zone, the empty zone standing for all of them.\<close>

definition zone_name :: "string \<Rightarrow> string \<Rightarrow> string" where
  "zone_name z d = (if z = [] then d else z @ ''.'' @ d)"

lemma zone_name_trim: "trim_domain (zone_name z d) d = z"
  using trim_domain_self trim_domain_append by (auto simp: zone_name_def)

lemma zone_name_suffix: "HasSuffix (zone_name z d) d"
  using HasSuffix_append [of "z @ ''.''" d] HasSuffix_append [of "[]" d] by (simp add: zone_name_def)

lemma server_not_service:
  "MatchString serverQuestionRE n \<Longrightarrow> \<not> MatchString serviceQuestionRE n"
  using service_four_dots server_one_dot by fastforce

lemma reply_server:
  assumes "Questions req = [q]" "HasSuffix (qName q) (h_domain h)"
    and "trim_domain (qName q) (h_domain h) = n" "MatchString serverQuestionRE n"
  shows "reply srt h req s = serverResponse srt h n q ((newResponse req)\<lparr>Authoritative := True\<rparr>) s"
  using assms server_not_service by (simp add: reply_def authoritative_reply_def Let_def)

lemma newResponse_Answer: "Answer ((newResponse req)\<lparr>Authoritative := True\<rparr>) = []"
  by (simp add: dns_simps)

lemma reply_server_list:
  assumes "Questions req = [q]" "HasSuffix (qName q) (h_domain h)"
    and "trim_domain (qName q) (h_domain h) = z" "z = [] \<or> valid_zone z"
    and "Qtype q = TypeA \<or> Qtype q = TypeNS"
  shows "reply srt h req s =
    run_bind (getServers (h_store h) z s) (\<lambda>((servers, err), s').
      Done ((newResponse req)\<lparr>Authoritative := True,
              Rcode := (if fatal err then RcodeServerFailure else RcodeSuccess),
              Answer := (if fatal err then [] else map (ns_rr q) (enumerate 0 (srt servers)))\<rparr>, s'))"
proof -
  have m: "MatchString serverQuestionRE z" using assms(4) by (auto simp: MatchString_server)
  have p: "parseServerQuestion z = ([], z)" using assms(4) parseServerQuestion_forms by auto
  let ?res = "(newResponse req)\<lparr>Authoritative := True\<rparr>"
  have fields: "?res\<lparr>Rcode := 0\<rparr> = ?res" "?res\<lparr>Answer := []\<rparr> = ?res"
    "?res\<lparr>Rcode := rc, Answer := []\<rparr> = ?res\<lparr>Rcode := rc\<rparr>" for rc
    by (simp_all add: newResponse_def SetReply_def empty_Msg_def Let_def)
  have "reply srt h req s = serverResponse srt h z q ?res s"
    by (rule reply_server [OF assms(1-3) m])
  also have "\<dots> = run_bind (getServers (h_store h) z s) (\<lambda>((servers, err), s').
      Done (?res\<lparr>Rcode := (if fatal err then RcodeServerFailure else RcodeSuccess),
              Answer := (if fatal err then [] else map (ns_rr q) (enumerate 0 (srt servers)))\<rparr>, s'))"
    unfolding serverResponse_list [OF assms(5) p] newResponse_Answer using fields
    by (auto intro!: arg_cong [where f = "run_bind _"])
  finally show ?thesis by simp
qed

lemma reply_server_single:
  assumes "Questions req = [q]" "qName q = ''ns'' @ ds @ ''.'' @ zone_name z (h_domain h)"
    and "ds \<noteq> []" "\<forall>c \<in> set ds. is_digit c" "z = [] \<or> valid_zone z" "Qtype q = TypeA"
  shows "reply srt h req s =
    run_bind (getServers (h_store h) z s) (\<lambda>((servers, err), s').
      Done (let res = (newResponse req)\<lparr>Authoritative := True\<rparr> in
            if fatal err then res\<lparr>Rcode := RcodeServerFailure\<rparr>
            else if 2 ^ 63 \<le> digits_val ds then res\<lparr>Rcode := RcodeNameError\<rparr>
            else if length (srt servers) \<le> digits_val ds then res
            else res\<lparr>Answer := [rr_of q (srt servers ! digits_val ds)]\<rparr>, s'))"
proof -
  let ?n = "''ns'' @ ds @ (if z = [] then [] else ''.'' @ z)"
  have ns: "is_ns (''ns'' @ ds)" using assms(3,4) by (auto simp: is_ns_def)
  have name: "qName q = ?n @ ''.'' @ h_domain h" using assms(2) by (simp add: zone_name_def)
  have t: "trim_domain (qName q) (h_domain h) = ?n" unfolding name by (rule trim_domain_append) simp
  have suffix: "HasSuffix (qName q) (h_domain h)"
    unfolding name using HasSuffix_append [of "?n @ ''.''" "h_domain h"] by simp
  have m: "MatchString serverQuestionRE ?n"
    using ns assms(5) unfolding MatchString_server by (cases "z = []") auto
  have p: "parseServerQuestion ?n = (''ns'' @ ds, z)"
    using parseServerQuestion_forms(2) [OF ns] parseServerQuestion_forms(4) [OF ns] assms(5)
    by (cases "z = []") auto
  show ?thesis
    unfolding reply_server [OF assms(1) suffix t m]
      serverResponse_single [OF assms(6) p assms(3,4)] newResponse_Answer Let_def append_Nil
    by (rule refl)
qed

lemma serviceResponse_keeps:
  "serviceResponse h name q res s = Done (m, s') \<Longrightarrow> Authoritative m = Authoritative res"
  by (auto simp: serviceResponse_def run_bind_Done_iff
      split: if_splits sum.splits option.splits prod.splits)

lemma serverResponse_keeps:
  assumes "serverResponse srt h name q res s = Done (m, s')" "MatchString serverQuestionRE name"
  shows "Authoritative m = Authoritative res"
proof -
  obtain ns z where p: "parseServerQuestion name = (ns, z)" "ns = [] \<or> is_ns ns"
    using parseServerQuestion_cases [OF assms(2)] by metis
  consider "Qtype q \<noteq> TypeA \<and> Qtype q \<noteq> TypeNS \<or> Qtype q = TypeNS \<and> is_ns ns"
    | "Qtype q = TypeA \<or> Qtype q = TypeNS" "ns = []"
    | ds where "Qtype q = TypeA" "ns = ''ns'' @ ds" "ds \<noteq> []" "\<forall>c \<in> set ds. is_digit c"
    using p(2) unfolding is_ns_def by blast
  then show ?thesis
  proof cases
    case 1
    then have "serverResponse srt h name q res s = Done (res, s)"
      using p(1) serverResponse_other by (metis fst_conv)
    then show ?thesis using assms(1) by simp
  next
    case 2
    have parse: "parseServerQuestion name = ([], z)" using p(1) 2(2) by simp
    show ?thesis
      using assms(1) unfolding serverResponse_list [OF 2(1) parse]
      by (cases "getServers (h_store h) z s") (auto split: prod.splits if_splits)
  next
    case 3
    have parse: "parseServerQuestion name = (''ns'' @ ds, z)" using p(1) 3(2) by simp
    show ?thesis
      using assms(1) unfolding serverResponse_single [OF 3(1) parse 3(3,4)]
      by (cases "getServers (h_store h) z s") (auto split: prod.splits if_splits)
  qed
qed

section \<open>Sample inputs\<close>

definition sample_world :: world where
  "sample_world = new_world (\<lambda>_. 0)"

definition sample_info :: info where
  "sample_info = \<lparr>env = ''prod'', job = ''api'', product = ''shop'', provider = [], service = ''http'',
     zone = ''gg''\<rparr>"

definition sample_instance :: inst where
  "sample_instance = \<lparr>host = ''web.gg'', ip = v4InV6Prefix @ [10, 0, 0, 1], port = 8080\<rparr>"

definition sample_store :: "world store" where
  "sample_store =
     \<lparr>getInstances = (\<lambda>i s. Done (([sample_instance], None), s)),
      getServers = (\<lambda>z s. Done (([sample_instance], None), s))\<rparr>"

definition sample_handler :: dnsHandler where
  "sample_handler = newDNSHandler sample_store ''srv.glimpse.io.''"

definition sample_question :: Question where
  "sample_question = \<lparr>qName = ''x.'', Qtype = TypeA, Qclass = ClassINET\<rparr>"

definition sample_request :: "string \<Rightarrow> uint16 \<Rightarrow> Msg" where
  "sample_request n t =
     empty_Msg\<lparr>msgId := 7, Questions := [\<lparr>qName = n, Qtype = t, Qclass = ClassINET\<rparr>]\<rparr>"

lemma sample_valid: "valid_info sample_info"
  by (simp add: valid_info_def sample_info_def valid_field_def valid_zone_def in_class_def
      field_class_def alnum_class_def)

lemma sample_zone: "valid_zone ''gg''"
  by (simp add: valid_zone_def in_class_def alnum_class_def)

interpretation sample: sound_store sample_store
  by unfold_locales (auto simp: sample_store_def sound_result_def)

end
