(* ===== verification/Agent_Main.thy ===== *)
theory Agent_Main
  imports Logging Instrumentation Consul_Store Dns_Handler
begin

text \<open>
  \<^verbatim>\<open>agent/main.go\<close>: how the agent is put together from its flags.  The goroutines that
  \<^verbatim>\<open>main\<close> starts and the channel over which they end the process are in the theory
  \<open>Agent_Process\<close>, the registration of collectors in \<open>Agent_Registry\<close>.
\<close>

section \<open>Flags\<close>

record flags =
  consulAddr :: string
  consulInfo :: string
  dnsAddr :: string
  dnsZone :: string
  srvZone :: string
  httpAddr :: string
  maxAnswers :: int

definition defaultDNSZone :: string where
  "defaultDNSZone = ''srv.glimpse.io.''"

definition defaultSrvZone :: string where
  "defaultSrvZone = ''gg''"

definition defaultMaxAnswers :: int where
  "defaultMaxAnswers = 43"

definition defaultFlags :: flags where
  "defaultFlags =
     \<lparr>consulAddr = ''127.0.0.1:8500'', consulInfo = ''consul info'', dnsAddr = '':5959'',
      dnsZone = defaultDNSZone, srvZone = defaultSrvZone, httpAddr = '':5960'',
      maxAnswers = defaultMaxAnswers\<rparr>"

definition lower_digit_class :: "(nat \<times> nat) list" where
  "lower_digit_class = [(97, 122), (48, 57)]"

definition lower_class :: "(nat \<times> nat) list" where
  "lower_class = [(97, 122)]"

definition rDNSZone :: rexp where
  "rDNSZone =
     Seq (Plus (Class lower_digit_class))
       (Seq (Star (Seq (Class [(45, 45), (46, 46)]) (Plus (Class lower_digit_class))))
         (Seq (Lit CHR ''.'') (Seq (Between 2 4 (Class lower_class)) (Opt (Lit CHR ''.'')))))"

section \<open>Wiring\<close>

definition agent_config :: "string \<Rightarrow> flags \<Rightarrow> Config" where
  "agent_config env_addr fl =
     NewClient env_addr
       \<lparr>cfg_Address = consulAddr fl, cfg_Scheme = [], cfg_Datacenter = srvZone fl,
        cfg_UnixSocket = None, cfg_WaitTime = 0, cfg_Token = []\<rparr>"

definition agent_store :: "consul_env \<Rightarrow> string \<Rightarrow> flags \<Rightarrow> world store" where
  "agent_store cenv env_addr fl =
     newLoggingStore (newMetricsStore (newConsulStore cenv (agent_config env_addr fl)))"

definition agent_dns :: "consul_env \<Rightarrow> string \<Rightarrow> flags \<Rightarrow> dnsHandler" where
  "agent_dns cenv env_addr fl = newDNSHandler (agent_store cenv env_addr fl) (Fqdn (dnsZone fl))"

definition agent_handler ::
  "(instances \<Rightarrow> instances) \<Rightarrow> consul_env \<Rightarrow> string \<Rightarrow> flags \<Rightarrow> world Handler" where
  "agent_handler srt cenv env_addr fl =
     dnsLoggingHandler
       (dnsMetricsHandler
         (protocolHandler (maxAnswers fl)
           (ServeDNS srt (agent_dns cenv env_addr fl))))"

text \<open>The handler of both DNS servers, or the message with which the process ends.\<close>

definition agent_mux ::
  "(instances \<Rightarrow> instances) \<Rightarrow> consul_env \<Rightarrow> string \<Rightarrow> flags \<Rightarrow> (string + world ServeMux) run" where
  "agent_mux srt cenv env_addr fl =
     (if \<not> MatchString rDNSZone (dnsZone fl)
      then Done (Inl (Sprintf ''invalid DNS zone: %s'' [SArg (dnsZone fl)]))
      else run_bind (Handle NewServeMux ''.'' (agent_handler srt cenv env_addr fl))
             (\<lambda>mux. Done (Inr mux)))"

section \<open>The chain of handlers\<close>

text \<open>
  A request that goes through the whole chain: the reply is computed in a world in which two
  clock readings and one message cell have been used, then limited, remembered, sent, logged and
  timed.
\<close>

definition log_line :: "net_addr \<Rightarrow> int \<Rightarrow> Msg \<Rightarrow> go_error option \<Rightarrow> string" where
  "log_line a took m err =
     Sprintf ''DNS %dms %s %s %s %s %d%s''
       [DArg (milliseconds took), SArg (addr_string a), SArg (fst (question_fields m)),
        SArg (snd (question_fields m)), SArg (RcodeToString (Rcode m)),
        DArg (int (length (Answer m))),
        SArg (case err of None \<Rightarrow> [] | Some e \<Rightarrow> '' error: '' @ Error e)]"

definition before_reply :: "world \<Rightarrow> world" where
  "before_reply s = s\<lparr>lasts := lasts s @ [None], tick := tick s + 2\<rparr>"

lemma write_loggingWriter:
  "write_drop (loggingWriter w start) m s =
    run_bind (WriteMsg w m s) (\<lambda>(err, s1).
      Done (s1\<lparr>tick := Suc (tick s1),
              logged := logged s1 @ [log_line (RemoteAddr w) (clock s1 (tick s1) - start) m err]\<rparr>))"
  by (auto simp: write_drop_def loggingWriter_def run_bind_assoc time_Since_def Printf_def
      log_line_def Let_def case_prod_beta intro!: arg_cong [where f = "run_bind _"])

lemma write_connWriter:
  "WriteMsg (connWriter a fails) m s =
    Done (fails m, s\<lparr>sent := sent s @ (if fails m = None then [(a, m)] else [])\<rparr>)"
  by (simp add: connWriter_def split: option.splits)

lemma write_cachingWriter:
  "write_drop (cachingWriter w cell) m s = write_drop w m (s\<lparr>lasts := (lasts s)[cell := Some m]\<rparr>)"
  by (simp add: write_drop_def cachingWriter_def)

lemma RemoteAddr_writers [simp]:
  "RemoteAddr (loggingWriter w start) = RemoteAddr w"
  "RemoteAddr (cachingWriter w cell) = RemoteAddr w"
  "RemoteAddr (truncatingWriter w k) = RemoteAddr w"
  by (simp_all add: loggingWriter_def cachingWriter_def truncatingWriter_def)

definition qtype_label :: "Msg \<Rightarrow> string" where
  "qtype_label req =
     (if length (Questions req) = 1 then TypeToString (Qtype (Questions req ! 0)) else ''unknown'')"

definition after_reply ::
  "net_addr \<Rightarrow> (Msg \<Rightarrow> go_error option) \<Rightarrow> Msg \<Rightarrow> Msg \<Rightarrow> world \<Rightarrow> world \<Rightarrow> world" where
  "after_reply a fails req m s s1 =
     (let lvs = [protocol_label a, qtype_label req, RcodeToString (Rcode m)];
          h = fnv_write fnv_offset64 (concat lvs)
      in s1\<lparr>tick := tick s1 + 2,
            lasts := lasts s @ [Some m],
            sent := sent s @ (if fails m = None then [(a, m)] else []),
            logged := logged s1 @ [log_line a (clock s (tick s1) - clock s (tick s)) m (fails m)],
            dnsDurations :=
              summary_Observe h (microseconds (clock s (tick s1 + 1) - clock s (tick s + 1)))
                (getOrCreateMetric (dnsDurations s) h lvs)\<rparr>)"

context single_reply
begin

lemma metrics_serves:
  assumes "rep req (s\<lparr>lasts := lasts s @ [None], tick := Suc (tick s)\<rparr>) = Done (m, s1)"
    and "truncate_msg (RemoteAddr w) k m = Done m'" "lasts s1 = lasts s @ [None]"
    and "write_drop w m' (s1\<lparr>lasts := lasts s @ [Some m']\<rparr>) = Done s2"
    and "lasts s2 = lasts s @ [Some m']" "variableLabels (dnsDurations s2) = dnsLabels"
  shows "dnsMetricsHandler (protocolHandler k hdl) w req s =
    (let lvs = [protocol_label (RemoteAddr w), qtype_label req, RcodeToString (Rcode m')];
         h = fnv_write fnv_offset64 (concat lvs)
     in Done (s2\<lparr>tick := Suc (tick s2),
          dnsDurations := summary_Observe h (microseconds (clock s2 (tick s2) - clock s (tick s)))
            (getOrCreateMetric (dnsDurations s2) h lvs)\<rparr>))"
proof -
  have "protocolHandler k hdl (cachingWriter w (length (lasts s))) req
      (s\<lparr>lasts := lasts s @ [None], tick := Suc (tick s)\<rparr>) = Done s2"
    using assms(1-4) by (simp add: protocol_serves write_cachingWriter)
  then show ?thesis
    using assms(5,6)
    by (simp add: dnsMetricsHandler_def time_Now_def time_Since_def WithLabelValues_cases dnsLabels_def
        qtype_label_def Let_def)
qed

lemma chain_serves:
  assumes "rep req (before_reply s) = Done (m, s1)" "truncate_msg a k m = Done m'"
    and "dns_part s1 = dns_part (before_reply s)" "clock s1 = clock s" "world_ok s1"
  shows "dnsLoggingHandler (dnsMetricsHandler (protocolHandler k hdl)) (connWriter a fails) req s =
    Done (after_reply a fails req m' s s1)"
proof -
  let ?w = "loggingWriter (connWriter a fails) (clock s (tick s))"
  let ?s = "s\<lparr>tick := Suc (tick s)\<rparr>"
  have part: "lasts s1 = lasts s @ [None]" "sent s1 = sent s" "dnsDurations s1 = dnsDurations s"
    using assms(3) by (simp_all add: dns_part_def before_reply_def)
  let ?s2 = "s1\<lparr>lasts := lasts s @ [Some m'], sent := sent s @ (if fails m' = None then [(a, m')] else []),
    tick := Suc (tick s1),
    logged := logged s1 @ [log_line a (clock s (tick s1) - clock s (tick s)) m' (fails m')]\<rparr>"
  have addr: "RemoteAddr (connWriter a fails) = a" by (simp add: connWriter_def)
  have "write_drop ?w m' (s1\<lparr>lasts := lasts s @ [Some m']\<rparr>) = Done ?s2"
    using part assms(4) by (simp add: write_loggingWriter write_connWriter addr)
  moreover have "variableLabels (dnsDurations ?s2) = dnsLabels"
    using assms(5) by (simp add: world_ok_def)
  ultimately show ?thesis
    using metrics_serves [of req ?s m s1 ?w k m' ?s2] assms(1,2,4) part
    by (simp add: dnsLoggingHandler_def time_Now_def before_reply_def after_reply_def addr Let_def)
qed

end

section \<open>The agent as a whole\<close>

lemma agent_store_sound:
  "complete_decoder cenv \<Longrightarrow> sound_store (agent_store cenv env_addr fl)"
  unfolding agent_store_def
  by (intro logging_mw.wrap_sound metrics_mw.wrap_sound consul_store_sound)

interpretation agent_backend: sound_store "agent_store (env_of e) env_addr fl" for e env_addr fl
  by (rule agent_store_sound) (rule env_of_complete)

lemma truncate_msg_cases:
  assumes "0 \<le> k"
  shows "truncate_msg a k m = Done
    (if protocol_label a = ''udp'' \<and> k < int (length (Answer m))
     then m\<lparr>Answer := take (nat k) (Answer m), Truncated := True\<rparr> else m)"
  using assms by (simp add: truncate_msg_def protocol_label_def split: net_addr.splits)

lemma before_reply_ok: "world_ok s \<Longrightarrow> world_ok (before_reply s)"
  by (simp add: before_reply_def)

lemma after_reply_ok:
  assumes "world_ok s1" "dnsDurations s1 = dnsDurations s"
  shows "world_ok (after_reply a fails req m s s1)"
  using assms
  by (auto simp: world_ok_def after_reply_def Let_def dnsLabels_def
      intro!: vec_inv_updates vec_inv_getOrCreate)

text \<open>The whole chain serves a request with at least one question.\<close>

lemma agent_handler_serves:
  assumes "complete_decoder cenv" "world_ok s" "Questions req \<noteq> []" "0 \<le> maxAnswers fl"
  obtains m m' s1 where
    "reply srt (agent_dns cenv env_addr fl) req (before_reply s) = Done (m, s1)" "reply_ok req m"
    "truncate_msg a (maxAnswers fl) m = Done m'"
    "agent_handler srt cenv env_addr fl (connWriter a fails) req s = Done (after_reply a fails req m' s s1)"
    "world_ok s1" "dns_part s1 = dns_part (before_reply s)" "clock s1 = clock s"
proof -
  have st: "h_store (agent_dns cenv env_addr fl) = agent_store cenv env_addr fl"
    by (simp add: agent_dns_def newDNSHandler_def)
  obtain m s1 where r: "reply srt (agent_dns cenv env_addr fl) req (before_reply s) = Done (m, s1)" "reply_ok req m" "world_ok s1"
    "dns_part s1 = dns_part (before_reply s)" "clock s1 = clock s"
    using sound_store.reply_sound [OF agent_store_sound [OF assms(1)] before_reply_ok [OF assms(2)]
        st assms(3), of srt]
    unfolding sound_reply_def by (auto simp: before_reply_def)
  obtain m' where m': "truncate_msg a (maxAnswers fl) m = Done m'"
    using truncate_msg_cases [OF assms(4)] by blast
  have "agent_handler srt cenv env_addr fl (connWriter a fails) req s = Done (after_reply a fails req m' s s1)"
    using dns_reply.chain_serves [OF r(1) m' r(4,5,3)] by (simp add: agent_handler_def)
  then show ?thesis using that r m' by blast
qed

text \<open>Both servers hand every request to this handler, whatever its question.\<close>

lemma agent_mux_root:
  assumes "MatchString rDNSZone (dnsZone fl)"
  shows "agent_mux srt cenv env_addr fl = Done (Inr [''.'' \<mapsto> agent_handler srt cenv env_addr fl])"
  using assms by (simp add: agent_mux_def Handle_def NewServeMux_def Fqdn_def IsFqdn_def)

end
