(* ===== verification/Consul_Properties.thy ===== *)
theory Consul_Properties
  imports Consul_Store
begin

text \<open>
  The theorems on the Consul store: what a lookup asks Consul for, how every response becomes a
  result, that services registered with the tags of \<^verbatim>\<open>infoToTags\<close> are found, and which servers
  belong to a zone.
\<close>

section \<open>Lookups\<close>

text \<open>The result of a lookup for each response of the health endpoint.\<close>

lemma consul_getInstances_cases:
  assumes "complete_decoder cenv"
    and "health_Service cenv c (product i) (job_tag i) True (query_options i) s = (res, s1)"
  shows "consul_getInstances cenv c i s = Done
    ((case res of
        Inl e \<Rightarrow> ([], Some (if Contains e ''No path to datacenter''
                           then newError errNoInstances ''unknown zone %s'' [SArg (zone i)]
                           else newError errConsulAPI ''%s'' [SArg e]))
      | Inr es \<Rightarrow>
          if es = [] then ([], Some (newError errNoInstances ''found for %s'' [SArg (addr i)]))
          else case find (\<lambda>e. \<not> entry_valid_ip e) es of
            None \<Rightarrow> (map entry_instance (filter (entry_matches i) es), None)
          | Some e \<Rightarrow> ([], Some (newError errInvalidIP ''parse failed for %s''
                       [SArg (node_Address (entry_node e))]))), s1)"
proof (cases res)
  case (Inr es)
  have "\<forall>e \<in> set es. complete_entry e"
    using health_Service_complete [OF assms(1), of c "product i" "job_tag i" True "query_options i" s es]
      assms(2) Inr by simp
  then show ?thesis
    using Inr assms(2) collect_instances_spec [of es i "[]"] by (simp add: consul_getInstances_def split: option.splits)
qed (use assms(2) in \<open>simp add: consul_getInstances_def\<close>)

text \<open>
  C14. The outcome of a lookup.  It never panics and reports every response of Consul in one way:
  success exactly if Consul answered with entries whose addresses are all valid, with the instances
  of the entries that carry both tags, in Consul's order; ``no instances'' for an unknown datacenter
  or an empty list; ``Consul API failed'' for any other failed request; and ``invalid IP address'' if
  some entry, matching or not, has an address that cannot be parsed.
\<close>

theorem lookup_outcomes:
  assumes "complete_decoder cenv"
    and "health_Service cenv c (product i) (job_tag i) True (query_options i) s = (res, s1)"
  shows "\<exists>ins err. consul_getInstances cenv c i s = Done ((ins, err), s1) \<and>
    (err = None \<longleftrightarrow> (\<exists>es. res = Inr es \<and> es \<noteq> [] \<and> (\<forall>e \<in> set es. entry_valid_ip e))) \<and>
    (\<forall>es. err = None \<and> res = Inr es \<longrightarrow> ins = map entry_instance (filter (entry_matches i) es)) \<and>
    (\<forall>e. err = Some e \<longrightarrow> ins = [] \<and>
       (isNoInstances e \<longleftrightarrow> res = Inr [] \<or>
          (\<exists>m. res = Inl m \<and> Contains m ''No path to datacenter'')) \<and>
       (isConsulAPI e \<longleftrightarrow> (\<exists>m. res = Inl m \<and> \<not> Contains m ''No path to datacenter'')) \<and>
       (isInvalidIP e \<longleftrightarrow> (\<exists>es. res = Inr es \<and> (\<exists>x \<in> set es. \<not> entry_valid_ip x))))"
proof (cases res)
  case (Inl m)
  then show ?thesis unfolding consul_getInstances_cases [OF assms] by simp
next
  case (Inr es)
  show ?thesis
  proof (cases "find (\<lambda>e. \<not> entry_valid_ip e) es")
    case None
    then have "\<forall>e \<in> set es. entry_valid_ip e" by (auto simp: find_None_iff)
    then show ?thesis
      unfolding consul_getInstances_cases [OF assms] using Inr None by auto
  next
    case (Some x)
    then have "x \<in> set es" "\<not> entry_valid_ip x" by (auto simp: find_Some_iff)
    then show ?thesis
      unfolding consul_getInstances_cases [OF assms] using Inr Some by auto
  qed
qed

text \<open>A Consul agent with one service and one server, as example.\<close>

definition sample_entry :: "ServiceEntry option" where
  "sample_entry = Some
     \<lparr>se_Node = Some \<lparr>node_Node = ''host1'', node_Address = ''10.0.0.1''\<rparr>,
      se_Service = Some \<lparr>svc_ID = ''a'', svc_Service = ''p'',
        svc_Tags = [''glimpse:env=e'', ''glimpse:job=j'', ''glimpse:service=s''],
        svc_Port = 8080, svc_Address = []\<rparr>\<rparr>"

definition sample_env :: consul_env where
  "sample_env =
     \<lparr>http_exchange = (\<lambda>_ _. Inr \<lparr>StatusCode = 200, Body = []\<rparr>),
      decodeEntries = (\<lambda>_. Inr [sample_entry]),
      decodeMembers = (\<lambda>_. Inr [Some \<lparr>mem_Name = ''node1.gg'', mem_Addr = ''10.0.0.2''\<rparr>])\<rparr>"

definition sample_target :: info where
  "sample_target = \<lparr>env = ''e'', job = ''j'', product = ''p'', provider = [], service = ''s'', zone = ''gg''\<rparr>"

lemma sample_env_complete: "complete_decoder sample_env"
  by (simp add: complete_decoder_def sample_env_def sample_entry_def)

lemma sample_env_requests:
  "health_Service sample_env c svc t p q s = (Inr [sample_entry], s\<lparr>tick := tick s + 2\<rparr>)"
  "agent_Members sample_env c w s =
    (Inr [Some \<lparr>mem_Name = ''node1.gg'', mem_Addr = ''10.0.0.2''\<rparr>], s\<lparr>tick := tick s + 2\<rparr>)"
  by (simp_all add: health_Service_def agent_Members_def doRequest_def requireOK_def time_Now_def
      sample_env_def Let_def)

lemma sample_entry_ok:
  "entry_valid_ip sample_entry" "entry_matches sample_target sample_entry"
  "entry_instance sample_entry =
    \<lparr>host = ''host1'', ip = [0, 0, 0, 0, 0, 0, 0, 0, 0, 0, 255, 255, 10, 0, 0, 1], port = 8080\<rparr>"
  by code_simp+

theorem lookup_outcomes_witness:
  "consul_getInstances sample_env (DefaultConfig []) sample_target (new_world (\<lambda>_. 0)) =
    Done (([entry_instance sample_entry], None), (new_world (\<lambda>_. 0))\<lparr>tick := 2\<rparr>)"
  using lookup_outcomes [OF sample_env_complete sample_env_requests(1),
      of "DefaultConfig []" sample_target "new_world (\<lambda>_. 0)"] sample_entry_ok
  by (auto simp: new_world_def)

text \<open>
  What a lookup asks Consul for.  Its result depends on the answer to one request only: a GET of
  the product's health, in the datacenter named by the zone, stale reads allowed, restricted to the
  instances that pass their checks and carry the tag of the job.
\<close>

theorem lookup_request:
  assumes "zone i \<noteq> []" "cfg_Token c = []" "cfg_WaitTime c = 0"
    and "r = health_request c (product i) (job_tag i) True (query_options i)"
  shows "req_method r = ''GET'' \<and> req_host r = cfg_Address c \<and>
    req_path r = ''/v1/health/service/'' @ product i \<and>
    req_params r = [''dc'' \<mapsto> zone i, ''stale'' \<mapsto> [], ''tag'' \<mapsto> ''glimpse:job='' @ job i,
      ''passing'' \<mapsto> ''1''] \<and>
    (\<forall>cenv'. (\<forall>k. http_exchange cenv' k r = http_exchange cenv k r) \<and>
       decodeEntries cenv' = decodeEntries cenv \<longrightarrow>
       consul_getInstances cenv' c i s = consul_getInstances cenv c i s)"
proof -
  have "req_method r = ''GET'' \<and> req_host r = cfg_Address c \<and>
    req_path r = ''/v1/health/service/'' @ product i \<and>
    req_params r = [''dc'' \<mapsto> zone i, ''stale'' \<mapsto> [], ''tag'' \<mapsto> ''glimpse:job='' @ job i,
      ''passing'' \<mapsto> ''1'']"
    using assms by (simp add: health_request_def newRequest_def setQueryOptions_def query_options_def
        tags_unfold Let_def)
  moreover have "consul_getInstances cenv' c i s = consul_getInstances cenv c i s"
    if "\<forall>k. http_exchange cenv' k r = http_exchange cenv k r" "decodeEntries cenv' = decodeEntries cenv"
    for cenv'
    using that assms(4)
    by (simp add: consul_getInstances_def health_Service_def doRequest_def Let_def time_Now_def
        cong: sum.case_cong)
  ultimately show ?thesis by blast
qed

theorem lookup_request_witness:
  "req_params (health_request (DefaultConfig []) ''p'' ''glimpse:job=j'' True (query_options sample_target)) =
    [''dc'' \<mapsto> ''gg'', ''stale'' \<mapsto> [], ''tag'' \<mapsto> ''glimpse:job=j'', ''passing'' \<mapsto> ''1'']"
  using lookup_request [of sample_target "DefaultConfig []" _ sample_env undefined, OF _ _ _ refl]
  by (simp add: sample_target_def DefaultConfig_def tags_unfold)

section \<open>Registrations\<close>

text \<open>The entry of a service that was registered on a node with the tags of an address.\<close>

definition registered :: "info \<Rightarrow> string \<Rightarrow> byte \<times> byte \<times> byte \<times> byte \<Rightarrow> int \<Rightarrow> ServiceEntry option" where
  "registered j n a p = Some
     \<lparr>se_Node = Some \<lparr>node_Node = n, node_Address = (case a of (w, x, y, z) \<Rightarrow> ipv4_text w x y z)\<rparr>,
      se_Service = Some \<lparr>svc_ID = [], svc_Service = product j, svc_Tags = infoToTags j, svc_Port = p,
        svc_Address = []\<rparr>\<rparr>"

lemma registered_simps:
  "complete_entry (registered j n a p)" "entry_valid_ip (registered j n a p)"
  "entry_matches i (registered j n a p) \<longleftrightarrow> env j = env i \<and> service j = service i"
  "entry_instance (registered j n (w, x, y, z) p) =
    \<lparr>host = n, ip = v4InV6Prefix @ [w, x, y, z], port = of_int p\<rparr>"
  by (auto simp: registered_def entry_valid_ip_def entry_matches_def entry_instance_def entry_node_def
      entry_service_def infoToTags_mem ParseIP_ipv4_text v4InV6Prefix_def split: prod.splits)

lemma port_of_int: "0 \<le> p \<Longrightarrow> p < 65536 \<Longrightarrow> uint (of_int p :: uint16) = p"
  by (simp add: unsigned_of_int take_bit_eq_mod)

lemma registered_lookup:
  assumes "health_Service cenv c (product i) (job_tag i) True (query_options i) s =
      (Inr (map (\<lambda>(j, n, a, p). registered j n a p) regs), s1)" (is "_ = (Inr ?es, s1)")
    and "regs \<noteq> []"
  shows "consul_getInstances cenv c i s =
    Done ((map entry_instance (filter (entry_matches i) ?es), None), s1)"
proof -
  have "find (\<lambda>e. \<not> entry_valid_ip e) ?es = None"
    by (auto simp: find_None_iff registered_simps)
  moreover have "\<forall>e \<in> set ?es. complete_entry e" by (auto simp: registered_simps)
  ultimately show ?thesis
    using assms(1,2) collect_instances_spec [of ?es i "[]"] by (simp add: consul_getInstances_def)
qed

text \<open>
  A service as a job registers it with Consul, and the catalogue of all of them.  A request for the
  health of a service selects, as Consul documents it, the registrations of that service in the
  datacenter of the request, that carry the tag of the request, and, with \<^verbatim>\<open>passing\<close>, whose
  checks pass.  For a datacenter that it does not know Consul answers with an error.
\<close>

record registration =
  reg_info :: info
  reg_node :: string
  reg_address :: string
  reg_port :: int
  reg_passing :: bool

definition registration_entry :: "registration \<Rightarrow> ServiceEntry option" where
  "registration_entry g = Some
     \<lparr>se_Node = Some \<lparr>node_Node = reg_node g, node_Address = reg_address g\<rparr>,
      se_Service = Some \<lparr>svc_ID = [], svc_Service = product (reg_info g),
        svc_Tags = infoToTags (reg_info g), svc_Port = reg_port g, svc_Address = []\<rparr>\<rparr>"

definition selects :: "request \<Rightarrow> registration \<Rightarrow> bool" where
  "selects r g \<longleftrightarrow>
     req_path r = ''/v1/health/service/'' @ product (reg_info g) \<and>
     req_params r ''dc'' = Some (zone (reg_info g)) \<and>
     (case req_params r ''tag'' of None \<Rightarrow> True | Some t \<Rightarrow> t \<in> set (infoToTags (reg_info g))) \<and>
     (req_params r ''passing'' = None \<or> reg_passing g)"

definition answers_health ::
  "consul_env \<Rightarrow> string \<Rightarrow> string list \<Rightarrow> registration list \<Rightarrow> bool" where
  "answers_health cenv a dcs regs \<longleftrightarrow>
     (\<forall>k r dc. req_method r = ''GET'' \<and> req_host r = a \<and>
        HasPrefix (req_path r) ''/v1/health/service/'' \<and> req_params r ''dc'' = Some dc \<longrightarrow>
        (\<exists>h. http_exchange cenv k r = Inr h \<and>
           (if dc \<in> set dcs
            then StatusCode h = 200 \<and>
              decodeEntries cenv (Body h) = Inr (map registration_entry (filter (selects r) regs))
            else StatusCode h = 500 \<and> Body h = ''No path to datacenter'')))"

text \<open>What the lookup of an address asks for, and what it keeps of the answer.\<close>

definition on_offer :: "info \<Rightarrow> registration \<Rightarrow> bool" where
  "on_offer i g \<longleftrightarrow> reg_passing g \<and> zone (reg_info g) = zone i \<and>
     product (reg_info g) = product i \<and> job (reg_info g) = job i"

lemma health_request_params:
  assumes "zone i \<noteq> []"
  shows "req_params (health_request c (product i) (job_tag i) True (query_options i)) ''dc'' = Some (zone i)"
    "req_params (health_request c (product i) (job_tag i) True (query_options i)) ''tag'' = Some (job_tag i)"
    "req_params (health_request c (product i) (job_tag i) True (query_options i)) ''passing'' = Some ''1''"
    "req_path (health_request c (product i) (job_tag i) True (query_options i)) =
      ''/v1/health/service/'' @ product i"
    "req_method (health_request c (product i) (job_tag i) True (query_options i)) = ''GET''"
    "req_host (health_request c (product i) (job_tag i) True (query_options i)) = cfg_Address c"
  using assms by (simp_all add: health_request_def newRequest_def setQueryOptions_def query_options_def
      tags_unfold Let_def)

lemma selects_health_request:
  assumes "zone i \<noteq> []"
  shows "selects (health_request c (product i) (job_tag i) True (query_options i)) = on_offer i"
  by (auto simp: fun_eq_iff selects_def on_offer_def health_request_params [OF assms] infoToTags_mem)

lemma registration_simps:
  "complete_entry (registration_entry g)"
  "entry_valid_ip (registration_entry g) \<longleftrightarrow> ParseIP (reg_address g) \<noteq> []"
  "entry_matches i (registration_entry g) \<longleftrightarrow>
    env (reg_info g) = env i \<and> service (reg_info g) = service i"
  "entry_instance (registration_entry g) =
    \<lparr>host = reg_node g, ip = ParseIP (reg_address g), port = of_int (reg_port g)\<rparr>"
  by (auto simp: registration_entry_def entry_valid_ip_def entry_matches_def entry_instance_def
      entry_node_def entry_service_def infoToTags_mem)

lemma health_Service_answer:
  assumes "answers_health cenv (cfg_Address c) dcs regs" "zone i \<noteq> []"
  shows "health_Service cenv c (product i) (job_tag i) True (query_options i) s =
    (if zone i \<in> set dcs then Inr (map registration_entry (filter (on_offer i) regs))
     else Inl ''Unexpected response code: 500 (No path to datacenter)'', s\<lparr>tick := tick s + 2\<rparr>)"
proof -
  let ?r = "health_request c (product i) (job_tag i) True (query_options i)"
  have "HasPrefix (req_path ?r) ''/v1/health/service/''"
    by (simp add: health_request_params [OF assms(2)] HasPrefix_def)
  then obtain h where h: "http_exchange cenv (tick s + 1) ?r = Inr h"
    "if zone i \<in> set dcs
     then StatusCode h = 200 \<and>
       decodeEntries cenv (Body h) = Inr (map registration_entry (filter (selects ?r) regs))
     else StatusCode h = 500 \<and> Body h = ''No path to datacenter''"
    using assms(1) health_request_params [OF assms(2)] unfolding answers_health_def by blast
  have "Itoa 500 = ''500''" by code_simp
  then show ?thesis
    using h by (simp add: health_Service_def doRequest_def time_Now_def requireOK_def Let_def
        selects_health_request [OF assms(2)] split: if_splits)
qed

text \<open>
  C15. Services registered with the tags that \<^verbatim>\<open>infoToTags\<close> computes are found again.  Over a
  Consul agent whose health endpoint answers from a catalogue of registrations, the lookup of an
  address with a zone yields exactly the passing registrations with its environment, job, product,
  service and zone, in the order of the catalogue, each with the name of its node, the address it was
  registered with (IPv4 or IPv6) and its port; it reports ``no instances'' if the zone is not a known
  datacenter or nothing passing is registered there for the product and job.
\<close>

theorem registered_found:
  assumes "answers_health cenv (cfg_Address c) dcs regs" "zone i \<noteq> []"
    and "\<forall>g \<in> set regs. ParseIP (reg_address g) \<noteq> [] \<and> 0 \<le> reg_port g \<and> reg_port g < 65536"
  shows "\<exists>ins err. consul_getInstances cenv c i s = Done ((ins, err), s\<lparr>tick := tick s + 2\<rparr>) \<and>
    (if zone i \<in> set dcs \<and> (\<exists>g \<in> set regs. reg_passing g \<and> zone (reg_info g) = zone i \<and>
           product (reg_info g) = product i \<and> job (reg_info g) = job i)
     then err = None \<and>
       map (\<lambda>x. (host x, ip x, uint (port x))) ins =
       map (\<lambda>g. (reg_node g, ParseIP (reg_address g), reg_port g))
         (filter (\<lambda>g. reg_passing g \<and> env (reg_info g) = env i \<and> job (reg_info g) = job i \<and>
            product (reg_info g) = product i \<and> service (reg_info g) = service i \<and>
            zone (reg_info g) = zone i) regs)
     else ins = [] \<and> (\<exists>e. err = Some e \<and> isNoInstances e))"
proof -
  let ?es = "map registration_entry (filter (on_offer i) regs)"
  have some: "filter (on_offer i) regs \<noteq> [] \<longleftrightarrow> (\<exists>g \<in> set regs. reg_passing g \<and>
      zone (reg_info g) = zone i \<and> product (reg_info g) = product i \<and> job (reg_info g) = job i)"
    by (auto simp: filter_empty_conv on_offer_def)
  have valid: "find (\<lambda>e. \<not> entry_valid_ip e) ?es = None"
    using assms(3) by (auto simp: find_None_iff registration_simps)
  have "\<forall>e \<in> set ?es. complete_entry e" by (auto simp: registration_simps)
  note loop = collect_instances_spec [OF this, of i "[]"]
  have kept: "map (\<lambda>x. (host x, ip x, uint (port x))) (map entry_instance (filter (entry_matches i) ?es)) =
    map (\<lambda>g. (reg_node g, ParseIP (reg_address g), reg_port g))
      (filter (\<lambda>g. reg_passing g \<and> env (reg_info g) = env i \<and> job (reg_info g) = job i \<and>
         product (reg_info g) = product i \<and> service (reg_info g) = service i \<and>
         zone (reg_info g) = zone i) regs)"
    using assms(3) by (induction regs) (auto simp: registration_simps port_of_int on_offer_def)
  note answer = health_Service_answer [OF assms(1,2), of s]
  have unknown: "Contains ''Unexpected response code: 500 (No path to datacenter)'' ''No path to datacenter''"
    by code_simp
  consider "zone i \<in> set dcs" "?es \<noteq> []" | "zone i \<in> set dcs" "?es = []" | "zone i \<notin> set dcs" by blast
  then show ?thesis
  proof cases
    case 1
    have "consul_getInstances cenv c i s =
        Done ((map entry_instance (filter (entry_matches i) ?es), None), s\<lparr>tick := tick s + 2\<rparr>)"
      unfolding consul_getInstances_def answer using 1 loop valid by simp
    then show ?thesis using 1 kept some by auto
  next
    case 2
    then have "\<not> (\<exists>g \<in> set regs. reg_passing g \<and> zone (reg_info g) = zone i \<and>
      product (reg_info g) = product i \<and> job (reg_info g) = job i)" using some by simp
    then show ?thesis unfolding consul_getInstances_def answer using 2 by auto
  next
    case 3
    then show ?thesis unfolding consul_getInstances_def answer by (simp add: unknown)
  qed
qed

text \<open>
  A Consul agent that answers from a catalogue: the body lists which registrations are selected.
\<close>

definition catalogue_env :: "string list \<Rightarrow> registration list \<Rightarrow> consul_env" where
  "catalogue_env dcs regs =
     \<lparr>http_exchange = (\<lambda>k r. Inr
        (case req_params r ''dc'' of
           None \<Rightarrow> \<lparr>StatusCode = 200, Body = []\<rparr>
         | Some dc \<Rightarrow>
             if dc \<in> set dcs then \<lparr>StatusCode = 200,
               Body = map (\<lambda>g. if selects r g then CHR ''1'' else CHR ''0'') regs\<rparr>
             else \<lparr>StatusCode = 500, Body = ''No path to datacenter''\<rparr>)),
      decodeEntries = (\<lambda>b. Inr (map (registration_entry \<circ> snd) (filter (\<lambda>(c, g). c = CHR ''1'') (zip b regs)))),
      decodeMembers = (\<lambda>_. Inr [])\<rparr>"

lemma catalogue_env_answers: "answers_health (catalogue_env dcs regs) a dcs regs"
proof -
  have "map (registration_entry \<circ> snd)
      (filter (\<lambda>(c, g). c = CHR ''1'') (zip (map (\<lambda>g. if P g then CHR ''1'' else CHR ''0'') gs) gs)) =
    map registration_entry (filter P gs)" for P gs
    by (induction gs) auto
  then show ?thesis by (simp add: answers_health_def catalogue_env_def)
qed

definition sample_regs :: "registration list" where
  "sample_regs =
     [\<lparr>reg_info = sample_target, reg_node = ''host1'', reg_address = ''10.0.0.1'', reg_port = 80,
       reg_passing = True\<rparr>,
      \<lparr>reg_info = sample_target\<lparr>env := ''test''\<rparr>, reg_node = ''host2'', reg_address = ''10.0.0.2'',
       reg_port = 80, reg_passing = True\<rparr>,
      \<lparr>reg_info = sample_target\<lparr>job := ''k''\<rparr>, reg_node = ''host3'', reg_address = ''10.0.0.3'',
       reg_port = 80, reg_passing = True\<rparr>,
      \<lparr>reg_info = sample_target, reg_node = ''host4'', reg_address = ''10.0.0.4'', reg_port = 8080,
       reg_passing = True\<rparr>]"

theorem registered_found_witness:
  "\<exists>ins. consul_getInstances (catalogue_env [''gg''] sample_regs) (DefaultConfig []) sample_target
      (new_world (\<lambda>_. 0)) = Done ((ins, None), (new_world (\<lambda>_. 0))\<lparr>tick := 2\<rparr>) \<and>
    map (\<lambda>x. (host x, ip x, uint (port x))) ins =
      [(''host1'', ParseIP ''10.0.0.1'', 80), (''host4'', ParseIP ''10.0.0.4'', 8080)]"
proof -
  have ips: "ParseIP ''10.0.0.1'' \<noteq> []" "ParseIP ''10.0.0.2'' \<noteq> []" "ParseIP ''10.0.0.3'' \<noteq> []"
    "ParseIP ''10.0.0.4'' \<noteq> []"
    by code_simp+
  have "zone sample_target \<noteq> []" by (simp add: sample_target_def)
  moreover have "\<forall>g \<in> set sample_regs. ParseIP (reg_address g) \<noteq> [] \<and> 0 \<le> reg_port g \<and> reg_port g < 65536"
    using ips by (simp add: sample_regs_def)
  ultimately show ?thesis
    using registered_found [OF catalogue_env_answers [of "[''gg'']" sample_regs "cfg_Address (DefaultConfig [])"],
        of sample_target "new_world (\<lambda>_. 0)"]
    by (simp add: sample_regs_def sample_target_def new_world_def numeral_2_eq_2)
qed

section \<open>Servers\<close>

lemma HasSuffix_dot:
  assumes "CHR ''.'' \<notin> set dc" "CHR ''.'' \<notin> set z"
  shows "HasSuffix (n @ ''.'' @ dc) (''.'' @ z) \<longleftrightarrow> dc = z"
proof
  assume "HasSuffix (n @ ''.'' @ dc) (''.'' @ z)"
  then obtain p where "n @ CHR ''.'' # dc = p @ CHR ''.'' # z" by (auto simp: HasSuffix_iff)
  then show "dc = z"
    using assms by (auto simp: append_eq_append_conv2 append_eq_Cons_conv Cons_eq_append_conv)
qed (auto simp: HasSuffix_iff)

text \<open>
  The servers of a zone.  Consul names the members of its server pool \<^verbatim>\<open><node>.<datacenter>\<close>;
  a lookup for a zone yields exactly the members of that datacenter, in Consul's order, with their
  node names and addresses, and a lookup for the empty zone yields all of them; a failed request is
  reported as ``Consul API failed''.
\<close>

theorem servers_of_zone:
  assumes "\<forall>(n, dc, a) \<in> set ms. n \<noteq> [] \<and> CHR ''.'' \<notin> set dc" "CHR ''.'' \<notin> set z"
    and "agent_Members cenv c True s = (res, s1)"
    and "\<forall>x. res = Inr x \<longrightarrow> x = map (\<lambda>(n, dc, a). Some \<lparr>mem_Name = n @ ''.'' @ dc, mem_Addr = a\<rparr>) ms"
  shows "consul_getServers cenv c z s = Done
    ((case res of
        Inl e \<Rightarrow> ([], Some (newError errConsulAPI ''%s'' [SArg e]))
      | Inr _ \<Rightarrow> (map (\<lambda>(n, dc, a). \<lparr>host = n, ip = ParseIP a, port = 0\<rparr>)
                   (filter (\<lambda>(n, dc, a). z = [] \<or> dc = z) ms), None)), s1)"
proof (cases res)
  case (Inr x)
  let ?m = "\<lambda>(n, dc, a). \<lparr>mem_Name = n @ ''.'' @ dc, mem_Addr = a\<rparr>"
  have x: "x = map Some (map ?m ms)" using assms(4) Inr by auto
  have "map member_instance (filter (server_in_zone z) (map ?m ms)) =
      map (\<lambda>(n, dc, a). \<lparr>host = n, ip = ParseIP a, port = 0\<rparr>)
        (filter (\<lambda>(n, dc, a). z = [] \<or> dc = z) ms)"
    using assms(1)
    by (induction ms)
       (auto simp: member_instance_def server_in_zone_def HasSuffix_dot [OF _ assms(2), simplified]
          server_name_zone [simplified])
  then show ?thesis
    using Inr assms(3) collect_servers_spec [of z "map ?m ms" "[]"] by (simp add: consul_getServers_def x)
qed (use assms(3) in \<open>simp add: consul_getServers_def\<close>)

theorem servers_of_zone_witness:
  "consul_getServers sample_env (DefaultConfig []) ''gg'' (new_world (\<lambda>_. 0)) =
    Done (([\<lparr>host = ''node1'', ip = ParseIP ''10.0.0.2'', port = 0\<rparr>], None),
      (new_world (\<lambda>_. 0))\<lparr>tick := 2\<rparr>)"
  using servers_of_zone [of "[(''node1'', ''gg'', ''10.0.0.2'')]" "''gg''" sample_env "DefaultConfig []",
      OF _ _ sample_env_requests(2)]
  by (simp add: new_world_def numeral_2_eq_2)

end
