(* ===== verification/Agent_Properties.thy ===== *)
theory Agent_Properties
  imports Agent_Main Consul_Properties
begin

text \<open>
  Theorems on the agent as a whole: the store as \<^verbatim>\<open>main\<close> assembles it, the observations it makes,
  and a request from the multiplexer to the wire.
\<close>

section \<open>Metric vectors\<close>

text \<open>The value of the child for given label values, the initial value if there is none yet.\<close>

definition current :: "'v MetricVec \<Rightarrow> string list \<Rightarrow> 'v" where
  "current v lvs = (case value_of v lvs of None \<Rightarrow> newVal v | Some x \<Rightarrow> x)"

lemma value_of_observe:
  "value_of (summary_Observe (fnv_write fnv_offset64 (concat lvs)) d
     (getOrCreateMetric v (fnv_write fnv_offset64 (concat lvs)) lvs)) lvs =
   Some (current v lvs @ [d])"
  by (auto simp: current_def value_of_def summary_Observe_def modify_def getOrCreateMetric_def newMetric_def
      split: option.splits)

lemma value_of_inc:
  "value_of (counter_Inc (fnv_write fnv_offset64 (concat lvs))
     (getOrCreateMetric v (fnv_write fnv_offset64 (concat lvs)) lvs)) lvs =
   Some (f64 (current v lvs + 1))"
  by (auto simp: current_def value_of_def counter_Inc_def modify_def getOrCreateMetric_def newMetric_def
      split: option.splits)

lemma value_of_set:
  "value_of (gauge_Set (fnv_write fnv_offset64 (concat lvs)) x
     (getOrCreateMetric v (fnv_write fnv_offset64 (concat lvs)) lvs)) lvs = Some x"
  by (auto simp: value_of_def gauge_Set_def modify_def getOrCreateMetric_def newMetric_def
      split: option.splits)

section \<open>The observations of the store\<close>

definition error_label :: "go_error option \<Rightarrow> string" where
  "error_label err = (case err of None \<Rightarrow> ''none'' | Some e \<Rightarrow> errToLabel e)"

definition tracked :: "int \<Rightarrow> string \<Rightarrow> go_error option \<Rightarrow> world \<Rightarrow> world" where
  "tracked st op err s =
     (let lvs = [error_label err, op]; h = fnv_write fnv_offset64 (concat lvs)
      in s\<lparr>tick := Suc (tick s),
           storeErrors := (if err = None then storeErrors s
             else counter_Inc h (getOrCreateMetric (storeErrors s) h lvs)),
           storeDurations := summary_Observe h (microseconds (clock s (tick s) - st))
             (getOrCreateMetric (storeDurations s) h lvs)\<rparr>)"

lemma trackStore_eq: "world_ok s \<Longrightarrow> trackStore st op err s = Done (tracked st op err s)"
  by (auto simp: trackStore_def tracked_def time_Since_def With_storeErrors Let_def world_ok_def
      error_label_def split: option.splits)

lemma tracked_frame [simp]:
  "clock (tracked st op err s) = clock s" "tick (tracked st op err s) = Suc (tick s)"
  "logged (tracked st op err s) = logged s" "storeCounts (tracked st op err s) = storeCounts s"
  by (simp_all add: tracked_def Let_def)

lemma tracked_values:
  "value_of (storeDurations (tracked st op err s)) [error_label err, op] =
     Some (current (storeDurations s) [error_label err, op] @ [microseconds (clock s (tick s) - st)])"
  "storeErrors (tracked st op None s) = storeErrors s"
  "err \<noteq> None \<Longrightarrow> value_of (storeErrors (tracked st op err s)) [error_label err, op] =
     Some (f64 (current (storeErrors s) [error_label err, op] + 1))"
  using value_of_observe [of "[error_label err, op]"] value_of_inc [of "[error_label err, op]"]
  by (auto simp: tracked_def Let_def)

lemma store_log_vectors [simp]:
  "storeErrors (store_log t op input err s) = storeErrors s"
  "storeDurations (store_log t op input err s) = storeDurations s"
  "storeCounts (store_log t op input err s) = storeCounts s"
  by (simp_all add: store_log_def Printf_def split: option.splits)

definition count_values :: "info \<Rightarrow> string list" where
  "count_values i = [service i, job i, env i, product i, zone i, ''getInstances'']"

definition counted :: "info \<Rightarrow> instances \<times> go_error option \<Rightarrow> world \<Rightarrow> world" where
  "counted i r s =
     (if snd r = None then s
      else s\<lparr>storeCounts := gauge_Set (fnv_write fnv_offset64 (concat (count_values i)))
               (f64 (int (length (fst r))))
               (getOrCreateMetric (storeCounts s) (fnv_write fnv_offset64 (concat (count_values i)))
                  (count_values i))\<rparr>)"

lemma counted_ok: "world_ok s \<Longrightarrow> world_ok (counted i r s)"
  by (auto simp: counted_def world_ok_def count_values_def countLabels_def
      intro!: vec_inv_updates vec_inv_getOrCreate)

lemma metrics_epilogue_eq:
  assumes "world_ok s2"
  shows "metrics_epilogue i s r s2 =
    trackStore (clock s (tick s)) ''getInstances'' (snd r) (counted i r s2)"
  using assms
  by (auto simp: metrics_epilogue_def counted_def With_storeCounts world_ok_def Let_def count_values_def)

text \<open>
  The world after a lookup through the store of the agent: the lookup itself reads the clock twice,
  after the two middlewares have read it once each.
\<close>

definition after_lookup :: "string \<Rightarrow> string \<Rightarrow> go_error option \<Rightarrow> world \<Rightarrow> world \<Rightarrow> world" where
  "after_lookup op input err s s2 =
     store_log (clock s (tick s + 5) - clock s (tick s)) op input err
       ((tracked (clock s (tick s + 1)) op err (s2\<lparr>tick := tick s + 4\<rparr>))\<lparr>tick := tick s + 6\<rparr>)"

lemma counted_frame [simp]:
  "clock (counted i r s) = clock s" "tick (counted i r s) = tick s"
  "storeErrors (counted i r s) = storeErrors s" "storeDurations (counted i r s) = storeDurations s"
  "logged (counted i r s) = logged s"
  by (simp_all add: counted_def)

lemma tracked_ok:
  assumes "world_ok s"
  shows "world_ok (tracked st op err s)" "dns_part (tracked st op err s) = dns_part s"
  using trackStore_ok [OF assms, of st op err] trackStore_eq [OF assms, of st op err] by auto

lemma after_lookup_ok:
  assumes "world_ok s2"
  shows "world_ok (after_lookup op input err s s2)"
    "dns_part (after_lookup op input err s s2) = dns_part s2"
    "clock (after_lookup op input err s s2) = clock s2"
  using tracked_ok [of "s2\<lparr>tick := tick s + 4\<rparr>"] assms by (simp_all add: after_lookup_def)

lemma agent_getInstances_eq:
  assumes "world_ok s"
    and "consul_getInstances cenv (agent_config env_addr fl) i (s\<lparr>tick := tick s + 2\<rparr>) = Done (r, s1)"
  shows "getInstances (agent_store cenv env_addr fl) i s =
    Done (r, after_lookup ''getInstances'' (addr i) (snd r) s (counted i r s))"
proof -
  have s1: "s1 = s\<lparr>tick := tick s + 4\<rparr>"
    using consul_getInstances_state [OF assms(2)] by simp
  then have ok: "world_ok s1" using assms(1) by simp
  have c: "counted i r s1 = (counted i r s)\<lparr>tick := tick s + 4\<rparr>"
    by (simp add: s1 counted_def)
  have "getInstances (newMetricsStore (newConsulStore cenv (agent_config env_addr fl))) i
      (s\<lparr>tick := Suc (tick s)\<rparr>) =
    Done (r, tracked (clock s (tick s + 1)) ''getInstances'' (snd r) ((counted i r s)\<lparr>tick := tick s + 4\<rparr>))"
    using assms(2) trackStore_eq [OF counted_ok [OF ok, of i r, unfolded c]] c
    by (simp add: metrics_mw.wrap_getInstances newConsulStore_def metrics_epilogue_eq [OF ok])
  then show ?thesis
    by (simp add: agent_store_def logging_mw.wrap_getInstances log_epilogue_def time_Since_def
        after_lookup_def add.commute)
qed

lemma agent_getServers_eq:
  assumes "world_ok s"
    and "consul_getServers cenv (agent_config env_addr fl) z (s\<lparr>tick := tick s + 2\<rparr>) = Done (r, s1)"
  shows "getServers (agent_store cenv env_addr fl) z s =
    Done (r, after_lookup ''getServers'' z (snd r) s s)"
proof -
  have s1: "s1 = s\<lparr>tick := tick s + 4\<rparr>"
    using consul_getServers_state [OF assms(2)] by simp
  then have ok: "world_ok (s\<lparr>tick := tick s + 4\<rparr>)" using assms(1) by simp
  have "getServers (newMetricsStore (newConsulStore cenv (agent_config env_addr fl))) z
      (s\<lparr>tick := Suc (tick s)\<rparr>) =
    Done (r, tracked (clock s (tick s + 1)) ''getServers'' (snd r) (s\<lparr>tick := tick s + 4\<rparr>))"
    using assms(2) trackStore_eq [OF ok] by (simp add: metrics_mw.wrap_getServers newConsulStore_def s1)
  then show ?thesis
    by (simp add: agent_store_def logging_mw.wrap_getServers log_epilogue_def time_Since_def
        after_lookup_def add.commute)
qed

text \<open>The observations of one lookup that was answered with \<open>r\<close>.\<close>

lemma after_lookup_observed:
  assumes "storeErrors s2 = storeErrors s" "storeDurations s2 = storeDurations s" "logged s2 = logged s"
    "clock s2 = clock s"
  shows "logged (after_lookup op input err s s2) = logged s @ (case err of None \<Rightarrow> [] | Some e \<Rightarrow>
      [Sprintf ''STORE %dms %s %s error: %s''
        [DArg (milliseconds (clock s (tick s + 5) - clock s (tick s))), SArg op, SArg input, SArg (Error e)]])"
    "value_of (storeDurations (after_lookup op input err s s2)) [error_label err, op] =
      Some (current (storeDurations s) [error_label err, op] @
            [microseconds (clock s (tick s + 4) - clock s (tick s + 1))])"
    "err = None \<Longrightarrow> storeErrors (after_lookup op input err s s2) = storeErrors s"
    "err \<noteq> None \<Longrightarrow> value_of (storeErrors (after_lookup op input err s s2)) [error_label err, op] =
      Some (f64 (current (storeErrors s) [error_label err, op] + 1))"
  using assms tracked_values(1) [of "clock s (tick s + 1)" op err "s2\<lparr>tick := tick s + 4\<rparr>"]
    tracked_values(3) [of err "clock s (tick s + 1)" op "s2\<lparr>tick := tick s + 4\<rparr>"]
  by (simp_all add: after_lookup_def store_log_logged tracked_values(2))

text \<open>
  What it means that \<open>here\<close> is the operation \<open>there\<close> with observations: the same result, one line in the
  log if and only if the operation failed, its duration observed under the label of its error and its
  name, and a failure counted under these labels.
\<close>

definition observed_lookup ::
  "world \<Rightarrow> string \<Rightarrow> string \<Rightarrow> (world \<Rightarrow> ((instances \<times> go_error option) \<times> world) run) \<Rightarrow>
    (world \<Rightarrow> ((instances \<times> go_error option) \<times> world) run) \<Rightarrow> bool" where
  "observed_lookup s op input there here \<longleftrightarrow> (\<exists>r s'.
     there (s\<lparr>tick := tick s + 2\<rparr>) = Done (r, s\<lparr>tick := tick s + 4\<rparr>) \<and> here s = Done (r, s') \<and>
     logged s' = logged s @ (case snd r of None \<Rightarrow> [] | Some e \<Rightarrow>
       [Sprintf ''STORE %dms %s %s error: %s''
         [DArg (milliseconds (clock s (tick s + 5) - clock s (tick s))), SArg op,
          SArg input, SArg (Error e)]]) \<and>
     value_of (storeDurations s') [error_label (snd r), op] =
       Some (current (storeDurations s) [error_label (snd r), op] @
             [microseconds (clock s (tick s + 4) - clock s (tick s + 1))]) \<and>
     (snd r = None \<longrightarrow> storeErrors s' = storeErrors s) \<and>
     (snd r \<noteq> None \<longrightarrow> value_of (storeErrors s') [error_label (snd r), op] =
       Some (f64 (current (storeErrors s) [error_label (snd r), op] + 1))))"

lemma observed_lookupI:
  assumes "there (s\<lparr>tick := tick s + 2\<rparr>) = Done (r, s\<lparr>tick := tick s + 4\<rparr>)"
    and "here s = Done (r, after_lookup op input (snd r) s s2)"
    and "storeErrors s2 = storeErrors s" "storeDurations s2 = storeDurations s" "logged s2 = logged s"
      "clock s2 = clock s"
  shows "observed_lookup s op input there here"
  unfolding observed_lookup_def using assms(1,2) after_lookup_observed [OF assms(3-6), where op = op and input = input and err = "snd r"]
  by (intro exI [of _ r] exI [of _ "after_lookup op input (snd r) s s2"] conjI impI)

text \<open>
  C17. The store of the agent is the Consul store with observations, for both of its operations:
  if Consul's lists are complete (without null pointers), a lookup returns exactly what Consul's store
  returns, adds one line to the log if and only if it failed, observes its duration under the label of
  its error and its operation, and counts a failure under those labels.
\<close>

theorem lookups_observed:
  assumes "world_ok s" "complete_decoder cenv"
  shows "observed_lookup s ''getInstances'' (addr i)
      (consul_getInstances cenv (agent_config env_addr fl) i) (getInstances (agent_store cenv env_addr fl) i) \<and>
    observed_lookup s ''getServers'' z
      (consul_getServers cenv (agent_config env_addr fl) z) (getServers (agent_store cenv env_addr fl) z)"
proof
  let ?s = "s\<lparr>tick := tick s + 2\<rparr>" and ?c = "agent_config env_addr fl"
  obtain r s1 where c: "consul_getInstances cenv ?c i ?s = Done (r, s1)"
    using consul_getInstances_returns [OF assms(2)] by (metis not_panics_iff surj_pair)
  show "observed_lookup s ''getInstances'' (addr i) (consul_getInstances cenv ?c i)
      (getInstances (agent_store cenv env_addr fl) i)"
    using c consul_getInstances_state [OF c] agent_getInstances_eq [OF assms(1) c]
    by (intro observed_lookupI [where ?s2.0 = "counted i r s" and r = r]) simp_all
next
  let ?s = "s\<lparr>tick := tick s + 2\<rparr>" and ?c = "agent_config env_addr fl"
  obtain r s1 where c: "consul_getServers cenv ?c z ?s = Done (r, s1)"
    using consul_getServers_returns [OF assms(2)] by (metis not_panics_iff surj_pair)
  show "observed_lookup s ''getServers'' z (consul_getServers cenv ?c z)
      (getServers (agent_store cenv env_addr fl) z)"
    using c consul_getServers_state [OF c] agent_getServers_eq [OF assms(1) c]
    by (intro observed_lookupI [where ?s2.0 = s and r = r]) simp_all
qed

text \<open>An agent with its default flags and a Consul agent that cannot be reached.\<close>

definition down_env :: consul_env where
  "down_env = sample_env\<lparr>http_exchange := \<lambda>_ _. Inl ''connection refused''\<rparr>"

lemma down_env_facts:
  "complete_decoder down_env"
  "consul_getInstances down_env c i s =
    Done (([], Some (newError errConsulAPI ''%s'' [SArg ''connection refused''])), s\<lparr>tick := tick s + 2\<rparr>)"
proof -
  show "complete_decoder down_env"
    using sample_env_complete by (simp add: complete_decoder_def down_env_def)
  have "\<not> Contains ''connection refused'' ''No path to datacenter''" by code_simp
  then show "consul_getInstances down_env c i s =
    Done (([], Some (newError errConsulAPI ''%s'' [SArg ''connection refused''])), s\<lparr>tick := tick s + 2\<rparr>)"
    by (simp add: consul_getInstances_def health_Service_def doRequest_def requireOK_def time_Now_def
        down_env_def Let_def)
qed

lemma new_world_values:
  "current (storeErrors (new_world c)) lvs = 0" "current (storeDurations (new_world c)) lvs = []"
  "logged (new_world c) = []"
  by (simp_all add: new_world_def current_def value_of_def NewVec_def)

lemma down_env_servers:
  "consul_getServers down_env c z s =
    Done (([], Some (newError errConsulAPI ''%s'' [SArg ''connection refused''])), s\<lparr>tick := tick s + 2\<rparr>)"
  by (simp add: consul_getServers_def agent_Members_def doRequest_def requireOK_def time_Now_def
      down_env_def Let_def)

theorem lookups_observed_witness:
  "(\<exists>s'. getInstances (agent_store down_env [] defaultFlags) sample_target (new_world (\<lambda>_. 0)) =
      Done (([], Some (newError errConsulAPI ''%s'' [SArg ''connection refused''])), s') \<and>
    value_of (storeErrors s') [''consulapi'', ''getInstances''] = Some 1 \<and> length (logged s') = 1) \<and>
   (\<exists>s'. getServers (agent_store down_env [] defaultFlags) ''gg'' (new_world (\<lambda>_. 0)) =
      Done (([], Some (newError errConsulAPI ''%s'' [SArg ''connection refused''])), s') \<and>
    value_of (storeErrors s') [''consulapi'', ''getServers''] = Some 1 \<and> length (logged s') = 1)"
proof -
  have "error_label (Some (newError errConsulAPI f as)) = ''consulapi''" for f as
    by (simp add: error_label_def newError_def errToLabel_def errLabels_def)
  then show ?thesis
    using lookups_observed [OF world_ok_new down_env_facts(1), where i = sample_target and env_addr = "[]" and fl = defaultFlags and z = "''gg''" and c1 = "\<lambda>_. 0"]
    by (auto simp: observed_lookup_def down_env_facts down_env_servers new_world_values)
qed

text \<open>
  The gauge \<^verbatim>\<open>glimpse_agent_consul_responses\<close> never shows the number of instances: a successful
  lookup leaves it alone, and a failed one sets it to zero.
\<close>

theorem responses_gauge:
  assumes "world_ok s" "complete_decoder cenv"
    and "getInstances (agent_store cenv env_addr fl) i s = Done ((ins, err), s')"
  shows "(err = None \<longrightarrow> storeCounts s' = storeCounts s) \<and>
    (err \<noteq> None \<longrightarrow> value_of (storeCounts s') (count_values i) = Some 0)"
proof -
  obtain r s1 where c: "consul_getInstances cenv (agent_config env_addr fl) i (s\<lparr>tick := tick s + 2\<rparr>) =
      Done (r, s1)"
    using consul_getInstances_returns [OF assms(2)] by (metis not_panics_iff surj_pair)
  have r: "r = (ins, err)" "s' = after_lookup ''getInstances'' (addr i) (snd r) s (counted i r s)"
    using assms(3) agent_getInstances_eq [OF assms(1) c] by auto
  obtain res s2 where "health_Service cenv (agent_config env_addr fl) (product i) (job_tag i) True
      (query_options i) (s\<lparr>tick := tick s + 2\<rparr>) = (res, s2)" by fastforce
  note outcome = consul_getInstances_cases [OF assms(2) this]
  have "err \<noteq> None \<longrightarrow> ins = []"
    using c [unfolded outcome] r(1) by (auto split: sum.splits if_splits option.splits)
  moreover have "storeCounts s' = storeCounts (counted i r s)"
    by (simp add: r(2) after_lookup_def)
  ultimately show ?thesis
    using value_of_set [of "count_values i" "f64 0" "storeCounts s"]
    by (auto simp: counted_def r(1))
qed

theorem responses_gauge_witness:
  "\<exists>ins err s'. getInstances (agent_store down_env [] defaultFlags) sample_target (new_world (\<lambda>_. 0)) =
      Done ((ins, err), s') \<and> err \<noteq> None \<and>
    value_of (storeCounts s') (count_values sample_target) = Some 0"
  using responses_gauge [OF world_ok_new down_env_facts(1)
      agent_getInstances_eq [OF world_ok_new down_env_facts(2), of "[]" defaultFlags sample_target "\<lambda>_. 0"]]
    agent_getInstances_eq [OF world_ok_new down_env_facts(2), of "[]" defaultFlags sample_target "\<lambda>_. 0"]
  by blast

section \<open>Requests\<close>

lemma after_reply_fields:
  "sent (after_reply a fails req m s s1) = sent s @ (if fails m = None then [(a, m)] else [])"
  "logged (after_reply a fails req m s s1) =
    logged s1 @ [log_line a (clock s (tick s1) - clock s (tick s)) m (fails m)]"
  "value_of (dnsDurations (after_reply a fails req m s s1))
      [protocol_label a, qtype_label req, RcodeToString (Rcode m)] =
    Some (current (dnsDurations s) [protocol_label a, qtype_label req, RcodeToString (Rcode m)] @
      [microseconds (clock s (tick s1 + 1) - clock s (tick s + 1))])"
  using value_of_observe [of "[protocol_label a, qtype_label req, RcodeToString (Rcode m)]"]
  by (simp_all add: after_reply_def Let_def)



lemma registered_records:
  "Qtype q = TypeSRV \<Longrightarrow>
    map (rr_of q) (map entry_instance (filter (entry_matches i)
      (map (\<lambda>(j, n, a, p). registered j n a p) regs))) =
    map (\<lambda>(j, n, a, p). RR_SRV \<lparr>srv_Hdr = answer_hdr q, srv_Priority = 0, srv_Weight = 0,
           srv_Port = of_int p, srv_Target = Fqdn n\<rparr>)
      (filter (\<lambda>(j, n, a, p). env j = env i \<and> service j = service i) regs)"
  by (induction regs) (auto simp: registered_simps rr_of_def dns_simps)

text \<open>
  C1. Service discovery from end to end: if Consul returns services that were registered with the
  tags of \<^verbatim>\<open>infoToTags\<close>, a client that asks the agent for the SRV records of an address gets an
  authoritative answer with exactly one record for each registration of that environment and service,
  in Consul's order, naming its node and port; over UDP the answer is cut to the configured number.
\<close>

theorem service_discovery:
  assumes "world_ok s" "MatchString rDNSZone (dnsZone fl)" "0 \<le> maxAnswers fl"
    and "Questions req = [q]" "valid_info i" "qName q = addr i @ ''.'' @ Fqdn (dnsZone fl)" "Qtype q = TypeSRV"
    and "\<forall>k. http_exchange cenv k (health_request (agent_config env_addr fl) (product i) (job_tag i) True
           (query_options i)) = Inr \<lparr>StatusCode = 200, Body = b\<rparr>"
    and "decodeEntries cenv b = Inr (map (\<lambda>(j, n, a, p). registered j n a p) regs)" "regs \<noteq> []"
  shows "\<exists>mux m s'. agent_mux srt cenv env_addr fl = Done (Inr mux) \<and>
    ServeMux_ServeDNS mux (connWriter a (\<lambda>_. None)) req s = Done s' \<and>
    sent s' = sent s @ [(a, m)] \<and> Rcode m = RcodeSuccess \<and> Authoritative m \<and>
    Answer m = (if protocol_label a = ''udp'' then take (nat (maxAnswers fl)) else (\<lambda>x. x))
      (map (\<lambda>(j, n, a, p). RR_SRV \<lparr>srv_Hdr = answer_hdr q, srv_Priority = 0, srv_Weight = 0,
             srv_Port = of_int p, srv_Target = Fqdn n\<rparr>)
        (filter (\<lambda>(j, n, a, p). env j = env i \<and> service j = service i) regs))"
proof -
  let ?c = "agent_config env_addr fl" and ?h = "agent_dns cenv env_addr fl"
  let ?ins = "map entry_instance (filter (entry_matches i) (map (\<lambda>(j, n, a, p). registered j n a p) regs))"
  let ?m = "(newResponse req)\<lparr>Authoritative := True, Rcode := RcodeSuccess, Answer := map (rr_of q) ?ins\<rparr>"
  let ?s0 = "before_reply s"
  let ?s1 = "after_lookup ''getInstances'' (addr i) None ?s0 (counted i (?ins, None) ?s0)"
  have ok: "world_ok ?s0" using assms(1) by (rule before_reply_ok)
  have "health_Service cenv ?c (product i) (job_tag i) True (query_options i) (?s0\<lparr>tick := tick ?s0 + 2\<rparr>) =
      (Inr (map (\<lambda>(j, n, a, p). registered j n a p) regs), ?s0\<lparr>tick := tick ?s0 + 4\<rparr>)"
    using assms(8,9) by (simp add: health_Service_def doRequest_def requireOK_def time_Now_def Let_def)
  note lookup = agent_getInstances_eq [OF ok registered_lookup [OF this assms(10)]]
  have h: "h_store ?h = agent_store cenv env_addr fl" "h_domain ?h = Fqdn (dnsZone fl)"
    by (simp_all add: agent_dns_def newDNSHandler_def)
  have "reply srt ?h req ?s0 = Done (?m, ?s1)"
    using reply_service [of req q "addr i" ?h i srt ?s0] infoFromAddr_addr [OF assms(5)] assms(4,6,7) lookup
    by (simp add: h)
  moreover obtain m' where m': "truncate_msg a (maxAnswers fl) ?m = Done m'"
    using truncate_msg_cases [OF assms(3)] by blast
  moreover have "dns_part ?s1 = dns_part ?s0" "clock ?s1 = clock s" "world_ok ?s1"
    using ok after_lookup_ok [of ?s0 "''getInstances''" "addr i" None ?s0]
    by (simp_all add: counted_def before_reply_def)
  ultimately have "agent_handler srt cenv env_addr fl (connWriter a (\<lambda>_. None)) req s =
      Done (after_reply a (\<lambda>_. None) req m' s ?s1)"
    by (simp add: agent_handler_def dns_reply.chain_serves)
  then have "ServeMux_ServeDNS [''.'' \<mapsto> agent_handler srt cenv env_addr fl] (connWriter a (\<lambda>_. None)) req s =
      Done (after_reply a (\<lambda>_. None) req m' s ?s1)"
    using assms(4) by (simp add: ServeMux_ServeDNS_def match_root_only)
  moreover have "Rcode m' = RcodeSuccess" "Authoritative m'"
    "Answer m' = (if protocol_label a = ''udp'' then take (nat (maxAnswers fl)) else (\<lambda>x. x)) (map (rr_of q) ?ins)"
    using m' assms(3) by (auto simp: truncate_msg_cases split: if_splits)
  ultimately show ?thesis
    using agent_mux_root [OF assms(2), of srt cenv env_addr]
      after_reply_fields(1) [of a "\<lambda>_. None" req m' s ?s1]
    unfolding registered_records [OF assms(7)] by auto
qed

theorem service_discovery_witness:
  "\<exists>mux m s'. agent_mux insertionSort
      (sample_env\<lparr>decodeEntries := \<lambda>_. Inr [registered sample_target ''host1'' (10, 0, 0, 1) 80]\<rparr>)
      [] defaultFlags = Done (Inr mux) \<and>
    ServeMux_ServeDNS mux (connWriter (TCPAddr ''c'') (\<lambda>_. None))
      (sample_request (addr sample_target @ ''.'' @ Fqdn (dnsZone defaultFlags)) TypeSRV)
      (new_world (\<lambda>_. 0)) = Done s' \<and>
    sent s' = [(TCPAddr ''c'', m)] \<and> length (Answer m) = 1"
proof -
  have "MatchString rDNSZone (dnsZone defaultFlags)" by code_simp
  moreover have "valid_info sample_target" by code_simp
  ultimately show ?thesis
    using service_discovery [OF world_ok_new, of defaultFlags
        "sample_request (addr sample_target @ ''.'' @ Fqdn (dnsZone defaultFlags)) TypeSRV"
        "\<lparr>qName = addr sample_target @ ''.'' @ Fqdn (dnsZone defaultFlags), Qtype = TypeSRV, Qclass = ClassINET\<rparr>"
        sample_target
        "sample_env\<lparr>decodeEntries := \<lambda>_. Inr [registered sample_target ''host1'' (10, 0, 0, 1) 80]\<rparr>"
        "[]" "[]" "[(sample_target, ''host1'', (10, 0, 0, 1), 80)]" insertionSort "TCPAddr ''c''" "\<lambda>_. 0"]
    by (auto simp: sample_request_def defaultFlags_def defaultMaxAnswers_def sample_env_def new_world_def
        protocol_label_def)
qed

end
