(* ===== verification/Agent_Process.thy ===== *)
theory Agent_Process
  imports Agent_Main "HOL-Library.Transitive_Closure_Table"
begin

text \<open>
  The life of the agent's process in \<^verbatim>\<open>agent/main.go\<close>: four goroutines that run until they
  fail or a signal arrives, each of which then sends one error over the channel \<^verbatim>\<open>errc\<close>, and
  the main goroutine that receives the first error and ends the process with it.  The channel has a
  buffer for one error, so a later sender blocks.
\<close>

datatype task = ServerTCP | ServerUDP | ServerHTTP | SignalHandler

definition all_tasks :: "task list" where
  "all_tasks = [ServerTCP, ServerUDP, ServerHTTP, SignalHandler]"

text \<open>The line a task logs when it starts, and the error it sends when it ends with \<open>cause\<close>.\<close>

definition start_line :: "flags \<Rightarrow> task \<Rightarrow> string option" where
  "start_line fl t =
     (case t of
        ServerTCP \<Rightarrow> Some (Sprintf ''DNS/%s listening on %s'' [SArg ''tcp'', SArg (dnsAddr fl)])
      | ServerUDP \<Rightarrow> Some (Sprintf ''DNS/%s listening on %s'' [SArg ''udp'', SArg (dnsAddr fl)])
      | ServerHTTP \<Rightarrow> Some (Sprintf ''HTTP listening on %s'' [SArg (httpAddr fl)])
      | SignalHandler \<Rightarrow> None)"

definition exit_error :: "task \<Rightarrow> string \<Rightarrow> string" where
  "exit_error t cause =
     (case t of
        ServerTCP \<Rightarrow> Sprintf ''[error] DNS/%s - server failed: %s'' [SArg ''tcp'', SArg cause]
      | ServerUDP \<Rightarrow> Sprintf ''[error] DNS/%s - server failed: %s'' [SArg ''udp'', SArg cause]
      | ServerHTTP \<Rightarrow> Sprintf ''[error] HTTP - server failed: %s'' [SArg cause]
      | SignalHandler \<Rightarrow> Sprintf ''[info] got signal: %s. Good bye'' [SArg cause])"

record process =
  running :: "task list"
  sending :: "string list"
  errc :: "string list"
  exited :: "string option"

definition errc_cap :: nat where
  "errc_cap = 1"

definition start :: process where
  "start = \<lparr>running = all_tasks, sending = [], errc = [], exited = None\<rparr>"

inductive step :: "process \<Rightarrow> process \<Rightarrow> bool" where
  task_ends:
    "exited p = None \<Longrightarrow> t \<in> set (running p) \<Longrightarrow>
      step p (p\<lparr>running := remove1 t (running p), sending := sending p @ [exit_error t cause]\<rparr>)"
| send:
    "exited p = None \<Longrightarrow> e \<in> set (sending p) \<Longrightarrow> length (errc p) < errc_cap \<Longrightarrow>
      step p (p\<lparr>sending := remove1 e (sending p), errc := errc p @ [e]\<rparr>)"
| receive:
    "exited p = None \<Longrightarrow> errc p = e # es \<Longrightarrow> step p (p\<lparr>errc := es, exited := Some e\<rparr>)"

inductive_cases stepE: "step p q"

text \<open>
  A goroutine of the process may also panic at any time: one of the four tasks, or a goroutine that
  they start for a request or a connection.  Nothing in \<^verbatim>\<open>agent/main.go\<close> recovers, so the whole
  process ends at once, without an error over the channel.  \<open>life\<close> is the process with such panics;
  \<open>step\<close> alone is its orderly part.
\<close>

datatype life_state = Alive process | Panicked

inductive life :: "life_state \<Rightarrow> life_state \<Rightarrow> bool" where
  orderly: "step p q \<Longrightarrow> life (Alive p) (Alive q)"
| panics: "exited p = None \<Longrightarrow> life (Alive p) Panicked"

inductive_cases lifeE: "life S T"

inductive_simps life_simps: "life (Alive p) (Alive q)" "life (Alive p) Panicked" "life Panicked S"

section \<open>Invariants\<close>

text \<open>
  Every error on its way or delivered is that of a task that has ended; each task that has ended
  has its error in one place only; the buffer is never exceeded.
\<close>

definition errors_of :: "process \<Rightarrow> string list" where
  "errors_of p = sending p @ errc p @ (case exited p of None \<Rightarrow> [] | Some e \<Rightarrow> [e])"

definition process_inv :: "process \<Rightarrow> bool" where
  "process_inv p \<longleftrightarrow>
     length (errc p) \<le> errc_cap \<and> distinct (running p) \<and> set (running p) \<subseteq> set all_tasks \<and>
     length (errors_of p) + length (running p) = length all_tasks \<and>
     (\<forall>e \<in> set (errors_of p). \<exists>t cause. t \<notin> set (running p) \<and> e = exit_error t cause)"

lemma process_inv_start: "process_inv start"
  by (simp add: process_inv_def start_def all_tasks_def errors_of_def errc_cap_def)

lemma process_inv_step: "step p q \<Longrightarrow> process_inv p \<Longrightarrow> process_inv q"
proof (induction rule: step.induct)
  case (task_ends p t cause)
  have "length (remove1 t (running p)) + 1 = length (running p)"
    using task_ends(2) by (simp add: length_remove1) (metis Suc_pred length_pos_if_in_set)
  moreover have "set (remove1 t (running p)) = set (running p) - {t}"
    using task_ends by (simp add: process_inv_def set_remove1_eq)
  ultimately show ?case
    using task_ends unfolding process_inv_def errors_of_def
    by (simp add: distinct_remove1) blast
next
  case (send p e)
  have "length (remove1 e (sending p)) + 1 = length (sending p)"
    using send(2) by (simp add: length_remove1) (metis Suc_pred length_pos_if_in_set)
  moreover have "set (remove1 e (sending p)) \<subseteq> set (sending p)" by (rule set_remove1_subset)
  ultimately show ?case
    using send by (fastforce simp: process_inv_def errors_of_def errc_cap_def)
next
  case (receive p e es)
  then show ?case by (auto simp: process_inv_def errors_of_def errc_cap_def)
qed

lemma life_reachable: "life\<^sup>*\<^sup>* (Alive p) (Alive q) \<longleftrightarrow> step\<^sup>*\<^sup>* p q"
proof
  have "\<exists>q. S = Alive q \<and> step\<^sup>*\<^sup>* p q" if "life\<^sup>*\<^sup>* (Alive p) S" "S \<noteq> Panicked" for S
    using that
  proof (induction rule: rtranclp_induct)
    case (step S T)
    then show ?case by (cases T) (auto simp: life_simps elim!: lifeE intro: rtranclp.rtrancl_into_rtrancl)
  qed simp
  then show "life\<^sup>*\<^sup>* (Alive p) (Alive q) \<Longrightarrow> step\<^sup>*\<^sup>* p q" by blast
  show "step\<^sup>*\<^sup>* p q \<Longrightarrow> life\<^sup>*\<^sup>* (Alive p) (Alive q)"
    by (induction rule: rtranclp_induct) (auto intro: life.orderly rtranclp.rtrancl_into_rtrancl)
qed

lemma process_inv_reachable: "step\<^sup>*\<^sup>* start p \<Longrightarrow> process_inv p"
  by (induction rule: rtranclp_induct) (auto intro: process_inv_start process_inv_step)

text \<open>Once a task has ended and the process has not, the process can end.\<close>

lemma can_exit:
  assumes "process_inv p" "exited p = None" "length (running p) < length all_tasks"
  shows "\<exists>q. step\<^sup>*\<^sup>* p q \<and> exited q \<noteq> None"
proof -
  have "errors_of p \<noteq> []" using assms(1,3) by (auto simp: process_inv_def)
  then consider e es where "errc p = e # es" | e where "errc p = []" "e \<in> set (sending p)"
    using assms(2) by (cases "errc p") (fastforce simp: errors_of_def neq_Nil_conv)+
  then show ?thesis
  proof cases
    case 1
    then have "step p (p\<lparr>errc := es, exited := Some e\<rparr>)" using assms(2) step.receive by blast
    moreover have "exited (p\<lparr>errc := es, exited := Some e\<rparr>) \<noteq> None" by simp
    ultimately show ?thesis by blast
  next
    case 2
    let ?q = "p\<lparr>sending := remove1 e (sending p), errc := errc p @ [e]\<rparr>"
    have "step p ?q" using 2 assms(2) by (intro step.send) (simp_all add: errc_cap_def)
    moreover have "step ?q (?q\<lparr>errc := [], exited := Some e\<rparr>)"
      using 2 assms(2) by (intro step.receive) simp_all
    ultimately have "step\<^sup>*\<^sup>* p (?q\<lparr>errc := [], exited := Some e\<rparr>)" by (rule converse_rtranclp_into_rtranclp [OF _ r_into_rtranclp])
    moreover have "exited (?q\<lparr>errc := [], exited := Some e\<rparr>) \<noteq> None" by simp
    ultimately show ?thesis by blast
  qed
qed

text \<open>After the process has ended nothing happens any more.\<close>

lemma exited_final: "exited p \<noteq> None \<Longrightarrow> \<not> step p q"
  by (auto elim: stepE)

end
