(* ===== verification/Mirror.thy ===== *)
theory Mirror
  imports Agent_World
begin

text \<open>
  \<^verbatim>\<open>utils/mirror/main.go\<close>: copies the questions that a resolver logs to another server.  The
  lines of the log, the exchange with the server and the formatting of a time stamp are parameters.
  The queries run in goroutines, at most fifty at a time: the channel \<^verbatim>\<open>pool\<close> holds one token for
  each of them.
\<close>

section \<open>Queries\<close>

record mirror_flags =
  srcLog :: string
  srcDomain :: string
  dstDomain :: string
  dstServer :: string
  dstProtocol :: string

record mirror_client =
  client_addr :: string
  client_net :: string
  client_Net :: string

definition mirror_newClient :: "string \<Rightarrow> string \<Rightarrow> mirror_client" where
  "mirror_newClient a n = \<lparr>client_addr = a, client_net = [], client_Net = n\<rparr>"

text \<open>\<open>exchange\<close> sends a message over a protocol to an address; \<open>newId\<close> is the random id.\<close>

type_synonym exchange = "string \<Rightarrow> string \<Rightarrow> Msg \<Rightarrow> string + Msg"

definition mirror_query ::
  "exchange \<Rightarrow> uint16 \<Rightarrow> mirror_client \<Rightarrow> string \<Rightarrow> string \<Rightarrow> string option" where
  "mirror_query exchange newId c q qtype =
     (let m = SetQuestion newId empty_Msg q (StringToType qtype) in
      case exchange (client_Net c) (client_addr c) m of
        Inl err \<Rightarrow> Some (Sprintf ''failed %s %s: %s'' [SArg q, SArg qtype, SArg err])
      | Inr r \<Rightarrow>
          if Rcode r = RcodeSuccess \<or> Rcode r = RcodeNameError \<or> Rcode r = RcodeNotImplemented
          then None
          else Some (Sprintf ''failed %s %s: unexpected %s''
                 [SArg q, SArg qtype, SArg (RcodeToString (Rcode r))]))"

section \<open>The loop\<close>

record mirror_state =
  m_count :: int
  m_lastCount :: int
  m_position :: string
  m_pool :: nat
  m_queries :: "(string \<times> string) list"
  m_log :: "string list"

definition mirror_start :: mirror_state where
  "mirror_start = \<lparr>m_count = 0, m_lastCount = 0, m_position = [], m_pool = 0, m_queries = [], m_log = []\<rparr>"

definition pool_cap :: nat where
  "pool_cap = 50"

text \<open>The question in a line of the log: its name and type, for the source domain only.\<close>

definition mirror_match :: "mirror_flags \<Rightarrow> string option \<times> string \<Rightarrow> (string \<times> string \<times> string) option" where
  "mirror_match fl line =
     (case line of
        (Some err, text) \<Rightarrow> None
      | (None, text) \<Rightarrow>
          let fields = Fields text in
          if length fields \<noteq> 7 \<or> fields ! 3 \<noteq> ''resolving'' then None
          else if \<not> HasSuffix (fields ! 4) (srcDomain fl) then None
          else Some (ReplaceAll (fields ! 4) (srcDomain fl) (dstDomain fl), fields ! 5, fields ! 0))"

definition mirror_tick :: "(int \<Rightarrow> string) \<Rightarrow> mirror_state \<Rightarrow> mirror_state run" where
  "mirror_tick fmt_time s =
     run_bind
       (if 12 \<le> length (m_position s) then
          (case ParseInt (take (length (m_position s) - 2) (drop 1 (m_position s))) of
             Inl e \<Rightarrow> Panic (PanicError ''strconv.ParseInt'')
           | Inr i \<Rightarrow> Done (fmt_time i))
        else Done ''unknown'')
       (\<lambda>ts. Done (s\<lparr>m_log := m_log s @ [Sprintf ''read %s: mirrored %d r/s''
                               [SArg ts, DArg (m_count s - m_lastCount s)]],
                     m_lastCount := m_count s\<rparr>))"

text \<open>
  One step of the program: a line is read and, if it holds a question for the source domain and
  the pool has room, its query is started; a query ends; the ticker fires.
\<close>

inductive mirror_step :: "mirror_flags \<Rightarrow> (int \<Rightarrow> string) \<Rightarrow> mirror_state \<Rightarrow> mirror_state \<Rightarrow> bool"
  for fl :: mirror_flags and fmt_time :: "int \<Rightarrow> string" where
  skip_line: "mirror_match fl line = None \<Longrightarrow> mirror_step fl fmt_time s s"
| start_query: "mirror_match fl line = Some (dname, qtype, pos) \<Longrightarrow> m_pool s < pool_cap \<Longrightarrow>
    mirror_step fl fmt_time s
      (s\<lparr>m_pool := Suc (m_pool s), m_queries := m_queries s @ [(dname, qtype)],
         m_count := m_count s + 1, m_position := pos\<rparr>)"
| end_query: "0 < m_pool s \<Longrightarrow> mirror_step fl fmt_time s (s\<lparr>m_pool := m_pool s - 1\<rparr>)"
| tick: "mirror_tick fmt_time s = Done s' \<Longrightarrow> mirror_step fl fmt_time s s'"

section \<open>Properties\<close>

definition mirror_inv :: "mirror_state \<Rightarrow> bool" where
  "mirror_inv s \<longleftrightarrow>
     m_pool s \<le> pool_cap \<and> int (m_pool s) \<le> m_count s \<and> 0 \<le> m_lastCount s \<and>
     m_lastCount s \<le> m_count s \<and> m_count s = int (length (m_queries s))"

lemma mirror_tick_Done:
  assumes "mirror_tick fmt_time s = Done s'"
  shows "\<exists>line. s' = s\<lparr>m_log := m_log s @ [line], m_lastCount := m_count s\<rparr>"
  using assms by (auto simp: mirror_tick_def run_bind_Done_iff)

lemma mirror_inv_step: "mirror_step fl fmt_time s s' \<Longrightarrow> mirror_inv s \<Longrightarrow> mirror_inv s'"
  by (induction rule: mirror_step.induct) (auto simp: mirror_inv_def dest!: mirror_tick_Done)

lemma mirror_inv_reachable:
  "(mirror_step fl fmt_time)\<^sup>*\<^sup>* mirror_start s \<Longrightarrow> mirror_inv s"
proof (induction rule: rtranclp_induct)
  case base
  show ?case by (simp add: mirror_inv_def mirror_start_def)
qed (rule mirror_inv_step)

text \<open>The names that are queried: a name below the source domain is moved to the destination.\<close>

lemma ReplaceAll_suffix:
  assumes "old \<noteq> []" "\<forall>a b. p @ old = a @ old @ b \<longrightarrow> b = []"
  shows "ReplaceAll (p @ old) old new = p @ new"
  using replace_from_suffix [OF assms] assms(1) by (simp add: ReplaceAll_def)

end
