(* ===== verification/Stare.thy ===== *)
theory Stare
  imports Agent_World
begin

text \<open>
  \<^verbatim>\<open>utils/stare/main.go\<close>: sends one query at a fixed rate and prints every second how many were
  sent and how many failed.  The two counters are 64-bit words changed by atomic additions from the
  goroutines, so each addition is one step.
\<close>

record stare_client =
  s_addr :: string
  s_net :: string
  s_Net :: string

definition stare_newClient :: "string \<Rightarrow> string \<Rightarrow> stare_client" where
  "stare_newClient a n = \<lparr>s_addr = a, s_net = [], s_Net = n\<rparr>"

definition stare_query ::
  "(string \<Rightarrow> string \<Rightarrow> Msg \<Rightarrow> string + Msg) \<Rightarrow> uint16 \<Rightarrow> stare_client \<Rightarrow> string \<Rightarrow> string option" where
  "stare_query exchange newId c q =
     (let m = SetQuestion newId empty_Msg q TypeSRV in
      case exchange (s_Net c) (s_addr c) m of
        Inl err \<Rightarrow> Some (Sprintf ''failed %s: %s'' [SArg q, SArg err])
      | Inr r \<Rightarrow>
          if Rcode r \<noteq> RcodeSuccess
          then Some (Sprintf ''failed %s: unexpected %s'' [SArg q, SArg (RcodeToString (Rcode r))])
          else None)"

text \<open>The interval between two queries, in nanoseconds.\<close>

definition stare_interval :: "int \<Rightarrow> int run" where
  "stare_interval qps =
     (if qps = 0 then Panic (PanicError ''integer divide by zero'') else Done (go_div 1000000000 qps))"

record stare_state =
  requests :: uint64
  errors :: uint64
  in_flight :: nat
  uncounted :: bool
  lastr :: uint64
  laste :: uint64
  s_logged :: "string list"
  printed :: "(uint64 \<times> uint64) list"

definition stare_start :: stare_state where
  "stare_start = \<lparr>requests = 0, errors = 0, in_flight = 0, uncounted = False, lastr = 0, laste = 0, s_logged = [], printed = []\<rparr>"

definition stare_line :: "string \<Rightarrow> uint64 \<times> uint64 \<Rightarrow> string" where
  "stare_line q p =
     Sprintf (CHR 0x0D # ''%s [%d r/s, %d err/s]'')
       [SArg q, DArg (int (unat (fst p))), DArg (int (unat (snd p)))]"

definition stare_report :: "stare_state \<Rightarrow> stare_state" where
  "stare_report s =
     (let r = requests s; e = errors s in
      s\<lparr>printed := printed s @ [(r - lastr s, e - laste s)], lastr := r, laste := e\<rparr>)"

text \<open>
  The loop starts a query and then counts it, while queries that were started, the uncounted one
  included, may end with their results and seconds may pass.
\<close>

inductive stare_step :: "bool \<Rightarrow> stare_state \<Rightarrow> stare_state \<Rightarrow> bool" for logging :: bool where
  spawn: "\<not> uncounted s \<Longrightarrow>
    stare_step logging s (s\<lparr>in_flight := Suc (in_flight s), uncounted := True\<rparr>)"
| count: "uncounted s \<Longrightarrow>
    stare_step logging s (s\<lparr>requests := requests s + 1, uncounted := False\<rparr>)"
| query_ok: "0 < in_flight s \<Longrightarrow> stare_step logging s (s\<lparr>in_flight := in_flight s - 1\<rparr>)"
| query_fails: "0 < in_flight s \<Longrightarrow>
    stare_step logging s
      (s\<lparr>in_flight := in_flight s - 1, errors := errors s + 1,
         s_logged := (if logging then s_logged s @ [err] else s_logged s)\<rparr>)"
| second: "stare_step logging s (stare_report s)"

section \<open>Properties\<close>

text \<open>
  The printed rates add up to the counters at the last report, modulo the width of the counters:
  no request is reported twice or dropped.
\<close>

definition stare_inv :: "stare_state \<Rightarrow> bool" where
  "stare_inv s \<longleftrightarrow>
     sum_list (map fst (printed s)) = lastr s \<and> sum_list (map snd (printed s)) = laste s"

lemma stare_inv_step: "stare_step l s s' \<Longrightarrow> stare_inv s \<Longrightarrow> stare_inv s'"
  by (induction rule: stare_step.induct) (auto simp: stare_inv_def stare_report_def Let_def)

lemma stare_inv_reachable: "(stare_step l)\<^sup>*\<^sup>* stare_start s \<Longrightarrow> stare_inv s"
proof (induction rule: rtranclp_induct)
  case base
  show ?case by (simp add: stare_inv_def stare_start_def)
qed (rule stare_inv_step)

end
