(* ===== verification/Process_Properties.thy ===== *)
theory Process_Properties
  imports Agent_Process Mirror Stare
begin

text \<open>
  The theorems on the step relations: the life of the agent's process and the two load tools.
\<close>

section \<open>The agent's process\<close>

text \<open>
  C35. How the process ends.  In every state of its life in which no goroutine has panicked the
  channel holds at most its capacity, and each of the four tasks is running or has one error that is
  waiting, in the channel or received; if the process has exited, then with the error of a task that
  has ended.  The only other end is a panic, which may come at any time before that, and after either
  end nothing happens any more.
\<close>

theorem process_exit_cause:
  assumes "life\<^sup>*\<^sup>* (Alive start) S"
  shows "(\<forall>p. S = Alive p \<longrightarrow>
      length (errc p) \<le> 1 \<and> length (errors_of p) + length (running p) = 4 \<and>
      (\<forall>e. exited p = Some e \<longrightarrow> (\<exists>t cause. t \<notin> set (running p) \<and> e = exit_error t cause))) \<and>
    ((\<nexists>T. life S T) \<longleftrightarrow> S = Panicked \<or> (\<exists>p e. S = Alive p \<and> exited p = Some e)) \<and>
    (life S Panicked \<longleftrightarrow> (\<exists>p. S = Alive p \<and> exited p = None))"
proof (cases S)
  case (Alive p)
  then have "process_inv p" using assms process_inv_reachable by (simp add: life_reachable)
  moreover have "(\<nexists>T. life S T) \<longleftrightarrow> exited p \<noteq> None"
    using exited_final [of p] life.panics [of p] by (auto simp: Alive elim: lifeE)
  ultimately show ?thesis
    by (auto simp: Alive life_simps process_inv_def errc_cap_def all_tasks_def errors_of_def)
qed (simp add: life_simps)

theorem process_exit_cause_witness:
  "(\<exists>S. life\<^sup>*\<^sup>* (Alive start) S \<and> S = Alive (start\<lparr>running := remove1 SignalHandler all_tasks,
      exited := Some (exit_error SignalHandler ''interrupt'')\<rparr>) \<and> \<not> life S Panicked) \<and>
    life\<^sup>*\<^sup>* (Alive start) Panicked \<and> (\<nexists>T. life Panicked T)"
proof -
  let ?e = "exit_error SignalHandler ''interrupt''"
  let ?p = "start\<lparr>running := remove1 SignalHandler all_tasks, sending := [?e]\<rparr>"
  let ?q = "start\<lparr>running := remove1 SignalHandler all_tasks, errc := [?e]\<rparr>"
  let ?r = "start\<lparr>running := remove1 SignalHandler all_tasks, exited := Some ?e\<rparr>"
  have "step start ?p"
    using step.task_ends [of start SignalHandler "''interrupt''"] by (simp add: start_def all_tasks_def)
  moreover have "step ?p ?q"
    using step.send [of ?p ?e] by (simp add: start_def errc_cap_def)
  moreover have "step ?q ?r"
    using step.receive [of ?q ?e "[]"] by (simp add: start_def)
  ultimately have reach: "life\<^sup>*\<^sup>* (Alive start) (Alive ?r)"
    by (meson life.orderly r_into_rtranclp rtranclp_trans)
  have panic: "life\<^sup>*\<^sup>* (Alive start) Panicked" using life.panics [of start] by (simp add: start_def r_into_rtranclp)
  show ?thesis
    using reach panic process_exit_cause [OF reach] process_exit_cause [OF panic] by simp
qed

text \<open>What is left to do: every step makes it less.\<close>

definition work :: "process \<Rightarrow> nat" where
  "work p = 3 * length (running p) + 2 * length (sending p) + length (errc p)"

lemma length_remove1_mem: "x \<in> set xs \<Longrightarrow> Suc (length (remove1 x xs)) = length xs"
  by (simp add: length_remove1) (metis Suc_pred length_pos_if_in_set)

lemma step_work: "step p q \<Longrightarrow> work q < work p"
  by (induction rule: step.induct) (auto simp: work_def dest!: length_remove1_mem)

lemma steps_work: "(step ^^ n) p q \<Longrightarrow> n + work q \<le> work p"
proof (induction n arbitrary: q)
  case (Suc n)
  then obtain r where "(step ^^ n) p r" "step r q" by auto
  then show ?case using Suc.IH step_work by fastforce
qed simp

lemma not_stuck:
  assumes "process_inv p" "exited p = None"
  shows "\<exists>q. step p q"
proof (cases "errc p")
  case (Cons e es)
  then show ?thesis using step.receive assms(2) by blast
next
  case Nil
  show ?thesis
  proof (cases "running p")
    case (Cons t ts)
    then show ?thesis using step.task_ends [of p t] assms(2) by auto
  next
    case rNil: Nil
    then have "sending p \<noteq> []"
      using assms Nil by (auto simp: process_inv_def errors_of_def all_tasks_def)
    then show ?thesis
      using step.send [of p "hd (sending p)"] assms(2) Nil by (auto simp: errc_cap_def)
  qed
qed

text \<open>
  C34. Shutting down.  The main goroutine always gets to end the process: a run has at most twelve
  steps, a state in which nothing can happen any more is one in which the process has exited, and
  from the moment the first task has ended the exit is within reach.
\<close>

theorem process_terminates:
  assumes "(step ^^ n) start p"
  shows "n \<le> 12 \<and> ((\<nexists>q. step p q) \<longleftrightarrow> exited p \<noteq> None) \<and>
    (length (running p) < 4 \<longrightarrow> (\<exists>q. step\<^sup>*\<^sup>* p q \<and> exited q \<noteq> None))"
proof -
  have "step\<^sup>*\<^sup>* start p" using assms by (rule relpowp_imp_rtranclp)
  then have inv: "process_inv p" by (rule process_inv_reachable)
  have "work start = 12" by (simp add: work_def start_def all_tasks_def)
  then have "n \<le> 12" using steps_work [OF assms] by simp
  moreover have "(\<nexists>q. step p q) \<longleftrightarrow> exited p \<noteq> None"
    using not_stuck [OF inv] exited_final by blast
  moreover have "\<exists>q. step\<^sup>*\<^sup>* p q \<and> exited q \<noteq> None" if "length (running p) < 4"
    using can_exit [OF inv] that by (cases "exited p") (auto simp: all_tasks_def)
  ultimately show ?thesis by blast
qed

theorem process_terminates_witness: "\<exists>q. step start q"
proof -
  have "(step ^^ 0) start start" by simp
  moreover have "exited start = None" by (simp add: start_def)
  ultimately show ?thesis using process_terminates [of 0 start] by auto
qed

section \<open>The mirror\<close>

definition mirrored :: "mirror_flags \<Rightarrow> mirror_state \<Rightarrow> bool" where
  "mirrored fl s \<longleftrightarrow> (\<forall>(q, t) \<in> set (m_queries s). \<exists>text.
     length (Fields text) = 7 \<and> Fields text ! 3 = ''resolving'' \<and>
     HasSuffix (Fields text ! 4) (srcDomain fl) \<and>
     q = ReplaceAll (Fields text ! 4) (srcDomain fl) (dstDomain fl) \<and> t = Fields text ! 5)"

lemma mirror_match_Some:
  "mirror_match fl line = Some (q, t, pos) \<Longrightarrow> \<exists>text. line = (None, text) \<and>
     length (Fields text) = 7 \<and> Fields text ! 3 = ''resolving'' \<and>
     HasSuffix (Fields text ! 4) (srcDomain fl) \<and>
     q = ReplaceAll (Fields text ! 4) (srcDomain fl) (dstDomain fl) \<and> t = Fields text ! 5"
  by (auto simp: mirror_match_def Let_def split: prod.splits option.splits if_splits)

lemma mirrored_step: "mirror_step fl f s s' \<Longrightarrow> mirrored fl s \<Longrightarrow> mirrored fl s'"
proof (induction rule: mirror_step.induct)
  case (start_query line dname qtype pos s)
  then show ?case using mirror_match_Some [OF start_query(1)] by (auto simp: mirrored_def)
next
  case (tick s s')
  then show ?case using mirror_tick_Done [OF tick(1)] by (auto simp: mirrored_def)
qed (auto simp: mirrored_def)

text \<open>
  The mirror never has more than fifty queries in flight, counts each query it starts once, and
  sends only questions it has read in the log, of the source domain and moved to the destination
  domain.
\<close>

theorem mirror_bounded:
  assumes "(mirror_step fl fmt_time)\<^sup>*\<^sup>* mirror_start s"
  shows "m_pool s \<le> 50 \<and> m_count s = int (length (m_queries s)) \<and> 0 \<le> m_count s - m_lastCount s \<and>
    mirrored fl s"
proof -
  have "mirrored fl s"
    using assms
    by (induction rule: rtranclp_induct) (auto simp: mirrored_step, simp add: mirrored_def mirror_start_def)
  then show ?thesis using mirror_inv_reachable [OF assms] by (simp add: mirror_inv_def pool_cap_def)
qed

theorem mirror_bounded_witness:
  "m_pool (mirror_start :: mirror_state) \<le> 50 \<and> m_count mirror_start = 0"
  using mirror_bounded [of undefined undefined mirror_start] by (simp add: mirror_start_def)

section \<open>The load generator\<close>

text \<open>
  The rates that \<^verbatim>\<open>stare\<close> prints add up: in every reachable state the sum of the printed request
  rates and that of the error rates are the counters at the last report, modulo \<open>2 ^ 64\<close>.
\<close>

theorem stare_rates:
  assumes "(stare_step logging)\<^sup>*\<^sup>* stare_start s"
  shows "sum_list (map fst (printed s)) = lastr s \<and> sum_list (map snd (printed s)) = laste s \<and>
    sum_list (map fst (printed (stare_report s))) = requests s \<and>
    sum_list (map snd (printed (stare_report s))) = errors s"
  using stare_inv_reachable [OF assms] by (simp add: stare_inv_def stare_report_def Let_def)

theorem stare_rates_witness: "sum_list (map fst (printed (stare_report stare_start))) = 0"
  using stare_rates [of True stare_start] by (simp add: stare_start_def)

end
