(* ===== verification/Prometheus_Registry.thy ===== *)
theory Prometheus_Registry
  imports Prometheus Go_Regexp
begin

text \<open>
  Descriptors and the registry of the Prometheus client library (\<^verbatim>\<open>desc.go\<close>, \<^verbatim>\<open>metric.go\<close>,
  \<^verbatim>\<open>registry.go\<close>).  A collector is registered under the sum of the ids of its descriptors; the
  descriptors arrive over a channel, here as the list of what \<^verbatim>\<open>Describe\<close> sends.  The lock that
  a registration holds makes each operation one step.
\<close>

section \<open>Descriptors\<close>

definition metricNameRE :: rexp where
  "metricNameRE =
     Seq (Class [(97, 122), (65, 90), (95, 95)])
         (Star (Class [(97, 122), (65, 90), (48, 57), (95, 95), (58, 58)]))"

definition labelNameRE :: rexp where
  "labelNameRE =
     Seq (Class [(97, 122), (65, 90), (95, 95)])
         (Star (Class [(97, 122), (65, 90), (48, 57), (95, 95)]))"

definition checkLabelName :: "string \<Rightarrow> bool" where
  "checkLabelName l \<longleftrightarrow> MatchString labelNameRE l \<and> \<not> HasPrefix l ''__''"

definition SeparatorByte :: char where
  "SeparatorByte = CHR 0xFF"

datatype desc_error =
    EmptyHelp | InvalidMetricName string | InvalidLabelName string | DuplicateLabelNames

record Desc =
  fqName :: string
  descHelp :: string
  constLabelPairs :: Labels
  descVariableLabels :: "string list"
  descId :: uint64
  dimHash :: uint64
  descErr :: "desc_error option"

definition BuildFQName :: "string \<Rightarrow> string \<Rightarrow> string \<Rightarrow> string" where
  "BuildFQName ns sub n =
     (if n = [] then []
      else if ns \<noteq> [] \<and> sub \<noteq> [] then Join [ns, sub, n] ''_''
      else if ns \<noteq> [] then Join [ns, n] ''_''
      else if sub \<noteq> [] then Join [sub, n] ''_''
      else n)"

text \<open>Every string is hashed with a separator byte after it.\<close>

definition fnv_separated :: "uint64 \<Rightarrow> string list \<Rightarrow> uint64" where
  "fnv_separated h vals = foldl (\<lambda>h v. fnv_write h (v @ [SeparatorByte])) h vals"

definition invalid_desc :: "string \<Rightarrow> string \<Rightarrow> string list \<Rightarrow> desc_error \<Rightarrow> Desc" where
  "invalid_desc n hlp vls e =
     \<lparr>fqName = n, descHelp = hlp, constLabelPairs = [], descVariableLabels = vls, descId = 0,
      dimHash = 0, descErr = Some e\<rparr>"

definition NewDesc :: "string \<Rightarrow> string \<Rightarrow> string list \<Rightarrow> Labels \<Rightarrow> Desc" where
  "NewDesc n hlp vls cls =
     (if hlp = [] then invalid_desc n hlp vls EmptyHelp
      else if \<not> MatchString metricNameRE n then invalid_desc n hlp vls (InvalidMetricName n)
      else
        (case find (\<lambda>l. \<not> checkLabelName l) (map fst cls @ vls) of
           Some l \<Rightarrow> invalid_desc n hlp vls (InvalidLabelName l)
         | None \<Rightarrow>
             let constNames = sort (map fst cls);
                 vals = n # map (label_value cls) constNames;
                 names = constNames @ map (\<lambda>l. CHR ''$'' # l) vls
             in if length names \<noteq> card (set (map fst cls @ vls))
                then invalid_desc n hlp vls DuplicateLabelNames
                else
                  \<lparr>fqName = n, descHelp = hlp,
                   constLabelPairs = sort_key fst cls,
                   descVariableLabels = vls,
                   descId = fnv_separated fnv_offset64 vals,
                   dimHash = fnv_separated fnv_offset64 (hlp # sort names),
                   descErr = None\<rparr>))"

section \<open>The registry\<close>

record 'c registry =
  collectorsByID :: "uint64 \<rightharpoonup> 'c"
  descIDs :: "uint64 set"
  dimHashesByName :: "string \<rightharpoonup> uint64"

definition newRegistry :: "'c registry" where
  "newRegistry = \<lparr>collectorsByID = Map.empty, descIDs = {}, dimHashesByName = Map.empty\<rparr>"

datatype reg_error =
    InvalidDescriptor desc_error
  | DuplicateDesc string
  | InconsistentWithRegistered string
  | InconsistentInCollector string
  | NoDescriptors
  | errAlreadyReg

text \<open>The local variables of \<^verbatim>\<open>Register\<close>.\<close>

record reg_vars =
  newDescIDs :: "uint64 set"
  newDimHashesByName :: "string \<rightharpoonup> uint64"
  collectorID :: uint64
  duplicateDescErr :: "reg_error option"

definition check_desc :: "'c registry \<Rightarrow> Desc \<Rightarrow> reg_vars \<Rightarrow> reg_error + reg_vars" where
  "check_desc r d v =
     (case descErr d of
        Some e \<Rightarrow> Inl (InvalidDescriptor e)
      | None \<Rightarrow>
          let v = (if descId d \<in> descIDs r
                   then v\<lparr>duplicateDescErr := Some (DuplicateDesc (fqName d))\<rparr> else v);
              v = (if descId d \<notin> newDescIDs v
                   then v\<lparr>newDescIDs := insert (descId d) (newDescIDs v),
                          collectorID := collectorID v + descId d\<rparr> else v)
          in (case dimHashesByName r (fqName d) of
                Some h \<Rightarrow>
                  if h \<noteq> dimHash d then Inl (InconsistentWithRegistered (fqName d)) else Inr v
              | None \<Rightarrow>
                  (case newDimHashesByName v (fqName d) of
                     Some h \<Rightarrow>
                       if h \<noteq> dimHash d then Inl (InconsistentInCollector (fqName d)) else Inr v
                   | None \<Rightarrow>
                       Inr (v\<lparr>newDimHashesByName :=
                              (newDimHashesByName v)(fqName d \<mapsto> dimHash d)\<rparr>))))"

fun check_descs :: "'c registry \<Rightarrow> Desc list \<Rightarrow> reg_vars \<Rightarrow> reg_error + reg_vars" where
  "check_descs r [] v = Inr v"
| "check_descs r (d # ds) v =
     (case check_desc r d v of Inl e \<Rightarrow> Inl e | Inr v' \<Rightarrow> check_descs r ds v')"

definition reg_start :: reg_vars where
  "reg_start = \<lparr>newDescIDs = {}, newDimHashesByName = Map.empty, collectorID = 0,
     duplicateDescErr = None\<rparr>"

text \<open>
  The collector that a registration returns beside the error: the one given, the one found under
  the same id, or \<^verbatim>\<open>nil\<close>.
\<close>

definition Register ::
  "'c registry \<Rightarrow> 'c \<Rightarrow> Desc list \<Rightarrow> ('c option \<times> reg_error option) \<times> 'c registry" where
  "Register r c descs =
     (case check_descs r descs reg_start of
        Inl (InvalidDescriptor e) \<Rightarrow> ((Some c, Some (InvalidDescriptor e)), r)
      | Inl e \<Rightarrow> ((None, Some e), r)
      | Inr v \<Rightarrow>
          if newDescIDs v = {} then ((None, Some NoDescriptors), r)
          else
            (case collectorsByID r (collectorID v) of
               Some existing \<Rightarrow> ((Some existing, Some errAlreadyReg), r)
             | None \<Rightarrow>
                 (case duplicateDescErr v of
                    Some e \<Rightarrow> ((None, Some e), r)
                  | None \<Rightarrow>
                      ((Some c, None),
                       r\<lparr>collectorsByID := (collectorsByID r)(collectorID v \<mapsto> c),
                         descIDs := descIDs r \<union> newDescIDs v,
                         dimHashesByName := dimHashesByName r ++ newDimHashesByName v\<rparr>))))"

definition RegisterOrGet ::
  "'c registry \<Rightarrow> 'c \<Rightarrow> Desc list \<Rightarrow> ('c option \<times> reg_error option) \<times> 'c registry" where
  "RegisterOrGet r c descs =
     (let ((existing, err), r') = Register r c descs in
      if err \<noteq> None \<and> err \<noteq> Some errAlreadyReg then ((None, err), r') else ((existing, None), r'))"

definition MustRegister :: "'c registry \<Rightarrow> 'c \<Rightarrow> Desc list \<Rightarrow> 'c registry run" where
  "MustRegister r c descs =
     (let ((_, err), r') = Register r c descs in
      if err \<noteq> None then Panic (PanicError ''registration failed'') else Done r')"

fun desc_ids :: "Desc list \<Rightarrow> uint64 set \<Rightarrow> uint64 \<Rightarrow> uint64 set \<times> uint64" where
  "desc_ids [] ids cid = (ids, cid)"
| "desc_ids (d # ds) ids cid =
     (if descId d \<notin> ids then desc_ids ds (insert (descId d) ids) (cid + descId d)
      else desc_ids ds ids cid)"

definition Unregister :: "'c registry \<Rightarrow> Desc list \<Rightarrow> bool \<times> 'c registry" where
  "Unregister r descs =
     (let (ids, cid) = desc_ids descs {} 0 in
      if collectorsByID r cid = None then (False, r)
      else (True, r\<lparr>collectorsByID := (collectorsByID r)(cid := None),
                     descIDs := descIDs r - ids\<rparr>))"

section \<open>Properties\<close>

lemma Register_error_unchanged:
  "Register r c descs = ((res, Some e), r') \<Longrightarrow> r' = r"
  by (auto simp: Register_def split: sum.splits reg_error.splits if_splits option.splits)

lemma Register_no_descs: "Register r c [] = ((None, Some NoDescriptors), r)"
  by (simp add: Register_def reg_start_def)

text \<open>The ids of the loop of \<^verbatim>\<open>Register\<close> are those of the loop of \<^verbatim>\<open>Unregister\<close>.\<close>

lemma check_desc_ids:
  "check_desc r d v = Inr v' \<Longrightarrow>
    newDescIDs v' = insert (descId d) (newDescIDs v) \<and>
    collectorID v' = (if descId d \<in> newDescIDs v then collectorID v else collectorID v + descId d)"
  by (auto simp: check_desc_def Let_def split: option.splits if_splits)

lemma check_descs_ids:
  "check_descs r ds v = Inr v' \<Longrightarrow>
    desc_ids ds (newDescIDs v) (collectorID v) = (newDescIDs v', collectorID v')"
proof (induction ds arbitrary: v)
  case (Cons d ds)
  then obtain v1 where v1: "check_desc r d v = Inr v1" "check_descs r ds v1 = Inr v'"
    by (auto split: sum.splits)
  show ?case
    using Cons.IH [OF v1(2)] check_desc_ids [OF v1(1)] by (auto simp: insert_absorb)
qed simp

lemma check_descs_fresh:
  "check_descs r ds v = Inr v' \<Longrightarrow> duplicateDescErr v' = None \<Longrightarrow>
    duplicateDescErr v = None \<and> (\<forall>d \<in> set ds. descId d \<notin> descIDs r)"
proof (induction ds arbitrary: v)
  case (Cons d ds)
  then obtain v1 where v1: "check_desc r d v = Inr v1" "check_descs r ds v1 = Inr v'"
    by (auto split: sum.splits)
  then show ?case
    using Cons.IH [OF v1(2) Cons.prems(2)]
    by (auto simp: check_desc_def Let_def split: option.splits if_splits)
qed simp

lemma desc_ids_set: "fst (desc_ids ds ids cid) = ids \<union> descId ` set ds"
  by (induction ds arbitrary: ids cid) auto

lemma Register_Done:
  assumes "Register r c descs = ((res, None), r')"
  shows "\<exists>ids cid. desc_ids descs {} 0 = (ids, cid) \<and> ids \<noteq> {} \<and> ids = descId ` set descs \<and>
    ids \<inter> descIDs r = {} \<and> collectorsByID r cid = None \<and>
    collectorsByID r' = (collectorsByID r)(cid \<mapsto> c) \<and> descIDs r' = descIDs r \<union> ids"
proof -
  obtain v where v: "check_descs r descs reg_start = Inr v" "newDescIDs v \<noteq> {}"
    "collectorsByID r (collectorID v) = None" "duplicateDescErr v = None"
    "r' = r\<lparr>collectorsByID := (collectorsByID r)(collectorID v \<mapsto> c),
            descIDs := descIDs r \<union> newDescIDs v,
            dimHashesByName := dimHashesByName r ++ newDimHashesByName v\<rparr>"
    using assms by (auto simp: Register_def split: sum.splits reg_error.splits if_splits option.splits)
  have ids: "desc_ids descs {} 0 = (newDescIDs v, collectorID v)"
    using check_descs_ids [OF v(1)] by (simp add: reg_start_def)
  have "newDescIDs v = descId ` set descs" using desc_ids_set [of descs "{}" 0] ids by simp
  moreover have "newDescIDs v \<inter> descIDs r = {}"
    using check_descs_fresh [OF v(1,4)] calculation by auto
  ultimately show ?thesis using ids v by auto
qed

lemma check_descs_dims:
  assumes "check_descs r ds v = Inr v'"
    and "\<forall>n. newDimHashesByName v n \<noteq> None \<longrightarrow> dimHashesByName r n = None"
  shows "(\<forall>n. newDimHashesByName v' n \<noteq> None \<longrightarrow> dimHashesByName r n = None) \<and>
    newDimHashesByName v \<subseteq>\<^sub>m newDimHashesByName v' \<and>
    (\<forall>d \<in> set ds. descErr d = None \<and>
      (dimHashesByName r (fqName d) = Some (dimHash d) \<or>
       newDimHashesByName v' (fqName d) = Some (dimHash d)))"
  using assms
proof (induction ds arbitrary: v)
  case (Cons d ds)
  obtain v1 where v1: "check_desc r d v = Inr v1" "check_descs r ds v1 = Inr v'"
    using Cons.prems(1) by (auto split: sum.splits)
  have step: "\<forall>n. newDimHashesByName v1 n \<noteq> None \<longrightarrow> dimHashesByName r n = None"
    "newDimHashesByName v \<subseteq>\<^sub>m newDimHashesByName v1" "descErr d = None"
    "dimHashesByName r (fqName d) = Some (dimHash d) \<or>
     newDimHashesByName v1 (fqName d) = Some (dimHash d)"
    using v1(1) Cons.prems(2)
    by (auto simp: check_desc_def Let_def map_le_def split: option.splits if_splits)
  note IH = Cons.IH [OF v1(2) step(1)]
  have "dimHashesByName r (fqName d) = Some (dimHash d) \<or>
     newDimHashesByName v' (fqName d) = Some (dimHash d)"
    using step(4) IH by (metis domI map_le_def)
  moreover have "newDimHashesByName v \<subseteq>\<^sub>m newDimHashesByName v'" using IH step(2) map_le_trans by blast
  ultimately show ?case using IH step(3) by simp
qed simp

lemma check_descs_known:
  assumes "\<forall>d \<in> set ds. descErr d = None \<and> dimHashesByName r (fqName d) = Some (dimHash d)"
  shows "\<exists>v'. check_descs r ds v = Inr v'"
  using assms
proof (induction ds arbitrary: v)
  case (Cons d ds)
  then have "\<exists>v1. check_desc r d v = Inr v1" by (auto simp: check_desc_def Let_def)
  then show ?case using Cons by fastforce
qed simp

text \<open>After a registration the same descriptors are known, with the hashes they came with.\<close>

lemma Register_dims:
  assumes "Register r c descs = ((res, None), r')"
  shows "\<forall>d \<in> set descs. descErr d = None \<and> dimHashesByName r' (fqName d) = Some (dimHash d)"
proof -
  obtain v where v: "check_descs r descs reg_start = Inr v"
    "dimHashesByName r' = dimHashesByName r ++ newDimHashesByName v"
    using assms by (auto simp: Register_def split: sum.splits reg_error.splits if_splits option.splits)
  have "\<forall>n. newDimHashesByName v n \<noteq> None \<longrightarrow> dimHashesByName r n = None"
    "\<forall>d \<in> set descs. descErr d = None \<and>
      (dimHashesByName r (fqName d) = Some (dimHash d) \<or>
       newDimHashesByName v (fqName d) = Some (dimHash d))"
    using check_descs_dims [OF v(1)] by (simp_all add: reg_start_def)
  then show ?thesis unfolding v(2) by (force simp: map_add_Some_iff)
qed

text \<open>A collector whose descriptors are valid, new and different is registered.\<close>

lemma check_descs_fresh_ok:
  assumes "\<forall>d \<in> set ds. descErr d = None" "distinct (map descId ds)" "distinct (map fqName ds)"
    and "descId ` set ds \<inter> (descIDs r \<union> newDescIDs v) = {}"
    and "\<forall>d \<in> set ds. dimHashesByName r (fqName d) = None \<and> newDimHashesByName v (fqName d) = None"
  shows "check_descs r ds v =
    Inr (v\<lparr>newDescIDs := newDescIDs v \<union> descId ` set ds,
           newDimHashesByName := newDimHashesByName v ++ map_of (map (\<lambda>d. (fqName d, dimHash d)) ds),
           collectorID := collectorID v + sum_list (map descId ds)\<rparr>)"
  using assms
proof (induction ds arbitrary: v)
  case (Cons d ds)
  let ?v = "v\<lparr>newDescIDs := insert (descId d) (newDescIDs v), collectorID := collectorID v + descId d,
     newDimHashesByName := (newDimHashesByName v)(fqName d \<mapsto> dimHash d)\<rparr>"
  have "check_desc r d v = Inr ?v" using Cons.prems by (auto simp: check_desc_def Let_def)
  moreover have "fqName d \<notin> dom (map_of (map (\<lambda>d. (fqName d, dimHash d)) ds))"
    using Cons.prems(3) by (auto simp: dom_map_of_conv_image_fst)
  then have "(newDimHashesByName v)(fqName d \<mapsto> dimHash d) ++ map_of (map (\<lambda>d. (fqName d, dimHash d)) ds) =
    newDimHashesByName v ++ (map_of (map (\<lambda>d. (fqName d, dimHash d)) ds))(fqName d \<mapsto> dimHash d)"
    by (simp add: map_add_upd_left)
  moreover have "check_descs r ds ?v =
    Inr (?v\<lparr>newDescIDs := newDescIDs ?v \<union> descId ` set ds,
           newDimHashesByName := newDimHashesByName ?v ++ map_of (map (\<lambda>d. (fqName d, dimHash d)) ds),
           collectorID := collectorID ?v + sum_list (map descId ds)\<rparr>)"
    by (rule Cons.IH) (use Cons.prems in \<open>auto simp: image_iff\<close>)
  moreover have "newDimHashesByName v ++ (\<lambda>n. if n = fqName d then Some (dimHash d)
      else map_of (map (\<lambda>d. (fqName d, dimHash d)) ds) n) =
    (newDimHashesByName v ++ map_of (map (\<lambda>d. (fqName d, dimHash d)) ds))(fqName d \<mapsto> dimHash d)"
    by (auto simp: fun_eq_iff map_add_def)
  ultimately show ?case by (simp add: ac_simps fun_upd_def)
qed simp

lemma Register_fresh:
  assumes "\<forall>d \<in> set ds. descErr d = None" "distinct (map descId ds)" "distinct (map fqName ds)"
    and "ds \<noteq> []" "descId ` set ds \<inter> descIDs r = {}"
    and "\<forall>d \<in> set ds. dimHashesByName r (fqName d) = None"
    and "collectorsByID r (sum_list (map descId ds)) = None"
  shows "Register r c ds = ((Some c, None),
    r\<lparr>collectorsByID := (collectorsByID r)(sum_list (map descId ds) \<mapsto> c),
      descIDs := descIDs r \<union> descId ` set ds,
      dimHashesByName := dimHashesByName r ++ map_of (map (\<lambda>d. (fqName d, dimHash d)) ds)\<rparr>)"
proof -
  have "check_descs r ds reg_start = Inr (reg_start\<lparr>newDescIDs := newDescIDs reg_start \<union> descId ` set ds,
           newDimHashesByName := newDimHashesByName reg_start ++ map_of (map (\<lambda>d. (fqName d, dimHash d)) ds),
           collectorID := collectorID reg_start + sum_list (map descId ds)\<rparr>)"
    by (rule check_descs_fresh_ok) (use assms in \<open>auto simp: reg_start_def\<close>)
  then show ?thesis using assms(4,7) by (simp add: Register_def reg_start_def)
qed

lemma NewDesc_plain:
  assumes "hlp \<noteq> []" "MatchString metricNameRE n" "list_all checkLabelName vls" "distinct vls"
  shows "descErr (NewDesc n hlp vls []) = None" "fqName (NewDesc n hlp vls []) = n"
    "descId (NewDesc n hlp vls []) = fnv_write fnv_offset64 (n @ [SeparatorByte])"
proof -
  have "find (\<lambda>l. \<not> checkLabelName l) vls = None"
    using assms(3) by (simp add: find_None_iff list_all_iff)
  then show "descErr (NewDesc n hlp vls []) = None" "fqName (NewDesc n hlp vls []) = n"
    "descId (NewDesc n hlp vls []) = fnv_write fnv_offset64 (n @ [SeparatorByte])"
    using assms by (simp_all add: NewDesc_def Let_def distinct_card fnv_separated_def)
qed

end
