(* ===== verification/Agent_Registry.thy ===== *)
theory Agent_Registry
  imports Instrumentation Prometheus_Registry
begin

text \<open>
  What the agent registers with the default Prometheus registry: the collectors of
  \<^verbatim>\<open>newDefaultRegistry\<close>, those of \<^verbatim>\<open>init\<close> in \<^verbatim>\<open>agent/instrumentation.go\<close>, and the
  collector of \<^verbatim>\<open>consul info\<close>, which \<^verbatim>\<open>registerConsulCollector\<close> in \<^verbatim>\<open>agent/main.go\<close> retries
  until it succeeds.  The registry keeps pointers to collectors; a pointer is a value of
  \<open>collector\<close>.
\<close>

datatype collector =
    SelfProcess | GoRuntime | DnsDurations | StoreCounts | StoreDurations | StoreErrors
  | ConsulProcess | ConsulInfo

section \<open>Descriptors\<close>

definition process_descs :: "string \<Rightarrow> Desc list" where
  "process_descs ns =
     [NewDesc (BuildFQName ns [] ''process_cpu_seconds_total'')
        ''Total user and system CPU time spent in seconds.'' [] [],
      NewDesc (BuildFQName ns [] ''process_open_fds'') ''Number of open file descriptors.'' [] [],
      NewDesc (BuildFQName ns [] ''process_max_fds'')
        ''Maximum number of open file descriptors.'' [] [],
      NewDesc (BuildFQName ns [] ''process_virtual_memory_bytes'')
        ''Virtual memory size in bytes.'' [] [],
      NewDesc (BuildFQName ns [] ''process_resident_memory_bytes'')
        ''Resident memory size in bytes.'' [] [],
      NewDesc (BuildFQName ns [] ''process_start_time_seconds'')
        ''Start time of the process since unix epoch in seconds.'' [] []]"

definition go_descs :: "Desc list" where
  "go_descs =
     [NewDesc (BuildFQName [] [] ''process_goroutines'')
        ''Number of goroutines that currently exist.'' [] []]"

definition namespace :: string where
  "namespace = ''glimpse_agent''"

definition dnsDurations_desc :: Desc where
  "dnsDurations_desc =
     NewDesc (BuildFQName namespace ''dns'' ''request_duration_microseconds'')
       ''DNS request latencies in microseconds.'' dnsLabels []"

definition storeCounts_desc :: Desc where
  "storeCounts_desc =
     NewDesc (BuildFQName namespace ''consul'' ''responses'') ''Consul API responses.'' countLabels []"

definition storeDurations_desc :: Desc where
  "storeDurations_desc =
     NewDesc (BuildFQName namespace ''consul'' ''request_duration_microseconds'')
       ''Consul API request latencies in microseconds.'' storeLabels []"

definition storeErrors_desc :: Desc where
  "storeErrors_desc =
     NewDesc (BuildFQName namespace ''consul'' ''errors'') ''Consul API errors'' storeLabels []"

definition gauge_desc :: "string \<Rightarrow> Desc" where
  "gauge_desc n =
     NewDesc (BuildFQName ''consul'' [] n) (Sprintf ''%s from consul info'' [SArg n]) [] []"

section \<open>Registration\<close>

definition newDefaultRegistry :: "collector registry" where
  "newDefaultRegistry =
     (let r = snd (Register newRegistry SelfProcess (process_descs []))
      in snd (Register r GoRuntime go_descs))"

definition init :: "collector registry \<Rightarrow> collector registry run" where
  "init r =
     run_bind (MustRegister r DnsDurations [dnsDurations_desc]) (\<lambda>r.
     run_bind (MustRegister r StoreCounts [storeCounts_desc]) (\<lambda>r.
     run_bind (MustRegister r StoreDurations [storeDurations_desc]) (\<lambda>r.
     run_bind (MustRegister r StoreErrors [storeErrors_desc]) (\<lambda>r.
     MustRegister r ConsulProcess (process_descs ''consul'')))))"

text \<open>
  The retry loop.  Attempt \<open>k\<close> runs the command by \<open>execs k\<close> and visits the gauges in the
  order \<open>visit k\<close>, since Go leaves the order of a map open.  The loop may run forever, so it has
  fuel; \<^const>\<open>None\<close> means that all attempts so far have failed.
\<close>

fun registerConsulCollector ::
  "nat \<Rightarrow> (nat \<Rightarrow> exec) \<Rightarrow> (nat \<Rightarrow> (string \<rightharpoonup> int) \<Rightarrow> string list) \<Rightarrow> nat \<Rightarrow> consulCollector \<Rightarrow>
    collector registry \<Rightarrow> string list \<Rightarrow>
    (consulCollector \<times> collector registry \<times> string list) option" where
  "registerConsulCollector 0 execs visit k c r lines = None"
| "registerConsulCollector (Suc fuel) execs visit k c r lines =
     (let (err, c') = updateMetrics (execs k) c;
          descs = (if err = None then map gauge_desc (visit k (c_metrics c')) else []);
          ((_, regErr), r') = Register r ConsulInfo descs
      in if regErr \<noteq> None
         then registerConsulCollector fuel execs visit (Suc k) c' r'
                (lines @ [Sprintf ''prometheus - could not register collector (-consul.info=%s)''
                            [SArg (c_info c')]])
         else Some (c', r', lines))"

section \<open>The start of the agent\<close>

text \<open>
  What a registry holds, as lists: the ids and names of its descriptors and the ids of its
  collectors.
\<close>

definition holds :: "collector registry \<Rightarrow> uint64 list \<Rightarrow> string list \<Rightarrow> uint64 list \<Rightarrow> bool" where
  "holds r ids names cids \<longleftrightarrow>
     descIDs r = set ids \<and> dom (dimHashesByName r) = set names \<and> dom (collectorsByID r) = set cids"

lemma holds_new: "holds newRegistry [] [] []"
  by (simp add: holds_def newRegistry_def)

lemma Register_holds:
  assumes "holds r ids names cids" "ds \<noteq> []" "\<forall>d \<in> set ds. descErr d = None"
    and "distinct (map descId ds)" "distinct (map fqName ds)"
    and "set (map descId ds) \<inter> set ids = {}" "set (map fqName ds) \<inter> set names = {}"
    and "sum_list (map descId ds) \<notin> set cids"
  shows "\<exists>r'. Register r c ds = ((Some c, None), r') \<and>
    holds r' (map descId ds @ ids) (map fqName ds @ names) (sum_list (map descId ds) # cids)"
proof -
  have "dimHashesByName r (fqName d) = None" if "d \<in> set ds" for d
    using assms(1,7) that by (fastforce simp: holds_def)
  moreover have "collectorsByID r (sum_list (map descId ds)) = None"
    using assms(1,8) by (auto simp: holds_def)
  moreover have "descId ` set ds \<inter> descIDs r = {}"
    using assms(1,6) by (simp add: holds_def)
  ultimately have reg: "Register r c ds = ((Some c, None),
    r\<lparr>collectorsByID := (collectorsByID r)(sum_list (map descId ds) \<mapsto> c),
      descIDs := descIDs r \<union> descId ` set ds,
      dimHashesByName := dimHashesByName r ++ map_of (map (\<lambda>d. (fqName d, dimHash d)) ds)\<rparr>)"
    using assms by (intro Register_fresh) auto
  show ?thesis
    unfolding reg using assms(1)
    by (auto simp: holds_def dom_map_of_conv_image_fst image_image)
qed

text \<open>The descriptors of a metric without constant labels, by their names.\<close>

definition described :: "Desc list \<Rightarrow> string list \<Rightarrow> bool" where
  "described ds names \<longleftrightarrow>
     (\<forall>d \<in> set ds. descErr d = None) \<and> map fqName ds = names \<and>
     map descId ds = map (\<lambda>n. of_nat (fnv_nat 14695981039346656037 (n @ [SeparatorByte]))) names"

lemma described_Nil: "described [] []"
  by (simp add: described_def)

lemma described_Cons:
  assumes "described ds names" "MatchString metricNameRE n" "hlp \<noteq> []" "list_all checkLabelName vls"
    "distinct vls"
  shows "described (NewDesc n hlp vls [] # ds) (n # names)"
  using assms NewDesc_plain [OF assms(3,2,4,5)]
  by (simp add: described_def fnv_offset64_write)

lemma metric_name_iff:
  "MatchString metricNameRE (c # s) \<longleftrightarrow>
    in_class [(97, 122), (65, 90), (95, 95)] c \<and>
    (\<forall>d \<in> set s. in_class [(97, 122), (65, 90), (48, 57), (95, 95), (58, 58)] d)"
  by (auto simp: MatchString_in_lang metricNameRE_def in_lang_Seq_Class in_lang_Star_Class)

lemma label_name_iff:
  "MatchString labelNameRE (c # s) \<longleftrightarrow>
    in_class [(97, 122), (65, 90), (95, 95)] c \<and>
    (\<forall>d \<in> set s. in_class [(97, 122), (65, 90), (48, 57), (95, 95)] d)"
  by (auto simp: MatchString_in_lang labelNameRE_def in_lang_Seq_Class in_lang_Star_Class)

lemmas name_checks = metric_name_iff label_name_iff checkLabelName_def in_class_def HasPrefix_def
  BuildFQName_def namespace_def

lemma described_self: "described (process_descs []) [''process_cpu_seconds_total'',
    ''process_open_fds'',
    ''process_max_fds'',
    ''process_virtual_memory_bytes'',
    ''process_resident_memory_bytes'',
    ''process_start_time_seconds'']"
  unfolding process_descs_def by (intro described_Cons described_Nil | simp add: name_checks del: MatchString.simps)+

lemma described_go: "described (go_descs) [''process_goroutines'']"
  unfolding go_descs_def by (intro described_Cons described_Nil | simp add: name_checks del: MatchString.simps)+

lemma described_dns: "described ([dnsDurations_desc]) [''glimpse_agent_dns_request_duration_microseconds'']"
  unfolding dnsDurations_desc_def dnsLabels_def by (intro described_Cons described_Nil | simp add: name_checks del: MatchString.simps)+

lemma described_counts: "described ([storeCounts_desc]) [''glimpse_agent_consul_responses'']"
  unfolding storeCounts_desc_def countLabels_def by (intro described_Cons described_Nil | simp add: name_checks del: MatchString.simps)+

lemma described_durations: "described ([storeDurations_desc]) [''glimpse_agent_consul_request_duration_microseconds'']"
  unfolding storeDurations_desc_def storeLabels_def by (intro described_Cons described_Nil | simp add: name_checks del: MatchString.simps)+

lemma described_errors: "described ([storeErrors_desc]) [''glimpse_agent_consul_errors'']"
  unfolding storeErrors_desc_def storeLabels_def by (intro described_Cons described_Nil | simp add: name_checks del: MatchString.simps)+

lemma described_consul: "described (process_descs ''consul'') [''consul_process_cpu_seconds_total'',
    ''consul_process_open_fds'',
    ''consul_process_max_fds'',
    ''consul_process_virtual_memory_bytes'',
    ''consul_process_resident_memory_bytes'',
    ''consul_process_start_time_seconds'']"
  unfolding process_descs_def by (intro described_Cons described_Nil | simp add: name_checks del: MatchString.simps)+

definition hash_ids :: "string list \<Rightarrow> uint64 list" where
  "hash_ids ns = map (\<lambda>n. of_nat (fnv_nat 14695981039346656037 (n @ [SeparatorByte]))) ns"

lemma MustRegister_holds:
  assumes "holds r ids names cids" "described ds ns" "ns \<noteq> []" "distinct ns"
    and "set ns \<inter> set names = {}"
    and "js = hash_ids ns"
    and "distinct js" "set js \<inter> set ids = {}" "sum_list js \<notin> set cids"
  shows "\<exists>r'. snd (Register r c ds) = r' \<and> MustRegister r c ds = Done r' \<and>
    holds r' (js @ ids) (ns @ names) (sum_list js # cids)"
proof -
  have ds: "\<forall>d \<in> set ds. descErr d = None" "map fqName ds = ns" "map descId ds = js"
    using assms(2,6) by (simp_all add: described_def hash_ids_def)
  have "ds \<noteq> []" using ds(2) assms(3) by auto
  then obtain r' where "Register r c ds = ((Some c, None), r')"
    "holds r' (js @ ids) (ns @ names) (sum_list js # cids)"
    using Register_holds [OF assms(1) _ ds(1), of c] assms(4,5,7-9) unfolding ds(2,3) by metis
  then show ?thesis by (simp add: MustRegister_def)
qed

text \<open>A sequence of registrations.\<close>

fun register_all :: "collector registry \<Rightarrow> (collector \<times> Desc list) list \<Rightarrow> collector registry run" where
  "register_all r [] = Done r"
| "register_all r ((c, ds) # cs) = run_bind (MustRegister r c ds) (\<lambda>r'. register_all r' cs)"

lemma register_all_append:
  "register_all r (xs @ ys) = run_bind (register_all r xs) (\<lambda>r'. register_all r' ys)"
  by (induction r xs rule: register_all.induct) (simp_all add: run_bind_assoc)

text \<open>
  Registrations with descriptors of different names and ids, and different sums of ids, all succeed.
\<close>

lemma register_all_holds:
  assumes "holds r ids names cids" "list_all2 described (map snd cs) nss" "[] \<notin> set nss"
    and "distinct (concat nss @ names)" "distinct (concat (map hash_ids nss) @ ids)"
    and "distinct (map (\<lambda>ns. sum_list (hash_ids ns)) nss @ cids)"
  shows "\<exists>r' ids' names' cids'. register_all r cs = Done r' \<and> holds r' ids' names' cids' \<and>
    length cids' = length cs + length cids \<and> set names' = set (concat nss) \<union> set names"
  using assms
proof (induction cs arbitrary: r ids names cids nss)
  case Nil
  then show ?case by auto
next
  case (Cons x cs)
  obtain c ds where x: "x = (c, ds)" by (cases x)
  obtain ns nss' where nss: "nss = ns # nss'" "described ds ns" "list_all2 described (map snd cs) nss'"
    using Cons.prems(2) x by (auto simp: list_all2_Cons1)
  have "ns \<noteq> []" "distinct ns" "set ns \<inter> set names = {}" "distinct (hash_ids ns)"
    "set (hash_ids ns) \<inter> set ids = {}" "sum_list (hash_ids ns) \<notin> set cids"
    using Cons.prems(3-6) by (auto simp: nss(1))
  then obtain r1 where r1: "MustRegister r c ds = Done r1"
    "holds r1 (hash_ids ns @ ids) (ns @ names) (sum_list (hash_ids ns) # cids)"
    using MustRegister_holds [OF Cons.prems(1) nss(2), of "hash_ids ns" c] by blast
  have "\<exists>r' ids' names' cids'. register_all r1 cs = Done r' \<and> holds r' ids' names' cids' \<and>
    length cids' = length cs + length (sum_list (hash_ids ns) # cids) \<and>
    set names' = set (concat nss') \<union> set (ns @ names)"
    by (rule Cons.IH [OF r1(2) nss(3)]) (use Cons.prems(3-6) nss(1) in auto)
  then show ?case using r1(1) x nss(1) by fastforce
qed

text \<open>The collectors that are registered before \<^verbatim>\<open>main\<close> runs, in this order, and their names.\<close>

definition start_collectors :: "(collector \<times> Desc list) list" where
  "start_collectors =
     [(SelfProcess, process_descs []), (GoRuntime, go_descs), (DnsDurations, [dnsDurations_desc]),
      (StoreCounts, [storeCounts_desc]), (StoreDurations, [storeDurations_desc]),
      (StoreErrors, [storeErrors_desc]), (ConsulProcess, process_descs ''consul'')]"

definition start_names :: "string list list" where
  "start_names =
     [[''process_cpu_seconds_total'', ''process_open_fds'', ''process_max_fds'',
       ''process_virtual_memory_bytes'', ''process_resident_memory_bytes'', ''process_start_time_seconds''],
      [''process_goroutines''], [''glimpse_agent_dns_request_duration_microseconds''],
      [''glimpse_agent_consul_responses''], [''glimpse_agent_consul_request_duration_microseconds''],
      [''glimpse_agent_consul_errors''],
      [''consul_process_cpu_seconds_total'', ''consul_process_open_fds'', ''consul_process_max_fds'',
       ''consul_process_virtual_memory_bytes'', ''consul_process_resident_memory_bytes'',
       ''consul_process_start_time_seconds'']]"

lemma ids_self:
  "hash_ids [''process_cpu_seconds_total'', ''process_open_fds'', ''process_max_fds'',
     ''process_virtual_memory_bytes'', ''process_resident_memory_bytes'', ''process_start_time_seconds''] =
    [8411829561470167169, 10724816581471108768, 1951754192332287036, 1166094170200363441,
     4047048832200489288, 17842624371742691598]"
  by (simp add: hash_ids_def SeparatorByte_def)

lemma ids_consul:
  "hash_ids [''consul_process_cpu_seconds_total'', ''consul_process_open_fds'', ''consul_process_max_fds'',
     ''consul_process_virtual_memory_bytes'', ''consul_process_resident_memory_bytes'',
     ''consul_process_start_time_seconds''] =
    [9100825794903785722, 14279171627019290257, 1078741900654743619, 15040503450157960772,
     12521042972932810587, 5531881923027981807]"
  by (simp add: hash_ids_def SeparatorByte_def)

lemma ids_single:
  "hash_ids [''process_goroutines''] = [10490022442718033885]"
  "hash_ids [''glimpse_agent_dns_request_duration_microseconds''] = [1543151554900145352]"
  "hash_ids [''glimpse_agent_consul_responses''] = [17601767560745815749]"
  "hash_ids [''glimpse_agent_consul_request_duration_microseconds''] = [8260180465282235719]"
  "hash_ids [''glimpse_agent_consul_errors''] = [14967542608907691436]"
  by (simp_all add: hash_ids_def SeparatorByte_def)

lemma start_ids:
  "map hash_ids start_names =
    [[8411829561470167169, 10724816581471108768, 1951754192332287036, 1166094170200363441,
      4047048832200489288, 17842624371742691598],
     [10490022442718033885], [1543151554900145352], [17601767560745815749], [8260180465282235719],
     [14967542608907691436],
     [9100825794903785722, 14279171627019290257, 1078741900654743619, 15040503450157960772,
      12521042972932810587, 5531881923027981807]]"
  by (simp only: start_names_def list.map ids_self ids_single ids_consul)

lemma start_described: "list_all2 described (map snd start_collectors) start_names"
  unfolding start_collectors_def start_names_def
  by (simp add: described_self described_go described_dns described_counts described_durations
      described_errors described_consul)

lemma init_register_all:
  assumes "register_all newRegistry start_collectors = Done r"
  shows "init newDefaultRegistry = Done r"
proof -
  have reg: "snd (Register r c ds) = r'" if "MustRegister r c ds = Done r'" for r c ds and r' :: "collector registry"
    using that by (auto simp: MustRegister_def Let_def split: prod.splits if_splits)
  obtain r1 r2 where r1: "MustRegister newRegistry SelfProcess (process_descs []) = Done r1"
    and r2: "MustRegister r1 GoRuntime go_descs = Done r2"
    and rest: "register_all r2 (drop 2 start_collectors) = Done r"
    using assms by (auto simp: start_collectors_def run_bind_Done_iff)
  have "newDefaultRegistry = r2" using reg [OF r1] reg [OF r2] by (simp add: newDefaultRegistry_def)
  moreover have "run_bind x Done = x" for x :: "collector registry run" by (cases x) simp_all
  ultimately show ?thesis using rest by (simp add: init_def start_collectors_def)
qed

text \<open>
  No two of the descriptors registered at the start clash: \<^verbatim>\<open>init\<close> returns.
\<close>

lemma init_holds:
  "\<exists>r ids names cids. init newDefaultRegistry = Done r \<and> holds r ids names cids \<and>
    length cids = 7 \<and> set names = set (concat start_names)"
proof -
  have "distinct (concat (map hash_ids start_names) @ [])" unfolding start_ids by simp
  moreover have "distinct (map (\<lambda>ns. sum_list (hash_ids ns)) start_names @ [])"
  proof -
    have "map (\<lambda>ns. sum_list (hash_ids ns)) start_names = map sum_list (map hash_ids start_names)" by simp
    then show ?thesis unfolding start_ids by simp
  qed
  moreover have "distinct (concat start_names @ [])" "[] \<notin> set start_names"
    by (simp_all add: start_names_def)
  ultimately obtain r ids names cids where "register_all newRegistry start_collectors = Done r"
    "holds r ids names cids" "length cids = 7" "set names = set (concat start_names)"
    using register_all_holds [OF holds_new start_described] by (auto simp: start_collectors_def)
  then show ?thesis using init_register_all by blast
qed

section \<open>Retrying\<close>

definition retry_line :: "string \<Rightarrow> string" where
  "retry_line infoCmd =
     Sprintf ''prometheus - could not register collector (-consul.info=%s)'' [SArg infoCmd]"

lemma updateMetrics_error_keeps:
  "fst (updateMetrics exec c) = Some e \<Longrightarrow> snd (updateMetrics exec c) = c"
  by (auto simp: updateMetrics_def split: sum.splits)

text \<open>Every attempt at which the command fails costs one line of the log and changes nothing else.\<close>

lemma registerConsulCollector_retries:
  assumes "\<forall>i < n. fst (updateMetrics (execs (k + i)) c) \<noteq> None"
  shows "registerConsulCollector (n + fuel) execs visit k c r lines =
    registerConsulCollector fuel execs visit (k + n) c r (lines @ replicate n (retry_line (c_info c)))"
  using assms
proof (induction n arbitrary: k lines)
  case (Suc n)
  obtain e where e: "updateMetrics (execs k) c = (Some e, c)"
    using Suc.prems updateMetrics_error_keeps [of "execs k" c]
    by (cases "updateMetrics (execs k) c") fastforce
  have "\<forall>i < n. fst (updateMetrics (execs (Suc k + i)) c) \<noteq> None"
    using Suc.prems by (metis Suc_less_eq add_Suc_shift)
  then show ?case
    using Suc.IH [of "Suc k" "lines @ [retry_line (c_info c)]"] e
    by (simp add: Register_no_descs retry_line_def)
qed simp

text \<open>An attempt whose registration succeeds ends the loop.\<close>

lemma registerConsulCollector_succeeds:
  assumes "updateMetrics (execs k) c = (None, c')"
    and "Register r ConsulInfo (map gauge_desc (visit k (c_metrics c'))) = ((res, None), r')"
  shows "registerConsulCollector (Suc fuel) execs visit k c r lines = Some (c', r', lines)"
  using assms by (simp add: Let_def)

end
