(* ===== verification/Metrics_Properties.thy ===== *)
theory Metrics_Properties
  imports Agent_Registry
begin

text \<open>
  The theorems on metrics: the metric vectors and the registry of the Prometheus client library, the
  agent's registrations, and the collector of \<^verbatim>\<open>consul info\<close>.
\<close>

section \<open>Metric vectors\<close>

lemma WithLabelValues_outcome:
  assumes "vec_inv m"
  shows "case WithLabelValues m lvs of
      Panic _ \<Rightarrow> length lvs \<noteq> length (variableLabels m)
    | Done (h, m') \<Rightarrow> length lvs = length (variableLabels m) \<and> vec_inv m' \<and> children m' h \<noteq> None"
  using vec_inv_getOrCreate [OF assms _ refl, of lvs]
    getOrCreate_children(1) [of m "fnv_write fnv_offset64 (concat lvs)" lvs]
  by (simp add: WithLabelValues_cases Let_def)

lemma hashLabels_Inr_iff:
  "(\<exists>h. hashLabels m labels = Inr h) \<longleftrightarrow>
    length labels = length (variableLabels m) \<and> set (variableLabels m) \<subseteq> fst ` set labels"
  by (auto simp: hashLabels_def hash_labels_Inr)

lemma With_outcome:
  assumes "vec_inv m"
  shows "case With m labels of
      Panic _ \<Rightarrow> \<not> (length labels = length (variableLabels m) \<and> set (variableLabels m) \<subseteq> fst ` set labels)
    | Done (h, m') \<Rightarrow> length labels = length (variableLabels m) \<and>
        set (variableLabels m) \<subseteq> fst ` set labels \<and> vec_inv m' \<and> children m' h \<noteq> None"
proof (cases "hashLabels m labels")
  case (Inl e)
  then show ?thesis
    using hashLabels_Inr_iff [of m labels] by (simp add: With_def GetMetricWith_def)
next
  case (Inr h)
  let ?m = "getOrCreateMetric m h (map (label_value labels) (variableLabels m))"
  have w: "With m labels = Done (h, ?m)" using Inr by (simp add: With_def GetMetricWith_def)
  show ?thesis
    using vec_inv_With [OF assms w] getOrCreate_children(1) [of m h] hashLabels_Inr_iff [of m labels] Inr
    by (auto simp: w)
qed

text \<open>
  C38. Metric vectors keep their invariant: after any operation every child sits under the hash of
  its own label values, one for each label of the vector.  Asking for a child panics exactly if the
  number of values is wrong or a label is missing; otherwise the child exists afterwards.
\<close>

theorem vector_invariant:
  assumes "vec_inv m"
  shows "(case WithLabelValues m lvs of
            Panic _ \<Rightarrow> length lvs \<noteq> length (variableLabels m)
          | Done (h, m') \<Rightarrow> length lvs = length (variableLabels m) \<and> vec_inv m' \<and> children m' h \<noteq> None) \<and>
    (case With m labels of
            Panic _ \<Rightarrow> \<not> (length labels = length (variableLabels m) \<and> set (variableLabels m) \<subseteq> fst ` set labels)
          | Done (h, m') \<Rightarrow> length labels = length (variableLabels m) \<and>
                       set (variableLabels m) \<subseteq> fst ` set labels \<and> vec_inv m' \<and> children m' h \<noteq> None) \<and>
    vec_inv (snd (DeleteLabelValues m lvs)) \<and> vec_inv (snd (Delete m labels)) \<and> vec_inv (Reset m) \<and>
    vec_inv (modify h f m)"
proof -
  have "vec_inv (snd (DeleteLabelValues m lvs))" "vec_inv (snd (Delete m labels))"
    using assms vec_inv_remove by (auto simp: DeleteLabelValues_def Delete_def split: sum.splits)
  then show ?thesis
    by (intro conjI WithLabelValues_outcome [OF assms] With_outcome [OF assms] vec_inv_Reset
        vec_inv_modify [OF assms])
qed

theorem vector_invariant_witness:
  "\<not> panics (WithLabelValues (NewVec [''error'', ''operation''] (0 :: int)) [''none'', ''getServers''])"
proof -
  let ?v = "NewVec [''error'', ''operation''] (0 :: int)"
  have "variableLabels ?v = [''error'', ''operation'']" by (simp add: NewVec_def)
  then show ?thesis
    using vector_invariant [OF vec_inv_New, of "[''none'', ''getServers'']" "[''error'', ''operation'']" "0 :: int",
        THEN conjunct1]
    by (cases "WithLabelValues ?v [''none'', ''getServers'']") simp_all
qed

text \<open>
  Children are told apart by the concatenation of their label values only: asking for different
  values with the same concatenation gives the child that was created first.
\<close>

theorem label_collision:
  assumes "WithLabelValues m lvs = Done (h, m')" "length lvs' = length lvs" "concat lvs' = concat lvs"
  shows "WithLabelValues m' lvs' = Done (h, m')"
proof -
  have m': "h = fnv_write fnv_offset64 (concat lvs)" "m' = getOrCreateMetric m h lvs"
    "length lvs = length (variableLabels m)"
    using assms(1) by (auto simp: WithLabelValues_cases Let_def split: if_splits)
  have "children m' h \<noteq> None" using getOrCreate_children(1) [of m h lvs] by (simp add: m'(2))
  then have "getOrCreateMetric m' h lvs' = m'" by (auto simp: getOrCreateMetric_def)
  then show ?thesis using m' assms(2,3) by (simp add: WithLabelValues_cases Let_def)
qed

theorem label_collision_witness:
  "\<exists>h m'. WithLabelValues (NewVec [''service'', ''job''] (0 :: int)) [''web'', ''api''] = Done (h, m') \<and>
    WithLabelValues m' [''weba'', ''pi''] = Done (h, m')"
proof -
  obtain h m' where w: "WithLabelValues (NewVec [''service'', ''job''] (0 :: int)) [''web'', ''api''] = Done (h, m')"
    by (auto simp: WithLabelValues_cases NewVec_def Let_def)
  show ?thesis using w label_collision [OF w, of "[''weba'', ''pi'']"] by auto
qed

section \<open>The registry\<close>

text \<open>
  Registering and unregistering.  After a successful registration the same descriptors cannot be
  registered again: the registry answers with the collector it has and does not change; and
  unregistering them succeeds and gives back the collectors and descriptor ids from before.
\<close>

theorem registration_roundtrip:
  assumes "Register r c descs = ((res, None), r')"
  shows "Register r' c' descs = ((Some c, Some errAlreadyReg), r') \<and>
    RegisterOrGet r' c' descs = ((Some c, None), r') \<and>
    (\<exists>r''. Unregister r' descs = (True, r'') \<and>
       collectorsByID r'' = collectorsByID r \<and> descIDs r'' = descIDs r)"
proof -
  obtain ids cid where reg: "desc_ids descs {} 0 = (ids, cid)" "ids \<noteq> {}" "ids \<inter> descIDs r = {}"
    "collectorsByID r cid = None" "collectorsByID r' = (collectorsByID r)(cid \<mapsto> c)"
    "descIDs r' = descIDs r \<union> ids"
    using Register_Done [OF assms] by (elim exE conjE)
  obtain v where v: "check_descs r' descs reg_start = Inr v"
    using check_descs_known [OF Register_dims [OF assms]] by blast
  then have "newDescIDs v = ids" "collectorID v = cid"
    using check_descs_ids [OF v] reg(1) by (simp_all add: reg_start_def)
  then have again: "Register r' c' descs = ((Some c, Some errAlreadyReg), r')"
    using v reg(2,5) by (simp add: Register_def)
  have "collectorsByID r' cid = Some c" using reg(5) by simp
  moreover have "(collectorsByID r)(cid := None) = collectorsByID r"
    using reg(4) by (auto simp: fun_eq_iff)
  moreover have "descIDs r \<union> ids - ids = descIDs r" using reg(3) by blast
  ultimately have "\<exists>r''. Unregister r' descs = (True, r'') \<and>
       collectorsByID r'' = collectorsByID r \<and> descIDs r'' = descIDs r"
    by (simp add: Unregister_def reg(1,5,6))
  then show ?thesis using again by (simp add: RegisterOrGet_def)
qed

theorem registration_roundtrip_witness:
  "\<exists>r'. Register newRegistry GoRuntime go_descs = ((Some GoRuntime, None), r') \<and>
    Register r' SelfProcess go_descs = ((Some GoRuntime, Some errAlreadyReg), r')"
proof -
  have "go_descs \<noteq> []" "\<forall>d \<in> set go_descs. descErr d = None" "distinct (map descId go_descs)"
    "distinct (map fqName go_descs)"
    using described_go by (auto simp: described_def go_descs_def)
  then obtain r' where r': "Register newRegistry GoRuntime go_descs = ((Some GoRuntime, None), r')"
    using Register_holds [OF holds_new, of go_descs GoRuntime] by auto
  show ?thesis using r' registration_roundtrip [OF r', of SelfProcess] by blast
qed

text \<open>
  The agent's start-up registrations never panic: no two metrics that the library and \<^verbatim>\<open>init\<close>
  register clash, and afterwards the registry holds all seven collectors.
\<close>

theorem init_registers:
  "\<exists>r. init newDefaultRegistry = Done r \<and>
    {''glimpse_agent_dns_request_duration_microseconds'', ''glimpse_agent_consul_responses'',
     ''glimpse_agent_consul_request_duration_microseconds'', ''glimpse_agent_consul_errors'',
     ''consul_process_open_fds'', ''process_open_fds'', ''process_goroutines''} \<subseteq> dom (dimHashesByName r)"
proof -
  obtain r ids names cids where "init newDefaultRegistry = Done r" "holds r ids names cids"
    "set names = set (concat start_names)"
    using init_holds by blast
  then show ?thesis by (intro exI [of _ r]) (simp add: holds_def start_names_def)
qed

end
