(* ===== verification/Stats_Properties.thy ===== *)
theory Stats_Properties
  imports Metrics_Properties
begin

text \<open>
  The theorems on the output of \<^verbatim>\<open>consul info\<close>: it is a sequence of sections, each a line with a
  key and a colon followed by indented lines with a field and its value.  Reading back what is printed
  in this form gives the statistics, and every accepted value fits a 64-bit integer.
\<close>

section \<open>White space\<close>

text \<open>Printable ASCII characters are neither white space nor part of its encodings.\<close>

definition graphic :: "char \<Rightarrow> bool" where
  "graphic c \<longleftrightarrow> 33 \<le> (of_char c :: nat) \<and> (of_char c :: nat) < 127"

lemma strip_one_None: "\<forall>sp \<in> set sps. hd sp \<noteq> c \<Longrightarrow> strip_one sps (c # s) = None"
  by (induction sps) (auto simp: HasPrefix_iff Cons_eq_append_conv)

lemma go_spaces_not_graphic:
  "list_all (\<lambda>sp. \<not> graphic (hd sp)) go_spaces" "list_all (\<lambda>sp. \<not> graphic (hd sp)) (map rev go_spaces)"
  by code_simp+

lemma strip_one_graphic:
  assumes "graphic c"
  shows "strip_one go_spaces (c # s) = None" "strip_one (map rev go_spaces) (c # s) = None"
  using assms go_spaces_not_graphic by (auto intro!: strip_one_None simp: list_all_iff)

lemma strip_one_blank: "strip_one go_spaces (CHR 0x09 # s) = Some s" "strip_one go_spaces (CHR 0x20 # s) = Some s"
  "strip_one (map rev go_spaces) (CHR 0x20 # s) = Some s"
  by (simp_all add: go_spaces_def HasPrefix_def)

lemma TrimSpace_graphic:
  assumes "graphic c" "graphic d" "s = c # t" "rev s = d # u"
  shows "TrimSpace s = s"
proof -
  have "trim_left go_spaces s = s" "trim_left (map rev go_spaces) (rev s) = rev s"
    using strip_one_graphic [OF assms(1)] strip_one_graphic [OF assms(2)] assms(3,4)
    by (subst trim_left.simps, simp)+
  then show ?thesis by (simp add: TrimSpace_def)
qed

lemma TrimSpace_blank:
  "TrimSpace (CHR 0x09 # s) = TrimSpace s" "TrimSpace (CHR 0x20 # s) = TrimSpace s"
  by (simp_all add: TrimSpace_def trim_left.simps [of go_spaces "_ # _"] strip_one_blank)

lemma TrimSpace_trailing:
  assumes "graphic c" "graphic d" "s = c # t" "rev s = d # u"
  shows "TrimSpace (s @ '' '') = s"
proof -
  have "trim_left go_spaces (s @ '' '') = s @ '' ''"
    using strip_one_graphic [OF assms(1)] assms(3) by (subst trim_left.simps) simp
  moreover have "trim_left (map rev go_spaces) (rev s) = rev s"
    using strip_one_graphic [OF assms(2)] assms(4) by (subst trim_left.simps) simp
  ultimately show ?thesis
    by (simp add: TrimSpace_def trim_left.simps [of _ "CHR '' '' # _"] strip_one_blank)
qed

section \<open>Lines\<close>

definition word :: "string \<Rightarrow> bool" where
  "word s \<longleftrightarrow> s \<noteq> [] \<and> (\<forall>c \<in> set s. graphic c \<and> c \<noteq> CHR '':'' \<and> c \<noteq> CHR ''='')"

lemma word_ends:
  assumes "word s"
  obtains c t d u where "s = c # t" "rev s = d # u" "graphic c" "graphic d"
proof -
  obtain c t where "s = c # t" using assms by (auto simp: word_def neq_Nil_conv)
  moreover obtain d u where "rev s = d # u" using calculation by (cases "rev s") auto
  moreover have "d \<in> set s" using calculation by (metis list.set_intros(1) set_rev)
  ultimately show ?thesis using assms that by (auto simp: word_def)
qed

lemma TrimSpace_word: "word s \<Longrightarrow> TrimSpace s = s" "word s \<Longrightarrow> TrimSpace (s @ '' '') = s"
  by (auto elim!: word_ends intro: TrimSpace_graphic TrimSpace_trailing)

lemma Contains_char: "Contains s [c] \<longleftrightarrow> c \<in> set s"
  by (auto simp: Contains_iff in_set_conv_decomp)

lemma word_Itoa: "word (Itoa i)"
proof -
  have "graphic c \<and> c \<noteq> CHR '':'' \<and> c \<noteq> CHR ''=''" if "is_digit c" for c
    using that by (auto simp: graphic_def is_digit_def)
  then have "word (utoa n)" for n using utoa_digits [of _ n] by (auto simp: word_def)
  then show ?thesis by (auto simp: Itoa_def word_def graphic_def)
qed

lemma parse_value_Itoa: "- (2 ^ 63) \<le> i \<Longrightarrow> i < 2 ^ 63 \<Longrightarrow> parse_value (Itoa i) = Inr i"
proof -
  assume range: "- (2 ^ 63) \<le> i" "i < 2 ^ 63"
  have "\<exists>c \<in> set s. \<not> is_digit c \<and> c \<noteq> CHR ''-''" if "s \<in> {''true'', ''false'', ''never''}" for s
    using that by (auto simp: is_digit_def)
  moreover have "\<forall>c \<in> set (Itoa i). is_digit c \<or> c = CHR ''-''"
    using utoa_digits by (auto simp: Itoa_def)
  ultimately have "Itoa i \<notin> {''true'', ''false'', ''never''}" by blast
  then show ?thesis using ParseInt_Itoa [OF range] by (auto simp: parse_value_def)
qed

definition key_line :: "string \<Rightarrow> string" where
  "key_line k = k @ '':''"

definition field_line :: "string \<times> int \<Rightarrow> string" where
  "field_line fv = CHR 0x09 # fst fv @ '' = '' @ Itoa (snd fv)"

lemma parse_key_line:
  assumes "word k"
  shows "parse_lines key stats (key_line k # ls) = parse_lines k stats ls"
proof -
  obtain c t where "k = c # t" "graphic c" using word_ends [OF assms] by blast
  then have "TrimSpace (k @ '':'') = k @ '':''"
    by (intro TrimSpace_graphic [of c "CHR '':''"]) (auto simp: graphic_def)
  moreover have "CHR ''='' \<notin> set k" using assms by (auto simp: word_def)
  moreover have "TrimSuffix (k @ '':'') '':'' = k" by (simp add: TrimSuffix_def HasSuffix_iff)
  ultimately show ?thesis by (simp add: key_line_def Contains_char Let_def)
qed

lemma parse_field_line:
  assumes "word f" "- (2 ^ 63) \<le> v" "v < 2 ^ 63" "key \<notin> set ignoredKeys"
  shows "parse_lines key stats (field_line (f, v) # ls) =
    parse_lines key (if f \<in> set ignoredFields then stats else stats(Join [key, f] ''_'' \<mapsto> v)) ls"
proof -
  let ?l = "f @ '' = '' @ Itoa v"
  obtain c t where c: "f = c # t" "graphic c" using word_ends [OF assms(1)] by blast
  obtain d u where d: "rev (Itoa v) = d # u" "graphic d" using word_ends [OF word_Itoa [of v]] by blast
  have line: "TrimSpace (field_line (f, v)) = ?l"
    using c d TrimSpace_graphic [of c d ?l "t @ '' = '' @ Itoa v" "u @ '' = '' @ rev f"]
    by (simp add: field_line_def TrimSpace_blank)
  have none: "CHR '':'' \<notin> set ?l" "CHR ''='' \<notin> set (f @ '' '')"
    using assms(1) word_Itoa [of v] by (auto simp: word_def)
  have "SplitN ((f @ '' '') @ CHR ''='' # '' '' @ Itoa v) CHR ''='' (Suc (Suc 0)) = [f @ '' '', '' '' @ Itoa v]"
    by (subst SplitN_append [OF none(2)]) simp
  then have parts: "SplitN ?l CHR ''='' 2 = [f @ '' '', '' '' @ Itoa v]" by (simp add: numeral_2_eq_2)
  have "TrimSpace (CHR '' '' # Itoa v) = Itoa v" by (simp add: TrimSpace_blank TrimSpace_word [OF word_Itoa])
  then show ?thesis
    using none parts assms(4) parse_value_Itoa [OF assms(2,3)] TrimSpace_word(2) [OF assms(1)]
    by (simp add: line Contains_char Let_def)
qed

lemma parse_ignored_line:
  assumes "word f" "key \<in> set ignoredKeys"
  shows "parse_lines key stats (field_line (f, v) # ls) = parse_lines key stats ls"
proof -
  obtain p q where "field_line (f, v) = p @ TrimSpace (field_line (f, v)) @ q"
    using TrimSpace_infix by blast
  then have "set (TrimSpace (field_line (f, v))) \<subseteq> set (field_line (f, v))"
    by (metis Un_upper1 le_supI2 set_append)
  moreover have "CHR '':'' \<notin> set (field_line (f, v))"
    using assms(1) word_Itoa [of v] by (auto simp: field_line_def word_def)
  ultimately show ?thesis using assms(2) by (auto simp: Contains_char Let_def)
qed

section \<open>Sections\<close>

type_synonym info_section = "string \<times> (string \<times> int) list"

definition section_lines :: "info_section \<Rightarrow> string list" where
  "section_lines sec = key_line (fst sec) # map field_line (snd sec)"

definition info_text :: "info_section list \<Rightarrow> string" where
  "info_text secs = concat (map (\<lambda>l. l @ [CHR 0x0A]) (concat (map section_lines secs)))"

definition section_stats :: "info_section \<Rightarrow> (string \<times> int) list" where
  "section_stats sec =
     (if fst sec \<in> set ignoredKeys then []
      else map (\<lambda>(f, v). (Join [fst sec, f] ''_'', v)) (filter (\<lambda>(f, v). f \<notin> set ignoredFields) (snd sec)))"

definition printable :: "info_section \<Rightarrow> bool" where
  "printable sec \<longleftrightarrow> word (fst sec) \<and>
     (\<forall>(f, v) \<in> set (snd sec). word f \<and> - (2 ^ 63) \<le> v \<and> v < 2 ^ 63) \<and>
     (\<forall>l \<in> set (section_lines sec). length l < maxTokenSize)"

lemma parse_fields:
  assumes "\<forall>(f, v) \<in> set fs. word f \<and> - (2 ^ 63) \<le> v \<and> v < 2 ^ 63"
  shows "parse_lines k stats (map field_line fs @ ls) =
    parse_lines k (stats ++ map_of (rev (section_stats (k, fs)))) ls"
  using assms
proof (induction fs arbitrary: stats)
  case Nil
  then show ?case by (simp add: section_stats_def)
next
  case (Cons x fs)
  obtain f v where x: "x = (f, v)" by (cases x)
  have p: "word f" "- (2 ^ 63) \<le> v" "v < 2 ^ 63" using Cons.prems x by auto
  note IH = Cons.IH [of "if k \<in> set ignoredKeys \<or> f \<in> set ignoredFields then stats
    else stats(Join [k, f] ''_'' \<mapsto> v)"]
  show ?case
  proof (cases "k \<in> set ignoredKeys")
    case True
    then show ?thesis
      using IH Cons.prems parse_ignored_line [OF p(1) True]
      by (simp add: x section_stats_def del: parse_lines.simps)
  next
    case False
    then show ?thesis
      using IH Cons.prems parse_field_line [OF p False]
      by (simp add: x section_stats_def del: parse_lines.simps)
  qed
qed

lemma parse_sections:
  "\<forall>sec \<in> set secs. printable sec \<Longrightarrow>
    parse_lines key stats (concat (map section_lines secs)) =
    Inr (stats ++ map_of (rev (concat (map section_stats secs))))"
proof (induction secs arbitrary: key stats)
  case (Cons sec secs)
  obtain k fs where sec: "sec = (k, fs)" by (cases sec)
  have "word k" "\<forall>(f, v) \<in> set fs. word f \<and> - (2 ^ 63) \<le> v \<and> v < 2 ^ 63"
    using Cons.prems by (auto simp: printable_def sec)
  then show ?case
    using Cons parse_fields [of fs k stats] parse_key_line [of k key stats]
    by (simp add: sec section_lines_def)
qed simp

lemma Split_lines:
  "\<forall>l \<in> set ls. CHR 0x0A \<notin> set l \<Longrightarrow> Split (concat (map (\<lambda>l. l @ [CHR 0x0A]) ls)) CHR 0x0A = ls @ [[]]"
  by (induction ls) (simp_all add: Split_append)

lemma scan_lines:
  "\<forall>l \<in> set ls. length l < maxTokenSize \<Longrightarrow> scan_pieces (ls @ [[]]) = (map dropCR ls, False)"
  by (induction ls) (auto simp: maxTokenSize_def not_le)

lemma section_line_chars:
  assumes "printable sec" "l \<in> set (section_lines sec)"
  shows "CHR 0x0A \<notin> set l" "dropCR l = l"
proof -
  have blank: "graphic c" if "word s" "c \<in> set s" for s c using that by (simp add: word_def)
  have eq: "graphic CHR ''=''" by (simp add: graphic_def)
  consider "word (fst sec)" "l = key_line (fst sec)" | f v where "word f" "l = field_line (f, v)"
    using assms by (auto simp: section_lines_def printable_def)
  then obtain p w where l: "l = p @ w" "\<forall>c \<in> set p. c = CHR 0x09 \<or> c = CHR 0x20 \<or> graphic c" "word w \<or> w = '':''"
  proof cases
    case 1
    then show ?thesis using that [of "fst sec" "'':''"] blank by (simp add: key_line_def)
  next
    case 2
    then show ?thesis
      using that [of "CHR 0x09 # f @ '' = ''" "Itoa v"] blank eq word_Itoa by (auto simp: field_line_def)
  qed
  have w: "\<forall>c \<in> set w. graphic c" "w \<noteq> []" using l(3) by (auto simp: word_def graphic_def)
  have no: "\<not> graphic CHR 0x0A" "\<not> graphic CHR 0x0D" by (simp_all add: graphic_def)
  have "CHR 0x0A \<notin> set p" using l(2) no by force
  then show "CHR 0x0A \<notin> set l" using l(1) w no by auto
  have "graphic (last l)" using w l(1) by simp
  then show "dropCR l = l" using no by (auto simp: dropCR_def)
qed

lemma parse_info_text:
  assumes "\<forall>sec \<in> set secs. printable sec"
  shows "parseConsulStats (info_text secs) = Inr (map_of (rev (concat (map section_stats secs))))"
proof -
  let ?ls = "concat (map section_lines secs)"
  have chars: "\<forall>l \<in> set ?ls. CHR 0x0A \<notin> set l \<and> dropCR l = l \<and> length l < maxTokenSize"
  proof
    fix l assume "l \<in> set ?ls"
    then obtain sec where "sec \<in> set secs" "l \<in> set (section_lines sec)" by auto
    then show "CHR 0x0A \<notin> set l \<and> dropCR l = l \<and> length l < maxTokenSize"
      using assms section_line_chars [of sec l] by (auto simp: printable_def)
  qed
  then have "map dropCR ?ls = ?ls" by (intro map_idI) blast
  then have "ScanLines (info_text secs) = (?ls, False)"
    using chars Split_lines [of ?ls] scan_lines [of ?ls] by (simp add: ScanLines_def info_text_def)
  then show ?thesis using parse_sections [OF assms, of "[]" Map.empty] by (simp add: parseConsulStats_def)
qed

text \<open>
  C36. What \<^verbatim>\<open>consul info\<close> prints is read back: for sections of fields with integer values the parser
  returns exactly the value of every field, under the name of its section and its own, without the
  ignored fields and sections; a name that occurs twice has its last value.
\<close>

theorem stats_roundtrip:
  assumes "\<forall>sec \<in> set secs. printable sec"
  shows "parseConsulStats (info_text secs) = Inr (map_of (rev (concat (map section_stats secs))))"
  by (rule parse_info_text [OF assms])

theorem stats_roundtrip_witness:
  "parseConsulStats (info_text [(''raft'', [(''term'', 7), (''state'', 1)])]) = Inr [''raft_term'' \<mapsto> 7]"
proof -
  have "Itoa 7 = ''7''" "Itoa 1 = ''1''" by code_simp+
  then have "printable (''raft'', [(''term'', 7), (''state'', 1)])"
    by (simp add: printable_def section_lines_def key_line_def field_line_def word_def graphic_def
        maxTokenSize_def)
  then show ?thesis
    using stats_roundtrip [of "[(''raft'', [(''term'', 7), (''state'', 1)])]"]
    by (simp add: section_stats_def ignoredFields_def ignoredKeys_def)
qed

section \<open>The collector\<close>

lemma parse_value_range: "parse_value v = Inr i \<Longrightarrow> - (2 ^ 63) \<le> i \<and> i < 2 ^ 63"
  using ParseInt_range [of v i] by (auto simp: parse_value_def split: if_splits)

text \<open>One line either leaves the statistics alone or adds one value in range.\<close>

lemma parse_line_step:
  assumes "parse_lines key stats (t # ts) = Inr stats'"
  obtains key' where "parse_lines key' stats ts = Inr stats'"
  | key' n i where "- (2 ^ 63) \<le> i" "i < 2 ^ 63" "parse_lines key' (stats(n \<mapsto> i)) ts = Inr stats'"
  using assms by (fastforce simp: Let_def dest: parse_value_range split: if_splits sum.splits)

lemma parse_lines_range:
  assumes "parse_lines key stats ls = Inr stats'" "\<forall>n v. stats n = Some v \<longrightarrow> - (2 ^ 63) \<le> v \<and> v < 2 ^ 63"
  shows "\<forall>n v. stats' n = Some v \<longrightarrow> - (2 ^ 63) \<le> v \<and> v < 2 ^ 63"
  using assms
proof (induction ls arbitrary: key stats)
  case (Cons t ts)
  show ?case
  proof (rule parse_line_step [OF Cons.prems(1)])
    fix key' n i
    assume i: "- (2 ^ 63) \<le> i" "i < 2 ^ 63" "parse_lines key' (stats(n \<mapsto> i)) ts = Inr stats'"
    show ?thesis by (rule Cons.IH [OF i(3)]) (use Cons.prems(2) i in auto)
  qed (use Cons.IH Cons.prems(2) in blast)
qed simp

text \<open>
  C37. The collector of \<^verbatim>\<open>consul info\<close>.  A failed command or unreadable output changes nothing and
  sends no gauges; otherwise every statistic, a signed 64-bit integer, is stored in its gauge, exactly
  if it has at most 53 bits, and all gauges are sent.  Gauges are never removed: one that is no longer
  reported keeps its last value.
\<close>

theorem collector_updates:
  "case updateMetrics exec c of (err, c') \<Rightarrow>
     c_info c' = c_info c \<and> dom (c_metrics c) \<subseteq> dom (c_metrics c') \<and>
     (err \<noteq> None \<longrightarrow> c' = c \<and> Collect exec c = (Map.empty, c)) \<and>
     (err = None \<longrightarrow> Collect exec c = (c_metrics c', c') \<and>
       (\<exists>stats. getConsulStats exec (c_info c) = Inr stats \<and>
         (\<forall>n v. stats n = Some v \<longrightarrow> - (2 ^ 63) \<le> v \<and> v < 2 ^ 63 \<and> c_metrics c' n = Some (f64 v) \<and>
            (\<bar>v\<bar> \<le> 2 ^ 53 \<longrightarrow> f64 v = v)) \<and>
         (\<forall>n. stats n = None \<longrightarrow> c_metrics c' n = c_metrics c n)))"
proof (cases "getConsulStats exec (c_info c)")
  case (Inl e)
  then show ?thesis by (simp add: updateMetrics_def Collect_def)
next
  case (Inr stats)
  then obtain b where "parseConsulStats b = Inr stats"
    by (auto simp: getConsulStats_def Let_def split: sum.splits)
  then obtain ls where "parse_lines [] Map.empty ls = Inr stats"
    by (auto simp: parseConsulStats_def split: prod.splits sum.splits if_splits)
  then have "\<forall>n v. stats n = Some v \<longrightarrow> - (2 ^ 63) \<le> v \<and> v < 2 ^ 63"
    by (rule parse_lines_range) simp
  then show ?thesis using Inr by (auto simp: updateMetrics_def Collect_def split: option.splits)
qed

theorem collector_updates_witness:
  "fst (Collect (\<lambda>_ _. Inl ''exit status 1'') (newConsulCollector ''consul info'')) = Map.empty"
proof -
  have "fst (updateMetrics (\<lambda>_ _. Inl ''exit status 1'') (newConsulCollector ''consul info'')) \<noteq> None"
    by (simp add: updateMetrics_def getConsulStats_def Let_def)
  then show ?thesis
    using collector_updates [of "newConsulCollector ''consul info''" "\<lambda>_ _. Inl ''exit status 1''"]
    by (auto split: prod.splits)
qed

text \<open>
  The collector of \<^verbatim>\<open>consul info\<close> is registered in the end: if the command fails for the first
  \<open>n\<close> attempts and its gauges can be registered at the next one, the retry loop returns after
  exactly that attempt, with one line in the log for each failure.
\<close>

theorem collector_registered:
  assumes "\<forall>i < n. fst (updateMetrics (execs i) c) \<noteq> None" "updateMetrics (execs n) c = (None, c')"
    and "Register r ConsulInfo (map gauge_desc (visit n (c_metrics c'))) = ((res, None), r')" "n < fuel"
  shows "registerConsulCollector fuel execs visit 0 c r lines =
    Some (c', r', lines @ replicate n (retry_line (c_info c)))"
proof -
  obtain k where k: "fuel = n + Suc k" using assms(4) by (metis add_Suc_right less_imp_Suc_add)
  show ?thesis
    using registerConsulCollector_retries [of n execs 0 c "Suc k" visit r lines] assms(1)
      registerConsulCollector_succeeds [of execs n c c' r visit res r', OF assms(2,3)] by (simp add: k del: registerConsulCollector.simps)
qed

theorem collector_registered_witness:
  "\<exists>c' r'. registerConsulCollector 2
      (\<lambda>k _ _. if k = 0 then Inl ''exit status 1'' else Inr (info_text [(''raft'', [(''term'', 7)])]))
      (\<lambda>_ _. [''raft_term'']) 0 (newConsulCollector ''consul info'') newRegistry [] =
    Some (c', r', [retry_line ''consul info''])"
proof -
  let ?x = "\<lambda>k (_ :: string) (_ :: string list). if k = (0 :: nat) then Inl ''exit status 1'' else Inr (info_text [(''raft'', [(''term'', 7)])])"
  let ?c = "newConsulCollector ''consul info''"
  have "Itoa 7 = ''7''" by code_simp
  then have "printable (''raft'', [(''term'', 7)])"
    by (simp add: printable_def section_lines_def key_line_def field_line_def word_def graphic_def
        maxTokenSize_def)
  then have "getConsulStats (?x 1) (c_info ?c) = Inr [''raft_term'' \<mapsto> 7]"
    using parse_info_text [of "[(''raft'', [(''term'', 7)])]"]
    by (simp add: getConsulStats_def section_stats_def ignoredFields_def ignoredKeys_def Let_def)
  then obtain c' where c': "updateMetrics (?x 1) ?c = (None, c')" by (simp add: updateMetrics_def)
  have "described [gauge_desc ''raft_term''] [''consul_raft_term'']"
    unfolding gauge_desc_def
    by (intro described_Cons described_Nil | simp add: name_checks del: MatchString.simps)+
  then obtain r' where "Register newRegistry ConsulInfo [gauge_desc ''raft_term''] = ((Some ConsulInfo, None), r')"
    using Register_holds [OF holds_new, of "[gauge_desc ''raft_term'']" ConsulInfo]
    by (auto simp: described_def)
  then show ?thesis
    using collector_registered [of 1 ?x ?c c' newRegistry "\<lambda>_ _. [''raft_term'']" "Some ConsulInfo" r' 2 "[]"] c'
    by (auto simp: updateMetrics_def getConsulStats_def newConsulCollector_def Let_def)
qed

end
