(* ===== verification/Dns_Properties.thy ===== *)
theory Dns_Properties
  imports Dns_Handler
begin

text \<open>
  The theorems on the agent's DNS handler and the writer that limits answers, over the definitions
  of \<open>Dns_Handler\<close>.
\<close>

text \<open>
  C10. The answer to an A or SRV question for a service.  The store is asked for exactly the
  instances of that service; without an error the reply is an authoritative NOERROR with one record
  per instance, in the order of the store; the error ``no instances'' becomes NXDOMAIN and any other
  error SERVFAIL, both without answers.
\<close>

theorem service_answers:
  assumes "Questions req = [q]" "valid_info i" "qName q = addr i @ ''.'' @ h_domain h"
    and "Qtype q = TypeA \<or> Qtype q = TypeSRV"
  shows "ServeDNS srt h w req s =
    run_bind (getInstances (h_store h) i s) (\<lambda>((ins, err), s').
      write_drop w ((newResponse req)
        \<lparr>Authoritative := True,
         Rcode := (case err of None \<Rightarrow> RcodeSuccess
                   | Some e \<Rightarrow> if isNoInstances e then RcodeNameError else RcodeServerFailure),
         Answer := (case err of None \<Rightarrow> map (rr_of q) ins | Some e \<Rightarrow> [])\<rparr>) s')"
  unfolding dns_reply.serves reply_service [OF assms(1,3) infoFromAddr_addr [OF assms(2)] assms(4)]
    run_bind_assoc error_rcode_def
  by (auto intro!: arg_cong [where f = "run_bind _"])

theorem service_answers_witness:
  "ServeDNS insertionSort sample_handler (connWriter (UDPAddr ''c'') (\<lambda>_. None))
     (sample_request (addr sample_info @ ''.'' @ ''srv.glimpse.io.'') TypeSRV) sample_world =
   Done (sample_world\<lparr>sent := [(UDPAddr ''c'',
     (newResponse (sample_request (addr sample_info @ ''.'' @ ''srv.glimpse.io.'') TypeSRV))
       \<lparr>Authoritative := True, Rcode := RcodeSuccess,
        Answer := [rr_of \<lparr>qName = addr sample_info @ ''.'' @ ''srv.glimpse.io.'', Qtype = TypeSRV,
                         Qclass = ClassINET\<rparr> sample_instance]\<rparr>)]\<rparr>)"
  using service_answers [of "sample_request (addr sample_info @ ''.'' @ ''srv.glimpse.io.'') TypeSRV"
      "\<lparr>qName = addr sample_info @ ''.'' @ ''srv.glimpse.io.'', Qtype = TypeSRV, Qclass = ClassINET\<rparr>"
      sample_info sample_handler insertionSort "connWriter (UDPAddr ''c'') (\<lambda>_. None)" sample_world]
    sample_valid
  by (simp add: sample_handler_def newDNSHandler_def sample_store_def sample_request_def
      write_drop_def connWriter_def sample_world_def new_world_def)

text \<open>
  C12. The name server records the agent hands out lead back to the servers: the \<open>k\<close>-th NS answer
  for a zone (or for the domain itself) names \<^verbatim>\<open>ns<k>.<name>\<close>, and an A question for that name,
  with the store returning the same servers, is answered with exactly the address of the \<open>k\<close>-th
  server in host order.
\<close>

theorem nameserver_roundtrip:
  assumes "Questions req = [q]" "Qtype q = TypeNS" "qName q = zone_name z (h_domain h)"
    and "z = [] \<or> valid_zone z" "IsFqdn (h_domain h)"
    and "getServers (h_store h) z s = Done ((servers, None), s1)"
    and "k < length (srt servers)" "k < 2 ^ 63"
    and "Questions req' = [q']" "Qtype q' = TypeA" "qName q' = ns_name k (qName q)"
    and "getServers (h_store h) z s2 = Done ((servers, None), s3)"
  shows "\<exists>m m'. reply srt h req s = Done (m, s1) \<and> length (Answer m) = length (srt servers) \<and>
    Answer m ! k = RR_NS \<lparr>ns_Hdr = answer_hdr q, ns_Ns = ns_name k (qName q)\<rparr> \<and>
    reply srt h req' s2 = Done (m', s3) \<and> Rcode m' = RcodeSuccess \<and>
    Answer m' = [RR_A \<lparr>a_Hdr = answer_hdr q', a_A = ip (srt servers ! k)\<rparr>]"
proof -
  have trim: "HasSuffix (qName q) (h_domain h)" "trim_domain (qName q) (h_domain h) = z"
    using assms(3) by (simp_all add: zone_name_suffix zone_name_trim)
  note list = reply_server_list [OF assms(1) trim assms(4) disjI2 [OF assms(2)]]
  have name: "qName q' = ''ns'' @ utoa k @ ''.'' @ zone_name z (h_domain h)"
    using assms(3,11) by (simp add: ns_name_def)
  have "\<forall>c \<in> set (utoa k). is_digit c" using utoa_digits by blast
  note single = reply_server_single [OF assms(9) name utoa_not_Nil this assms(4,10)]
  have "IsFqdn (zone_name z (h_domain h))"
    using assms(5) by (auto simp: zone_name_def IsFqdn_iff)
  then have fq: "Fqdn (ns_name k (qName q)) = ns_name k (qName q)"
    using assms(3) by (simp add: Fqdn_def ns_name_def IsFqdn_iff)
  have ns: "ns_rr q (k, server) = RR_NS \<lparr>ns_Hdr = answer_hdr q, ns_Ns = ns_name k (qName q)\<rparr>" for server
    using fq assms(2) by (simp add: ns_rr_def rr_of_def)
  show ?thesis
    using list [of srt s] single [of srt s2] assms(6-8,10,12) ns
    by (simp add: fatal_def nth_enumerate_eq rr_of_def dns_simps)
qed

theorem nameserver_roundtrip_witness:
  "\<exists>m m'. reply insertionSort sample_handler (sample_request ''gg.srv.glimpse.io.'' TypeNS) sample_world =
      Done (m, sample_world) \<and>
    Answer m ! 0 = RR_NS \<lparr>ns_Hdr = answer_hdr \<lparr>qName = ''gg.srv.glimpse.io.'', Qtype = TypeNS, Qclass = ClassINET\<rparr>,
      ns_Ns = ''ns0.gg.srv.glimpse.io.''\<rparr> \<and>
    reply insertionSort sample_handler (sample_request ''ns0.gg.srv.glimpse.io.'' TypeA) sample_world =
      Done (m', sample_world) \<and>
    Answer m' = [RR_A \<lparr>a_Hdr = answer_hdr \<lparr>qName = ''ns0.gg.srv.glimpse.io.'', Qtype = TypeA, Qclass = ClassINET\<rparr>,
      a_A = ip sample_instance\<rparr>]"
proof -
  have sorted: "insertionSort [sample_instance] = [sample_instance]"
    by (simp add: insertionSort_def Len_def)
  have name: "ns_name 0 ''gg.srv.glimpse.io.'' = ''ns0.gg.srv.glimpse.io.''"
    by code_simp
  show ?thesis
    using nameserver_roundtrip [of "sample_request ''gg.srv.glimpse.io.'' TypeNS"
        "\<lparr>qName = ''gg.srv.glimpse.io.'', Qtype = TypeNS, Qclass = ClassINET\<rparr>" "''gg''" sample_handler
        sample_world "[sample_instance]" sample_world 0 insertionSort
        "sample_request ''ns0.gg.srv.glimpse.io.'' TypeA"
        "\<lparr>qName = ''ns0.gg.srv.glimpse.io.'', Qtype = TypeA, Qclass = ClassINET\<rparr>" sample_world sample_world]
      sample_zone
    by (simp add: sample_request_def sample_handler_def newDNSHandler_def sample_store_def sorted name
        zone_name_def IsFqdn_def)
      blast
qed

text \<open>
  C13. Every request with a question is answered exactly once and without a panic: over a sound
  store the handler computes one reply and writes it.  The reply has the id and the (first) question
  of the request, only the response codes the agent knows, answers only with NOERROR, and every
  answer carries the name and type of the question, class IN and the default time to live.
\<close>

theorem every_request_answered:
  assumes "sound_store (h_store h)" "world_ok s" "Questions req \<noteq> []"
  shows "\<exists>m s'. ServeDNS srt h w req s = write_drop w m s' \<and>
    dns_part s' = dns_part s \<and> world_ok s' \<and>
    msgId m = msgId req \<and> Response m \<and> Questions m = [hd (Questions req)] \<and>
    Rcode m \<in> {RcodeSuccess, RcodeNameError, RcodeServerFailure, RcodeNotImplemented} \<and>
    (Answer m \<noteq> [] \<longrightarrow> Rcode m = RcodeSuccess) \<and>
    (\<forall>rr \<in> set (Answer m). hdrName (Header rr) = qName (hd (Questions req)) \<and>
      Rrtype (Header rr) = Qtype (hd (Questions req)) \<and> hdrClass (Header rr) = ClassINET \<and>
      Ttl (Header rr) = defaultTTL)"
proof -
  obtain m s' where r: "reply srt h req s = Done (m, s')" "reply_ok req m" "world_ok s'"
    "dns_part s' = dns_part s"
    using sound_store.reply_sound [OF assms(1,2) refl assms(3), of srt]
    unfolding sound_reply_def by blast
  have "ServeDNS srt h w req s = write_drop w m s'" by (simp add: dns_reply.serves r(1))
  then show ?thesis
    using r(2-4) unfolding reply_ok_def answer_hdr_def by (intro exI [of _ m] exI [of _ s']) auto
qed

theorem every_request_answered_witness:
  "\<exists>m s'. ServeDNS insertionSort sample_handler (connWriter (UDPAddr ''c'') (\<lambda>_. None))
      (sample_request ''x.'' TypeA) sample_world =
      write_drop (connWriter (UDPAddr ''c'') (\<lambda>_. None)) m s' \<and> msgId m = 7"
  using every_request_answered [of sample_handler sample_world "sample_request ''x.'' TypeA"
      insertionSort "connWriter (UDPAddr ''c'') (\<lambda>_. None)"] sample.sound_store_axioms
    world_ok_new [of "\<lambda>_. 0"]
  by (auto simp: sample_handler_def newDNSHandler_def sample_world_def sample_request_def)

text \<open>
  Without a question the handler would panic on \<^verbatim>\<open>req.Question[0]\<close>; the multiplexer in front of
  it answers such a request with SERVFAIL and never calls a handler.
\<close>

theorem zero_questions_guarded:
  assumes "Questions req = []"
  shows "ServeDNS srt h w req s = Panic IndexOutOfRange \<and>
    ServeMux_ServeDNS mux w req s = write_drop w (SetRcode empty_Msg req RcodeServerFailure) s"
  using assms by (simp add: ServeDNS_def Let_def ServeMux_ServeDNS_def HandleFailed_def)

theorem zero_questions_guarded_witness:
  "Questions empty_Msg = [] \<and>
    ServeMux_ServeDNS [''.'' \<mapsto> ServeDNS insertionSort sample_handler]
      (connWriter (UDPAddr ''c'') (\<lambda>_. None)) empty_Msg sample_world =
    write_drop (connWriter (UDPAddr ''c'') (\<lambda>_. None))
      (SetRcode empty_Msg empty_Msg RcodeServerFailure) sample_world"
  using zero_questions_guarded [of empty_Msg insertionSort sample_handler
      "connWriter (UDPAddr ''c'') (\<lambda>_. None)" sample_world
      "[''.'' \<mapsto> ServeDNS insertionSort sample_handler]"]
  by (simp add: dns_simps)

text \<open>
  C16. The protocol handler limits UDP answers: with a non-negative limit a reply over UDP has at most
  that many answers, the first ones of the handler's reply, and is marked as truncated exactly if
  some were cut; over TCP, and in every other field, the reply is unchanged.
\<close>

theorem udp_answers_limited:
  assumes "0 \<le> k"
  shows "\<exists>m'. truncate_msg a k m = Done m' \<and>
    m' = m\<lparr>Answer := Answer m', Truncated := Truncated m'\<rparr> \<and>
    Answer m' = (case a of UDPAddr _ \<Rightarrow> take (nat k) (Answer m) | _ \<Rightarrow> Answer m) \<and>
    (Truncated m' \<longleftrightarrow> Truncated m \<or> length (Answer m') < length (Answer m)) \<and>
    protocolHandler k hdl (w\<lparr>RemoteAddr := a\<rparr>) req s =
      hdl \<lparr>RemoteAddr = a, WriteMsg = \<lambda>m s. run_bind (truncate_msg a k m) (\<lambda>m'. WriteMsg w m' s)\<rparr> req s"
  using assms
  by (cases a) (auto simp: truncate_msg_def protocolHandler_def truncatingWriter_def min_def)

theorem udp_answers_limited_witness:
  "\<exists>m'. truncate_msg (UDPAddr ''c'') 1
      (empty_Msg\<lparr>Answer := [RR_UID \<lparr>uid_Hdr = answer_hdr sample_question, uid_Uid = 1\<rparr>,
                            RR_UID \<lparr>uid_Hdr = answer_hdr sample_question, uid_Uid = 2\<rparr>]\<rparr>) = Done m' \<and>
    Answer m' = [RR_UID \<lparr>uid_Hdr = answer_hdr sample_question, uid_Uid = 1\<rparr>] \<and> Truncated m'"
  using udp_answers_limited [of 1 "UDPAddr ''c''"
      "empty_Msg\<lparr>Answer := [RR_UID \<lparr>uid_Hdr = answer_hdr sample_question, uid_Uid = 1\<rparr>,
                            RR_UID \<lparr>uid_Hdr = answer_hdr sample_question, uid_Uid = 2\<rparr>]\<rparr>"
      HandleFailed "connWriter (UDPAddr ''c'') (\<lambda>_. None)" empty_Msg sample_world]
  by auto

lemma server_forms:
  "MatchString serverQuestionRE n \<longleftrightarrow>
     (\<exists>z. (z = [] \<or> valid_zone z) \<and>
       (n = z \<or> (\<exists>ds. ds \<noteq> [] \<and> (\<forall>c \<in> set ds. is_digit c) \<and>
          n = ''ns'' @ ds @ (if z = [] then [] else ''.'' @ z))))" (is "?L \<longleftrightarrow> ?R")
proof
  assume ?L
  then consider "n = []" | ds where "n = ''ns'' @ ds" "ds \<noteq> []" "\<forall>c \<in> set ds. is_digit c"
    | "valid_zone n"
    | ds z where "n = (''ns'' @ ds) @ ''.'' @ z" "ds \<noteq> []" "\<forall>c \<in> set ds. is_digit c" "valid_zone z"
    by (fastforce simp: MatchString_server is_ns_def)
  then show ?R
  proof cases
    case 2
    then show ?thesis by (intro exI [of _ "[]"]) simp
  next
    case 4
    then show ?thesis using zone_not_Nil by (intro exI [of _ z]) simp
  qed auto
next
  assume ?R
  then obtain z where z: "z = [] \<or> valid_zone z"
    and n: "n = z \<or> (\<exists>ds. ds \<noteq> [] \<and> (\<forall>c \<in> set ds. is_digit c) \<and>
          n = ''ns'' @ ds @ (if z = [] then [] else ''.'' @ z))"
    by blast
  from n show ?L
  proof (elim disjE exE conjE)
    fix ds assume ds: "ds \<noteq> []" "\<forall>c \<in> set ds. is_digit c"
      and n: "n = ''ns'' @ ds @ (if z = [] then [] else ''.'' @ z)"
    have "is_ns (''ns'' @ ds)" using ds unfolding is_ns_def by blast
    moreover have "n = ''ns'' @ ds \<or> valid_zone z \<and> n = (''ns'' @ ds) @ ''.'' @ z" using z n by auto
    ultimately show ?L unfolding MatchString_server by metis
  qed (use z in \<open>auto simp: MatchString_server\<close>)
qed

lemma newSOA_form:
  "\<exists>rr. newSOA q d ttl s = (RR_SOA rr, s\<lparr>tick := Suc (tick s)\<rparr>) \<and> soa_Ns rr = ''ns0.'' @ d \<and>
    Ttl (soa_Hdr rr) = ttl \<and> soa_Minttl rr = 5 \<and>
    soa_Serial rr = of_int (clock s (tick s) div 1000000000)"
  by (simp add: newSOA_def time_Now_def defaultTTL_def)

text \<open>
  C32. The pattern for service questions accepts exactly the names the address parser accepts, so that
  the parse error in \<^verbatim>\<open>serviceResponse\<close> cannot happen; and no name has both forms, so that the order
  of the two cases does not matter.
\<close>

theorem question_patterns:
  "(MatchString serviceQuestionRE n \<longleftrightarrow> (\<exists>i. valid_info i \<and> addr i = n)) \<and>
   (MatchString serverQuestionRE n \<longleftrightarrow>
     (\<exists>z. (z = [] \<or> valid_zone z) \<and>
       (n = z \<or> (\<exists>ds. ds \<noteq> [] \<and> (\<forall>c \<in> set ds. is_digit c) \<and>
          n = ''ns'' @ ds @ (if z = [] then [] else ''.'' @ z))))) \<and>
   \<not> (MatchString serviceQuestionRE n \<and> MatchString serverQuestionRE n)"
proof -
  have service: "MatchString serviceQuestionRE n \<longleftrightarrow> (\<exists>i. valid_info i \<and> addr i = n)"
    by (simp only: MatchString_service infoFromAddr_iff)
  show ?thesis
    using server_not_service [of n] by (intro conjI service server_forms) blast
qed

theorem question_patterns_witness:
  "MatchString serviceQuestionRE (addr sample_info)"
  using question_patterns [of "addr sample_info"] sample_valid by blast

text \<open>
  Names the agent does not serve.  Several questions are answered NOTIMPL and a name outside the
  domain NXDOMAIN, neither as authoritative; a name below the domain that is neither a service nor a
  server is an authoritative NXDOMAIN with one SOA record that lets the answer be cached for a day.
\<close>

theorem rejected_questions:
  assumes "Questions req = q # qs"
  shows "(qs \<noteq> [] \<longrightarrow> reply srt h req s = Done ((newResponse req)\<lparr>Rcode := RcodeNotImplemented\<rparr>, s)) \<and>
    (qs = [] \<and> \<not> HasSuffix (qName q) (h_domain h) \<longrightarrow>
      reply srt h req s = Done ((newResponse req)\<lparr>Rcode := RcodeNameError\<rparr>, s)) \<and>
    (\<forall>n. qs = [] \<and> n \<noteq> [] \<and> qName q = n @ ''.'' @ h_domain h \<and>
        \<not> MatchString serviceQuestionRE n \<and> \<not> MatchString serverQuestionRE n \<longrightarrow>
      (\<exists>rr s'. reply srt h req s = Done ((newResponse req)
          \<lparr>Authoritative := True, Rcode := RcodeNameError, Extra := [RR_SOA rr]\<rparr>, s') \<and>
        soa_Ns rr = ''ns0.'' @ h_domain h \<and> Ttl (soa_Hdr rr) = 86400 \<and> soa_Minttl rr = 5 \<and>
        soa_Serial rr = of_int (clock s (tick s) div 1000000000)))"
proof -
  have "\<exists>rr s'. reply srt h req s = Done ((newResponse req)
          \<lparr>Authoritative := True, Rcode := RcodeNameError, Extra := [RR_SOA rr]\<rparr>, s') \<and>
        soa_Ns rr = ''ns0.'' @ h_domain h \<and> Ttl (soa_Hdr rr) = 86400 \<and> soa_Minttl rr = 5 \<and>
        soa_Serial rr = of_int (clock s (tick s) div 1000000000)"
    if "qs = []" "n \<noteq> []" "qName q = n @ ''.'' @ h_domain h"
      "\<not> MatchString serviceQuestionRE n" "\<not> MatchString serverQuestionRE n" for n
  proof -
    obtain rr where rr: "newSOA q (h_domain h) defaultInvalidTTL s = (RR_SOA rr, s\<lparr>tick := Suc (tick s)\<rparr>)"
      "soa_Ns rr = ''ns0.'' @ h_domain h" "Ttl (soa_Hdr rr) = defaultInvalidTTL" "soa_Minttl rr = 5"
      "soa_Serial rr = of_int (clock s (tick s) div 1000000000)"
      using newSOA_form by metis
    then show ?thesis
      using reply_below [OF assms [unfolded that(1)] that(3,2), of srt s] that(4,5)
      by (intro exI [of _ rr]) (simp add: defaultInvalidTTL_def)
  qed
  moreover have "reply srt h req s = Done ((newResponse req)\<lparr>Rcode := RcodeNotImplemented\<rparr>, s)"
    if "qs \<noteq> []"
    using assms that by (simp add: reply_def neq_Nil_conv) auto
  ultimately show ?thesis using assms by (simp add: reply_def)
qed

theorem rejected_questions_witness:
  "reply insertionSort sample_handler (sample_request ''example.org.'' TypeA) sample_world =
    Done ((newResponse (sample_request ''example.org.'' TypeA))\<lparr>Rcode := RcodeNameError\<rparr>, sample_world)"
proof -
  have "\<not> HasSuffix ''example.org.'' ''srv.glimpse.io.''" by code_simp
  then show ?thesis
    using rejected_questions [of "sample_request ''example.org.'' TypeA"
        "\<lparr>qName = ''example.org.'', Qtype = TypeA, Qclass = ClassINET\<rparr>" "[]" insertionSort
        sample_handler sample_world]
    by (simp add: sample_request_def sample_handler_def newDNSHandler_def)
qed

text \<open>
  A reply to a single question is authoritative exactly if the name of the question ends in the
  domain of the agent.
\<close>

theorem authoritative_iff:
  assumes "Questions req = [q]" "reply srt h req s = Done (m, s')"
  shows "Authoritative m \<longleftrightarrow> HasSuffix (qName q) (h_domain h)"
proof (cases "HasSuffix (qName q) (h_domain h)")
  case False
  then show ?thesis using assms by (auto simp: reply_def dns_simps)
next
  case True
  let ?res = "(newResponse req)\<lparr>Authoritative := True\<rparr>"
  and ?n = "trim_domain (qName q) (h_domain h)"
  have run: "authoritative_reply srt h q ?res s = Done (m, s')" using True assms by (simp add: reply_def)
  consider "MatchString serviceQuestionRE ?n" "serviceResponse h ?n q ?res s = Done (m, s')"
    | "MatchString serverQuestionRE ?n" "serverResponse srt h ?n q ?res s = Done (m, s')"
    | "Authoritative m"
    using run by (auto simp: authoritative_reply_def Let_def split: if_splits)
  then show ?thesis
    using True serviceResponse_keeps [of h ?n q ?res s m s'] serverResponse_keeps [of srt h ?n q ?res s m s']
    by cases simp_all
qed

theorem authoritative_iff_witness:
  "\<exists>m s'. reply insertionSort sample_handler (sample_request ''x.'' TypeA) sample_world = Done (m, s') \<and>
    \<not> Authoritative m"
proof -
  have no: "\<not> HasSuffix ''x.'' ''srv.glimpse.io.''" by code_simp
  then have r: "reply insertionSort sample_handler (sample_request ''x.'' TypeA) sample_world =
    Done ((newResponse (sample_request ''x.'' TypeA))\<lparr>Rcode := RcodeNameError\<rparr>, sample_world)"
    by (simp add: reply_def sample_request_def sample_handler_def newDNSHandler_def)
  show ?thesis
    using r authoritative_iff [OF _ r, of "\<lparr>qName = ''x.'', Qtype = TypeA, Qclass = ClassINET\<rparr>"] no
    by (auto simp: sample_request_def sample_handler_def newDNSHandler_def)
qed

text \<open>
  The domain is compared without regard to label boundaries: a name that ends in the characters of
  the domain but is not below it, such as \<^verbatim>\<open>evilsrv.glimpse.io.\<close>, gets the authoritative answer of
  the domain itself, the list of all servers.
\<close>

theorem lookalike_domain:
  assumes "Questions req = [q]" "qName q = p @ h_domain h" "CHR ''.'' \<notin> set p"
    and "Qtype q = TypeA \<or> Qtype q = TypeNS"
    and "getServers (h_store h) [] s = Done ((servers, None), s')"
  shows "\<exists>m. reply srt h req s = Done (m, s') \<and> Authoritative m \<and> Rcode m = RcodeSuccess \<and>
    length (Answer m) = length (srt servers)"
proof -
  have "HasSuffix (qName q) (h_domain h)" "trim_domain (qName q) (h_domain h) = []"
    using assms(2,3) trim_domain_no_boundary by simp_all
  then show ?thesis
    using reply_server_list [OF assms(1), of h "[]" srt s] assms(4,5) by (simp add: fatal_def)
qed

theorem lookalike_domain_witness:
  "\<exists>m. reply insertionSort sample_handler (sample_request (''evil'' @ ''srv.glimpse.io.'') TypeNS)
      sample_world = Done (m, sample_world) \<and> Authoritative m"
  using lookalike_domain [of "sample_request (''evil'' @ ''srv.glimpse.io.'') TypeNS"
      "\<lparr>qName = ''evil'' @ ''srv.glimpse.io.'', Qtype = TypeNS, Qclass = ClassINET\<rparr>" "''evil''"
      sample_handler sample_world "[sample_instance]" sample_world insertionSort]
  by (auto simp: sample_request_def sample_handler_def newDNSHandler_def sample_store_def)

text \<open>
  An A question for the server with a given number in a zone: an error of the store is SERVFAIL,
  a number beyond the range of a Go integer NXDOMAIN, a number beyond the servers an empty NOERROR, and
  every other number is answered with the address of that server.
\<close>

theorem nameserver_index:
  assumes "Questions req = [q]" "qName q = ''ns'' @ ds @ ''.'' @ zone_name z (h_domain h)"
    and "ds \<noteq> []" "\<forall>c \<in> set ds. is_digit c" "z = [] \<or> valid_zone z" "Qtype q = TypeA"
    and "getServers (h_store h) z s = Done ((servers, err), s')"
  shows "\<exists>m. reply srt h req s = Done (m, s') \<and>
    Rcode m = (if fatal err then RcodeServerFailure
               else if 2 ^ 63 \<le> digits_val ds then RcodeNameError else RcodeSuccess) \<and>
    Answer m = (if \<not> fatal err \<and> digits_val ds < 2 ^ 63 \<and> digits_val ds < length (srt servers)
                then [rr_of q (srt servers ! digits_val ds)] else [])"
  using reply_server_single [OF assms(1-6), of srt s] assms(7)
  by (simp add: Let_def dns_simps)

theorem nameserver_index_witness:
  "\<exists>m. reply insertionSort sample_handler (sample_request (''ns'' @ ''9'' @ ''.'' @ ''srv.glimpse.io.'') TypeA)
      sample_world = Done (m, sample_world) \<and> Rcode m = RcodeSuccess \<and> Answer m = []"
proof -
  have "digits_val ''9'' = 9" "is_digit CHR ''9''"
    by (simp_all add: digits_val_def digit_val_def is_digit_def)
  moreover have "length (insertionSort [sample_instance]) = 1" by simp
  ultimately show ?thesis
    using nameserver_index [of "sample_request (''ns'' @ ''9'' @ ''.'' @ ''srv.glimpse.io.'') TypeA"
        "\<lparr>qName = ''ns'' @ ''9'' @ ''.'' @ ''srv.glimpse.io.'', Qtype = TypeA, Qclass = ClassINET\<rparr>"
        "''9''" "[]" sample_handler sample_world "[sample_instance]" None sample_world insertionSort]
    by (simp add: sample_request_def sample_handler_def newDNSHandler_def sample_store_def
        zone_name_def fatal_def)
qed

end
