(* ===== verification/Dns_Library_Properties.thy ===== *)
theory Dns_Library_Properties
  imports Dns_Server
begin

text \<open>
  The theorems on the parts of the DNS library that dispatch requests and take names apart.
\<close>

text \<open>
  The multiplexer dispatches by the longest registered suffix: for every type but DS the handler
  of a question is the one registered for the first of the name's suffixes at label boundaries,
  longest first and in lower case, that has one, and the root handler otherwise.  A handler that has
  just been registered serves its own name and takes over no question whose suffixes differ from it.
\<close>

theorem mux_dispatch:
  assumes "t \<noteq> TypeDS" "Handle mux p h = Done mux'"
  shows "match mux q t =
      (case first_registered mux (label_suffixes q) of Some g \<Rightarrow> Some g | None \<Rightarrow> mux ''.'') \<and>
    (map lower q = Fqdn p \<longrightarrow> match mux' q t = Some h) \<and>
    (Fqdn p \<notin> set (label_suffixes q) \<and> Fqdn p \<noteq> ''.'' \<longrightarrow> match mux' q t = match mux q t)"
proof -
  have mux': "mux' = mux(Fqdn p \<mapsto> h)" using assms(2) by (auto simp: Handle_def split: if_splits)
  have "first_registered mux' ks = first_registered mux ks" if "Fqdn p \<notin> set ks" for ks
    using that by (induction ks) (auto simp: mux' split: option.splits)
  moreover have "hd (label_suffixes q) = map lower q" "label_suffixes q \<noteq> []"
    by (simp_all add: label_suffixes_def)
  then have "first_registered mux' (label_suffixes q) = Some h" if "map lower q = Fqdn p"
    using that by (cases "label_suffixes q") (simp_all add: mux')
  ultimately show ?thesis
    by (auto simp: match_most_specific [OF assms(1)] mux' split: option.splits)
qed

definition const_handler :: "nat \<Rightarrow> nat Handler" where
  "const_handler k w r s = Done k"

theorem mux_dispatch_witness:
  "\<exists>mux'. Handle [''.'' \<mapsto> const_handler 0] ''glimpse.io'' (const_handler 1) = Done mux' \<and>
    match mux' ''Glimpse.IO.'' TypeA = Some (const_handler 1)"
proof -
  obtain mux' where m: "Handle [''.'' \<mapsto> const_handler 0] ''glimpse.io'' (const_handler 1) = Done mux'"
    by (simp add: Handle_def)
  have "map lower ''Glimpse.IO.'' = Fqdn ''glimpse.io''" by code_simp
  moreover have "TypeA \<noteq> TypeDS" by (simp add: dns_simps)
  ultimately show ?thesis using mux_dispatch [OF _ m, of TypeA "''Glimpse.IO.''"] m by blast
qed

text \<open>
  Splitting a name into labels: for a name without escapes and empty labels the labels found by
  walking over byte offsets are the parts between the dots, their number is what \<^verbatim>\<open>CountLabel\<close>
  counts, and joining them gives the name back without its final dot.
\<close>

theorem split_labels:
  assumes "plain s" "s \<noteq> []" "TrimSuffix s ''.'' \<noteq> []" "last (TrimSuffix s ''.'') \<noteq> CHR ''.''"
  shows "SplitDomainName s = Split (TrimSuffix s ''.'') CHR ''.'' \<and>
    Join (SplitDomainName s) ''.'' = TrimSuffix s ''.'' \<and>
    length (SplitDomainName s) = CountLabel s"
proof -
  have "length (cut_labels s b ls e) = Suc (length ls)" for b ls e
    by (induction s b ls e rule: cut_labels.induct) simp_all
  moreover have "s \<noteq> ''.''" using assms(3) by (auto simp: TrimSuffix_def HasSuffix_def)
  ultimately have "length (SplitDomainName s) = CountLabel s"
    using assms(2) by (simp add: CountLabel_length SplitDomainName_def SplitLabels_def Let_def)
  then show ?thesis using SplitDomainName_plain [OF assms] Join_Split by simp
qed

theorem split_labels_witness:
  "SplitDomainName ''srv.glimpse.io.'' = [''srv'', ''glimpse'', ''io'']"
proof -
  have "TrimSuffix ''srv.glimpse.io.'' ''.'' = ''srv.glimpse.io''" by code_simp
  then show ?thesis using split_labels [of "''srv.glimpse.io.''"] by simp
qed

end
