(* ===== verification/Dns_Text_Properties.thy ===== *)
theory Dns_Text_Properties
  imports Dns_RR
begin

text \<open>
  Properties of the presentation format and of copies and lengths of resource records.
\<close>

section \<open>Escapes\<close>

lemma of_char_less: "(of_char c :: nat) < 256"
  by (metis of_char_mod_256 mod_less_divisor zero_less_numeral)

lemma digit_char_0: "digit_char 0 = CHR ''0''"
  by code_simp

lemma utoa_byte:
  assumes "n < 256"
  shows "replicate (3 - length (utoa n)) (CHR ''0'') @ utoa n =
    [digit_char (n div 100), digit_char (n div 10 mod 10), digit_char (n mod 10)]"
proof -
  consider "n < 10" | "10 \<le> n" "n < 100" | "100 \<le> n" by linarith
  then show ?thesis
  proof cases
    case 1
    then have "utoa n = [digit_char n]" by (subst utoa.simps) simp
    then show ?thesis using 1 by (simp add: digit_char_0 numeral_2_eq_2)
  next
    case 2
    then have "utoa (n div 10) = [digit_char (n div 10)]" by (subst utoa.simps) simp
    then have "utoa n = [digit_char (n div 10), digit_char (n mod 10)]"
      using 2 by (subst utoa.simps) simp
    then show ?thesis using 2 by (simp add: digit_char_0)
  next
    case 3
    have div: "n div 10 div 10 = n div 100" by (simp flip: div_mult2_eq)
    have "utoa (n div 100) = [digit_char (n div 100)]"
      using less_mult_imp_div_less [of n 10 100] assms by (subst utoa.simps) simp
    then have "utoa (n div 10) = [digit_char (n div 100), digit_char (n div 10 mod 10)]"
      using 3 by (subst utoa.simps) (simp add: div)
    then have "utoa n = [digit_char (n div 100), digit_char (n div 10 mod 10), digit_char (n mod 10)]"
      using 3 by (subst utoa.simps) simp
    then show ?thesis by simp
  qed
qed

lemma three_digits: "(n :: nat) div 100 * 100 + n div 10 mod 10 * 10 + n mod 10 = n"
proof -
  have "n div 10 = n div 100 * 10 + n div 10 mod 10"
    using div_mult_mod_eq [of "n div 10" 10] by (simp flip: div_mult2_eq)
  then show ?thesis using div_mult_mod_eq [of n 10] by linarith
qed

lemma ddd_form:
  "\<exists>x y z. ddd b = [CHR 0x5C, x, y, z] \<and> is_digit x \<and> is_digit y \<and> is_digit z \<and>
    (\<forall>r. dddToByte (x # y # z # r) = b)"
proof -
  let ?n = "of_char b :: nat"
  let ?x = "digit_char (?n div 100)" and ?y = "digit_char (?n div 10 mod 10)"
    and ?z = "digit_char (?n mod 10)"
  have n: "?n < 256" by (rule of_char_less)
  then have "?n < 10 * 100" by linarith
  then have "?n div 100 < 10" by (rule less_mult_imp_div_less)
  note x = digit_char_digit [OF this] digit_val_digit_char [OF this]
  have "dddToByte (?x # ?y # ?z # r) = b" for r
    using n three_digits [of ?n] by (simp add: dddToByte_def x(2))
  moreover have "ddd b = [CHR 0x5C, ?x, ?y, ?z]"
    using utoa_byte [OF n] by (simp add: ddd_def Let_def)
  ultimately show ?thesis using x(1) by simp
qed

text \<open>The three forms in which a byte is printed.\<close>

lemma txt_byte_forms:
  "appendTXTStringByte [] b = [b] \<and> b \<noteq> CHR 0x5C \<or> appendTXTStringByte [] b = ddd b \<or>
   (\<exists>c. appendTXTStringByte [] b = [CHR 0x5C, c] \<and> \<not> is_digit c \<and> c \<noteq> CHR ''.'' \<and>
     (\<forall>r. next_byte ([CHR 0x5C, c] @ r) = (b, 2)))"
  by (simp add: appendTXTStringByte_def next_byte_def is_digit_def)

lemma next_byte_ddd: "next_byte (ddd b @ r) = (b, length (ddd b))"
proof -
  obtain x y z where "ddd b = [CHR 0x5C, x, y, z]" "is_digit x" "is_digit y" "is_digit z"
    "\<forall>r. dddToByte (x # y # z # r) = b"
    using ddd_form [of b] by blast
  then show ?thesis by (simp add: next_byte_def)
qed

lemma next_byte_txt:
  "next_byte (appendTXTStringByte [] b @ r) = (b, length (appendTXTStringByte [] b))"
proof -
  consider "appendTXTStringByte [] b = [b]" "b \<noteq> CHR 0x5C" | "appendTXTStringByte [] b = ddd b"
    | c where "appendTXTStringByte [] b = [CHR 0x5C, c]" "\<forall>r. next_byte ([CHR 0x5C, c] @ r) = (b, 2)"
    using txt_byte_forms [of b] by blast
  then show ?thesis
  proof cases
    case 1
    then show ?thesis by (simp add: next_byte_def)
  next
    case 2
    then show ?thesis by (simp only: next_byte_ddd)
  next
    case 3
    then show ?thesis by (simp only: list.size) simp
  qed
qed

lemma append_name_byte: "appendDomainNameByte s b = s @ appendDomainNameByte [] b"
  by (simp add: appendDomainNameByte_def appendTXTStringByte_def)

lemma name_byte_forms:
  assumes "b \<noteq> CHR ''.''"
  shows "next_byte (appendDomainNameByte [] b @ r) = (b, length (appendDomainNameByte [] b)) \<and>
    (\<exists>c d t. appendDomainNameByte [] b = [c] \<and> c \<noteq> CHR 0x5C \<or>
      appendDomainNameByte [] b = c # d # t \<and> d \<noteq> CHR ''.'')"
proof (cases "appendDomainNameByte [] b = appendTXTStringByte [] b")
  case True
  obtain x y z where d: "ddd b = [CHR 0x5C, x, y, z]" "is_digit x" using ddd_form [of b] by blast
  have "x \<noteq> CHR ''.''" using d(2) by (auto simp: is_digit_def)
  then have "\<exists>c d t. appendTXTStringByte [] b = [c] \<and> c \<noteq> CHR 0x5C \<or>
      appendTXTStringByte [] b = c # d # t \<and> d \<noteq> CHR ''.''"
    using txt_byte_forms [of b] d(1) by (elim disjE exE conjE) metis+
  then show ?thesis unfolding True using next_byte_txt [of b r] by simp
next
  case False
  then have "appendDomainNameByte [] b = [CHR 0x5C, b]"
    "b \<in> {CHR '' '', CHR 0x27, CHR ''@'', CHR '';'', CHR ''('', CHR '')''}"
    using assms by (auto simp: appendDomainNameByte_def split: if_splits)
  then show ?thesis using assms by (elim insertE emptyE) (simp_all add: next_byte_def is_digit_def)
qed

section \<open>Names\<close>

text \<open>What one round of \<^const>\<open>sprint_name\<close> appends and how many characters it consumes.\<close>

definition name_step :: "string \<Rightarrow> string \<times> nat" where
  "name_step src =
     (if 1 < length src \<and> src ! 0 = CHR 0x5C \<and> src ! 1 = CHR ''.'' then (take 2 src, 2)
      else (case next_byte src of (b, n) \<Rightarrow>
              if n = 0 then ([], 1) else if b = CHR ''.'' then (''.'', n)
              else (appendDomainNameByte [] b, n)))"

lemma name_step_pos: "0 < snd (name_step src)"
  by (simp add: name_step_def split: prod.splits)

lemma sprint_name_step:
  "src \<noteq> [] \<Longrightarrow>
    sprint_name dst src = sprint_name (dst @ fst (name_step src)) (drop (snd (name_step src)) src)"
  by (subst sprint_name.simps)
     (auto simp: name_step_def append_name_byte [of dst] split: prod.splits)

lemma sprint_name_acc: "sprint_name dst src = dst @ sprint_name [] src"
proof (induction "length src" arbitrary: dst src rule: less_induct)
  case less
  show ?case
  proof (cases "src = []")
    case False
    then have "length (drop (snd (name_step src)) src) < length src"
      using name_step_pos [of src] by simp
    note IH = less(1) [OF this]
    show ?thesis
      unfolding sprint_name_step [OF False, of dst] sprint_name_step [OF False, of "[]"]
      using IH [of "dst @ fst (name_step src)"] IH [of "[] @ fst (name_step src)"] by (simp only: append_assoc append_Nil)
  qed (simp add: sprint_name.simps)
qed

lemma sprint_name_unfold:
  "src \<noteq> [] \<Longrightarrow>
    sprint_name [] src = fst (name_step src) @ sprint_name [] (drop (snd (name_step src)) src)"
  by (metis append_Nil sprint_name_acc sprint_name_step)

text \<open>What a round appends is one round of its own.\<close>

lemma name_step_fixed:
  assumes "fst (name_step src) = t" "t \<noteq> []"
  shows "name_step (t @ x) = (t, length t)"
proof -
  consider "t = [CHR 0x5C, CHR ''.'']" | "t = ''.''"
    | b where "b \<noteq> CHR ''.''" "t = appendDomainNameByte [] b"
  proof -
    have "1 < length src \<and> src ! 0 = CHR 0x5C \<and> src ! 1 = CHR ''.'' \<Longrightarrow> take 2 src = [CHR 0x5C, CHR ''.'']"
      by (cases src; cases "tl src") auto
    then show thesis
      using assms that by (auto simp: name_step_def split: if_splits prod.splits)
  qed
  then show ?thesis
  proof cases
    case 1
    then show ?thesis by (simp add: name_step_def)
  next
    case 2
    then show ?thesis by (simp add: name_step_def next_byte_def)
  next
    case 3
    then show ?thesis
      using name_byte_forms [OF 3(1), of x] assms(2) by (auto simp: name_step_def)
  qed
qed

lemma sprintName_fixed: "sprint_name [] (sprint_name [] src) = sprint_name [] src"
proof (induction "length src" arbitrary: src rule: less_induct)
  case less
  show ?case
  proof (cases "src = []")
    case False
    let ?t = "fst (name_step src)" and ?r = "drop (snd (name_step src)) src"
    have IH: "sprint_name [] (sprint_name [] ?r) = sprint_name [] ?r"
      using less False name_step_pos [of src] by simp
    have "sprint_name [] (?t @ sprint_name [] ?r) = ?t @ sprint_name [] ?r" if "?t \<noteq> []"
      using name_step_fixed [OF refl that, of "sprint_name [] ?r"] that IH
        sprint_name_unfold [of "?t @ sprint_name [] ?r"] by simp
    then show ?thesis using sprint_name_unfold [OF False] IH by (cases "?t = []") auto
  qed (simp add: sprint_name.simps)
qed

section \<open>Theorems\<close>

text \<open>
  Printing a name brings it into a normal form: printing the result again changes nothing.
\<close>

theorem sprintName_normal_form: "sprintName (sprintName n) = sprintName n"
  by (simp add: sprintName_def sprintName_fixed)

text \<open>
  Escapes are undone by reading: at any position of a string, what the printer appends for a byte
  is read back by \<^verbatim>\<open>nextByte\<close> as that byte, over exactly its length and whatever follows; this holds
  for character strings and, for every byte but the dot, for names.
\<close>

theorem escapes_read_back:
  "nextByte (s @ appendTXTStringByte [] b @ r) (length s) = (b, length (appendTXTStringByte [] b)) \<and>
   (b \<noteq> CHR ''.'' \<longrightarrow>
     nextByte (s @ appendDomainNameByte [] b @ r) (length s) = (b, length (appendDomainNameByte [] b)))"
  using next_byte_txt [of b r] name_byte_forms [of b r] by (simp add: nextByte_def)

theorem escapes_read_back_witness:
  "nextByte (''ab'' @ appendDomainNameByte [] (CHR 0x07) @ ''c'') 2 = (CHR 0x07, 4)"
proof -
  have "length (appendDomainNameByte [] (CHR 0x07)) = 4" by code_simp
  then show ?thesis using escapes_read_back [of "''ab''" "CHR 0x07" "''c''"]
    by (simp add: numeral_2_eq_2)
qed

text \<open>
  A dot written as a decimal escape is printed without its escape, so that the printed name has
  one more label than the name it was made from.
\<close>

theorem decimal_dot_splits_label:
  "sprintName [CHR ''a'', CHR 0x5C, CHR ''0'', CHR ''4'', CHR ''6'', CHR ''b'', CHR ''.''] = ''a.b.'' \<and>
   sprintName [CHR ''a'', CHR 0x5C, CHR ''.'', CHR ''b'', CHR ''.''] =
     [CHR ''a'', CHR 0x5C, CHR ''.'', CHR ''b'', CHR ''.'']"
  by code_simp

text \<open>The records whose copy is the record itself.\<close>

definition copied_exactly :: "RR \<Rightarrow> bool" where
  "copied_exactly r =
     (case r of
        RR_SIG _ \<Rightarrow> False | RR_DLV _ \<Rightarrow> False | RR_CDS _ \<Rightarrow> False | RR_KEY _ \<Rightarrow> False
      | RR_CDNSKEY _ \<Rightarrow> False
      | RR_CNAME c \<Rightarrow> sprintName (cname_Target c) = cname_Target c
      | RR_MB m \<Rightarrow> sprintName (mb_Mb m) = mb_Mb m
      | RR_URI u \<Rightarrow> uri_Priority u = uri_Weight u
      | _ \<Rightarrow> True)"

lemma URI_copy_eq: "URI_copy u = u \<longleftrightarrow> uri_Priority u = uri_Weight u"
  by (cases u) (auto simp: URI_copy_def)

lemma CNAME_copy_eq: "CNAME_copy c = c \<longleftrightarrow> sprintName (cname_Target c) = cname_Target c"
  by (cases c) (auto simp: CNAME_copy_def)

lemma MB_copy_eq: "MB_copy m = m \<longleftrightarrow> sprintName (mb_Mb m) = mb_Mb m"
  by (cases m) (auto simp: MB_copy_def)

lemma copies_id [simp]:
  "ANY_copy (x0 :: ANY_RR) = x0"
  "HINFO_copy (x1 :: HINFO_RR) = x1"
  "MG_copy (x2 :: MG_RR) = x2"
  "MINFO_copy (x3 :: MINFO_RR) = x3"
  "MR_copy (x4 :: MR_RR) = x4"
  "MF_copy (x5 :: MF_RR) = x5"
  "MD_copy (x6 :: MD_RR) = x6"
  "MX_copy (x7 :: MX_RR) = x7"
  "AFSDB_copy (x8 :: AFSDB_RR) = x8"
  "X25_copy (x9 :: X25_RR) = x9"
  "RT_copy (x10 :: RT_RR) = x10"
  "NS_copy (x11 :: NS_RR) = x11"
  "PTR_copy (x12 :: PTR_RR) = x12"
  "RP_copy (x13 :: RP_RR) = x13"
  "SOA_copy (x14 :: SOA_RR) = x14"
  "TXT_copy (x15 :: TXT_RR) = x15"
  "SPF_copy (x16 :: SPF_RR) = x16"
  "SRV_copy (x17 :: SRV_RR) = x17"
  "NAPTR_copy (x18 :: NAPTR_RR) = x18"
  "CERT_copy (x19 :: CERT_RR) = x19"
  "DNAME_copy (x20 :: DNAME_RR) = x20"
  "A_copy (x21 :: A_RR) = x21"
  "AAAA_copy (x22 :: AAAA_RR) = x22"
  "PX_copy (x23 :: PX_RR) = x23"
  "GPOS_copy (x24 :: GPOS_RR) = x24"
  "LOC_copy (x25 :: LOC_RR) = x25"
  "RRSIG_copy (x26 :: RRSIG_RR) = x26"
  "NSEC_copy (x27 :: NSEC_RR) = x27"
  "DS_copy (x28 :: DS_RR) = x28"
  "KX_copy (x29 :: KX_RR) = x29"
  "TA_copy (x30 :: TA_RR) = x30"
  "TALINK_copy (x31 :: TALINK_RR) = x31"
  "SSHFP_copy (x32 :: SSHFP_RR) = x32"
  "IPSECKEY_copy (x33 :: IPSECKEY_RR) = x33"
  "DNSKEY_copy (x34 :: DNSKEY_RR) = x34"
  "RKEY_copy (x35 :: RKEY_RR) = x35"
  "NSAP_copy (x36 :: NSAP_RR) = x36"
  "NSAPPTR_copy (x37 :: NSAPPTR_RR) = x37"
  "NSEC3_copy (x38 :: NSEC3_RR) = x38"
  "NSEC3PARAM_copy (x39 :: NSEC3PARAM_RR) = x39"
  "TKEY_copy (x40 :: TKEY_RR) = x40"
  "RFC3597_copy (x41 :: RFC3597_RR) = x41"
  "DHCID_copy (x42 :: DHCID_RR) = x42"
  "TLSA_copy (x43 :: TLSA_RR) = x43"
  "HIP_copy (x44 :: HIP_RR) = x44"
  "NINFO_copy (x45 :: NINFO_RR) = x45"
  "WKS_copy (x46 :: WKS_RR) = x46"
  "NID_copy (x47 :: NID_RR) = x47"
  "L32_copy (x48 :: L32_RR) = x48"
  "L64_copy (x49 :: L64_RR) = x49"
  "LP_copy (x50 :: LP_RR) = x50"
  "EUI48_copy (x51 :: EUI48_RR) = x51"
  "EUI64_copy (x52 :: EUI64_RR) = x52"
  "UID_copy (x53 :: UID_RR) = x53"
  "GID_copy (x54 :: GID_RR) = x54"
  "UINFO_copy (x55 :: UINFO_RR) = x55"
  "EID_copy (x56 :: EID_RR) = x56"
  "NIMLOC_copy (x57 :: NIMLOC_RR) = x57"
  "OPENPGPKEY_copy (x58 :: OPENPGPKEY_RR) = x58"
  "TSIG_copy (x59 :: TSIG_RR) = x59"
  "OPT_copy (x60 :: OPT_RR) = x60"
  by (simp_all add: OPT_copy_def ANY_copy_def HINFO_copy_def MG_copy_def MINFO_copy_def MR_copy_def
      MF_copy_def MD_copy_def MX_copy_def AFSDB_copy_def X25_copy_def
      RT_copy_def NS_copy_def PTR_copy_def RP_copy_def SOA_copy_def
      TXT_copy_def SPF_copy_def SRV_copy_def NAPTR_copy_def CERT_copy_def
      DNAME_copy_def A_copy_def AAAA_copy_def PX_copy_def GPOS_copy_def
      LOC_copy_def RRSIG_copy_def NSEC_copy_def DS_copy_def KX_copy_def
      TA_copy_def TALINK_copy_def SSHFP_copy_def IPSECKEY_copy_def DNSKEY_copy_def
      RKEY_copy_def NSAP_copy_def NSAPPTR_copy_def NSEC3_copy_def NSEC3PARAM_copy_def
      TKEY_copy_def RFC3597_copy_def DHCID_copy_def TLSA_copy_def HIP_copy_def
      NINFO_copy_def WKS_copy_def NID_copy_def L32_copy_def L64_copy_def
      LP_copy_def EUI48_copy_def EUI64_copy_def UID_copy_def GID_copy_def
      UINFO_copy_def EID_copy_def NIMLOC_copy_def OPENPGPKEY_copy_def TSIG_copy_def)

text \<open>
  A copy of a resource record is the record, with these exceptions: the five types that embed
  another type are copied into that type; copies of CNAME and MB records have their name printed in
  normal form; a copy of a URI record has its priority and weight exchanged.
\<close>

theorem copy_exact: "RR_copy r = r \<longleftrightarrow> copied_exactly r"
  by (cases r) (simp_all add: copied_exactly_def URI_copy_eq CNAME_copy_eq MB_copy_eq)

text \<open>
  The length counted for a type bit map is 33 octets for each change of window, but the first
  window is missed if it has number 35, the start value of the loop.
\<close>

theorem window_35_not_counted:
  "windows_len (replicate (Suc n) t) = (if t div 256 = 35 then 0 else 33)"
proof -
  have same: "windows_from (unat (t div 256)) (replicate n t) = 0"
    by (induction n) (simp_all add: Let_def)
  have "unat (t div 256) = 35 \<longleftrightarrow> t div 256 = 35"
    using word_unat_eq_iff [of "t div 256" 35] by simp
  then show ?thesis using same by (simp add: windows_len_def Let_def)
qed

end
