(* ===== verification/Dns_Wire.thy ===== *)
theory Dns_Wire
  imports Dns_Msg Dns_Bytes
begin

unbundle bit_operations_syntax

text \<open>
  The wire format of the DNS library (\<^verbatim>\<open>msg.go\<close>): packing and unpacking of domain names and
  character strings, and the bits of the message header.  A write that Go does without a preceding check of
  the bounds panics in the model when it is out of range.  What a failed call leaves in the buffer is not modelled.
\<close>

section \<open>Packing domain names\<close>

definition maxCompressionOffset :: nat where
  "maxCompressionOffset = 16384"

text \<open>
  The local variables of \<^verbatim>\<open>packDomainName\<close>.  \<open>pk_bs\<close> is the copy of the name in which escapes are
  replaced in place, of which only the first \<open>pk_ls\<close> bytes count; \<open>pk_ptr\<close> holds \<^verbatim>\<open>pointer\<close> and
  \<^verbatim>\<open>nameoffset\<close> once they are set.  The buffer is \<^const>\<open>None\<close> if \<^verbatim>\<open>msg\<close> is \<^verbatim>\<open>nil\<close>.
\<close>

record pack_state =
  pk_bs :: string
  pk_ls :: nat
  pk_begin :: nat
  pk_off :: nat
  pk_msg :: "string option"
  pk_labels :: nat
  pk_ro_bs :: string
  pk_fresh :: bool
  pk_escaped_dot :: bool
  pk_compression :: "string \<rightharpoonup> nat"
  pk_ptr :: "(nat \<times> nat) option"

text \<open>The loops that shift the rest of the first \<open>ls\<close> bytes by one and by two.\<close>

definition shift1 :: "string \<Rightarrow> nat \<Rightarrow> nat \<Rightarrow> string" where
  "shift1 bs i ls = take i bs @ take (ls - 1 - i) (drop (i + 1) bs) @ drop (ls - 1) bs"

definition shift2 :: "string \<Rightarrow> nat \<Rightarrow> nat \<Rightarrow> string" where
  "shift2 bs i ls = take (i + 1) bs @ take (ls - 2 - (i + 1)) (drop (i + 3) bs) @ drop (ls - 2) bs"

definition unescape_at :: "nat \<Rightarrow> pack_state \<Rightarrow> pack_state" where
  "unescape_at i st =
     (let bs = shift1 (pk_bs st) i (pk_ls st);
          ls = pk_ls st - 1;
          (bs, ls) =
            (if i + 2 < ls \<and> is_digit (bs ! i) \<and> is_digit (bs ! (i + 1)) \<and> is_digit (bs ! (i + 2))
             then (shift2 (bs[i := dddToByte (drop i bs)]) i ls, ls - 2)
             else if bs ! i = CHR ''t'' then (bs[i := CHR 0x09], ls)
             else if bs ! i = CHR ''r'' then (bs[i := CHR 0x0D], ls)
             else if bs ! i = CHR ''n'' then (bs[i := CHR 0x0A], ls)
             else (bs, ls))
      in st\<lparr>pk_bs := bs, pk_ls := ls, pk_fresh := False, pk_escaped_dot := (bs ! i = CHR ''.'')\<rparr>)"

text \<open>Writing the bytes of a label, each after a check of the bounds.\<close>

fun put_bytes :: "nat \<Rightarrow> string \<Rightarrow> nat \<Rightarrow> string option \<Rightarrow> (nat \<times> string option) option" where
  "put_bytes lenmsg [] off msg = Some (off, msg)"
| "put_bytes lenmsg (b # s) off msg =
     (if lenmsg < off + 1 then None
      else put_bytes lenmsg s (off + 1) (map_option (\<lambda>m. m[off := b]) msg))"

text \<open>
  The label that ends at the dot with index \<open>i\<close>.  The flag in the result says that the loop is left
  because the rest of the name has been packed before.
\<close>

definition emit_label :: "bool \<Rightarrow> nat \<Rightarrow> nat \<Rightarrow> pack_state \<Rightarrow> dns_error + (pack_state \<times> bool)" where
  "emit_label compress lenmsg i st =
     (if 0 < i \<and> pk_bs st ! (i - 1) = CHR ''.'' \<and> \<not> pk_escaped_dot st then Inl ErrRdata
      else if 64 \<le> i - pk_begin st then Inl ErrRdata
      else if lenmsg < pk_off st + 1 then Inl ErrBuf
      else
        let offset = pk_off st;
            msg = map_option (\<lambda>m. m[offset := char_of (i - pk_begin st)]) (pk_msg st)
        in (case put_bytes lenmsg (take (i - pk_begin st) (drop (pk_begin st) (pk_bs st))) (offset + 1) msg of
              None \<Rightarrow> Inl ErrBuf
            | Some (off, msg) \<Rightarrow>
                let st = st\<lparr>pk_off := off, pk_msg := msg\<rparr>;
                    st = (if compress \<and> \<not> pk_fresh st then st\<lparr>pk_ro_bs := pk_bs st, pk_fresh := True\<rparr> else st);
                    key = drop (pk_begin st) (pk_ro_bs st)
                in if compress \<and> key \<noteq> ''.'' then
                     (case pk_compression st key of
                        None \<Rightarrow>
                          let st = (if offset < maxCompressionOffset
                                    then st\<lparr>pk_compression := (pk_compression st)(key \<mapsto> offset)\<rparr> else st)
                          in Inr (st\<lparr>pk_labels := pk_labels st + 1, pk_begin := i + 1\<rparr>, False)
                      | Some p \<Rightarrow> Inr (st\<lparr>pk_ptr := Some (p, offset)\<rparr>, True))
                   else Inr (st\<lparr>pk_labels := pk_labels st + 1, pk_begin := i + 1\<rparr>, False)))"

function pack_loop :: "bool \<Rightarrow> nat \<Rightarrow> nat \<Rightarrow> pack_state \<Rightarrow> (dns_error \<times> nat) + pack_state" where
  "pack_loop compress lenmsg i st =
     (if i < pk_ls st then
        if pk_bs st ! i = CHR 0x5C then
          if lenmsg < pk_off st + 1 then Inl (ErrBuf, pk_labels st)
          else pack_loop compress lenmsg (i + 1) (unescape_at i st)
        else if pk_bs st ! i = CHR ''.'' then
          (case emit_label compress lenmsg i st of
             Inl e \<Rightarrow> Inl (e, pk_labels st)
           | Inr (st', True) \<Rightarrow> Inr st'
           | Inr (st', False) \<Rightarrow> pack_loop compress lenmsg (i + 1) (st'\<lparr>pk_escaped_dot := False\<rparr>))
        else pack_loop compress lenmsg (i + 1) (st\<lparr>pk_escaped_dot := False\<rparr>)
      else Inr st)"
  by pat_completeness auto
termination
  by (relation "measure (\<lambda>(c, n, i, st). pk_ls st - i)")
     (auto simp: unescape_at_def emit_label_def Let_def split: if_splits option.splits)

declare pack_loop.simps [simp del]

definition packDomainName ::
  "string \<Rightarrow> string option \<Rightarrow> nat \<Rightarrow> (string \<rightharpoonup> nat) \<Rightarrow> bool \<Rightarrow>
    ((nat \<times> nat \<times> dns_error option) \<times> string option \<times> (string \<rightharpoonup> nat)) run" where
  "packDomainName s msg off compression compress =
     (let lenmsg = (case msg of None \<Rightarrow> 256 | Some m \<Rightarrow> length m) in
      if s = [] then Done ((off, 0, None), msg, compression)
      else if msg \<noteq> None \<and> last s \<noteq> CHR ''.'' then Done ((lenmsg, 0, Some ErrFqdn), msg, compression)
      else
        let s = (if last s \<noteq> CHR ''.'' then s @ ''.'' else s);
            st = \<lparr>pk_bs = s, pk_ls = length s, pk_begin = 0, pk_off = off, pk_msg = msg, pk_labels = 0,
                  pk_ro_bs = s, pk_fresh = True, pk_escaped_dot = False, pk_compression = compression,
                  pk_ptr = None\<rparr>
        in (case pack_loop compress lenmsg 0 st of
              Inl (e, labels) \<Rightarrow> Done ((lenmsg, labels, Some e), msg, compression)
            | Inr st \<Rightarrow>
                if pk_bs st = ''.'' then
                  Done ((pk_off st, pk_labels st, None), pk_msg st, pk_compression st)
                else
                  (case pk_ptr st of
                     Some (p, nameoffset) \<Rightarrow>
                       (case pk_msg st of
                          None \<Rightarrow> Panic IndexOutOfRange
                        | Some m \<Rightarrow>
                            if length m \<le> nameoffset + 1 then Panic IndexOutOfRange
                            else
                              let (b1, b2) = packUint16 (of_nat p XOR 0xC000)
                              in Done ((nameoffset + 2, pk_labels st, None),
                                   Some (m[nameoffset := b1, nameoffset + 1 := b2]), pk_compression st))
                   | None \<Rightarrow>
                       (case pk_msg st of
                          None \<Rightarrow> Done ((pk_off st + 1, pk_labels st, None), None, pk_compression st)
                        | Some m \<Rightarrow>
                            if length m \<le> pk_off st then Panic IndexOutOfRange
                            else Done ((pk_off st + 1, pk_labels st, None),
                                   Some (m[pk_off st := CHR 0x00]), pk_compression st)))))"

definition IsDomainName :: "string \<Rightarrow> (nat \<times> bool) run" where
  "IsDomainName s =
     run_bind (packDomainName s None 0 Map.empty False) (\<lambda>((_, labels, err), _).
       Done (labels, err = None))"

section \<open>Unpacking domain names\<close>

definition unpack_byte :: "char \<Rightarrow> string" where
  "unpack_byte b =
     (if b \<in> {CHR ''.'', CHR ''('', CHR '')'', CHR '';'', CHR '' '', CHR ''@'', CHR 0x22, CHR 0x5C}
      then [CHR 0x5C, b]
      else if b = CHR 0x09 then [CHR 0x5C, CHR ''t'']
      else if b = CHR 0x0D then [CHR 0x5C, CHR ''r'']
      else if (of_char b :: nat) < 32 \<or> 127 \<le> (of_char b :: nat) then ddd b
      else [b])"

text \<open>
  The loop of \<^verbatim>\<open>UnpackDomainName\<close> with its variables \<^verbatim>\<open>off\<close>, \<^verbatim>\<open>s\<close>, \<^verbatim>\<open>off1\<close> and \<^verbatim>\<open>ptr\<close>.  The two
  upper bits of the length byte \<open>c\<close> tell labels and pointers apart: they are clear if \<open>c < 64\<close> and
  set if \<open>192 \<le> c\<close>, and then \<open>c - 192\<close> are the lower ones.
\<close>

function unpack_name ::
  "string \<Rightarrow> nat \<Rightarrow> string \<Rightarrow> nat \<Rightarrow> nat \<Rightarrow> string \<times> nat \<times> dns_error option" where
  "unpack_name msg off s off1 ptr =
     (if length msg \<le> off then ([], length msg, Some ErrBuf)
      else
        let c = of_char (msg ! off); off = off + 1 in
        if c = 0 then
          if s = [] then (''.'', off, None) else (s, if ptr = 0 then off else off1, None)
        else if c < 64 then
          if length msg < off + c then ([], length msg, Some ErrBuf)
          else unpack_name msg (off + c) (s @ concat (map unpack_byte (take c (drop off msg))) @ ''.'') off1 ptr
        else if c < 192 then ([], length msg, Some ErrRdata)
        else if length msg \<le> off then ([], length msg, Some ErrBuf)
        else
          let c1 = of_char (msg ! off); off = off + 1; off1 = (if ptr = 0 then off else off1); ptr = ptr + 1 in
          if 10 < ptr then ([], length msg, Some (ErrOther ''too many compression pointers''))
          else unpack_name msg ((c - 192) * 256 + c1) s off1 ptr)"
  by pat_completeness auto
termination
  by (relation "measures [\<lambda>(m, off, s, off1, ptr). 11 - ptr, \<lambda>(m, off, s, off1, ptr). length m - off]")
     (auto simp: Let_def)

declare unpack_name.simps [simp del]

definition UnpackDomainName :: "string \<Rightarrow> nat \<Rightarrow> string \<times> nat \<times> dns_error option" where
  "UnpackDomainName msg off = unpack_name msg off [] 0 0"

section \<open>Character strings\<close>

text \<open>
  The loop of \<^verbatim>\<open>packTxtString\<close> on the rest of the string.  Escapes are read as by \<^verbatim>\<open>nextByte\<close>; a
  backslash at the end of the string, for which \<open>next_byte\<close> gives the length 0, ends the loop.
\<close>

function pack_txt_bytes :: "string \<Rightarrow> string \<Rightarrow> nat \<Rightarrow> nat + (nat \<times> string)" where
  "pack_txt_bytes bs msg offset =
     (if bs = [] then Inr (offset, msg)
      else if length msg \<le> offset then Inl offset
      else
        case next_byte bs of (b, n) \<Rightarrow>
          if n = 0 then Inr (offset, msg)
          else pack_txt_bytes (drop n bs) (msg[offset := b]) (offset + 1))"
  by pat_completeness auto
termination
  by (relation "measure (\<lambda>(bs, msg, offset). length bs)") auto

declare pack_txt_bytes.simps [simp del]

text \<open>
  \<open>lentmp\<close> is the length of the scratch buffer \<^verbatim>\<open>tmp\<close>, which is cut to the length of the string.
\<close>

definition packTxtString :: "string \<Rightarrow> string \<Rightarrow> nat \<Rightarrow> nat \<Rightarrow> ((nat \<times> dns_error option) \<times> string) run" where
  "packTxtString s msg offset lentmp =
     (if length msg \<le> offset then Done ((offset, Some ErrBuf), msg)
      else if lentmp < length s then Panic SliceBounds
      else
        case pack_txt_bytes s msg (offset + 1) of
          Inl off \<Rightarrow> Done ((off, Some ErrBuf), msg)
        | Inr (off, msg') \<Rightarrow>
            let l = off - offset - 1 in
            if 255 < l then Done ((off, Some (ErrOther ''string exceeded 255 bytes in txt'')), msg')
            else Done ((off, None), msg'[offset := char_of l]))"

fun pack_txts :: "string list \<Rightarrow> string \<Rightarrow> nat \<Rightarrow> nat \<Rightarrow> ((nat \<times> dns_error option) \<times> string) run" where
  "pack_txts [] msg offset lentmp = Done ((offset, None), msg)"
| "pack_txts (t # ts) msg offset lentmp =
     (if lentmp < length t then Done ((offset, Some ErrBuf), msg)
      else
        run_bind (packTxtString t msg offset lentmp) (\<lambda>((off, err), msg').
          case err of
            Some e \<Rightarrow> Done ((off, Some e), msg')
          | None \<Rightarrow> pack_txts ts msg' off lentmp))"

definition packTxt :: "string list \<Rightarrow> string \<Rightarrow> nat \<Rightarrow> nat \<Rightarrow> ((nat \<times> dns_error option) \<times> string) run" where
  "packTxt txt msg offset lentmp =
     (if txt = [] then
        if length msg \<le> offset then Done ((offset, Some ErrBuf), msg)
        else Done ((offset, None), msg[offset := CHR 0x00])
      else pack_txts txt msg offset lentmp)"

definition unpack_txt_byte :: "char \<Rightarrow> string" where
  "unpack_txt_byte b =
     (if b = CHR 0x22 \<or> b = CHR 0x5C then [CHR 0x5C, b]
      else if b = CHR 0x09 then [CHR 0x5C, CHR ''t'']
      else if b = CHR 0x0D then [CHR 0x5C, CHR ''r'']
      else if b = CHR 0x0A then [CHR 0x5C, CHR ''n'']
      else if (of_char b :: nat) < 32 \<or> 127 < (of_char b :: nat) then ddd b
      else [b])"

definition unpackTxtString :: "string \<Rightarrow> nat \<Rightarrow> string \<times> nat \<times> dns_error option" where
  "unpackTxtString msg offset =
     (if length msg < offset + 1 then ([], offset, Some (ErrOther ''overflow unpacking txt''))
      else
        let l = of_char (msg ! offset) in
        if length msg < offset + l + 1 then ([], offset, Some (ErrOther ''overflow unpacking txt''))
        else (concat (map unpack_txt_byte (take l (drop (offset + 1) msg))), offset + 1 + l, None))"

function unpack_txts ::
  "string \<Rightarrow> nat \<Rightarrow> nat \<Rightarrow> string list \<Rightarrow> string list \<times> nat \<times> dns_error option" where
  "unpack_txts msg offset rdend ss =
     (if rdend \<le> offset then (ss, offset, None)
      else
        case unpackTxtString msg offset of
          (s, off, Some e) \<Rightarrow> (ss, off, Some e)
        | (s, off, None) \<Rightarrow> unpack_txts msg off rdend (ss @ [s]))"
  by pat_completeness auto
termination
  by (relation "measure (\<lambda>(msg, offset, rdend, ss). rdend - offset)")
     (auto simp: unpackTxtString_def Let_def split: if_splits)

declare unpack_txts.simps [simp del]

definition unpackTxt :: "string \<Rightarrow> nat \<Rightarrow> nat \<Rightarrow> string list \<times> nat \<times> dns_error option" where
  "unpackTxt msg offset rdend = unpack_txts msg offset rdend []"

section \<open>The bits of the header\<close>

definition QR :: uint16 where
  "QR = 0x8000"

definition AA :: uint16 where
  "AA = 0x0400"

definition TC :: uint16 where
  "TC = 0x0200"

definition RD :: uint16 where
  "RD = 0x0100"

definition RA :: uint16 where
  "RA = 0x0080"

definition Z :: uint16 where
  "Z = 0x0040"

definition AD :: uint16 where
  "AD = 0x0020"

definition CD :: uint16 where
  "CD = 0x0010"

definition header_bits :: "Msg \<Rightarrow> uint16" where
  "header_bits dns =
     (let bits = push_bit 11 (of_int (Opcode dns)) OR of_int (Rcode dns);
          bits = (if Response dns then bits OR QR else bits);
          bits = (if Authoritative dns then bits OR AA else bits);
          bits = (if Truncated dns then bits OR TC else bits);
          bits = (if RecursionDesired dns then bits OR RD else bits);
          bits = (if RecursionAvailable dns then bits OR RA else bits);
          bits = (if ZeroBit dns then bits OR Z else bits);
          bits = (if AuthenticatedData dns then bits OR AD else bits)
      in if CheckingDisabled dns then bits OR CD else bits)"

definition set_header_bits :: "uint16 \<Rightarrow> Msg \<Rightarrow> Msg" where
  "set_header_bits bits dns =
     dns\<lparr>Response := bits AND QR \<noteq> 0, Opcode := uint (drop_bit 11 bits AND 0xF),
         Authoritative := bits AND AA \<noteq> 0, Truncated := bits AND TC \<noteq> 0,
         RecursionDesired := bits AND RD \<noteq> 0, RecursionAvailable := bits AND RA \<noteq> 0,
         ZeroBit := bits AND Z \<noteq> 0, AuthenticatedData := bits AND AD \<noteq> 0,
         CheckingDisabled := bits AND CD \<noteq> 0, Rcode := uint (bits AND 0xF)\<rparr>"

end
