(* ===== verification/Dns_Wire_Properties.thy ===== *)
theory Dns_Wire_Properties
  imports Dns_Wire Dns_Text_Properties
begin

unbundle bit_operations_syntax

text \<open>
  The theorems on the wire format: what is packed is unpacked again, for domain names of arbitrary
  bytes, for character strings and for the bits of the header; and unpacking is total and bounded.
\<close>

section \<open>The header\<close>

lemma and_power2_iff: "(w :: uint16) AND push_bit k 1 \<noteq> 0 \<longleftrightarrow> bit w k"
proof
  assume "w AND push_bit k 1 \<noteq> 0"
  then obtain n where "bit (w AND push_bit k 1) n" by (metis bit_eqI bit_0_eq bot_apply bot_bool_def)
  then show "bit w k" by (auto simp: bit_simps)
next
  assume "bit w k"
  then have "bit (w AND push_bit k 1) k" by (auto simp: bit_simps dest: bit_imp_le_length)
  then show "w AND push_bit k 1 \<noteq> 0" by auto
qed

lemma flag_masks:
  "QR = push_bit 15 1" "AA = push_bit 10 1" "TC = push_bit 9 1" "RD = push_bit 8 1"
  "RA = push_bit 7 1" "Z = push_bit 6 1" "AD = push_bit 5 1" "CD = push_bit 4 1"
  by (simp_all add: QR_def AA_def TC_def RD_def RA_def Z_def AD_def CD_def push_bit_eq_mult)

lemma flag_tests:
  "w AND QR \<noteq> 0 \<longleftrightarrow> bit w 15" "w AND AA \<noteq> 0 \<longleftrightarrow> bit w 10" "w AND TC \<noteq> 0 \<longleftrightarrow> bit w 9"
  "w AND RD \<noteq> 0 \<longleftrightarrow> bit w 8" "w AND RA \<noteq> 0 \<longleftrightarrow> bit w 7" "w AND Z \<noteq> 0 \<longleftrightarrow> bit w 6"
  "w AND AD \<noteq> 0 \<longleftrightarrow> bit w 5" "w AND CD \<noteq> 0 \<longleftrightarrow> bit w 4"
  by (simp_all only: flag_masks and_power2_iff)

lemma small_bit: "0 \<le> i \<Longrightarrow> i < 16 \<Longrightarrow> 4 \<le> n \<Longrightarrow> \<not> bit (i :: int) n"
proof -
  assume i: "0 \<le> i" "i < 16" "4 \<le> n"
  then have "i < 2 ^ n" using power_increasing [of 4 n "2 :: int"] by simp
  then show ?thesis using i(1) by (simp add: bit_iff_odd)
qed

lemma bit_flag: "k < 16 \<Longrightarrow> bit (if b then x OR push_bit k 1 else x :: uint16) n \<longleftrightarrow> bit x n \<or> (b \<and> n = k)"
  by (auto simp: bit_simps)

lemma header_bits_bit:
  assumes "n < 16"
  shows "bit (header_bits m) n \<longleftrightarrow>
    (11 \<le> n \<and> bit (Opcode m) (n - 11)) \<or> bit (Rcode m) n \<or>
    (Response m \<and> n = 15) \<or> (Authoritative m \<and> n = 10) \<or> (Truncated m \<and> n = 9) \<or>
    (RecursionDesired m \<and> n = 8) \<or> (RecursionAvailable m \<and> n = 7) \<or> (ZeroBit m \<and> n = 6) \<or>
    (AuthenticatedData m \<and> n = 5) \<or> (CheckingDisabled m \<and> n = 4)"
proof -
  have "bit (push_bit 11 (of_int (Opcode m)) OR of_int (Rcode m) :: uint16) n \<longleftrightarrow>
      (11 \<le> n \<and> bit (Opcode m) (n - 11)) \<or> bit (Rcode m) n"
    using assms by (auto simp: bit_simps)
  then show ?thesis unfolding header_bits_def Let_def flag_masks by (simp add: bit_flag)
qed

lemma uint_field:
  assumes "0 \<le> i" "i < 16" "\<And>n. n < 4 \<Longrightarrow> bit (w :: uint16) n \<longleftrightarrow> bit i n"
  shows "uint (w AND 0xF) = i"
proof (rule bit_eqI)
  fix n
  have "(0xF :: uint16) = mask 4" by (simp add: mask_eq_exp_minus_1)
  then have "bit (0xF :: uint16) n \<longleftrightarrow> n < 4" by (simp only: bit_mask_iff) auto
  then show "bit (uint (w AND 0xF)) n \<longleftrightarrow> bit i n"
    using assms small_bit [OF assms(1,2), of n]
    by (cases "n < 4") (auto simp: bit_uint_iff bit_and_iff)
qed

lemma set_header_bits_of:
  assumes "0 \<le> Opcode m" "Opcode m < 16" "0 \<le> Rcode m" "Rcode m < 16"
  shows "MsgHdr.truncate (set_header_bits (header_bits m) m') = (MsgHdr.truncate m)\<lparr>msgId := msgId m'\<rparr>"
proof -
  note rcode = small_bit [OF assms(3,4)] and opcode = small_bit [OF assms(1,2)]
  have "uint (drop_bit 11 (header_bits m) AND 0xF) = Opcode m"
    by (rule uint_field [OF assms(1,2)]) (auto simp: bit_drop_bit_eq header_bits_bit rcode)
  moreover have "uint (header_bits m AND 0xF) = Rcode m"
    by (rule uint_field [OF assms(3,4)]) (auto simp: header_bits_bit)
  ultimately show ?thesis
    by (simp add: set_header_bits_def flag_tests header_bits_bit rcode opcode MsgHdr.defs)
qed

text \<open>
  The bits of the header survive the wire: for an opcode and a response code of four bits, the
  unpacked flags and codes are those that were packed.
\<close>

theorem header_roundtrip:
  assumes "0 \<le> Opcode m" "Opcode m < 16" "0 \<le> Rcode m" "Rcode m < 16"
  shows "MsgHdr.truncate (set_header_bits (header_bits m) m') = (MsgHdr.truncate m)\<lparr>msgId := msgId m'\<rparr>"
  using assms by (rule set_header_bits_of)

theorem header_roundtrip_witness:
  "Rcode (set_header_bits (header_bits (empty_Msg\<lparr>Rcode := 3, Response := True, Truncated := True\<rparr>)) empty_Msg) = 3"
proof -
  let ?m = "empty_Msg\<lparr>Rcode := 3, Response := True, Truncated := True\<rparr>"
  have "MsgHdr.truncate (set_header_bits (header_bits ?m) empty_Msg) = (MsgHdr.truncate ?m)\<lparr>msgId := msgId empty_Msg\<rparr>"
    by (rule header_roundtrip) (simp_all add: empty_Msg_def)
  then show ?thesis by (simp add: MsgHdr.defs)
qed

section \<open>Character strings\<close>

lemma next_byte_unpacked: "next_byte (unpack_txt_byte b @ r) = (b, length (unpack_txt_byte b))"
proof -
  have "\<not> is_digit CHR 0x22" "\<not> is_digit CHR 0x5C" "\<not> is_digit CHR ''t''" "\<not> is_digit CHR ''r''"
    "\<not> is_digit CHR ''n''"
    by (simp_all add: is_digit_def)
  then show ?thesis using next_byte_ddd [of b r] by (auto simp: unpack_txt_byte_def next_byte_def)
qed

lemma unpack_txt_byte_not_Nil: "unpack_txt_byte b \<noteq> []"
  by (simp add: unpack_txt_byte_def ddd_def Let_def)

lemma pack_txt_bytes_unpacked:
  "off + length bs \<le> length msg \<Longrightarrow>
    pack_txt_bytes (concat (map unpack_txt_byte bs)) msg off = Inr (off + length bs, overwrite msg off bs)"
proof (induction bs arbitrary: msg off)
  case Nil
  then show ?case by (simp add: pack_txt_bytes.simps overwrite_Nil)
next
  case (Cons b bs)
  then show ?case
    using unpack_txt_byte_not_Nil [of b] overwrite_Cons [of off msg b bs]
    by (subst pack_txt_bytes.simps) (simp add: next_byte_unpacked)
qed

text \<open>The text of a character string with the bytes \<open>bs\<close>.\<close>

definition txt_text :: "string \<Rightarrow> string" where
  "txt_text bs = concat (map unpack_txt_byte bs)"

lemma unpack_txt_byte_length: "length (unpack_txt_byte b) \<le> 4"
  using ddd_form [of b] by (auto simp: unpack_txt_byte_def)

lemma txt_text_length: "length (txt_text bs) \<le> 4 * length bs"
proof (induction bs)
  case (Cons b bs)
  then show ?case using unpack_txt_byte_length [of b] by (simp add: txt_text_def)
qed (simp add: txt_text_def)

lemma packTxtString_text:
  assumes "length bs \<le> 255" "1020 \<le> lentmp" "off + 1 + length bs \<le> length m"
  shows "packTxtString (txt_text bs) m off lentmp =
    Done ((off + 1 + length bs, None), overwrite m off (char_of (length bs) # bs))"
proof -
  have "length (txt_text bs) \<le> lentmp" using txt_text_length [of bs] assms(1,2) by linarith
  moreover have "pack_txt_bytes (txt_text bs) m (off + 1) = Inr (off + 1 + length bs, overwrite m (off + 1) bs)"
    using pack_txt_bytes_unpacked [of "off + 1" bs m] assms(3) by (simp add: txt_text_def)
  ultimately show ?thesis
    using assms overwrite_first [of off bs m "char_of (length bs)"] by (simp add: packTxtString_def Let_def)
qed

lemma unpackTxtString_text:
  assumes "unpackTxtString msg off = (s, off', None)"
  obtains bs where "s = txt_text bs" "length bs \<le> 255" "off' = off + 1 + length bs"
    "take (off' - off) (drop off msg) = char_of (length bs) # bs"
proof -
  let ?l = "of_char (msg ! off) :: nat" and ?bs = "take (of_char (msg ! off)) (drop (off + 1) msg)"
  have u: "off < length msg" "off + ?l + 1 \<le> length msg" "off' = off + 1 + ?l" "s = txt_text ?bs"
    using assms by (auto simp: unpackTxtString_def txt_text_def Let_def split: if_splits)
  have len: "length ?bs = ?l" using u(2) by simp
  moreover have "?l \<le> 255" using of_char_less [of "msg ! off"] by linarith
  moreover have "take (off' - off) (drop off msg) = msg ! off # ?bs"
    using u(1,3) by (simp add: Cons_nth_drop_Suc [symmetric])
  ultimately show ?thesis using that [of ?bs] u by simp
qed

text \<open>
  Character strings survive: a string that was unpacked from one message packs, at any place with
  enough room, into exactly the bytes it came from, whatever they are.
\<close>

theorem txt_roundtrip:
  assumes "unpackTxtString msg off = (s, off', None)" "off2 + (off' - off) \<le> length msg2"
  shows "packTxtString s msg2 off2 (256 * 4 + 1) =
    Done ((off2 + (off' - off), None), overwrite msg2 off2 (take (off' - off) (drop off msg)))"
proof -
  obtain bs where "s = txt_text bs" "length bs \<le> 255" "off' = off + 1 + length bs"
    "take (off' - off) (drop off msg) = char_of (length bs) # bs"
    using unpackTxtString_text [OF assms(1)] .
  then show ?thesis using packTxtString_text [of bs "256 * 4 + 1" off2 msg2] assms(2) by simp
qed

theorem txt_roundtrip_witness:
  "packTxtString (fst (unpackTxtString [CHR 0x02, CHR 0x22, CHR 0xFF] 0)) (replicate 5 CHR 0x00) 1 (256 * 4 + 1) =
    Done ((4, None), [CHR 0x00, CHR 0x02, CHR 0x22, CHR 0xFF, CHR 0x00])"
proof -
  have "unpackTxtString [CHR 0x02, CHR 0x22, CHR 0xFF] 0 =
      (fst (unpackTxtString [CHR 0x02, CHR 0x22, CHR 0xFF] 0), 3, None)"
    by (simp add: unpackTxtString_def)
  from txt_roundtrip [OF this, of 1 "replicate 5 CHR 0x00"] show ?thesis
    by (simp add: overwrite_def numeral_eq_Suc)
qed

section \<open>Escapes in names\<close>

lemma shift1_at: "\<exists>G'. shift1 (D @ c # M @ G) (length D) (length D + Suc (length M)) = D @ M @ G'"
  by (simp add: shift1_def)

lemma shift2_at:
  "\<exists>G'. shift2 (D @ c # x # y # M @ G) (length D) (length D + 3 + length M) = D @ c # M @ G'"
  by (simp add: shift2_def numeral_eq_Suc)

lemma unescape_simple:
  assumes "pk_bs st = D @ CHR 0x5C # c # R @ G" "pk_ls st = length D + 2 + length R" "\<not> is_digit c"
    and "b = (if c = CHR ''t'' then CHR 0x09 else if c = CHR ''r'' then CHR 0x0D
              else if c = CHR ''n'' then CHR 0x0A else c)"
  shows "\<exists>G'. unescape_at (length D) st =
    st\<lparr>pk_bs := D @ b # R @ G', pk_ls := length D + 1 + length R, pk_fresh := False,
       pk_escaped_dot := (b = CHR ''.'')\<rparr>"
proof -
  obtain G' where "shift1 (pk_bs st) (length D) (pk_ls st) = D @ c # R @ G'"
    using shift1_at [of D "CHR 0x5C" "c # R" G] assms(1,2) by (auto simp: numeral_2_eq_2)
  then show ?thesis
    using assms(2-4) by (auto simp: unescape_at_def Let_def nth_append list_update_append)
qed

lemma unescape_ddd:
  assumes "pk_bs st = D @ CHR 0x5C # x # y # z # R @ G" "pk_ls st = length D + 4 + length R"
    and "is_digit x" "is_digit y" "is_digit z" "\<forall>r. dddToByte (x # y # z # r) = b"
  shows "\<exists>G'. unescape_at (length D) st =
    st\<lparr>pk_bs := D @ b # R @ G', pk_ls := length D + 1 + length R, pk_fresh := False,
       pk_escaped_dot := (b = CHR ''.'')\<rparr>"
proof -
  obtain G' where bs: "shift1 (pk_bs st) (length D) (pk_ls st) = D @ x # y # z # R @ G'"
    using shift1_at [of D "CHR 0x5C" "x # y # z # R" G] assms(1,2) by (auto simp: numeral_eq_Suc)
  obtain G'' where bs': "shift2 (D @ b # y # z # R @ G') (length D) (length D + 3 + length R) = D @ b # R @ G''"
    using shift2_at [of D b y z R G'] by blast
  have ls: "pk_ls st - 1 = length D + 3 + length R" using assms(2) by simp
  show ?thesis
    unfolding unescape_at_def Let_def bs ls
    using assms(3-6) bs' by (auto simp: nth_append list_update_append)
qed

text \<open>The forms in which the printer writes a byte, as the packer reads them.\<close>

lemma unescape_unpacked:
  assumes "unpack_byte b \<noteq> [b]" "pk_bs st = D @ unpack_byte b @ R @ G"
    and "pk_ls st = length D + length (unpack_byte b) + length R"
  shows "pk_bs st ! length D = CHR 0x5C \<and> (\<exists>G'. unescape_at (length D) st =
    st\<lparr>pk_bs := D @ b # R @ G', pk_ls := length D + 1 + length R, pk_fresh := False,
       pk_escaped_dot := (b = CHR ''.'')\<rparr>)"
proof -
  let ?S = "{CHR ''.'', CHR ''('', CHR '')'', CHR '';'', CHR '' '', CHR ''@'', CHR 0x22, CHR 0x5C}"
  have special: "\<not> is_digit b" "b \<notin> {CHR ''t'', CHR ''r'', CHR ''n''}" if "b \<in> ?S"
    using that by (auto simp: is_digit_def)
  have letters: "\<not> is_digit CHR ''t''" "\<not> is_digit CHR ''r''" by (simp_all add: is_digit_def)
  consider "b \<in> ?S" | "b = CHR 0x09" | "b = CHR 0x0D" | "unpack_byte b = ddd b"
    using assms(1) by (auto simp: unpack_byte_def split: if_splits)
  then consider c where "unpack_byte b = [CHR 0x5C, c]" "\<not> is_digit c"
      "b = (if c = CHR ''t'' then CHR 0x09 else if c = CHR ''r'' then CHR 0x0D
            else if c = CHR ''n'' then CHR 0x0A else c)"
    | "unpack_byte b = ddd b"
  proof cases
    case 1
    then show ?thesis using that(1) [of b] special by (simp add: unpack_byte_def)
  next
    case 2
    then show ?thesis using that(1) [of "CHR ''t''"] letters by (simp add: unpack_byte_def)
  next
    case 3
    then show ?thesis using that(1) [of "CHR ''r''"] letters by (simp add: unpack_byte_def)
  qed (use that(2) in blast)
  then show ?thesis
  proof cases
    case 1
    then show ?thesis using assms(2,3) unescape_simple [of st D c R G b] by (auto simp: nth_append)
  next
    case 2
    obtain x y z where "ddd b = [CHR 0x5C, x, y, z]" "is_digit x" "is_digit y" "is_digit z"
      "\<forall>r. dddToByte (x # y # z # r) = b"
      using ddd_form [of b] by blast
    then show ?thesis using 2 assms(2,3) unescape_ddd [of st D x y z R G b] by (auto simp: nth_append)
  qed
qed

section \<open>Names\<close>

text \<open>
  A name as a list of labels, each a non-empty list of at most 63 bytes: its wire form without
  compression and its text.
\<close>

definition label :: "string \<Rightarrow> bool" where
  "label l \<longleftrightarrow> l \<noteq> [] \<and> length l < 64"

definition wire_label :: "string \<Rightarrow> string" where
  "wire_label l = char_of (length l) # l"

definition wire_labels :: "string list \<Rightarrow> string" where
  "wire_labels ls = concat (map wire_label ls)"

definition text_label :: "string \<Rightarrow> string" where
  "text_label l = concat (map unpack_byte l)"

definition text_labels :: "string list \<Rightarrow> string" where
  "text_labels ls = concat (map (\<lambda>l. text_label l @ ''.'') ls)"

text \<open>The parts of the packer's state that reading a label does not change.\<close>

definition same_output :: "pack_state \<Rightarrow> pack_state \<Rightarrow> bool" where
  "same_output st st' \<longleftrightarrow>
     pk_begin st' = pk_begin st \<and> pk_off st' = pk_off st \<and> pk_msg st' = pk_msg st \<and>
     pk_labels st' = pk_labels st \<and> pk_compression st' = pk_compression st \<and> pk_ptr st' = pk_ptr st"

lemma pack_byte:
  assumes "pk_bs st = D @ unpack_byte b @ R @ G" "pk_ls st = length D + length (unpack_byte b) + length R"
    and "pk_off st < lenmsg"
  shows "\<exists>st' G'. pack_loop c lenmsg (length D) st = pack_loop c lenmsg (length D + 1) st' \<and>
    pk_bs st' = D @ b # R @ G' \<and> pk_ls st' = length D + 1 + length R \<and>
    pk_escaped_dot st' = (b = CHR ''.'') \<and> same_output st st'"
proof (cases "unpack_byte b = [b]")
  case True
  then have "b \<noteq> CHR 0x5C" "b \<noteq> CHR ''.''" by (auto simp: unpack_byte_def ddd_def Let_def split: if_splits)
  then have "pack_loop c lenmsg (length D) st =
      pack_loop c lenmsg (length D + 1) (st\<lparr>pk_escaped_dot := False\<rparr>)"
    using assms True by (subst pack_loop.simps) (simp add: nth_append)
  then show ?thesis
    using assms True \<open>b \<noteq> CHR ''.''\<close>
    by (intro exI [of _ "st\<lparr>pk_escaped_dot := False\<rparr>"]) (simp add: same_output_def)
next
  case False
  have "unpack_byte b \<noteq> []" by (auto simp: unpack_byte_def ddd_def Let_def)
  then have "length D < pk_ls st" using assms(2) by simp
  moreover obtain G' where "pk_bs st ! length D = CHR 0x5C" and u: "unescape_at (length D) st =
    st\<lparr>pk_bs := D @ b # R @ G', pk_ls := length D + 1 + length R, pk_fresh := False,
       pk_escaped_dot := (b = CHR ''.'')\<rparr>"
    using unescape_unpacked [OF False assms(1,2)] by blast
  ultimately have "pack_loop c lenmsg (length D) st = pack_loop c lenmsg (length D + 1) (unescape_at (length D) st)"
    using assms(3) by (subst pack_loop.simps) simp
  then show ?thesis
    by (intro exI [of _ "unescape_at (length D) st"] exI [of _ G']) (simp add: u same_output_def)
qed

lemma pack_label_bytes:
  assumes "pk_bs st = D @ text_label l @ R @ G" "pk_ls st = length D + length (text_label l) + length R"
    and "pk_off st < lenmsg"
  shows "\<exists>st' G'. pack_loop c lenmsg (length D) st = pack_loop c lenmsg (length D + length l) st' \<and>
    pk_bs st' = D @ l @ R @ G' \<and> pk_ls st' = length D + length l + length R \<and>
    (l \<noteq> [] \<longrightarrow> pk_escaped_dot st' = (last l = CHR ''.'')) \<and> same_output st st'"
  using assms
proof (induction l arbitrary: D st G)
  case Nil
  then show ?case by (intro exI [of _ st] exI [of _ G]) (simp add: text_label_def same_output_def)
next
  case (Cons b l)
  have t: "text_label (b # l) = unpack_byte b @ text_label l" by (simp add: text_label_def)
  obtain st1 G1 where st1: "pack_loop c lenmsg (length D) st = pack_loop c lenmsg (length D + 1) st1"
    "pk_bs st1 = D @ b # (text_label l @ R) @ G1" "pk_ls st1 = length D + 1 + length (text_label l @ R)"
    "pk_escaped_dot st1 = (b = CHR ''.'')" "same_output st st1"
    using pack_byte [of st D b "text_label l @ R" G lenmsg c] Cons.prems t by auto
  obtain st2 G2 where st2: "pack_loop c lenmsg (length (D @ [b])) st1 =
      pack_loop c lenmsg (length (D @ [b]) + length l) st2"
    "pk_bs st2 = (D @ [b]) @ l @ R @ G2" "pk_ls st2 = length (D @ [b]) + length l + length R"
    "l \<noteq> [] \<longrightarrow> pk_escaped_dot st2 = (last l = CHR ''.'')" "same_output st1 st2"
    using Cons.IH [of st1 "D @ [b]" G1] st1 Cons.prems(3) by (auto simp: same_output_def)
  show ?case
  proof (cases "l = []")
    case True
    then show ?thesis using st1 by (intro exI [of _ st1] exI [of _ G1]) (simp add: text_label_def)
  next
    case False
    then show ?thesis
      using st1 st2 by (intro exI [of _ st2] exI [of _ G2]) (auto simp: same_output_def)
  qed
qed

lemma put_bytes_overwrite:
  "off + length bs \<le> length m \<Longrightarrow> put_bytes (length m) bs off (Some m) = Some (off + length bs, Some (overwrite m off bs))"
proof (induction bs arbitrary: off m)
  case (Cons b bs)
  then show ?case
    using Cons.IH [of "off + 1" "m[off := b]"] overwrite_Cons [of off m b bs] by simp
qed (simp add: overwrite_Nil)

lemma emit_label_plain:
  assumes "pk_bs st = D @ l @ CHR ''.'' # R" "pk_begin st = length D" "label l" "pk_msg st = Some m"
    and "last l = CHR ''.'' \<longrightarrow> pk_escaped_dot st" "pk_off st + 1 + length l \<le> length m"
  shows "emit_label False (length m) (length D + length l) st = Inr
    (st\<lparr>pk_off := pk_off st + 1 + length l, pk_msg := Some (overwrite m (pk_off st) (wire_label l)),
        pk_labels := pk_labels st + 1, pk_begin := length D + length l + 1\<rparr>, False)"
proof -
  have "l \<noteq> []" using assms(3) by (simp add: label_def)
  then have "pk_bs st = (D @ butlast l) @ last l # CHR ''.'' # R" using assms(1) by simp
  then have "pk_bs st ! length (D @ butlast l) = last l" by (metis nth_append_length)
  moreover have "length (D @ butlast l) = length D + length l - 1" using \<open>l \<noteq> []\<close> by (cases l) simp_all
  ultimately have "pk_bs st ! (length D + length l - 1) = last l" by simp
  moreover have "overwrite (m[pk_off st := char_of (length l)]) (pk_off st + 1) l =
      overwrite m (pk_off st) (wire_label l)"
    using assms(6) overwrite_Cons [of "pk_off st" m "char_of (length l)" l] by (simp add: wire_label_def)
  moreover have "put_bytes (length m) l (pk_off st + 1) (Some (m[pk_off st := char_of (length l)])) =
      Some (pk_off st + 1 + length l, Some (overwrite (m[pk_off st := char_of (length l)]) (pk_off st + 1) l))"
    using put_bytes_overwrite [of "pk_off st + 1" l "m[pk_off st := char_of (length l)]"] assms(6) by simp
  ultimately show ?thesis
    using assms by (auto simp: emit_label_def Let_def label_def)
qed

lemma pack_labels:
  assumes "\<forall>l \<in> set ls. label l" "pk_bs st = D @ text_labels ls @ G"
    and "pk_ls st = length D + length (text_labels ls)" "pk_begin st = length D" "pk_msg st = Some m"
    and "pk_off st + length (wire_labels ls) < length m"
  shows "\<exists>st' G'. pack_loop False (length m) (length D) st = Inr st' \<and>
    pk_bs st' = D @ concat (map (\<lambda>l. l @ ''.'') ls) @ G' \<and>
    pk_off st' = pk_off st + length (wire_labels ls) \<and>
    pk_msg st' = Some (overwrite m (pk_off st) (wire_labels ls)) \<and>
    pk_labels st' = pk_labels st + length ls \<and> pk_compression st' = pk_compression st \<and>
    pk_ptr st' = pk_ptr st"
  using assms
proof (induction ls arbitrary: D st G m)
  case Nil
  then have "pack_loop False (length m) (length D) st = Inr st"
    by (subst pack_loop.simps) (simp add: text_labels_def)
  with Nil show ?case
    by (intro exI [of _ st] exI [of _ G]) (simp add: wire_labels_def text_labels_def overwrite_Nil)
next
  case (Cons l ls)
  have w: "wire_labels (l # ls) = wire_label l @ wire_labels ls" by (simp add: wire_labels_def)
  have t: "text_labels (l # ls) = text_label l @ CHR ''.'' # text_labels ls" by (simp add: text_labels_def)
  have l: "label l" "l \<noteq> []" using Cons.prems(1) by (simp_all add: label_def)
  have room: "pk_off st + 1 + length l + length (wire_labels ls) < length m"
    using Cons.prems(6) w by (simp add: wire_label_def)
  obtain st1 G1 where st1: "pack_loop False (length m) (length D) st =
      pack_loop False (length m) (length D + length l) st1"
    "pk_bs st1 = D @ l @ (CHR ''.'' # text_labels ls) @ G1"
    "pk_ls st1 = length D + length l + length (CHR ''.'' # text_labels ls)"
    "pk_escaped_dot st1 = (last l = CHR ''.'')" "same_output st st1"
    using pack_label_bytes [of st D l "CHR ''.'' # text_labels ls" G "length m" False] Cons.prems t l(2) by auto
  let ?m = "overwrite m (pk_off st) (wire_label l)"
  let ?st2 = "st1\<lparr>pk_off := pk_off st1 + 1 + length l, pk_msg := Some ?m,
    pk_labels := pk_labels st1 + 1, pk_begin := length D + length l + 1, pk_escaped_dot := False\<rparr>"
  have same: "pk_begin st1 = length D" "pk_off st1 = pk_off st" "pk_msg st1 = Some m" "pk_labels st1 = pk_labels st"
    "pk_compression st1 = pk_compression st" "pk_ptr st1 = pk_ptr st"
    using st1(5) Cons.prems(4,5) by (simp_all add: same_output_def)
  have len: "length ?m = length m" using room by (simp add: overwrite_length wire_label_def)
  have "emit_label False (length m) (length D + length l) st1 = Inr
    (st1\<lparr>pk_off := pk_off st1 + 1 + length l, pk_msg := Some (overwrite m (pk_off st1) (wire_label l)),
        pk_labels := pk_labels st1 + 1, pk_begin := length D + length l + 1\<rparr>, False)"
    using emit_label_plain [of st1 D l "text_labels ls @ G1" m] st1 same l room by simp
  then have "pack_loop False (length m) (length D) st =
      pack_loop False (length ?m) (length (D @ l @ ''.'')) ?st2"
    using st1(1-3) same len by (subst (asm) (2) pack_loop.simps) (simp add: nth_append)
  moreover obtain st3 G3 where "pack_loop False (length ?m) (length (D @ l @ ''.'')) ?st2 = Inr st3"
    "pk_bs st3 = (D @ l @ ''.'') @ concat (map (\<lambda>l. l @ ''.'') ls) @ G3"
    "pk_off st3 = pk_off ?st2 + length (wire_labels ls)"
    "pk_msg st3 = Some (overwrite ?m (pk_off ?st2) (wire_labels ls))"
    "pk_labels st3 = pk_labels ?st2 + length ls" "pk_compression st3 = pk_compression ?st2"
    "pk_ptr st3 = pk_ptr ?st2"
    using Cons.IH [of ?st2 "D @ l @ ''.''" G1 ?m] Cons.prems(1) st1(2,3) same len room by auto
  moreover have "overwrite ?m (pk_off ?st2) (wire_labels ls) = overwrite m (pk_off st) (wire_labels (l # ls))"
    using overwrite_append [of "pk_off st" "wire_label l" "wire_labels ls" m] room same(2) w
    by (simp add: wire_label_def)
  ultimately show ?case
    using same by (intro exI [of _ st3] exI [of _ G3]) (simp add: w wire_label_def)
qed

lemma text_labels_ends: "ls \<noteq> [] \<Longrightarrow> text_labels ls \<noteq> [] \<and> last (text_labels ls) = CHR ''.''"
  by (induction ls rule: rev_induct) (simp_all add: text_labels_def)

lemma packDomainName_labels:
  assumes "\<forall>l \<in> set ls. label l" "ls \<noteq> []" "off + length (wire_labels ls) < length m"
  shows "packDomainName (text_labels ls) (Some m) off cmap False = Done
    ((off + length (wire_labels ls) + 1, length ls, None),
     Some (overwrite m off (wire_labels ls @ [CHR 0x00])), cmap)"
proof -
  let ?st = "\<lparr>pk_bs = text_labels ls, pk_ls = length (text_labels ls), pk_begin = 0, pk_off = off,
    pk_msg = Some m, pk_labels = 0, pk_ro_bs = text_labels ls, pk_fresh = True, pk_escaped_dot = False,
    pk_compression = cmap, pk_ptr = None\<rparr>"
  obtain st' G where st': "pack_loop False (length m) 0 ?st = Inr st'"
    "pk_bs st' = concat (map (\<lambda>l. l @ ''.'') ls) @ G" "pk_off st' = off + length (wire_labels ls)"
    "pk_msg st' = Some (overwrite m off (wire_labels ls))" "pk_labels st' = length ls"
    "pk_compression st' = cmap" "pk_ptr st' = None"
    using pack_labels [of ls ?st "[]" "[]" m] assms by auto
  obtain c cs ls' where "ls = (c # cs) # ls'" using assms(1,2) by (cases ls) (auto simp: label_def neq_Nil_conv)
  then have "pk_bs st' \<noteq> ''.''" using st'(2) by simp
  moreover have "(overwrite m off (wire_labels ls))[off + length (wire_labels ls) := CHR 0x00] =
      overwrite m off (wire_labels ls @ [CHR 0x00])"
    using assms(3) by (rule overwrite_snoc)
  ultimately show ?thesis
    using st' assms text_labels_ends [OF assms(2)]
    by (simp add: packDomainName_def overwrite_length)
qed

section \<open>Unpacking\<close>

lemma unpack_labels:
  assumes "\<forall>l \<in> set ls. label l" "take (length (wire_labels ls) + 1) (drop off msg) = wire_labels ls @ [CHR 0x00]"
    and "s \<noteq> [] \<or> ls \<noteq> []"
  shows "unpack_name msg off s off1 ptr =
    (s @ text_labels ls, if ptr = 0 then off + length (wire_labels ls) + 1 else off1, None)"
  using assms
proof (induction ls arbitrary: off s)
  case Nil
  then have "off < length msg" "msg ! off = CHR 0x00"
    by (cases "drop off msg"; simp add: wire_labels_def; metis drop_eq_Nil hd_drop_conv_nth linorder_not_le list.discI list.sel(1))+
  then show ?case using Nil by (subst unpack_name.simps) (simp add: wire_labels_def text_labels_def)
next
  case (Cons l ls)
  have w: "wire_labels (l # ls) = char_of (length l) # l @ wire_labels ls"
    by (simp add: wire_labels_def wire_label_def)
  have l: "l \<noteq> []" "length l < 64" using Cons.prems(1) by (simp_all add: label_def)
  obtain r where d: "drop off msg = char_of (length l) # l @ wire_labels ls @ CHR 0x00 # r"
    using Cons.prems(2) append_take_drop_id [of "length (wire_labels (l # ls)) + 1" "drop off msg"] unfolding w
    by (metis append.assoc append_Cons append_Nil)
  then have off: "off < length msg" by (metis drop_eq_Nil linorder_not_le list.discI)
  have nth: "msg ! off = char_of (length l)" using d off by (metis hd_drop_conv_nth list.sel(1))
  have rest: "drop (off + 1) msg = l @ wire_labels ls @ CHR 0x00 # r" using d
    by (metis add.commute drop_drop list.sel(3) plus_1_eq_Suc drop_Suc tl_drop)
  then have "length (drop (off + 1) msg) = length (l @ wire_labels ls @ CHR 0x00 # r)" by simp
  then have len: "off + 1 + length l \<le> length msg" by simp
  have "drop (off + 1 + length l) msg = wire_labels ls @ CHR 0x00 # r"
    using rest by (metis add.commute append_eq_conv_conj drop_drop)
  then have "take (length (wire_labels ls) + 1) (drop (off + 1 + length l) msg) = wire_labels ls @ [CHR 0x00]"
    by simp
  then have IH: "unpack_name msg (off + 1 + length l) (s @ text_label l @ ''.'') off1 ptr =
    ((s @ text_label l @ ''.'') @ text_labels ls,
     if ptr = 0 then off + 1 + length l + length (wire_labels ls) + 1 else off1, None)"
    using Cons.prems(1) by (intro Cons.IH) auto
  have "take (length l) (drop (off + 1) msg) = l" using rest by simp
  then show ?case
    using IH off nth l len
    by (subst unpack_name.simps) (simp add: Let_def w text_label_def text_labels_def)
qed

text \<open>
  C39. Domain names survive, whatever bytes their labels hold: packing the text of a name without
  compression writes its wire form at the offset, leaves the rest of the buffer alone and counts the
  labels, and unpacking at that offset gives the text back, with the offset after the name.
\<close>

theorem name_roundtrip:
  assumes "\<forall>l \<in> set ls. label l" "ls \<noteq> []" "off + length (wire_labels ls) < length m"
  shows "\<exists>m'. packDomainName (text_labels ls) (Some m) off cmap False =
      Done ((off + length (wire_labels ls) + 1, length ls, None), Some m', cmap) \<and>
    UnpackDomainName m' off = (text_labels ls, off + length (wire_labels ls) + 1, None) \<and>
    length m' = length m \<and> take off m' = take off m \<and>
    drop (off + length (wire_labels ls) + 1) m' = drop (off + length (wire_labels ls) + 1) m"
proof -
  let ?w = "wire_labels ls @ [CHR 0x00]"
  let ?m = "overwrite m off ?w"
  have room: "off + length ?w \<le> length m" using assms(3) by simp
  have "UnpackDomainName ?m off = (text_labels ls, off + length (wire_labels ls) + 1, None)"
    using unpack_labels [OF assms(1), of off ?m "[]" 0 0] overwrite_take [OF room] assms(2)
    by (simp add: UnpackDomainName_def)
  moreover have "take off ?m = take off m" "drop (off + length (wire_labels ls) + 1) ?m =
      drop (off + length (wire_labels ls) + 1) m"
    using room by (simp_all add: overwrite_def)
  ultimately show ?thesis
    using packDomainName_labels [OF assms] overwrite_length [OF room] by blast
qed

theorem name_roundtrip_witness:
  "\<exists>m'. packDomainName (text_labels [''a.b'', [CHR 0x00]]) (Some (replicate 20 CHR ''x'')) 5 Map.empty False =
      Done ((12, 2, None), Some m', Map.empty) \<and>
    UnpackDomainName m' 5 = (text_labels [''a.b'', [CHR 0x00]], 12, None)"
  using name_roundtrip [of "[''a.b'', [CHR 0x00]]" 5 "replicate 20 CHR ''x''" Map.empty]
  by (auto simp: label_def wire_labels_def wire_label_def)

text \<open>The two recursive calls of the loop, and all other cases.\<close>

lemma unpack_name_cases:
  assumes "unpack_name msg off s off1 ptr = r"
  obtains (stop) s' off' err where "r = (s', off', err)"
    "off1 \<le> length msg \<longrightarrow> off' \<le> length msg" "err \<noteq> None \<longrightarrow> s' = [] \<and> off' = length msg"
    "err = None \<longrightarrow> s' = ''.'' \<or> s' = s \<and> s \<noteq> []"
  | (lab) c where "off < length msg" "c = of_char (msg ! off)" "c \<noteq> 0" "c < 64" "off + 1 + c \<le> length msg"
    "unpack_name msg (off + 1 + c) (s @ concat (map unpack_byte (take c (drop (off + 1) msg))) @ ''.'') off1 ptr = r"
  | (ptr) c c1 where "off + 1 < length msg" "c = of_char (msg ! off)" "192 \<le> c" "c1 = of_char (msg ! (off + 1))"
    "ptr < 10" "unpack_name msg ((c - 192) * 256 + c1) s (if ptr = 0 then off + 2 else off1) (ptr + 1) = r"
proof -
  let ?c = "of_char (msg ! off) :: nat"
  note run = assms [unfolded unpack_name.simps [of msg off s off1 ptr]]
  consider "length msg \<le> off" | "off < length msg" "?c = 0" | "off < length msg" "?c \<noteq> 0" "?c < 64"
    | "off < length msg" "64 \<le> ?c" "?c < 192" | "off < length msg" "192 \<le> ?c"
    by linarith
  then show ?thesis
  proof cases
    case 1
    then show ?thesis using run stop [of "[]" "length msg" "Some ErrBuf"] by simp
  next
    case 2
    then show ?thesis
      using run stop [of "''.''" "off + 1" None] stop [of s "if ptr = 0 then off + 1 else off1" None]
      by (auto simp: Let_def split: if_splits)
  next
    case 3
    then show ?thesis
      using run lab [OF _ refl] stop [of "[]" "length msg" "Some ErrBuf"]
      by (cases "length msg < off + 1 + ?c") (auto simp: Let_def)
  next
    case 4
    then show ?thesis using run stop [of "[]" "length msg" "Some ErrRdata"] by (simp add: Let_def)
  next
    case 5
    then show ?thesis
      using run ptr [OF _ refl _ refl] stop [of "[]" "length msg"]
      by (cases "length msg \<le> off + 1"; cases "10 < ptr + 1") (auto simp: Let_def)
  qed
qed

lemma unpack_name_bounds:
  "unpack_name msg off s off1 ptr = (s', off', err) \<Longrightarrow> off1 \<le> length msg \<Longrightarrow>
    off' \<le> length msg \<and> (err \<noteq> None \<longrightarrow> s' = [] \<and> off' = length msg) \<and>
    (err = None \<longrightarrow> s' \<noteq> [] \<and> (last s' = CHR ''.'' \<or> s' = s))"
proof (induction "(11 - ptr, length msg - off)" arbitrary: off s off1 ptr rule: wf_induct_rule
    [OF wf_lex_prod [OF wf_less_than wf_less_than]])
  case 1
  from "1.prems"(1) show ?case
  proof (cases rule: unpack_name_cases)
    case (stop s' off' err)
    then show ?thesis using "1.prems"(2) by auto
  next
    case (lab c)
    have "length msg - (off + 1 + c) < length msg - off" using lab(1) by simp
    then show ?thesis using "1.hyps" [OF _ lab(6) "1.prems"(2)] by (auto simp del: add_Suc_right)
  next
    case (ptr c c1)
    have "(if ptr = 0 then off + 2 else off1) \<le> length msg" using ptr(1) "1.prems"(2) by simp
    moreover have "((11 - (ptr + 1), length msg - ((c - 192) * 256 + c1)), (11 - ptr, length msg - off)) \<in>
        less_than <*lex*> less_than"
    proof -
      have "11 - (ptr + 1) < 11 - ptr" using ptr(5) by linarith
      then show ?thesis by (simp only: in_lex_prod less_than_iff) blast
    qed
    ultimately show ?thesis using "1.hyps" [OF _ ptr(6)] by blast
  qed
qed

text \<open>
  C40. Unpacking a name is safe on any message, also one whose compression pointers form a loop: it
  returns, with an offset within the message; on success the name is not empty and fully qualified,
  on failure it is empty.
\<close>

theorem unpack_bounded:
  "case UnpackDomainName msg off of (s, off', err) \<Rightarrow>
     off' \<le> length msg \<and>
     (err = None \<longrightarrow> off < length msg \<and> IsFqdn s) \<and>
     (err \<noteq> None \<longrightarrow> s = [] \<and> off' = length msg)"
proof -
  obtain s off' err where u: "unpack_name msg off [] 0 0 = (s, off', err)" by (metis prod_cases3)
  then have "err = None \<longrightarrow> off < length msg" by (subst (asm) unpack_name.simps) (auto split: if_splits)
  then show ?thesis
    using unpack_name_bounds [OF u] u by (auto simp: UnpackDomainName_def IsFqdn_iff)
qed

theorem unpack_bounded_witness:
  "snd (UnpackDomainName [CHR 0xC0, CHR 0x00] 0) = (2, Some (ErrOther ''too many compression pointers''))"
proof -
  have "snd (snd (UnpackDomainName [CHR 0xC0, CHR 0x00] 0)) = Some (ErrOther ''too many compression pointers'')"
    by code_simp
  then show ?thesis
    using unpack_bounded [of "[CHR 0xC0, CHR 0x00]" 0] by (auto split: prod.splits)
qed

end
