(* ===== verification/Dns_Reflect.thy ===== *)
theory Dns_Reflect
  imports Dns_Msg
begin

text \<open>
  Structures as Go's package \<^verbatim>\<open>reflect\<close> shows them to the DNS library, which packs and unpacks
  resource records field by field.  A structure value has the name of its type and its fields with
  their names, tags (the text of the key \<^verbatim>\<open>dns\<close>) and values.  \<open>structValue\<close> is
  \<^verbatim>\<open>reflect.ValueOf(any).Elem()\<close> for a resource record, and \<open>set_structValue\<close> the record after
  its fields have been set.  The kinds that occur in no type modelled here (interfaces among them)
  are left out.
\<close>

datatype fval =
    VUint8 byte
  | VUint16 uint16
  | VUint32 uint32
  | VUint64 uint64
  | VString string
  | VStrings "string list"
  | VUint16s "uint16 list"
  | VIP ip
  | VOptions "EDNS0 list"
  | VStruct string "sfield list"
and sfield = Field string string fval

section \<open>Access to fields\<close>

fun find_field :: "string \<Rightarrow> sfield list \<Rightarrow> fval option" where
  "find_field name [] = None"
| "find_field name (Field n t v # fs) = (if n = name then Some v else find_field name fs)"

fun FieldByName :: "fval \<Rightarrow> string \<Rightarrow> fval option" where
  "FieldByName (VStruct t fs) name = find_field name fs"
| "FieldByName _ name = None"

fun as_uint8 :: "fval option \<Rightarrow> byte" where
  "as_uint8 (Some (VUint8 x)) = x"
| "as_uint8 _ = 0"

fun as_uint16 :: "fval option \<Rightarrow> uint16" where
  "as_uint16 (Some (VUint16 x)) = x"
| "as_uint16 _ = 0"

fun as_uint32 :: "fval option \<Rightarrow> uint32" where
  "as_uint32 (Some (VUint32 x)) = x"
| "as_uint32 _ = 0"

fun as_uint64 :: "fval option \<Rightarrow> uint64" where
  "as_uint64 (Some (VUint64 x)) = x"
| "as_uint64 _ = 0"

fun as_string :: "fval option \<Rightarrow> string" where
  "as_string (Some (VString x)) = x"
| "as_string _ = []"

fun as_strings :: "fval option \<Rightarrow> string list" where
  "as_strings (Some (VStrings x)) = x"
| "as_strings _ = []"

fun as_uint16s :: "fval option \<Rightarrow> uint16 list" where
  "as_uint16s (Some (VUint16s x)) = x"
| "as_uint16s _ = []"

fun as_ip :: "fval option \<Rightarrow> ip" where
  "as_ip (Some (VIP x)) = x"
| "as_ip _ = []"

fun as_options :: "fval option \<Rightarrow> EDNS0 list" where
  "as_options (Some (VOptions x)) = x"
| "as_options _ = []"

section \<open>The structures of messages\<close>

record MsgHeader =
  wire_Id :: uint16
  wire_Bits :: uint16
  wire_Qdcount :: uint16
  wire_Ancount :: uint16
  wire_Nscount :: uint16
  wire_Arcount :: uint16

definition Header_struct :: "MsgHeader \<Rightarrow> fval" where
  "Header_struct r = VStruct ''Header''
     [Field ''Id'' [] (VUint16 (wire_Id r)),
      Field ''Bits'' [] (VUint16 (wire_Bits r)),
      Field ''Qdcount'' [] (VUint16 (wire_Qdcount r)),
      Field ''Ancount'' [] (VUint16 (wire_Ancount r)),
      Field ''Nscount'' [] (VUint16 (wire_Nscount r)),
      Field ''Arcount'' [] (VUint16 (wire_Arcount r))]"

definition Header_of_struct :: "fval \<Rightarrow> MsgHeader" where
  "Header_of_struct v =
     \<lparr>wire_Id = as_uint16 (FieldByName v ''Id''),
      wire_Bits = as_uint16 (FieldByName v ''Bits''),
      wire_Qdcount = as_uint16 (FieldByName v ''Qdcount''),
      wire_Ancount = as_uint16 (FieldByName v ''Ancount''),
      wire_Nscount = as_uint16 (FieldByName v ''Nscount''),
      wire_Arcount = as_uint16 (FieldByName v ''Arcount'')\<rparr>"

definition Header_zero :: "MsgHeader" where
  "Header_zero = \<lparr>wire_Id = 0, wire_Bits = 0, wire_Qdcount = 0, wire_Ancount = 0, wire_Nscount = 0, wire_Arcount = 0\<rparr>"

definition Question_struct :: "Question \<Rightarrow> fval" where
  "Question_struct r = VStruct ''Question''
     [Field ''Name'' ''cdomain-name'' (VString (qName r)),
      Field ''Qtype'' [] (VUint16 (Qtype r)),
      Field ''Qclass'' [] (VUint16 (Qclass r))]"

definition Question_of_struct :: "fval \<Rightarrow> Question" where
  "Question_of_struct v =
     \<lparr>qName = as_string (FieldByName v ''Name''),
      Qtype = as_uint16 (FieldByName v ''Qtype''),
      Qclass = as_uint16 (FieldByName v ''Qclass'')\<rparr>"

definition Question_zero :: "Question" where
  "Question_zero = \<lparr>qName = [], Qtype = 0, Qclass = 0\<rparr>"

definition RR_Header_struct :: "RR_Header \<Rightarrow> fval" where
  "RR_Header_struct r = VStruct ''RR_Header''
     [Field ''Name'' ''cdomain-name'' (VString (hdrName r)),
      Field ''Rrtype'' [] (VUint16 (Rrtype r)),
      Field ''Class'' [] (VUint16 (hdrClass r)),
      Field ''Ttl'' [] (VUint32 (Ttl r)),
      Field ''Rdlength'' [] (VUint16 (Rdlength r))]"

definition RR_Header_of :: "fval option \<Rightarrow> RR_Header" where
  "RR_Header_of w = (let v = (case w of None \<Rightarrow> VStruct [] [] | Some v \<Rightarrow> v) in
     \<lparr>hdrName = as_string (FieldByName v ''Name''),
      Rrtype = as_uint16 (FieldByName v ''Rrtype''),
      hdrClass = as_uint16 (FieldByName v ''Class''),
      Ttl = as_uint32 (FieldByName v ''Ttl''),
      Rdlength = as_uint16 (FieldByName v ''Rdlength'')\<rparr>)"

definition RR_Header_zero :: "RR_Header" where
  "RR_Header_zero = \<lparr>hdrName = [], Rrtype = 0, hdrClass = 0, Ttl = 0, Rdlength = 0\<rparr>"

section \<open>The structures of resource records\<close>

definition ANY_struct :: "ANY_RR \<Rightarrow> fval" where
  "ANY_struct r = VStruct ''ANY''
     [Field ''Hdr'' [] (RR_Header_struct (any_Hdr r))]"

definition ANY_of_struct :: "fval \<Rightarrow> ANY_RR" where
  "ANY_of_struct v =
     \<lparr>any_Hdr = RR_Header_of (FieldByName v ''Hdr'')\<rparr>"

definition ANY_zero :: "ANY_RR" where
  "ANY_zero = \<lparr>any_Hdr = RR_Header_zero\<rparr>"

definition CNAME_struct :: "CNAME_RR \<Rightarrow> fval" where
  "CNAME_struct r = VStruct ''CNAME''
     [Field ''Hdr'' [] (RR_Header_struct (cname_Hdr r)),
      Field ''Target'' ''cdomain-name'' (VString (cname_Target r))]"

definition CNAME_of_struct :: "fval \<Rightarrow> CNAME_RR" where
  "CNAME_of_struct v =
     \<lparr>cname_Hdr = RR_Header_of (FieldByName v ''Hdr''),
      cname_Target = as_string (FieldByName v ''Target'')\<rparr>"

definition CNAME_zero :: "CNAME_RR" where
  "CNAME_zero = \<lparr>cname_Hdr = RR_Header_zero, cname_Target = []\<rparr>"

definition HINFO_struct :: "HINFO_RR \<Rightarrow> fval" where
  "HINFO_struct r = VStruct ''HINFO''
     [Field ''Hdr'' [] (RR_Header_struct (hinfo_Hdr r)),
      Field ''Cpu'' [] (VString (hinfo_Cpu r)),
      Field ''Os'' [] (VString (hinfo_Os r))]"

definition HINFO_of_struct :: "fval \<Rightarrow> HINFO_RR" where
  "HINFO_of_struct v =
     \<lparr>hinfo_Hdr = RR_Header_of (FieldByName v ''Hdr''),
      hinfo_Cpu = as_string (FieldByName v ''Cpu''),
      hinfo_Os = as_string (FieldByName v ''Os'')\<rparr>"

definition HINFO_zero :: "HINFO_RR" where
  "HINFO_zero = \<lparr>hinfo_Hdr = RR_Header_zero, hinfo_Cpu = [], hinfo_Os = []\<rparr>"

definition MB_struct :: "MB_RR \<Rightarrow> fval" where
  "MB_struct r = VStruct ''MB''
     [Field ''Hdr'' [] (RR_Header_struct (mb_Hdr r)),
      Field ''Mb'' ''cdomain-name'' (VString (mb_Mb r))]"

definition MB_of_struct :: "fval \<Rightarrow> MB_RR" where
  "MB_of_struct v =
     \<lparr>mb_Hdr = RR_Header_of (FieldByName v ''Hdr''),
      mb_Mb = as_string (FieldByName v ''Mb'')\<rparr>"

definition MB_zero :: "MB_RR" where
  "MB_zero = \<lparr>mb_Hdr = RR_Header_zero, mb_Mb = []\<rparr>"

definition MG_struct :: "MG_RR \<Rightarrow> fval" where
  "MG_struct r = VStruct ''MG''
     [Field ''Hdr'' [] (RR_Header_struct (mg_Hdr r)),
      Field ''Mg'' ''cdomain-name'' (VString (mg_Mg r))]"

definition MG_of_struct :: "fval \<Rightarrow> MG_RR" where
  "MG_of_struct v =
     \<lparr>mg_Hdr = RR_Header_of (FieldByName v ''Hdr''),
      mg_Mg = as_string (FieldByName v ''Mg'')\<rparr>"

definition MG_zero :: "MG_RR" where
  "MG_zero = \<lparr>mg_Hdr = RR_Header_zero, mg_Mg = []\<rparr>"

definition MINFO_struct :: "MINFO_RR \<Rightarrow> fval" where
  "MINFO_struct r = VStruct ''MINFO''
     [Field ''Hdr'' [] (RR_Header_struct (minfo_Hdr r)),
      Field ''Rmail'' ''cdomain-name'' (VString (minfo_Rmail r)),
      Field ''Email'' ''cdomain-name'' (VString (minfo_Email r))]"

definition MINFO_of_struct :: "fval \<Rightarrow> MINFO_RR" where
  "MINFO_of_struct v =
     \<lparr>minfo_Hdr = RR_Header_of (FieldByName v ''Hdr''),
      minfo_Rmail = as_string (FieldByName v ''Rmail''),
      minfo_Email = as_string (FieldByName v ''Email'')\<rparr>"

definition MINFO_zero :: "MINFO_RR" where
  "MINFO_zero = \<lparr>minfo_Hdr = RR_Header_zero, minfo_Rmail = [], minfo_Email = []\<rparr>"

definition MR_struct :: "MR_RR \<Rightarrow> fval" where
  "MR_struct r = VStruct ''MR''
     [Field ''Hdr'' [] (RR_Header_struct (mr_Hdr r)),
      Field ''Mr'' ''cdomain-name'' (VString (mr_Mr r))]"

definition MR_of_struct :: "fval \<Rightarrow> MR_RR" where
  "MR_of_struct v =
     \<lparr>mr_Hdr = RR_Header_of (FieldByName v ''Hdr''),
      mr_Mr = as_string (FieldByName v ''Mr'')\<rparr>"

definition MR_zero :: "MR_RR" where
  "MR_zero = \<lparr>mr_Hdr = RR_Header_zero, mr_Mr = []\<rparr>"

definition MF_struct :: "MF_RR \<Rightarrow> fval" where
  "MF_struct r = VStruct ''MF''
     [Field ''Hdr'' [] (RR_Header_struct (mf_Hdr r)),
      Field ''Mf'' ''cdomain-name'' (VString (mf_Mf r))]"

definition MF_of_struct :: "fval \<Rightarrow> MF_RR" where
  "MF_of_struct v =
     \<lparr>mf_Hdr = RR_Header_of (FieldByName v ''Hdr''),
      mf_Mf = as_string (FieldByName v ''Mf'')\<rparr>"

definition MF_zero :: "MF_RR" where
  "MF_zero = \<lparr>mf_Hdr = RR_Header_zero, mf_Mf = []\<rparr>"

definition MD_struct :: "MD_RR \<Rightarrow> fval" where
  "MD_struct r = VStruct ''MD''
     [Field ''Hdr'' [] (RR_Header_struct (md_Hdr r)),
      Field ''Md'' ''cdomain-name'' (VString (md_Md r))]"

definition MD_of_struct :: "fval \<Rightarrow> MD_RR" where
  "MD_of_struct v =
     \<lparr>md_Hdr = RR_Header_of (FieldByName v ''Hdr''),
      md_Md = as_string (FieldByName v ''Md'')\<rparr>"

definition MD_zero :: "MD_RR" where
  "MD_zero = \<lparr>md_Hdr = RR_Header_zero, md_Md = []\<rparr>"

definition MX_struct :: "MX_RR \<Rightarrow> fval" where
  "MX_struct r = VStruct ''MX''
     [Field ''Hdr'' [] (RR_Header_struct (mx_Hdr r)),
      Field ''Preference'' [] (VUint16 (mx_Preference r)),
      Field ''Mx'' ''cdomain-name'' (VString (mx_Mx r))]"

definition MX_of_struct :: "fval \<Rightarrow> MX_RR" where
  "MX_of_struct v =
     \<lparr>mx_Hdr = RR_Header_of (FieldByName v ''Hdr''),
      mx_Preference = as_uint16 (FieldByName v ''Preference''),
      mx_Mx = as_string (FieldByName v ''Mx'')\<rparr>"

definition MX_zero :: "MX_RR" where
  "MX_zero = \<lparr>mx_Hdr = RR_Header_zero, mx_Preference = 0, mx_Mx = []\<rparr>"

definition AFSDB_struct :: "AFSDB_RR \<Rightarrow> fval" where
  "AFSDB_struct r = VStruct ''AFSDB''
     [Field ''Hdr'' [] (RR_Header_struct (afsdb_Hdr r)),
      Field ''Subtype'' [] (VUint16 (afsdb_Subtype r)),
      Field ''Hostname'' ''cdomain-name'' (VString (afsdb_Hostname r))]"

definition AFSDB_of_struct :: "fval \<Rightarrow> AFSDB_RR" where
  "AFSDB_of_struct v =
     \<lparr>afsdb_Hdr = RR_Header_of (FieldByName v ''Hdr''),
      afsdb_Subtype = as_uint16 (FieldByName v ''Subtype''),
      afsdb_Hostname = as_string (FieldByName v ''Hostname'')\<rparr>"

definition AFSDB_zero :: "AFSDB_RR" where
  "AFSDB_zero = \<lparr>afsdb_Hdr = RR_Header_zero, afsdb_Subtype = 0, afsdb_Hostname = []\<rparr>"

definition X25_struct :: "X25_RR \<Rightarrow> fval" where
  "X25_struct r = VStruct ''X25''
     [Field ''Hdr'' [] (RR_Header_struct (x25_Hdr r)),
      Field ''PSDNAddress'' [] (VString (x25_PSDNAddress r))]"

definition X25_of_struct :: "fval \<Rightarrow> X25_RR" where
  "X25_of_struct v =
     \<lparr>x25_Hdr = RR_Header_of (FieldByName v ''Hdr''),
      x25_PSDNAddress = as_string (FieldByName v ''PSDNAddress'')\<rparr>"

definition X25_zero :: "X25_RR" where
  "X25_zero = \<lparr>x25_Hdr = RR_Header_zero, x25_PSDNAddress = []\<rparr>"

definition RT_struct :: "RT_RR \<Rightarrow> fval" where
  "RT_struct r = VStruct ''RT''
     [Field ''Hdr'' [] (RR_Header_struct (rt_Hdr r)),
      Field ''Preference'' [] (VUint16 (rt_Preference r)),
      Field ''Host'' ''cdomain-name'' (VString (rt_Host r))]"

definition RT_of_struct :: "fval \<Rightarrow> RT_RR" where
  "RT_of_struct v =
     \<lparr>rt_Hdr = RR_Header_of (FieldByName v ''Hdr''),
      rt_Preference = as_uint16 (FieldByName v ''Preference''),
      rt_Host = as_string (FieldByName v ''Host'')\<rparr>"

definition RT_zero :: "RT_RR" where
  "RT_zero = \<lparr>rt_Hdr = RR_Header_zero, rt_Preference = 0, rt_Host = []\<rparr>"

definition NS_struct :: "NS_RR \<Rightarrow> fval" where
  "NS_struct r = VStruct ''NS''
     [Field ''Hdr'' [] (RR_Header_struct (ns_Hdr r)),
      Field ''Ns'' ''cdomain-name'' (VString (ns_Ns r))]"

definition NS_of_struct :: "fval \<Rightarrow> NS_RR" where
  "NS_of_struct v =
     \<lparr>ns_Hdr = RR_Header_of (FieldByName v ''Hdr''),
      ns_Ns = as_string (FieldByName v ''Ns'')\<rparr>"

definition NS_zero :: "NS_RR" where
  "NS_zero = \<lparr>ns_Hdr = RR_Header_zero, ns_Ns = []\<rparr>"

definition PTR_struct :: "PTR_RR \<Rightarrow> fval" where
  "PTR_struct r = VStruct ''PTR''
     [Field ''Hdr'' [] (RR_Header_struct (ptr_Hdr r)),
      Field ''Ptr'' ''cdomain-name'' (VString (ptr_Ptr r))]"

definition PTR_of_struct :: "fval \<Rightarrow> PTR_RR" where
  "PTR_of_struct v =
     \<lparr>ptr_Hdr = RR_Header_of (FieldByName v ''Hdr''),
      ptr_Ptr = as_string (FieldByName v ''Ptr'')\<rparr>"

definition PTR_zero :: "PTR_RR" where
  "PTR_zero = \<lparr>ptr_Hdr = RR_Header_zero, ptr_Ptr = []\<rparr>"

definition RP_struct :: "RP_RR \<Rightarrow> fval" where
  "RP_struct r = VStruct ''RP''
     [Field ''Hdr'' [] (RR_Header_struct (rp_Hdr r)),
      Field ''Mbox'' ''domain-name'' (VString (rp_Mbox r)),
      Field ''Txt'' ''domain-name'' (VString (rp_Txt r))]"

definition RP_of_struct :: "fval \<Rightarrow> RP_RR" where
  "RP_of_struct v =
     \<lparr>rp_Hdr = RR_Header_of (FieldByName v ''Hdr''),
      rp_Mbox = as_string (FieldByName v ''Mbox''),
      rp_Txt = as_string (FieldByName v ''Txt'')\<rparr>"

definition RP_zero :: "RP_RR" where
  "RP_zero = \<lparr>rp_Hdr = RR_Header_zero, rp_Mbox = [], rp_Txt = []\<rparr>"

definition SOA_struct :: "SOA_RR \<Rightarrow> fval" where
  "SOA_struct r = VStruct ''SOA''
     [Field ''Hdr'' [] (RR_Header_struct (soa_Hdr r)),
      Field ''Ns'' ''cdomain-name'' (VString (soa_Ns r)),
      Field ''Mbox'' ''cdomain-name'' (VString (soa_Mbox r)),
      Field ''Serial'' [] (VUint32 (soa_Serial r)),
      Field ''Refresh'' [] (VUint32 (soa_Refresh r)),
      Field ''Retry'' [] (VUint32 (soa_Retry r)),
      Field ''Expire'' [] (VUint32 (soa_Expire r)),
      Field ''Minttl'' [] (VUint32 (soa_Minttl r))]"

definition SOA_of_struct :: "fval \<Rightarrow> SOA_RR" where
  "SOA_of_struct v =
     \<lparr>soa_Hdr = RR_Header_of (FieldByName v ''Hdr''),
      soa_Ns = as_string (FieldByName v ''Ns''),
      soa_Mbox = as_string (FieldByName v ''Mbox''),
      soa_Serial = as_uint32 (FieldByName v ''Serial''),
      soa_Refresh = as_uint32 (FieldByName v ''Refresh''),
      soa_Retry = as_uint32 (FieldByName v ''Retry''),
      soa_Expire = as_uint32 (FieldByName v ''Expire''),
      soa_Minttl = as_uint32 (FieldByName v ''Minttl'')\<rparr>"

definition SOA_zero :: "SOA_RR" where
  "SOA_zero = \<lparr>soa_Hdr = RR_Header_zero, soa_Ns = [], soa_Mbox = [], soa_Serial = 0, soa_Refresh = 0, soa_Retry = 0, soa_Expire = 0, soa_Minttl = 0\<rparr>"

definition TXT_struct :: "TXT_RR \<Rightarrow> fval" where
  "TXT_struct r = VStruct ''TXT''
     [Field ''Hdr'' [] (RR_Header_struct (txt_Hdr r)),
      Field ''Txt'' ''txt'' (VStrings (txt_Txt r))]"

definition TXT_of_struct :: "fval \<Rightarrow> TXT_RR" where
  "TXT_of_struct v =
     \<lparr>txt_Hdr = RR_Header_of (FieldByName v ''Hdr''),
      txt_Txt = as_strings (FieldByName v ''Txt'')\<rparr>"

definition TXT_zero :: "TXT_RR" where
  "TXT_zero = \<lparr>txt_Hdr = RR_Header_zero, txt_Txt = []\<rparr>"

definition SPF_struct :: "SPF_RR \<Rightarrow> fval" where
  "SPF_struct r = VStruct ''SPF''
     [Field ''Hdr'' [] (RR_Header_struct (spf_Hdr r)),
      Field ''Txt'' ''txt'' (VStrings (spf_Txt r))]"

definition SPF_of_struct :: "fval \<Rightarrow> SPF_RR" where
  "SPF_of_struct v =
     \<lparr>spf_Hdr = RR_Header_of (FieldByName v ''Hdr''),
      spf_Txt = as_strings (FieldByName v ''Txt'')\<rparr>"

definition SPF_zero :: "SPF_RR" where
  "SPF_zero = \<lparr>spf_Hdr = RR_Header_zero, spf_Txt = []\<rparr>"

definition SRV_struct :: "SRV_RR \<Rightarrow> fval" where
  "SRV_struct r = VStruct ''SRV''
     [Field ''Hdr'' [] (RR_Header_struct (srv_Hdr r)),
      Field ''Priority'' [] (VUint16 (srv_Priority r)),
      Field ''Weight'' [] (VUint16 (srv_Weight r)),
      Field ''Port'' [] (VUint16 (srv_Port r)),
      Field ''Target'' ''domain-name'' (VString (srv_Target r))]"

definition SRV_of_struct :: "fval \<Rightarrow> SRV_RR" where
  "SRV_of_struct v =
     \<lparr>srv_Hdr = RR_Header_of (FieldByName v ''Hdr''),
      srv_Priority = as_uint16 (FieldByName v ''Priority''),
      srv_Weight = as_uint16 (FieldByName v ''Weight''),
      srv_Port = as_uint16 (FieldByName v ''Port''),
      srv_Target = as_string (FieldByName v ''Target'')\<rparr>"

definition SRV_zero :: "SRV_RR" where
  "SRV_zero = \<lparr>srv_Hdr = RR_Header_zero, srv_Priority = 0, srv_Weight = 0, srv_Port = 0, srv_Target = []\<rparr>"

definition NAPTR_struct :: "NAPTR_RR \<Rightarrow> fval" where
  "NAPTR_struct r = VStruct ''NAPTR''
     [Field ''Hdr'' [] (RR_Header_struct (naptr_Hdr r)),
      Field ''Order'' [] (VUint16 (naptr_Order r)),
      Field ''Preference'' [] (VUint16 (naptr_Preference r)),
      Field ''Flags'' [] (VString (naptr_Flags r)),
      Field ''Service'' [] (VString (naptr_Service r)),
      Field ''Regexp'' [] (VString (naptr_Regexp r)),
      Field ''Replacement'' ''domain-name'' (VString (naptr_Replacement r))]"

definition NAPTR_of_struct :: "fval \<Rightarrow> NAPTR_RR" where
  "NAPTR_of_struct v =
     \<lparr>naptr_Hdr = RR_Header_of (FieldByName v ''Hdr''),
      naptr_Order = as_uint16 (FieldByName v ''Order''),
      naptr_Preference = as_uint16 (FieldByName v ''Preference''),
      naptr_Flags = as_string (FieldByName v ''Flags''),
      naptr_Service = as_string (FieldByName v ''Service''),
      naptr_Regexp = as_string (FieldByName v ''Regexp''),
      naptr_Replacement = as_string (FieldByName v ''Replacement'')\<rparr>"

definition NAPTR_zero :: "NAPTR_RR" where
  "NAPTR_zero = \<lparr>naptr_Hdr = RR_Header_zero, naptr_Order = 0, naptr_Preference = 0, naptr_Flags = [], naptr_Service = [], naptr_Regexp = [], naptr_Replacement = []\<rparr>"

definition CERT_struct :: "CERT_RR \<Rightarrow> fval" where
  "CERT_struct r = VStruct ''CERT''
     [Field ''Hdr'' [] (RR_Header_struct (cert_Hdr r)),
      Field ''Type'' [] (VUint16 (cert_Type r)),
      Field ''KeyTag'' [] (VUint16 (cert_KeyTag r)),
      Field ''Algorithm'' [] (VUint8 (cert_Algorithm r)),
      Field ''Certificate'' ''base64'' (VString (cert_Certificate r))]"

definition CERT_of_struct :: "fval \<Rightarrow> CERT_RR" where
  "CERT_of_struct v =
     \<lparr>cert_Hdr = RR_Header_of (FieldByName v ''Hdr''),
      cert_Type = as_uint16 (FieldByName v ''Type''),
      cert_KeyTag = as_uint16 (FieldByName v ''KeyTag''),
      cert_Algorithm = as_uint8 (FieldByName v ''Algorithm''),
      cert_Certificate = as_string (FieldByName v ''Certificate'')\<rparr>"

definition CERT_zero :: "CERT_RR" where
  "CERT_zero = \<lparr>cert_Hdr = RR_Header_zero, cert_Type = 0, cert_KeyTag = 0, cert_Algorithm = 0, cert_Certificate = []\<rparr>"

definition DNAME_struct :: "DNAME_RR \<Rightarrow> fval" where
  "DNAME_struct r = VStruct ''DNAME''
     [Field ''Hdr'' [] (RR_Header_struct (dname_Hdr r)),
      Field ''Target'' ''domain-name'' (VString (dname_Target r))]"

definition DNAME_of_struct :: "fval \<Rightarrow> DNAME_RR" where
  "DNAME_of_struct v =
     \<lparr>dname_Hdr = RR_Header_of (FieldByName v ''Hdr''),
      dname_Target = as_string (FieldByName v ''Target'')\<rparr>"

definition DNAME_zero :: "DNAME_RR" where
  "DNAME_zero = \<lparr>dname_Hdr = RR_Header_zero, dname_Target = []\<rparr>"

definition A_struct :: "A_RR \<Rightarrow> fval" where
  "A_struct r = VStruct ''A''
     [Field ''Hdr'' [] (RR_Header_struct (a_Hdr r)),
      Field ''A'' ''a'' (VIP (a_A r))]"

definition A_of_struct :: "fval \<Rightarrow> A_RR" where
  "A_of_struct v =
     \<lparr>a_Hdr = RR_Header_of (FieldByName v ''Hdr''),
      a_A = as_ip (FieldByName v ''A'')\<rparr>"

definition A_zero :: "A_RR" where
  "A_zero = \<lparr>a_Hdr = RR_Header_zero, a_A = []\<rparr>"

definition AAAA_struct :: "AAAA_RR \<Rightarrow> fval" where
  "AAAA_struct r = VStruct ''AAAA''
     [Field ''Hdr'' [] (RR_Header_struct (aaaa_Hdr r)),
      Field ''AAAA'' ''aaaa'' (VIP (aaaa_AAAA r))]"

definition AAAA_of_struct :: "fval \<Rightarrow> AAAA_RR" where
  "AAAA_of_struct v =
     \<lparr>aaaa_Hdr = RR_Header_of (FieldByName v ''Hdr''),
      aaaa_AAAA = as_ip (FieldByName v ''AAAA'')\<rparr>"

definition AAAA_zero :: "AAAA_RR" where
  "AAAA_zero = \<lparr>aaaa_Hdr = RR_Header_zero, aaaa_AAAA = []\<rparr>"

definition PX_struct :: "PX_RR \<Rightarrow> fval" where
  "PX_struct r = VStruct ''PX''
     [Field ''Hdr'' [] (RR_Header_struct (px_Hdr r)),
      Field ''Preference'' [] (VUint16 (px_Preference r)),
      Field ''Map822'' ''domain-name'' (VString (px_Map822 r)),
      Field ''Mapx400'' ''domain-name'' (VString (px_Mapx400 r))]"

definition PX_of_struct :: "fval \<Rightarrow> PX_RR" where
  "PX_of_struct v =
     \<lparr>px_Hdr = RR_Header_of (FieldByName v ''Hdr''),
      px_Preference = as_uint16 (FieldByName v ''Preference''),
      px_Map822 = as_string (FieldByName v ''Map822''),
      px_Mapx400 = as_string (FieldByName v ''Mapx400'')\<rparr>"

definition PX_zero :: "PX_RR" where
  "PX_zero = \<lparr>px_Hdr = RR_Header_zero, px_Preference = 0, px_Map822 = [], px_Mapx400 = []\<rparr>"

definition GPOS_struct :: "GPOS_RR \<Rightarrow> fval" where
  "GPOS_struct r = VStruct ''GPOS''
     [Field ''Hdr'' [] (RR_Header_struct (gpos_Hdr r)),
      Field ''Longitude'' [] (VString (gpos_Longitude r)),
      Field ''Latitude'' [] (VString (gpos_Latitude r)),
      Field ''Altitude'' [] (VString (gpos_Altitude r))]"

definition GPOS_of_struct :: "fval \<Rightarrow> GPOS_RR" where
  "GPOS_of_struct v =
     \<lparr>gpos_Hdr = RR_Header_of (FieldByName v ''Hdr''),
      gpos_Longitude = as_string (FieldByName v ''Longitude''),
      gpos_Latitude = as_string (FieldByName v ''Latitude''),
      gpos_Altitude = as_string (FieldByName v ''Altitude'')\<rparr>"

definition GPOS_zero :: "GPOS_RR" where
  "GPOS_zero = \<lparr>gpos_Hdr = RR_Header_zero, gpos_Longitude = [], gpos_Latitude = [], gpos_Altitude = []\<rparr>"

definition LOC_struct :: "LOC_RR \<Rightarrow> fval" where
  "LOC_struct r = VStruct ''LOC''
     [Field ''Hdr'' [] (RR_Header_struct (loc_Hdr r)),
      Field ''Version'' [] (VUint8 (loc_Version r)),
      Field ''Size'' [] (VUint8 (loc_Size r)),
      Field ''HorizPre'' [] (VUint8 (loc_HorizPre r)),
      Field ''VertPre'' [] (VUint8 (loc_VertPre r)),
      Field ''Latitude'' [] (VUint32 (loc_Latitude r)),
      Field ''Longitude'' [] (VUint32 (loc_Longitude r)),
      Field ''Altitude'' [] (VUint32 (loc_Altitude r))]"

definition LOC_of_struct :: "fval \<Rightarrow> LOC_RR" where
  "LOC_of_struct v =
     \<lparr>loc_Hdr = RR_Header_of (FieldByName v ''Hdr''),
      loc_Version = as_uint8 (FieldByName v ''Version''),
      loc_Size = as_uint8 (FieldByName v ''Size''),
      loc_HorizPre = as_uint8 (FieldByName v ''HorizPre''),
      loc_VertPre = as_uint8 (FieldByName v ''VertPre''),
      loc_Latitude = as_uint32 (FieldByName v ''Latitude''),
      loc_Longitude = as_uint32 (FieldByName v ''Longitude''),
      loc_Altitude = as_uint32 (FieldByName v ''Altitude'')\<rparr>"

definition LOC_zero :: "LOC_RR" where
  "LOC_zero = \<lparr>loc_Hdr = RR_Header_zero, loc_Version = 0, loc_Size = 0, loc_HorizPre = 0, loc_VertPre = 0, loc_Latitude = 0, loc_Longitude = 0, loc_Altitude = 0\<rparr>"

definition RRSIG_struct :: "RRSIG_RR \<Rightarrow> fval" where
  "RRSIG_struct r = VStruct ''RRSIG''
     [Field ''Hdr'' [] (RR_Header_struct (rrsig_Hdr r)),
      Field ''TypeCovered'' [] (VUint16 (rrsig_TypeCovered r)),
      Field ''Algorithm'' [] (VUint8 (rrsig_Algorithm r)),
      Field ''Labels'' [] (VUint8 (rrsig_Labels r)),
      Field ''OrigTtl'' [] (VUint32 (rrsig_OrigTtl r)),
      Field ''Expiration'' [] (VUint32 (rrsig_Expiration r)),
      Field ''Inception'' [] (VUint32 (rrsig_Inception r)),
      Field ''KeyTag'' [] (VUint16 (rrsig_KeyTag r)),
      Field ''SignerName'' ''domain-name'' (VString (rrsig_SignerName r)),
      Field ''Signature'' ''base64'' (VString (rrsig_Signature r))]"

definition RRSIG_of_struct :: "fval \<Rightarrow> RRSIG_RR" where
  "RRSIG_of_struct v =
     \<lparr>rrsig_Hdr = RR_Header_of (FieldByName v ''Hdr''),
      rrsig_TypeCovered = as_uint16 (FieldByName v ''TypeCovered''),
      rrsig_Algorithm = as_uint8 (FieldByName v ''Algorithm''),
      rrsig_Labels = as_uint8 (FieldByName v ''Labels''),
      rrsig_OrigTtl = as_uint32 (FieldByName v ''OrigTtl''),
      rrsig_Expiration = as_uint32 (FieldByName v ''Expiration''),
      rrsig_Inception = as_uint32 (FieldByName v ''Inception''),
      rrsig_KeyTag = as_uint16 (FieldByName v ''KeyTag''),
      rrsig_SignerName = as_string (FieldByName v ''SignerName''),
      rrsig_Signature = as_string (FieldByName v ''Signature'')\<rparr>"

definition RRSIG_zero :: "RRSIG_RR" where
  "RRSIG_zero = \<lparr>rrsig_Hdr = RR_Header_zero, rrsig_TypeCovered = 0, rrsig_Algorithm = 0, rrsig_Labels = 0, rrsig_OrigTtl = 0, rrsig_Expiration = 0, rrsig_Inception = 0, rrsig_KeyTag = 0, rrsig_SignerName = [], rrsig_Signature = []\<rparr>"

definition NSEC_struct :: "NSEC_RR \<Rightarrow> fval" where
  "NSEC_struct r = VStruct ''NSEC''
     [Field ''Hdr'' [] (RR_Header_struct (nsec_Hdr r)),
      Field ''NextDomain'' ''domain-name'' (VString (nsec_NextDomain r)),
      Field ''TypeBitMap'' ''nsec'' (VUint16s (nsec_TypeBitMap r))]"

definition NSEC_of_struct :: "fval \<Rightarrow> NSEC_RR" where
  "NSEC_of_struct v =
     \<lparr>nsec_Hdr = RR_Header_of (FieldByName v ''Hdr''),
      nsec_NextDomain = as_string (FieldByName v ''NextDomain''),
      nsec_TypeBitMap = as_uint16s (FieldByName v ''TypeBitMap'')\<rparr>"

definition NSEC_zero :: "NSEC_RR" where
  "NSEC_zero = \<lparr>nsec_Hdr = RR_Header_zero, nsec_NextDomain = [], nsec_TypeBitMap = []\<rparr>"

definition DS_struct :: "DS_RR \<Rightarrow> fval" where
  "DS_struct r = VStruct ''DS''
     [Field ''Hdr'' [] (RR_Header_struct (ds_Hdr r)),
      Field ''KeyTag'' [] (VUint16 (ds_KeyTag r)),
      Field ''Algorithm'' [] (VUint8 (ds_Algorithm r)),
      Field ''DigestType'' [] (VUint8 (ds_DigestType r)),
      Field ''Digest'' ''hex'' (VString (ds_Digest r))]"

definition DS_of_struct :: "fval \<Rightarrow> DS_RR" where
  "DS_of_struct v =
     \<lparr>ds_Hdr = RR_Header_of (FieldByName v ''Hdr''),
      ds_KeyTag = as_uint16 (FieldByName v ''KeyTag''),
      ds_Algorithm = as_uint8 (FieldByName v ''Algorithm''),
      ds_DigestType = as_uint8 (FieldByName v ''DigestType''),
      ds_Digest = as_string (FieldByName v ''Digest'')\<rparr>"

definition DS_zero :: "DS_RR" where
  "DS_zero = \<lparr>ds_Hdr = RR_Header_zero, ds_KeyTag = 0, ds_Algorithm = 0, ds_DigestType = 0, ds_Digest = []\<rparr>"

definition KX_struct :: "KX_RR \<Rightarrow> fval" where
  "KX_struct r = VStruct ''KX''
     [Field ''Hdr'' [] (RR_Header_struct (kx_Hdr r)),
      Field ''Preference'' [] (VUint16 (kx_Preference r)),
      Field ''Exchanger'' ''domain-name'' (VString (kx_Exchanger r))]"

definition KX_of_struct :: "fval \<Rightarrow> KX_RR" where
  "KX_of_struct v =
     \<lparr>kx_Hdr = RR_Header_of (FieldByName v ''Hdr''),
      kx_Preference = as_uint16 (FieldByName v ''Preference''),
      kx_Exchanger = as_string (FieldByName v ''Exchanger'')\<rparr>"

definition KX_zero :: "KX_RR" where
  "KX_zero = \<lparr>kx_Hdr = RR_Header_zero, kx_Preference = 0, kx_Exchanger = []\<rparr>"

definition TA_struct :: "TA_RR \<Rightarrow> fval" where
  "TA_struct r = VStruct ''TA''
     [Field ''Hdr'' [] (RR_Header_struct (ta_Hdr r)),
      Field ''KeyTag'' [] (VUint16 (ta_KeyTag r)),
      Field ''Algorithm'' [] (VUint8 (ta_Algorithm r)),
      Field ''DigestType'' [] (VUint8 (ta_DigestType r)),
      Field ''Digest'' ''hex'' (VString (ta_Digest r))]"

definition TA_of_struct :: "fval \<Rightarrow> TA_RR" where
  "TA_of_struct v =
     \<lparr>ta_Hdr = RR_Header_of (FieldByName v ''Hdr''),
      ta_KeyTag = as_uint16 (FieldByName v ''KeyTag''),
      ta_Algorithm = as_uint8 (FieldByName v ''Algorithm''),
      ta_DigestType = as_uint8 (FieldByName v ''DigestType''),
      ta_Digest = as_string (FieldByName v ''Digest'')\<rparr>"

definition TA_zero :: "TA_RR" where
  "TA_zero = \<lparr>ta_Hdr = RR_Header_zero, ta_KeyTag = 0, ta_Algorithm = 0, ta_DigestType = 0, ta_Digest = []\<rparr>"

definition TALINK_struct :: "TALINK_RR \<Rightarrow> fval" where
  "TALINK_struct r = VStruct ''TALINK''
     [Field ''Hdr'' [] (RR_Header_struct (talink_Hdr r)),
      Field ''PreviousName'' ''domain-name'' (VString (talink_PreviousName r)),
      Field ''NextName'' ''domain-name'' (VString (talink_NextName r))]"

definition TALINK_of_struct :: "fval \<Rightarrow> TALINK_RR" where
  "TALINK_of_struct v =
     \<lparr>talink_Hdr = RR_Header_of (FieldByName v ''Hdr''),
      talink_PreviousName = as_string (FieldByName v ''PreviousName''),
      talink_NextName = as_string (FieldByName v ''NextName'')\<rparr>"

definition TALINK_zero :: "TALINK_RR" where
  "TALINK_zero = \<lparr>talink_Hdr = RR_Header_zero, talink_PreviousName = [], talink_NextName = []\<rparr>"

definition SSHFP_struct :: "SSHFP_RR \<Rightarrow> fval" where
  "SSHFP_struct r = VStruct ''SSHFP''
     [Field ''Hdr'' [] (RR_Header_struct (sshfp_Hdr r)),
      Field ''Algorithm'' [] (VUint8 (sshfp_Algorithm r)),
      Field ''Type'' [] (VUint8 (sshfp_Type r)),
      Field ''FingerPrint'' ''hex'' (VString (sshfp_FingerPrint r))]"

definition SSHFP_of_struct :: "fval \<Rightarrow> SSHFP_RR" where
  "SSHFP_of_struct v =
     \<lparr>sshfp_Hdr = RR_Header_of (FieldByName v ''Hdr''),
      sshfp_Algorithm = as_uint8 (FieldByName v ''Algorithm''),
      sshfp_Type = as_uint8 (FieldByName v ''Type''),
      sshfp_FingerPrint = as_string (FieldByName v ''FingerPrint'')\<rparr>"

definition SSHFP_zero :: "SSHFP_RR" where
  "SSHFP_zero = \<lparr>sshfp_Hdr = RR_Header_zero, sshfp_Algorithm = 0, sshfp_Type = 0, sshfp_FingerPrint = []\<rparr>"

definition IPSECKEY_struct :: "IPSECKEY_RR \<Rightarrow> fval" where
  "IPSECKEY_struct r = VStruct ''IPSECKEY''
     [Field ''Hdr'' [] (RR_Header_struct (ipseckey_Hdr r)),
      Field ''Precedence'' [] (VUint8 (ipseckey_Precedence r)),
      Field ''GatewayType'' [] (VUint8 (ipseckey_GatewayType r)),
      Field ''Algorithm'' [] (VUint8 (ipseckey_Algorithm r)),
      Field ''Gateway'' ''ipseckey'' (VString (ipseckey_Gateway r)),
      Field ''PublicKey'' ''base64'' (VString (ipseckey_PublicKey r))]"

definition IPSECKEY_of_struct :: "fval \<Rightarrow> IPSECKEY_RR" where
  "IPSECKEY_of_struct v =
     \<lparr>ipseckey_Hdr = RR_Header_of (FieldByName v ''Hdr''),
      ipseckey_Precedence = as_uint8 (FieldByName v ''Precedence''),
      ipseckey_GatewayType = as_uint8 (FieldByName v ''GatewayType''),
      ipseckey_Algorithm = as_uint8 (FieldByName v ''Algorithm''),
      ipseckey_Gateway = as_string (FieldByName v ''Gateway''),
      ipseckey_PublicKey = as_string (FieldByName v ''PublicKey'')\<rparr>"

definition IPSECKEY_zero :: "IPSECKEY_RR" where
  "IPSECKEY_zero = \<lparr>ipseckey_Hdr = RR_Header_zero, ipseckey_Precedence = 0, ipseckey_GatewayType = 0, ipseckey_Algorithm = 0, ipseckey_Gateway = [], ipseckey_PublicKey = []\<rparr>"

definition DNSKEY_struct :: "DNSKEY_RR \<Rightarrow> fval" where
  "DNSKEY_struct r = VStruct ''DNSKEY''
     [Field ''Hdr'' [] (RR_Header_struct (dnskey_Hdr r)),
      Field ''Flags'' [] (VUint16 (dnskey_Flags r)),
      Field ''Protocol'' [] (VUint8 (dnskey_Protocol r)),
      Field ''Algorithm'' [] (VUint8 (dnskey_Algorithm r)),
      Field ''PublicKey'' ''base64'' (VString (dnskey_PublicKey r))]"

definition DNSKEY_of_struct :: "fval \<Rightarrow> DNSKEY_RR" where
  "DNSKEY_of_struct v =
     \<lparr>dnskey_Hdr = RR_Header_of (FieldByName v ''Hdr''),
      dnskey_Flags = as_uint16 (FieldByName v ''Flags''),
      dnskey_Protocol = as_uint8 (FieldByName v ''Protocol''),
      dnskey_Algorithm = as_uint8 (FieldByName v ''Algorithm''),
      dnskey_PublicKey = as_string (FieldByName v ''PublicKey'')\<rparr>"

definition DNSKEY_zero :: "DNSKEY_RR" where
  "DNSKEY_zero = \<lparr>dnskey_Hdr = RR_Header_zero, dnskey_Flags = 0, dnskey_Protocol = 0, dnskey_Algorithm = 0, dnskey_PublicKey = []\<rparr>"

definition RKEY_struct :: "RKEY_RR \<Rightarrow> fval" where
  "RKEY_struct r = VStruct ''RKEY''
     [Field ''Hdr'' [] (RR_Header_struct (rkey_Hdr r)),
      Field ''Flags'' [] (VUint16 (rkey_Flags r)),
      Field ''Protocol'' [] (VUint8 (rkey_Protocol r)),
      Field ''Algorithm'' [] (VUint8 (rkey_Algorithm r)),
      Field ''PublicKey'' ''base64'' (VString (rkey_PublicKey r))]"

definition RKEY_of_struct :: "fval \<Rightarrow> RKEY_RR" where
  "RKEY_of_struct v =
     \<lparr>rkey_Hdr = RR_Header_of (FieldByName v ''Hdr''),
      rkey_Flags = as_uint16 (FieldByName v ''Flags''),
      rkey_Protocol = as_uint8 (FieldByName v ''Protocol''),
      rkey_Algorithm = as_uint8 (FieldByName v ''Algorithm''),
      rkey_PublicKey = as_string (FieldByName v ''PublicKey'')\<rparr>"

definition RKEY_zero :: "RKEY_RR" where
  "RKEY_zero = \<lparr>rkey_Hdr = RR_Header_zero, rkey_Flags = 0, rkey_Protocol = 0, rkey_Algorithm = 0, rkey_PublicKey = []\<rparr>"

definition NSAP_struct :: "NSAP_RR \<Rightarrow> fval" where
  "NSAP_struct r = VStruct ''NSAP''
     [Field ''Hdr'' [] (RR_Header_struct (nsap_Hdr r)),
      Field ''Length'' [] (VUint8 (nsap_Length r)),
      Field ''Nsap'' [] (VString (nsap_Nsap r))]"

definition NSAP_of_struct :: "fval \<Rightarrow> NSAP_RR" where
  "NSAP_of_struct v =
     \<lparr>nsap_Hdr = RR_Header_of (FieldByName v ''Hdr''),
      nsap_Length = as_uint8 (FieldByName v ''Length''),
      nsap_Nsap = as_string (FieldByName v ''Nsap'')\<rparr>"

definition NSAP_zero :: "NSAP_RR" where
  "NSAP_zero = \<lparr>nsap_Hdr = RR_Header_zero, nsap_Length = 0, nsap_Nsap = []\<rparr>"

definition NSAPPTR_struct :: "NSAPPTR_RR \<Rightarrow> fval" where
  "NSAPPTR_struct r = VStruct ''NSAPPTR''
     [Field ''Hdr'' [] (RR_Header_struct (nsapptr_Hdr r)),
      Field ''Ptr'' ''domain-name'' (VString (nsapptr_Ptr r))]"

definition NSAPPTR_of_struct :: "fval \<Rightarrow> NSAPPTR_RR" where
  "NSAPPTR_of_struct v =
     \<lparr>nsapptr_Hdr = RR_Header_of (FieldByName v ''Hdr''),
      nsapptr_Ptr = as_string (FieldByName v ''Ptr'')\<rparr>"

definition NSAPPTR_zero :: "NSAPPTR_RR" where
  "NSAPPTR_zero = \<lparr>nsapptr_Hdr = RR_Header_zero, nsapptr_Ptr = []\<rparr>"

definition NSEC3_struct :: "NSEC3_RR \<Rightarrow> fval" where
  "NSEC3_struct r = VStruct ''NSEC3''
     [Field ''Hdr'' [] (RR_Header_struct (nsec3_Hdr r)),
      Field ''Hash'' [] (VUint8 (nsec3_Hash r)),
      Field ''Flags'' [] (VUint8 (nsec3_Flags r)),
      Field ''Iterations'' [] (VUint16 (nsec3_Iterations r)),
      Field ''SaltLength'' [] (VUint8 (nsec3_SaltLength r)),
      Field ''Salt'' ''size-hex'' (VString (nsec3_Salt r)),
      Field ''HashLength'' [] (VUint8 (nsec3_HashLength r)),
      Field ''NextDomain'' ''size-base32'' (VString (nsec3_NextDomain r)),
      Field ''TypeBitMap'' ''nsec'' (VUint16s (nsec3_TypeBitMap r))]"

definition NSEC3_of_struct :: "fval \<Rightarrow> NSEC3_RR" where
  "NSEC3_of_struct v =
     \<lparr>nsec3_Hdr = RR_Header_of (FieldByName v ''Hdr''),
      nsec3_Hash = as_uint8 (FieldByName v ''Hash''),
      nsec3_Flags = as_uint8 (FieldByName v ''Flags''),
      nsec3_Iterations = as_uint16 (FieldByName v ''Iterations''),
      nsec3_SaltLength = as_uint8 (FieldByName v ''SaltLength''),
      nsec3_Salt = as_string (FieldByName v ''Salt''),
      nsec3_HashLength = as_uint8 (FieldByName v ''HashLength''),
      nsec3_NextDomain = as_string (FieldByName v ''NextDomain''),
      nsec3_TypeBitMap = as_uint16s (FieldByName v ''TypeBitMap'')\<rparr>"

definition NSEC3_zero :: "NSEC3_RR" where
  "NSEC3_zero = \<lparr>nsec3_Hdr = RR_Header_zero, nsec3_Hash = 0, nsec3_Flags = 0, nsec3_Iterations = 0, nsec3_SaltLength = 0, nsec3_Salt = [], nsec3_HashLength = 0, nsec3_NextDomain = [], nsec3_TypeBitMap = []\<rparr>"

definition NSEC3PARAM_struct :: "NSEC3PARAM_RR \<Rightarrow> fval" where
  "NSEC3PARAM_struct r = VStruct ''NSEC3PARAM''
     [Field ''Hdr'' [] (RR_Header_struct (nsec3param_Hdr r)),
      Field ''Hash'' [] (VUint8 (nsec3param_Hash r)),
      Field ''Flags'' [] (VUint8 (nsec3param_Flags r)),
      Field ''Iterations'' [] (VUint16 (nsec3param_Iterations r)),
      Field ''SaltLength'' [] (VUint8 (nsec3param_SaltLength r)),
      Field ''Salt'' ''hex'' (VString (nsec3param_Salt r))]"

definition NSEC3PARAM_of_struct :: "fval \<Rightarrow> NSEC3PARAM_RR" where
  "NSEC3PARAM_of_struct v =
     \<lparr>nsec3param_Hdr = RR_Header_of (FieldByName v ''Hdr''),
      nsec3param_Hash = as_uint8 (FieldByName v ''Hash''),
      nsec3param_Flags = as_uint8 (FieldByName v ''Flags''),
      nsec3param_Iterations = as_uint16 (FieldByName v ''Iterations''),
      nsec3param_SaltLength = as_uint8 (FieldByName v ''SaltLength''),
      nsec3param_Salt = as_string (FieldByName v ''Salt'')\<rparr>"

definition NSEC3PARAM_zero :: "NSEC3PARAM_RR" where
  "NSEC3PARAM_zero = \<lparr>nsec3param_Hdr = RR_Header_zero, nsec3param_Hash = 0, nsec3param_Flags = 0, nsec3param_Iterations = 0, nsec3param_SaltLength = 0, nsec3param_Salt = []\<rparr>"

definition TKEY_struct :: "TKEY_RR \<Rightarrow> fval" where
  "TKEY_struct r = VStruct ''TKEY''
     [Field ''Hdr'' [] (RR_Header_struct (tkey_Hdr r)),
      Field ''Algorithm'' ''domain-name'' (VString (tkey_Algorithm r)),
      Field ''Inception'' [] (VUint32 (tkey_Inception r)),
      Field ''Expiration'' [] (VUint32 (tkey_Expiration r)),
      Field ''Mode'' [] (VUint16 (tkey_Mode r)),
      Field ''Error'' [] (VUint16 (tkey_Error r)),
      Field ''KeySize'' [] (VUint16 (tkey_KeySize r)),
      Field ''Key'' [] (VString (tkey_Key r)),
      Field ''OtherLen'' [] (VUint16 (tkey_OtherLen r)),
      Field ''OtherData'' [] (VString (tkey_OtherData r))]"

definition TKEY_of_struct :: "fval \<Rightarrow> TKEY_RR" where
  "TKEY_of_struct v =
     \<lparr>tkey_Hdr = RR_Header_of (FieldByName v ''Hdr''),
      tkey_Algorithm = as_string (FieldByName v ''Algorithm''),
      tkey_Inception = as_uint32 (FieldByName v ''Inception''),
      tkey_Expiration = as_uint32 (FieldByName v ''Expiration''),
      tkey_Mode = as_uint16 (FieldByName v ''Mode''),
      tkey_Error = as_uint16 (FieldByName v ''Error''),
      tkey_KeySize = as_uint16 (FieldByName v ''KeySize''),
      tkey_Key = as_string (FieldByName v ''Key''),
      tkey_OtherLen = as_uint16 (FieldByName v ''OtherLen''),
      tkey_OtherData = as_string (FieldByName v ''OtherData'')\<rparr>"

definition TKEY_zero :: "TKEY_RR" where
  "TKEY_zero = \<lparr>tkey_Hdr = RR_Header_zero, tkey_Algorithm = [], tkey_Inception = 0, tkey_Expiration = 0, tkey_Mode = 0, tkey_Error = 0, tkey_KeySize = 0, tkey_Key = [], tkey_OtherLen = 0, tkey_OtherData = []\<rparr>"

definition RFC3597_struct :: "RFC3597_RR \<Rightarrow> fval" where
  "RFC3597_struct r = VStruct ''RFC3597''
     [Field ''Hdr'' [] (RR_Header_struct (rfc3597_Hdr r)),
      Field ''Rdata'' ''hex'' (VString (rfc3597_Rdata r))]"

definition RFC3597_of_struct :: "fval \<Rightarrow> RFC3597_RR" where
  "RFC3597_of_struct v =
     \<lparr>rfc3597_Hdr = RR_Header_of (FieldByName v ''Hdr''),
      rfc3597_Rdata = as_string (FieldByName v ''Rdata'')\<rparr>"

definition RFC3597_zero :: "RFC3597_RR" where
  "RFC3597_zero = \<lparr>rfc3597_Hdr = RR_Header_zero, rfc3597_Rdata = []\<rparr>"

definition URI_struct :: "URI_RR \<Rightarrow> fval" where
  "URI_struct r = VStruct ''URI''
     [Field ''Hdr'' [] (RR_Header_struct (uri_Hdr r)),
      Field ''Priority'' [] (VUint16 (uri_Priority r)),
      Field ''Weight'' [] (VUint16 (uri_Weight r)),
      Field ''Target'' ''txt'' (VStrings (uri_Target r))]"

definition URI_of_struct :: "fval \<Rightarrow> URI_RR" where
  "URI_of_struct v =
     \<lparr>uri_Hdr = RR_Header_of (FieldByName v ''Hdr''),
      uri_Priority = as_uint16 (FieldByName v ''Priority''),
      uri_Weight = as_uint16 (FieldByName v ''Weight''),
      uri_Target = as_strings (FieldByName v ''Target'')\<rparr>"

definition URI_zero :: "URI_RR" where
  "URI_zero = \<lparr>uri_Hdr = RR_Header_zero, uri_Priority = 0, uri_Weight = 0, uri_Target = []\<rparr>"

definition DHCID_struct :: "DHCID_RR \<Rightarrow> fval" where
  "DHCID_struct r = VStruct ''DHCID''
     [Field ''Hdr'' [] (RR_Header_struct (dhcid_Hdr r)),
      Field ''Digest'' ''base64'' (VString (dhcid_Digest r))]"

definition DHCID_of_struct :: "fval \<Rightarrow> DHCID_RR" where
  "DHCID_of_struct v =
     \<lparr>dhcid_Hdr = RR_Header_of (FieldByName v ''Hdr''),
      dhcid_Digest = as_string (FieldByName v ''Digest'')\<rparr>"

definition DHCID_zero :: "DHCID_RR" where
  "DHCID_zero = \<lparr>dhcid_Hdr = RR_Header_zero, dhcid_Digest = []\<rparr>"

definition TLSA_struct :: "TLSA_RR \<Rightarrow> fval" where
  "TLSA_struct r = VStruct ''TLSA''
     [Field ''Hdr'' [] (RR_Header_struct (tlsa_Hdr r)),
      Field ''Usage'' [] (VUint8 (tlsa_Usage r)),
      Field ''Selector'' [] (VUint8 (tlsa_Selector r)),
      Field ''MatchingType'' [] (VUint8 (tlsa_MatchingType r)),
      Field ''Certificate'' ''hex'' (VString (tlsa_Certificate r))]"

definition TLSA_of_struct :: "fval \<Rightarrow> TLSA_RR" where
  "TLSA_of_struct v =
     \<lparr>tlsa_Hdr = RR_Header_of (FieldByName v ''Hdr''),
      tlsa_Usage = as_uint8 (FieldByName v ''Usage''),
      tlsa_Selector = as_uint8 (FieldByName v ''Selector''),
      tlsa_MatchingType = as_uint8 (FieldByName v ''MatchingType''),
      tlsa_Certificate = as_string (FieldByName v ''Certificate'')\<rparr>"

definition TLSA_zero :: "TLSA_RR" where
  "TLSA_zero = \<lparr>tlsa_Hdr = RR_Header_zero, tlsa_Usage = 0, tlsa_Selector = 0, tlsa_MatchingType = 0, tlsa_Certificate = []\<rparr>"

definition HIP_struct :: "HIP_RR \<Rightarrow> fval" where
  "HIP_struct r = VStruct ''HIP''
     [Field ''Hdr'' [] (RR_Header_struct (hip_Hdr r)),
      Field ''HitLength'' [] (VUint8 (hip_HitLength r)),
      Field ''PublicKeyAlgorithm'' [] (VUint8 (hip_PublicKeyAlgorithm r)),
      Field ''PublicKeyLength'' [] (VUint16 (hip_PublicKeyLength r)),
      Field ''Hit'' ''hex'' (VString (hip_Hit r)),
      Field ''PublicKey'' ''base64'' (VString (hip_PublicKey r)),
      Field ''RendezvousServers'' ''domain-name'' (VStrings (hip_RendezvousServers r))]"

definition HIP_of_struct :: "fval \<Rightarrow> HIP_RR" where
  "HIP_of_struct v =
     \<lparr>hip_Hdr = RR_Header_of (FieldByName v ''Hdr''),
      hip_HitLength = as_uint8 (FieldByName v ''HitLength''),
      hip_PublicKeyAlgorithm = as_uint8 (FieldByName v ''PublicKeyAlgorithm''),
      hip_PublicKeyLength = as_uint16 (FieldByName v ''PublicKeyLength''),
      hip_Hit = as_string (FieldByName v ''Hit''),
      hip_PublicKey = as_string (FieldByName v ''PublicKey''),
      hip_RendezvousServers = as_strings (FieldByName v ''RendezvousServers'')\<rparr>"

definition HIP_zero :: "HIP_RR" where
  "HIP_zero = \<lparr>hip_Hdr = RR_Header_zero, hip_HitLength = 0, hip_PublicKeyAlgorithm = 0, hip_PublicKeyLength = 0, hip_Hit = [], hip_PublicKey = [], hip_RendezvousServers = []\<rparr>"

definition NINFO_struct :: "NINFO_RR \<Rightarrow> fval" where
  "NINFO_struct r = VStruct ''NINFO''
     [Field ''Hdr'' [] (RR_Header_struct (ninfo_Hdr r)),
      Field ''ZSData'' ''txt'' (VStrings (ninfo_ZSData r))]"

definition NINFO_of_struct :: "fval \<Rightarrow> NINFO_RR" where
  "NINFO_of_struct v =
     \<lparr>ninfo_Hdr = RR_Header_of (FieldByName v ''Hdr''),
      ninfo_ZSData = as_strings (FieldByName v ''ZSData'')\<rparr>"

definition NINFO_zero :: "NINFO_RR" where
  "NINFO_zero = \<lparr>ninfo_Hdr = RR_Header_zero, ninfo_ZSData = []\<rparr>"

definition WKS_struct :: "WKS_RR \<Rightarrow> fval" where
  "WKS_struct r = VStruct ''WKS''
     [Field ''Hdr'' [] (RR_Header_struct (wks_Hdr r)),
      Field ''Address'' ''a'' (VIP (wks_Address r)),
      Field ''Protocol'' [] (VUint8 (wks_Protocol r)),
      Field ''BitMap'' ''wks'' (VUint16s (wks_BitMap r))]"

definition WKS_of_struct :: "fval \<Rightarrow> WKS_RR" where
  "WKS_of_struct v =
     \<lparr>wks_Hdr = RR_Header_of (FieldByName v ''Hdr''),
      wks_Address = as_ip (FieldByName v ''Address''),
      wks_Protocol = as_uint8 (FieldByName v ''Protocol''),
      wks_BitMap = as_uint16s (FieldByName v ''BitMap'')\<rparr>"

definition WKS_zero :: "WKS_RR" where
  "WKS_zero = \<lparr>wks_Hdr = RR_Header_zero, wks_Address = [], wks_Protocol = 0, wks_BitMap = []\<rparr>"

definition NID_struct :: "NID_RR \<Rightarrow> fval" where
  "NID_struct r = VStruct ''NID''
     [Field ''Hdr'' [] (RR_Header_struct (nid_Hdr r)),
      Field ''Preference'' [] (VUint16 (nid_Preference r)),
      Field ''NodeID'' [] (VUint64 (nid_NodeID r))]"

definition NID_of_struct :: "fval \<Rightarrow> NID_RR" where
  "NID_of_struct v =
     \<lparr>nid_Hdr = RR_Header_of (FieldByName v ''Hdr''),
      nid_Preference = as_uint16 (FieldByName v ''Preference''),
      nid_NodeID = as_uint64 (FieldByName v ''NodeID'')\<rparr>"

definition NID_zero :: "NID_RR" where
  "NID_zero = \<lparr>nid_Hdr = RR_Header_zero, nid_Preference = 0, nid_NodeID = 0\<rparr>"

definition L32_struct :: "L32_RR \<Rightarrow> fval" where
  "L32_struct r = VStruct ''L32''
     [Field ''Hdr'' [] (RR_Header_struct (l32_Hdr r)),
      Field ''Preference'' [] (VUint16 (l32_Preference r)),
      Field ''Locator32'' ''a'' (VIP (l32_Locator32 r))]"

definition L32_of_struct :: "fval \<Rightarrow> L32_RR" where
  "L32_of_struct v =
     \<lparr>l32_Hdr = RR_Header_of (FieldByName v ''Hdr''),
      l32_Preference = as_uint16 (FieldByName v ''Preference''),
      l32_Locator32 = as_ip (FieldByName v ''Locator32'')\<rparr>"

definition L32_zero :: "L32_RR" where
  "L32_zero = \<lparr>l32_Hdr = RR_Header_zero, l32_Preference = 0, l32_Locator32 = []\<rparr>"

definition L64_struct :: "L64_RR \<Rightarrow> fval" where
  "L64_struct r = VStruct ''L64''
     [Field ''Hdr'' [] (RR_Header_struct (l64_Hdr r)),
      Field ''Preference'' [] (VUint16 (l64_Preference r)),
      Field ''Locator64'' [] (VUint64 (l64_Locator64 r))]"

definition L64_of_struct :: "fval \<Rightarrow> L64_RR" where
  "L64_of_struct v =
     \<lparr>l64_Hdr = RR_Header_of (FieldByName v ''Hdr''),
      l64_Preference = as_uint16 (FieldByName v ''Preference''),
      l64_Locator64 = as_uint64 (FieldByName v ''Locator64'')\<rparr>"

definition L64_zero :: "L64_RR" where
  "L64_zero = \<lparr>l64_Hdr = RR_Header_zero, l64_Preference = 0, l64_Locator64 = 0\<rparr>"

definition LP_struct :: "LP_RR \<Rightarrow> fval" where
  "LP_struct r = VStruct ''LP''
     [Field ''Hdr'' [] (RR_Header_struct (lp_Hdr r)),
      Field ''Preference'' [] (VUint16 (lp_Preference r)),
      Field ''Fqdn'' ''domain-name'' (VString (lp_Fqdn r))]"

definition LP_of_struct :: "fval \<Rightarrow> LP_RR" where
  "LP_of_struct v =
     \<lparr>lp_Hdr = RR_Header_of (FieldByName v ''Hdr''),
      lp_Preference = as_uint16 (FieldByName v ''Preference''),
      lp_Fqdn = as_string (FieldByName v ''Fqdn'')\<rparr>"

definition LP_zero :: "LP_RR" where
  "LP_zero = \<lparr>lp_Hdr = RR_Header_zero, lp_Preference = 0, lp_Fqdn = []\<rparr>"

definition EUI48_struct :: "EUI48_RR \<Rightarrow> fval" where
  "EUI48_struct r = VStruct ''EUI48''
     [Field ''Hdr'' [] (RR_Header_struct (eui48_Hdr r)),
      Field ''Address'' ''uint48'' (VUint64 (eui48_Address r))]"

definition EUI48_of_struct :: "fval \<Rightarrow> EUI48_RR" where
  "EUI48_of_struct v =
     \<lparr>eui48_Hdr = RR_Header_of (FieldByName v ''Hdr''),
      eui48_Address = as_uint64 (FieldByName v ''Address'')\<rparr>"

definition EUI48_zero :: "EUI48_RR" where
  "EUI48_zero = \<lparr>eui48_Hdr = RR_Header_zero, eui48_Address = 0\<rparr>"

definition EUI64_struct :: "EUI64_RR \<Rightarrow> fval" where
  "EUI64_struct r = VStruct ''EUI64''
     [Field ''Hdr'' [] (RR_Header_struct (eui64_Hdr r)),
      Field ''Address'' [] (VUint64 (eui64_Address r))]"

definition EUI64_of_struct :: "fval \<Rightarrow> EUI64_RR" where
  "EUI64_of_struct v =
     \<lparr>eui64_Hdr = RR_Header_of (FieldByName v ''Hdr''),
      eui64_Address = as_uint64 (FieldByName v ''Address'')\<rparr>"

definition EUI64_zero :: "EUI64_RR" where
  "EUI64_zero = \<lparr>eui64_Hdr = RR_Header_zero, eui64_Address = 0\<rparr>"

definition UID_struct :: "UID_RR \<Rightarrow> fval" where
  "UID_struct r = VStruct ''UID''
     [Field ''Hdr'' [] (RR_Header_struct (uid_Hdr r)),
      Field ''Uid'' [] (VUint32 (uid_Uid r))]"

definition UID_of_struct :: "fval \<Rightarrow> UID_RR" where
  "UID_of_struct v =
     \<lparr>uid_Hdr = RR_Header_of (FieldByName v ''Hdr''),
      uid_Uid = as_uint32 (FieldByName v ''Uid'')\<rparr>"

definition UID_zero :: "UID_RR" where
  "UID_zero = \<lparr>uid_Hdr = RR_Header_zero, uid_Uid = 0\<rparr>"

definition GID_struct :: "GID_RR \<Rightarrow> fval" where
  "GID_struct r = VStruct ''GID''
     [Field ''Hdr'' [] (RR_Header_struct (gid_Hdr r)),
      Field ''Gid'' [] (VUint32 (gid_Gid r))]"

definition GID_of_struct :: "fval \<Rightarrow> GID_RR" where
  "GID_of_struct v =
     \<lparr>gid_Hdr = RR_Header_of (FieldByName v ''Hdr''),
      gid_Gid = as_uint32 (FieldByName v ''Gid'')\<rparr>"

definition GID_zero :: "GID_RR" where
  "GID_zero = \<lparr>gid_Hdr = RR_Header_zero, gid_Gid = 0\<rparr>"

definition UINFO_struct :: "UINFO_RR \<Rightarrow> fval" where
  "UINFO_struct r = VStruct ''UINFO''
     [Field ''Hdr'' [] (RR_Header_struct (uinfo_Hdr r)),
      Field ''Uinfo'' [] (VString (uinfo_Uinfo r))]"

definition UINFO_of_struct :: "fval \<Rightarrow> UINFO_RR" where
  "UINFO_of_struct v =
     \<lparr>uinfo_Hdr = RR_Header_of (FieldByName v ''Hdr''),
      uinfo_Uinfo = as_string (FieldByName v ''Uinfo'')\<rparr>"

definition UINFO_zero :: "UINFO_RR" where
  "UINFO_zero = \<lparr>uinfo_Hdr = RR_Header_zero, uinfo_Uinfo = []\<rparr>"

definition EID_struct :: "EID_RR \<Rightarrow> fval" where
  "EID_struct r = VStruct ''EID''
     [Field ''Hdr'' [] (RR_Header_struct (eid_Hdr r)),
      Field ''Endpoint'' ''hex'' (VString (eid_Endpoint r))]"

definition EID_of_struct :: "fval \<Rightarrow> EID_RR" where
  "EID_of_struct v =
     \<lparr>eid_Hdr = RR_Header_of (FieldByName v ''Hdr''),
      eid_Endpoint = as_string (FieldByName v ''Endpoint'')\<rparr>"

definition EID_zero :: "EID_RR" where
  "EID_zero = \<lparr>eid_Hdr = RR_Header_zero, eid_Endpoint = []\<rparr>"

definition NIMLOC_struct :: "NIMLOC_RR \<Rightarrow> fval" where
  "NIMLOC_struct r = VStruct ''NIMLOC''
     [Field ''Hdr'' [] (RR_Header_struct (nimloc_Hdr r)),
      Field ''Locator'' ''hex'' (VString (nimloc_Locator r))]"

definition NIMLOC_of_struct :: "fval \<Rightarrow> NIMLOC_RR" where
  "NIMLOC_of_struct v =
     \<lparr>nimloc_Hdr = RR_Header_of (FieldByName v ''Hdr''),
      nimloc_Locator = as_string (FieldByName v ''Locator'')\<rparr>"

definition NIMLOC_zero :: "NIMLOC_RR" where
  "NIMLOC_zero = \<lparr>nimloc_Hdr = RR_Header_zero, nimloc_Locator = []\<rparr>"

definition OPENPGPKEY_struct :: "OPENPGPKEY_RR \<Rightarrow> fval" where
  "OPENPGPKEY_struct r = VStruct ''OPENPGPKEY''
     [Field ''Hdr'' [] (RR_Header_struct (openpgpkey_Hdr r)),
      Field ''PublicKey'' ''base64'' (VString (openpgpkey_PublicKey r))]"

definition OPENPGPKEY_of_struct :: "fval \<Rightarrow> OPENPGPKEY_RR" where
  "OPENPGPKEY_of_struct v =
     \<lparr>openpgpkey_Hdr = RR_Header_of (FieldByName v ''Hdr''),
      openpgpkey_PublicKey = as_string (FieldByName v ''PublicKey'')\<rparr>"

definition OPENPGPKEY_zero :: "OPENPGPKEY_RR" where
  "OPENPGPKEY_zero = \<lparr>openpgpkey_Hdr = RR_Header_zero, openpgpkey_PublicKey = []\<rparr>"

definition TSIG_struct :: "TSIG_RR \<Rightarrow> fval" where
  "TSIG_struct r = VStruct ''TSIG''
     [Field ''Hdr'' [] (RR_Header_struct (tsig_Hdr r)),
      Field ''Algorithm'' ''domain-name'' (VString (tsig_Algorithm r)),
      Field ''TimeSigned'' ''uint48'' (VUint64 (tsig_TimeSigned r)),
      Field ''Fudge'' [] (VUint16 (tsig_Fudge r)),
      Field ''MACSize'' [] (VUint16 (tsig_MACSize r)),
      Field ''MAC'' ''size-hex'' (VString (tsig_MAC r)),
      Field ''OrigId'' [] (VUint16 (tsig_OrigId r)),
      Field ''Error'' [] (VUint16 (tsig_Error r)),
      Field ''OtherLen'' [] (VUint16 (tsig_OtherLen r)),
      Field ''OtherData'' ''size-hex'' (VString (tsig_OtherData r))]"

definition TSIG_of_struct :: "fval \<Rightarrow> TSIG_RR" where
  "TSIG_of_struct v =
     \<lparr>tsig_Hdr = RR_Header_of (FieldByName v ''Hdr''),
      tsig_Algorithm = as_string (FieldByName v ''Algorithm''),
      tsig_TimeSigned = as_uint64 (FieldByName v ''TimeSigned''),
      tsig_Fudge = as_uint16 (FieldByName v ''Fudge''),
      tsig_MACSize = as_uint16 (FieldByName v ''MACSize''),
      tsig_MAC = as_string (FieldByName v ''MAC''),
      tsig_OrigId = as_uint16 (FieldByName v ''OrigId''),
      tsig_Error = as_uint16 (FieldByName v ''Error''),
      tsig_OtherLen = as_uint16 (FieldByName v ''OtherLen''),
      tsig_OtherData = as_string (FieldByName v ''OtherData'')\<rparr>"

definition TSIG_zero :: "TSIG_RR" where
  "TSIG_zero = \<lparr>tsig_Hdr = RR_Header_zero, tsig_Algorithm = [], tsig_TimeSigned = 0, tsig_Fudge = 0, tsig_MACSize = 0, tsig_MAC = [], tsig_OrigId = 0, tsig_Error = 0, tsig_OtherLen = 0, tsig_OtherData = []\<rparr>"

definition OPT_struct :: "OPT_RR \<Rightarrow> fval" where
  "OPT_struct r = VStruct ''OPT''
     [Field ''Hdr'' [] (RR_Header_struct (opt_Hdr r)),
      Field ''Option'' ''opt'' (VOptions (opt_Option r))]"

definition OPT_of_struct :: "fval \<Rightarrow> OPT_RR" where
  "OPT_of_struct v =
     \<lparr>opt_Hdr = RR_Header_of (FieldByName v ''Hdr''),
      opt_Option = as_options (FieldByName v ''Option'')\<rparr>"

definition OPT_zero :: "OPT_RR" where
  "OPT_zero = \<lparr>opt_Hdr = RR_Header_zero, opt_Option = []\<rparr>"

section \<open>Resource records\<close>

text \<open>A type that embeds another one has a single field with the embedded structure.\<close>

primrec structValue :: "RR \<Rightarrow> fval" where
  "structValue (RR_ANY r) = ANY_struct r"
| "structValue (RR_CNAME r) = CNAME_struct r"
| "structValue (RR_HINFO r) = HINFO_struct r"
| "structValue (RR_MB r) = MB_struct r"
| "structValue (RR_MG r) = MG_struct r"
| "structValue (RR_MINFO r) = MINFO_struct r"
| "structValue (RR_MR r) = MR_struct r"
| "structValue (RR_MF r) = MF_struct r"
| "structValue (RR_MD r) = MD_struct r"
| "structValue (RR_MX r) = MX_struct r"
| "structValue (RR_AFSDB r) = AFSDB_struct r"
| "structValue (RR_X25 r) = X25_struct r"
| "structValue (RR_RT r) = RT_struct r"
| "structValue (RR_NS r) = NS_struct r"
| "structValue (RR_PTR r) = PTR_struct r"
| "structValue (RR_RP r) = RP_struct r"
| "structValue (RR_SOA r) = SOA_struct r"
| "structValue (RR_TXT r) = TXT_struct r"
| "structValue (RR_SPF r) = SPF_struct r"
| "structValue (RR_SRV r) = SRV_struct r"
| "structValue (RR_NAPTR r) = NAPTR_struct r"
| "structValue (RR_CERT r) = CERT_struct r"
| "structValue (RR_DNAME r) = DNAME_struct r"
| "structValue (RR_A r) = A_struct r"
| "structValue (RR_AAAA r) = AAAA_struct r"
| "structValue (RR_PX r) = PX_struct r"
| "structValue (RR_GPOS r) = GPOS_struct r"
| "structValue (RR_LOC r) = LOC_struct r"
| "structValue (RR_RRSIG r) = RRSIG_struct r"
| "structValue (RR_NSEC r) = NSEC_struct r"
| "structValue (RR_DS r) = DS_struct r"
| "structValue (RR_KX r) = KX_struct r"
| "structValue (RR_TA r) = TA_struct r"
| "structValue (RR_TALINK r) = TALINK_struct r"
| "structValue (RR_SSHFP r) = SSHFP_struct r"
| "structValue (RR_IPSECKEY r) = IPSECKEY_struct r"
| "structValue (RR_DNSKEY r) = DNSKEY_struct r"
| "structValue (RR_RKEY r) = RKEY_struct r"
| "structValue (RR_NSAP r) = NSAP_struct r"
| "structValue (RR_NSAPPTR r) = NSAPPTR_struct r"
| "structValue (RR_NSEC3 r) = NSEC3_struct r"
| "structValue (RR_NSEC3PARAM r) = NSEC3PARAM_struct r"
| "structValue (RR_TKEY r) = TKEY_struct r"
| "structValue (RR_RFC3597 r) = RFC3597_struct r"
| "structValue (RR_URI r) = URI_struct r"
| "structValue (RR_DHCID r) = DHCID_struct r"
| "structValue (RR_TLSA r) = TLSA_struct r"
| "structValue (RR_HIP r) = HIP_struct r"
| "structValue (RR_NINFO r) = NINFO_struct r"
| "structValue (RR_WKS r) = WKS_struct r"
| "structValue (RR_NID r) = NID_struct r"
| "structValue (RR_L32 r) = L32_struct r"
| "structValue (RR_L64 r) = L64_struct r"
| "structValue (RR_LP r) = LP_struct r"
| "structValue (RR_EUI48 r) = EUI48_struct r"
| "structValue (RR_EUI64 r) = EUI64_struct r"
| "structValue (RR_UID r) = UID_struct r"
| "structValue (RR_GID r) = GID_struct r"
| "structValue (RR_UINFO r) = UINFO_struct r"
| "structValue (RR_EID r) = EID_struct r"
| "structValue (RR_NIMLOC r) = NIMLOC_struct r"
| "structValue (RR_OPENPGPKEY r) = OPENPGPKEY_struct r"
| "structValue (RR_TSIG r) = TSIG_struct r"
| "structValue (RR_SIG r) = VStruct ''SIG'' [Field ''RRSIG'' [] (RRSIG_struct r)]"
| "structValue (RR_DLV r) = VStruct ''DLV'' [Field ''DS'' [] (DS_struct r)]"
| "structValue (RR_CDS r) = VStruct ''CDS'' [Field ''DS'' [] (DS_struct r)]"
| "structValue (RR_KEY r) = VStruct ''KEY'' [Field ''DNSKEY'' [] (DNSKEY_struct r)]"
| "structValue (RR_CDNSKEY r) = VStruct ''CDNSKEY'' [Field ''DNSKEY'' [] (DNSKEY_struct r)]"
| "structValue (RR_OPT r) = OPT_struct r"

definition embedded :: "fval \<Rightarrow> string \<Rightarrow> fval" where
  "embedded v name = (case FieldByName v name of None \<Rightarrow> VStruct [] [] | Some w \<Rightarrow> w)"

primrec set_structValue :: "RR \<Rightarrow> fval \<Rightarrow> RR" where
  "set_structValue (RR_ANY r) v = RR_ANY (ANY_of_struct v)"
| "set_structValue (RR_CNAME r) v = RR_CNAME (CNAME_of_struct v)"
| "set_structValue (RR_HINFO r) v = RR_HINFO (HINFO_of_struct v)"
| "set_structValue (RR_MB r) v = RR_MB (MB_of_struct v)"
| "set_structValue (RR_MG r) v = RR_MG (MG_of_struct v)"
| "set_structValue (RR_MINFO r) v = RR_MINFO (MINFO_of_struct v)"
| "set_structValue (RR_MR r) v = RR_MR (MR_of_struct v)"
| "set_structValue (RR_MF r) v = RR_MF (MF_of_struct v)"
| "set_structValue (RR_MD r) v = RR_MD (MD_of_struct v)"
| "set_structValue (RR_MX r) v = RR_MX (MX_of_struct v)"
| "set_structValue (RR_AFSDB r) v = RR_AFSDB (AFSDB_of_struct v)"
| "set_structValue (RR_X25 r) v = RR_X25 (X25_of_struct v)"
| "set_structValue (RR_RT r) v = RR_RT (RT_of_struct v)"
| "set_structValue (RR_NS r) v = RR_NS (NS_of_struct v)"
| "set_structValue (RR_PTR r) v = RR_PTR (PTR_of_struct v)"
| "set_structValue (RR_RP r) v = RR_RP (RP_of_struct v)"
| "set_structValue (RR_SOA r) v = RR_SOA (SOA_of_struct v)"
| "set_structValue (RR_TXT r) v = RR_TXT (TXT_of_struct v)"
| "set_structValue (RR_SPF r) v = RR_SPF (SPF_of_struct v)"
| "set_structValue (RR_SRV r) v = RR_SRV (SRV_of_struct v)"
| "set_structValue (RR_NAPTR r) v = RR_NAPTR (NAPTR_of_struct v)"
| "set_structValue (RR_CERT r) v = RR_CERT (CERT_of_struct v)"
| "set_structValue (RR_DNAME r) v = RR_DNAME (DNAME_of_struct v)"
| "set_structValue (RR_A r) v = RR_A (A_of_struct v)"
| "set_structValue (RR_AAAA r) v = RR_AAAA (AAAA_of_struct v)"
| "set_structValue (RR_PX r) v = RR_PX (PX_of_struct v)"
| "set_structValue (RR_GPOS r) v = RR_GPOS (GPOS_of_struct v)"
| "set_structValue (RR_LOC r) v = RR_LOC (LOC_of_struct v)"
| "set_structValue (RR_RRSIG r) v = RR_RRSIG (RRSIG_of_struct v)"
| "set_structValue (RR_NSEC r) v = RR_NSEC (NSEC_of_struct v)"
| "set_structValue (RR_DS r) v = RR_DS (DS_of_struct v)"
| "set_structValue (RR_KX r) v = RR_KX (KX_of_struct v)"
| "set_structValue (RR_TA r) v = RR_TA (TA_of_struct v)"
| "set_structValue (RR_TALINK r) v = RR_TALINK (TALINK_of_struct v)"
| "set_structValue (RR_SSHFP r) v = RR_SSHFP (SSHFP_of_struct v)"
| "set_structValue (RR_IPSECKEY r) v = RR_IPSECKEY (IPSECKEY_of_struct v)"
| "set_structValue (RR_DNSKEY r) v = RR_DNSKEY (DNSKEY_of_struct v)"
| "set_structValue (RR_RKEY r) v = RR_RKEY (RKEY_of_struct v)"
| "set_structValue (RR_NSAP r) v = RR_NSAP (NSAP_of_struct v)"
| "set_structValue (RR_NSAPPTR r) v = RR_NSAPPTR (NSAPPTR_of_struct v)"
| "set_structValue (RR_NSEC3 r) v = RR_NSEC3 (NSEC3_of_struct v)"
| "set_structValue (RR_NSEC3PARAM r) v = RR_NSEC3PARAM (NSEC3PARAM_of_struct v)"
| "set_structValue (RR_TKEY r) v = RR_TKEY (TKEY_of_struct v)"
| "set_structValue (RR_RFC3597 r) v = RR_RFC3597 (RFC3597_of_struct v)"
| "set_structValue (RR_URI r) v = RR_URI (URI_of_struct v)"
| "set_structValue (RR_DHCID r) v = RR_DHCID (DHCID_of_struct v)"
| "set_structValue (RR_TLSA r) v = RR_TLSA (TLSA_of_struct v)"
| "set_structValue (RR_HIP r) v = RR_HIP (HIP_of_struct v)"
| "set_structValue (RR_NINFO r) v = RR_NINFO (NINFO_of_struct v)"
| "set_structValue (RR_WKS r) v = RR_WKS (WKS_of_struct v)"
| "set_structValue (RR_NID r) v = RR_NID (NID_of_struct v)"
| "set_structValue (RR_L32 r) v = RR_L32 (L32_of_struct v)"
| "set_structValue (RR_L64 r) v = RR_L64 (L64_of_struct v)"
| "set_structValue (RR_LP r) v = RR_LP (LP_of_struct v)"
| "set_structValue (RR_EUI48 r) v = RR_EUI48 (EUI48_of_struct v)"
| "set_structValue (RR_EUI64 r) v = RR_EUI64 (EUI64_of_struct v)"
| "set_structValue (RR_UID r) v = RR_UID (UID_of_struct v)"
| "set_structValue (RR_GID r) v = RR_GID (GID_of_struct v)"
| "set_structValue (RR_UINFO r) v = RR_UINFO (UINFO_of_struct v)"
| "set_structValue (RR_EID r) v = RR_EID (EID_of_struct v)"
| "set_structValue (RR_NIMLOC r) v = RR_NIMLOC (NIMLOC_of_struct v)"
| "set_structValue (RR_OPENPGPKEY r) v = RR_OPENPGPKEY (OPENPGPKEY_of_struct v)"
| "set_structValue (RR_TSIG r) v = RR_TSIG (TSIG_of_struct v)"
| "set_structValue (RR_SIG r) v = RR_SIG (RRSIG_of_struct (embedded v ''RRSIG''))"
| "set_structValue (RR_DLV r) v = RR_DLV (DS_of_struct (embedded v ''DS''))"
| "set_structValue (RR_CDS r) v = RR_CDS (DS_of_struct (embedded v ''DS''))"
| "set_structValue (RR_KEY r) v = RR_KEY (DNSKEY_of_struct (embedded v ''DNSKEY''))"
| "set_structValue (RR_CDNSKEY r) v = RR_CDNSKEY (DNSKEY_of_struct (embedded v ''DNSKEY''))"
| "set_structValue (RR_OPT r) v = RR_OPT (OPT_of_struct v)"

definition typeToRR :: "(uint16 \<times> RR) list" where
  "typeToRR =
     [(TypeA, RR_A A_zero),
      (TypeAAAA, RR_AAAA AAAA_zero),
      (TypeAFSDB, RR_AFSDB AFSDB_zero),
      (TypeCDS, RR_CDS DS_zero),
      (TypeCERT, RR_CERT CERT_zero),
      (TypeCNAME, RR_CNAME CNAME_zero),
      (TypeDHCID, RR_DHCID DHCID_zero),
      (TypeDLV, RR_DLV DS_zero),
      (TypeDNAME, RR_DNAME DNAME_zero),
      (TypeKEY, RR_KEY DNSKEY_zero),
      (TypeDNSKEY, RR_DNSKEY DNSKEY_zero),
      (TypeDS, RR_DS DS_zero),
      (TypeEUI48, RR_EUI48 EUI48_zero),
      (TypeEUI64, RR_EUI64 EUI64_zero),
      (TypeGID, RR_GID GID_zero),
      (TypeGPOS, RR_GPOS GPOS_zero),
      (TypeEID, RR_EID EID_zero),
      (TypeHINFO, RR_HINFO HINFO_zero),
      (TypeHIP, RR_HIP HIP_zero),
      (TypeKX, RR_KX KX_zero),
      (TypeL32, RR_L32 L32_zero),
      (TypeL64, RR_L64 L64_zero),
      (TypeLOC, RR_LOC LOC_zero),
      (TypeLP, RR_LP LP_zero),
      (TypeMB, RR_MB MB_zero),
      (TypeMD, RR_MD MD_zero),
      (TypeMF, RR_MF MF_zero),
      (TypeMG, RR_MG MG_zero),
      (TypeMINFO, RR_MINFO MINFO_zero),
      (TypeMR, RR_MR MR_zero),
      (TypeMX, RR_MX MX_zero),
      (TypeNAPTR, RR_NAPTR NAPTR_zero),
      (TypeNID, RR_NID NID_zero),
      (TypeNINFO, RR_NINFO NINFO_zero),
      (TypeNIMLOC, RR_NIMLOC NIMLOC_zero),
      (TypeNS, RR_NS NS_zero),
      (TypeNSAP, RR_NSAP NSAP_zero),
      (TypeNSAPPTR, RR_NSAPPTR NSAPPTR_zero),
      (TypeNSEC3, RR_NSEC3 NSEC3_zero),
      (TypeNSEC3PARAM, RR_NSEC3PARAM NSEC3PARAM_zero),
      (TypeNSEC, RR_NSEC NSEC_zero),
      (TypeOPENPGPKEY, RR_OPENPGPKEY OPENPGPKEY_zero),
      (TypeOPT, RR_OPT OPT_zero),
      (TypePTR, RR_PTR PTR_zero),
      (TypeRKEY, RR_RKEY RKEY_zero),
      (TypeRP, RR_RP RP_zero),
      (TypePX, RR_PX PX_zero),
      (TypeSIG, RR_SIG RRSIG_zero),
      (TypeRRSIG, RR_RRSIG RRSIG_zero),
      (TypeRT, RR_RT RT_zero),
      (TypeSOA, RR_SOA SOA_zero),
      (TypeSPF, RR_SPF SPF_zero),
      (TypeSRV, RR_SRV SRV_zero),
      (TypeSSHFP, RR_SSHFP SSHFP_zero),
      (TypeTA, RR_TA TA_zero),
      (TypeTALINK, RR_TALINK TALINK_zero),
      (TypeTKEY, RR_TKEY TKEY_zero),
      (TypeTLSA, RR_TLSA TLSA_zero),
      (TypeTSIG, RR_TSIG TSIG_zero),
      (TypeTXT, RR_TXT TXT_zero),
      (TypeUID, RR_UID UID_zero),
      (TypeUINFO, RR_UINFO UINFO_zero),
      (TypeURI, RR_URI URI_zero),
      (TypeWKS, RR_WKS WKS_zero),
      (TypeX25, RR_X25 X25_zero)]"

section \<open>Fields and records correspond\<close>

lemma RR_Header_of_struct [simp]: "RR_Header_of (Some (RR_Header_struct h)) = h"
  by (simp add: RR_Header_of_def RR_Header_struct_def)

lemma Header_of_struct_inverse [simp]: "Header_of_struct (Header_struct r) = r"
  by (simp add: Header_of_struct_def Header_struct_def)

lemma Question_of_struct_inverse [simp]: "Question_of_struct (Question_struct r) = r"
  by (simp add: Question_of_struct_def Question_struct_def)

lemma ANY_of_struct_inverse [simp]: "ANY_of_struct (ANY_struct r) = r"
  by (simp add: ANY_of_struct_def ANY_struct_def)

lemma CNAME_of_struct_inverse [simp]: "CNAME_of_struct (CNAME_struct r) = r"
  by (simp add: CNAME_of_struct_def CNAME_struct_def)

lemma HINFO_of_struct_inverse [simp]: "HINFO_of_struct (HINFO_struct r) = r"
  by (simp add: HINFO_of_struct_def HINFO_struct_def)

lemma MB_of_struct_inverse [simp]: "MB_of_struct (MB_struct r) = r"
  by (simp add: MB_of_struct_def MB_struct_def)

lemma MG_of_struct_inverse [simp]: "MG_of_struct (MG_struct r) = r"
  by (simp add: MG_of_struct_def MG_struct_def)

lemma MINFO_of_struct_inverse [simp]: "MINFO_of_struct (MINFO_struct r) = r"
  by (simp add: MINFO_of_struct_def MINFO_struct_def)

lemma MR_of_struct_inverse [simp]: "MR_of_struct (MR_struct r) = r"
  by (simp add: MR_of_struct_def MR_struct_def)

lemma MF_of_struct_inverse [simp]: "MF_of_struct (MF_struct r) = r"
  by (simp add: MF_of_struct_def MF_struct_def)

lemma MD_of_struct_inverse [simp]: "MD_of_struct (MD_struct r) = r"
  by (simp add: MD_of_struct_def MD_struct_def)

lemma MX_of_struct_inverse [simp]: "MX_of_struct (MX_struct r) = r"
  by (simp add: MX_of_struct_def MX_struct_def)

lemma AFSDB_of_struct_inverse [simp]: "AFSDB_of_struct (AFSDB_struct r) = r"
  by (simp add: AFSDB_of_struct_def AFSDB_struct_def)

lemma X25_of_struct_inverse [simp]: "X25_of_struct (X25_struct r) = r"
  by (simp add: X25_of_struct_def X25_struct_def)

lemma RT_of_struct_inverse [simp]: "RT_of_struct (RT_struct r) = r"
  by (simp add: RT_of_struct_def RT_struct_def)

lemma NS_of_struct_inverse [simp]: "NS_of_struct (NS_struct r) = r"
  by (simp add: NS_of_struct_def NS_struct_def)

lemma PTR_of_struct_inverse [simp]: "PTR_of_struct (PTR_struct r) = r"
  by (simp add: PTR_of_struct_def PTR_struct_def)

lemma RP_of_struct_inverse [simp]: "RP_of_struct (RP_struct r) = r"
  by (simp add: RP_of_struct_def RP_struct_def)

lemma SOA_of_struct_inverse [simp]: "SOA_of_struct (SOA_struct r) = r"
  by (simp add: SOA_of_struct_def SOA_struct_def)

lemma TXT_of_struct_inverse [simp]: "TXT_of_struct (TXT_struct r) = r"
  by (simp add: TXT_of_struct_def TXT_struct_def)

lemma SPF_of_struct_inverse [simp]: "SPF_of_struct (SPF_struct r) = r"
  by (simp add: SPF_of_struct_def SPF_struct_def)

lemma SRV_of_struct_inverse [simp]: "SRV_of_struct (SRV_struct r) = r"
  by (simp add: SRV_of_struct_def SRV_struct_def)

lemma NAPTR_of_struct_inverse [simp]: "NAPTR_of_struct (NAPTR_struct r) = r"
  by (simp add: NAPTR_of_struct_def NAPTR_struct_def)

lemma CERT_of_struct_inverse [simp]: "CERT_of_struct (CERT_struct r) = r"
  by (simp add: CERT_of_struct_def CERT_struct_def)

lemma DNAME_of_struct_inverse [simp]: "DNAME_of_struct (DNAME_struct r) = r"
  by (simp add: DNAME_of_struct_def DNAME_struct_def)

lemma A_of_struct_inverse [simp]: "A_of_struct (A_struct r) = r"
  by (simp add: A_of_struct_def A_struct_def)

lemma AAAA_of_struct_inverse [simp]: "AAAA_of_struct (AAAA_struct r) = r"
  by (simp add: AAAA_of_struct_def AAAA_struct_def)

lemma PX_of_struct_inverse [simp]: "PX_of_struct (PX_struct r) = r"
  by (simp add: PX_of_struct_def PX_struct_def)

lemma GPOS_of_struct_inverse [simp]: "GPOS_of_struct (GPOS_struct r) = r"
  by (simp add: GPOS_of_struct_def GPOS_struct_def)

lemma LOC_of_struct_inverse [simp]: "LOC_of_struct (LOC_struct r) = r"
  by (simp add: LOC_of_struct_def LOC_struct_def)

lemma RRSIG_of_struct_inverse [simp]: "RRSIG_of_struct (RRSIG_struct r) = r"
  by (simp add: RRSIG_of_struct_def RRSIG_struct_def)

lemma NSEC_of_struct_inverse [simp]: "NSEC_of_struct (NSEC_struct r) = r"
  by (simp add: NSEC_of_struct_def NSEC_struct_def)

lemma DS_of_struct_inverse [simp]: "DS_of_struct (DS_struct r) = r"
  by (simp add: DS_of_struct_def DS_struct_def)

lemma KX_of_struct_inverse [simp]: "KX_of_struct (KX_struct r) = r"
  by (simp add: KX_of_struct_def KX_struct_def)

lemma TA_of_struct_inverse [simp]: "TA_of_struct (TA_struct r) = r"
  by (simp add: TA_of_struct_def TA_struct_def)

lemma TALINK_of_struct_inverse [simp]: "TALINK_of_struct (TALINK_struct r) = r"
  by (simp add: TALINK_of_struct_def TALINK_struct_def)

lemma SSHFP_of_struct_inverse [simp]: "SSHFP_of_struct (SSHFP_struct r) = r"
  by (simp add: SSHFP_of_struct_def SSHFP_struct_def)

lemma IPSECKEY_of_struct_inverse [simp]: "IPSECKEY_of_struct (IPSECKEY_struct r) = r"
  by (simp add: IPSECKEY_of_struct_def IPSECKEY_struct_def)

lemma DNSKEY_of_struct_inverse [simp]: "DNSKEY_of_struct (DNSKEY_struct r) = r"
  by (simp add: DNSKEY_of_struct_def DNSKEY_struct_def)

lemma RKEY_of_struct_inverse [simp]: "RKEY_of_struct (RKEY_struct r) = r"
  by (simp add: RKEY_of_struct_def RKEY_struct_def)

lemma NSAP_of_struct_inverse [simp]: "NSAP_of_struct (NSAP_struct r) = r"
  by (simp add: NSAP_of_struct_def NSAP_struct_def)

lemma NSAPPTR_of_struct_inverse [simp]: "NSAPPTR_of_struct (NSAPPTR_struct r) = r"
  by (simp add: NSAPPTR_of_struct_def NSAPPTR_struct_def)

lemma NSEC3_of_struct_inverse [simp]: "NSEC3_of_struct (NSEC3_struct r) = r"
  by (simp add: NSEC3_of_struct_def NSEC3_struct_def)

lemma NSEC3PARAM_of_struct_inverse [simp]: "NSEC3PARAM_of_struct (NSEC3PARAM_struct r) = r"
  by (simp add: NSEC3PARAM_of_struct_def NSEC3PARAM_struct_def)

lemma TKEY_of_struct_inverse [simp]: "TKEY_of_struct (TKEY_struct r) = r"
  by (simp add: TKEY_of_struct_def TKEY_struct_def)

lemma RFC3597_of_struct_inverse [simp]: "RFC3597_of_struct (RFC3597_struct r) = r"
  by (simp add: RFC3597_of_struct_def RFC3597_struct_def)

lemma URI_of_struct_inverse [simp]: "URI_of_struct (URI_struct r) = r"
  by (simp add: URI_of_struct_def URI_struct_def)

lemma DHCID_of_struct_inverse [simp]: "DHCID_of_struct (DHCID_struct r) = r"
  by (simp add: DHCID_of_struct_def DHCID_struct_def)

lemma TLSA_of_struct_inverse [simp]: "TLSA_of_struct (TLSA_struct r) = r"
  by (simp add: TLSA_of_struct_def TLSA_struct_def)

lemma HIP_of_struct_inverse [simp]: "HIP_of_struct (HIP_struct r) = r"
  by (simp add: HIP_of_struct_def HIP_struct_def)

lemma NINFO_of_struct_inverse [simp]: "NINFO_of_struct (NINFO_struct r) = r"
  by (simp add: NINFO_of_struct_def NINFO_struct_def)

lemma WKS_of_struct_inverse [simp]: "WKS_of_struct (WKS_struct r) = r"
  by (simp add: WKS_of_struct_def WKS_struct_def)

lemma NID_of_struct_inverse [simp]: "NID_of_struct (NID_struct r) = r"
  by (simp add: NID_of_struct_def NID_struct_def)

lemma L32_of_struct_inverse [simp]: "L32_of_struct (L32_struct r) = r"
  by (simp add: L32_of_struct_def L32_struct_def)

lemma L64_of_struct_inverse [simp]: "L64_of_struct (L64_struct r) = r"
  by (simp add: L64_of_struct_def L64_struct_def)

lemma LP_of_struct_inverse [simp]: "LP_of_struct (LP_struct r) = r"
  by (simp add: LP_of_struct_def LP_struct_def)

lemma EUI48_of_struct_inverse [simp]: "EUI48_of_struct (EUI48_struct r) = r"
  by (simp add: EUI48_of_struct_def EUI48_struct_def)

lemma EUI64_of_struct_inverse [simp]: "EUI64_of_struct (EUI64_struct r) = r"
  by (simp add: EUI64_of_struct_def EUI64_struct_def)

lemma UID_of_struct_inverse [simp]: "UID_of_struct (UID_struct r) = r"
  by (simp add: UID_of_struct_def UID_struct_def)

lemma GID_of_struct_inverse [simp]: "GID_of_struct (GID_struct r) = r"
  by (simp add: GID_of_struct_def GID_struct_def)

lemma UINFO_of_struct_inverse [simp]: "UINFO_of_struct (UINFO_struct r) = r"
  by (simp add: UINFO_of_struct_def UINFO_struct_def)

lemma EID_of_struct_inverse [simp]: "EID_of_struct (EID_struct r) = r"
  by (simp add: EID_of_struct_def EID_struct_def)

lemma NIMLOC_of_struct_inverse [simp]: "NIMLOC_of_struct (NIMLOC_struct r) = r"
  by (simp add: NIMLOC_of_struct_def NIMLOC_struct_def)

lemma OPENPGPKEY_of_struct_inverse [simp]: "OPENPGPKEY_of_struct (OPENPGPKEY_struct r) = r"
  by (simp add: OPENPGPKEY_of_struct_def OPENPGPKEY_struct_def)

lemma TSIG_of_struct_inverse [simp]: "TSIG_of_struct (TSIG_struct r) = r"
  by (simp add: TSIG_of_struct_def TSIG_struct_def)

lemma OPT_of_struct_inverse [simp]: "OPT_of_struct (OPT_struct r) = r"
  by (simp add: OPT_of_struct_def OPT_struct_def)

lemma set_structValue_inverse: "set_structValue r (structValue r) = r"
  by (cases r) (simp_all add: embedded_def)

end
