(* ===== verification/Dns_Struct.thy ===== *)
theory Dns_Struct
  imports Dns_Wire Dns_Reflect
begin

unbundle bit_operations_syntax

text \<open>
  Packing and unpacking of structures by reflection (\<^verbatim>\<open>packStructValue\<close>, \<^verbatim>\<open>unpackStructValue\<close> in
  \<^verbatim>\<open>msg.go\<close>), of resource records, and the functions of \<^verbatim>\<open>rawmsg.go\<close>.

  The state of packing is the offset, the buffer and the compression map.  When a step fails, the
  callers drop the buffer, and the model does too; the offset that Go returns with an error is the
  length of the buffer.  A slice of a buffer panics when it is out of the range of its length: the
  capacity of a buffer is taken to be its length.  A tag is met only on the kind of field it is made
  for.
\<close>

type_synonym pack_pos = "nat \<times> string \<times> (string \<rightharpoonup> nat)"

definition lentmp :: nat where
  "lentmp = 256 * 4 + 1"

section \<open>Packing fields\<close>

definition PackDomainName :: "string \<Rightarrow> pack_pos \<Rightarrow> bool \<Rightarrow> (dns_error + pack_pos) run" where
  "PackDomainName s st compress =
     (case st of (off, msg, compression) \<Rightarrow>
        run_bind (packDomainName s (Some msg) off compression compress) (\<lambda>((off1, labels, err), msg', compression').
          case err of
            Some e \<Rightarrow> Done (Inl e)
          | None \<Rightarrow> Done (Inr (off1, (case msg' of None \<Rightarrow> [] | Some m \<Rightarrow> m), compression'))))"

definition pack_uint :: "string \<Rightarrow> nat \<Rightarrow> int \<Rightarrow> pack_pos \<Rightarrow> (dns_error + pack_pos) run" where
  "pack_uint kind k n st =
     (case st of (off, msg, compression) \<Rightarrow>
        if length msg < off + k then Done (Inl (ErrOther (''overflow packing '' @ kind)))
        else Done (Inr (off + k, overwrite msg off (be_bytes k n), compression)))"

text \<open>\<^verbatim>\<open>copy(msg[off:off+len(b)], b)\<close> and the advance of the offset.\<close>

definition put_slice :: "string \<Rightarrow> pack_pos \<Rightarrow> (dns_error + pack_pos) run" where
  "put_slice b st =
     (case st of (off, msg, compression) \<Rightarrow>
        if length msg < off + length b then Panic SliceBounds
        else Done (Inr (off + length b, overwrite msg off b, compression)))"

definition packBase64 :: "string \<Rightarrow> dns_error + string" where
  "packBase64 s = (case base64_Decode s of None \<Rightarrow> Inl ErrEncoding | Some b \<Rightarrow> Inr b)"

definition packBase32 :: "string \<Rightarrow> dns_error + string" where
  "packBase32 s = (case base32_Decode s of None \<Rightarrow> Inl ErrEncoding | Some b \<Rightarrow> Inr b)"

definition pack_hex :: "string \<Rightarrow> pack_pos \<Rightarrow> (dns_error + pack_pos) run" where
  "pack_hex s st =
     (case st of (off, msg, compression) \<Rightarrow>
        case hex_DecodeString s of
          None \<Rightarrow> Done (Inl ErrEncoding)
        | Some h \<Rightarrow>
            if length msg < off + hex_DecodedLen (length s) then Done (Inl (ErrOther ''overflow packing hex''))
            else Done (Inr (off + hex_DecodedLen (length s), overwrite msg off h, compression)))"

definition pack_txt_result ::
  "(string \<rightharpoonup> nat) \<Rightarrow> ((nat \<times> dns_error option) \<times> string) run \<Rightarrow> (dns_error + pack_pos) run" where
  "pack_txt_result compression r =
     run_bind r (\<lambda>((off, err), msg).
       case err of Some e \<Rightarrow> Done (Inl e) | None \<Rightarrow> Done (Inr (off, msg, compression)))"

definition pack_string :: "string \<Rightarrow> string \<Rightarrow> pack_pos \<Rightarrow> bool \<Rightarrow> (dns_error + pack_pos) run" where
  "pack_string tag s st compress =
     (case st of (off, msg, compression) \<Rightarrow>
        if tag = ''base64'' then try_bind (Done (packBase64 s)) (\<lambda>b. put_slice b st)
        else if tag = ''domain-name'' then PackDomainName s st (False \<and> compress)
        else if tag = ''cdomain-name'' then PackDomainName s st (True \<and> compress)
        else if tag = ''size-base32'' then
          if off = 0 \<or> length msg < off then Panic IndexOutOfRange
          else try_bind (Done (packBase32 s)) (\<lambda>b. put_slice b (off, msg[off - 1 := char_of (20 :: nat)], compression))
        else if tag = ''base32'' then try_bind (Done (packBase32 s)) (\<lambda>b. put_slice b st)
        else if tag = ''size-hex'' \<or> tag = ''hex'' then pack_hex s st
        else if tag = ''size'' then put_slice s st
        else if tag = ''txt'' \<or> tag = [] then pack_txt_result compression (packTxtString s msg off lentmp)
        else Done (Inl (ErrOther (''bad tag packing string: '' @ tag))))"

primrec pack_names :: "string list \<Rightarrow> pack_pos \<Rightarrow> bool \<Rightarrow> (dns_error + pack_pos) run" where
  "pack_names [] st compress = Done (Inr st)"
| "pack_names (s # ss) st compress =
     try_bind (PackDomainName s st (False \<and> compress)) (\<lambda>st. pack_names ss st compress)"

definition pack_strings :: "string \<Rightarrow> string list \<Rightarrow> pack_pos \<Rightarrow> bool \<Rightarrow> (dns_error + pack_pos) run" where
  "pack_strings tag ss st compress =
     (case st of (off, msg, compression) \<Rightarrow>
        if tag = ''domain-name'' then pack_names ss st compress
        else if tag = ''txt'' then pack_txt_result compression (packTxt ss msg off lentmp)
        else Done (Inl (ErrOther (''bad tag packing slice: '' @ tag))))"

text \<open>An option that does not fit is cut, and the offset stays at the end of the buffer.\<close>

primrec pack_options :: "EDNS0 list \<Rightarrow> nat \<Rightarrow> string \<Rightarrow> (dns_error + (nat \<times> string)) run" where
  "pack_options [] off msg = Done (Inr (off, msg))"
| "pack_options (e # es) off msg =
     run_bind (EDNS0_pack e) (\<lambda>r.
       case r of
         Inl _ \<Rightarrow> Done (Inl (ErrOther ''overflow packing opt''))
       | Inr b \<Rightarrow>
           if length msg < off + 4 then Panic IndexOutOfRange
           else
             let msg = overwrite msg off (be_bytes 2 (uint (EDNS0_Option e)) @ be_bytes 2 (int (length b)));
                 off = off + 4
             in if length msg < off + length b
                then pack_options es (length msg) (overwrite msg off (take (length msg - off) b))
                else pack_options es (off + length b) (overwrite msg off b))"

definition pack_opts :: "string \<Rightarrow> EDNS0 list \<Rightarrow> pack_pos \<Rightarrow> (dns_error + pack_pos) run" where
  "pack_opts tag es st =
     (case st of (off, msg, compression) \<Rightarrow>
        if tag = ''opt'' then
          try_bind (pack_options es off msg) (\<lambda>(off, msg). Done (Inr (off, msg, compression)))
        else Done (Inl (ErrOther (''bad tag packing slice: '' @ tag))))"

definition pack_ip :: "string \<Rightarrow> ip \<Rightarrow> pack_pos \<Rightarrow> (dns_error + pack_pos) run" where
  "pack_ip tag a st =
     (case st of (off, msg, compression) \<Rightarrow>
        if tag = ''a'' then
          if length msg < off + IPv4len then Done (Inl (ErrOther ''overflow packing a''))
          else if length a = IPv6len then
            Done (Inr (off + IPv4len, overwrite msg off (chars_of (drop 12 a)), compression))
          else if length a = IPv4len then
            Done (Inr (off + IPv4len, overwrite msg off (chars_of a), compression))
          else if length a = 0 then Done (Inr st)
          else Done (Inl (ErrOther ''overflow packing a''))
        else if tag = ''aaaa'' then
          if length a = 0 then Done (Inr st)
          else if IPv6len < length a \<or> length msg < off + length a then
            Done (Inl (ErrOther ''overflow packing aaaa''))
          else if length a < IPv6len then Panic IndexOutOfRange
          else Done (Inr (off + IPv6len, overwrite msg off (chars_of a), compression))
        else Done (Inl (ErrOther (''bad tag packing slice: '' @ tag))))"

text \<open>The services of a WKS record; the bits are written from the beginning of the message.\<close>

primrec pack_wks :: "uint16 list \<Rightarrow> nat \<Rightarrow> string \<Rightarrow> (dns_error + (nat \<times> string)) run" where
  "pack_wks [] bitmapbyte msg = Done (Inr (bitmapbyte, msg))"
| "pack_wks (serv # ss) bitmapbyte msg =
     (let bitmapbyte = unat serv div 8; bit = unat serv mod 8 in
      if length msg < bitmapbyte then Done (Inl (ErrOther ''overflow packing wks''))
      else if length msg = bitmapbyte then Panic IndexOutOfRange
      else pack_wks ss bitmapbyte (msg[bitmapbyte := char_of (2 ^ (7 - bit) :: nat)]))"

text \<open>
  The types of an NSEC or NSEC3 record; \<open>l\<close> is the variable \<^verbatim>\<open>length\<close>.  \<open>nsec_off\<close> is the offset
  of the window of a type, \<open>nsec_length\<close> the number of its octet in the window, and \<open>put_nsec\<close> sets the number and the length of the window and the bit.
\<close>

definition nsec_off :: "uint16 \<Rightarrow> nat \<Rightarrow> nat \<Rightarrow> nat \<Rightarrow> nat" where
  "nsec_off t lastwindow l off = (if lastwindow \<noteq> unat t div 256 then off + l + 3 else off)"

definition nsec_length :: "uint16 \<Rightarrow> nat" where
  "nsec_length t = unat t mod 256 div 8"

definition put_nsec :: "uint16 \<Rightarrow> nat \<Rightarrow> string \<Rightarrow> string" where
  "put_nsec t off msg =
     (let l = nsec_length t;
          msg = msg[off := char_of (unat t div 256), off + 1 := char_of (l + 1)]
      in msg[off + 2 + l := char_of (of_char (msg ! (off + 2 + l)) OR (2 ^ (7 - unat t mod 8) :: nat))])"

primrec pack_nsec :: "uint16 list \<Rightarrow> nat \<Rightarrow> nat \<Rightarrow> nat \<Rightarrow> string \<Rightarrow> (dns_error + (nat \<times> string)) run" where
  "pack_nsec [] lastwindow l off msg =
     (if length msg < off + 2 + l + 1 then Done (Inl (ErrOther ''overflow packing nsecx bitmap''))
      else Done (Inr (off + 2 + l + 1, msg)))"
| "pack_nsec (t # ts) lastwindow l off msg =
     (if length msg < nsec_off t lastwindow l off + 2 + nsec_length t
      then Done (Inl (ErrOther ''overflow packing nsecx bitmap''))
      else if length msg = nsec_off t lastwindow l off + 2 + nsec_length t then Panic IndexOutOfRange
      else
        pack_nsec ts (unat t div 256) (nsec_length t) (nsec_off t lastwindow l off)
          (put_nsec t (nsec_off t lastwindow l off) msg))"

definition pack_uint16s :: "string \<Rightarrow> uint16 list \<Rightarrow> pack_pos \<Rightarrow> (dns_error + pack_pos) run" where
  "pack_uint16s tag xs st =
     (case st of (off, msg, compression) \<Rightarrow>
        if tag = ''wks'' then
          if off = length msg \<or> xs = [] then Done (Inr st)
          else try_bind (pack_wks xs 0 msg) (\<lambda>(bitmapbyte, msg). Done (Inr (off + bitmapbyte, msg, compression)))
        else if tag = ''nsec'' then
          if xs = [] then Done (Inr st)
          else if length msg < off + 2 then Done (Inl (ErrOther ''overflow packing nsecx''))
          else try_bind (pack_nsec xs 0 0 off msg) (\<lambda>(off, msg). Done (Inr (off, msg, compression)))
        else Done (Inl (ErrOther (''bad tag packing slice: '' @ tag))))"

definition pack_value :: "string \<Rightarrow> fval \<Rightarrow> pack_pos \<Rightarrow> bool \<Rightarrow> (dns_error + pack_pos) run" where
  "pack_value tag v st compress =
     (case v of
        VUint8 n \<Rightarrow> pack_uint ''uint8'' 1 (uint n) st
      | VUint16 n \<Rightarrow> pack_uint ''uint16'' 2 (uint n) st
      | VUint32 n \<Rightarrow> pack_uint ''uint32'' 4 (uint n) st
      | VUint64 n \<Rightarrow>
          if tag = ''uint48'' then pack_uint ''uint64 as uint48'' 6 (uint n) st
          else pack_uint ''uint64'' 8 (uint n) st
      | VString s \<Rightarrow> pack_string tag s st compress
      | VStrings ss \<Rightarrow> pack_strings tag ss st compress
      | VUint16s xs \<Rightarrow> pack_uint16s tag xs st
      | VIP a \<Rightarrow> pack_ip tag a st
      | VOptions es \<Rightarrow> pack_opts tag es st
      | VStruct _ _ \<Rightarrow> Done (Inl (ErrOther ''bad kind packing'')))"

fun packStructValue :: "fval \<Rightarrow> pack_pos \<Rightarrow> bool \<Rightarrow> (dns_error + pack_pos) run"
  and pack_fields :: "sfield list \<Rightarrow> pack_pos \<Rightarrow> bool \<Rightarrow> (dns_error + pack_pos) run" where
  "packStructValue (VStruct t fs) st compress = pack_fields fs st compress"
| "packStructValue v st compress = Panic (PanicError ''reflect: call of NumField'')"
| "pack_fields [] st compress = Done (Inr st)"
| "pack_fields (Field n tag v # fs) st compress =
     (if tag = ''-'' then pack_fields fs st compress
      else
        try_bind
          (case v of VStruct _ _ \<Rightarrow> packStructValue v st compress | _ \<Rightarrow> pack_value tag v st compress)
          (\<lambda>st. pack_fields fs st compress))"

section \<open>Unpacking fields\<close>

text \<open>
  The steps yield the new value of the field and the new offset.  The unsigned integers of up to
  32 bits keep their value if the message is at its end.
\<close>

definition unpack_uint :: "string \<Rightarrow> nat \<Rightarrow> (int \<Rightarrow> fval) \<Rightarrow> string \<Rightarrow> nat \<Rightarrow> dns_error + (fval \<times> nat)" where
  "unpack_uint kind k mk msg off =
     (if length msg < off + k then Inl (ErrOther (''overflow unpacking '' @ kind))
      else Inr (mk (be_value (take k (drop off msg))), off + k))"

text \<open>\<^verbatim>\<open>msg[off:end]\<close>\<close>

definition get_slice :: "string \<Rightarrow> nat \<Rightarrow> nat \<Rightarrow> string run" where
  "get_slice msg off e = (if e < off \<or> length msg < e then Panic SliceBounds else Done (take (e - off) (drop off msg)))"

text \<open>\<^verbatim>\<open>FieldByName\<close> followed by \<^verbatim>\<open>Uint\<close>, which panics if there is no such field.\<close>

definition field_uint :: "fval option \<Rightarrow> string \<Rightarrow> nat run" where
  "field_uint w name =
     (case w of
        None \<Rightarrow> Panic NilDereference
      | Some v \<Rightarrow>
          (case FieldByName v name of
             Some (VUint8 n) \<Rightarrow> Done (unat n)
           | Some (VUint16 n) \<Rightarrow> Done (unat n)
           | Some (VUint32 n) \<Rightarrow> Done (unat n)
           | Some (VUint64 n) \<Rightarrow> Done (unat n)
           | _ \<Rightarrow> Panic NilDereference))"

text \<open>
  The end of an encoded field: the end of the record, but in a HIP record the length that another
  field holds.
\<close>

definition encoded_end :: "fval \<Rightarrow> string \<Rightarrow> nat \<Rightarrow> nat \<Rightarrow> nat run" where
  "encoded_end val len_field lenrd off =
     run_bind (field_uint (FieldByName val ''Hdr'') ''Rrtype'') (\<lambda>t.
       if t = unat TypeHIP then run_bind (field_uint (Some val) len_field) (\<lambda>n. Done (off + n))
       else Done lenrd)"

definition unpack_encoded ::
  "string \<Rightarrow> string \<Rightarrow> (string \<Rightarrow> string) \<Rightarrow> fval \<Rightarrow> nat \<Rightarrow> string \<Rightarrow> nat \<Rightarrow> (dns_error + (fval \<times> nat)) run" where
  "unpack_encoded kind len_field enc val lenrd msg off =
     run_bind (encoded_end val len_field lenrd off) (\<lambda>e.
       if lenrd < e \<or> length msg < e then Done (Inl (ErrOther (''overflow unpacking '' @ kind)))
       else run_bind (get_slice msg off e) (\<lambda>b. Done (Inr (VString (enc b), e))))"

definition unpack_sized ::
  "string \<Rightarrow> (string \<Rightarrow> string) \<Rightarrow> nat \<Rightarrow> string \<Rightarrow> nat \<Rightarrow> (dns_error + (fval \<times> nat)) run" where
  "unpack_sized kind enc n msg off =
     (if length msg < off + n then Done (Inl (ErrOther (''overflow unpacking '' @ kind)))
      else run_bind (get_slice msg off (off + n)) (\<lambda>b. Done (Inr (VString (enc b), off + n))))"

text \<open>The field that holds the size of another one; \<open>tn\<close> is the name of the type, \<open>n\<close> that of the field.\<close>

definition size_field :: "string \<Rightarrow> string \<Rightarrow> string option" where
  "size_field tn n =
     (if tn = ''NSEC3'' \<and> n = ''Salt'' then Some ''SaltLength''
      else if tn = ''NSEC3'' \<and> n = ''NextDomain'' then Some ''HashLength''
      else if tn = ''TSIG'' \<and> n = ''MAC'' then Some ''MACSize''
      else if tn = ''TSIG'' \<and> n = ''OtherData'' then Some ''OtherLen''
      else None)"

definition field_size :: "fval \<Rightarrow> string option \<Rightarrow> nat run" where
  "field_size val w = (case w of None \<Rightarrow> Done 0 | Some name \<Rightarrow> field_uint (Some val) name)"

text \<open>The error of a character string is not looked at: the field becomes empty and the loop goes on.\<close>

definition unpack_string ::
  "fval \<Rightarrow> string \<Rightarrow> string \<Rightarrow> string \<Rightarrow> nat \<Rightarrow> string \<Rightarrow> nat \<Rightarrow> (dns_error + (fval \<times> nat)) run" where
  "unpack_string val tn n tag lenrd msg off =
     (if tag = ''hex'' then unpack_encoded ''hex'' ''HitLength'' hex_EncodeToString val lenrd msg off
      else if tag = ''base64'' then unpack_encoded ''base64'' ''PublicKeyLength'' base64_Encode val lenrd msg off
      else if tag = ''cdomain-name'' \<or> tag = ''domain-name'' then
        (case UnpackDomainName msg off of
           (s, off', Some e) \<Rightarrow> Done (Inl e) | (s, off', None) \<Rightarrow> Done (Inr (VString s, off')))
      else if tag = ''size-base32'' then
        run_bind (field_size val (if tn = ''NSEC3'' \<and> n = ''NextDomain'' then Some ''HashLength'' else None))
          (\<lambda>k. unpack_sized ''base32'' base32_Encode k msg off)
      else if tag = ''size-hex'' then
        run_bind (field_size val (size_field tn n)) (\<lambda>k. unpack_sized ''hex'' hex_EncodeToString k msg off)
      else if tag = ''txt'' \<or> tag = [] then
        (case unpackTxtString msg off of (s, off', err) \<Rightarrow> Done (Inr (VString s, off')))
      else Done (Inl (ErrOther (''bad tag unpacking string: '' @ tag))))"

text \<open>
  The names of a HIP record.  A name can end at a smaller offset than the one it starts at, so the
  loop need not end.
\<close>

partial_function (option) unpack_names ::
  "string \<Rightarrow> nat \<Rightarrow> nat \<Rightarrow> string list \<Rightarrow> (dns_error + (string list \<times> nat)) option" where
  "unpack_names msg off lenrd servers =
     (if off < lenrd then
        (case UnpackDomainName msg off of
           (s, off', Some e) \<Rightarrow> Some (Inl e)
         | (s, off', None) \<Rightarrow> unpack_names msg off' lenrd (servers @ [s]))
      else Some (Inr (servers, off)))"

declare unpack_names.simps [code]

definition unpack_strings :: "string \<Rightarrow> string list \<Rightarrow> nat \<Rightarrow> string \<Rightarrow> nat \<Rightarrow> (dns_error + (fval \<times> nat)) run" where
  "unpack_strings tag old lenrd msg off =
     (if tag = ''domain-name'' then
        (case unpack_names msg off lenrd [] of
           None \<Rightarrow> Panic Diverges
         | Some (Inl e) \<Rightarrow> Done (Inl e)
         | Some (Inr (ss, off')) \<Rightarrow> Done (Inr (VStrings ss, off')))
      else if tag = ''txt'' then
        if off = length msg \<or> lenrd = off then Done (Inr (VStrings old, off))
        else
          (case unpackTxt msg off lenrd of
             (ss, off', Some e) \<Rightarrow> Done (Inl e) | (ss, off', None) \<Rightarrow> Done (Inr (VStrings ss, off')))
      else Done (Inl (ErrOther (''bad tag unpacking slice: '' @ tag))))"

text \<open>The option that is made for a code; other codes are skipped.\<close>

definition new_option :: "uint16 \<Rightarrow> EDNS0 option" where
  "new_option code =
     (if code = EDNS0NSID then Some (Opt_NSID \<lparr>nsid_Code = 0, nsid_Nsid = []\<rparr>)
      else if code = EDNS0SUBNET \<or> code = EDNS0SUBNETDRAFT then
        Some (Opt_SUBNET \<lparr>subnet_Code = 0, subnet_Family = 0, subnet_SourceNetmask = 0, subnet_SourceScope = 0,
          subnet_Address = [], subnet_DraftOption = (code = EDNS0SUBNETDRAFT)\<rparr>)
      else if code = EDNS0UL then Some (Opt_UL \<lparr>ul_Code = 0, ul_Lease = 0\<rparr>)
      else if code = EDNS0LLQ then
        Some (Opt_LLQ \<lparr>llq_Code = 0, llq_Version = 0, llq_Opcode = 0, llq_Error = 0, llq_Id = 0, llq_LeaseLife = 0\<rparr>)
      else if code = EDNS0DAU then Some (Opt_DAU \<lparr>dau_Code = 0, dau_AlgCode = []\<rparr>)
      else if code = EDNS0DHU then Some (Opt_DHU \<lparr>dhu_Code = 0, dhu_AlgCode = []\<rparr>)
      else if code = EDNS0N3U then Some (Opt_N3U \<lparr>n3u_Code = 0, n3u_AlgCode = []\<rparr>)
      else None)"

function unpack_options ::
  "nat \<Rightarrow> string \<Rightarrow> nat \<Rightarrow> EDNS0 list \<Rightarrow> (dns_error + (EDNS0 list \<times> nat)) run" where
  "unpack_options lenrd msg off edns =
     (if length msg < off + 2 then Done (Inl (ErrOther ''overflow unpacking opt''))
      else if length msg < off + 4 then Panic IndexOutOfRange
      else
        let code = word_of_int (be_value (take 2 (drop off msg)));
            optlen = nat (be_value (take 2 (drop (off + 2) msg)));
            off1 = off + 4
        in if lenrd < off1 + optlen then Done (Inl (ErrOther ''overflow unpacking opt''))
           else
             try_bind
               (case new_option code of
                  None \<Rightarrow> Done (Inr edns)
                | Some e \<Rightarrow>
                    run_bind (get_slice msg off1 (off1 + optlen)) (\<lambda>b.
                      case EDNS0_unpack e b of Inl err \<Rightarrow> Done (Inl err) | Inr e \<Rightarrow> Done (Inr (edns @ [e]))))
               (\<lambda>edns.
                  if off1 + optlen < lenrd then unpack_options lenrd msg (off1 + optlen) edns
                  else Done (Inr (edns, off1 + optlen))))"
  by pat_completeness auto
termination
  by (relation "measure (\<lambda>(lenrd, msg, off, edns). lenrd - off)") auto

declare unpack_options.simps [simp del]

definition unpack_opts :: "string \<Rightarrow> EDNS0 list \<Rightarrow> nat \<Rightarrow> string \<Rightarrow> nat \<Rightarrow> (dns_error + (fval \<times> nat)) run" where
  "unpack_opts tag old lenrd msg off =
     (if tag = ''opt'' then
        if off = lenrd then Done (Inr (VOptions old, off))
        else try_bind (unpack_options lenrd msg off []) (\<lambda>(es, off'). Done (Inr (VOptions es, off')))
      else Done (Inl (ErrOther (''bad tag unpacking slice: '' @ tag))))"

definition unpack_ip :: "string \<Rightarrow> ip \<Rightarrow> nat \<Rightarrow> string \<Rightarrow> nat \<Rightarrow> dns_error + (fval \<times> nat)" where
  "unpack_ip tag old lenrd msg off =
     (if tag = ''a'' then
        if off = lenrd then Inr (VIP old, off)
        else if lenrd < off + IPv4len \<or> length msg < off + IPv4len then Inl (ErrOther ''overflow unpacking a'')
        else Inr (VIP (v4InV6Prefix @ bytes_of (take 4 (drop off msg))), off + IPv4len)
      else if tag = ''aaaa'' then
        if off = lenrd then Inr (VIP old, off)
        else if lenrd < off + IPv6len \<or> length msg < off + IPv6len then Inl (ErrOther ''overflow unpacking aaaa'')
        else Inr (VIP (bytes_of (take 16 (drop off msg))), off + IPv6len)
      else Inl (ErrOther (''bad tag unpacking slice: '' @ tag)))"

text \<open>The numbers of the bits that are set in a byte, from the most significant one, behind a base.\<close>

definition bits_set :: "nat \<Rightarrow> char \<Rightarrow> uint16 list" where
  "bits_set base c =
     map (\<lambda>k. of_nat (base + k)) (filter (\<lambda>k. odd ((of_char c :: nat) div 2 ^ (7 - k))) [0..<8])"

definition unpack_wks :: "nat \<Rightarrow> string \<Rightarrow> nat \<Rightarrow> dns_error + (uint16 list \<times> nat)" where
  "unpack_wks lenrd msg off =
     (if off < lenrd \<and> length msg < lenrd then Inl (ErrOther ''overflow unpacking wks'')
      else
        let n = lenrd - off
        in Inr (concat (map (\<lambda>j. bits_set (j * 8) (msg ! (off + j))) [0..<n]), off + n))"

function unpack_nsec :: "nat \<Rightarrow> string \<Rightarrow> nat \<Rightarrow> uint16 list \<Rightarrow> (dns_error + (uint16 list \<times> nat)) run" where
  "unpack_nsec lenrd msg off nsec =
     (if off + 2 < lenrd then
        if length msg < off + 2 then Panic IndexOutOfRange
        else
          let window = of_char (msg ! off); l = of_char (msg ! (off + 1)) in
          if l = 0 \<or> 32 < l \<or> length msg < off + 2 + l then Done (Inl (ErrOther ''overflow unpacking nsecx''))
          else unpack_nsec lenrd msg (off + 2 + l)
            (nsec @ concat (map (\<lambda>j. bits_set (window * 256 + j * 8) (msg ! (off + 2 + j))) [0..<l]))
      else Done (Inr (nsec, off)))"
  by pat_completeness auto
termination
  by (relation "measure (\<lambda>(lenrd, msg, off, nsec). lenrd - off)") auto

declare unpack_nsec.simps [simp del]

definition unpack_uint16s :: "string \<Rightarrow> uint16 list \<Rightarrow> nat \<Rightarrow> string \<Rightarrow> nat \<Rightarrow> (dns_error + (fval \<times> nat)) run" where
  "unpack_uint16s tag old lenrd msg off =
     (if tag = ''wks'' then
        try_bind (Done (unpack_wks lenrd msg off)) (\<lambda>(xs, off'). Done (Inr (VUint16s xs, off')))
      else if tag = ''nsec'' then
        if off = lenrd then Done (Inr (VUint16s old, off))
        else if lenrd < off + 2 \<or> length msg < off + 2 then Done (Inl (ErrOther ''overflow unpacking nsecx''))
        else try_bind (unpack_nsec lenrd msg off []) (\<lambda>(xs, off'). Done (Inr (VUint16s xs, off')))
      else Done (Inl (ErrOther (''bad tag unpacking slice: '' @ tag))))"

text \<open>\<open>val\<close> is the whole structure, \<open>tn\<close> the name of its type, \<open>n\<close> the name of the field.\<close>

definition unpack_value ::
  "fval \<Rightarrow> string \<Rightarrow> string \<Rightarrow> string \<Rightarrow> fval \<Rightarrow> nat \<Rightarrow> string \<Rightarrow> nat \<Rightarrow> (dns_error + (fval \<times> nat)) run" where
  "unpack_value val tn n tag v lenrd msg off =
     (case v of
        VUint8 _ \<Rightarrow>
          if off = length msg then Done (Inr (v, off))
          else Done (unpack_uint ''uint8'' 1 (\<lambda>i. VUint8 (word_of_int i)) msg off)
      | VUint16 _ \<Rightarrow>
          if off = length msg then Done (Inr (v, off))
          else Done (unpack_uint ''uint16'' 2 (\<lambda>i. VUint16 (word_of_int i)) msg off)
      | VUint32 _ \<Rightarrow>
          if off = length msg then Done (Inr (v, off))
          else Done (unpack_uint ''uint32'' 4 (\<lambda>i. VUint32 (word_of_int i)) msg off)
      | VUint64 _ \<Rightarrow>
          if tag = ''uint48''
          then Done (unpack_uint ''uint64 as uint48'' 6 (\<lambda>i. VUint64 (word_of_int i)) msg off)
          else Done (unpack_uint ''uint64'' 8 (\<lambda>i. VUint64 (word_of_int i)) msg off)
      | VString _ \<Rightarrow>
          if off = length msg then Done (Inr (v, off)) else unpack_string val tn n tag lenrd msg off
      | VStrings ss \<Rightarrow> unpack_strings tag ss lenrd msg off
      | VUint16s xs \<Rightarrow> unpack_uint16s tag xs lenrd msg off
      | VIP a \<Rightarrow> Done (unpack_ip tag a lenrd msg off)
      | VOptions es \<Rightarrow> unpack_opts tag es lenrd msg off
      | VStruct _ _ \<Rightarrow> Done (Inl (ErrOther ''bad kind unpacking'')))"

text \<open>
  The loop over the fields: \<open>ds\<close> are the fields that are already set.  Once the offset is at the end
  of the record data, the other fields keep their values.
\<close>

fun unpackStructValue :: "fval \<Rightarrow> string \<Rightarrow> nat \<Rightarrow> (dns_error + (fval \<times> nat)) run"
  and unpack_fields ::
    "string \<Rightarrow> sfield list \<Rightarrow> sfield list \<Rightarrow> nat \<Rightarrow> string \<Rightarrow> nat \<Rightarrow> (dns_error + (fval \<times> nat)) run" where
  "unpackStructValue (VStruct tn fs) msg off = unpack_fields tn [] fs 0 msg off"
| "unpackStructValue v msg off = Panic (PanicError ''reflect: call of NumField'')"
| "unpack_fields tn ds [] lenrd msg off = Done (Inr (VStruct tn ds, off))"
| "unpack_fields tn ds (Field n tag v # fs) lenrd msg off =
     (if lenrd \<noteq> 0 \<and> lenrd = off then Done (Inr (VStruct tn (ds @ Field n tag v # fs), off))
      else if length msg < off then Done (Inl (ErrOther ''bad offset unpacking''))
      else
        case v of
          VStruct _ _ \<Rightarrow>
            try_bind (unpackStructValue v msg off) (\<lambda>(w, off').
              try_bind
                (if n = ''Hdr''
                 then run_bind (field_uint (Some w) ''Rdlength'') (\<lambda>k. Done (Inr (off' + k)))
                 else Done (Inr lenrd))
                (\<lambda>lenrd. unpack_fields tn (ds @ [Field n tag w]) fs lenrd msg off'))
        | _ \<Rightarrow>
            try_bind (unpack_value (VStruct tn (ds @ Field n tag v # fs)) tn n tag v lenrd msg off)
              (\<lambda>(w, off'). unpack_fields tn (ds @ [Field n tag w]) fs lenrd msg off'))"

section \<open>Raw access\<close>

text \<open>Functions of \<^verbatim>\<open>rawmsg.go\<close>; \<^const>\<open>None\<close> is the result \<^verbatim>\<open>false\<close>.\<close>

definition raw_set :: "nat \<Rightarrow> string \<Rightarrow> uint16 \<Rightarrow> string option" where
  "raw_set pos msg i = (if length msg < pos + 2 then None else Some (overwrite msg pos (be_bytes 2 (uint i))))"

definition rawSetId :: "string \<Rightarrow> uint16 \<Rightarrow> string option" where
  "rawSetId msg i = raw_set 0 msg i"

definition rawSetQuestionLen :: "string \<Rightarrow> uint16 \<Rightarrow> string option" where
  "rawSetQuestionLen msg i = raw_set 4 msg i"

definition rawSetAnswerLen :: "string \<Rightarrow> uint16 \<Rightarrow> string option" where
  "rawSetAnswerLen msg i = raw_set 6 msg i"

definition rawSetNsLen :: "string \<Rightarrow> uint16 \<Rightarrow> string option" where
  "rawSetNsLen msg i = raw_set 8 msg i"

definition rawSetExtraLen :: "string \<Rightarrow> uint16 \<Rightarrow> string option" where
  "rawSetExtraLen msg i = raw_set 10 msg i"

text \<open>The end of the name at an offset.  A byte with one of the two upper bits set is skipped.\<close>

function raw_name_end :: "string \<Rightarrow> nat \<Rightarrow> nat option" where
  "raw_name_end msg off =
     (if length msg < off + 1 then None
      else
        let c = of_char (msg ! off); off = off + 1 in
        if c = 0 then Some off
        else if c < 64 then if length msg < off + c then None else raw_name_end msg (off + c)
        else if c < 192 then raw_name_end msg off
        else Some (off + 1))"
  by pat_completeness auto
termination
  by (relation "measure (\<lambda>(msg, off). length msg - off)") auto

declare raw_name_end.simps [simp del]

definition rawSetRdlength :: "string \<Rightarrow> nat \<Rightarrow> nat \<Rightarrow> string option" where
  "rawSetRdlength msg off e =
     (case raw_name_end msg off of
        None \<Rightarrow> None
      | Some off \<Rightarrow>
          let off = off + 2 + 2 + 4 in
          if length msg < off + 2 then None
          else
            let rdatalen = int e - int (off + 2) in
            if 0xFFFF < rdatalen then None
            else Some (overwrite msg off (be_bytes 2 (uint (word_of_int rdatalen :: uint16)))))"

section \<open>Resource records\<close>

definition PackStruct :: "fval \<Rightarrow> string \<Rightarrow> nat \<Rightarrow> (dns_error + pack_pos) run" where
  "PackStruct v msg off = packStructValue v (off, msg, Map.empty) False"

definition PackRR :: "RR \<Rightarrow> pack_pos \<Rightarrow> bool \<Rightarrow> (dns_error + pack_pos) run" where
  "PackRR rr st compress =
     try_bind (packStructValue (structValue rr) st compress) (\<lambda>(off1, msg, compression).
       case rawSetRdlength msg (fst st) off1 of
         Some msg \<Rightarrow> Done (Inr (off1, msg, compression))
       | None \<Rightarrow> Done (Inl ErrRdata))"

definition new_RR :: "uint16 \<Rightarrow> RR" where
  "new_RR t = (case map_of typeToRR t of None \<Rightarrow> RR_RFC3597 RFC3597_zero | Some rr \<Rightarrow> rr)"

definition UnpackRR :: "string \<Rightarrow> nat \<Rightarrow> (dns_error + (RR \<times> nat)) run" where
  "UnpackRR msg off0 =
     try_bind (unpackStructValue (RR_Header_struct RR_Header_zero) msg off0) (\<lambda>(h, off).
       let hdr = RR_Header_of (Some h);
           e = off + unat (Rdlength hdr);
           rr = new_RR (Rrtype hdr)
       in run_bind (unpackStructValue (structValue rr) msg off0) (\<lambda>r.
            case r of
              Inl err \<Rightarrow> Done (Inl (if length msg \<noteq> e then ErrOther ''bad rdlength'' else err))
            | Inr (v, off) \<Rightarrow>
                if off \<noteq> e then Done (Inl (ErrOther ''bad rdlength''))
                else Done (Inr (set_structValue rr v, off))))"

end
