(* ===== verification/Dns_Compression.thy ===== *)
theory Dns_Compression
  imports Dns_Wire_Properties
begin

unbundle bit_operations_syntax

text \<open>
  Compression of domain names is correct.  What a message holds is seen as a partial map from
  offsets to bytes, the part of the buffer that later steps leave alone.  \<open>name_at\<close> says that a list
  of labels is encoded at an offset, with how many pointers and up to which offset; it is monotone in
  the map.  The invariant of the compression map is that its entries for plain names are encodings of
  these names, and packing a name keeps it.
\<close>

section \<open>Parts of a buffer\<close>

definition view :: "nat set \<Rightarrow> nat \<Rightarrow> string \<Rightarrow> nat \<rightharpoonup> char" where
  "view X n m = (\<lambda>i. if i < n \<and> i < length m \<and> i \<notin> X then Some (m ! i) else None)"

definition bytes_at :: "(nat \<rightharpoonup> char) \<Rightarrow> nat \<Rightarrow> string \<Rightarrow> bool" where
  "bytes_at V off bs \<longleftrightarrow> (\<forall>i < length bs. V (off + i) = Some (bs ! i))"

lemma bytes_at_Nil [simp]: "bytes_at V off []"
  by (simp add: bytes_at_def)

lemma bytes_at_Cons [simp]: "bytes_at V off (b # bs) \<longleftrightarrow> V off = Some b \<and> bytes_at V (off + 1) bs"
  by (auto simp: bytes_at_def less_Suc_eq_0_disj nth_Cons split: nat.splits)

lemma bytes_at_append [simp]:
  "bytes_at V off (as @ bs) \<longleftrightarrow> bytes_at V off as \<and> bytes_at V (off + length as) bs"
  by (induction as arbitrary: off) (auto simp: add.assoc)

lemma bytes_at_mono: "V \<subseteq>\<^sub>m W \<Longrightarrow> bytes_at V off bs \<Longrightarrow> bytes_at W off bs"
  by (auto simp: bytes_at_def map_le_def dom_def)

lemma bytes_at_view:
  assumes "bytes_at (view {} (length m) m) off bs" "bs \<noteq> []"
  shows "off + length bs \<le> length m" "take (length bs) (drop off m) = bs"
proof -
  have all: "off + i < length m \<and> m ! (off + i) = bs ! i" if "i < length bs" for i
    using assms(1) that by (auto simp: bytes_at_def view_def split: if_splits)
  from all [of "length bs - 1"] assms(2) show le: "off + length bs \<le> length m" by (cases bs) auto
  show "take (length bs) (drop off m) = bs" using all le by (intro nth_equalityI) auto
qed

lemma view_Some: "view X n m i = Some b \<longleftrightarrow> i < n \<and> i < length m \<and> i \<notin> X \<and> m ! i = b"
  by (auto simp: view_def)

lemma nth_overwrite:
  assumes "off + length w \<le> length m" "i < length m"
  shows "overwrite m off w ! i = (if off \<le> i \<and> i < off + length w then w ! (i - off) else m ! i)"
  using assms by (auto simp: overwrite_def nth_append)

lemma view_overwrite:
  assumes "off + length w \<le> length m" "off \<le> n"
  shows "view X off m \<subseteq>\<^sub>m view X n (overwrite m off w)"
  using assms by (auto simp: map_le_def view_def nth_overwrite overwrite_length)

lemma bytes_at_overwrite:
  assumes "off + length w \<le> length m" "X \<subseteq> {..<off}" "w = w1 @ w2" "off + length w1 \<le> n"
  shows "bytes_at (view X n (overwrite m off w)) off w1"
proof -
  have "off + i \<notin> X" for i using assms(2) by auto
  then show ?thesis
    using assms by (auto simp: bytes_at_def view_def nth_overwrite overwrite_length nth_append)
qed

lemma view_mono: "n \<le> n' \<Longrightarrow> X' \<subseteq> X \<Longrightarrow> view X n m \<subseteq>\<^sub>m view X' n' m"
  by (auto simp: map_le_def view_def)

section \<open>Encoded names\<close>

inductive name_at :: "(nat \<rightharpoonup> char) \<Rightarrow> nat \<Rightarrow> string list \<Rightarrow> nat \<Rightarrow> nat \<Rightarrow> bool" for V where
  root: "V off = Some CHR 0x00 \<Longrightarrow> name_at V off [] 0 (off + 1)"
| lab: "label l \<Longrightarrow> bytes_at V off (wire_label l) \<Longrightarrow> name_at V (off + length (wire_label l)) ls d e \<Longrightarrow>
    name_at V off (l # ls) d e"
| ptr: "bytes_at V off [char_of (192 + p div 256), char_of (p mod 256)] \<Longrightarrow> p < maxCompressionOffset \<Longrightarrow> ls \<noteq> [] \<Longrightarrow>
    name_at V p ls d e \<Longrightarrow> name_at V off ls (Suc d) (off + 2)"

lemma name_at_mono: "name_at V off ls d e \<Longrightarrow> V \<subseteq>\<^sub>m W \<Longrightarrow> name_at W off ls d e"
proof (induction rule: name_at.induct)
  case (root off)
  then have "W off = Some CHR 0x00" by (auto simp: map_le_def dom_def)
  then show ?case by (rule name_at.root)
next
  case (lab l off ls d e)
  then show ?case by (auto intro: name_at.lab bytes_at_mono)
next
  case (ptr off p ls d e)
  then show ?case by (metis name_at.ptr bytes_at_mono)
qed

lemma name_at_labels:
  "bytes_at V off (wire_labels ls1) \<Longrightarrow> \<forall>l \<in> set ls1. label l \<Longrightarrow>
    name_at V (off + length (wire_labels ls1)) ls2 d e \<Longrightarrow> name_at V off (ls1 @ ls2) d e"
  by (induction ls1 arbitrary: off)
     (auto simp: wire_labels_def add.assoc intro!: name_at.lab)

text \<open>Unpacking follows the encoding, as long as it meets at most ten pointers.\<close>

lemma unpack_name_at:
  assumes "name_at (view {} (length msg) msg) off ls d e" "ptr + d \<le> 10" "s \<noteq> [] \<or> ls \<noteq> []"
  shows "unpack_name msg off s off1 ptr = (s @ text_labels ls, if ptr = 0 then e else off1, None)"
  using assms
proof (induction arbitrary: s off1 ptr rule: name_at.induct)
  case (root off)
  then have "off < length msg" "msg ! off = CHR 0x00" by (simp_all add: view_Some)
  then show ?case using root by (subst unpack_name.simps) (simp add: text_labels_def)
next
  case (lab l off ls d e)
  have l: "l \<noteq> []" "length l < 64" using lab.hyps(1) by (simp_all add: label_def)
  note w = bytes_at_view [OF lab.hyps(2)]
  have b: "off < length msg" "msg ! off = char_of (length l)"
    using lab.hyps(2) by (auto simp: wire_label_def view_Some)
  have "take (length l) (drop (off + 1) msg) = l" "off + 1 + length l \<le> length msg"
    using w l(1) by (simp_all add: wire_label_def drop_Suc drop_tl take_tl)
  moreover have "unpack_name msg (off + 1 + length l) (s @ text_label l @ ''.'') off1 ptr =
      ((s @ text_label l @ ''.'') @ text_labels ls, if ptr = 0 then e else off1, None)"
    using lab.IH [of ptr "s @ text_label l @ ''.''" off1] lab.prems by (simp add: wire_label_def add.assoc)
  ultimately show ?case
    using b l by (subst unpack_name.simps) (simp add: Let_def text_label_def text_labels_def)
next
  case (ptr off p ls d e)
  have p: "p div 256 < 64" using ptr.hyps(2) by (simp add: maxCompressionOffset_def div_less_iff_less_mult)
  have b: "off + 1 < length msg" "msg ! off = char_of (192 + p div 256)" "msg ! (off + 1) = char_of (p mod 256)"
    using ptr.hyps(1) by (auto simp: view_Some)
  have "unpack_name msg p s (if ptr = 0 then off + 2 else off1) (ptr + 1) =
      (s @ text_labels ls, if ptr = 0 then off + 2 else off1, None)"
    using ptr.IH [of "ptr + 1" s] ptr.prems by simp
  then show ?case
    using b p ptr.prems by (subst unpack_name.simps) (cases "ptr = 0"; simp add: Let_def)
qed

section \<open>The compression map\<close>

text \<open>Names that are the same in text and on the wire.\<close>

definition plain_labels :: "string list \<Rightarrow> bool" where
  "plain_labels ls \<longleftrightarrow> (\<forall>l \<in> set ls. label l \<and> text_label l = l)"

definition cinv :: "(nat \<rightharpoonup> char) \<Rightarrow> (string \<rightharpoonup> nat) \<Rightarrow> bool" where
  "cinv V c \<longleftrightarrow>
     (\<forall>ls p. ls \<noteq> [] \<longrightarrow> plain_labels ls \<longrightarrow> c (text_labels ls) = Some p \<longrightarrow>
        p < maxCompressionOffset \<and> (\<exists>d e. name_at V p ls d e \<and> d < length ls))"

lemma cinv_empty [simp]: "cinv V Map.empty"
  by (simp add: cinv_def)

lemma cinv_mono: "cinv V c \<Longrightarrow> V \<subseteq>\<^sub>m W \<Longrightarrow> cinv W c"
  unfolding cinv_def by (meson name_at_mono)

lemma text_label_bytes: "text_label l = l \<longleftrightarrow> (\<forall>b \<in> set l. unpack_byte b = [b])"
proof (induction l)
  case (Cons b l)
  have "length (text_label l) \<ge> length l" for l
    by (induction l) (auto simp: text_label_def unpack_byte_def ddd_def Let_def)
  then have "length (unpack_byte b) = 1 \<longrightarrow> unpack_byte b @ text_label l = b # l \<longrightarrow> unpack_byte b = [b]"
    and "unpack_byte b @ text_label l = b # l \<longrightarrow> length (unpack_byte b) = 1"
    by (auto simp: length_Suc_conv unpack_byte_def ddd_def Let_def split: if_splits dest!: arg_cong [of _ _ length])
       (metis Suc_n_not_le_n le_trans nat_le_linear)+
  then show ?case using Cons by (auto simp: text_label_def)
qed (simp add: text_label_def)

lemma plain_bytes: "text_label l = l \<Longrightarrow> b \<in> set l \<Longrightarrow> b \<noteq> CHR ''.'' \<and> b \<noteq> CHR 0x5C"
  unfolding text_label_bytes by (force simp: unpack_byte_def)

lemma text_labels_inj:
  "plain_labels ls \<Longrightarrow> plain_labels ls' \<Longrightarrow> text_labels ls = text_labels ls' \<Longrightarrow> ls = ls'"
proof (induction ls arbitrary: ls')
  case Nil
  then show ?case by (cases ls') (simp_all add: text_labels_def)
next
  case (Cons l ls)
  then obtain l' ls'' where ls': "ls' = l' # ls''" by (cases ls') (auto simp: text_labels_def)
  have "l = takeWhile (\<lambda>c. c \<noteq> CHR ''.'') (text_labels (l # ls))" "l' = takeWhile (\<lambda>c. c \<noteq> CHR ''.'') (text_labels ls')"
    using Cons.prems(1,2) ls' plain_bytes by (auto simp: plain_labels_def text_labels_def)
  then have "l = l'" using Cons.prems(3) by simp
  then show ?case using Cons ls' by (simp add: plain_labels_def text_labels_def)
qed

text \<open>The map after the suffixes of a name that start in \<open>ls1\<close> have been entered.\<close>

fun enter :: "(string \<rightharpoonup> nat) \<Rightarrow> nat \<Rightarrow> string list \<Rightarrow> string list \<Rightarrow> (string \<rightharpoonup> nat)" where
  "enter c off [] ls2 = c"
| "enter c off (l # ls1) ls2 =
     enter (if off < maxCompressionOffset then c(text_labels (l # ls1 @ ls2) \<mapsto> off) else c)
       (off + length (wire_label l)) ls1 ls2"

lemma cinv_enter:
  assumes "cinv V c" "plain_labels (ls1 @ ls2)" "bytes_at V off (wire_labels ls1)"
    and "name_at V (off + length (wire_labels ls1)) ls2 d e" "d \<le> length ls2"
  shows "cinv V (enter c off ls1 ls2)"
  using assms
proof (induction ls1 arbitrary: c off)
  case (Cons l ls1)
  have at: "name_at V off (l # ls1 @ ls2) d e"
    using name_at_labels [OF Cons.prems(3) _ Cons.prems(4)] Cons.prems(2) by (simp add: plain_labels_def)
  have "cinv V (c(text_labels (l # ls1 @ ls2) \<mapsto> off))" if "off < maxCompressionOffset"
    unfolding cinv_def
  proof (intro allI impI)
    fix ls p assume ls: "ls \<noteq> []" "plain_labels ls" "(c(text_labels (l # ls1 @ ls2) \<mapsto> off)) (text_labels ls) = Some p"
    show "p < maxCompressionOffset \<and> (\<exists>d e. name_at V p ls d e \<and> d < length ls)"
    proof (cases "text_labels ls = text_labels (l # ls1 @ ls2)")
      case True
      then have "ls = l # ls1 @ ls2" using text_labels_inj ls(2) Cons.prems(2) by (metis append_Cons)
      moreover have "d < length (l # ls1 @ ls2)" using Cons.prems(5) by simp
      ultimately show ?thesis using at ls(3) that by (metis True fun_upd_same option.inject)
    next
      case False
      then show ?thesis using ls Cons.prems(1) by (simp add: cinv_def)
    qed
  qed
  then show ?case
    using Cons.IH Cons.prems by (simp add: wire_labels_def plain_labels_def add.assoc)
qed simp

section \<open>Packing with compression\<close>

lemma pack_loop_plain_bytes:
  assumes "pk_bs st = D @ l @ R" "\<forall>b \<in> set l. b \<noteq> CHR ''.'' \<and> b \<noteq> CHR 0x5C"
    and "length D + length l \<le> pk_ls st" "\<not> pk_escaped_dot st"
  shows "pack_loop c n (length D) st = pack_loop c n (length D + length l) st"
  using assms
proof (induction l arbitrary: D)
  case (Cons b l)
  have "st\<lparr>pk_escaped_dot := False\<rparr> = st" using Cons.prems(4) by (cases st) simp
  moreover have "pk_bs st ! length D = b" using Cons.prems(1) by simp
  ultimately have "pack_loop c n (length D) st = pack_loop c n (length (D @ [b])) st"
    using Cons.prems(2,3) by (subst pack_loop.simps) simp
  then show ?case using Cons.IH [of "D @ [b]"] Cons.prems by simp
qed simp

lemma emit_label_compress:
  assumes "pk_bs st = D @ l @ CHR ''.'' # R" "pk_begin st = length D" "label l" "last l \<noteq> CHR ''.''"
    and "pk_msg st = Some m" "pk_off st + 1 + length l \<le> length m" "pk_fresh st" "pk_ro_bs st = pk_bs st"
  shows "emit_label True (length m) (length D + length l) st =
    (let st1 = st\<lparr>pk_off := pk_off st + length (wire_label l), pk_msg := Some (overwrite m (pk_off st) (wire_label l))\<rparr>;
         key = l @ CHR ''.'' # R;
         nxt = (\<lambda>st. st\<lparr>pk_labels := pk_labels st + 1, pk_begin := length D + length l + 1\<rparr>)
     in case pk_compression st key of
          None \<Rightarrow>
            Inr (nxt (if pk_off st < maxCompressionOffset
                      then st1\<lparr>pk_compression := (pk_compression st)(key \<mapsto> pk_off st)\<rparr> else st1), False)
        | Some p \<Rightarrow> Inr (st1\<lparr>pk_ptr := Some (p, pk_off st)\<rparr>, True))"
proof -
  have l: "l \<noteq> []" "length l < 64" using assms(3) by (simp_all add: label_def)
  then have "pk_bs st ! (length D + length l - 1) = last l"
    using assms(1) by (cases l rule: rev_cases) (simp_all add: nth_append)
  moreover have "put_bytes (length m) l (pk_off st + 1) (Some (m[pk_off st := char_of (length l)])) =
      Some (pk_off st + 1 + length l, Some (overwrite m (pk_off st) (wire_label l)))"
    using put_bytes_overwrite [of "pk_off st + 1" l "m[pk_off st := char_of (length l)]"] assms(6)
      overwrite_Cons [of "pk_off st" m "char_of (length l)" l] by (simp add: wire_label_def)
  moreover have "l @ CHR ''.'' # R \<noteq> ''.''" using l(1) by (cases l) auto
  ultimately show ?thesis
    using assms l by (auto simp: emit_label_def Let_def wire_label_def split: option.splits)
qed

text \<open>The loop stops at the end of the name or at the first suffix that the map has.\<close>

definition stopped :: "pack_state \<Rightarrow> string \<Rightarrow> string list \<Rightarrow> string list \<Rightarrow> pack_state \<Rightarrow> bool" where
  "stopped st m ls1 ls2 st' \<longleftrightarrow>
     pk_bs st' = pk_bs st \<and> pk_labels st' = pk_labels st + length ls1 \<and>
     pk_compression st' = enter (pk_compression st) (pk_off st) ls1 ls2 \<and>
     (if ls2 = [] then
        pk_ptr st' = None \<and> pk_off st' = pk_off st + length (wire_labels ls1) \<and>
        pk_msg st' = Some (overwrite m (pk_off st) (wire_labels ls1))
      else
        (\<exists>p. pk_compression st (text_labels ls2) = Some p \<and>
           pk_ptr st' = Some (p, pk_off st + length (wire_labels ls1))) \<and>
        pk_msg st' = Some (overwrite m (pk_off st) (wire_labels ls1 @ wire_label (hd ls2))))"

lemma pack_labels_compress:
  assumes "plain_labels ls" "pk_bs st = D @ text_labels ls" "pk_ls st = length (pk_bs st)" "pk_begin st = length D"
    and "pk_msg st = Some m" "pk_fresh st" "pk_ro_bs st = pk_bs st" "\<not> pk_escaped_dot st" "pk_ptr st = None"
    and "pk_off st + length (wire_labels ls) < length m"
  shows "\<exists>ls1 ls2 st'. ls = ls1 @ ls2 \<and> pack_loop True (length m) (length D) st = Inr st' \<and> stopped st m ls1 ls2 st'"
  using assms
proof (induction ls arbitrary: D st m)
  case Nil
  then have "pack_loop True (length m) (length D) st = Inr st"
    by (subst pack_loop.simps) (simp add: text_labels_def)
  then have "stopped st m [] [] st" using Nil.prems by (simp add: stopped_def wire_labels_def overwrite_Nil)
  with \<open>pack_loop _ _ _ _ = _\<close> show ?case by blast
next
  case (Cons l ls)
  have l: "label l" "text_label l = l" "l \<noteq> []" "plain_labels ls"
    using Cons.prems(1) by (auto simp: plain_labels_def label_def)
  have nodot: "\<forall>b \<in> set l. b \<noteq> CHR ''.'' \<and> b \<noteq> CHR 0x5C" using plain_bytes [OF l(2)] by blast
  have bs: "pk_bs st = D @ l @ CHR ''.'' # text_labels ls" using Cons.prems(2) l(2) by (simp add: text_labels_def)
  have key: "l @ CHR ''.'' # text_labels ls = text_labels (l # ls)" using l(2) by (simp add: text_labels_def)
  have room: "pk_off st + length (wire_label l) + length (wire_labels ls) < length m"
    using Cons.prems(10) by (simp add: wire_labels_def)
  have i: "pk_bs st ! (length D + length l) = CHR ''.''" "length D + length l < pk_ls st"
    using bs Cons.prems(3) by (simp_all add: nth_append)
  let ?m = "overwrite m (pk_off st) (wire_label l)"
  let ?st1 = "st\<lparr>pk_off := pk_off st + length (wire_label l), pk_msg := Some ?m\<rparr>"
  have len: "length ?m = length m" using room by (simp add: overwrite_length)
  note emit = emit_label_compress [OF bs Cons.prems(4) l(1) _ Cons.prems(5) _ Cons.prems(6,7)]
  have emit: "emit_label True (length m) (length D + length l) st =
    (case pk_compression st (text_labels (l # ls)) of
       None \<Rightarrow>
         Inr ((if pk_off st < maxCompressionOffset
               then ?st1\<lparr>pk_compression := (pk_compression st)(text_labels (l # ls) \<mapsto> pk_off st)\<rparr> else ?st1)
              \<lparr>pk_labels := pk_labels st + 1, pk_begin := length D + length l + 1\<rparr>, False)
     | Some p \<Rightarrow> Inr (?st1\<lparr>pk_ptr := Some (p, pk_off st)\<rparr>, True))"
    using emit nodot l(3) room key by (simp add: Let_def wire_label_def split: option.splits)
  have start: "pack_loop True (length m) (length D) st = pack_loop True (length m) (length D + length l) st"
    using pack_loop_plain_bytes [OF bs nodot _ Cons.prems(8)] i(2) by simp
  show ?case
  proof (cases "pk_compression st (text_labels (l # ls))")
    case (Some p)
    let ?st2 = "?st1\<lparr>pk_ptr := Some (p, pk_off st)\<rparr>"
    have "pack_loop True (length m) (length D) st = Inr ?st2"
      using start emit Some i by (subst (asm) (2) pack_loop.simps) simp
    moreover have "stopped st m [] (l # ls) ?st2" using Some by (simp add: stopped_def wire_labels_def)
    ultimately show ?thesis by (intro exI [of _ "[]"] exI [of _ "l # ls"] exI [of _ ?st2]) simp
  next
    case None
    let ?c = "if pk_off st < maxCompressionOffset
      then (pk_compression st)(text_labels (l # ls) \<mapsto> pk_off st) else pk_compression st"
    let ?st2 = "?st1\<lparr>pk_compression := ?c, pk_labels := pk_labels st + 1, pk_begin := length (D @ l @ ''.'')\<rparr>"
    have "?st2\<lparr>pk_escaped_dot := False\<rparr> = ?st2" using Cons.prems(8) by (cases st) simp
    then have step: "pack_loop True (length m) (length D) st = pack_loop True (length ?m) (length (D @ l @ ''.'')) ?st2"
      using start emit None i len by (subst (asm) (2) pack_loop.simps) (auto split: if_splits)
    have bs2: "pk_bs ?st2 = (D @ l @ ''.'') @ text_labels ls" using bs by simp
    have "\<exists>ls1 ls2 st'. ls = ls1 @ ls2 \<and>
        pack_loop True (length ?m) (length (D @ l @ ''.'')) ?st2 = Inr st' \<and> stopped ?st2 ?m ls1 ls2 st'"
      by (rule Cons.IH [OF l(4) bs2]) (use Cons.prems bs room len in simp_all)
    then obtain ls1 ls2 st' where ls: "ls = ls1 @ ls2"
      and run: "pack_loop True (length ?m) (length (D @ l @ ''.'')) ?st2 = Inr st'" and st': "stopped ?st2 ?m ls1 ls2 st'"
      by blast
    have "length (text_labels ls2) < length (text_labels (l # ls))" using ls by (simp add: text_labels_def)
    then have other: "text_labels ls2 \<noteq> text_labels (l # ls)" by (metis less_irrefl)
    have room2: "pk_off st + length (wire_label l) + length w \<le> length m"
      if "w = wire_labels ls1 \<or> ls2 \<noteq> [] \<and> w = wire_labels ls1 @ wire_label (hd ls2)" for w
      using room ls that by (cases ls2) (auto simp: wire_labels_def)
    have "stopped st m (l # ls1) ls2 st'"
      using st' other ls room2 overwrite_append [of "pk_off st" "wire_label l" _ m]
      by (auto simp: stopped_def wire_labels_def add.assoc split: if_splits)
    then show ?thesis using step run ls by (intro exI [of _ "l # ls1"] exI [of _ ls2] exI [of _ st']) simp
  qed
qed

text \<open>The bytes of a pointer.\<close>

lemma packUint16_pointer:
  assumes "p < maxCompressionOffset"
  shows "packUint16 (of_nat p XOR 0xC000) = (char_of (192 + p div 256), char_of (p mod 256))"
proof -
  have p: "p < 2 ^ 14" using assms by (simp add: maxCompressionOffset_def)
  then have low: "\<not> bit p n" if "14 \<le> n" for n
    using that by (metis bit_take_bit_iff take_bit_nat_eq_self linorder_not_le)
  have high: "bit (0xC000 :: uint16) n \<longleftrightarrow> n = 14 \<or> n = 15" for n
    by (cases "n < 16") (auto simp: bit_simps less_Suc_eq numeral_eq_Suc)
  have "(of_nat p :: uint16) AND 0xC000 = 0"
  proof (rule bit_word_eqI)
    fix n assume "n < LENGTH(16)"
    have "bit (of_nat p :: uint16) n \<longrightarrow> bit p n" by (simp add: bit_simps)
    then show "bit ((of_nat p :: uint16) AND 0xC000) n = bit (0 :: uint16) n"
      using low [of n] high [of n] by (auto simp: bit_and_iff)
  qed
  then have "(of_nat p :: uint16) XOR 0xC000 = of_nat (p + 0xC000)"
    by (simp add: disjunctive_add_eq_xor [symmetric])
  moreover have "unat (of_nat (p + 0xC000) :: uint16) = p + 0xC000" using p by (simp only: unat_of_nat) simp
  moreover have "(p + 0xC000) div 256 = 192 + p div 256" "(p + 0xC000) mod 256 = p mod 256"
    using div_mult_self1 [of 256 p 192] mod_mult_self1 [of p 192 256] by simp_all
  ultimately show ?thesis by (simp only: packUint16_def)
qed

lemma packDomainName_compress:
  assumes "plain_labels ls" "ls \<noteq> []" "off + length (wire_labels ls) < length m"
    and "\<forall>ls' p. ls' \<noteq> [] \<longrightarrow> plain_labels ls' \<longrightarrow> c (text_labels ls') = Some p \<longrightarrow> p < maxCompressionOffset"
  shows "\<exists>ls1 ls2 tl r. ls = ls1 @ ls2 \<and>
    packDomainName (text_labels ls) (Some m) off c True = Done
      ((off + length (wire_labels ls1) + length tl, length ls1, None),
       Some (overwrite m off (wire_labels ls1 @ tl @ r)), enter c off ls1 ls2) \<and>
    length (wire_labels ls1 @ tl @ r) \<le> length (wire_labels ls) + 1 \<and>
    (if ls2 = [] then tl = [CHR 0x00]
     else \<exists>p. c (text_labels ls2) = Some p \<and> tl = [char_of (192 + p div 256), char_of (p mod 256)])"
proof -
  let ?st = "\<lparr>pk_bs = text_labels ls, pk_ls = length (text_labels ls), pk_begin = 0, pk_off = off,
    pk_msg = Some m, pk_labels = 0, pk_ro_bs = text_labels ls, pk_fresh = True, pk_escaped_dot = False,
    pk_compression = c, pk_ptr = None\<rparr>"
  obtain ls1 ls2 st' where ls: "ls = ls1 @ ls2" and run: "pack_loop True (length m) 0 ?st = Inr st'"
    and st': "stopped ?st m ls1 ls2 st'"
    using pack_labels_compress [of ls ?st "[]" m] assms by auto
  have notroot: "pk_bs st' \<noteq> ''.''"
  proof -
    obtain b l ls'' where "ls = (b # l) # ls''" "text_label (b # l) = b # l"
      using assms(1,2) by (cases ls) (auto simp: plain_labels_def label_def neq_Nil_conv)
    then show ?thesis using st' by (simp add: stopped_def text_labels_def)
  qed
  note ends = text_labels_ends [OF assms(2)]
  show ?thesis
  proof (cases "ls2 = []")
    case True
    have "(overwrite m off (wire_labels ls1))[off + length (wire_labels ls1) := CHR 0x00] =
        overwrite m off (wire_labels ls1 @ [CHR 0x00])"
      using assms(3) ls True by (intro overwrite_snoc) simp
    then show ?thesis
      using st' run ls True notroot ends assms(3)
      by (intro exI [of _ ls1] exI [of _ "[]"] exI [of _ "[CHR 0x00]"] exI [of _ "[]"])
         (simp add: packDomainName_def stopped_def overwrite_length)
  next
    case False
    obtain p where p: "c (text_labels ls2) = Some p" "pk_ptr st' = Some (p, off + length (wire_labels ls1))"
      and m': "pk_msg st' = Some (overwrite m off (wire_labels ls1 @ wire_label (hd ls2)))"
      using st' False by (auto simp: stopped_def)
    have "plain_labels ls2" using assms(1) ls by (simp add: plain_labels_def)
    then have small: "p < maxCompressionOffset" using assms(4) False p(1) by blast
    obtain b l ls3 where ls2: "ls2 = (b # l) # ls3"
      using \<open>plain_labels ls2\<close> False by (cases ls2) (auto simp: plain_labels_def label_def neq_Nil_conv)
    let ?w = "wire_labels ls1" and ?b1 = "char_of (192 + p div 256) :: char" and ?b2 = "char_of (p mod 256) :: char"
    have room: "off + length ?w + 2 + length l \<le> length m" "length ?w + 2 + length l \<le> length (wire_labels ls) + 1"
      using assms(3) ls ls2 by (simp_all add: wire_labels_def wire_label_def)
    have upd: "(overwrite m off (?w @ wire_label (hd ls2)))[off + length ?w := ?b1, off + length ?w + 1 := ?b2] =
        overwrite m off (?w @ [?b1, ?b2] @ l)"
      using room(1) ls2 by (simp add: overwrite_def wire_label_def list_update_append)
    have "packDomainName (text_labels ls) (Some m) off c True = Done
      ((off + length ?w + 2, length ls1, None), Some (overwrite m off (?w @ [?b1, ?b2] @ l)), enter c off ls1 ls2)"
      using st' run notroot ends p m' upd room(1) ls2 packUint16_pointer [OF small]
      by (simp add: packDomainName_def stopped_def overwrite_length wire_label_def)
    then show ?thesis
      using ls False p(1) room(2)
      by (intro exI [of _ ls1] exI [of _ ls2] exI [of _ "[?b1, ?b2]"] exI [of _ l]) simp
  qed
qed

section \<open>Packing a name\<close>

definition name_text :: "string list \<Rightarrow> string" where
  "name_text ls = (if ls = [] then ''.'' else text_labels ls)"

definition name_size :: "string list \<Rightarrow> nat" where
  "name_size ls = length (wire_labels ls) + 1"

text \<open>
  With compression, the theorems are about plain names of at most ten labels: an encoding has no more
  pointers than labels.
\<close>

definition name_ok :: "bool \<Rightarrow> string list \<Rightarrow> bool" where
  "name_ok compress ls \<longleftrightarrow> (\<forall>l \<in> set ls. label l) \<and> (compress \<longrightarrow> plain_labels ls \<and> length ls \<le> 10)"

text \<open>A step of packing: it writes behind the offset only and keeps the invariant of the map.\<close>

definition packed :: "nat set \<Rightarrow> nat \<Rightarrow> string \<Rightarrow> nat \<Rightarrow> nat \<Rightarrow> string \<Rightarrow> (string \<rightharpoonup> nat) \<Rightarrow> bool" where
  "packed X off m n off' m' c' \<longleftrightarrow>
     length m' = length m \<and> off \<le> off' \<and> off' \<le> off + n \<and>
     view X off m \<subseteq>\<^sub>m view X off' m' \<and> cinv (view X off' m') c'"

lemma pack_root:
  "off < length m \<Longrightarrow> packDomainName ''.'' (Some m) off c compress =
    Done ((off + 1, 1, None), Some (overwrite m off [CHR 0x00]), c)"
  by (simp add: packDomainName_def pack_loop.simps emit_label_def overwrite_def upd_conv_take_nth_drop char_of_def)

lemma packed_overwrite:
  assumes "off + length w \<le> length m" "off \<le> off'" "off' \<le> off + n" "cinv (view X off' (overwrite m off w)) c"
  shows "packed X off m n off' (overwrite m off w) c"
  using assms by (simp add: packed_def overwrite_length view_overwrite)

lemma pack_name:
  assumes "name_ok compress ls" "off + name_size ls \<le> length m" "X \<subseteq> {..<off}" "cinv (view X off m) c"
  shows "\<exists>off' m' c' k d. packDomainName (name_text ls) (Some m) off c compress = Done ((off', k, None), Some m', c') \<and>
    packed X off m (name_size ls) off' m' c' \<and> off < off' \<and>
    name_at (view X off' m') off ls d off' \<and> d \<le> 10"
proof (cases "ls = [] \<or> \<not> compress")
  case True
  let ?w = "wire_labels ls @ [CHR 0x00]"
  let ?m = "overwrite m off ?w"
  have room: "off + length ?w \<le> length m" using assms(2) by (simp add: name_size_def)
  have "packDomainName (name_text ls) (Some m) off c compress =
      Done ((off + length ?w, if ls = [] then 1 else length ls, None), Some ?m, c)"
    using True assms(1) room packDomainName_labels [of ls off m c] pack_root [of off m c compress]
    by (auto simp: name_text_def name_ok_def wire_labels_def)
  moreover have grow: "view X off m \<subseteq>\<^sub>m view X (off + length ?w) ?m" using room by (intro view_overwrite) simp_all
  moreover have "bytes_at (view X (off + length ?w) ?m) off ?w"
    using room assms(3) by (intro bytes_at_overwrite [where ?w2.0 = "[]"]) simp_all
  then have "name_at (view X (off + length ?w) ?m) off (ls @ []) 0 (off + length (wire_labels ls) + 1)"
    using assms(1) by (intro name_at_labels name_at.root) (auto simp: name_ok_def)
  ultimately show ?thesis
    using packed_overwrite [OF room, of "off + length ?w" "name_size ls" X c] cinv_mono [OF assms(4) grow]
    by (intro exI [of _ "off + length ?w"] exI [of _ ?m] exI [of _ c] exI [of _ "if ls = [] then 1 else length ls"]
        exI [of _ "0 :: nat"]) (simp add: name_size_def)
next
  case False
  then have ls: "plain_labels ls" "ls \<noteq> []" "length ls \<le> 10" compress using assms(1) by (auto simp: name_ok_def)
  obtain ls1 ls2 tl r where split: "ls = ls1 @ ls2"
    and run: "packDomainName (text_labels ls) (Some m) off c True = Done
      ((off + length (wire_labels ls1) + length tl, length ls1, None),
       Some (overwrite m off (wire_labels ls1 @ tl @ r)), enter c off ls1 ls2)"
    and len: "length (wire_labels ls1 @ tl @ r) \<le> length (wire_labels ls) + 1"
    and tl: "if ls2 = [] then tl = [CHR 0x00]
      else \<exists>p. c (text_labels ls2) = Some p \<and> tl = [char_of (192 + p div 256), char_of (p mod 256)]"
    using packDomainName_compress [OF ls(1,2), of off m c] assms(2,4) by (auto simp: cinv_def name_size_def)
  let ?w = "wire_labels ls1 @ tl @ r" and ?off = "off + length (wire_labels ls1) + length tl"
  let ?m = "overwrite m off ?w" and ?q = "off + length (wire_labels ls1)"
  let ?V = "view X ?off ?m"
  have room: "off + length ?w \<le> length m" using len assms(2) by (simp add: name_size_def)
  have grow: "view X off m \<subseteq>\<^sub>m ?V" using room by (intro view_overwrite) simp_all
  have "bytes_at ?V off (wire_labels ls1 @ tl)"
    using room assms(3) by (intro bytes_at_overwrite [where ?w2.0 = r]) simp_all
  then have at: "bytes_at ?V off (wire_labels ls1)" "bytes_at ?V ?q tl" by simp_all
  obtain d where d: "name_at ?V ?q ls2 d ?off" "d \<le> length ls2"
  proof (cases "ls2 = []")
    case True
    then show ?thesis using that [of 0] at(2) tl name_at.root [of ?V ?q] by simp
  next
    case False
    then obtain p where p: "c (text_labels ls2) = Some p" "tl = [char_of (192 + p div 256), char_of (p mod 256)]"
      using tl by auto
    have "plain_labels ls2" using ls(1) split by (simp add: plain_labels_def)
    then obtain d e where "p < maxCompressionOffset" "name_at (view X off m) p ls2 d e" "d < length ls2"
      using assms(4) p(1) False unfolding cinv_def by meson
    then show ?thesis
      using that [of "Suc d"] name_at.ptr [of ?V ?q p ls2 d e] at(2) p(2) False name_at_mono [OF _ grow] by auto
  qed
  have "name_at ?V off ls d ?off"
    using name_at_labels [OF at(1) _ d(1)] ls(1) split by (simp add: plain_labels_def)
  moreover have "cinv ?V (enter c off ls1 ls2)"
    using cinv_enter [OF cinv_mono [OF assms(4) grow] _ at(1) d] ls(1) split by simp
  then have "packed X off m (name_size ls) ?off ?m (enter c off ls1 ls2)"
    using packed_overwrite [OF room, of ?off "name_size ls" X] len by (simp add: name_size_def)
  moreover have "tl \<noteq> []" using tl by (auto split: if_splits)
  then have "off < ?off" by simp
  moreover have "packDomainName (name_text ls) (Some m) off c compress =
      Done ((?off, length ls1, None), Some ?m, enter c off ls1 ls2)"
    using run ls(2,4) by (simp add: name_text_def)
  moreover have "d \<le> 10" using d(2) ls(3) split by simp
  ultimately show ?thesis by blast
qed

text \<open>Unpacking a name where it is encoded.\<close>

lemma UnpackDomainName_at:
  assumes "name_at V off ls d e" "d \<le> 10" "V \<subseteq>\<^sub>m view {} (length msg) msg"
  shows "UnpackDomainName msg off = (name_text ls, e, None)"
proof (cases "ls = []")
  case True
  have "name_at (view {} (length msg) msg) off ls d e" using assms name_at_mono by blast
  then show ?thesis
    using True by (cases rule: name_at.cases)
       (auto simp: UnpackDomainName_def unpack_name.simps view_Some name_text_def)
next
  case False
  then show ?thesis
    using unpack_name_at [OF name_at_mono [OF assms(1,3)], of 0 "[]" 0] assms(2)
    by (simp add: UnpackDomainName_def name_text_def)
qed

end
