(* ===== verification/Dns_Struct_Properties.thy ===== *)
theory Dns_Struct_Properties
  imports Dns_Struct Dns_Compression
begin

text \<open>
  Packing of structures and resource records is correct: for fields with integers, names, character
  strings and addresses, packing succeeds where there is room, and unpacking any message that holds
  the written bytes gives the fields back, with and without compression.
\<close>

section \<open>Single fields\<close>

text \<open>Values that survive, the value that is read back, and a bound on the bytes that are written.\<close>

definition leaf_ok :: "bool \<Rightarrow> string \<Rightarrow> fval \<Rightarrow> bool" where
  "leaf_ok compress tag v \<longleftrightarrow>
     (case v of
        VUint8 _ \<Rightarrow> True
      | VUint16 _ \<Rightarrow> True
      | VUint32 _ \<Rightarrow> True
      | VUint64 n \<Rightarrow> tag = ''uint48'' \<longrightarrow> uint n < 2 ^ 48
      | VString s \<Rightarrow>
          tag = ''cdomain-name'' \<and> (\<exists>ls. name_ok compress ls \<and> s = name_text ls) \<or>
          tag = ''domain-name'' \<and> (\<exists>ls. name_ok False ls \<and> s = name_text ls) \<or>
          (tag = ''txt'' \<or> tag = []) \<and> (\<exists>bs. length bs \<le> 255 \<and> s = txt_text bs)
      | VIP a \<Rightarrow> tag = ''a'' \<and> (length a = 4 \<or> length a = 16) \<or> tag = ''aaaa'' \<and> length a = 16
      | _ \<Rightarrow> False)"

definition wire_norm :: "string \<Rightarrow> fval \<Rightarrow> fval" where
  "wire_norm tag v =
     (case v of
        VIP a \<Rightarrow> if tag = ''a'' then VIP (v4InV6Prefix @ drop (length a - 4) a) else v
      | _ \<Rightarrow> v)"

definition leaf_size :: "string \<Rightarrow> fval \<Rightarrow> nat" where
  "leaf_size tag v =
     (case v of
        VUint8 _ \<Rightarrow> 1
      | VUint16 _ \<Rightarrow> 2
      | VUint32 _ \<Rightarrow> 4
      | VUint64 _ \<Rightarrow> if tag = ''uint48'' then 6 else 8
      | VString s \<Rightarrow> length s + 1
      | VIP _ \<Rightarrow> if tag = ''a'' then 4 else 16
      | _ \<Rightarrow> 0)"

fun same_kind :: "fval \<Rightarrow> fval \<Rightarrow> bool" where
  "same_kind (VUint8 _) (VUint8 _) = True"
| "same_kind (VUint16 _) (VUint16 _) = True"
| "same_kind (VUint32 _) (VUint32 _) = True"
| "same_kind (VUint64 _) (VUint64 _) = True"
| "same_kind (VString _) (VString _) = True"
| "same_kind (VStrings _) (VStrings _) = True"
| "same_kind (VUint16s _) (VUint16s _) = True"
| "same_kind (VIP _) (VIP _) = True"
| "same_kind (VOptions _) (VOptions _) = True"
| "same_kind _ _ = False"

text \<open>Any message that holds the bytes of \<open>V\<close> yields the value at this place.\<close>

definition reads_back :: "(nat \<rightharpoonup> char) \<Rightarrow> string \<Rightarrow> fval \<Rightarrow> nat \<Rightarrow> nat \<Rightarrow> bool" where
  "reads_back V tag v off off' \<longleftrightarrow>
     (\<forall>msg val tn n lenrd v0.
        V \<subseteq>\<^sub>m view {} (length msg) msg \<longrightarrow> same_kind v v0 \<longrightarrow> (\<forall>a. v = VIP a \<longrightarrow> off' \<le> lenrd) \<longrightarrow>
        unpack_value val tn n tag v0 lenrd msg off = Done (Inr (wire_norm tag v, off')))"

lemma reads_back_mono: "reads_back V tag v off off' \<Longrightarrow> V \<subseteq>\<^sub>m W \<Longrightarrow> reads_back W tag v off off'"
  unfolding reads_back_def by (meson map_le_trans)

lemma name_size_text: "name_size ls \<le> length (name_text ls) + 1"
proof -
  have "length l \<le> length (text_label l)" for l
    by (induction l) (auto simp: text_label_def unpack_byte_def ddd_def Let_def)
  then have "length (wire_labels ls) \<le> length (text_labels ls)"
    by (induction ls) (auto simp: wire_labels_def text_labels_def wire_label_def intro: add_mono)
  then show ?thesis by (auto simp: name_size_def name_text_def wire_labels_def)
qed

lemma pack_bytes:
  assumes "off + length w \<le> length m" "w \<noteq> []" "X \<subseteq> {..<off}" "cinv (view X off m) c"
  shows "packed X off m (length w) (off + length w) (overwrite m off w) c"
    and "bytes_at (view X (off + length w) (overwrite m off w)) off w"
proof -
  have "view X off m \<subseteq>\<^sub>m view X (off + length w) (overwrite m off w)" using assms(1) by (intro view_overwrite) simp_all
  then show "packed X off m (length w) (off + length w) (overwrite m off w) c"
    using assms(1) cinv_mono [OF assms(4)] by (intro packed_overwrite) simp_all
  show "bytes_at (view X (off + length w) (overwrite m off w)) off w"
    using assms by (intro bytes_at_overwrite [where ?w2.0 = "[]"]) simp_all
qed

lemma bytes_read:
  assumes "bytes_at V off w" "V \<subseteq>\<^sub>m view {} (length msg) msg" "w \<noteq> []"
  shows "off + length w \<le> length msg" "take (length w) (drop off msg) = w" "off \<noteq> length msg"
  using bytes_at_view [OF bytes_at_mono [OF assms(2,1)] assms(3)] assms(3) by auto

lemma uint48: "0 \<le> n \<Longrightarrow> n < 2 ^ 48 \<Longrightarrow> be_value (be_bytes 6 n) = n"
  by (simp add: be_value_bytes)

text \<open>A field that is a fixed string of bytes.\<close>

lemma pack_leaf_bytes:
  assumes "off + length w \<le> length m" "w \<noteq> []" "X \<subseteq> {..<off}" "cinv (view X off m) c" "length w \<le> n"
    and "pack_value tag v (off, m, c) compress = Done (Inr (off + length w, overwrite m off w, c))"
    and "\<And>msg val tn n lenrd v0. off + length w \<le> length msg \<Longrightarrow> take (length w) (drop off msg) = w \<Longrightarrow>
      off \<noteq> length msg \<Longrightarrow> same_kind v v0 \<Longrightarrow> (\<forall>a. v = VIP a \<longrightarrow> off + length w \<le> lenrd) \<Longrightarrow>
      unpack_value val tn n tag v0 lenrd msg off = Done (Inr (wire_norm tag v, off + length w))"
  shows "\<exists>off' m' c'. pack_value tag v (off, m, c) compress = Done (Inr (off', m', c')) \<and>
    packed X off m n off' m' c' \<and> off < off' \<and> reads_back (view X off' m') tag v off off'"
proof -
  let ?m = "overwrite m off w"
  have "reads_back (view X (off + length w) ?m) tag v off (off + length w)"
    unfolding reads_back_def using assms(7) bytes_read [OF pack_bytes(2) [OF assms(1-4)]] assms(2) by blast
  moreover have "packed X off m n (off + length w) ?m c"
    using pack_bytes(1) [OF assms(1-4)] assms(5) by (simp add: packed_def)
  ultimately show ?thesis using assms(2,6) by (metis less_add_same_cancel1 length_greater_0_conv)
qed

lemma pack_leaf_uint:
  assumes "off + k \<le> length m" "0 < k" "X \<subseteq> {..<off}" "cinv (view X off m) c" "k \<le> n"
    and "pack_value tag v (off, m, c) compress = pack_uint kind k i (off, m, c)"
    and "\<And>msg val tn nm lenrd v0. same_kind v v0 \<Longrightarrow> off \<noteq> length msg \<Longrightarrow>
      unpack_value val tn nm tag v0 lenrd msg off = Done (unpack_uint kind k mk msg off)"
    and "mk (be_value (be_bytes k i)) = wire_norm tag v"
  shows "\<exists>off' m' c'. pack_value tag v (off, m, c) compress = Done (Inr (off', m', c')) \<and>
    packed X off m n off' m' c' \<and> off < off' \<and> reads_back (view X off' m') tag v off off'"
  using assms by (intro pack_leaf_bytes [where w = "be_bytes k i"])
    (auto simp: pack_uint_def unpack_uint_def be_bytes_def [of k])

lemma name_reads_back:
  assumes "name_at V off ls d e" "d \<le> 10" "tag = ''cdomain-name'' \<or> tag = ''domain-name''"
  shows "reads_back V tag (VString (name_text ls)) off e"
proof -
  have "off \<noteq> length msg \<and> UnpackDomainName msg off = (name_text ls, e, None)"
    if V: "V \<subseteq>\<^sub>m view {} (length msg) msg" for msg
  proof
    show "UnpackDomainName msg off = (name_text ls, e, None)" using UnpackDomainName_at [OF assms(1,2) V] .
    show "off \<noteq> length msg"
      using name_at_mono [OF assms(1) V] by (cases rule: name_at.cases) (auto simp: wire_label_def view_Some)
  qed
  then show ?thesis
    unfolding reads_back_def using assms(3)
    by (auto simp: unpack_value_def unpack_string_def wire_norm_def split: fval.splits)
qed

lemma pack_leaf_name:
  assumes "name_ok cmp ls" "off + name_size ls \<le> length m" "X \<subseteq> {..<off}" "cinv (view X off m) c"
    and "name_size ls \<le> n" "tag = ''cdomain-name'' \<or> tag = ''domain-name''"
    and "pack_value tag (VString (name_text ls)) (off, m, c) compress = PackDomainName (name_text ls) (off, m, c) cmp"
  shows "\<exists>off' m' c'. pack_value tag (VString (name_text ls)) (off, m, c) compress = Done (Inr (off', m', c')) \<and>
    packed X off m n off' m' c' \<and> off < off' \<and> reads_back (view X off' m') tag (VString (name_text ls)) off off'"
proof -
  obtain off' m' c' k d where run: "packDomainName (name_text ls) (Some m) off c cmp = Done ((off', k, None), Some m', c')"
    and packed: "packed X off m (name_size ls) off' m' c'" "off < off'"
    and at: "name_at (view X off' m') off ls d off'" "d \<le> 10"
    using pack_name [OF assms(1-4)] by blast
  have "reads_back (view X off' m') tag (VString (name_text ls)) off off'"
    using name_reads_back [OF at assms(6)] .
  moreover have "packed X off m n off' m' c'" using packed(1) assms(5) by (simp add: packed_def)
  ultimately show ?thesis using assms(7) run packed(2) by (auto simp: PackDomainName_def)
qed

lemma pack_leaf_txt:
  assumes "length bs \<le> 255" "off + length bs + 1 \<le> length m" "X \<subseteq> {..<off}" "cinv (view X off m) c"
    and "length bs + 1 \<le> n" "tag = ''txt'' \<or> tag = []"
  shows "\<exists>off' m' c'. pack_value tag (VString (txt_text bs)) (off, m, c) compress = Done (Inr (off', m', c')) \<and>
    packed X off m n off' m' c' \<and> off < off' \<and> reads_back (view X off' m') tag (VString (txt_text bs)) off off'"
proof (rule pack_leaf_bytes [where w = "char_of (length bs) # bs"])
  show "pack_value tag (VString (txt_text bs)) (off, m, c) compress =
      Done (Inr (off + length (char_of (length bs) # bs), overwrite m off (char_of (length bs) # bs), c))"
  proof -
    have "packTxtString (txt_text bs) m off Dns_Struct.lentmp =
        Done ((off + 1 + length bs, None), overwrite m off (char_of (length bs) # bs))"
      using assms(1,2) by (intro packTxtString_text) (simp_all add: lentmp_def)
    then show ?thesis
      by (rule_tac disjE [OF assms(6)]) (simp_all add: pack_value_def pack_string_def pack_txt_result_def)
  qed
  fix msg val tn n lenrd v0
  assume msg: "off + length (char_of (length bs) # bs) \<le> length msg"
    "take (length (char_of (length bs) # bs)) (drop off msg) = char_of (length bs) # bs"
    "off \<noteq> length msg" "same_kind (VString (txt_text bs)) v0"
  have "msg ! off = char_of (length bs)" "take (length bs) (drop (off + 1) msg) = bs"
    using msg(1,2) by (simp_all add: Cons_nth_drop_Suc [symmetric])
  then have "unpackTxtString msg off = (txt_text bs, off + 1 + length bs, None)"
    using msg(1) assms(1) by (simp add: unpackTxtString_def txt_text_def Let_def)
  then show "unpack_value val tn n tag v0 lenrd msg off =
      Done (Inr (wire_norm tag (VString (txt_text bs)), off + length (char_of (length bs) # bs)))"
    using msg(3,4)
    by (cases v0; rule_tac disjE [OF assms(6)]) (simp_all add: unpack_value_def unpack_string_def wire_norm_def)
qed (use assms in auto)

lemma pack_leaf_ip:
  assumes "leaf_ok compress tag (VIP a)" "off + leaf_size tag (VIP a) \<le> length m" "X \<subseteq> {..<off}" "cinv (view X off m) c"
  shows "\<exists>off' m' c'. pack_value tag (VIP a) (off, m, c) compress = Done (Inr (off', m', c')) \<and>
    packed X off m (leaf_size tag (VIP a)) off' m' c' \<and> off < off' \<and> reads_back (view X off' m') tag (VIP a) off off'"
proof (rule pack_leaf_bytes [where w = "chars_of (if tag = ''a'' then drop (length a - 4) a else a)"])
  let ?a = "if tag = ''a'' then drop (length a - 4) a else a"
  let ?w = "chars_of ?a"
  show "?w \<noteq> []" "length ?w \<le> leaf_size tag (VIP a)" "off + length ?w \<le> length m"
    using assms(1,2) by (auto simp: leaf_ok_def leaf_size_def chars_of_def)
  show "pack_value tag (VIP a) (off, m, c) compress = Done (Inr (off + length ?w, overwrite m off ?w, c))"
    using assms(1,2) by (auto simp: leaf_ok_def leaf_size_def pack_value_def pack_ip_def IPv4len_def IPv6len_def)
  fix msg val tn n lenrd v0
  assume msg: "off + length ?w \<le> length msg" "take (length ?w) (drop off msg) = ?w"
    "same_kind (VIP a) v0" "\<forall>a'. VIP a = VIP a' \<longrightarrow> off + length ?w \<le> lenrd"
  have "bytes_of (take (length ?w) (drop off msg)) = ?a" using msg(2) by simp
  then show "unpack_value val tn n tag v0 lenrd msg off = Done (Inr (wire_norm tag (VIP a), off + length ?w))"
    using msg assms(1)
    by (cases v0) (auto simp: leaf_ok_def unpack_value_def unpack_ip_def wire_norm_def IPv4len_def IPv6len_def)
qed (use assms in auto)

text \<open>A field that is in order is packed where there is room, and reads back.\<close>

lemma pack_value_ok:
  assumes "leaf_ok compress tag v" "off + leaf_size tag v \<le> length m" "X \<subseteq> {..<off}" "cinv (view X off m) c"
  shows "\<exists>off' m' c'. pack_value tag v (off, m, c) compress = Done (Inr (off', m', c')) \<and>
    packed X off m (leaf_size tag v) off' m' c' \<and> off < off' \<and> reads_back (view X off' m') tag v off off'"
proof (cases v)
  case (VUint8 i)
  show ?thesis using assms unfolding VUint8
    by (intro pack_leaf_uint [where k = 1 and i = "uint i" and mk = "\<lambda>i. VUint8 (word_of_int i)" and kind = "''uint8''"])
       (auto simp: leaf_size_def pack_value_def unpack_value_def wire_norm_def word_be_roundtrip split: fval.splits)
next
  case (VUint16 i)
  show ?thesis using assms unfolding VUint16
    by (intro pack_leaf_uint [where k = 2 and i = "uint i" and mk = "\<lambda>i. VUint16 (word_of_int i)" and kind = "''uint16''"])
       (auto simp: leaf_size_def pack_value_def unpack_value_def wire_norm_def word_be_roundtrip split: fval.splits)
next
  case (VUint32 i)
  show ?thesis using assms unfolding VUint32
    by (intro pack_leaf_uint [where k = 4 and i = "uint i" and mk = "\<lambda>i. VUint32 (word_of_int i)" and kind = "''uint32''"])
       (auto simp: leaf_size_def pack_value_def unpack_value_def wire_norm_def word_be_roundtrip split: fval.splits)
next
  case (VUint64 i)
  show ?thesis
  proof (cases "tag = ''uint48''")
    case True
    then show ?thesis using assms unfolding VUint64
      by (intro pack_leaf_uint [where k = 6 and i = "uint i" and mk = "\<lambda>i. VUint64 (word_of_int i)" and kind = "''uint64 as uint48''"])
         (auto simp: leaf_ok_def leaf_size_def pack_value_def unpack_value_def wire_norm_def uint48 split: fval.splits)
  next
    case False
    then show ?thesis using assms unfolding VUint64
      by (intro pack_leaf_uint [where k = 8 and i = "uint i" and mk = "\<lambda>i. VUint64 (word_of_int i)" and kind = "''uint64''"])
         (auto simp: leaf_size_def pack_value_def unpack_value_def wire_norm_def word_be_roundtrip split: fval.splits)
  qed
next
  case (VString s)
  consider ls where "tag = ''cdomain-name''" "name_ok compress ls" "s = name_text ls"
    | ls where "tag = ''domain-name''" "name_ok False ls" "s = name_text ls"
    | bs where "tag = ''txt'' \<or> tag = []" "length bs \<le> 255" "s = txt_text bs"
    using assms(1) VString by (auto simp: leaf_ok_def)
  then show ?thesis
  proof cases
    case (1 ls)
    then show ?thesis using assms name_size_text [of ls] unfolding VString 1(3)
      by (intro pack_leaf_name [where cmp = compress]) (simp_all add: leaf_size_def pack_value_def pack_string_def)
  next
    case (2 ls)
    then show ?thesis using assms name_size_text [of ls] unfolding VString 2(3)
      by (intro pack_leaf_name [where cmp = False]) (simp_all add: leaf_size_def pack_value_def pack_string_def)
  next
    case (3 bs)
    have "length bs \<le> length (txt_text bs)"
      by (induction bs) (auto simp: txt_text_def unpack_txt_byte_def ddd_def Let_def)
    then show ?thesis using assms 3(1,2) unfolding VString 3(3)
      by (intro pack_leaf_txt) (simp_all add: leaf_size_def)
  qed
next
  case (VIP a)
  show ?thesis using assms pack_leaf_ip unfolding VIP by blast
qed (use assms(1) in \<open>simp_all add: leaf_ok_def\<close>)

end
