(* ===== verification/Dns_Record_Properties.thy ===== *)
theory Dns_Record_Properties
  imports Dns_Struct_Properties
begin

text \<open>
  Structures and resource records: packing the fields of a structure one after the other, and the
  round trip of a resource record, whose data length is set when all of it has been written.
\<close>

section \<open>Fields one after the other\<close>

definition field_ok :: "bool \<Rightarrow> sfield \<Rightarrow> bool" where
  "field_ok compress f \<longleftrightarrow> (case f of Field n tag v \<Rightarrow> tag \<noteq> ''-'' \<and> leaf_ok compress tag v)"

definition fields_size :: "sfield list \<Rightarrow> nat" where
  "fields_size fs = sum_list (map (\<lambda>f. case f of Field n tag v \<Rightarrow> leaf_size tag v) fs)"

definition norm_field :: "sfield \<Rightarrow> sfield" where
  "norm_field f = (case f of Field n tag v \<Rightarrow> Field n tag (wire_norm tag v))"

definition same_field :: "sfield \<Rightarrow> sfield \<Rightarrow> bool" where
  "same_field f f0 \<longleftrightarrow>
     (case f of Field n tag v \<Rightarrow> case f0 of Field n0 tag0 v0 \<Rightarrow> n0 = n \<and> tag0 = tag \<and> same_kind v v0)"

fun fields_at :: "(nat \<rightharpoonup> char) \<Rightarrow> sfield list \<Rightarrow> nat \<Rightarrow> nat \<Rightarrow> bool" where
  "fields_at V [] off off' \<longleftrightarrow> off' = off"
| "fields_at V (Field n tag v # fs) off off' \<longleftrightarrow>
     (\<exists>mid > off. reads_back V tag v off mid \<and> fields_at V fs mid off')"

lemma fields_at_le: "fields_at V fs off off' \<Longrightarrow> off + length fs \<le> off'"
proof (induction V fs off off' rule: fields_at.induct)
  case (2 V n tag v fs off off')
  then show ?case using less_le_trans by fastforce
qed simp

lemma fields_at_mono: "fields_at V fs off off' \<Longrightarrow> V \<subseteq>\<^sub>m W \<Longrightarrow> fields_at W fs off off'"
  by (induction V fs off off' rule: fields_at.induct) (auto intro: reads_back_mono)

lemma fields_at_append: "fields_at V (fs @ gs) off off' \<longleftrightarrow> (\<exists>mid. fields_at V fs off mid \<and> fields_at V gs mid off')"
  by (induction V fs off off' rule: fields_at.induct) auto

lemma packed_trans:
  "packed X off m n off1 m1 c1 \<Longrightarrow> packed X off1 m1 n1 off2 m2 c2 \<Longrightarrow> packed X off m (n + n1) off2 m2 c2"
  unfolding packed_def by (auto intro: map_le_trans)

lemma leaf_not_struct: "leaf_ok compress tag v \<Longrightarrow> v \<noteq> VStruct tn gs"
  by (auto simp: leaf_ok_def)

lemma pack_field:
  "field_ok compress (Field n tag v) \<Longrightarrow>
    pack_fields (Field n tag v # fs) st compress = try_bind (pack_value tag v st compress) (\<lambda>st. pack_fields fs st compress)"
  by (auto simp: field_ok_def leaf_ok_def split: fval.splits)

lemma pack_fields_append:
  "pack_fields (fs @ gs) st compress = try_bind (pack_fields fs st compress) (\<lambda>st. pack_fields gs st compress)"
proof (induction fs arbitrary: st)
  case (Cons f fs)
  have assoc: "try_bind (try_bind r g) h = try_bind r (\<lambda>x. try_bind (g x) h)"
    for r :: "(dns_error + pack_pos) run" and g and h :: "pack_pos \<Rightarrow> (dns_error + pack_pos) run"
    by (simp add: try_bind_def split: run.splits sum.splits)
  obtain n tag v where "f = Field n tag v" by (cases f)
  then show ?case using Cons.IH by (simp add: assoc)
qed simp

lemma pack_fields_ok:
  assumes "\<forall>f \<in> set fs. field_ok compress f" "off + fields_size fs \<le> length m" "X \<subseteq> {..<off}" "cinv (view X off m) c"
  shows "\<exists>off' m' c'. pack_fields fs (off, m, c) compress = Done (Inr (off', m', c')) \<and>
    packed X off m (fields_size fs) off' m' c' \<and> fields_at (view X off' m') fs off off'"
  using assms
proof (induction fs arbitrary: off m c)
  case Nil
  then show ?case by (simp add: packed_def fields_size_def)
next
  case (Cons f fs)
  obtain n tag v where f: "f = Field n tag v" by (cases f)
  have size: "fields_size (f # fs) = leaf_size tag v + fields_size fs" by (simp add: fields_size_def f)
  obtain off1 m1 c1 where v: "pack_value tag v (off, m, c) compress = Done (Inr (off1, m1, c1))"
    "packed X off m (leaf_size tag v) off1 m1 c1" "off < off1" "reads_back (view X off1 m1) tag v off off1"
    using pack_value_ok [of compress tag v off m X c] Cons.prems f size by (auto simp: field_ok_def)
  have "X \<subseteq> {..<off1}" using Cons.prems(3) v(3) by auto
  moreover have "length m1 = length m" "off1 \<le> off + leaf_size tag v" "cinv (view X off1 m1) c1"
    using v(2) by (simp_all add: packed_def)
  ultimately obtain off2 m2 c2 where fs: "pack_fields fs (off1, m1, c1) compress = Done (Inr (off2, m2, c2))"
    "packed X off1 m1 (fields_size fs) off2 m2 c2" "fields_at (view X off2 m2) fs off1 off2"
    using Cons.IH [of off1 m1 c1] Cons.prems size by auto
  have "view X off1 m1 \<subseteq>\<^sub>m view X off2 m2" using fs(2) by (simp add: packed_def)
  then have "fields_at (view X off2 m2) (f # fs) off off2"
    using v(3,4) fs(3) f by (auto intro: reads_back_mono)
  moreover have "pack_fields (f # fs) (off, m, c) compress = Done (Inr (off2, m2, c2))"
    using pack_field [of compress n tag v fs] Cons.prems(1) v(1) fs(1) f by simp
  ultimately show ?case using packed_trans [OF v(2) fs(2)] size by auto
qed

lemma unpack_field:
  "same_kind v v0 \<Longrightarrow> lenrd = 0 \<or> lenrd \<noteq> off \<Longrightarrow> off \<le> length msg \<Longrightarrow>
    unpack_fields tn ds (Field n tag v0 # fs) lenrd msg off =
      try_bind (unpack_value (VStruct tn (ds @ Field n tag v0 # fs)) tn n tag v0 lenrd msg off)
        (\<lambda>(w, off'). unpack_fields tn (ds @ [Field n tag w]) fs lenrd msg off')"
  by (cases v0) auto

lemma unpack_fields_at:
  assumes "fields_at V fs off off'" "V \<subseteq>\<^sub>m view {} (length msg) msg" "list_all2 same_field fs fs0" "off' \<le> length msg"
    and "lenrd = 0 \<and> (\<forall>f \<in> set fs. \<forall>n tag a. f \<noteq> Field n tag (VIP a)) \<or> off' \<le> lenrd"
  shows "unpack_fields tn ds fs0 lenrd msg off = Done (Inr (VStruct tn (ds @ map norm_field fs), off'))"
  using assms
proof (induction V fs off off' arbitrary: ds fs0 rule: fields_at.induct)
  case (2 V n tag v fs off off')
  then obtain mid where mid: "off < mid" "reads_back V tag v off mid" "fields_at V fs mid off'" by auto
  obtain v0 fs0' where fs0: "fs0 = Field n tag v0 # fs0'" "same_kind v v0" "list_all2 same_field fs fs0'"
  proof -
    obtain f0 fs0' where f0: "fs0 = f0 # fs0'" "same_field (Field n tag v) f0" "list_all2 same_field fs fs0'"
      using 2(4) by (auto simp: list_all2_Cons1)
    then show ?thesis using that by (cases f0) (simp add: same_field_def)
  qed
  have le: "mid \<le> off'" using fields_at_le [OF mid(3)] by simp
  have "unpack_value (VStruct tn (ds @ fs0)) tn n tag v0 lenrd msg off = Done (Inr (wire_norm tag v, mid))"
    using mid(2) 2(3,6) fs0(2) le unfolding reads_back_def by auto
  moreover have "unpack_fields tn (ds @ [Field n tag (wire_norm tag v)]) fs0' lenrd msg mid =
      Done (Inr (VStruct tn ((ds @ [Field n tag (wire_norm tag v)]) @ map norm_field fs), off'))"
    using 2(1) [of mid] mid(1,3) 2(3,5,6) fs0(3) by (auto simp: mid(2))
  ultimately show ?case
    using unpack_field [OF fs0(2), of lenrd off msg tn ds n tag fs0'] mid(1) le 2(5,6) fs0(1)
    by (auto simp: norm_field_def)
qed simp

section \<open>Resource records\<close>

lemma raw_name_end_at:
  assumes "name_at V off ls d e" "V \<subseteq>\<^sub>m view {} (length msg) msg"
  shows "raw_name_end msg off = Some e"
  using name_at_mono [OF assms]
proof (induction rule: name_at.induct)
  case (root off)
  then show ?case by (subst raw_name_end.simps) (simp add: view_Some)
next
  case (lab l off ls d e)
  have "off < length msg" "msg ! off = char_of (length l)" "l \<noteq> []" "length l < 64"
    using lab.hyps(1,2) by (auto simp: wire_label_def view_Some label_def)
  moreover have "off + 1 + length l \<le> length msg"
    using bytes_at_view(1) [OF lab.hyps(2)] by (simp add: wire_label_def)
  ultimately show ?case
    using lab.IH by (subst raw_name_end.simps) (simp add: Let_def wire_label_def add.assoc)
next
  case (ptr off p ls d e)
  have p: "p div 256 < 64" using ptr.hyps(2) by (simp add: maxCompressionOffset_def div_less_iff_less_mult)
  then show ?case
    using ptr.hyps(1) by (subst raw_name_end.simps) (auto simp: view_Some Let_def)
qed

text \<open>The header without and with the length of the data.\<close>

definition header_fields :: "RR_Header \<Rightarrow> sfield list" where
  "header_fields h =
     [Field ''Name'' ''cdomain-name'' (VString (hdrName h)), Field ''Rrtype'' [] (VUint16 (Rrtype h)),
      Field ''Class'' [] (VUint16 (hdrClass h)), Field ''Ttl'' [] (VUint32 (Ttl h))]"

definition length_field :: "uint16 \<Rightarrow> sfield" where
  "length_field k = Field ''Rdlength'' [] (VUint16 k)"

lemma RR_Header_struct_fields: "RR_Header_struct h = VStruct ''RR_Header'' (header_fields h @ [length_field (Rdlength h)])"
  by (simp add: RR_Header_struct_def header_fields_def length_field_def)

lemma view_hole: "p + length w \<le> length m \<Longrightarrow> view {} p m \<subseteq>\<^sub>m view {p ..< p + length w} (p + length w) (overwrite m p w)"
  by (auto simp: map_le_def view_def nth_overwrite overwrite_length)

lemma pack_header:
  assumes "name_ok compress ls" "hdrName h = name_text ls" "off + length (hdrName h) + 11 \<le> length m" "cinv (view {} off m) c"
  shows "\<exists>p m' c' d. pack_fields (header_fields h @ [length_field k]) (off, m, c) compress = Done (Inr (p + 2, m', c')) \<and>
    length m' = length m \<and> off + 8 < p \<and> p \<le> off + length (hdrName h) + 9 \<and>
    view {} off m \<subseteq>\<^sub>m view {p, p + 1} (p + 2) m' \<and> cinv (view {p, p + 1} (p + 2) m') c' \<and>
    name_at (view {p, p + 1} (p + 2) m') off ls d (p - 8) \<and>
    fields_at (view {p, p + 1} (p + 2) m') (header_fields h) off p"
proof -
  have size: "name_size ls \<le> length (hdrName h) + 1" using name_size_text assms(2) by simp
  obtain q m1 c1 j d where name: "packDomainName (name_text ls) (Some m) off c compress = Done ((q, j, None), Some m1, c1)"
    "packed {} off m (name_size ls) q m1 c1" "off < q" "name_at (view {} q m1) off ls d q" "d \<le> 10"
    using pack_name [OF assms(1), of off m "{}" c] assms(3,4) size by auto
  have q: "length m1 = length m" "q \<le> off + length (hdrName h) + 1" "view {} off m \<subseteq>\<^sub>m view {} q m1" "cinv (view {} q m1) c1"
    using name(2) size by (simp_all add: packed_def)
  define fs where "fs = tl (header_fields h)"
  have fs: "\<forall>f \<in> set fs. field_ok compress f" "fields_size fs = 8"
    by (auto simp: fs_def header_fields_def field_ok_def leaf_ok_def fields_size_def leaf_size_def)
  obtain p m2 c2 where ints: "pack_fields fs (q, m1, c1) compress = Done (Inr (p, m2, c2))"
    "packed {} q m1 8 p m2 c2" "fields_at (view {} p m2) fs q p"
    using pack_fields_ok [OF fs(1), of q m1 "{}" c1] q assms(3) fs(2) by auto
  have "p = q + 8"
    using ints(1) q(1,2) assms(3)
    by (simp add: fs_def header_fields_def pack_value_def pack_uint_def overwrite_length numeral_eq_Suc split: if_splits)
  then have p: "p = q + 8" "length m2 = length m" "view {} q m1 \<subseteq>\<^sub>m view {} p m2" "cinv (view {} p m2) c2" "p + 2 \<le> length m2"
    using ints(2) q(1,2) assms(3) by (simp_all add: packed_def)
  let ?m = "overwrite m2 p (be_bytes 2 (uint k))"
  have hole: "view {} p m2 \<subseteq>\<^sub>m view {p, p + 1} (p + 2) ?m" 
    using view_hole [of p "be_bytes 2 (uint k)" m2] p(5) by (simp add: numeral_2_eq_2 atLeastLessThanSuc insert_commute)
  have "view {} q m1 \<subseteq>\<^sub>m view {p, p + 1} (p + 2) ?m" "view {} off m \<subseteq>\<^sub>m view {p, p + 1} (p + 2) ?m"
    using q(3) p(3) hole by (meson map_le_trans)+
  note grow = this
  have at: "name_at (view {p, p + 1} (p + 2) ?m) off ls d q" using name_at_mono [OF name(4) grow(1)] .
  have hd: "header_fields h = Field ''Name'' ''cdomain-name'' (VString (name_text ls)) # fs"
    using assms(2) by (simp add: fs_def header_fields_def)
  have "fields_at (view {p, p + 1} (p + 2) ?m) (header_fields h) off p"
    unfolding hd using name_reads_back [OF at name(5)] name(3) fields_at_mono [OF ints(3) hole] by auto
  moreover have "pack_fields (header_fields h @ [length_field k]) (off, m, c) compress = Done (Inr (p + 2, ?m, c2))"
  proof -
    have "pack_fields (header_fields h) (off, m, c) compress = Done (Inr (p, m2, c2))"
      unfolding hd using name(1) ints(1)
      by (simp add: pack_value_def pack_string_def PackDomainName_def)
    then show ?thesis
      using p(5) by (simp add: pack_fields_append length_field_def pack_value_def pack_uint_def)
  qed
  ultimately show ?thesis
    using p q(2) name(3) at grow(2) cinv_mono [OF p(4) hole]
    by (intro exI [of _ p] exI [of _ ?m] exI [of _ c2] exI [of _ d]) (simp add: overwrite_length)
qed

text \<open>
  A record that survives: its type is that of its structure, its names are in order, its data is not
  too long, and \<open>len\<close> counts enough octets for it.  What is read back has the length of the data in
  its header.
\<close>

definition rr_fields :: "RR \<Rightarrow> sfield list" where
  "rr_fields rr = (case structValue rr of VStruct tn fs \<Rightarrow> tl fs | _ \<Rightarrow> [])"

definition rr_size :: "RR \<Rightarrow> nat" where
  "rr_size rr = length (hdrName (Header rr)) + 11 + fields_size (rr_fields rr)"

definition rr_typed :: "RR \<Rightarrow> bool" where
  "rr_typed rr \<longleftrightarrow>
     (\<exists>tn h fs0. structValue rr = VStruct tn (Field ''Hdr'' [] (RR_Header_struct (Header rr)) # rr_fields rr) \<and>
        structValue (new_RR (Rrtype (Header rr))) = VStruct tn (Field ''Hdr'' [] (RR_Header_struct h) # fs0) \<and>
        list_all2 same_field (rr_fields rr) fs0) \<and>
     set_structValue (new_RR (Rrtype (Header rr))) = set_structValue rr"

definition rr_ok :: "bool \<Rightarrow> RR \<Rightarrow> bool" where
  "rr_ok compress rr \<longleftrightarrow>
     rr_typed rr \<and> (\<exists>ls. name_ok compress ls \<and> hdrName (Header rr) = name_text ls) \<and>
     (\<forall>f \<in> set (rr_fields rr). field_ok compress f) \<and> fields_size (rr_fields rr) \<le> 65535 \<and>
     (\<exists>n. RR_len rr = Done n \<and> rr_size rr \<le> n)"

definition wire_form :: "uint16 \<Rightarrow> RR \<Rightarrow> RR" where
  "wire_form k rr =
     set_structValue rr
       (case structValue rr of
          VStruct tn fs \<Rightarrow>
            VStruct tn (Field ''Hdr'' [] (RR_Header_struct (Header rr\<lparr>Rdlength := k\<rparr>)) # map norm_field (tl fs))
        | v \<Rightarrow> v)"

definition rr_at :: "(nat \<rightharpoonup> char) \<Rightarrow> RR \<Rightarrow> nat \<Rightarrow> nat \<Rightarrow> bool" where
  "rr_at V rr off off' \<longleftrightarrow>
     (\<exists>k p. off' = p + unat k \<and> (\<forall>msg. V \<subseteq>\<^sub>m view {} (length msg) msg \<longrightarrow>
        unpackStructValue (RR_Header_struct RR_Header_zero) msg off =
          Done (Inr (RR_Header_struct (Header rr\<lparr>Rdlength := k\<rparr>), p)) \<and>
        UnpackRR msg off = Done (Inr (wire_form k rr, off'))))"

lemma rr_at_mono:
  assumes "rr_at V rr off off'" "V \<subseteq>\<^sub>m W"
  shows "rr_at W rr off off'"
proof -
  have "V \<subseteq>\<^sub>m U" if "W \<subseteq>\<^sub>m U" for U using assms(2) that by (rule map_le_trans)
  then show ?thesis using assms(1) unfolding rr_at_def by blast
qed

lemma uint16_reads_back:
  assumes "bytes_at V off (be_bytes 2 (uint w))"
  shows "reads_back V tag (VUint16 w) off (off + 2)"
proof -
  have "be_bytes 2 (uint w) \<noteq> []" by (simp add: be_bytes_def)
  note read = bytes_read [OF assms _ this]
  have "take 2 (drop off msg) = be_bytes 2 (uint w) \<and> off + 2 \<le> length msg \<and> off \<noteq> length msg"
    if "V \<subseteq>\<^sub>m view {} (length msg) msg" for msg
    using read [OF that] by simp
  note read = this
  show ?thesis
    unfolding reads_back_def
  proof (intro allI impI)
    fix msg val tn n lenrd v0
    assume "V \<subseteq>\<^sub>m view {} (length msg) msg" "same_kind (VUint16 w) v0"
    then show "unpack_value val tn n tag v0 lenrd msg off = Done (Inr (wire_norm tag (VUint16 w), off + 2))"
      using read [of msg] by (cases v0) (auto simp: unpack_value_def unpack_uint_def wire_norm_def word_be_roundtrip)
  qed
qed

lemma view_inside:
  assumes "view {} n m \<subseteq>\<^sub>m view {} (length msg) msg" "n \<le> length m"
  shows "n \<le> length msg"
proof (cases n)
  case (Suc k)
  then have "view {} n m k = Some (m ! k)" using assms(2) by (simp add: view_Some)
  then have "view {} (length msg) msg k = Some (m ! k)" using assms(1) by (force simp: map_le_def)
  then show ?thesis using Suc by (simp add: view_Some)
qed simp

lemma unpack_header_at:
  assumes "fields_at V (header_fields h) off p" "bytes_at V p (be_bytes 2 (uint k))"
    and "V \<subseteq>\<^sub>m view {} (length msg) msg"
  shows "unpackStructValue (RR_Header_struct h0) msg off = Done (Inr (RR_Header_struct (h\<lparr>Rdlength := k\<rparr>), p + 2))"
proof -
  have "fields_at V (header_fields h @ [length_field k]) off (p + 2)"
    using assms(1) uint16_reads_back [OF assms(2)] by (auto simp: fields_at_append length_field_def)
  moreover have "list_all2 same_field (header_fields h @ [length_field k]) (header_fields h0 @ [length_field (Rdlength h0)])"
    by (simp add: header_fields_def length_field_def same_field_def)
  moreover have "p + 2 \<le> length msg"
    using bytes_read(1) [OF assms(2,3)] by (simp add: be_bytes_def numeral_2_eq_2)
  moreover have "\<forall>f \<in> set (header_fields h @ [length_field k]). \<forall>n tag a. f \<noteq> Field n tag (VIP a)"
    by (auto simp: header_fields_def length_field_def)
  ultimately have "unpack_fields ''RR_Header'' [] (header_fields h0 @ [length_field (Rdlength h0)]) 0 msg off =
      Done (Inr (VStruct ''RR_Header'' (map norm_field (header_fields h @ [length_field k])), p + 2))"
    using unpack_fields_at [OF _ assms(3), of "header_fields h @ [length_field k]" off "p + 2" _ 0 "''RR_Header''" "[]"]
    by simp
  moreover have "map norm_field (header_fields h @ [length_field k]) = header_fields (h\<lparr>Rdlength := k\<rparr>) @ [length_field k]"
    by (simp add: header_fields_def length_field_def norm_field_def wire_norm_def)
  ultimately show ?thesis by (simp add: RR_Header_struct_fields)
qed

text \<open>A record is read back where its header and its fields are.\<close>

lemma UnpackRR_at:
  assumes "rr_typed rr" "fields_at V (header_fields (Header rr)) off p" "bytes_at V p (be_bytes 2 (uint k))"
    and "fields_at V (rr_fields rr) (p + 2) off'" "off' = p + 2 + unat k" "off' \<le> length msg"
    and "V \<subseteq>\<^sub>m view {} (length msg) msg"
  shows "UnpackRR msg off = Done (Inr (wire_form k rr, off'))"
proof -
  note hdr = unpack_header_at [OF assms(2,3,7)]
  obtain tn h fs0 where rr: "structValue rr = VStruct tn (Field ''Hdr'' [] (RR_Header_struct (Header rr)) # rr_fields rr)"
    and rr0: "structValue (new_RR (Rrtype (Header rr))) = VStruct tn (Field ''Hdr'' [] (RR_Header_struct h) # fs0)"
    and same: "list_all2 same_field (rr_fields rr) fs0"
    and set: "set_structValue (new_RR (Rrtype (Header rr))) = set_structValue rr"
    using assms(1) unfolding rr_typed_def by blast
  let ?w = "RR_Header_struct (Header rr\<lparr>Rdlength := k\<rparr>)"
  have "fields_at V (header_fields (Header rr)) off p \<Longrightarrow> off + 4 \<le> p"
    using fields_at_le [of V "header_fields (Header rr)" off p] by (simp add: header_fields_def)
  then have le: "off \<le> length msg" using assms(2,5,6) by simp
  have len: "field_uint (Some ?w) ''Rdlength'' = Done (unat k)"
    by (simp add: field_uint_def RR_Header_struct_def)
  have "unpackStructValue (structValue (new_RR (Rrtype (Header rr)))) msg off =
      unpack_fields tn [Field ''Hdr'' [] ?w] fs0 off' msg (p + 2)"
    using hdr [of h] le len assms(5)
    by (simp add: rr0 RR_Header_struct_def add.assoc)
  also have "\<dots> = Done (Inr (VStruct tn (Field ''Hdr'' [] ?w # map norm_field (rr_fields rr)), off'))"
    using unpack_fields_at [OF assms(4,7) same assms(6), of off'] by simp
  finally have "unpackStructValue (structValue (new_RR (Rrtype (Header rr)))) msg off =
      Done (Inr (VStruct tn (Field ''Hdr'' [] ?w # map norm_field (rr_fields rr)), off'))" .
  then show ?thesis
    using hdr [of RR_Header_zero] set assms(5) by (simp add: UnpackRR_def wire_form_def rr)
qed

text \<open>The length of the data is written at its place in the header.\<close>

lemma rawSetRdlength_at:
  assumes "name_at (view {p, p + 1} off' m) off ls d (p - 8)" "8 \<le> p" "p + 2 \<le> off'" "off' \<le> length m"
    and "off' \<le> p + 2 + 65535"
  shows "rawSetRdlength m off off' = Some (overwrite m p (be_bytes 2 (uint (of_nat (off' - (p + 2)) :: uint16))))"
    and "unat (of_nat (off' - (p + 2)) :: uint16) = off' - (p + 2)"
    and "view {p, p + 1} off' m \<subseteq>\<^sub>m view {} off' (overwrite m p (be_bytes 2 (uint (of_nat (off' - (p + 2)) :: uint16))))"
    and "bytes_at (view {} off' (overwrite m p (be_bytes 2 (uint (of_nat (off' - (p + 2)) :: uint16))))) p
      (be_bytes 2 (uint (of_nat (off' - (p + 2)) :: uint16)))"
proof -
  let ?k = "of_nat (off' - (p + 2)) :: uint16"
  have "view {p, p + 1} off' m \<subseteq>\<^sub>m view {} (length m) m" using assms(4) by (intro view_mono) simp_all
  then have "raw_name_end m off = Some (p - 8)" using raw_name_end_at [OF assms(1)] by blast
  moreover have "(word_of_int (int off' - int (p + 2)) :: uint16) = ?k"
    using assms(3) by (simp add: of_nat_diff)
  moreover have "p - 8 + 2 + 2 + 4 = p" using assms(2) by simp
  ultimately show "rawSetRdlength m off off' = Some (overwrite m p (be_bytes 2 (uint ?k)))"
    using assms(3-5) by (simp add: rawSetRdlength_def Let_def del: add_2_eq_Suc')
  show "unat ?k = off' - (p + 2)" using assms(5) by (simp add: unat_of_nat)
  show "view {p, p + 1} off' m \<subseteq>\<^sub>m view {} off' (overwrite m p (be_bytes 2 (uint ?k)))"
    using assms(3,4) by (auto simp: map_le_def view_def nth_overwrite overwrite_length)
  show "bytes_at (view {} off' (overwrite m p (be_bytes 2 (uint ?k)))) p (be_bytes 2 (uint ?k))"
    using assms(3,4) by (intro bytes_at_overwrite [where ?w2.0 = "[]"]) simp_all
qed

lemma PackRR_ok:
  assumes "rr_ok compress rr" "off + rr_size rr \<le> length m" "cinv (view {} off m) c"
  shows "\<exists>off' m' c'. PackRR rr (off, m, c) compress = Done (Inr (off', m', c')) \<and>
    packed {} off m (rr_size rr) off' m' c' \<and> rr_at (view {} off' m') rr off off'"
proof -
  let ?h = "Header rr" and ?n = "length (hdrName (Header rr))"
  obtain ls where ls: "name_ok compress ls" "hdrName ?h = name_text ls" using assms(1) unfolding rr_ok_def by blast
  have ok: "rr_typed rr" "\<forall>f \<in> set (rr_fields rr). field_ok compress f" "fields_size (rr_fields rr) \<le> 65535"
    using assms(1) unfolding rr_ok_def by blast+
  obtain tn where rr: "structValue rr = VStruct tn (Field ''Hdr'' [] (RR_Header_struct ?h) # rr_fields rr)"
    using ok(1) unfolding rr_typed_def by blast
  obtain p m1 c1 d where
    hdr: "pack_fields (header_fields ?h @ [length_field (Rdlength ?h)]) (off, m, c) compress = Done (Inr (p + 2, m1, c1))"
    and p: "length m1 = length m" "off + 8 < p" "p \<le> off + ?n + 9"
    and view1: "view {} off m \<subseteq>\<^sub>m view {p, p + 1} (p + 2) m1" "cinv (view {p, p + 1} (p + 2) m1) c1"
    and name: "name_at (view {p, p + 1} (p + 2) m1) off ls d (p - 8)"
    and fields: "fields_at (view {p, p + 1} (p + 2) m1) (header_fields ?h) off p"
    using pack_header [OF ls, of off m c "Rdlength ?h"] assms(2,3) by (auto simp: rr_size_def)
  obtain off' m2 c2 where body: "pack_fields (rr_fields rr) (p + 2, m1, c1) compress = Done (Inr (off', m2, c2))"
    and packed: "packed {p, p + 1} (p + 2) m1 (fields_size (rr_fields rr)) off' m2 c2"
    and fields2: "fields_at (view {p, p + 1} off' m2) (rr_fields rr) (p + 2) off'"
    using pack_fields_ok [OF ok(2), of "p + 2" m1 "{p, p + 1}" c1] p assms(2) view1(2) by (auto simp: rr_size_def)
  have off': "length m2 = length m" "p + 2 \<le> off'" "off' \<le> p + 2 + 65535" "off' \<le> off + rr_size rr"
    and view2: "view {p, p + 1} (p + 2) m1 \<subseteq>\<^sub>m view {p, p + 1} off' m2" "cinv (view {p, p + 1} off' m2) c2"
    using packed ok(3) p by (simp_all add: packed_def rr_size_def)
  let ?k = "of_nat (off' - (p + 2)) :: uint16"
  let ?m = "overwrite m2 p (be_bytes 2 (uint ?k))"
  have "8 \<le> p" "off' \<le> length m2" using p(2) off' assms(2) by simp_all
  note set = rawSetRdlength_at [OF name_at_mono [OF name view2(1)] this(1) off'(2) this(2) off'(3)]
  have grow: "view {p, p + 1} (p + 2) m1 \<subseteq>\<^sub>m view {} off' ?m" "view {} off m \<subseteq>\<^sub>m view {} off' ?m"
    using view1(1) view2(1) set(3) by (meson map_le_trans)+
  have len: "length ?m = length m" using off' p(1) assms(2) by (simp add: overwrite_length)
  have "rr_at (view {} off' ?m) rr off off'"
    unfolding rr_at_def
  proof (intro exI allI impI conjI)
    show "off' = p + 2 + unat ?k" using set(2) off'(2) by simp
    fix msg assume V: "view {} off' ?m \<subseteq>\<^sub>m view {} (length msg) msg"
    show "unpackStructValue (RR_Header_struct RR_Header_zero) msg off =
        Done (Inr (RR_Header_struct (?h\<lparr>Rdlength := ?k\<rparr>), p + 2))"
      by (rule unpack_header_at [OF fields_at_mono [OF fields grow(1)] set(4) V])
    have "off' \<le> length msg" using view_inside [OF V] len off'(4) assms(2) by simp
    then show "UnpackRR msg off = Done (Inr (wire_form ?k rr, off'))"
      using UnpackRR_at [OF ok(1) fields_at_mono [OF fields grow(1)] set(4) fields_at_mono [OF fields2 set(3)] _ _ V]
        set(2) off'(2) by simp
  qed
  moreover have "packed {} off m (rr_size rr) off' ?m c2"
    using len off'(2,4) p(2) grow(2) cinv_mono [OF view2(2) set(3)] by (simp add: packed_def)
  moreover have "PackRR rr (off, m, c) compress = Done (Inr (off', ?m, c2))"
    using hdr body set(1) by (simp add: PackRR_def rr RR_Header_struct_fields)
  ultimately show ?thesis by blast
qed

section \<open>What is read back\<close>

text \<open>
  What is read back is the record that was written but for the length of its data, if every address in
  a field for IPv4 addresses is one, in the form that \<^verbatim>\<open>net.ParseIP\<close> and \<^verbatim>\<open>net.IPv4\<close> give it.
  Of any other address in such a field (an IPv6 address in an A record) only the last four bytes are
  read back, as an IPv4 address.
\<close>

lemmas struct_defs =
  Header_struct_def Question_struct_def RR_Header_struct_def ANY_struct_def CNAME_struct_def
  HINFO_struct_def MB_struct_def MG_struct_def MINFO_struct_def MR_struct_def MF_struct_def
  MD_struct_def MX_struct_def AFSDB_struct_def X25_struct_def RT_struct_def NS_struct_def
  PTR_struct_def RP_struct_def SOA_struct_def TXT_struct_def SPF_struct_def SRV_struct_def
  NAPTR_struct_def CERT_struct_def DNAME_struct_def A_struct_def AAAA_struct_def PX_struct_def
  GPOS_struct_def LOC_struct_def RRSIG_struct_def NSEC_struct_def DS_struct_def KX_struct_def
  TA_struct_def TALINK_struct_def SSHFP_struct_def IPSECKEY_struct_def DNSKEY_struct_def
  RKEY_struct_def NSAP_struct_def NSAPPTR_struct_def NSEC3_struct_def NSEC3PARAM_struct_def
  TKEY_struct_def RFC3597_struct_def URI_struct_def DHCID_struct_def TLSA_struct_def HIP_struct_def
  NINFO_struct_def WKS_struct_def NID_struct_def L32_struct_def L64_struct_def LP_struct_def
  EUI48_struct_def EUI64_struct_def UID_struct_def GID_struct_def UINFO_struct_def EID_struct_def
  NIMLOC_struct_def OPENPGPKEY_struct_def TSIG_struct_def OPT_struct_def

lemmas of_struct_defs =
  Header_of_struct_def Question_of_struct_def ANY_of_struct_def CNAME_of_struct_def
  HINFO_of_struct_def MB_of_struct_def MG_of_struct_def MINFO_of_struct_def MR_of_struct_def
  MF_of_struct_def MD_of_struct_def MX_of_struct_def AFSDB_of_struct_def X25_of_struct_def
  RT_of_struct_def NS_of_struct_def PTR_of_struct_def RP_of_struct_def SOA_of_struct_def
  TXT_of_struct_def SPF_of_struct_def SRV_of_struct_def NAPTR_of_struct_def CERT_of_struct_def
  DNAME_of_struct_def A_of_struct_def AAAA_of_struct_def PX_of_struct_def GPOS_of_struct_def
  LOC_of_struct_def RRSIG_of_struct_def NSEC_of_struct_def DS_of_struct_def KX_of_struct_def
  TA_of_struct_def TALINK_of_struct_def SSHFP_of_struct_def IPSECKEY_of_struct_def
  DNSKEY_of_struct_def RKEY_of_struct_def NSAP_of_struct_def NSAPPTR_of_struct_def NSEC3_of_struct_def
  NSEC3PARAM_of_struct_def TKEY_of_struct_def RFC3597_of_struct_def URI_of_struct_def
  DHCID_of_struct_def TLSA_of_struct_def HIP_of_struct_def NINFO_of_struct_def WKS_of_struct_def
  NID_of_struct_def L32_of_struct_def L64_of_struct_def LP_of_struct_def EUI48_of_struct_def
  EUI64_of_struct_def UID_of_struct_def GID_of_struct_def UINFO_of_struct_def EID_of_struct_def
  NIMLOC_of_struct_def OPENPGPKEY_of_struct_def TSIG_of_struct_def OPT_of_struct_def

lemma structValue_wire_form:
  assumes "structValue rr = VStruct tn (Field ''Hdr'' [] (RR_Header_struct (Header rr)) # rr_fields rr)"
  shows "structValue (wire_form k rr) =
    VStruct tn (Field ''Hdr'' [] (RR_Header_struct (Header rr\<lparr>Rdlength := k\<rparr>)) # map norm_field (rr_fields rr))"
  using assms
  by (cases rr)
     (simp_all add: wire_form_def rr_fields_def struct_defs of_struct_defs norm_field_def wire_norm_def RR_Header_of_def, auto)

definition plain_addresses :: "RR \<Rightarrow> bool" where
  "plain_addresses rr \<longleftrightarrow>
     (\<forall>n a. Field n ''a'' (VIP a) \<in> set (rr_fields rr) \<longrightarrow> (\<exists>b. length b = 4 \<and> a = v4InV6Prefix @ b))"

definition same_record :: "RR \<Rightarrow> RR \<Rightarrow> bool" where
  "same_record rr rr' \<longleftrightarrow>
     (\<exists>k. structValue rr' =
        (case structValue rr of
           VStruct tn fs \<Rightarrow> VStruct tn (Field ''Hdr'' [] (RR_Header_struct (Header rr\<lparr>Rdlength := k\<rparr>)) # tl fs)
         | v \<Rightarrow> v))"

lemma norm_field_plain:
  "(\<And>a. f = Field n ''a'' (VIP a) \<Longrightarrow> \<exists>b. length b = 4 \<and> a = v4InV6Prefix @ b) \<Longrightarrow> f = Field n tag v \<Longrightarrow>
    norm_field f = f"
  by (cases v) (auto simp: norm_field_def wire_norm_def v4InV6Prefix_def)

lemma same_record_wire_form:
  assumes "rr_ok compress rr" "plain_addresses rr"
  shows "same_record rr (wire_form k rr)"
proof -
  obtain tn where rr: "structValue rr = VStruct tn (Field ''Hdr'' [] (RR_Header_struct (Header rr)) # rr_fields rr)"
    using assms(1) unfolding rr_ok_def rr_typed_def by blast
  have "norm_field f = f" if f: "f \<in> set (rr_fields rr)" for f
  proof (cases f)
    case (Field n tag v)
    then show ?thesis using assms(2) f unfolding plain_addresses_def by (intro norm_field_plain) auto
  qed
  then have "map norm_field (rr_fields rr) = rr_fields rr" by (intro map_idI) simp
  then show ?thesis using structValue_wire_form [OF rr, of k] by (auto simp: same_record_def rr)
qed

section \<open>Records of the common types\<close>

text \<open>A name in text that is not too long.\<close>

definition dns_name :: "bool \<Rightarrow> string \<Rightarrow> bool" where
  "dns_name compress s \<longleftrightarrow> length s \<le> 1024 \<and> (\<exists>ls. name_ok compress ls \<and> s = name_text ls)"

lemma text_labels_length: "plain_labels ls \<Longrightarrow> length (text_labels ls) \<le> 64 * length ls"
proof (induction ls)
  case (Cons l ls)
  then have "length (text_labels ls) \<le> 64 * length ls" "text_label l = l" "length l < 64"
    by (simp_all add: plain_labels_def label_def)
  then show ?case by (simp add: text_labels_def)
qed (simp add: text_labels_def)

lemma dns_name_plain: "plain_labels ls \<Longrightarrow> ls \<noteq> [] \<Longrightarrow> length ls \<le> 10 \<Longrightarrow> dns_name c (text_labels ls)"
  using text_labels_length [of ls]
  by (auto simp: dns_name_def name_ok_def name_text_def plain_labels_def intro!: exI [of _ ls])

lemma new_RR_types [simp]:
  "new_RR TypeA = RR_A A_zero" "new_RR TypeAAAA = RR_AAAA AAAA_zero" "new_RR TypeNS = RR_NS NS_zero"
  "new_RR TypeCNAME = RR_CNAME CNAME_zero" "new_RR TypePTR = RR_PTR PTR_zero" "new_RR TypeMX = RR_MX MX_zero"
  "new_RR TypeSOA = RR_SOA SOA_zero" "new_RR TypeSRV = RR_SRV SRV_zero"
  by (simp_all add: new_RR_def typeToRR_def)

lemmas rr_ok_defs = rr_ok_def rr_typed_def rr_fields_def rr_size_def fields_size_def field_ok_def leaf_ok_def leaf_size_def
  same_field_def dns_name_def hdr_len_def Let_def

lemma rr_ok_A:
  "dns_name c (hdrName (a_Hdr r)) \<Longrightarrow> Rrtype (a_Hdr r) = TypeA \<Longrightarrow> length (a_A r) = 4 \<or> length (a_A r) = 16 \<Longrightarrow>
    rr_ok c (RR_A r)"
  by (simp add: rr_ok_defs new_RR_types [simplified] A_struct_def A_zero_def A_len_def IPv4len_def fun_eq_iff) blast

lemma rr_ok_AAAA:
  "dns_name c (hdrName (aaaa_Hdr r)) \<Longrightarrow> Rrtype (aaaa_Hdr r) = TypeAAAA \<Longrightarrow> length (aaaa_AAAA r) = 16 \<Longrightarrow>
    rr_ok c (RR_AAAA r)"
  by (simp add: rr_ok_defs new_RR_types [simplified] AAAA_struct_def AAAA_zero_def AAAA_len_def IPv6len_def fun_eq_iff) blast

lemma rr_ok_NS:
  "dns_name c (hdrName (ns_Hdr r)) \<Longrightarrow> Rrtype (ns_Hdr r) = TypeNS \<Longrightarrow> dns_name c (ns_Ns r) \<Longrightarrow> rr_ok c (RR_NS r)"
  by (simp add: rr_ok_defs new_RR_types [simplified] NS_struct_def NS_zero_def NS_len_def fun_eq_iff) blast

lemma rr_ok_CNAME:
  "dns_name c (hdrName (cname_Hdr r)) \<Longrightarrow> Rrtype (cname_Hdr r) = TypeCNAME \<Longrightarrow> dns_name c (cname_Target r) \<Longrightarrow>
    rr_ok c (RR_CNAME r)"
  by (simp add: rr_ok_defs new_RR_types [simplified] CNAME_struct_def CNAME_zero_def CNAME_len_def fun_eq_iff) blast

lemma rr_ok_PTR:
  "dns_name c (hdrName (ptr_Hdr r)) \<Longrightarrow> Rrtype (ptr_Hdr r) = TypePTR \<Longrightarrow> dns_name c (ptr_Ptr r) \<Longrightarrow> rr_ok c (RR_PTR r)"
  by (simp add: rr_ok_defs new_RR_types [simplified] PTR_struct_def PTR_zero_def PTR_len_def fun_eq_iff) blast

lemma rr_ok_MX:
  "dns_name c (hdrName (mx_Hdr r)) \<Longrightarrow> Rrtype (mx_Hdr r) = TypeMX \<Longrightarrow> dns_name c (mx_Mx r) \<Longrightarrow> rr_ok c (RR_MX r)"
  by (simp add: rr_ok_defs new_RR_types [simplified] MX_struct_def MX_zero_def MX_len_def fun_eq_iff) blast

lemma rr_ok_SRV:
  "dns_name c (hdrName (srv_Hdr r)) \<Longrightarrow> Rrtype (srv_Hdr r) = TypeSRV \<Longrightarrow> dns_name False (srv_Target r) \<Longrightarrow>
    rr_ok c (RR_SRV r)"
  by (simp add: rr_ok_defs new_RR_types [simplified] SRV_struct_def SRV_zero_def SRV_len_def fun_eq_iff) blast

lemma rr_ok_SOA:
  "dns_name c (hdrName (soa_Hdr r)) \<Longrightarrow> Rrtype (soa_Hdr r) = TypeSOA \<Longrightarrow> dns_name c (soa_Ns r) \<Longrightarrow>
    dns_name c (soa_Mbox r) \<Longrightarrow> rr_ok c (RR_SOA r)"
  by (simp add: rr_ok_defs new_RR_types [simplified] SOA_struct_def SOA_zero_def SOA_len_def fun_eq_iff) blast

end
