(* ===== verification/Dns_Message.thy ===== *)
theory Dns_Message
  imports Dns_Struct Dns_Labels
begin

unbundle bit_operations_syntax

text \<open>
  Whole messages (\<^verbatim>\<open>msg.go\<close>, \<^verbatim>\<open>defaults.go\<close>): their length with and without compression, packing
  and unpacking, copies, the text of their header, and the functions that set up special messages.
\<close>

section \<open>Setting up messages\<close>

definition defaultTtl :: uint32 where
  "defaultTtl = 3600"

definition SetNotify :: "uint16 \<Rightarrow> Msg \<Rightarrow> string \<Rightarrow> Msg" where
  "SetNotify newId dns z =
     dns\<lparr>Opcode := OpcodeNotify, Authoritative := True, msgId := newId,
         Questions := [\<lparr>qName = z, Qtype = TypeSOA, Qclass = ClassINET\<rparr>]\<rparr>"

definition SetUpdate :: "uint16 \<Rightarrow> Msg \<Rightarrow> string \<Rightarrow> Msg" where
  "SetUpdate newId dns z =
     dns\<lparr>msgId := newId, Response := False, Opcode := OpcodeUpdate, Compress := False,
         Questions := [\<lparr>qName = z, Qtype = TypeSOA, Qclass = ClassINET\<rparr>]\<rparr>"

definition SetIxfr :: "uint16 \<Rightarrow> Msg \<Rightarrow> string \<Rightarrow> uint32 \<Rightarrow> Msg" where
  "SetIxfr newId dns z serial =
     dns\<lparr>msgId := newId,
         Questions := [\<lparr>qName = z, Qtype = TypeIXFR, Qclass = ClassINET\<rparr>],
         Ns := [RR_SOA (SOA_zero\<lparr>soa_Hdr := \<lparr>hdrName = z, Rrtype = TypeSOA, hdrClass = ClassINET,
                   Ttl = defaultTtl, Rdlength = 0\<rparr>, soa_Serial := serial\<rparr>)]\<rparr>"

definition SetAxfr :: "uint16 \<Rightarrow> Msg \<Rightarrow> string \<Rightarrow> Msg" where
  "SetAxfr newId dns z =
     dns\<lparr>msgId := newId, Questions := [\<lparr>qName = z, Qtype = TypeAXFR, Qclass = ClassINET\<rparr>]\<rparr>"

definition SetTsig :: "Msg \<Rightarrow> string \<Rightarrow> string \<Rightarrow> int \<Rightarrow> int \<Rightarrow> Msg" where
  "SetTsig dns z algo fudge timesigned =
     dns\<lparr>Extra := Extra dns @
       [RR_TSIG (TSIG_zero\<lparr>tsig_Hdr := \<lparr>hdrName = z, Rrtype = TypeTSIG, hdrClass = ClassANY, Ttl = 0, Rdlength = 0\<rparr>,
          tsig_Algorithm := algo, tsig_Fudge := 300, tsig_TimeSigned := word_of_int timesigned,
          tsig_OrigId := msgId dns\<rparr>)]\<rparr>"

definition SetEdns0 :: "Msg \<Rightarrow> uint16 \<Rightarrow> bool \<Rightarrow> Msg" where
  "SetEdns0 dns udpsize dnssec =
     (let e = OPT_zero\<lparr>opt_Hdr := RR_Header_zero\<lparr>hdrName := ''.'', Rrtype := TypeOPT\<rparr>\<rparr>;
          e = OPT_SetUDPSize e udpsize;
          e = (if dnssec then OPT_SetDo e else e)
      in dns\<lparr>Extra := Extra dns @ [RR_OPT e]\<rparr>)"

definition IsTsig :: "Msg \<Rightarrow> TSIG_RR option run" where
  "IsTsig dns =
     (if Extra dns \<noteq> [] \<and> Rrtype (Header (last (Extra dns))) = TypeTSIG then
        (case last (Extra dns) of
           RR_TSIG t \<Rightarrow> Done (Some t) | _ \<Rightarrow> Panic (PanicError ''interface conversion''))
      else Done None)"

fun find_opt :: "RR list \<Rightarrow> OPT_RR option run" where
  "find_opt [] = Done None"
| "find_opt (r # rs) =
     (if Rrtype (Header r) = TypeOPT then
        (case r of RR_OPT o' \<Rightarrow> Done (Some o') | _ \<Rightarrow> Panic (PanicError ''interface conversion''))
      else find_opt rs)"

definition IsEdns0 :: "Msg \<Rightarrow> OPT_RR option run" where
  "IsEdns0 dns = find_opt (Extra dns)"

section \<open>The length of a message\<close>

text \<open>The parts of a name, from the last one on, are put into the compression map.\<close>

definition compressionLenHelper :: "(string \<rightharpoonup> nat) \<Rightarrow> string \<Rightarrow> (string \<rightharpoonup> nat)" where
  "compressionLenHelper c s =
     foldl (\<lambda>c j. let pref = drop j s in if c pref = None then c(pref \<mapsto> length pref) else c)
       c (rev (SplitLabels s))"

function search_from :: "(string \<rightharpoonup> nat) \<Rightarrow> string \<Rightarrow> nat \<Rightarrow> bool \<Rightarrow> nat \<times> bool" where
  "search_from c s off e =
     (if c (drop off s) \<noteq> None then (length (drop off s), True)
      else if e then (0, False)
      else case NextLabel s off of (off', e') \<Rightarrow> search_from c s off' e')"
  by pat_completeness auto
termination
  by (relation "measures [\<lambda>(c, s, off, e). if e then 0 else 1, \<lambda>(c, s, off, e). length s - off]")
     (auto dest!: sym [of _ "NextLabel _ _"] NextLabel_progress split: if_splits)

declare search_from.simps [simp del]

definition compressionLenSearch :: "(string \<rightharpoonup> nat) \<Rightarrow> string \<Rightarrow> nat \<times> bool" where
  "compressionLenSearch c s = (if s = [] then (0, False) else search_from c s 0 False)"

definition compressionLenHelperType :: "(string \<rightharpoonup> nat) \<Rightarrow> RR \<Rightarrow> (string \<rightharpoonup> nat)" where
  "compressionLenHelperType c r =
     (case r of
        RR_NS x \<Rightarrow> compressionLenHelper c (ns_Ns x)
      | RR_MX x \<Rightarrow> compressionLenHelper c (mx_Mx x)
      | RR_CNAME x \<Rightarrow> compressionLenHelper c (cname_Target x)
      | RR_PTR x \<Rightarrow> compressionLenHelper c (ptr_Ptr x)
      | RR_SOA x \<Rightarrow> compressionLenHelper (compressionLenHelper c (soa_Ns x)) (soa_Mbox x)
      | RR_MB x \<Rightarrow> compressionLenHelper c (mb_Mb x)
      | RR_MG x \<Rightarrow> compressionLenHelper c (mg_Mg x)
      | RR_MR x \<Rightarrow> compressionLenHelper c (mr_Mr x)
      | RR_MF x \<Rightarrow> compressionLenHelper c (mf_Mf x)
      | RR_MD x \<Rightarrow> compressionLenHelper c (md_Md x)
      | RR_RT x \<Rightarrow> compressionLenHelper c (rt_Host x)
      | RR_MINFO x \<Rightarrow> compressionLenHelper (compressionLenHelper c (minfo_Rmail x)) (minfo_Email x)
      | RR_AFSDB x \<Rightarrow> compressionLenHelper c (afsdb_Hostname x)
      | _ \<Rightarrow> c)"

definition search_two :: "(string \<rightharpoonup> nat) \<Rightarrow> string \<Rightarrow> string \<Rightarrow> nat \<times> bool" where
  "search_two c s s1 =
     (case (compressionLenSearch c s, compressionLenSearch c s1) of ((k, ok), (k1, ok1)) \<Rightarrow>
        if \<not> ok \<and> \<not> ok1 then (0, False) else (k + k1, True))"

definition compressionLenSearchType :: "(string \<rightharpoonup> nat) \<Rightarrow> RR \<Rightarrow> nat \<times> bool" where
  "compressionLenSearchType c r =
     (case r of
        RR_NS x \<Rightarrow> compressionLenSearch c (ns_Ns x)
      | RR_MX x \<Rightarrow> compressionLenSearch c (mx_Mx x)
      | RR_CNAME x \<Rightarrow> compressionLenSearch c (cname_Target x)
      | RR_PTR x \<Rightarrow> compressionLenSearch c (ptr_Ptr x)
      | RR_SOA x \<Rightarrow> search_two c (soa_Ns x) (soa_Mbox x)
      | RR_MB x \<Rightarrow> compressionLenSearch c (mb_Mb x)
      | RR_MG x \<Rightarrow> compressionLenSearch c (mg_Mg x)
      | RR_MR x \<Rightarrow> compressionLenSearch c (mr_Mr x)
      | RR_MF x \<Rightarrow> compressionLenSearch c (mf_Mf x)
      | RR_MD x \<Rightarrow> compressionLenSearch c (md_Md x)
      | RR_RT x \<Rightarrow> compressionLenSearch c (rt_Host x)
      | RR_MINFO x \<Rightarrow> search_two c (minfo_Rmail x) (minfo_Email x)
      | RR_AFSDB x \<Rightarrow> compressionLenSearch c (afsdb_Hostname x)
      | _ \<Rightarrow> (0, False))"

text \<open>What is saved by a name or two that were found: \<open>k\<close> octets for one.\<close>

definition saved :: "int \<Rightarrow> nat \<times> bool \<Rightarrow> int" where
  "saved l f = (case f of (k, ok) \<Rightarrow> if ok then l + (1 - int k) else l)"

primrec len_questions :: "bool \<Rightarrow> Question list \<Rightarrow> int \<times> (string \<rightharpoonup> nat) \<Rightarrow> int \<times> (string \<rightharpoonup> nat)" where
  "len_questions compress [] lc = lc"
| "len_questions compress (q # qs) lc =
     len_questions compress qs
       (fst lc + int (Question_len q), if compress then compressionLenHelper (snd lc) (qName q) else snd lc)"

definition len_rr :: "bool \<Rightarrow> RR \<Rightarrow> int \<times> (string \<rightharpoonup> nat) \<Rightarrow> (int \<times> (string \<rightharpoonup> nat)) run" where
  "len_rr compress r lc =
     run_bind (RR_len r) (\<lambda>n.
       case lc of (l, c) \<Rightarrow>
         let l = l + int n in
         if compress then
           let l = saved l (compressionLenSearch c (hdrName (Header r)));
               c = compressionLenHelper c (hdrName (Header r));
               l = saved l (compressionLenSearchType c r)
           in Done (l, compressionLenHelperType c r)
         else Done (l, c))"

primrec len_rrs :: "bool \<Rightarrow> RR list \<Rightarrow> int \<times> (string \<rightharpoonup> nat) \<Rightarrow> (int \<times> (string \<rightharpoonup> nat)) run" where
  "len_rrs compress [] lc = Done lc"
| "len_rrs compress (r # rs) lc = run_bind (len_rr compress r lc) (len_rrs compress rs)"

definition Msg_Len :: "Msg \<Rightarrow> int run" where
  "Msg_Len dns =
     run_bind (len_rrs (Compress dns) (Answer dns) (len_questions (Compress dns) (Questions dns) (12, Map.empty)))
       (\<lambda>lc. run_bind (len_rrs (Compress dns) (Ns dns) lc)
         (\<lambda>lc. run_bind (len_rrs (Compress dns) (Extra dns) lc) (\<lambda>lc. Done (fst lc))))"

section \<open>Packing\<close>

text \<open>
  A response code of more than four bits: the upper bits go to the first OPT record of the
  additional section, which changes the message.
\<close>

fun set_extended_rcode :: "byte \<Rightarrow> RR list \<Rightarrow> RR list" where
  "set_extended_rcode v [] = []"
| "set_extended_rcode v (r # rs) =
     (case r of
        RR_OPT o' \<Rightarrow>
          if Rrtype (Header r) = TypeOPT then RR_OPT (OPT_SetExtendedRcode o' v) # rs
          else r # set_extended_rcode v rs
      | _ \<Rightarrow> r # set_extended_rcode v rs)"

definition split_rcode :: "Msg \<Rightarrow> (dns_error + Msg) run" where
  "split_rcode dns =
     (if Rcode dns < 0 \<or> 0xFFF < Rcode dns then Done (Inl ErrRcode)
      else if 0xF < Rcode dns then
        run_bind (IsEdns0 dns) (\<lambda>opt.
          case opt of
            None \<Rightarrow> Done (Inl ErrExtendedRcode)
          | Some _ \<Rightarrow>
              Done (Inr (dns\<lparr>Extra := set_extended_rcode (word_of_int (drop_bit 4 (Rcode dns))) (Extra dns),
                Rcode := Rcode dns AND 0xF\<rparr>)))
      else Done (Inr dns))"

definition msg_header :: "Msg \<Rightarrow> MsgHeader" where
  "msg_header dns =
     \<lparr>wire_Id = msgId dns, wire_Bits = header_bits dns,
      wire_Qdcount = of_nat (length (Questions dns)), wire_Ancount = of_nat (length (Answer dns)),
      wire_Nscount = of_nat (length (Ns dns)), wire_Arcount = of_nat (length (Extra dns))\<rparr>"

primrec pack_questions :: "Question list \<Rightarrow> pack_pos \<Rightarrow> bool \<Rightarrow> (dns_error + pack_pos) run" where
  "pack_questions [] st compress = Done (Inr st)"
| "pack_questions (q # qs) st compress =
     try_bind (packStructValue (Question_struct q) st compress) (\<lambda>st. pack_questions qs st compress)"

primrec pack_rrs :: "RR list \<Rightarrow> pack_pos \<Rightarrow> bool \<Rightarrow> (dns_error + pack_pos) run" where
  "pack_rrs [] st compress = Done (Inr st)"
| "pack_rrs (r # rs) st compress = try_bind (PackRR r st compress) (\<lambda>st. pack_rrs rs st compress)"

definition pack_sections :: "Msg \<Rightarrow> string \<Rightarrow> (dns_error + string) run" where
  "pack_sections dns msg =
     try_bind (packStructValue (Header_struct (msg_header dns)) (0, msg, Map.empty) (Compress dns)) (\<lambda>st.
     try_bind (pack_questions (Questions dns) st (Compress dns)) (\<lambda>st.
     try_bind (pack_rrs (Answer dns) st (Compress dns)) (\<lambda>st.
     try_bind (pack_rrs (Ns dns) st (Compress dns)) (\<lambda>st.
     try_bind (pack_rrs (Extra dns) st (Compress dns)) (\<lambda>(off, msg, _).
       Done (Inr (take off msg)))))))"

text \<open>The result comes with the message, which a large response code changes.\<close>

definition PackBuffer :: "Msg \<Rightarrow> string \<Rightarrow> ((dns_error + string) \<times> Msg) run" where
  "PackBuffer dns buf =
     run_bind (split_rcode dns) (\<lambda>r.
       case r of
         Inl e \<Rightarrow> Done (Inl e, dns)
       | Inr dns \<Rightarrow>
           run_bind (Msg_Len (dns\<lparr>Compress := False\<rparr>)) (\<lambda>l.
             let packLen = l + 1;
                 msg = (if int (length buf) < packLen then replicate (nat packLen) CHR 0x00 else buf)
             in run_bind (pack_sections dns msg) (\<lambda>r. Done (r, dns))))"

definition Pack :: "Msg \<Rightarrow> ((dns_error + string) \<times> Msg) run" where
  "Pack dns = PackBuffer dns []"

section \<open>Unpacking\<close>

text \<open>
  The error comes with the message.  After an error the fields of its header are those of the source,
  and its sections have only the entries that were unpacked, without the empty ones behind them.
\<close>

primrec unpack_questions ::
  "nat \<Rightarrow> string \<Rightarrow> nat \<Rightarrow> Question list \<Rightarrow> (Question list \<times> nat \<times> dns_error option) run" where
  "unpack_questions 0 msg off qs = Done (qs, off, None)"
| "unpack_questions (Suc n) msg off qs =
     run_bind (unpackStructValue (Question_struct Question_zero) msg off) (\<lambda>r.
       case r of
         Inl e \<Rightarrow> Done (qs, length msg, Some e)
       | Inr (v, off) \<Rightarrow> unpack_questions n msg off (qs @ [Question_of_struct v]))"

primrec unpack_rrs :: "nat \<Rightarrow> string \<Rightarrow> nat \<Rightarrow> RR list \<Rightarrow> (RR list \<times> nat \<times> dns_error option) run" where
  "unpack_rrs 0 msg off rs = Done (rs, off, None)"
| "unpack_rrs (Suc n) msg off rs =
     run_bind (UnpackRR msg off) (\<lambda>r.
       case r of
         Inl e \<Rightarrow> Done (rs, length msg, Some e)
       | Inr (r, off) \<Rightarrow> unpack_rrs n msg off (rs @ [r]))"

definition unpack_sections :: "MsgHeader \<Rightarrow> string \<Rightarrow> nat \<Rightarrow> Msg \<Rightarrow> (Msg \<times> dns_error option) run" where
  "unpack_sections dh msg off dns =
     run_bind (unpack_rrs (unat (wire_Ancount dh)) msg off []) (\<lambda>(an, off, err).
       let dns = dns\<lparr>Answer := an\<rparr> in
       if err \<noteq> None then Done (dns, err)
       else run_bind (unpack_rrs (unat (wire_Nscount dh)) msg off []) (\<lambda>(ns, off, err).
         let dns = dns\<lparr>Ns := ns\<rparr> in
         if err \<noteq> None then Done (dns, err)
         else run_bind (unpack_rrs (unat (wire_Arcount dh)) msg off []) (\<lambda>(ex, off, err).
           Done (dns\<lparr>Extra := ex\<rparr>, err))))"

definition Unpack :: "Msg \<Rightarrow> string \<Rightarrow> (Msg \<times> dns_error option) run" where
  "Unpack dns msg =
     run_bind (unpackStructValue (Header_struct Header_zero) msg 0) (\<lambda>r.
       case r of
         Inl e \<Rightarrow> Done (dns, Some e)
       | Inr (v, off) \<Rightarrow>
           let dh = Header_of_struct v;
               dns = set_header_bits (wire_Bits dh) (dns\<lparr>msgId := wire_Id dh\<rparr>);
               dns = dns\<lparr>Questions := [], Answer := [], Ns := [], Extra := []\<rparr>
           in run_bind (unpack_questions (unat (wire_Qdcount dh)) msg off []) (\<lambda>(qs, off, err).
                let dns = dns\<lparr>Questions := qs\<rparr> in
                if err \<noteq> None then Done (dns, err)
                else if Truncated dns then Done (dns, None)
                else unpack_sections dh msg off dns))"

section \<open>Copies and text\<close>

definition Msg_Copy :: "Msg \<Rightarrow> Msg" where
  "Msg_Copy dns =
     empty_Msg\<lparr>msgId := msgId dns, Response := Response dns, Opcode := Opcode dns,
       Authoritative := Authoritative dns, Truncated := Truncated dns,
       RecursionDesired := RecursionDesired dns, RecursionAvailable := RecursionAvailable dns,
       ZeroBit := ZeroBit dns, AuthenticatedData := AuthenticatedData dns,
       CheckingDisabled := CheckingDisabled dns, Rcode := Rcode dns, Compress := Compress dns,
       Questions := Questions dns, Answer := map RR_copy (Answer dns), Ns := map RR_copy (Ns dns),
       Extra := map RR_copy (Extra dns)\<rparr>"

definition MsgHdr_String :: "Msg \<Rightarrow> string" where
  "MsgHdr_String h =
     '';; opcode: '' @ lookup_str OpcodeToString_table (Opcode h) @
     '', status: '' @ RcodeToString (Rcode h) @
     '', id: '' @ Uitoa (msgId h) @ [CHR 0x0A] @
     '';; flags:'' @
     (if Response h then '' qr'' else []) @ (if Authoritative h then '' aa'' else []) @
     (if Truncated h then '' tc'' else []) @ (if RecursionDesired h then '' rd'' else []) @
     (if RecursionAvailable h then '' ra'' else []) @ (if ZeroBit h then '' z'' else []) @
     (if AuthenticatedData h then '' ad'' else []) @ (if CheckingDisabled h then '' cd'' else []) @
     '';''"

end
