(* ===== verification/Dns_Message_Properties.thy ===== *)
theory Dns_Message_Properties
  imports Dns_Record_Properties Dns_Message
begin

text \<open>
  The round trip of whole messages: \<open>Msg_Len\<close> makes a buffer that is large enough, \<open>Pack\<close> fills it, and
  \<open>Unpack\<close> reads the message back, with and without compression.
\<close>

section \<open>Sections of a message\<close>

definition sent_as :: "RR \<Rightarrow> RR \<Rightarrow> bool" where
  "sent_as rr rr' \<longleftrightarrow> (\<exists>k. rr' = wire_form k rr)"

definition rrs_at :: "(nat \<rightharpoonup> char) \<Rightarrow> RR list \<Rightarrow> nat \<Rightarrow> nat \<Rightarrow> bool" where
  "rrs_at V rs off off' \<longleftrightarrow>
     (\<exists>rs'. list_all2 sent_as rs rs' \<and>
        (\<forall>msg acc. V \<subseteq>\<^sub>m view {} (length msg) msg \<longrightarrow>
           unpack_rrs (length rs) msg off acc = Done (acc @ rs', off', None)))"

lemma rrs_at_mono: "rrs_at V rs off off' \<Longrightarrow> V \<subseteq>\<^sub>m W \<Longrightarrow> rrs_at W rs off off'"
  unfolding rrs_at_def by (meson map_le_trans)

lemma rrs_at_Cons:
  assumes "rr_at V r off mid" "rrs_at V rs mid off'"
  shows "rrs_at V (r # rs) off off'"
proof -
  obtain k where r: "\<And>msg. V \<subseteq>\<^sub>m view {} (length msg) msg \<Longrightarrow> UnpackRR msg off = Done (Inr (wire_form k r, mid))"
    using assms(1) unfolding rr_at_def by blast
  obtain rs' where rs: "list_all2 sent_as rs rs'"
    "\<And>msg acc. V \<subseteq>\<^sub>m view {} (length msg) msg \<Longrightarrow> unpack_rrs (length rs) msg mid acc = Done (acc @ rs', off', None)"
    using assms(2) unfolding rrs_at_def by blast
  have "list_all2 sent_as (r # rs) (wire_form k r # rs')" using rs(1) by (auto simp: sent_as_def)
  then show ?thesis unfolding rrs_at_def using r rs(2) by (intro exI [of _ "wire_form k r # rs'"]) simp
qed

definition rrs_size :: "RR list \<Rightarrow> nat" where
  "rrs_size rs = sum_list (map rr_size rs)"

lemma pack_rrs_ok:
  assumes "\<forall>r \<in> set rs. rr_ok compress r" "off + rrs_size rs \<le> length m" "cinv (view {} off m) c"
  shows "\<exists>off' m' c'. pack_rrs rs (off, m, c) compress = Done (Inr (off', m', c')) \<and>
    packed {} off m (rrs_size rs) off' m' c' \<and> rrs_at (view {} off' m') rs off off'"
  using assms
proof (induction rs arbitrary: off m c)
  case Nil
  then show ?case by (simp add: packed_def rrs_size_def rrs_at_def)
next
  case (Cons r rs)
  obtain off1 m1 c1 where r: "PackRR r (off, m, c) compress = Done (Inr (off1, m1, c1))"
    "packed {} off m (rr_size r) off1 m1 c1" "rr_at (view {} off1 m1) r off off1"
    using PackRR_ok [of compress r off m c] Cons.prems by (auto simp: rrs_size_def)
  obtain off2 m2 c2 where rs: "pack_rrs rs (off1, m1, c1) compress = Done (Inr (off2, m2, c2))"
    "packed {} off1 m1 (rrs_size rs) off2 m2 c2" "rrs_at (view {} off2 m2) rs off1 off2"
    using Cons.IH [of off1 m1 c1] Cons.prems r(2) by (auto simp: packed_def rrs_size_def)
  have "view {} off1 m1 \<subseteq>\<^sub>m view {} off2 m2" using rs(2) by (simp add: packed_def)
  then have "rrs_at (view {} off2 m2) (r # rs) off off2"
    using rr_at_mono [OF r(3)] rs(3) by (blast intro: rrs_at_Cons)
  then show ?case
    using r(1) rs(1) packed_trans [OF r(2) rs(2)] by (auto simp: rrs_size_def)
qed

text \<open>Questions and the header of a message are structures of plain fields.\<close>

definition questions_at :: "(nat \<rightharpoonup> char) \<Rightarrow> Question list \<Rightarrow> nat \<Rightarrow> nat \<Rightarrow> bool" where
  "questions_at V qs off off' \<longleftrightarrow>
     (\<forall>msg acc. V \<subseteq>\<^sub>m view {} (length msg) msg \<longrightarrow>
        unpack_questions (length qs) msg off acc = Done (acc @ qs, off', None))"

lemma questions_at_mono: "questions_at V qs off off' \<Longrightarrow> V \<subseteq>\<^sub>m W \<Longrightarrow> questions_at W qs off off'"
  unfolding questions_at_def by (meson map_le_trans)

definition question_ok :: "bool \<Rightarrow> Question \<Rightarrow> bool" where
  "question_ok compress q \<longleftrightarrow> (\<exists>ls. name_ok compress ls \<and> qName q = name_text ls)"

definition questions_size :: "Question list \<Rightarrow> nat" where
  "questions_size qs = sum_list (map Question_len qs)"

lemma pack_struct_ok:
  assumes "\<forall>f \<in> set fs. field_ok compress f" "\<forall>f \<in> set fs. norm_field f = f" "\<forall>f \<in> set fs. \<forall>n tag a. f \<noteq> Field n tag (VIP a)"
    and "off + fields_size fs \<le> length m" "cinv (view {} off m) c" "list_all2 same_field fs fs0"
  shows "\<exists>off' m' c'. packStructValue (VStruct tn fs) (off, m, c) compress = Done (Inr (off', m', c')) \<and>
    packed {} off m (fields_size fs) off' m' c' \<and>
    (\<forall>msg. view {} off' m' \<subseteq>\<^sub>m view {} (length msg) msg \<longrightarrow>
       unpackStructValue (VStruct tn fs0) msg off = Done (Inr (VStruct tn fs, off')))"
proof -
  obtain off' m' c' where run: "pack_fields fs (off, m, c) compress = Done (Inr (off', m', c'))"
    "packed {} off m (fields_size fs) off' m' c'" "fields_at (view {} off' m') fs off off'"
    using pack_fields_ok [OF assms(1,4), of "{}" c] assms(5) by auto
  have "off' \<le> length m'" using run(2) assms(4) by (simp add: packed_def)
  then have "unpackStructValue (VStruct tn fs0) msg off = Done (Inr (VStruct tn fs, off'))"
    if V: "view {} off' m' \<subseteq>\<^sub>m view {} (length msg) msg" for msg
    using unpack_fields_at [OF run(3) V assms(6) view_inside [OF V], of 0 tn "[]"] assms(2,3) by (simp add: map_idI)
  then show ?thesis using run(1,2) by auto
qed

lemma pack_question_ok:
  assumes "question_ok compress q" "off + Question_len q \<le> length m" "cinv (view {} off m) c"
  shows "\<exists>off' m' c'. packStructValue (Question_struct q) (off, m, c) compress = Done (Inr (off', m', c')) \<and>
    packed {} off m (Question_len q) off' m' c' \<and>
    (\<forall>msg. view {} off' m' \<subseteq>\<^sub>m view {} (length msg) msg \<longrightarrow>
       unpackStructValue (Question_struct Question_zero) msg off = Done (Inr (Question_struct q, off')))"
proof -
  let ?fs = "\<lambda>q. [Field ''Name'' ''cdomain-name'' (VString (qName q)), Field ''Qtype'' [] (VUint16 (Qtype q)),
      Field ''Qclass'' [] (VUint16 (Qclass q))]"
  have "fields_size (?fs q) = Question_len q"
    by (simp add: fields_size_def leaf_size_def Question_len_def)
  then show ?thesis
    unfolding Question_struct_def
    using assms pack_struct_ok [of "?fs q" compress off m c "?fs Question_zero"]
    by (auto simp: field_ok_def leaf_ok_def norm_field_def wire_norm_def same_field_def question_ok_def)
qed

lemma pack_questions_ok:
  assumes "\<forall>q \<in> set qs. question_ok compress q" "off + questions_size qs \<le> length m" "cinv (view {} off m) c"
  shows "\<exists>off' m' c'. pack_questions qs (off, m, c) compress = Done (Inr (off', m', c')) \<and>
    packed {} off m (questions_size qs) off' m' c' \<and> questions_at (view {} off' m') qs off off'"
  using assms
proof (induction qs arbitrary: off m c)
  case Nil
  then show ?case by (simp add: packed_def questions_size_def questions_at_def)
next
  case (Cons q qs)
  obtain off1 m1 c1 where q: "packStructValue (Question_struct q) (off, m, c) compress = Done (Inr (off1, m1, c1))"
    "packed {} off m (Question_len q) off1 m1 c1"
    "\<And>msg. view {} off1 m1 \<subseteq>\<^sub>m view {} (length msg) msg \<Longrightarrow>
       unpackStructValue (Question_struct Question_zero) msg off = Done (Inr (Question_struct q, off1))"
    using pack_question_ok [of compress q off m c] Cons.prems by (auto simp: questions_size_def)
  obtain off2 m2 c2 where qs: "pack_questions qs (off1, m1, c1) compress = Done (Inr (off2, m2, c2))"
    "packed {} off1 m1 (questions_size qs) off2 m2 c2" "questions_at (view {} off2 m2) qs off1 off2"
    using Cons.IH [of off1 m1 c1] Cons.prems q(2) by (auto simp: packed_def questions_size_def)
  have "view {} off1 m1 \<subseteq>\<^sub>m view {} off2 m2" using qs(2) by (simp add: packed_def)
  then have "questions_at (view {} off2 m2) (q # qs) off off2"
    using q(3) qs(3) map_le_trans unfolding questions_at_def by fastforce
  then show ?case
    using q(1) qs(1) packed_trans [OF q(2) qs(2)] by (auto simp: questions_size_def)
qed

lemma pack_header_ok:
  assumes "12 \<le> length m"
  shows "\<exists>off' m' c'. packStructValue (Header_struct h) (0, m, Map.empty) compress = Done (Inr (off', m', c')) \<and>
    packed {} 0 m 12 off' m' c' \<and>
    (\<forall>msg. view {} off' m' \<subseteq>\<^sub>m view {} (length msg) msg \<longrightarrow>
       unpackStructValue (Header_struct Header_zero) msg 0 = Done (Inr (Header_struct h, off')))"
proof -
  let ?fs = "\<lambda>h. [Field ''Id'' [] (VUint16 (wire_Id h)), Field ''Bits'' [] (VUint16 (wire_Bits h)),
      Field ''Qdcount'' [] (VUint16 (wire_Qdcount h)), Field ''Ancount'' [] (VUint16 (wire_Ancount h)),
      Field ''Nscount'' [] (VUint16 (wire_Nscount h)), Field ''Arcount'' [] (VUint16 (wire_Arcount h))]"
  have "fields_size (?fs h) = 12" by (simp add: fields_size_def leaf_size_def)
  then show ?thesis
    unfolding Header_struct_def
    using assms pack_struct_ok [of "?fs h" compress 0 m Map.empty "?fs Header_zero"]
    by (auto simp: field_ok_def leaf_ok_def norm_field_def wire_norm_def same_field_def)
qed

section \<open>Whole messages\<close>

definition msg_ok :: "Msg \<Rightarrow> bool" where
  "msg_ok dns \<longleftrightarrow>
     (\<forall>q \<in> set (Questions dns). question_ok (Compress dns) q) \<and>
     (\<forall>r \<in> set (Answer dns @ Ns dns @ Extra dns). rr_ok (Compress dns) r) \<and>
     length (Questions dns) < 65536 \<and> length (Answer dns) < 65536 \<and> length (Ns dns) < 65536 \<and>
     length (Extra dns) < 65536 \<and>
     0 \<le> Opcode dns \<and> Opcode dns < 16 \<and> 0 \<le> Rcode dns \<and> Rcode dns < 16"

lemma len_questions_size: "len_questions False qs (l, c) = (l + int (questions_size qs), c)"
  by (induction qs arbitrary: l) (simp_all add: questions_size_def)

lemma len_rrs_size:
  assumes "\<forall>r \<in> set rs. \<exists>n. RR_len r = Done n \<and> rr_size r \<le> n"
  shows "\<exists>l'. len_rrs False rs (l, c) = Done (l', c) \<and> l + int (rrs_size rs) \<le> l'"
  using assms
proof (induction rs arbitrary: l)
  case (Cons r rs)
  then obtain n where n: "RR_len r = Done n" "rr_size r \<le> n" by auto
  obtain l' where "len_rrs False rs (l + int n, c) = Done (l', c)" "l + int n + int (rrs_size rs) \<le> l'"
    using Cons.IH [of "l + int n"] Cons.prems by auto
  then show ?case using n by (auto simp: len_rr_def rrs_size_def)
qed (simp add: rrs_size_def)

definition msg_size :: "Msg \<Rightarrow> nat" where
  "msg_size dns = 12 + questions_size (Questions dns) + rrs_size (Answer dns) + rrs_size (Ns dns) + rrs_size (Extra dns)"

lemma Len_size:
  assumes "\<forall>r \<in> set (Answer dns @ Ns dns @ Extra dns). \<exists>n. RR_len r = Done n \<and> rr_size r \<le> n"
  shows "\<exists>l. Msg_Len (dns\<lparr>Compress := False\<rparr>) = Done l \<and> int (msg_size dns) \<le> l"
proof -
  let ?l = "12 + int (questions_size (Questions dns))" and ?c = "Map.empty :: string \<rightharpoonup> nat"
  obtain l1 where l1: "len_rrs False (Answer dns) (?l, ?c) = Done (l1, ?c)" "?l + int (rrs_size (Answer dns)) \<le> l1"
    using len_rrs_size [of "Answer dns" ?l ?c] assms by auto
  obtain l2 where l2: "len_rrs False (Ns dns) (l1, ?c) = Done (l2, ?c)" "l1 + int (rrs_size (Ns dns)) \<le> l2"
    using len_rrs_size [of "Ns dns" l1 ?c] assms by auto
  obtain l3 where l3: "len_rrs False (Extra dns) (l2, ?c) = Done (l3, ?c)" "l2 + int (rrs_size (Extra dns)) \<le> l3"
    using len_rrs_size [of "Extra dns" l2 ?c] assms by auto
  show ?thesis
    using l1 l2 l3 by (simp add: Msg_Len_def len_questions_size msg_size_def)
qed

text \<open>All the sections of a message that is in order are packed and read back.\<close>

lemma pack_sections_ok:
  assumes "msg_ok dns" "msg_size dns \<le> length m"
  shows "\<exists>off1 off2 off3 off4 off5 m'. pack_sections dns m = Done (Inr (take off5 m')) \<and> off5 \<le> length m' \<and>
    off5 \<le> msg_size dns \<and>
    (\<forall>msg. view {} off5 m' \<subseteq>\<^sub>m view {} (length msg) msg \<longrightarrow>
       unpackStructValue (Header_struct Header_zero) msg 0 = Done (Inr (Header_struct (msg_header dns), off1))) \<and>
    questions_at (view {} off5 m') (Questions dns) off1 off2 \<and> rrs_at (view {} off5 m') (Answer dns) off2 off3 \<and>
    rrs_at (view {} off5 m') (Ns dns) off3 off4 \<and> rrs_at (view {} off5 m') (Extra dns) off4 off5"
proof -
  let ?c = "Compress dns"
  have ok: "\<forall>q \<in> set (Questions dns). question_ok ?c q" "\<forall>r \<in> set (Answer dns). rr_ok ?c r"
    "\<forall>r \<in> set (Ns dns). rr_ok ?c r" "\<forall>r \<in> set (Extra dns). rr_ok ?c r"
    using assms(1) by (auto simp: msg_ok_def)
  obtain off1 m1 c1 where h: "packStructValue (Header_struct (msg_header dns)) (0, m, Map.empty) ?c = Done (Inr (off1, m1, c1))"
    "packed {} 0 m 12 off1 m1 c1"
    "\<forall>msg. view {} off1 m1 \<subseteq>\<^sub>m view {} (length msg) msg \<longrightarrow>
       unpackStructValue (Header_struct Header_zero) msg 0 = Done (Inr (Header_struct (msg_header dns), off1))"
    using pack_header_ok [of m "msg_header dns" ?c] assms(2) by (auto simp: msg_size_def)
  obtain off2 m2 c2 where q: "pack_questions (Questions dns) (off1, m1, c1) ?c = Done (Inr (off2, m2, c2))"
    "packed {} off1 m1 (questions_size (Questions dns)) off2 m2 c2" "questions_at (view {} off2 m2) (Questions dns) off1 off2"
    using pack_questions_ok [OF ok(1), of off1 m1 c1] h(2) assms(2) by (auto simp: packed_def msg_size_def)
  obtain off3 m3 c3 where a: "pack_rrs (Answer dns) (off2, m2, c2) ?c = Done (Inr (off3, m3, c3))"
    "packed {} off2 m2 (rrs_size (Answer dns)) off3 m3 c3" "rrs_at (view {} off3 m3) (Answer dns) off2 off3"
    using pack_rrs_ok [OF ok(2), of off2 m2 c2] h(2) q(2) assms(2) by (auto simp: packed_def msg_size_def)
  obtain off4 m4 c4 where n: "pack_rrs (Ns dns) (off3, m3, c3) ?c = Done (Inr (off4, m4, c4))"
    "packed {} off3 m3 (rrs_size (Ns dns)) off4 m4 c4" "rrs_at (view {} off4 m4) (Ns dns) off3 off4"
    using pack_rrs_ok [OF ok(3), of off3 m3 c3] h(2) q(2) a(2) assms(2) by (auto simp: packed_def msg_size_def)
  obtain off5 m5 c5 where e: "pack_rrs (Extra dns) (off4, m4, c4) ?c = Done (Inr (off5, m5, c5))"
    "packed {} off4 m4 (rrs_size (Extra dns)) off5 m5 c5" "rrs_at (view {} off5 m5) (Extra dns) off4 off5"
    using pack_rrs_ok [OF ok(4), of off4 m4 c4] h(2) q(2) a(2) n(2) assms(2) by (auto simp: packed_def msg_size_def)
  have grow4: "view {} off4 m4 \<subseteq>\<^sub>m view {} off5 m5" using e(2) by (simp add: packed_def)
  have grow3: "view {} off3 m3 \<subseteq>\<^sub>m view {} off5 m5" using n(2) grow4 by (auto simp: packed_def intro: map_le_trans)
  have grow2: "view {} off2 m2 \<subseteq>\<^sub>m view {} off5 m5" using a(2) grow3 by (auto simp: packed_def intro: map_le_trans)
  have grow1: "view {} off1 m1 \<subseteq>\<^sub>m view {} off5 m5" using q(2) grow2 by (auto simp: packed_def intro: map_le_trans)
  have "pack_sections dns m = Done (Inr (take off5 m5))"
    using h(1) q(1) a(1) n(1) e(1) by (simp add: pack_sections_def)
  moreover have "off5 \<le> msg_size dns" "length m5 = length m"
    using h(2) q(2) a(2) n(2) e(2) by (auto simp: packed_def msg_size_def)
  moreover have "\<forall>msg. view {} off5 m5 \<subseteq>\<^sub>m view {} (length msg) msg \<longrightarrow>
       unpackStructValue (Header_struct Header_zero) msg 0 = Done (Inr (Header_struct (msg_header dns), off1))"
    using h(3) grow1 by (meson map_le_trans)
  moreover have "off5 \<le> length m5" using calculation(2,3) assms(2) by simp
  ultimately show ?thesis
    using questions_at_mono [OF q(3) grow2] rrs_at_mono [OF a(3) grow3] rrs_at_mono [OF n(3) grow4] e(3)
    by blast
qed

text \<open>What is received of a message that is sent.\<close>

definition received :: "Msg \<Rightarrow> Msg \<Rightarrow> bool" where
  "received dns dns' \<longleftrightarrow>
     MsgHdr.truncate dns' = MsgHdr.truncate dns \<and> Questions dns' = Questions dns \<and>
     list_all2 sent_as (Answer dns) (Answer dns') \<and> list_all2 sent_as (Ns dns) (Ns dns') \<and>
     list_all2 sent_as (Extra dns) (Extra dns')"

text \<open>Of a message that is marked as truncated \<open>Unpack\<close> reads the questions only.\<close>

definition readable :: "Msg \<Rightarrow> Msg" where
  "readable dns = (if Truncated dns then dns\<lparr>Answer := [], Ns := [], Extra := []\<rparr> else dns)"

lemma readable_same [simp]:
  "\<not> Truncated dns \<Longrightarrow> readable dns = dns" "MsgHdr.truncate (readable dns) = MsgHdr.truncate dns"
  "Questions (readable dns) = Questions dns"
  by (simp_all add: readable_def MsgHdr.defs)

lemma Unpack_sections:
  assumes "msg_ok dns"
    and "unpackStructValue (Header_struct Header_zero) msg 0 = Done (Inr (Header_struct (msg_header dns), off1))"
    and "questions_at V (Questions dns) off1 off2" "rrs_at V (Answer dns) off2 off3" "rrs_at V (Ns dns) off3 off4"
    and "rrs_at V (Extra dns) off4 off5" "V \<subseteq>\<^sub>m view {} (length msg) msg"
  shows "\<exists>dns'. Unpack dns0 msg = Done (dns', None) \<and> received (readable dns) dns'"
proof -
  have q: "unpack_questions (length (Questions dns)) msg off1 [] = Done (Questions dns, off2, None)"
    using assms(3,7) unfolding questions_at_def by simp
  obtain an where an: "list_all2 sent_as (Answer dns) an" "unpack_rrs (length (Answer dns)) msg off2 [] = Done (an, off3, None)"
    using assms(4,7) unfolding rrs_at_def by auto
  obtain ns where ns: "list_all2 sent_as (Ns dns) ns" "unpack_rrs (length (Ns dns)) msg off3 [] = Done (ns, off4, None)"
    using assms(5,7) unfolding rrs_at_def by auto
  obtain ex where ex: "list_all2 sent_as (Extra dns) ex" "unpack_rrs (length (Extra dns)) msg off4 [] = Done (ex, off5, None)"
    using assms(6,7) unfolding rrs_at_def by auto
  let ?h = "set_header_bits (header_bits dns) (dns0\<lparr>msgId := msgId dns\<rparr>)"
  have counts: "unat (wire_Qdcount (msg_header dns)) = length (Questions dns)"
    "unat (wire_Ancount (msg_header dns)) = length (Answer dns)"
    "unat (wire_Nscount (msg_header dns)) = length (Ns dns)" "unat (wire_Arcount (msg_header dns)) = length (Extra dns)"
    using assms(1) by (simp_all add: msg_header_def msg_ok_def unat_of_nat)
  have "MsgHdr.truncate ?h = (MsgHdr.truncate dns)\<lparr>msgId := msgId (dns0\<lparr>msgId := msgId dns\<rparr>)\<rparr>"
    using assms(1) by (intro set_header_bits_of) (simp_all add: msg_ok_def)
  then have h: "MsgHdr.truncate ?h = MsgHdr.truncate dns" by (simp add: MsgHdr.defs)
  then have t: "Truncated ?h = Truncated dns" by (simp add: MsgHdr.defs)
  show ?thesis
  proof (cases "Truncated dns")
    case True
    then show ?thesis
      using t h assms(2) counts(1) q
      by (simp add: Unpack_def Let_def msg_header_def received_def readable_def MsgHdr.defs)
  next
    case False
    then show ?thesis
      using t h assms(2) counts q an ns ex
      by (simp add: Unpack_def unpack_sections_def Let_def msg_header_def received_def MsgHdr.defs)
  qed
qed

text \<open>Packing finds room, and unpacking reads the message back.\<close>

lemma PackBuffer_Unpack:
  assumes "msg_ok dns"
  shows "\<exists>b dns'. PackBuffer dns buf = Done (Inr b, dns) \<and> length b \<le> msg_size dns \<and>
    Unpack dns0 b = Done (dns', None) \<and> received (readable dns) dns'"
proof -
  have "\<forall>r \<in> set (Answer dns @ Ns dns @ Extra dns). \<exists>n. RR_len r = Done n \<and> rr_size r \<le> n"
    using assms by (auto simp: msg_ok_def rr_ok_def)
  then obtain l where l: "Msg_Len (dns\<lparr>Compress := False\<rparr>) = Done l" "int (msg_size dns) \<le> l" using Len_size by blast
  define m where "m = (if int (length buf) < l + 1 then replicate (nat (l + 1)) CHR 0x00 else buf)"
  have "msg_size dns \<le> length m" using l(2) by (auto simp: m_def)
  then obtain off1 off2 off3 off4 off5 m' where run: "pack_sections dns m = Done (Inr (take off5 m'))"
    and le: "off5 \<le> length m'" "off5 \<le> msg_size dns"
    and h: "\<And>msg. view {} off5 m' \<subseteq>\<^sub>m view {} (length msg) msg \<Longrightarrow>
       unpackStructValue (Header_struct Header_zero) msg 0 = Done (Inr (Header_struct (msg_header dns), off1))"
    and at: "questions_at (view {} off5 m') (Questions dns) off1 off2" "rrs_at (view {} off5 m') (Answer dns) off2 off3"
      "rrs_at (view {} off5 m') (Ns dns) off3 off4" "rrs_at (view {} off5 m') (Extra dns) off4 off5"
    using pack_sections_ok [OF assms] by metis
  have V: "view {} off5 m' \<subseteq>\<^sub>m view {} (length (take off5 m')) (take off5 m')"
    by (auto simp: map_le_def view_def)
  have "split_rcode dns = Done (Inr dns)" using assms by (simp add: split_rcode_def msg_ok_def)
  then have "PackBuffer dns buf = Done (Inr (take off5 m'), dns)"
    using l(1) run by (simp add: PackBuffer_def Let_def m_def)
  then show ?thesis
    using Unpack_sections [OF assms h [OF V] at V] le by (simp add: min_absorb2)
qed

section \<open>Theorems\<close>

lemma view_take:
  assumes "view {} off m \<subseteq>\<^sub>m view {} off' m'" "off \<le> length m" "length m' = length m"
  shows "take off m' = take off m"
proof (rule nth_equalityI)
  fix i assume "i < length (take off m')"
  then have i: "i < off" "i < length m" using assms(3) by simp_all
  then have "view {} off m i = Some (m ! i)" by (simp add: view_Some)
  then have "view {} off' m' i = Some (m ! i)" using assms(1) by (metis domI map_le_def)
  then show "take off m' ! i = take off m ! i" using i by (simp add: view_Some)
qed (use assms in simp_all)

text \<open>
  C18. A resource record survives the wire.  A record whose type is that of its structure and whose
  names, strings and addresses can be written is packed at any offset with room for it: nothing in
  front of the offset changes, not more than the bytes that \<open>len\<close> counts are written, and unpacking at
  the offset ends where packing ended, which is as far behind the header as the length of the data
  in the header that is read says.  It gives the type, the header and the fields of the record back, up
  to that length, if the addresses in fields for IPv4 addresses are IPv4 addresses in their 16-byte form;
  in general it gives \<open>wire_form\<close>, in which each such address is cut to its last four bytes, so that an
  IPv6 address in an A record is not read back.
\<close>

theorem rr_roundtrip:
  assumes "rr_ok compress rr" "off + rr_size rr \<le> length msg"
  shows "\<exists>off' msg' c k p. PackRR rr (off, msg, Map.empty) compress = Done (Inr (off', msg', c)) \<and>
    length msg' = length msg \<and> off' \<le> off + rr_size rr \<and> take off msg' = take off msg \<and>
    unpackStructValue (RR_Header_struct RR_Header_zero) msg' off =
      Done (Inr (RR_Header_struct ((Header rr)\<lparr>Rdlength := k\<rparr>), p)) \<and> off' = p + unat k \<and>
    UnpackRR msg' off = Done (Inr (wire_form k rr, off')) \<and>
    (plain_addresses rr \<longrightarrow> same_record rr (wire_form k rr))"
proof -
  obtain off' m' c' where run: "PackRR rr (off, msg, Map.empty) compress = Done (Inr (off', m', c'))"
    "packed {} off msg (rr_size rr) off' m' c'" "rr_at (view {} off' m') rr off off'"
    using PackRR_ok [OF assms cinv_empty] by blast
  have "length m' = length msg" "off' \<le> off + rr_size rr" "view {} off msg \<subseteq>\<^sub>m view {} off' m'"
    using run(2) by (simp_all add: packed_def)
  moreover from this have "view {} off' m' \<subseteq>\<^sub>m view {} (length m') m'" using assms(2) by (intro view_mono) simp_all
  then obtain k p where "off' = p + unat k" "UnpackRR m' off = Done (Inr (wire_form k rr, off'))"
    "unpackStructValue (RR_Header_struct RR_Header_zero) m' off =
      Done (Inr (RR_Header_struct ((Header rr)\<lparr>Rdlength := k\<rparr>), p))"
    using run(3) unfolding rr_at_def by blast
  moreover have "take off m' = take off msg"
    using view_take calculation(1,3) assms(2) by (metis add_leD1)
  ultimately show ?thesis using run(1) same_record_wire_form [OF assms(1)] by blast
qed

definition sample_header :: "uint16 \<Rightarrow> RR_Header" where
  "sample_header t = \<lparr>hdrName = ''example.org.'', Rrtype = t, hdrClass = 1, Ttl = 300, Rdlength = 0\<rparr>"

definition sample_mx :: RR where
  "sample_mx = RR_MX \<lparr>mx_Hdr = sample_header TypeMX, mx_Preference = 10, mx_Mx = ''mail.example.org.''\<rparr>"

lemma sample_dns_names: "dns_name c ''example.org.''" "dns_name c ''mail.example.org.''"
proof -
  have l: "text_label ''mail'' = ''mail''" "text_label ''example'' = ''example''" "text_label ''org'' = ''org''"
    by (simp_all add: text_label_def unpack_byte_def)
  then show "dns_name c ''example.org.''" "dns_name c ''mail.example.org.''"
    using dns_name_plain [of "[''example'', ''org'']" c] dns_name_plain [of "[''mail'', ''example'', ''org'']" c]
    by (simp_all add: text_labels_def plain_labels_def label_def)
qed

lemma sample_mx_ok: "rr_ok c sample_mx" "rr_size sample_mx = 43"
proof -
  show "rr_ok c sample_mx" using sample_dns_names unfolding sample_mx_def by (intro rr_ok_MX) (simp_all add: sample_header_def)
  show "rr_size sample_mx = 43"
    by (simp add: sample_mx_def rr_size_def rr_fields_def MX_struct_def fields_size_def leaf_size_def sample_header_def)
qed

lemma sample_mx_plain: "plain_addresses sample_mx"
  by (simp add: plain_addresses_def sample_mx_def rr_fields_def MX_struct_def)

theorem rr_roundtrip_witness:
  "\<exists>off' msg' c k. PackRR sample_mx (5, replicate 60 CHR ''x'', Map.empty) True = Done (Inr (off', msg', c)) \<and>
    off' \<le> 48 \<and> UnpackRR msg' 5 = Done (Inr (wire_form k sample_mx, off')) \<and>
    same_record sample_mx (wire_form k sample_mx)"
  using rr_roundtrip [OF sample_mx_ok(1), of 5 "replicate 60 CHR ''x''" True] sample_mx_ok(2) sample_mx_plain
  by fastforce

text \<open>
  C11. A message survives the wire.  A message with fewer than 65536 entries in each section, an opcode
  and a response code of four bits and records that can be written is packed without an error into any
  buffer, or into a new one if the buffer is too small, and into not more bytes than \<open>Msg_Len\<close> counts for it
  without compression.  Unpacking the result into any message gives the header and the questions back,
  whether the names were compressed or not, and what is read of the records depends on the message: if it
  is marked as truncated, none of them, although they are in the bytes; otherwise the records in their
  \<open>wire_form\<close>, which are the records themselves up to the lengths of their data if the addresses in
  fields for IPv4 addresses are IPv4 addresses in their 16-byte form.
\<close>

theorem message_roundtrip:
  assumes "msg_ok dns"
  shows "\<exists>b l dns'. PackBuffer dns buf = Done (Inr b, dns) \<and>
    Msg_Len (dns\<lparr>Compress := False\<rparr>) = Done l \<and> int (length b) \<le> l \<and>
    Unpack dns0 b = Done (dns', None) \<and>
    MsgHdr.truncate dns' = MsgHdr.truncate dns \<and> Questions dns' = Questions dns \<and>
    list_all2 sent_as (Answer (readable dns)) (Answer dns') \<and> list_all2 sent_as (Ns (readable dns)) (Ns dns') \<and>
    list_all2 sent_as (Extra (readable dns)) (Extra dns') \<and>
    (Truncated dns \<longrightarrow> Answer dns' = [] \<and> Ns dns' = [] \<and> Extra dns' = []) \<and>
    (\<not> Truncated dns \<and> (\<forall>r \<in> set (Answer dns @ Ns dns @ Extra dns). plain_addresses r) \<longrightarrow>
       list_all2 same_record (Answer dns) (Answer dns') \<and> list_all2 same_record (Ns dns) (Ns dns') \<and>
       list_all2 same_record (Extra dns) (Extra dns'))"
proof -
  have same: "list_all2 same_record rs rs'"
    if "list_all2 sent_as rs rs'" "\<forall>r \<in> set rs. rr_ok (Compress dns) r \<and> plain_addresses r" for rs rs'
    using that by (induction rule: list_all2_induct) (auto simp: sent_as_def same_record_wire_form)
  have "\<forall>r \<in> set (Answer dns @ Ns dns @ Extra dns). \<exists>n. RR_len r = Done n \<and> rr_size r \<le> n"
    using assms by (auto simp: msg_ok_def rr_ok_def)
  then obtain l where l: "Msg_Len (dns\<lparr>Compress := False\<rparr>) = Done l" "int (msg_size dns) \<le> l" using Len_size by blast
  from PackBuffer_Unpack [OF assms, of buf dns0] obtain b dns' where b: "PackBuffer dns buf = Done (Inr b, dns)"
    "length b \<le> msg_size dns" "Unpack dns0 b = Done (dns', None)" "received (readable dns) dns'" by blast
  have "int (length b) \<le> l" using l(2) b(2) by linarith
  moreover have "\<forall>r \<in> set (Answer dns @ Ns dns @ Extra dns). rr_ok (Compress dns) r"
    using assms unfolding msg_ok_def by blast
  ultimately show ?thesis
    using l(1) b(1,3,4) by (auto simp: received_def readable_def MsgHdr.truncate_def intro!: same split: if_splits)
qed

definition sample_reply :: Msg where
  "sample_reply =
     empty_Msg\<lparr>msgId := 77, Response := True, Compress := True,
       Questions := [\<lparr>qName = ''example.org.'', Qtype = TypeMX, Qclass = 1\<rparr>], Answer := [sample_mx]\<rparr>"

lemma sample_reply_ok: "msg_ok sample_reply"
  using sample_mx_ok(1) sample_dns_names(1) [of True]
  by (auto simp: msg_ok_def sample_reply_def empty_Msg_def question_ok_def dns_name_def)

lemma sample_reply_readable: "readable sample_reply = sample_reply" "msgId sample_reply = 77" "length (Answer sample_reply) = 1"
  by (simp_all add: readable_def sample_reply_def empty_Msg_def)

lemma sample_reply_plain:
  "\<not> Truncated sample_reply" "Answer sample_reply = [sample_mx]" "Ns sample_reply = []" "Extra sample_reply = []"
  by (simp_all add: sample_reply_def empty_Msg_def)

theorem message_roundtrip_witness:
  "\<exists>b dns'. PackBuffer sample_reply [] = Done (Inr b, sample_reply) \<and> Unpack empty_Msg b = Done (dns', None) \<and>
    msgId dns' = 77 \<and> Questions dns' = Questions sample_reply \<and> list_all2 same_record [sample_mx] (Answer dns')"
proof -
  obtain b dns' where "PackBuffer sample_reply [] = Done (Inr b, sample_reply)" "Unpack empty_Msg b = Done (dns', None)"
    and r: "MsgHdr.truncate dns' = MsgHdr.truncate sample_reply" "Questions dns' = Questions sample_reply"
      "list_all2 same_record [sample_mx] (Answer dns')"
    using message_roundtrip [OF sample_reply_ok, of "[]" empty_Msg] sample_mx_plain sample_reply_plain by auto
  moreover have "msgId dns' = 77" using r(1) sample_reply_readable(2) by (simp add: MsgHdr.defs)
  ultimately show ?thesis using r(2,3) by blast
qed

text \<open>
  The EDNS0 record of a message.  For a message without an OPT record, setting EDNS0 makes the
  record that is found afterwards: with the given size for UDP, the DO bit as given, version 0 and no
  extended response code; the records that were there stay, in front of it.
\<close>

theorem edns_found:
  assumes "\<forall>r \<in> set (Extra m). Rrtype (Header r) \<noteq> TypeOPT"
  shows "\<exists>o'. IsEdns0 (SetEdns0 m udpsize d) = Done (Some o') \<and> Extra (SetEdns0 m udpsize d) = Extra m @ [RR_OPT o'] \<and>
    OPT_UDPSize o' = udpsize \<and> OPT_Do o' = d \<and> OPT_Version o' = 0 \<and>
    find_opt (Extra m) = Done None"
proof -
  let ?o = "(if d then OPT_SetDo else id) (OPT_SetUDPSize (OPT_zero\<lparr>opt_Hdr := RR_Header_zero\<lparr>hdrName := ''.'', Rrtype := TypeOPT\<rparr>\<rparr>) udpsize)"
  have none: "\<forall>r \<in> set rs. Rrtype (Header r) \<noteq> TypeOPT \<Longrightarrow> find_opt rs = Done None" for rs
    by (induction rs) auto
  have "\<forall>r \<in> set rs. Rrtype (Header r) \<noteq> TypeOPT \<Longrightarrow> Rrtype (opt_Hdr o') = TypeOPT \<Longrightarrow> find_opt (rs @ [RR_OPT o']) = Done (Some o')" for rs o'
    by (induction rs) auto
  then have "IsEdns0 (SetEdns0 m udpsize d) = Done (Some ?o)" "Extra (SetEdns0 m udpsize d) = Extra m @ [RR_OPT ?o]"
    using assms by (auto simp: IsEdns0_def SetEdns0_def Let_def OPT_SetDo_def OPT_SetUDPSize_def)
  moreover have "OPT_UDPSize ?o = udpsize" "OPT_Do ?o = d" "OPT_Version ?o = 0"
    by (simp_all add: OPT_UDPSize_def OPT_SetDo_def OPT_SetUDPSize_def OPT_Do_def OPT_Version_def DO_bit_def RR_Header_zero_def OPT_zero_def)
  ultimately show ?thesis using none [OF assms] by blast
qed

theorem edns_found_witness:
  "\<exists>o'. IsEdns0 (SetEdns0 sample_reply 4096 True) = Done (Some o') \<and> OPT_UDPSize o' = 4096 \<and> OPT_Do o'"
  using edns_found [of sample_reply 4096 True] by (auto simp: sample_reply_def empty_Msg_def)

end
