(* ===== verification/Dns_Unpack_Properties.thy ===== *)
theory Dns_Unpack_Properties
  imports Dns_Message
begin

text \<open>
  What unpacking does with bytes of any form: it keeps the types of the fields, and two kinds of
  records bring it down.
\<close>

section \<open>Types\<close>

text \<open>The shape of a value: the kinds of its fields, with their names and tags.\<close>

fun shape :: "fval \<Rightarrow> fval" and shapes :: "sfield list \<Rightarrow> sfield list" where
  "shape (VUint8 _) = VUint8 0"
| "shape (VUint16 _) = VUint16 0"
| "shape (VUint32 _) = VUint32 0"
| "shape (VUint64 _) = VUint64 0"
| "shape (VString _) = VString []"
| "shape (VStrings _) = VStrings []"
| "shape (VUint16s _) = VUint16s []"
| "shape (VIP _) = VIP []"
| "shape (VOptions _) = VOptions []"
| "shape (VStruct tn fs) = VStruct tn (shapes fs)"
| "shapes [] = []"
| "shapes (Field n tag v # fs) = Field n tag (shape v) # shapes fs"

lemma shapes_append: "shapes (fs @ gs) = shapes fs @ shapes gs"
proof (induction fs)
  case (Cons f fs)
  then show ?case by (cases f) simp
qed simp

lemma run_bind_DoneD: "run_bind r f = Done y \<Longrightarrow> \<exists>x. r = Done x \<and> f x = Done y"
  by (simp add: run_bind_Done_iff)

lemma unpack_sized_shape: "unpack_sized k enc n msg off = Done (Inr (w, off')) \<Longrightarrow> shape w = VString []"
  by (auto simp: unpack_sized_def run_bind_Done_iff split: if_splits)

lemma unpack_encoded_shape: "unpack_encoded k l enc val lenrd msg off = Done (Inr (w, off')) \<Longrightarrow> shape w = VString []"
  by (auto simp: unpack_encoded_def run_bind_Done_iff split: if_splits)

lemma unpack_string_shape:
  assumes "unpack_string val tn n tag lenrd msg off = Done (Inr (w, off'))"
  shows "shape w = VString []"
proof -
  consider "tag \<in> {''hex'', ''base64''}" | "tag \<in> {''cdomain-name'', ''domain-name''}"
    | "tag \<in> {''size-base32'', ''size-hex''}" | "tag \<in> {''txt'', []}"
    using assms unfolding unpack_string_def by (auto split: if_split_asm)
  then show ?thesis
  proof cases
    case 1
    then show ?thesis using assms unpack_encoded_shape by (auto simp: unpack_string_def)
  next
    case 2
    then show ?thesis using assms by (auto simp: unpack_string_def split: prod.splits option.splits)
  next
    case 3
    then show ?thesis
      using assms unpack_sized_shape by (auto simp: unpack_string_def run_bind_Done_iff simp del: if_split)
  next
    case 4
    then show ?thesis using assms by (auto simp: unpack_string_def split: prod.splits)
  qed
qed

lemma unpack_value_shape:
  assumes "unpack_value val tn n tag v lenrd msg off = Done (Inr (w, off'))"
  shows "shape w = shape v"
proof (cases v)
  case (VString s)
  then show ?thesis using assms by (auto simp: unpack_value_def split: if_splits dest: unpack_string_shape)
next
  case (VStrings ss)
  then show ?thesis
    using assms by (auto simp: unpack_value_def unpack_strings_def split: if_splits option.splits sum.splits prod.splits)
next
  case (VUint16s xs)
  then show ?thesis
    using assms by (auto simp: unpack_value_def unpack_uint16s_def try_bind_Inr_iff split: if_splits)
next
  case (VOptions es)
  then show ?thesis
    using assms by (auto simp: unpack_value_def unpack_opts_def try_bind_Inr_iff split: if_splits)
qed (use assms in \<open>auto simp: unpack_value_def unpack_uint_def unpack_ip_def split: if_splits\<close>)

text \<open>A step of the loop over the fields that does not stop.\<close>

lemma unpack_fields_step:
  assumes "unpack_fields tn ds (Field n tag v # fs) lenrd msg off = Done (Inr (w, off'))"
  shows "w = VStruct tn (ds @ Field n tag v # fs) \<or>
    (\<exists>w1 off1 lenrd1. unpack_fields tn (ds @ [Field n tag w1]) fs lenrd1 msg off1 = Done (Inr (w, off')) \<and>
       ((\<exists>t gs. v = VStruct t gs) \<and> unpackStructValue v msg off = Done (Inr (w1, off1)) \<or>
        unpack_value (VStruct tn (ds @ Field n tag v # fs)) tn n tag v lenrd msg off = Done (Inr (w1, off1))))"
proof (cases "\<exists>t gs. v = VStruct t gs")
  case True
  then obtain t gs where v: "v = VStruct t gs" by blast
  show ?thesis
    using assms unfolding v
    by (simp only: unpack_fields.simps fval.case split: if_split_asm) (auto simp: try_bind_Inr_iff)
next
  case False
  have "unpack_fields tn ds (Field n tag v # fs) lenrd msg off =
    (if lenrd \<noteq> 0 \<and> lenrd = off then Done (Inr (VStruct tn (ds @ Field n tag v # fs), off))
     else if length msg < off then Done (Inl (ErrOther ''bad offset unpacking''))
     else
       try_bind (unpack_value (VStruct tn (ds @ Field n tag v # fs)) tn n tag v lenrd msg off)
         (\<lambda>(w, off'). unpack_fields tn (ds @ [Field n tag w]) fs lenrd msg off'))"
    using False by (cases v) auto
  then show ?thesis using assms by (simp split: if_split_asm) (auto simp: try_bind_Inr_iff)
qed

lemma unpack_shape:
  "unpackStructValue v msg off = Done (Inr (w, off')) \<Longrightarrow> shape w = shape v"
  "unpack_fields tn ds fs lenrd msg off = Done (Inr (w, off')) \<Longrightarrow> shape w = VStruct tn (shapes (ds @ fs))"
proof (induction v and fs arbitrary: off w off' and tn ds lenrd off w off' rule: shape_shapes.induct)
  case (12 n tag v fs)
  from unpack_fields_step [OF 12(3)] show ?case
  proof (elim disjE exE conjE)
    fix w1 off1 lenrd1
    assume rest: "unpack_fields tn (ds @ [Field n tag w1]) fs lenrd1 msg off1 = Done (Inr (w, off'))"
      and "unpackStructValue v msg off = Done (Inr (w1, off1))"
    then have "shape w1 = shape v" using 12(1) by blast
    then show ?thesis using 12(2) [OF rest] by (simp add: shapes_append)
  next
    fix w1 off1 lenrd1
    assume rest: "unpack_fields tn (ds @ [Field n tag w1]) fs lenrd1 msg off1 = Done (Inr (w, off'))"
      and "unpack_value (VStruct tn (ds @ Field n tag v # fs)) tn n tag v lenrd msg off = Done (Inr (w1, off1))"
    then have "shape w1 = shape v" using unpack_value_shape by blast
    then show ?thesis using 12(2) [OF rest] by (simp add: shapes_append)
  qed simp
qed auto

lemma shapes_iff:
  "shapes fs = [] \<longleftrightarrow> fs = []"
  "shapes fs = Field n tag v # gs \<longleftrightarrow> (\<exists>w fs'. fs = Field n tag w # fs' \<and> shape w = v \<and> shapes fs' = gs)"
proof -
  show "shapes fs = [] \<longleftrightarrow> fs = []" by (cases fs; cases "hd fs") auto
  show "shapes fs = Field n tag v # gs \<longleftrightarrow> (\<exists>w fs'. fs = Field n tag w # fs' \<and> shape w = v \<and> shapes fs' = gs)"
    by (cases fs; cases "hd fs") auto
qed

lemma shape_iff:
  "shape v = VUint16 x \<longleftrightarrow> x = 0 \<and> (\<exists>y. v = VUint16 y)" "shape v = VUint32 z \<longleftrightarrow> z = 0 \<and> (\<exists>y. v = VUint32 y)"
  "shape v = VString s \<longleftrightarrow> s = [] \<and> (\<exists>t. v = VString t)"
  "shape v = VStruct tn gs \<longleftrightarrow> (\<exists>fs. v = VStruct tn fs \<and> shapes fs = gs)"
  by (cases v; auto)+

lemma RR_Header_shape:
  "shape v = shape (RR_Header_struct h0) \<Longrightarrow> \<exists>h. v = RR_Header_struct h"
proof -
  assume "shape v = shape (RR_Header_struct h0)"
  then obtain n t c ttl k where "v = VStruct ''RR_Header''
      [Field ''Name'' ''cdomain-name'' (VString n), Field ''Rrtype'' [] (VUint16 t), Field ''Class'' [] (VUint16 c),
       Field ''Ttl'' [] (VUint32 ttl), Field ''Rdlength'' [] (VUint16 k)]"
    by (auto simp: RR_Header_struct_def shape_iff shapes_iff)
  then have "v = RR_Header_struct \<lparr>hdrName = n, Rrtype = t, hdrClass = c, Ttl = ttl, Rdlength = k\<rparr>"
    by (simp add: RR_Header_struct_def)
  then show ?thesis by blast
qed

text \<open>
  C30. Unpacking is type-safe: whatever the bytes are, unpacking keeps the kinds, names and tags of the
  fields of a structure.  A resource record that is unpacked without an error is the structure that the
  table of types has for the type in its header, set to fields of its own kinds, and it ends where the
  length of the data in its header says.
\<close>

theorem UnpackRR_typed:
  assumes "UnpackRR msg off = Done (Inr (rr, off'))"
  shows "\<exists>h v p. unpackStructValue (RR_Header_struct RR_Header_zero) msg off = Done (Inr (RR_Header_struct h, p)) \<and>
    unpackStructValue (structValue (new_RR (Rrtype h))) msg off = Done (Inr (v, off')) \<and>
    shape v = shape (structValue (new_RR (Rrtype h))) \<and>
    rr = set_structValue (new_RR (Rrtype h)) v \<and> off' = p + unat (Rdlength h)"
proof -
  obtain w p where hdr: "unpackStructValue (RR_Header_struct RR_Header_zero) msg off = Done (Inr (w, p))"
    using assms by (auto simp: UnpackRR_def try_bind_Inr_iff)
  obtain h where w: "w = RR_Header_struct h" using RR_Header_shape unpack_shape(1) [OF hdr] by blast
  let ?r = "unpackStructValue (structValue (new_RR (Rrtype h))) msg off"
  obtain v where "?r = Done (Inr (v, off'))" "rr = set_structValue (new_RR (Rrtype h)) v" "off' = p + unat (Rdlength h)"
  proof (cases "\<exists>v q. ?r = Done (Inr (v, q))")
    case True
    then show ?thesis using that assms hdr w by (auto simp: UnpackRR_def Let_def split: if_split_asm)
  next
    case False
    then have "\<exists>e. ?r = Done (Inl e)"
      using assms hdr w by (cases ?r) (auto simp: UnpackRR_def Let_def split: sum.split_asm)
    then show ?thesis using assms hdr w by (auto simp: UnpackRR_def Let_def)
  qed
  then show ?thesis using hdr w unpack_shape(1) by blast
qed

section \<open>Records that bring unpacking down\<close>

text \<open>A pointer to the root behind which it stands itself: the name ends where it begins.\<close>

lemma root_pointer:
  assumes "p + 3 \<le> length msg" "p < 16384"
    and "msg ! p = CHR 0x00" "msg ! (p + 1) = char_of (192 + p div 256)" "msg ! (p + 2) = char_of (p mod 256)"
  shows "UnpackDomainName msg (p + 1) = (''.'', p + 1, None)"
proof -
  have "p div 256 < 64" using assms(2) by (simp add: div_less_iff_less_mult)
  then have "unpack_name msg (p + 1) [] 0 0 = unpack_name msg p [] (p + 3) 1"
    using assms(1,3-) by (subst unpack_name.simps) (simp add: Let_def numeral_3_eq_3)
  moreover have "unpack_name msg p [] (p + 3) 1 = (''.'', p + 1, None)"
    using assms(1,3) by (subst unpack_name.simps) (simp add: Let_def)
  ultimately show ?thesis by (simp add: UnpackDomainName_def)
qed

lemma names_loop:
  assumes "UnpackDomainName msg off = (s, off, None)" "off < lenrd"
  shows "unpack_names msg off lenrd servers = None"
proof -
  have "unpack_names m p l servers = Some r \<Longrightarrow> m = msg \<longrightarrow> p = off \<longrightarrow> l = lenrd \<longrightarrow> False" for m p l r
  proof (rule unpack_names.raw_induct [where P = "\<lambda>m p l ss r. m = msg \<longrightarrow> p = off \<longrightarrow> l = lenrd \<longrightarrow> False"])
    fix un :: "string \<Rightarrow> nat \<Rightarrow> nat \<Rightarrow> string list \<Rightarrow> (dns_error + (string list \<times> nat)) option" and m p l ss r
    assume IH: "\<And>m p l ss r. un m p l ss = Some r \<Longrightarrow> m = msg \<longrightarrow> p = off \<longrightarrow> l = lenrd \<longrightarrow> False"
      and "(if p < l
            then case UnpackDomainName m p of (s, off', None) \<Rightarrow> un m off' l (ss @ [s]) | (s, off', Some e) \<Rightarrow> Some (Inl e)
            else Some (Inr (ss, p))) = Some r"
    then show "m = msg \<longrightarrow> p = off \<longrightarrow> l = lenrd \<longrightarrow> False" using IH [of msg off lenrd "ss @ [s]"] assms by auto
  qed
  then show ?thesis by (cases "unpack_names msg off lenrd servers") auto
qed

definition one_answer :: "char \<Rightarrow> char \<Rightarrow> string \<Rightarrow> string" where
  "one_answer i1 i2 r =
     [i1, i2, CHR 0x00, CHR 0x00, CHR 0x00, CHR 0x00, CHR 0x00, CHR 0x01, CHR 0x00, CHR 0x00, CHR 0x00, CHR 0x00] @ r"

lemma unpack_one_answer:
  "\<exists>h. unpackStructValue (Header_struct Header_zero) (one_answer i1 i2 r) 0 = Done (Inr (Header_struct h, 12)) \<and>
    wire_Bits h = 0 \<and> wire_Qdcount h = 0 \<and> wire_Ancount h = 1"
  by (rule exI [of _ "\<lparr>wire_Id = word_of_int (be_value [i1, i2]), wire_Bits = 0, wire_Qdcount = 0, wire_Ancount = 1,
        wire_Nscount = 0, wire_Arcount = 0\<rparr>"])
     (simp add: Header_struct_def one_answer_def unpack_value_def unpack_uint_def be_value_def)

definition short_ds :: "char list \<Rightarrow> char list \<Rightarrow> string" where
  "short_ds ct d = [CHR 0x00, CHR 0x00, CHR 0x2B] @ ct @ [CHR 0x00, CHR 0x01] @ d"

lemma unpack_short_ds:
  assumes "length ct = 6" "5 \<le> length d"
  shows "UnpackRR (one_answer i1 i2 (short_ds ct d)) 12 = Panic SliceBounds"
proof -
  obtain c1 c2 t1 t2 t3 t4 where ct: "ct = [c1, c2, t1, t2, t3, t4]"
    using assms(1) by (auto simp: eval_nat_numeral length_Suc_conv)
  obtain d1 d2 d3 d4 rest where d: "d = d1 # d2 # d3 # d4 # rest" "rest \<noteq> []"
    using assms(2) by (auto simp: eval_nat_numeral Suc_le_length_iff)
  let ?m = "one_answer i1 i2 (short_ds ct d)"
  have name: "UnpackDomainName ?m 12 = (''.'', 13, None)"
    unfolding UnpackDomainName_def by (subst unpack_name.simps) (simp add: one_answer_def short_ds_def)
  have len: "length ?m = 27 + length rest" by (simp add: one_answer_def short_ds_def ct d(1))
  have bytes: "take 2 (drop 13 ?m) = [CHR 0x00, CHR 0x2B]" "take 2 (drop 15 ?m) = [c1, c2]"
    "take 4 (drop 17 ?m) = [t1, t2, t3, t4]" "take 2 (drop 21 ?m) = [CHR 0x00, CHR 0x01]"
    "take 2 (drop 23 ?m) = [d1, d2]" "take 1 (drop 25 ?m) = [d3]" "take 1 (drop 26 ?m) = [d4]"
    by (simp_all add: one_answer_def short_ds_def ct d(1))
  define m where "m = ?m"
  note m = name [folded m_def] len [folded m_def] bytes [folded m_def]
  have v: "be_value [CHR 0x00, CHR 0x2B] = 43" "be_value [CHR 0x00, CHR 0x01] = 1" by (simp_all add: be_value_def)
  have hdr: "unpackStructValue (RR_Header_struct h0) m 12 = Done (Inr (RR_Header_struct
      \<lparr>hdrName = ''.'', Rrtype = 43, hdrClass = word_of_int (be_value [c1, c2]),
       Ttl = word_of_int (be_value [t1, t2, t3, t4]), Rdlength = 1\<rparr>, 23))" for h0
    using m v by (simp add: RR_Header_struct_def unpack_value_def unpack_string_def unpack_uint_def)
  have new: "new_RR 43 = RR_DS DS_zero" by (simp add: new_RR_def typeToRR_def)
  have "unpackStructValue (structValue (RR_DS DS_zero)) m 12 = Panic SliceBounds"
    using hdr [of RR_Header_zero] m d(2)
    by (simp add: DS_struct_def DS_zero_def RR_Header_struct_def unpack_value_def unpack_string_def unpack_uint_def
        field_uint_def unpack_encoded_def encoded_end_def get_slice_def)
  then show ?thesis
    unfolding m_def [symmetric] using hdr [of RR_Header_zero] new by (simp add: UnpackRR_def)
qed

lemma Unpack_short_ds:
  assumes "length ct = 6" "5 \<le> length d"
  shows "Unpack dns (one_answer i1 i2 (short_ds ct d)) = Panic SliceBounds"
proof -
  obtain h where h: "unpackStructValue (Header_struct Header_zero) (one_answer i1 i2 (short_ds ct d)) 0 = Done (Inr (Header_struct h, 12))"
    "wire_Bits h = 0" "wire_Qdcount h = 0" "wire_Ancount h = 1"
    using unpack_one_answer by blast
  then show ?thesis
    using unpack_short_ds [OF assms, of i1 i2] by (auto simp: Unpack_def Let_def set_header_bits_def unpack_sections_def)
qed

text \<open>
  C31. Messages that unpacking does not survive.  A message with a DS record that says that its data
  is one byte long, with five bytes or more behind its header, panics: the fields of fixed length are
  read past the end of the data, and the rest of the data is a slice that ends before it begins.  The
  names of a HIP record do not end if a pointer at their place leads to the zero byte in front of it:
  the offset after the root is that of the place it was found at.
\<close>

theorem unpack_failures:
  "(length ct = 6 \<and> 5 \<le> length d \<longrightarrow> Unpack dns (one_answer i1 i2 (short_ds ct d)) = Panic SliceBounds) \<and>
   (p + 3 \<le> length msg \<and> p < 16384 \<and> msg ! p = CHR 0x00 \<and> msg ! (p + 1) = char_of (192 + p div 256) \<and>
      msg ! (p + 2) = char_of (p mod 256) \<and> p + 1 < lenrd \<longrightarrow>
    unpack_strings ''domain-name'' old lenrd msg (p + 1) = Panic Diverges)"
proof
  show "length ct = 6 \<and> 5 \<le> length d \<longrightarrow> Unpack dns (one_answer i1 i2 (short_ds ct d)) = Panic SliceBounds"
    using Unpack_short_ds by blast
  show "p + 3 \<le> length msg \<and> p < 16384 \<and> msg ! p = CHR 0x00 \<and> msg ! (p + 1) = char_of (192 + p div 256) \<and>
      msg ! (p + 2) = char_of (p mod 256) \<and> p + 1 < lenrd \<longrightarrow>
    unpack_strings ''domain-name'' old lenrd msg (p + 1) = Panic Diverges"
    using root_pointer [of p msg] names_loop [of msg "p + 1" "''.''" lenrd "[]"] by (simp add: unpack_strings_def)
qed

theorem unpack_failures_witness:
  "Unpack empty_Msg (one_answer CHR 0x00 CHR 0x01 (short_ds ''abcdef'' ''abcde'')) = Panic SliceBounds \<and>
   unpack_strings ''domain-name'' [] 10 [CHR 0x00, CHR 0xC0, CHR 0x00] 1 = Panic Diverges"
proof -
  have "CHR 0xC0 = char_of (192 :: nat)" "CHR 0x00 = char_of (0 :: nat)" by code_simp+
  then show ?thesis
    using unpack_failures [of "''abcdef''" "''abcde''" empty_Msg "CHR 0x00" "CHR 0x01" 0 "[CHR 0x00, CHR 0xC0, CHR 0x00]" 10 "[]"]
    by simp
qed

definition sample_ns :: string where
  "sample_ns = [CHR 0x00, CHR 0x00, CHR 0x02, CHR 0x00, CHR 0x01, CHR 0x00, CHR 0x00, CHR 0x00, CHR 0x00, CHR 0x00, CHR 0x01, CHR 0x00]"

theorem UnpackRR_typed_witness:
  "\<exists>rr v. UnpackRR sample_ns 0 = Done (Inr (rr, 12)) \<and>
    unpackStructValue (structValue (RR_NS NS_zero)) sample_ns 0 = Done (Inr (v, 12)) \<and>
    shape v = shape (structValue (RR_NS NS_zero)) \<and> rr = set_structValue (RR_NS NS_zero) v"
proof -
  have names: "UnpackDomainName sample_ns 0 = (''.'', 1, None)" "UnpackDomainName sample_ns 11 = (''.'', 12, None)"
    unfolding UnpackDomainName_def by (subst unpack_name.simps, simp add: sample_ns_def)+
  have bytes: "length sample_ns = 12" "take 2 (drop 1 sample_ns) = [CHR 0x00, CHR 0x02]"
    "take 2 (drop 3 sample_ns) = [CHR 0x00, CHR 0x01]" "take 4 (drop 5 sample_ns) = replicate 4 CHR 0x00"
    "take 2 (drop 9 sample_ns) = [CHR 0x00, CHR 0x01]"
    by (simp_all add: sample_ns_def numeral_eq_Suc)
  let ?H = "RR_Header_struct \<lparr>hdrName = ''.'', Rrtype = 2, hdrClass = 1, Ttl = 0, Rdlength = 1\<rparr>"
  have hdr: "unpackStructValue (RR_Header_struct h) sample_ns 0 = Done (Inr (?H, 11))" for h
    using names bytes
    by (simp add: RR_Header_struct_def unpack_value_def unpack_string_def unpack_uint_def be_value_def numeral_eq_Suc)
  have new: "new_RR 2 = RR_NS NS_zero" by (simp add: new_RR_def typeToRR_def)
  have "unpackStructValue (structValue (RR_NS NS_zero)) sample_ns 0 =
      Done (Inr (VStruct ''NS'' [Field ''Hdr'' [] ?H, Field ''Ns'' ''cdomain-name'' (VString ''.'')], 12))"
    using hdr [of RR_Header_zero] names(2) bytes(1)
    by (simp add: NS_struct_def NS_zero_def RR_Header_struct_def unpack_value_def unpack_string_def field_uint_def)
  then obtain rr where "UnpackRR sample_ns 0 = Done (Inr (rr, 12))"
    using hdr [of RR_Header_zero] new by (simp add: UnpackRR_def)
  from UnpackRR_typed [OF this] this show ?thesis
    using hdr [of RR_Header_zero] new by (auto simp: RR_Header_struct_def)
qed

end
