(* ===== verification/Agent_Wire.thy ===== *)
theory Agent_Wire
  imports Dns_Handler Dns_Message_Properties
begin

text \<open>
  The agent's replies on the wire (\<^verbatim>\<open>agent/dns.go\<close> over \<^verbatim>\<open>msg.go\<close>): the message that the handler
  writes can be packed, and who unpacks it has the reply.
\<close>

section \<open>Names of the agent\<close>

text \<open>Names without special characters, of one to nine labels.\<close>

definition agent_name :: "string \<Rightarrow> bool" where
  "agent_name s \<longleftrightarrow> (\<exists>ls. plain_labels ls \<and> ls \<noteq> [] \<and> length ls \<le> 9 \<and> s = text_labels ls)"

lemma dns_name_agent: "agent_name s \<Longrightarrow> dns_name c s"
  by (auto simp: agent_name_def intro!: dns_name_plain)

text \<open>A label in front of such a name.\<close>

definition plain_byte :: "char \<Rightarrow> bool" where
  "plain_byte b \<longleftrightarrow> is_digit b \<or> 97 \<le> (of_char b :: nat) \<and> (of_char b :: nat) \<le> 122"

lemma unpack_byte_plain: "plain_byte b \<Longrightarrow> unpack_byte b = [b]"
proof -
  assume b: "plain_byte b"
  then have "\<not> (of_char b :: nat) < 32" "\<not> 127 \<le> (of_char b :: nat)" by (auto simp: plain_byte_def is_digit_def)
  moreover have "b \<notin> {CHR ''.'', CHR ''('', CHR '')'', CHR '';'', CHR '' '', CHR ''@'', CHR 0x22, CHR 0x5C, CHR 0x09, CHR 0x0D}"
    using b by (auto simp: plain_byte_def is_digit_def)
  ultimately show ?thesis by (simp add: unpack_byte_def)
qed

lemma dns_name_prefix:
  assumes "agent_name s" "l \<noteq> []" "length l < 64" "\<forall>b \<in> set l. plain_byte b"
  shows "dns_name c (l @ ''.'' @ s)"
proof -
  obtain ls where ls: "plain_labels ls" "ls \<noteq> []" "length ls \<le> 9" "s = text_labels ls"
    using assms(1) by (auto simp: agent_name_def)
  have l: "text_label l = l" using assms(4) unpack_byte_plain by (simp add: text_label_bytes)
  then have "plain_labels (l # ls)" using ls(1) assms(2,3) by (simp add: plain_labels_def label_def)
  moreover have "text_labels (l # ls) = l @ ''.'' @ s" using l ls(4) by (simp add: text_labels_def)
  ultimately show ?thesis using dns_name_plain [of "l # ls" c] ls(3) by simp
qed

lemma utoa_length: "n < 10 ^ Suc k \<Longrightarrow> length (utoa n) \<le> Suc k"
proof (induction k arbitrary: n)
  case (Suc k)
  have "n div 10 < 10 ^ Suc k" using Suc.prems by (simp add: less_mult_imp_div_less mult.commute)
  then show ?case using Suc.IH [of "n div 10"] by (subst utoa.simps) simp
qed (subst utoa.simps, simp)

lemma dns_name_ns: "agent_name s \<Longrightarrow> k < 65536 \<Longrightarrow> dns_name c (ns_name k s)"
  using dns_name_prefix [of s "''ns'' @ utoa k" c] utoa_length [of k 4] utoa_digits [of _ k]
  by (auto simp: ns_name_def plain_byte_def)

lemma dns_name_soa: "agent_name s \<Longrightarrow> dns_name c (''ns0.'' @ s) \<and> dns_name c (''hostmaster.'' @ s)"
  using dns_name_prefix [of s "''ns0''" c] dns_name_prefix [of s "''hostmaster''" c]
  by (simp add: plain_byte_def is_digit_def)

section \<open>Records of the agent\<close>

text \<open>An instance that a record can carry: an address, and a host that is a name.\<close>

definition wire_instance :: "inst \<Rightarrow> bool" where
  "wire_instance i \<longleftrightarrow> (length (ip i) = 4 \<or> length (ip i) = 16) \<and> dns_name False (Fqdn (host i))"

definition store_wire :: "world store \<Rightarrow> bool" where
  "store_wire st \<longleftrightarrow>
     (\<forall>i s ins err s'. getInstances st i s = Done ((ins, err), s') \<longrightarrow>
        length ins < 65536 \<and> (\<forall>x \<in> set ins. wire_instance x)) \<and>
     (\<forall>z s ins err s'. getServers st z s = Done ((ins, err), s') \<longrightarrow>
        length ins < 65536 \<and> (\<forall>x \<in> set ins. wire_instance x))"

lemma rr_ok_rr_of:
  assumes "agent_name (qName q)" "wire_instance i" "Qtype q = TypeA \<or> Qtype q = TypeSRV"
  shows "rr_ok True (rr_of q i)"
  using assms dns_name_agent
  by (auto simp: rr_of_def wire_instance_def answer_hdr_def intro!: rr_ok_A rr_ok_SRV)

lemma agent_name_Fqdn: "agent_name s \<Longrightarrow> IsFqdn s"
  using text_labels_ends by (auto simp: agent_name_def IsFqdn_iff)

lemma rr_ok_ns_rr:
  assumes "agent_name (qName q)" "wire_instance (snd p)" "fst p < 65536" "Qtype q = TypeA \<or> Qtype q = TypeNS"
  shows "rr_ok True (ns_rr q p)"
proof -
  have "IsFqdn (qName q)" using agent_name_Fqdn [OF assms(1)] .
  then have "Fqdn (ns_name (fst p) (qName q)) = ns_name (fst p) (qName q)"
    unfolding ns_name_def by (simp add: Fqdn_def IsFqdn_iff)
  then show ?thesis
    using assms dns_name_agent dns_name_ns
    by (auto simp: ns_rr_def rr_of_def wire_instance_def answer_hdr_def intro!: rr_ok_A rr_ok_NS)
qed

lemma rr_ok_newSOA: "agent_name (qName q) \<Longrightarrow> agent_name d \<Longrightarrow> rr_ok True (fst (newSOA q d ttl s))"
  using dns_name_agent dns_name_soa by (auto simp: newSOA_def time_Now_def intro!: rr_ok_SOA)

section \<open>Replies\<close>

definition wire_reply :: "Msg \<Rightarrow> bool" where
  "wire_reply m \<longleftrightarrow> msg_ok m \<and> Compress m \<and> \<not> Truncated m"

lemma wire_reply_new:
  assumes "Questions req \<noteq> []" "agent_name (qName (hd (Questions req)))"
  shows "wire_reply (newResponse req)"
proof -
  have "dns_name True (qName (hd (Questions req)))" using assms(2) dns_name_agent by blast
  then show ?thesis
    using assms(1)
    by (auto simp: wire_reply_def msg_ok_def dns_simps question_ok_def dns_name_def newResponse_def SetReply_def
        empty_Msg_def Let_def hd_conv_nth)
qed

lemma wire_reply_updates:
  assumes "wire_reply m"
  shows "wire_reply (m\<lparr>Authoritative := a\<rparr>)"
    "0 \<le> rc \<Longrightarrow> rc < 16 \<Longrightarrow> wire_reply (m\<lparr>Rcode := rc\<rparr>)"
    "\<forall>r \<in> set rrs. rr_ok True r \<Longrightarrow> length rrs < 65536 \<Longrightarrow> wire_reply (m\<lparr>Answer := rrs\<rparr>)"
    "\<forall>r \<in> set ex. rr_ok True r \<Longrightarrow> length ex < 65536 \<Longrightarrow> wire_reply (m\<lparr>Extra := ex\<rparr>)"
  using assms by (auto simp: wire_reply_def msg_ok_def)

lemma serviceResponse_wire:
  assumes "serviceResponse h name q res s = Done (m, s')" "store_wire (h_store h)" "agent_name (qName q)"
    and res: "wire_reply res" "Answer res = []"
  shows "wire_reply m"
proof (cases "\<exists>i ins err s1. infoFromAddr name = Inr i \<and> (Qtype q = TypeA \<or> Qtype q = TypeSRV) \<and>
    getInstances (h_store h) i s = Done ((ins, err), s1)")
  case False
  then show ?thesis
    using assms(1) wire_reply_updates(2) [OF res(1)] res(1)
    by (auto simp: serviceResponse_def run_bind_Done_iff split: if_splits sum.splits)
next
  case True
  then obtain i ins err s1 where i: "infoFromAddr name = Inr i" and t: "Qtype q = TypeA \<or> Qtype q = TypeSRV"
    and g: "getInstances (h_store h) i s = Done ((ins, err), s1)" by blast
  have ins: "length ins < 65536" "\<forall>x \<in> set ins. wire_instance x"
    using assms(2) g unfolding store_wire_def by blast+
  have sup: "supported q" using t by (auto simp: supported_def)
  have "\<forall>r \<in> set (map (rr_of q) ins). rr_ok True r" using ins(2) rr_ok_rr_of [OF assms(3) _ t] by auto
  then have "wire_reply (res\<lparr>Answer := map (rr_of q) ins\<rparr>)"
    using wire_reply_updates(3) [OF res(1)] ins(1) by simp
  then show ?thesis
    using assms(1) i t g res append_rrs_spec [OF sup, of ins] wire_reply_updates(2) [OF res(1)]
    by (auto simp: serviceResponse_def split: option.splits if_splits)
qed

context host_sort
begin

lemma serverResponse_wire:
  assumes "serverResponse srt h name q res s = Done (m, s')" "store_wire (h_store h)" "agent_name (qName q)"
    and res: "wire_reply res" "Answer res = []" and name: "MatchString serverQuestionRE name"
  shows "wire_reply m"
proof -
  obtain ns z where p: "parseServerQuestion name = (ns, z)" "ns = [] \<or> is_ns ns"
    using parseServerQuestion_cases [OF name] by metis
  consider "Qtype q \<noteq> TypeA \<and> Qtype q \<noteq> TypeNS \<or> Qtype q = TypeNS \<and> is_ns ns"
    | servers err s1 where "Qtype q = TypeA \<or> Qtype q = TypeNS" "\<not> (Qtype q = TypeNS \<and> is_ns ns)"
      "getServers (h_store h) z s = Done ((servers, err), s1)"
    using assms(1) p
    by (cases "getServers (h_store h) z s") (auto simp: serverResponse_def is_ns_def split: if_splits prod.splits)
  then show ?thesis
  proof cases
    case 1
    then have "serverResponse srt h name q res s = Done (res, s)"
      using p(1) serverResponse_other by (metis fst_conv)
    then show ?thesis using assms(1) res(1) by simp
  next
    case 2
    have srv: "length servers < 65536" "\<forall>x \<in> set servers. wire_instance x"
      using assms(2) 2(3) unfolding store_wire_def by blast+
    have fail: "wire_reply (res\<lparr>Rcode := RcodeServerFailure\<rparr>)" "wire_reply (res\<lparr>Rcode := RcodeNameError\<rparr>)"
      using wire_reply_updates(2) [OF res(1)] by simp_all
    show ?thesis
    proof (cases "ns = []")
      case True
      have "rr_ok True (ns_rr q x)" if "x \<in> set (enumerate 0 (srt servers))" for x
        using that srv 2(1) nth_mem [of "fst x" "srt servers"]
        by (intro rr_ok_ns_rr [OF assms(3)]) (auto simp: in_set_enumerate_eq)
      then have "wire_reply (res\<lparr>Answer := map (ns_rr q) (enumerate 0 (srt servers))\<rparr>)"
        using wire_reply_updates(3) [OF res(1)] srv(1) by simp
      then show ?thesis
        using assms(1) True p(1) 2(1,3) res(2) fail serverResponse_list [OF 2(1), of name z] by (auto split: if_splits)
    next
      case False
      then obtain ds where ds: "ns = ''ns'' @ ds" "ds \<noteq> []" "\<forall>c \<in> set ds. is_digit c"
        using p(2) by (auto simp: is_ns_def)
      have t: "Qtype q = TypeA" using 2(1,2) p(2) False by blast
      have "rr_ok True (rr_of q (srt servers ! k))" if "k < length servers" for k
        using that srv(2) t nth_mem [of k "srt servers"] by (intro rr_ok_rr_of [OF assms(3)]) auto
      then have "wire_reply (res\<lparr>Answer := [rr_of q (srt servers ! k)]\<rparr>)" if "k < length servers" for k
        using that wire_reply_updates(3) [OF res(1), of "[rr_of q (srt servers ! k)]"] by simp
      then show ?thesis
        using assms(1) p(1) ds(1) 2(3) res fail serverResponse_single [OF t _ ds(2,3), of name z]
        by (auto split: if_splits)
    qed
  qed
qed

lemma reply_wire:
  assumes "reply srt h req s = Done (m, s')" "store_wire (h_store h)" "agent_name (h_domain h)"
    and "Questions req \<noteq> []" "agent_name (qName (hd (Questions req)))"
  shows "wire_reply m"
proof -
  have res: "wire_reply (newResponse req)" using wire_reply_new [OF assms(4,5)] .
  note auth = wire_reply_updates(1) [OF res, of True]
  show ?thesis
  proof (cases "\<exists>q. Questions req = [q] \<and> HasSuffix (qName q) (h_domain h)")
    case False
    then show ?thesis
      using assms(1,4) wire_reply_updates(2) [OF res] by (auto simp: reply_def split: list.splits if_splits)
  next
    case True
    then obtain q where q: "Questions req = [q]" "HasSuffix (qName q) (h_domain h)" by blast
    have name: "agent_name (qName q)" using assms(5) q(1) by simp
    have "wire_reply ((newResponse req)\<lparr>Authoritative := True, Rcode := RcodeNameError,
        Extra := [fst (newSOA q (h_domain h) defaultInvalidTTL s)]\<rparr>)"
      using wire_reply_updates(4) [OF wire_reply_updates(2) [OF auth]] rr_ok_newSOA [OF name assms(3)] by simp
    then show ?thesis
      using assms(1,2) q name auth
        serviceResponse_wire [of h "trim_domain (qName q) (h_domain h)" q _ s m s']
        serverResponse_wire [of h "trim_domain (qName q) (h_domain h)" q _ s m s']
      by (auto simp: reply_def authoritative_reply_def Let_def dns_simps split: if_splits)
  qed
qed

end

section \<open>Theorems\<close>

text \<open>What is read of the address of a record.\<close>

lemma wire_form_rr_of_A:
  "Qtype q = TypeA \<Longrightarrow> wire_form k (rr_of q i) =
    RR_A \<lparr>a_Hdr = (answer_hdr q)\<lparr>Rdlength := k\<rparr>, a_A = v4InV6Prefix @ drop (length (ip i) - 4) (ip i)\<rparr>"
  by (simp add: wire_form_def rr_of_def A_struct_def A_of_struct_def norm_field_def wire_norm_def RR_Header_of_def
      RR_Header_struct_def)

definition address_of :: "RR \<Rightarrow> ip" where
  "address_of rr = (case rr of RR_A a \<Rightarrow> a_A a | _ \<Rightarrow> [])"

lemma sent_addresses:
  assumes "list_all2 sent_as (map (rr_of q) ins) rrs" "Qtype q = TypeA"
  shows "map address_of rrs = map (\<lambda>i. v4InV6Prefix @ drop (length (ip i) - 4) (ip i)) ins \<and>
    (\<forall>rr \<in> set rrs. hdrName (Header rr) = qName q \<and> Rrtype (Header rr) = TypeA \<and> Ttl (Header rr) = defaultTTL)"
  using assms
  by (induction ins arbitrary: rrs)
     (auto simp: list_all2_Cons1 sent_as_def wire_form_rr_of_A address_of_def answer_hdr_def)

text \<open>
  C5. The agent's replies survive the wire.  Over a store whose instances have addresses and host
  names, for a domain and a question of at most nine labels without special characters, every reply
  that the handler computes is packed without an error, with its names compressed, and unpacking the
  bytes into any message gives the reply: the same header and question, and the same records up to
  the lengths of their data and the form of IPv4 addresses.
\<close>

theorem reply_survives_wire:
  assumes "host_sort srt" "store_wire (h_store h)" "agent_name (h_domain h)"
    and "Questions req \<noteq> []" "agent_name (qName (hd (Questions req)))"
    and "reply srt h req s = Done (m, s')"
  shows "\<exists>b m'. Pack m = Done (Inr b, m) \<and> Unpack m0 b = Done (m', None) \<and>
    MsgHdr.truncate m' = MsgHdr.truncate m \<and> Questions m' = Questions m \<and>
    list_all2 sent_as (Answer m) (Answer m') \<and> list_all2 sent_as (Ns m) (Ns m') \<and>
    list_all2 sent_as (Extra m) (Extra m')"
proof -
  have "msg_ok m" using host_sort.reply_wire [OF assms(1,6,2-5)] by (simp add: wire_reply_def)
  moreover have "\<not> Truncated m" using host_sort.reply_wire [OF assms(1,6,2-5)] by (simp add: wire_reply_def)
  ultimately show ?thesis using PackBuffer_Unpack [of m "[]" m0] by (auto simp: Pack_def received_def)
qed

lemma agent_name_labels:
  assumes "plain_labels ls" "ls \<noteq> []" "length ls \<le> 9" shows "agent_name (text_labels ls)"
  using assms by (auto simp: agent_name_def)

lemma sample_names: "agent_name ''srv.glimpse.io.''" "agent_name ''gg.srv.glimpse.io.''" "dns_name False ''web.gg.''"
proof -
  have l: "plain_labels [''gg'', ''srv'', ''glimpse'', ''io'']" "plain_labels [''web'', ''gg'']"
    by (simp_all add: plain_labels_def label_def text_label_def unpack_byte_def)
  then show "agent_name ''srv.glimpse.io.''" "agent_name ''gg.srv.glimpse.io.''" "dns_name False ''web.gg.''"
    using agent_name_labels [of "[''srv'', ''glimpse'', ''io'']"] agent_name_labels [of "[''gg'', ''srv'', ''glimpse'', ''io'']"]
      dns_name_plain [of "[''web'', ''gg'']" False]
    by (simp_all add: plain_labels_def text_labels_def)
qed

lemma sample_wire: "store_wire sample_store"
  using sample_names(3)
  by (simp add: store_wire_def sample_store_def wire_instance_def sample_instance_def v4InV6Prefix_def Fqdn_def IsFqdn_def)

theorem reply_survives_wire_witness:
  "\<exists>m b m'. reply insertionSort sample_handler (sample_request ''gg.srv.glimpse.io.'' TypeNS) sample_world = Done (m, sample_world) \<and>
    Pack m = Done (Inr b, m) \<and> Unpack empty_Msg b = Done (m', None) \<and> Rcode m' = 0 \<and> length (Answer m') = 1"
proof -
  let ?req = "sample_request ''gg.srv.glimpse.io.'' TypeNS"
  have "trim_domain ''gg.srv.glimpse.io.'' (h_domain sample_handler) = ''gg''"
    using trim_domain_append [of "''gg''" "''srv.glimpse.io.''"] by (simp add: sample_handler_def newDNSHandler_def)
  moreover have "HasSuffix ''gg.srv.glimpse.io.'' (h_domain sample_handler)"
    using HasSuffix_append [of "''gg.''" "''srv.glimpse.io.''"] by (simp add: sample_handler_def newDNSHandler_def)
  ultimately obtain m where m: "reply insertionSort sample_handler ?req sample_world = Done (m, sample_world)"
    "length (Answer m) = 1" "Rcode m = 0"
    using reply_server_list [of ?req "\<lparr>qName = ''gg.srv.glimpse.io.'', Qtype = TypeNS, Qclass = ClassINET\<rparr>"
        sample_handler "''gg''" insertionSort sample_world] sample_zone
    by (simp add: sample_request_def sample_handler_def newDNSHandler_def sample_store_def fatal_def
        go_sort.length_srt)
  then have "\<exists>b m'. Pack m = Done (Inr b, m) \<and> Unpack empty_Msg b = Done (m', None) \<and>
    MsgHdr.truncate m' = MsgHdr.truncate m \<and> Questions m' = Questions m \<and>
    list_all2 sent_as (Answer m) (Answer m') \<and> list_all2 sent_as (Ns m) (Ns m') \<and>
    list_all2 sent_as (Extra m) (Extra m')"
    using sample_names sample_wire
    by (intro reply_survives_wire [of insertionSort sample_handler ?req sample_world m sample_world empty_Msg])
       (simp_all add: go_sort.host_sort_axioms sample_handler_def newDNSHandler_def sample_request_def)
  then show ?thesis using m by (auto simp: MsgHdr.defs list_all2_lengthD)
qed

text \<open>
  C6. The addresses that a client receives.  For an A question for a service, who unpacks the packed
  reply has one record per instance, in the order of the store, with the name of the question, type A
  and the time to live of the agent; its address is made of the last four bytes of the address of the
  instance.  For IPv4 instances these are the instances' addresses; of an IPv6 instance only the last
  four bytes arrive.
\<close>

theorem addresses_received:
  assumes "host_sort srt" "store_wire (h_store h)" "agent_name (h_domain h)"
    and "Questions req = [q]" "valid_info i" "qName q = addr i @ ''.'' @ h_domain h" "agent_name (qName q)"
    and "Qtype q = TypeA" "getInstances (h_store h) i s = Done ((ins, None), s')"
  shows "\<exists>m b m'. reply srt h req s = Done (m, s') \<and> Pack m = Done (Inr b, m) \<and> Unpack m0 b = Done (m', None) \<and>
    msgId m' = msgId req \<and> Rcode m' = RcodeSuccess \<and>
    map address_of (Answer m') = map (\<lambda>i. v4InV6Prefix @ drop (length (ip i) - 4) (ip i)) ins \<and>
    (\<forall>rr \<in> set (Answer m'). hdrName (Header rr) = qName q \<and> Rrtype (Header rr) = TypeA \<and> Ttl (Header rr) = defaultTTL)"
proof -
  have "infoFromAddr (addr i) = Inr i" using assms(5) infoFromAddr_iff by blast
  then obtain m where m: "reply srt h req s = Done (m, s')" "msgId m = msgId req" "Rcode m = 0" "Answer m = map (rr_of q) ins"
    using reply_service [OF assms(4,6), of i srt s] assms(8,9) by (simp add: dns_simps)
  have ok: "msg_ok m" "\<not> Truncated m"
    using host_sort.reply_wire [OF assms(1) m(1) assms(2,3)] assms(4,7) by (simp_all add: wire_reply_def)
  from PackBuffer_Unpack [OF ok(1), of "[]" m0] obtain b m' where
    b: "Pack m = Done (Inr b, m)" "Unpack m0 b = Done (m', None)" "received m m'" using ok(2) by (auto simp: Pack_def)
  have "list_all2 sent_as (map (rr_of q) ins) (Answer m')" "msgId m' = msgId m" "Rcode m' = Rcode m"
    using b(3) m(4) by (simp_all add: received_def MsgHdr.defs)
  then show ?thesis using m(1-3) b(1,2) sent_addresses [OF _ assms(8)] by fastforce
qed

lemma sample_service_name: "agent_name (addr sample_info @ ''.'' @ ''srv.glimpse.io.'')"
proof -
  have "plain_labels [''http'', ''api'', ''prod'', ''shop'', ''gg'', ''srv'', ''glimpse'', ''io'']"
    by (simp add: plain_labels_def label_def text_label_def unpack_byte_def)
  from agent_name_labels [OF this] show ?thesis
    by (simp add: text_labels_def text_label_def unpack_byte_def addr_parts sample_info_def)
qed

theorem addresses_received_witness:
  "\<exists>m b m'. reply insertionSort sample_handler (sample_request (addr sample_info @ ''.'' @ ''srv.glimpse.io.'') TypeA) sample_world =
      Done (m, sample_world) \<and> Pack m = Done (Inr b, m) \<and> Unpack empty_Msg b = Done (m', None) \<and>
    map address_of (Answer m') = [v4InV6Prefix @ [10, 0, 0, 1]]"
proof -
  let ?q = "\<lparr>qName = addr sample_info @ ''.'' @ ''srv.glimpse.io.'', Qtype = TypeA, Qclass = ClassINET\<rparr>"
  have "\<exists>m b m'. reply insertionSort sample_handler (sample_request (addr sample_info @ ''.'' @ ''srv.glimpse.io.'') TypeA) sample_world =
      Done (m, sample_world) \<and> Pack m = Done (Inr b, m) \<and> Unpack empty_Msg b = Done (m', None) \<and>
    msgId m' = msgId (sample_request (addr sample_info @ ''.'' @ ''srv.glimpse.io.'') TypeA) \<and> Rcode m' = RcodeSuccess \<and>
    map address_of (Answer m') = map (\<lambda>i. v4InV6Prefix @ drop (length (ip i) - 4) (ip i)) [sample_instance] \<and>
    (\<forall>rr \<in> set (Answer m'). hdrName (Header rr) = qName ?q \<and> Rrtype (Header rr) = TypeA \<and> Ttl (Header rr) = defaultTTL)"
    using sample_names(1) sample_wire sample_valid sample_service_name
    by (intro addresses_received)
       (simp_all add: go_sort.host_sort_axioms sample_handler_def newDNSHandler_def sample_request_def sample_store_def)
  then show ?thesis by (auto simp: sample_instance_def v4InV6Prefix_def)
qed

end
