(* ===== verification/Dns_Serve.thy ===== *)
theory Dns_Serve
  imports Dns_Server Dns_Message
begin

text \<open>
  The server of \<^verbatim>\<open>server.go\<close>: what it reads from and writes to a connection, how it serves the
  packets of a connection with a handler, and its life from \<^verbatim>\<open>ListenAndServe\<close> to \<^verbatim>\<open>Shutdown\<close>.

  The sockets are the environment.  What can be read from a TCP connection is the list of the pieces
  in which the bytes arrive, followed by an error (the end of the connection or of the waiting time);
  what is written is given to an operation on the state of the process.  Servers without
  \<^verbatim>\<open>TsigSecret\<close> are modelled, as the agent starts them; \<^verbatim>\<open>Hijack\<close> and \<^verbatim>\<open>Close\<close> are not
  offered to the handlers.
\<close>

section \<open>Errors and constants\<close>

definition MinMsgSize :: nat where
  "MinMsgSize = 512"

definition MaxMsgSize :: nat where
  "MaxMsgSize = 65536"

definition dnsTimeout :: int where
  "dnsTimeout = 2000000000"

text \<open>An error of the library as a value of the interface \<^verbatim>\<open>error\<close>, with its message.\<close>

primrec dns_error_text :: "dns_error \<Rightarrow> string" where
  "dns_error_text ErrFqdn = ''dns: domain must be fully qualified''"
| "dns_error_text ErrBuf = ''dns: buffer size too small''"
| "dns_error_text ErrRdata = ''dns: bad rdata''"
| "dns_error_text ErrRcode = ''dns: bad rcode''"
| "dns_error_text ErrExtendedRcode = ''dns: bad extended rcode''"
| "dns_error_text ErrShortRead = ''dns: short read''"
| "dns_error_text ErrEncoding = ''illegal data''"
| "dns_error_text (ErrOther s) = s"

definition as_error :: "dns_error \<Rightarrow> go_error" where
  "as_error e = otherError (dns_error_text e)"

section \<open>Reading from a connection\<close>

text \<open>
  \<^verbatim>\<open>conn.Read\<close> into a buffer of \<open>n > 0\<close> bytes returns bytes of one piece only; \<^const>\<open>None\<close> is the
  error at the end.
\<close>

fun conn_Read :: "nat \<Rightarrow> string list \<Rightarrow> (string \<times> string list) option" where
  "conn_Read n [] = None"
| "conn_Read n ([] # segs) = conn_Read n segs"
| "conn_Read n (seg # segs) =
     Some (take n seg, if length seg \<le> n then segs else drop n seg # segs)"

lemma conn_Read_shape:
  "conn_Read n segs = Some (b, segs') \<Longrightarrow> 0 < n \<Longrightarrow>
    b \<noteq> [] \<and> length b \<le> n \<and> concat segs = b @ concat segs'"
  by (induction n segs rule: conn_Read.induct) (auto split: if_splits)

lemma conn_Read_None: "conn_Read n segs = None \<Longrightarrow> concat segs = []"
  by (induction n segs rule: conn_Read.induct) auto

function read_rest :: "nat \<Rightarrow> string \<Rightarrow> string list \<Rightarrow> (string \<times> string list) option" where
  "read_rest n acc segs =
     (if n \<le> length acc then Some (acc, segs)
      else case conn_Read (n - length acc) segs of
             None \<Rightarrow> None
           | Some (b, segs') \<Rightarrow> read_rest n (acc @ b) segs')"
  by pat_completeness auto
termination
  by (relation "measure (\<lambda>(n, acc, segs). n - length acc)") (auto dest!: conn_Read_shape simp: diff_less_mono2 simp flip: length_greater_0_conv)

declare read_rest.simps [simp del]

definition readTCP :: "go_error \<Rightarrow> string list \<Rightarrow> (go_error + string \<times> string list) run" where
  "readTCP e segs =
     (case conn_Read 2 segs of
        None \<Rightarrow> Done (Inl e)
      | Some (l, segs) \<Rightarrow>
          if length l \<noteq> 2 then Done (Inl (as_error ErrShortRead))
          else run_bind (unpackUint16 l 0) (\<lambda>(len, _).
            if len = 0 then Done (Inl (as_error ErrShortRead))
            else case read_rest (unat len) [] segs of
                   None \<Rightarrow> Done (Inl e)
                 | Some (m, segs) \<Rightarrow> Done (Inr (m, segs))))"

text \<open>
  \<^verbatim>\<open>readUDP\<close>: one datagram, of which the kernel keeps what fits into the buffer of \<^verbatim>\<open>UDPSize\<close> bytes.
\<close>

definition readUDP :: "nat \<Rightarrow> go_error + string \<Rightarrow> go_error + string" where
  "readUDP udpSize r =
     (case r of
        Inl e \<Rightarrow> Inl e
      | Inr packet \<Rightarrow>
          let m = take udpSize packet
          in if m = [] then Inl (as_error ErrShortRead) else Inr m)"

section \<open>Writing\<close>

text \<open>
  The connection of a \<^verbatim>\<open>response\<close>: whether it is a TCP connection, the address of the client and the
  operation that sends bytes.
\<close>

record 's response =
  is_tcp :: bool
  clientAddr :: net_addr
  send_bytes :: "string \<Rightarrow> 's \<Rightarrow> go_error option \<times> 's"

definition tcp_frame :: "string \<Rightarrow> go_error + string" where
  "tcp_frame m =
     (let lm = length m in
      if lm < 2 then Inl (otherError ''short buffer'')
      else if MaxMsgSize < lm then Inl (otherError ''dns: message too large'')
      else let (hi, lo) = packUint16 (of_nat lm) in Inr ([hi, lo] @ m))"

definition response_Write :: "'s response \<Rightarrow> string \<Rightarrow> 's \<Rightarrow> go_error option \<times> 's" where
  "response_Write w m s =
     (if is_tcp w
      then case tcp_frame m of Inl e \<Rightarrow> (Some e, s) | Inr b \<Rightarrow> send_bytes w b s
      else send_bytes w m s)"

definition response_WriteMsg :: "'s response \<Rightarrow> Msg \<Rightarrow> 's \<Rightarrow> (go_error option \<times> 's) run" where
  "response_WriteMsg w m s =
     run_bind (Pack m) (\<lambda>(r, _).
       case r of
         Inl e \<Rightarrow> Done (Some (as_error e), s)
       | Inr data \<Rightarrow> Done (response_Write w data s))"

definition writer :: "'s response \<Rightarrow> 's ResponseWriter" where
  "writer w = \<lparr>RemoteAddr = clientAddr w, WriteMsg = response_WriteMsg w\<rparr>"

section \<open>Serving a connection\<close>

record Server =
  Addr :: string
  Net :: string
  srvUDPSize :: nat
  ReadTimeout :: int
  Unsafe :: bool

definition getReadTimeout :: "Server \<Rightarrow> int" where
  "getReadTimeout srv = (if ReadTimeout srv \<noteq> 0 then ReadTimeout srv else dnsTimeout)"

text \<open>
  What \<^verbatim>\<open>ListenAndServe\<close> listens on, once it has started: whether it is TCP, the address and the size
  of the buffer for datagrams.
\<close>

definition listen_on :: "Server \<Rightarrow> go_error + bool \<times> string \<times> nat" where
  "listen_on srv =
     (let a = (if Addr srv = [] then '':domain'' else Addr srv);
          n = (if srvUDPSize srv = 0 then MinMsgSize else srvUDPSize srv)
      in if Net srv \<in> {''tcp'', ''tcp4'', ''tcp6''} then Inr (True, a, n)
         else if Net srv \<in> {''udp'', ''udp4'', ''udp6''} then Inr (False, a, n)
         else Inl (otherError ''dns: bad network''))"

text \<open>The body of \<^verbatim>\<open>serve\<close> for one packet, up to \<^verbatim>\<open>Exit\<close>.\<close>

definition serve_packet :: "Server \<Rightarrow> 's Handler \<Rightarrow> 's response \<Rightarrow> string \<Rightarrow> 's \<Rightarrow> 's run" where
  "serve_packet srv h w m s =
     run_bind (Unpack empty_Msg m) (\<lambda>(req, err).
       if err \<noteq> None then write_drop (writer w) (SetRcodeFormatError empty_Msg req) s
       else if \<not> Unsafe srv \<and> Response req then Done s
       else h (writer w) req s)"

definition maxQueries :: nat where
  "maxQueries = 128"

text \<open>
  A TCP connection goes on with the next message; \<open>q\<close> counts the messages read after the first.  When
  the function returns the connection is closed.
\<close>

function serve_tcp ::
  "Server \<Rightarrow> 's Handler \<Rightarrow> 's response \<Rightarrow> go_error \<Rightarrow> nat \<Rightarrow> string \<Rightarrow> string list \<Rightarrow> 's \<Rightarrow> 's run" where
  "serve_tcp srv h w e q m segs s =
     run_bind (serve_packet srv h w m s) (\<lambda>s.
       run_bind (readTCP e segs) (\<lambda>r.
         case r of
           Inl _ \<Rightarrow> Done s
         | Inr (m, segs) \<Rightarrow>
             if maxQueries < q + 1 then Done s else serve_tcp srv h w e (q + 1) m segs s))"
  by pat_completeness auto
termination
  by (relation "measure (\<lambda>(srv, h, w, e, q, m, segs, s). maxQueries + 1 - q)") auto

declare serve_tcp.simps [simp del]

text \<open>A goroutine of the server: the connection, the first message, and what follows on a TCP connection.\<close>

record 's goroutine =
  conn :: "'s response"
  first_msg :: string
  rest_in :: "string list"
  end_error :: go_error

definition serve :: "Server \<Rightarrow> 's Handler \<Rightarrow> 's goroutine \<Rightarrow> 's \<Rightarrow> 's run" where
  "serve srv h g s =
     (if is_tcp (conn g)
      then serve_tcp srv h (conn g) (end_error g) 0 (first_msg g) (rest_in g) s
      else serve_packet srv h (conn g) (first_msg g) s)"

section \<open>The life of a server\<close>

text \<open>
  The lock and the flag of \<^verbatim>\<open>Server\<close>.  Locking a locked mutex blocks for ever, as nobody else
  unlocks it: \<^const>\<open>Diverges\<close>.
\<close>

record start_state =
  mu_locked :: bool
  started :: bool

definition ListenAndServe_start :: "start_state \<Rightarrow> (go_error option \<times> start_state) run" where
  "ListenAndServe_start st =
     (if mu_locked st then Panic Diverges
      else if started st then Done (Some (otherError ''dns: server already started''), st\<lparr>mu_locked := True\<rparr>)
      else Done (None, st\<lparr>started := True\<rparr>))"

definition Shutdown_start :: "start_state \<Rightarrow> (go_error option \<times> start_state) run" where
  "Shutdown_start st =
     (if mu_locked st then Panic Diverges
      else if \<not> started st then Done (Some (otherError ''dns: server not started''), st\<lparr>mu_locked := True\<rparr>)
      else Done (None, st\<lparr>started := False\<rparr>))"

text \<open>
  A server that is run and shut down once.  \<open>looping\<close>: the loop of \<^verbatim>\<open>serveTCP\<close> or \<^verbatim>\<open>serveUDP\<close> runs;
  \<open>offering\<close>: the goroutine of \<^verbatim>\<open>Shutdown\<close> offers its value on the stop channel; \<open>waiting\<close>: the loop has
  taken it and the goroutine waits for the group; \<open>wg\<close>: the counter of the wait group; \<open>outcome\<close>: the
  result of \<^verbatim>\<open>Shutdown\<close>; \<open>crashed\<close>: a goroutine has panicked, which ends the process.
\<close>

record 's server_state =
  startup :: start_state
  looping :: bool
  offering :: bool
  waiting :: bool
  goroutines :: "'s goroutine list"
  wg :: nat
  outcome :: "go_error option option"
  crashed :: "panic option"
  memory :: 's

definition new_server :: "'s \<Rightarrow> 's server_state" where
  "new_server s =
     \<lparr>startup = \<lparr>mu_locked = False, started = False\<rparr>, looping = False, offering = False, waiting = False,
      goroutines = [], wg = 0, outcome = None, crashed = None, memory = s\<rparr>"

text \<open>What the loop has read: a datagram, or the first message of a connection.\<close>

definition reads :: "Server \<Rightarrow> 's goroutine \<Rightarrow> bool" where
  "reads srv g =
     (if is_tcp (conn g)
      then \<exists>segs. readTCP (end_error g) segs = Done (Inr (first_msg g, rest_in g))
      else \<exists>packet. readUDP (srvUDPSize srv) (Inr packet) = Inr (first_msg g))"

inductive server_step :: "Server \<Rightarrow> 's Handler \<Rightarrow> 's server_state \<Rightarrow> 's server_state \<Rightarrow> bool"
  for srv :: Server and h :: "'s Handler" where
  listen:
    "crashed S = None \<Longrightarrow> ListenAndServe_start (startup S) = Done (None, st) \<Longrightarrow> \<not> looping S \<Longrightarrow> outcome S = None \<Longrightarrow>
      \<not> offering S \<Longrightarrow> \<not> waiting S \<Longrightarrow> server_step srv h S (S\<lparr>startup := st, looping := True\<rparr>)"
| accept:
    "crashed S = None \<Longrightarrow> looping S \<Longrightarrow> reads srv g \<Longrightarrow>
      server_step srv h S (S\<lparr>goroutines := goroutines S @ [g], wg := wg S + 1\<rparr>)"
| stop:
    "crashed S = None \<Longrightarrow> looping S \<Longrightarrow> offering S \<Longrightarrow>
      server_step srv h S (S\<lparr>looping := False, offering := False, waiting := True\<rparr>)"
| work:
    "crashed S = None \<Longrightarrow> g \<in> set (goroutines S) \<Longrightarrow> serve srv h g (memory S) = Done s' \<Longrightarrow>
      server_step srv h S (S\<lparr>goroutines := remove1 g (goroutines S), wg := wg S - 1, memory := s'\<rparr>)"
| crash:
    "crashed S = None \<Longrightarrow> g \<in> set (goroutines S) \<Longrightarrow> serve srv h g (memory S) = Panic p \<Longrightarrow>
      server_step srv h S (S\<lparr>crashed := Some p\<rparr>)"
| shutdown:
    "crashed S = None \<Longrightarrow> Shutdown_start (startup S) = Done (None, st) \<Longrightarrow>
      server_step srv h S (S\<lparr>startup := st, offering := True\<rparr>)"
| finished:
    "crashed S = None \<Longrightarrow> waiting S \<Longrightarrow> wg S = 0 \<Longrightarrow> outcome S = None \<Longrightarrow>
      server_step srv h S (S\<lparr>outcome := Some None\<rparr>)"
| timeout:
    "crashed S = None \<Longrightarrow> offering S \<or> waiting S \<Longrightarrow> outcome S = None \<Longrightarrow>
      server_step srv h S (S\<lparr>outcome := Some (Some (otherError ''dns: server shutdown is pending''))\<rparr>)"

inductive_cases server_stepE: "server_step srv h S T"

text \<open>
  The wait group counts the goroutines; once the loop has taken the stop value it does not run any
  more, and the result of \<^verbatim>\<open>Shutdown\<close> without an error comes after the last goroutine.
\<close>

definition server_inv :: "'s server_state \<Rightarrow> bool" where
  "server_inv S \<longleftrightarrow> wg S = length (goroutines S) \<and>
     (offering S \<or> waiting S \<or> outcome S \<noteq> None \<longrightarrow> \<not> started (startup S)) \<and>
     (waiting S \<longrightarrow> \<not> looping S \<and> \<not> offering S) \<and>
     (outcome S = Some None \<longrightarrow> waiting S \<and> goroutines S = [])"

lemma server_inv_new: "server_inv (new_server s)"
  by (simp add: server_inv_def new_server_def)

lemma server_inv_step: "server_step srv h S T \<Longrightarrow> server_inv S \<Longrightarrow> server_inv T"
proof (induction rule: server_step.induct)
  case (work S g s')
  then show ?case by (auto simp: server_inv_def length_remove1)
qed (auto simp: server_inv_def ListenAndServe_start_def Shutdown_start_def split: if_splits)

lemma server_inv_reachable: "(server_step srv h)\<^sup>*\<^sup>* (new_server s) S \<Longrightarrow> server_inv S"
  by (induction rule: rtranclp_induct) (auto intro: server_inv_new server_inv_step)

lemma finished_final: "server_inv S \<Longrightarrow> outcome S = Some None \<Longrightarrow> \<not> server_step srv h S T"
  by (auto simp: server_inv_def Shutdown_start_def elim!: server_stepE split: if_splits)

text \<open>If every goroutine returns, a shutdown that has begun can finish.\<close>

lemma work_all:
  assumes "crashed S = None" "wg S = length (goroutines S)"
    "\<forall>g \<in> set (goroutines S). \<forall>s. \<exists>s'. serve srv h g s = Done s'"
  shows "\<exists>s'. (server_step srv h)\<^sup>*\<^sup>* S (S\<lparr>goroutines := [], wg := 0, memory := s'\<rparr>)"
  using assms
proof (induction "goroutines S" arbitrary: S)
  case Nil
  then have "S = S\<lparr>goroutines := [], wg := 0, memory := memory S\<rparr>" by simp
  then show ?case by (metis rtranclp.rtrancl_refl)
next
  case (Cons g gs)
  have "g \<in> set (goroutines S)" by (simp flip: Cons.hyps(2))
  then obtain s' where run: "serve srv h g (memory S) = Done s'" using Cons.prems(3) by blast
  let ?T = "S\<lparr>goroutines := gs, wg := wg S - 1, memory := s'\<rparr>"
  have "g \<in> set (goroutines S)" "remove1 g (goroutines S) = gs" by (simp_all flip: Cons.hyps(2))
  then have step: "server_step srv h S ?T" using server_step.work [OF Cons.prems(1) _ run] by simp
  have len: "wg ?T = length (goroutines ?T)" using Cons.prems(2) by (simp flip: Cons.hyps(2))
  have rest: "\<forall>g \<in> set (goroutines ?T). \<forall>s. \<exists>s'. serve srv h g s = Done s'"
    using Cons.prems(3) by (simp flip: Cons.hyps(2))
  have "gs = goroutines ?T" by simp
  from Cons.hyps(1) [OF this _ len rest] obtain s'' where
    "(server_step srv h)\<^sup>*\<^sup>* ?T (?T\<lparr>goroutines := [], wg := 0, memory := s''\<rparr>)"
    using Cons.prems(1) by auto
  then have "(server_step srv h)\<^sup>*\<^sup>* S (S\<lparr>goroutines := [], wg := 0, memory := s''\<rparr>)"
    using step by (simp add: converse_rtranclp_into_rtranclp)
  then show ?case by blast
qed

section \<open>Framing\<close>

lemma read_rest_concat:
  assumes "concat segs = x @ rest" "length acc + length x = n"
  shows "\<exists>segs'. read_rest n acc segs = Some (acc @ x, segs') \<and> concat segs' = rest"
  using assms
proof (induction n acc segs arbitrary: x rule: read_rest.induct)
  case (1 n acc segs)
  show ?case
  proof (cases "x = []")
    case True
    then show ?thesis using "1.prems" by (subst read_rest.simps) simp
  next
    case False
    then have less: "\<not> n \<le> length acc" using "1.prems"(2) by (cases x) auto
    obtain b segs' where b: "conn_Read (n - length acc) segs = Some (b, segs')"
      using conn_Read_None [of "n - length acc" segs] "1.prems"(1) False
      by (cases "conn_Read (n - length acc) segs") auto
    have shape: "length b \<le> length x" "x @ rest = b @ concat segs'"
      using conn_Read_shape [OF b] less "1.prems" by auto
    then obtain y where y: "x = b @ y" "concat segs' = y @ rest" by (auto simp: append_eq_append_conv2)
    have "\<exists>segs''. read_rest n (acc @ b) segs' = Some ((acc @ b) @ y, segs'') \<and> concat segs'' = rest"
      using "1.IH" [OF less b refl, of y] y "1.prems"(2) by simp
    then show ?thesis using less b y(1) by (subst read_rest.simps) simp
  qed
qed

text \<open>
  The positions in a stream of bytes at which a list of pieces is cut: its start and the end of each
  piece.  Reading leaves the cuts that come after the bytes that were read.
\<close>

primrec cut_points :: "string list \<Rightarrow> nat list" where
  "cut_points [] = [0]"
| "cut_points (seg # segs) = 0 # map (\<lambda>p. length seg + p) (cut_points segs)"

definition cuts_after :: "string list \<Rightarrow> nat \<Rightarrow> string list \<Rightarrow> bool" where
  "cuts_after segs n segs' \<longleftrightarrow> (\<forall>p. Suc p \<in> set (cut_points segs') \<longrightarrow> n + Suc p \<in> set (cut_points segs))"

lemma cuts_after_refl: "cuts_after segs 0 segs"
  by (simp add: cuts_after_def)

lemma cuts_after_trans: "cuts_after segs n segs' \<Longrightarrow> cuts_after segs' k segs'' \<Longrightarrow> cuts_after segs (n + k) segs''"
  unfolding cuts_after_def by (metis add.assoc add_Suc_right)

lemma conn_Read_cuts:
  assumes "conn_Read n segs = Some (b, segs')" "0 < n"
  shows "cuts_after segs (length b) segs'"
  using assms
proof (induction n segs rule: conn_Read.induct)
  case (2 n segs)
  then show ?case by (auto simp: cuts_after_def)
next
  case (3 n x xs segs)
  then show ?case by (force simp: cuts_after_def image_iff split: if_splits)
qed simp

lemma read_rest_cuts:
  assumes "read_rest n acc segs = Some (m, segs')"
  shows "\<exists>k. length m = length acc + k \<and> cuts_after segs k segs'"
  using assms
proof (induction n acc segs rule: read_rest.induct)
  case (1 n acc segs)
  show ?case
  proof (cases "n \<le> length acc")
    case True
    then show ?thesis using "1.prems" by (subst (asm) read_rest.simps) (auto intro: cuts_after_refl)
  next
    case False
    then obtain b segs1 where b: "conn_Read (n - length acc) segs = Some (b, segs1)"
      "read_rest n (acc @ b) segs1 = Some (m, segs')"
      using "1.prems" by (subst (asm) read_rest.simps) (auto split: option.splits)
    from "1.IH" [OF False b(1) refl b(2)] obtain k where
      k: "length m = length (acc @ b) + k" "cuts_after segs1 k segs'" by blast
    have "cuts_after segs (length b + k) segs'"
      using cuts_after_trans [OF conn_Read_cuts [OF b(1)] k(2)] False by simp
    then show ?thesis using k(1) by auto
  qed
qed

lemma conn_Read_two:
  "1 \<notin> set (cut_points segs) \<Longrightarrow> 2 \<le> length (concat segs) \<Longrightarrow>
    \<exists>segs'. conn_Read 2 segs = Some (take 2 (concat segs), segs')"
proof (induction "2 :: nat" segs rule: conn_Read.induct)
  case (2 segs)
  then show ?case by (simp add: image_iff)
next
  case (3 x xs segs)
  have "0 \<in> set (cut_points segs)" by (cases segs) auto
  then have "xs \<noteq> []" using 3 by (auto simp: image_iff)
  then show ?case by (cases xs) auto
qed simp

lemma unpack_packUint16: "unpackUint16 [fst (packUint16 i), snd (packUint16 i)] 0 = Done (i, 2)"
proof -
  have "unat i < 2 ^ LENGTH(16)" by (rule unsigned_less)
  then have "unat i div 256 < 256" by simp
  then show ?thesis by (simp add: unpackUint16_def packUint16_def)
qed

text \<open>
  A message of 2 to 65535 bytes comes out of the connection as it was written, however the bytes are
  cut into pieces, if the two bytes of its length arrive together.
\<close>

lemma readTCP_frame_cuts:
  assumes "tcp_frame m = Inr b" "length m < 65536" "concat segs = b @ rest" "1 \<notin> set (cut_points segs)"
  shows "\<exists>segs'. readTCP e segs = Done (Inr (m, segs')) \<and> concat segs' = rest \<and>
    cuts_after segs (length b) segs'"
proof -
  let ?l = "[fst (packUint16 (of_nat (length m))), snd (packUint16 (of_nat (length m)))]"
  have b: "b = ?l @ m" and m: "2 \<le> length m"
    using assms(1) by (auto simp: tcp_frame_def Let_def split: if_splits prod.splits)
  have two: "take 2 (concat segs) = ?l" "2 \<le> length (concat segs)" unfolding assms(3) b by simp_all
  then obtain segs1 where l: "conn_Read 2 segs = Some (?l, segs1)" using conn_Read_two [OF assms(4)] by auto
  have rest: "concat segs1 = m @ rest" using conn_Read_shape [OF l] assms(3) b by simp
  have len: "unat (of_nat (length m) :: uint16) = length m" "(of_nat (length m) :: uint16) \<noteq> 0"
  proof -
    show 1: "unat (of_nat (length m) :: uint16) = length m" using assms(2) by (simp add: unat_of_nat)
    show "(of_nat (length m) :: uint16) \<noteq> 0" using 1 m by fastforce
  qed
  obtain segs' where r: "read_rest (length m) [] segs1 = Some (m, segs')" "concat segs' = rest"
    using read_rest_concat [OF rest, of "[]" "length m"] by auto
  have "cuts_after segs (2 + length m) segs'"
    using cuts_after_trans [OF conn_Read_cuts [OF l]] read_rest_cuts [OF r(1)] by auto
  then show ?thesis using l r len unpack_packUint16 [of "of_nat (length m)"] by (simp add: readTCP_def b)
qed

lemma readTCP_frame:
  assumes "tcp_frame m = Inr b" "length m < 65536" "concat segs = b @ rest" "segs \<noteq> []" "2 \<le> length (hd segs)"
  shows "\<exists>segs'. readTCP e segs = Done (Inr (m, segs')) \<and> concat segs' = rest"
proof -
  have "1 \<notin> set (cut_points segs)" using assms(4,5) by (cases segs) auto
  then show ?thesis using readTCP_frame_cuts [OF assms(1-3)] by blast
qed

text \<open>The messages that are read from a connection one after the other.\<close>

inductive stream :: "go_error \<Rightarrow> string list \<Rightarrow> string list \<Rightarrow> bool" for e :: go_error where
  stream_end: "readTCP e segs = Done (Inl err) \<Longrightarrow> stream e segs []"
| stream_msg: "readTCP e segs = Done (Inr (m, segs')) \<Longrightarrow> stream e segs' ms \<Longrightarrow> stream e segs (m # ms)"

inductive_cases stream_NilE: "stream e segs []"
inductive_cases stream_ConsE: "stream e segs (m # ms)"

text \<open>
  Framed messages come out of the connection one after the other, if no piece ends between the two
  bytes of a length.
\<close>

lemma framed_stream:
  assumes "list_all2 (\<lambda>m b. tcp_frame m = Inr b) ms bs" "\<forall>m \<in> set ms. length m < 65536"
    and "concat segs = concat bs" "\<forall>p \<in> set (butlast (cut_points bs)). Suc p \<notin> set (cut_points segs)"
  shows "stream e segs ms"
  using assms
proof (induction ms bs arbitrary: segs rule: list_all2_induct)
  case Nil
  have "conn_Read 2 segs = None"
    using conn_Read_shape [of 2 segs] Nil(2) by (cases "conn_Read 2 segs") auto
  then show ?case by (intro stream_end [of e segs e]) (simp add: readTCP_def)
next
  case (Cons m ms b bs)
  have cuts: "cut_points bs \<noteq> []" by (cases bs) simp_all
  then have ends: "butlast (cut_points (b # bs)) = 0 # map (\<lambda>p. length b + p) (butlast (cut_points bs))"
    by (simp add: map_butlast)
  then have "1 \<notin> set (cut_points segs)" using Cons.prems(3) by simp
  from readTCP_frame_cuts [OF Cons.hyps(1) _ _ this, of "concat bs" e] Cons.prems(1,2)
  obtain segs' where r: "readTCP e segs = Done (Inr (m, segs'))" "concat segs' = concat bs"
    "cuts_after segs (length b) segs'" by auto
  have "\<forall>p \<in> set (butlast (cut_points bs)). Suc p \<notin> set (cut_points segs')"
    using r(3) Cons.prems(3) ends by (auto simp: cuts_after_def)
  then have "stream e segs' ms" using Cons.IH [of segs'] Cons.prems(1) r(2) by simp
  then show ?case using r(1) by (rule stream_msg [rotated])
qed

primrec serve_all :: "Server \<Rightarrow> 's Handler \<Rightarrow> 's response \<Rightarrow> string list \<Rightarrow> 's \<Rightarrow> 's run" where
  "serve_all srv h w [] s = Done s"
| "serve_all srv h w (m # ms) s = run_bind (serve_packet srv h w m s) (serve_all srv h w ms)"

lemma serve_tcp_all:
  assumes "stream e segs ms" "q + k = maxQueries"
  shows "serve_tcp srv h w e q m segs s = serve_all srv h w (m # take k ms) s"
  using assms
proof (induction ms arbitrary: segs q k m s rule: list.induct)
  case Nil
  then obtain err where "readTCP e segs = Done (Inl err)" by (auto elim: stream_NilE)
  then show ?case by (subst serve_tcp.simps) (cases "serve_packet srv h w m s"; simp)
next
  case (Cons m' ms)
  then obtain segs' where r: "readTCP e segs = Done (Inr (m', segs'))" "stream e segs' ms" by (auto elim: stream_ConsE)
  show ?case
  proof (cases k)
    case 0
    then show ?thesis using r(1) Cons.prems(2) by (subst serve_tcp.simps) (cases "serve_packet srv h w m s"; simp)
  next
    case (Suc k')
    then have "q + 1 + k' = maxQueries" using Cons.prems(2) by simp
    from Cons.IH [OF r(2) this]
    have "serve_tcp srv h w e (q + 1) m' segs' s' = serve_all srv h w (m' # take k' ms) s'" for s' .
    then show ?thesis
      using r(1) Suc Cons.prems(2) by (subst serve_tcp.simps) (cases "serve_packet srv h w m s"; simp)
  qed
qed

section \<open>Theorems\<close>

text \<open>
  C19. Messages on TCP connections.  A message of 2 to 65535 bytes is framed, and comes out of the
  connection as it was written however its bytes are cut into pieces, as long as the two bytes of the
  length arrive together; if they arrive one by one the read fails.  A message of 65536 bytes is framed
  as well, although its length does not fit, and cannot be read again.
\<close>

theorem tcp_framing:
  "(2 \<le> length m \<and> length m < 65536 \<longrightarrow> (\<exists>b. tcp_frame m = Inr b \<and> length b = length m + 2 \<and>
     (\<forall>segs rest e. concat segs = b @ rest \<and> segs \<noteq> [] \<and> 2 \<le> length (hd segs) \<longrightarrow>
        (\<exists>segs'. readTCP e segs = Done (Inr (m, segs')) \<and> concat segs' = rest)))) \<and>
   readTCP e ([x] # segs) = Done (Inl (as_error ErrShortRead)) \<and>
   (length m = 65536 \<longrightarrow> (\<exists>b. tcp_frame m = Inr b \<and> readTCP e [b] = Done (Inl (as_error ErrShortRead))))"
proof (intro conjI impI)
  assume m: "2 \<le> length m \<and> length m < 65536"
  then obtain b where b: "tcp_frame m = Inr b" "length b = length m + 2"
    by (auto simp: tcp_frame_def Let_def MaxMsgSize_def case_prod_beta)
  then show "\<exists>b. tcp_frame m = Inr b \<and> length b = length m + 2 \<and>
     (\<forall>segs rest e. concat segs = b @ rest \<and> segs \<noteq> [] \<and> 2 \<le> length (hd segs) \<longrightarrow>
        (\<exists>segs'. readTCP e segs = Done (Inr (m, segs')) \<and> concat segs' = rest))"
    using readTCP_frame [OF b(1)] m by blast
next
  show "readTCP e ([x] # segs) = Done (Inl (as_error ErrShortRead))" by (simp add: readTCP_def)
next
  assume m: "length m = 65536"
  have "(of_nat (length m) :: uint16) = 0" "\<not> length m < 2" "\<not> 65536 < length m" using m by simp_all
  moreover define l where "l = [fst (packUint16 0), snd (packUint16 0)]"
  ultimately have b: "tcp_frame m = Inr (l @ m)"
    by (simp add: tcp_frame_def MaxMsgSize_def case_prod_beta)
  have "conn_Read 2 [l @ m] = Some (l, [m])" using m by (cases m) (simp_all add: l_def)
  moreover have "unpackUint16 l 0 = Done (0, 2)" unfolding l_def by (rule unpack_packUint16)
  moreover have "length l = 2" by (simp add: l_def)
  ultimately have "readTCP e [l @ m] = Done (Inl (as_error ErrShortRead))" by (simp add: readTCP_def)
  then show "\<exists>b. tcp_frame m = Inr b \<and> readTCP e [b] = Done (Inl (as_error ErrShortRead))" using b by blast
qed

theorem tcp_framing_witness:
  "\<exists>segs'. readTCP errUntracked [[CHR 0x00, CHR 0x03], ''a'', ''bcx'', ''y''] = Done (Inr (''abc'', segs')) \<and> concat segs' = ''xy''"
proof -
  let ?b = "[CHR 0x00, CHR 0x03, CHR ''a'', CHR ''b'', CHR ''c'']"
  have b: "tcp_frame ''abc'' = Inr ?b"
  proof -
    have "char_of (0 :: nat) = CHR 0x00" "char_of (3 :: nat) = CHR 0x03" by code_simp+
    then show ?thesis by (simp add: tcp_frame_def MaxMsgSize_def packUint16_def)
  qed
  have "\<forall>segs rest e. concat segs = ?b @ rest \<and> segs \<noteq> [] \<and> 2 \<le> length (hd segs) \<longrightarrow>
      (\<exists>segs'. readTCP e segs = Done (Inr (''abc'', segs')) \<and> concat segs' = rest)"
    using conjunct1 [OF tcp_framing [of "''abc''" errUntracked "CHR ''x''" "[]"]] b by auto
  from this [rule_format, of "[[CHR 0x00, CHR 0x03], ''a'', ''bcx'', ''y'']" "''xy''" errUntracked]
  show ?thesis by simp
qed

text \<open>
  C3. The requests of a connection.  After its first message \<open>m\<close> a TCP connection carries the framed
  messages \<open>ms\<close>, each shorter than 65536 bytes, in pieces that are cut anywhere except between the two
  bytes of a length.  It is served like its messages one by one, in their order and each after the answer
  to the one before: all of them, but not more than 129.
\<close>

theorem connection_served:
  assumes "list_all2 (\<lambda>m b. tcp_frame m = Inr b) ms bs" "\<forall>m \<in> set ms. length m < 65536"
    and "concat segs = concat bs" "\<forall>p \<in> set (butlast (cut_points bs)). Suc p \<notin> set (cut_points segs)"
  shows "serve_tcp srv h w e 0 m segs s = serve_all srv h w (m # take 128 ms) s"
  using serve_tcp_all [OF framed_stream [OF assms], of 0 128] by (simp add: maxQueries_def)

definition sample_server :: Server where
  "sample_server = \<lparr>Addr = '':5959'', Net = ''tcp'', srvUDPSize = 512, ReadTimeout = 0, Unsafe = False\<rparr>"

definition sample_conn :: "nat response" where
  "sample_conn = \<lparr>is_tcp = True, clientAddr = TCPAddr ''c'', send_bytes = (\<lambda>b n. (None, n + length b))\<rparr>"

theorem connection_served_witness:
  "serve_tcp sample_server HandleFailed sample_conn errUntracked 0 ''m''
      [[CHR 0x00, CHR 0x03], ''a'', ''bc'' @ [CHR 0x00, CHR 0x02] @ ''d'', [], ''e''] 0 =
    serve_all sample_server HandleFailed sample_conn [''m'', ''abc'', ''de''] 0"
proof -
  let ?bs = "[[CHR 0x00, CHR 0x03] @ ''abc'', [CHR 0x00, CHR 0x02] @ ''de'']"
  have "char_of (0 :: nat) = CHR 0x00" "char_of (2 :: nat) = CHR 0x02" "char_of (3 :: nat) = CHR 0x03" by code_simp+
  then have "list_all2 (\<lambda>m b. tcp_frame m = Inr b) [''abc'', ''de''] ?bs"
    by (simp add: tcp_frame_def MaxMsgSize_def packUint16_def)
  from connection_served [OF this, of "[[CHR 0x00, CHR 0x03], ''a'', ''bc'' @ [CHR 0x00, CHR 0x02] @ ''d'', [], ''e'']"
      sample_server HandleFailed sample_conn errUntracked "''m''" 0]
  show ?thesis by simp
qed

text \<open>
  C9. Shutting down gracefully.  When \<open>Shutdown\<close> returns without an error, the server does not accept
  packets any more, every packet that it had accepted has been served, and nothing happens afterwards.
  A shutdown that has begun while the server runs can come to this end if the packets that are being
  served at that time are served without a panic, whatever else is served before.
\<close>

theorem shutdown_waits:
  assumes "(server_step srv h)\<^sup>*\<^sup>* (new_server s0) S"
  shows "(outcome S = Some None \<longrightarrow> goroutines S = [] \<and> \<not> looping S \<and> (\<forall>T. \<not> server_step srv h S T)) \<and>
    ((\<forall>g \<in> set (goroutines S). \<forall>s. \<exists>s'. serve srv h g s = Done s') \<and> crashed S = None \<and>
       outcome S = None \<and> looping S \<and> offering S \<longrightarrow>
      (\<exists>T. (server_step srv h)\<^sup>*\<^sup>* S T \<and> outcome T = Some None))"
proof (intro conjI impI)
  have inv: "server_inv S" using server_inv_reachable [OF assms] .
  show "goroutines S = []" "\<not> looping S" "\<forall>T. \<not> server_step srv h S T" if "outcome S = Some None"
    using that inv finished_final [OF inv] by (auto simp: server_inv_def)
  assume a: "(\<forall>g \<in> set (goroutines S). \<forall>s. \<exists>s'. serve srv h g s = Done s') \<and> crashed S = None \<and>
    outcome S = None \<and> looping S \<and> offering S"
  let ?T = "S\<lparr>looping := False, offering := False, waiting := True\<rparr>"
  have step: "server_step srv h S ?T" using a by (intro server_step.stop) simp_all
  obtain s' where work: "(server_step srv h)\<^sup>*\<^sup>* ?T (?T\<lparr>goroutines := [], wg := 0, memory := s'\<rparr>)"
    using work_all [of ?T srv h] a inv by (auto simp: server_inv_def)
  let ?U = "?T\<lparr>goroutines := [], wg := 0, memory := s'\<rparr>"
  have "server_step srv h ?U (?U\<lparr>outcome := Some None\<rparr>)" using a by (intro server_step.finished) simp_all
  then have "(server_step srv h)\<^sup>*\<^sup>* S (?U\<lparr>outcome := Some None\<rparr>)"
    using converse_rtranclp_into_rtranclp [of "server_step srv h", OF step work] by (rule rtranclp.rtrancl_into_rtrancl [rotated])
  moreover have "outcome (?U\<lparr>outcome := Some None\<rparr>) = Some None" by simp
  ultimately show "\<exists>T. (server_step srv h)\<^sup>*\<^sup>* S T \<and> outcome T = Some None" by blast
qed

lemma steps_trans: "R a b \<Longrightarrow> R b c \<Longrightarrow> R c d \<Longrightarrow> R\<^sup>*\<^sup>* a d"
  by (meson converse_rtranclp_into_rtranclp r_into_rtranclp)

text \<open>A datagram that is too short for a header is answered with a format error.\<close>

lemma short_datagram_served:
  assumes "is_tcp w = False"
  shows "\<exists>s'. serve_packet srv h w ''abc'' s = Done s'"
proof -
  obtain e where u: "Unpack empty_Msg ''abc'' = Done (empty_Msg, Some e)"
    by (simp add: Unpack_def Header_struct_def unpack_value_def unpack_uint_def)
  have "case Pack (SetRcodeFormatError empty_Msg empty_Msg) of Done (Inr d, _) \<Rightarrow> True | _ \<Rightarrow> False" by code_simp
  then obtain d m where "Pack (SetRcodeFormatError empty_Msg empty_Msg) = Done (Inr d, m)"
    by (auto split: run.splits sum.splits prod.splits)
  then show ?thesis
    using u by (cases "response_Write w d s") (simp add: serve_packet_def write_drop_def writer_def response_WriteMsg_def)
qed

theorem shutdown_waits_witness:
  "\<exists>S T. (server_step (sample_server\<lparr>Net := ''udp''\<rparr>) HandleFailed)\<^sup>*\<^sup>* (new_server (0 :: nat)) S \<and> goroutines S \<noteq> [] \<and>
    (server_step (sample_server\<lparr>Net := ''udp''\<rparr>) HandleFailed)\<^sup>*\<^sup>* S T \<and> outcome T = Some None \<and> goroutines T = [] \<and> \<not> looping T"
proof -
  let ?step = "server_step (sample_server\<lparr>Net := ''udp''\<rparr>) (HandleFailed :: nat Handler)"
  define w where "w = sample_conn\<lparr>is_tcp := False\<rparr>"
  define g where "g = \<lparr>conn = w, first_msg = ''abc'', rest_in = [], end_error = errUntracked\<rparr>"
  define S0 where "S0 = new_server (0 :: nat)"
  define S1 where "S1 = S0\<lparr>startup := \<lparr>mu_locked = False, started = True\<rparr>, looping := True\<rparr>"
  define S2 where "S2 = S1\<lparr>goroutines := goroutines S1 @ [g], wg := wg S1 + 1\<rparr>"
  define S3 where "S3 = S2\<lparr>startup := \<lparr>mu_locked = False, started = False\<rparr>, offering := True\<rparr>"
  have s1: "?step S0 S1" unfolding S1_def by (rule server_step.listen) (simp_all add: S0_def new_server_def ListenAndServe_start_def)
  have "reads (sample_server\<lparr>Net := ''udp''\<rparr>) g"
    by (auto simp: reads_def g_def w_def readUDP_def sample_server_def intro!: exI [of _ "''abc''"])
  then have s2: "?step S1 S2" unfolding S2_def
    by (intro server_step.accept) (simp_all add: S1_def S0_def new_server_def)
  have s3: "?step S2 S3" unfolding S3_def
    by (rule server_step.shutdown) (simp_all add: S2_def S1_def S0_def new_server_def Shutdown_start_def)
  have run: "?step\<^sup>*\<^sup>* (new_server 0) S3" using steps_trans [of ?step, OF s1 s2 s3] by (simp only: S0_def)
  have S3: "goroutines S3 = [g]" "crashed S3 = None" "outcome S3 = None" "looping S3" "offering S3"
    by (simp_all add: S3_def S2_def S1_def S0_def new_server_def)
  have "\<forall>s. \<exists>s'. serve (sample_server\<lparr>Net := ''udp''\<rparr>) HandleFailed g s = Done s'"
    using short_datagram_served [of w] by (simp add: serve_def g_def w_def)
  then obtain T where T: "?step\<^sup>*\<^sup>* S3 T" "outcome T = Some None" using shutdown_waits [OF run] S3 by auto
  have "?step\<^sup>*\<^sup>* (new_server 0) T" using run T(1) by (rule rtranclp_trans)
  from shutdown_waits [OF this] T(2) have "goroutines T = []" "\<not> looping T" by auto
  then show ?thesis using run T S3(1) by (intro exI [of _ S3] exI [of _ T]) simp
qed

text \<open>
  The lock that is kept: starting a server twice, or shutting down one that is not started, fails, and
  every later call of either operation blocks.
\<close>

lemma start_lock_kept:
  "started st \<Longrightarrow> \<not> mu_locked st \<Longrightarrow>
    \<exists>e st'. ListenAndServe_start st = Done (Some e, st') \<and> ListenAndServe_start st' = Panic Diverges \<and> Shutdown_start st' = Panic Diverges"
  "\<not> started st \<Longrightarrow> \<not> mu_locked st \<Longrightarrow>
    \<exists>e st'. Shutdown_start st = Done (Some e, st') \<and> ListenAndServe_start st' = Panic Diverges \<and> Shutdown_start st' = Panic Diverges"
  by (simp_all add: ListenAndServe_start_def Shutdown_start_def)

end
