(* ===== verification/Agent_Packets.thy ===== *)
theory Agent_Packets
  imports Agent_Properties Agent_Wire Dns_Serve Dns_Unpack_Properties
begin

text \<open>
  The agent from packet to packet: the server of the DNS library, the multiplexer, the chain of
  handlers, the store and the wire format put together.
\<close>

section \<open>The writer of a connection\<close>

text \<open>The bytes that a connection carries for a packed message, and the packed message.\<close>

definition framed :: "bool \<Rightarrow> string \<Rightarrow> string" where
  "framed tcp b = (if tcp then (case tcp_frame b of Inr f \<Rightarrow> f | Inl _ \<Rightarrow> []) else b)"

definition client_conn :: "bool \<Rightarrow> net_addr \<Rightarrow> (string \<Rightarrow> go_error option) \<Rightarrow> world response" where
  "client_conn tcp a net_fails = \<lparr>is_tcp = tcp, clientAddr = a, send_bytes = send_to a net_fails\<rparr>"

lemma RemoteAddr_writer [simp]: "RemoteAddr (writer (client_conn tcp a net_fails)) = a"
  by (simp add: writer_def client_conn_def)

text \<open>The error of the write, which depends on the bytes only.\<close>

definition write_error :: "bool \<Rightarrow> (string \<Rightarrow> go_error option) \<Rightarrow> string \<Rightarrow> go_error option" where
  "write_error tcp net_fails b =
     (if tcp then (case tcp_frame b of Inr f \<Rightarrow> net_fails f | Inl e \<Rightarrow> Some e) else net_fails b)"

definition put_packet :: "bool \<Rightarrow> net_addr \<Rightarrow> (string \<Rightarrow> go_error option) \<Rightarrow> string \<Rightarrow> (net_addr \<times> string) list" where
  "put_packet tcp a net_fails b = (if write_error tcp net_fails b = None then [(a, framed tcp b)] else [])"

lemma write_packed:
  assumes "Pack m = Done (Inr b, m)"
  shows "WriteMsg (writer (client_conn tcp a net_fails)) m s =
    Done (write_error tcp net_fails b, s\<lparr>packets := packets s @ put_packet tcp a net_fails b\<rparr>)"
  using assms
  by (auto simp: writer_def response_WriteMsg_def response_Write_def client_conn_def send_to_def framed_def
      write_error_def put_packet_def split: sum.splits option.splits)

section \<open>The chain of handlers\<close>

context single_reply
begin

lemma chain_writes:
  assumes "rep req (before_reply s) = Done (m, s1)" "truncate_msg (RemoteAddr w) k m = Done m'"
    and "dns_part s1 = dns_part (before_reply s)" "world_ok s1"
    and "\<And>s. WriteMsg w m' s = Done (err, s\<lparr>packets := packets s @ p\<rparr>)"
  shows "\<exists>s'. dnsLoggingHandler (dnsMetricsHandler (protocolHandler k hdl)) w req s = Done s' \<and>
    packets s' = packets s @ p \<and> world_ok s'"
proof -
  let ?w = "loggingWriter w (clock s (tick s))"
  let ?s = "s\<lparr>tick := Suc (tick s)\<rparr>"
  have part: "lasts s1 = lasts s @ [None]" "packets s1 = packets s" "dnsDurations s1 = dnsDurations s"
    using assms(3) by (simp_all add: dns_part_def before_reply_def)
  let ?s2 = "s1\<lparr>lasts := lasts s @ [Some m'], packets := packets s @ p, tick := Suc (tick s1),
    logged := logged s1 @ [log_line (RemoteAddr w) (clock s1 (tick s1) - clock s (tick s)) m' err]\<rparr>"
  have "write_drop ?w m' (s1\<lparr>lasts := lasts s @ [Some m']\<rparr>) = Done ?s2"
    using part by (simp add: write_loggingWriter assms(5))
  moreover have "variableLabels (dnsDurations ?s2) = dnsLabels"
    using assms(4) by (simp add: world_ok_def)
  moreover define lvs where "lvs = [protocol_label (RemoteAddr w), qtype_label req, RcodeToString (Rcode m')]"
  moreover define T where "T = ?s2\<lparr>tick := Suc (tick ?s2),
      dnsDurations := summary_Observe (fnv_write fnv_offset64 (concat lvs))
        (microseconds (clock ?s2 (tick ?s2) - clock ?s (tick ?s)))
        (getOrCreateMetric (dnsDurations ?s2) (fnv_write fnv_offset64 (concat lvs)) lvs)\<rparr>"
  ultimately have "dnsMetricsHandler (protocolHandler k hdl) ?w req ?s = Done T"
    using metrics_serves [of req ?s m s1 ?w k m' ?s2] assms(1,2) part by (simp add: before_reply_def Let_def)
  then have "dnsLoggingHandler (dnsMetricsHandler (protocolHandler k hdl)) w req s = Done T"
    by (simp add: dnsLoggingHandler_def time_Now_def)
  moreover have "packets T = packets s @ p" by (simp add: T_def)
  moreover have "length lvs = 3" by (simp add: lvs_def)
  then have "world_ok T"
    using assms(4) by (auto simp: T_def world_ok_def dnsLabels_def intro!: vec_inv_updates vec_inv_getOrCreate)
  ultimately show ?thesis by blast
qed

end

section \<open>Replies\<close>

lemma truncate_wire:
  assumes "wire_reply m" "0 \<le> k" "truncate_msg a k m = Done m'"
  shows "msg_ok m' \<and> (Truncated m' \<longleftrightarrow> protocol_label a = ''udp'' \<and> k < int (length (Answer m)))"
  using assms(1,3) unfolding truncate_msg_cases [OF assms(2)]
  by (auto simp: wire_reply_def msg_ok_def dest!: in_set_takeD split: if_splits)

text \<open>Every reply of the agent, in the state in which the chain computes it.\<close>

lemma agent_reply_packet:
  assumes "complete_decoder cenv" "world_ok s" "Questions req \<noteq> []" "0 \<le> maxAnswers fl" "host_sort srt"
    and "store_wire (agent_store cenv env_addr fl)" "agent_name (Fqdn (dnsZone fl))"
    and "agent_name (qName (hd (Questions req)))"
  shows "\<exists>m s1 m' b c s'. reply srt (agent_dns cenv env_addr fl) req (before_reply s) = Done (m, s1) \<and>
    truncate_msg a (maxAnswers fl) m = Done m' \<and> reply_ok req m \<and> Pack m' = Done (Inr b, m') \<and>
    Unpack m0 b = Done (c, None) \<and> received (readable m') c \<and>
    agent_handler srt cenv env_addr fl (writer (client_conn tcp a net_fails)) req s = Done s' \<and>
    packets s' = packets s @ put_packet tcp a net_fails b \<and> world_ok s'"
proof -
  have st: "h_store (agent_dns cenv env_addr fl) = agent_store cenv env_addr fl" "h_domain (agent_dns cenv env_addr fl) = Fqdn (dnsZone fl)"
    by (simp_all add: agent_dns_def newDNSHandler_def)
  obtain m m' s1 where r: "reply srt (agent_dns cenv env_addr fl) req (before_reply s) = Done (m, s1)" "reply_ok req m"
    "truncate_msg a (maxAnswers fl) m = Done m'" "world_ok s1" "dns_part s1 = dns_part (before_reply s)"
    using agent_handler_serves [OF assms(1-4)] by metis
  have "wire_reply m" using host_sort.reply_wire [OF assms(5) r(1)] st assms(3,6-8) by simp
  then have ok: "msg_ok m'" using truncate_wire [OF _ assms(4) r(3)] by blast
  obtain b c where b: "Pack m' = Done (Inr b, m')" "Unpack m0 b = Done (c, None)" "received (readable m') c"
    using PackBuffer_Unpack [OF ok, of "[]" m0] by (auto simp: Pack_def)
  have "\<exists>s'. agent_handler srt cenv env_addr fl (writer (client_conn tcp a net_fails)) req s = Done s' \<and>
      packets s' = packets s @ put_packet tcp a net_fails b \<and> world_ok s'"
    unfolding agent_handler_def
    using dns_reply.chain_writes [OF r(1) _ r(5,4) write_packed [OF b(1)]] r(3) by simp
  then show ?thesis using r(1-3) b by blast
qed

section \<open>Instances of Consul\<close>

text \<open>
  What Consul documents of its answers: the names of nodes are domain names, the addresses of the
  members of the cluster are addresses, and there are not too many of them for a message.
\<close>

definition wire_backend :: "consul_env \<Rightarrow> bool" where
  "wire_backend cenv \<longleftrightarrow>
     (\<forall>b es. decodeEntries cenv b = Inr es \<longrightarrow>
        length es < 65536 \<and> (\<forall>e \<in> set es. dns_name False (Fqdn (node_Node (entry_node e))))) \<and>
     (\<forall>b ms. decodeMembers cenv b = Inr (map Some ms) \<longrightarrow>
        length ms < 65536 \<and>
        (\<forall>m \<in> set ms. ParseIP (mem_Addr m) \<noteq> [] \<and> dns_name False (Fqdn (server_name (mem_Name m)))))"

lemma health_Service_decoded:
  "health_Service cenv c svc t p q s = (Inr es, s1) \<Longrightarrow> \<exists>b. decodeEntries cenv b = Inr es"
  by (auto simp: health_Service_def Let_def split: prod.splits sum.splits)

lemma agent_Members_decoded:
  "agent_Members cenv c w s = (Inr ms, s1) \<Longrightarrow> \<exists>b. decodeMembers cenv b = Inr ms"
  by (auto simp: agent_Members_def Let_def split: prod.splits sum.splits)

lemma consul_getInstances_wire:
  assumes "complete_decoder cenv" "wire_backend cenv" "consul_getInstances cenv c i s = Done ((ins, err), s')"
  shows "length ins < 65536 \<and> (\<forall>x \<in> set ins. wire_instance x)"
proof -
  obtain res s1 where h: "health_Service cenv c (product i) (job_tag i) True (query_options i) s = (res, s1)" by fastforce
  note cases = assms(3) [unfolded consul_getInstances_cases [OF assms(1) h]]
  show ?thesis
  proof (cases "\<exists>es. res = Inr es \<and> es \<noteq> [] \<and> (\<forall>e \<in> set es. entry_valid_ip e)")
    case True
    then obtain es where es: "res = Inr es" "es \<noteq> []" "\<forall>e \<in> set es. entry_valid_ip e" by blast
    then have "find (\<lambda>e. \<not> entry_valid_ip e) es = None" by (auto simp: find_None_iff)
    then have ins: "ins = map entry_instance (filter (entry_matches i) es)" using cases es(1,2) by simp
    have b: "length es < 65536" "\<forall>e \<in> set es. dns_name False (Fqdn (node_Node (entry_node e)))"
      using assms(2) health_Service_decoded h es(1) unfolding wire_backend_def by blast+
    have "length (filter (entry_matches i) es) < 65536" using b(1) le_less_trans length_filter_le by blast
    moreover have "wire_instance (entry_instance e)" if "e \<in> set es" for e
      using es(3) b(2) that ParseIP_length
      by (auto simp: wire_instance_def entry_instance_def entry_valid_ip_def)
    ultimately show ?thesis using ins by simp
  next
    case False
    then have "ins = []" using cases by (auto split: sum.splits if_splits option.splits simp: find_None_iff)
    then show ?thesis by simp
  qed
qed

lemma consul_getServers_wire:
  assumes "complete_decoder cenv" "wire_backend cenv" "consul_getServers cenv c z s = Done ((ins, err), s')"
  shows "length ins < 65536 \<and> (\<forall>x \<in> set ins. wire_instance x)"
proof -
  obtain res s1 where h: "agent_Members cenv c True s = (res, s1)" by fastforce
  show ?thesis
  proof (cases res)
    case (Inr ms)
    then obtain ms' where ms: "ms = map Some ms'" using agent_Members_complete [OF assms(1), of c True s ms] h by auto
    then have ins: "ins = map member_instance (filter (server_in_zone z) ms')"
      using assms(3) h Inr by (simp add: consul_getServers_def collect_servers_spec)
    have b: "length ms' < 65536" "\<forall>m \<in> set ms'. ParseIP (mem_Addr m) \<noteq> [] \<and> dns_name False (Fqdn (server_name (mem_Name m)))"
      using assms(2) agent_Members_decoded h Inr ms unfolding wire_backend_def by blast+
    have "length (filter (server_in_zone z) ms') < 65536" using b(1) le_less_trans length_filter_le by blast
    moreover have "wire_instance (member_instance m)" if "m \<in> set ms'" for m
      using b(2) that ParseIP_length by (auto simp: wire_instance_def member_instance_def)
    ultimately show ?thesis using ins by simp
  qed (use assms(3) h in \<open>auto simp: consul_getServers_def\<close>)
qed

lemma store_wire_agent:
  assumes "complete_decoder cenv" "wire_backend cenv"
  shows "store_wire (agent_store cenv env_addr fl)"
  unfolding store_wire_def agent_store_def
proof (intro conjI allI impI)
  fix i s ins err s'
  assume "getInstances (newLoggingStore (newMetricsStore (newConsulStore cenv (agent_config env_addr fl)))) i s = Done ((ins, err), s')"
  then obtain s1 s2 where "getInstances (newConsulStore cenv (agent_config env_addr fl)) i s1 = Done ((ins, err), s2)"
    using logging_mw.getInstances_transparent metrics_mw.getInstances_transparent by metis
  then have r: "consul_getInstances cenv (agent_config env_addr fl) i s1 = Done ((ins, err), s2)"
    by (simp add: newConsulStore_def)
  show "length ins < 65536" "\<forall>x \<in> set ins. wire_instance x" using consul_getInstances_wire [OF assms r] by blast+
next
  fix z s ins err s'
  assume "getServers (newLoggingStore (newMetricsStore (newConsulStore cenv (agent_config env_addr fl)))) z s = Done ((ins, err), s')"
  then obtain s1 s2 where "getServers (newConsulStore cenv (agent_config env_addr fl)) z s1 = Done ((ins, err), s2)"
    using logging_mw.getServers_transparent metrics_mw.getServers_transparent by metis
  then have r: "consul_getServers cenv (agent_config env_addr fl) z s1 = Done ((ins, err), s2)"
    by (simp add: newConsulStore_def)
  show "length ins < 65536" "\<forall>x \<in> set ins. wire_instance x" using consul_getServers_wire [OF assms r] by blast+
qed

section \<open>Theorems\<close>

text \<open>The two servers that \<^verbatim>\<open>main\<close> starts.\<close>

definition agent_server :: "flags \<Rightarrow> string \<Rightarrow> Server" where
  "agent_server fl net = \<lparr>Addr = dnsAddr fl, Net = net, srvUDPSize = 0, ReadTimeout = 0, Unsafe = False\<rparr>"


text \<open>
  C7. The packets that are not requests.  A packet that cannot be unpacked, and does not make
  \<open>Unpack\<close> panic, is answered by a format error with the id of the packet, if that could be read;
  a response is dropped without an answer; a request without a question is answered by a server failure.
  None of them reaches the handlers.
\<close>

theorem packet_rejected:
  assumes "Unpack empty_Msg p = Done (req, err)"
  shows "(err \<noteq> None \<longrightarrow> (\<exists>b c. serve_packet (agent_server fl net) h (client_conn tcp a net_fails) p s =
        Done (s\<lparr>packets := packets s @ (if write_error tcp net_fails b = None then [(a, framed tcp b)] else [])\<rparr>) \<and>
      Unpack m0 b = Done (c, None) \<and> Rcode c = RcodeFormatError \<and> msgId c = msgId req \<and> Response c \<and>
      Questions c = [] \<and> Answer c = [])) \<and>
    (err = None \<and> Response req \<longrightarrow>
      serve_packet (agent_server fl net) h (client_conn tcp a net_fails) p s = Done s) \<and>
    (err = None \<and> \<not> Response req \<and> Questions req = [] \<longrightarrow> (\<exists>b c.
      serve_packet (agent_server fl net) (ServeMux_ServeDNS mux) (client_conn tcp a net_fails) p s =
        Done (s\<lparr>packets := packets s @ (if write_error tcp net_fails b = None then [(a, framed tcp b)] else [])\<rparr>) \<and>
      Unpack m0 b = Done (c, None) \<and> Rcode c = RcodeServerFailure \<and> msgId c = msgId req \<and> Response c))"
proof -
  have answer: "\<exists>b c. write_drop (writer (client_conn tcp a net_fails)) m s =
        Done (s\<lparr>packets := packets s @ (if write_error tcp net_fails b = None then [(a, framed tcp b)] else [])\<rparr>) \<and>
      Unpack m0 b = Done (c, None) \<and> received m c" if ok: "msg_ok m" "\<not> Truncated m" for m
  proof -
    obtain b c where b: "Pack m = Done (Inr b, m)" "Unpack m0 b = Done (c, None)" "received m c"
      using PackBuffer_Unpack [OF ok(1), of "[]" m0] ok(2) by (auto simp: Pack_def)
    moreover have "write_drop (writer (client_conn tcp a net_fails)) m s =
        Done (s\<lparr>packets := packets s @ (if write_error tcp net_fails b = None then [(a, framed tcp b)] else [])\<rparr>)"
      by (simp add: write_drop_def write_packed [OF b(1)] put_packet_def)
    ultimately show ?thesis by blast
  qed
  have bad: "msg_ok (SetRcodeFormatError empty_Msg req)" "\<not> Truncated (SetRcodeFormatError empty_Msg req)"
    by (simp_all add: msg_ok_def SetRcodeFormatError_def empty_Msg_def dns_simps RcodeFormatError_def OpcodeQuery_def)
  have none: "msg_ok (SetRcode empty_Msg req RcodeServerFailure)" "\<not> Truncated (SetRcode empty_Msg req RcodeServerFailure)"
    if "Questions req = []"
    using that by (simp_all add: msg_ok_def SetRcode_def SetReply_def empty_Msg_def RcodeServerFailure_def OpcodeQuery_def Let_def)
  have 1: "\<exists>b c. serve_packet (agent_server fl net) h (client_conn tcp a net_fails) p s =
        Done (s\<lparr>packets := packets s @ (if write_error tcp net_fails b = None then [(a, framed tcp b)] else [])\<rparr>) \<and>
      Unpack m0 b = Done (c, None) \<and> Rcode c = RcodeFormatError \<and> msgId c = msgId req \<and> Response c \<and>
      Questions c = [] \<and> Answer c = []" if "err \<noteq> None"
    using answer [OF bad] assms that
    by (fastforce simp: serve_packet_def received_def MsgHdr.defs SetRcodeFormatError_def empty_Msg_def)
  have 2: "\<exists>b c. serve_packet (agent_server fl net) (ServeMux_ServeDNS mux) (client_conn tcp a net_fails) p s =
        Done (s\<lparr>packets := packets s @ (if write_error tcp net_fails b = None then [(a, framed tcp b)] else [])\<rparr>) \<and>
      Unpack m0 b = Done (c, None) \<and> Rcode c = RcodeServerFailure \<and> msgId c = msgId req \<and> Response c"
    if "err = None" "\<not> Response req" "Questions req = []"
    using answer [OF none [OF that(3)]] assms that
    by (fastforce simp: serve_packet_def ServeMux_ServeDNS_def HandleFailed_def received_def MsgHdr.defs SetRcode_def
        SetReply_def empty_Msg_def Let_def)
  show ?thesis using 1 2 assms by (auto simp: serve_packet_def agent_server_def)
qed

text \<open>
  C8. One packet ends the process.  The agent's UDP server, in any state of the process and whatever
  its handler does, can be ended by a single datagram of any id, a class and a time to live of the
  sender's choice, that holds a DS record whose data is said to be one byte long: the goroutine that
  serves it panics, and nothing happens any more.
\<close>

theorem one_packet_crash:
  fixes h :: "'s Handler" and s :: 's
  assumes "length ct = 6" "length d = 5"
  shows "\<exists>S n. listen_on (agent_server fl ''udp'') = Inr (False, n, MinMsgSize) \<and>
    readUDP MinMsgSize (Inr (one_answer i1 i2 (short_ds ct d))) = Inr (one_answer i1 i2 (short_ds ct d)) \<and>
    (server_step ((agent_server fl ''udp'')\<lparr>srvUDPSize := MinMsgSize\<rparr>) h)\<^sup>*\<^sup>* (new_server s) S \<and>
    crashed S = Some SliceBounds \<and> (\<forall>T. \<not> server_step ((agent_server fl ''udp'')\<lparr>srvUDPSize := MinMsgSize\<rparr>) h S T)"
proof -
  let ?srv = "(agent_server fl ''udp'')\<lparr>srvUDPSize := MinMsgSize\<rparr>" and ?p = "one_answer i1 i2 (short_ds ct d)"
  define g :: "'s goroutine" where "g = \<lparr>conn = \<lparr>is_tcp = False, clientAddr = UDPAddr ''c'', send_bytes = (\<lambda>b s. (None, s))\<rparr>, first_msg = ?p, rest_in = [], end_error = errUntracked\<rparr>"
  have len: "length ?p = 28" using assms(1,2) by (simp add: one_answer_def short_ds_def)
  then have read: "readUDP MinMsgSize (Inr ?p) = Inr ?p"
    by (simp add: readUDP_def MinMsgSize_def one_answer_def)
  then have reads: "reads ?srv g" by (auto simp: reads_def g_def)
  have "serve ?srv h g s = Panic SliceBounds"
    using Unpack_short_ds [OF assms(1), of d] assms(2) by (simp add: serve_def serve_packet_def g_def)
  note run = this
  define S0 where "S0 = new_server s"
  define S1 where "S1 = S0\<lparr>startup := \<lparr>mu_locked = False, started = True\<rparr>, looping := True\<rparr>"
  define S2 where "S2 = S1\<lparr>goroutines := goroutines S1 @ [g], wg := wg S1 + 1\<rparr>"
  define S3 where "S3 = S2\<lparr>crashed := Some SliceBounds\<rparr>"
  have s1: "server_step ?srv h S0 S1" unfolding S1_def
    by (rule server_step.listen) (simp_all add: S0_def new_server_def ListenAndServe_start_def)
  have s2: "server_step ?srv h S1 S2" unfolding S2_def
    by (rule server_step.accept) (simp_all add: S1_def S0_def new_server_def reads)
  have s3: "server_step ?srv h S2 S3" unfolding S3_def
    by (rule server_step.crash [of _ g]) (simp_all add: S2_def S1_def S0_def new_server_def run)
  have reach: "(server_step ?srv h)\<^sup>*\<^sup>* (new_server s) S3"
    using steps_trans [of "server_step ?srv h", OF s1 s2 s3] by (simp only: S0_def)
  have "\<not> server_step ?srv h S3 T" for T by (auto simp: S3_def elim: server_stepE)
  moreover have "crashed S3 = Some SliceBounds" by (simp add: S3_def)
  moreover have "\<exists>n. listen_on (agent_server fl ''udp'') = Inr (False, n, MinMsgSize)"
    by (simp add: listen_on_def agent_server_def Let_def)
  ultimately show ?thesis using read reach by blast
qed

theorem one_packet_crash_witness:
  "\<exists>S. (server_step ((agent_server defaultFlags ''udp'')\<lparr>srvUDPSize := MinMsgSize\<rparr>) HandleFailed)\<^sup>*\<^sup>* (new_server sample_world) S \<and>
    crashed S = Some SliceBounds"
  using one_packet_crash [of "''abcdef''" "''abcde''" defaultFlags "CHR 0x00" "CHR 0x01" HandleFailed sample_world]
  by (auto simp: agent_server_def)

section \<open>Witnesses\<close>

lemma sample_wire_backend: "wire_backend sample_env"
proof -
  have l: "plain_labels [''host1'']" "plain_labels [''node1'']"
    by (simp_all add: plain_labels_def label_def text_label_def unpack_byte_def)
  have "dns_name False ''host1.''" "dns_name False ''node1.''"
    using dns_name_plain [OF l(1)] dns_name_plain [OF l(2)] l by (simp_all add: plain_labels_def text_labels_def)
  moreover have "Fqdn ''host1'' = ''host1.''" "Fqdn (server_name ''node1.gg'') = ''node1.''" by code_simp+
  moreover have "ParseIP ''10.0.0.2'' \<noteq> []" by code_simp
  ultimately show ?thesis
    by (auto simp: wire_backend_def sample_env_def sample_entry_def entry_node_def)
qed

text \<open>A request that the library packs is unpacked by the server.\<close>

lemma sample_packet:
  "\<exists>p req. Unpack empty_Msg p = Done (req, None) \<and> \<not> Response req \<and> msgId req = 7 \<and>
    Questions req = Questions (sample_request ''gg.srv.glimpse.io.'' TypeA)"
proof -
  have "msg_ok (sample_request ''gg.srv.glimpse.io.'' TypeA)"
    using dns_name_agent [OF sample_names(2)]
    by (auto simp: msg_ok_def sample_request_def empty_Msg_def question_ok_def dns_name_def)
  from PackBuffer_Unpack [OF this, of "[]" empty_Msg] show ?thesis
    by (fastforce simp: received_def readable_def MsgHdr.defs sample_request_def empty_Msg_def)
qed


text \<open>Three bytes are not even a header.\<close>

theorem packet_rejected_witness:
  "\<exists>b c. serve_packet (agent_server defaultFlags ''udp'') HandleFailed (client_conn False (UDPAddr ''c'') (\<lambda>_. None)) ''abc'' sample_world =
      Done (sample_world\<lparr>packets := [(UDPAddr ''c'', b)]\<rparr>) \<and>
    Unpack empty_Msg b = Done (c, None) \<and> Rcode c = RcodeFormatError"
proof -
  have u: "\<exists>e. Unpack empty_Msg ''abc'' = Done (empty_Msg, Some e)"
    by (simp add: Unpack_def Header_struct_def unpack_value_def unpack_uint_def)
  have w: "packets sample_world = []" by (simp add: sample_world_def new_world_def)
  from u obtain e where "Unpack empty_Msg ''abc'' = Done (empty_Msg, Some e)" by blast
  from packet_rejected [OF this, of defaultFlags "''udp''" HandleFailed False "UDPAddr ''c''" "\<lambda>_. None" sample_world empty_Msg Map.empty]
  show ?thesis using w by (auto simp: write_error_def framed_def)
qed

end
