(* ===== verification/Radix.thy ===== *)
theory Radix
  imports Go_Strings
begin

text \<open>
  The radix tree of \<^verbatim>\<open>armon/go-radix\<close> (\<^verbatim>\<open>radix.go\<close>), on which the Consul ACL library keeps its
  policies.  A node holds the rest of its key below its parent, a leaf with the whole key and a value,
  and its edges in the order of their labels.  The operations that change a tree through pointers return the
  changed tree.
\<close>

section \<open>Nodes\<close>

datatype 'v radix_node =
  RNode (leaf: "(string \<times> 'v) option") (prefix: string) (edges: "(char \<times> 'v radix_node) list")

definition with_leaf :: "(string \<times> 'v) option \<Rightarrow> 'v radix_node \<Rightarrow> 'v radix_node" where
  "with_leaf l n = RNode l (prefix n) (edges n)"

definition with_prefix :: "string \<Rightarrow> 'v radix_node \<Rightarrow> 'v radix_node" where
  "with_prefix p n = RNode (leaf n) p (edges n)"

definition with_edges :: "(char \<times> 'v radix_node) list \<Rightarrow> 'v radix_node \<Rightarrow> 'v radix_node" where
  "with_edges es n = RNode (leaf n) (prefix n) es"

lemma with_simps [simp]:
  "leaf (with_leaf l n) = l" "prefix (with_leaf l n) = prefix n" "edges (with_leaf l n) = edges n"
  "leaf (with_prefix p n) = leaf n" "prefix (with_prefix p n) = p" "edges (with_prefix p n) = edges n"
  "leaf (with_edges es n) = leaf n" "prefix (with_edges es n) = prefix n" "edges (with_edges es n) = es"
  by (simp_all add: with_leaf_def with_prefix_def with_edges_def)

text \<open>
  Go's \<^verbatim>\<open>sort.Search\<close>: binary search for the smallest index at which a predicate holds, if it holds
  from some index on.
\<close>

function search_loop :: "(nat \<Rightarrow> bool) \<Rightarrow> nat \<Rightarrow> nat \<Rightarrow> nat" where
  "search_loop f i j =
     (if i < j then
        let h = i + (j - i) div 2 in
        if \<not> f h then search_loop f (h + 1) j else search_loop f i h
      else i)"
  by pat_completeness auto
termination
  by (relation "measure (\<lambda>(f, i, j). j - i)") (auto simp: Let_def)

declare search_loop.simps [simp del]

definition sort_Search :: "nat \<Rightarrow> (nat \<Rightarrow> bool) \<Rightarrow> nat" where
  "sort_Search n f = search_loop f 0 n"

text \<open>
  The index of the edge with a label.  \<^verbatim>\<open>addEdge\<close> sorts the edges; the labels are different, so
  that it does not matter that Go's sorting is not stable.
\<close>

definition edge_index :: "(char \<times> 'v radix_node) list \<Rightarrow> char \<Rightarrow> nat option" where
  "edge_index es label =
     (let idx = sort_Search (length es) (\<lambda>i. label \<le> fst (es ! i)) in
      if idx < length es \<and> fst (es ! idx) = label then Some idx else None)"

definition getEdge :: "'v radix_node \<Rightarrow> char \<Rightarrow> 'v radix_node option" where
  "getEdge n label = map_option (\<lambda>i. snd (edges n ! i)) (edge_index (edges n) label)"

definition addEdge :: "char \<times> 'v radix_node \<Rightarrow> 'v radix_node \<Rightarrow> 'v radix_node" where
  "addEdge e n = with_edges (sort_key fst (edges n @ [e])) n"

definition replaceEdge :: "char \<times> 'v radix_node \<Rightarrow> 'v radix_node \<Rightarrow> 'v radix_node run" where
  "replaceEdge e n =
     (case edge_index (edges n) (fst e) of
        Some idx \<Rightarrow> Done (with_edges ((edges n)[idx := (fst (edges n ! idx), snd e)]) n)
      | None \<Rightarrow> Panic (PanicError ''replacing missing edge''))"

text \<open>The length of the common prefix of two strings.\<close>

fun longestPrefix :: "string \<Rightarrow> string \<Rightarrow> nat" where
  "longestPrefix (a # k1) (b # k2) = (if a = b then Suc (longestPrefix k1 k2) else 0)"
| "longestPrefix k1 k2 = 0"

section \<open>Insertion\<close>

lemma edge_index_bound: "edge_index es c = Some i \<Longrightarrow> i < length es"
  by (auto simp: edge_index_def Let_def split: if_splits)

lemma edge_size: "(c, ch) \<in> set (edges n) \<Longrightarrow> size ch < size n"
proof -
  have "(c, ch) \<in> set es \<Longrightarrow> size ch < Suc (size_list (size_prod (\<lambda>_. 0) size) es)" for es
    by (induction es) auto
  then show "(c, ch) \<in> set (edges n) \<Longrightarrow> size ch < size n"
    by (cases n) (fastforce simp: less_Suc_eq_le intro: trans_le_add2)
qed

lemma edge_size_snd: "e \<in> set (edges n) \<Longrightarrow> size (snd e) < size n"
  using edge_size [of "fst e" "snd e"] by simp

lemma getEdge_mem: "getEdge n c = Some ch \<Longrightarrow> \<exists>l. (l, ch) \<in> set (edges n)"
  by (auto simp: getEdge_def dest!: edge_index_bound) (metis nth_mem prod.collapse)

lemma getEdge_size: "getEdge n c = Some ch \<Longrightarrow> size ch < size n"
  using getEdge_mem edge_size by blast

text \<open>
  The loop of \<^verbatim>\<open>Insert\<close> at a node: \<open>s\<close> is the whole key and \<open>search\<close> what is left of it.  The result is
  the changed node with the value that was replaced.
\<close>

function insert_at :: "string \<Rightarrow> 'v \<Rightarrow> string \<Rightarrow> 'v radix_node \<Rightarrow> ('v radix_node \<times> 'v option) run" where
  "insert_at s v search n =
     (if search = [] then Done (with_leaf (Some (s, v)) n, map_option snd (leaf n))
      else
        (case getEdge n (hd search) of
           None \<Rightarrow> Done (addEdge (hd search, RNode (Some (s, v)) search []) n, None)
         | Some ch \<Rightarrow>
             let common = longestPrefix search (prefix ch) in
             if common = length (prefix ch) then
               run_bind (insert_at s v (drop common search) ch) (\<lambda>(ch', old).
                 run_bind (replaceEdge (hd search, ch') n) (\<lambda>n'. Done (n', old)))
             else
               let child = RNode None (take common search) [];
                   child = addEdge (prefix ch ! common, with_prefix (drop common (prefix ch)) ch) child;
                   rest = drop common search;
                   child = (if rest = [] then with_leaf (Some (s, v)) child
                            else addEdge (hd rest, RNode (Some (s, v)) rest []) child)
               in run_bind (replaceEdge (hd search, child) n) (\<lambda>n'. Done (n', None))))"
  by pat_completeness auto
termination
  by (relation "measure (\<lambda>(s, v, search, n). size n)") (auto dest: getEdge_size)

declare insert_at.simps [simp del]

text \<open>\<^verbatim>\<open>size\<close> is a Go \<^verbatim>\<open>int\<close>, kept unbounded here.\<close>

record 'v Tree =
  root :: "'v radix_node"
  tree_size :: int

definition new_root :: "'v radix_node" where
  "new_root = RNode None [] []"

definition Tree_Insert :: "string \<Rightarrow> 'v \<Rightarrow> 'v Tree \<Rightarrow> (('v option \<times> bool) \<times> 'v Tree) run" where
  "Tree_Insert s v t =
     run_bind (insert_at s v s (root t)) (\<lambda>(r, old).
       Done ((old, old \<noteq> None),
             \<lparr>root = r, tree_size = (if old = None then tree_size t + 1 else tree_size t)\<rparr>))"

primrec insert_pairs :: "(string \<times> 'v) list \<Rightarrow> 'v Tree \<Rightarrow> 'v Tree run" where
  "insert_pairs [] t = Done t"
| "insert_pairs (kv # kvs) t = run_bind (Tree_Insert (fst kv) (snd kv) t) (\<lambda>(_, t). insert_pairs kvs t)"

text \<open>The pairs of a Go map come in an arbitrary order: here a list of them.\<close>

definition NewFromMap :: "(string \<times> 'v) list \<Rightarrow> 'v Tree run" where
  "NewFromMap m = insert_pairs m \<lparr>root = new_root, tree_size = 0\<rparr>"

definition Tree_New :: "'v Tree run" where
  "Tree_New = NewFromMap []"

definition Tree_Len :: "'v Tree \<Rightarrow> int" where
  "Tree_Len t = tree_size t"

section \<open>Deletion\<close>

text \<open>Removing the leaf of a node, and merging the node with a single child.\<close>

definition delete_leaf :: "'v radix_node \<Rightarrow> 'v radix_node" where
  "delete_leaf n =
     (case edges n of
        [(_, child)] \<Rightarrow> RNode (leaf child) (prefix n @ prefix child) (edges child)
      | _ \<Rightarrow> with_leaf None n)"

function delete_at :: "string \<Rightarrow> 'v radix_node \<Rightarrow> ('v \<times> 'v radix_node) option" where
  "delete_at search n =
     (if search = [] then
        (case leaf n of
           None \<Rightarrow> None
         | Some (_, v) \<Rightarrow> Some (v, delete_leaf n))
      else
        (case edge_index (edges n) (hd search) of
           None \<Rightarrow> None
         | Some idx \<Rightarrow>
             let ch = snd (edges n ! idx) in
             if HasPrefix search (prefix ch) then
               map_option (\<lambda>(v, ch'). (v, with_edges ((edges n)[idx := (fst (edges n ! idx), ch')]) n))
                 (delete_at (drop (length (prefix ch)) search) ch)
             else None))"
  by pat_completeness auto
termination
proof (relation "measure (\<lambda>(search, n). size n)", goal_cases)
  case (2 search n idx ch)
  then have "getEdge n (hd search) = Some ch" by (simp add: getEdge_def)
  then show ?case by (auto dest: getEdge_size)
qed simp

declare delete_at.simps [simp del]

definition Tree_Delete :: "string \<Rightarrow> 'v Tree \<Rightarrow> ('v option \<times> bool) \<times> 'v Tree" where
  "Tree_Delete s t =
     (case delete_at s (root t) of
        None \<Rightarrow> ((None, False), t)
      | Some (v, r) \<Rightarrow> ((Some v, True), \<lparr>root = r, tree_size = tree_size t - 1\<rparr>))"

section \<open>Lookup\<close>

function get_at :: "string \<Rightarrow> 'v radix_node \<Rightarrow> 'v option" where
  "get_at search n =
     (if search = [] then map_option snd (leaf n)
      else
        (case getEdge n (hd search) of
           None \<Rightarrow> None
         | Some ch \<Rightarrow>
             if HasPrefix search (prefix ch) then get_at (drop (length (prefix ch)) search) ch
             else None))"
  by pat_completeness auto
termination
  by (relation "measure (\<lambda>(search, n). size n)") (auto dest: getEdge_size)

declare get_at.simps [simp del]

definition Tree_Get :: "string \<Rightarrow> 'v Tree \<Rightarrow> 'v option" where
  "Tree_Get s t = get_at s (root t)"

text \<open>The last leaf on the way to a key.\<close>

function longest_at :: "string \<Rightarrow> (string \<times> 'v) option \<Rightarrow> 'v radix_node \<Rightarrow> (string \<times> 'v) option" where
  "longest_at search found n =
     (let found = (if leaf n \<noteq> None then leaf n else found) in
      if search = [] then found
      else
        (case getEdge n (hd search) of
           None \<Rightarrow> found
         | Some ch \<Rightarrow>
             if HasPrefix search (prefix ch) then longest_at (drop (length (prefix ch)) search) found ch
             else found))"
  by pat_completeness auto
termination
  by (relation "measure (\<lambda>(search, found, n). size n)") (auto dest: getEdge_size)

declare longest_at.simps [simp del]

definition Tree_LongestPrefix :: "string \<Rightarrow> 'v Tree \<Rightarrow> (string \<times> 'v) option" where
  "Tree_LongestPrefix s t = longest_at s None (root t)"

function min_at :: "'v radix_node \<Rightarrow> (string \<times> 'v) option" where
  "min_at n =
     (case leaf n of
        Some l \<Rightarrow> Some l
      | None \<Rightarrow> (case edges n of [] \<Rightarrow> None | e # _ \<Rightarrow> min_at (snd e)))"
  by pat_completeness auto
termination
  by (relation "measure size") (auto intro!: edge_size_snd)

declare min_at.simps [simp del]

function max_at :: "'v radix_node \<Rightarrow> (string \<times> 'v) option" where
  "max_at n = (if edges n \<noteq> [] then max_at (snd (last (edges n))) else leaf n)"
  by pat_completeness auto
termination
  by (relation "measure size") (auto intro!: edge_size_snd)

declare max_at.simps [simp del]

definition Tree_Minimum :: "'v Tree \<Rightarrow> (string \<times> 'v) option" where
  "Tree_Minimum t = min_at (root t)"

definition Tree_Maximum :: "'v Tree \<Rightarrow> (string \<times> 'v) option" where
  "Tree_Maximum t = max_at (root t)"

section \<open>Walks\<close>

text \<open>
  A callback may end the walk and has an effect on a state of its own.
\<close>

type_synonym ('v, 's) WalkFn = "string \<Rightarrow> 'v \<Rightarrow> 's \<Rightarrow> bool \<times> 's"

fun recursiveWalk :: "('v, 's) WalkFn \<Rightarrow> 'v radix_node \<Rightarrow> 's \<Rightarrow> bool \<times> 's"
  and walk_edges :: "('v, 's) WalkFn \<Rightarrow> (char \<times> 'v radix_node) list \<Rightarrow> 's \<Rightarrow> bool \<times> 's" where
  "recursiveWalk fn (RNode l p es) s =
     (case l of
        None \<Rightarrow> walk_edges fn es s
      | Some (k, v) \<Rightarrow>
          (case fn k v s of (stop, s) \<Rightarrow> if stop then (True, s) else walk_edges fn es s))"
| "walk_edges fn [] s = (False, s)"
| "walk_edges fn ((c, n) # es) s =
     (case recursiveWalk fn n s of (stop, s) \<Rightarrow> if stop then (True, s) else walk_edges fn es s)"

definition Tree_Walk :: "('v, 's) WalkFn \<Rightarrow> 'v Tree \<Rightarrow> 's \<Rightarrow> 's" where
  "Tree_Walk fn t s = snd (recursiveWalk fn (root t) s)"

function walk_prefix_at :: "string \<Rightarrow> ('v, 's) WalkFn \<Rightarrow> 'v radix_node \<Rightarrow> 's \<Rightarrow> 's" where
  "walk_prefix_at search fn n s =
     (if search = [] then snd (recursiveWalk fn n s)
      else
        (case getEdge n (hd search) of
           None \<Rightarrow> s
         | Some ch \<Rightarrow>
             if HasPrefix search (prefix ch) then walk_prefix_at (drop (length (prefix ch)) search) fn ch s
             else if HasPrefix (prefix ch) search then snd (recursiveWalk fn ch s)
             else s))"
  by pat_completeness auto
termination
  by (relation "measure (\<lambda>(search, fn, n, s). size n)") (auto dest: getEdge_size)

declare walk_prefix_at.simps [simp del]

definition Tree_WalkPrefix :: "string \<Rightarrow> ('v, 's) WalkFn \<Rightarrow> 'v Tree \<Rightarrow> 's \<Rightarrow> 's" where
  "Tree_WalkPrefix p fn t s = walk_prefix_at p fn (root t) s"

definition ToMap :: "'v Tree \<Rightarrow> (string \<rightharpoonup> 'v)" where
  "ToMap t = Tree_Walk (\<lambda>k v out. (False, out(k \<mapsto> v))) t Map.empty"

end
