(* ===== verification/Radix_Properties.thy ===== *)
theory Radix_Properties
  imports Radix
begin

text \<open>
  The radix tree is a dictionary: the invariant of its nodes, the entries it holds, and the operations as
  operations on maps.  The order of the entries is the order of a walk.
\<close>

section \<open>Searching an edge\<close>

lemma search_loop_spec:
  assumes "\<forall>k l. k \<le> l \<longrightarrow> l < n \<longrightarrow> f k \<longrightarrow> f l" "i \<le> j" "\<forall>k < i. \<not> f k" "\<forall>k. j \<le> k \<and> k < n \<longrightarrow> f k" "j \<le> n"
  shows "search_loop f i j \<le> n \<and> (\<forall>k < search_loop f i j. \<not> f k) \<and> (search_loop f i j < n \<longrightarrow> f (search_loop f i j))"
  using assms
proof (induction f i j rule: search_loop.induct)
  case (1 f i j)
  show ?case
  proof (cases "i < j")
    case True
    define h where "h = i + (j - i) div 2"
    have h: "i \<le> h" "h < j" using True by (auto simp: h_def)
    show ?thesis
    proof (cases "f h")
      case False
      have "search_loop f i j = search_loop f (h + 1) j"
        using True False by (subst search_loop.simps) (simp add: Let_def h_def)
      moreover have "\<not> f k" if "k < h + 1" for k
        using False "1.prems"(1) that h "1.prems"(5) by (metis Suc_eq_plus1 less_Suc_eq_le less_le_trans)
      ultimately show ?thesis
        using "1.IH"(1) [OF True h_def False "1.prems"(1) _ _ "1.prems"(4,5)] h by simp
    next
      case f: True
      have "search_loop f i j = search_loop f i h"
        using True f by (subst search_loop.simps) (simp add: Let_def h_def)
      moreover have "\<forall>k. h \<le> k \<and> k < n \<longrightarrow> f k" using f "1.prems"(1) by blast
      ultimately show ?thesis
        using "1.IH"(2) [OF True h_def _ "1.prems"(1) h(1) "1.prems"(3)] h f "1.prems"(5) by simp
    qed
  next
    case False
    then have "search_loop f i j = i" by (subst search_loop.simps) simp
    then show ?thesis using "1.prems" False by auto
  qed
qed

definition labels :: "(char \<times> 'v radix_node) list \<Rightarrow> char list" where
  "labels es = map fst es"

lemma edge_index_sorted:
  assumes "sorted_wrt (<) (labels es)"
  shows "edge_index es c = Some i \<longleftrightarrow> i < length es \<and> fst (es ! i) = c"
proof -
  have ord: "fst (es ! k) < fst (es ! l)" if "k < l" "l < length es" for k l
    using assms that by (auto simp: labels_def sorted_wrt_iff_nth_less)
  let ?f = "\<lambda>i. c \<le> fst (es ! i)"
  let ?x = "search_loop ?f 0 (length es)"
  have "?f l" if "k \<le> l" "l < length es" "?f k" for k l
    using that ord [of k l] by (cases "k = l") auto
  then have mono: "\<forall>k l. k \<le> l \<longrightarrow> l < length es \<longrightarrow> ?f k \<longrightarrow> ?f l" by blast
  have spec: "?x \<le> length es" "\<forall>k < ?x. \<not> ?f k" "?x < length es \<longrightarrow> ?f ?x"
  proof -
    have "0 \<le> length es" "\<forall>k < 0. \<not> ?f k" "\<forall>k. length es \<le> k \<and> k < length es \<longrightarrow> ?f k" "length es \<le> length es"
      by auto
    from search_loop_spec [OF mono this]
    show "?x \<le> length es" "\<forall>k < ?x. \<not> ?f k" "?x < length es \<longrightarrow> ?f ?x" by blast+
  qed
  have idx: "edge_index es c = (if ?x < length es \<and> fst (es ! ?x) = c then Some ?x else None)"
    by (simp add: edge_index_def sort_Search_def Let_def)
  have "i = ?x" if "i < length es" "fst (es ! i) = c"
  proof (rule antisym)
    show "?x \<le> i" using spec(2) that by (meson linorder_not_less order_refl)
    show "i \<le> ?x"
    proof (rule ccontr)
      assume "\<not> i \<le> ?x"
      then have "?x < i" by simp
      then show False using spec(3) ord [of ?x i] that by auto
    qed
  qed
  then show ?thesis using idx by auto
qed

lemma edge_index_None:
  assumes "sorted_wrt (<) (labels es)"
  shows "edge_index es c = None \<longleftrightarrow> c \<notin> set (labels es)"
proof -
  have "edge_index es c = None \<longleftrightarrow> (\<forall>i. \<not> (i < length es \<and> fst (es ! i) = c))"
    using edge_index_sorted [OF assms] by (metis not_None_eq)
  also have "\<dots> \<longleftrightarrow> c \<notin> set (labels es)"
    unfolding labels_def in_set_conv_nth by auto
  finally show ?thesis .
qed

section \<open>The invariant\<close>

text \<open>
  A node that is reached by the path \<open>p\<close> has the key \<open>p\<close>; its edges are ordered by their labels, and
  the node below an edge starts with its label.
\<close>

function node_ok :: "string \<Rightarrow> 'v radix_node \<Rightarrow> bool" where
  "node_ok p n \<longleftrightarrow> (\<forall>k v. leaf n = Some (k, v) \<longrightarrow> k = p) \<and> sorted_wrt (<) (labels (edges n)) \<and>
     (\<forall>e \<in> set (edges n). prefix (snd e) \<noteq> [] \<and> hd (prefix (snd e)) = fst e \<and> node_ok (p @ prefix (snd e)) (snd e))"
  by pat_completeness auto
termination
  by (relation "measure (\<lambda>(p, n). size n)") (auto intro!: edge_size_snd)

declare node_ok.simps [simp del]

text \<open>The entries of a node, in the order of a walk.\<close>

fun entries :: "'v radix_node \<Rightarrow> (string \<times> 'v) list" where
  "entries (RNode l p es) = (case l of None \<Rightarrow> [] | Some kv \<Rightarrow> [kv]) @ concat (map (\<lambda>e. entries (snd e)) es)"

lemma entries_eq:
  "entries n = (case leaf n of None \<Rightarrow> [] | Some kv \<Rightarrow> [kv]) @ concat (map (\<lambda>e. entries (snd e)) (edges n))"
  by (cases n) simp

lemma entries_mem:
  "kv \<in> set (entries n) \<longleftrightarrow> leaf n = Some kv \<or> (\<exists>e \<in> set (edges n). kv \<in> set (entries (snd e)))"
  by (subst entries_eq) (cases "leaf n"; auto)

lemma entry_cases:
  assumes "kv \<in> set (entries n)"
  obtains (here) "leaf n = Some kv" | (below) e where "e \<in> set (edges n)" "kv \<in> set (entries (snd e))"
  using assms iffD1 [OF entries_mem] by blast

lemma entry_below: "e \<in> set (edges n) \<Longrightarrow> kv \<in> set (entries (snd e)) \<Longrightarrow> kv \<in> set (entries n)"
  using iffD2 [OF entries_mem] by blast

lemma node_ok_leaf: "node_ok p n \<Longrightarrow> leaf n = Some (k, v) \<Longrightarrow> k = p"
  by (subst (asm) node_ok.simps) blast

lemma node_ok_sorted: "node_ok p n \<Longrightarrow> sorted_wrt (<) (labels (edges n))"
  by (subst (asm) node_ok.simps) blast

lemma node_ok_edge:
  "node_ok p n \<Longrightarrow> e \<in> set (edges n) \<Longrightarrow>
    prefix (snd e) \<noteq> [] \<and> hd (prefix (snd e)) = fst e \<and> node_ok (p @ prefix (snd e)) (snd e)"
  by (subst (asm) node_ok.simps) blast

lemma node_okI:
  assumes "\<And>k v. leaf n = Some (k, v) \<Longrightarrow> k = p" "sorted_wrt (<) (labels (edges n))"
    and "\<And>e. e \<in> set (edges n) \<Longrightarrow>
      prefix (snd e) \<noteq> [] \<and> hd (prefix (snd e)) = fst e \<and> node_ok (p @ prefix (snd e)) (snd e)"
  shows "node_ok p n"
  using assms by (subst node_ok.simps) blast

lemma node_ok_with_prefix [simp]: "node_ok p (with_prefix x n) = node_ok p n"
  by (subst (1 2) node_ok.simps) simp

lemma entries_with_prefix [simp]: "entries (with_prefix x n) = entries n"
  by (subst (1 2) entries_eq) simp

text \<open>The keys below a node start with its path.\<close>

lemma entries_prefix: "node_ok p n \<Longrightarrow> (k, v) \<in> set (entries n) \<Longrightarrow> \<exists>x. k = p @ x"
proof (induction p n rule: node_ok.induct)
  case (1 p n)
  show ?case
  proof (cases "leaf n = Some (k, v)")
    case True
    then show ?thesis using node_ok_leaf [OF "1.prems"(1)] by auto
  next
    case False
    then obtain e where e: "e \<in> set (edges n)" "(k, v) \<in> set (entries (snd e))"
      using "1.prems"(2) by (rule_tac entry_cases) auto
    then show ?thesis using "1.IH" [OF e(1)] node_ok_edge [OF "1.prems"(1) e(1)] by auto
  qed
qed

lemma edge_entry:
  assumes "node_ok p n" "e \<in> set (edges n)" "(k, v) \<in> set (entries (snd e))"
  obtains x where "k = p @ fst e # x" "\<exists>y. fst e # x = prefix (snd e) @ y"
proof -
  have ok: "prefix (snd e) \<noteq> []" "hd (prefix (snd e)) = fst e" "node_ok (p @ prefix (snd e)) (snd e)"
    using node_ok_edge [OF assms(1,2)] by simp_all
  then obtain y where y: "k = p @ prefix (snd e) @ y" using entries_prefix [OF ok(3) assms(3)] by auto
  obtain z where z: "prefix (snd e) = fst e # z" using ok(1,2) by (cases "prefix (snd e)") auto
  show ?thesis using that [of "z @ y"] y z by simp
qed

text \<open>The child for a character, and what the edge says of the keys.\<close>

lemma edge_at:
  assumes "node_ok p n" "edge_index (edges n) c = Some i"
  shows "edges n ! i \<in> set (edges n)" "fst (edges n ! i) = c" "prefix (snd (edges n ! i)) \<noteq> []"
    "hd (prefix (snd (edges n ! i))) = c" "node_ok (p @ prefix (snd (edges n ! i))) (snd (edges n ! i))"
proof -
  have i: "i < length (edges n)" "fst (edges n ! i) = c"
    using edge_index_sorted [OF node_ok_sorted [OF assms(1)]] assms(2) by auto
  then show e: "edges n ! i \<in> set (edges n)" "fst (edges n ! i) = c" by auto
  then show "prefix (snd (edges n ! i)) \<noteq> []" "hd (prefix (snd (edges n ! i))) = c"
    "node_ok (p @ prefix (snd (edges n ! i))) (snd (edges n ! i))"
    using node_ok_edge [OF assms(1) e(1)] by auto
qed

lemma entries_child:
  assumes "node_ok p n" "edge_index (edges n) c = Some i"
  shows "(p @ c # x, v) \<in> set (entries n) \<longleftrightarrow> (p @ c # x, v) \<in> set (entries (snd (edges n ! i)))"
proof
  assume "(p @ c # x, v) \<in> set (entries n)"
  moreover have "leaf n \<noteq> Some (p @ c # x, v)" using node_ok_leaf [OF assms(1), of "p @ c # x" v] by auto
  ultimately obtain e where e: "e \<in> set (edges n)" "(p @ c # x, v) \<in> set (entries (snd e))"
    by (rule_tac entry_cases) auto
  then have "fst e = c" using edge_entry [OF assms(1) e] by auto
  moreover obtain j where "j < length (edges n)" "e = edges n ! j" using e(1) by (metis in_set_conv_nth)
  ultimately have "j = i" "e = edges n ! i"
    using edge_index_sorted [OF node_ok_sorted [OF assms(1)], of c] assms(2) by (metis option.inject)+
  then show "(p @ c # x, v) \<in> set (entries (snd (edges n ! i)))" using e(2) by simp
next
  assume "(p @ c # x, v) \<in> set (entries (snd (edges n ! i)))"
  then show "(p @ c # x, v) \<in> set (entries n)" using edge_at(1) [OF assms] by (blast intro: entry_below)
qed

lemma entries_no_child:
  assumes "node_ok p n" "edge_index (edges n) c = None"
  shows "(p @ c # x, v) \<notin> set (entries n)"
proof
  assume "(p @ c # x, v) \<in> set (entries n)"
  moreover have "leaf n \<noteq> Some (p @ c # x, v)" using node_ok_leaf [OF assms(1), of "p @ c # x" v] by auto
  ultimately obtain e where e: "e \<in> set (edges n)" "(p @ c # x, v) \<in> set (entries (snd e))"
    by (rule_tac entry_cases) auto
  then have "fst e = c" using edge_entry [OF assms(1) e] by auto
  then have "c \<in> set (labels (edges n))" using e(1) by (auto simp: labels_def)
  then show False using edge_index_None [OF node_ok_sorted [OF assms(1)]] assms(2) by blast
qed

lemma entries_here: "node_ok p n \<Longrightarrow> (p, v) \<in> set (entries n) \<longleftrightarrow> leaf n = Some (p, v)"
proof -
  assume ok: "node_ok p n"
  have "(p, v) \<notin> set (entries (snd e))" if "e \<in> set (edges n)" for e
  proof
    assume "(p, v) \<in> set (entries (snd e))"
    from edge_entry [OF ok that this] show False by auto
  qed
  then show ?thesis using iffD1 [OF entries_mem] iffD2 [OF entries_mem] by blast
qed

section \<open>Lookup\<close>

lemma get_at_entries:
  "node_ok p n \<Longrightarrow> get_at search n = Some v \<longleftrightarrow> (p @ search, v) \<in> set (entries n)"
proof (induction search n arbitrary: p rule: get_at.induct)
  case (1 search n)
  show ?case
  proof (cases search)
    case Nil
    have "map_option snd (leaf n) = Some v \<longleftrightarrow> leaf n = Some (p, v)"
      using node_ok_leaf [OF "1.prems"] by (cases "leaf n") auto
    then show ?thesis using Nil entries_here [OF "1.prems"] by (subst get_at.simps) simp
  next
    case (Cons c cs)
    show ?thesis
    proof (cases "edge_index (edges n) c")
      case None
      then show ?thesis using Cons entries_no_child [OF "1.prems" None] by (subst get_at.simps) (simp add: getEdge_def)
    next
      case (Some i)
      let ?ch = "snd (edges n ! i)"
      have ch: "getEdge n (hd search) = Some ?ch" using Some Cons by (simp add: getEdge_def)
      note e = edge_at [OF "1.prems" Some]
      have iff: "(p @ search, v) \<in> set (entries n) \<longleftrightarrow> (p @ search, v) \<in> set (entries ?ch)"
        using entries_child [OF "1.prems" Some] Cons by simp
      show ?thesis
      proof (cases "HasPrefix search (prefix ?ch)")
        case True
        then obtain t where t: "search = prefix ?ch @ t" by (auto simp: HasPrefix_iff)
        have "get_at (drop (length (prefix ?ch)) search) ?ch = Some v \<longleftrightarrow>
            ((p @ prefix ?ch) @ drop (length (prefix ?ch)) search, v) \<in> set (entries ?ch)"
          using "1.IH" [OF _ ch True] Cons e(5) by simp
        moreover have "(p @ prefix ?ch) @ drop (length (prefix ?ch)) search = p @ search" by (simp add: t)
        ultimately show ?thesis using ch Cons True iff by (subst get_at.simps) simp
      next
        case False
        have "(p @ search, v) \<notin> set (entries ?ch)"
        proof
          assume "(p @ search, v) \<in> set (entries ?ch)"
          then obtain x where "p @ search = (p @ prefix ?ch) @ x" using entries_prefix [OF e(5)] by blast
          then show False using False by (auto simp: HasPrefix_iff)
        qed
        then show ?thesis using ch Cons False iff by (subst get_at.simps) simp
      qed
    qed
  qed
qed

section \<open>Order\<close>

lemma same_append_less: "(p @ x < p @ y) = (x < (y :: string))"
  by (induction p) simp_all

lemma in_concat_map: "x \<in> set (concat (map f xs)) \<longleftrightarrow> (\<exists>e \<in> set xs. x \<in> set (f e))"
  by auto

lemma sorted_concat:
  "\<forall>e \<in> set es. sorted_wrt P (f e) \<Longrightarrow>
    sorted_wrt (\<lambda>e e'. \<forall>x \<in> set (f e). \<forall>y \<in> set (f e'). P x y) es \<Longrightarrow> sorted_wrt P (concat (map f es))"
  by (induction es) (auto simp: sorted_wrt_append)

text \<open>The entries are in the order of their keys, each key once.\<close>

lemma entries_sorted: "node_ok p n \<Longrightarrow> sorted_wrt (<) (map fst (entries n))"
proof (induction p n rule: node_ok.induct)
  case (1 p n)
  note ok = "1.prems"
  let ?f = "\<lambda>e. map fst (entries (snd e))"
  have below: "\<exists>y. k = p @ fst e # y" if e: "e \<in> set (edges n)" "k \<in> set (?f e)" for e k
  proof -
    obtain v where "(k, v) \<in> set (entries (snd e))" using e(2) by auto
    from edge_entry [OF ok e(1) this] show ?thesis by blast
  qed
  have "sorted_wrt (\<lambda>e e'. fst e < fst e') (edges n)"
    using node_ok_sorted [OF ok] by (simp add: labels_def sorted_wrt_map)
  then have "sorted_wrt (\<lambda>e e'. \<forall>x \<in> set (?f e). \<forall>y \<in> set (?f e'). x < y) (edges n)"
  proof (rule sorted_wrt_mono_rel [rotated])
    fix e e' :: "char \<times> 'a radix_node"
    assume e: "e \<in> set (edges n)" "e' \<in> set (edges n)" "fst e < fst e'"
    have "x < y" if "x \<in> set (?f e)" "y \<in> set (?f e')" for x y
      using below [OF e(1) that(1)] below [OF e(2) that(2)] e(3) by (auto simp: same_append_less)
    then show "\<forall>x \<in> set (?f e). \<forall>y \<in> set (?f e'). x < y" by blast
  qed
  moreover have "\<forall>e \<in> set (edges n). sorted_wrt (<) (?f e)"
    using "1.IH" node_ok_edge [OF ok] by simp
  ultimately have rest: "sorted_wrt (<) (concat (map ?f (edges n)))" by (intro sorted_concat)
  have eq: "map fst (entries n) = (case leaf n of None \<Rightarrow> [] | Some kv \<Rightarrow> [fst kv]) @ concat (map ?f (edges n))"
    by (subst entries_eq) (auto simp: map_concat comp_def split: option.splits)
  show ?case
  proof (cases "leaf n")
    case None
    then show ?thesis using rest eq by simp
  next
    case (Some kv)
    have "fst kv = p" using node_ok_leaf [OF ok, of "fst kv" "snd kv"] Some by simp
    have "p < k" if k: "k \<in> set (concat (map ?f (edges n)))" for k
    proof -
      obtain e where "e \<in> set (edges n)" "k \<in> set (?f e)" using k unfolding in_concat_map by blast
      from below [OF this] obtain y where "k = p @ fst e # y" by blast
      then show ?thesis using same_append_less [of p "[]" "fst e # y"] by simp
    qed
    then have "\<forall>y \<in> set (concat (map ?f (edges n))). fst kv < y" using \<open>fst kv = p\<close> by blast
    moreover have "map fst (entries n) = fst kv # concat (map ?f (edges n))" using Some eq by simp
    ultimately show ?thesis using rest by (simp only: sorted_wrt.simps)
  qed
qed

lemma entries_distinct: "node_ok p n \<Longrightarrow> distinct (map fst (entries n))"
  using entries_sorted strict_sorted_iff by blast

section \<open>Changing an edge\<close>

definition put_edge :: "nat \<Rightarrow> 'v radix_node \<Rightarrow> 'v radix_node \<Rightarrow> 'v radix_node" where
  "put_edge i ch n = with_edges ((edges n)[i := (fst (edges n ! i), ch)]) n"

lemma replaceEdge_put: "edge_index (edges n) c = Some i \<Longrightarrow> replaceEdge (c, ch) n = Done (put_edge i ch n)"
  by (simp add: replaceEdge_def put_edge_def)

lemma edges_put: "edges (put_edge i ch n) = (edges n)[i := (fst (edges n ! i), ch)]" "leaf (put_edge i ch n) = leaf n"
  "prefix (put_edge i ch n) = prefix n"
  by (simp_all add: put_edge_def)

lemma put_edge_ok:
  assumes "node_ok p n" "edge_index (edges n) c = Some i"
    and "prefix ch \<noteq> []" "hd (prefix ch) = c" "node_ok (p @ prefix ch) ch"
  shows "node_ok p (put_edge i ch n)"
    "kv \<in> set (entries (put_edge i ch n)) \<longleftrightarrow>
      kv \<in> set (entries ch) \<or> kv \<in> set (entries n) \<and> kv \<notin> set (entries (snd (edges n ! i)))"
proof -
  let ?es = "(edges n)[i := (c, ch)]"
  have c: "fst (edges n ! i) = c" using edge_at(2) [OF assms(1,2)] .
  have es: "edges (put_edge i ch n) = ?es" using c by (simp add: edges_put)
  have i: "i < length (edges n)" using edge_index_bound [OF assms(2)] .
  have lab: "labels ?es = labels (edges n)"
    using c i by (simp add: labels_def map_update) (metis length_map list_update_id nth_map)
  show "node_ok p (put_edge i ch n)"
  proof (rule node_okI)
    show "k = p" if "leaf (put_edge i ch n) = Some (k, v)" for k v
      using node_ok_leaf [OF assms(1)] that by (simp add: edges_put)
    show "sorted_wrt (<) (labels (edges (put_edge i ch n)))" using node_ok_sorted [OF assms(1)] es lab by simp
    show "prefix (snd e) \<noteq> [] \<and> hd (prefix (snd e)) = fst e \<and> node_ok (p @ prefix (snd e)) (snd e)"
      if "e \<in> set (edges (put_edge i ch n))" for e
    proof -
      have "e = (c, ch) \<or> e \<in> set (edges n)"
        using set_update_subset_insert [of "edges n" i "(c, ch)"] that es by auto
      then show ?thesis using assms(3-5) node_ok_edge [OF assms(1), of e] by auto
    qed
  qed
  have uniq: "kv \<notin> set (entries (snd e))" if e: "e \<in> set (edges n)" "e \<noteq> edges n ! i" "kv \<in> set (entries (snd (edges n ! i)))" for e
  proof
    assume kv': "kv \<in> set (entries (snd e))"
    obtain k v where kv: "kv = (k, v)" by fastforce
    obtain x where x: "k = p @ fst e # x" using edge_entry [OF assms(1) e(1)] kv' kv by blast
    obtain y where "k = p @ c # y" using edge_entry [OF assms(1) edge_at(1) [OF assms(1,2)]] e(3) kv c by blast
    then have "fst e = c" using x by simp
    moreover obtain j where j: "j < length (edges n)" "e = edges n ! j" using e(1) by (metis in_set_conv_nth)
    ultimately have "j = i"
      using edge_index_sorted [OF node_ok_sorted [OF assms(1)], of c] assms(2) by (metis option.inject)
    then show False using e(2) j(2) by simp
  qed
  have mem: "e \<in> set ?es \<longleftrightarrow> e = (c, ch) \<or> e \<in> set (edges n) \<and> e \<noteq> edges n ! i" for e
  proof -
    have "distinct (edges n)"
      using node_ok_sorted [OF assms(1)] by (simp add: labels_def strict_sorted_iff distinct_map)
    then have "set ?es = insert (c, ch) (set (edges n) - {edges n ! i})" using i by (rule set_update_distinct)
    then show ?thesis by auto
  qed
  have nl: "leaf n \<noteq> Some kv" if below: "kv \<in> set (entries (snd (edges n ! i)))"
  proof
    assume l: "leaf n = Some kv"
    obtain k v where kv: "kv = (k, v)" by fastforce
    then have "k = p" using node_ok_leaf [OF assms(1)] l by simp
    moreover obtain x where "k = p @ fst (edges n ! i) # x"
      using edge_entry [OF assms(1) edge_at(1) [OF assms(1,2)]] below kv by blast
    ultimately show False by simp
  qed
  show "kv \<in> set (entries (put_edge i ch n)) \<longleftrightarrow>
      kv \<in> set (entries ch) \<or> kv \<in> set (entries n) \<and> kv \<notin> set (entries (snd (edges n ! i)))" (is "?l \<longleftrightarrow> ?r")
  proof
    assume ?l
    then show ?r
    proof (cases rule: entry_cases)
      case here
      then have "leaf n = Some kv" by (simp add: edges_put)
      then show ?thesis using nl iffD2 [OF entries_mem] by blast
    next
      case (below e)
      then show ?thesis using mem [of e] es uniq [of e] entry_below [of e n kv] by auto
    qed
  next
    assume ?r
    then show ?l
    proof (elim disjE conjE)
      assume "kv \<in> set (entries ch)"
      then show ?l using mem [of "(c, ch)"] es entry_below [of "(c, ch)" "put_edge i ch n"] by simp
    next
      assume a: "kv \<in> set (entries n)" "kv \<notin> set (entries (snd (edges n ! i)))"
      from a(1) show ?l
      proof (cases rule: entry_cases)
        case here
        then have "leaf (put_edge i ch n) = Some kv" by (simp add: edges_put)
        then show ?thesis using iffD2 [OF entries_mem] by blast
      next
        case (below e)
        then have "e \<in> set ?es" using mem a(2) by auto
        then show ?thesis using below(2) es entry_below [of e "put_edge i ch n"] by simp
      qed
    qed
  qed
qed

section \<open>Adding an edge\<close>

lemma addEdge_ok:
  assumes "node_ok p n" "c \<notin> set (labels (edges n))"
    and "prefix ch \<noteq> []" "hd (prefix ch) = c" "node_ok (p @ prefix ch) ch"
  shows "node_ok p (addEdge (c, ch) n)" "prefix (addEdge (c, ch) n) = prefix n"
    "set (labels (edges (addEdge (c, ch) n))) = insert c (set (labels (edges n)))"
    "kv \<in> set (entries (addEdge (c, ch) n)) \<longleftrightarrow> kv \<in> set (entries ch) \<or> kv \<in> set (entries n)"
proof -
  let ?es = "sort_key fst (edges n @ [(c, ch)])"
  have es: "edges (addEdge (c, ch) n) = ?es" "leaf (addEdge (c, ch) n) = leaf n" by (simp_all add: addEdge_def)
  have mem: "e \<in> set ?es \<longleftrightarrow> e = (c, ch) \<or> e \<in> set (edges n)" for e by simp
  show lab: "set (labels (edges (addEdge (c, ch) n))) = insert c (set (labels (edges n)))"
    by (auto simp: es labels_def)
  have "distinct (labels (edges n @ [(c, ch)]))"
    using node_ok_sorted [OF assms(1)] assms(2) by (auto simp: labels_def strict_sorted_iff)
  moreover have "mset (labels ?es) = mset (labels (edges n @ [(c, ch)]))" by (simp only: labels_def mset_map mset_sort)
  ultimately have "distinct (labels ?es)" by (metis mset_eq_imp_distinct_iff)
  moreover have "sorted (labels ?es)" by (simp add: labels_def)
  ultimately have sorted: "sorted_wrt (<) (labels ?es)" by (simp add: strict_sorted_iff)
  show "node_ok p (addEdge (c, ch) n)"
  proof (rule node_okI)
    show "k = p" if "leaf (addEdge (c, ch) n) = Some (k, v)" for k v
      using node_ok_leaf [OF assms(1)] that es by simp
    show "sorted_wrt (<) (labels (edges (addEdge (c, ch) n)))" using sorted es by simp
    show "prefix (snd e) \<noteq> [] \<and> hd (prefix (snd e)) = fst e \<and> node_ok (p @ prefix (snd e)) (snd e)"
      if "e \<in> set (edges (addEdge (c, ch) n))" for e
      using that es(1) mem [of e] assms(3-5) node_ok_edge [OF assms(1), of e] by auto
  qed
  show "prefix (addEdge (c, ch) n) = prefix n" by (simp add: addEdge_def)
  show "kv \<in> set (entries (addEdge (c, ch) n)) \<longleftrightarrow> kv \<in> set (entries ch) \<or> kv \<in> set (entries n)"
  proof -
    have "kv \<in> set (entries (addEdge (c, ch) n)) \<longleftrightarrow> leaf n = Some kv \<or> (\<exists>e \<in> set ?es. kv \<in> set (entries (snd e)))"
      unfolding entries_mem [of kv "addEdge (c, ch) n"] es ..
    also have "\<dots> \<longleftrightarrow> kv \<in> set (entries ch) \<or> leaf n = Some kv \<or> (\<exists>e \<in> set (edges n). kv \<in> set (entries (snd e)))"
      using mem by auto
    also have "\<dots> \<longleftrightarrow> kv \<in> set (entries ch) \<or> kv \<in> set (entries n)" unfolding entries_mem [of kv n] ..
    finally show ?thesis .
  qed
qed

lemma node_ok_single: "node_ok p (RNode None x [])" "node_ok p (RNode (Some (p, v)) x [])"
  by (rule node_okI; simp add: labels_def)+

lemma entries_single: "entries (RNode None x []) = []" "entries (RNode (Some kv) x []) = [kv]"
  by simp_all

lemma with_leaf_ok:
  assumes "node_ok p n"
  shows "node_ok p (with_leaf (Some (p, v)) n)" "node_ok p (with_leaf None n)"
    "(k, w) \<in> set (entries (with_leaf (Some (p, v)) n)) \<longleftrightarrow> (if k = p then w = v else (k, w) \<in> set (entries n))"
    "(k, w) \<in> set (entries (with_leaf None n)) \<longleftrightarrow> k \<noteq> p \<and> (k, w) \<in> set (entries n)"
proof -
  show 1: "node_ok p (with_leaf (Some (p, v)) n)" and 2: "node_ok p (with_leaf None n)"
    by (rule node_okI; use node_ok_sorted [OF assms] node_ok_edge [OF assms] in simp)+
  have other: "(k, w) \<in> set (entries (with_leaf l n)) \<longleftrightarrow> (k, w) \<in> set (entries n)"
    if "k \<noteq> p" "l = None \<or> (\<exists>v. l = Some (p, v))" for l
  proof -
    have "leaf n \<noteq> Some (k, w)" using node_ok_leaf [OF assms] that(1) by blast
    then show ?thesis using that entries_mem [of "(k, w)" n] entries_mem [of "(k, w)" "with_leaf l n"] by auto
  qed
  show "(k, w) \<in> set (entries (with_leaf (Some (p, v)) n)) \<longleftrightarrow> (if k = p then w = v else (k, w) \<in> set (entries n))"
    using entries_here [OF 1, of w] other by auto
  show "(k, w) \<in> set (entries (with_leaf None n)) \<longleftrightarrow> k \<noteq> p \<and> (k, w) \<in> set (entries n)"
    using entries_here [OF 2, of w] other by auto
qed

lemma longestPrefix_spec:
  "longestPrefix a b \<le> length a \<and> longestPrefix a b \<le> length b \<and>
    take (longestPrefix a b) a = take (longestPrefix a b) b \<and>
    (longestPrefix a b < length a \<and> longestPrefix a b < length b \<longrightarrow> a ! longestPrefix a b \<noteq> b ! longestPrefix a b)"
  by (induction a b rule: longestPrefix.induct) auto

section \<open>Insertion\<close>

definition inserted :: "string \<Rightarrow> string \<Rightarrow> 'v \<Rightarrow> 'v radix_node \<Rightarrow> 'v radix_node \<Rightarrow> bool" where
  "inserted p s v n n' \<longleftrightarrow> node_ok p n' \<and> prefix n' = prefix n \<and>
     (\<forall>k w. (k, w) \<in> set (entries n') \<longleftrightarrow> (if k = s then w = v else (k, w) \<in> set (entries n)))"

lemma split_ok:
  assumes "node_ok p n" "edge_index (edges n) c = Some i" "prefix (snd (edges n ! i)) = pre"
    and "longestPrefix (c # cs) pre = common" "common \<noteq> length pre"
    and "child0 = addEdge (pre ! common, with_prefix (drop common pre) (snd (edges n ! i))) (RNode None (take common (c # cs)) [])"
    and "rest = drop common (c # cs)" "s = p @ c # cs"
    and "child = (if rest = [] then with_leaf (Some (s, v)) child0
            else addEdge (hd rest, RNode (Some (s, v)) rest []) child0)"
  shows "prefix child \<noteq> [] \<and> hd (prefix child) = c \<and> node_ok (p @ prefix child) child \<and>
    (\<forall>k w. (k, w) \<in> set (entries child) \<longleftrightarrow> (if k = s then w = v else (k, w) \<in> set (entries (snd (edges n ! i)))))"
proof -
  let ?ch = "snd (edges n ! i)" and ?q = "p @ take common (c # cs)"
  note e = edge_at [OF assms(1,2)]
  obtain ps where pre: "pre = c # ps" using e(3,4) assms(3) by (cases pre) auto
  have l: "common \<le> length (c # cs)" "common \<le> length pre" "take common (c # cs) = take common pre"
    "common < length (c # cs) \<longrightarrow> (c # cs) ! common \<noteq> pre ! common"
    using longestPrefix_spec [of "c # cs" pre] assms(4,5) by auto
  have common: "0 < common" "common < length pre" using assms(4,5) pre l(2) by auto
  then have q: "take common (c # cs) \<noteq> []" "hd (take common (c # cs)) = c" by (cases common; simp)+
  let ?old = "with_prefix (drop common pre) ?ch"
  have old: "drop common pre \<noteq> []" "hd (drop common pre) = pre ! common" "?q @ drop common pre = p @ pre"
    using common l(3) by (simp_all add: hd_drop_conv_nth)
  then have old_ok: "node_ok (?q @ prefix ?old) ?old" using e(5) assms(3) by simp
  have add: "node_ok ?q (addEdge (pre ! common, ?old) (RNode None (take common (c # cs)) []))"
    "prefix (addEdge (pre ! common, ?old) (RNode None (take common (c # cs)) [])) = take common (c # cs)"
    "set (labels (edges (addEdge (pre ! common, ?old) (RNode None (take common (c # cs)) [])))) = {pre ! common}"
    "kv \<in> set (entries (addEdge (pre ! common, ?old) (RNode None (take common (c # cs)) []))) \<longleftrightarrow> kv \<in> set (entries ?ch)" for kv
    using addEdge_ok [OF node_ok_single(1), of "pre ! common" "take common (c # cs)" ?old ?q, OF _ _ _ old_ok] old(1,2)
    by (simp_all add: labels_def)
  note add = add [folded assms(6)]
  have keys: "k \<noteq> s" if k: "(k, w) \<in> set (entries ?ch)" for k w
  proof
    assume "k = s"
    then obtain x where "p @ c # cs = (p @ pre) @ x" using entries_prefix [OF e(5) k] assms(3,8) by auto
    then have "c # cs = pre @ x" by simp
    then have "common < length (c # cs)" "(c # cs) ! common = pre ! common" using common(2) by (simp_all add: nth_append)
    then show False using l(4) by simp
  qed
  show ?thesis
  proof (cases "rest = []")
    case True
    then have s: "s = ?q" using assms(7,8) l(1) by simp
    have child: "child = with_leaf (Some (?q, v)) child0" using True s assms(9) by simp
    show ?thesis
      using with_leaf_ok(1,3) [OF add(1)] add(2,4) q s keys unfolding child by auto
  next
    case False
    then have less: "common < length (c # cs)" using assms(7) by simp
    have r: "hd rest = (c # cs) ! common" "?q @ rest = s" using less assms(7,8) by (simp_all add: hd_drop_conv_nth)
    then have "hd rest \<notin> set (labels (edges child0))" using add(3) l(4) less by simp
    then have new: "node_ok ?q (addEdge (hd rest, RNode (Some (s, v)) rest []) child0)"
      "prefix (addEdge (hd rest, RNode (Some (s, v)) rest []) child0) = prefix child0"
      "kv \<in> set (entries (addEdge (hd rest, RNode (Some (s, v)) rest []) child0)) \<longleftrightarrow> kv = (s, v) \<or> kv \<in> set (entries child0)" for kv
      using addEdge_ok [OF add(1), of "hd rest" "RNode (Some (s, v)) rest []"] False r(2) node_ok_single(2) [of s v rest] by simp_all
    have child: "child = addEdge (hd rest, RNode (Some (s, v)) rest []) child0" using False assms(9) by simp
    have "(s, w) \<notin> set (entries ?ch)" for w using keys by blast
    then show ?thesis
      unfolding child using new add(2,4) q by auto
  qed
qed

lemma insert_at_ok:
  "node_ok p n \<Longrightarrow> s = p @ search \<Longrightarrow>
    \<exists>n'. insert_at s v search n = Done (n', get_at search n) \<and> inserted p s v n n'"
proof (induction s v search n arbitrary: p rule: insert_at.induct)
  case (1 s v search n)
  note ok = "1.prems"(1)
  show ?case
  proof (cases search)
    case Nil
    then have s: "s = p" using "1.prems"(2) by simp
    have "insert_at s v search n = Done (with_leaf (Some (s, v)) n, map_option snd (leaf n))"
      using Nil by (subst insert_at.simps) simp
    moreover have "get_at search n = map_option snd (leaf n)" using Nil by (subst get_at.simps) simp
    moreover have "inserted p s v n (with_leaf (Some (s, v)) n)"
      unfolding inserted_def s using with_leaf_ok(1,3) [OF ok] by simp
    ultimately show ?thesis by simp
  next
    case (Cons c cs)
    show ?thesis
    proof (cases "edge_index (edges n) c")
      case None
      have c: "c \<notin> set (labels (edges n))" using edge_index_None [OF node_ok_sorted [OF ok]] None by blast
      have g: "getEdge n (hd search) = None" using None Cons by (simp add: getEdge_def)
      let ?n = "addEdge (c, RNode (Some (s, v)) search []) n"
      have run: "insert_at s v search n = Done (?n, None)" using g Cons by (subst insert_at.simps) simp
      have get: "get_at search n = None" using g Cons by (subst get_at.simps) simp
      have s: "(s, w) \<notin> set (entries n)" for w using entries_no_child [OF ok None] Cons "1.prems"(2) by simp
      have "node_ok (p @ prefix (RNode (Some (s, v)) search [])) (RNode (Some (s, v)) search [])"
        using node_ok_single(2) [of s v search] "1.prems"(2) by simp
      from addEdge_ok [OF ok c _ _ this]
      have "inserted p s v n ?n" using Cons s unfolding inserted_def by (auto simp: Cons)
      then show ?thesis using run get by simp
    next
      case (Some i)
      let ?ch = "snd (edges n ! i)"
      have g: "getEdge n (hd search) = Some ?ch" using Some Cons by (simp add: getEdge_def)
      note e = edge_at [OF ok Some]
      have srch: "search \<noteq> []" "hd search = c" using Cons by simp_all
      define common where "common = longestPrefix search (prefix ?ch)"
      have l: "common \<le> length search" "common \<le> length (prefix ?ch)" "take common search = take common (prefix ?ch)"
        using longestPrefix_spec [of search "prefix ?ch"] by (simp_all add: common_def)
      show ?thesis
      proof (cases "common = length (prefix ?ch)")
        case True
        have pre: "search = prefix ?ch @ drop common search" using l True by (metis append_take_drop_id take_all order_refl)
        then have "s = (p @ prefix ?ch) @ drop common search" using "1.prems"(2) by (metis append.assoc)
        then obtain ch' where ch': "insert_at s v (drop common search) ?ch = Done (ch', get_at (drop common search) ?ch)"
          "inserted (p @ prefix ?ch) s v ?ch ch'"
          using "1.IH" [OF _ g common_def True e(5)] Cons by auto
        have ok': "prefix ch' \<noteq> []" "hd (prefix ch') = c" "node_ok (p @ prefix ch') ch'" "prefix ch' = prefix ?ch"
          using ch'(2) e(3-5) by (simp_all add: inserted_def)
        note put = put_edge_ok [OF ok Some ok'(1-3)]
        have run: "insert_at s v search n = Done (put_edge i ch' n, get_at (drop common search) ?ch)"
          using g srch True ch'(1) replaceEdge_put [OF Some, of ch']
          by (subst insert_at.simps) (simp add: Let_def common_def [symmetric])
        have "HasPrefix search (prefix ?ch)" using pre HasPrefix_iff by metis
        then have get: "get_at search n = get_at (drop common search) ?ch"
          using g Cons True by (subst get_at.simps) simp
        have "inserted p s v n (put_edge i ch' n)"
        proof -
          have "(k, w) \<in> set (entries (put_edge i ch' n)) \<longleftrightarrow> (if k = s then w = v else (k, w) \<in> set (entries n))" for k w
          proof (cases "k = s")
            case True
            have "(s, w) \<in> set (entries n) \<longleftrightarrow> (s, w) \<in> set (entries ?ch)"
              using entries_child [OF ok Some] Cons "1.prems"(2) by simp
            then show ?thesis using put(2) [of "(k, w)"] ch'(2) True by (auto simp: inserted_def)
          next
            case False
            have "(k, w) \<in> set (entries ?ch) \<Longrightarrow> (k, w) \<in> set (entries n)" using e(1) entry_below by blast
            then show ?thesis using put(2) [of "(k, w)"] ch'(2) False by (auto simp: inserted_def)
          qed
          then show ?thesis using put(1) by (simp add: inserted_def edges_put)
        qed
        then show ?thesis using run get by simp
      next
        case False
        define child0 where "child0 = addEdge (prefix ?ch ! common, with_prefix (drop common (prefix ?ch)) ?ch) (RNode None (take common search) [])"
        define rest where "rest = drop common search"
        define child where "child = (if rest = [] then with_leaf (Some (s, v)) child0
            else addEdge (hd rest, RNode (Some (s, v)) rest []) child0)"
        have c: "prefix child \<noteq> []" "hd (prefix child) = c" "node_ok (p @ prefix child) child"
          "\<And>k w. (k, w) \<in> set (entries child) \<longleftrightarrow> (if k = s then w = v else (k, w) \<in> set (entries ?ch))"
          using split_ok [OF ok Some refl, of cs common child0 rest s child v] False common_def child0_def rest_def child_def Cons "1.prems"(2)
          by auto
        note put = put_edge_ok [OF ok Some c(1-3)]
        have run: "insert_at s v search n = Done (put_edge i child n, None)"
          using g srch False replaceEdge_put [OF Some, of child]
          by (subst insert_at.simps) (cases "rest = []"; simp add: common_def [symmetric] child0_def [symmetric] rest_def [symmetric] child_def Let_def)
        have "\<not> HasPrefix search (prefix ?ch)"
        proof
          assume "HasPrefix search (prefix ?ch)"
          then obtain x where "search = prefix ?ch @ x" by (auto simp: HasPrefix_iff)
          then show False using longestPrefix_spec [of search "prefix ?ch"] False l(2) by (auto simp: common_def nth_append)
        qed
        then have get: "get_at search n = None" using g Cons by (subst get_at.simps) simp
        have none: "(s, w) \<notin> set (entries n)" for w
          using get_at_entries [OF ok, of search w] get "1.prems"(2) by simp
        have "(k, w) \<in> set (entries ?ch) \<Longrightarrow> (k, w) \<in> set (entries n)" for k w using e(1) entry_below by blast
        then have "inserted p s v n (put_edge i child n)"
          using put none unfolding inserted_def by (auto simp: edges_put c(4))
        then show ?thesis using run get by simp
      qed
    qed
  qed
qed

section \<open>Deletion\<close>

text \<open>
  A node that loses its leaf and has a single child is merged with it.  This is sound for every node
  but the root: the root's prefix is ignored by all operations.
\<close>

definition deleted :: "string \<Rightarrow> string \<Rightarrow> 'v radix_node \<Rightarrow> 'v radix_node \<Rightarrow> bool" where
  "deleted p s n n' \<longleftrightarrow> (\<exists>x. prefix n' = prefix n @ x \<and> node_ok (p @ x) n') \<and>
     (\<forall>k w. (k, w) \<in> set (entries n') \<longleftrightarrow> k \<noteq> s \<and> (k, w) \<in> set (entries n))"

lemma delete_leaf_ok:
  assumes "node_ok p n"
  shows "deleted p p n (delete_leaf n)" "length (edges n) \<noteq> 1 \<Longrightarrow> delete_leaf n = with_leaf None n"
proof -
  show 1: "delete_leaf n = with_leaf None n" if "length (edges n) \<noteq> 1"
    using that by (auto simp: delete_leaf_def split: list.splits)
  show "deleted p p n (delete_leaf n)"
  proof (cases "length (edges n) = 1")
    case False
    have "prefix n = prefix n @ []" "node_ok (p @ []) (with_leaf None n)" using with_leaf_ok(2) [OF assms] by simp_all
    then have "\<exists>x. prefix (with_leaf None n) = prefix n @ x \<and> node_ok (p @ x) (with_leaf None n)"
      unfolding with_simps by blast
    then show ?thesis using with_leaf_ok(4) [OF assms] by (simp add: deleted_def 1 [OF False])
  next
    case True
    then obtain c ch where es: "edges n = [(c, ch)]" by (auto simp: length_Suc_conv)
    have ch: "node_ok (p @ prefix ch) ch" using node_ok_edge [OF assms, of "(c, ch)"] es by simp
    let ?m = "RNode (leaf ch) (prefix n @ prefix ch) (edges ch)"
    have m: "delete_leaf n = ?m" "?m = with_prefix (prefix n @ prefix ch) ch"
      by (simp_all add: delete_leaf_def es with_prefix_def)
    have "k \<noteq> p" if k: "(k, w) \<in> set (entries ch)" for k w
      using edge_entry [OF assms, of "(c, ch)" k w] es k by auto
    then have "(k, w) \<in> set (entries ch) \<longleftrightarrow> k \<noteq> p \<and> (k, w) \<in> set (entries n)" for k w
      using entries_mem [of "(k, w)" n] es node_ok_leaf [OF assms, of k w] by auto
    then show ?thesis using ch unfolding deleted_def m by auto
  qed
qed

lemma delete_at_ok:
  "node_ok p n \<Longrightarrow> s = p @ search \<Longrightarrow>
    (case delete_at search n of
       None \<Rightarrow> get_at search n = None
     | Some (v, n') \<Rightarrow> get_at search n = Some v \<and> deleted p s n n' \<and>
         (search \<noteq> [] \<or> length (edges n) \<noteq> 1 \<longrightarrow> prefix n' = prefix n \<and> node_ok p n'))"
proof (induction search n arbitrary: p rule: delete_at.induct)
  case (1 search n)
  note ok = "1.prems"(1)
  show ?case
  proof (cases search)
    case Nil
    then have s: "s = p" using "1.prems"(2) by simp
    have run: "delete_at search n = (case leaf n of None \<Rightarrow> None | Some (_, v) \<Rightarrow> Some (v, delete_leaf n))"
      using Nil by (subst delete_at.simps) simp
    have get: "get_at search n = map_option snd (leaf n)" using Nil by (subst get_at.simps) simp
    have "prefix (delete_leaf n) = prefix n \<and> node_ok p (delete_leaf n)" if "length (edges n) \<noteq> 1"
      using delete_leaf_ok(2) [OF ok that] with_leaf_ok(2) [OF ok] by simp
    then show ?thesis using Nil run get delete_leaf_ok(1) [OF ok] s by (auto split: option.splits)
  next
    case (Cons c cs)
    have srch: "search \<noteq> []" "hd search = c" using Cons by simp_all
    show ?thesis
    proof (cases "edge_index (edges n) c")
      case None
      have "delete_at search n = None" using srch None by (subst delete_at.simps) simp
      moreover have "get_at search n = None" using srch None by (subst get_at.simps) (simp add: getEdge_def)
      ultimately show ?thesis by simp
    next
      case (Some i)
      let ?ch = "snd (edges n ! i)"
      note e = edge_at [OF ok Some]
      have i: "edge_index (edges n) (hd search) = Some i" using Some srch by simp
      show ?thesis
      proof (cases "HasPrefix search (prefix ?ch)")
        case False
        have "delete_at search n = None" using srch Some False by (subst delete_at.simps) simp
        moreover have "get_at search n = None" using srch Some False by (subst get_at.simps) (simp add: getEdge_def)
        ultimately show ?thesis by simp
      next
        case True
        let ?rest = "drop (length (prefix ?ch)) search"
        obtain t where t: "search = prefix ?ch @ t" using True by (auto simp: HasPrefix_iff)
        have s: "s = (p @ prefix ?ch) @ ?rest" using t "1.prems"(2) by simp
        have run: "delete_at search n = map_option (\<lambda>(v, ch'). (v, put_edge i ch' n)) (delete_at ?rest ?ch)"
          using srch Some True by (subst delete_at.simps) (simp add: Let_def put_edge_def)
        have get: "get_at search n = get_at ?rest ?ch"
          using srch Some True by (subst get_at.simps) (simp add: getEdge_def)
        note IH = "1.IH" [OF srch(1) i refl True e(5) s]
        show ?thesis
        proof (cases "delete_at ?rest ?ch")
          case None
          then show ?thesis using IH run get by simp
        next
          case del: (Some r)
          obtain v ch' where r: "r = (v, ch')" by fastforce
          have ch': "get_at ?rest ?ch = Some v" "deleted (p @ prefix ?ch) s ?ch ch'" using IH del r by simp_all
          then obtain x where x: "prefix ch' = prefix ?ch @ x" "node_ok (p @ prefix ?ch @ x) ch'"
            by (auto simp: deleted_def)
          have c: "prefix ch' \<noteq> []" "hd (prefix ch') = c" "node_ok (p @ prefix ch') ch'"
            using x e(3,4) by (simp_all add: hd_append)
          note put = put_edge_ok [OF ok Some c]
          have "(k, w) \<in> set (entries (put_edge i ch' n)) \<longleftrightarrow> k \<noteq> s \<and> (k, w) \<in> set (entries n)" for k w
          proof -
            have "(s, w) \<in> set (entries n) \<Longrightarrow> (s, w) \<in> set (entries ?ch)"
              using entries_child [OF ok Some] Cons "1.prems"(2) by simp
            moreover have "(k, w) \<in> set (entries ?ch) \<Longrightarrow> (k, w) \<in> set (entries n)" using e(1) entry_below by blast
            ultimately show ?thesis using put(2) [of "(k, w)"] ch'(2) by (auto simp: deleted_def)
          qed
          moreover have "prefix (put_edge i ch' n) = prefix n @ []" "node_ok (p @ []) (put_edge i ch' n)"
            using put(1) by (simp_all add: edges_put)
          ultimately have "deleted p s n (put_edge i ch' n)" unfolding deleted_def by blast
          then show ?thesis using run get del r ch'(1) put(1) by (simp add: edges_put)
        qed
      qed
    qed
  qed
qed

section \<open>Longest prefix\<close>

lemma longest_at_ok:
  assumes "node_ok p n"
  shows "(\<forall>k v. longest_at search found n = Some (k, v) \<longrightarrow> found = Some (k, v) \<or>
      (k, v) \<in> set (entries n) \<and> (\<exists>x y. k = p @ x \<and> search = x @ y)) \<and>
    (\<forall>x y v. search = x @ y \<and> (p @ x, v) \<in> set (entries n) \<longrightarrow>
      (\<exists>z w. longest_at search found n = Some (p @ z, w) \<and> length x \<le> length z))"
  using assms
proof (induction search found n arbitrary: p rule: longest_at.induct)
  case (1 search found n)
  note ok = "1.prems"
  define found' where "found' = (if leaf n \<noteq> None then leaf n else found)"
  have leaf: "leaf n = None \<or> (\<exists>v. leaf n = Some (p, v))"
    using node_ok_leaf [OF ok] by (cases "leaf n") auto
  have here: "found' = Some (k, v) \<Longrightarrow> found = Some (k, v) \<or> (k, v) \<in> set (entries n) \<and> (\<exists>x y. k = p @ x \<and> search = x @ y)" for k v
    using leaf entries_here [OF ok] by (auto simp: found'_def)
  have stop: ?case if "longest_at search found n = found'"
    "\<And>x y v. search = x @ y \<Longrightarrow> x \<noteq> [] \<Longrightarrow> (p @ x, v) \<notin> set (entries n)"
  proof -
    have "\<exists>z w. found' = Some (p @ z, w) \<and> length x \<le> length z" if "search = x @ y" "(p @ x, v) \<in> set (entries n)" for x y v
    proof -
      have "x = []" using \<open>\<And>x y v. search = x @ y \<Longrightarrow> x \<noteq> [] \<Longrightarrow> (p @ x, v) \<notin> set (entries n)\<close> that by blast
      then show ?thesis using that(2) entries_here [OF ok, of v] by (auto simp: found'_def)
    qed
    then show ?thesis using that(1) here by auto
  qed
  show ?case
  proof (cases search)
    case Nil
    then have "longest_at search found n = found'" by (subst longest_at.simps) (simp add: found'_def)
    then show ?thesis using stop Nil by simp
  next
    case (Cons c cs)
    have srch: "search \<noteq> []" "hd search = c" using Cons by simp_all
    have starts: "\<exists>x'. x = c # x'" if "search = x @ y" "x \<noteq> []" for x y using that Cons by (cases x) auto
    show ?thesis
    proof (cases "edge_index (edges n) c")
      case None
      then have "longest_at search found n = found'"
        using srch by (subst longest_at.simps) (simp add: found'_def getEdge_def Let_def)
      moreover have "(p @ x, v) \<notin> set (entries n)" if "search = x @ y" "x \<noteq> []" for x y v
        using starts [OF that] entries_no_child [OF ok None] by auto
      ultimately show ?thesis by (rule stop)
    next
      case (Some i)
      let ?ch = "snd (edges n ! i)"
      note e = edge_at [OF ok Some]
      have g: "getEdge n (hd search) = Some ?ch" using Some srch by (simp add: getEdge_def)
      have child: "(p @ x, v) \<in> set (entries ?ch)" if "search = x @ y" "x \<noteq> []" "(p @ x, v) \<in> set (entries n)" for x y v
        using starts [OF that(1,2)] entries_child [OF ok Some] that(3) by auto
      have pre: "\<exists>x'. x = prefix ?ch @ x'" if "(p @ x, v) \<in> set (entries ?ch)" for x v
        using entries_prefix [OF e(5) that] by auto
      show ?thesis
      proof (cases "HasPrefix search (prefix ?ch)")
        case False
        then have "longest_at search found n = found'"
          using srch g by (subst longest_at.simps) (simp add: found'_def Let_def)
        moreover have "(p @ x, v) \<notin> set (entries n)" if xy: "search = x @ y" "x \<noteq> []" for x y v
        proof
          assume "(p @ x, v) \<in> set (entries n)"
          then obtain x' where "x = prefix ?ch @ x'" using child [OF xy] pre by blast
          then show False using False xy(1) by (auto simp: HasPrefix_iff)
        qed
        ultimately show ?thesis by (rule stop)
      next
        case True
        then obtain t where t: "search = prefix ?ch @ t" by (auto simp: HasPrefix_iff)
        have run: "longest_at search found n = longest_at t found' ?ch"
          using srch g True t e(3) by (subst longest_at.simps) (simp add: found'_def Let_def)
        have IH: "(\<forall>k v. longest_at t found' ?ch = Some (k, v) \<longrightarrow> found' = Some (k, v) \<or>
            (k, v) \<in> set (entries ?ch) \<and> (\<exists>x y. k = (p @ prefix ?ch) @ x \<and> t = x @ y)) \<and>
          (\<forall>x y v. t = x @ y \<and> ((p @ prefix ?ch) @ x, v) \<in> set (entries ?ch) \<longrightarrow>
            (\<exists>z w. longest_at t found' ?ch = Some ((p @ prefix ?ch) @ z, w) \<and> length x \<le> length z))"
          using "1.IH" [OF found'_def srch(1) g True e(5)] t by simp
        have "found = Some (k, v) \<or> (k, v) \<in> set (entries n) \<and> (\<exists>x y. k = p @ x \<and> search = x @ y)"
          if res: "longest_at search found n = Some (k, v)" for k v
        proof (cases "found' = Some (k, v)")
          case False
          then obtain x y where "(k, v) \<in> set (entries ?ch)" "k = (p @ prefix ?ch) @ x" "t = x @ y"
            using IH res run by auto
          then have "(k, v) \<in> set (entries n)" "k = p @ (prefix ?ch @ x)" "search = (prefix ?ch @ x) @ y"
            using t entry_below [OF e(1)] by simp_all
          then show ?thesis by blast
        qed (use here in blast)
        moreover have "\<exists>z w. longest_at search found n = Some (p @ z, w) \<and> length x \<le> length z"
          if xy: "search = x @ y" "(p @ x, v) \<in> set (entries n)" for x y v
        proof (cases "x = []")
          case True
          then have "found' = Some (p, v)" using xy(2) entries_here [OF ok, of v] by (simp add: found'_def)
          show ?thesis
          proof (cases "longest_at t found' ?ch")
            case None
            have "longest_at t (Some l) m \<noteq> None" for l :: "string \<times> 'a" and t m
              by (induction t "Some l" m arbitrary: l rule: longest_at.induct)
                 (subst longest_at.simps, auto simp: Let_def split: option.splits)
            from this [of t "(p, v)" ?ch] show ?thesis using None \<open>found' = Some (p, v)\<close> by simp
          next
            case (Some kv)
            obtain k w where kv: "kv = (k, w)" by fastforce
            then have "k = p \<or> (\<exists>z. k = p @ z)" using IH Some \<open>found' = Some (p, v)\<close> by auto
            then obtain z where "k = p @ z" by auto
            then show ?thesis using Some kv run True by auto
          qed
        next
          case False
          then obtain x' where x': "x = prefix ?ch @ x'" using child [OF xy(1) False xy(2)] pre by blast
          then have "t = x' @ y" "((p @ prefix ?ch) @ x', v) \<in> set (entries ?ch)"
            using child [OF xy(1) False xy(2)] xy(1) t by simp_all
          then obtain z w where "longest_at t found' ?ch = Some ((p @ prefix ?ch) @ z, w)" "length x' \<le> length z"
            using IH by blast
          then show ?thesis using run x' by (intro exI [of _ "prefix ?ch @ z"] exI [of _ w]) simp
        qed
        ultimately show ?thesis by blast
      qed
    qed
  qed
qed

section \<open>Walks\<close>

text \<open>A walk visits the entries in their order until the callback ends it.\<close>

fun walk_list :: "('v, 's) WalkFn \<Rightarrow> (string \<times> 'v) list \<Rightarrow> 's \<Rightarrow> bool \<times> 's" where
  "walk_list fn [] s = (False, s)"
| "walk_list fn ((k, v) # kvs) s =
     (case fn k v s of (stop, s) \<Rightarrow> if stop then (True, s) else walk_list fn kvs s)"

lemma walk_list_append:
  "walk_list fn (xs @ ys) s =
    (case walk_list fn xs s of (stop, s) \<Rightarrow> if stop then (True, s) else walk_list fn ys s)"
  by (induction fn xs s rule: walk_list.induct) (auto split: prod.splits)

lemma recursiveWalk_list:
  "recursiveWalk fn n s = walk_list fn (entries n) s"
  "walk_edges fn es s = walk_list fn (concat (map (\<lambda>e. entries (snd e)) es)) s"
  by (induction fn n s and fn es s rule: recursiveWalk_walk_edges.induct)
     (auto simp: walk_list_append split: option.splits prod.splits)

lemma filter_entries_child:
  assumes "node_ok p n" "edge_index (edges n) c = Some i" "search = c # cs"
  shows "filter (\<lambda>kv. HasPrefix (fst kv) (p @ search)) (entries n) =
    filter (\<lambda>kv. HasPrefix (fst kv) (p @ search)) (entries (snd (edges n ! i)))"
proof -
  let ?P = "\<lambda>kv. HasPrefix (fst kv) (p @ search)" and ?f = "\<lambda>e. entries (snd e)"
  have i: "i < length (edges n)" using edge_index_bound [OF assms(2)] .
  have other: "filter ?P (?f e) = []" if e: "e \<in> set (edges n)" "fst e \<noteq> c" for e
  proof -
    have "\<not> ?P kv" if kv: "kv \<in> set (?f e)" for kv
    proof -
      obtain x where "fst kv = p @ fst e # x" using edge_entry [OF assms(1) e(1), of "fst kv" "snd kv"] kv by auto
      then show ?thesis using e(2) assms(3) by (auto simp: HasPrefix_iff)
    qed
    then show ?thesis by (simp add: filter_empty_conv)
  qed
  have lab: "fst (edges n ! j) = c \<Longrightarrow> j < length (edges n) \<Longrightarrow> j = i" for j
    using edge_index_sorted [OF node_ok_sorted [OF assms(1)], of c] assms(2) by (metis option.inject)
  have before: "filter ?P (?f e) = []" if e: "e \<in> set (take i (edges n))" for e
  proof -
    obtain j where "j < i" "e = edges n ! j" using e i by (auto simp: in_set_conv_nth)
    then show ?thesis using other [of e] lab [of j] i by auto
  qed
  have after: "filter ?P (?f e) = []" if e: "e \<in> set (drop (Suc i) (edges n))" for e
  proof -
    obtain j where "j < length (edges n) - Suc i" "e = edges n ! (Suc i + j)" using e i by (auto simp: in_set_conv_nth)
    then have "Suc i + j < length (edges n)" "e \<in> set (edges n)" by auto
    moreover from this have "fst e \<noteq> c" using lab [of "Suc i + j"] \<open>e = _\<close> by auto
    ultimately show ?thesis using other [of e] by blast
  qed
  have split: "edges n = take i (edges n) @ edges n ! i # drop (Suc i) (edges n)" using i by (rule id_take_nth_drop)
  have empty: "filter ?P (concat (map ?f es)) = []" if "\<forall>e \<in> set es. filter ?P (?f e) = []" for es
    using that by (induction es) auto
  have "filter ?P (concat (map ?f (edges n))) = filter ?P (?f (edges n ! i))"
    using empty [of "take i (edges n)"] empty [of "drop (Suc i) (edges n)"] before after by (subst split) simp
  moreover have "filter ?P (case leaf n of None \<Rightarrow> [] | Some kv \<Rightarrow> [kv]) = []"
    using node_ok_leaf [OF assms(1)] assms(3) by (auto simp: HasPrefix_iff split: option.splits)
  ultimately show ?thesis by (subst entries_eq) simp
qed

lemma walk_prefix_at_ok:
  "node_ok p n \<Longrightarrow> walk_prefix_at search fn n s =
    snd (walk_list fn (filter (\<lambda>kv. HasPrefix (fst kv) (p @ search)) (entries n)) s)"
proof (induction search fn n s arbitrary: p rule: walk_prefix_at.induct)
  case (1 search fn n s)
  note ok = "1.prems"
  show ?case
  proof (cases search)
    case Nil
    have "HasPrefix (fst kv) (p @ search)" if kv: "kv \<in> set (entries n)" for kv
      using entries_prefix [OF ok, of "fst kv" "snd kv"] kv Nil by (auto simp: HasPrefix_iff)
    then have "filter (\<lambda>kv. HasPrefix (fst kv) (p @ search)) (entries n) = entries n" by simp
    moreover have "walk_prefix_at search fn n s = snd (recursiveWalk fn n s)"
      using Nil by (subst walk_prefix_at.simps) simp
    ultimately show ?thesis using recursiveWalk_list(1) by metis
  next
    case (Cons c cs)
    have srch: "search \<noteq> []" "hd search = c" using Cons by simp_all
    show ?thesis
    proof (cases "edge_index (edges n) c")
      case None
      have "\<not> HasPrefix (fst kv) (p @ search)" if kv: "kv \<in> set (entries n)" for kv
        using entries_no_child [OF ok None, of _ "snd kv"] kv Cons
        by (metis HasPrefix_iff append.assoc append_Cons prod.collapse)
      then have "filter (\<lambda>kv. HasPrefix (fst kv) (p @ search)) (entries n) = []" by (simp add: filter_empty_conv)
      moreover have "walk_prefix_at search fn n s = s"
        using srch None by (subst walk_prefix_at.simps) (simp add: getEdge_def)
      ultimately show ?thesis by simp
    next
      case (Some i)
      let ?ch = "snd (edges n ! i)"
      note e = edge_at [OF ok Some]
      have g: "getEdge n (hd search) = Some ?ch" using Some srch by (simp add: getEdge_def)
      have keys: "\<exists>x. fst kv = p @ prefix ?ch @ x" if kv: "kv \<in> set (entries ?ch)" for kv
        using entries_prefix [OF e(5), of "fst kv" "snd kv"] kv by auto
      note flt = filter_entries_child [OF ok Some Cons]
      consider (inside) "HasPrefix search (prefix ?ch)" | (above) "\<not> HasPrefix search (prefix ?ch)" "HasPrefix (prefix ?ch) search"
        | (apart) "\<not> HasPrefix search (prefix ?ch)" "\<not> HasPrefix (prefix ?ch) search" by blast
      then show ?thesis
      proof cases
        case inside
        then obtain t where t: "search = prefix ?ch @ t" by (auto simp: HasPrefix_iff)
        have run: "walk_prefix_at search fn n s = walk_prefix_at t fn ?ch s"
          using srch g inside t e(3) by (subst walk_prefix_at.simps) simp
        show ?thesis using "1.IH" [OF srch(1) g inside e(5)] t run flt by simp
      next
        case above
        have run: "walk_prefix_at search fn n s = snd (recursiveWalk fn ?ch s)"
          using srch g above by (subst walk_prefix_at.simps) simp
        have "HasPrefix (fst kv) (p @ search)" if kv: "kv \<in> set (entries ?ch)" for kv
          using keys [OF kv] above(2) by (auto simp: HasPrefix_iff)
        then have "filter (\<lambda>kv. HasPrefix (fst kv) (p @ search)) (entries ?ch) = entries ?ch" by simp
        then show ?thesis using run flt recursiveWalk_list(1) by metis
      next
        case apart
        have run: "walk_prefix_at search fn n s = s" using srch g apart by (subst walk_prefix_at.simps) simp
        have "\<not> HasPrefix (fst kv) (p @ search)" if kv: "kv \<in> set (entries ?ch)" for kv
          using keys [OF kv] apart by (auto simp: HasPrefix_iff append_eq_append_conv2) metis
        then have "filter (\<lambda>kv. HasPrefix (fst kv) (p @ search)) (entries ?ch) = []" by (simp add: filter_empty_conv)
        then show ?thesis using run flt by simp
      qed
    qed
  qed
qed

section \<open>Trees as dictionaries\<close>

text \<open>What a client of a dictionary relies on.\<close>

locale dictionary =
  fixes inv :: "'t \<Rightarrow> bool" and empty :: 't
    and lookup :: "'k \<Rightarrow> 't \<Rightarrow> 'v option" and put :: "'k \<Rightarrow> 'v \<Rightarrow> 't \<Rightarrow> 't"
  assumes inv_empty: "inv empty" and lookup_empty: "lookup k empty = None"
    and inv_put: "inv t \<Longrightarrow> inv (put k v t)"
    and lookup_put: "inv t \<Longrightarrow> lookup k' (put k v t) = (if k' = k then Some v else lookup k' t)"
begin

lemma put_all:
  "inv t \<Longrightarrow> inv (fold (\<lambda>kv. put (fst kv) (snd kv)) kvs t) \<and>
    lookup k (fold (\<lambda>kv. put (fst kv) (snd kv)) kvs t) =
      (case map_of (rev kvs) k of Some v \<Rightarrow> Some v | None \<Rightarrow> lookup k t)"
  by (induction kvs arbitrary: t) (auto simp: inv_put lookup_put map_add_def split: option.splits)

lemma build:
  "inv (fold (\<lambda>kv. put (fst kv) (snd kv)) kvs empty)"
  "lookup k (fold (\<lambda>kv. put (fst kv) (snd kv)) kvs empty) = map_of (rev kvs) k"
  using put_all [OF inv_empty] lookup_empty by (auto split: option.splits)

end

definition tree_ok :: "'v Tree \<Rightarrow> bool" where
  "tree_ok t \<longleftrightarrow> node_ok [] (root t) \<and> tree_size t = int (length (entries (root t)))"

definition tree_map :: "'v Tree \<Rightarrow> (string \<rightharpoonup> 'v)" where
  "tree_map t = map_of (entries (root t))"

lemma tree_map_iff: "tree_ok t \<Longrightarrow> tree_map t k = Some v \<longleftrightarrow> (k, v) \<in> set (entries (root t))"
  unfolding tree_ok_def tree_map_def using entries_distinct by (metis map_of_eq_Some_iff)

lemma Tree_Get_map: "tree_ok t \<Longrightarrow> Tree_Get s t = tree_map t s"
proof -
  assume ok: "tree_ok t"
  have "Tree_Get s t = Some v \<longleftrightarrow> tree_map t s = Some v" for v
    using get_at_entries [of "[]" "root t" s v] ok tree_map_iff [OF ok] by (simp add: Tree_Get_def tree_ok_def)
  then show ?thesis by (metis not_None_eq)
qed

lemma length_entries:
  assumes "node_ok p n"
  shows "length (entries n) = card {k. \<exists>v. (k, v) \<in> set (entries n)}"
proof -
  have "{k. \<exists>v. (k, v) \<in> set (entries n)} = set (map fst (entries n))" by force
  then show ?thesis using distinct_card [OF entries_distinct [OF assms]] by simp
qed

lemma Tree_Insert_ok:
  assumes "tree_ok t"
  shows "\<exists>t'. Tree_Insert s v t = Done ((tree_map t s, tree_map t s \<noteq> None), t') \<and> tree_ok t' \<and>
    tree_map t' = (tree_map t)(s \<mapsto> v)"
proof -
  have ok: "node_ok [] (root t)" using assms by (simp add: tree_ok_def)
  obtain n' where n': "insert_at s v s (root t) = Done (n', tree_map t s)" "inserted [] s v (root t) n'"
    using insert_at_ok [OF ok, of s s v] Tree_Get_map [OF assms, of s] by (auto simp: Tree_Get_def)
  let ?K = "{k. \<exists>w. (k, w) \<in> set (entries (root t))}"
  have keys: "{k. \<exists>w. (k, w) \<in> set (entries n')} = insert s ?K" using n'(2) by (auto simp: inserted_def)
  have fin: "finite ?K" by (rule finite_subset [of _ "fst ` set (entries (root t))"]) force+
  have in_K: "s \<in> ?K \<longleftrightarrow> tree_map t s \<noteq> None" using tree_map_iff [OF assms] by auto
  let ?t = "\<lparr>root = n', tree_size = (if tree_map t s = None then tree_size t + 1 else tree_size t)\<rparr>"
  have "node_ok [] n'" using n'(2) by (simp add: inserted_def)
  then have "length (entries n') = card (insert s ?K)" using length_entries keys by metis
  then have ok': "tree_ok ?t"
    using assms in_K fin length_entries [OF ok] \<open>node_ok [] n'\<close> by (auto simp: tree_ok_def card_insert_if)
  have "tree_map ?t k = ((tree_map t)(s \<mapsto> v)) k" for k
  proof -
    have "tree_map ?t k = Some w \<longleftrightarrow> ((tree_map t)(s \<mapsto> v)) k = Some w" for w
      using tree_map_iff [OF ok'] tree_map_iff [OF assms] n'(2) by (auto simp: inserted_def)
    then show ?thesis by (metis not_None_eq)
  qed
  then show ?thesis using n'(1) ok' by (simp add: Tree_Insert_def fun_eq_iff)
qed

definition put_tree :: "string \<Rightarrow> 'v \<Rightarrow> 'v Tree \<Rightarrow> 'v Tree" where
  "put_tree s v t = (case Tree_Insert s v t of Done (_, t') \<Rightarrow> t' | Panic _ \<Rightarrow> t)"

definition empty_tree :: "'v Tree" where
  "empty_tree = \<lparr>root = new_root, tree_size = 0\<rparr>"

lemma empty_tree_ok: "tree_ok empty_tree" "tree_map empty_tree = Map.empty"
  using node_ok_single(1) [of "[]" "[]"] by (simp_all add: tree_ok_def empty_tree_def new_root_def tree_map_def)

interpretation radix: dictionary tree_ok empty_tree Tree_Get put_tree
proof
  show "tree_ok empty_tree" by (rule empty_tree_ok)
  show "Tree_Get k empty_tree = None" for k using Tree_Get_map empty_tree_ok by metis
  fix t :: "'v Tree" and k k' :: string and v :: 'v
  assume ok: "tree_ok t"
  obtain t' where t': "put_tree k v t = t'" "tree_ok t'" "tree_map t' = (tree_map t)(k \<mapsto> v)"
    using Tree_Insert_ok [OF ok, of k v] by (auto simp: put_tree_def)
  then show "tree_ok (put_tree k v t)" by simp
  show "Tree_Get k' (put_tree k v t) = (if k' = k then Some v else Tree_Get k' t)"
    using t' Tree_Get_map [OF t'(2)] Tree_Get_map [OF ok] by simp
qed

lemma insert_pairs_fold: "tree_ok t \<Longrightarrow> insert_pairs kvs t = Done (fold (\<lambda>kv. put_tree (fst kv) (snd kv)) kvs t)"
proof (induction kvs arbitrary: t)
  case (Cons kv kvs)
  obtain t' where "Tree_Insert (fst kv) (snd kv) t = Done ((tree_map t (fst kv), tree_map t (fst kv) \<noteq> None), t')" "tree_ok t'"
    using Tree_Insert_ok [OF Cons.prems] by blast
  then show ?case using Cons.IH [of t'] by (simp add: put_tree_def)
qed simp

lemma NewFromMap_ok: "\<exists>t. NewFromMap kvs = Done t \<and> tree_ok t \<and> tree_map t = map_of (rev kvs)"
proof -
  let ?t = "fold (\<lambda>kv. put_tree (fst kv) (snd kv)) kvs empty_tree"
  have "tree_map ?t k = map_of (rev kvs) k" for k
    using radix.build(2) [of k kvs] Tree_Get_map [OF radix.build(1), of k kvs] by simp
  then have "tree_map ?t = map_of (rev kvs)" by (rule ext)
  then show ?thesis
    using radix.build(1) [of kvs] insert_pairs_fold [OF empty_tree_ok(1), of kvs] by (simp add: NewFromMap_def empty_tree_def)
qed

lemma Tree_Delete_ok:
  assumes "tree_ok t" "s \<noteq> [] \<or> length (edges (root t)) \<noteq> 1"
  shows "\<exists>t'. Tree_Delete s t = ((tree_map t s, tree_map t s \<noteq> None), t') \<and> tree_ok t' \<and> tree_map t' = (tree_map t)(s := None)"
proof -
  have ok: "node_ok [] (root t)" using assms by (simp add: tree_ok_def)
  have get: "get_at s (root t) = tree_map t s" using Tree_Get_map [OF assms(1)] by (simp add: Tree_Get_def)
  show ?thesis
  proof (cases "delete_at s (root t)")
    case None
    then have "tree_map t s = None" using delete_at_ok [OF ok, of s s] get by simp
    then have "(tree_map t)(s := None) = tree_map t" by auto
    then show ?thesis using None assms(1) \<open>tree_map t s = None\<close> by (simp add: Tree_Delete_def)
  next
    case (Some r)
    obtain v n' where r: "r = (v, n')" by fastforce
    have n': "tree_map t s = Some v" "deleted [] s (root t) n'" "node_ok [] n'"
      using delete_at_ok [OF ok, of s s] get Some r assms(2) by auto
    let ?K = "{k. \<exists>w. (k, w) \<in> set (entries (root t))}"
    have keys: "{k. \<exists>w. (k, w) \<in> set (entries n')} = ?K - {s}" using n'(2) by (auto simp: deleted_def)
    have fin: "finite ?K" by (rule finite_subset [of _ "fst ` set (entries (root t))"]) force+
    have in_K: "s \<in> ?K" using tree_map_iff [OF assms(1)] n'(1) by auto
    let ?t = "\<lparr>root = n', tree_size = tree_size t - 1\<rparr>"
    have "length (entries n') = card (?K - {s})" using length_entries [OF n'(3)] keys by metis
    moreover have "card ?K > 0" using fin in_K card_gt_0_iff by blast
    ultimately have "int (length (entries n')) = int (card ?K) - 1" using fin in_K by (simp add: card_Diff_singleton of_nat_diff)
    then have ok': "tree_ok ?t" using assms(1) length_entries [OF ok] n'(3) by (simp add: tree_ok_def)
    have "tree_map ?t k = ((tree_map t)(s := None)) k" for k
    proof -
      have "tree_map ?t k = Some w \<longleftrightarrow> ((tree_map t)(s := None)) k = Some w" for w
        using tree_map_iff [OF ok'] tree_map_iff [OF assms(1)] n'(2) by (auto simp: deleted_def)
      then show ?thesis by (metis not_None_eq)
    qed
    then show ?thesis using Some r n'(1) ok' by (simp add: Tree_Delete_def fun_eq_iff)
  qed
qed

section \<open>Theorems\<close>

lemma map_of_updates: "foldl (\<lambda>m kv. m(fst kv \<mapsto> snd kv)) m0 kvs = m0 ++ map_of (rev kvs)"
  by (induction kvs arbitrary: m0) (auto simp: map_add_def fun_eq_iff split: option.splits)

lemma walk_list_all: "(\<And>k v s. fn k v s = (False, g s (k, v))) \<Longrightarrow> walk_list fn kvs s = (False, foldl g s kvs)"
  by (induction kvs arbitrary: s) auto

lemma ToMap_tree_map: "tree_ok t \<Longrightarrow> ToMap t = tree_map t"
proof -
  assume ok: "tree_ok t"
  let ?es = "entries (root t)"
  have d: "distinct (map fst ?es)" using ok entries_distinct by (auto simp: tree_ok_def)
  have "ToMap t = foldl (\<lambda>m kv. m(fst kv \<mapsto> snd kv)) Map.empty ?es"
    unfolding ToMap_def Tree_Walk_def recursiveWalk_list(1)
    by (subst walk_list_all [where g = "\<lambda>m kv. m(fst kv \<mapsto> snd kv)"]) simp_all
  also have "\<dots> = map_of (rev ?es)" unfolding map_of_updates by simp
  also have "\<dots> = tree_map t" using map_of_inject_set [of "rev ?es" ?es] d by (simp add: tree_map_def rev_map [symmetric])
  finally show ?thesis .
qed

text \<open>
  C23. The radix tree refines a finite map.  On a well-formed tree a lookup is a lookup in the map, an insertion
  never panics, reports the value that it replaces and updates the map at one key, and a deletion reports
  and removes the value of its key, unless the key is empty and the root has a single edge; the
  length counts the keys, and the tree converted to a map is the map.  A tree that is made of a Go map
  is well formed and has its entries.
\<close>

theorem radix_refines_map:
  assumes "tree_ok t"
  shows "Tree_Get s t = tree_map t s \<and> ToMap t = tree_map t \<and> Tree_Len t = int (card (dom (tree_map t))) \<and>
    (\<exists>t'. Tree_Insert s v t = Done ((tree_map t s, tree_map t s \<noteq> None), t') \<and> tree_ok t' \<and>
      tree_map t' = (tree_map t)(s \<mapsto> v)) \<and>
    (s \<noteq> [] \<or> length (edges (root t)) \<noteq> 1 \<longrightarrow>
      (\<exists>t'. Tree_Delete s t = ((tree_map t s, tree_map t s \<noteq> None), t') \<and> tree_ok t' \<and> tree_map t' = (tree_map t)(s := None))) \<and>
    (\<exists>t'. NewFromMap kvs = Done t' \<and> tree_ok t' \<and> tree_map t' = map_of (rev kvs))"
proof -
  have ok: "node_ok [] (root t)" using assms by (simp add: tree_ok_def)
  have "{k. \<exists>v. (k, v) \<in> set (entries (root t))} = dom (tree_map t)" using tree_map_iff [OF assms] by auto
  then have len: "Tree_Len t = int (card (dom (tree_map t)))"
    using length_entries [OF ok] assms by (simp add: Tree_Len_def tree_ok_def)
  show ?thesis
    using Tree_Get_map [OF assms] ToMap_tree_map [OF assms] len Tree_Insert_ok [OF assms] Tree_Delete_ok [OF assms] NewFromMap_ok
    by simp
qed

theorem radix_refines_map_witness:
  "\<exists>t'. Tree_Insert ''ab'' (1 :: int) empty_tree = Done ((None, False), t') \<and> tree_map t' = [''ab'' \<mapsto> 1]"
  using radix_refines_map [OF empty_tree_ok(1), of "''ab''" "1 :: int" "[]"] by (auto simp: empty_tree_ok(2))

lemma longest_found:
  assumes "tree_ok t"
  shows "Tree_LongestPrefix s t = Some (k, v) \<Longrightarrow> tree_map t k = Some v \<and> HasPrefix s k"
    "k \<in> dom (tree_map t) \<Longrightarrow> HasPrefix s k \<Longrightarrow> \<exists>z w. Tree_LongestPrefix s t = Some (z, w) \<and> length k \<le> length z"
    "Tree_LongestPrefix s t = None \<Longrightarrow> \<forall>k \<in> dom (tree_map t). \<not> HasPrefix s k"
    "Tree_LongestPrefix s t = Some (z, w) \<Longrightarrow> k \<in> dom (tree_map t) \<Longrightarrow> HasPrefix s k \<Longrightarrow> length k \<le> length z"
proof -
  have ok: "node_ok [] (root t)" using assms by (simp add: tree_ok_def)
  note l = longest_at_ok [OF ok, of s None, folded Tree_LongestPrefix_def]
  show "tree_map t k = Some v \<and> HasPrefix s k" if res: "Tree_LongestPrefix s t = Some (k, v)"
  proof -
    have "(k, v) \<in> set (entries (root t)) \<and> (\<exists>x y. k = [] @ x \<and> s = x @ y)" using l res by blast
    then show ?thesis using tree_map_iff [OF assms] by (auto simp: HasPrefix_iff)
  qed
  have longest: "\<exists>z w. Tree_LongestPrefix s t = Some (z, w) \<and> length k \<le> length z" if k: "k \<in> dom (tree_map t)" "HasPrefix s k" for k
  proof -
    obtain v y where v: "(k, v) \<in> set (entries (root t))" "s = k @ y"
      using k tree_map_iff [OF assms] by (auto simp: HasPrefix_iff)
    have "s = k @ y \<and> ([] @ k, v) \<in> set (entries (root t)) \<longrightarrow>
        (\<exists>z w. Tree_LongestPrefix s t = Some ([] @ z, w) \<and> length k \<le> length z)"
      using conjunct2 [OF l] by blast
    then show ?thesis using v by auto
  qed
  show "\<exists>z w. Tree_LongestPrefix s t = Some (z, w) \<and> length k \<le> length z" if "k \<in> dom (tree_map t)" "HasPrefix s k"
    using longest [OF that] .
  show "\<forall>k \<in> dom (tree_map t). \<not> HasPrefix s k" if "Tree_LongestPrefix s t = None" using longest that by fastforce
  show "length k \<le> length z" if "Tree_LongestPrefix s t = Some (z, w)" "k \<in> dom (tree_map t)" "HasPrefix s k"
    using longest [OF that(2,3)] that(1) by auto
qed

lemma walk_prefix_entries:
  assumes "tree_ok t"
  shows "Tree_WalkPrefix p fn t s = snd (walk_list fn (filter (\<lambda>kv. HasPrefix (fst kv) p) (entries (root t))) s)"
  using walk_prefix_at_ok [of "[]" "root t" p fn s] assms by (simp add: tree_ok_def Tree_WalkPrefix_def)

text \<open>
  C24. The longest prefix.  \<open>LongestPrefix\<close> finds an entry exactly if some key of the tree is a prefix of
  the given string, and then the entry of the longest such key.
\<close>

theorem radix_longest_prefix:
  assumes "tree_ok t"
  shows "(Tree_LongestPrefix s t = None \<longleftrightarrow> (\<forall>k \<in> dom (tree_map t). \<not> HasPrefix s k)) \<and>
    (\<forall>k v. Tree_LongestPrefix s t = Some (k, v) \<longrightarrow>
      tree_map t k = Some v \<and> HasPrefix s k \<and> (\<forall>k' \<in> dom (tree_map t). HasPrefix s k' \<longrightarrow> length k' \<le> length k))"
proof -
  have "Tree_LongestPrefix s t = None" if none: "\<forall>k \<in> dom (tree_map t). \<not> HasPrefix s k"
  proof (cases "Tree_LongestPrefix s t")
    case (Some kv)
    then have "tree_map t (fst kv) = Some (snd kv)" "HasPrefix s (fst kv)"
      using longest_found(1) [OF assms, of s "fst kv" "snd kv"] by simp_all
    then show ?thesis using none by blast
  qed
  then show ?thesis using longest_found [OF assms, of s] by blast
qed

theorem radix_longest_prefix_witness:
  "\<exists>t. NewFromMap [(''a'', 1 :: int), (''abc'', 2)] = Done t \<and> Tree_LongestPrefix ''abd'' t = Some (''a'', 1)"
proof -
  obtain t where t: "NewFromMap [(''a'', 1 :: int), (''abc'', 2)] = Done t" "tree_ok t"
    "tree_map t = map_of (rev [(''a'', 1), (''abc'', 2)])"
    using NewFromMap_ok [of "[(''a'', 1 :: int), (''abc'', 2)]"] by blast
  from radix_longest_prefix [OF t(2), of "''abd''"] have "Tree_LongestPrefix ''abd'' t = Some (''a'', 1)"
    using t(3) by (cases "Tree_LongestPrefix ''abd'' t") (auto simp: HasPrefix_def split: if_splits)
  then show ?thesis using t(1) by blast
qed

text \<open>
  Ordered iteration.  A walk visits every entry once, in the lexicographic order of the keys, and
  a walk over a prefix visits exactly the entries whose keys start with it, in the same order, both until
  the callback ends the walk.
\<close>

theorem radix_walks:
  assumes "tree_ok t"
  shows "\<exists>kvs. sorted_wrt (<) (map fst kvs) \<and> map_of kvs = tree_map t \<and>
    (\<forall>fn s. Tree_Walk fn t s = snd (walk_list fn kvs s)) \<and>
    (\<forall>p fn s. Tree_WalkPrefix p fn t s = snd (walk_list fn (filter (\<lambda>kv. HasPrefix (fst kv) p) kvs) s))"
proof -
  have ok: "node_ok [] (root t)" using assms by (simp add: tree_ok_def)
  then show ?thesis
    using entries_sorted [OF ok]
    by (intro exI [of _ "entries (root t)"])
       (simp add: tree_map_def Tree_Walk_def Tree_WalkPrefix_def recursiveWalk_list(1) walk_prefix_at_ok [OF ok])
qed

theorem radix_walks_witness:
  "\<exists>t. NewFromMap [(''b'', 1 :: int), (''a'', 2)] = Done t \<and>
    Tree_Walk (\<lambda>k v s. (False, s @ [k])) t [] = [''a'', ''b'']"
proof -
  obtain t where t: "NewFromMap [(''b'', 1 :: int), (''a'', 2)] = Done t" "tree_ok t"
    "tree_map t = map_of (rev [(''b'', 1), (''a'', 2)])"
    using NewFromMap_ok [of "[(''b'', 1 :: int), (''a'', 2)]"] by blast
  from radix_walks [OF t(2)] obtain kvs where kvs: "sorted_wrt (<) (map fst kvs)" "map_of kvs = tree_map t"
    "\<And>fn s. Tree_Walk fn t s = snd (walk_list fn kvs (s :: string list))"
    by blast
  have "set (map fst kvs) = {''a'', ''b''}" using kvs(2) t(3) dom_map_of_conv_image_fst [of kvs] by auto
  then have "map fst kvs = [''a'', ''b'']" 
    using kvs(1) sorted_distinct_set_unique [of "map fst kvs" "[''a'', ''b'']"] by (simp add: strict_sorted_iff)
  moreover have "walk_list (\<lambda>k v s. (False, s @ [k])) kvs s = (False, s @ map fst kvs)" for s
    by (induction kvs arbitrary: s) auto
  ultimately show ?thesis using t(1) kvs(3) by auto
qed

text \<open>
  C25. Deletions that lose keys.  In the tree of the empty key and one other key, deleting the empty key merges the root
  with its only child; afterwards the value of the other key is found under the empty key, and the
  other key is not found.  A node without a leaf and children that a deletion leaves behind hides the
  rest of the tree from \<open>Minimum\<close> if its key is the smallest, and from \<open>Maximum\<close> if it is the largest.
\<close>

lemma edge_index_simps [simp]:
  "edge_index [] c = None" "edge_index [(c, n)] d = (if c = d then Some 0 else None)"
  by (auto simp: edge_index_def sort_Search_def search_loop.simps)

lemma insert_two:
  assumes "k \<noteq> []"
  shows "NewFromMap [([], v), (k, w)] = Done \<lparr>root = RNode (Some ([], v)) [] [(hd k, RNode (Some (k, w)) k [])], tree_size = 2\<rparr>"
  using assms
  by (simp add: NewFromMap_def new_root_def Tree_Insert_def insert_at.simps [of _ _ "[]"] insert_at.simps [of k w k]
      with_leaf_def getEdge_def addEdge_def with_edges_def)

lemma insert_a_b:
  "NewFromMap [(''a'', v), (''b'', w)] = Done \<lparr>root = RNode None []
     [(CHR ''a'', RNode (Some (''a'', v)) ''a'' []), (CHR ''b'', RNode (Some (''b'', w)) ''b'' [])], tree_size = 2\<rparr>"
  by (simp add: NewFromMap_def new_root_def Tree_Insert_def insert_at.simps getEdge_def addEdge_def with_edges_def)

lemma edge_index_a_b:
  "edge_index [(CHR ''a'', x), (CHR ''b'', y)] CHR ''a'' = Some 0"
  "edge_index [(CHR ''a'', x), (CHR ''b'', y)] CHR ''b'' = Some 1"
proof -
  have "sorted_wrt (<) (labels [(CHR ''a'', x), (CHR ''b'', y)])" by (simp add: labels_def)
  from edge_index_sorted [OF this]
  show "edge_index [(CHR ''a'', x), (CHR ''b'', y)] CHR ''a'' = Some 0"
    "edge_index [(CHR ''a'', x), (CHR ''b'', y)] CHR ''b'' = Some 1"
    by simp_all
qed

theorem radix_deletion_loses:
  "(k \<noteq> [] \<longrightarrow> (\<exists>t. NewFromMap [([], v), (k, w)] = Done t \<and>
      Tree_Get [] (snd (Tree_Delete [] t)) = Some w \<and> Tree_Get k (snd (Tree_Delete [] t)) = None \<and>
      Tree_Len (snd (Tree_Delete [] t)) = 1)) \<and>
   (\<exists>t. NewFromMap [(''a'', v), (''b'', w)] = Done t \<and>
      Tree_Get ''b'' (snd (Tree_Delete ''a'' t)) = Some w \<and> Tree_Minimum (snd (Tree_Delete ''a'' t)) = None \<and>
      Tree_Get ''a'' (snd (Tree_Delete ''b'' t)) = Some v \<and> Tree_Maximum (snd (Tree_Delete ''b'' t)) = None)"
proof (intro conjI impI)
  assume k: "k \<noteq> []"
  let ?t = "\<lparr>root = RNode (Some ([], v)) [] [(hd k, RNode (Some (k, w)) k [])], tree_size = 2\<rparr>"
  have del: "Tree_Delete [] ?t = ((Some v, True), \<lparr>root = RNode (Some (k, w)) k [], tree_size = 1\<rparr>)"
    by (simp add: Tree_Delete_def delete_at.simps delete_leaf_def)
  have "Tree_Get [] (snd (Tree_Delete [] ?t)) = Some w" "Tree_Get k (snd (Tree_Delete [] ?t)) = None"
    "Tree_Len (snd (Tree_Delete [] ?t)) = 1"
    using k by (simp_all add: del Tree_Get_def get_at.simps getEdge_def Tree_Len_def)
  then show "\<exists>t. NewFromMap [([], v), (k, w)] = Done t \<and>
      Tree_Get [] (snd (Tree_Delete [] t)) = Some w \<and> Tree_Get k (snd (Tree_Delete [] t)) = None \<and>
      Tree_Len (snd (Tree_Delete [] t)) = 1"
    using insert_two [OF k, of v w] by blast
next
  let ?t = "\<lparr>root = RNode None []
     [(CHR ''a'', RNode (Some (''a'', v)) ''a'' []), (CHR ''b'', RNode (Some (''b'', w)) ''b'' [])], tree_size = 2\<rparr>"
  have a: "Tree_Delete ''a'' ?t = ((Some v, True), \<lparr>root = RNode None []
     [(CHR ''a'', RNode None ''a'' []), (CHR ''b'', RNode (Some (''b'', w)) ''b'' [])], tree_size = 1\<rparr>)"
    and b: "Tree_Delete ''b'' ?t = ((Some w, True), \<lparr>root = RNode None []
     [(CHR ''a'', RNode (Some (''a'', v)) ''a'' []), (CHR ''b'', RNode None ''b'' [])], tree_size = 1\<rparr>)"
    by (simp_all add: Tree_Delete_def delete_at.simps delete_leaf_def edge_index_a_b HasPrefix_def with_edges_def with_leaf_def)
  have "Tree_Get ''b'' (snd (Tree_Delete ''a'' ?t)) = Some w" "Tree_Minimum (snd (Tree_Delete ''a'' ?t)) = None"
    "Tree_Get ''a'' (snd (Tree_Delete ''b'' ?t)) = Some v" "Tree_Maximum (snd (Tree_Delete ''b'' ?t)) = None"
    by (simp_all add: a b Tree_Get_def get_at.simps getEdge_def edge_index_a_b HasPrefix_def Tree_Minimum_def
        Tree_Maximum_def min_at.simps max_at.simps)
  then show "\<exists>t. NewFromMap [(''a'', v), (''b'', w)] = Done t \<and>
      Tree_Get ''b'' (snd (Tree_Delete ''a'' t)) = Some w \<and> Tree_Minimum (snd (Tree_Delete ''a'' t)) = None \<and>
      Tree_Get ''a'' (snd (Tree_Delete ''b'' t)) = Some v \<and> Tree_Maximum (snd (Tree_Delete ''b'' t)) = None"
    using insert_a_b [of v w] by blast
qed

theorem radix_deletion_loses_witness:
  "\<exists>t. NewFromMap [([], 1 :: int), (''ab'', 2)] = Done t \<and>
      Tree_Get [] (snd (Tree_Delete [] t)) = Some 2 \<and> Tree_Get ''ab'' (snd (Tree_Delete [] t)) = None"
  using radix_deletion_loses [of "''ab''" "1 :: int" 2] by auto

end
