(* ===== verification/Lru.thy ===== *)
theory Lru
  imports Glimpse_Prelude
begin

text \<open>
  The cache of \<^verbatim>\<open>hashicorp/golang-lru\<close> (\<^verbatim>\<open>lru.go\<close>): a list of entries in the order of their last use
  and a map from keys to the elements of the list.  The elements of Go's \<^verbatim>\<open>container/list\<close> are
  pointers; here they are numbers, and the entry that an element points to is in a store.  Every
  operation runs under the cache's lock and is one step.
\<close>

section \<open>Operations\<close>

record ('k, 'v) lru_cache =
  lru_size :: int
  evictList :: "nat list"
  elements :: "nat \<rightharpoonup> 'k \<times> 'v"
  items :: "'k \<rightharpoonup> nat"
  fresh_element :: nat

definition lru_New :: "int \<Rightarrow> string + ('k, 'v) lru_cache" where
  "lru_New n =
     (if n \<le> 0 then Inl ''Must provide a positive size''
      else Inr \<lparr>lru_size = n, evictList = [], elements = Map.empty, items = Map.empty, fresh_element = 0\<rparr>)"

definition lru_Purge :: "('k, 'v) lru_cache \<Rightarrow> ('k, 'v) lru_cache" where
  "lru_Purge c = c\<lparr>evictList := [], items := Map.empty\<rparr>"

definition MoveToFront :: "nat \<Rightarrow> ('k, 'v) lru_cache \<Rightarrow> ('k, 'v) lru_cache" where
  "MoveToFront e c = c\<lparr>evictList := e # remove1 e (evictList c)\<rparr>"

definition removeElement :: "nat \<Rightarrow> ('k, 'v) lru_cache \<Rightarrow> ('k, 'v) lru_cache" where
  "removeElement e c =
     (let c = c\<lparr>evictList := remove1 e (evictList c)\<rparr> in
      case elements c e of
        None \<Rightarrow> c
      | Some kv \<Rightarrow> c\<lparr>items := (items c)(fst kv := None)\<rparr>)"

definition removeOldest :: "('k, 'v) lru_cache \<Rightarrow> ('k, 'v) lru_cache" where
  "removeOldest c = (if evictList c = [] then c else removeElement (last (evictList c)) c)"

definition lru_Add :: "'k \<Rightarrow> 'v \<Rightarrow> ('k, 'v) lru_cache \<Rightarrow> ('k, 'v) lru_cache" where
  "lru_Add key v c =
     (case items c key of
        Some e \<Rightarrow>
          let c = MoveToFront e c
          in c\<lparr>elements := (elements c)(e := map_option (\<lambda>kv. (fst kv, v)) (elements c e))\<rparr>
      | None \<Rightarrow>
          let e = fresh_element c;
              c = c\<lparr>elements := (elements c)(e \<mapsto> (key, v)), evictList := e # evictList c,
                    items := (items c)(key \<mapsto> e), fresh_element := e + 1\<rparr>
          in if lru_size c < int (length (evictList c)) then removeOldest c else c)"

definition lru_Get :: "'k \<Rightarrow> ('k, 'v) lru_cache \<Rightarrow> 'v option \<times> ('k, 'v) lru_cache" where
  "lru_Get key c =
     (case items c key of
        Some e \<Rightarrow> let c = MoveToFront e c in (map_option snd (elements c e), c)
      | None \<Rightarrow> (None, c))"

definition lru_Remove :: "'k \<Rightarrow> ('k, 'v) lru_cache \<Rightarrow> ('k, 'v) lru_cache" where
  "lru_Remove key c = (case items c key of Some e \<Rightarrow> removeElement e c | None \<Rightarrow> c)"

definition lru_Len :: "('k, 'v) lru_cache \<Rightarrow> nat" where
  "lru_Len c = length (evictList c)"

section \<open>The invariant and the abstraction\<close>

text \<open>
  Every element of the list has an entry, the map leads from the key of each of them to it and has no other keys, and
  there are not more elements than the cache may hold.
\<close>

definition lru_ok :: "('k, 'v) lru_cache \<Rightarrow> bool" where
  "lru_ok c \<longleftrightarrow> 0 < lru_size c \<and> int (length (evictList c)) \<le> lru_size c \<and> distinct (evictList c) \<and>
     (\<forall>e \<in> set (evictList c). e < fresh_element c \<and> (\<exists>kv. elements c e = Some kv \<and> items c (fst kv) = Some e)) \<and>
     (\<forall>k e. items c k = Some e \<longrightarrow> e \<in> set (evictList c) \<and> (\<exists>v. elements c e = Some (k, v)))"

text \<open>The entries, the one used last in front.\<close>

definition recency :: "('k, 'v) lru_cache \<Rightarrow> ('k \<times> 'v) list" where
  "recency c = map (\<lambda>e. the (elements c e)) (evictList c)"

definition without :: "'k \<Rightarrow> ('k \<times> 'v) list \<Rightarrow> ('k \<times> 'v) list" where
  "without k kvs = filter (\<lambda>kv. fst kv \<noteq> k) kvs"

lemma lru_ok_element:
  assumes "lru_ok c" "e \<in> set (evictList c)"
  shows "e < fresh_element c" "\<exists>kv. elements c e = Some kv \<and> items c (fst kv) = Some e"
  using assms by (auto simp: lru_ok_def)

lemma lru_ok_item: "lru_ok c \<Longrightarrow> items c k = Some e \<Longrightarrow> e \<in> set (evictList c) \<and> (\<exists>v. elements c e = Some (k, v))"
  by (auto simp: lru_ok_def)

lemma recency_keys:
  assumes "lru_ok c"
  shows "distinct (map fst (recency c))" "k \<in> set (map fst (recency c)) \<longleftrightarrow> items c k \<noteq> None"
proof -
  have inj: "e = e'" if e: "e \<in> set (evictList c)" "e' \<in> set (evictList c)" "fst (the (elements c e)) = fst (the (elements c e'))" for e e'
    using lru_ok_element(2) [OF assms e(1)] lru_ok_element(2) [OF assms e(2)] e(3) by fastforce
  have "map fst (recency c) = map (\<lambda>e. fst (the (elements c e))) (evictList c)" by (simp add: recency_def)
  moreover have "distinct (evictList c)" using assms by (simp add: lru_ok_def)
  ultimately show "distinct (map fst (recency c))" using inj by (simp add: distinct_map inj_on_def)
  show "k \<in> set (map fst (recency c)) \<longleftrightarrow> items c k \<noteq> None"
  proof
    assume "k \<in> set (map fst (recency c))"
    then obtain e where e: "e \<in> set (evictList c)" "k = fst (the (elements c e))" by (auto simp: recency_def)
    then show "items c k \<noteq> None" using lru_ok_element(2) [OF assms e(1)] by auto
  next
    assume "items c k \<noteq> None"
    then obtain e v where e: "e \<in> set (evictList c)" "elements c e = Some (k, v)" using lru_ok_item [OF assms] by blast
    then show "k \<in> set (map fst (recency c))" by (force simp: recency_def)
  qed
qed

lemma recency_get:
  assumes "lru_ok c" "items c k = Some e"
  shows "map_of (recency c) k = map_option snd (elements c e)"
proof -
  obtain v where e: "e \<in> set (evictList c)" "elements c e = Some (k, v)" using lru_ok_item [OF assms] by blast
  then have "(k, v) \<in> set (recency c)" by (force simp: recency_def)
  then show ?thesis using recency_keys(1) [OF assms(1)] e(2) by simp
qed

text \<open>Removing an element removes the entry with its key.\<close>

lemma recency_remove1:
  assumes "lru_ok c" "e \<in> set (evictList c)" "elements c e = Some (k, v)"
  shows "map (\<lambda>e. the (elements c e)) (remove1 e (evictList c)) = without k (recency c)"
proof -
  have d: "distinct (evictList c)" using assms(1) by (simp add: lru_ok_def)
  have "fst (the (elements c e')) \<noteq> k" if e': "e' \<in> set (evictList c)" "e' \<noteq> e" for e'
    using lru_ok_element(2) [OF assms(1) e'(1)] lru_ok_element(2) [OF assms(1,2)] assms(3) e'(2) by fastforce
  then have "filter (\<lambda>e'. fst (the (elements c e')) \<noteq> k) (evictList c) = filter (\<lambda>e'. e' \<noteq> e) (evictList c)"
    using assms(3) by (intro filter_cong) auto
  then show ?thesis
    by (simp add: distinct_remove1_removeAll [OF d] removeAll_filter_not_eq recency_def without_def filter_map comp_def)
       (metis (no_types, lifting))
qed

lemma without_id: "k \<notin> set (map fst kvs) \<Longrightarrow> without k kvs = kvs"
  by (induction kvs) (auto simp: without_def)

lemma MoveToFront_ok:
  assumes "lru_ok c" "items c k = Some e" "elements c e = Some (k, v)"
  shows "lru_ok (MoveToFront e c)" "recency (MoveToFront e c) = (k, v) # without k (recency c)"
proof -
  have e: "e \<in> set (evictList c)" using lru_ok_item [OF assms(1,2)] by blast
  have d: "distinct (evictList c)" using assms(1) by (simp add: lru_ok_def)
  have s: "set (e # remove1 e (evictList c)) = set (evictList c)" using e d by (auto simp: set_remove1_eq)
  have l: "length (e # remove1 e (evictList c)) = length (evictList c)"
    using e by (simp add: length_remove1) (metis Suc_pred length_pos_if_in_set)
  have "distinct (e # remove1 e (evictList c))" using d by (simp add: distinct_remove1)
  then show "lru_ok (MoveToFront e c)"
    using assms(1) s l unfolding lru_ok_def MoveToFront_def by auto
  show "recency (MoveToFront e c) = (k, v) # without k (recency c)"
    using recency_remove1 [OF assms(1) e assms(3)] assms(3) by (simp add: recency_def MoveToFront_def)
qed

lemma removeElement_ok:
  assumes "lru_ok c" "e \<in> set (evictList c)" "elements c e = Some (k, v)"
  shows "lru_ok (removeElement e c)" "recency (removeElement e c) = without k (recency c)"
    "length (evictList (removeElement e c)) = length (evictList c) - 1" "lru_size (removeElement e c) = lru_size c"
proof -
  have d: "distinct (evictList c)" using assms(1) by (simp add: lru_ok_def)
  have c: "removeElement e c = c\<lparr>evictList := remove1 e (evictList c), items := (items c)(k := None)\<rparr>"
    using assms(3) by (simp add: removeElement_def Let_def)
  have k: "items c k = Some e" using lru_ok_element(2) [OF assms(1,2)] assms(3) by auto
  show "length (evictList (removeElement e c)) = length (evictList c) - 1" using assms(2) by (simp add: c length_remove1)
  show "lru_size (removeElement e c) = lru_size c" by (simp add: c)
  show "recency (removeElement e c) = without k (recency c)"
    using recency_remove1 [OF assms] by (simp add: c recency_def)
  have s: "set (remove1 e (evictList c)) = set (evictList c) - {e}" using d by simp
  have other: "fst kv \<noteq> k" if "e' \<in> set (evictList c)" "e' \<noteq> e" "elements c e' = Some kv" for e' kv
    using lru_ok_element(2) [OF assms(1) that(1)] that k by auto
  have "length (remove1 e (evictList c)) \<le> length (evictList c)" by (simp add: length_remove1)
  moreover have "int (length (evictList c)) \<le> lru_size c" using assms(1) by (simp add: lru_ok_def)
  ultimately have "int (length (remove1 e (evictList c))) \<le> lru_size c" by linarith
  moreover have "0 < lru_size c" "distinct (remove1 e (evictList c))" using assms(1) by (simp_all add: lru_ok_def distinct_remove1)
  moreover have "e' < fresh_element c \<and> (\<exists>kv. elements c e' = Some kv \<and> ((items c)(k := None)) (fst kv) = Some e')"
    if "e' \<in> set (evictList c) - {e}" for e'
    using that lru_ok_element [OF assms(1), of e'] other by fastforce
  moreover have "e' \<in> set (evictList c) - {e} \<and> (\<exists>v. elements c e' = Some (j, v))" if "((items c)(k := None)) j = Some e'" for j e'
    using that lru_ok_item [OF assms(1), of j e'] assms(3) by (auto split: if_splits)
  ultimately show "lru_ok (removeElement e c)" using s unfolding lru_ok_def c by simp
qed

lemma removeOldest_ok:
  assumes "lru_ok (c\<lparr>lru_size := n\<rparr>)" "evictList c \<noteq> []" "0 < lru_size c" "int (length (evictList c)) \<le> lru_size c + 1"
  shows "lru_ok (removeOldest c)" "recency (removeOldest c) = butlast (recency c)"
proof -
  let ?c = "c\<lparr>lru_size := n\<rparr>" and ?e = "last (evictList c)"
  note ne = assms(2)
  then have e: "?e \<in> set (evictList ?c)" by simp
  then obtain k v where kv: "elements ?c ?e = Some (k, v)" using lru_ok_element(2) [OF assms(1) e] by fastforce
  note r = removeElement_ok [OF assms(1) e kv]
  have eq: "removeElement ?e ?c = (removeElement ?e c)\<lparr>lru_size := n\<rparr>"
    by (simp add: removeElement_def Let_def split: option.splits)
  have size: "lru_size (removeElement ?e c) = lru_size c" using kv by (simp add: removeElement_def Let_def)
  have run: "removeOldest c = removeElement ?e c" using ne by (simp add: removeOldest_def)
  have "length (evictList (removeElement ?e c)) + 1 = length (evictList c)" using r(3) eq ne by (cases "evictList c") simp_all
  then have "int (length (evictList (removeElement ?e c))) \<le> lru_size c" using assms(4) by linarith
  then show "lru_ok (removeOldest c)"
    using r(1) eq size assms(3) run by (simp add: lru_ok_def)
  have rec: "recency (removeOldest c) = without k (recency c)" using r(2) eq run by (simp add: recency_def)
  have last: "recency c = butlast (recency c) @ [(k, v)]"
  proof -
    have "recency c \<noteq> []" "last (recency c) = (k, v)" using ne kv by (simp_all add: recency_def last_map)
    then show ?thesis by (metis append_butlast_last_id)
  qed
  have "distinct (map fst (recency c))" using recency_keys(1) [OF assms(1)] by (simp add: recency_def)
  then have "distinct (map fst (butlast (recency c)) @ [k])" by (subst (asm) last) simp
  then have "k \<notin> set (map fst (butlast (recency c)))" by simp
  then have "without k (butlast (recency c) @ [(k, v)]) = butlast (recency c)"
    using without_id [of k "butlast (recency c)"] by (simp add: without_def)
  then show "recency (removeOldest c) = butlast (recency c)" using rec last by metis
qed

lemma lru_Add_ok:
  assumes "lru_ok c"
  shows "lru_ok (lru_Add k v c)" "lru_size (lru_Add k v c) = lru_size c"
    "recency (lru_Add k v c) = take (nat (lru_size c)) ((k, v) # without k (recency c))"
proof -
  have pos: "0 < lru_size c" and len: "int (length (recency c)) \<le> lru_size c"
    using assms by (auto simp: lru_ok_def recency_def)
  have "lru_ok (lru_Add k v c) \<and> lru_size (lru_Add k v c) = lru_size c \<and>
    recency (lru_Add k v c) = take (nat (lru_size c)) ((k, v) # without k (recency c))"
  proof (cases "items c k")
    case (Some e)
    obtain w where e: "e \<in> set (evictList c)" "elements c e = Some (k, w)" using lru_ok_item [OF assms Some] by blast
    let ?m = "MoveToFront e c"
    note m = MoveToFront_ok [OF assms Some e(2)]
    have run: "lru_Add k v c = ?m\<lparr>elements := (elements c)(e \<mapsto> (k, v))\<rparr>"
      using Some e(2) by (simp add: lru_Add_def MoveToFront_def Let_def)
    have d: "distinct (evictList c)" using assms by (simp add: lru_ok_def)
    have "j = k" if "items c j = Some e" for j using lru_ok_item [OF assms that] e(2) by auto
    then have "lru_ok (lru_Add k v c)"
      using m(1) e(2) by (auto simp: run lru_ok_def MoveToFront_def)
    moreover have "recency (lru_Add k v c) = (k, v) # without k (recency c)"
    proof -
      have "map (\<lambda>e'. the (((elements c)(e \<mapsto> (k, v))) e')) (remove1 e (evictList c)) =
          map (\<lambda>e. the (elements c e)) (remove1 e (evictList c))"
        using d by (intro map_cong) auto
      then show ?thesis using recency_remove1 [OF assms e] by (simp add: run recency_def MoveToFront_def)
    qed
    moreover have "length (without k (recency c)) < length (recency c)"
      using e unfolding without_def
      by (intro length_filter_less [of "(k, w)"]) (force simp: recency_def)+
    ultimately show ?thesis using len by (simp add: run MoveToFront_def)
  next
    case None
    let ?e = "fresh_element c"
    define c' where "c' = c\<lparr>elements := (elements c)(?e \<mapsto> (k, v)), evictList := ?e # evictList c,
        items := (items c)(k \<mapsto> ?e), fresh_element := ?e + 1\<rparr>"
    have fresh: "?e \<notin> set (evictList c)" using lru_ok_element(1) [OF assms] by blast
    have rec: "recency c' = (k, v) # recency c"
      using fresh by (auto simp: c'_def recency_def)
    have old: "without k (recency c) = recency c" using None recency_keys(2) [OF assms, of k] by (intro without_id) blast
    have size: "lru_size c' = lru_size c" "length (evictList c') = Suc (length (evictList c))" by (simp_all add: c'_def)
    have keys: "fst kv \<noteq> k" if "e \<in> set (evictList c)" "elements c e = Some kv" for e kv
      using lru_ok_element(2) [OF assms that(1)] that(2) None by auto
    have ok: "lru_ok (c'\<lparr>lru_size := n\<rparr>)" if n: "int (length (evictList c')) \<le> n" "0 < n" for n
    proof -
      have "e < ?e + 1 \<and> (\<exists>kv. elements c' e = Some kv \<and> items c' (fst kv) = Some e)" if e: "e \<in> set (evictList c')" for e
      proof (cases "e = ?e")
        case False
        then have "e \<in> set (evictList c)" using e by (simp add: c'_def)
        then show ?thesis using lru_ok_element [OF assms] keys False by (fastforce simp: c'_def)
      qed (simp add: c'_def)
      moreover have "e \<in> set (evictList c') \<and> (\<exists>v. elements c' e = Some (j, v))" if e: "items c' j = Some e" for j e
        using e lru_ok_item [OF assms, of j e] fresh by (auto simp: c'_def split: if_splits)
      moreover have "distinct (evictList c')" using fresh assms by (simp add: c'_def lru_ok_def)
      moreover have "fresh_element c' = ?e + 1" by (simp add: c'_def)
      ultimately show ?thesis using n unfolding lru_ok_def by simp
    qed
    have run: "lru_Add k v c = (if lru_size c' < int (length (evictList c')) then removeOldest c' else c')"
      using None by (simp add: lru_Add_def c'_def Let_def)
    show ?thesis
    proof (cases "lru_size c' < int (length (evictList c'))")
      case True
      have l: "int (length (evictList c)) = lru_size c" using True assms size by (simp add: lru_ok_def)
      have "lru_ok (c'\<lparr>lru_size := lru_size c + 1\<rparr>)" using ok [of "lru_size c + 1"] l size pos by simp
      moreover have "evictList c' \<noteq> []" by (simp add: c'_def)
      ultimately have "lru_ok (removeOldest c')" "recency (removeOldest c') = butlast (recency c')"
        using removeOldest_ok [where c = c' and n = "lru_size c + 1"] size pos l True by auto
      moreover have "butlast ((k, v) # recency c) = take (nat (lru_size c)) ((k, v) # recency c)"
      proof -
        have "length (recency c) = nat (lru_size c)" using l by (simp add: recency_def flip: l)
        then show ?thesis by (simp add: butlast_conv_take)
      qed
      moreover have "lru_size (removeOldest c') = lru_size c"
        using size(1) by (simp add: removeOldest_def removeElement_def Let_def split: option.splits)
      ultimately show ?thesis using run True rec old by simp
    next
      case False
      have "lru_ok (c'\<lparr>lru_size := lru_size c'\<rparr>)" using ok [of "lru_size c'"] False size pos by simp
      then have "lru_ok c'" by (simp add: lru_ok_def)
      moreover have "take (nat (lru_size c)) ((k, v) # recency c) = (k, v) # recency c"
        using False size by (intro take_all) (simp add: recency_def)
      ultimately show ?thesis using run False rec old size by simp
    qed
  qed
  then show "lru_ok (lru_Add k v c)" "lru_size (lru_Add k v c) = lru_size c"
    "recency (lru_Add k v c) = take (nat (lru_size c)) ((k, v) # without k (recency c))"
    by blast+
qed

lemma lru_Get_ok:
  assumes "lru_ok c"
  shows "fst (lru_Get k c) = map_of (recency c) k" "lru_ok (snd (lru_Get k c))"
    "recency (snd (lru_Get k c)) =
      (case map_of (recency c) k of None \<Rightarrow> recency c | Some v \<Rightarrow> (k, v) # without k (recency c))"
proof -
  have "fst (lru_Get k c) = map_of (recency c) k \<and> lru_ok (snd (lru_Get k c)) \<and>
    recency (snd (lru_Get k c)) = (case map_of (recency c) k of None \<Rightarrow> recency c | Some v \<Rightarrow> (k, v) # without k (recency c))"
  proof (cases "items c k")
    case None
    then have "map_of (recency c) k = None" using recency_keys(2) [OF assms, of k] by (simp add: map_of_eq_None_iff)
    then show ?thesis using None assms by (simp add: lru_Get_def)
  next
    case (Some e)
    obtain v where e: "elements c e = Some (k, v)" using lru_ok_item [OF assms Some] by blast
    show ?thesis
      using MoveToFront_ok [OF assms Some e] recency_get [OF assms Some] e Some
      by (simp add: lru_Get_def Let_def MoveToFront_def)
  qed
  then show "fst (lru_Get k c) = map_of (recency c) k" "lru_ok (snd (lru_Get k c))"
    "recency (snd (lru_Get k c)) =
      (case map_of (recency c) k of None \<Rightarrow> recency c | Some v \<Rightarrow> (k, v) # without k (recency c))"
    by blast+
qed

lemma lru_Remove_ok:
  assumes "lru_ok c"
  shows "lru_ok (lru_Remove k c)" "recency (lru_Remove k c) = without k (recency c)"
proof -
  have "lru_ok (lru_Remove k c) \<and> recency (lru_Remove k c) = without k (recency c)"
  proof (cases "items c k")
    case None
    then have "k \<notin> set (map fst (recency c))" using recency_keys(2) [OF assms, of k] by blast
    then show ?thesis using None assms without_id by (metis lru_Remove_def option.simps(4))
  next
    case (Some e)
    then show ?thesis
      using lru_ok_item [OF assms Some] removeElement_ok [OF assms, of e k] by (auto simp: lru_Remove_def)
  qed
  then show "lru_ok (lru_Remove k c)" "recency (lru_Remove k c) = without k (recency c)" by blast+
qed

lemma lru_New_ok: "lru_New n = Inr c \<Longrightarrow> lru_ok c \<and> recency c = [] \<and> lru_size c = n"
  by (auto simp: lru_New_def lru_ok_def recency_def split: if_splits)

lemma lru_Purge_ok: "lru_ok c \<Longrightarrow> lru_ok (lru_Purge c) \<and> recency (lru_Purge c) = []"
  by (auto simp: lru_Purge_def lru_ok_def recency_def)

section \<open>Theorem\<close>

text \<open>
  C26. The cache refines a list of entries ordered by their last use.  From a positive size on, every
  operation keeps the cache consistent and acts on that list: adding puts the entry in front, replaces
  an entry with the same key and drops the last entry if there are too many; a lookup finds the entry
  of the key and moves it to the front; removing, removing the oldest and purging remove
  the entry, the last entry and all entries.
\<close>

theorem lru_refines_recency:
  "(n \<le> 0 \<longleftrightarrow> lru_New n = (Inl ''Must provide a positive size'' :: string + ('k, 'v) lru_cache)) \<and>
   (\<forall>c :: ('k, 'v) lru_cache. lru_New n = Inr c \<longrightarrow> lru_ok c \<and> recency c = []) \<and>
   (\<forall>(c :: ('k, 'v) lru_cache) k v. lru_ok c \<longrightarrow>
     int (lru_Len c) \<le> lru_size c \<and> lru_Len c = length (recency c) \<and> distinct (map fst (recency c)) \<and>
     lru_ok (lru_Add k v c) \<and> recency (lru_Add k v c) = take (nat (lru_size c)) ((k, v) # without k (recency c)) \<and>
     lru_ok (snd (lru_Get k c)) \<and> fst (lru_Get k c) = map_of (recency c) k \<and>
     recency (snd (lru_Get k c)) =
       (case map_of (recency c) k of None \<Rightarrow> recency c | Some v \<Rightarrow> (k, v) # without k (recency c)) \<and>
     lru_ok (lru_Remove k c) \<and> recency (lru_Remove k c) = without k (recency c) \<and>
     lru_ok (removeOldest c) \<and> recency (removeOldest c) = butlast (recency c) \<and>
     lru_ok (lru_Purge c) \<and> recency (lru_Purge c) = [])"
proof (intro conjI allI impI)
  show "n \<le> 0 \<longleftrightarrow> lru_New n = (Inl ''Must provide a positive size'' :: string + ('k, 'v) lru_cache)"
    by (simp add: lru_New_def)
  fix c :: "('k, 'v) lru_cache" and k :: 'k and v :: 'v
  show "lru_ok c" "recency c = []" if "lru_New n = Inr c" using lru_New_ok [OF that] by simp_all
  assume ok: "lru_ok c"
  show "int (lru_Len c) \<le> lru_size c" "lru_Len c = length (recency c)"
    using ok by (simp_all add: lru_Len_def recency_def lru_ok_def)
  show "lru_ok (removeOldest c)" "recency (removeOldest c) = butlast (recency c)"
  proof -
    have "lru_ok (removeOldest c) \<and> recency (removeOldest c) = butlast (recency c)"
    proof (cases "evictList c = []")
      case True
      then show ?thesis using ok by (simp add: removeOldest_def recency_def)
    next
      case False
      then show ?thesis using removeOldest_ok [where c = c and n = "lru_size c"] ok by (simp add: lru_ok_def)
    qed
    then show "lru_ok (removeOldest c)" "recency (removeOldest c) = butlast (recency c)" by blast+
  qed
  show "distinct (map fst (recency c))" using recency_keys(1) [OF ok] .
  show "lru_ok (lru_Add k v c)" "recency (lru_Add k v c) = take (nat (lru_size c)) ((k, v) # without k (recency c))"
    using lru_Add_ok(1,3) [OF ok] .
  show "lru_ok (snd (lru_Get k c))" "fst (lru_Get k c) = map_of (recency c) k"
    "recency (snd (lru_Get k c)) =
       (case map_of (recency c) k of None \<Rightarrow> recency c | Some v \<Rightarrow> (k, v) # without k (recency c))"
    using lru_Get_ok [OF ok] by blast+
  show "lru_ok (lru_Remove k c)" "recency (lru_Remove k c) = without k (recency c)" using lru_Remove_ok [OF ok] .
  show "lru_ok (lru_Purge c)" "recency (lru_Purge c) = []" using lru_Purge_ok [OF ok] by blast+
qed

theorem lru_refines_recency_witness:
  "\<exists>c :: (nat, bool) lru_cache. lru_New 2 = Inr c \<and> recency (lru_Add 3 True (lru_Add 2 False (lru_Add 1 True c))) = [(3, True), (2, False)]"
proof -
  obtain c :: "(nat, bool) lru_cache" where c: "lru_New 2 = Inr c" by (simp add: lru_New_def)
  have n: "lru_ok c" "recency c = []" "lru_size c = 2" using lru_New_ok [OF c] by simp_all
  have a1: "recency (lru_Add 1 True c) = [(1, True)]"
    using lru_refines_recency [of 2, where 'k = nat and 'v = bool] n by (simp add: without_def)
  have o1: "lru_ok (lru_Add 1 True c)" "lru_size (lru_Add 1 True c) = 2" using lru_Add_ok [OF n(1)] n(3) by auto
  have o2: "lru_ok (lru_Add 2 False (lru_Add 1 True c))" "lru_size (lru_Add 2 False (lru_Add 1 True c)) = 2"
    using lru_Add_ok [OF o1(1)] o1(2) by auto
  have "recency (lru_Add 2 False (lru_Add 1 True c)) = [(2, False), (1, True)]"
    using lru_Add_ok(3) [OF o1(1)] o1(2) a1 by (simp add: without_def)
  then have "recency (lru_Add 3 True (lru_Add 2 False (lru_Add 1 True c))) = [(3, True), (2, False)]"
    using lru_Add_ok(3) [OF o2(1)] o2(2) by (simp add: without_def)
  then show ?thesis using c by blast
qed

end
