(* ===== verification/Consul_Acl.thy ===== *)
theory Consul_Acl
  imports Radix_Properties Lru
begin

text \<open>
  The ACL library of Consul (\<^verbatim>\<open>consul/acl\<close>): the policies that rules are parsed to, the ACLs that are
  made of them over radix trees, and the cache of compiled ACLs with its three caches of
  \<^verbatim>\<open>golang-lru\<close>.  The HCL parser, MD5 in hexadecimal and the fault function that loads an ACL by its id
  are parameters.
\<close>

section \<open>Policies (\<^verbatim>\<open>policy.go\<close>)\<close>

definition policyDeny :: string where
  "policyDeny = ''deny''"

definition policyRead :: string where
  "policyRead = ''read''"

definition policyWrite :: string where
  "policyWrite = ''write''"

record KeyPolicy =
  kp_Prefix :: string
  kp_Policy :: string

record ServicePolicy =
  sp_Name :: string
  sp_Policy :: string

record Policy =
  pol_ID :: string
  pol_Keys :: "KeyPolicy list"
  pol_Services :: "ServicePolicy list"

datatype acl_error =
    FaultError string
  | HclError string
  | InvalidKeyPolicy KeyPolicy
  | InvalidServicePolicy ServicePolicy
  | BadCacheSize

record acl_env =
  hclDecode :: "string \<Rightarrow> string + (KeyPolicy list \<times> ServicePolicy list)"
  md5hex :: "string \<Rightarrow> string"

definition valid_policy :: "string \<Rightarrow> bool" where
  "valid_policy p \<longleftrightarrow> p \<in> {policyDeny, policyRead, policyWrite}"

definition Parse :: "acl_env \<Rightarrow> string \<Rightarrow> acl_error + Policy" where
  "Parse aenv rules =
     (if rules = [] then Inr \<lparr>pol_ID = [], pol_Keys = [], pol_Services = []\<rparr>
      else
        (case hclDecode aenv rules of
           Inl e \<Rightarrow> Inl (HclError e)
         | Inr (ks, ss) \<Rightarrow>
             (case find (\<lambda>kp. \<not> valid_policy (kp_Policy kp)) ks of
                Some kp \<Rightarrow> Inl (InvalidKeyPolicy kp)
              | None \<Rightarrow>
                  (case find (\<lambda>sp. \<not> valid_policy (sp_Policy sp)) ss of
                     Some sp \<Rightarrow> Inl (InvalidServicePolicy sp)
                   | None \<Rightarrow> Inr \<lparr>pol_ID = [], pol_Keys = ks, pol_Services = ss\<rparr>))))"

section \<open>ACLs (\<^verbatim>\<open>acl.go\<close>)\<close>

datatype acl =
    StaticACL (allowManage: bool) (defaultAllow: bool)
  | PolicyACL (acl_parent: acl) (keyRules: "string Tree") (serviceRules: "string \<rightharpoonup> string")

definition allowAll :: acl where
  "allowAll = StaticACL False True"

definition denyAll :: acl where
  "denyAll = StaticACL False False"

definition manageAll :: acl where
  "manageAll = StaticACL True True"

definition RootACL :: "string \<Rightarrow> acl option" where
  "RootACL i =
     (if i = ''allow'' then Some allowAll
      else if i = ''deny'' then Some denyAll
      else if i = ''manage'' then Some manageAll
      else None)"

primrec service_map :: "ServicePolicy list \<Rightarrow> (string \<rightharpoonup> string) \<Rightarrow> (string \<rightharpoonup> string)" where
  "service_map [] m = m"
| "service_map (sp # sps) m = service_map sps (m(sp_Name sp \<mapsto> sp_Policy sp))"

definition acl_New :: "acl \<Rightarrow> Policy \<Rightarrow> acl run" where
  "acl_New parent policy =
     run_bind Tree_New (\<lambda>t.
     run_bind (insert_pairs (map (\<lambda>kp. (kp_Prefix kp, kp_Policy kp)) (pol_Keys policy)) t) (\<lambda>t.
       Done (PolicyACL parent t (service_map (pol_Services policy) Map.empty))))"

primrec KeyRead :: "acl \<Rightarrow> string \<Rightarrow> bool" where
  "KeyRead (StaticACL m d) key = d"
| "KeyRead (PolicyACL p ks ss) key =
     (case Tree_LongestPrefix key ks of
        Some (_, rule) \<Rightarrow> rule = policyRead \<or> rule = policyWrite
      | None \<Rightarrow> KeyRead p key)"

primrec KeyWrite :: "acl \<Rightarrow> string \<Rightarrow> bool" where
  "KeyWrite (StaticACL m d) key = d"
| "KeyWrite (PolicyACL p ks ss) key =
     (case Tree_LongestPrefix key ks of
        Some (_, rule) \<Rightarrow> rule = policyWrite
      | None \<Rightarrow> KeyWrite p key)"

text \<open>The callback of the walk sets the flag \<^verbatim>\<open>deny\<close> and ends the walk.\<close>

definition deny_walk :: "(string, bool) WalkFn" where
  "deny_walk path rule deny = (if rule \<noteq> policyWrite then (True, True) else (False, deny))"

primrec KeyWritePrefix :: "acl \<Rightarrow> string \<Rightarrow> bool" where
  "KeyWritePrefix (StaticACL m d) key = d"
| "KeyWritePrefix (PolicyACL p ks ss) key =
     (let found = Tree_LongestPrefix key ks in
      if (case found of Some (_, rule) \<Rightarrow> rule \<noteq> policyWrite | None \<Rightarrow> False) then False
      else if Tree_WalkPrefix key deny_walk ks False then False
      else if found \<noteq> None then True
      else KeyWritePrefix p key)"

definition service_rule :: "(string \<rightharpoonup> string) \<Rightarrow> string \<Rightarrow> string option" where
  "service_rule ss name = (case ss name of Some r \<Rightarrow> Some r | None \<Rightarrow> ss [])"

primrec ServiceRead :: "acl \<Rightarrow> string \<Rightarrow> bool" where
  "ServiceRead (StaticACL m d) name = d"
| "ServiceRead (PolicyACL p ks ss) name =
     (case service_rule ss name of
        Some rule \<Rightarrow> rule = policyWrite \<or> rule = policyRead
      | None \<Rightarrow> ServiceRead p name)"

primrec ServiceWrite :: "acl \<Rightarrow> string \<Rightarrow> bool" where
  "ServiceWrite (StaticACL m d) name = d"
| "ServiceWrite (PolicyACL p ks ss) name =
     (case service_rule ss name of
        Some rule \<Rightarrow> rule = policyWrite
      | None \<Rightarrow> ServiceWrite p name)"

primrec ACLList :: "acl \<Rightarrow> bool" where
  "ACLList (StaticACL m d) = m"
| "ACLList (PolicyACL p ks ss) = ACLList p"

primrec ACLModify :: "acl \<Rightarrow> bool" where
  "ACLModify (StaticACL m d) = m"
| "ACLModify (PolicyACL p ks ss) = ACLModify p"

section \<open>The cache (\<^verbatim>\<open>cache.go\<close>)\<close>

record aclEntry =
  entry_ACL :: acl
  entry_Parent :: string
  entry_RuleID :: string

record acl_cache =
  aclCache :: "(string, aclEntry) lru_cache"
  policyCache :: "(string, acl) lru_cache"
  ruleCache :: "(string, Policy) lru_cache"

type_synonym FaultFunc = "string \<Rightarrow> string + (string \<times> string)"

definition NewCache :: "int \<Rightarrow> acl_error + acl_cache" where
  "NewCache n =
     (if n \<le> 0 then Inl BadCacheSize
      else
        (case (lru_New n, lru_New n, lru_New n) of
           (Inr rc, Inr pc, Inr ac) \<Rightarrow> Inr \<lparr>aclCache = ac, policyCache = pc, ruleCache = rc\<rparr>
         | _ \<Rightarrow> Inl BadCacheSize))"

definition getPolicy :: "acl_env \<Rightarrow> string \<Rightarrow> string \<Rightarrow> acl_cache \<Rightarrow> (acl_error + Policy) \<times> acl_cache" where
  "getPolicy aenv i rules c =
     (case lru_Get i (ruleCache c) of (raw, rc) \<Rightarrow>
        let c = c\<lparr>ruleCache := rc\<rparr> in
        (case raw of
           Some policy \<Rightarrow> (Inr policy, c)
         | None \<Rightarrow>
             (case Parse aenv rules of
                Inl e \<Rightarrow> (Inl e, c)
              | Inr policy \<Rightarrow>
                  let policy = policy\<lparr>pol_ID := i\<rparr>
                  in (Inr policy, c\<lparr>ruleCache := lru_Add i policy (ruleCache c)\<rparr>))))"

definition ruleID :: "acl_env \<Rightarrow> string \<Rightarrow> string" where
  "ruleID aenv rules = md5hex aenv rules"

definition policyID :: "string \<Rightarrow> string \<Rightarrow> string" where
  "policyID parent rule = parent @ '':'' @ rule"

definition GetPolicy :: "acl_env \<Rightarrow> string \<Rightarrow> acl_cache \<Rightarrow> (acl_error + Policy) \<times> acl_cache" where
  "GetPolicy aenv rules c = getPolicy aenv (ruleID aenv rules) rules c"

definition GetACLPolicy ::
  "acl_env \<Rightarrow> FaultFunc \<Rightarrow> string \<Rightarrow> acl_cache \<Rightarrow> (acl_error + string \<times> Policy) \<times> acl_cache" where
  "GetACLPolicy aenv faultfn i c =
     (case lru_Get i (aclCache c) of (raw, ac) \<Rightarrow>
        let c = c\<lparr>aclCache := ac\<rparr>;
            (cached, c) =
              (case raw of
                 None \<Rightarrow> (None, c)
               | Some e \<Rightarrow>
                   (case lru_Get (entry_RuleID e) (ruleCache c) of (p, rc) \<Rightarrow>
                      (map_option (\<lambda>p. (entry_Parent e, p)) p, c\<lparr>ruleCache := rc\<rparr>)))
        in (case cached of
              Some r \<Rightarrow> (Inr r, c)
            | None \<Rightarrow>
                (case faultfn i of
                   Inl e \<Rightarrow> (Inl (FaultError e), c)
                 | Inr (parent, rules) \<Rightarrow>
                     (case GetPolicy aenv rules c of
                        (Inl e, c) \<Rightarrow> (Inl e, c)
                      | (Inr policy, c) \<Rightarrow> (Inr (parent, policy), c)))))"

text \<open>
  \<^verbatim>\<open>GetACL\<close> calls itself for the parent, which may have the ACL as an ancestor: \<^const>\<open>None\<close> means that
  the call does not return.
\<close>

partial_function (option) GetACL ::
  "acl_env \<Rightarrow> FaultFunc \<Rightarrow> string \<Rightarrow> acl_cache \<Rightarrow> ((acl_error + acl) \<times> acl_cache) run option" where
  "GetACL aenv faultfn i c =
     (case lru_Get i (aclCache c) of (raw, ac) \<Rightarrow>
        let c = c\<lparr>aclCache := ac\<rparr> in
        (case raw of
           Some e \<Rightarrow> Some (Done (Inr (entry_ACL e), c))
         | None \<Rightarrow>
             (case faultfn i of
                Inl e \<Rightarrow> Some (Done (Inl (FaultError e), c))
              | Inr (parentID, rules) \<Rightarrow>
                  let rid = ruleID aenv rules;
                      pid = policyID parentID rid
                  in (case lru_Get pid (policyCache c) of (raw, pc) \<Rightarrow>
                        let c = c\<lparr>policyCache := pc\<rparr> in
                        (case raw of
                           Some compiled \<Rightarrow>
                             Some (Done (Inr compiled, c\<lparr>aclCache := lru_Add i
                               \<lparr>entry_ACL = compiled, entry_Parent = parentID, entry_RuleID = rid\<rparr> (aclCache c)\<rparr>))
                         | None \<Rightarrow>
                             (case getPolicy aenv rid rules c of
                                (Inl e, c) \<Rightarrow> Some (Done (Inl e, c))
                              | (Inr policy, c) \<Rightarrow>
                                  Option.bind
                                    (case RootACL parentID of
                                       Some a \<Rightarrow> Some (Done (Inr a, c))
                                     | None \<Rightarrow> GetACL aenv faultfn parentID c)
                                    (\<lambda>r. case r of
                                       Panic p \<Rightarrow> Some (Panic p)
                                     | Done (Inl e, c) \<Rightarrow> Some (Done (Inl e, c))
                                     | Done (Inr parent, c) \<Rightarrow>
                                         (case acl_New parent policy of
                                            Panic p \<Rightarrow> Some (Panic p)
                                          | Done a \<Rightarrow>
                                              let c = c\<lparr>policyCache := lru_Add pid a (policyCache c)\<rparr>
                                              in Some (Done (Inr a, c\<lparr>aclCache := lru_Add i
                                                   \<lparr>entry_ACL = a, entry_Parent = parentID, entry_RuleID = rid\<rparr> (aclCache c)\<rparr>))))))))))"

definition ClearACL :: "string \<Rightarrow> acl_cache \<Rightarrow> acl_cache" where
  "ClearACL i c = c\<lparr>aclCache := lru_Remove i (aclCache c)\<rparr>"

definition Cache_Purge :: "acl_cache \<Rightarrow> acl_cache" where
  "Cache_Purge c = c\<lparr>aclCache := lru_Purge (aclCache c)\<rparr>"

end
