(* ===== verification/Consul_Acl_Properties.thy ===== *)
theory Consul_Acl_Properties
  imports Consul_Acl
begin

text \<open>
  Theorems on the ACL library: the decisions of an ACL and the rules it was made of, the safety of
  writing below a prefix, and the cache: what it returns, when it returns, and when it is out of date.
\<close>

section \<open>Decisions\<close>

primrec acl_ok :: "acl \<Rightarrow> bool" where
  "acl_ok (StaticACL m d) \<longleftrightarrow> True"
| "acl_ok (PolicyACL p ks ss) \<longleftrightarrow> acl_ok p \<and> tree_ok ks"

text \<open>The rules of a policy for keys and services; a later rule replaces an earlier one.\<close>

definition key_rules :: "Policy \<Rightarrow> (string \<rightharpoonup> string)" where
  "key_rules pol = map_of (rev (map (\<lambda>kp. (kp_Prefix kp, kp_Policy kp)) (pol_Keys pol)))"

definition service_rules :: "Policy \<Rightarrow> (string \<rightharpoonup> string)" where
  "service_rules pol = map_of (rev (map (\<lambda>sp. (sp_Name sp, sp_Policy sp)) (pol_Services pol)))"

lemma acl_New_made:
  "\<exists>t. acl_New parent pol = Done (PolicyACL parent t (service_map (pol_Services pol) Map.empty)) \<and> tree_ok t \<and>
    tree_map t = key_rules pol"
proof -
  let ?kvs = "map (\<lambda>kp. (kp_Prefix kp, kp_Policy kp)) (pol_Keys pol)"
  obtain t where t: "NewFromMap ?kvs = Done t" "tree_ok t" "tree_map t = map_of (rev ?kvs)"
    using NewFromMap_ok [of ?kvs] by blast
  have "acl_New parent pol = Done (PolicyACL parent t (service_map (pol_Services pol) Map.empty))"
    using t(1) by (simp add: acl_New_def Tree_New_def NewFromMap_def)
  then show ?thesis using t by (auto simp: key_rules_def)
qed

lemma acl_New_ok: "acl_ok parent \<Longrightarrow> acl_New parent pol = Done a \<Longrightarrow> acl_ok a"
  using acl_New_made [of parent pol] by auto

lemma RootACL_ok: "RootACL i = Some a \<Longrightarrow> acl_ok a"
  by (auto simp: RootACL_def allowAll_def denyAll_def manageAll_def split: if_splits)

lemma service_map_eq: "service_map sps m = m ++ map_of (rev (map (\<lambda>sp. (sp_Name sp, sp_Policy sp)) sps))"
  by (induction sps arbitrary: m) (auto simp: map_add_def fun_eq_iff split: option.splits)

lemma longest_cases:
  assumes "tree_ok t"
  obtains (none) "Tree_LongestPrefix k t = None" "\<forall>q \<in> dom (tree_map t). \<not> HasPrefix k q"
  | (some) q r where "Tree_LongestPrefix k t = Some (q, r)" "tree_map t q = Some r" "HasPrefix k q"
      "\<And>q'. q' \<in> dom (tree_map t) \<Longrightarrow> HasPrefix k q' \<Longrightarrow> length q' \<le> length q"
proof (cases "Tree_LongestPrefix k t")
  case None
  then show ?thesis using longest_found(3) [OF assms] none by blast
next
  case (Some qr)
  then show ?thesis using some [of "fst qr" "snd qr"] longest_found [OF assms] by (metis prod.collapse)
qed

lemma same_prefix: "HasPrefix k q \<Longrightarrow> HasPrefix k q' \<Longrightarrow> length q = length q' \<Longrightarrow> q = q'"
  by (simp add: HasPrefix_def)

lemma prefix_below: "HasPrefix k p \<Longrightarrow> HasPrefix k q \<Longrightarrow> length q \<le> length p \<Longrightarrow> HasPrefix p q"
  by (auto simp: HasPrefix_iff append_eq_append_conv2)

lemma walk_deny: "snd (walk_list deny_walk kvs d) \<longleftrightarrow> d \<or> (\<exists>kv \<in> set kvs. snd kv \<noteq> policyWrite)"
  by (induction kvs arbitrary: d) (fastforce simp: deny_walk_def)+

lemma WalkPrefix_deny:
  assumes "tree_ok t"
  shows "Tree_WalkPrefix p deny_walk t False \<longleftrightarrow> (\<exists>q r. tree_map t q = Some r \<and> HasPrefix q p \<and> r \<noteq> policyWrite)"
  unfolding walk_prefix_entries [OF assms] walk_deny using tree_map_iff [OF assms] by force

lemma KeyWritePrefix_below:
  "acl_ok a \<Longrightarrow> KeyWritePrefix a p \<Longrightarrow> HasPrefix k p \<Longrightarrow> KeyWrite a k"
proof (induction a)
  case (PolicyACL par t ss)
  have ok: "tree_ok t" using PolicyACL.prems(1) by simp
  have walk: "r = policyWrite" if "tree_map t q = Some r" "HasPrefix q p" for q r
    using PolicyACL.prems(2) WalkPrefix_deny [OF ok, of p] that by (auto simp: Let_def split: if_splits)
  from ok show ?case
  proof (cases rule: longest_cases [where k = k])
    case none
    have "Tree_LongestPrefix p t = None"
      using ok
    proof (cases rule: longest_cases [where k = p])
      case (some q r)
      then have "HasPrefix k q" using PolicyACL.prems(3) by (auto simp: HasPrefix_iff)
      then show ?thesis using none some(2) by blast
    qed
    then have "KeyWritePrefix par p" using PolicyACL.prems(2) by (auto simp: Let_def split: if_splits)
    then show ?thesis using PolicyACL none by simp
  next
    case (some q r)
    have "r = policyWrite"
    proof (cases "length p \<le> length q")
      case True
      then show ?thesis using walk [OF some(2)] prefix_below [OF some(3) PolicyACL.prems(3)] by blast
    next
      case False
      then have q: "HasPrefix p q" using prefix_below [OF PolicyACL.prems(3) some(3)] by simp
      from ok show ?thesis
      proof (cases rule: longest_cases [where k = p])
        case none
        then show ?thesis using q some(2) by blast
      next
        case found: (some q' r')
        then have "HasPrefix k q'" using PolicyACL.prems(3) by (auto simp: HasPrefix_iff)
        then have "length q' = length q" using some(4) [of q'] found(4) [of q] found(2) some(2) q by fastforce
        then have "q' = q" using same_prefix [OF \<open>HasPrefix k q'\<close> some(3)] by simp
        then show ?thesis using found some(2) PolicyACL.prems(2) by (auto simp: Let_def split: if_splits)
      qed
    qed
    then show ?thesis using some(1) by simp
  qed
qed simp

lemma write_read: "KeyWrite a k \<Longrightarrow> KeyRead a k" "ServiceWrite a n \<Longrightarrow> ServiceRead a n"
  by (induction a) (auto split: option.splits)

text \<open>
  C20. The decisions of an ACL.  An ACL that is made of a policy decides a key by the longest rule that is a prefix of
  the key, the last one written for that prefix, and asks its parent only if there is none; a service is decided by
  the last rule for its name, or else by the last rule for the empty name, or else by the parent.  What
  may be written may be read; who may write below a prefix may write every key below it; and managing
  ACLs is decided by the root of the chain.
\<close>

theorem acl_decisions:
  assumes "acl_ok parent"
  shows "\<exists>a. acl_New parent pol = Done a \<and> acl_ok a \<and>
    (\<forall>k q r. key_rules pol q = Some r \<and> HasPrefix k q \<and>
        (\<forall>q' \<in> dom (key_rules pol). HasPrefix k q' \<longrightarrow> length q' \<le> length q) \<longrightarrow>
      (KeyRead a k \<longleftrightarrow> r = policyRead \<or> r = policyWrite) \<and> (KeyWrite a k \<longleftrightarrow> r = policyWrite)) \<and>
    (\<forall>k. (\<forall>q \<in> dom (key_rules pol). \<not> HasPrefix k q) \<longrightarrow>
      KeyRead a k = KeyRead parent k \<and> KeyWrite a k = KeyWrite parent k) \<and>
    (\<forall>p k. KeyWritePrefix a p \<and> HasPrefix k p \<longrightarrow> KeyWrite a k) \<and>
    (\<forall>k. (KeyWrite a k \<longrightarrow> KeyRead a k) \<and> (ServiceWrite a k \<longrightarrow> ServiceRead a k)) \<and>
    (\<forall>n r. service_rules pol n = Some r \<or> service_rules pol n = None \<and> service_rules pol [] = Some r \<longrightarrow>
      (ServiceRead a n \<longleftrightarrow> r = policyRead \<or> r = policyWrite) \<and> (ServiceWrite a n \<longleftrightarrow> r = policyWrite)) \<and>
    (\<forall>n. service_rules pol n = None \<and> service_rules pol [] = None \<longrightarrow>
      ServiceRead a n = ServiceRead parent n \<and> ServiceWrite a n = ServiceWrite parent n) \<and>
    ACLList a = ACLList parent \<and> ACLModify a = ACLModify parent"
proof -
  obtain t where t: "acl_New parent pol = Done (PolicyACL parent t (service_map (pol_Services pol) Map.empty))" "tree_ok t"
    "tree_map t = key_rules pol"
    using acl_New_made by blast
  let ?a = "PolicyACL parent t (service_map (pol_Services pol) Map.empty)"
  have ok: "acl_ok ?a" using assms t(2) by simp
  have hit: "(KeyRead ?a k \<longleftrightarrow> r = policyRead \<or> r = policyWrite) \<and> (KeyWrite ?a k \<longleftrightarrow> r = policyWrite)"
    if "key_rules pol q = Some r" "HasPrefix k q" "\<forall>q' \<in> dom (key_rules pol). HasPrefix k q' \<longrightarrow> length q' \<le> length q" for k q r
    using t(2)
  proof (cases rule: longest_cases [where k = k])
    case none
    then show ?thesis using that t(3) by (metis domI)
  next
    case (some q' r')
    have "length q' = length q"
      using some(4) [of q] that some(2,3) t(3) by (metis domI order_antisym)
    then have "q' = q" using same_prefix [OF some(3) that(2)] by simp
    then show ?thesis using some(1,2) that(1) t(3) by simp
  qed
  have miss: "KeyRead ?a k = KeyRead parent k \<and> KeyWrite ?a k = KeyWrite parent k"
    if "\<forall>q \<in> dom (key_rules pol). \<not> HasPrefix k q" for k
    using t(2)
  proof (cases rule: longest_cases [where k = k])
    case (some q r)
    then show ?thesis using that t(3) by (metis domI)
  qed simp
  have rule: "service_rule (service_map (pol_Services pol) Map.empty) n =
      (case service_rules pol n of Some r \<Rightarrow> Some r | None \<Rightarrow> service_rules pol [])" for n
    by (simp add: service_rule_def service_map_eq flip: service_rules_def)
  have service: "(ServiceRead ?a n \<longleftrightarrow> r = policyRead \<or> r = policyWrite) \<and> (ServiceWrite ?a n \<longleftrightarrow> r = policyWrite)"
    if "service_rules pol n = Some r \<or> service_rules pol n = None \<and> service_rules pol [] = Some r" for n r
    using that by (auto simp: rule)
  have no_service: "ServiceRead ?a n = ServiceRead parent n \<and> ServiceWrite ?a n = ServiceWrite parent n"
    if "service_rules pol n = None \<and> service_rules pol [] = None" for n
    using that by (simp add: rule)
  have lists: "ACLList ?a = ACLList parent \<and> ACLModify ?a = ACLModify parent" by simp
  define a where "a = ?a"
  have "acl_New parent pol = Done a" using t(1) by (simp add: a_def)
  then show ?thesis
    using ok hit miss KeyWritePrefix_below [OF ok] write_read service no_service lists unfolding a_def [symmetric] by blast
qed

definition sample_policy :: Policy where
  "sample_policy = \<lparr>pol_ID = [], pol_Keys = [\<lparr>kp_Prefix = ''foo/'', kp_Policy = ''read''\<rparr>],
     pol_Services = [\<lparr>sp_Name = ''web'', sp_Policy = ''deny''\<rparr>, \<lparr>sp_Name = [], sp_Policy = ''write''\<rparr>]\<rparr>"

theorem acl_decisions_witness:
  "\<exists>a. acl_New denyAll sample_policy = Done a \<and>
    KeyRead a ''foo/bar'' \<and> \<not> KeyWrite a ''foo/bar'' \<and> \<not> KeyRead a ''x'' \<and>
    \<not> ServiceRead a ''web'' \<and> ServiceWrite a ''db''"
proof -
  let ?pol = sample_policy
  have ok: "acl_ok denyAll" by (simp add: denyAll_def)
  have rules: "key_rules ?pol = [''foo/'' \<mapsto> ''read'']" by (simp add: key_rules_def sample_policy_def)
  have services: "service_rules ?pol = [''web'' \<mapsto> ''deny'', [] \<mapsto> ''write'']"
    by (simp add: service_rules_def sample_policy_def)
  obtain a where a: "acl_New denyAll ?pol = Done a"
    "\<forall>k q r. key_rules ?pol q = Some r \<and> HasPrefix k q \<and>
        (\<forall>q' \<in> dom (key_rules ?pol). HasPrefix k q' \<longrightarrow> length q' \<le> length q) \<longrightarrow>
      (KeyRead a k \<longleftrightarrow> r = policyRead \<or> r = policyWrite) \<and> (KeyWrite a k \<longleftrightarrow> r = policyWrite)"
    "\<forall>k. (\<forall>q \<in> dom (key_rules ?pol). \<not> HasPrefix k q) \<longrightarrow>
      KeyRead a k = KeyRead denyAll k \<and> KeyWrite a k = KeyWrite denyAll k"
    "\<forall>n r. service_rules ?pol n = Some r \<or> service_rules ?pol n = None \<and> service_rules ?pol [] = Some r \<longrightarrow>
      (ServiceRead a n \<longleftrightarrow> r = policyRead \<or> r = policyWrite) \<and> (ServiceWrite a n \<longleftrightarrow> r = policyWrite)"
    using acl_decisions [OF ok, of ?pol] by blast
  have "KeyRead a ''foo/bar''" "\<not> KeyWrite a ''foo/bar''"
    using a(2) [rule_format, of "''foo/''" "''read''" "''foo/bar''"]
    by (simp_all add: rules HasPrefix_def policyRead_def policyWrite_def)
  moreover have "\<not> KeyRead a ''x''"
    using a(3) [rule_format, of "''x''"] by (simp add: rules HasPrefix_def denyAll_def)
  moreover have "\<not> ServiceRead a ''web''" "ServiceWrite a ''db''"
    using a(4) [rule_format, of "''web''" "''deny''"] a(4) [rule_format, of "''db''" "''write''"]
    by (simp_all add: services policyRead_def policyWrite_def)
  ultimately show ?thesis using a(1) by blast
qed

section \<open>The cache\<close>

text \<open>
  The ACL of an id without a cache: its rules are parsed and compiled under the ACL of its parent.
\<close>

inductive resolves :: "acl_env \<Rightarrow> FaultFunc \<Rightarrow> string \<Rightarrow> acl \<Rightarrow> bool" for aenv :: acl_env and f :: FaultFunc where
  under_root:
    "f i = Inr (pid, rules) \<Longrightarrow> Parse aenv rules = Inr pol \<Longrightarrow> RootACL pid = Some parent \<Longrightarrow>
      acl_New parent pol = Done a \<Longrightarrow> resolves aenv f i a"
| under_parent:
    "f i = Inr (pid, rules) \<Longrightarrow> Parse aenv rules = Inr pol \<Longrightarrow> RootACL pid = None \<Longrightarrow> resolves aenv f pid parent \<Longrightarrow>
      acl_New parent pol = Done a \<Longrightarrow> resolves aenv f i a"

definition parent_acl :: "acl_env \<Rightarrow> FaultFunc \<Rightarrow> string \<Rightarrow> acl \<Rightarrow> bool" where
  "parent_acl aenv f pid a \<longleftrightarrow> (case RootACL pid of Some r \<Rightarrow> a = r | None \<Rightarrow> resolves aenv f pid a)"

definition compiled :: "acl_env \<Rightarrow> FaultFunc \<Rightarrow> string \<Rightarrow> string \<Rightarrow> acl \<Rightarrow> bool" where
  "compiled aenv f pid rules a \<longleftrightarrow>
     (\<exists>pol parent. Parse aenv rules = Inr pol \<and> parent_acl aenv f pid parent \<and> acl_New parent pol = Done a)"

lemma resolves_iff: "resolves aenv f i a \<longleftrightarrow> (\<exists>pid rules. f i = Inr (pid, rules) \<and> compiled aenv f pid rules a)"
  by (subst resolves.simps) (auto simp: compiled_def parent_acl_def split: option.splits)

text \<open>
  The rules that the fault function returns, and those that it returns for an id and its ancestors.
  The cache knows rules by their MD5 in 32 hexadecimal digits: it can confuse rules that have the same.
\<close>

definition fault_rules :: "FaultFunc \<Rightarrow> string set" where
  "fault_rules f = {rules. \<exists>i pid. f i = Inr (pid, rules)}"

inductive chain :: "FaultFunc \<Rightarrow> string \<Rightarrow> string \<Rightarrow> bool" for f :: FaultFunc where
  own_rules: "f i = Inr (pid, rules) \<Longrightarrow> chain f i rules"
| parent_rules: "f i = Inr (pid, own) \<Longrightarrow> RootACL pid = None \<Longrightarrow> chain f pid rules \<Longrightarrow> chain f i rules"

lemma chain_fault: "chain f i rules \<Longrightarrow> rules \<in> fault_rules f"
  by (induction rule: chain.induct) (auto simp: fault_rules_def)

definition collision :: "acl_env \<Rightarrow> FaultFunc \<Rightarrow> string \<Rightarrow> bool" where
  "collision aenv f i \<longleftrightarrow>
     (\<exists>rules rules'. chain f i rules \<and> rules' \<in> fault_rules f \<and> rules \<noteq> rules' \<and>
        md5hex aenv rules = md5hex aenv rules')"

definition good_hash :: "acl_env \<Rightarrow> FaultFunc \<Rightarrow> string \<Rightarrow> bool" where
  "good_hash aenv f i \<longleftrightarrow> \<not> collision aenv f i \<and> (\<forall>rules. length (md5hex aenv rules) = 32)"

lemma good_hash_parent:
  "good_hash aenv f i \<Longrightarrow> f i = Inr (pid, rules) \<Longrightarrow> RootACL pid = None \<Longrightarrow> good_hash aenv f pid"
  by (auto simp: good_hash_def collision_def intro: parent_rules)

lemma policyID_inj: "length h = length h' \<Longrightarrow> policyID p h = policyID p' h' \<Longrightarrow> p = p' \<and> h = h'"
  by (simp add: policyID_def)

text \<open>A cache is coherent if it holds only what the fault function gives now.\<close>

definition acl_entry :: "acl_env \<Rightarrow> FaultFunc \<Rightarrow> string \<times> aclEntry \<Rightarrow> bool" where
  "acl_entry aenv f e \<longleftrightarrow> resolves aenv f (fst e) (entry_ACL (snd e))"

definition policy_entry :: "acl_env \<Rightarrow> FaultFunc \<Rightarrow> string \<times> acl \<Rightarrow> bool" where
  "policy_entry aenv f e \<longleftrightarrow> (\<exists>pid rules. rules \<in> fault_rules f \<and>
     fst e = policyID pid (md5hex aenv rules) \<and> compiled aenv f pid rules (snd e))"

definition rule_entry :: "acl_env \<Rightarrow> FaultFunc \<Rightarrow> string \<times> Policy \<Rightarrow> bool" where
  "rule_entry aenv f e \<longleftrightarrow> (\<exists>rules pol. rules \<in> fault_rules f \<and>
     fst e = md5hex aenv rules \<and> Parse aenv rules = Inr pol \<and> snd e = pol\<lparr>pol_ID := md5hex aenv rules\<rparr>)"

definition holds_all :: "('k \<times> 'v \<Rightarrow> bool) \<Rightarrow> ('k, 'v) lru_cache \<Rightarrow> bool" where
  "holds_all P c \<longleftrightarrow> lru_ok c \<and> (\<forall>e \<in> set (recency c). P e)"

definition coherent :: "acl_env \<Rightarrow> FaultFunc \<Rightarrow> acl_cache \<Rightarrow> bool" where
  "coherent aenv f c \<longleftrightarrow> holds_all (acl_entry aenv f) (aclCache c) \<and>
     holds_all (policy_entry aenv f) (policyCache c) \<and> holds_all (rule_entry aenv f) (ruleCache c)"

lemma in_without: "kv \<in> set (without k kvs) \<Longrightarrow> kv \<in> set kvs"
  by (simp add: without_def)

lemma in_recency_Add: "lru_ok c \<Longrightarrow> kv \<in> set (recency (lru_Add k v c)) \<Longrightarrow> kv = (k, v) \<or> kv \<in> set (recency c)"
  using lru_Add_ok(3) [of c k v] by (auto dest!: in_set_takeD in_without split: if_splits simp: take_Cons split: nat.splits)

lemma in_recency_Get: "lru_ok c \<Longrightarrow> kv \<in> set (recency (snd (lru_Get k c))) \<Longrightarrow> kv \<in> set (recency c)"
  using lru_Get_ok(3) [of c k] by (auto dest!: in_without map_of_SomeD split: option.splits)

lemma holds_Get:
  assumes "holds_all P c"
  shows "holds_all P (snd (lru_Get k c))" "fst (lru_Get k c) = Some v \<Longrightarrow> P (k, v)"
proof -
  have ok: "lru_ok c" and all: "\<And>e. e \<in> set (recency c) \<Longrightarrow> P e" using assms by (simp_all add: holds_all_def)
  show "holds_all P (snd (lru_Get k c))"
    using lru_Get_ok(2) [OF ok] in_recency_Get [OF ok] all by (simp add: holds_all_def)
  show "P (k, v)" if hit: "fst (lru_Get k c) = Some v"
    using lru_Get_ok(1) [OF ok, of k] hit all by (metis map_of_SomeD)
qed

lemma holds_Add: "holds_all P c \<Longrightarrow> P (k, v) \<Longrightarrow> holds_all P (lru_Add k v c)"
  using lru_Add_ok(1) in_recency_Add unfolding holds_all_def by metis

lemma coherent_new: "NewCache n = Inr c \<Longrightarrow> coherent aenv f c"
proof -
  assume "NewCache n = Inr c"
  then show ?thesis
    by (auto simp: NewCache_def lru_New_def coherent_def holds_all_def lru_ok_def recency_def split: if_splits)
qed

text \<open>The rules that a fault function returns are told apart by their ids.\<close>

lemma same_rules: "good_hash aenv f i \<Longrightarrow> chain f i rules \<Longrightarrow> rules' \<in> fault_rules f \<Longrightarrow>
    md5hex aenv rules = md5hex aenv rules' \<Longrightarrow> rules = rules'"
  by (auto simp: good_hash_def collision_def)

lemma policy_entry_iff:
  assumes "good_hash aenv f i" "chain f i rules"
  shows "policy_entry aenv f (policyID pid (md5hex aenv rules), a) \<longleftrightarrow> compiled aenv f pid rules a"
proof
  assume "policy_entry aenv f (policyID pid (md5hex aenv rules), a)"
  then obtain pid' rules' where r: "rules' \<in> fault_rules f" "policyID pid (md5hex aenv rules) = policyID pid' (md5hex aenv rules')"
    "compiled aenv f pid' rules' a"
    by (auto simp: policy_entry_def)
  have "length (md5hex aenv rules) = length (md5hex aenv rules')" using assms(1) by (simp add: good_hash_def)
  then have "pid = pid'" "md5hex aenv rules = md5hex aenv rules'" using policyID_inj r(2) by blast+
  then show "compiled aenv f pid rules a" using same_rules [OF assms r(1)] r(3) by simp
next
  assume "compiled aenv f pid rules a"
  then show "policy_entry aenv f (policyID pid (md5hex aenv rules), a)"
    using chain_fault [OF assms(2)] by (auto simp: policy_entry_def)
qed

lemma rule_entry_iff:
  assumes "good_hash aenv f i" "chain f i rules"
  shows "rule_entry aenv f (md5hex aenv rules, p) \<longleftrightarrow>
    (\<exists>pol. Parse aenv rules = Inr pol \<and> p = pol\<lparr>pol_ID := md5hex aenv rules\<rparr>)"
  using same_rules [OF assms] chain_fault [OF assms(2)] by (auto simp: rule_entry_def)

lemma coherent_getPolicy:
  assumes "coherent aenv f c" "good_hash aenv f i" "chain f i rules" "getPolicy aenv (ruleID aenv rules) rules c = (r, c')"
  shows "coherent aenv f c' \<and>
    (case r of Inr p \<Rightarrow> \<exists>pol. Parse aenv rules = Inr pol \<and> p = pol\<lparr>pol_ID := md5hex aenv rules\<rparr>
     | Inl e \<Rightarrow> Parse aenv rules = Inl e)"
proof -
  obtain raw rc where g: "lru_Get (md5hex aenv rules) (ruleCache c) = (raw, rc)" by fastforce
  have all: "holds_all (rule_entry aenv f) (ruleCache c)" using assms(1) by (simp add: coherent_def)
  have rc: "holds_all (rule_entry aenv f) rc" using holds_Get(1) [OF all, of "md5hex aenv rules"] g by simp
  have co: "coherent aenv f (c\<lparr>ruleCache := x\<rparr>) = holds_all (rule_entry aenv f) x" for x
    using assms(1) by (simp add: coherent_def)
  show ?thesis
  proof (cases raw)
    case (Some p)
    then have "rule_entry aenv f (md5hex aenv rules, p)" using holds_Get(2) [OF all] g by simp
    then show ?thesis
      using assms(4) g Some rc co rule_entry_iff [OF assms(2,3)] by (auto simp: getPolicy_def ruleID_def Let_def)
  next
    case None
    show ?thesis
    proof (cases "Parse aenv rules")
      case (Inl e)
      then have "r = Inl e" "c' = c\<lparr>ruleCache := rc\<rparr>"
        using assms(4) g None by (simp_all add: getPolicy_def ruleID_def Let_def)
      then show ?thesis using Inl rc co by simp
    next
      case (Inr pol)
      let ?p = "pol\<lparr>pol_ID := md5hex aenv rules\<rparr>"
      have "holds_all (rule_entry aenv f) (lru_Add (md5hex aenv rules) ?p rc)"
        using holds_Add [OF rc] rule_entry_iff [OF assms(2,3)] Inr by simp
      then show ?thesis using assms(4) g None Inr co by (auto simp: getPolicy_def ruleID_def Let_def)
    qed
  qed
qed

lemma acl_New_ID [simp]: "acl_New parent (pol\<lparr>pol_ID := x\<rparr>) = acl_New parent pol"
  by (simp add: acl_New_def)

lemma resolves_unique: "resolves aenv f i a \<Longrightarrow> resolves aenv f i b \<Longrightarrow> a = b"
proof (induction arbitrary: b rule: resolves.induct)
  case (under_root i pid rules pol parent a)
  then have "compiled aenv f pid rules b" by (simp add: resolves_iff)
  then show ?case using under_root.hyps by (simp add: compiled_def parent_acl_def)
next
  case (under_parent i pid rules pol parent a)
  have "compiled aenv f pid rules b" using under_parent.prems under_parent.hyps(1) by (simp add: resolves_iff)
  then obtain parent' where p: "resolves aenv f pid parent'" "acl_New parent' pol = Done b"
    using under_parent.hyps(2,3) by (auto simp: compiled_def parent_acl_def)
  have "parent = parent'" by (rule under_parent.IH [OF p(1)])
  then show ?case using under_parent.hyps(5) p(2) by simp
qed

lemma parent_unique: "parent_acl aenv f pid a \<Longrightarrow> parent_acl aenv f pid b \<Longrightarrow> a = b"
  using resolves_unique by (auto simp: parent_acl_def split: option.splits)

lemma compiled_unique: "compiled aenv f pid rules a \<Longrightarrow> compiled aenv f pid rules b \<Longrightarrow> a = b"
  using parent_unique by (fastforce simp: compiled_def)

text \<open>The chain of parents of an id ends, at a root ACL or at an error.\<close>

inductive grounded :: "acl_env \<Rightarrow> FaultFunc \<Rightarrow> string \<Rightarrow> bool" for aenv :: acl_env and f :: FaultFunc where
  unknown_id: "f i = Inl e \<Longrightarrow> grounded aenv f i"
| bad_rules: "f i = Inr (pid, rules) \<Longrightarrow> Parse aenv rules = Inl e \<Longrightarrow> grounded aenv f i"
| root_parent: "f i = Inr (pid, rules) \<Longrightarrow> RootACL pid \<noteq> None \<Longrightarrow> grounded aenv f i"
| grounded_parent: "f i = Inr (pid, rules) \<Longrightarrow> grounded aenv f pid \<Longrightarrow> grounded aenv f i"

lemma resolves_grounded: "resolves aenv f i a \<Longrightarrow> grounded aenv f i"
  by (induction rule: resolves.induct) (auto intro: grounded.intros)

text \<open>What a call gives: a coherent cache, and the ACL of the id if it has one, or an error if not.\<close>

definition answers :: "acl_env \<Rightarrow> FaultFunc \<Rightarrow> string \<Rightarrow> ((acl_error + acl) \<times> acl_cache) run \<Rightarrow> bool" where
  "answers aenv f i r \<longleftrightarrow> grounded aenv f i \<and>
     (\<exists>res c. r = Done (res, c) \<and> coherent aenv f c \<and> (\<forall>a. res = Inr a \<longleftrightarrow> resolves aenv f i a))"

lemma answers_acl:
  assumes "coherent aenv f c" "resolves aenv f i a" "entry_ACL e = a"
  shows "answers aenv f i (Done (Inr a, c\<lparr>aclCache := lru_Add i e (aclCache c)\<rparr>))"
  using assms holds_Add [of "acl_entry aenv f" "aclCache c" i e] resolves_unique resolves_grounded
  by (auto simp: answers_def coherent_def acl_entry_def)

text \<open>One call, given what the recursive calls answer.\<close>

lemma answers_miss:
  assumes "coherent aenv f c" "good_hash aenv f i" "f i = Inr (pid, rules)" "Parse aenv rules = Inr pol"
    "parent_acl aenv f pid parent" "acl_New parent pol = Done a" "entry_ACL e = a"
  shows "answers aenv f i (Done (Inr a, c\<lparr>policyCache := lru_Add (policyID pid (md5hex aenv rules)) a (policyCache c),
    aclCache := lru_Add i e (aclCache c)\<rparr>))"
proof -
  have rules: "chain f i rules" using assms(3) by (rule own_rules)
  have comp: "compiled aenv f pid rules a" using assms(4-6) by (auto simp: compiled_def)
  have "holds_all (policy_entry aenv f) (lru_Add (policyID pid (md5hex aenv rules)) a (policyCache c))"
    using assms(1) policy_entry_iff [OF assms(2) rules] comp by (intro holds_Add) (auto simp: coherent_def)
  then have "coherent aenv f (c\<lparr>policyCache := lru_Add (policyID pid (md5hex aenv rules)) a (policyCache c)\<rparr>)"
    using assms(1) by (simp add: coherent_def)
  moreover have "resolves aenv f i a" using assms(3) comp by (auto simp: resolves_iff)
  ultimately show ?thesis using answers_acl assms(7) by fastforce
qed

lemma GetACL_answers:
  assumes "GetACL aenv f i c = Some r"
  shows "good_hash aenv f i \<longrightarrow> coherent aenv f c \<longrightarrow> answers aenv f i r"
proof (rule GetACL.raw_induct [where P = "\<lambda>aenv f i c r. good_hash aenv f i \<longrightarrow> coherent aenv f c \<longrightarrow> answers aenv f i r"],
    goal_cases)
  case (1 G aenv f i c r)
  show ?case
  proof (intro impI)
    assume hash: "good_hash aenv f i" and co: "coherent aenv f c"
    obtain e1 ac where g1: "lru_Get i (aclCache c) = (e1, ac)" by fastforce
    define c1 where "c1 = c\<lparr>aclCache := ac\<rparr>"
    have co1: "coherent aenv f c1"
      using co holds_Get(1) [of "acl_entry aenv f" "aclCache c" i] g1 by (simp add: coherent_def c1_def)
    show "answers aenv f i r"
    proof (cases e1)
      case (Some e)
      have "resolves aenv f i (entry_ACL e)"
        using co holds_Get(2) [of "acl_entry aenv f" "aclCache c" i e] g1 Some by (simp add: coherent_def acl_entry_def)
      moreover have "r = Done (Inr (entry_ACL e), c1)" using 1(2) g1 Some by (simp add: c1_def)
      ultimately show ?thesis using co1 resolves_unique resolves_grounded by (auto simp: answers_def)
    next
      case miss1: None
      show ?thesis
      proof (cases "f i")
        case (Inl e)
        then have "r = Done (Inl (FaultError e), c1)" using 1(2) g1 miss1 by (simp add: c1_def)
        then show ?thesis using co1 Inl by (auto simp: answers_def resolves_iff intro: unknown_id)
      next
        case (Inr pr)
        obtain pid rules where fi: "f i = Inr (pid, rules)" using Inr by (cases pr) simp
        have rules: "chain f i rules" using fi by (rule own_rules)
        obtain e2 pc where g2: "lru_Get (policyID pid (md5hex aenv rules)) (policyCache c1) = (e2, pc)" by fastforce
        define c2 where "c2 = c1\<lparr>policyCache := pc\<rparr>"
        have co2: "coherent aenv f c2"
          using co1 holds_Get(1) [of "policy_entry aenv f" "policyCache c1" "policyID pid (md5hex aenv rules)"] g2
          by (simp add: coherent_def c2_def)
        show ?thesis
        proof (cases e2)
          case (Some a)
          have "compiled aenv f pid rules a"
            using co1 holds_Get(2) [of "policy_entry aenv f" "policyCache c1" "policyID pid (md5hex aenv rules)" a] g2 Some
              policy_entry_iff [OF hash rules] by (simp add: coherent_def)
          then have "resolves aenv f i a" using fi by (auto simp: resolves_iff)
          moreover have "r = Done (Inr a, c2\<lparr>aclCache := lru_Add i
              \<lparr>entry_ACL = a, entry_Parent = pid, entry_RuleID = md5hex aenv rules\<rparr> (aclCache c2)\<rparr>)"
            using 1(2) g1 miss1 fi g2 Some by (simp add: c1_def c2_def ruleID_def Let_def)
          ultimately show ?thesis using answers_acl [OF co2] by simp
        next
          case miss2: None
          obtain p c3 where g3: "getPolicy aenv (ruleID aenv rules) rules c2 = (p, c3)" by fastforce
          note co3 = coherent_getPolicy [OF co2 hash rules g3]
          show ?thesis
          proof (cases p)
            case (Inl e)
            then have "r = Done (Inl e, c3)"
              using 1(2) g1 miss1 fi g2 miss2 g3 by (simp add: c1_def c2_def ruleID_def Let_def)
            then show ?thesis using co3 Inl fi by (auto simp: answers_def resolves_iff compiled_def intro: bad_rules)
          next
            case policy: (Inr q)
            then obtain pol where pol: "Parse aenv rules = Inr pol" "q = pol\<lparr>pol_ID := md5hex aenv rules\<rparr>" "coherent aenv f c3"
              using co3 by auto
            let ?e = "\<lambda>a. \<lparr>entry_ACL = a, entry_Parent = pid, entry_RuleID = md5hex aenv rules\<rparr>"
            define K where "K = (\<lambda>r' :: ((acl_error + acl) \<times> acl_cache) run. case r' of Panic p \<Rightarrow> Some (Panic p)
                 | Done (Inl e, c) \<Rightarrow> Some (Done (Inl e, c))
                 | Done (Inr par, c) \<Rightarrow> (case acl_New par q of Panic p \<Rightarrow> Some (Panic p)
                     | Done a \<Rightarrow>
                       (let c = c\<lparr>policyCache := lru_Add (policyID pid (md5hex aenv rules)) a (policyCache c)\<rparr>
                        in Some (Done (Inr a :: acl_error + acl, c\<lparr>aclCache := lru_Add i (?e a) (aclCache c)\<rparr>)))))"
            have "Option.bind (case RootACL pid of Some a \<Rightarrow> Some (Done (Inr a, c3)) | None \<Rightarrow> G aenv f pid c3) K = Some r"
              using 1(2) g1 miss1 fi g2 miss2 g3 policy unfolding K_def
              by (simp add: c1_def c2_def ruleID_def Let_def)
            then obtain r' where r': "(case RootACL pid of Some a \<Rightarrow> Some (Done (Inr a, c3)) | None \<Rightarrow> G aenv f pid c3) = Some r'"
              and r: "K r' = Some r"
              unfolding bind_eq_Some_conv by blast
            have "grounded aenv f i \<and>
              (\<exists>res c4. r' = Done (res, c4) \<and> coherent aenv f c4 \<and> (\<forall>a. res = Inr a \<longleftrightarrow> parent_acl aenv f pid a))"
            proof (cases "RootACL pid")
              case None
              then show ?thesis using 1(1) [of aenv f pid c3 r'] r' good_hash_parent [OF hash fi None] pol(3) grounded_parent [of f i pid rules aenv, OF fi]
                by (simp add: answers_def parent_acl_def)
            next
              case (Some a)
              then show ?thesis using r' pol(3) fi by (auto simp: parent_acl_def intro: root_parent)
            qed
            then obtain res c4 where ends: "grounded aenv f i" and c4: "r' = Done (res, c4)" "coherent aenv f c4" "\<And>a. res = Inr a \<longleftrightarrow> parent_acl aenv f pid a"
              by blast
            show ?thesis
            proof (cases res)
              case (Inl e)
              then have "r = Done (Inl e, c4)" using r c4(1) Inl by (simp add: K_def)
              moreover have "\<not> resolves aenv f i a" for a using c4(3) Inl fi by (auto simp: resolves_iff compiled_def)
              ultimately show ?thesis using c4(2) Inl ends by (simp add: answers_def)
            next
              case (Inr par)
              obtain a where a: "acl_New par pol = Done a" using acl_New_made by blast
              have "r = Done (Inr a, c4\<lparr>policyCache := lru_Add (policyID pid (md5hex aenv rules)) a (policyCache c4),
                            aclCache := lru_Add i (?e a) (aclCache c4)\<rparr>)"
                using r c4(1) Inr a pol(2) by (simp add: K_def)
              moreover have "parent_acl aenv f pid par" by (rule c4(3) [THEN iffD1, OF Inr])
              ultimately show ?thesis using answers_miss [OF c4(2) hash fi pol(1) _ a] by simp
            qed
          qed
        qed
      qed
    qed
  qed
qed (rule assms)

lemma GetACL_calls:
  assumes "coherent aenv f c" "good_hash aenv f i" "f i = Inr (pid, rules)"
    "\<And>c pol. coherent aenv f c \<Longrightarrow> Parse aenv rules = Inr pol \<Longrightarrow> RootACL pid = None \<Longrightarrow> \<exists>r. GetACL aenv f pid c = Some r"
  shows "\<exists>r. GetACL aenv f i c = Some r"
proof -
  obtain e1 ac where g1: "lru_Get i (aclCache c) = (e1, ac)" by fastforce
  define c1 where "c1 = c\<lparr>aclCache := ac\<rparr>"
  obtain e2 pc where g2: "lru_Get (policyID pid (md5hex aenv rules)) (policyCache c1) = (e2, pc)" by fastforce
  define c2 where "c2 = c1\<lparr>policyCache := pc\<rparr>"
  obtain p c3 where g3: "getPolicy aenv (ruleID aenv rules) rules c2 = (p, c3)" by fastforce
  have co1: "coherent aenv f c1"
    using assms(1) holds_Get(1) [of "acl_entry aenv f" "aclCache c" i] g1 by (simp add: coherent_def c1_def)
  have co2: "coherent aenv f c2"
    using co1 holds_Get(1) [of "policy_entry aenv f" "policyCache c1" "policyID pid (md5hex aenv rules)"] g2
    by (simp add: coherent_def c2_def)
  have "chain f i rules" using assms(3) by (rule own_rules)
  note co3 = coherent_getPolicy [OF co2 assms(2) this g3]
  have parent: "\<exists>r. (case RootACL pid of Some a \<Rightarrow> Some (Done (Inr a, c3)) | None \<Rightarrow> GetACL aenv f pid c3) = Some r"
    if "p = Inr q" for q
    using assms(4) [of c3] co3 that by (auto split: option.split)
  show ?thesis
    using g1 g2 g3 assms(3) parent
    by (subst GetACL.simps) (auto simp: c1_def [symmetric] c2_def [symmetric] ruleID_def Let_def split: option.split sum.split run.split)
qed

lemma GetACL_returns:
  "grounded aenv f i \<Longrightarrow> good_hash aenv f i \<Longrightarrow> coherent aenv f c \<Longrightarrow> \<exists>r. GetACL aenv f i c = Some r"
proof (induction arbitrary: c rule: grounded.induct)
  case (unknown_id i e)
  then show ?case by (subst GetACL.simps) (simp add: Let_def split: prod.split option.split)
next
  case (bad_rules i pid rules e)
  then show ?case using GetACL_calls [OF bad_rules.prems(2,1) bad_rules.hyps(1)] by simp
next
  case (root_parent i pid rules)
  show ?case
    by (rule GetACL_calls [OF root_parent.prems(2,1) root_parent.hyps(1)]) (simp add: root_parent.hyps(2))
next
  case (grounded_parent i pid rules)
  then show ?case
    using GetACL_calls [OF grounded_parent.prems(2,1) grounded_parent.hyps(1)]
      good_hash_parent [OF grounded_parent.prems(1) grounded_parent.hyps(1)] by simp
qed

text \<open>
  C21. The cache of ACLs, for an MD5 in 32 hexadecimal digits that need not be free of collisions.  On
  a coherent cache (one that holds only what the fault function gives now) \<^verbatim>\<open>GetACL\<close> returns exactly if
  the chain of parents of the id ends; then it gives the ACL that the rules of the chain compile to, or
  an error exactly if there is none, and the cache is coherent again, whatever is evicted.  On a chain
  of parents that runs in a circle it calls itself without end.  All this may only fail if some rules
  of the chain have the same MD5 as other rules that the fault function gives.
\<close>

theorem acl_cache_transparent:
  assumes "\<forall>rules. length (md5hex aenv rules) = 32" "coherent aenv f c"
  shows "(if grounded aenv f i
     then \<exists>res c'. GetACL aenv f i c = Some (Done (res, c')) \<and> coherent aenv f c' \<and> (\<forall>a. res = Inr a \<longleftrightarrow> resolves aenv f i a)
     else GetACL aenv f i c = None) \<or>
   (\<exists>rules j pid rules'. chain f i rules \<and> f j = Inr (pid, rules') \<and> rules \<noteq> rules' \<and>
      md5hex aenv rules = md5hex aenv rules')"
proof (cases "collision aenv f i")
  case True
  then have "\<exists>rules j pid rules'. chain f i rules \<and> f j = Inr (pid, rules') \<and> rules \<noteq> rules' \<and>
      md5hex aenv rules = md5hex aenv rules'"
    unfolding collision_def fault_rules_def by blast
  then show ?thesis by (rule disjI2)
next
  case False
  then have hash: "good_hash aenv f i" using assms(1) by (simp add: good_hash_def)
  show ?thesis
  proof (cases "grounded aenv f i")
    case True
    then obtain r where r: "GetACL aenv f i c = Some r" using GetACL_returns hash assms(2) by blast
    then have "answers aenv f i r" using GetACL_answers hash assms(2) by blast
    then show ?thesis using True r by (auto simp: answers_def)
  next
    case False
    have "GetACL aenv f i c \<noteq> Some r" for r
      using GetACL_answers [of aenv f i c r] hash assms(2) False by (auto simp: answers_def)
    then have "GetACL aenv f i c = None" by (metis option.exhaust)
    then show ?thesis using False by simp
  qed
qed

text \<open>Two fault functions: one whose ACL is its own parent, and one on which the rules of the parent differ.\<close>

definition sample_env :: acl_env where
  "sample_env = \<lparr>hclDecode = (\<lambda>s. Inr ([\<lparr>kp_Prefix = [], kp_Policy = if s = ''r'' then ''read'' else ''deny''\<rparr>], [])),
     md5hex = (\<lambda>s. take 32 (s @ replicate 32 CHR ''0''))\<rparr>"

definition looping :: FaultFunc where
  "looping i = Inr (i, [])"

definition changing :: "string \<Rightarrow> FaultFunc" where
  "changing rules i = (if i = ''child'' then Inr (''parent'', []) else Inr (''deny'', rules))"

lemma sample_hash: "length (md5hex sample_env rules) = 32"
  by (simp add: sample_env_def)

lemma looping_not_grounded: "grounded aenv f i \<Longrightarrow> f = looping \<Longrightarrow> RootACL i = None \<Longrightarrow> False"
  by (induction rule: grounded.induct) (simp_all add: looping_def Parse_def)

lemma lru_Get_purged [simp]: "lru_Get k (lru_Purge c) = (None, lru_Purge c)"
  by (simp add: lru_Get_def lru_Purge_def)

text \<open>
  C22. What \<^verbatim>\<open>Purge\<close> leaves behind.  The key of a compiled ACL holds the id of its parent and a hash of
  its own rules, but not the rules of the parent: after a purge, and whatever the fault function now
  says of the parent, \<^verbatim>\<open>GetACL\<close> still gives the ACL that was compiled before, as long as it is not
  evicted.
\<close>

theorem acl_cache_stale:
  assumes "fst (lru_Get (policyID pid (ruleID aenv rules)) (policyCache c)) = Some a" "f i = Inr (pid, rules)"
  shows "\<exists>c'. GetACL aenv f i (Cache_Purge c) = Some (Done (Inr a, c'))"
proof -
  obtain pc where "lru_Get (policyID pid (ruleID aenv rules)) (policyCache c) = (Some a, pc)"
    using assms(1) by (cases "lru_Get (policyID pid (ruleID aenv rules)) (policyCache c)") simp
  then show ?thesis using assms(2) by (subst GetACL.simps) (simp add: Cache_Purge_def Let_def)
qed

text \<open>
  The ACL of the child was compiled when its parent let every key be read; now the parent denies all,
  and so would the ACL of the child.
\<close>

lemma sample_parent:
  "\<exists>p. resolves sample_env (changing rules) ''parent'' p \<and> (rules \<noteq> [] \<longrightarrow> (KeyRead p k \<longleftrightarrow> rules = ''r''))"
proof -
  let ?kp = "\<lparr>kp_Prefix = [], kp_Policy = if rules = ''r'' then ''read'' else ''deny''\<rparr>"
  obtain pol where pol: "Parse sample_env rules = Inr pol" "rules \<noteq> [] \<longrightarrow> pol_Keys pol = [?kp]"
    by (cases "rules = []"; cases "rules = ''r''")
      (simp_all add: Parse_def sample_env_def valid_policy_def policyRead_def policyDeny_def)
  obtain t where t: "acl_New denyAll pol = Done (PolicyACL denyAll t (service_map (pol_Services pol) Map.empty))" "tree_ok t"
    "tree_map t = key_rules pol"
    using acl_New_made by blast
  have "resolves sample_env (changing rules) ''parent'' (PolicyACL denyAll t (service_map (pol_Services pol) Map.empty))"
    using under_root [of "changing rules" "''parent''" "''deny''" rules] pol(1) t(1) by (simp add: changing_def RootACL_def)
  moreover have "KeyRead (PolicyACL denyAll t (service_map (pol_Services pol) Map.empty)) k \<longleftrightarrow> rules = ''r''" if "rules \<noteq> []"
    using t(2)
  proof (cases rule: longest_cases [where k = k])
    case none
    then show ?thesis using t(3) pol(2) that by (simp add: key_rules_def HasPrefix_def)
  next
    case (some q r)
    then show ?thesis using t(3) pol(2) that by (auto simp: key_rules_def policyRead_def policyWrite_def split: if_splits)
  qed
  ultimately show ?thesis by blast
qed

lemma sample_child:
  assumes "rules \<noteq> []"
  shows "\<exists>a. resolves sample_env (changing rules) ''child'' a \<and> (KeyRead a k \<longleftrightarrow> rules = ''r'')"
proof -
  obtain p where p: "resolves sample_env (changing rules) ''parent'' p" "KeyRead p k \<longleftrightarrow> rules = ''r''"
    using sample_parent assms by blast
  let ?pol = "\<lparr>pol_ID = [], pol_Keys = [], pol_Services = []\<rparr>"
  obtain t where t: "acl_New p ?pol = Done (PolicyACL p t (service_map [] Map.empty))" "tree_ok t"
    "tree_map t = Map.empty"
    using acl_New_made [of p ?pol] by (auto simp: key_rules_def)
  have "resolves sample_env (changing rules) ''child'' (PolicyACL p t Map.empty)"
    using under_parent [of "changing rules" "''child''" "''parent''" "[]" sample_env ?pol p] p(1) t(1)
    by (simp add: changing_def RootACL_def Parse_def)
  moreover have "KeyRead (PolicyACL p t Map.empty) k \<longleftrightarrow> KeyRead p k"
    using t(2) by (cases rule: longest_cases [where k = k]) (simp_all add: t(3))
  ultimately show ?thesis using p(2) by blast
qed

text \<open>
  The call for the child on an empty cache, the same call on the cache that it leaves, and a call for
  an ACL that is its own parent.
\<close>

theorem acl_cache_transparent_witness:
  "\<exists>c a c1 c2. NewCache 1 = Inr c \<and> KeyRead a ''x'' \<and>
     GetACL sample_env (changing ''r'') ''child'' c = Some (Done (Inr a, c1)) \<and>
     GetACL sample_env (changing ''r'') ''child'' c1 = Some (Done (Inr a, c2)) \<and>
     GetACL sample_env looping ''loop'' c = None"
proof -
  let ?f = "changing ''r''"
  obtain c where c: "NewCache 1 = Inr c" by (simp add: NewCache_def lru_New_def)
  obtain a where a: "resolves sample_env ?f ''child'' a" "KeyRead a ''x''" using sample_child [of "''r''" "''x''"] by auto
  have "?f i = Inr (pid, rules) \<Longrightarrow> rules \<in> {[], ''r''}" for i pid rules by (auto simp: changing_def split: if_splits)
  moreover have "chain ?f ''child'' rules \<Longrightarrow> rules \<in> {[], ''r''}" for rules
    using chain_fault [of ?f "''child''" rules] calculation by (auto simp: fault_rules_def)
  moreover have "md5hex sample_env [] \<noteq> md5hex sample_env ''r''" by (simp add: sample_env_def numeral_eq_Suc)
  ultimately have free: "\<nexists>rules j pid rules'. chain ?f ''child'' rules \<and> ?f j = Inr (pid, rules') \<and> rules \<noteq> rules' \<and>
      md5hex sample_env rules = md5hex sample_env rules'"
    by (metis insertE singletonD)
  have call: "\<exists>c'. GetACL sample_env ?f ''child'' c0 = Some (Done (Inr a, c')) \<and> coherent sample_env ?f c'"
    if co: "coherent sample_env ?f c0" for c0
  proof -
    have "\<forall>rules. length (md5hex sample_env rules) = 32" by (simp add: sample_hash)
    from acl_cache_transparent [OF this co, of "''child''", unfolded if_P [OF resolves_grounded [OF a(1)]]] free
    obtain res c' where r: "GetACL sample_env ?f ''child'' c0 = Some (Done (res, c'))" "coherent sample_env ?f c'"
      "\<forall>a. res = Inr a \<longleftrightarrow> resolves sample_env ?f ''child'' a"
      by blast
    then show ?thesis using a(1) by auto
  qed
  obtain c1 where c1: "GetACL sample_env ?f ''child'' c = Some (Done (Inr a, c1))" "coherent sample_env ?f c1"
    using call [OF coherent_new [OF c]] by blast
  obtain c2 where c2: "GetACL sample_env ?f ''child'' c1 = Some (Done (Inr a, c2))" using call [OF c1(2)] by blast
  have "\<not> grounded sample_env looping ''loop''" using looping_not_grounded [of _ looping "''loop''"] by (auto simp: RootACL_def)
  moreover have "looping j = Inr (pid, rules) \<Longrightarrow> rules = []" for j pid rules by (simp add: looping_def)
  moreover have "chain looping ''loop'' rules \<Longrightarrow> rules = []" for rules
    using chain_fault [of looping "''loop''" rules] by (simp add: fault_rules_def looping_def)
  ultimately have "GetACL sample_env looping ''loop'' c = None"
    using acl_cache_transparent [OF _ coherent_new [OF c], of sample_env looping "''loop''"] sample_hash by auto
  then show ?thesis using c a(2) c1(1) c2 by blast
qed

theorem acl_cache_stale_witness:
  "\<exists>c a b c'. resolves sample_env (changing ''r'') ''child'' a \<and> KeyRead a ''x'' \<and>
     resolves sample_env (changing ''d'') ''child'' b \<and> \<not> KeyRead b ''x'' \<and>
     GetACL sample_env (changing ''d'') ''child'' (Cache_Purge c) = Some (Done (Inr a, c'))"
proof -
  let ?e = "\<lparr>lru_size = 2, evictList = [], elements = Map.empty, items = Map.empty, fresh_element = 0\<rparr>"
  let ?k = "policyID ''parent'' (ruleID sample_env [])"
  obtain a b where ab: "resolves sample_env (changing ''r'') ''child'' a" "KeyRead a ''x''"
    "resolves sample_env (changing ''d'') ''child'' b" "\<not> KeyRead b ''x''"
    using sample_child [of "''r''" "''x''"] sample_child [of "''d''" "''x''"] by auto
  have hit: "fst (lru_Get ?k (lru_Add ?k a ?e)) = Some a"
    by (simp add: lru_Add_def lru_Get_def MoveToFront_def Let_def)
  have "\<exists>c'. GetACL sample_env (changing ''d'') ''child'' (Cache_Purge \<lparr>aclCache = ?e, policyCache = lru_Add ?k a ?e,
      ruleCache = ?e\<rparr>) = Some (Done (Inr a, c'))"
    by (rule acl_cache_stale [where pid = "''parent''" and rules = "[]"]) (simp_all add: hit changing_def)
  then show ?thesis using ab by blast
qed

end
