(* ===== verification/Codec_IO.thy ===== *)
theory Codec_IO
  imports Glimpse_Prelude
begin

text \<open>
  The ground of \<^verbatim>\<open>hashicorp/go-msgpack/codec\<close>: big-endian numbers, the errors that the package
  throws as panics and turns into errors at its border, the two writers it encodes to
  (\<^verbatim>\<open>encode.go\<close>) and the two readers it decodes from (\<^verbatim>\<open>decode.go\<close>).
\<close>

unbundle bit_operations_syntax

type_synonym bytes = "byte list"

section \<open>Big-endian numbers\<close>

primrec put_be :: "nat \<Rightarrow> nat \<Rightarrow> bytes" where
  "put_be 0 v = []"
| "put_be (Suc n) v = put_be n (v div 256) @ [of_nat v]"

definition be_nat :: "bytes \<Rightarrow> nat" where
  "be_nat bs = foldl (\<lambda>a b. a * 256 + unat b) 0 bs"

lemma length_put_be [simp]: "length (put_be n v) = n"
  by (induction n arbitrary: v) simp_all

lemma unat_byte [simp]: "unat (of_nat v :: byte) = v mod 256"
  by (simp add: unat_of_nat)

lemma be_nat_Nil [simp]: "be_nat [] = 0"
  by (simp add: be_nat_def)

lemma be_nat_snoc [simp]: "be_nat (bs @ [b]) = be_nat bs * 256 + unat b"
  by (simp add: be_nat_def)

lemma be_nat_put_be: "be_nat (put_be n v) = v mod 256 ^ n"
proof (induction n arbitrary: v)
  case (Suc n)
  then show ?case using mod_mult2_eq [of v 256 "256 ^ n"] by (simp add: mult.commute)
qed simp

lemma unat_less: "unat (w :: 'a :: len word) < 2 ^ LENGTH('a)"
  by (rule unsigned_less)

lemma byte_less: "unat (b :: byte) < 256"
  using unat_less [of b] by simp

lemma be_nat_less: "be_nat bs < 256 ^ length bs"
proof (induction bs rule: rev_induct)
  case (snoc b bs)
  then have "be_nat bs * 256 + 256 \<le> 256 ^ length bs * 256" by simp
  then show ?case using byte_less [of b] by simp
qed simp

lemma be_nat_append: "be_nat (xs @ ys) = be_nat xs * 256 ^ length ys + be_nat ys"
proof (induction ys rule: rev_induct)
  case (snoc y ys)
  then show ?case by (simp add: algebra_simps flip: append_assoc)
qed simp

lemma be_nat_Cons: "be_nat (b # bs) = unat b * 256 ^ length bs + be_nat bs"
  using be_nat_append [of "[b]" bs] be_nat_snoc [of "[]" b] by simp

lemma put_be_be_nat: "put_be (length bs) (be_nat bs) = bs"
proof (induction bs rule: rev_induct)
  case (snoc b bs)
  have "(be_nat bs * 256 + unat b) div 256 = be_nat bs" using byte_less [of b] by simp
  moreover have "of_nat (be_nat bs * 256 + unat b) = b" by (simp add: word_unat_eq_iff unat_of_nat byte_less del: of_nat_add of_nat_mult)
  ultimately show ?case using snoc by simp
qed simp

definition PutUint16 :: "uint16 \<Rightarrow> bytes" where
  "PutUint16 v = put_be 2 (unat v)"

definition PutUint32 :: "uint32 \<Rightarrow> bytes" where
  "PutUint32 v = put_be 4 (unat v)"

definition PutUint64 :: "uint64 \<Rightarrow> bytes" where
  "PutUint64 v = put_be 8 (unat v)"

definition be_Uint16 :: "bytes \<Rightarrow> uint16" where
  "be_Uint16 bs = of_nat (be_nat bs)"

definition be_Uint32 :: "bytes \<Rightarrow> uint32" where
  "be_Uint32 bs = of_nat (be_nat bs)"

definition be_Uint64 :: "bytes \<Rightarrow> uint64" where
  "be_Uint64 bs = of_nat (be_nat bs)"

lemma length_Put [simp]:
  "length (PutUint16 v) = 2" "length (PutUint32 w) = 4" "length (PutUint64 x) = 8"
  by (simp_all add: PutUint16_def PutUint32_def PutUint64_def)

lemma be_Put [simp]: "be_Uint16 (PutUint16 v) = v" "be_Uint32 (PutUint32 w) = w" "be_Uint64 (PutUint64 x) = x"
  using unat_less [of v] unat_less [of w] unat_less [of x]
  by (simp_all add: PutUint16_def PutUint32_def PutUint64_def be_Uint16_def be_Uint32_def be_Uint64_def be_nat_put_be)

section \<open>Errors\<close>

text \<open>The format of a message stands for the message; \<open>NoFuel\<close> is not an error of the program.\<close>

datatype codec_error = EOF | UnexpectedEOF | DecError string | EncError string | RuntimeError string | NoFuel

definition or_error :: "'e + 'a \<Rightarrow> ('a \<Rightarrow> 'e + 'b) \<Rightarrow> 'e + 'b" where
  "or_error r f = (case r of Inl e \<Rightarrow> Inl e | Inr x \<Rightarrow> f x)"

lemma or_error_simps [simp]: "or_error (Inl e) f = Inl e" "or_error (Inr x) f = f x"
  by (simp_all add: or_error_def)

lemma or_error_Inr_iff: "or_error r f = Inr y \<longleftrightarrow> (\<exists>x. r = Inr x \<and> f x = Inr y)"
  by (cases r) simp_all

section \<open>Writers\<close>

text \<open>What a driver asks of its writer; a driver is modelled by the calls that it makes.\<close>

datatype write_call =
    writen1 byte
  | writen2 byte byte
  | writeUint16 uint16
  | writeUint32 uint32
  | writeUint64 uint64
  | writeb bytes
  | writestr bytes

primrec written :: "write_call \<Rightarrow> bytes" where
  "written (writen1 b) = [b]"
| "written (writen2 b b') = [b, b']"
| "written (writeUint16 v) = PutUint16 v"
| "written (writeUint32 v) = PutUint32 v"
| "written (writeUint64 v) = PutUint64 v"
| "written (writeb bs) = bs"
| "written (writestr bs) = bs"

definition all_written :: "write_call list \<Rightarrow> bytes" where
  "all_written ws = concat (map written ws)"

lemma all_written_simps [simp]:
  "all_written [] = []" "all_written (w # ws) = written w @ all_written ws"
  "all_written (ws @ ws') = all_written ws @ all_written ws'"
  by (simp_all add: all_written_def)

text \<open>
  \<^verbatim>\<open>bytesEncWriter\<close>: \<open>backing\<close> is the array up to its capacity, of which the first \<open>blen\<close> bytes are
  the slice, and \<open>cursor\<close> is where the next byte goes.
\<close>

record bytesEncWriter =
  backing :: bytes
  blen :: nat
  cursor :: nat

definition grow :: "nat \<Rightarrow> bytesEncWriter \<Rightarrow> bytesEncWriter" where
  "grow n z =
     (let old = cursor z; c = old + n; cap = length (backing z) in
      if cap < c then
        \<lparr>backing = take old (backing z) @ replicate (2 * cap + n - old) 0, blen = 2 * cap + n, cursor = c\<rparr>
      else if blen z < c then z\<lparr>blen := cap, cursor := c\<rparr>
      else z\<lparr>cursor := c\<rparr>)"

definition set_byte :: "nat \<Rightarrow> byte \<Rightarrow> bytesEncWriter \<Rightarrow> bytesEncWriter run" where
  "set_byte i b z = (if i < blen z then Done (z\<lparr>backing := (backing z)[i := b]\<rparr>) else Panic IndexOutOfRange)"

primrec set_bytes :: "nat \<Rightarrow> bytes \<Rightarrow> bytesEncWriter \<Rightarrow> bytesEncWriter run" where
  "set_bytes i [] z = Done z"
| "set_bytes i (b # bs) z = run_bind (set_byte i b z) (set_bytes (Suc i) bs)"

text \<open>\<^verbatim>\<open>copy(z.b[c:], s)\<close> copies what fits.\<close>

definition copy_at :: "nat \<Rightarrow> bytes \<Rightarrow> bytesEncWriter \<Rightarrow> bytesEncWriter run" where
  "copy_at i bs z =
     (if blen z < i then Panic SliceBounds else set_bytes i (take (blen z - i) bs) z)"

fun bytes_write :: "write_call \<Rightarrow> bytesEncWriter \<Rightarrow> bytesEncWriter run" where
  "bytes_write (writen1 b) z = set_bytes (cursor z) [b] (grow 1 z)"
| "bytes_write (writen2 b b') z = set_bytes (cursor z) [b, b'] (grow 2 z)"
| "bytes_write (writeUint16 v) z = set_bytes (cursor z) [ucast (drop_bit 8 v), ucast v] (grow 2 z)"
| "bytes_write (writeUint32 v) z =
     set_bytes (cursor z) [ucast (drop_bit 24 v), ucast (drop_bit 16 v), ucast (drop_bit 8 v), ucast v] (grow 4 z)"
| "bytes_write (writeUint64 v) z =
     set_bytes (cursor z)
       [ucast (drop_bit 56 v), ucast (drop_bit 48 v), ucast (drop_bit 40 v), ucast (drop_bit 32 v),
        ucast (drop_bit 24 v), ucast (drop_bit 16 v), ucast (drop_bit 8 v), ucast v] (grow 8 z)"
| "bytes_write (writeb bs) z = (if bs = [] then Done z else copy_at (cursor z) bs (grow (length bs) z))"
| "bytes_write (writestr bs) z = copy_at (cursor z) bs (grow (length bs) z)"

primrec bytes_writes :: "write_call list \<Rightarrow> bytesEncWriter \<Rightarrow> bytesEncWriter run" where
  "bytes_writes [] z = Done z"
| "bytes_writes (w # ws) z = run_bind (bytes_write w z) (bytes_writes ws)"

definition defEncByteBufSize :: nat where
  "defEncByteBufSize = 64"

text \<open>\<^verbatim>\<open>NewEncoderBytes\<close>: the slice that is written over, its capacity included, or none.\<close>

definition new_bytes_writer :: "(bytes \<times> nat) option \<Rightarrow> bytesEncWriter" where
  "new_bytes_writer buf =
     (case buf of
        None \<Rightarrow> \<lparr>backing = replicate defEncByteBufSize 0, blen = defEncByteBufSize, cursor = 0\<rparr>
      | Some (b, n) \<Rightarrow> \<lparr>backing = b, blen = n, cursor = 0\<rparr>)"

definition atEndOfEncode :: "bytesEncWriter \<Rightarrow> bytes" where
  "atEndOfEncode z = take (cursor z) (backing z)"

text \<open>
  \<^verbatim>\<open>ioEncWriter\<close> writes to an \<^verbatim>\<open>io.Writer\<close>, which may also have methods for a byte and for a string;
  a call returns the number of bytes written and an error.
\<close>

record 's io_writer =
  io_Write :: "bytes \<Rightarrow> 's \<Rightarrow> int \<times> codec_error option \<times> 's"
  io_WriteByte :: "(byte \<Rightarrow> 's \<Rightarrow> codec_error option \<times> 's) option"
  io_WriteString :: "(bytes \<Rightarrow> 's \<Rightarrow> int \<times> codec_error option \<times> 's) option"

definition simple_WriteByte :: "'s io_writer \<Rightarrow> byte \<Rightarrow> 's \<Rightarrow> codec_error option \<times> 's" where
  "simple_WriteByte w b s =
     (case io_WriteByte w of
        Some f \<Rightarrow> f b s
      | None \<Rightarrow> (case io_Write w [b] s of (_, err, s') \<Rightarrow> (err, s')))"

definition simple_WriteString :: "'s io_writer \<Rightarrow> bytes \<Rightarrow> 's \<Rightarrow> int \<times> codec_error option \<times> 's" where
  "simple_WriteString w bs s = (case io_WriteString w of Some f \<Rightarrow> f bs s | None \<Rightarrow> io_Write w bs s)"

definition check_count :: "bytes \<Rightarrow> int \<times> codec_error option \<times> 's \<Rightarrow> codec_error + 's" where
  "check_count bs r =
     (case r of (n, err, s) \<Rightarrow>
        (case err of
           Some e \<Rightarrow> Inl e
         | None \<Rightarrow>
             if n \<noteq> int (length bs)
             then Inl (EncError ''write: Incorrect num bytes written. Expecting: %v, Wrote: %v'') else Inr s))"

definition io_writeb :: "'s io_writer \<Rightarrow> bytes \<Rightarrow> 's \<Rightarrow> codec_error + 's" where
  "io_writeb w bs s = (if bs = [] then Inr s else check_count bs (io_Write w bs s))"

definition io_writen1 :: "'s io_writer \<Rightarrow> byte \<Rightarrow> 's \<Rightarrow> codec_error + 's" where
  "io_writen1 w b s = (case simple_WriteByte w b s of (Some e, _) \<Rightarrow> Inl e | (None, s) \<Rightarrow> Inr s)"

fun io_write :: "'s io_writer \<Rightarrow> write_call \<Rightarrow> 's \<Rightarrow> codec_error + 's" where
  "io_write w (writen1 b) s = io_writen1 w b s"
| "io_write w (writen2 b b') s = or_error (io_writen1 w b s) (io_writen1 w b')"
| "io_write w (writeUint16 v) s = io_writeb w (PutUint16 v) s"
| "io_write w (writeUint32 v) s = io_writeb w (PutUint32 v) s"
| "io_write w (writeUint64 v) s = io_writeb w (PutUint64 v) s"
| "io_write w (writeb bs) s = io_writeb w bs s"
| "io_write w (writestr bs) s = check_count bs (simple_WriteString w bs s)"

primrec io_writes :: "'s io_writer \<Rightarrow> write_call list \<Rightarrow> 's \<Rightarrow> codec_error + 's" where
  "io_writes w [] s = Inr s"
| "io_writes w (c # cs) s = or_error (io_write w c s) (io_writes w cs)"

text \<open>The slices of the byte writer are in order, and its output is what was written.\<close>

definition writer_ok :: "bytesEncWriter \<Rightarrow> bool" where
  "writer_ok z \<longleftrightarrow> cursor z \<le> blen z \<and> blen z \<le> length (backing z)"

lemma grow_ok:
  assumes "writer_ok z"
  shows "writer_ok (grow n z)" "cursor (grow n z) = cursor z + n" "cursor z + n \<le> blen (grow n z)"
    "take (cursor z) (backing (grow n z)) = take (cursor z) (backing z)"
  using assms by (simp_all add: grow_def writer_ok_def Let_def)

lemma set_bytes_done:
  assumes "i + length bs \<le> blen z" "blen z \<le> length (backing z)"
  shows "set_bytes i bs z = Done (z\<lparr>backing := take i (backing z) @ bs @ drop (i + length bs) (backing z)\<rparr>)"
  using assms
proof (induction bs arbitrary: i z)
  case (Cons b bs)
  let ?z = "z\<lparr>backing := (backing z)[i := b]\<rparr>"
  have "set_bytes (Suc i) bs ?z =
      Done (?z\<lparr>backing := take (Suc i) ((backing z)[i := b]) @ bs @ drop (Suc i + length bs) ((backing z)[i := b])\<rparr>)"
    using Cons.IH [of "Suc i" ?z] Cons.prems by simp
  moreover have "take (Suc i) ((backing z)[i := b]) = take i (backing z) @ [b]"
    using Cons.prems by (simp add: take_Suc_conv_app_nth)
  ultimately show ?case using Cons.prems by (simp add: set_byte_def)
qed simp

lemma set_grown:
  assumes "writer_ok z"
  shows "\<exists>z'. set_bytes (cursor z) bs (grow (length bs) z) = Done z' \<and> writer_ok z' \<and> atEndOfEncode z' = atEndOfEncode z @ bs"
proof -
  let ?g = "grow (length bs) z"
  note g = grow_ok [OF assms, of "length bs"]
  have le: "cursor z + length bs \<le> blen ?g" "blen ?g \<le> length (backing ?g)" using g(1,3) by (simp_all add: writer_ok_def)
  have len: "min (length (backing ?g)) (cursor z) = cursor z" using le by simp
  let ?z = "?g\<lparr>backing := take (cursor z) (backing ?g) @ bs @ drop (cursor z + length bs) (backing ?g)\<rparr>"
  have "writer_ok ?z" using le g(2) by (simp add: writer_ok_def)
  moreover have "atEndOfEncode ?z = atEndOfEncode z @ bs"
    using g(2,4) len assms le by (simp add: atEndOfEncode_def writer_ok_def)
  ultimately show ?thesis using set_bytes_done [OF le] by blast
qed

lemma copy_grown:
  assumes "writer_ok z"
  shows "copy_at (cursor z) bs (grow (length bs) z) = set_bytes (cursor z) bs (grow (length bs) z)"
  using grow_ok(3) [OF assms, of "length bs"] by (simp add: copy_at_def)

lemma ucast_drop_bit: "(ucast (drop_bit n v) :: byte) = of_nat (unat v div 2 ^ n)"
proof -
  have "unat (drop_bit n v) = unat v div 2 ^ n"
    by (simp add: unat_drop_bit_eq drop_bit_eq_div [where 'a = nat])
  then have "unat (ucast (drop_bit n v) :: byte) = unat v div 2 ^ n mod 256"
    by (simp add: unsigned_ucast_eq take_bit_eq_mod [where 'a = nat])
  then show ?thesis by (simp add: word_unat_eq_iff unat_of_nat)
qed

lemma ucast_byte: "(ucast v :: byte) = of_nat (unat v)"
  using ucast_drop_bit [of 0 v] by simp

lemma put_be_unfold:
  "put_be 2 v = [of_nat (v div 2 ^ 8), of_nat v]"
  "put_be 4 v = [of_nat (v div 2 ^ 24), of_nat (v div 2 ^ 16), of_nat (v div 2 ^ 8), of_nat v]"
  "put_be 8 v = [of_nat (v div 2 ^ 56), of_nat (v div 2 ^ 48), of_nat (v div 2 ^ 40), of_nat (v div 2 ^ 32),
     of_nat (v div 2 ^ 24), of_nat (v div 2 ^ 16), of_nat (v div 2 ^ 8), of_nat v]"
proof -
  have n: "2 = Suc (Suc 0)" "4 = Suc (Suc (Suc (Suc 0)))" "8 = Suc (Suc (Suc (Suc (Suc (Suc (Suc (Suc 0)))))))" by simp_all
  show "put_be 2 v = [of_nat (v div 2 ^ 8), of_nat v]"
    by (subst n(1), simp only: put_be.simps append.simps) simp
  show "put_be 4 v = [of_nat (v div 2 ^ 24), of_nat (v div 2 ^ 16), of_nat (v div 2 ^ 8), of_nat v]"
    by (subst n(2), simp only: put_be.simps append.simps) (simp add: div_mult2_eq [symmetric])
  show "put_be 8 v = [of_nat (v div 2 ^ 56), of_nat (v div 2 ^ 48), of_nat (v div 2 ^ 40), of_nat (v div 2 ^ 32),
     of_nat (v div 2 ^ 24), of_nat (v div 2 ^ 16), of_nat (v div 2 ^ 8), of_nat v]"
    by (subst n(3), simp only: put_be.simps append.simps) (simp add: div_mult2_eq [symmetric])
qed

lemma shifts_PutUint:
  "[ucast (drop_bit 8 v), ucast v] = PutUint16 v"
  "[ucast (drop_bit 24 w), ucast (drop_bit 16 w), ucast (drop_bit 8 w), ucast w] = PutUint32 w"
  "[ucast (drop_bit 56 x), ucast (drop_bit 48 x), ucast (drop_bit 40 x), ucast (drop_bit 32 x),
    ucast (drop_bit 24 x), ucast (drop_bit 16 x), ucast (drop_bit 8 x), ucast x] = PutUint64 x"
  by (simp_all only: PutUint16_def PutUint32_def PutUint64_def put_be_unfold ucast_drop_bit)
    (simp_all only: ucast_byte)

lemma bytes_write_ok:
  assumes "writer_ok z"
  shows "\<exists>z'. bytes_write c z = Done z' \<and> writer_ok z' \<and> atEndOfEncode z' = atEndOfEncode z @ written c"
proof (cases c)
  case (writen1 b)
  then show ?thesis using set_grown [OF assms, of "[b]"] by simp
next
  case (writen2 b b')
  then show ?thesis using set_grown [OF assms, of "[b, b']"] by (simp add: numeral_2_eq_2)
next
  case (writeUint16 v)
  then show ?thesis using set_grown [OF assms, of "PutUint16 v"] by (simp add: shifts_PutUint)
next
  case (writeUint32 v)
  then show ?thesis using set_grown [OF assms, of "PutUint32 v"] by (simp add: shifts_PutUint)
next
  case (writeUint64 v)
  then show ?thesis using set_grown [OF assms, of "PutUint64 v"] by (simp add: shifts_PutUint)
next
  case (writeb bs)
  then show ?thesis using set_grown [OF assms, of bs] assms by (simp add: copy_grown)
next
  case (writestr bs)
  then show ?thesis using set_grown [OF assms, of bs] assms by (simp add: copy_grown)
qed

lemma bytes_writes_ok:
  "writer_ok z \<Longrightarrow> \<exists>z'. bytes_writes cs z = Done z' \<and> writer_ok z' \<and> atEndOfEncode z' = atEndOfEncode z @ all_written cs"
proof (induction cs arbitrary: z)
  case (Cons c cs)
  obtain z1 where "bytes_write c z = Done z1" "writer_ok z1" "atEndOfEncode z1 = atEndOfEncode z @ written c"
    using bytes_write_ok [OF Cons.prems] by blast
  then show ?case using Cons.IH [of z1] by auto
qed simp

text \<open>An \<^verbatim>\<open>io.Writer\<close> that writes everything it is given; \<open>got\<close> is what it has received.\<close>

definition good_writer :: "'s io_writer \<Rightarrow> ('s \<Rightarrow> bytes) \<Rightarrow> bool" where
  "good_writer w got \<longleftrightarrow>
     (\<forall>bs s. \<exists>s'. io_Write w bs s = (int (length bs), None, s') \<and> got s' = got s @ bs) \<and>
     (\<forall>f b s. io_WriteByte w = Some f \<longrightarrow> (\<exists>s'. f b s = (None, s') \<and> got s' = got s @ [b])) \<and>
     (\<forall>f bs s. io_WriteString w = Some f \<longrightarrow> (\<exists>s'. f bs s = (int (length bs), None, s') \<and> got s' = got s @ bs))"

lemma io_write_ok:
  assumes "good_writer w got"
  shows "\<exists>s'. io_write w c s = Inr s' \<and> got s' = got s @ written c"
proof -
  have Write: "\<exists>s'. io_Write w bs s = (int (length bs), None, s') \<and> got s' = got s @ bs" for bs s
    using assms by (simp add: good_writer_def)
  have one: "\<exists>s'. io_writen1 w b s = Inr s' \<and> got s' = got s @ [b]" for b s
  proof (cases "io_WriteByte w")
    case None
    then show ?thesis using Write [of "[b]" s] by (auto simp: io_writen1_def simple_WriteByte_def)
  next
    case (Some f)
    then have "\<exists>s'. f b s = (None, s') \<and> got s' = got s @ [b]" using assms by (simp add: good_writer_def)
    then show ?thesis using Some by (auto simp: io_writen1_def simple_WriteByte_def)
  qed
  have many: "\<exists>s'. io_writeb w bs s = Inr s' \<and> got s' = got s @ bs" for bs s
    using Write [of bs s] by (auto simp: io_writeb_def check_count_def)
  have string: "\<exists>s'. check_count bs (simple_WriteString w bs s) = Inr s' \<and> got s' = got s @ bs" for bs
  proof (cases "io_WriteString w")
    case None
    then show ?thesis using Write [of bs s] by (auto simp: simple_WriteString_def check_count_def)
  next
    case (Some f)
    then have "\<exists>s'. f bs s = (int (length bs), None, s') \<and> got s' = got s @ bs" using assms by (simp add: good_writer_def)
    then show ?thesis using Some by (auto simp: simple_WriteString_def check_count_def)
  qed
  show ?thesis
  proof (cases c)
    case (writen2 b b')
    obtain s1 where "io_writen1 w b s = Inr s1" "got s1 = got s @ [b]" using one by blast
    then show ?thesis using one [of b' s1] writen2 by auto
  qed (use one many string in simp_all)
qed

lemma io_writes_ok:
  "good_writer w got \<Longrightarrow> \<exists>s'. io_writes w cs s = Inr s' \<and> got s' = got s @ all_written cs"
proof (induction cs arbitrary: s)
  case (Cons c cs)
  obtain s1 where "io_write w c s = Inr s1" "got s1 = got s @ written c" using io_write_ok [OF Cons.prems] by blast
  then show ?case using Cons.IH [OF Cons.prems, of s1] by auto
qed simp

text \<open>
  C29. The two writers.  Whatever a driver writes, the byte writer never leaves its array and ends with
  exactly those bytes, whatever buffer it was given; a writer that takes all it is given receives the
  same bytes, whether it has methods for single bytes and strings or not.
\<close>

theorem codec_writers:
  assumes "case buf of None \<Rightarrow> True | Some (b, n) \<Rightarrow> n \<le> length b" "good_writer w got"
  shows "\<exists>z s'. bytes_writes cs (new_bytes_writer buf) = Done z \<and> atEndOfEncode z = all_written cs \<and>
    io_writes w cs s = Inr s' \<and> got s' = got s @ atEndOfEncode z"
proof -
  have "writer_ok (new_bytes_writer buf)" "atEndOfEncode (new_bytes_writer buf) = []"
    using assms(1) by (auto simp: new_bytes_writer_def writer_ok_def atEndOfEncode_def split: option.splits)
  then obtain z where "bytes_writes cs (new_bytes_writer buf) = Done z" "atEndOfEncode z = all_written cs"
    using bytes_writes_ok by fastforce
  then show ?thesis using io_writes_ok [OF assms(2), of cs s] by auto
qed

theorem codec_writers_witness:
  "\<exists>z. bytes_writes [writen1 0xcd, writeUint16 0x1234, writestr [1, 2, 3]] (new_bytes_writer (Some ([7, 8], 1))) = Done z \<and>
    atEndOfEncode z = 0xcd # PutUint16 0x1234 @ [1, 2, 3]"
proof -
  define w :: "bytes io_writer" where
    "w = \<lparr>io_Write = \<lambda>bs s. (int (length bs), None, s @ bs), io_WriteByte = None, io_WriteString = None\<rparr>"
  have "good_writer w (\<lambda>s. s)" by (simp add: good_writer_def w_def)
  then obtain z where "bytes_writes [writen1 0xcd, writeUint16 0x1234, writestr [1, 2, 3]] (new_bytes_writer (Some ([7, 8], 1))) = Done z"
    "atEndOfEncode z = all_written [writen1 0xcd, writeUint16 0x1234, writestr [1, 2, 3]]"
    using codec_writers [of "Some ([7, 8], 1)" w "\<lambda>s. s" "[writen1 0xcd, writeUint16 0x1234, writestr [1, 2, 3]]" "[]"]
    by auto
  then show ?thesis by simp
qed

section \<open>Readers\<close>

text \<open>What a driver asks of its reader; \<open>readb\<close> gives the bytes that fill a slice of a length.\<close>

record 'r decReader =
  readn :: "int \<Rightarrow> 'r \<Rightarrow> codec_error + (bytes \<times> 'r)"
  readb :: "nat \<Rightarrow> 'r \<Rightarrow> codec_error + (bytes \<times> 'r)"
  readn1 :: "'r \<Rightarrow> codec_error + (byte \<times> 'r)"
  readUint16 :: "'r \<Rightarrow> codec_error + (uint16 \<times> 'r)"
  readUint32 :: "'r \<Rightarrow> codec_error + (uint32 \<times> 'r)"
  readUint64 :: "'r \<Rightarrow> codec_error + (uint64 \<times> 'r)"

text \<open>\<^verbatim>\<open>bytesDecReader\<close>: the data, the cursor and the number of bytes that are left.\<close>

record bytesDecReader =
  rdata :: bytes
  rcursor :: nat
  available :: nat

definition new_bytes_reader :: "bytes \<Rightarrow> bytesDecReader" where
  "new_bytes_reader b = \<lparr>rdata = b, rcursor = 0, available = length b\<rparr>"

definition consume :: "nat \<Rightarrow> bytesDecReader \<Rightarrow> codec_error + (nat \<times> bytesDecReader)" where
  "consume n z =
     (if available z = 0 then Inl EOF
      else if available z < n then Inl (DecError ''Trying to read %v bytes. Only %v available'')
      else Inr (rcursor z, z\<lparr>rcursor := rcursor z + n, available := available z - n\<rparr>))"

definition bytes_readn :: "int \<Rightarrow> bytesDecReader \<Rightarrow> codec_error + (bytes \<times> bytesDecReader)" where
  "bytes_readn n z =
     (if n \<le> 0 then Inr ([], z)
      else or_error (consume (nat n) z) (\<lambda>(c0, z). Inr (take (rcursor z - c0) (drop c0 (rdata z)), z)))"

definition bytes_readb :: "nat \<Rightarrow> bytesDecReader \<Rightarrow> codec_error + (bytes \<times> bytesDecReader)" where
  "bytes_readb n z = bytes_readn (int n) z"

definition bytes_readn1 :: "bytesDecReader \<Rightarrow> codec_error + (byte \<times> bytesDecReader)" where
  "bytes_readn1 z = or_error (consume 1 z) (\<lambda>(c0, z). Inr (rdata z ! c0, z))"

definition bytes_readUint16 :: "bytesDecReader \<Rightarrow> codec_error + (uint16 \<times> bytesDecReader)" where
  "bytes_readUint16 z =
     or_error (consume 2 z) (\<lambda>(c0, z).
       Inr (ucast (rdata z ! (c0 + 1)) OR push_bit 8 (ucast (rdata z ! c0)), z))"

definition bytes_readUint32 :: "bytesDecReader \<Rightarrow> codec_error + (uint32 \<times> bytesDecReader)" where
  "bytes_readUint32 z =
     or_error (consume 4 z) (\<lambda>(c0, z). Inr (be_Uint32 (take (rcursor z - c0) (drop c0 (rdata z))), z))"

definition bytes_readUint64 :: "bytesDecReader \<Rightarrow> codec_error + (uint64 \<times> bytesDecReader)" where
  "bytes_readUint64 z =
     or_error (consume 8 z) (\<lambda>(c0, z). Inr (be_Uint64 (take (rcursor z - c0) (drop c0 (rdata z))), z))"

definition bytes_decReader :: "bytesDecReader decReader" where
  "bytes_decReader = \<lparr>readn = bytes_readn, readb = bytes_readb, readn1 = bytes_readn1,
     readUint16 = bytes_readUint16, readUint32 = bytes_readUint32, readUint64 = bytes_readUint64\<rparr>"

text \<open>
  \<^verbatim>\<open>ioDecReader\<close> reads from an \<^verbatim>\<open>io.Reader\<close>, here the pieces that one \<^verbatim>\<open>Read\<close> after the other gives, as
  far as there is room; after the last one it is at the end.  \<open>at_least\<close> is \<^verbatim>\<open>io.ReadAtLeast\<close> into a
  slice that it has to fill.
\<close>

fun at_least :: "nat \<Rightarrow> bytes \<Rightarrow> bytes list \<Rightarrow> codec_error + (bytes \<times> bytes list)" where
  "at_least n got segs =
     (if n = 0 then Inr (got, segs)
      else
        (case segs of
           [] \<Rightarrow> Inl (if got = [] then EOF else UnexpectedEOF)
         | s # segs' \<Rightarrow>
             if length s \<le> n then at_least (n - length s) (got @ s) segs'
             else Inr (got @ take n s, drop n s # segs')))"

declare at_least.simps [simp del]

definition io_readb :: "nat \<Rightarrow> bytes list \<Rightarrow> codec_error + (bytes \<times> bytes list)" where
  "io_readb n segs = at_least n [] segs"

definition io_readn :: "int \<Rightarrow> bytes list \<Rightarrow> codec_error + (bytes \<times> bytes list)" where
  "io_readn n segs = (if n \<le> 0 then Inr ([], segs) else io_readb (nat n) segs)"

definition io_readn1 :: "bytes list \<Rightarrow> codec_error + (byte \<times> bytes list)" where
  "io_readn1 segs = or_error (io_readb 1 segs) (\<lambda>(x, segs). Inr (x ! 0, segs))"

definition io_readUint16 :: "bytes list \<Rightarrow> codec_error + (uint16 \<times> bytes list)" where
  "io_readUint16 segs = or_error (io_readb 2 segs) (\<lambda>(x, segs). Inr (be_Uint16 x, segs))"

definition io_readUint32 :: "bytes list \<Rightarrow> codec_error + (uint32 \<times> bytes list)" where
  "io_readUint32 segs = or_error (io_readb 4 segs) (\<lambda>(x, segs). Inr (be_Uint32 x, segs))"

definition io_readUint64 :: "bytes list \<Rightarrow> codec_error + (uint64 \<times> bytes list)" where
  "io_readUint64 segs = or_error (io_readb 8 segs) (\<lambda>(x, segs). Inr (be_Uint64 x, segs))"

definition io_decReader :: "bytes list decReader" where
  "io_decReader = \<lparr>readn = io_readn, readb = io_readb, readn1 = io_readn1,
     readUint16 = io_readUint16, readUint32 = io_readUint32, readUint64 = io_readUint64\<rparr>"

text \<open>
  What the drivers rely on: \<open>left\<close> is what is left to read, and every call takes its bytes from the
  front, or fails if there are too few.
\<close>

locale byte_source =
  fixes rd :: "'r decReader" and ok :: "'r \<Rightarrow> bool" and left :: "'r \<Rightarrow> bytes"
  assumes readn_some: "ok r \<Longrightarrow> 0 < n \<Longrightarrow> nat n \<le> length (left r) \<Longrightarrow>
      \<exists>r'. readn rd n r = Inr (take (nat n) (left r), r') \<and> ok r' \<and> left r' = drop (nat n) (left r)"
    and readn_none: "n \<le> 0 \<Longrightarrow> readn rd n r = Inr ([], r)"
    and readn_short: "ok r \<Longrightarrow> 0 < n \<Longrightarrow> length (left r) < nat n \<Longrightarrow> \<exists>e. readn rd n r = Inl e \<and> e \<noteq> NoFuel"
    and readb_readn: "ok r \<Longrightarrow> readb rd k r = readn rd (int k) r"
    and readn1_readn: "ok r \<Longrightarrow> readn1 rd r = or_error (readn rd 1 r) (\<lambda>(x, r). Inr (x ! 0, r))"
    and readUint16_readn: "ok r \<Longrightarrow> readUint16 rd r = or_error (readn rd 2 r) (\<lambda>(x, r). Inr (be_Uint16 x, r))"
    and readUint32_readn: "ok r \<Longrightarrow> readUint32 rd r = or_error (readn rd 4 r) (\<lambda>(x, r). Inr (be_Uint32 x, r))"
    and readUint64_readn: "ok r \<Longrightarrow> readUint64 rd r = or_error (readn rd 8 r) (\<lambda>(x, r). Inr (be_Uint64 x, r))"

context byte_source begin

lemma readn_front:
  assumes "ok r" "left r = bs @ rest"
  shows "\<exists>r'. readn rd (int (length bs)) r = Inr (bs, r') \<and> ok r' \<and> left r' = rest"
proof (cases "bs = []")
  case True
  then show ?thesis using assms readn_none [of 0 r] by simp
next
  case False
  then show ?thesis using readn_some [of r "int (length bs)"] assms by simp
qed

lemma readb_front:
  assumes "ok r" "left r = bs @ rest"
  shows "\<exists>r'. readb rd (length bs) r = Inr (bs, r') \<and> ok r' \<and> left r' = rest"
  using readn_front [OF assms] readb_readn [OF assms(1)] by simp

lemma readn1_front:
  assumes "ok r" "left r = b # rest"
  shows "\<exists>r'. readn1 rd r = Inr (b, r') \<and> ok r' \<and> left r' = rest"
  using readn_front [of r "[b]" rest] readn1_readn [OF assms(1)] assms by auto

lemma readUint_front:
  assumes "ok r"
  shows "left r = PutUint16 v @ rest \<Longrightarrow> \<exists>r'. readUint16 rd r = Inr (v, r') \<and> ok r' \<and> left r' = rest"
    "left r = PutUint32 w @ rest \<Longrightarrow> \<exists>r'. readUint32 rd r = Inr (w, r') \<and> ok r' \<and> left r' = rest"
    "left r = PutUint64 x @ rest \<Longrightarrow> \<exists>r'. readUint64 rd r = Inr (x, r') \<and> ok r' \<and> left r' = rest"
  using readn_front [OF assms, of "PutUint16 v" rest] readn_front [OF assms, of "PutUint32 w" rest]
    readn_front [OF assms, of "PutUint64 x" rest] readUint16_readn [OF assms] readUint32_readn [OF assms] readUint64_readn [OF assms]
  by auto

end

lemma or_byte_shift: "(ucast a OR push_bit 8 (ucast b) :: uint16) = be_Uint16 [b, a]"
proof -
  have "(ucast a OR push_bit 8 (ucast b) :: uint16) = ucast a + push_bit 8 (ucast b)"
    by (rule disjunctive_add [symmetric]) (auto simp: bit_simps dest!: bit_imp_le_length)
  also have "\<dots> = be_Uint16 [b, a]"
    by (simp add: be_Uint16_def be_nat_Cons push_bit_eq_mult)
  finally show ?thesis .
qed

interpretation bytes_source: byte_source bytes_decReader
  "\<lambda>z. rcursor z + available z = length (rdata z)" "\<lambda>z. drop (rcursor z) (rdata z)"
proof unfold_locales
  fix r :: bytesDecReader and n :: int
  assume "rcursor r + available r = length (rdata r)" "0 < n"
  then show "nat n \<le> length (drop (rcursor r) (rdata r)) \<Longrightarrow>
      \<exists>r'. readn bytes_decReader n r = Inr (take (nat n) (drop (rcursor r) (rdata r)), r') \<and>
        rcursor r' + available r' = length (rdata r') \<and>
        drop (rcursor r') (rdata r') = drop (nat n) (drop (rcursor r) (rdata r))"
    "length (drop (rcursor r) (rdata r)) < nat n \<Longrightarrow> \<exists>e. readn bytes_decReader n r = Inl e \<and> e \<noteq> NoFuel"
    by (auto simp: bytes_decReader_def bytes_readn_def consume_def add.commute)
qed (auto simp: bytes_decReader_def bytes_readn_def bytes_readb_def bytes_readn1_def bytes_readUint16_def bytes_readUint32_def
    bytes_readUint64_def consume_def or_byte_shift take_Suc_conv_app_nth hd_drop_conv_nth numeral_2_eq_2)

lemma at_least_enough:
  "n \<le> length (concat segs) \<Longrightarrow>
    \<exists>segs'. at_least n got segs = Inr (got @ take n (concat segs), segs') \<and> concat segs' = drop n (concat segs)"
proof (induction segs arbitrary: n got)
  case Nil
  then show ?case by (subst at_least.simps) simp
next
  case (Cons s segs)
  show ?case
  proof (cases "n = 0 \<or> length s > n")
    case True
    then show ?thesis by (subst at_least.simps) auto
  next
    case False
    then show ?thesis using Cons.IH [of "n - length s" "got @ s"] Cons.prems by (subst at_least.simps) auto
  qed
qed

lemma at_least_short:
  "length (concat segs) < n \<Longrightarrow> \<exists>e. at_least n got segs = Inl e \<and> e \<noteq> NoFuel"
proof (induction segs arbitrary: n got)
  case Nil
  then show ?case by (subst at_least.simps) simp
next
  case (Cons s segs)
  then show ?case by (subst at_least.simps) simp
qed

interpretation io_source: byte_source io_decReader "\<lambda>_. True" concat
proof unfold_locales
  fix r :: "bytes list" and n :: int
  assume "0 < n"
  then show "nat n \<le> length (concat r) \<Longrightarrow>
      \<exists>r'. readn io_decReader n r = Inr (take (nat n) (concat r), r') \<and> True \<and> concat r' = drop (nat n) (concat r)"
    "length (concat r) < nat n \<Longrightarrow> \<exists>e. readn io_decReader n r = Inl e \<and> e \<noteq> NoFuel"
    using at_least_enough [of "nat n" r "[]"] at_least_short [of r "nat n" "[]"]
    by (auto simp: io_decReader_def io_readn_def io_readb_def)
qed (auto simp: io_decReader_def io_readn_def io_readb_def io_readn1_def io_readUint16_def io_readUint32_def io_readUint64_def
    at_least.simps [of 0])

end
