(* ===== verification/Codec_Driver.thy ===== *)
theory Codec_Driver
  imports Codec_IO
begin

text \<open>
  What the codecs of \<^verbatim>\<open>go-msgpack/codec\<close> share: the values they encode, the kinds of values in a
  stream, floating point numbers as their bits, the checks for overflow (\<^verbatim>\<open>helper.go\<close>), and the
  interfaces \<^verbatim>\<open>encDriver\<close> and \<^verbatim>\<open>decDriver\<close> as records of operations on the state of a driver.
\<close>

section \<open>Values\<close>

datatype charEncoding = c_RAW | c_UTF8

datatype valueType =
    valueTypeUnset | valueTypeNil | valueTypeInt | valueTypeUint | valueTypeFloat | valueTypeBool
  | valueTypeString | valueTypeSymbol | valueTypeBytes | valueTypeMap | valueTypeArray
  | valueTypeTimestamp | valueTypeExt | valueTypeInvalid

text \<open>A time: seconds of the Unix epoch, nanoseconds, and the offset of its zone in seconds, or UTC.\<close>

datatype go_time = GoTime (unix_secs: uint64) (unix_nsecs: nat) (zone_offset: "int option")

text \<open>
  The values of an \<^verbatim>\<open>interface{}\<close>.  All signed integers are \<open>VInt\<close> with their 64 bits, all unsigned
  ones \<open>VUint\<close>; floating point numbers are their bits.  Maps are lists of their entries in the order
  in which Go visits them.  A slice or a map that is nil is taken for an empty one, except in an
  extension.
\<close>

datatype val =
    VNil
  | VBool bool
  | VInt uint64
  | VUint uint64
  | VFloat32 uint32
  | VFloat64 uint64
  | VString bytes
  | VBytes bytes
  | VRawExt byte "bytes option"
  | VTime go_time
  | VSlice "val list"
  | VStrings "bytes list"
  | VInt64s "uint64 list"
  | VUint64s "uint64 list"
  | VMap "(val \<times> val) list"
  | VMapStrIntf "(bytes \<times> val) list"
  | VMapStrStr "(bytes \<times> bytes) list"
  | VMapInt64 "(uint64 \<times> val) list"
  | VMapUint64 "(uint64 \<times> val) list"

text \<open>What \<^verbatim>\<open>decodeNaked\<close> returns: a value, or the kind of what is still to be decoded.\<close>

datatype naked = Decoded valueType val | Further valueType

section \<open>Floating point numbers\<close>

fun top_bit :: "nat \<Rightarrow> nat" where
  "top_bit n = (if n < 2 then 0 else Suc (top_bit (n div 2)))"

declare top_bit.simps [simp del]

definition float_bits :: "nat \<Rightarrow> nat \<Rightarrow> nat \<Rightarrow> uint64" where
  "float_bits s e m = of_nat (s * 2 ^ 63 + e * 2 ^ 52 + m)"

text \<open>\<^verbatim>\<open>float64\<close> of a \<^verbatim>\<open>float32\<close>; a signalling NaN becomes a quiet one.\<close>

definition widen32 :: "uint32 \<Rightarrow> uint64" where
  "widen32 b =
     (let x = unat b; s = x div 2 ^ 31; e = x div 2 ^ 23 mod 256; m = x mod 2 ^ 23 in
      if e = 255 then float_bits s 2047 (if m = 0 \<or> 2 ^ 22 \<le> m then m * 2 ^ 29 else m * 2 ^ 29 + 2 ^ 51)
      else if e = 0 then
        (if m = 0 then float_bits s 0 0
         else let k = top_bit m in float_bits s (k + 874) ((m - 2 ^ k) * 2 ^ (52 - k)))
      else float_bits s (e + 896) (m * 2 ^ 29))"

text \<open>\<^verbatim>\<open>float64\<close> of an \<^verbatim>\<open>int64\<close>, rounded to the nearest, to even in the middle.\<close>

definition int64_to_float :: "uint64 \<Rightarrow> uint64" where
  "int64_to_float i =
     (let s = (if sint i < 0 then 1 else 0); n = nat \<bar>sint i\<bar>; k = top_bit n in
      if n = 0 then 0
      else if k \<le> 52 then float_bits s (k + 1023) ((n - 2 ^ k) * 2 ^ (52 - k))
      else
        let d = 2 ^ (k - 52); q = n div d; r = n mod d;
            q = (if d < 2 * r \<or> (d = 2 * r \<and> odd q) then q + 1 else q)
        in float_bits s (k + 1023) (q - 2 ^ 52))"

definition checkOverflowFloat32 :: "uint64 \<Rightarrow> bool \<Rightarrow> codec_error + unit" where
  "checkOverflowFloat32 f doCheck =
     (let f2 = f AND 0x7FFFFFFFFFFFFFFF in
      if doCheck \<and> 0x47EFFFFFE0000000 < f2 \<and> f2 \<le> 0x7FEFFFFFFFFFFFFF
      then Inl (DecError ''Overflow float32 value: %v'') else Inr ())"

text \<open>A number that a type of so many bits does not hold changes when it is shifted out and back.\<close>

definition trunc_int :: "nat \<Rightarrow> uint64 \<Rightarrow> uint64" where
  "trunc_int n i = signed_drop_bit (64 - n) (push_bit (64 - n) i)"

definition trunc_uint :: "nat \<Rightarrow> uint64 \<Rightarrow> uint64" where
  "trunc_uint n u = drop_bit (64 - n) (push_bit (64 - n) u)"

definition checkOverflow :: "uint64 \<Rightarrow> uint64 \<Rightarrow> nat \<Rightarrow> codec_error + unit" where
  "checkOverflow ui i bitsize =
     (if bitsize = 0 then Inr ()
      else if i \<noteq> 0 \<and> i \<noteq> trunc_int bitsize i then Inl (DecError ''Overflow int value: %v'')
      else if ui \<noteq> 0 \<and> ui \<noteq> trunc_uint bitsize ui then Inl (DecError ''Overflow uint value: %v'')
      else Inr ())"

definition intBitsize :: nat where
  "intBitsize = 64"

lemma trunc_64 [simp]: "trunc_int 64 i = i" "trunc_uint 64 u = u"
  by (simp_all add: trunc_int_def trunc_uint_def)

lemma checkOverflow_64 [simp]: "checkOverflow ui i 64 = Inr ()" "checkOverflow ui i 0 = Inr ()"
  by (simp_all add: checkOverflow_def)

section \<open>Drivers\<close>

record 'e encDriver =
  encodeNil :: "'e \<Rightarrow> 'e"
  encodeInt :: "uint64 \<Rightarrow> 'e \<Rightarrow> 'e"
  encodeUint :: "uint64 \<Rightarrow> 'e \<Rightarrow> 'e"
  encodeBool :: "bool \<Rightarrow> 'e \<Rightarrow> 'e"
  encodeFloat32 :: "uint32 \<Rightarrow> 'e \<Rightarrow> 'e"
  encodeFloat64 :: "uint64 \<Rightarrow> 'e \<Rightarrow> 'e"
  encodeExtPreamble :: "byte \<Rightarrow> nat \<Rightarrow> 'e \<Rightarrow> 'e"
  encodeArrayPreamble :: "nat \<Rightarrow> 'e \<Rightarrow> 'e"
  encodeMapPreamble :: "nat \<Rightarrow> 'e \<Rightarrow> 'e"
  encodeString :: "charEncoding \<Rightarrow> bytes \<Rightarrow> 'e \<Rightarrow> 'e"
  encodeSymbol :: "bytes \<Rightarrow> 'e \<Rightarrow> 'e"
  encodeStringBytes :: "charEncoding \<Rightarrow> bytes \<Rightarrow> 'e \<Rightarrow> 'e"
  encodeTime :: "(go_time \<Rightarrow> 'e \<Rightarrow> 'e) option"
  write_to :: "write_call \<Rightarrow> 'e \<Rightarrow> 'e"
  writeExt :: bool

text \<open>
  \<^verbatim>\<open>decodeBytes\<close> gets a slice and returns a new one, or nil, and whether it changed; the third component
  is what the given slice holds afterwards.
\<close>

record 'd decDriver =
  initReadNext :: "'d \<Rightarrow> codec_error + 'd"
  tryDecodeAsNil :: "'d \<Rightarrow> bool \<times> 'd"
  currentEncodedType :: "'d \<Rightarrow> codec_error + (valueType \<times> 'd)"
  decodeNaked :: "'d \<Rightarrow> codec_error + (naked \<times> 'd)"
  decodeInt :: "nat \<Rightarrow> 'd \<Rightarrow> codec_error + (uint64 \<times> 'd)"
  decodeUint :: "nat \<Rightarrow> 'd \<Rightarrow> codec_error + (uint64 \<times> 'd)"
  decodeFloat :: "bool \<Rightarrow> 'd \<Rightarrow> codec_error + (uint64 \<times> 'd)"
  decodeBool :: "'d \<Rightarrow> codec_error + (bool \<times> 'd)"
  decodeString :: "'d \<Rightarrow> codec_error + (bytes \<times> 'd)"
  decodeBytes :: "bytes \<Rightarrow> 'd \<Rightarrow> codec_error + ((bytes option \<times> bool \<times> bytes) \<times> 'd)"
  decodeExt :: "byte option \<Rightarrow> 'd \<Rightarrow> codec_error + ((byte \<times> bytes) \<times> 'd)"
  readMapLen :: "'d \<Rightarrow> codec_error + (int \<times> 'd)"
  readArrayLen :: "'d \<Rightarrow> codec_error + (int \<times> 'd)"

text \<open>
  The state of a driver that decodes: its reader, the descriptor of the value that it is at, and the
  symbols it has read, which only \<^verbatim>\<open>binc\<close> has.
\<close>

record 'r dec_state =
  reader :: 'r
  bd :: byte
  bdRead :: bool
  bdType :: valueType
  symbols :: "uint32 \<rightharpoonup> bytes"

definition new_dec_state :: "'r \<Rightarrow> 'r dec_state" where
  "new_dec_state r = \<lparr>reader = r, bd = 0, bdRead = False, bdType = valueTypeUnset, symbols = Map.empty\<rparr>"

definition reading :: "('r \<Rightarrow> codec_error + ('a \<times> 'r)) \<Rightarrow> 'r dec_state \<Rightarrow> codec_error + ('a \<times> 'r dec_state)" where
  "reading f d = or_error (f (reader d)) (\<lambda>(x, r). Inr (x, d\<lparr>reader := r\<rparr>))"

definition ended :: "'r dec_state \<Rightarrow> 'r dec_state" where
  "ended d = d\<lparr>bdRead := False\<rparr>"

text \<open>The code that the drivers share word by word.\<close>

definition init_read :: "'r decReader \<Rightarrow> 'r dec_state \<Rightarrow> codec_error + 'r dec_state" where
  "init_read rd d =
     (if bdRead d then Inr d
      else or_error (reading (readn1 rd) d) (\<lambda>(b, d). Inr (d\<lparr>bd := b, bdRead := True, bdType := valueTypeUnset\<rparr>)))"

definition fill_bytes ::
  "'r decReader \<Rightarrow> int \<Rightarrow> bytes \<Rightarrow> 'r dec_state \<Rightarrow> codec_error + ((bytes option \<times> bool \<times> bytes) \<times> 'r dec_state)" where
  "fill_bytes rd clen bs d =
     (if 0 < clen then
        or_error (reading (readb rd (nat clen)) d) (\<lambda>(x, d).
          if int (length bs) \<noteq> clen
          then Inr ((Some x, True, if clen < int (length bs) then x @ drop (nat clen) bs else bs), ended d)
          else Inr ((None, False, x), ended d))
      else Inr ((None, False, bs), ended d))"

definition read_ext ::
  "'r decReader \<Rightarrow> byte option \<Rightarrow> int \<Rightarrow> 'r dec_state \<Rightarrow> codec_error + ((byte \<times> bytes) \<times> 'r dec_state)" where
  "read_ext rd tag clen d =
     or_error (reading (readn1 rd) d) (\<lambda>(xtag, d).
       if tag \<noteq> None \<and> tag \<noteq> Some xtag then Inl (DecError ''Wrong extension tag. Got %b. Expecting: %v'')
       else or_error (reading (readn rd clen) d) (\<lambda>(x, d). Inr ((xtag, x), ended d)))"

end
