(* ===== verification/Codec_Msgpack.thy ===== *)
theory Codec_Msgpack
  imports Codec_Driver
begin

text \<open>
  The MessagePack codec (\<^verbatim>\<open>msgpack.go\<close>): the driver that encodes, as the calls that it makes to its
  writer, and the driver that decodes, on a state with a reader.
\<close>

abbreviation mpNil :: byte where "mpNil \<equiv> 0xc0"
abbreviation mpFalse :: byte where "mpFalse \<equiv> 0xc2"
abbreviation mpTrue :: byte where "mpTrue \<equiv> 0xc3"
abbreviation mpFloat :: byte where "mpFloat \<equiv> 0xca"
abbreviation mpDouble :: byte where "mpDouble \<equiv> 0xcb"
abbreviation mpUint8 :: byte where "mpUint8 \<equiv> 0xcc"
abbreviation mpUint16 :: byte where "mpUint16 \<equiv> 0xcd"
abbreviation mpUint32 :: byte where "mpUint32 \<equiv> 0xce"
abbreviation mpUint64 :: byte where "mpUint64 \<equiv> 0xcf"
abbreviation mpInt8 :: byte where "mpInt8 \<equiv> 0xd0"
abbreviation mpInt16 :: byte where "mpInt16 \<equiv> 0xd1"
abbreviation mpInt32 :: byte where "mpInt32 \<equiv> 0xd2"
abbreviation mpInt64 :: byte where "mpInt64 \<equiv> 0xd3"
abbreviation mpBin8 :: byte where "mpBin8 \<equiv> 0xc4"
abbreviation mpBin16 :: byte where "mpBin16 \<equiv> 0xc5"
abbreviation mpBin32 :: byte where "mpBin32 \<equiv> 0xc6"
abbreviation mpExt8 :: byte where "mpExt8 \<equiv> 0xc7"
abbreviation mpExt16 :: byte where "mpExt16 \<equiv> 0xc8"
abbreviation mpExt32 :: byte where "mpExt32 \<equiv> 0xc9"
abbreviation mpFixExt1 :: byte where "mpFixExt1 \<equiv> 0xd4"
abbreviation mpFixExt2 :: byte where "mpFixExt2 \<equiv> 0xd5"
abbreviation mpFixExt4 :: byte where "mpFixExt4 \<equiv> 0xd6"
abbreviation mpFixExt8 :: byte where "mpFixExt8 \<equiv> 0xd7"
abbreviation mpFixExt16 :: byte where "mpFixExt16 \<equiv> 0xd8"
abbreviation mpStr8 :: byte where "mpStr8 \<equiv> 0xd9"
abbreviation mpStr16 :: byte where "mpStr16 \<equiv> 0xda"
abbreviation mpStr32 :: byte where "mpStr32 \<equiv> 0xdb"
abbreviation mpArray16 :: byte where "mpArray16 \<equiv> 0xdc"
abbreviation mpArray32 :: byte where "mpArray32 \<equiv> 0xdd"
abbreviation mpMap16 :: byte where "mpMap16 \<equiv> 0xde"
abbreviation mpMap32 :: byte where "mpMap32 \<equiv> 0xdf"

record msgpackContainerType =
  fixCutoff :: nat
  bFixMin :: byte
  b8 :: byte
  b16 :: byte
  b32 :: byte
  hasFixMin :: bool
  has8 :: bool
  has8Always :: bool

definition msgpackContainerStr :: msgpackContainerType where
  "msgpackContainerStr = \<lparr>fixCutoff = 32, bFixMin = 0xa0, b8 = mpStr8, b16 = mpStr16, b32 = mpStr32,
     hasFixMin = True, has8 = True, has8Always = False\<rparr>"

definition msgpackContainerBin :: msgpackContainerType where
  "msgpackContainerBin = \<lparr>fixCutoff = 0, bFixMin = 0, b8 = mpBin8, b16 = mpBin16, b32 = mpBin32,
     hasFixMin = False, has8 = True, has8Always = True\<rparr>"

definition msgpackContainerList :: msgpackContainerType where
  "msgpackContainerList = \<lparr>fixCutoff = 16, bFixMin = 0x90, b8 = 0, b16 = mpArray16, b32 = mpArray32,
     hasFixMin = True, has8 = False, has8Always = False\<rparr>"

definition msgpackContainerMap :: msgpackContainerType where
  "msgpackContainerMap = \<lparr>fixCutoff = 16, bFixMin = 0x80, b8 = 0, b16 = mpMap16, b32 = mpMap32,
     hasFixMin = True, has8 = False, has8Always = False\<rparr>"

record MsgpackHandle =
  RawToString :: bool
  mp_WriteExt :: bool

section \<open>Encoding\<close>

definition mp_encodeUint :: "uint64 \<Rightarrow> write_call list" where
  "mp_encodeUint i =
     (if i \<le> 127 then [writen1 (ucast i)]
      else if i \<le> 255 then [writen2 mpUint8 (ucast i)]
      else if i \<le> 65535 then [writen1 mpUint16, writeUint16 (ucast i)]
      else if i \<le> 0xFFFFFFFF then [writen1 mpUint32, writeUint32 (ucast i)]
      else [writen1 mpUint64, writeUint64 i])"

definition mp_encodeInt :: "uint64 \<Rightarrow> write_call list" where
  "mp_encodeInt i =
     (if 0 \<le> sint i then mp_encodeUint i
      else if - 32 \<le> sint i then [writen1 (ucast i)]
      else if - 128 \<le> sint i then [writen2 mpInt8 (ucast i)]
      else if - 32768 \<le> sint i then [writen1 mpInt16, writeUint16 (ucast i)]
      else if - 2147483648 \<le> sint i then [writen1 mpInt32, writeUint32 (ucast i)]
      else [writen1 mpInt64, writeUint64 i])"

definition mp_encodeBool :: "bool \<Rightarrow> write_call list" where
  "mp_encodeBool b = (if b then [writen1 mpTrue] else [writen1 mpFalse])"

definition mp_encodeFloat32 :: "uint32 \<Rightarrow> write_call list" where
  "mp_encodeFloat32 f = [writen1 mpFloat, writeUint32 f]"

definition mp_encodeFloat64 :: "uint64 \<Rightarrow> write_call list" where
  "mp_encodeFloat64 f = [writen1 mpDouble, writeUint64 f]"

definition mp_encodeExtPreamble :: "byte \<Rightarrow> nat \<Rightarrow> write_call list" where
  "mp_encodeExtPreamble xtag l =
     (if l = 1 then [writen2 mpFixExt1 xtag]
      else if l = 2 then [writen2 mpFixExt2 xtag]
      else if l = 4 then [writen2 mpFixExt4 xtag]
      else if l = 8 then [writen2 mpFixExt8 xtag]
      else if l = 16 then [writen2 mpFixExt16 xtag]
      else if l < 256 then [writen2 mpExt8 (of_nat l), writen1 xtag]
      else if l < 65536 then [writen1 mpExt16, writeUint16 (of_nat l), writen1 xtag]
      else [writen1 mpExt32, writeUint32 (of_nat l), writen1 xtag])"

definition writeContainerLen :: "MsgpackHandle \<Rightarrow> msgpackContainerType \<Rightarrow> nat \<Rightarrow> write_call list" where
  "writeContainerLen h ct l =
     (if hasFixMin ct \<and> l < fixCutoff ct then [writen1 (bFixMin ct OR of_nat l)]
      else if has8 ct \<and> l < 256 \<and> (has8Always ct \<or> mp_WriteExt h) then [writen2 (b8 ct) (of_nat l)]
      else if l < 65536 then [writen1 (b16 ct), writeUint16 (of_nat l)]
      else [writen1 (b32 ct), writeUint32 (of_nat l)])"

definition mp_encodeArrayPreamble :: "MsgpackHandle \<Rightarrow> nat \<Rightarrow> write_call list" where
  "mp_encodeArrayPreamble h l = writeContainerLen h msgpackContainerList l"

definition mp_encodeMapPreamble :: "MsgpackHandle \<Rightarrow> nat \<Rightarrow> write_call list" where
  "mp_encodeMapPreamble h l = writeContainerLen h msgpackContainerMap l"

definition mp_encodeString :: "MsgpackHandle \<Rightarrow> charEncoding \<Rightarrow> bytes \<Rightarrow> write_call list" where
  "mp_encodeString h c s =
     writeContainerLen h (if c = c_RAW \<and> mp_WriteExt h then msgpackContainerBin else msgpackContainerStr) (length s) @
     (if 0 < length s then [writestr s] else [])"

definition mp_encodeStringBytes :: "MsgpackHandle \<Rightarrow> charEncoding \<Rightarrow> bytes \<Rightarrow> write_call list" where
  "mp_encodeStringBytes h c bs =
     writeContainerLen h (if c = c_RAW \<and> mp_WriteExt h then msgpackContainerBin else msgpackContainerStr) (length bs) @
     (if 0 < length bs then [writeb bs] else [])"

definition mp_encodeSymbol :: "MsgpackHandle \<Rightarrow> bytes \<Rightarrow> write_call list" where
  "mp_encodeSymbol h v = mp_encodeString h c_UTF8 v"

definition msgpackEncDriver :: "MsgpackHandle \<Rightarrow> write_call list encDriver" where
  "msgpackEncDriver h =
     \<lparr>encodeNil = \<lambda>w. w @ [writen1 mpNil],
      encodeInt = \<lambda>i w. w @ mp_encodeInt i,
      encodeUint = \<lambda>i w. w @ mp_encodeUint i,
      encodeBool = \<lambda>b w. w @ mp_encodeBool b,
      encodeFloat32 = \<lambda>f w. w @ mp_encodeFloat32 f,
      encodeFloat64 = \<lambda>f w. w @ mp_encodeFloat64 f,
      encodeExtPreamble = \<lambda>t l w. w @ mp_encodeExtPreamble t l,
      encodeArrayPreamble = \<lambda>l w. w @ mp_encodeArrayPreamble h l,
      encodeMapPreamble = \<lambda>l w. w @ mp_encodeMapPreamble h l,
      encodeString = \<lambda>c s w. w @ mp_encodeString h c s,
      encodeSymbol = \<lambda>s w. w @ mp_encodeSymbol h s,
      encodeStringBytes = \<lambda>c s w. w @ mp_encodeStringBytes h c s,
      encodeTime = None,
      write_to = \<lambda>c w. w @ [c],
      writeExt = mp_WriteExt h\<rparr>"

section \<open>Decoding\<close>

definition mp_str :: "byte \<Rightarrow> bool" where
  "mp_str b \<longleftrightarrow> b = mpStr8 \<or> b = mpStr16 \<or> b = mpStr32 \<or> (0xa0 \<le> b \<and> b \<le> 0xbf)"

definition mp_bin :: "byte \<Rightarrow> bool" where
  "mp_bin b \<longleftrightarrow> b = mpBin8 \<or> b = mpBin16 \<or> b = mpBin32"

definition mp_array :: "byte \<Rightarrow> bool" where
  "mp_array b \<longleftrightarrow> b = mpArray16 \<or> b = mpArray32 \<or> (0x90 \<le> b \<and> b \<le> 0x9f)"

definition mp_map :: "byte \<Rightarrow> bool" where
  "mp_map b \<longleftrightarrow> b = mpMap16 \<or> b = mpMap32 \<or> (0x80 \<le> b \<and> b \<le> 0x8f)"

definition mp_ext :: "byte \<Rightarrow> bool" where
  "mp_ext b \<longleftrightarrow> (mpFixExt1 \<le> b \<and> b \<le> mpFixExt16) \<or> (mpExt8 \<le> b \<and> b \<le> mpExt32)"

definition mp_readExtLen :: "'r decReader \<Rightarrow> 'r dec_state \<Rightarrow> codec_error + (int \<times> 'r dec_state)" where
  "mp_readExtLen rd d =
     (if bd d = mpNil then Inr (- 1, d)
      else if bd d = mpFixExt1 then Inr (1, d)
      else if bd d = mpFixExt2 then Inr (2, d)
      else if bd d = mpFixExt4 then Inr (4, d)
      else if bd d = mpFixExt8 then Inr (8, d)
      else if bd d = mpFixExt16 then Inr (16, d)
      else if bd d = mpExt8 then or_error (reading (readn1 rd) d) (\<lambda>(n, d). Inr (uint n, d))
      else if bd d = mpExt16 then or_error (reading (readUint16 rd) d) (\<lambda>(n, d). Inr (uint n, d))
      else if bd d = mpExt32 then or_error (reading (readUint32 rd) d) (\<lambda>(n, d). Inr (uint n, d))
      else Inl (DecError ''decoding ext bytes: found unexpected byte: %x''))"

definition naked_int :: "('r dec_state \<Rightarrow> codec_error + ('a \<times> 'r dec_state)) \<Rightarrow> ('a \<Rightarrow> val) \<Rightarrow> valueType \<Rightarrow>
    'r dec_state \<Rightarrow> codec_error + (naked \<times> 'r dec_state)" where
  "naked_int f conv vt d = or_error (f d) (\<lambda>(x, d). Inr (Decoded vt (conv x), ended d))"

definition mp_decodeNaked :: "'r decReader \<Rightarrow> MsgpackHandle \<Rightarrow> 'r dec_state \<Rightarrow> codec_error + (naked \<times> 'r dec_state)" where
  "mp_decodeNaked rd h d =
     or_error (init_read rd d) (\<lambda>d.
       let b = bd d in
       if b = mpNil then Inr (Decoded valueTypeNil VNil, ended d)
       else if b = mpFalse then Inr (Decoded valueTypeBool (VBool False), ended d)
       else if b = mpTrue then Inr (Decoded valueTypeBool (VBool True), ended d)
       else if b = mpFloat then naked_int (reading (readUint32 rd)) (\<lambda>x. VFloat64 (widen32 x)) valueTypeFloat d
       else if b = mpDouble then naked_int (reading (readUint64 rd)) VFloat64 valueTypeFloat d
       else if b = mpUint8 then naked_int (reading (readn1 rd)) (\<lambda>x. VUint (ucast x)) valueTypeUint d
       else if b = mpUint16 then naked_int (reading (readUint16 rd)) (\<lambda>x. VUint (ucast x)) valueTypeUint d
       else if b = mpUint32 then naked_int (reading (readUint32 rd)) (\<lambda>x. VUint (ucast x)) valueTypeUint d
       else if b = mpUint64 then naked_int (reading (readUint64 rd)) VUint valueTypeUint d
       else if b = mpInt8 then naked_int (reading (readn1 rd)) (\<lambda>x. VInt (scast x)) valueTypeInt d
       else if b = mpInt16 then naked_int (reading (readUint16 rd)) (\<lambda>x. VInt (scast x)) valueTypeInt d
       else if b = mpInt32 then naked_int (reading (readUint32 rd)) (\<lambda>x. VInt (scast x)) valueTypeInt d
       else if b = mpInt64 then naked_int (reading (readUint64 rd)) VInt valueTypeInt d
       else if b \<le> 0x7f then Inr (Decoded valueTypeInt (VInt (scast b)), ended d)
       else if 0xe0 \<le> b then Inr (Decoded valueTypeInt (VInt (scast b)), ended d)
       else if mp_str b then Inr (Further (if RawToString h then valueTypeString else valueTypeBytes), d)
       else if mp_bin b then Inr (Further valueTypeBytes, d)
       else if mp_array b then Inr (Further valueTypeArray, d)
       else if mp_map b then Inr (Further valueTypeMap, d)
       else if mp_ext b then
         or_error (mp_readExtLen rd d) (\<lambda>(clen, d).
         or_error (reading (readn1 rd) d) (\<lambda>(tag, d).
         or_error (reading (readn rd clen) d) (\<lambda>(x, d).
           Inr (Decoded valueTypeExt (VRawExt tag (if clen \<le> 0 then None else Some x)), ended d))))
       else Inl (DecError ''Nil-Deciphered DecodeValue: %s: hex: %x, dec: %d''))"

definition mp_decodeInt :: "'r decReader \<Rightarrow> nat \<Rightarrow> 'r dec_state \<Rightarrow> codec_error + (uint64 \<times> 'r dec_state)" where
  "mp_decodeInt rd bitsize d =
     (let b = bd d in
      or_error
        (if b = mpUint8 then or_error (reading (readn1 rd) d) (\<lambda>(x, d). Inr (ucast x, d))
         else if b = mpUint16 then or_error (reading (readUint16 rd) d) (\<lambda>(x, d). Inr (ucast x, d))
         else if b = mpUint32 then or_error (reading (readUint32 rd) d) (\<lambda>(x, d). Inr (ucast x, d))
         else if b = mpUint64 then reading (readUint64 rd) d
         else if b = mpInt8 then or_error (reading (readn1 rd) d) (\<lambda>(x, d). Inr (scast x, d))
         else if b = mpInt16 then or_error (reading (readUint16 rd) d) (\<lambda>(x, d). Inr (scast x, d))
         else if b = mpInt32 then or_error (reading (readUint32 rd) d) (\<lambda>(x, d). Inr (scast x, d))
         else if b = mpInt64 then reading (readUint64 rd) d
         else if b \<le> 0x7f \<or> 0xe0 \<le> b then Inr (scast b, d)
         else Inl (DecError ''Unhandled single-byte unsigned integer value: %s: %x''))
        (\<lambda>(i, d).
          if 0 < bitsize \<and> i \<noteq> trunc_int bitsize i then Inl (DecError ''Overflow int value: %v'')
          else Inr (i, ended d)))"

definition unsigned_of :: "uint64 \<times> 'r dec_state \<Rightarrow> codec_error + (uint64 \<times> 'r dec_state)" where
  "unsigned_of p =
     (if 0 \<le> sint (fst p) then Inr p
      else Inl (DecError ''Assigning negative signed value: %v, to unsigned type''))"

definition mp_decodeUint :: "'r decReader \<Rightarrow> nat \<Rightarrow> 'r dec_state \<Rightarrow> codec_error + (uint64 \<times> 'r dec_state)" where
  "mp_decodeUint rd bitsize d =
     (let b = bd d in
      or_error
        (if b = mpUint8 then or_error (reading (readn1 rd) d) (\<lambda>(x, d). Inr (ucast x, d))
         else if b = mpUint16 then or_error (reading (readUint16 rd) d) (\<lambda>(x, d). Inr (ucast x, d))
         else if b = mpUint32 then or_error (reading (readUint32 rd) d) (\<lambda>(x, d). Inr (ucast x, d))
         else if b = mpUint64 then reading (readUint64 rd) d
         else if b = mpInt8 then or_error (reading (readn1 rd) d) (\<lambda>(x, d). unsigned_of (scast x, d))
         else if b = mpInt16 then or_error (reading (readUint16 rd) d) (\<lambda>(x, d). unsigned_of (scast x, d))
         else if b = mpInt32 then or_error (reading (readUint32 rd) d) (\<lambda>(x, d). unsigned_of (scast x, d))
         else if b = mpInt64 then or_error (reading (readUint64 rd) d) unsigned_of
         else if b \<le> 0x7f then Inr (ucast b, d)
         else if 0xe0 \<le> b then Inl (DecError ''Assigning negative signed value: %v, to unsigned type'')
         else Inl (DecError ''Unhandled single-byte unsigned integer value: %s: %x''))
        (\<lambda>(u, d).
          if 0 < bitsize \<and> u \<noteq> trunc_uint bitsize u then Inl (DecError ''Overflow uint value: %v'')
          else Inr (u, ended d)))"

definition mp_decodeFloat :: "'r decReader \<Rightarrow> bool \<Rightarrow> 'r dec_state \<Rightarrow> codec_error + (uint64 \<times> 'r dec_state)" where
  "mp_decodeFloat rd chk d =
     or_error
       (if bd d = mpFloat then or_error (reading (readUint32 rd) d) (\<lambda>(x, d). Inr (widen32 x, d))
        else if bd d = mpDouble then reading (readUint64 rd) d
        else or_error (mp_decodeInt rd 0 d) (\<lambda>(i, d). Inr (int64_to_float i, d)))
       (\<lambda>(f, d). or_error (checkOverflowFloat32 f chk) (\<lambda>_. Inr (f, ended d)))"

definition mp_decodeBool :: "'r dec_state \<Rightarrow> codec_error + (bool \<times> 'r dec_state)" where
  "mp_decodeBool d =
     (if bd d = mpFalse \<or> bd d = 0 then Inr (False, ended d)
      else if bd d = mpTrue \<or> bd d = 1 then Inr (True, ended d)
      else Inl (DecError ''Invalid single-byte value for bool: %s: %x''))"

definition readContainerLen ::
  "'r decReader \<Rightarrow> msgpackContainerType \<Rightarrow> 'r dec_state \<Rightarrow> codec_error + (int \<times> 'r dec_state)" where
  "readContainerLen rd ct d =
     (let b = bd d in
      if b = mpNil then Inr (- 1, ended d)
      else if b = b8 ct then or_error (reading (readn1 rd) d) (\<lambda>(n, d). Inr (uint n, ended d))
      else if b = b16 ct then or_error (reading (readUint16 rd) d) (\<lambda>(n, d). Inr (uint n, ended d))
      else if b = b32 ct then or_error (reading (readUint32 rd) d) (\<lambda>(n, d). Inr (uint n, ended d))
      else if bFixMin ct AND b = bFixMin ct then Inr (uint (bFixMin ct XOR b), ended d)
      else Inl (DecError ''readContainerLen: %s: hex: %x, dec: %d''))"

definition mp_decodeString :: "'r decReader \<Rightarrow> 'r dec_state \<Rightarrow> codec_error + (bytes \<times> 'r dec_state)" where
  "mp_decodeString rd d =
     or_error (readContainerLen rd msgpackContainerStr d) (\<lambda>(clen, d).
       if 0 < clen then or_error (reading (readn rd clen) d) (\<lambda>(s, d). Inr (s, ended d)) else Inr ([], ended d))"

definition mp_decodeBytes ::
  "'r decReader \<Rightarrow> bytes \<Rightarrow> 'r dec_state \<Rightarrow> codec_error + ((bytes option \<times> bool \<times> bytes) \<times> 'r dec_state)" where
  "mp_decodeBytes rd bs d =
     or_error (readContainerLen rd (if mp_bin (bd d) then msgpackContainerBin else msgpackContainerStr) d)
       (\<lambda>(clen, d). fill_bytes rd clen bs d)"

definition mp_currentEncodedType :: "MsgpackHandle \<Rightarrow> 'r dec_state \<Rightarrow> codec_error + (valueType \<times> 'r dec_state)" where
  "mp_currentEncodedType h d =
     (if bdType d \<noteq> valueTypeUnset then Inr (bdType d, d)
      else
        (let b = bd d; found = (\<lambda>t. Inr (t, d\<lparr>bdType := t\<rparr>)) in
         if b = mpNil then found valueTypeNil
         else if b = mpFalse \<or> b = mpTrue then found valueTypeBool
         else if b = mpFloat \<or> b = mpDouble then found valueTypeFloat
         else if b = mpUint8 \<or> b = mpUint16 \<or> b = mpUint32 \<or> b = mpUint64 then found valueTypeUint
         else if b = mpInt8 \<or> b = mpInt16 \<or> b = mpInt32 \<or> b = mpInt64 then found valueTypeInt
         else if b \<le> 0x7f then found valueTypeInt
         else if 0xe0 \<le> b then found valueTypeInt
         else if mp_str b then found (if RawToString h then valueTypeString else valueTypeBytes)
         else if mp_bin b then found valueTypeBytes
         else if mp_array b then found valueTypeArray
         else if mp_map b then found valueTypeMap
         else if mp_ext b then found valueTypeExt
         else Inl (DecError ''currentEncodedType: Undeciphered descriptor: %s: hex: %x, dec: %d'')))"

definition mp_tryDecodeAsNil :: "'r dec_state \<Rightarrow> bool \<times> 'r dec_state" where
  "mp_tryDecodeAsNil d = (if bd d = mpNil then (True, ended d) else (False, d))"

definition mp_decodeExt ::
  "'r decReader \<Rightarrow> byte option \<Rightarrow> 'r dec_state \<Rightarrow> codec_error + ((byte \<times> bytes) \<times> 'r dec_state)" where
  "mp_decodeExt rd tag d =
     (if mp_bin (bd d) then
        or_error (mp_decodeBytes rd [] d) (\<lambda>((x, _, _), d). Inr ((0, case x of None \<Rightarrow> [] | Some x \<Rightarrow> x), ended d))
      else if mp_str (bd d) then or_error (mp_decodeString rd d) (\<lambda>(x, d). Inr ((0, x), ended d))
      else or_error (mp_readExtLen rd d) (\<lambda>(clen, d). read_ext rd tag clen d))"

definition msgpackDecDriver :: "'r decReader \<Rightarrow> MsgpackHandle \<Rightarrow> 'r dec_state decDriver" where
  "msgpackDecDriver rd h =
     \<lparr>initReadNext = init_read rd,
      tryDecodeAsNil = mp_tryDecodeAsNil,
      currentEncodedType = mp_currentEncodedType h,
      decodeNaked = mp_decodeNaked rd h,
      decodeInt = mp_decodeInt rd,
      decodeUint = mp_decodeUint rd,
      decodeFloat = mp_decodeFloat rd,
      decodeBool = mp_decodeBool,
      decodeString = mp_decodeString rd,
      decodeBytes = mp_decodeBytes rd,
      decodeExt = mp_decodeExt rd,
      readMapLen = readContainerLen rd msgpackContainerMap,
      readArrayLen = readContainerLen rd msgpackContainerList\<rparr>"

end
