(* ===== verification/Codec_Values.thy ===== *)
theory Codec_Values
  imports Codec_Driver
begin

text \<open>
  Encoding and decoding of whole values over the interfaces of the drivers: \<^verbatim>\<open>Encoder\<close>
  (\<^verbatim>\<open>encode.go\<close>) for the values with a type of their own in \<^verbatim>\<open>encode\<close>, and \<^verbatim>\<open>Decoder\<close>
  (\<^verbatim>\<open>decode.go\<close>) into an \<^verbatim>\<open>interface{}\<close> and into pointers to simple types.  No extensions are registered.
\<close>

section \<open>Encoding\<close>

definition AsSymbolMapStringKeysFlag :: byte where
  "AsSymbolMapStringKeysFlag = 8"

definition map_key :: "'e encDriver \<Rightarrow> byte \<Rightarrow> bytes \<Rightarrow> 'e \<Rightarrow> 'e" where
  "map_key E syms k = (if syms AND AsSymbolMapStringKeysFlag \<noteq> 0 then encodeSymbol E k else encodeString E c_UTF8 k)"

text \<open>One after the other.\<close>

definition each :: "('e \<Rightarrow> 'e) list \<Rightarrow> 'e \<Rightarrow> 'e" where
  "each fs e = fold (\<lambda>f. f) fs e"

definition encSliceIntf :: "'e encDriver \<Rightarrow> ('e \<Rightarrow> 'e) list \<Rightarrow> 'e \<Rightarrow> 'e" where
  "encSliceIntf E fs e = each fs (encodeArrayPreamble E (length fs) e)"

definition encSliceStr :: "'e encDriver \<Rightarrow> bytes list \<Rightarrow> 'e \<Rightarrow> 'e" where
  "encSliceStr E v e = each (map (encodeString E c_UTF8) v) (encodeArrayPreamble E (length v) e)"

definition encSliceInt64 :: "'e encDriver \<Rightarrow> uint64 list \<Rightarrow> 'e \<Rightarrow> 'e" where
  "encSliceInt64 E v e = each (map (encodeInt E) v) (encodeArrayPreamble E (length v) e)"

definition encSliceUint64 :: "'e encDriver \<Rightarrow> uint64 list \<Rightarrow> 'e \<Rightarrow> 'e" where
  "encSliceUint64 E v e = each (map (encodeUint E) v) (encodeArrayPreamble E (length v) e)"

definition encMapStrStr :: "'e encDriver \<Rightarrow> byte \<Rightarrow> (bytes \<times> bytes) list \<Rightarrow> 'e \<Rightarrow> 'e" where
  "encMapStrStr E syms v e =
     each (map (\<lambda>(k, x) e. encodeString E c_UTF8 x (map_key E syms k e)) v) (encodeMapPreamble E (length v) e)"

definition encMapStrIntf :: "'e encDriver \<Rightarrow> byte \<Rightarrow> (bytes \<times> ('e \<Rightarrow> 'e)) list \<Rightarrow> 'e \<Rightarrow> 'e" where
  "encMapStrIntf E syms v e =
     each (map (\<lambda>(k, x) e. x (map_key E syms k e)) v) (encodeMapPreamble E (length v) e)"

definition encMapInt64Intf :: "'e encDriver \<Rightarrow> (uint64 \<times> ('e \<Rightarrow> 'e)) list \<Rightarrow> 'e \<Rightarrow> 'e" where
  "encMapInt64Intf E v e = each (map (\<lambda>(k, x) e. x (encodeInt E k e)) v) (encodeMapPreamble E (length v) e)"

definition encMapUint64Intf :: "'e encDriver \<Rightarrow> (uint64 \<times> ('e \<Rightarrow> 'e)) list \<Rightarrow> 'e \<Rightarrow> 'e" where
  "encMapUint64Intf E v e = each (map (\<lambda>(k, x) e. x (encodeUint E k e)) v) (encodeMapPreamble E (length v) e)"

definition encMapIntfIntf :: "'e encDriver \<Rightarrow> (('e \<Rightarrow> 'e) \<times> ('e \<Rightarrow> 'e)) list \<Rightarrow> 'e \<Rightarrow> 'e" where
  "encMapIntfIntf E v e = each (map (\<lambda>(k, x) e. x (k e)) v) (encodeMapPreamble E (length v) e)"

definition encRawExt :: "'e encDriver \<Rightarrow> byte \<Rightarrow> bytes option \<Rightarrow> 'e \<Rightarrow> 'e" where
  "encRawExt E tag data e =
     (case data of
        None \<Rightarrow> encodeNil E e
      | Some x \<Rightarrow>
          if writeExt E then write_to E (writeb x) (encodeExtPreamble E tag (length x) e)
          else encodeStringBytes E c_RAW x e)"

text \<open>
  A time is built in for \<^verbatim>\<open>binc\<close>; for the other codecs it is what its method \<^verbatim>\<open>MarshalBinary\<close> gives, here
  without the error for zones that are not whole minutes.
\<close>

definition MarshalBinary :: "go_time \<Rightarrow> bytes" where
  "MarshalBinary t =
     1 # PutUint64 (unix_secs t + 62135596800) @ PutUint32 (of_nat (unix_nsecs t)) @
     PutUint16 (case zone_offset t of None \<Rightarrow> - 1 | Some z \<Rightarrow> word_of_int (sgn z * (\<bar>z\<bar> div 60)))"

definition encTimeValue :: "'e encDriver \<Rightarrow> go_time \<Rightarrow> 'e \<Rightarrow> 'e" where
  "encTimeValue E t e =
     (case encodeTime E of Some f \<Rightarrow> f t e | None \<Rightarrow> encodeStringBytes E c_RAW (MarshalBinary t) e)"

primrec encode :: "'e encDriver \<Rightarrow> byte \<Rightarrow> val \<Rightarrow> 'e \<Rightarrow> 'e" where
  "encode E syms VNil = encodeNil E"
| "encode E syms (VBool b) = encodeBool E b"
| "encode E syms (VInt i) = encodeInt E i"
| "encode E syms (VUint u) = encodeUint E u"
| "encode E syms (VFloat32 f) = encodeFloat32 E f"
| "encode E syms (VFloat64 f) = encodeFloat64 E f"
| "encode E syms (VString s) = encodeString E c_UTF8 s"
| "encode E syms (VBytes b) = encodeStringBytes E c_RAW b"
| "encode E syms (VRawExt tag data) = encRawExt E tag data"
| "encode E syms (VTime t) = encTimeValue E t"
| "encode E syms (VSlice vs) = encSliceIntf E (map (encode E syms) vs)"
| "encode E syms (VStrings ss) = encSliceStr E ss"
| "encode E syms (VInt64s is) = encSliceInt64 E is"
| "encode E syms (VUint64s us) = encSliceUint64 E us"
| "encode E syms (VMap kvs) = encMapIntfIntf E (map (map_prod (encode E syms) (encode E syms)) kvs)"
| "encode E syms (VMapStrIntf kvs) = encMapStrIntf E syms (map (map_prod id (encode E syms)) kvs)"
| "encode E syms (VMapStrStr kvs) = encMapStrStr E syms kvs"
| "encode E syms (VMapInt64 kvs) = encMapInt64Intf E (map (map_prod id (encode E syms)) kvs)"
| "encode E syms (VMapUint64 kvs) = encMapUint64Intf E (map (map_prod id (encode E syms)) kvs)"

section \<open>Maps\<close>

text \<open>
  Keys of a map are compared as Go compares interfaces: a NaN equals nothing, both zeros are equal, and
  times are equal only in the same location, of which decoded zones each have their own.
\<close>

definition float_NaN :: "uint64 \<Rightarrow> bool" where
  "float_NaN f \<longleftrightarrow> 0x7FF0000000000000 < f AND 0x7FFFFFFFFFFFFFFF"

definition float_zero :: "uint64 \<Rightarrow> bool" where
  "float_zero f \<longleftrightarrow> f AND 0x7FFFFFFFFFFFFFFF = 0"

fun same_key :: "val \<Rightarrow> val \<Rightarrow> bool" where
  "same_key (VFloat64 a) (VFloat64 b) \<longleftrightarrow> (a = b \<and> \<not> float_NaN a) \<or> (float_zero a \<and> float_zero b)"
| "same_key (VTime a) (VTime b) \<longleftrightarrow> a = b \<and> zone_offset a = None"
| "same_key a b \<longleftrightarrow> a = b"

fun hashable :: "val \<Rightarrow> bool" where
  "hashable (VBytes b) = False"
| "hashable (VRawExt t x) = False"
| "hashable (VSlice vs) = False"
| "hashable (VMap kvs) = False"
| "hashable v = True"

primrec map_get :: "(val \<times> val) list \<Rightarrow> val \<Rightarrow> val option" where
  "map_get [] k = None"
| "map_get (kv # m) k = (if same_key (fst kv) k then Some (snd kv) else map_get m k)"

primrec map_put :: "(val \<times> val) list \<Rightarrow> val \<Rightarrow> val \<Rightarrow> (val \<times> val) list" where
  "map_put [] k v = [(k, v)]"
| "map_put (kv # m) k v = (if same_key (fst kv) k then (fst kv, v) # m else kv # map_put m k v)"

text \<open>A key of bytes becomes a string.\<close>

fun string_key :: "val \<Rightarrow> val" where
  "string_key (VBytes b) = VString b"
| "string_key v = v"

section \<open>Decoding\<close>

type_synonym 'd decode_fn = "val \<Rightarrow> 'd \<Rightarrow> codec_error + (val \<times> 'd)"

text \<open>The values of a list, each decoded into the one that is there.\<close>

primrec dec_list :: "'d decode_fn \<Rightarrow> val list \<Rightarrow> 'd \<Rightarrow> codec_error + (val list \<times> 'd)" where
  "dec_list f [] d = Inr ([], d)"
| "dec_list f (c # cs) d =
     or_error (f c d) (\<lambda>(v, d). or_error (dec_list f cs d) (\<lambda>(vs, d). Inr (v # vs, d)))"

definition decContLens ::
  "'d decDriver \<Rightarrow> valueType \<Rightarrow> 'd \<Rightarrow> codec_error + ((int \<times> int) \<times> 'd)" where
  "decContLens D t d =
     or_error (if t = valueTypeInvalid then currentEncodedType D d else Inr (t, d)) (\<lambda>(t, d).
       if t = valueTypeArray then or_error (readArrayLen D d) (\<lambda>(n, d). Inr ((n, n), d))
       else if t = valueTypeMap then or_error (readMapLen D d) (\<lambda>(n, d). Inr ((n, n * 2), d))
       else Inl (DecError ''Only encoded map or array can be decoded into a slice. (valueType: %0x)''))"

text \<open>\<^verbatim>\<open>decSliceIntf\<close> into a slice that is nil.\<close>

definition decSliceIntf :: "'d decDriver \<Rightarrow> 'd decode_fn \<Rightarrow> 'd \<Rightarrow> codec_error + (val \<times> 'd)" where
  "decSliceIntf D f d =
     or_error (decContLens D valueTypeInvalid d) (\<lambda>((_, n), d).
       if n < 0 then Inl (RuntimeError ''makeslice: len out of range'')
       else or_error (dec_list f (replicate (nat n) VNil) d) (\<lambda>(vs, d). Inr (VSlice vs, d)))"

text \<open>\<^verbatim>\<open>decMapIntfIntf\<close> into a map that is nil.\<close>

primrec dec_entries ::
  "'d decode_fn \<Rightarrow> nat \<Rightarrow> (val \<times> val) list \<Rightarrow> 'd \<Rightarrow> codec_error + ((val \<times> val) list \<times> 'd)" where
  "dec_entries f 0 m d = Inr (m, d)"
| "dec_entries f (Suc n) m d =
     or_error (f VNil d) (\<lambda>(k, d).
       let k = string_key k in
       if \<not> hashable k then Inl (RuntimeError ''hash of unhashable type'')
       else
         or_error (f (case map_get m k of None \<Rightarrow> VNil | Some v \<Rightarrow> v) d) (\<lambda>(v, d).
           dec_entries f n (map_put m k v) d))"

definition decMapIntfIntf :: "'d decDriver \<Rightarrow> 'd decode_fn \<Rightarrow> 'd \<Rightarrow> codec_error + (val \<times> 'd)" where
  "decMapIntfIntf D f d =
     or_error (readMapLen D d) (\<lambda>(n, d).
       if n < 0 then Inl (RuntimeError ''makemap: size out of range'')
       else or_error (dec_entries f (nat n) [] d) (\<lambda>(m, d). Inr (VMap m, d)))"

text \<open>\<^verbatim>\<open>kInterface\<close> for an interface that is nil.\<close>

definition kInterface :: "'d decDriver \<Rightarrow> 'd decode_fn \<Rightarrow> 'd \<Rightarrow> codec_error + (val \<times> 'd)" where
  "kInterface D f d =
     or_error (decodeNaked D d) (\<lambda>(r, d).
       case r of
         Decoded _ v \<Rightarrow> Inr (v, d)
       | Further t \<Rightarrow>
           or_error (initReadNext D d) (\<lambda>d.
             if t = valueTypeMap then decMapIntfIntf D f d
             else if t = valueTypeArray then decSliceIntf D f d
             else if t = valueTypeString then or_error (decodeString D d) (\<lambda>(s, d). Inr (VString s, d))
             else or_error (decodeBytes D [] d) (\<lambda>((x, _, _), d). Inr (VBytes (case x of None \<Rightarrow> [] | Some x \<Rightarrow> x), d))))"

text \<open>
  Decoding into the value that an interface already holds, which \<^verbatim>\<open>reflect\<close> does not let be set: a map
  is updated, the elements of a slice and bytes of the same length are replaced, everything else
  panics.  Types that decoding into an interface never makes are left out.
\<close>

abbreviation unaddressable :: codec_error where
  "unaddressable \<equiv> RuntimeError ''reflect: using unaddressable value''"

primrec dec_octets :: "'d decDriver \<Rightarrow> bytes \<Rightarrow> 'd \<Rightarrow> codec_error + (bytes \<times> 'd)" where
  "dec_octets D [] d = Inr ([], d)"
| "dec_octets D (b # bs) d =
     or_error (initReadNext D d) (\<lambda>d.
     or_error
       (case tryDecodeAsNil D d of
          (True, d) \<Rightarrow> Inr (0, d)
        | (False, d) \<Rightarrow> or_error (decodeUint D 8 d) (\<lambda>(u, d). Inr (ucast u, d)))
       (\<lambda>(x, d). or_error (dec_octets D bs d) (\<lambda>(xs, d). Inr (x # xs, d))))"

definition kSlice :: "'d decDriver \<Rightarrow> 'd decode_fn \<Rightarrow> val list \<Rightarrow> 'd \<Rightarrow> codec_error + (val \<times> 'd)" where
  "kSlice D f vs d =
     or_error (currentEncodedType D d) (\<lambda>(t, d).
     or_error (decContLens D t d) (\<lambda>((n, ns), d).
       if n = 0 then Inr (VSlice vs, d)
       else if int (length vs) < ns then Inl unaddressable
       else or_error (dec_list f (take (nat ns) vs) d) (\<lambda>(xs, d). Inr (VSlice (xs @ drop (nat ns) vs), d))))"

definition kSlice_bytes :: "'d decDriver \<Rightarrow> bytes \<Rightarrow> 'd \<Rightarrow> codec_error + (val \<times> 'd)" where
  "kSlice_bytes D bs d =
     or_error (currentEncodedType D d) (\<lambda>(t, d).
       if t = valueTypeBytes \<or> t = valueTypeString then
         or_error (decodeBytes D bs d) (\<lambda>((_, changed, bs'), d).
           if changed then Inl unaddressable else Inr (VBytes bs', d))
       else
         or_error (decContLens D t d) (\<lambda>((n, ns), d).
           if bs = [] then Inl unaddressable
           else if n = 0 then Inr (VBytes bs, d)
           else if int (length bs) < ns then Inl unaddressable
           else or_error (dec_octets D (take (nat ns) bs) d) (\<lambda>(xs, d). Inr (VBytes (xs @ drop (nat ns) bs), d))))"

primrec map_entries ::
  "'d decode_fn \<Rightarrow> 'd decode_fn \<Rightarrow> nat \<Rightarrow> (val \<times> val) list \<Rightarrow> 'd \<Rightarrow> codec_error + ((val \<times> val) list \<times> 'd)" where
  "map_entries f g 0 m d = Inr (m, d)"
| "map_entries f g (Suc n) m d =
     or_error (f VNil d) (\<lambda>(k, d).
       let k = string_key k in
       if k = VNil then Inl (RuntimeError ''reflect: call of reflect.Value.Type on zero Value'')
       else if \<not> hashable k then Inl (RuntimeError ''hash of unhashable type'')
       else
         or_error (case map_get m k of None \<Rightarrow> f VNil d | Some v \<Rightarrow> g v d) (\<lambda>(v, d).
           map_entries f g n (map_put m k v) d))"

text \<open>The value of a key that is there: it cannot be set either.\<close>

definition dec_existing :: "'d decDriver \<Rightarrow> 'd decode_fn \<Rightarrow> 'd decode_fn \<Rightarrow> 'd decode_fn" where
  "dec_existing D f into v d =
     or_error (initReadNext D d) (\<lambda>d.
       case tryDecodeAsNil D d of
         (True, d) \<Rightarrow> Inl unaddressable
       | (False, d) \<Rightarrow>
           if v = VNil then or_error (kInterface D f d) (\<lambda>_. Inl unaddressable) else into v d)"

definition kMap :: "'d decDriver \<Rightarrow> 'd decode_fn \<Rightarrow> 'd decode_fn \<Rightarrow> (val \<times> val) list \<Rightarrow> 'd \<Rightarrow> codec_error + (val \<times> 'd)" where
  "kMap D f g m d =
     or_error (readMapLen D d) (\<lambda>(n, d). or_error (map_entries f g (nat n) m d) (\<lambda>(m, d). Inr (VMap m, d)))"

text \<open>
  \<^verbatim>\<open>decodeValue\<close> on the value that an interface holds, and on the interface.  The first argument
  bounds the depth of the recursion.
\<close>

fun dec_into :: "'d decDriver \<Rightarrow> nat \<Rightarrow> 'd decode_fn \<Rightarrow> 'd decode_fn" where
  "dec_into D n f (VBool b) d = or_error (decodeBool D d) (\<lambda>_. Inl unaddressable)"
| "dec_into D n f (VInt i) d = or_error (decodeInt D 64 d) (\<lambda>_. Inl unaddressable)"
| "dec_into D n f (VUint u) d = or_error (decodeUint D 64 d) (\<lambda>_. Inl unaddressable)"
| "dec_into D n f (VFloat64 x) d = or_error (decodeFloat D False d) (\<lambda>_. Inl unaddressable)"
| "dec_into D n f (VString s) d = or_error (decodeString D d) (\<lambda>_. Inl unaddressable)"
| "dec_into D n f (VRawExt t x) d = or_error (decodeExt D None d) (\<lambda>_. Inl unaddressable)"
| "dec_into D n f (VBytes bs) d = kSlice_bytes D bs d"
| "dec_into D n f (VSlice vs) d = kSlice D f vs d"
| "dec_into D (Suc n) f (VMap m) d = kMap D f (dec_existing D f (dec_into D n f)) m d"
| "dec_into D 0 f (VMap m) d = Inl NoFuel"
| "dec_into D n f v d = Inl unaddressable"

primrec decodeValue :: "'d decDriver \<Rightarrow> nat \<Rightarrow> 'd decode_fn" where
  "decodeValue D 0 c d = Inl NoFuel"
| "decodeValue D (Suc n) c d =
     or_error (initReadNext D d) (\<lambda>d.
       case tryDecodeAsNil D d of
         (True, d) \<Rightarrow> Inr (VNil, d)
       | (False, d) \<Rightarrow>
           if c = VNil then kInterface D (decodeValue D n) d else dec_into D (Suc n) (decodeValue D n) c d)"

text \<open>\<^verbatim>\<open>Decode\<close> into a pointer to an interface that is nil.\<close>

definition Decode :: "'d decDriver \<Rightarrow> nat \<Rightarrow> 'd \<Rightarrow> codec_error + (val \<times> 'd)" where
  "Decode D n d = or_error (initReadNext D d) (\<lambda>d. decodeValue D n VNil d)"

text \<open>\<^verbatim>\<open>Decode\<close> into pointers to other types; a number of bits is that of the type.\<close>

datatype target = PString | PBool | PInt nat | PUint nat | PFloat64 | PBytes bytes

fun Decode_to :: "'d decDriver \<Rightarrow> target \<Rightarrow> 'd \<Rightarrow> codec_error + (val \<times> 'd)" where
  "Decode_to D PString d =
     or_error (initReadNext D d) (\<lambda>d. or_error (decodeString D d) (\<lambda>(s, d). Inr (VString s, d)))"
| "Decode_to D PBool d =
     or_error (initReadNext D d) (\<lambda>d. or_error (decodeBool D d) (\<lambda>(b, d). Inr (VBool b, d)))"
| "Decode_to D (PInt n) d =
     or_error (initReadNext D d) (\<lambda>d. or_error (decodeInt D n d) (\<lambda>(i, d). Inr (VInt i, d)))"
| "Decode_to D (PUint n) d =
     or_error (initReadNext D d) (\<lambda>d. or_error (decodeUint D n d) (\<lambda>(u, d). Inr (VUint u, d)))"
| "Decode_to D PFloat64 d =
     or_error (initReadNext D d) (\<lambda>d. or_error (decodeFloat D False d) (\<lambda>(f, d). Inr (VFloat64 f, d)))"
| "Decode_to D (PBytes bs) d =
     or_error (initReadNext D d) (\<lambda>d.
     or_error (decodeBytes D bs d) (\<lambda>((x, _, _), d). Inr (VBytes (case x of None \<Rightarrow> [] | Some x \<Rightarrow> x), d)))"

end
