(* ===== verification/Codec_Roundtrip.thy ===== *)
theory Codec_Roundtrip
  imports Codec_Values
begin

text \<open>
  The round trip of values, once for all codecs: the locale \<open>codec\<close> says what a pair of drivers has to
  do for numbers, strings and the beginnings of arrays and maps; then whole values survive.
\<close>

section \<open>Values as they are decoded\<close>

text \<open>The special types of slices and maps are written like those of interfaces.\<close>

primrec generic :: "val \<Rightarrow> val" where
  "generic VNil = VNil"
| "generic (VBool b) = VBool b"
| "generic (VInt i) = VInt i"
| "generic (VUint u) = VUint u"
| "generic (VFloat32 f) = VFloat32 f"
| "generic (VFloat64 f) = VFloat64 f"
| "generic (VString s) = VString s"
| "generic (VBytes b) = VBytes b"
| "generic (VRawExt t x) = VRawExt t x"
| "generic (VTime t) = VTime t"
| "generic (VSlice vs) = VSlice (map generic vs)"
| "generic (VStrings ss) = VSlice (map VString ss)"
| "generic (VInt64s is) = VSlice (map VInt is)"
| "generic (VUint64s us) = VSlice (map VUint us)"
| "generic (VMap kvs) = VMap (map (map_prod generic generic) kvs)"
| "generic (VMapStrIntf kvs) = VMap (map (map_prod VString id) (map (map_prod id generic) kvs))"
| "generic (VMapStrStr kvs) = VMap (map (map_prod VString VString) kvs)"
| "generic (VMapInt64 kvs) = VMap (map (map_prod VInt id) (map (map_prod id generic) kvs))"
| "generic (VMapUint64 kvs) = VMap (map (map_prod VUint id) (map (map_prod id generic) kvs))"

text \<open>What is decoded for a value, given what is decoded for the simple ones.\<close>

primrec normal :: "(val \<Rightarrow> val) \<Rightarrow> val \<Rightarrow> val" where
  "normal a VNil = VNil"
| "normal a (VBool b) = a (VBool b)"
| "normal a (VInt i) = a (VInt i)"
| "normal a (VUint u) = a (VUint u)"
| "normal a (VFloat32 f) = a (VFloat32 f)"
| "normal a (VFloat64 f) = a (VFloat64 f)"
| "normal a (VString s) = a (VString s)"
| "normal a (VBytes b) = a (VBytes b)"
| "normal a (VRawExt t x) = a (VRawExt t x)"
| "normal a (VTime t) = a (VTime t)"
| "normal a (VSlice vs) = VSlice (map (normal a) vs)"
| "normal a (VStrings ss) = VStrings ss"
| "normal a (VInt64s is) = VInt64s is"
| "normal a (VUint64s us) = VUint64s us"
| "normal a (VMap kvs) = VMap (map (map_prod string_key id) (map (map_prod (normal a) (normal a)) kvs))"
| "normal a (VMapStrIntf kvs) = VMapStrIntf (map (map_prod id (normal a)) kvs)"
| "normal a (VMapStrStr kvs) = VMapStrStr kvs"
| "normal a (VMapInt64 kvs) = VMapInt64 (map (map_prod id (normal a)) kvs)"
| "normal a (VMapUint64 kvs) = VMapUint64 (map (map_prod id (normal a)) kvs)"

text \<open>Keys are hashable, and no two of them are the same once they are decoded.\<close>

primrec good_keys :: "val list \<Rightarrow> bool" where
  "good_keys [] \<longleftrightarrow> True"
| "good_keys (k # ks) \<longleftrightarrow> hashable k \<and> (\<forall>k' \<in> set ks. \<not> same_key k k') \<and> good_keys ks"

primrec encodable :: "nat \<Rightarrow> (val \<Rightarrow> bool) \<Rightarrow> (val \<Rightarrow> val) \<Rightarrow> val \<Rightarrow> bool" where
  "encodable most p a VNil \<longleftrightarrow> True"
| "encodable most p a (VBool b) \<longleftrightarrow> p (VBool b)"
| "encodable most p a (VInt i) \<longleftrightarrow> p (VInt i)"
| "encodable most p a (VUint u) \<longleftrightarrow> p (VUint u)"
| "encodable most p a (VFloat32 f) \<longleftrightarrow> p (VFloat32 f)"
| "encodable most p a (VFloat64 f) \<longleftrightarrow> p (VFloat64 f)"
| "encodable most p a (VString s) \<longleftrightarrow> p (VString s)"
| "encodable most p a (VBytes b) \<longleftrightarrow> p (VBytes b)"
| "encodable most p a (VRawExt t x) \<longleftrightarrow> p (VRawExt t x)"
| "encodable most p a (VTime t) \<longleftrightarrow> p (VTime t)"
| "encodable most p a (VSlice vs) \<longleftrightarrow> length vs < most \<and> list_all id (map (encodable most p a) vs)"
| "encodable most p a (VStrings ss) \<longleftrightarrow> False"
| "encodable most p a (VInt64s is) \<longleftrightarrow> False"
| "encodable most p a (VUint64s us) \<longleftrightarrow> False"
| "encodable most p a (VMap kvs) \<longleftrightarrow> length kvs < most \<and>
     list_all (\<lambda>b. fst b \<and> snd b) (map (map_prod (encodable most p a) (encodable most p a)) kvs) \<and>
     good_keys (map (\<lambda>kv. string_key (normal a (fst kv))) kvs)"
| "encodable most p a (VMapStrIntf kvs) \<longleftrightarrow> False"
| "encodable most p a (VMapStrStr kvs) \<longleftrightarrow> False"
| "encodable most p a (VMapInt64 kvs) \<longleftrightarrow> False"
| "encodable most p a (VMapUint64 kvs) \<longleftrightarrow> False"

primrec depth :: "val \<Rightarrow> nat" where
  "depth VNil = 1"
| "depth (VBool b) = 1"
| "depth (VInt i) = 1"
| "depth (VUint u) = 1"
| "depth (VFloat32 f) = 1"
| "depth (VFloat64 f) = 1"
| "depth (VString s) = 1"
| "depth (VBytes b) = 1"
| "depth (VRawExt t x) = 1"
| "depth (VTime t) = 1"
| "depth (VSlice vs) = Suc (Max (insert 0 (set (map depth vs))))"
| "depth (VStrings ss) = 1"
| "depth (VInt64s is) = 1"
| "depth (VUint64s us) = 1"
| "depth (VMap kvs) = Suc (Max (insert 0 (set (map (\<lambda>p. max (fst p) (snd p)) (map (map_prod depth depth) kvs)))))"
| "depth (VMapStrIntf kvs) = 1"
| "depth (VMapStrStr kvs) = 1"
| "depth (VMapInt64 kvs) = 1"
| "depth (VMapUint64 kvs) = 1"

text \<open>Keys that are not there are put at the end.\<close>

lemma map_get_none: "(\<forall>kv \<in> set m. \<not> same_key (fst kv) k) \<Longrightarrow> map_get m k = None \<and> map_put m k v = m @ [(k, v)]"
  by (induction m) auto

section \<open>The contract of the drivers\<close>

locale codec =
  fixes E :: "'e encDriver" and D :: "'d decDriver" and syms :: byte
    and out :: "'e \<Rightarrow> bytes" and stands :: "'d \<Rightarrow> bytes \<Rightarrow> bool"
    and atom :: "val \<Rightarrow> bool" and a :: "val \<Rightarrow> val" and most :: nat
  assumes init_again: "initReadNext D d = Inr d1 \<Longrightarrow> initReadNext D d1 = Inr d1"
    and string_keys: "map_key E syms k = encodeString E c_UTF8 k"
    and nil_law: "\<exists>w. (\<forall>e. out (encodeNil E e) = out e @ w) \<and>
      (\<forall>d rest. stands d (w @ rest) \<longrightarrow>
        (\<exists>d1 d2. initReadNext D d = Inr d1 \<and> tryDecodeAsNil D d1 = (True, d2) \<and> stands d2 rest))"
    and atom_law: "atom v \<Longrightarrow> \<exists>w. (\<forall>e. out (encode E syms v e) = out e @ w) \<and>
      (\<forall>d rest f. stands d (w @ rest) \<longrightarrow>
        (\<exists>d1 d2. initReadNext D d = Inr d1 \<and> tryDecodeAsNil D d1 = (False, d1) \<and>
          kInterface D f d1 = Inr (a v, d2) \<and> stands d2 rest))"
    and array_law: "n < most \<Longrightarrow> \<exists>w. (\<forall>e. out (encodeArrayPreamble E n e) = out e @ w) \<and>
      (\<forall>d rest f. stands d (w @ rest) \<longrightarrow>
        (\<exists>d1 d2. initReadNext D d = Inr d1 \<and> tryDecodeAsNil D d1 = (False, d1) \<and> stands d2 rest \<and>
          kInterface D f d1 = or_error (dec_list f (replicate n VNil) d2) (\<lambda>(vs, d). Inr (VSlice vs, d))))"
    and map_law: "n < most \<Longrightarrow> \<exists>w. (\<forall>e. out (encodeMapPreamble E n e) = out e @ w) \<and>
      (\<forall>d rest f. stands d (w @ rest) \<longrightarrow>
        (\<exists>d1 d2. initReadNext D d = Inr d1 \<and> tryDecodeAsNil D d1 = (False, d1) \<and> stands d2 rest \<and>
          kInterface D f d1 = or_error (dec_entries f n [] d2) (\<lambda>(m, d). Inr (VMap m, d))))"

context codec begin

lemma encode_generic: "encode E syms (generic v) = encode E syms v"
proof (induction v)
  case (VSlice vs)
  then have "map (encode E syms) (map generic vs) = map (encode E syms) vs" by simp
  then show ?case by (simp del: map_map)
next
  case (VMap kvs)
  then have "map (map_prod (encode E syms) (encode E syms)) (map (map_prod generic generic) kvs) =
      map (map_prod (encode E syms) (encode E syms)) kvs"
    by fastforce
  then show ?case by (simp del: map_map)
next
  case (VMapStrIntf kvs)
  then have "map (map_prod (encode E syms) (encode E syms)) (map (map_prod VString id) (map (map_prod id generic) kvs)) =
      map (\<lambda>(k, x). (encodeString E c_UTF8 k, encode E syms x)) kvs"
    by fastforce
  then show ?case
    by (simp only: generic.simps encode.simps) (simp add: encMapStrIntf_def encMapIntfIntf_def string_keys case_prod_unfold comp_def)
next
  case (VMapInt64 kvs)
  then have "map (map_prod (encode E syms) (encode E syms)) (map (map_prod VInt id) (map (map_prod id generic) kvs)) =
      map (\<lambda>(k, x). (encodeInt E k, encode E syms x)) kvs"
    by fastforce
  then show ?case
    by (simp only: generic.simps encode.simps) (simp add: encMapInt64Intf_def encMapIntfIntf_def case_prod_unfold comp_def)
next
  case (VMapUint64 kvs)
  then have "map (map_prod (encode E syms) (encode E syms)) (map (map_prod VUint id) (map (map_prod id generic) kvs)) =
      map (\<lambda>(k, x). (encodeUint E k, encode E syms x)) kvs"
    by fastforce
  then show ?case
    by (simp only: generic.simps encode.simps) (simp add: encMapUint64Intf_def encMapIntfIntf_def case_prod_unfold comp_def)
qed (simp_all add: encSliceIntf_def encSliceStr_def encSliceInt64_def encSliceUint64_def encMapIntfIntf_def encMapStrStr_def
    string_keys case_prod_unfold comp_def)

text \<open>What is written for a value, and that it is decoded with any fuel from its depth on.\<close>

definition carries :: "bytes \<Rightarrow> val \<Rightarrow> bool" where
  "carries w v \<longleftrightarrow> (\<forall>e. out (encode E syms v e) = out e @ w) \<and>
     (\<forall>n d rest. depth v \<le> n \<longrightarrow> stands d (w @ rest) \<longrightarrow>
       (\<exists>d'. decodeValue D n VNil d = Inr (normal a v, d') \<and> stands d' rest))"

lemma carriesI:
  assumes "\<And>e. out (encode E syms v e) = out e @ w"
    "\<And>n d rest. depth v \<le> Suc n \<Longrightarrow> stands d (w @ rest) \<Longrightarrow> \<exists>d1 d2. initReadNext D d = Inr d1 \<and>
      tryDecodeAsNil D d1 = (False, d1) \<and> kInterface D (decodeValue D n) d1 = Inr (normal a v, d2) \<and> stands d2 rest"
  shows "carries w v"
proof -
  have "\<exists>d'. decodeValue D n VNil d = Inr (normal a v, d') \<and> stands d' rest" if n: "depth v \<le> n" and stands: "stands d (w @ rest)" for n d rest
  proof -
    have "0 < depth v" by (cases v) simp_all
    then obtain m where m: "n = Suc m" using n by (cases n) simp_all
    then show ?thesis using assms(2) [of m d rest] n stands by auto
  qed
  then show ?thesis using assms(1) by (simp add: carries_def)
qed

lemma carriesD:
  assumes "carries w v"
  shows "out (encode E syms v e) = out e @ w"
    "depth v \<le> n \<Longrightarrow> stands d (w @ rest) \<Longrightarrow> \<exists>d'. decodeValue D n VNil d = Inr (normal a v, d') \<and> stands d' rest"
  using assms by (simp_all add: carries_def)

lemma each_simps: "each [] e = e" "each (f # fs) e = each fs (f e)"
  by (simp_all add: each_def)

lemma carries_list:
  assumes "\<forall>v \<in> set vs. \<exists>w. carries w v"
  shows "\<exists>w. (\<forall>e. out (each (map (encode E syms) vs) e) = out e @ w) \<and>
    (\<forall>n d rest. (\<forall>v \<in> set vs. depth v \<le> n) \<longrightarrow> stands d (w @ rest) \<longrightarrow>
      (\<exists>d'. dec_list (decodeValue D n) (replicate (length vs) VNil) d = Inr (map (normal a) vs, d') \<and> stands d' rest))"
  using assms
proof (induction vs)
  case Nil
  show ?case by (rule exI [of _ "[]"]) (simp add: each_simps)
next
  case (Cons v vs)
  obtain w1 where w1: "carries w1 v" using Cons.prems by auto
  obtain w2 where w2: "\<And>e. out (each (map (encode E syms) vs) e) = out e @ w2"
    "\<And>n d rest. (\<forall>v \<in> set vs. depth v \<le> n) \<Longrightarrow> stands d (w2 @ rest) \<Longrightarrow>
      \<exists>d'. dec_list (decodeValue D n) (replicate (length vs) VNil) d = Inr (map (normal a) vs, d') \<and> stands d' rest"
    using Cons.IH Cons.prems by auto
  have "\<exists>d'. dec_list (decodeValue D n) (replicate (length (v # vs)) VNil) d = Inr (map (normal a) (v # vs), d') \<and> stands d' rest"
    if n: "\<forall>v \<in> set (v # vs). depth v \<le> n" and stands: "stands d ((w1 @ w2) @ rest)" for n d rest
  proof -
    obtain d1 where d1: "decodeValue D n VNil d = Inr (normal a v, d1)" "stands d1 (w2 @ rest)"
      using carriesD(2) [OF w1, of n d "w2 @ rest"] n stands by auto
    then show ?thesis using w2(2) [of n d1 rest] n by auto
  qed
  then show ?case using w1 w2(1) by (intro exI [of _ "w1 @ w2"]) (simp add: each_simps carries_def)
qed

lemma carries_entries:
  assumes "\<forall>kv \<in> set kvs. (\<exists>w. carries w (fst kv)) \<and> (\<exists>w. carries w (snd kv))"
    "good_keys (map (\<lambda>kv. string_key (normal a (fst kv))) kvs)"
  shows "\<exists>w. (\<forall>e. out (each (map (\<lambda>(k, x). encode E syms x \<circ> encode E syms k) kvs) e) = out e @ w) \<and>
    (\<forall>n d rest m. (\<forall>kv \<in> set kvs. depth (fst kv) \<le> n \<and> depth (snd kv) \<le> n) \<longrightarrow>
      (\<forall>k \<in> set (map fst m). \<forall>kv \<in> set kvs. \<not> same_key k (string_key (normal a (fst kv)))) \<longrightarrow> stands d (w @ rest) \<longrightarrow>
      (\<exists>d'. dec_entries (decodeValue D n) (length kvs) m d =
          Inr (m @ map (\<lambda>(k, x). (string_key (normal a k), normal a x)) kvs, d') \<and> stands d' rest))"
  using assms
proof (induction kvs)
  case Nil
  show ?case by (rule exI [of _ "[]"]) (simp add: each_simps)
next
  case (Cons kv kvs)
  obtain k x where kv: "kv = (k, x)" by (cases kv)
  obtain wk wx where wk: "carries wk k" and wx: "carries wx x" using Cons.prems kv by auto
  let ?k = "string_key (normal a k)"
  have hash: "hashable ?k" and new: "\<forall>kv \<in> set kvs. \<not> same_key ?k (string_key (normal a (fst kv)))"
    and keys: "good_keys (map (\<lambda>kv. string_key (normal a (fst kv))) kvs)"
    using Cons.prems(2) kv by simp_all
  obtain w2 where w2: "\<And>e. out (each (map (\<lambda>(k, x). encode E syms x \<circ> encode E syms k) kvs) e) = out e @ w2"
    "\<And>n d rest m. (\<forall>kv \<in> set kvs. depth (fst kv) \<le> n \<and> depth (snd kv) \<le> n) \<Longrightarrow>
      (\<forall>k \<in> set (map fst m). \<forall>kv \<in> set kvs. \<not> same_key k (string_key (normal a (fst kv)))) \<Longrightarrow> stands d (w2 @ rest) \<Longrightarrow>
      \<exists>d'. dec_entries (decodeValue D n) (length kvs) m d =
          Inr (m @ map (\<lambda>(k, x). (string_key (normal a k), normal a x)) kvs, d') \<and> stands d' rest"
    using Cons.IH [OF _ keys] Cons.prems(1) by (simp only: list.set insert_iff) blast
  have "\<exists>d'. dec_entries (decodeValue D n) (length (kv # kvs)) m d =
      Inr (m @ map (\<lambda>(k, x). (string_key (normal a k), normal a x)) (kv # kvs), d') \<and> stands d' rest"
    if n: "\<forall>kv \<in> set (kv # kvs). depth (fst kv) \<le> n \<and> depth (snd kv) \<le> n"
      and m: "\<forall>k \<in> set (map fst m). \<forall>kv \<in> set (kv # kvs). \<not> same_key k (string_key (normal a (fst kv)))"
      and stands: "stands d ((wk @ wx @ w2) @ rest)" for n d rest m
  proof -
    have "map_get m ?k = None" and put: "\<And>v. map_put m ?k v = m @ [(?k, v)]"
      using map_get_none [of m ?k] m kv by auto
    moreover obtain d1 where "decodeValue D n VNil d = Inr (normal a k, d1)" and d1: "stands d1 (wx @ w2 @ rest)"
      using carriesD(2) [OF wk, of n d "wx @ w2 @ rest"] n stands kv by auto
    moreover obtain d2 where "decodeValue D n VNil d1 = Inr (normal a x, d2)" and d2: "stands d2 (w2 @ rest)"
      using carriesD(2) [OF wx, of n d1 "w2 @ rest"] n d1 kv by auto
    moreover have "\<forall>k \<in> set (map fst (m @ [(?k, normal a x)])). \<forall>kv \<in> set kvs. \<not> same_key k (string_key (normal a (fst kv)))"
      using m new by auto
    ultimately show ?thesis using w2(2) [of n "m @ [(?k, normal a x)]" d2 rest] n hash kv by (auto simp: Let_def)
  qed
  moreover have "out (each (map (\<lambda>(k, x). encode E syms x \<circ> encode E syms k) (kv # kvs)) e) = out e @ wk @ wx @ w2" for e
    using wk wx w2(1) kv by (simp add: each_simps carries_def)
  ultimately show ?case by (intro exI [of _ "wk @ wx @ w2"]) blast
qed

lemma carried_atom: "atom v \<Longrightarrow> normal a v = a v \<Longrightarrow> \<exists>w. carries w v"
  using atom_law [of v] by (metis carriesI)

lemma Max_le: "finite A \<Longrightarrow> Max (insert 0 A) \<le> (n :: nat) \<Longrightarrow> x \<in> A \<Longrightarrow> x \<le> n"
  by simp

lemma carried: "encodable most atom a v \<Longrightarrow> \<exists>w. carries w v"
proof (induction v)
  case VNil
  obtain w where w: "\<And>e. out (encodeNil E e) = out e @ w"
    "\<And>d rest. stands d (w @ rest) \<Longrightarrow> \<exists>d1 d2. initReadNext D d = Inr d1 \<and> tryDecodeAsNil D d1 = (True, d2) \<and> stands d2 rest"
    using nil_law by blast
  have "\<exists>d'. decodeValue D n VNil d = Inr (VNil, d') \<and> stands d' rest" if "1 \<le> n" "stands d (w @ rest)" for n d rest
  proof -
    have "0 < n" using that(1) by simp
    then obtain m where "n = Suc m" by (cases n) simp_all
    then show ?thesis using w(2) [OF that(2)] by auto
  qed
  then show ?case using w(1) by (auto simp: carries_def)
next
  case (VSlice vs)
  obtain w1 where w1: "\<And>e. out (encodeArrayPreamble E (length vs) e) = out e @ w1"
    "\<And>d rest f. stands d (w1 @ rest) \<Longrightarrow> \<exists>d1 d2. initReadNext D d = Inr d1 \<and> tryDecodeAsNil D d1 = (False, d1) \<and> stands d2 rest \<and>
          kInterface D f d1 = or_error (dec_list f (replicate (length vs) VNil) d2) (\<lambda>(vs, d). Inr (VSlice vs, d))"
    using array_law [of "length vs"] VSlice.prems by auto
  have "\<forall>v \<in> set vs. \<exists>w. carries w v" using VSlice by (simp add: list_all_iff)
  then obtain w2 where w2: "\<And>e. out (each (map (encode E syms) vs) e) = out e @ w2"
    "\<And>n d rest. (\<forall>v \<in> set vs. depth v \<le> n) \<Longrightarrow> stands d (w2 @ rest) \<Longrightarrow>
      \<exists>d'. dec_list (decodeValue D n) (replicate (length vs) VNil) d = Inr (map (normal a) vs, d') \<and> stands d' rest"
    using carries_list [of vs] by blast
  have "carries (w1 @ w2) (VSlice vs)"
  proof (rule carriesI)
    show "out (encode E syms (VSlice vs) e) = out e @ w1 @ w2" for e
      using w1(1) w2(1) by (simp add: encSliceIntf_def)
    fix n d rest
    assume n: "depth (VSlice vs) \<le> Suc n" and stands: "stands d ((w1 @ w2) @ rest)"
    obtain d1 d2 where d1: "initReadNext D d = Inr d1" "tryDecodeAsNil D d1 = (False, d1)" "stands d2 (w2 @ rest)"
        "kInterface D (decodeValue D n) d1 =
          or_error (dec_list (decodeValue D n) (replicate (length vs) VNil) d2) (\<lambda>(vs, d). Inr (VSlice vs, d))"
      using w1(2) [of d "w2 @ rest" "decodeValue D n"] stands by auto
    have "\<forall>v \<in> set vs. depth v \<le> n" using n by simp
    from w2(2) [OF this d1(3)] d1 show "\<exists>d1 d2. initReadNext D d = Inr d1 \<and> tryDecodeAsNil D d1 = (False, d1) \<and>
        kInterface D (decodeValue D n) d1 = Inr (normal a (VSlice vs), d2) \<and> stands d2 rest"
      by auto
  qed
  then show ?case by blast
next
  case (VMap kvs)
  obtain w1 where w1: "\<And>e. out (encodeMapPreamble E (length kvs) e) = out e @ w1"
    "\<And>d rest f. stands d (w1 @ rest) \<Longrightarrow> \<exists>d1 d2. initReadNext D d = Inr d1 \<and> tryDecodeAsNil D d1 = (False, d1) \<and> stands d2 rest \<and>
          kInterface D f d1 = or_error (dec_entries f (length kvs) [] d2) (\<lambda>(m, d). Inr (VMap m, d))"
    using map_law [of "length kvs"] VMap.prems by auto
  have all: "\<forall>kv \<in> set kvs. (\<exists>w. carries w (fst kv)) \<and> (\<exists>w. carries w (snd kv))"
  proof
    fix kv assume kv: "kv \<in> set kvs"
    have "encodable most atom a (fst kv) \<and> encodable most atom a (snd kv)" using VMap.prems kv by (auto simp: list_all_iff)
    moreover have "fst kv \<in> Basic_BNFs.fsts kv" "snd kv \<in> Basic_BNFs.snds kv" by (cases kv; simp)+
    ultimately show "(\<exists>w. carries w (fst kv)) \<and> (\<exists>w. carries w (snd kv))" using VMap.IH kv by blast
  qed
  have keys: "good_keys (map (\<lambda>kv. string_key (normal a (fst kv))) kvs)" using VMap.prems by simp
  obtain w2 where out2: "\<forall>e. out (each (map (\<lambda>(k, x). encode E syms x \<circ> encode E syms k) kvs) e) = out e @ w2"
    and dec2: "\<forall>n d rest m. (\<forall>kv \<in> set kvs. depth (fst kv) \<le> n \<and> depth (snd kv) \<le> n) \<longrightarrow>
      (\<forall>k \<in> set (map fst m). \<forall>kv \<in> set kvs. \<not> same_key k (string_key (normal a (fst kv)))) \<longrightarrow> stands d (w2 @ rest) \<longrightarrow>
      (\<exists>d'. dec_entries (decodeValue D n) (length kvs) m d =
          Inr (m @ map (\<lambda>(k, x). (string_key (normal a k), normal a x)) kvs, d') \<and> stands d' rest)"
    using carries_entries [OF all keys] by (elim exE conjE)
  have w2: "\<exists>d'. dec_entries (decodeValue D n) (length kvs) [] d =
          Inr (map (\<lambda>(k, x). (string_key (normal a k), normal a x)) kvs, d') \<and> stands d' rest"
    if "\<forall>kv \<in> set kvs. depth (fst kv) \<le> n \<and> depth (snd kv) \<le> n" "stands d (w2 @ rest)" for n d rest
    using dec2 [rule_format, of n "[]" d rest] that by simp
  have "carries (w1 @ w2) (VMap kvs)"
  proof (rule carriesI)
    have "map (\<lambda>(k, x) e. x (k e)) (map (map_prod (encode E syms) (encode E syms)) kvs) =
        map (\<lambda>(k, x). encode E syms x \<circ> encode E syms k) kvs"
      by (simp add: case_prod_unfold comp_def)
    then show "out (encode E syms (VMap kvs) e) = out e @ w1 @ w2" for e
      using w1(1) out2 by (simp add: encMapIntfIntf_def del: map_map)
    fix n d rest
    assume n: "depth (VMap kvs) \<le> Suc n" and stands: "stands d ((w1 @ w2) @ rest)"
    obtain d1 d2 where d1: "initReadNext D d = Inr d1" "tryDecodeAsNil D d1 = (False, d1)" "stands d2 (w2 @ rest)"
        "kInterface D (decodeValue D n) d1 =
          or_error (dec_entries (decodeValue D n) (length kvs) [] d2) (\<lambda>(m, d). Inr (VMap m, d))"
      using w1(2) [of d "w2 @ rest" "decodeValue D n"] stands by auto
    have deep: "\<forall>kv \<in> set kvs. depth (fst kv) \<le> n \<and> depth (snd kv) \<le> n" using n by auto
    have "normal a (VMap kvs) = VMap (map (\<lambda>(k, x). (string_key (normal a k), normal a x)) kvs)"
      by (simp add: case_prod_unfold map_prod_def)
    with w2 [OF deep d1(3)] d1 show "\<exists>d1 d2. initReadNext D d = Inr d1 \<and> tryDecodeAsNil D d1 = (False, d1) \<and>
        kInterface D (decodeValue D n) d1 = Inr (normal a (VMap kvs), d2) \<and> stands d2 rest"
      by auto
  qed
  then show ?case by blast
qed (simp_all add: carried_atom)

lemma roundtrip:
  assumes "encodable most atom a (generic v)"
  shows "\<exists>w. (\<forall>e. out (encode E syms v e) = out e @ w) \<and>
    (\<forall>n d rest. depth (generic v) \<le> n \<longrightarrow> stands d (w @ rest) \<longrightarrow>
      (\<exists>d'. Decode D n d = Inr (normal a (generic v), d') \<and> stands d' rest))"
proof -
  obtain w where w: "carries w (generic v)" using carried [OF assms] by blast
  have "\<exists>d'. Decode D n d = Inr (normal a (generic v), d') \<and> stands d' rest"
    if n: "depth (generic v) \<le> n" and stands: "stands d (w @ rest)" for n d rest
  proof -
    obtain d' where d': "decodeValue D n VNil d = Inr (normal a (generic v), d')" "stands d' rest"
      using carriesD(2) [OF w n stands] by blast
    moreover have "0 < n" using d' by (cases n) simp_all
    ultimately obtain d1 where d1: "initReadNext D d = Inr d1" by (cases n) (auto simp: or_error_Inr_iff)
    have "decodeValue D n VNil d1 = decodeValue D n VNil d" using d1 init_again [OF d1] by (cases n) simp_all
    then show ?thesis using d' d1 by (simp add: Decode_def)
  qed
  then show ?thesis using w by (auto simp: carries_def encode_generic)
qed

end

end
