(* ===== verification/Codec_Laws.thy ===== *)
theory Codec_Laws
  imports Codec_Roundtrip
begin

text \<open>What the laws of the drivers share: conversions between widths, and reading from a state.\<close>

unbundle bit_operations_syntax

section \<open>Conversions\<close>

lemma ucast_ucast_id: "unat u < 2 ^ LENGTH('b :: len) \<Longrightarrow> ucast (ucast u :: 'b word) = (u :: uint64)"
proof -
  assume a: "unat u < 2 ^ LENGTH('b)"
  have u: "unat (word_of_nat (unat u) :: 'b word) = unat u"
    using a by (simp only: unsigned_of_nat take_bit_nat_eq_self of_nat_id)
  have "(ucast (word_of_nat (unat u) :: 'b word) :: uint64) = word_of_nat (unat (word_of_nat (unat u) :: 'b word))" by simp
  then show ?thesis unfolding u by simp
qed

lemma sint_ucast:
  assumes "- (2 ^ (LENGTH('b :: len) - 1)) \<le> sint i" "sint i < 2 ^ (LENGTH('b) - 1)" "LENGTH('b) \<le> 64"
  shows "sint (ucast (i :: uint64) :: 'b word) = sint i"
proof -
  have "(ucast i :: 'b word) = word_of_int (sint i)" using assms(3)
    by transfer (simp add: take_bit_signed_take_bit)
  then have "sint (ucast i :: 'b word) = signed_take_bit (LENGTH('b) - 1) (sint i)" by (simp add: signed_scast_eq)
  then show ?thesis using assms(1,2) by (simp add: signed_take_bit_int_eq_self)
qed

lemma scast_ucast_id:
  assumes "- (2 ^ (LENGTH('b :: len) - 1)) \<le> sint i" "sint i < 2 ^ (LENGTH('b) - 1)" "LENGTH('b) \<le> 64"
  shows "scast (ucast i :: 'b word) = (i :: uint64)"
proof -
  have "scast (ucast i :: 'b word) = (word_of_int (sint (ucast i :: 'b word)) :: uint64)" by simp
  then show ?thesis using sint_ucast [OF assms] by simp
qed

lemma scast_lt: "sint (i :: uint64) < 0 \<Longrightarrow> - 32 \<le> sint i \<Longrightarrow> 0xe0 \<le> (ucast i :: byte)"
proof -
  assume i: "sint i < 0" "- 32 \<le> sint i"
  have "sint (ucast i :: byte) = sint i" by (rule sint_ucast) (use i in simp_all)
  then have "uint (ucast i :: byte) = sint i mod 256" by (simp add: uint_sint take_bit_eq_mod)
  also have "\<dots> = (sint i + 256) mod 256" by simp
  also have "\<dots> = sint i + 256" using i by (intro mod_pos_pos_trivial) simp_all
  finally show ?thesis using i by (simp add: word_le_def)
qed

lemma sint_uint64: "0 \<le> sint (i :: uint64) \<Longrightarrow> sint i = uint i"
  using uint_sint [of i] sint_less [of i] by (simp add: take_bit_int_eq_self)

lemma sint_small: "uint (i :: uint64) < 2 ^ 63 \<Longrightarrow> sint i = uint i"
proof -
  assume "uint i < 2 ^ 63"
  moreover have "- (2 ^ 63) \<le> uint i" by (rule order.trans [OF _ uint_ge_0]) simp
  ultimately have "signed_take_bit 63 (uint i) = uint i" by (intro signed_take_bit_int_eq_self)
  then show ?thesis by (simp add: sint_uint)
qed

lemma uint64_le: "(u :: uint64) \<le> numeral n \<longleftrightarrow> unat u \<le> unat (numeral n :: uint64)"
  by (simp add: word_le_nat_alt)

lemma of_nat_small: "n < 2 ^ LENGTH('a :: len) \<Longrightarrow> uint (of_nat n :: 'a word) = int n"
proof -
  assume "n < 2 ^ LENGTH('a)"
  then have "int n < 2 ^ LENGTH('a)" by (metis of_nat_less_iff of_nat_numeral of_nat_power)
  then have "take_bit LENGTH('a) (int n) = int n" by (simp add: take_bit_int_eq_self)
  then show ?thesis by (simp add: unsigned_of_nat of_nat_take_bit)
qed

section \<open>States\<close>

context byte_source begin

text \<open>Between two values, and behind the descriptor of a value.\<close>

definition stands :: "'r dec_state \<Rightarrow> bytes \<Rightarrow> bool" where
  "stands d rest \<longleftrightarrow> \<not> bdRead d \<and> ok (reader d) \<and> left (reader d) = rest"

definition opened :: "'r dec_state \<Rightarrow> byte \<Rightarrow> bytes \<Rightarrow> bool" where
  "opened d b rest \<longleftrightarrow> bdRead d \<and> bd d = b \<and> bdType d = valueTypeUnset \<and> ok (reader d) \<and> left (reader d) = rest"

lemma init_front: "stands d (b # rest) \<Longrightarrow> \<exists>d1. init_read rd d = Inr d1 \<and> opened d1 b rest"
  using readn1_front [of "reader d" b rest] by (auto simp: stands_def opened_def init_read_def reading_def)

lemma init_opened [simp]: "opened d b rest \<Longrightarrow> init_read rd d = Inr d"
  by (simp add: opened_def init_read_def)

lemma opened_bd: "opened d b rest \<Longrightarrow> bd d = b"
  by (simp add: opened_def)

lemma ended_stands: "opened d b rest \<Longrightarrow> stands (ended d) rest"
  by (simp add: opened_def stands_def ended_def)

lemma read_opened:
  assumes "opened d b w"
  shows "w = x # rest \<Longrightarrow> \<exists>d'. reading (readn1 rd) d = Inr (x, d') \<and> opened d' b rest"
    "w = PutUint16 v2 @ rest \<Longrightarrow> \<exists>d'. reading (readUint16 rd) d = Inr (v2, d') \<and> opened d' b rest"
    "w = PutUint32 v4 @ rest \<Longrightarrow> \<exists>d'. reading (readUint32 rd) d = Inr (v4, d') \<and> opened d' b rest"
    "w = PutUint64 v8 @ rest \<Longrightarrow> \<exists>d'. reading (readUint64 rd) d = Inr (v8, d') \<and> opened d' b rest"
    "w = bs @ rest \<Longrightarrow> \<exists>d'. reading (readn rd (int (length bs))) d = Inr (bs, d') \<and> opened d' b rest"
    "w = bs @ rest \<Longrightarrow> \<exists>d'. reading (readb rd (length bs)) d = Inr (bs, d') \<and> opened d' b rest"
  using assms readn1_front [of "reader d" x rest] readUint_front(1) [of "reader d" v2 rest]
    readUint_front(2) [of "reader d" v4 rest] readUint_front(3) [of "reader d" v8 rest]
    readn_front [of "reader d" bs rest] readb_front [of "reader d" bs rest]
  by (auto simp: opened_def reading_def)

text \<open>Another descriptor byte does not matter to the reader; \<open>ended\<close> may come early.\<close>

definition behind :: "'r dec_state \<Rightarrow> byte \<Rightarrow> bytes \<Rightarrow> bool" where
  "behind d b rest \<longleftrightarrow> bd d = b \<and> ok (reader d) \<and> left (reader d) = rest"

lemma opened_behind: "opened d b rest \<Longrightarrow> behind d b rest" "opened d b rest \<Longrightarrow> behind (ended d) b rest"
  by (simp_all add: opened_def behind_def ended_def)

lemma behind_stands: "behind d b rest \<Longrightarrow> stands (ended d) rest"
  by (simp add: behind_def stands_def ended_def)

lemma read_behind:
  assumes "behind d b w"
  shows "w = x # rest \<Longrightarrow> \<exists>d'. reading (readn1 rd) d = Inr (x, d') \<and> behind d' b rest"
    "w = PutUint16 v2 @ rest \<Longrightarrow> \<exists>d'. reading (readUint16 rd) d = Inr (v2, d') \<and> behind d' b rest"
    "w = PutUint32 v4 @ rest \<Longrightarrow> \<exists>d'. reading (readUint32 rd) d = Inr (v4, d') \<and> behind d' b rest"
    "w = PutUint64 v8 @ rest \<Longrightarrow> \<exists>d'. reading (readUint64 rd) d = Inr (v8, d') \<and> behind d' b rest"
    "w = bs @ rest \<Longrightarrow> \<exists>d'. reading (readn rd (int (length bs))) d = Inr (bs, d') \<and> behind d' b rest"
    "w = bs @ rest \<Longrightarrow> \<exists>d'. reading (readb rd (length bs)) d = Inr (bs, d') \<and> behind d' b rest"
  using assms readn1_front [of "reader d" x rest] readUint_front(1) [of "reader d" v2 rest]
    readUint_front(2) [of "reader d" v4 rest] readUint_front(3) [of "reader d" v8 rest]
    readn_front [of "reader d" bs rest] readb_front [of "reader d" bs rest]
  by (auto simp: behind_def reading_def)

lemma fill_bytes_front:
  assumes "behind d b (bs @ rest)"
  shows "\<exists>d'. fill_bytes rd (int (length bs)) [] d =
      Inr ((if bs = [] then None else Some bs, bs \<noteq> [], []), d') \<and> stands d' rest"
proof (cases "bs = []")
  case True
  then show ?thesis using assms behind_stands [of d b rest] by (simp add: fill_bytes_def)
next
  case False
  obtain d' where "reading (readb rd (length bs)) d = Inr (bs, d')" "behind d' b rest"
    using read_behind(6) [OF assms refl] by blast
  then show ?thesis using False behind_stands by (auto simp: fill_bytes_def)
qed

lemma behind_bd: "behind d b rest \<Longrightarrow> bd d = b"
  by (simp add: behind_def)

lemma stands_behind: "stands d rest \<Longrightarrow> behind d (bd d) rest"
  by (simp add: stands_def behind_def)

lemma ended_again: "stands d rest \<Longrightarrow> stands (ended d) rest"
  by (simp add: stands_def ended_def)

text \<open>A value that is written as a descriptor and what follows it.\<close>

definition yields :: "'r dec_state decDriver \<Rightarrow> byte \<Rightarrow> bytes \<Rightarrow> val \<Rightarrow> bool" where
  "yields D b w v \<longleftrightarrow> (\<forall>d rest f. opened d b (w @ rest) \<longrightarrow>
     tryDecodeAsNil D d = (False, d) \<and> (\<exists>d'. kInterface D f d = Inr (v, d') \<and> stands d' rest))"

lemma yields_law:
  assumes "initReadNext D = init_read rd" "yields D b w v" "stands d ((b # w) @ rest)"
  shows "\<exists>d1 d2. initReadNext D d = Inr d1 \<and> tryDecodeAsNil D d1 = (False, d1) \<and> kInterface D f d1 = Inr (v, d2) \<and> stands d2 rest"
proof -
  obtain d1 where "init_read rd d = Inr d1" "opened d1 b (w @ rest)" using init_front [of d b "w @ rest"] assms(3) by auto
  then show ?thesis using assms(1,2) by (auto simp: yields_def)
qed

end

lemma bytes_stands: "bytes_source.stands d rest \<Longrightarrow>
    \<not> bdRead d \<and> drop (rcursor (reader d)) (rdata (reader d)) = rest"
  by (simp add: bytes_source.stands_def)

lemma new_stands: "bytes_source.stands (new_dec_state (new_bytes_reader b)) b" "io_source.stands (new_dec_state segs) (concat segs)"
  by (simp_all add: bytes_source.stands_def io_source.stands_def new_dec_state_def new_bytes_reader_def)

text \<open>What a codec does over both readers, as one statement.\<close>

lemma both_readers:
  assumes "\<exists>x. (\<forall>e. out (enc e) = out e @ x) \<and>
      (\<forall>n d rest. m \<le> n \<longrightarrow> bytes_source.stands d (x @ rest) \<longrightarrow> (\<exists>d'. f n d = Inr (r, d') \<and> bytes_source.stands d' rest))"
    "\<exists>x. (\<forall>e. out (enc e) = out e @ x) \<and>
      (\<forall>n d rest. m \<le> n \<longrightarrow> io_source.stands d (x @ rest) \<longrightarrow> (\<exists>d'. g n d = Inr (r, d') \<and> io_source.stands d' rest))"
    "out e = []" "m \<le> n" and w: "w = out (enc e)" and segs: "concat segs = w @ rest"
  shows "\<exists>d d'. f n (new_dec_state (new_bytes_reader (w @ rest))) = Inr (r, d) \<and> \<not> bdRead d \<and>
      drop (rcursor (reader d)) (rdata (reader d)) = rest \<and>
    g n (new_dec_state segs) = Inr (r, d') \<and> \<not> bdRead d' \<and> concat (reader d') = rest"
proof -
  obtain x where x: "\<forall>e. out (enc e) = out e @ x"
    "\<forall>n d rest. m \<le> n \<longrightarrow> bytes_source.stands d (x @ rest) \<longrightarrow> (\<exists>d'. f n d = Inr (r, d') \<and> bytes_source.stands d' rest)"
    using assms(1) by blast
  obtain y where y: "\<forall>e. out (enc e) = out e @ y"
    "\<forall>n d rest. m \<le> n \<longrightarrow> io_source.stands d (y @ rest) \<longrightarrow> (\<exists>d'. g n d = Inr (r, d') \<and> io_source.stands d' rest)"
    using assms(2) by blast
  have xy: "x = w" "y = w" using x(1) y(1) w assms(3) by simp_all
  obtain d where d: "f n (new_dec_state (new_bytes_reader (w @ rest))) = Inr (r, d)" "bytes_source.stands d rest"
    using x(2) assms(4) new_stands(1) [of "w @ rest"] xy(1) by blast
  obtain d' where d': "g n (new_dec_state segs) = Inr (r, d')" "io_source.stands d' rest"
    using y(2) assms(4) new_stands(2) [of segs] segs xy(2) by metis
  show ?thesis using d d' bytes_stands [OF d(2)] by (auto simp: io_source.stands_def)
qed

end
