(* ===== verification/Codec_Msgpack_Properties.thy ===== *)
theory Codec_Msgpack_Properties
  imports Codec_Msgpack Codec_Laws
begin

text \<open>
  The MessagePack drivers keep the contract \<open>codec\<close> over every source of bytes, so whole values
  survive: what they become is \<open>mp_value\<close> of their simple parts.
\<close>

section \<open>What is decoded for a simple value\<close>

fun mp_atom :: "val \<Rightarrow> bool" where
  "mp_atom (VString s) \<longleftrightarrow> length s < 2 ^ 32"
| "mp_atom (VBytes b) \<longleftrightarrow> length b < 2 ^ 32"
| "mp_atom (VRawExt t x) \<longleftrightarrow> (case x of None \<Rightarrow> False | Some b \<Rightarrow> length b < 2 ^ 32)"
| "mp_atom (VBool b) \<longleftrightarrow> True"
| "mp_atom (VInt i) \<longleftrightarrow> True"
| "mp_atom (VUint u) \<longleftrightarrow> True"
| "mp_atom (VFloat32 f) \<longleftrightarrow> True"
| "mp_atom (VFloat64 f) \<longleftrightarrow> True"
| "mp_atom (VTime t) \<longleftrightarrow> True"
| "mp_atom v \<longleftrightarrow> False"

definition mp_raw :: "MsgpackHandle \<Rightarrow> bytes \<Rightarrow> val" where
  "mp_raw h b = (if mp_WriteExt h \<or> \<not> RawToString h then VBytes b else VString b)"

fun mp_value :: "MsgpackHandle \<Rightarrow> val \<Rightarrow> val" where
  "mp_value h (VInt i) = (if 127 < sint i then VUint i else VInt i)"
| "mp_value h (VUint u) = (if u \<le> 127 then VInt u else VUint u)"
| "mp_value h (VFloat32 f) = VFloat64 (widen32 f)"
| "mp_value h (VString s) = (if RawToString h then VString s else VBytes s)"
| "mp_value h (VBytes b) = mp_raw h b"
| "mp_value h (VRawExt t (Some b)) =
     (if mp_WriteExt h then VRawExt t (if b = [] then None else Some b) else mp_raw h b)"
| "mp_value h (VTime t) = mp_raw h (MarshalBinary t)"
| "mp_value h v = v"

section \<open>Containers\<close>

lemma fix_lengths:
  "\<forall>n \<in> set [0..<32]. (let b = 0xa0 OR of_nat n :: byte in 0xa0 \<le> b \<and> b \<le> 0xbf \<and> 0xa0 AND b = 0xa0 \<and> uint (0xa0 XOR b) = int n)"
  "\<forall>n \<in> set [0..<16]. (let b = 0x90 OR of_nat n :: byte in 0x90 \<le> b \<and> b \<le> 0x9f \<and> 0x90 AND b = 0x90 \<and> uint (0x90 XOR b) = int n)"
  "\<forall>n \<in> set [0..<16]. (let b = 0x80 OR of_nat n :: byte in 0x80 \<le> b \<and> b \<le> 0x8f \<and> 0x80 AND b = 0x80 \<and> uint (0x80 XOR b) = int n)"
  by code_simp+


text \<open>The descriptors with which a container of a type begins.\<close>

definition starts :: "msgpackContainerType \<Rightarrow> byte \<Rightarrow> bool" where
  "starts ct b \<longleftrightarrow> (if ct = msgpackContainerStr then mp_str b else if ct = msgpackContainerBin then mp_bin b
     else if ct = msgpackContainerList then mp_array b else mp_map b)"

lemmas container_defs = msgpackContainerStr_def msgpackContainerBin_def msgpackContainerList_def msgpackContainerMap_def

lemma starts_simps [simp]:
  "starts msgpackContainerStr b = mp_str b" "starts msgpackContainerBin b = mp_bin b"
  "starts msgpackContainerList b = mp_array b" "starts msgpackContainerMap b = mp_map b"
  by (simp_all add: starts_def container_defs)

context byte_source begin

lemma fixed_len:
  assumes ct: "ct \<in> {msgpackContainerStr, msgpackContainerList, msgpackContainerMap}" and n: "n < fixCutoff ct"
  shows "starts ct (bFixMin ct OR of_nat n) \<and>
    (behind d (bFixMin ct OR of_nat n) rest \<longrightarrow> readContainerLen rd ct d = Inr (int n, ended d))"
proof -
  consider "ct = msgpackContainerStr" "n < 32" | "ct = msgpackContainerList" "n < 16" | "ct = msgpackContainerMap" "n < 16"
    using ct n by (auto simp: container_defs)
  then have s: "starts ct (bFixMin ct OR of_nat n)"
    and f: "bFixMin ct AND (bFixMin ct OR of_nat n) = bFixMin ct" "uint (bFixMin ct XOR (bFixMin ct OR of_nat n)) = int n"
    and b: "bFixMin ct OR of_nat n \<notin> {mpNil, b8 ct, b16 ct, b32 ct}"
    using fix_lengths [THEN bspec, of n]
    by (cases; simp add: Let_def mp_str_def mp_array_def mp_map_def; auto simp: container_defs)+
  show ?thesis using s f b behind_bd [of d "bFixMin ct OR of_nat n" rest] by (auto simp: readContainerLen_def)
qed

lemma container_len:
  assumes ct: "ct \<in> {msgpackContainerStr, msgpackContainerBin, msgpackContainerList, msgpackContainerMap}"
    and n: "n < 2 ^ 32"
  shows "\<exists>b w. all_written (writeContainerLen h ct n) = b # w \<and> starts ct b \<and>
    (\<forall>d rest. behind d b (w @ rest) \<longrightarrow> (\<exists>d'. readContainerLen rd ct d = Inr (int n, d') \<and> stands d' rest))"
proof -
  consider "hasFixMin ct" "n < fixCutoff ct"
    | "\<not> (hasFixMin ct \<and> n < fixCutoff ct)" "has8 ct" "n < 256" "has8Always ct \<or> mp_WriteExt h"
    | "\<not> (hasFixMin ct \<and> n < fixCutoff ct)" "\<not> (has8 ct \<and> n < 256 \<and> (has8Always ct \<or> mp_WriteExt h))" "n < 65536"
    | "\<not> (hasFixMin ct \<and> n < fixCutoff ct)" "\<not> (has8 ct \<and> n < 256 \<and> (has8Always ct \<or> mp_WriteExt h))" "\<not> n < 65536"
    by linarith
  then show ?thesis
  proof cases
    case 1
    then have "ct \<in> {msgpackContainerStr, msgpackContainerList, msgpackContainerMap}" using ct by (auto simp: container_defs)
    note short = fixed_len [OF this 1(2)]
    have "all_written (writeContainerLen h ct n) = [bFixMin ct OR of_nat n]" using 1 by (simp add: writeContainerLen_def)
    with short show ?thesis using behind_stands by fastforce
  next
    case 2
    have w: "all_written (writeContainerLen h ct n) = b8 ct # [of_nat n]" using 2 by (simp add: writeContainerLen_def)
    have b: "starts ct (b8 ct)" "b8 ct \<noteq> mpNil" using ct 2 by (auto simp: container_defs starts_def mp_str_def mp_bin_def)
    have "\<exists>d'. readContainerLen rd ct d = Inr (int n, d') \<and> stands d' rest" if o: "behind d (b8 ct) ([of_nat n] @ rest)" for d rest
    proof -
      obtain d1 where "reading (readn1 rd) d = Inr (of_nat n, d1)" "behind d1 (b8 ct) rest"
        using read_behind(1) [OF o] by auto
      then show ?thesis using b(2) behind_bd [OF o] behind_stands of_nat_small [of n, where 'a = 8] 2(3)
        by (auto simp: readContainerLen_def)
    qed
    then show ?thesis using w b(1) by blast
  next
    case 3
    have w: "all_written (writeContainerLen h ct n) = b16 ct # PutUint16 (of_nat n)" 
      by (simp only: writeContainerLen_def 3 if_False if_True all_written_simps written.simps append_Nil append_Cons append_Nil2)
    have b: "starts ct (b16 ct)" "b16 ct \<noteq> mpNil" "b16 ct \<noteq> b8 ct"
      using ct by (auto simp: container_defs starts_def mp_str_def mp_bin_def mp_array_def mp_map_def)
    have "\<exists>d'. readContainerLen rd ct d = Inr (int n, d') \<and> stands d' rest"
      if o: "behind d (b16 ct) (PutUint16 (of_nat n) @ rest)" for d rest
    proof -
      obtain d1 where "reading (readUint16 rd) d = Inr (of_nat n, d1)" "behind d1 (b16 ct) rest"
        using read_behind(2) [OF o] by auto
      then show ?thesis using b(2,3) behind_bd [OF o] behind_stands of_nat_small [of n, where 'a = 16] 3(3)
        by (auto simp: readContainerLen_def)
    qed
    then show ?thesis using w b(1) by blast
  next
    case 4
    have w: "all_written (writeContainerLen h ct n) = b32 ct # PutUint32 (of_nat n)" 
      by (simp only: writeContainerLen_def 4 if_False if_True all_written_simps written.simps append_Nil append_Cons append_Nil2)
    have b: "starts ct (b32 ct)" "b32 ct \<noteq> mpNil" "b32 ct \<noteq> b8 ct" "b32 ct \<noteq> b16 ct"
      using ct by (auto simp: container_defs starts_def mp_str_def mp_bin_def mp_array_def mp_map_def)
    have "\<exists>d'. readContainerLen rd ct d = Inr (int n, d') \<and> stands d' rest"
      if o: "behind d (b32 ct) (PutUint32 (of_nat n) @ rest)" for d rest
    proof -
      obtain d1 where "reading (readUint32 rd) d = Inr (of_nat n, d1)" "behind d1 (b32 ct) rest"
        using read_behind(3) [OF o] by auto
      then show ?thesis using b(2,3,4) behind_bd [OF o] behind_stands of_nat_small [of n, where 'a = 32] n
        by (auto simp: readContainerLen_def)
    qed
    then show ?thesis using w b(1) by blast
  qed
qed

lemma naked_read:
  assumes "opened d b w"
  shows "w = x # rest \<Longrightarrow> \<exists>d'. naked_int (reading (readn1 rd)) c t d = Inr (Decoded t (c x), d') \<and> stands d' rest"
    "w = PutUint16 v2 @ rest \<Longrightarrow> \<exists>d'. naked_int (reading (readUint16 rd)) c2 t d = Inr (Decoded t (c2 v2), d') \<and> stands d' rest"
    "w = PutUint32 v4 @ rest \<Longrightarrow> \<exists>d'. naked_int (reading (readUint32 rd)) c4 t d = Inr (Decoded t (c4 v4), d') \<and> stands d' rest"
    "w = PutUint64 v8 @ rest \<Longrightarrow> \<exists>d'. naked_int (reading (readUint64 rd)) c8 t d = Inr (Decoded t (c8 v8), d') \<and> stands d' rest"
  using read_opened(1-4) [OF assms] ended_stands unfolding naked_int_def by fastforce+

section \<open>Simple values\<close>

lemma mp_yieldsI:
  assumes "b \<noteq> mpNil" "\<And>d rest. opened d b (w @ rest) \<Longrightarrow> \<exists>d' t. mp_decodeNaked rd h d = Inr (Decoded t v, d') \<and> stands d' rest"
  shows "yields (msgpackDecDriver rd h) b w v"
  unfolding yields_def
proof (intro allI impI)
  fix d rest f
  assume o: "opened d b (w @ rest)"
  obtain d' t where "mp_decodeNaked rd h d = Inr (Decoded t v, d')" "stands d' rest" using assms(2) [OF o] by blast
  then show "tryDecodeAsNil (msgpackDecDriver rd h) d = (False, d) \<and>
      (\<exists>d'. kInterface (msgpackDecDriver rd h) f d = Inr (v, d') \<and> stands d' rest)"
    using assms(1) opened_bd [OF o] by (simp add: msgpackDecDriver_def mp_tryDecodeAsNil_def kInterface_def)
qed

lemma mp_yields_simple:
  "yields (msgpackDecDriver rd h) mpFalse [] (VBool False)"
  "yields (msgpackDecDriver rd h) mpTrue [] (VBool True)"
  "b \<le> 0x7f \<or> 0xe0 \<le> b \<Longrightarrow> yields (msgpackDecDriver rd h) b [] (VInt (scast b))"
proof -
  assume b: "b \<le> 0x7f \<or> 0xe0 \<le> b"
  then have "b \<notin> {mpNil, mpFalse, mpTrue, mpFloat, mpDouble, mpUint8, mpUint16, mpUint32, mpUint64, mpInt8, mpInt16, mpInt32, mpInt64}"
    by auto
  with b show "yields (msgpackDecDriver rd h) b [] (VInt (scast b))"
    by (intro mp_yieldsI) (auto simp: mp_decodeNaked_def Let_def opened_bd intro: ended_stands)
qed (rule mp_yieldsI; auto simp: mp_decodeNaked_def Let_def opened_bd intro: ended_stands)+

lemma mp_yields_int:
  assumes "b \<noteq> mpNil" "\<And>d. bd d = b \<Longrightarrow> bdRead d \<Longrightarrow> \<exists>t. mp_decodeNaked rd h d = naked_int (reading f) c t d"
    "\<And>d rest t. opened d b (w @ rest) \<Longrightarrow> \<exists>d'. naked_int (reading f) c t d = Inr (Decoded t (c x), d') \<and> stands d' rest"
  shows "yields (msgpackDecDriver rd h) b w (c x)"
proof (rule mp_yieldsI [OF assms(1)])
  fix d rest
  assume o: "opened d b (w @ rest)"
  then obtain t where "mp_decodeNaked rd h d = naked_int (reading f) c t d" using assms(2) [of d] by (auto simp: opened_def)
  then show "\<exists>d' t. mp_decodeNaked rd h d = Inr (Decoded t (c x), d') \<and> stands d' rest" using assms(3) [OF o, of t] by auto
qed

lemma mp_yields_read:
  "yields (msgpackDecDriver rd h) mpFloat (PutUint32 v4) (VFloat64 (widen32 v4))"
  "yields (msgpackDecDriver rd h) mpDouble (PutUint64 v8) (VFloat64 v8)"
  "yields (msgpackDecDriver rd h) mpUint8 [x] (VUint (ucast x))"
  "yields (msgpackDecDriver rd h) mpUint16 (PutUint16 v2) (VUint (ucast v2))"
  "yields (msgpackDecDriver rd h) mpUint32 (PutUint32 v4) (VUint (ucast v4))"
  "yields (msgpackDecDriver rd h) mpUint64 (PutUint64 v8) (VUint v8)"
  "yields (msgpackDecDriver rd h) mpInt8 [x] (VInt (scast x))"
  "yields (msgpackDecDriver rd h) mpInt16 (PutUint16 v2) (VInt (scast v2))"
  "yields (msgpackDecDriver rd h) mpInt32 (PutUint32 v4) (VInt (scast v4))"
  "yields (msgpackDecDriver rd h) mpInt64 (PutUint64 v8) (VInt v8)"
proof -
  note 1 = mp_yields_int [OF _ _ naked_read(1) [OF _ append_Cons [of _ "[]", unfolded append_Nil]]]
    and 2 = mp_yields_int [OF _ _ naked_read(2) [OF _ refl]]
    and 4 = mp_yields_int [OF _ _ naked_read(3) [OF _ refl]]
    and 8 = mp_yields_int [OF _ _ naked_read(4) [OF _ refl]]
  have naked: "bdRead d \<Longrightarrow> init_read rd d = Inr d" for d by (simp add: init_read_def)
  show "yields (msgpackDecDriver rd h) mpFloat (PutUint32 v4) (VFloat64 (widen32 v4))"
    "yields (msgpackDecDriver rd h) mpUint32 (PutUint32 v4) (VUint (ucast v4))"
    "yields (msgpackDecDriver rd h) mpInt32 (PutUint32 v4) (VInt (scast v4))"
    by (rule 4; auto simp: mp_decodeNaked_def naked)+
  show "yields (msgpackDecDriver rd h) mpDouble (PutUint64 v8) (VFloat64 v8)"
    "yields (msgpackDecDriver rd h) mpUint64 (PutUint64 v8) (VUint v8)"
    "yields (msgpackDecDriver rd h) mpInt64 (PutUint64 v8) (VInt v8)"
    by (rule 8; auto simp: mp_decodeNaked_def naked)+
  show "yields (msgpackDecDriver rd h) mpUint16 (PutUint16 v2) (VUint (ucast v2))"
    "yields (msgpackDecDriver rd h) mpInt16 (PutUint16 v2) (VInt (scast v2))"
    by (rule 2; auto simp: mp_decodeNaked_def naked)+
  show "yields (msgpackDecDriver rd h) mpUint8 [x] (VUint (ucast x))"
    "yields (msgpackDecDriver rd h) mpInt8 [x] (VInt (scast x))"
    by (rule 1; auto simp: mp_decodeNaked_def naked)+
qed

lemma mp_uint: "\<exists>b w. all_written (mp_encodeUint i) = b # w \<and>
    yields (msgpackDecDriver rd h) b w (if i \<le> 127 then VInt i else VUint i)"
proof -
  consider "i \<le> 127" | "\<not> i \<le> 127" "i \<le> 255" | "\<not> i \<le> 127" "\<not> i \<le> 255" "i \<le> 65535"
    | "\<not> i \<le> 127" "\<not> i \<le> 255" "\<not> i \<le> 65535" "i \<le> 0xFFFFFFFF"
    | "\<not> i \<le> 127" "\<not> i \<le> 255" "\<not> i \<le> 65535" "\<not> i \<le> 0xFFFFFFFF" by blast
  then show ?thesis
  proof cases
    case 1
    have le: "(ucast i :: byte) \<le> 127"
      using 1 by (simp add: word_le_nat_alt unsigned_ucast_eq take_bit_eq_mod [where 'a = nat])
    moreover have "sint i = uint i" using 1 by (intro sint_small) (simp add: word_le_def)
    moreover have "- 128 \<le> uint i" by (rule order.trans [OF _ uint_ge_0]) simp
    ultimately have "scast (ucast i :: byte) = i" using 1 by (intro scast_ucast_id) (simp_all add: word_le_def)
    with le show ?thesis using 1 mp_yields_simple(3) [of "ucast i" h] by (simp add: mp_encodeUint_def)
  next
    case 2
    then have "ucast (ucast i :: byte) = i" by (intro ucast_ucast_id) (simp add: word_le_nat_alt)
    then show ?thesis using 2 mp_yields_read(3) [of h "ucast i"] by (simp add: mp_encodeUint_def)
  next
    case 3
    then have "ucast (ucast i :: uint16) = i" by (intro ucast_ucast_id) (simp add: word_le_nat_alt)
    then show ?thesis using 3 mp_yields_read(4) [of h "ucast i"] by (simp add: mp_encodeUint_def)
  next
    case 4
    then have "ucast (ucast i :: uint32) = i" by (intro ucast_ucast_id) (simp add: word_le_nat_alt)
    then show ?thesis using 4 mp_yields_read(5) [of h "ucast i"] by (simp add: mp_encodeUint_def)
  next
    case 5
    then show ?thesis using mp_yields_read(6) [of h i] by (simp add: mp_encodeUint_def)
  qed
qed

lemma mp_int: "\<exists>b w. all_written (mp_encodeInt i) = b # w \<and> yields (msgpackDecDriver rd h) b w (mp_value h (VInt i))"
proof -
  consider "0 \<le> sint i" | "sint i < 0" "- 32 \<le> sint i" | "sint i < - 32" "- 128 \<le> sint i"
    | "sint i < - 128" "- 32768 \<le> sint i" | "sint i < - 32768" "- 2147483648 \<le> sint i" | "sint i < - 2147483648" by linarith
  then show ?thesis
  proof cases
    case 1
    have "i \<le> 127 \<longleftrightarrow> \<not> 127 < sint i" using sint_uint64 [OF 1] by (simp add: word_le_def not_less)
    with mp_uint [of i h] 1 show ?thesis by (auto simp: mp_encodeInt_def split: if_splits)
  next
    case 2
    then have "scast (ucast i :: byte) = i" by (intro scast_ucast_id) simp_all
    then show ?thesis using 2 mp_yields_simple(3) [of "ucast i" h] scast_lt [OF 2] by (simp add: mp_encodeInt_def)
  next
    case 3
    then have "scast (ucast i :: byte) = i" by (intro scast_ucast_id) simp_all
    then show ?thesis using 3 mp_yields_read(7) [of h "ucast i"] by (simp add: mp_encodeInt_def)
  next
    case 4
    then have "scast (ucast i :: uint16) = i" by (intro scast_ucast_id) simp_all
    then show ?thesis using 4 mp_yields_read(8) [of h "ucast i"] by (simp add: mp_encodeInt_def)
  next
    case 5
    then have "scast (ucast i :: uint32) = i" by (intro scast_ucast_id) simp_all
    then show ?thesis using 5 mp_yields_read(9) [of h "ucast i"] by (simp add: mp_encodeInt_def)
  next
    case 6
    then show ?thesis using mp_yields_read(10) [of h i] by (simp add: mp_encodeInt_def)
  qed
qed

section \<open>Strings, bytes, extensions\<close>

lemma mp_str_bin:
  "mp_str b \<Longrightarrow> b \<notin> {mpNil, mpFalse, mpTrue, mpFloat, mpDouble, mpUint8, mpUint16, mpUint32, mpUint64, mpInt8, mpInt16, mpInt32, mpInt64} \<and>
     \<not> b \<le> 0x7f \<and> \<not> 0xe0 \<le> b \<and> \<not> mp_bin b"
  "mp_bin b \<Longrightarrow> b \<notin> {mpNil, mpFalse, mpTrue, mpFloat, mpDouble, mpUint8, mpUint16, mpUint32, mpUint64, mpInt8, mpInt16, mpInt32, mpInt64} \<and>
     \<not> b \<le> 0x7f \<and> \<not> 0xe0 \<le> b \<and> \<not> mp_str b"
  by (auto simp: mp_str_def mp_bin_def word_le_def)

lemma mp_bytes_yields:
  assumes str: "mp_str b \<and> ct = msgpackContainerStr \<or> mp_bin b \<and> ct = msgpackContainerBin"
    and len: "\<And>d rest. behind d b (w @ rest) \<Longrightarrow> \<exists>d'. readContainerLen rd ct d = Inr (int (length s), d') \<and> stands d' rest"
  shows "yields (msgpackDecDriver rd h) b (w @ s) (if mp_str b \<and> RawToString h then VString s else VBytes s)"
  unfolding yields_def
proof (intro allI impI)
  fix d rest f
  assume o: "opened d b ((w @ s) @ rest)"
  then obtain d1 where d1: "readContainerLen rd ct d = Inr (int (length s), d1)" "stands d1 (s @ rest)"
    using len [of d "s @ rest"] opened_behind(1) by auto
  then have b1: "behind d1 (bd d1) (s @ rest)" by (simp add: behind_def stands_def)
  obtain d2 where d2: "reading (readn rd (int (length s))) d1 = Inr (s, d2)" "stands (ended d2) rest"
    using read_behind(5) [OF b1 refl] behind_stands by blast
  obtain d3 where d3: "fill_bytes rd (int (length s)) [] d1 = Inr ((if s = [] then None else Some s, s \<noteq> [], []), d3)" "stands d3 rest"
    using fill_bytes_front [OF b1] by blast
  have b: "bd d = b" "b \<noteq> mpNil" "init_read rd d = Inr d" using o str mp_str_bin [of b] opened_bd by auto
  have naked: "mp_decodeNaked rd h d = Inr (Further (if mp_str b \<and> RawToString h then valueTypeString else valueTypeBytes), d)"
  proof (cases "mp_str b")
    case True
    then show ?thesis using mp_str_bin(1) [OF True] b by (simp add: mp_decodeNaked_def)
  next
    case False
    then have "mp_bin b" using str by blast
    then show ?thesis using mp_str_bin(2) [of b] b False by (simp add: mp_decodeNaked_def)
  qed
  have "mp_decodeString rd d = Inr (s, if s = [] then ended d1 else ended d2)" if "mp_str b"
    using that str mp_str_bin [of b] d1 d2 by (auto simp: mp_decodeString_def)
  moreover have "mp_decodeBytes rd [] d = Inr ((if s = [] then None else Some s, s \<noteq> [], []), d3)"
    using str mp_str_bin [of b] b d1 d3 by (auto simp: mp_decodeBytes_def)
  moreover have "stands (ended d1) rest" if "s = []" using that d1(2) by (simp add: stands_def ended_def)
  ultimately show "tryDecodeAsNil (msgpackDecDriver rd h) d = (False, d) \<and> (\<exists>d'. kInterface (msgpackDecDriver rd h) f d =
      Inr (if mp_str b \<and> RawToString h then VString s else VBytes s, d') \<and> stands d' rest)"
    using naked b d2(2) d3(2) by (auto simp: kInterface_def msgpackDecDriver_def mp_tryDecodeAsNil_def)
qed

lemma mp_strings:
  assumes "length s < 2 ^ 32"
  shows "\<exists>b w. all_written (mp_encodeString h c_UTF8 s) = b # w \<and> yields (msgpackDecDriver rd h) b w (mp_value h (VString s))"
    "\<exists>b w. all_written (mp_encodeStringBytes h c_RAW s) = b # w \<and> yields (msgpackDecDriver rd h) b w (mp_raw h s)"
proof -
  obtain b w where w: "all_written (writeContainerLen h msgpackContainerStr (length s)) = b # w" "mp_str b"
    "\<And>d rest. behind d b (w @ rest) \<Longrightarrow> \<exists>d'. readContainerLen rd msgpackContainerStr d = Inr (int (length s), d') \<and> stands d' rest"
    using container_len [of msgpackContainerStr "length s" h] assms by auto
  have y: "yields (msgpackDecDriver rd h) b (w @ s) (if RawToString h then VString s else VBytes s)"
    using mp_bytes_yields [of b msgpackContainerStr w s h] w(2,3) by simp
  then show "\<exists>b w. all_written (mp_encodeString h c_UTF8 s) = b # w \<and> yields (msgpackDecDriver rd h) b w (mp_value h (VString s))"
    using w(1) by (auto simp: mp_encodeString_def)
  obtain b' w' where w': "all_written (writeContainerLen h msgpackContainerBin (length s)) = b' # w'" "mp_bin b'"
    "\<And>d rest. behind d b' (w' @ rest) \<Longrightarrow> \<exists>d'. readContainerLen rd msgpackContainerBin d = Inr (int (length s), d') \<and> stands d' rest"
    using container_len [of msgpackContainerBin "length s" h] assms by auto
  have y': "yields (msgpackDecDriver rd h) b' (w' @ s) (VBytes s)"
    using mp_bytes_yields [of b' msgpackContainerBin w' s h] w'(2,3) mp_str_bin(2) [of b'] by simp
  show "\<exists>b w. all_written (mp_encodeStringBytes h c_RAW s) = b # w \<and> yields (msgpackDecDriver rd h) b w (mp_raw h s)"
    using w(1) y w'(1) y' by (cases "mp_WriteExt h") (auto simp: mp_encodeStringBytes_def mp_raw_def)
qed

abbreviation ext_bytes :: "byte set" where
  "ext_bytes \<equiv> {mpFixExt1, mpFixExt2, mpFixExt4, mpFixExt8, mpFixExt16, mpExt8, mpExt16, mpExt32}"

lemma mp_ext_len:
  assumes l: "l < 2 ^ 32"
  shows "\<exists>b w. all_written (mp_encodeExtPreamble t l) = b # w @ [t] \<and> b \<in> ext_bytes \<and>
    (\<forall>d rest. opened d b (w @ rest) \<longrightarrow> (\<exists>d'. mp_readExtLen rd d = Inr (int l, d') \<and> opened d' b rest))"
proof -
  consider "l \<in> {1, 2, 4, 8, 16}" | "l \<notin> {1, 2, 4, 8, 16}" "l < 256" | "l \<notin> {1, 2, 4, 8, 16}" "\<not> l < 256" "l < 65536"
    | "l \<notin> {1, 2, 4, 8, 16}" "\<not> l < 256" "\<not> l < 65536" by blast
  then show ?thesis
  proof cases
    case 1
    define b :: byte where "b = (if l = 1 then mpFixExt1 else if l = 2 then mpFixExt2 else if l = 4 then mpFixExt4
      else if l = 8 then mpFixExt8 else mpFixExt16)"
    have "all_written (mp_encodeExtPreamble t l) = b # [] @ [t]" "b \<in> ext_bytes"
      using 1 by (auto simp: mp_encodeExtPreamble_def b_def)
    moreover have "mp_readExtLen rd d = Inr (int l, d)" if "bd d = b" for d
      using 1 that by (auto simp: mp_readExtLen_def b_def)
    ultimately show ?thesis using opened_bd by (intro exI [of _ b] exI [of _ "[]"]) auto
  next
    case 2
    have "\<exists>d'. mp_readExtLen rd d = Inr (int l, d') \<and> opened d' mpExt8 rest" if o: "opened d mpExt8 ([of_nat l] @ rest)" for d rest
      using read_opened(1) [OF o, of "of_nat l" rest] opened_bd [OF o] of_nat_small [of l, where 'a = 8] 2
      by (auto simp: mp_readExtLen_def)
    moreover have "all_written (mp_encodeExtPreamble t l) = mpExt8 # [of_nat l] @ [t]" using 2 by (simp add: mp_encodeExtPreamble_def)
    ultimately show ?thesis by blast
  next
    case 3
    have "\<exists>d'. mp_readExtLen rd d = Inr (int l, d') \<and> opened d' mpExt16 rest"
      if o: "opened d mpExt16 (PutUint16 (of_nat l) @ rest)" for d rest
      using read_opened(2) [OF o refl] opened_bd [OF o] of_nat_small [of l, where 'a = 16] 3
      by (auto simp: mp_readExtLen_def)
    moreover have "all_written (mp_encodeExtPreamble t l) = mpExt16 # PutUint16 (of_nat l) @ [t]"
      using 3 by (simp add: mp_encodeExtPreamble_def)
    ultimately show ?thesis by blast
  next
    case 4
    have "\<exists>d'. mp_readExtLen rd d = Inr (int l, d') \<and> opened d' mpExt32 rest"
      if o: "opened d mpExt32 (PutUint32 (of_nat l) @ rest)" for d rest
      using read_opened(3) [OF o refl] opened_bd [OF o] of_nat_small [of l, where 'a = 32] l
      by (auto simp: mp_readExtLen_def)
    moreover have "all_written (mp_encodeExtPreamble t l) = mpExt32 # PutUint32 (of_nat l) @ [t]"
      using 4 by (simp add: mp_encodeExtPreamble_def)
    ultimately show ?thesis by blast
  qed
qed

lemma mp_ext_naked:
  assumes "b \<in> ext_bytes" "bdRead d" "bd d = b"
  shows "mp_decodeNaked rd h d =
    or_error (mp_readExtLen rd d) (\<lambda>(clen, d).
    or_error (reading (readn1 rd) d) (\<lambda>(tag, d).
    or_error (reading (readn rd clen) d) (\<lambda>(x, d).
      Inr (Decoded valueTypeExt (VRawExt tag (if clen \<le> 0 then None else Some x)), ended d))))"
proof -
  have "init_read rd d = Inr d" using assms(2) by (simp add: init_read_def)
  then show ?thesis using assms(1,3) unfolding mp_decodeNaked_def
    by (elim insertE emptyE) (simp_all add: mp_str_def mp_bin_def mp_array_def mp_map_def mp_ext_def)
qed

lemma mp_ext_yields:
  assumes l: "length x < 2 ^ 32"
  shows "\<exists>b w. all_written (mp_encodeExtPreamble t (length x) @ [writeb x]) = b # w \<and>
    yields (msgpackDecDriver rd h) b w (VRawExt t (if x = [] then None else Some x))"
proof -
  obtain b w where w: "all_written (mp_encodeExtPreamble t (length x)) = b # w @ [t]" "b \<in> ext_bytes"
    "\<And>d rest. opened d b (w @ rest) \<Longrightarrow> \<exists>d'. mp_readExtLen rd d = Inr (int (length x), d') \<and> opened d' b rest"
    using mp_ext_len [OF l, of t] by auto
  have "\<exists>d' vt. mp_decodeNaked rd h d = Inr (Decoded vt (VRawExt t (if x = [] then None else Some x)), d') \<and> stands d' rest"
    if o: "opened d b ((w @ [t] @ x) @ rest)" for d rest
  proof -
    obtain d1 where d1: "mp_readExtLen rd d = Inr (int (length x), d1)" "opened d1 b (t # x @ rest)"
      using w(3) [of d "t # x @ rest"] o by auto
    obtain d2 where d2: "reading (readn1 rd) d1 = Inr (t, d2)" "opened d2 b (x @ rest)"
      using read_opened(1) [OF d1(2) refl] by blast
    obtain d3 where d3: "reading (readn rd (int (length x))) d2 = Inr (x, d3)" "opened d3 b rest"
      using read_opened(5) [OF d2(2) refl] by blast
    show ?thesis using mp_ext_naked [OF w(2), of d h] o d1(1) d2(1) d3(1) ended_stands [OF d3(2)]
      by (auto simp: opened_def)
  qed
  moreover have "b \<noteq> mpNil" using w(2) by auto
  ultimately have "yields (msgpackDecDriver rd h) b (w @ [t] @ x) (VRawExt t (if x = [] then None else Some x))"
    by (intro mp_yieldsI)
  then show ?thesis using w(1) by simp
qed

section \<open>The contract\<close>

lemma mp_atoms:
  assumes "mp_atom v"
  shows "\<exists>b w. (\<forall>e. all_written (encode (msgpackEncDriver h) syms v e) = all_written e @ b # w) \<and>
    yields (msgpackDecDriver rd h) b w (mp_value h v)"
proof (cases v)
  case (VInt i)
  then show ?thesis using mp_int [of i h] by (auto simp: msgpackEncDriver_def)
next
  case (VUint u)
  then show ?thesis using mp_uint [of u h] by (auto simp: msgpackEncDriver_def)
next
  case (VString s)
  then show ?thesis using mp_strings(1) [of s h] assms by (auto simp: msgpackEncDriver_def)
next
  case (VBytes s)
  then show ?thesis using mp_strings(2) [of s h] assms by (auto simp: msgpackEncDriver_def)
next
  case (VTime t)
  then show ?thesis using mp_strings(2) [of "MarshalBinary t" h]
    by (auto simp: msgpackEncDriver_def encTimeValue_def MarshalBinary_def)
next
  case (VRawExt t x)
  then obtain s where s: "x = Some s" "length s < 2 ^ 32" using assms by (auto split: option.splits)
  then show ?thesis using VRawExt mp_ext_yields [of s t h] mp_strings(2) [of s h]
    by (cases "mp_WriteExt h") (auto simp: msgpackEncDriver_def encRawExt_def)
next
  case (VBool b)
  then show ?thesis using mp_yields_simple(1,2) by (cases b) (auto simp: msgpackEncDriver_def mp_encodeBool_def)
next
  case (VFloat32 f)
  then show ?thesis using mp_yields_read(1) by (auto simp: msgpackEncDriver_def mp_encodeFloat32_def)
next
  case (VFloat64 f)
  then show ?thesis using mp_yields_read(2) by (auto simp: msgpackEncDriver_def mp_encodeFloat64_def)
qed (use assms in simp_all)

lemma mp_array_map:
  "mp_array b \<Longrightarrow> b \<notin> {mpNil, mpFalse, mpTrue, mpFloat, mpDouble, mpUint8, mpUint16, mpUint32, mpUint64, mpInt8, mpInt16, mpInt32, mpInt64} \<and>
     \<not> b \<le> 0x7f \<and> \<not> 0xe0 \<le> b \<and> \<not> mp_str b \<and> \<not> mp_bin b"
  "mp_map b \<Longrightarrow> b \<notin> {mpNil, mpFalse, mpTrue, mpFloat, mpDouble, mpUint8, mpUint16, mpUint32, mpUint64, mpInt8, mpInt16, mpInt32, mpInt64} \<and>
     \<not> b \<le> 0x7f \<and> \<not> 0xe0 \<le> b \<and> \<not> mp_str b \<and> \<not> mp_bin b \<and> \<not> mp_array b"
  by (auto simp: mp_str_def mp_bin_def mp_array_def mp_map_def word_le_def)

lemma mp_array_opened:
  assumes "opened d b rest" "mp_array b"
  shows "mp_decodeNaked rd h d = Inr (Further valueTypeArray, d)"
    "mp_currentEncodedType h d = Inr (valueTypeArray, d\<lparr>bdType := valueTypeArray\<rparr>)"
    "mp_tryDecodeAsNil d = (False, d)"
proof -
  have d: "init_read rd d = Inr d" "bd d = b" "bdType d = valueTypeUnset" using assms(1) by (simp_all add: opened_def init_read_def)
  show "mp_decodeNaked rd h d = Inr (Further valueTypeArray, d)"
    using d mp_array_map(1) [OF assms(2)] assms(2) by (simp add: mp_decodeNaked_def)
  show "mp_currentEncodedType h d = Inr (valueTypeArray, d\<lparr>bdType := valueTypeArray\<rparr>)"
    using d mp_array_map(1) [OF assms(2)] assms(2) by (simp add: mp_currentEncodedType_def)
  show "mp_tryDecodeAsNil d = (False, d)" using d mp_array_map(1) [OF assms(2)] by (simp add: mp_tryDecodeAsNil_def)
qed

lemma mp_map_opened:
  assumes "opened d b rest" "mp_map b"
  shows "mp_decodeNaked rd h d = Inr (Further valueTypeMap, d)" "mp_tryDecodeAsNil d = (False, d)"
proof -
  have d: "init_read rd d = Inr d" "bd d = b" using assms(1) by (simp_all add: opened_def init_read_def)
  show "mp_decodeNaked rd h d = Inr (Further valueTypeMap, d)"
    using d mp_array_map(2) [OF assms(2)] assms(2) by (simp add: mp_decodeNaked_def)
  show "mp_tryDecodeAsNil d = (False, d)" using d mp_array_map(2) [OF assms(2)] by (simp add: mp_tryDecodeAsNil_def)
qed

lemma mp_array_law:
  assumes n: "n < 2 ^ 32"
  shows "\<exists>w. (\<forall>e. all_written (encodeArrayPreamble (msgpackEncDriver h) n e) = all_written e @ w) \<and>
      (\<forall>d rest f. stands d (w @ rest) \<longrightarrow>
        (\<exists>d1 d2. initReadNext (msgpackDecDriver rd h) d = Inr d1 \<and> tryDecodeAsNil (msgpackDecDriver rd h) d1 = (False, d1) \<and>
          stands d2 rest \<and> kInterface (msgpackDecDriver rd h) f d1 =
            or_error (dec_list f (replicate n VNil) d2) (\<lambda>(vs, d). Inr (VSlice vs, d))))"
proof -
  obtain b w where w: "all_written (writeContainerLen h msgpackContainerList n) = b # w" "mp_array b"
    "\<And>d rest. behind d b (w @ rest) \<Longrightarrow> \<exists>d'. readContainerLen rd msgpackContainerList d = Inr (int n, d') \<and> stands d' rest"
    using container_len [of msgpackContainerList n h] n by auto
  have "\<exists>d1 d2. initReadNext (msgpackDecDriver rd h) d = Inr d1 \<and> tryDecodeAsNil (msgpackDecDriver rd h) d1 = (False, d1) \<and>
      stands d2 rest \<and> kInterface (msgpackDecDriver rd h) f d1 =
        or_error (dec_list f (replicate n VNil) d2) (\<lambda>(vs, d). Inr (VSlice vs, d))"
    if s: "stands d ((b # w) @ rest)" for d rest f
  proof -
    obtain d1 where d1: "init_read rd d = Inr d1" "opened d1 b (w @ rest)" using init_front [of d b "w @ rest"] s by auto
    have "behind (d1\<lparr>bdType := valueTypeArray\<rparr>) b (w @ rest)" using d1(2) by (simp add: opened_def behind_def)
    from w(3) [OF this] obtain d2 where
      d2: "readContainerLen rd msgpackContainerList (d1\<lparr>bdType := valueTypeArray\<rparr>) = Inr (int n, d2)" "stands d2 rest" by blast
    show ?thesis using d1 d2 mp_array_opened [OF d1(2) w(2)]
      by (intro exI [of _ d1] exI [of _ d2]) (simp add: msgpackDecDriver_def kInterface_def decSliceIntf_def decContLens_def)
  qed
  then show ?thesis using w(1) by (intro exI [of _ "b # w"]) (simp add: msgpackEncDriver_def mp_encodeArrayPreamble_def)
qed

lemma mp_map_law:
  assumes n: "n < 2 ^ 32"
  shows "\<exists>w. (\<forall>e. all_written (encodeMapPreamble (msgpackEncDriver h) n e) = all_written e @ w) \<and>
      (\<forall>d rest f. stands d (w @ rest) \<longrightarrow>
        (\<exists>d1 d2. initReadNext (msgpackDecDriver rd h) d = Inr d1 \<and> tryDecodeAsNil (msgpackDecDriver rd h) d1 = (False, d1) \<and>
          stands d2 rest \<and> kInterface (msgpackDecDriver rd h) f d1 =
            or_error (dec_entries f n [] d2) (\<lambda>(m, d). Inr (VMap m, d))))"
proof -
  obtain b w where w: "all_written (writeContainerLen h msgpackContainerMap n) = b # w" "mp_map b"
    "\<And>d rest. behind d b (w @ rest) \<Longrightarrow> \<exists>d'. readContainerLen rd msgpackContainerMap d = Inr (int n, d') \<and> stands d' rest"
    using container_len [of msgpackContainerMap n h] n by auto
  have "\<exists>d1 d2. initReadNext (msgpackDecDriver rd h) d = Inr d1 \<and> tryDecodeAsNil (msgpackDecDriver rd h) d1 = (False, d1) \<and>
      stands d2 rest \<and> kInterface (msgpackDecDriver rd h) f d1 = or_error (dec_entries f n [] d2) (\<lambda>(m, d). Inr (VMap m, d))"
    if s: "stands d ((b # w) @ rest)" for d rest f
  proof -
    obtain d1 where d1: "init_read rd d = Inr d1" "opened d1 b (w @ rest)" using init_front [of d b "w @ rest"] s by auto
    obtain d2 where d2: "readContainerLen rd msgpackContainerMap d1 = Inr (int n, d2)" "stands d2 rest"
      using w(3) [OF opened_behind(1) [OF d1(2)]] by blast
    show ?thesis using d1 d2 mp_map_opened [OF d1(2) w(2)]
      by (intro exI [of _ d1] exI [of _ d2]) (simp add: msgpackDecDriver_def kInterface_def decMapIntfIntf_def)
  qed
  then show ?thesis using w(1) by (intro exI [of _ "b # w"]) (simp add: msgpackEncDriver_def mp_encodeMapPreamble_def)
qed

lemma mp_nil:
  assumes "stands d (mpNil # rest)"
  shows "\<exists>d1 d2. initReadNext (msgpackDecDriver rd h) d = Inr d1 \<and>
    tryDecodeAsNil (msgpackDecDriver rd h) d1 = (True, d2) \<and> stands d2 rest"
proof -
  obtain d1 where "init_read rd d = Inr d1" "opened d1 mpNil rest" using init_front assms by blast
  then show ?thesis using opened_bd [of d1 mpNil rest] ended_stands [of d1 mpNil rest]
    by (simp add: msgpackDecDriver_def mp_tryDecodeAsNil_def)
qed

lemma mp_codec: "codec (msgpackEncDriver h) (msgpackDecDriver rd h) syms all_written stands mp_atom (mp_value h) (2 ^ 32)"
proof unfold_locales
  show "initReadNext (msgpackDecDriver rd h) d = Inr d1 \<Longrightarrow> initReadNext (msgpackDecDriver rd h) d1 = Inr d1" for d d1
    by (auto simp: msgpackDecDriver_def init_read_def or_error_Inr_iff split: if_splits)
  show "map_key (msgpackEncDriver h) syms k = encodeString (msgpackEncDriver h) c_UTF8 k" for k
    by (simp add: map_key_def msgpackEncDriver_def mp_encodeSymbol_def)
  show "\<exists>w. (\<forall>e. all_written (encodeNil (msgpackEncDriver h) e) = all_written e @ w) \<and>
      (\<forall>d rest. stands d (w @ rest) \<longrightarrow> (\<exists>d1 d2. initReadNext (msgpackDecDriver rd h) d = Inr d1 \<and>
        tryDecodeAsNil (msgpackDecDriver rd h) d1 = (True, d2) \<and> stands d2 rest))"
    using mp_nil by (intro exI [of _ "[mpNil]"]) (simp add: msgpackEncDriver_def)
  fix v assume "mp_atom v"
  then obtain b w where w: "\<And>e. all_written (encode (msgpackEncDriver h) syms v e) = all_written e @ b # w"
    "yields (msgpackDecDriver rd h) b w (mp_value h v)" using mp_atoms by blast
  show "\<exists>w. (\<forall>e. all_written (encode (msgpackEncDriver h) syms v e) = all_written e @ w) \<and>
      (\<forall>d rest f. stands d (w @ rest) \<longrightarrow> (\<exists>d1 d2. initReadNext (msgpackDecDriver rd h) d = Inr d1 \<and>
        tryDecodeAsNil (msgpackDecDriver rd h) d1 = (False, d1) \<and>
        kInterface (msgpackDecDriver rd h) f d1 = Inr (mp_value h v, d2) \<and> stands d2 rest))"
  proof (intro exI [of _ "b # w"] conjI allI impI)
    show "stands d ((b # w) @ rest) \<Longrightarrow> \<exists>d1 d2. initReadNext (msgpackDecDriver rd h) d = Inr d1 \<and>
        tryDecodeAsNil (msgpackDecDriver rd h) d1 = (False, d1) \<and>
        kInterface (msgpackDecDriver rd h) f d1 = Inr (mp_value h v, d2) \<and> stands d2 rest" for d rest f
      by (rule yields_law [OF _ w(2)]) (simp_all add: msgpackDecDriver_def)
  qed (rule w(1))
qed (use mp_array_law mp_map_law in blast)+

end

interpretation mp_bytes: codec "msgpackEncDriver h" "msgpackDecDriver bytes_decReader h" syms all_written
    bytes_source.stands mp_atom "mp_value h" "2 ^ 32" for h syms
  by (rule bytes_source.mp_codec)

interpretation mp_io: codec "msgpackEncDriver h" "msgpackDecDriver io_decReader h" syms all_written
    io_source.stands mp_atom "mp_value h" "2 ^ 32" for h syms
  by (rule io_source.mp_codec)

text \<open>
  C27. MessagePack values survive.  What the encoder writes for a value is decoded again, from a slice of
  bytes and from a stream in any pieces, whatever follows it: with fuel for its depth the decoder
  returns the value with its integers, floats and strings as the format keeps them (\<open>mp_value\<close>), has
  consumed exactly its bytes, and is ready for the next one.
\<close>

theorem msgpack_roundtrip:
  assumes "encodable (2 ^ 32) mp_atom (mp_value h) (generic v)" "depth (generic v) \<le> n"
    and w: "w = all_written (encode (msgpackEncDriver h) syms v [])" and "concat segs = w @ rest"
  shows "\<exists>d d'. Decode (msgpackDecDriver bytes_decReader h) n (new_dec_state (new_bytes_reader (w @ rest))) =
      Inr (normal (mp_value h) (generic v), d) \<and> \<not> bdRead d \<and> drop (rcursor (reader d)) (rdata (reader d)) = rest \<and>
    Decode (msgpackDecDriver io_decReader h) n (new_dec_state segs) = Inr (normal (mp_value h) (generic v), d') \<and>
      \<not> bdRead d' \<and> concat (reader d') = rest"
  using both_readers [OF mp_bytes.roundtrip [OF assms(1), of syms] mp_io.roundtrip [OF assms(1), of syms] _ assms(2) w assms(4)]
  by simp

theorem msgpack_roundtrip_witness:
  "\<exists>d. Decode (msgpackDecDriver io_decReader \<lparr>RawToString = True, mp_WriteExt = False\<rparr>) 3
      (new_dec_state [[0x81, 0xa1, 107], [0x93, 0xfb], [0xcd, 1, 0x2c, 0xc0, 7]]) =
    Inr (VMap [(VString [107], VSlice [VInt (- 5), VUint 300, VNil])], d) \<and> \<not> bdRead d \<and> concat (reader d) = [7]"
proof -
  let ?h = "\<lparr>RawToString = True, mp_WriteExt = False\<rparr>"
  let ?v = "VMapStrIntf [([107], VSlice [VInt (- 5), VInt 300, VNil])]"
  have "[0x81, 0xa1, 107, 0x93, 0xfb, 0xcd, 1, 0x2c, 0xc0] = all_written (encode (msgpackEncDriver ?h) 0 ?v [])"
    by code_simp
  from msgpack_roundtrip [OF _ _ this, of 3 "[[0x81, 0xa1, 107], [0x93, 0xfb], [0xcd, 1, 0x2c, 0xc0, 7]]" "[7]"]
  show ?thesis by auto
qed

end
