(* ===== verification/Codec_Simple.thy ===== *)
theory Codec_Simple
  imports Codec_Driver
begin

text \<open>
  The codec \<^verbatim>\<open>simple\<close> (\<^verbatim>\<open>simple.go\<close>).  A descriptor names the kind of a value, and the
  descriptors after it the size of a number or of a length.
\<close>

abbreviation simpleVdNil :: byte where "simpleVdNil \<equiv> 1"
abbreviation simpleVdFalse :: byte where "simpleVdFalse \<equiv> 2"
abbreviation simpleVdTrue :: byte where "simpleVdTrue \<equiv> 3"
abbreviation simpleVdFloat32 :: byte where "simpleVdFloat32 \<equiv> 4"
abbreviation simpleVdFloat64 :: byte where "simpleVdFloat64 \<equiv> 5"
abbreviation simpleVdPosInt :: byte where "simpleVdPosInt \<equiv> 8"
abbreviation simpleVdNegInt :: byte where "simpleVdNegInt \<equiv> 12"
abbreviation simpleVdString :: byte where "simpleVdString \<equiv> 216"
abbreviation simpleVdByteArray :: byte where "simpleVdByteArray \<equiv> 224"
abbreviation simpleVdArray :: byte where "simpleVdArray \<equiv> 232"
abbreviation simpleVdMap :: byte where "simpleVdMap \<equiv> 240"
abbreviation simpleVdExt :: byte where "simpleVdExt \<equiv> 248"

section \<open>Encoding\<close>

definition simple_encodeBool :: "bool \<Rightarrow> write_call list" where
  "simple_encodeBool b = (if b then [writen1 simpleVdTrue] else [writen1 simpleVdFalse])"

definition simple_encodeFloat32 :: "uint32 \<Rightarrow> write_call list" where
  "simple_encodeFloat32 f = [writen1 simpleVdFloat32, writeUint32 f]"

definition simple_encodeFloat64 :: "uint64 \<Rightarrow> write_call list" where
  "simple_encodeFloat64 f = [writen1 simpleVdFloat64, writeUint64 f]"

definition simple_encUint :: "uint64 \<Rightarrow> byte \<Rightarrow> write_call list" where
  "simple_encUint v b =
     (if v \<le> 255 then [writen2 b (ucast v)]
      else if v \<le> 65535 then [writen1 (b + 1), writeUint16 (ucast v)]
      else if v \<le> 0xFFFFFFFF then [writen1 (b + 2), writeUint32 (ucast v)]
      else [writen1 (b + 3), writeUint64 v])"

definition simple_encodeInt :: "uint64 \<Rightarrow> write_call list" where
  "simple_encodeInt v = (if sint v < 0 then simple_encUint (- v) simpleVdNegInt else simple_encUint v simpleVdPosInt)"

definition simple_encodeUint :: "uint64 \<Rightarrow> write_call list" where
  "simple_encodeUint v = simple_encUint v simpleVdPosInt"

definition simple_encLen :: "byte \<Rightarrow> nat \<Rightarrow> write_call list" where
  "simple_encLen b l =
     (if l = 0 then [writen1 b]
      else if l \<le> 255 then [writen1 (b + 1), writen1 (of_nat l)]
      else if l \<le> 65535 then [writen1 (b + 2), writeUint16 (of_nat l)]
      else if l \<le> 4294967295 then [writen1 (b + 3), writeUint32 (of_nat l)]
      else [writen1 (b + 4), writeUint64 (of_nat l)])"

definition simple_encodeExtPreamble :: "byte \<Rightarrow> nat \<Rightarrow> write_call list" where
  "simple_encodeExtPreamble xtag l = simple_encLen simpleVdExt l @ [writen1 xtag]"

definition simple_encodeArrayPreamble :: "nat \<Rightarrow> write_call list" where
  "simple_encodeArrayPreamble l = simple_encLen simpleVdArray l"

definition simple_encodeMapPreamble :: "nat \<Rightarrow> write_call list" where
  "simple_encodeMapPreamble l = simple_encLen simpleVdMap l"

definition simple_encodeString :: "charEncoding \<Rightarrow> bytes \<Rightarrow> write_call list" where
  "simple_encodeString c v = simple_encLen simpleVdString (length v) @ [writestr v]"

definition simple_encodeSymbol :: "bytes \<Rightarrow> write_call list" where
  "simple_encodeSymbol v = simple_encodeString c_UTF8 v"

definition simple_encodeStringBytes :: "charEncoding \<Rightarrow> bytes \<Rightarrow> write_call list" where
  "simple_encodeStringBytes c v = simple_encLen simpleVdByteArray (length v) @ [writeb v]"

definition simpleEncDriver :: "write_call list encDriver" where
  "simpleEncDriver =
     \<lparr>encodeNil = \<lambda>w. w @ [writen1 simpleVdNil],
      encodeInt = \<lambda>i w. w @ simple_encodeInt i,
      encodeUint = \<lambda>i w. w @ simple_encodeUint i,
      encodeBool = \<lambda>b w. w @ simple_encodeBool b,
      encodeFloat32 = \<lambda>f w. w @ simple_encodeFloat32 f,
      encodeFloat64 = \<lambda>f w. w @ simple_encodeFloat64 f,
      encodeExtPreamble = \<lambda>t l w. w @ simple_encodeExtPreamble t l,
      encodeArrayPreamble = \<lambda>l w. w @ simple_encodeArrayPreamble l,
      encodeMapPreamble = \<lambda>l w. w @ simple_encodeMapPreamble l,
      encodeString = \<lambda>c s w. w @ simple_encodeString c s,
      encodeSymbol = \<lambda>s w. w @ simple_encodeSymbol s,
      encodeStringBytes = \<lambda>c s w. w @ simple_encodeStringBytes c s,
      encodeTime = None,
      write_to = \<lambda>c w. w @ [c],
      writeExt = True\<rparr>"

section \<open>Decoding\<close>

text \<open>The descriptors of a kind that has five of them.\<close>

definition vd_group :: "byte \<Rightarrow> byte \<Rightarrow> bool" where
  "vd_group g b \<longleftrightarrow> b \<in> {g, g + 1, g + 2, g + 3, g + 4}"

definition simple_currentEncodedType :: "'r dec_state \<Rightarrow> codec_error + (valueType \<times> 'r dec_state)" where
  "simple_currentEncodedType d =
     (if bdType d \<noteq> valueTypeUnset then Inr (bdType d, d)
      else
        (let b = bd d; found = (\<lambda>t. Inr (t, d\<lparr>bdType := t\<rparr>)) in
         if b = simpleVdNil then found valueTypeNil
         else if b = simpleVdTrue \<or> b = simpleVdFalse then found valueTypeBool
         else if b \<in> {simpleVdPosInt, simpleVdPosInt + 1, simpleVdPosInt + 2, simpleVdPosInt + 3} then found valueTypeUint
         else if b \<in> {simpleVdNegInt, simpleVdNegInt + 1, simpleVdNegInt + 2, simpleVdNegInt + 3} then found valueTypeInt
         else if b = simpleVdFloat32 \<or> b = simpleVdFloat64 then found valueTypeFloat
         else if vd_group simpleVdString b then found valueTypeString
         else if vd_group simpleVdByteArray b then found valueTypeBytes
         else if vd_group simpleVdExt b then found valueTypeExt
         else if vd_group simpleVdArray b then found valueTypeArray
         else if vd_group simpleVdMap b then found valueTypeMap
         else Inl (DecError ''currentEncodedType: Unrecognized d.vd: 0x%x'')))"

definition simple_tryDecodeAsNil :: "'r dec_state \<Rightarrow> bool \<times> 'r dec_state" where
  "simple_tryDecodeAsNil d = (if bd d = simpleVdNil then (True, ended d) else (False, d))"

text \<open>The number as unsigned and as signed, and whether it is negative.\<close>

definition simple_decIntAny ::
  "'r decReader \<Rightarrow> 'r dec_state \<Rightarrow> codec_error + ((uint64 \<times> uint64 \<times> bool) \<times> 'r dec_state)" where
  "simple_decIntAny rd d =
     (let b = bd d;
          pos = (\<lambda>(ui, d). Inr ((ui, ui, False), d));
          neg = (\<lambda>(ui, d). Inr ((ui, - ui, True), d));
          n1 = or_error (reading (readn1 rd) d) (\<lambda>(x, d). Inr (ucast x, d));
          n2 = or_error (reading (readUint16 rd) d) (\<lambda>(x, d). Inr (ucast x, d));
          n4 = or_error (reading (readUint32 rd) d) (\<lambda>(x, d). Inr (ucast x, d));
          n8 = reading (readUint64 rd) d
      in
      if b = simpleVdPosInt then or_error n1 pos
      else if b = simpleVdPosInt + 1 then or_error n2 pos
      else if b = simpleVdPosInt + 2 then or_error n4 pos
      else if b = simpleVdPosInt + 3 then or_error n8 pos
      else if b = simpleVdNegInt then or_error n1 neg
      else if b = simpleVdNegInt + 1 then or_error n2 neg
      else if b = simpleVdNegInt + 2 then or_error n4 neg
      else if b = simpleVdNegInt + 3 then or_error n8 neg
      else Inl (DecError ''decIntAny: Integer only valid from pos/neg integer1..8. Invalid descriptor: %v''))"

definition simple_decodeInt :: "'r decReader \<Rightarrow> nat \<Rightarrow> 'r dec_state \<Rightarrow> codec_error + (uint64 \<times> 'r dec_state)" where
  "simple_decodeInt rd bitsize d =
     or_error (simple_decIntAny rd d) (\<lambda>((_, i, _), d).
     or_error (checkOverflow 0 i bitsize) (\<lambda>_. Inr (i, ended d)))"

definition simple_decodeUint :: "'r decReader \<Rightarrow> nat \<Rightarrow> 'r dec_state \<Rightarrow> codec_error + (uint64 \<times> 'r dec_state)" where
  "simple_decodeUint rd bitsize d =
     or_error (simple_decIntAny rd d) (\<lambda>((ui, _, neg), d).
       if neg then Inl (DecError ''Assigning negative signed value: %v, to unsigned type'')
       else or_error (checkOverflow ui 0 bitsize) (\<lambda>_. Inr (ui, ended d)))"

definition simple_decodeFloat :: "'r decReader \<Rightarrow> bool \<Rightarrow> 'r dec_state \<Rightarrow> codec_error + (uint64 \<times> 'r dec_state)" where
  "simple_decodeFloat rd chk d =
     or_error
       (if bd d = simpleVdFloat32 then or_error (reading (readUint32 rd) d) (\<lambda>(x, d). Inr (widen32 x, d))
        else if bd d = simpleVdFloat64 then reading (readUint64 rd) d
        else if simpleVdPosInt \<le> bd d \<and> bd d \<le> simpleVdNegInt + 3 then
          or_error (simple_decIntAny rd d) (\<lambda>((_, i, _), d). Inr (int64_to_float i, d))
        else Inl (DecError ''Float only valid from float32/64: Invalid descriptor: %v''))
       (\<lambda>(f, d). or_error (checkOverflowFloat32 f chk) (\<lambda>_. Inr (f, ended d)))"

definition simple_decodeBool :: "'r dec_state \<Rightarrow> codec_error + (bool \<times> 'r dec_state)" where
  "simple_decodeBool d =
     (if bd d = simpleVdTrue then Inr (True, ended d)
      else if bd d = simpleVdFalse then Inr (False, ended d)
      else Inl (DecError ''Invalid single-byte value for bool: %s: %x''))"

definition simple_decLen :: "'r decReader \<Rightarrow> 'r dec_state \<Rightarrow> codec_error + (int \<times> 'r dec_state)" where
  "simple_decLen rd d =
     (let k = unat (bd d) mod 8 in
      if k = 0 then Inr (0, d)
      else if k = 1 then or_error (reading (readn1 rd) d) (\<lambda>(n, d). Inr (uint n, d))
      else if k = 2 then or_error (reading (readUint16 rd) d) (\<lambda>(n, d). Inr (uint n, d))
      else if k = 3 then
        or_error (reading (readUint32 rd) d) (\<lambda>(n, d).
          or_error (checkOverflow (ucast n) 0 intBitsize) (\<lambda>_. Inr (uint n, d)))
      else if k = 4 then
        or_error (reading (readUint64 rd) d) (\<lambda>(n, d).
          or_error (checkOverflow n 0 intBitsize) (\<lambda>_. Inr (sint n, d)))
      else Inl (DecError ''decLen: Cannot read length: bd%8 must be in range 0..4. Got: %d''))"

definition simple_readLen :: "'r decReader \<Rightarrow> 'r dec_state \<Rightarrow> codec_error + (int \<times> 'r dec_state)" where
  "simple_readLen rd d = simple_decLen rd (ended d)"

definition simple_decodeString :: "'r decReader \<Rightarrow> 'r dec_state \<Rightarrow> codec_error + (bytes \<times> 'r dec_state)" where
  "simple_decodeString rd d =
     or_error (simple_decLen rd d) (\<lambda>(n, d).
     or_error (reading (readn rd n) d) (\<lambda>(s, d). Inr (s, ended d)))"

definition simple_decodeBytes ::
  "'r decReader \<Rightarrow> bytes \<Rightarrow> 'r dec_state \<Rightarrow> codec_error + ((bytes option \<times> bool \<times> bytes) \<times> 'r dec_state)" where
  "simple_decodeBytes rd bs d = or_error (simple_decLen rd d) (\<lambda>(clen, d). fill_bytes rd clen bs d)"

definition simple_decodeExt ::
  "'r decReader \<Rightarrow> byte option \<Rightarrow> 'r dec_state \<Rightarrow> codec_error + ((byte \<times> bytes) \<times> 'r dec_state)" where
  "simple_decodeExt rd tag d =
     (if vd_group simpleVdExt (bd d) then or_error (simple_decLen rd d) (\<lambda>(n, d). read_ext rd tag n d)
      else if vd_group simpleVdByteArray (bd d) then
        or_error (simple_decodeBytes rd [] d) (\<lambda>((x, _, _), d). Inr ((0, case x of None \<Rightarrow> [] | Some x \<Rightarrow> x), ended d))
      else Inl (DecError ''Invalid d.vd for extensions (Expecting extensions or byte array). Got: 0x%x''))"

definition simple_decodeNaked :: "'r decReader \<Rightarrow> 'r dec_state \<Rightarrow> codec_error + (naked \<times> 'r dec_state)" where
  "simple_decodeNaked rd d =
     or_error (init_read rd d) (\<lambda>d.
       let b = bd d in
       if b = simpleVdNil then Inr (Decoded valueTypeNil VNil, ended d)
       else if b = simpleVdFalse then Inr (Decoded valueTypeBool (VBool False), ended d)
       else if b = simpleVdTrue then Inr (Decoded valueTypeBool (VBool True), ended d)
       else if b \<in> {simpleVdPosInt, simpleVdPosInt + 1, simpleVdPosInt + 2, simpleVdPosInt + 3} then
         or_error (simple_decIntAny rd d) (\<lambda>((ui, _, _), d). Inr (Decoded valueTypeUint (VUint ui), ended d))
       else if b \<in> {simpleVdNegInt, simpleVdNegInt + 1, simpleVdNegInt + 2, simpleVdNegInt + 3} then
         or_error (simple_decIntAny rd d) (\<lambda>((_, i, _), d). Inr (Decoded valueTypeInt (VInt i), ended d))
       else if b = simpleVdFloat32 then
         or_error (simple_decodeFloat rd True d) (\<lambda>(f, d). Inr (Decoded valueTypeFloat (VFloat64 f), ended d))
       else if b = simpleVdFloat64 then
         or_error (simple_decodeFloat rd False d) (\<lambda>(f, d). Inr (Decoded valueTypeFloat (VFloat64 f), ended d))
       else if vd_group simpleVdString b then
         or_error (simple_decodeString rd d) (\<lambda>(s, d). Inr (Decoded valueTypeString (VString s), ended d))
       else if vd_group simpleVdByteArray b then
         or_error (simple_decodeBytes rd [] d) (\<lambda>((x, _, _), d).
           Inr (Decoded valueTypeBytes (VBytes (case x of None \<Rightarrow> [] | Some x \<Rightarrow> x)), ended d))
       else if vd_group simpleVdExt b then
         or_error (simple_decLen rd d) (\<lambda>(n, d).
         or_error (reading (readn1 rd) d) (\<lambda>(tag, d).
         or_error (reading (readn rd n) d) (\<lambda>(x, d).
           Inr (Decoded valueTypeExt (VRawExt tag (if n \<le> 0 then None else Some x)), ended d))))
       else if vd_group simpleVdArray b then Inr (Further valueTypeArray, d)
       else if vd_group simpleVdMap b then Inr (Further valueTypeMap, d)
       else Inl (DecError ''decodeNaked: Unrecognized d.vd: 0x%x''))"

definition simpleDecDriver :: "'r decReader \<Rightarrow> 'r dec_state decDriver" where
  "simpleDecDriver rd =
     \<lparr>initReadNext = init_read rd,
      tryDecodeAsNil = simple_tryDecodeAsNil,
      currentEncodedType = simple_currentEncodedType,
      decodeNaked = simple_decodeNaked rd,
      decodeInt = simple_decodeInt rd,
      decodeUint = simple_decodeUint rd,
      decodeFloat = simple_decodeFloat rd,
      decodeBool = simple_decodeBool,
      decodeString = simple_decodeString rd,
      decodeBytes = simple_decodeBytes rd,
      decodeExt = simple_decodeExt rd,
      readMapLen = simple_readLen rd,
      readArrayLen = simple_readLen rd\<rparr>"

end
