(* ===== verification/Codec_Simple_Properties.thy ===== *)
theory Codec_Simple_Properties
  imports Codec_Simple Codec_Laws
begin

text \<open>
  The drivers of \<^verbatim>\<open>simple\<close> keep the contract \<open>codec\<close> over every source of bytes, so whole values survive.
\<close>

section \<open>What is decoded for a simple value\<close>

fun simple_atom :: "val \<Rightarrow> bool" where
  "simple_atom (VString s) \<longleftrightarrow> length s < 2 ^ 63"
| "simple_atom (VBytes b) \<longleftrightarrow> length b < 2 ^ 63"
| "simple_atom (VRawExt t x) \<longleftrightarrow> (case x of None \<Rightarrow> False | Some b \<Rightarrow> length b < 2 ^ 63)"
| "simple_atom (VBool b) \<longleftrightarrow> True"
| "simple_atom (VInt i) \<longleftrightarrow> True"
| "simple_atom (VUint u) \<longleftrightarrow> True"
| "simple_atom (VFloat32 f) \<longleftrightarrow> True"
| "simple_atom (VFloat64 f) \<longleftrightarrow> True"
| "simple_atom (VTime t) \<longleftrightarrow> True"
| "simple_atom v \<longleftrightarrow> False"

fun simple_value :: "val \<Rightarrow> val" where
  "simple_value (VInt i) = (if 0 \<le> sint i then VUint i else VInt i)"
| "simple_value (VFloat32 f) = VFloat64 (widen32 f)"
| "simple_value (VRawExt t (Some b)) = VRawExt t (if b = [] then None else Some b)"
| "simple_value (VTime t) = VBytes (MarshalBinary t)"
| "simple_value v = v"

section \<open>Floats\<close>

lemma top_bit_bounds: "0 < n \<Longrightarrow> 2 ^ top_bit n \<le> n \<and> n < 2 * 2 ^ top_bit n"
proof (induction n rule: top_bit.induct)
  case (1 n)
  show ?case
  proof (cases "n < 2")
    case True
    then show ?thesis using 1 by (simp add: top_bit.simps [of n])
  next
    case False
    then have "2 ^ top_bit (n div 2) \<le> n div 2" "n div 2 < 2 * 2 ^ top_bit (n div 2)" using 1 by simp_all
    then have "2 * 2 ^ top_bit (n div 2) \<le> n" "n < 4 * 2 ^ top_bit (n div 2)" by presburger+
    then show ?thesis using False by (simp add: top_bit.simps [of n])
  qed
qed

lemma float_bits_mask:
  assumes "e < 2048" "m < 2 ^ 52"
  shows "unat (float_bits s e m AND 0x7FFFFFFFFFFFFFFF) = e * 2 ^ 52 + m"
proof -
  have "float_bits s e m AND 0x7FFFFFFFFFFFFFFF = take_bit 63 (float_bits s e m)"
    by (simp add: take_bit_eq_mask mask_eq_exp_minus_1)
  also have "\<dots> = of_nat (take_bit 63 (s * 2 ^ 63 + e * 2 ^ 52 + m))"
    by (simp only: float_bits_def take_bit_of_nat)
  also have "take_bit 63 (s * 2 ^ 63 + e * 2 ^ 52 + m) = (e * 2 ^ 52 + m) mod 2 ^ 63"
    by (simp only: take_bit_eq_mod add.assoc mod_mult_self3)
  also have "\<dots> = e * 2 ^ 52 + m" using assms by simp
  finally show ?thesis using assms by (simp only: unat_of_nat) simp
qed

lemma widen32_fits: "checkOverflowFloat32 (widen32 f) chk = Inr ()"
proof -
  define x where "x = unat f"
  define s e m where "s = x div 2 ^ 31" "e = x div 2 ^ 23 mod 256" "m = x mod 2 ^ 23"
  have m: "m < 2 ^ 23" "e < 256" by (simp_all add: s_e_m_def)
  have "\<exists>e' m'. widen32 f = float_bits s e' m' \<and> e' < 2048 \<and> m' < 2 ^ 52 \<and>
    (2047 \<le> e' \<or> e' * 2 ^ 52 + m' \<le> 0x47EFFFFFE0000000)"
  proof -
    consider "e = 255" | "e = 0" "m = 0" | "e = 0" "0 < m" | "0 < e" "e < 255" using m(2) by linarith
    then show ?thesis
    proof cases
      case 1
      define m' where "m' = (if m = 0 \<or> 2 ^ 22 \<le> m then m * 2 ^ 29 else m * 2 ^ 29 + 2 ^ 51)"
      have "m' < 2 ^ 52" using m(1) by (simp add: m'_def)
      moreover have "widen32 f = float_bits s 2047 m'" using 1 by (simp add: widen32_def Let_def m'_def s_e_m_def x_def)
      ultimately show ?thesis by (intro exI [of _ 2047] exI [of _ m']) simp
    next
      case 2
      have "widen32 f = float_bits s 0 0" using 2 by (simp add: widen32_def Let_def s_e_m_def x_def)
      then show ?thesis by (intro exI [of _ 0]) simp
    next
      case 3
      define k where "k = top_bit m"
      have b: "2 ^ k \<le> m" "m < 2 * 2 ^ k" using top_bit_bounds [OF 3(2)] by (simp_all add: k_def)
      have "2 ^ k < (2 :: nat) ^ 23" using b(1) m(1) by linarith
      then have k: "k \<le> 22" using power_less_imp_less_exp [of "2 :: nat" k 23] by simp
      have "(m - 2 ^ k) * 2 ^ (52 - k) < 2 ^ k * 2 ^ (52 - k)" using b by (intro mult_strict_right_mono) simp_all
      also have "\<dots> = 2 ^ 52" using k by (simp flip: power_add)
      finally have "(m - 2 ^ k) * 2 ^ (52 - k) < 2 ^ 52" .
      moreover have "widen32 f = float_bits s (k + 874) ((m - 2 ^ k) * 2 ^ (52 - k))"
        using 3 by (simp add: widen32_def Let_def k_def s_e_m_def x_def)
      ultimately show ?thesis using k by (intro exI [of _ "k + 874"] exI [of _ "(m - 2 ^ k) * 2 ^ (52 - k)"]) simp
    next
      case 4
      have "widen32 f = float_bits s (e + 896) (m * 2 ^ 29)" using 4 by (simp add: widen32_def Let_def s_e_m_def x_def)
      then show ?thesis using 4 m(1) by (intro exI [of _ "e + 896"] exI [of _ "m * 2 ^ 29"]) simp
    qed
  qed
  then obtain e' m' where w: "widen32 f = float_bits s e' m'" "e' < 2048" "m' < 2 ^ 52"
    "2047 \<le> e' \<or> e' * 2 ^ 52 + m' \<le> 0x47EFFFFFE0000000" by blast
  show ?thesis using float_bits_mask [OF w(2,3), of s] w by (auto simp: checkOverflowFloat32_def word_less_nat_alt word_le_nat_alt)
qed

section \<open>Numbers and lengths\<close>

context byte_source begin

lemma simple_yieldsI:
  assumes "b \<noteq> simpleVdNil" "\<And>d rest. opened d b (w @ rest) \<Longrightarrow> \<exists>d' t. simple_decodeNaked rd d = Inr (Decoded t v, d') \<and> stands d' rest"
  shows "yields (simpleDecDriver rd) b w v"
  unfolding yields_def
proof (intro allI impI)
  fix d rest f
  assume o: "opened d b (w @ rest)"
  obtain d' t where "simple_decodeNaked rd d = Inr (Decoded t v, d')" "stands d' rest" using assms(2) [OF o] by blast
  then show "tryDecodeAsNil (simpleDecDriver rd) d = (False, d) \<and>
      (\<exists>d'. kInterface (simpleDecDriver rd) f d = Inr (v, d') \<and> stands d' rest)"
    using assms(1) opened_bd [OF o] by (simp add: simpleDecDriver_def simple_tryDecodeAsNil_def kInterface_def)
qed

text \<open>The four sizes of a number.\<close>

lemma simple_number:
  assumes g: "g \<in> {simpleVdPosInt, simpleVdNegInt}"
  shows "\<exists>k w. all_written (simple_encUint v g) = (g + k) # w \<and> k \<in> {0, 1, 2, 3} \<and>
    (\<forall>d rest. opened d (g + k) (w @ rest) \<longrightarrow>
      (\<exists>d'. simple_decIntAny rd d = Inr ((v, if g = simpleVdNegInt then - v else v, g = simpleVdNegInt), d') \<and> opened d' (g + k) rest))"
proof -
  consider "v \<le> 255" | "\<not> v \<le> 255" "v \<le> 65535" | "\<not> v \<le> 255" "\<not> v \<le> 65535" "v \<le> 0xFFFFFFFF"
    | "\<not> v \<le> 255" "\<not> v \<le> 65535" "\<not> v \<le> 0xFFFFFFFF" by blast
  then show ?thesis
  proof cases
    case 1
    have v: "ucast (ucast v :: byte) = v" using 1 by (intro ucast_ucast_id) (simp add: word_le_nat_alt)
    have "\<exists>d'. simple_decIntAny rd d = Inr ((v, if g = simpleVdNegInt then - v else v, g = simpleVdNegInt), d') \<and> opened d' (g + 0) rest"
      if o: "opened d (g + 0) ([ucast v] @ rest)" for d rest
      using read_opened(1) [OF o, of "ucast v" rest] opened_bd [OF o] g v by (auto simp: simple_decIntAny_def)
    then show ?thesis using 1 by (intro exI [of _ 0] exI [of _ "[ucast v]"]) (simp add: simple_encUint_def)
  next
    case 2
    have v: "ucast (ucast v :: uint16) = v" using 2 by (intro ucast_ucast_id) (simp add: word_le_nat_alt)
    have "\<exists>d'. simple_decIntAny rd d = Inr ((v, if g = simpleVdNegInt then - v else v, g = simpleVdNegInt), d') \<and> opened d' (g + 1) rest"
      if o: "opened d (g + 1) (PutUint16 (ucast v) @ rest)" for d rest
      using read_opened(2) [OF o refl] opened_bd [OF o] g v by (auto simp: simple_decIntAny_def)
    then show ?thesis using 2 by (intro exI [of _ 1] exI [of _ "PutUint16 (ucast v)"]) (simp add: simple_encUint_def)
  next
    case 3
    have v: "ucast (ucast v :: uint32) = v" using 3 by (intro ucast_ucast_id) (simp add: word_le_nat_alt)
    have "\<exists>d'. simple_decIntAny rd d = Inr ((v, if g = simpleVdNegInt then - v else v, g = simpleVdNegInt), d') \<and> opened d' (g + 2) rest"
      if o: "opened d (g + 2) (PutUint32 (ucast v) @ rest)" for d rest
      using read_opened(3) [OF o refl] opened_bd [OF o] g v by (auto simp: simple_decIntAny_def)
    then show ?thesis using 3 by (intro exI [of _ 2] exI [of _ "PutUint32 (ucast v)"]) (simp add: simple_encUint_def)
  next
    case 4
    have "\<exists>d'. simple_decIntAny rd d = Inr ((v, if g = simpleVdNegInt then - v else v, g = simpleVdNegInt), d') \<and> opened d' (g + 3) rest"
      if o: "opened d (g + 3) (PutUint64 v @ rest)" for d rest
      using read_opened(4) [OF o refl] opened_bd [OF o] g by (auto simp: simple_decIntAny_def)
    then show ?thesis using 4 by (intro exI [of _ 3] exI [of _ "PutUint64 v"]) (simp add: simple_encUint_def)
  qed
qed

abbreviation vd_groups :: "byte set" where
  "vd_groups \<equiv> {simpleVdString, simpleVdByteArray, simpleVdArray, simpleVdMap, simpleVdExt}"

lemma simple_len:
  assumes g: "g \<in> vd_groups" and n: "n < 2 ^ 63"
  shows "\<exists>b w. all_written (simple_encLen g n) = b # w \<and> vd_group g b \<and>
    (\<forall>d rest. behind d b (w @ rest) \<longrightarrow> (\<exists>d'. simple_decLen rd d = Inr (int n, d') \<and> behind d' b rest))"
proof -
  have k: "unat (g + 0) mod 8 = 0" "unat (g + 1) mod 8 = 1" "unat (g + 2) mod 8 = 2" "unat (g + 3) mod 8 = 3" "unat (g + 4) mod 8 = 4"
    using g by auto
  consider "n = 0" | "n \<noteq> 0" "n \<le> 255" | "n \<noteq> 0" "\<not> n \<le> 255" "n \<le> 65535" | "n \<noteq> 0" "\<not> n \<le> 255" "\<not> n \<le> 65535" "n \<le> 4294967295"
    | "n \<noteq> 0" "\<not> n \<le> 255" "\<not> n \<le> 65535" "\<not> n \<le> 4294967295" by blast
  then show ?thesis
  proof cases
    case 1
    have "simple_decLen rd d = Inr (int n, d)" if o: "behind d (g + 0) rest" for d rest
      using behind_bd [OF o] k(1) 1 by (simp add: simple_decLen_def)
    then show ?thesis using 1 by (intro exI [of _ "g + 0"] exI [of _ "[]"]) (auto simp: simple_encLen_def vd_group_def)
  next
    case 2
    have "\<exists>d'. simple_decLen rd d = Inr (int n, d') \<and> behind d' (g + 1) rest" if o: "behind d (g + 1) ([of_nat n] @ rest)" for d rest
      using read_behind(1) [OF o, of "of_nat n" rest] behind_bd [OF o] k(2) of_nat_small [of n, where 'a = 8] 2
      by (auto simp: simple_decLen_def)
    then show ?thesis using 2 by (intro exI [of _ "g + 1"] exI [of _ "[of_nat n]"]) (simp add: simple_encLen_def vd_group_def)
  next
    case 3
    have "\<exists>d'. simple_decLen rd d = Inr (int n, d') \<and> behind d' (g + 2) rest"
      if o: "behind d (g + 2) (PutUint16 (of_nat n) @ rest)" for d rest
      using read_behind(2) [OF o refl] behind_bd [OF o] k(3) of_nat_small [of n, where 'a = 16] 3
      by (auto simp: simple_decLen_def)
    then show ?thesis using 3 by (intro exI [of _ "g + 2"] exI [of _ "PutUint16 (of_nat n)"]) (simp add: simple_encLen_def vd_group_def)
  next
    case 4
    have "\<exists>d'. simple_decLen rd d = Inr (int n, d') \<and> behind d' (g + 3) rest"
      if o: "behind d (g + 3) (PutUint32 (of_nat n) @ rest)" for d rest
      using read_behind(3) [OF o refl] behind_bd [OF o] k(4) of_nat_small [of n, where 'a = 32] 4
      by (auto simp: simple_decLen_def intBitsize_def)
    then show ?thesis using 4 by (intro exI [of _ "g + 3"] exI [of _ "PutUint32 (of_nat n)"]) (simp add: simple_encLen_def vd_group_def)
  next
    case 5
    have "uint (of_nat n :: uint64) = int n" using n by (intro of_nat_small) simp
    then have "sint (of_nat n :: uint64) = int n" using n sint_small [of "of_nat n"] by simp
    then have "\<exists>d'. simple_decLen rd d = Inr (int n, d') \<and> behind d' (g + 4) rest"
      if o: "behind d (g + 4) (PutUint64 (of_nat n) @ rest)" for d rest
      using read_behind(4) [OF o refl] behind_bd [OF o] k(5) by (auto simp: simple_decLen_def intBitsize_def)
    then show ?thesis using 5 by (intro exI [of _ "g + 4"] exI [of _ "PutUint64 (of_nat n)"]) (simp add: simple_encLen_def vd_group_def)
  qed
qed

section \<open>Simple values\<close>

lemma simple_naked:
  assumes "bdRead d" "bd d = b"
  shows "k \<in> {0, 1, 2, 3} \<Longrightarrow> b = simpleVdPosInt + k \<Longrightarrow> simple_decodeNaked rd d =
      or_error (simple_decIntAny rd d) (\<lambda>((ui, _, _), d). Inr (Decoded valueTypeUint (VUint ui), ended d))"
    "k \<in> {0, 1, 2, 3} \<Longrightarrow> b = simpleVdNegInt + k \<Longrightarrow> simple_decodeNaked rd d =
      or_error (simple_decIntAny rd d) (\<lambda>((_, i, _), d). Inr (Decoded valueTypeInt (VInt i), ended d))"
    "vd_group simpleVdString b \<Longrightarrow> simple_decodeNaked rd d =
      or_error (simple_decodeString rd d) (\<lambda>(s, d). Inr (Decoded valueTypeString (VString s), ended d))"
    "vd_group simpleVdByteArray b \<Longrightarrow> simple_decodeNaked rd d = or_error (simple_decodeBytes rd [] d) (\<lambda>((x, _, _), d).
      Inr (Decoded valueTypeBytes (VBytes (case x of None \<Rightarrow> [] | Some x \<Rightarrow> x)), ended d))"
    "vd_group simpleVdExt b \<Longrightarrow> simple_decodeNaked rd d =
      or_error (simple_decLen rd d) (\<lambda>(n, d). or_error (reading (readn1 rd) d) (\<lambda>(tag, d). or_error (reading (readn rd n) d) (\<lambda>(x, d).
        Inr (Decoded valueTypeExt (VRawExt tag (if n \<le> 0 then None else Some x)), ended d))))"
    "vd_group simpleVdArray b \<Longrightarrow> simple_decodeNaked rd d = Inr (Further valueTypeArray, d)"
    "vd_group simpleVdMap b \<Longrightarrow> simple_decodeNaked rd d = Inr (Further valueTypeMap, d)"
proof -
  have d: "init_read rd d = Inr d" using assms(1) by (simp add: init_read_def)
  note defs = d assms(2) simple_decodeNaked_def vd_group_def
  show "k \<in> {0, 1, 2, 3} \<Longrightarrow> b = simpleVdPosInt + k \<Longrightarrow> simple_decodeNaked rd d =
      or_error (simple_decIntAny rd d) (\<lambda>((ui, _, _), d). Inr (Decoded valueTypeUint (VUint ui), ended d))"
    "k \<in> {0, 1, 2, 3} \<Longrightarrow> b = simpleVdNegInt + k \<Longrightarrow> simple_decodeNaked rd d =
      or_error (simple_decIntAny rd d) (\<lambda>((_, i, _), d). Inr (Decoded valueTypeInt (VInt i), ended d))"
    by (elim insertE emptyE; simp add: defs)+
  show "vd_group simpleVdString b \<Longrightarrow> simple_decodeNaked rd d =
      or_error (simple_decodeString rd d) (\<lambda>(s, d). Inr (Decoded valueTypeString (VString s), ended d))"
    "vd_group simpleVdByteArray b \<Longrightarrow> simple_decodeNaked rd d = or_error (simple_decodeBytes rd [] d) (\<lambda>((x, _, _), d).
      Inr (Decoded valueTypeBytes (VBytes (case x of None \<Rightarrow> [] | Some x \<Rightarrow> x)), ended d))"
    "vd_group simpleVdExt b \<Longrightarrow> simple_decodeNaked rd d =
      or_error (simple_decLen rd d) (\<lambda>(n, d). or_error (reading (readn1 rd) d) (\<lambda>(tag, d). or_error (reading (readn rd n) d) (\<lambda>(x, d).
        Inr (Decoded valueTypeExt (VRawExt tag (if n \<le> 0 then None else Some x)), ended d))))"
    "vd_group simpleVdArray b \<Longrightarrow> simple_decodeNaked rd d = Inr (Further valueTypeArray, d)"
    "vd_group simpleVdMap b \<Longrightarrow> simple_decodeNaked rd d = Inr (Further valueTypeMap, d)"
    by (simp only: vd_group_def, elim insertE emptyE; simp add: defs)+
qed

lemma simple_ints:
  "\<exists>b w. all_written (simple_encodeUint u) = b # w \<and> yields (simpleDecDriver rd) b w (VUint u)"
  "\<exists>b w. all_written (simple_encodeInt i) = b # w \<and> yields (simpleDecDriver rd) b w (simple_value (VInt i))"
proof -
  have pos: "\<exists>b w. all_written (simple_encUint u simpleVdPosInt) = b # w \<and> yields (simpleDecDriver rd) b w (VUint u)" for u
  proof -
    obtain k w where w: "all_written (simple_encUint u simpleVdPosInt) = (simpleVdPosInt + k) # w" "k \<in> {0, 1, 2, 3}"
      "\<And>d rest. opened d (simpleVdPosInt + k) (w @ rest) \<Longrightarrow>
        \<exists>d'. simple_decIntAny rd d = Inr ((u, u, False), d') \<and> opened d' (simpleVdPosInt + k) rest"
      using simple_number [of simpleVdPosInt u] by auto
    have "yields (simpleDecDriver rd) (simpleVdPosInt + k) w (VUint u)"
    proof (rule simple_yieldsI)
      show "simpleVdPosInt + k \<noteq> simpleVdNil" using w(2) by auto
      fix d rest
      assume o: "opened d (simpleVdPosInt + k) (w @ rest)"
      then show "\<exists>d' t. simple_decodeNaked rd d = Inr (Decoded t (VUint u), d') \<and> stands d' rest"
        using w(3) [OF o] simple_naked(1) [OF _ _ w(2) refl, of d] ended_stands by (auto simp: opened_def)
    qed
    then show ?thesis using w(1) by blast
  qed
  then show "\<exists>b w. all_written (simple_encodeUint u) = b # w \<and> yields (simpleDecDriver rd) b w (VUint u)"
    by (simp add: simple_encodeUint_def)
  obtain k w where w: "all_written (simple_encUint (- i) simpleVdNegInt) = (simpleVdNegInt + k) # w" "k \<in> {0, 1, 2, 3}"
    "\<And>d rest. opened d (simpleVdNegInt + k) (w @ rest) \<Longrightarrow>
      \<exists>d'. simple_decIntAny rd d = Inr ((- i, i, True), d') \<and> opened d' (simpleVdNegInt + k) rest"
    using simple_number [of simpleVdNegInt "- i"] by auto
  have "yields (simpleDecDriver rd) (simpleVdNegInt + k) w (VInt i)"
  proof (rule simple_yieldsI)
    show "simpleVdNegInt + k \<noteq> simpleVdNil" using w(2) by auto
    fix d rest
    assume o: "opened d (simpleVdNegInt + k) (w @ rest)"
    then show "\<exists>d' t. simple_decodeNaked rd d = Inr (Decoded t (VInt i), d') \<and> stands d' rest"
      using w(3) [OF o] simple_naked(2) [OF _ _ w(2) refl, of d] ended_stands by (auto simp: opened_def)
  qed
  then show "\<exists>b w. all_written (simple_encodeInt i) = b # w \<and> yields (simpleDecDriver rd) b w (simple_value (VInt i))"
    using pos [of i] w(1) by (cases "0 \<le> sint i") (auto simp: simple_encodeInt_def)
qed

lemma simple_strings:
  assumes n: "length s < 2 ^ 63"
  shows "\<exists>b w. all_written (simple_encodeString c s) = b # w \<and> yields (simpleDecDriver rd) b w (VString s)"
    "\<exists>b w. all_written (simple_encodeStringBytes c s) = b # w \<and> yields (simpleDecDriver rd) b w (VBytes s)"
proof -
  obtain b w where w: "all_written (simple_encLen simpleVdString (length s)) = b # w" "vd_group simpleVdString b"
    "\<And>d rest. behind d b (w @ rest) \<Longrightarrow> \<exists>d'. simple_decLen rd d = Inr (int (length s), d') \<and> behind d' b rest"
    using simple_len [of simpleVdString "length s"] n by auto
  have "yields (simpleDecDriver rd) b (w @ s) (VString s)"
  proof (rule simple_yieldsI)
    show "b \<noteq> simpleVdNil" using w(2) by (auto simp: vd_group_def)
    fix d rest
    assume o: "opened d b ((w @ s) @ rest)"
    obtain d1 where d1: "simple_decLen rd d = Inr (int (length s), d1)" "behind d1 b (s @ rest)"
      using w(3) [of d "s @ rest"] opened_behind(1) [OF o] by auto
    obtain d2 where d2: "reading (readn rd (int (length s))) d1 = Inr (s, d2)" "behind d2 b rest"
      using read_behind(5) [OF d1(2) refl] by blast
    show "\<exists>d' t. simple_decodeNaked rd d = Inr (Decoded t (VString s), d') \<and> stands d' rest"
      using o simple_naked(3) [of d b, OF _ _ w(2)] d1(1) d2(1) ended_again [OF behind_stands [OF d2(2)]]
      by (auto simp: opened_def simple_decodeString_def)
  qed
  then show "\<exists>b w. all_written (simple_encodeString c s) = b # w \<and> yields (simpleDecDriver rd) b w (VString s)"
    using w(1) by (auto simp: simple_encodeString_def)
next
  obtain b w where w: "all_written (simple_encLen simpleVdByteArray (length s)) = b # w" "vd_group simpleVdByteArray b"
    "\<And>d rest. behind d b (w @ rest) \<Longrightarrow> \<exists>d'. simple_decLen rd d = Inr (int (length s), d') \<and> behind d' b rest"
    using simple_len [of simpleVdByteArray "length s"] n by auto
  have "yields (simpleDecDriver rd) b (w @ s) (VBytes s)"
  proof (rule simple_yieldsI)
    show "b \<noteq> simpleVdNil" using w(2) by (auto simp: vd_group_def)
    fix d rest
    assume o: "opened d b ((w @ s) @ rest)"
    obtain d1 where d1: "simple_decLen rd d = Inr (int (length s), d1)" "behind d1 b (s @ rest)"
      using w(3) [of d "s @ rest"] opened_behind(1) [OF o] by auto
    obtain d2 where d2: "fill_bytes rd (int (length s)) [] d1 = Inr ((if s = [] then None else Some s, s \<noteq> [], []), d2)" "stands d2 rest"
      using fill_bytes_front [OF d1(2)] by blast
    show "\<exists>d' t. simple_decodeNaked rd d = Inr (Decoded t (VBytes s), d') \<and> stands d' rest"
      using o simple_naked(4) [of d b, OF _ _ w(2)] d1(1) d2(1) ended_again [OF d2(2)]
      by (auto simp: opened_def simple_decodeBytes_def)
  qed
  then show "\<exists>b w. all_written (simple_encodeStringBytes c s) = b # w \<and> yields (simpleDecDriver rd) b w (VBytes s)"
    using w(1) by (auto simp: simple_encodeStringBytes_def)
qed

lemma simple_ext_yields:
  assumes n: "length x < 2 ^ 63"
  shows "\<exists>b w. all_written (simple_encodeExtPreamble t (length x) @ [writeb x]) = b # w \<and>
    yields (simpleDecDriver rd) b w (VRawExt t (if x = [] then None else Some x))"
proof -
  obtain b w where w: "all_written (simple_encLen simpleVdExt (length x)) = b # w" "vd_group simpleVdExt b"
    "\<And>d rest. behind d b (w @ rest) \<Longrightarrow> \<exists>d'. simple_decLen rd d = Inr (int (length x), d') \<and> behind d' b rest"
    using simple_len [of simpleVdExt "length x"] n by auto
  have "yields (simpleDecDriver rd) b (w @ [t] @ x) (VRawExt t (if x = [] then None else Some x))"
  proof (rule simple_yieldsI)
    show "b \<noteq> simpleVdNil" using w(2) by (auto simp: vd_group_def)
    fix d rest
    assume o: "opened d b ((w @ [t] @ x) @ rest)"
    obtain d1 where d1: "simple_decLen rd d = Inr (int (length x), d1)" "behind d1 b (t # x @ rest)"
      using w(3) [of d "t # x @ rest"] opened_behind(1) [OF o] by auto
    obtain d2 where d2: "reading (readn1 rd) d1 = Inr (t, d2)" "behind d2 b (x @ rest)"
      using read_behind(1) [OF d1(2) refl] by blast
    obtain d3 where d3: "reading (readn rd (int (length x))) d2 = Inr (x, d3)" "behind d3 b rest"
      using read_behind(5) [OF d2(2) refl] by blast
    show "\<exists>d' vt. simple_decodeNaked rd d = Inr (Decoded vt (VRawExt t (if x = [] then None else Some x)), d') \<and> stands d' rest"
      using o simple_naked(5) [of d b, OF _ _ w(2)] d1(1) d2(1) d3(1) behind_stands [OF d3(2)] by (auto simp: opened_def)
  qed
  then show ?thesis using w(1) by (simp add: simple_encodeExtPreamble_def)
qed

lemma simple_constants:
  "yields (simpleDecDriver rd) simpleVdFalse [] (VBool False)"
  "yields (simpleDecDriver rd) simpleVdTrue [] (VBool True)"
  by (rule simple_yieldsI; auto simp: simple_decodeNaked_def opened_bd intro: ended_stands)+

lemma simple_floats:
  "yields (simpleDecDriver rd) simpleVdFloat32 (PutUint32 f) (VFloat64 (widen32 f))"
  "yields (simpleDecDriver rd) simpleVdFloat64 (PutUint64 g) (VFloat64 g)"
proof -
  have "\<exists>d' t. simple_decodeNaked rd d = Inr (Decoded t (VFloat64 (widen32 f)), d') \<and> stands d' rest"
    if o: "opened d simpleVdFloat32 (PutUint32 f @ rest)" for d rest
  proof -
    obtain d1 where d1: "reading (readUint32 rd) d = Inr (f, d1)" "opened d1 simpleVdFloat32 rest"
      using read_opened(3) [OF o refl] by blast
    then show ?thesis using opened_bd [OF o] o ended_again [OF ended_stands [OF d1(2)]]
      by (simp add: simple_decodeNaked_def simple_decodeFloat_def widen32_fits)
  qed
  then show "yields (simpleDecDriver rd) simpleVdFloat32 (PutUint32 f) (VFloat64 (widen32 f))" by (intro simple_yieldsI) simp_all
  have "\<exists>d' t. simple_decodeNaked rd d = Inr (Decoded t (VFloat64 g), d') \<and> stands d' rest"
    if o: "opened d simpleVdFloat64 (PutUint64 g @ rest)" for d rest
  proof -
    obtain d1 where d1: "reading (readUint64 rd) d = Inr (g, d1)" "opened d1 simpleVdFloat64 rest"
      using read_opened(4) [OF o refl] by blast
    then show ?thesis using opened_bd [OF o] o ended_again [OF ended_stands [OF d1(2)]]
      by (simp add: simple_decodeNaked_def simple_decodeFloat_def checkOverflowFloat32_def)
  qed
  then show "yields (simpleDecDriver rd) simpleVdFloat64 (PutUint64 g) (VFloat64 g)" by (intro simple_yieldsI) simp_all
qed

section \<open>The contract\<close>

lemma simple_atoms:
  assumes "simple_atom v"
  shows "\<exists>b w. (\<forall>e. all_written (encode simpleEncDriver syms v e) = all_written e @ b # w) \<and>
    yields (simpleDecDriver rd) b w (simple_value v)"
proof (cases v)
  case (VInt i)
  then show ?thesis using simple_ints(2) [of i] by (auto simp: simpleEncDriver_def)
next
  case (VUint u)
  then show ?thesis using simple_ints(1) [of u] by (auto simp: simpleEncDriver_def)
next
  case (VString s)
  then show ?thesis using simple_strings(1) [of s c_UTF8] assms by (auto simp: simpleEncDriver_def)
next
  case (VBytes s)
  then show ?thesis using simple_strings(2) [of s c_RAW] assms by (auto simp: simpleEncDriver_def)
next
  case (VTime t)
  then show ?thesis using simple_strings(2) [of "MarshalBinary t" c_RAW]
    by (auto simp: simpleEncDriver_def encTimeValue_def MarshalBinary_def)
next
  case (VRawExt t x)
  then obtain s where s: "x = Some s" "length s < 2 ^ 63" using assms by (auto split: option.splits)
  then show ?thesis using VRawExt simple_ext_yields [of s t] by (auto simp: simpleEncDriver_def encRawExt_def)
next
  case (VBool b)
  then show ?thesis using simple_constants by (cases b) (auto simp: simpleEncDriver_def simple_encodeBool_def)
next
  case (VFloat32 f)
  then show ?thesis using simple_floats(1) by (auto simp: simpleEncDriver_def simple_encodeFloat32_def)
next
  case (VFloat64 f)
  then show ?thesis using simple_floats(2) by (auto simp: simpleEncDriver_def simple_encodeFloat64_def)
qed (use assms in simp_all)

lemma simple_array_opened:
  assumes "opened d b rest" "vd_group simpleVdArray b"
  shows "simple_decodeNaked rd d = Inr (Further valueTypeArray, d)"
    "simple_currentEncodedType d = Inr (valueTypeArray, d\<lparr>bdType := valueTypeArray\<rparr>)"
    "simple_tryDecodeAsNil d = (False, d)"
proof -
  have d: "bdRead d" "bd d = b" "bdType d = valueTypeUnset" using assms(1) by (simp_all add: opened_def)
  show "simple_decodeNaked rd d = Inr (Further valueTypeArray, d)" using simple_naked(6) [OF d(1,2) assms(2)] .
  show "simple_currentEncodedType d = Inr (valueTypeArray, d\<lparr>bdType := valueTypeArray\<rparr>)" "simple_tryDecodeAsNil d = (False, d)"
    using assms(2) unfolding vd_group_def
    by (elim insertE emptyE; simp add: d(2,3) simple_currentEncodedType_def simple_tryDecodeAsNil_def vd_group_def)+
qed

lemma simple_map_opened:
  assumes "opened d b rest" "vd_group simpleVdMap b"
  shows "simple_decodeNaked rd d = Inr (Further valueTypeMap, d)" "simple_tryDecodeAsNil d = (False, d)"
proof -
  have d: "bdRead d" "bd d = b" using assms(1) by (simp_all add: opened_def)
  show "simple_decodeNaked rd d = Inr (Further valueTypeMap, d)" using simple_naked(7) [OF d assms(2)] .
  show "simple_tryDecodeAsNil d = (False, d)"
    using assms(2) unfolding vd_group_def by (elim insertE emptyE; simp add: d(2) simple_tryDecodeAsNil_def)
qed

lemma simple_decLen_bdRead: "simple_decLen rd d = Inr (n, d') \<Longrightarrow> bdRead d' = bdRead d"
  by (auto simp: simple_decLen_def or_error_Inr_iff Let_def reading_def split: if_splits)

lemma simple_read_len:
  assumes g: "g \<in> vd_groups" and n: "n < 2 ^ 32"
  shows "\<exists>b w. all_written (simple_encLen g n) = b # w \<and> vd_group g b \<and>
    (\<forall>d rest. behind d b (w @ rest) \<longrightarrow> (\<exists>d'. simple_readLen rd d = Inr (int n, d') \<and> stands d' rest))"
proof -
  obtain b w where w: "all_written (simple_encLen g n) = b # w" "vd_group g b"
    "\<And>d rest. behind d b (w @ rest) \<Longrightarrow> \<exists>d'. simple_decLen rd d = Inr (int n, d') \<and> behind d' b rest"
    using simple_len [OF g, of n] n by auto
  have "\<exists>d'. simple_readLen rd d = Inr (int n, d') \<and> stands d' rest" if b: "behind d b (w @ rest)" for d rest
  proof -
    have "behind (ended d) b (w @ rest)" using b by (simp add: behind_def ended_def)
    then obtain d' where d': "simple_decLen rd (ended d) = Inr (int n, d')" "behind d' b rest" using w(3) by blast
    then have "stands d' rest" using simple_decLen_bdRead [OF d'(1)] by (simp add: behind_def stands_def ended_def)
    then show ?thesis using d'(1) by (simp add: simple_readLen_def)
  qed
  then show ?thesis using w by blast
qed

lemma simple_array_law:
  assumes n: "n < 2 ^ 32"
  shows "\<exists>w. (\<forall>e. all_written (encodeArrayPreamble simpleEncDriver n e) = all_written e @ w) \<and>
      (\<forall>d rest f. stands d (w @ rest) \<longrightarrow>
        (\<exists>d1 d2. initReadNext (simpleDecDriver rd) d = Inr d1 \<and> tryDecodeAsNil (simpleDecDriver rd) d1 = (False, d1) \<and>
          stands d2 rest \<and> kInterface (simpleDecDriver rd) f d1 =
            or_error (dec_list f (replicate n VNil) d2) (\<lambda>(vs, d). Inr (VSlice vs, d))))"
proof -
  obtain b w where w: "all_written (simple_encLen simpleVdArray n) = b # w" "vd_group simpleVdArray b"
    "\<And>d rest. behind d b (w @ rest) \<Longrightarrow> \<exists>d'. simple_readLen rd d = Inr (int n, d') \<and> stands d' rest"
    using simple_read_len [of simpleVdArray n] n by auto
  have "\<exists>d1 d2. initReadNext (simpleDecDriver rd) d = Inr d1 \<and> tryDecodeAsNil (simpleDecDriver rd) d1 = (False, d1) \<and>
      stands d2 rest \<and> kInterface (simpleDecDriver rd) f d1 =
        or_error (dec_list f (replicate n VNil) d2) (\<lambda>(vs, d). Inr (VSlice vs, d))"
    if s: "stands d ((b # w) @ rest)" for d rest f
  proof -
    obtain d1 where d1: "init_read rd d = Inr d1" "opened d1 b (w @ rest)" using init_front [of d b "w @ rest"] s by auto
    have "behind (d1\<lparr>bdType := valueTypeArray\<rparr>) b (w @ rest)" using d1(2) by (simp add: opened_def behind_def)
    from w(3) [OF this] obtain d2 where
      d2: "simple_readLen rd (d1\<lparr>bdType := valueTypeArray\<rparr>) = Inr (int n, d2)" "stands d2 rest" by blast
    show ?thesis using d1 d2 simple_array_opened [OF d1(2) w(2)]
      by (intro exI [of _ d1] exI [of _ d2]) (simp add: simpleDecDriver_def kInterface_def decSliceIntf_def decContLens_def)
  qed
  then show ?thesis using w(1) by (intro exI [of _ "b # w"]) (simp add: simpleEncDriver_def simple_encodeArrayPreamble_def)
qed

lemma simple_map_law:
  assumes n: "n < 2 ^ 32"
  shows "\<exists>w. (\<forall>e. all_written (encodeMapPreamble simpleEncDriver n e) = all_written e @ w) \<and>
      (\<forall>d rest f. stands d (w @ rest) \<longrightarrow>
        (\<exists>d1 d2. initReadNext (simpleDecDriver rd) d = Inr d1 \<and> tryDecodeAsNil (simpleDecDriver rd) d1 = (False, d1) \<and>
          stands d2 rest \<and> kInterface (simpleDecDriver rd) f d1 =
            or_error (dec_entries f n [] d2) (\<lambda>(m, d). Inr (VMap m, d))))"
proof -
  obtain b w where w: "all_written (simple_encLen simpleVdMap n) = b # w" "vd_group simpleVdMap b"
    "\<And>d rest. behind d b (w @ rest) \<Longrightarrow> \<exists>d'. simple_readLen rd d = Inr (int n, d') \<and> stands d' rest"
    using simple_read_len [of simpleVdMap n] n by auto
  have "\<exists>d1 d2. initReadNext (simpleDecDriver rd) d = Inr d1 \<and> tryDecodeAsNil (simpleDecDriver rd) d1 = (False, d1) \<and>
      stands d2 rest \<and> kInterface (simpleDecDriver rd) f d1 = or_error (dec_entries f n [] d2) (\<lambda>(m, d). Inr (VMap m, d))"
    if s: "stands d ((b # w) @ rest)" for d rest f
  proof -
    obtain d1 where d1: "init_read rd d = Inr d1" "opened d1 b (w @ rest)" using init_front [of d b "w @ rest"] s by auto
    obtain d2 where d2: "simple_readLen rd d1 = Inr (int n, d2)" "stands d2 rest"
      using w(3) [OF opened_behind(1) [OF d1(2)]] by blast
    show ?thesis using d1 d2 simple_map_opened [OF d1(2) w(2)]
      by (intro exI [of _ d1] exI [of _ d2]) (simp add: simpleDecDriver_def kInterface_def decMapIntfIntf_def)
  qed
  then show ?thesis using w(1) by (intro exI [of _ "b # w"]) (simp add: simpleEncDriver_def simple_encodeMapPreamble_def)
qed

lemma simple_nil:
  assumes "stands d (simpleVdNil # rest)"
  shows "\<exists>d1 d2. initReadNext (simpleDecDriver rd) d = Inr d1 \<and>
    tryDecodeAsNil (simpleDecDriver rd) d1 = (True, d2) \<and> stands d2 rest"
proof -
  obtain d1 where "init_read rd d = Inr d1" "opened d1 simpleVdNil rest" using init_front assms by blast
  then show ?thesis using opened_bd [of d1 simpleVdNil rest] ended_stands [of d1 simpleVdNil rest]
    by (simp add: simpleDecDriver_def simple_tryDecodeAsNil_def)
qed

lemma simple_codec: "codec simpleEncDriver (simpleDecDriver rd) syms all_written stands simple_atom simple_value (2 ^ 32)"
proof unfold_locales
  show "initReadNext (simpleDecDriver rd) d = Inr d1 \<Longrightarrow> initReadNext (simpleDecDriver rd) d1 = Inr d1" for d d1
    by (auto simp: simpleDecDriver_def init_read_def or_error_Inr_iff split: if_splits)
  show "map_key simpleEncDriver syms k = encodeString simpleEncDriver c_UTF8 k" for k
    by (simp add: map_key_def simpleEncDriver_def simple_encodeSymbol_def)
  show "\<exists>w. (\<forall>e. all_written (encodeNil simpleEncDriver e) = all_written e @ w) \<and>
      (\<forall>d rest. stands d (w @ rest) \<longrightarrow> (\<exists>d1 d2. initReadNext (simpleDecDriver rd) d = Inr d1 \<and>
        tryDecodeAsNil (simpleDecDriver rd) d1 = (True, d2) \<and> stands d2 rest))"
    using simple_nil by (intro exI [of _ "[simpleVdNil]"]) (simp add: simpleEncDriver_def)
  fix v assume "simple_atom v"
  then obtain b w where w: "\<And>e. all_written (encode simpleEncDriver syms v e) = all_written e @ b # w"
    "yields (simpleDecDriver rd) b w (simple_value v)" using simple_atoms by blast
  show "\<exists>w. (\<forall>e. all_written (encode simpleEncDriver syms v e) = all_written e @ w) \<and>
      (\<forall>d rest f. stands d (w @ rest) \<longrightarrow> (\<exists>d1 d2. initReadNext (simpleDecDriver rd) d = Inr d1 \<and>
        tryDecodeAsNil (simpleDecDriver rd) d1 = (False, d1) \<and>
        kInterface (simpleDecDriver rd) f d1 = Inr (simple_value v, d2) \<and> stands d2 rest))"
  proof (intro exI [of _ "b # w"] conjI allI impI)
    show "stands d ((b # w) @ rest) \<Longrightarrow> \<exists>d1 d2. initReadNext (simpleDecDriver rd) d = Inr d1 \<and>
        tryDecodeAsNil (simpleDecDriver rd) d1 = (False, d1) \<and>
        kInterface (simpleDecDriver rd) f d1 = Inr (simple_value v, d2) \<and> stands d2 rest" for d rest f
      by (rule yields_law [OF _ w(2)]) (simp_all add: simpleDecDriver_def)
  qed (rule w(1))
qed (use simple_array_law simple_map_law in blast)+

end

interpretation simple_bytes: codec simpleEncDriver "simpleDecDriver bytes_decReader" syms all_written
    bytes_source.stands simple_atom simple_value "2 ^ 32" for syms
  by (rule bytes_source.simple_codec)

interpretation simple_io: codec simpleEncDriver "simpleDecDriver io_decReader" syms all_written
    io_source.stands simple_atom simple_value "2 ^ 32" for syms
  by (rule io_source.simple_codec)

text \<open>
  C28. Values survive the codec \<^verbatim>\<open>simple\<close> in the same way: from a slice of bytes and from a stream in any
  pieces the decoder returns the value that was encoded, but with non-negative integers unsigned and
  floats of 64 bits, and it stops right behind it.
\<close>

theorem simple_roundtrip:
  assumes "encodable (2 ^ 32) simple_atom simple_value (generic v)" "depth (generic v) \<le> n"
    and w: "w = all_written (encode simpleEncDriver syms v [])" and "concat segs = w @ rest"
  shows "\<exists>d d'. Decode (simpleDecDriver bytes_decReader) n (new_dec_state (new_bytes_reader (w @ rest))) =
      Inr (normal simple_value (generic v), d) \<and> \<not> bdRead d \<and> drop (rcursor (reader d)) (rdata (reader d)) = rest \<and>
    Decode (simpleDecDriver io_decReader) n (new_dec_state segs) = Inr (normal simple_value (generic v), d') \<and>
      \<not> bdRead d' \<and> concat (reader d') = rest"
  using both_readers [OF simple_bytes.roundtrip [OF assms(1), of syms] simple_io.roundtrip [OF assms(1), of syms] _ assms(2) w assms(4)]
  by simp

theorem simple_roundtrip_witness:
  "\<exists>d. Decode (simpleDecDriver io_decReader) 3 (new_dec_state [[241], [1, 217, 1, 107, 233, 3, 12], [5, 9, 1, 44, 1, 7]]) =
    Inr (VMap [(VString [107], VSlice [VInt (- 5), VUint 300, VNil])], d) \<and> \<not> bdRead d \<and> concat (reader d) = [7]"
proof -
  let ?v = "VMapStrIntf [([107], VSlice [VInt (- 5), VInt 300, VNil])]"
  have "[241, 1, 217, 1, 107, 233, 3, 12, 5, 9, 1, 44, 1] = all_written (encode simpleEncDriver 0 ?v [])"
    by code_simp
  from simple_roundtrip [OF _ _ this, of 3 "[[241], [1, 217, 1, 107, 233, 3, 12], [5, 9, 1, 44, 1, 7]]" "[7]"]
  show ?thesis by auto
qed

end
