(* ===== verification/Codec_Binc.thy ===== *)
theory Codec_Binc
  imports Codec_Driver
begin

text \<open>
  The codec \<^verbatim>\<open>binc\<close> (\<^verbatim>\<open>binc.go\<close>), with its times (\<^verbatim>\<open>time.go\<close>) and the pruning of bytes
  (\<^verbatim>\<open>helper_internal.go\<close>).  The high four bits of a descriptor are the kind \<open>vd\<close> of the value, the low
  four \<open>vs\<close> its value or the size of what follows.
\<close>

abbreviation bincVdSpecial :: byte where "bincVdSpecial \<equiv> 0"
abbreviation bincVdPosInt :: byte where "bincVdPosInt \<equiv> 1"
abbreviation bincVdNegInt :: byte where "bincVdNegInt \<equiv> 2"
abbreviation bincVdFloat :: byte where "bincVdFloat \<equiv> 3"
abbreviation bincVdString :: byte where "bincVdString \<equiv> 4"
abbreviation bincVdByteArray :: byte where "bincVdByteArray \<equiv> 5"
abbreviation bincVdArray :: byte where "bincVdArray \<equiv> 6"
abbreviation bincVdMap :: byte where "bincVdMap \<equiv> 7"
abbreviation bincVdTimestamp :: byte where "bincVdTimestamp \<equiv> 8"
abbreviation bincVdSmallInt :: byte where "bincVdSmallInt \<equiv> 9"
abbreviation bincVdSymbol :: byte where "bincVdSymbol \<equiv> 11"
abbreviation bincVdCustomExt :: byte where "bincVdCustomExt \<equiv> 15"
abbreviation bincSpNil :: byte where "bincSpNil \<equiv> 0"
abbreviation bincSpFalse :: byte where "bincSpFalse \<equiv> 1"
abbreviation bincSpTrue :: byte where "bincSpTrue \<equiv> 2"
abbreviation bincSpNan :: byte where "bincSpNan \<equiv> 3"
abbreviation bincSpPosInf :: byte where "bincSpPosInf \<equiv> 4"
abbreviation bincSpNegInf :: byte where "bincSpNegInf \<equiv> 5"
abbreviation bincSpZeroFloat :: byte where "bincSpZeroFloat \<equiv> 6"
abbreviation bincSpZero :: byte where "bincSpZero \<equiv> 7"
abbreviation bincSpNegOne :: byte where "bincSpNegOne \<equiv> 8"
abbreviation bincFlBin32 :: byte where "bincFlBin32 \<equiv> 1"
abbreviation bincFlBin64 :: byte where "bincFlBin64 \<equiv> 3"

text \<open>A descriptor of a kind.\<close>

definition desc :: "byte \<Rightarrow> byte \<Rightarrow> byte" where
  "desc vd vs = push_bit 4 vd OR vs"

section \<open>Pruning and times\<close>

fun pruneSignExt :: "bytes \<Rightarrow> bool \<Rightarrow> nat" where
  "pruneSignExt (b # b' # bs) pos =
     (if b = (if pos then 0 else 0xff) \<and> (b' AND 0x80 = 0 \<longleftrightarrow> pos) then Suc (pruneSignExt (b' # bs) pos) else 0)"
| "pruneSignExt bs pos = 0"

definition encTime :: "go_time \<Rightarrow> bytes" where
  "encTime t =
     (let bsec = PutUint64 (unix_secs t);
          f = pruneSignExt bsec (0 \<le> sint (unix_secs t));
          (b1, out1) = (if unix_secs t \<noteq> 0 then (0x80 OR push_bit 2 (of_nat (7 - f)), drop f bsec) else (0, []));
          bns = PutUint32 (of_nat (unix_nsecs t));
          f2 = pruneSignExt bns True;
          (b2, out2) = (if unix_nsecs t \<noteq> 0 then (b1 OR 0x40 OR of_nat (3 - f2), drop f2 bns) else (b1, []));
          (b3, out3) =
            (case zone_offset t of
               None \<Rightarrow> (b2, [])
             | Some z \<Rightarrow>
                 let btmp = PutUint16 (word_of_int (sgn z * (\<bar>z\<bar> div 60)))
                 in (b2 OR 0x20, [btmp ! 0 AND 0x3f, btmp ! 1]))
      in b3 # out1 @ out2 @ out3)"

text \<open>\<^verbatim>\<open>time.Unix\<close> carries whole seconds over from the nanoseconds.\<close>

definition time_Unix :: "uint64 \<Rightarrow> nat \<Rightarrow> int option \<Rightarrow> go_time" where
  "time_Unix sec nsec z = GoTime (sec + of_nat (nsec div 1000000000)) (nsec mod 1000000000) z"

text \<open>A slice that ends after the bytes is a panic.\<close>

definition slice_time :: "nat \<Rightarrow> nat \<Rightarrow> bytes \<Rightarrow> codec_error + bytes" where
  "slice_time i n bs =
     (if i + n \<le> length bs then Inr (take n (drop i bs)) else Inl (RuntimeError ''slice bounds out of range''))"

definition decTime :: "bytes \<Rightarrow> codec_error + go_time" where
  "decTime bs =
     (if bs = [] then Inl (RuntimeError ''index out of range'')
      else
        let b = hd bs in
        or_error
          (if b AND 0x80 \<noteq> 0 then
             let n = unat (drop_bit 2 b AND 7) + 1 in
             or_error (slice_time 1 n bs) (\<lambda>x.
               Inr (be_Uint64 ((if hd x AND 0x80 \<noteq> 0 then replicate (8 - n) 0xff else replicate (8 - n) 0) @ x), 1 + n))
           else Inr (0, 1))
          (\<lambda>(tsec, i).
        or_error
          (if b AND 0x40 \<noteq> 0 then
             let n = unat (b AND 3) + 1 in
             or_error (slice_time i n bs) (\<lambda>x. Inr (unat (be_Uint32 (replicate (4 - n) 0 @ x)), i + n))
           else Inr (0, i))
          (\<lambda>(tnsec, i).
        if b AND 0x20 = 0 then Inr (time_Unix tsec tnsec None)
        else
          or_error (slice_time i 2 bs) (\<lambda>x.
            let tz = be_Uint16 x;
                tz = (if tz AND 0x2000 = 0 then tz AND 0x3fff else tz OR 0xc000)
            in if sint tz = 0 then Inr (time_Unix tsec tnsec None)
               else Inr (time_Unix tsec tnsec (Some (sint tz * 60)))))))"

section \<open>Encoding\<close>

record binc_enc =
  binc_out :: "write_call list"
  binc_m :: "bytes \<rightharpoonup> uint16"
  binc_s :: uint32

definition new_binc_enc :: binc_enc where
  "new_binc_enc = \<lparr>binc_out = [], binc_m = Map.empty, binc_s = 0\<rparr>"

definition emit :: "write_call list \<Rightarrow> binc_enc \<Rightarrow> binc_enc" where
  "emit ws e = e\<lparr>binc_out := binc_out e @ ws\<rparr>"

definition binc_encodeBuiltin :: "go_time \<Rightarrow> write_call list" where
  "binc_encodeBuiltin t =
     (let bs = encTime t in [writen1 (desc bincVdTimestamp (of_nat (length bs))), writeb bs])"

definition binc_encodeBool :: "bool \<Rightarrow> write_call list" where
  "binc_encodeBool b =
     (if b then [writen1 (desc bincVdSpecial bincSpTrue)] else [writen1 (desc bincVdSpecial bincSpFalse)])"

definition binc_encodeFloat32 :: "uint32 \<Rightarrow> write_call list" where
  "binc_encodeFloat32 f =
     (if f AND 0x7FFFFFFF = 0 then [writen1 (desc bincVdSpecial bincSpZeroFloat)]
      else [writen1 (desc bincVdFloat bincFlBin32), writeUint32 f])"

text \<open>The bytes without the zeros at their end.\<close>

definition without_zeros :: "bytes \<Rightarrow> bytes" where
  "without_zeros bs = rev (dropWhile (\<lambda>b. b = 0) (rev bs))"

definition binc_encodeFloat64 :: "uint64 \<Rightarrow> write_call list" where
  "binc_encodeFloat64 f =
     (if f AND 0x7FFFFFFFFFFFFFFF = 0 then [writen1 (desc bincVdSpecial bincSpZeroFloat)]
      else
        let b = PutUint64 f; i = length (without_zeros b) in
        if i \<le> 6 then [writen1 (desc bincVdFloat 8 OR bincFlBin64), writen1 (of_nat i), writeb (take i b)]
        else [writen1 (desc bincVdFloat bincFlBin64), writeb b])"

definition encIntegerPrune :: "byte \<Rightarrow> bool \<Rightarrow> uint64 \<Rightarrow> nat \<Rightarrow> write_call list" where
  "encIntegerPrune b0 pos v lim0 =
     (let b = (if lim0 = 4 then PutUint32 (ucast v) else PutUint64 v); i = pruneSignExt b pos
      in [writen1 ((b0 OR of_nat lim0) - 1 - of_nat i), writeb (drop i b)])"

definition binc_encUint :: "byte \<Rightarrow> bool \<Rightarrow> uint64 \<Rightarrow> write_call list" where
  "binc_encUint b0 pos v =
     (if v = 0 then [writen1 (desc bincVdSpecial bincSpZero)]
      else if pos \<and> 1 \<le> v \<and> v \<le> 16 then [writen1 (desc bincVdSmallInt (ucast (v - 1)))]
      else if v \<le> 255 then [writen2 b0 (ucast v)]
      else if v \<le> 65535 then [writen1 (b0 OR 1), writeUint16 (ucast v)]
      else if v \<le> 0xFFFFFFFF then encIntegerPrune b0 pos v 4
      else encIntegerPrune b0 pos v 8)"

definition binc_encodeInt :: "uint64 \<Rightarrow> write_call list" where
  "binc_encodeInt v =
     (if 0 \<le> sint v then binc_encUint (desc bincVdPosInt 0) True v
      else if sint v = - 1 then [writen1 (desc bincVdSpecial bincSpNegOne)]
      else binc_encUint (desc bincVdNegInt 0) False (- v))"

definition binc_encodeUint :: "uint64 \<Rightarrow> write_call list" where
  "binc_encodeUint v = binc_encUint (desc bincVdPosInt 0) True v"

definition encLenNumber :: "byte \<Rightarrow> nat \<Rightarrow> write_call list" where
  "encLenNumber b v =
     (if v \<le> 255 then [writen2 b (of_nat v)]
      else if v \<le> 65535 then [writen1 (b OR 1), writeUint16 (of_nat v)]
      else if v \<le> 4294967295 then [writen1 (b OR 2), writeUint32 (of_nat v)]
      else [writen1 (b OR 3), writeUint64 (of_nat v)])"

definition binc_encLen :: "byte \<Rightarrow> nat \<Rightarrow> write_call list" where
  "binc_encLen b l = (if l < 12 then [writen1 (b OR of_nat (l + 4))] else encLenNumber b l)"

definition encBytesLen :: "charEncoding \<Rightarrow> nat \<Rightarrow> write_call list" where
  "encBytesLen c l = (if c = c_RAW then binc_encLen (desc bincVdByteArray 0) l else binc_encLen (desc bincVdString 0) l)"

definition binc_encodeExtPreamble :: "byte \<Rightarrow> nat \<Rightarrow> write_call list" where
  "binc_encodeExtPreamble xtag l = binc_encLen (desc bincVdCustomExt 0) l @ [writen1 xtag]"

definition binc_encodeString :: "charEncoding \<Rightarrow> bytes \<Rightarrow> write_call list" where
  "binc_encodeString c v = encBytesLen c (length v) @ (if 0 < length v then [writestr v] else [])"

definition binc_encodeStringBytes :: "charEncoding \<Rightarrow> bytes \<Rightarrow> write_call list" where
  "binc_encodeStringBytes c v = encBytesLen c (length v) @ (if 0 < length v then [writeb v] else [])"

text \<open>
  A symbol is written with its text and a new number at first, later with its number only; the number
  has sixteen bits.
\<close>

definition binc_encodeSymbol :: "bytes \<Rightarrow> binc_enc \<Rightarrow> binc_enc" where
  "binc_encodeSymbol v e =
     (let l = length v in
      if l = 0 then emit (encBytesLen c_UTF8 0) e
      else if l = 1 then emit (encBytesLen c_UTF8 1 @ [writen1 (v ! 0)]) e
      else
        (case binc_m e v of
           Some ui \<Rightarrow>
             if ui \<le> 255 then emit [writen2 (desc bincVdSymbol 0) (ucast ui)] e
             else emit [writen1 (desc bincVdSymbol 8), writeUint16 ui] e
         | None \<Rightarrow>
             let s = binc_s e + 1;
                 ui = ucast s :: uint16;
                 e = e\<lparr>binc_s := s, binc_m := (binc_m e)(v \<mapsto> ui)\<rparr>;
                 lenprec = (if l \<le> 255 then 0 else if l \<le> 65535 then 1 else if l \<le> 4294967295 then 2 else 3 :: byte)
             in emit
                  ((if ui \<le> 255 then [writen2 (desc bincVdSymbol 0 OR 4 OR lenprec) (ucast ui)]
                    else [writen1 (desc bincVdSymbol 8 OR 4 OR lenprec), writeUint16 ui]) @
                   (if lenprec = 0 then [writen1 (of_nat l)]
                    else if lenprec = 1 then [writeUint16 (of_nat l)]
                    else if lenprec = 2 then [writeUint32 (of_nat l)]
                    else [writeUint64 (of_nat l)]) @
                   [writestr v]) e))"

definition bincEncDriver :: "binc_enc encDriver" where
  "bincEncDriver =
     \<lparr>encodeNil = emit [writen1 (desc bincVdSpecial bincSpNil)],
      encodeInt = \<lambda>i. emit (binc_encodeInt i),
      encodeUint = \<lambda>i. emit (binc_encodeUint i),
      encodeBool = \<lambda>b. emit (binc_encodeBool b),
      encodeFloat32 = \<lambda>f. emit (binc_encodeFloat32 f),
      encodeFloat64 = \<lambda>f. emit (binc_encodeFloat64 f),
      encodeExtPreamble = \<lambda>t l. emit (binc_encodeExtPreamble t l),
      encodeArrayPreamble = \<lambda>l. emit (binc_encLen (desc bincVdArray 0) l),
      encodeMapPreamble = \<lambda>l. emit (binc_encLen (desc bincVdMap 0) l),
      encodeString = \<lambda>c s. emit (binc_encodeString c s),
      encodeSymbol = binc_encodeSymbol,
      encodeStringBytes = \<lambda>c s. emit (binc_encodeStringBytes c s),
      encodeTime = Some (\<lambda>t. emit (binc_encodeBuiltin t)),
      write_to = \<lambda>c. emit [c],
      writeExt = True\<rparr>"

section \<open>Decoding\<close>

definition vd :: "'r dec_state \<Rightarrow> byte" where
  "vd d = drop_bit 4 (bd d)"

definition vs :: "'r dec_state \<Rightarrow> byte" where
  "vs d = bd d AND 15"

definition binc_currentEncodedType :: "'r dec_state \<Rightarrow> codec_error + (valueType \<times> 'r dec_state)" where
  "binc_currentEncodedType d =
     (if bdType d \<noteq> valueTypeUnset then Inr (bdType d, d)
      else
        (let found = (\<lambda>t. Inr (t, d\<lparr>bdType := t\<rparr>)) in
         if vd d = bincVdSpecial then
           (if vs d = bincSpNil then found valueTypeNil
            else if vs d = bincSpFalse \<or> vs d = bincSpTrue then found valueTypeBool
            else if vs d = bincSpNan \<or> vs d = bincSpNegInf \<or> vs d = bincSpPosInf \<or> vs d = bincSpZeroFloat
            then found valueTypeFloat
            else if vs d = bincSpZero then found valueTypeUint
            else if vs d = bincSpNegOne then found valueTypeInt
            else Inl (DecError ''currentEncodedType: Unrecognized special value 0x%x''))
         else if vd d = bincVdSmallInt \<or> vd d = bincVdPosInt then found valueTypeUint
         else if vd d = bincVdNegInt then found valueTypeInt
         else if vd d = bincVdFloat then found valueTypeFloat
         else if vd d = bincVdString then found valueTypeString
         else if vd d = bincVdSymbol then found valueTypeSymbol
         else if vd d = bincVdByteArray then found valueTypeBytes
         else if vd d = bincVdTimestamp then found valueTypeTimestamp
         else if vd d = bincVdCustomExt then found valueTypeExt
         else if vd d = bincVdArray then found valueTypeArray
         else if vd d = bincVdMap then found valueTypeMap
         else Inl (DecError ''currentEncodedType: Unrecognized d.vd: 0x%x'')))"

definition binc_tryDecodeAsNil :: "'r dec_state \<Rightarrow> bool \<times> 'r dec_state" where
  "binc_tryDecodeAsNil d = (if bd d = desc bincVdSpecial bincSpNil then (True, ended d) else (False, d))"

definition binc_decodeBuiltin :: "'r decReader \<Rightarrow> 'r dec_state \<Rightarrow> codec_error + (go_time \<times> 'r dec_state)" where
  "binc_decodeBuiltin rd d =
     (if vd d \<noteq> bincVdTimestamp then Inl (DecError ''Invalid d.vd. Expecting 0x%x. Received: 0x%x'')
      else
        or_error (reading (readn rd (uint (vs d))) d) (\<lambda>(x, d).
        or_error (decTime x) (\<lambda>t. Inr (t, ended d))))"

definition decFloatPre :: "'r decReader \<Rightarrow> nat \<Rightarrow> 'r dec_state \<Rightarrow> codec_error + (bytes \<times> 'r dec_state)" where
  "decFloatPre rd defaultLen d =
     (if vs d AND 8 = 0 then reading (readb rd defaultLen) d
      else
        or_error (reading (readn1 rd) d) (\<lambda>(l, d).
          if 8 < l then Inl (DecError ''At most 8 bytes used to represent float. Received: %v bytes'')
          else
            or_error (reading (readb rd (unat l)) d) (\<lambda>(x, d). Inr (x @ replicate (8 - unat l) 0, d))))"

definition decFloat :: "'r decReader \<Rightarrow> 'r dec_state \<Rightarrow> codec_error + (uint64 \<times> 'r dec_state)" where
  "decFloat rd d =
     (let k = vs d AND 7 in
      if k = bincFlBin32 then or_error (decFloatPre rd 4 d) (\<lambda>(b, d). Inr (widen32 (be_Uint32 (take 4 b)), d))
      else if k = bincFlBin64 then or_error (decFloatPre rd 8 d) (\<lambda>(b, d). Inr (be_Uint64 (take 8 b), d))
      else Inl (DecError ''only float32 and float64 are supported. d.vd: 0x%x, d.vs: 0x%x''))"

definition decUint :: "'r decReader \<Rightarrow> 'r dec_state \<Rightarrow> codec_error + (uint64 \<times> 'r dec_state)" where
  "decUint rd d =
     (let n = unat (vs d) in
      if n = 0 then or_error (reading (readn1 rd) d) (\<lambda>(x, d). Inr (ucast x, d))
      else if n = 1 then or_error (reading (readb rd 2) d) (\<lambda>(x, d). Inr (ucast (be_Uint16 x), d))
      else if n = 2 then or_error (reading (readb rd 3) d) (\<lambda>(x, d). Inr (ucast (be_Uint32 (0 # x)), d))
      else if n = 3 then or_error (reading (readb rd 4) d) (\<lambda>(x, d). Inr (ucast (be_Uint32 x), d))
      else if n \<le> 6 then or_error (reading (readb rd (n + 1)) d) (\<lambda>(x, d). Inr (be_Uint64 (replicate (7 - n) 0 @ x), d))
      else if n = 7 then or_error (reading (readb rd 8) d) (\<lambda>(x, d). Inr (be_Uint64 x, d))
      else Inl (DecError ''unsigned integers with greater than 64 bits of precision not supported''))"

definition binc_decIntAny ::
  "'r decReader \<Rightarrow> 'r dec_state \<Rightarrow> codec_error + ((uint64 \<times> uint64 \<times> bool) \<times> 'r dec_state)" where
  "binc_decIntAny rd d =
     (if vd d = bincVdPosInt then or_error (decUint rd d) (\<lambda>(ui, d). Inr ((ui, ui, False), d))
      else if vd d = bincVdNegInt then or_error (decUint rd d) (\<lambda>(ui, d). Inr ((ui, - ui, True), d))
      else if vd d = bincVdSmallInt then Inr ((ucast (vs d) + 1, ucast (vs d) + 1, False), d)
      else if vd d = bincVdSpecial then
        (if vs d = bincSpZero then Inr ((0, 0, False), d)
         else if vs d = bincSpNegOne then Inr ((1, - 1, True), d)
         else Inl (DecError ''numeric decode fails for special value: d.vs: 0x%x''))
      else Inl (DecError ''number can only be decoded from uint or int values. d.bd: 0x%x, d.vd: 0x%x''))"

definition binc_decodeInt :: "'r decReader \<Rightarrow> nat \<Rightarrow> 'r dec_state \<Rightarrow> codec_error + (uint64 \<times> 'r dec_state)" where
  "binc_decodeInt rd bitsize d =
     or_error (binc_decIntAny rd d) (\<lambda>((_, i, _), d).
     or_error (checkOverflow 0 i bitsize) (\<lambda>_. Inr (i, ended d)))"

definition binc_decodeUint :: "'r decReader \<Rightarrow> nat \<Rightarrow> 'r dec_state \<Rightarrow> codec_error + (uint64 \<times> 'r dec_state)" where
  "binc_decodeUint rd bitsize d =
     or_error (binc_decIntAny rd d) (\<lambda>((ui, _, neg), d).
       if neg then Inl (DecError ''Assigning negative signed value: %v, to unsigned type'')
       else or_error (checkOverflow ui 0 bitsize) (\<lambda>_. Inr (ui, ended d)))"

abbreviation go_NaN :: uint64 where "go_NaN \<equiv> 0x7FF8000000000001"
abbreviation go_PosInf :: uint64 where "go_PosInf \<equiv> 0x7FF0000000000000"
abbreviation go_NegInf :: uint64 where "go_NegInf \<equiv> 0xFFF0000000000000"

definition binc_decodeFloat :: "'r decReader \<Rightarrow> bool \<Rightarrow> 'r dec_state \<Rightarrow> codec_error + (uint64 \<times> 'r dec_state)" where
  "binc_decodeFloat rd chk d =
     (if vd d = bincVdSpecial then
        (if vs d = bincSpNan then Inr (go_NaN, ended d)
         else if vs d = bincSpPosInf then Inr (go_PosInf, ended d)
         else if vs d = bincSpZeroFloat \<or> vs d = bincSpZero then Inr (0, ended d)
         else if vs d = bincSpNegInf then Inr (go_NegInf, ended d)
         else Inl (DecError ''Invalid d.vs decoding float where d.vd=bincVdSpecial: %v''))
      else
        or_error
          (if vd d = bincVdFloat then decFloat rd d
           else or_error (binc_decIntAny rd d) (\<lambda>((_, i, _), d). Inr (int64_to_float i, d)))
          (\<lambda>(f, d). or_error (checkOverflowFloat32 f chk) (\<lambda>_. Inr (f, ended d))))"

definition binc_decodeBool :: "'r dec_state \<Rightarrow> codec_error + (bool \<times> 'r dec_state)" where
  "binc_decodeBool d =
     (if bd d = bincVdSpecial OR bincSpFalse then Inr (False, ended d)
      else if bd d = bincVdSpecial OR bincSpTrue then Inr (True, ended d)
      else Inl (DecError ''Invalid single-byte value for bool: %s: %x''))"

definition binc_decLen :: "'r decReader \<Rightarrow> 'r dec_state \<Rightarrow> codec_error + (int \<times> 'r dec_state)" where
  "binc_decLen rd d =
     (if vs d \<le> 3 then or_error (decUint rd d) (\<lambda>(n, d). Inr (sint n, d)) else Inr (uint (vs d - 4), d))"

definition binc_readMapLen :: "'r decReader \<Rightarrow> 'r dec_state \<Rightarrow> codec_error + (int \<times> 'r dec_state)" where
  "binc_readMapLen rd d =
     (if vd d \<noteq> bincVdMap then Inl (DecError ''Invalid d.vd for map. Expecting 0x%x. Got: 0x%x'')
      else or_error (binc_decLen rd d) (\<lambda>(n, d). Inr (n, ended d)))"

definition binc_readArrayLen :: "'r decReader \<Rightarrow> 'r dec_state \<Rightarrow> codec_error + (int \<times> 'r dec_state)" where
  "binc_readArrayLen rd d =
     (if vd d \<noteq> bincVdArray then Inl (DecError ''Invalid d.vd for array. Expecting 0x%x. Got: 0x%x'')
      else or_error (binc_decLen rd d) (\<lambda>(n, d). Inr (n, ended d)))"

definition decode_symbol :: "'r decReader \<Rightarrow> 'r dec_state \<Rightarrow> codec_error + (bytes \<times> 'r dec_state)" where
  "decode_symbol rd d =
     or_error
       (if vs d AND 8 = 0 then or_error (reading (readn1 rd) d) (\<lambda>(x, d). Inr (ucast x, d))
        else or_error (reading (readUint16 rd) d) (\<lambda>(x, d). Inr (ucast x, d)))
       (\<lambda>(symbol, d).
          if vs d AND 4 = 0 then Inr (case symbols d symbol of None \<Rightarrow> [] | Some s \<Rightarrow> s, d)
          else
            or_error
              (if vs d AND 3 = 0 then or_error (reading (readn1 rd) d) (\<lambda>(n, d). Inr (uint n, d))
               else if vs d AND 3 = 1 then or_error (reading (readUint16 rd) d) (\<lambda>(n, d). Inr (uint n, d))
               else if vs d AND 3 = 2 then or_error (reading (readUint32 rd) d) (\<lambda>(n, d). Inr (uint n, d))
               else or_error (reading (readUint64 rd) d) (\<lambda>(n, d). Inr (sint n, d)))
              (\<lambda>(slen, d).
            or_error (reading (readn rd slen) d) (\<lambda>(s, d). Inr (s, d\<lparr>symbols := (symbols d)(symbol \<mapsto> s)\<rparr>))))"

definition binc_decodeString :: "'r decReader \<Rightarrow> 'r dec_state \<Rightarrow> codec_error + (bytes \<times> 'r dec_state)" where
  "binc_decodeString rd d =
     or_error
       (if vd d = bincVdString \<or> vd d = bincVdByteArray then
          or_error (binc_decLen rd d) (\<lambda>(n, d). if 0 < n then reading (readn rd n) d else Inr ([], d))
        else if vd d = bincVdSymbol then decode_symbol rd d
        else Inl (DecError ''Invalid d.vd for string. Expecting string:0x%x, bytearray:0x%x or symbol: 0x%x. Got: 0x%x''))
       (\<lambda>(s, d). Inr (s, ended d))"

definition binc_decodeBytes ::
  "'r decReader \<Rightarrow> bytes \<Rightarrow> 'r dec_state \<Rightarrow> codec_error + ((bytes option \<times> bool \<times> bytes) \<times> 'r dec_state)" where
  "binc_decodeBytes rd bs d =
     (if vd d = bincVdString \<or> vd d = bincVdByteArray
      then or_error (binc_decLen rd d) (\<lambda>(clen, d). fill_bytes rd clen bs d)
      else Inl (DecError ''Invalid d.vd for bytes. Expecting string:0x%x or bytearray:0x%x. Got: 0x%x''))"

definition binc_decodeExt ::
  "'r decReader \<Rightarrow> byte option \<Rightarrow> 'r dec_state \<Rightarrow> codec_error + ((byte \<times> bytes) \<times> 'r dec_state)" where
  "binc_decodeExt rd tag d =
     (if vd d = bincVdCustomExt then or_error (binc_decLen rd d) (\<lambda>(n, d). read_ext rd tag n d)
      else if vd d = bincVdByteArray then
        or_error (binc_decodeBytes rd [] d) (\<lambda>((x, _, _), d). Inr ((0, case x of None \<Rightarrow> [] | Some x \<Rightarrow> x), ended d))
      else Inl (DecError ''Invalid d.vd for extensions (Expecting extensions or byte array). Got: 0x%x''))"

definition binc_decodeNaked :: "'r decReader \<Rightarrow> 'r dec_state \<Rightarrow> codec_error + (naked \<times> 'r dec_state)" where
  "binc_decodeNaked rd d =
     or_error (init_read rd d) (\<lambda>d.
       if vd d = bincVdSpecial then
         (if vs d = bincSpNil then Inr (Decoded valueTypeNil VNil, ended d)
          else if vs d = bincSpFalse then Inr (Decoded valueTypeBool (VBool False), ended d)
          else if vs d = bincSpTrue then Inr (Decoded valueTypeBool (VBool True), ended d)
          else if vs d = bincSpNan then Inr (Decoded valueTypeFloat (VFloat64 go_NaN), ended d)
          else if vs d = bincSpPosInf then Inr (Decoded valueTypeFloat (VFloat64 go_PosInf), ended d)
          else if vs d = bincSpNegInf then Inr (Decoded valueTypeFloat (VFloat64 go_NegInf), ended d)
          else if vs d = bincSpZeroFloat then Inr (Decoded valueTypeFloat (VFloat64 0), ended d)
          else if vs d = bincSpZero then Inr (Decoded valueTypeUint (VInt 0), ended d)
          else if vs d = bincSpNegOne then Inr (Decoded valueTypeInt (VInt (- 1)), ended d)
          else Inl (DecError ''decodeNaked: Unrecognized special value 0x%x''))
       else if vd d = bincVdSmallInt then Inr (Decoded valueTypeUint (VUint (scast (vs d) + 1)), ended d)
       else if vd d = bincVdPosInt then
         or_error (decUint rd d) (\<lambda>(u, d). Inr (Decoded valueTypeUint (VUint u), ended d))
       else if vd d = bincVdNegInt then
         or_error (decUint rd d) (\<lambda>(u, d). Inr (Decoded valueTypeInt (VInt (- u)), ended d))
       else if vd d = bincVdFloat then
         or_error (decFloat rd d) (\<lambda>(f, d). Inr (Decoded valueTypeFloat (VFloat64 f), ended d))
       else if vd d = bincVdSymbol then
         or_error (binc_decodeString rd d) (\<lambda>(s, d). Inr (Decoded valueTypeSymbol (VString s), ended d))
       else if vd d = bincVdString then
         or_error (binc_decodeString rd d) (\<lambda>(s, d). Inr (Decoded valueTypeString (VString s), ended d))
       else if vd d = bincVdByteArray then
         or_error (binc_decodeBytes rd [] d) (\<lambda>((x, _, _), d).
           Inr (Decoded valueTypeBytes (VBytes (case x of None \<Rightarrow> [] | Some x \<Rightarrow> x)), ended d))
       else if vd d = bincVdTimestamp then
         or_error (reading (readn rd (uint (vs d))) d) (\<lambda>(x, d).
         or_error (decTime x) (\<lambda>t. Inr (Decoded valueTypeTimestamp (VTime t), ended d)))
       else if vd d = bincVdCustomExt then
         or_error (binc_decLen rd d) (\<lambda>(n, d).
         or_error (reading (readn1 rd) d) (\<lambda>(tag, d).
         or_error (reading (readn rd n) d) (\<lambda>(x, d).
           Inr (Decoded valueTypeExt (VRawExt tag (if n \<le> 0 then None else Some x)), ended d))))
       else if vd d = bincVdArray then Inr (Further valueTypeArray, d)
       else if vd d = bincVdMap then Inr (Further valueTypeMap, d)
       else Inl (DecError ''decodeNaked: Unrecognized d.vd: 0x%x''))"

definition bincDecDriver :: "'r decReader \<Rightarrow> 'r dec_state decDriver" where
  "bincDecDriver rd =
     \<lparr>initReadNext = init_read rd,
      tryDecodeAsNil = binc_tryDecodeAsNil,
      currentEncodedType = binc_currentEncodedType,
      decodeNaked = binc_decodeNaked rd,
      decodeInt = binc_decodeInt rd,
      decodeUint = binc_decodeUint rd,
      decodeFloat = binc_decodeFloat rd,
      decodeBool = binc_decodeBool,
      decodeString = binc_decodeString rd,
      decodeBytes = binc_decodeBytes rd,
      decodeExt = binc_decodeExt rd,
      readMapLen = binc_readMapLen rd,
      readArrayLen = binc_readArrayLen rd\<rparr>"

end
