(* ===== verification/Codec_Binc_Properties.thy ===== *)
theory Codec_Binc_Properties
  imports Codec_Binc Codec_Laws
begin

text \<open>
  The drivers of \<^verbatim>\<open>binc\<close> keep the contract \<open>codec\<close> for values whose lengths have sixteen bits and
  without the negative integers that they spoil; for both exceptions, what comes out instead.
\<close>

section \<open>Descriptors\<close>

lemma desc_parts:
  "\<forall>g \<in> set [0..<16]. \<forall>k \<in> set [0..<16]. drop_bit 4 (desc (of_nat g) (of_nat k)) = of_nat g \<and> desc (of_nat g) (of_nat k) AND 15 = (of_nat k :: byte)"
  by code_simp

lemma desc_vd_vs:
  assumes "g < 16" "k < 16"
  shows "drop_bit 4 (desc (of_nat g) (of_nat k)) = of_nat g" "desc (of_nat g) (of_nat k) AND 15 = (of_nat k :: byte)"
  using desc_parts assms by simp_all

lemma desc_OR: "desc g 0 OR k = desc g k"
  by (simp add: desc_def)

section \<open>Pruning\<close>

lemma prune_split:
  "bs = replicate (pruneSignExt bs pos) (if pos then 0 else 0xff) @ drop (pruneSignExt bs pos) bs"
  by (induction bs pos rule: pruneSignExt.induct) auto

lemma prune_less: "bs \<noteq> [] \<Longrightarrow> pruneSignExt bs pos < length bs"
  by (induction bs pos rule: pruneSignExt.induct) auto

lemma prune_sign: "bs \<noteq> [] \<Longrightarrow> (hd bs AND 0x80 = 0 \<longleftrightarrow> pos) \<Longrightarrow> (hd (drop (pruneSignExt bs pos) bs) AND 0x80 = 0 \<longleftrightarrow> pos)"
  by (induction bs pos rule: pruneSignExt.induct) auto

lemma be_nat_zeros: "be_nat (replicate n 0 @ bs) = be_nat bs"
  by (induction n) (simp_all add: be_nat_Cons)

lemma prune_pos: "be_nat (drop (pruneSignExt bs True) bs) = be_nat bs"
  using prune_split [of bs True] be_nat_zeros [of "pruneSignExt bs True" "drop (pruneSignExt bs True) bs"] by simp

section \<open>Integers as bytes\<close>

text \<open>Magnitudes of negative integers that are not pruned, as if they were in two's complement.\<close>

definition kept :: "uint64 \<Rightarrow> bool" where
  "kept u \<longleftrightarrow> u \<le> 65535 \<or> pruneSignExt (if u \<le> 0xFFFFFFFF then PutUint32 (ucast u) else PutUint64 u) False = 0"

lemma be_nat_Put: "be_nat (PutUint16 v) = unat v" "be_nat (PutUint32 w) = unat w" "be_nat (PutUint64 x) = unat x"
  using unat_less [of v] unat_less [of w] unat_less [of x]
  by (simp_all add: PutUint16_def PutUint32_def PutUint64_def be_nat_put_be)

lemma prune_desc:
  "\<forall>g \<in> {bincVdPosInt, bincVdNegInt}. \<forall>n \<in> {4, 8}. \<forall>i \<in> set [0..<n].
     (desc g 0 OR of_nat n) - 1 - of_nat i = desc g (of_nat (n - 1 - i))"
  by code_simp

lemma encIntegerPrune_bytes:
  assumes g: "g \<in> {bincVdPosInt, bincVdNegInt}" and n: "n \<in> {4, 8}" and b: "b = (if n = 4 then PutUint32 (ucast v) else PutUint64 v)"
  shows "\<exists>k. all_written (encIntegerPrune (desc g 0) pos v n) = desc g (of_nat k) # drop (pruneSignExt b pos) b \<and>
    k < 8 \<and> length (drop (pruneSignExt b pos) b) = Suc k"
proof -
  let ?i = "pruneSignExt b pos"
  have len: "length b = n" using n b by auto
  then have i: "?i < n" using prune_less [of b pos] n by (cases b) auto
  have "all_written (encIntegerPrune (desc g 0) pos v n) = ((desc g 0 OR of_nat n) - 1 - of_nat ?i) # drop ?i b"
    using n b by (auto simp: encIntegerPrune_def Let_def)
  moreover have "(desc g 0 OR of_nat n) - 1 - of_nat ?i = desc g (of_nat (n - 1 - ?i))"
    using prune_desc [rule_format, OF g n] i by simp
  ultimately show ?thesis using i n len by (intro exI [of _ "n - 1 - ?i"]) auto
qed

lemma encUint_bytes:
  assumes g: "g \<in> {bincVdPosInt, bincVdNegInt}" and v: "v \<noteq> 0" "pos \<longrightarrow> \<not> v \<le> 16" "pos \<or> kept v"
  shows "\<exists>k x. all_written (binc_encUint (desc g 0) pos v) = desc g (of_nat k) # x \<and> k < 8 \<and> length x = Suc k \<and>
    of_nat (be_nat x) = v"
proof -
  consider "v \<le> 255" | "\<not> v \<le> 255" "v \<le> 65535" | "\<not> v \<le> 255" "\<not> v \<le> 65535" "v \<le> 0xFFFFFFFF"
    | "\<not> v \<le> 255" "\<not> v \<le> 65535" "\<not> v \<le> 0xFFFFFFFF" by blast
  then show ?thesis
  proof cases
    case 1
    have "unat (ucast v :: byte) = unat v" using 1
      by (simp add: word_le_nat_alt unsigned_ucast_eq take_bit_nat_eq_self)
    then show ?thesis using 1 v by (intro exI [of _ 0] exI [of _ "[ucast v]"]) (auto simp: binc_encUint_def be_nat_Cons)
  next
    case 2
    have "unat (ucast v :: uint16) = unat v" using 2
      by (simp add: word_le_nat_alt unsigned_ucast_eq take_bit_nat_eq_self)
    then show ?thesis using 2 v
      by (intro exI [of _ 1] exI [of _ "PutUint16 (ucast v)"]) (auto simp: binc_encUint_def be_nat_Put desc_OR)
  next
    case 3
    let ?b = "PutUint32 (ucast v)"
    have u: "unat (ucast v :: uint32) = unat v" using 3
      by (simp add: word_le_nat_alt unsigned_ucast_eq take_bit_nat_eq_self)
    have "be_nat (drop (pruneSignExt ?b pos) ?b) = be_nat ?b" using v(3) 3 prune_pos [of ?b] by (cases pos) (simp_all add: kept_def)
    moreover obtain k where "all_written (encIntegerPrune (desc g 0) pos v 4) = desc g (of_nat k) # drop (pruneSignExt ?b pos) ?b"
      "k < 8" "length (drop (pruneSignExt ?b pos) ?b) = Suc k" using encIntegerPrune_bytes [OF g, of 4 ?b v pos] by auto
    moreover have "binc_encUint (desc g 0) pos v = encIntegerPrune (desc g 0) pos v 4"
      using 3 v by (auto simp: binc_encUint_def)
    ultimately show ?thesis using u be_nat_Put(2) [of "ucast v"] by (intro exI [of _ k] exI [of _ "drop (pruneSignExt ?b pos) ?b"]) simp
  next
    case 4
    let ?b = "PutUint64 v"
    have "be_nat (drop (pruneSignExt ?b pos) ?b) = be_nat ?b" using v(3) 4 prune_pos [of ?b] by (cases pos) (simp_all add: kept_def)
    moreover obtain k where "all_written (encIntegerPrune (desc g 0) pos v 8) = desc g (of_nat k) # drop (pruneSignExt ?b pos) ?b"
      "k < 8" "length (drop (pruneSignExt ?b pos) ?b) = Suc k" using encIntegerPrune_bytes [OF g, of 8 ?b v pos] by auto
    moreover have "binc_encUint (desc g 0) pos v = encIntegerPrune (desc g 0) pos v 8"
      using 4 v by (auto simp: binc_encUint_def)
    ultimately show ?thesis using be_nat_Put(3) [of v] by (intro exI [of _ k] exI [of _ "drop (pruneSignExt ?b pos) ?b"]) simp
  qed
qed

section \<open>What is decoded for a simple value\<close>

definition time_value :: "go_time \<Rightarrow> go_time" where
  "time_value t = GoTime (unix_secs t) (unix_nsecs t)
     (case zone_offset t of None \<Rightarrow> None
      | Some z \<Rightarrow> if \<bar>z\<bar> < 60 then None else Some (sgn z * (\<bar>z\<bar> div 60) * 60))"

fun binc_atom :: "val \<Rightarrow> bool" where
  "binc_atom (VInt i) \<longleftrightarrow> 0 \<le> sint i \<or> kept (- i)"
| "binc_atom (VString s) \<longleftrightarrow> length s < 2 ^ 16"
| "binc_atom (VBytes b) \<longleftrightarrow> length b < 2 ^ 16"
| "binc_atom (VRawExt t x) \<longleftrightarrow> (case x of None \<Rightarrow> False | Some b \<Rightarrow> length b < 2 ^ 16)"
| "binc_atom (VBool b) \<longleftrightarrow> True"
| "binc_atom (VUint u) \<longleftrightarrow> True"
| "binc_atom (VFloat32 f) \<longleftrightarrow> True"
| "binc_atom (VFloat64 f) \<longleftrightarrow> True"
| "binc_atom (VTime t) \<longleftrightarrow> unix_nsecs t < 1000000000 \<and>
     (case zone_offset t of None \<Rightarrow> True | Some z \<Rightarrow> \<bar>z\<bar> div 60 < 8192)"
| "binc_atom v \<longleftrightarrow> False"

fun binc_value :: "val \<Rightarrow> val" where
  "binc_value (VInt i) = (if 0 < sint i then VUint i else VInt i)"
| "binc_value (VUint u) = (if u = 0 then VInt 0 else VUint u)"
| "binc_value (VFloat32 f) = VFloat64 (if f AND 0x7FFFFFFF = 0 then 0 else widen32 f)"
| "binc_value (VFloat64 f) = VFloat64 (if f AND 0x7FFFFFFFFFFFFFFF = 0 then 0 else f)"
| "binc_value (VRawExt t (Some b)) = VRawExt t (if b = [] then None else Some b)"
| "binc_value (VTime t) = VTime (time_value t)"
| "binc_value v = v"

section \<open>Floats without their last zeros\<close>

lemma zeros_at_end: "bs = without_zeros bs @ replicate (length bs - length (without_zeros bs)) 0"
proof -
  have "takeWhile (\<lambda>b. b = 0) (rev bs) = replicate (length (takeWhile (\<lambda>b. b = 0) (rev bs))) 0"
    by (rule replicate_length_same [symmetric]) (auto dest: set_takeWhileD)
  moreover have "rev bs = takeWhile (\<lambda>b. b = 0) (rev bs) @ dropWhile (\<lambda>b. b = 0) (rev bs)" by simp
  ultimately have "bs = rev (dropWhile (\<lambda>b. b = 0) (rev bs)) @ replicate (length (takeWhile (\<lambda>b. b = 0) (rev bs))) 0"
    by (metis rev_append rev_replicate rev_rev_ident)
  then show ?thesis unfolding without_zeros_def
    by (metis diff_add_inverse length_append length_replicate)
qed

lemma length_without_zeros: "length (without_zeros bs) \<le> length bs"
  by (simp add: without_zeros_def length_dropWhile_le [THEN order.trans])

section \<open>Times\<close>

lemma AND_0x80: "(b :: byte) AND 0x80 = 0 \<longleftrightarrow> \<not> bit b 7"
  using and_exp_eq_0_iff_not_bit [of b 7] by simp

lemma sign_of_first: "hd (PutUint64 s) AND 0x80 = 0 \<longleftrightarrow> 0 \<le> sint s"
proof -
  have "hd (PutUint64 s) = ucast (drop_bit 56 s)" using shifts_PutUint(3) [of s] by (metis list.sel(1))
  then have "hd (PutUint64 s) AND 0x80 = 0 \<longleftrightarrow> \<not> bit s 63" by (simp add: AND_0x80 bit_simps)
  also have "\<dots> \<longleftrightarrow> 0 \<le> sint s" using bit_last_iff [of s] by auto
  finally show ?thesis .
qed

lemma secs_back:
  assumes x: "x = drop (pruneSignExt (PutUint64 s) (0 \<le> sint s)) (PutUint64 s)"
  shows "be_Uint64 ((if hd x AND 0x80 \<noteq> 0 then replicate (8 - length x) 0xff else replicate (8 - length x) 0) @ x) = s"
proof -
  let ?f = "pruneSignExt (PutUint64 s) (0 \<le> sint s)"
  have ne: "PutUint64 s \<noteq> []" using length_Put(3) [of s] by (metis list.size(3) zero_neq_numeral)
  then have f: "?f < 8" using prune_less [OF ne] by simp
  have "hd x AND 0x80 = 0 \<longleftrightarrow> 0 \<le> sint s" using prune_sign [OF ne sign_of_first] x by simp
  then have "(if hd x AND 0x80 \<noteq> 0 then replicate (8 - length x) 0xff else replicate (8 - length x) 0) @ x = PutUint64 s"
    using prune_split [of "PutUint64 s" "0 \<le> sint s"] x f by auto
  then show ?thesis by simp
qed

lemma nsecs_back:
  assumes x: "x = drop (pruneSignExt (PutUint32 (of_nat n)) True) (PutUint32 (of_nat n))" and n: "n < 1000000000"
  shows "unat (be_Uint32 (replicate (4 - length x) 0 @ x)) = n"
proof -
  have "be_nat x = be_nat (PutUint32 (of_nat n))"
    using prune_split [of "PutUint32 (of_nat n)" True] be_nat_zeros [of "pruneSignExt (PutUint32 (of_nat n)) True" x] x by simp
  then have "be_nat x = n" using n by (simp add: be_nat_Put unsigned_of_nat take_bit_nat_eq_self)
  then show ?thesis using n by (simp add: be_Uint32_def be_nat_zeros unsigned_of_nat take_bit_nat_eq_self)
qed

lemma zone_back:
  fixes z :: int
  assumes z: "- 8192 \<le> z" "z < 8192" and w: "w = PutUint16 (word_of_int z)"
  shows "sint (let tz = be_Uint16 [w ! 0 AND 0x3f, w ! 1] in if tz AND 0x2000 = 0 then tz AND 0x3fff else tz OR 0xc000) = z"
proof -
  define W :: uint16 where "W = word_of_int z"
  have masks: "(0x3f :: byte) = mask 6" "(0x3fff :: uint16) = mask 14" "(0xc000 :: uint16) = NOT (mask 14)" "(0x2000 :: uint16) = 2 ^ 13"
    by (simp_all add: mask_eq_exp_minus_1)
  have "w = [ucast (drop_bit 8 W), ucast W]" using shifts_PutUint(1) [of W] w by (simp add: W_def)
  then have "be_Uint16 [w ! 0 AND 0x3f, w ! 1] = ucast (ucast W :: byte) OR push_bit 8 (ucast (ucast (drop_bit 8 W) AND 0x3f :: byte))"
    by (simp add: or_byte_shift)
  also have "\<dots> = W AND mask 14"
    unfolding masks
  proof (rule bit_word_eqI)
    fix i :: nat
    assume "i < LENGTH(16)"
    then have i: "i < 16" by simp
    show "bit (ucast (ucast W :: byte) OR push_bit 8 (ucast (ucast (drop_bit 8 W) AND mask 6 :: byte)) :: uint16) i \<longleftrightarrow>
        bit (W AND mask 14) i"
    proof (cases "i < 8")
      case True
      then show ?thesis by (simp add: bit_or_iff bit_and_iff bit_push_bit_iff bit_ucast_iff bit_mask_iff)
    next
      case False
      then obtain j where j: "i = 8 + j" by (metis le_Suc_ex not_less)
      then show ?thesis using i by (auto simp add: bit_or_iff bit_and_iff bit_push_bit_iff bit_ucast_iff bit_mask_iff bit_drop_bit_eq)
    qed
  qed
  finally have tz: "be_Uint16 [w ! 0 AND 0x3f, w ! 1] = W AND mask 14" .
  have "z = signed_take_bit 13 z" using z by (simp add: signed_take_bit_int_eq_self)
  then have high: "bit z i = bit z 13" if "13 \<le> i" for i
  proof -
    have "bit (signed_take_bit 13 z) i = bit z 13" using that by (simp add: bit_signed_take_bit_iff min_def)
    then show ?thesis using \<open>z = signed_take_bit 13 z\<close> by simp
  qed
  have W: "bit W i \<longleftrightarrow> i < 16 \<and> bit z i" for i by (simp add: W_def bit_word_of_int_iff)
  have "(let tz = be_Uint16 [w ! 0 AND 0x3f, w ! 1] in if tz AND 0x2000 = 0 then tz AND 0x3fff else tz OR 0xc000) = W"
  proof (cases "bit z 13")
    case True
    have "(W AND mask 14) AND 2 ^ 13 \<noteq> 0" using True W and_exp_eq_0_iff_not_bit [of "W AND mask 14" 13] by (simp add: bit_simps)
    moreover have "(W AND mask 14) OR NOT (mask 14) = W"
      by (rule bit_word_eqI) (use high True in \<open>auto simp: bit_simps W\<close>)
    ultimately show ?thesis unfolding Let_def tz unfolding masks by simp
  next
    case False
    have low: "bit z i \<Longrightarrow> i < 14" for i using high [of i] False by (cases "13 \<le> i") auto
    have "(W AND mask 14) AND 2 ^ 13 = 0" using False W and_exp_eq_0_iff_not_bit [of "W AND mask 14" 13] by (simp add: bit_simps)
    moreover have "(W AND mask 14) AND mask 14 = W"
      by (rule bit_word_eqI) (auto simp: bit_simps W dest: low)
    ultimately show ?thesis unfolding Let_def tz unfolding masks by simp
  qed
  moreover have "sint W = z" using z unfolding W_def by transfer (simp add: signed_take_bit_int_eq_self)
  ultimately show ?thesis by simp
qed
definition time_head :: "bool \<Rightarrow> nat \<Rightarrow> bool \<Rightarrow> nat \<Rightarrow> bool \<Rightarrow> byte" where
  "time_head hs k hn m hz =
     (let b1 = (if hs then 0x80 OR push_bit 2 (of_nat k) else 0); b2 = (if hn then b1 OR 0x40 OR of_nat m else b1)
      in if hz then b2 OR 0x20 else b2)"

lemma time_head_bits:
  "\<forall>hs \<in> {True, False}. \<forall>k \<in> set [0..<8]. \<forall>hn \<in> {True, False}. \<forall>m \<in> set [0..<4]. \<forall>hz \<in> {True, False}.
     (let b = time_head hs k hn m hz in
      (b AND 0x80 = 0 \<longleftrightarrow> \<not> hs) \<and> (hs \<longrightarrow> unat (drop_bit 2 b AND 7) = k) \<and>
      (b AND 0x40 = 0 \<longleftrightarrow> \<not> hn) \<and> (hn \<longrightarrow> unat (b AND 3) = m) \<and> (b AND 0x20 = 0 \<longleftrightarrow> \<not> hz))"
  by code_simp

lemma time_head_parts:
  assumes "k < 8" "m < 4"
  shows "time_head hs k hn m hz AND 0x80 = 0 \<longleftrightarrow> \<not> hs" "hs \<Longrightarrow> unat (drop_bit 2 (time_head hs k hn m hz) AND 7) = k"
    "time_head hs k hn m hz AND 0x40 = 0 \<longleftrightarrow> \<not> hn" "hn \<Longrightarrow> unat (time_head hs k hn m hz AND 3) = m"
    "time_head hs k hn m hz AND 0x20 = 0 \<longleftrightarrow> \<not> hz"
proof -
  have "hs \<in> {True, False}" "k \<in> set [0..<8]" "hn \<in> {True, False}" "m \<in> set [0..<4]" "hz \<in> {True, False}" using assms by auto
  note time_head_bits [THEN bspec, OF this(1), THEN bspec, OF this(2), THEN bspec, OF this(3), THEN bspec, OF this(4),
      THEN bspec, OF this(5), unfolded Let_def]
  then show "time_head hs k hn m hz AND 0x80 = 0 \<longleftrightarrow> \<not> hs" "hs \<Longrightarrow> unat (drop_bit 2 (time_head hs k hn m hz) AND 7) = k"
    "time_head hs k hn m hz AND 0x40 = 0 \<longleftrightarrow> \<not> hn" "hn \<Longrightarrow> unat (time_head hs k hn m hz AND 3) = m"
    "time_head hs k hn m hz AND 0x20 = 0 \<longleftrightarrow> \<not> hz"
    by blast+
qed

lemma encTime_parts:
  assumes s: "s = unix_secs t" and n: "n = unix_nsecs t"
    and f1: "f1 = pruneSignExt (PutUint64 s) (0 \<le> sint s)" and f2: "f2 = pruneSignExt (PutUint32 (of_nat n)) True"
  shows "encTime t = time_head (s \<noteq> 0) (7 - f1) (n \<noteq> 0) (3 - f2) (zone_offset t \<noteq> None) #
    (if s \<noteq> 0 then drop f1 (PutUint64 s) else []) @ (if n \<noteq> 0 then drop f2 (PutUint32 (of_nat n)) else []) @
    (case zone_offset t of None \<Rightarrow> []
     | Some z \<Rightarrow> let w = PutUint16 (word_of_int (sgn z * (\<bar>z\<bar> div 60))) in [w ! 0 AND 0x3f, w ! 1])"
  using assms by (auto simp: encTime_def time_head_def Let_def split: option.split)

lemma decTime_read:
  assumes "E \<noteq> []" "hd E = b"
    "(if b AND 0x80 \<noteq> 0 then
             let n = unat (drop_bit 2 b AND 7) + 1 in
             or_error (slice_time 1 n E) (\<lambda>x.
               Inr (be_Uint64 ((if hd x AND 0x80 \<noteq> 0 then replicate (8 - n) 0xff else replicate (8 - n) 0) @ x), 1 + n))
           else Inr (0, 1)) = Inr (s, i1)"
    "(if b AND 0x40 \<noteq> 0 then
             let n = unat (b AND 3) + 1 in
             or_error (slice_time i1 n E) (\<lambda>x. Inr (unat (be_Uint32 (replicate (4 - n) 0 @ x)), i1 + n))
           else Inr (0, i1)) = Inr (n, i2)"
  shows "decTime E =
    (if b AND 0x20 = 0 then Inr (time_Unix s n None)
     else
       or_error (slice_time i2 2 E) (\<lambda>x.
         let tz = sint (let tz = be_Uint16 x in if tz AND 0x2000 = 0 then tz AND 0x3fff else tz OR 0xc000)
         in if tz = 0 then Inr (time_Unix s n None) else Inr (time_Unix s n (Some (tz * 60)))))"
  unfolding decTime_def assms(2) if_not_P [OF assms(1)] Let_def [of b] assms(3)
  by (simp only: assms(4) [unfolded Let_def] or_error_simps prod.case Let_def)

lemma time_roundtrip:
  assumes t: "unix_nsecs t < 1000000000" "case zone_offset t of None \<Rightarrow> True | Some z \<Rightarrow> \<bar>z\<bar> div 60 < 8192"
  shows "decTime (encTime t) = Inr (time_value t)" "length (encTime t) < 16"
proof -
  define s n where sn: "s = unix_secs t" "n = unix_nsecs t"
  define f1 f2 where f: "f1 = pruneSignExt (PutUint64 s) (0 \<le> sint s)" "f2 = pruneSignExt (PutUint32 (of_nat n)) True"
  define x1 x2 where x: "x1 = drop f1 (PutUint64 s)" "x2 = drop f2 (PutUint32 (of_nat n))"
  define x3 where x3: "x3 = (case zone_offset t of None \<Rightarrow> []
     | Some z \<Rightarrow> let w = PutUint16 (word_of_int (sgn z * (\<bar>z\<bar> div 60))) in [w ! 0 AND 0x3f, w ! 1])"
  define b where b: "b = time_head (s \<noteq> 0) (7 - f1) (n \<noteq> 0) (3 - f2) (zone_offset t \<noteq> None)"
  have "PutUint64 s \<noteq> []" "PutUint32 (of_nat n) \<noteq> []"
    using length_Put(3) [of s] length_Put(2) [of "of_nat n"] by (metis list.size(3) zero_neq_numeral)+
  then have f8: "f1 < 8" "f2 < 4" using prune_less f by fastforce+
  have enc: "encTime t = b # (if s \<noteq> 0 then x1 else []) @ (if n \<noteq> 0 then x2 else []) @ x3"
    using encTime_parts [OF sn f] by (simp only: b x x3)
  have len: "length x1 = 8 - f1" "length x2 = 4 - f2" "length x3 = (if zone_offset t = None then 0 else 2)"
    using x x3 by (auto simp: Let_def split: option.split)
  have "length (encTime t) \<le> 1 + 8 + 4 + 2" using enc len by auto
  then show "length (encTime t) < 16" by simp
  define k1 k2 where k: "k1 = 7 - f1" "k2 = 3 - f2"
  have lk: "length x1 = Suc k1" "length x2 = Suc k2" using len f8 k by auto
  have kk: "k1 < 8" "k2 < 4" using k by simp_all
  have head: "b = time_head (s \<noteq> 0) k1 (n \<noteq> 0) k2 (zone_offset t \<noteq> None)" by (simp only: b k)
  have bits: "b AND 0x80 = 0 \<longleftrightarrow> s = 0" "s \<noteq> 0 \<Longrightarrow> unat (drop_bit 2 b AND 7) = k1"
    "b AND 0x40 = 0 \<longleftrightarrow> n = 0" "n \<noteq> 0 \<Longrightarrow> unat (b AND 3) = k2" "b AND 0x20 = 0 \<longleftrightarrow> zone_offset t = None"
    unfolding head by (simp_all add: time_head_parts kk)
  have k8: "8 - length x1 = 8 - Suc k1" using lk by simp
  have secs: "be_Uint64 ((if hd x1 AND 0x80 \<noteq> 0 then replicate (8 - Suc k1) 0xff else replicate (8 - Suc k1) 0) @ x1) = s"
    using secs_back [OF x(1) [unfolded f(1)]] unfolding k8 .
  have nsecs: "unat (be_Uint32 (replicate (3 - k2) 0 @ x2)) = n" using nsecs_back [OF x(2) [unfolded f(2)]] t(1) sn(2) lk by simp
  have unix: "time_Unix s n z = GoTime s n z" for z using t(1) sn(2) by (simp add: time_Unix_def)
  have zone: "sint (let tz = be_Uint16 x3 in if tz AND 0x2000 = 0 then tz AND 0x3fff else tz OR 0xc000) = sgn z * (\<bar>z\<bar> div 60)"
    if z: "zone_offset t = Some z" for z
  proof -
    have "- 8192 \<le> sgn z * (\<bar>z\<bar> div 60)" "sgn z * (\<bar>z\<bar> div 60) < 8192" using t(2) z by (auto simp: sgn_if)
    from zone_back [OF this refl] show ?thesis using z by (simp add: x3 Let_def)
  qed
  define E where E: "E = encTime t"
  let ?i1 = "if s \<noteq> 0 then Suc (Suc k1) else 1" let ?i2 = "if n \<noteq> 0 then ?i1 + Suc k2 else ?i1"
  have ne: "E \<noteq> []" "hd E = b" using enc E by simp_all
  have sl: "s \<noteq> 0 \<Longrightarrow> slice_time 1 (Suc k1) E = Inr x1" "n \<noteq> 0 \<Longrightarrow> slice_time ?i1 (Suc k2) E = Inr x2"
    "zone_offset t \<noteq> None \<Longrightarrow> slice_time ?i2 2 E = Inr x3"
    using enc E lk len(3) by (auto simp: slice_time_def)
  have 1: "(if b AND 0x80 \<noteq> 0 then
             let n = unat (drop_bit 2 b AND 7) + 1 in
             or_error (slice_time 1 n E) (\<lambda>x.
               Inr (be_Uint64 ((if hd x AND 0x80 \<noteq> 0 then replicate (8 - n) 0xff else replicate (8 - n) 0) @ x), 1 + n))
           else Inr (0, 1)) = (Inr (s, ?i1) :: codec_error + uint64 \<times> nat)"
    using bits(1,2) sl(1) secs by (cases "s = 0") (simp_all add: Let_def split del: if_split)
  have 2: "(if b AND 0x40 \<noteq> 0 then
             let n = unat (b AND 3) + 1 in
             or_error (slice_time ?i1 n E) (\<lambda>x. Inr (unat (be_Uint32 (replicate (4 - n) 0 @ x)), ?i1 + n))
           else Inr (0, ?i1)) = (Inr (n, ?i2) :: codec_error + nat \<times> nat)"
    using bits(3,4) sl(2) nsecs by (cases "n = 0") (simp_all add: Let_def)
  have "decTime E = Inr (time_value t)"
  proof (cases "zone_offset t")
    case None
    then show ?thesis
      unfolding decTime_read [OF ne 1 2] using bits(5) by (simp add: unix time_value_def flip: sn)
  next
    case (Some z)
    have z0: "sgn z * (\<bar>z\<bar> div 60) = 0 \<longleftrightarrow> \<bar>z\<bar> < 60" by (auto simp: sgn_if)
    show ?thesis
      unfolding decTime_read [OF ne 1 2] using bits(5) sl(3) zone [OF Some] Some z0
      by (simp add: unix time_value_def Let_def flip: sn)
  qed
  then show "decTime (encTime t) = Inr (time_value t)" by (simp only: E)
qed

context byte_source begin

lemma binc_yieldsI:
  assumes "b \<noteq> desc bincVdSpecial bincSpNil"
    "\<And>d rest. opened d b (w @ rest) \<Longrightarrow> \<exists>d' t. binc_decodeNaked rd d = Inr (Decoded t v, d') \<and> stands d' rest"
  shows "yields (bincDecDriver rd) b w v"
  unfolding yields_def
proof (intro allI impI)
  fix d rest f
  assume o: "opened d b (w @ rest)"
  obtain d' t where "binc_decodeNaked rd d = Inr (Decoded t v, d')" "stands d' rest" using assms(2) [OF o] by blast
  then show "tryDecodeAsNil (bincDecDriver rd) d = (False, d) \<and>
      (\<exists>d'. kInterface (bincDecDriver rd) f d = Inr (v, d') \<and> stands d' rest)"
    using assms(1) opened_bd [OF o] by (simp add: bincDecDriver_def binc_tryDecodeAsNil_def kInterface_def)
qed

section \<open>Numbers\<close>

lemma decUint_bytes:
  assumes d: "behind d b (x @ rest)" and k: "vs d = of_nat k" "k < 8" and x: "length x = Suc k"
  shows "\<exists>d'. decUint rd d = Inr (of_nat (be_nat x), d') \<and> behind d' b rest"
proof -
  obtain d' where d': "reading (readb rd (Suc k)) d = Inr (x, d')" "behind d' b rest"
    using read_behind(6) [OF d refl] x by auto
  have less: "be_nat x < 256 ^ Suc k" using be_nat_less [of x] x by simp
  have u: "unat (vs d) = k" using k by simp
  consider "k = 0" | "k = 1" | "k = 2" | "k = 3" | "3 < k" "k < 7" | "k = 7" using k(2) by linarith
  then show ?thesis
  proof cases
    case 1
    then obtain y where y: "x = [y]" using x by (cases x) auto
    obtain d1 where "reading (readn1 rd) d = Inr (y, d1)" "behind d1 b rest" using read_behind(1) [OF d, of y rest] y by auto
    then show ?thesis using 1 u y by (auto simp: decUint_def be_nat_Cons)
  next
    case 2
    then have "ucast (be_Uint16 x) = (of_nat (be_nat x) :: uint64)" using less
      by (simp add: be_Uint16_def unsigned_of_nat take_bit_nat_eq_self)
    then show ?thesis using 2 u d' by (auto simp: decUint_def numeral_2_eq_2)
  next
    case 3
    then have "ucast (be_Uint32 (0 # x)) = (of_nat (be_nat x) :: uint64)" using less
      by (simp add: be_Uint32_def be_nat_Cons unsigned_of_nat take_bit_nat_eq_self)
    then show ?thesis using 3 u d' by (auto simp: decUint_def numeral_3_eq_3 numeral_2_eq_2)
  next
    case 4
    then have "ucast (be_Uint32 x) = (of_nat (be_nat x) :: uint64)" using less
      by (simp add: be_Uint32_def unsigned_of_nat take_bit_nat_eq_self)
    then show ?thesis using 4 u d' by (auto simp: decUint_def)
  next
    case 5
    then show ?thesis using u d' by (auto simp: decUint_def be_Uint64_def be_nat_zeros)
  next
    case 6
    then show ?thesis using u d' by (auto simp: decUint_def be_Uint64_def)
  qed
qed

lemma opened_desc:
  assumes "opened d (desc (of_nat g) (of_nat k)) w" "g < 16" "k < 16"
  shows "vd d = of_nat g" "vs d = of_nat k" "init_read rd d = Inr d"
  using desc_vd_vs [OF assms(2,3)] opened_bd [OF assms(1)] assms(1) by (simp_all add: vd_def vs_def)

lemma binc_nonzero: "g < 16 \<Longrightarrow> k < 16 \<Longrightarrow> g \<noteq> 0 \<Longrightarrow> desc (of_nat g) (of_nat k) \<noteq> desc bincVdSpecial bincSpNil"
proof
  assume gk: "g < 16" "k < 16" "g \<noteq> 0" and e: "desc (of_nat g) (of_nat k) = desc bincVdSpecial bincSpNil"
  have "drop_bit 4 (desc (of_nat g) (of_nat k)) = of_nat 0" using e desc_vd_vs(1) [of 0 0] by simp
  then have "(of_nat g :: byte) = of_nat 0" using desc_vd_vs(1) [OF gk(1,2)] by simp
  then have "g mod 256 = 0" by (metis unat_byte mod_0)
  then show False using gk by simp
qed

lemma binc_special:
  "yields (bincDecDriver rd) (desc bincVdSpecial bincSpFalse) [] (VBool False)"
  "yields (bincDecDriver rd) (desc bincVdSpecial bincSpTrue) [] (VBool True)"
  "yields (bincDecDriver rd) (desc bincVdSpecial bincSpZeroFloat) [] (VFloat64 0)"
  "yields (bincDecDriver rd) (desc bincVdSpecial bincSpZero) [] (VInt 0)"
  "yields (bincDecDriver rd) (desc bincVdSpecial bincSpNegOne) [] (VInt (- 1))"
  by (rule binc_yieldsI; auto simp: desc_def binc_decodeNaked_def vd_def vs_def opened_bd intro: ended_stands)+

lemma small_conversions:
  "\<forall>k \<in> set [0..<16]. ucast (of_nat k :: uint64) = (of_nat k :: byte) \<and> scast (of_nat k :: byte) = (of_nat k :: uint64)"
  by code_simp

lemma binc_small: "v - 1 \<le> (15 :: uint64) \<Longrightarrow> yields (bincDecDriver rd) (desc bincVdSmallInt (ucast (v - 1))) [] (VUint v)"
proof -
  assume v: "v - 1 \<le> 15"
  define k where "k = unat (v - 1)"
  have k: "k < 16" "v - 1 = of_nat k" using v by (simp_all add: k_def word_le_nat_alt)
  have c: "ucast (v - 1) = (of_nat k :: byte)" "scast (of_nat k :: byte) = (of_nat k :: uint64)"
    using small_conversions k by simp_all
  have "scast (of_nat k :: byte) + 1 = v" using k(2) c(2) by (simp add: algebra_simps)
  then have "\<exists>d' t. binc_decodeNaked rd d = Inr (Decoded t (VUint v), d') \<and> stands d' rest"
    if o: "opened d (desc bincVdSmallInt (of_nat k)) ([] @ rest)" for d rest
    using opened_desc [of d 9 k rest] o k(1) ended_stands by (simp add: binc_decodeNaked_def)
  then show ?thesis unfolding c(1) using binc_nonzero [of 9 k] k(1) by (intro binc_yieldsI) simp_all
qed

lemma binc_integer:
  assumes g: "g \<in> {bincVdPosInt, bincVdNegInt}" and v: "v \<noteq> 0" "pos \<longrightarrow> \<not> v \<le> 16" "pos \<or> kept v"
  shows "\<exists>b w. all_written (binc_encUint (desc g 0) pos v) = b # w \<and>
    yields (bincDecDriver rd) b w (if g = bincVdPosInt then VUint v else VInt (- v))"
proof -
  obtain k x where x: "all_written (binc_encUint (desc g 0) pos v) = desc g (of_nat k) # x" "k < 8" "length x = Suc k"
    "of_nat (be_nat x) = v" using encUint_bytes [OF g v] by blast
  define n :: nat where "n = (if g = bincVdPosInt then 1 else 2)"
  have n: "g = of_nat n" "n = 1 \<or> n = 2" using g by (auto simp: n_def)
  have "\<exists>d' t. binc_decodeNaked rd d = Inr (Decoded t (if g = bincVdPosInt then VUint v else VInt (- v)), d') \<and> stands d' rest"
    if o: "opened d (desc g (of_nat k)) (x @ rest)" for d rest
  proof -
    have d: "vd d = g" "vs d = of_nat k" "init_read rd d = Inr d" using opened_desc [of d n k "x @ rest"] o n x(2) by auto
    obtain d' where "decUint rd d = Inr (v, d')" "behind d' (desc g (of_nat k)) rest"
      using decUint_bytes [OF opened_behind(1) [OF o] d(2) x(2,3)] x(4) by blast
    then show ?thesis using d(1,3) g behind_stands by (auto simp: binc_decodeNaked_def)
  qed
  moreover have "desc g (of_nat k) \<noteq> desc bincVdSpecial bincSpNil" using binc_nonzero [of n k] n x(2) by auto
  ultimately have "yields (bincDecDriver rd) (desc g (of_nat k)) x (if g = bincVdPosInt then VUint v else VInt (- v))"
    by (intro binc_yieldsI)
  then show ?thesis using x(1) by blast
qed

lemma binc_uint: "\<exists>b w. all_written (binc_encodeUint u) = b # w \<and> yields (bincDecDriver rd) b w (binc_value (VUint u))"
proof -
  consider "u = 0" | "u \<noteq> 0" "u \<le> 16" | "u \<noteq> 0" "\<not> u \<le> 16" by blast
  then show ?thesis
  proof cases
    case 1
    then show ?thesis using binc_special(4) by (simp add: binc_encodeUint_def binc_encUint_def)
  next
    case 2
    then have "1 \<le> u" by (simp add: word_le_nat_alt Suc_le_eq unat_gt_0)
    moreover from this have "u - 1 \<le> 15" using 2 by (simp add: word_le_nat_alt unat_sub)
    ultimately show ?thesis using 2 binc_small [of u] by (simp add: binc_encodeUint_def binc_encUint_def)
  next
    case 3
    then show ?thesis using binc_integer [of bincVdPosInt u True] by (simp add: binc_encodeUint_def)
  qed
qed

lemma binc_int:
  assumes "0 \<le> sint i \<or> kept (- i)"
  shows "\<exists>b w. all_written (binc_encodeInt i) = b # w \<and> yields (bincDecDriver rd) b w (binc_value (VInt i))"
proof -
  consider "0 \<le> sint i" | "sint i = - 1" | "sint i < - 1" by linarith
  then show ?thesis
  proof cases
    case 1
    have "sint i = 0 \<longleftrightarrow> i = 0" using signed_word_eqI [of i 0] by auto
    then have "binc_value (VUint i) = binc_value (VInt i)" using 1 by auto
    then show ?thesis using 1 binc_uint [of i] by (simp add: binc_encodeInt_def binc_encodeUint_def)
  next
    case 2
    then have "i = - 1" using signed_word_eqI [of i "- 1"] by simp
    then show ?thesis using 2 binc_special(5) by (simp add: binc_encodeInt_def)
  next
    case 3
    then have "- i \<noteq> 0" by auto
    then show ?thesis using 3 assms binc_integer [of bincVdNegInt "- i" False] by (simp add: binc_encodeInt_def)
  qed
qed

lemma binc_floats:
  "\<exists>b w. all_written (binc_encodeFloat32 f) = b # w \<and> yields (bincDecDriver rd) b w (binc_value (VFloat32 f))"
  "\<exists>b w. all_written (binc_encodeFloat64 g) = b # w \<and> yields (bincDecDriver rd) b w (binc_value (VFloat64 g))"
proof -
  have "\<exists>d' t. binc_decodeNaked rd d = Inr (Decoded t (VFloat64 (widen32 f)), d') \<and> stands d' rest"
    if o: "opened d (desc (of_nat 3) (of_nat 1)) (PutUint32 f @ rest)" for d rest
  proof -
    note d = opened_desc [OF o]
    obtain d1 where d1: "reading (readb rd 4) d = Inr (PutUint32 f, d1)" "opened d1 (desc (of_nat 3) (of_nat 1)) rest"
      using read_opened(6) [OF o refl] by auto
    then show ?thesis using d ended_stands [OF d1(2)] by (simp add: binc_decodeNaked_def decFloat_def decFloatPre_def)
  qed
  then have "yields (bincDecDriver rd) (desc (of_nat 3) (of_nat 1)) (PutUint32 f) (VFloat64 (widen32 f))"
    using binc_nonzero [of 3 1] by (intro binc_yieldsI) simp_all
  then show "\<exists>b w. all_written (binc_encodeFloat32 f) = b # w \<and> yields (bincDecDriver rd) b w (binc_value (VFloat32 f))"
    using binc_special(3) by (simp add: binc_encodeFloat32_def)
  let ?b = "PutUint64 g" let ?z = "without_zeros ?b"
  have "\<exists>d' t. binc_decodeNaked rd d = Inr (Decoded t (VFloat64 g), d') \<and> stands d' rest"
    if o: "opened d (desc (of_nat 3) (of_nat 3)) (?b @ rest)" for d rest
  proof -
    note d = opened_desc [OF o]
    obtain d1 where d1: "reading (readb rd 8) d = Inr (?b, d1)" "opened d1 (desc (of_nat 3) (of_nat 3)) rest"
      using read_opened(6) [OF o refl] by auto
    then show ?thesis using d ended_stands [OF d1(2)] by (simp add: binc_decodeNaked_def decFloat_def decFloatPre_def)
  qed
  then have y3: "yields (bincDecDriver rd) (desc (of_nat 3) (of_nat 3)) ?b (VFloat64 g)"
    using binc_nonzero [of 3 3] by (intro binc_yieldsI) simp_all
  have pad: "?z @ replicate (8 - length ?z) 0 = ?b" using zeros_at_end [of ?b] by simp
  have "\<exists>d' t. binc_decodeNaked rd d = Inr (Decoded t (VFloat64 g), d') \<and> stands d' rest"
    if z: "length ?z \<le> 6" and o: "opened d (desc (of_nat 3) (of_nat 11)) ((of_nat (length ?z) # ?z) @ rest)" for d rest
  proof -
    note d = opened_desc [OF o]
    obtain d1 where d1: "reading (readn1 rd) d = Inr (of_nat (length ?z), d1)" "opened d1 (desc (of_nat 3) (of_nat 11)) (?z @ rest)"
      using read_opened(1) [OF o, of "of_nat (length ?z)" "?z @ rest"] by auto
    obtain d2 where d2: "reading (readb rd (length ?z)) d1 = Inr (?z, d2)" "opened d2 (desc (of_nat 3) (of_nat 11)) rest"
      using read_opened(6) [OF d1(2) refl] by auto
    have l: "unat (of_nat (length ?z) :: byte) = length ?z" "\<not> 8 < (of_nat (length ?z) :: byte)"
      using z by (simp_all add: word_less_nat_alt)
    show ?thesis using d l d1(1) d2(1) ended_stands [OF d2(2)] pad
      by (simp add: binc_decodeNaked_def decFloat_def decFloatPre_def del: unat_byte)
  qed
  then have y11: "length ?z \<le> 6 \<Longrightarrow>
      yields (bincDecDriver rd) (desc (of_nat 3) (of_nat 11)) (of_nat (length ?z) # ?z) (VFloat64 g)"
    using binc_nonzero [of 3 11] by (intro binc_yieldsI) simp_all
  have "take (length ?z) ?b = ?z" using pad by (metis append_eq_conv_conj)
  moreover have "desc bincVdFloat 8 OR bincFlBin64 = desc (of_nat 3) (of_nat 11)" by (simp add: desc_def)
  ultimately show "\<exists>b w. all_written (binc_encodeFloat64 g) = b # w \<and> yields (bincDecDriver rd) b w (binc_value (VFloat64 g))"
    using binc_special(3) y3 y11 by (simp add: binc_encodeFloat64_def Let_def)
qed

section \<open>Lengths, strings, bytes, extensions\<close>

lemma behind_desc:
  assumes "behind d (desc (of_nat g) (of_nat k)) w" "g < 16" "k < 16"
  shows "vd d = of_nat g" "vs d = of_nat k"
  using desc_vd_vs [OF assms(2,3)] behind_bd [OF assms(1)] by (simp_all add: vd_def vs_def)

lemma short_lengths: "\<forall>n \<in> set [0..<12]. \<not> (of_nat (n + 4) :: byte) \<le> 3 \<and> uint (of_nat (n + 4) - 4 :: byte) = int n"
  by code_simp

lemma binc_len:
  assumes g: "g < 16" and n: "n < 2 ^ 16"
  shows "\<exists>k x. all_written (binc_encLen (desc (of_nat g) 0) n) = desc (of_nat g) (of_nat k) # x \<and> k < 16 \<and>
    (\<forall>d rest. behind d (desc (of_nat g) (of_nat k)) (x @ rest) \<longrightarrow>
      (\<exists>d'. binc_decLen rd d = Inr (int n, d') \<and> behind d' (desc (of_nat g) (of_nat k)) rest))"
proof -
  have long: "\<exists>d'. binc_decLen rd d = Inr (int n, d') \<and> behind d' (desc (of_nat g) (of_nat k)) rest"
    if k: "k \<le> 1" "length x = Suc k" "be_nat x = n" and d: "behind d (desc (of_nat g) (of_nat k)) (x @ rest)" for k x d rest
  proof -
    have v: "vs d = of_nat k" using behind_desc(2) [OF d g] k(1) by simp
    obtain d' where d': "decUint rd d = Inr (of_nat n, d')" "behind d' (desc (of_nat g) (of_nat k)) rest"
      using decUint_bytes [OF d v] k by auto
    have "uint (of_nat n :: uint64) = int n" using n by (intro of_nat_small) simp
    then have "sint (of_nat n :: uint64) = int n" using n sint_small [of "of_nat n"] by simp
    moreover have "vs d \<le> 3" using v k(1) by (cases k) simp_all
    ultimately show ?thesis using d' by (simp add: binc_decLen_def)
  qed
  consider "n < 12" | "\<not> n < 12" "n \<le> 255" | "\<not> n < 12" "\<not> n \<le> 255" by blast
  then show ?thesis
  proof cases
    case 1
    have "binc_decLen rd d = Inr (int n, d)" if d: "behind d (desc (of_nat g) (of_nat (n + 4))) rest" for d rest
      using behind_desc(2) [OF d g] short_lengths [rule_format, of n] 1 by (simp add: binc_decLen_def)
    then show ?thesis using 1 by (intro exI [of _ "n + 4"] exI [of _ "[]"]) (auto simp: binc_encLen_def desc_OR)
  next
    case 2
    then show ?thesis using long [of 0 "[of_nat n]"]
      by (intro exI [of _ 0] exI [of _ "[of_nat n]"]) (simp add: binc_encLen_def encLenNumber_def be_nat_Cons)
  next
    case 3
    have "unat (of_nat n :: uint16) = n" using n by (simp add: unsigned_of_nat take_bit_nat_eq_self)
    then show ?thesis using 3 n long [of 1 "PutUint16 (of_nat n)"]
      by (intro exI [of _ 1] exI [of _ "PutUint16 (of_nat n)"]) (simp add: binc_encLen_def encLenNumber_def be_nat_Put desc_OR)
  qed
qed

lemma binc_strings:
  assumes n: "length s < 2 ^ 16"
  shows "\<exists>b w. all_written (binc_encodeString c_UTF8 s) = b # w \<and> yields (bincDecDriver rd) b w (VString s)"
    "\<exists>b w. all_written (binc_encodeStringBytes c_RAW s) = b # w \<and> yields (bincDecDriver rd) b w (VBytes s)"
proof -
  obtain k x where x: "all_written (binc_encLen (desc (of_nat 4) 0) (length s)) = desc (of_nat 4) (of_nat k) # x" "k < 16"
    "\<And>d rest. behind d (desc (of_nat 4) (of_nat k)) (x @ rest) \<Longrightarrow>
      \<exists>d'. binc_decLen rd d = Inr (int (length s), d') \<and> behind d' (desc (of_nat 4) (of_nat k)) rest"
    using binc_len [of 4 "length s"] n by auto
  have "\<exists>d' t. binc_decodeNaked rd d = Inr (Decoded t (VString s), d') \<and> stands d' rest"
    if o: "opened d (desc (of_nat 4) (of_nat k)) ((x @ s) @ rest)" for d rest
  proof -
    note d = opened_desc [OF o _ x(2)]
    obtain d1 where d1: "binc_decLen rd d = Inr (int (length s), d1)" "behind d1 (desc (of_nat 4) (of_nat k)) (s @ rest)"
      using x(3) [of d "s @ rest"] opened_behind(1) [OF o] by auto
    obtain d2 where d2: "reading (readn rd (int (length s))) d1 = Inr (s, d2)" "behind d2 (desc (of_nat 4) (of_nat k)) rest"
      using read_behind(5) [OF d1(2) refl] by blast
    have "stands (ended d1) rest" if "s = []" using that behind_stands [OF d1(2)] by simp
    then show ?thesis using d d1(1) d2(1) ended_again behind_stands [OF d2(2)]
      by (simp add: binc_decodeNaked_def binc_decodeString_def)
  qed
  then have "yields (bincDecDriver rd) (desc (of_nat 4) (of_nat k)) (x @ s) (VString s)"
    using binc_nonzero [of 4 k] x(2) by (intro binc_yieldsI) simp_all
  then show "\<exists>b w. all_written (binc_encodeString c_UTF8 s) = b # w \<and> yields (bincDecDriver rd) b w (VString s)"
    using x(1) by (auto simp: binc_encodeString_def encBytesLen_def)
next
  obtain k x where x: "all_written (binc_encLen (desc (of_nat 5) 0) (length s)) = desc (of_nat 5) (of_nat k) # x" "k < 16"
    "\<And>d rest. behind d (desc (of_nat 5) (of_nat k)) (x @ rest) \<Longrightarrow>
      \<exists>d'. binc_decLen rd d = Inr (int (length s), d') \<and> behind d' (desc (of_nat 5) (of_nat k)) rest"
    using binc_len [of 5 "length s"] n by auto
  have "\<exists>d' t. binc_decodeNaked rd d = Inr (Decoded t (VBytes s), d') \<and> stands d' rest"
    if o: "opened d (desc (of_nat 5) (of_nat k)) ((x @ s) @ rest)" for d rest
  proof -
    note d = opened_desc [OF o _ x(2)]
    obtain d1 where d1: "binc_decLen rd d = Inr (int (length s), d1)" "behind d1 (desc (of_nat 5) (of_nat k)) (s @ rest)"
      using x(3) [of d "s @ rest"] opened_behind(1) [OF o] by auto
    obtain d2 where d2: "fill_bytes rd (int (length s)) [] d1 = Inr ((if s = [] then None else Some s, s \<noteq> [], []), d2)" "stands d2 rest"
      using fill_bytes_front [OF d1(2)] by blast
    show ?thesis using d d1(1) d2(1) ended_again [OF d2(2)] by (auto simp: binc_decodeNaked_def binc_decodeBytes_def)
  qed
  then have "yields (bincDecDriver rd) (desc (of_nat 5) (of_nat k)) (x @ s) (VBytes s)"
    using binc_nonzero [of 5 k] x(2) by (intro binc_yieldsI) simp_all
  then show "\<exists>b w. all_written (binc_encodeStringBytes c_RAW s) = b # w \<and> yields (bincDecDriver rd) b w (VBytes s)"
    using x(1) by (auto simp: binc_encodeStringBytes_def encBytesLen_def)
qed

lemma binc_ext:
  assumes n: "length s < 2 ^ 16"
  shows "\<exists>b w. all_written (binc_encodeExtPreamble t (length s) @ [writeb s]) = b # w \<and>
    yields (bincDecDriver rd) b w (VRawExt t (if s = [] then None else Some s))"
proof -
  obtain k x where x: "all_written (binc_encLen (desc (of_nat 15) 0) (length s)) = desc (of_nat 15) (of_nat k) # x" "k < 16"
    "\<And>d rest. behind d (desc (of_nat 15) (of_nat k)) (x @ rest) \<Longrightarrow>
      \<exists>d'. binc_decLen rd d = Inr (int (length s), d') \<and> behind d' (desc (of_nat 15) (of_nat k)) rest"
    using binc_len [of 15 "length s"] n by auto
  have "\<exists>d' vt. binc_decodeNaked rd d = Inr (Decoded vt (VRawExt t (if s = [] then None else Some s)), d') \<and> stands d' rest"
    if o: "opened d (desc (of_nat 15) (of_nat k)) ((x @ [t] @ s) @ rest)" for d rest
  proof -
    note d = opened_desc [OF o _ x(2)]
    obtain d1 where d1: "binc_decLen rd d = Inr (int (length s), d1)" "behind d1 (desc (of_nat 15) (of_nat k)) (t # s @ rest)"
      using x(3) [of d "t # s @ rest"] opened_behind(1) [OF o] by auto
    obtain d2 where d2: "reading (readn1 rd) d1 = Inr (t, d2)" "behind d2 (desc (of_nat 15) (of_nat k)) (s @ rest)"
      using read_behind(1) [OF d1(2) refl] by blast
    obtain d3 where d3: "reading (readn rd (int (length s))) d2 = Inr (s, d3)" "behind d3 (desc (of_nat 15) (of_nat k)) rest"
      using read_behind(5) [OF d2(2) refl] by blast
    show ?thesis using d d1(1) d2(1) d3(1) behind_stands [OF d3(2)] by (simp add: binc_decodeNaked_def)
  qed
  then have "yields (bincDecDriver rd) (desc (of_nat 15) (of_nat k)) (x @ [t] @ s) (VRawExt t (if s = [] then None else Some s))"
    using binc_nonzero [of 15 k] x(2) by (intro binc_yieldsI) simp_all
  then show ?thesis using x(1) by (simp add: binc_encodeExtPreamble_def)
qed

lemma binc_time:
  assumes t: "unix_nsecs t < 1000000000" "case zone_offset t of None \<Rightarrow> True | Some z \<Rightarrow> \<bar>z\<bar> div 60 < 8192"
  shows "\<exists>b w. all_written (binc_encodeBuiltin t) = b # w \<and> yields (bincDecDriver rd) b w (VTime (time_value t))"
proof -
  let ?n = "length (encTime t)"
  have n: "?n < 16" and readable: "decTime (encTime t) = Inr (time_value t)" using time_roundtrip [OF t] by simp_all
  have "\<exists>d' vt. binc_decodeNaked rd d = Inr (Decoded vt (VTime (time_value t)), d') \<and> stands d' rest"
    if o: "opened d (desc (of_nat 8) (of_nat ?n)) (encTime t @ rest)" for d rest
  proof -
    note d = opened_desc [OF o _ n]
    have "uint (vs d) = int ?n" using d(2) n by (simp add: of_nat_small)
    moreover obtain d1 where "reading (readn rd (int ?n)) d = Inr (encTime t, d1)"
      "behind d1 (desc (of_nat 8) (of_nat ?n)) rest"
      using read_behind(5) [OF opened_behind(1) [OF o] refl] by blast
    ultimately show ?thesis using d readable behind_stands by (simp add: binc_decodeNaked_def)
  qed
  then have "yields (bincDecDriver rd) (desc (of_nat 8) (of_nat ?n)) (encTime t) (VTime (time_value t))"
    using binc_nonzero [of 8 ?n] n by (intro binc_yieldsI) simp_all
  then show ?thesis by (auto simp: binc_encodeBuiltin_def Let_def)
qed

lemma binc_atoms:
  assumes "binc_atom v"
  shows "\<exists>b w. (\<forall>e. all_written (binc_out (encode bincEncDriver syms v e)) = all_written (binc_out e) @ b # w) \<and>
    yields (bincDecDriver rd) b w (binc_value v)"
proof (cases v)
  case (VInt i)
  then show ?thesis using binc_int [of i] assms by (auto simp: bincEncDriver_def emit_def)
next
  case (VUint u)
  then show ?thesis using binc_uint [of u] by (auto simp: bincEncDriver_def emit_def)
next
  case (VString s)
  then show ?thesis using binc_strings(1) [of s] assms by (auto simp: bincEncDriver_def emit_def)
next
  case (VBytes s)
  then show ?thesis using binc_strings(2) [of s] assms by (auto simp: bincEncDriver_def emit_def)
next
  case (VTime t)
  then show ?thesis using binc_time [of t] assms by (auto simp: bincEncDriver_def emit_def encTimeValue_def)
next
  case (VRawExt t x)
  then obtain s where s: "x = Some s" "length s < 2 ^ 16" using assms by (auto split: option.splits)
  then show ?thesis using VRawExt binc_ext [of s t] by (auto simp: bincEncDriver_def emit_def encRawExt_def)
next
  case (VBool b)
  then show ?thesis using binc_special(1,2) by (cases b) (auto simp: bincEncDriver_def emit_def binc_encodeBool_def)
next
  case (VFloat32 f)
  then show ?thesis using binc_floats(1) [of f] by (auto simp: bincEncDriver_def emit_def)
next
  case (VFloat64 f)
  then show ?thesis using binc_floats(2) [of f] by (auto simp: bincEncDriver_def emit_def)
qed (use assms in simp_all)

section \<open>Arrays and maps\<close>

text \<open>The beginning of an array or map, of which the group of its descriptor is \<open>g\<close>.\<close>

lemma binc_container:
  assumes g: "g = 6 \<or> g = (7 :: nat)" and n: "n < 2 ^ 16"
  shows "\<exists>w. all_written (binc_encLen (desc (of_nat g) 0) n) = w \<and>
    (\<forall>d rest. stands d (w @ rest) \<longrightarrow> (\<exists>d1. init_read rd d = Inr d1 \<and> init_read rd d1 = Inr d1 \<and>
       binc_tryDecodeAsNil d1 = (False, d1) \<and> vd d1 = of_nat g \<and> bdType d1 = valueTypeUnset \<and>
       binc_decodeNaked rd d1 = Inr (Further (if g = 6 then valueTypeArray else valueTypeMap), d1) \<and>
       (\<forall>t. \<exists>d2. binc_decLen rd (d1\<lparr>bdType := t\<rparr>) = Inr (int n, d2) \<and> stands (ended d2) rest)))"
proof -
  obtain k x where x: "all_written (binc_encLen (desc (of_nat g) 0) n) = desc (of_nat g) (of_nat k) # x" "k < 16"
    "\<And>d rest. behind d (desc (of_nat g) (of_nat k)) (x @ rest) \<Longrightarrow>
      \<exists>d'. binc_decLen rd d = Inr (int n, d') \<and> behind d' (desc (of_nat g) (of_nat k)) rest"
    using binc_len [of g n] g n by auto
  have "\<exists>d1. init_read rd d = Inr d1 \<and> init_read rd d1 = Inr d1 \<and>
       binc_tryDecodeAsNil d1 = (False, d1) \<and> vd d1 = of_nat g \<and> bdType d1 = valueTypeUnset \<and>
       binc_decodeNaked rd d1 = Inr (Further (if g = 6 then valueTypeArray else valueTypeMap), d1) \<and>
       (\<forall>t. \<exists>d2. binc_decLen rd (d1\<lparr>bdType := t\<rparr>) = Inr (int n, d2) \<and> stands (ended d2) rest)"
    if s: "stands d ((desc (of_nat g) (of_nat k) # x) @ rest)" for d rest
  proof -
    obtain d1 where d1: "init_read rd d = Inr d1" "opened d1 (desc (of_nat g) (of_nat k)) (x @ rest)"
      using init_front [of d "desc (of_nat g) (of_nat k)" "x @ rest"] s by auto
    note o = opened_desc [OF d1(2) _ x(2)]
    have "behind (d1\<lparr>bdType := t\<rparr>) (desc (of_nat g) (of_nat k)) (x @ rest)" for t
      using d1(2) by (simp add: opened_def behind_def)
    then have "\<exists>d2. binc_decLen rd (d1\<lparr>bdType := t\<rparr>) = Inr (int n, d2) \<and> stands (ended d2) rest" for t
      using x(3) behind_stands by blast
    moreover have "binc_tryDecodeAsNil d1 = (False, d1)"
      using binc_nonzero [of g k] opened_bd [OF d1(2)] g x(2) by (auto simp: binc_tryDecodeAsNil_def)
    moreover have "bdType d1 = valueTypeUnset" using d1(2) by (simp add: opened_def)
    ultimately show ?thesis using d1(1) o g by (intro exI [of _ d1]) (auto simp: binc_decodeNaked_def)
  qed
  then show ?thesis using x(1) by blast
qed

lemma binc_array_law:
  assumes n: "n < 2 ^ 16"
  shows "\<exists>w. (\<forall>e. all_written (binc_out (encodeArrayPreamble bincEncDriver n e)) = all_written (binc_out e) @ w) \<and>
      (\<forall>d rest f. stands d (w @ rest) \<longrightarrow>
        (\<exists>d1 d2. initReadNext (bincDecDriver rd) d = Inr d1 \<and> tryDecodeAsNil (bincDecDriver rd) d1 = (False, d1) \<and>
          stands d2 rest \<and> kInterface (bincDecDriver rd) f d1 =
            or_error (dec_list f (replicate n VNil) d2) (\<lambda>(vs, d). Inr (VSlice vs, d))))"
proof -
  define w where "w = all_written (binc_encLen (desc (of_nat 6) 0) n)"
  have "\<exists>d1 d2. initReadNext (bincDecDriver rd) d = Inr d1 \<and> tryDecodeAsNil (bincDecDriver rd) d1 = (False, d1) \<and>
      stands d2 rest \<and> kInterface (bincDecDriver rd) f d1 =
        or_error (dec_list f (replicate n VNil) d2) (\<lambda>(vs, d). Inr (VSlice vs, d))"
    if s: "stands d (w @ rest)" for d rest f
  proof -
    obtain d1 where d1: "init_read rd d = Inr d1" "init_read rd d1 = Inr d1" "binc_tryDecodeAsNil d1 = (False, d1)"
      "vd d1 = 6" "bdType d1 = valueTypeUnset" "binc_decodeNaked rd d1 = Inr (Further valueTypeArray, d1)"
      and len: "\<And>t. \<exists>d2. binc_decLen rd (d1\<lparr>bdType := t\<rparr>) = Inr (int n, d2) \<and> stands (ended d2) rest"
      using binc_container [of 6 n] n s unfolding w_def by fastforce
    obtain d2 where d2: "binc_decLen rd (d1\<lparr>bdType := valueTypeArray\<rparr>) = Inr (int n, d2)" "stands (ended d2) rest"
      using len by blast
    have "binc_currentEncodedType d1 = Inr (valueTypeArray, d1\<lparr>bdType := valueTypeArray\<rparr>)"
      using d1(4,5) by (simp add: binc_currentEncodedType_def)
    then show ?thesis using d1 d2
      by (intro exI [of _ d1] exI [of _ "ended d2"])
        (simp add: bincDecDriver_def kInterface_def decSliceIntf_def decContLens_def binc_readArrayLen_def vd_def)
  qed
  then show ?thesis by (intro exI [of _ w]) (simp add: bincEncDriver_def emit_def w_def)
qed

lemma binc_map_law:
  assumes n: "n < 2 ^ 16"
  shows "\<exists>w. (\<forall>e. all_written (binc_out (encodeMapPreamble bincEncDriver n e)) = all_written (binc_out e) @ w) \<and>
      (\<forall>d rest f. stands d (w @ rest) \<longrightarrow>
        (\<exists>d1 d2. initReadNext (bincDecDriver rd) d = Inr d1 \<and> tryDecodeAsNil (bincDecDriver rd) d1 = (False, d1) \<and>
          stands d2 rest \<and> kInterface (bincDecDriver rd) f d1 =
            or_error (dec_entries f n [] d2) (\<lambda>(m, d). Inr (VMap m, d))))"
proof -
  define w where "w = all_written (binc_encLen (desc (of_nat 7) 0) n)"
  have "\<exists>d1 d2. initReadNext (bincDecDriver rd) d = Inr d1 \<and> tryDecodeAsNil (bincDecDriver rd) d1 = (False, d1) \<and>
      stands d2 rest \<and> kInterface (bincDecDriver rd) f d1 = or_error (dec_entries f n [] d2) (\<lambda>(m, d). Inr (VMap m, d))"
    if s: "stands d (w @ rest)" for d rest f
  proof -
    obtain d1 where d1: "init_read rd d = Inr d1" "init_read rd d1 = Inr d1" "binc_tryDecodeAsNil d1 = (False, d1)"
      "vd d1 = 7" "bdType d1 = valueTypeUnset" "binc_decodeNaked rd d1 = Inr (Further valueTypeMap, d1)"
      and len: "\<And>t. \<exists>d2. binc_decLen rd (d1\<lparr>bdType := t\<rparr>) = Inr (int n, d2) \<and> stands (ended d2) rest"
      using binc_container [of 7 n] n s unfolding w_def by fastforce
    have "d1\<lparr>bdType := valueTypeUnset\<rparr> = d1" using d1(5) by simp
    then obtain d2 where d2: "binc_decLen rd d1 = Inr (int n, d2)" "stands (ended d2) rest"
      using len [of valueTypeUnset] by auto
    then show ?thesis using d1
      by (intro exI [of _ d1] exI [of _ "ended d2"])
        (simp add: bincDecDriver_def kInterface_def decMapIntfIntf_def binc_readMapLen_def)
  qed
  then show ?thesis by (intro exI [of _ w]) (simp add: bincEncDriver_def emit_def w_def)
qed

lemma binc_nil:
  assumes "stands d (desc bincVdSpecial bincSpNil # rest)"
  shows "\<exists>d1 d2. initReadNext (bincDecDriver rd) d = Inr d1 \<and>
    tryDecodeAsNil (bincDecDriver rd) d1 = (True, d2) \<and> stands d2 rest"
proof -
  obtain d1 where "init_read rd d = Inr d1" "opened d1 (desc bincVdSpecial bincSpNil) rest" using init_front assms by blast
  then show ?thesis using opened_bd [of d1 _ rest] ended_stands [of d1 _ rest]
    by (simp add: bincDecDriver_def binc_tryDecodeAsNil_def)
qed

lemma binc_codec: "codec bincEncDriver (bincDecDriver rd) 0 (\<lambda>e. all_written (binc_out e)) stands binc_atom binc_value (2 ^ 16)"
proof unfold_locales
  show "initReadNext (bincDecDriver rd) d = Inr d1 \<Longrightarrow> initReadNext (bincDecDriver rd) d1 = Inr d1" for d d1
    by (auto simp: bincDecDriver_def init_read_def or_error_Inr_iff split: if_splits)
  show "map_key bincEncDriver 0 k = encodeString bincEncDriver c_UTF8 k" for k
    by (simp add: map_key_def)
  show "\<exists>w. (\<forall>e. all_written (binc_out (encodeNil bincEncDriver e)) = all_written (binc_out e) @ w) \<and>
      (\<forall>d rest. stands d (w @ rest) \<longrightarrow> (\<exists>d1 d2. initReadNext (bincDecDriver rd) d = Inr d1 \<and>
        tryDecodeAsNil (bincDecDriver rd) d1 = (True, d2) \<and> stands d2 rest))"
    using binc_nil by (intro exI [of _ "[desc bincVdSpecial bincSpNil]"]) (simp add: bincEncDriver_def emit_def)
  fix v assume "binc_atom v"
  then obtain b w where w: "\<And>e. all_written (binc_out (encode bincEncDriver 0 v e)) = all_written (binc_out e) @ b # w"
    "yields (bincDecDriver rd) b w (binc_value v)" using binc_atoms by blast
  show "\<exists>w. (\<forall>e. all_written (binc_out (encode bincEncDriver 0 v e)) = all_written (binc_out e) @ w) \<and>
      (\<forall>d rest f. stands d (w @ rest) \<longrightarrow> (\<exists>d1 d2. initReadNext (bincDecDriver rd) d = Inr d1 \<and>
        tryDecodeAsNil (bincDecDriver rd) d1 = (False, d1) \<and>
        kInterface (bincDecDriver rd) f d1 = Inr (binc_value v, d2) \<and> stands d2 rest))"
  proof (intro exI [of _ "b # w"] conjI allI impI)
    show "stands d ((b # w) @ rest) \<Longrightarrow> \<exists>d1 d2. initReadNext (bincDecDriver rd) d = Inr d1 \<and>
        tryDecodeAsNil (bincDecDriver rd) d1 = (False, d1) \<and>
        kInterface (bincDecDriver rd) f d1 = Inr (binc_value v, d2) \<and> stands d2 rest" for d rest f
      by (rule yields_law [OF _ w(2)]) (simp_all add: bincDecDriver_def)
  qed (rule w(1))
qed (use binc_array_law binc_map_law in blast)+

end

interpretation binc_bytes: codec bincEncDriver "bincDecDriver bytes_decReader" 0 "\<lambda>e. all_written (binc_out e)"
    bytes_source.stands binc_atom binc_value "2 ^ 16"
  by (rule bytes_source.binc_codec)

interpretation binc_io: codec bincEncDriver "bincDecDriver io_decReader" 0 "\<lambda>e. all_written (binc_out e)"
    io_source.stands binc_atom binc_value "2 ^ 16"
  by (rule io_source.binc_codec)

section \<open>Theorems\<close>

text \<open>
  Values survive the codec \<^verbatim>\<open>binc\<close> without symbols: from a slice of bytes and from a stream in any
  pieces the decoder returns the value that was encoded, with positive integers unsigned, floats of 64
  bits and times in whole minutes of their zone, and it stops right behind it.  This holds for strings,
  arrays and maps of fewer than 65536 elements, and for negative integers whose magnitude is not cut.
\<close>

theorem binc_roundtrip:
  assumes "encodable (2 ^ 16) binc_atom binc_value (generic v)" "depth (generic v) \<le> n"
    and w: "w = all_written (binc_out (encode bincEncDriver 0 v new_binc_enc))" and "concat segs = w @ rest"
  shows "\<exists>d d'. Decode (bincDecDriver bytes_decReader) n (new_dec_state (new_bytes_reader (w @ rest))) =
      Inr (normal binc_value (generic v), d) \<and> \<not> bdRead d \<and> drop (rcursor (reader d)) (rdata (reader d)) = rest \<and>
    Decode (bincDecDriver io_decReader) n (new_dec_state segs) = Inr (normal binc_value (generic v), d') \<and>
      \<not> bdRead d' \<and> concat (reader d') = rest"
  using both_readers [OF binc_bytes.roundtrip [OF assms(1)] binc_io.roundtrip [OF assms(1)] _ assms(2) w assms(4)]
  by (simp add: new_binc_enc_def)

theorem binc_roundtrip_witness:
  "\<exists>d. Decode (bincDecDriver io_decReader) 3 (new_dec_state [[117], [69, 107, 102, 32], [5, 145, 7]]) =
    Inr (VMap [(VString [107], VSlice [VInt (- 5), VUint 2])], d) \<and> \<not> bdRead d \<and> concat (reader d) = [7]"
proof -
  let ?v = "VMapStrIntf [([107], VSlice [VInt (- 5), VInt 2])]"
  have "[117, 69, 107, 102, 32, 5, 145] = all_written (binc_out (encode bincEncDriver 0 ?v new_binc_enc))"
    by code_simp
  from binc_roundtrip [OF _ _ this, of 3 "[[117], [69, 107, 102, 32], [5, 145, 7]]" "[7]"]
  show ?thesis by (auto simp: kept_def)
qed

text \<open>
  What is lost outside of these bounds: a length from 65536 on is written in four bytes but announced as
  three, so that the reader takes the length without its last byte and goes on with that byte; and the
  magnitude of a negative integer loses its first byte if that is 255, as if it were a sign.
\<close>

theorem binc_long_lengths:
  assumes "65536 \<le> n" "n < 2 ^ 32"
  shows "\<exists>w. all_written (binc_encLen (desc (of_nat 4) 0) n) = desc (of_nat 4) (of_nat 2) # w @ [of_nat n] \<and>
    (\<forall>d rest. bytes_source.behind d (desc (of_nat 4) (of_nat 2)) (w @ [of_nat n] @ rest) \<longrightarrow>
      (\<exists>d'. binc_decLen bytes_decReader d = Inr (int (n div 256), d') \<and>
         bytes_source.behind d' (desc (of_nat 4) (of_nat 2)) (of_nat n # rest)))"
proof -
  let ?w = "put_be 3 (n div 256)"
  have "unat (of_nat n :: uint32) = n" using assms(2) by (simp add: unsigned_of_nat take_bit_nat_eq_self)
  moreover have "put_be 4 m = put_be 3 (m div 256) @ [of_nat m]" for m
  proof -
    have "4 = Suc 3" by simp
    then show ?thesis by (simp only: put_be.simps(2))
  qed
  ultimately have "PutUint32 (of_nat n) = ?w @ [of_nat n]" by (simp only: PutUint32_def)
  then have "all_written (binc_encLen (desc (of_nat 4) 0) n) = desc (of_nat 4) (of_nat 2) # ?w @ [of_nat n]"
    using assms desc_OR [of "of_nat 4" 2] by (simp add: binc_encLen_def encLenNumber_def)
  moreover have "\<exists>d'. binc_decLen bytes_decReader d = Inr (int (n div 256), d') \<and>
      bytes_source.behind d' (desc (of_nat 4) (of_nat 2)) (of_nat n # rest)"
    if d: "bytes_source.behind d (desc (of_nat 4) (of_nat 2)) (?w @ [of_nat n] @ rest)" for d rest
  proof -
    have v: "vs d = of_nat 2" using bytes_source.behind_desc(2) [OF d] by simp
    obtain d' where d': "decUint bytes_decReader d = Inr (of_nat (n div 256), d')"
      "bytes_source.behind d' (desc (of_nat 4) (of_nat 2)) (of_nat n # rest)"
      using bytes_source.decUint_bytes [OF d v] assms(2) by (auto simp: be_nat_put_be)
    have "uint (of_nat (n div 256) :: uint64) = int (n div 256)" using assms(2) by (intro of_nat_small) simp
    then have "sint (of_nat (n div 256) :: uint64) = int (n div 256)"
      using assms(2) sint_small [of "of_nat (n div 256)"] by simp
    then show ?thesis using d' v by (simp add: binc_decLen_def)
  qed
  ultimately show ?thesis by blast
qed

theorem binc_pruned_integer:
  "all_written (binc_encodeInt (- 4294967280)) = [desc bincVdNegInt 0, 240] \<and>
   (\<exists>d. Decode (bincDecDriver bytes_decReader) 1 (new_dec_state (new_bytes_reader [desc bincVdNegInt 0, 240])) =
     Inr (VInt (- 240), d))"
proof
  have p: "PutUint32 0xFFFFFFF0 = [0xff, 0xff, 0xff, 0xf0]"
    by (simp add: shifts_PutUint(2) [symmetric])
  show "all_written (binc_encodeInt (- 4294967280)) = [desc bincVdNegInt 0, 240]"
    by (simp add: binc_encodeInt_def binc_encUint_def encIntegerPrune_def p desc_def)
  show "\<exists>d. Decode (bincDecDriver bytes_decReader) 1 (new_dec_state (new_bytes_reader [desc bincVdNegInt 0, 240])) =
     Inr (VInt (- 240), d)"
  proof -
    have "case Decode (bincDecDriver bytes_decReader) 1 (new_dec_state (new_bytes_reader [desc bincVdNegInt 0, 240])) of
        Inr (VInt i, d) \<Rightarrow> i = - 240 | _ \<Rightarrow> False"
      by code_simp
    then show ?thesis by (auto split: sum.splits prod.splits val.splits)
  qed
qed
end
