(* ===== verification/Spec2Isabelle.thy ===== *)
theory Spec2Isabelle
  imports Agent_Properties Process_Properties Stats_Properties Dns_Properties Dns_Library_Properties
    Dns_Text_Properties Dns_Wire_Properties Dns_Message_Properties Dns_Unpack_Properties Agent_Wire
    Agent_Packets Consul_Acl_Properties Codec_Msgpack_Properties Codec_Simple_Properties
    Codec_Binc_Properties
begin

text \<open>
  \<^bold>\<open>glimpse: a DNS front end for services registered in Consul.\<close>

  The program is the daemon \<^verbatim>\<open>glimpse-agent\<close> under \<^verbatim>\<open>src/agent\<close>, with two load tools under
  \<^verbatim>\<open>src/utils\<close>.  A DNS request reaches the multiplexer of the DNS library, passes a chain of
  handlers (logging, metrics, limiting of UDP answers) and ends in the agent's own handler.  That
  handler decides by the name of the question whether it is about a service or about name servers and
  asks its store, which is the Consul client wrapped in metrics and logging.  The reply travels back
  through writers that cut, remember and log it.  Beside this, \<^verbatim>\<open>main\<close> registers metrics with the
  Prometheus library, exports the output of \<^verbatim>\<open>consul info\<close>, and waits for one of its goroutines
  to fail.

  \<^bold>\<open>Theories and sources.\<close>

  \<^item> \<open>Glimpse_Prelude\<close>, \<open>Go_Strings\<close>, \<open>Go_Strconv\<close>, \<open>Go_Regexp\<close>, \<open>Go_Net\<close>,
    \<open>Go_Encoding\<close>: what the sources
    use of Go and its standard library.  A computation that may panic has the type \<^typ>\<open>'a run\<close>; machine
    integers are words; strings are byte strings; regular expressions are matched by derivatives, proved
    equal to their languages.
  \<^item> \<open>Types\<close> (\<^verbatim>\<open>types.go\<close>): addresses, instances, errors, the store interface.  \<open>Instance_Sort\<close>:
    the contract of \<^verbatim>\<open>sort.Sort\<close> as locale \<open>host_sort\<close>, interpreted on the insertion sort that Go
    runs on short slices.
  \<^item> \<open>Dns_Types\<close>, \<open>Dns_Text\<close>, \<open>Dns_RR_A\<close>, \<open>Dns_RR_B\<close>, \<open>Dns_RR_C\<close>, \<open>Dns_RR\<close>, \<open>Dns_Msg\<close>,
    \<open>Dns_Wire\<close>, \<open>Dns_Labels\<close>, \<open>Dns_Server\<close> (the library \<^verbatim>\<open>miekg/dns\<close>: \<^verbatim>\<open>types.go\<close>, \<^verbatim>\<open>msg.go\<close>,
    \<^verbatim>\<open>defaults.go\<close>, \<^verbatim>\<open>dns.go\<close>, \<^verbatim>\<open>labels.go\<close>, \<^verbatim>\<open>server.go\<close>): constants and their names, the
    escaping and printing of names, one record per resource record type with its copy, length and text,
    messages, the wire format of names, character strings and headers, labels, and the multiplexer.
  \<^item> \<open>Dns_Bytes\<close>, \<open>Dns_Edns\<close>, \<open>Dns_Reflect\<close>, \<open>Dns_Struct\<close>, \<open>Dns_Message\<close> (\<^verbatim>\<open>msg.go\<close>,
    \<^verbatim>\<open>edns.go\<close>, \<^verbatim>\<open>rawmsg.go\<close>, \<^verbatim>\<open>defaults.go\<close>): the library packs and unpacks by reflection, and so does
    the model.  \<open>Dns_Reflect\<close> has the structure of each type as a value with the names, tags and kinds of
    its fields; \<open>Dns_Struct\<close> packs and unpacks such values field by field, and resource records with
    them; \<open>Dns_Message\<close> has the length of messages, \<^verbatim>\<open>PackBuffer\<close> and \<^verbatim>\<open>Unpack\<close>.
  \<^item> \<open>Dns_Serve\<close> (\<^verbatim>\<open>server.go\<close>): what a server does with the bytes of its clients.  Reading and
    framing over TCP and UDP are functions on the segments that arrive; \<^verbatim>\<open>serve\<close> is a function on the
    state of the program; the server itself, with its accept loop, its wait group and its shutdown, is a
    step relation over goroutines that run to their end in one step.
  \<^item> \<open>Prometheus\<close>, \<open>Prometheus_Registry\<close> (\<^verbatim>\<open>vec.go\<close>, \<^verbatim>\<open>desc.go\<close>, \<^verbatim>\<open>registry.go\<close> and the metric
    types): metric vectors under 64-bit FNV-1a hashes, descriptors, registration.
  \<^item> \<open>Agent_World\<close>: the state of the process that handlers and stores share, as a record: clock, log,
    message cells, wire, packets sent, metric vectors; the locales \<open>sound_store\<close> and \<open>store_middleware\<close>.
  \<^item> \<open>Consul_Api\<close> (\<^verbatim>\<open>consul/api\<close>), \<open>Consul_Store\<close> (\<^verbatim>\<open>consul.go\<close>), \<open>Logging\<close>
    (\<^verbatim>\<open>logging.go\<close>), \<open>Instrumentation\<close> (\<^verbatim>\<open>instrumentation.go\<close>), \<open>Dns_Handler\<close> (\<^verbatim>\<open>dns.go\<close>),
    \<open>Agent_Main\<close>, \<open>Agent_Process\<close>, \<open>Agent_Registry\<close> (\<^verbatim>\<open>main.go\<close> and \<^verbatim>\<open>init\<close>): the agent
    itself, one definition per function.
  \<^item> \<open>Radix\<close>, \<open>Lru\<close>, \<open>Consul_Acl\<close> (\<^verbatim>\<open>go-radix\<close>, \<^verbatim>\<open>golang-lru\<close>, \<^verbatim>\<open>consul/acl\<close>): the access rules of
    Consul over a radix tree, and the cache of compiled rules over three caches of recently used entries.
  \<^item> \<open>Codec_IO\<close>, \<open>Codec_Driver\<close>, \<open>Codec_Msgpack\<close>, \<open>Codec_Simple\<close>, \<open>Codec_Binc\<close>, \<open>Codec_Values\<close>
    (\<^verbatim>\<open>go-msgpack/codec\<close>): readers and writers, the three formats as records of operations, of which an
    encoder is modelled by the calls it makes to its writer, and \<^verbatim>\<open>Encoder\<close> and \<^verbatim>\<open>Decoder\<close> over any of them.
  \<^item> \<open>Mirror\<close>, \<open>Stare\<close> (\<^verbatim>\<open>utils/mirror\<close>, \<^verbatim>\<open>utils/stare\<close>): the two tools as step relations.
  \<^item> \<open>Dns_Properties\<close>, \<open>Consul_Properties\<close>, \<open>Agent_Properties\<close>, \<open>Metrics_Properties\<close>,
    \<open>Stats_Properties\<close>, \<open>Process_Properties\<close>, \<open>Dns_Library_Properties\<close>, \<open>Dns_Text_Properties\<close>,
    \<open>Dns_Wire_Properties\<close>, \<open>Dns_Compression\<close>, \<open>Dns_Struct_Properties\<close>, \<open>Dns_Record_Properties\<close>,
    \<open>Dns_Message_Properties\<close>, \<open>Dns_Unpack_Properties\<close>, \<open>Agent_Wire\<close>, \<open>Agent_Packets\<close>,
    \<open>Radix_Properties\<close>, \<open>Consul_Acl_Properties\<close>, \<open>Codec_Roundtrip\<close>, \<open>Codec_Laws\<close>,
    \<open>Codec_Msgpack_Properties\<close>, \<open>Codec_Simple_Properties\<close>, \<open>Codec_Binc_Properties\<close>: the
    theorems.

  \<^bold>\<open>Interfaces.\<close>  What a handler needs of a store is the locale \<open>sound_store\<close> (no panic, the DNS side
  of the world untouched); logging and metrics are instances of the locale \<open>store_middleware\<close>, which
  shows once that a wrapped store returns the results of the store below and stays sound; the locale
  \<open>single_reply\<close> describes a handler that computes one reply and writes it, and carries the lemma on
  the whole chain of handlers; \<open>dictionary\<close> has what a map over strings promises, and is interpreted on
  the radix tree; \<open>byte_source\<close> is what drivers rely on when they read, interpreted on both readers, and
  \<open>codec\<close> what a pair of drivers has to do for simple values and the beginnings of arrays and maps, so
  that whole values survive, interpreted on the drivers over both readers.  The others are interpreted on the Consul store, on the two middlewares, on the
  agent's store and on the agent's handler.

  \<^bold>\<open>What is shown.\<close>  Service discovery from end to end, and that every request with a question is
  answered exactly once, whatever complete lists or errors Consul returns, with its log line, durations
  and counts (\<open>Agent_Properties\<close>); the answer to each kind of
  question, the names of servers, rejected questions, the limit on UDP answers (\<open>Dns_Properties\<close>); the
  outcome of a lookup for each response of Consul and the request it makes, and, over a Consul agent that
  answers from a catalogue as it documents (\<open>answers_health\<close>), that registered services are found by
  exactly the lookups of their addresses (\<open>Consul_Properties\<close>); the
  invariant of metric vectors, registration and its inverse, that start-up does not panic
  (\<open>Metrics_Properties\<close>); reading \<^verbatim>\<open>consul info\<close> and registering its collector
  (\<open>Stats_Properties\<close>); how the process ends, by the error of a task or by a panic, that without
  panics it does end, and the bounds and counters of the tools (\<open>Process_Properties\<close>); dispatch and labels (\<open>Dns_Library_Properties\<close>); printing of names and copies
  of records (\<open>Dns_Text_Properties\<close>); packing and unpacking of names and strings
  (\<open>Dns_Wire_Properties\<close>).  The wire format in layers: a message is seen as a partial map from offsets to
  bytes, and what is packed keeps the part before it and can be read from every message that holds the
  new part.  This is shown for names, where the invariant of the compression map says that its entries
  are encodings of their names (\<open>Dns_Compression\<close>), for fields (\<open>Dns_Struct_Properties\<close>), structures
  and records (\<open>Dns_Record_Properties\<close>) and messages (\<open>Dns_Message_Properties\<close>), exactly for records
  whose A addresses are IPv4 addresses in 16-byte form, and gives that the agent's replies reach a client
  (\<open>Agent_Wire\<close>).  Unpacking of arbitrary bytes keeps the types of
  fields, and two kinds of records bring it down (\<open>Dns_Unpack_Properties\<close>).  The server serves a
  connection like the list of its framed messages, if no length is cut apart, and waits for what it has
  accepted (\<open>Dns_Serve\<close>), so that the
  agent answers packets with packets, and can be ended by one (\<open>Agent_Packets\<close>).  The radix tree
  refines a finite map (\<open>Radix_Properties\<close>), the cache a list in the order of use (\<open>Lru\<close>), the ACL
  decides by the longest rule, and the cache of ACLs is transparent until a parent changes or two rules
  have the same MD5 (\<open>Consul_Acl_Properties\<close>).  Values survive their encoding in MessagePack and in the
  simple format (\<open>Codec_Msgpack_Properties\<close>, \<open>Codec_Simple_Properties\<close>), and in binc without symbols
  up to lengths of sixteen bits and but for some negative integers; what it makes of the others is shown
  too (\<open>Codec_Binc_Properties\<close>).  Several theorems state
  behaviour that is hardly intended: the domain check without label boundary, the IPv4 address made of
  an IPv6 one, requests that end the process, colliding labels, the copies of some records.

  \<^bold>\<open>Parameters, bounds and fuel.\<close>  The HTTP exchange with Consul and its JSON decoder, the commands that
  are run, the clock, the network writes and the order in which Go visits a map are parameters.  Of the hypotheses
  on them \<^const>\<open>complete_decoder\<close> says that decoded lists have no nil pointers, \<^const>\<open>wire_backend\<close> that
  names and addresses in them are well formed, and \<^const>\<open>answers_health\<close> that the health endpoint
  selects what it documents.  Loops are
  structural or have a measure.  Only the retry loop of \<^verbatim>\<open>registerConsulCollector\<close> has fuel: it returns
  with any fuel above the number of failed attempts.  Values of gauges and counters are integers rounded
  to 53 bits; observed durations are kept as exact fractions.  The loop over the names of a HIP record may
  run forever and is a partial function, and so is \<^verbatim>\<open>GetACL\<close>, whose parents may form a cycle; it is
  shown when it returns.  MD5 and the HCL decoder are parameters; MD5 has 32
  hexadecimal digits, and the transparency of the cache excepts collisions.  Decoding into an interface has fuel for the
  depth of values; the round trips hold with any fuel from the depth of the encoded value on.  The capacity of a buffer is taken to be its length.  The
  round trip with compression is for names of at most ten labels without special characters, because
  unpacking follows at most ten pointers and keys of names with escapes are not those of their text.

  \<^bold>\<open>Not modelled.\<close>  Private record types, the text of whole messages, the sockets of the servers and
  their TSIG checks, \<^verbatim>\<open>ActivateAndServe\<close>, flag parsing, the quantiles of summaries, and the encoding of metrics over HTTP; the parts of
  vendored libraries that the agent does not call (zone files, DNSSEC, transfers, other Consul endpoints,
  HCL, protocol buffers).  Of the codecs: structures and other types that need reflection, registered
  extensions, and the codecs for \<^verbatim>\<open>net/rpc\<close>.
\<close>

end
